(* ===== verification/Prelude.thy ===== *)
theory Prelude
  imports Main "HOL-Library.Word"
begin

text \<open>
  Shared vocabulary of the development: the faults that the modelled C++ code can run into,
  results that carry a fault or a value, sequencing of such results, and the generic facts on
  lists that the component theories use.
\<close>

subsection \<open>Faults and results\<close>

text \<open>
  \<open>Undefined_behaviour\<close> is an access that C++ leaves undefined (a read or write outside an
  allocation, \<open>front()\<close> of an empty container, an iterator range whose end lies before its
  beginning); \<open>Assertion_failure\<close> is a failing \<open>assert\<close>; \<open>Thrown\<close> is an exception (\<open>ECA_ERROR\<close>)
  with its section and its message.
\<close>

datatype fault = Undefined_behaviour | Assertion_failure | Thrown string string

type_synonym 'a result = "fault + 'a"

definition bind_result :: "'a result \<Rightarrow> ('a \<Rightarrow> 'b result) \<Rightarrow> 'b result" where
  "bind_result r f = (case r of Inl e \<Rightarrow> Inl e | Inr x \<Rightarrow> f x)"

lemma bind_result_simps [simp]:
  "bind_result (Inl e) f = Inl e"
  "bind_result (Inr x) f = f x"
  by (simp_all add: bind_result_def)

lemma bind_result_Inr_iff:
  "bind_result r f = Inr y \<longleftrightarrow> (\<exists>x. r = Inr x \<and> f x = Inr y)"
  by (cases r) simp_all

lemma bind_result_assoc:
  "bind_result (bind_result r f) g = bind_result r (\<lambda>x. bind_result (f x) g)"
  by (cases r) simp_all

definition is_ok :: "'a result \<Rightarrow> bool" where
  "is_ok r = (case r of Inl _ \<Rightarrow> False | Inr _ \<Rightarrow> True)"

lemma is_ok_simps [simp]: "\<not> is_ok (Inl e)" "is_ok (Inr x)"
  by (simp_all add: is_ok_def)

lemma is_ok_iff: "is_ok r \<longleftrightarrow> (\<exists>x. r = Inr x)"
  by (cases r) simp_all

text \<open>A loop over a list whose body may fault: the first fault stops it.\<close>

fun fold_result :: "('a \<Rightarrow> 's \<Rightarrow> 's result) \<Rightarrow> 'a list \<Rightarrow> 's \<Rightarrow> 's result" where
  "fold_result f [] s = Inr s"
| "fold_result f (x # xs) s = bind_result (f x s) (fold_result f xs)"

lemma fold_result_append:
  "fold_result f (xs @ ys) s = bind_result (fold_result f xs s) (fold_result f ys)"
proof (induction xs arbitrary: s)
  case (Cons x xs)
  then show ?case by (cases "f x s") simp_all
qed simp

lemma fold_result_invariant:
  assumes "\<And>x s s'. x \<in> set xs \<Longrightarrow> I s \<Longrightarrow> f x s = Inr s' \<Longrightarrow> I s'"
    and "I s" and "fold_result f xs s = Inr s'"
  shows "I s'"
  using assms
proof (induction xs arbitrary: s)
  case (Cons x xs)
  from Cons.prems(3) obtain t where t: "f x s = Inr t" "fold_result f xs t = Inr s'"
    by (auto simp: bind_result_Inr_iff)
  have "I t"
    using Cons.prems(1)[of x s t] Cons.prems(2) t(1) by simp
  then show ?case
    using Cons.IH[OF _ _ t(2)] Cons.prems(1) by (meson list.set_intros(2))
qed simp

lemma fold_result_ok:
  assumes "\<And>x s. x \<in> set xs \<Longrightarrow> I s \<Longrightarrow> \<exists>s'. f x s = Inr s' \<and> I s'" and "I s"
  shows "\<exists>s'. fold_result f xs s = Inr s' \<and> I s'"
  using assms
proof (induction xs arbitrary: s)
  case (Cons x xs)
  obtain t where "f x s = Inr t" "I t" using Cons.prems(1)[of x s] Cons.prems(2) by auto
  then show ?case using Cons.IH[of t] Cons.prems(1) by simp
qed simp

subsection \<open>Lists\<close>

lemma takeWhile_eq_self_iff: "takeWhile P xs = xs \<longleftrightarrow> (\<forall>x \<in> set xs. P x)"
  by (metis set_takeWhileD takeWhile_eq_all_conv)

lemma nth_append_middle: "i < length xs \<Longrightarrow> (us @ xs @ ys) ! (length us + i) = xs ! i"
  by (simp add: nth_append)

lemma butlast_snoc_eq: "xs \<noteq> [] \<Longrightarrow> butlast xs @ [last xs] = xs"
  by simp

end
