(* ===== verification/Kvu_Strings.thy ===== *)
theory Kvu_Strings
  imports Prelude
begin

text \<open>
  Model of kvutils/kvu_utils.cpp and kvutils/kvu_numtostr.cpp: the string scanners that every
  configuration string of the program goes through (tokenising, escaping, the
  \<open>name:arg1,arg2,...\<close> argument syntax, search and replace, trimming) and the integer printers.

  A \<open>std::string\<close> is a list of bytes (\<open>char\<close>), an iterator into it an index, and \<open>end()\<close> the
  length. Loops over iterators become recursions over the remaining characters or over the
  index. Character classes (\<open>isspace\<close>, \<open>toupper\<close>, \<open>tolower\<close>) are those of the C locale.
\<close>

subsection \<open>Character classes\<close>

abbreviation quote_char :: char where "quote_char \<equiv> CHR 0x22"
abbreviation backslash :: char where "backslash \<equiv> CHR 0x5C"
abbreviation space_char :: char where "space_char \<equiv> CHR 0x20"
abbreviation comma :: char where "comma \<equiv> CHR 0x2C"
abbreviation colon :: char where "colon \<equiv> CHR 0x3A"
abbreviation dash :: char where "dash \<equiv> CHR 0x2D"

definition isspace :: "char \<Rightarrow> bool" where
  "isspace c = (c = space_char \<or> c = CHR 0x09 \<or> c = CHR 0x0A \<or> c = CHR 0x0B \<or> c = CHR 0x0C \<or> c = CHR 0x0D)"

definition toupper :: "char \<Rightarrow> char" where
  "toupper c = (let n = (of_char c :: nat) in if 97 \<le> n \<and> n \<le> 122 then char_of (n - 32) else c)"

definition tolower :: "char \<Rightarrow> char" where
  "tolower c = (let n = (of_char c :: nat) in if 65 \<le> n \<and> n \<le> 90 then char_of (n + 32) else c)"

subsection \<open>Escaping\<close>

definition is_regex_meta :: "char \<Rightarrow> bool" where
  "is_regex_meta c = (c = CHR 0x5E \<or> c = CHR 0x2E \<or> c = CHR 0x5B \<or> c = CHR 0x5D \<or> c = CHR 0x24 \<or>
     c = CHR 0x28 \<or> c = CHR 0x29 \<or> c = CHR 0x7C \<or> c = CHR 0x2A \<or> c = CHR 0x2B \<or>
     c = CHR 0x3F \<or> c = CHR 0x7B \<or> c = CHR 0x7D \<or> c = backslash)"

fun kvu_string_regex_meta_escape :: "string \<Rightarrow> string" where
  "kvu_string_regex_meta_escape [] = []"
| "kvu_string_regex_meta_escape (c # cs) =
     (if is_regex_meta c then [backslash, c] else [c]) @ kvu_string_regex_meta_escape cs"

definition is_shell_meta :: "char \<Rightarrow> bool" where
  "is_shell_meta c = (c = quote_char \<or> c = CHR 0x27 \<or> c = space_char \<or> c = CHR 0x7C \<or> c = CHR 0x26 \<or>
     c = CHR 0x3B \<or> c = CHR 0x28 \<or> c = CHR 0x29 \<or> c = CHR 0x3C \<or> c = CHR 0x3E)"

fun kvu_string_shell_meta_escape :: "string \<Rightarrow> string" where
  "kvu_string_shell_meta_escape [] = []"
| "kvu_string_shell_meta_escape (c # cs) =
     (if is_shell_meta c then [backslash, c] else [c]) @ kvu_string_shell_meta_escape cs"

subsection \<open>Splitting at separators\<close>

text \<open>
  The three splitters share their loop: characters are collected in \<open>stmp\<close>; at a separator a
  non-empty \<open>stmp\<close> is converted (\<open>atoi\<close> in the integer version) and appended to \<open>vec\<close>.
\<close>

fun split_loop :: "(char \<Rightarrow> bool) \<Rightarrow> (string \<Rightarrow> 'a) \<Rightarrow> string \<Rightarrow> string \<Rightarrow> 'a list \<Rightarrow> 'a list" where
  "split_loop sep conv [] stmp vec = (if stmp = [] then vec else vec @ [conv stmp])"
| "split_loop sep conv (c # cs) stmp vec =
     (if \<not> sep c then split_loop sep conv cs (stmp @ [c]) vec
      else if stmp = [] then split_loop sep conv cs stmp vec
      else split_loop sep conv cs [] (vec @ [conv stmp]))"

definition kvu_string_to_tokens :: "string \<Rightarrow> string list" where
  "kvu_string_to_tokens s = split_loop isspace (\<lambda>t. t) s [] []"

definition kvu_string_to_words :: "string \<Rightarrow> string list" where
  "kvu_string_to_words s = kvu_string_to_tokens s"

definition kvu_string_to_vector :: "string \<Rightarrow> char \<Rightarrow> string list" where
  "kvu_string_to_vector str separator = split_loop (\<lambda>c. c = separator) (\<lambda>t. t) str [] []"

definition is_digit :: "char \<Rightarrow> bool" where
  "is_digit c = (48 \<le> (of_char c :: nat) \<and> (of_char c :: nat) \<le> 57)"

definition digit_value :: "char \<Rightarrow> int" where
  "digit_value c = int (of_char c) - 48"

text \<open>
  \<open>atoi\<close>: white space is skipped, one sign is read, then the digits up to the first other
  character; no digit gives 0. (The C function leaves values outside \<open>int\<close> undefined.)
\<close>

definition atoi_digits :: "string \<Rightarrow> int" where
  "atoi_digits s = foldl (\<lambda>n c. 10 * n + digit_value c) 0 (takeWhile is_digit s)"

definition atoi :: "string \<Rightarrow> int" where
  "atoi s = (case dropWhile isspace s of
     [] \<Rightarrow> 0
   | c # cs \<Rightarrow> (if c = dash then - atoi_digits cs
                else if c = CHR 0x2B then atoi_digits cs
                else atoi_digits (c # cs)))"

definition kvu_string_to_int_vector :: "string \<Rightarrow> char \<Rightarrow> int list" where
  "kvu_string_to_int_vector str separator = split_loop (\<lambda>c. c = separator) atoi str [] []"

text \<open>
  The quote-aware tokeniser: a double quote toggles \<open>quoteflag\<close> and stays in the token; a
  backslash is dropped and the character after it is taken as it is (a backslash that ends the
  string ends the loop); white space ends a token only outside quotes.
\<close>

fun tokens_quoted_loop :: "string \<Rightarrow> string \<Rightarrow> bool \<Rightarrow> string list \<Rightarrow> string list" where
  "tokens_quoted_loop [] stmp quoteflag vec = (if stmp = [] then vec else vec @ [stmp])"
| "tokens_quoted_loop (c # cs) stmp quoteflag vec =
     (if c = quote_char then tokens_quoted_loop cs (stmp @ [c]) (\<not> quoteflag) vec
      else if c = backslash then
        (case cs of
           [] \<Rightarrow> (if stmp = [] then vec else vec @ [stmp])
         | d # ds \<Rightarrow> tokens_quoted_loop ds (stmp @ [d]) quoteflag vec)
      else if \<not> isspace c \<or> quoteflag then tokens_quoted_loop cs (stmp @ [c]) quoteflag vec
      else if stmp = [] then tokens_quoted_loop cs stmp quoteflag vec
      else tokens_quoted_loop cs [] quoteflag (vec @ [stmp]))"

definition kvu_string_to_tokens_quoted :: "string \<Rightarrow> string list" where
  "kvu_string_to_tokens_quoted s = tokens_quoted_loop s [] False []"

subsection \<open>Joining and replacing\<close>

fun kvu_vector_to_string :: "string list \<Rightarrow> string \<Rightarrow> string" where
  "kvu_vector_to_string [] separator = []"
| "kvu_vector_to_string [x] separator = x"
| "kvu_vector_to_string (x # y # xs) separator = x @ separator @ kvu_vector_to_string (y # xs) separator"

definition search_and_replace_char :: "string \<Rightarrow> char \<Rightarrow> char \<Rightarrow> string" where
  "search_and_replace_char str pat to = map (\<lambda>c. if c = pat then to else c) str"

text \<open>\<open>string::find\<close>: the first occurrence of a pattern at or after a position.\<close>

fun find_first :: "string \<Rightarrow> string \<Rightarrow> nat option" where
  "find_first pat [] = (if pat = [] then Some 0 else None)"
| "find_first pat (c # cs) =
     (if take (length pat) (c # cs) = pat then Some 0 else map_option Suc (find_first pat cs))"

definition string_find :: "string \<Rightarrow> string \<Rightarrow> nat \<Rightarrow> nat option" where
  "string_find s pat pos =
     (if length s < pos then None else map_option (\<lambda>i. pos + i) (find_first pat (drop pos s)))"

definition string_replace :: "string \<Rightarrow> nat \<Rightarrow> nat \<Rightarrow> string \<Rightarrow> string" where
  "string_replace s pos n new = take pos s @ new @ drop (pos + n) s"

text \<open>The loop has no bound in the source; \<open>None\<close> is "does not return".\<close>

partial_function (option) search_and_replace_loop :: "string \<Rightarrow> string \<Rightarrow> string \<Rightarrow> nat \<Rightarrow> string option" where
  "search_and_replace_loop pat to tmp pos =
     (case string_find tmp pat pos of
        None \<Rightarrow> Some tmp
      | Some p \<Rightarrow> search_and_replace_loop pat to (string_replace tmp p (length pat) to)
                   (p + (if length to > length pat then length to else length pat)))"

definition kvu_string_search_and_replace :: "string \<Rightarrow> string \<Rightarrow> string \<Rightarrow> string option" where
  "kvu_string_search_and_replace str pat to = search_and_replace_loop pat to str 0"

fun kvu_vector_search_and_replace :: "string list \<Rightarrow> string \<Rightarrow> string \<Rightarrow> string list option" where
  "kvu_vector_search_and_replace [] pat to = Some []"
| "kvu_vector_search_and_replace (s # ss) pat to =
     (case kvu_string_search_and_replace s pat to of
        None \<Rightarrow> None
      | Some t \<Rightarrow> map_option (\<lambda>ts. t # ts) (kvu_vector_search_and_replace ss pat to))"

subsection \<open>Trimming and case\<close>

definition kvu_remove_trailing_spaces :: "string \<Rightarrow> string" where
  "kvu_remove_trailing_spaces a = rev (dropWhile (\<lambda>c. c = space_char) (rev a))"

definition kvu_remove_preceding_spaces :: "string \<Rightarrow> string" where
  "kvu_remove_preceding_spaces a = dropWhile (\<lambda>c. c = space_char) a"

text \<open>
  \<open>kvu_remove_surrounding_spaces\<close> scans from both ends with iterators and builds the string of
  the range \<open>[p, q + 1)\<close>. On the empty string \<open>a.end() - 1\<close> lies before the string; on a
  string of two or more spaces the range is reversed. Both are undefined behaviour.
\<close>

fun back_scan :: "string \<Rightarrow> nat \<Rightarrow> nat" where
  "back_scan a 0 = 0"
| "back_scan a (Suc q) = (if a ! Suc q = space_char then back_scan a q else Suc q)"

definition kvu_remove_surrounding_spaces :: "string \<Rightarrow> string result" where
  "kvu_remove_surrounding_spaces a =
     (if a = [] then Inl Undefined_behaviour
      else let p = length (takeWhile (\<lambda>c. c = space_char) a);
               q = back_scan a (length a - 1)
           in if p \<le> q + 1 then Inr (take (q + 1 - p) (drop p a)) else Inl Undefined_behaviour)"

definition kvu_convert_to_uppercase :: "string \<Rightarrow> string" where
  "kvu_convert_to_uppercase a = map toupper a"

definition kvu_convert_to_lowercase :: "string \<Rightarrow> string" where
  "kvu_convert_to_lowercase a = map tolower a"

definition kvu_string_icmp :: "string \<Rightarrow> string \<Rightarrow> bool" where
  "kvu_string_icmp first second =
     (kvu_convert_to_uppercase (kvu_remove_preceding_spaces (kvu_remove_trailing_spaces first)) =
      kvu_convert_to_uppercase (kvu_remove_preceding_spaces (kvu_remove_trailing_spaces second)))"

subsection \<open>The splitters against a reference\<close>

text \<open>The fields of a string: its maximal non-empty runs of characters that are no separators.\<close>

function fields :: "(char \<Rightarrow> bool) \<Rightarrow> string \<Rightarrow> string list" where
  "fields sep s =
     (let t = dropWhile sep s
      in if t = [] then []
         else takeWhile (\<lambda>c. \<not> sep c) t # fields sep (dropWhile (\<lambda>c. \<not> sep c) t))"
  by pat_completeness auto
termination
proof (relation "measure (\<lambda>(sep, s). length s)", goal_cases)
  case (2 sep s t)
  then obtain c u where t: "t = c # u" by (meson list.exhaust)
  then have "\<not> sep c" using hd_dropWhile[of sep s] 2 by (metis list.sel(1))
  then have "length (dropWhile (\<lambda>c. \<not> sep c) t) < length t"
    by (simp add: t le_imp_less_Suc length_dropWhile_le)
  moreover have "length t \<le> length s" using 2 by (simp add: length_dropWhile_le)
  ultimately show ?case by simp
qed simp

declare fields.simps [simp del]

lemma fields_Nil [simp]: "fields sep [] = []"
  by (subst fields.simps) simp

lemma fields_sep [simp]: "sep c \<Longrightarrow> fields sep (c # cs) = fields sep cs"
  by (subst (1 2) fields.simps) simp

lemma fields_run:
  assumes "t \<noteq> []" "\<forall>c \<in> set t. \<not> sep c" "s = [] \<or> sep (hd s)"
  shows "fields sep (t @ s) = t # fields sep s"
proof -
  have d: "dropWhile sep (t @ s) = t @ s"
    using assms(1,2) by (cases t) simp_all
  have tw: "takeWhile (\<lambda>c. \<not> sep c) (t @ s) = t"
    using assms(2,3) by (cases s) (simp_all add: takeWhile_tail)
  have dw: "dropWhile (\<lambda>c. \<not> sep c) (t @ s) = s"
    using assms(2,3) by (cases s) (simp_all add: dropWhile_append2)
  show ?thesis
    using assms(1) by (subst fields.simps) (simp add: Let_def d tw dw)
qed

lemma fields_all:
  assumes "t \<noteq> []" "\<forall>c \<in> set t. \<not> sep c"
  shows "fields sep t = [t]"
  using fields_run[OF assms, of "[]"] by simp

lemma split_loop_fields:
  assumes "\<forall>c \<in> set stmp. \<not> sep c"
  shows "split_loop sep conv s stmp vec = vec @ map conv (fields sep (stmp @ s))"
  using assms
proof (induction s arbitrary: stmp vec)
  case Nil
  then show ?case by (cases "stmp = []") (simp_all add: fields_all)
next
  case (Cons c cs)
  show ?case
  proof (cases "sep c")
    case False
    then show ?thesis using Cons.IH[of "stmp @ [c]" vec] Cons.prems by simp
  next
    case True
    show ?thesis
    proof (cases "stmp = []")
      case True
      then show ?thesis using \<open>sep c\<close> Cons.IH[of "[]" vec] by simp
    next
      case False
      then have "fields sep (stmp @ c # cs) = stmp # fields sep (c # cs)"
        using True Cons.prems by (intro fields_run) simp_all
      then show ?thesis
        using True False Cons.IH[of "[]" "vec @ [conv stmp]"] by simp
    qed
  qed
qed

lemma tokens_fields: "kvu_string_to_tokens s = fields isspace s"
  by (simp add: kvu_string_to_tokens_def split_loop_fields)

lemma vector_fields: "kvu_string_to_vector s sep = fields (\<lambda>c. c = sep) s"
  by (simp add: kvu_string_to_vector_def split_loop_fields)

lemma int_vector_fields: "kvu_string_to_int_vector s sep = map atoi (fields (\<lambda>c. c = sep) s)"
  by (simp add: kvu_string_to_int_vector_def split_loop_fields)

lemma fields_nonempty_sepfree:
  "t \<in> set (fields sep s) \<Longrightarrow> t \<noteq> [] \<and> (\<forall>c \<in> set t. \<not> sep c)"
proof (induction sep s rule: fields.induct)
  case (1 sep s)
  define u where "u = dropWhile sep s"
  have u: "u \<noteq> []"
    using "1.prems" by (subst (asm) fields.simps) (auto simp: u_def Let_def split: if_splits)
  then have h: "\<not> sep (hd u)" using hd_dropWhile u_def by blast
  have "fields sep s = takeWhile (\<lambda>c. \<not> sep c) u # fields sep (dropWhile (\<lambda>c. \<not> sep c) u)"
    using u by (subst fields.simps) (simp add: u_def Let_def)
  then consider "t = takeWhile (\<lambda>c. \<not> sep c) u" | "t \<in> set (fields sep (dropWhile (\<lambda>c. \<not> sep c) u))"
    using "1.prems" by auto
  then show ?case
  proof cases
    case 1
    then show ?thesis using u h by (cases u) (auto dest: set_takeWhileD)
  next
    case 2
    then show ?thesis using "1.IH"[OF u_def] u by blast
  qed
qed

lemma concat_fields: "concat (fields sep s) = filter (\<lambda>c. \<not> sep c) s"
proof (induction sep s rule: fields.induct)
  case (1 sep s)
  define u where "u = dropWhile sep s"
  have f: "filter (\<lambda>c. \<not> sep c) s = filter (\<lambda>c. \<not> sep c) u"
    unfolding u_def by (induction s) auto
  show ?case
  proof (cases "u = []")
    case True
    then show ?thesis using f by (subst fields.simps) (simp add: u_def Let_def)
  next
    case False
    then have fs: "fields sep s =
        takeWhile (\<lambda>c. \<not> sep c) u # fields sep (dropWhile (\<lambda>c. \<not> sep c) u)"
      by (subst fields.simps) (simp add: u_def[symmetric] Let_def del: dropWhile_eq_Nil_conv)
    have "filter (\<lambda>c. \<not> sep c) u =
        takeWhile (\<lambda>c. \<not> sep c) u @ filter (\<lambda>c. \<not> sep c) (dropWhile (\<lambda>c. \<not> sep c) u)"
      by (metis filter_append filter_True set_takeWhileD takeWhile_dropWhile_id)
    then show ?thesis
      using "1.IH"[OF u_def False] f by (simp only: fs concat.simps)
  qed
qed

lemma fields_join:
  assumes "\<forall>x \<in> set xs. x \<noteq> [] \<and> sep \<notin> set x"
  shows "fields (\<lambda>c. c = sep) (kvu_vector_to_string xs [sep]) = xs"
  using assms
proof (induction xs "[sep]" rule: kvu_vector_to_string.induct)
  case 1
  then show ?case by simp
next
  case (2 x)
  then show ?case by (auto intro!: fields_all)
next
  case (3 x y xs)
  have "fields (\<lambda>c. c = sep) (x @ sep # kvu_vector_to_string (y # xs) [sep]) =
      x # fields (\<lambda>c. c = sep) (sep # kvu_vector_to_string (y # xs) [sep])"
    using 3 by (intro fields_run) auto
  then show ?case using 3 by simp
qed

subsection \<open>Shell escaping against the quote-aware tokeniser\<close>

lemma tokens_quoted_escape:
  assumes "backslash \<notin> set s" "\<forall>c \<in> set s. isspace c \<longrightarrow> c = space_char" "stmp @ s \<noteq> []"
  shows "tokens_quoted_loop (kvu_string_shell_meta_escape s) stmp False vec = vec @ [stmp @ s]"
  using assms
proof (induction s arbitrary: stmp)
  case (Cons c cs)
  then have "tokens_quoted_loop (kvu_string_shell_meta_escape cs) (stmp @ [c]) False vec =
      vec @ [(stmp @ [c]) @ cs]"
    by (intro Cons.IH) simp_all
  then show ?case
    using Cons.prems by (auto simp: is_shell_meta_def)
qed simp

subsection \<open>Regex escaping\<close>

text \<open>The reader of an escaped expression: a backslash makes the next character literal.\<close>

fun unescape :: "string \<Rightarrow> string" where
  "unescape [] = []"
| "unescape [c] = [c]"
| "unescape (c # d # cs) = (if c = backslash then d # unescape cs else c # unescape (d # cs))"

lemma unescape_Cons: "c \<noteq> backslash \<Longrightarrow> unescape (c # cs) = c # unescape cs"
  by (cases cs) simp_all

lemma unescape_regex_escape: "unescape (kvu_string_regex_meta_escape s) = s"
proof (induction s)
  case (Cons c cs)
  have "\<not> is_regex_meta c \<Longrightarrow> c \<noteq> backslash" by (auto simp: is_regex_meta_def)
  then show ?case using Cons by (auto simp: unescape_Cons)
qed simp

subsection \<open>Search and replace\<close>

lemma find_first_spec:
  "find_first pat s = Some p \<Longrightarrow> p + length pat \<le> length s \<and> take (length pat) (drop p s) = pat"
proof (induction s arbitrary: p)
  case Nil
  then show ?case by (simp split: if_splits)
next
  case (Cons c cs)
  show ?case
  proof (cases "take (length pat) (c # cs) = pat")
    case True
    then have "length pat \<le> length (c # cs)"
      by (metis length_take min.cobounded1)
    then show ?thesis using True Cons.prems by simp
  next
    case False
    then obtain j where "find_first pat cs = Some j" "p = Suc j"
      using Cons.prems by auto
    then show ?thesis using Cons.IH by simp
  qed
qed

lemma find_first_Nil [simp]: "find_first [] s = Some 0"
  by (cases s) simp_all

text \<open>
  What the function is for: every occurrence, from the left and without overlaps, replaced.
  \<open>skip\<close> is the number of characters of the remaining text that the loop steps over after a
  replacement; the reference steps over none.
\<close>

function replace_skipping :: "nat \<Rightarrow> string \<Rightarrow> string \<Rightarrow> string \<Rightarrow> string" where
  "replace_skipping skip pat to s =
     (case find_first pat s of
        None \<Rightarrow> s
      | Some p \<Rightarrow>
          (if pat = [] then s
           else let rest = drop (p + length pat) s
                in take p s @ to @ take skip rest @ replace_skipping skip pat to (drop skip rest)))"
  by pat_completeness auto
termination
proof (relation "measure (\<lambda>(skip, pat, to, s). length s)", goal_cases)
  case (2 skip pat to s p rest)
  then have "p + length pat \<le> length s" "0 < length pat" "length rest = length s - (p + length pat)"
    using find_first_spec[of pat s p] by simp_all
  then have "length rest < length s" by linarith
  then show ?case by simp
qed simp

declare replace_skipping.simps [simp del]

abbreviation replace_all :: "string \<Rightarrow> string \<Rightarrow> string \<Rightarrow> string" where
  "replace_all \<equiv> replace_skipping 0"

lemma replace_skipping_None [simp]:
  "find_first pat s = None \<Longrightarrow> replace_skipping skip pat to s = s"
  by (subst replace_skipping.simps) simp

lemma search_and_replace_loop_eq:
  assumes "pat \<noteq> []"
  shows "search_and_replace_loop pat to (a @ s) (length a) =
    Some (a @ replace_skipping (length pat - length to) pat to s)"
  using assms
proof (induction s arbitrary: a rule: length_induct)
  case (1 s)
  let ?k = "length pat - length to"
  show ?case
  proof (cases "find_first pat s")
    case None
    then show ?thesis
      by (subst search_and_replace_loop.simps) (simp add: string_find_def)
  next
    case (Some p)
    define rest where "rest = drop (p + length pat) s"
    have p: "p + length pat \<le> length s" using find_first_spec[OF Some] by simp
    have "0 < length pat" "length rest = length s - (p + length pat)"
      using 1(2) by (simp_all add: rest_def)
    then have rest: "length rest < length s" using p by linarith
    have find: "string_find (a @ s) pat (length a) = Some (length a + p)"
      using Some by (simp add: string_find_def)
    have rep: "string_replace (a @ s) (length a + p) (length pat) to = a @ take p s @ to @ rest"
      by (simp add: string_replace_def rest_def add.assoc)
    have eq: "replace_skipping ?k pat to s =
        take p s @ to @ take ?k rest @ replace_skipping ?k pat to (drop ?k rest)"
      using Some 1(2) by (subst replace_skipping.simps) (simp add: rest_def)
    have pos: "length a + p + (if length to > length pat then length to else length pat) =
        length (a @ take p s @ to) + ?k"
      using p by (simp add: min_def)
    have step: "search_and_replace_loop pat to (a @ s) (length a) =
        search_and_replace_loop pat to (a @ take p s @ to @ rest) (length (a @ take p s @ to) + ?k)"
      by (subst search_and_replace_loop.simps) (simp only: find option.case rep pos)
    show ?thesis
    proof (cases "?k \<le> length rest")
      case True
      let ?b = "a @ take p s @ to @ take ?k rest"
      have b: "length ?b = length (a @ take p s @ to) + ?k" using True by simp
      have "length (drop ?k rest) < length s" using rest by simp
      then have "search_and_replace_loop pat to (?b @ drop ?k rest) (length ?b) =
          Some (?b @ replace_skipping ?k pat to (drop ?k rest))"
        using 1(1) 1(2) by blast
      then show ?thesis
        unfolding b by (simp only: step eq append_assoc append_take_drop_id)
    next
      case False
      then have "length (a @ take p s @ to @ rest) < length (a @ take p s @ to) + ?k" by simp
      then have "string_find (a @ take p s @ to @ rest) pat (length (a @ take p s @ to) + ?k) = None"
        by (simp only: string_find_def if_True)
      then have "search_and_replace_loop pat to (a @ take p s @ to @ rest) (length (a @ take p s @ to) + ?k) =
          Some (a @ take p s @ to @ rest)"
        by (subst search_and_replace_loop.simps) simp
      moreover have "find_first pat [] = None" using 1(2) by simp
      ultimately show ?thesis
        using False by (simp only: step eq) simp
    qed
  qed
qed

lemma search_and_replace_loop_diverges:
  assumes "search_and_replace_loop pat to tmp pos = Some r"
  shows "pat = [] \<longrightarrow> length tmp < pos"
proof (rule search_and_replace_loop.raw_induct
    [where P = "\<lambda>pat to tmp pos r. pat = [] \<longrightarrow> length tmp < pos", OF _ assms])
  fix f pat to tmp pos r
  assume IH: "\<And>pat to tmp pos r. f pat to tmp pos = Some r \<Longrightarrow> pat = [] \<longrightarrow> length tmp < pos"
    and eq: "(case string_find tmp pat pos of None \<Rightarrow> Some tmp
      | Some p \<Rightarrow> f pat to (string_replace tmp p (length pat) to)
          (p + (if length to > length pat then length to else length pat))) = Some r"
  show "pat = [] \<longrightarrow> length tmp < pos"
  proof
    assume [simp]: "pat = []"
    show "length tmp < pos"
    proof (rule ccontr)
      assume "\<not> length tmp < pos"
      then have "f [] to (string_replace tmp pos 0 to) (pos + length to) = Some r"
        using eq by (simp add: string_find_def split: if_splits)
      then have "length (string_replace tmp pos 0 to) < pos + length to" using IH by blast
      then show False using \<open>\<not> length tmp < pos\<close> by (simp add: string_replace_def)
    qed
  qed
qed

subsection \<open>Trimming\<close>

lemma back_scan_spec:
  assumes "q < length a" "\<exists>c \<in> set (take (Suc q) a). c \<noteq> space_char"
  shows "back_scan a q < length a \<and> a ! back_scan a q \<noteq> space_char \<and> back_scan a q \<le> q \<and>
    (\<forall>i. back_scan a q < i \<and> i \<le> q \<longrightarrow> a ! i = space_char)"
  using assms
proof (induction q)
  case 0
  then show ?case by (cases a) auto
next
  case (Suc q)
  show ?case
  proof (cases "a ! Suc q = space_char")
    case True
    have "\<exists>c \<in> set (take (Suc q) a). c \<noteq> space_char"
      using Suc.prems True by (simp add: take_Suc_conv_app_nth[of "Suc q"])
    then have "back_scan a q < length a \<and> a ! back_scan a q \<noteq> space_char \<and> back_scan a q \<le> q \<and>
        (\<forall>i. back_scan a q < i \<and> i \<le> q \<longrightarrow> a ! i = space_char)"
      using Suc.IH Suc.prems(1) by simp
    then show ?thesis using True by (simp add: le_Suc_eq) blast
  next
    case False
    then show ?thesis using Suc.prems by auto
  qed
qed

lemma back_scan_all_space:
  assumes "q < length a" "\<forall>c \<in> set (take (Suc q) a). c = space_char"
  shows "back_scan a q = 0"
  using assms
proof (induction q)
  case (Suc q)
  then have "a ! Suc q = space_char"
    by (simp add: take_Suc_conv_app_nth[of "Suc q"])
  then show ?case using Suc by (simp add: take_Suc_conv_app_nth[of "Suc q"])
qed simp

lemma surrounding_spaces_trim:
  assumes "\<exists>c \<in> set a. c \<noteq> space_char"
  shows "kvu_remove_surrounding_spaces a =
    Inr (kvu_remove_preceding_spaces (kvu_remove_trailing_spaces a))"
proof -
  let ?p = "length (takeWhile (\<lambda>c. c = space_char) a)" and ?q = "back_scan a (length a - 1)"
  have a: "a \<noteq> []" using assms by auto
  have q: "?q < length a" "a ! ?q \<noteq> space_char" "\<forall>i. ?q < i \<and> i < length a \<longrightarrow> a ! i = space_char"
    using back_scan_spec[of "length a - 1" a] assms a by auto
  have "?p \<le> ?q"
  proof (rule ccontr)
    assume "\<not> ?p \<le> ?q"
    then have "?q < ?p" by simp
    then have "takeWhile (\<lambda>c. c = space_char) a ! ?q \<in> set (takeWhile (\<lambda>c. c = space_char) a)"
      by (rule nth_mem)
    then have "a ! ?q = space_char"
      using takeWhile_nth[OF \<open>?q < ?p\<close>] set_takeWhileD by metis
    then show False using q(2) by simp
  qed
  have split: "a = take (Suc ?q) a @ drop (Suc ?q) a" by simp
  have tail: "\<forall>c \<in> set (rev (drop (Suc ?q) a)). c = space_char"
    using q(3) by (auto simp: in_set_conv_nth)
  have last: "take (Suc ?q) a \<noteq> []" "last (take (Suc ?q) a) = a ! ?q"
    using q(1) by (simp_all add: take_Suc_conv_app_nth a)
  have "dropWhile (\<lambda>c. c = space_char) (rev a) = rev (take (Suc ?q) a)"
  proof -
    have "rev a = rev (drop (Suc ?q) a) @ rev (take (Suc ?q) a)" by (metis rev_append split)
    then have "dropWhile (\<lambda>c. c = space_char) (rev a) =
        dropWhile (\<lambda>c. c = space_char) (rev (take (Suc ?q) a))"
      using tail by (simp only: dropWhile_append2)
    also have "\<dots> = rev (take (Suc ?q) a)"
      using last q(2) by (simp add: dropWhile_eq_self_iff hd_rev)
    finally show ?thesis .
  qed
  then have trail: "kvu_remove_trailing_spaces a = take (Suc ?q) a"
    by (simp add: kvu_remove_trailing_spaces_def)
  have "takeWhile (\<lambda>c. c = space_char) (take (Suc ?q) a) = takeWhile (\<lambda>c. c = space_char) a"
  proof -
    have "a ! ?q \<in> set (take (Suc ?q) a)" using last by (metis last_in_set)
    then show ?thesis
      using takeWhile_append1[of "a ! ?q" "take (Suc ?q) a" "\<lambda>c. c = space_char" "drop (Suc ?q) a"] q(2)
      by simp
  qed
  then have "dropWhile (\<lambda>c. c = space_char) (take (Suc ?q) a) = drop ?p (take (Suc ?q) a)"
    by (metis dropWhile_eq_drop)
  then show ?thesis
    using trail a \<open>?p \<le> ?q\<close>
    by (simp add: kvu_remove_surrounding_spaces_def kvu_remove_preceding_spaces_def Let_def take_drop)
qed

lemma surrounding_spaces_blank:
  assumes "\<forall>c \<in> set a. c = space_char"
  shows "kvu_remove_surrounding_spaces a = (if length a = 1 then Inr [] else Inl Undefined_behaviour)"
proof (cases "a = []")
  case True
  then show ?thesis by (simp add: kvu_remove_surrounding_spaces_def)
next
  case False
  then have q: "back_scan a (length a - 1) = 0"
    using assms by (intro back_scan_all_space) auto
  have p: "takeWhile (\<lambda>c. c = space_char) a = a" using assms by (simp add: takeWhile_eq_self_iff)
  have "length a \<le> 0 + 1 \<longleftrightarrow> length a = 1" using False by (cases a) auto
  then show ?thesis
    using False by (simp only: kvu_remove_surrounding_spaces_def Let_def q p) simp
qed

subsection \<open>Properties\<close>

text \<open>
  C40. The splitters compute the fields of the string: the maximal non-empty runs between
  separators, in order, whatever the number of separators around and between them (white space
  for the tokeniser, one given character for the vectors, each field through \<open>atoi\<close> in the
  integer version).
\<close>

theorem splitters_compute_fields:
  "kvu_string_to_tokens s = fields isspace s \<and>
   kvu_string_to_vector s sep = fields (\<lambda>c. c = sep) s \<and>
   kvu_string_to_int_vector s sep = map atoi (fields (\<lambda>c. c = sep) s)"
  by (simp add: tokens_fields vector_fields int_vector_fields)

text \<open>
  Joining a vector with a one-character separator and splitting the result gives the vector
  back, for any number of items that are non-empty and free of the separator.
\<close>

theorem vector_string_roundtrip:
  assumes "\<forall>x \<in> set xs. x \<noteq> [] \<and> sep \<notin> set x"
  shows "kvu_string_to_vector (kvu_vector_to_string xs [sep]) sep = xs"
  using fields_join[OF assms] by (simp add: vector_fields)

theorem vector_string_roundtrip_witness:
  "kvu_string_to_vector (kvu_vector_to_string [''left'', ''right'', ''mono''] [comma]) comma =
    [''left'', ''right'', ''mono'']"
  by (rule vector_string_roundtrip) simp

text \<open>
  A string escaped for the shell is one token of the quote-aware tokeniser, and the token is
  the string itself: for every non-empty string without backslashes whose only white space are
  blanks (other white space is not escaped, and a backslash is not escaped either).
\<close>

theorem shell_escape_is_one_token:
  assumes "s \<noteq> []" "backslash \<notin> set s" "\<forall>c \<in> set s. isspace c \<longrightarrow> c = space_char"
  shows "kvu_string_to_tokens_quoted (kvu_string_shell_meta_escape s) = [s]"
  using tokens_quoted_escape[of s "[]" "[]"] assms by (simp add: kvu_string_to_tokens_quoted_def)

theorem shell_escape_is_one_token_witness:
  "kvu_string_to_tokens_quoted (kvu_string_shell_meta_escape ''my song (take 2).wav'') =
    [''my song (take 2).wav'']"
  by (rule shell_escape_is_one_token) (simp_all add: isspace_def)

text \<open>
  Search and replace returns exactly when the searched string is not empty; then every
  occurrence is replaced, from the left and without overlaps, but after each replacement the
  loop steps over \<open>length from - length to\<close> characters of the text that follows, without
  searching them. With a replacement at least as long as the searched string it steps over none.
\<close>

theorem search_and_replace_result:
  "(kvu_string_search_and_replace str pat to = None \<longleftrightarrow> pat = []) \<and>
   (pat \<noteq> [] \<longrightarrow>
     kvu_string_search_and_replace str pat to =
       Some (replace_skipping (length pat - length to) pat to str))"
proof -
  have "kvu_string_search_and_replace str [] to = None"
    using search_and_replace_loop_diverges[of "[]" to str 0]
    by (cases "kvu_string_search_and_replace str [] to") (auto simp: kvu_string_search_and_replace_def)
  moreover have "pat \<noteq> [] \<Longrightarrow> kvu_string_search_and_replace str pat to =
      Some (replace_skipping (length pat - length to) pat to str)"
    using search_and_replace_loop_eq[of pat to "[]" str]
    by (simp add: kvu_string_search_and_replace_def)
  ultimately show ?thesis by (cases "pat = []") simp_all
qed

theorem search_and_replace_result_witness:
  "kvu_string_search_and_replace ''a,b'' '','' ''\<newline>,'' =
    Some (replace_skipping 0 '','' ''\<newline>,'' ''a,b'')"
  using search_and_replace_result[of "''a,b''" "'',''" "''\<newline>,''"] by simp

text \<open>
  With a replacement shorter than the searched string, adjacent occurrences are missed: the
  second of two adjacent occurrences of \<open>ab\<close> survives the replacement by \<open>x\<close>.
\<close>

theorem search_and_replace_misses_adjacent:
  "kvu_string_search_and_replace ''abab'' ''ab'' ''x'' = Some ''xab''"
proof -
  have f: "find_first ''ab'' ''b'' = None" "find_first ''ab'' ''abab'' = Some 0" by simp_all
  show ?thesis
    using search_and_replace_result[of "''abab''" "''ab''" "''x''"]
    by (simp add: replace_skipping.simps[of _ _ _ "''abab''"] f replace_skipping_None[OF f(1)])
qed

text \<open>
  Trimming with \<open>kvu_remove_surrounding_spaces\<close> agrees with trimming the two ends one after
  the other on every string that holds a character other than a blank; on a string of blanks it
  returns only when there is exactly one, and is undefined on the empty string and on two or
  more blanks.
\<close>

theorem remove_surrounding_spaces_cases:
  "kvu_remove_surrounding_spaces a =
    (if \<exists>c \<in> set a. c \<noteq> space_char
     then Inr (kvu_remove_preceding_spaces (kvu_remove_trailing_spaces a))
     else if length a = 1 then Inr [] else Inl Undefined_behaviour)"
  using surrounding_spaces_trim[of a] surrounding_spaces_blank[of a] by auto

end
