(* ===== verification/Kvu_Args.thy ===== *)
theory Kvu_Args
  imports Kvu_Strings
begin

text \<open>
  Model of the argument syntax of kvutils/kvu_utils.cpp (\<open>-prefix:arg1,arg2,...,argN\<close>, with
  backslash escapes and double quotes) and of the integer printers of kvutils/kvu_numtostr.cpp.
\<close>

subsection \<open>Finding the next unescaped, unquoted separator\<close>

text \<open>\<open>std::find\<close> on the range from \<open>pos\<close> to the end; the end is the length of the string.\<close>

definition find_char :: "string \<Rightarrow> char \<Rightarrow> nat \<Rightarrow> nat" where
  "find_char s c pos = pos + length (takeWhile (\<lambda>x. x \<noteq> c) (drop pos s))"

lemma find_char_bounds:
  assumes "pos \<le> length s"
  shows "pos \<le> find_char s c pos" "find_char s c pos \<le> length s"
proof -
  have "length (takeWhile (\<lambda>x. x \<noteq> c) (drop pos s)) \<le> length (drop pos s)"
    by (rule length_takeWhile_le)
  then show "pos \<le> find_char s c pos" "find_char s c pos \<le> length s"
    using assms by (simp_all add: find_char_def)
qed

text \<open>
  The body of the loop up to the escape test: the separator found from \<open>curpos\<close>, after one
  quoted part of the string has been stepped over.
\<close>

definition next_instance_step :: "string \<Rightarrow> char \<Rightarrow> nat \<Rightarrow> nat" where
  "next_instance_step arg sep curpos =
     (let ret = find_char arg sep curpos;
          nextquote = find_char arg quote_char curpos
      in if nextquote < ret then
           let nextquote2 = find_char arg quote_char (nextquote + 1)
           in if nextquote2 \<noteq> length arg then find_char arg sep (nextquote2 + 1) else ret
         else ret)"

lemma next_instance_step_bounds:
  assumes "curpos \<le> length arg"
  shows "curpos \<le> next_instance_step arg sep curpos"
    "next_instance_step arg sep curpos \<le> length arg"
proof -
  let ?r = "find_char arg sep curpos" and ?q = "find_char arg quote_char curpos"
  let ?q2 = "find_char arg quote_char (?q + 1)"
  have r: "curpos \<le> ?r" "?r \<le> length arg" "curpos \<le> ?q" "?q \<le> length arg"
    using assms find_char_bounds[of curpos arg] by simp_all
  have "curpos \<le> next_instance_step arg sep curpos \<and>
      next_instance_step arg sep curpos \<le> length arg"
  proof (cases "?q < ?r \<and> ?q2 \<noteq> length arg")
    case True
    then have q: "?q + 1 \<le> length arg" using r by simp
    have q2: "?q + 1 \<le> ?q2" "?q2 + 1 \<le> length arg"
      using find_char_bounds[OF q, of quote_char] True by simp_all
    have "next_instance_step arg sep curpos = find_char arg sep (?q2 + 1)"
      using True by (simp add: next_instance_step_def Let_def)
    then show ?thesis using find_char_bounds[OF q2(2), of sep] q2 r by simp
  next
    case False
    then have "next_instance_step arg sep curpos = ?r"
      by (auto simp: next_instance_step_def Let_def)
    then show ?thesis using r by simp
  qed
  then show "curpos \<le> next_instance_step arg sep curpos"
    "next_instance_step arg sep curpos \<le> length arg" by simp_all
qed

function next_instance_loop :: "string \<Rightarrow> char \<Rightarrow> nat \<Rightarrow> nat \<Rightarrow> nat" where
  "next_instance_loop arg sep curpos prev_ret =
     (if curpos < length arg then
        let ret = next_instance_step arg sep curpos
        in if ret \<noteq> length arg \<and> ret \<noteq> 0 \<and> arg ! (ret - 1) = backslash
           then next_instance_loop arg sep (ret + 1) ret
           else ret
      else prev_ret)"
  by pat_completeness auto
termination
proof (relation "measure (\<lambda>(arg, sep, curpos, prev_ret). length arg - curpos)", goal_cases)
  case (2 arg sep curpos prev_ret ret)
  then have "curpos < length arg" "curpos \<le> ret" "ret \<le> length arg" "ret \<noteq> length arg"
    using next_instance_step_bounds[of curpos arg sep] by simp_all
  then show ?case by simp
qed simp

declare next_instance_loop.simps [simp del]

definition kvu_priv_find_next_instance :: "string \<Rightarrow> nat \<Rightarrow> char \<Rightarrow> nat" where
  "kvu_priv_find_next_instance arg start sep = next_instance_loop arg sep start (length arg)"

lemma next_instance_loop_bounds:
  assumes "lo \<le> curpos" "lo \<le> p" "p \<le> length arg"
  shows "lo \<le> next_instance_loop arg sep curpos p \<and>
         next_instance_loop arg sep curpos p \<le> length arg"
  using assms
proof (induction arg sep curpos p rule: next_instance_loop.induct)
  case (1 arg sep curpos p)
  show ?case
  proof (cases "curpos < length arg")
    case True
    then have b: "curpos \<le> next_instance_step arg sep curpos"
      "next_instance_step arg sep curpos \<le> length arg"
      using next_instance_step_bounds[of curpos arg sep] by simp_all
    then show ?thesis
      using "1.IH"[OF True refl] "1.prems" True
      by (subst (1 2) next_instance_loop.simps) (simp add: Let_def)
  next
    case False
    then show ?thesis
      using "1.prems" by (subst (1 2) next_instance_loop.simps) simp
  qed
qed

lemma find_next_instance_bounds:
  assumes "start \<le> length arg"
  shows "start \<le> kvu_priv_find_next_instance arg start sep"
    "kvu_priv_find_next_instance arg start sep \<le> length arg"
  using next_instance_loop_bounds[of start start "length arg" arg sep] assms
  by (simp_all add: kvu_priv_find_next_instance_def)

subsection \<open>Stripping escapes and quotes\<close>

lemma find_first_bound: "find_first pat s = Some i \<Longrightarrow> i + length pat \<le> length s"
proof (induction s arbitrary: i)
  case Nil
  then show ?case by (simp split: if_splits)
next
  case (Cons c cs)
  show ?case
  proof (cases "take (length pat) (c # cs) = pat")
    case True
    then have "length pat \<le> length (c # cs)"
      by (metis length_take min.cobounded1)
    then show ?thesis using True Cons.prems by simp
  next
    case False
    then obtain j where "find_first pat cs = Some j" "i = Suc j"
      using Cons.prems by auto
    then show ?thesis using Cons.IH by simp
  qed
qed

function kvu_priv_strip_escapes :: "string \<Rightarrow> char \<Rightarrow> string" where
  "kvu_priv_strip_escapes input escaped_char =
     (case string_find input [backslash, escaped_char] 0 of
        None \<Rightarrow> input
      | Some pos \<Rightarrow> kvu_priv_strip_escapes (string_replace input pos 2 [escaped_char]) escaped_char)"
  by pat_completeness auto
termination
proof (relation "measure (\<lambda>(s, c). length s)", goal_cases)
  case (2 input escaped_char pos)
  then have "pos + 2 \<le> length input"
    using find_first_bound[of "[backslash, escaped_char]" input]
    by (auto simp: string_find_def)
  then show ?case by (simp add: string_replace_def)
qed simp

declare kvu_priv_strip_escapes.simps [simp del]

definition kvu_string_strip_outer_quotes :: "string \<Rightarrow> char \<Rightarrow> string" where
  "kvu_string_strip_outer_quotes input q =
     (if 2 \<le> length input \<and> hd input = q \<and> last input = q then butlast (tl input) else input)"

subsection \<open>Arguments of a formatted string\<close>

text \<open>One argument: the characters from \<open>b\<close> to \<open>e\<close>, unescaped and unquoted.\<close>

definition argument_at :: "string \<Rightarrow> nat \<Rightarrow> nat \<Rightarrow> string" where
  "argument_at argu b e =
     kvu_string_strip_outer_quotes
       (kvu_priv_strip_escapes (kvu_priv_strip_escapes (take (e - b) (drop b argu)) comma) colon)
       quote_char"

function get_arguments_loop :: "string \<Rightarrow> nat \<Rightarrow> string list" where
  "get_arguments_loop argu b =
     (if b < length argu then
        let e = kvu_priv_find_next_instance argu b comma
        in argument_at argu b e #
           (if e = length argu then []
            else if e + 1 = length argu \<and> argu ! e = comma then [[]]
            else get_arguments_loop argu (e + 1))
      else [])"
  by pat_completeness auto
termination
proof (relation "measure (\<lambda>(argu, b). length argu - b)", goal_cases)
  case (2 argu b e)
  then have "b < length argu" "b \<le> e" "e \<le> length argu" "e \<noteq> length argu"
    using find_next_instance_bounds[of b argu comma] by simp_all
  then show ?case by simp
qed simp

declare get_arguments_loop.simps [simp del]

definition kvu_get_arguments :: "string \<Rightarrow> string list" where
  "kvu_get_arguments argu =
     (let b = kvu_priv_find_next_instance argu 0 colon
      in if b = length argu then (if 0 < length argu then get_arguments_loop argu 0 else [])
         else get_arguments_loop argu (b + 1))"

definition kvu_get_number_of_arguments :: "string \<Rightarrow> nat" where
  "kvu_get_number_of_arguments arg = length (kvu_get_arguments arg)"

text \<open>
  The \<open>number\<close>-th argument, counted from 1; a number beyond the last gives the empty string,
  a number below 1 reads before the vector.
\<close>

definition kvu_get_argument_number :: "int \<Rightarrow> string \<Rightarrow> string result" where
  "kvu_get_argument_number number arg =
     (let temp = kvu_get_arguments arg
      in if number \<le> int (length temp)
         then (if 1 \<le> number then Inr (temp ! nat (number - 1)) else Inl Undefined_behaviour)
         else Inr [])"

text \<open>
  The prefix between the first dash and the first colon. A colon before the dash makes the
  iterator range reversed.
\<close>

definition kvu_get_argument_prefix :: "string \<Rightarrow> string result" where
  "kvu_get_argument_prefix argu =
     (let b = find_char argu dash 0;
          e = find_char argu colon 0
      in if b \<noteq> length argu \<and> b + 1 \<noteq> length argu
         then (if b + 1 \<le> e then Inr (take (e - (b + 1)) (drop (b + 1) argu))
               else Inl Undefined_behaviour)
         else Inr [])"

subsection \<open>Integers to strings\<close>

text \<open>
  \<open>snprintf(ctmp, n, "%d", i)\<close> followed by \<open>ctmp[n - 1] = 0\<close>: the decimal digits cut to
  \<open>n - 1\<close> characters. The buffer has 12 bytes for \<open>int\<close>, \<open>unsigned\<close> and \<open>long\<close>, and 24 for
  \<open>long long\<close>.
\<close>

definition digit_char :: "nat \<Rightarrow> char" where
  "digit_char d = char_of (48 + d)"

fun decimal_nat :: "nat \<Rightarrow> string" where
  "decimal_nat n = (if n < 10 then [digit_char n] else decimal_nat (n div 10) @ [digit_char (n mod 10)])"

declare decimal_nat.simps [simp del]

definition decimal_int :: "int \<Rightarrow> string" where
  "decimal_int i = (if i < 0 then dash # decimal_nat (nat (- i)) else decimal_nat (nat i))"

definition kvu_numtostr_int :: "int \<Rightarrow> string" where
  "kvu_numtostr_int n = take 11 (decimal_int n)"

definition kvu_numtostr_unsigned :: "int \<Rightarrow> string" where
  "kvu_numtostr_unsigned n = take 11 (decimal_int n)"

definition kvu_numtostr_long :: "int \<Rightarrow> string" where
  "kvu_numtostr_long n = take 11 (decimal_int n)"

definition kvu_numtostr_ulong :: "int \<Rightarrow> string" where
  "kvu_numtostr_ulong n = take 11 (decimal_int n)"

definition kvu_numtostr_llong :: "int \<Rightarrow> string" where
  "kvu_numtostr_llong n = take 23 (decimal_int n)"

definition kvu_numtostr_ullong :: "int \<Rightarrow> string" where
  "kvu_numtostr_ullong n = take 23 (decimal_int n)"

definition kvu_numtostr_bool :: "bool \<Rightarrow> string" where
  "kvu_numtostr_bool b = kvu_numtostr_int (if b then 1 else 0)"

subsection \<open>Escaped arguments read back\<close>

text \<open>The writer's side: a backslash before every character of a set.\<close>

definition escape_chars :: "char set \<Rightarrow> string \<Rightarrow> string" where
  "escape_chars S a = concat (map (\<lambda>c. if c \<in> S then [backslash, c] else [c]) a)"

lemma escape_chars_simps [simp]:
  "escape_chars S [] = []"
  "escape_chars S (c # a) = (if c \<in> S then [backslash, c] else [c]) @ escape_chars S a"
  "escape_chars S (a @ b) = escape_chars S a @ escape_chars S b"
  by (simp_all add: escape_chars_def)

lemma escape_chars_unaffected:
  "set a \<inter> S \<subseteq> T \<Longrightarrow> T \<subseteq> S \<Longrightarrow> escape_chars S a = escape_chars T a"
  by (induction a) auto

lemma escape_chars_Nil_iff [simp]: "escape_chars S a = [] \<longleftrightarrow> a = []"
  by (cases a) simp_all

lemma last_escape_chars: "a \<noteq> [] \<Longrightarrow> last (escape_chars S a) = last a"
  by (cases a rule: rev_cases) simp_all

lemma set_escape_chars: "set (escape_chars S a) \<subseteq> insert backslash (set a)"
  by (induction a) auto

lemma find_escape_skips:
  assumes "backslash \<notin> set x" "c \<notin> S" "c \<noteq> backslash"
  shows "find_first [backslash, c] (escape_chars S x @ r) =
    map_option (\<lambda>i. length (escape_chars S x) + i) (find_first [backslash, c] r)"
  using assms(1)
proof (induction x)
  case Nil
  then show ?case by (simp add: option.map_ident)
next
  case (Cons d x)
  then have "find_first [backslash, c] (escape_chars S x @ r) =
      map_option (\<lambda>i. length (escape_chars S x) + i) (find_first [backslash, c] r)" "d \<noteq> backslash"
    by auto
  then show ?case
    using assms(2,3) by (auto simp: option.map_comp comp_def)
qed

lemma strip_escapes_escape:
  assumes "backslash \<notin> set a" "backslash \<notin> set b" "c \<noteq> backslash"
  shows "kvu_priv_strip_escapes (escape_chars (S - {c}) b @ escape_chars S a) c =
    escape_chars (S - {c}) (b @ a)"
  using assms(1,2)
proof (induction a arbitrary: b rule: length_induct)
  case (1 a)
  let ?T = "S - {c}"
  show ?case
  proof (cases "c \<in> set a \<and> c \<in> S")
    case False
    then have eq: "escape_chars S a = escape_chars ?T a"
      by (intro escape_chars_unaffected) auto
    have "find_first [backslash, c] (escape_chars ?T (b @ a) @ []) = None"
      using find_escape_skips[of "b @ a" c ?T "[]"] 1(2,3) assms(3) by simp
    then show ?thesis
      by (subst kvu_priv_strip_escapes.simps) (simp add: string_find_def eq)
  next
    case True
    then obtain a1 a2 where a: "a = a1 @ c # a2" "c \<notin> set a1"
      by (meson split_list_first)
    have e1: "escape_chars S a1 = escape_chars ?T a1"
      using a(2) by (intro escape_chars_unaffected) auto
    let ?x = "escape_chars ?T (b @ a1)"
    have s: "escape_chars ?T b @ escape_chars S a = ?x @ [backslash, c] @ escape_chars S a2"
      using True by (simp add: a e1)
    have "find_first [backslash, c] (?x @ [backslash, c] @ escape_chars S a2) = Some (length ?x)"
      using find_escape_skips[of "b @ a1" c ?T "[backslash, c] @ escape_chars S a2"] 1(2,3) assms(3) a
      by simp
    then have find: "string_find (?x @ [backslash, c] @ escape_chars S a2) [backslash, c] 0 = Some (length ?x)"
      by (simp add: string_find_def option.map_ident)
    have rep: "string_replace (?x @ [backslash, c] @ escape_chars S a2) (length ?x) 2 [c] =
        escape_chars ?T (b @ a1 @ [c]) @ escape_chars S a2"
      by (simp add: string_replace_def)
    have "kvu_priv_strip_escapes (escape_chars ?T (b @ a1 @ [c]) @ escape_chars S a2) c =
        escape_chars ?T ((b @ a1 @ [c]) @ a2)"
      using 1 a by (intro 1(1)[rule_format]) auto
    then show ?thesis
      by (subst kvu_priv_strip_escapes.simps) (simp only: s find rep option.case, simp add: a)
  qed
qed

lemma strip_outer_quotes_plain: "quote_char \<notin> set s \<Longrightarrow> kvu_string_strip_outer_quotes s quote_char = s"
  by (cases s) (auto simp: kvu_string_strip_outer_quotes_def)

abbreviation escape_argument :: "string \<Rightarrow> string" where
  "escape_argument \<equiv> escape_chars {comma, colon}"

text \<open>Arguments that need no quoting: no backslash and no double quote in them.\<close>

definition plain_argument :: "string \<Rightarrow> bool" where
  "plain_argument a \<longleftrightarrow> backslash \<notin> set a \<and> quote_char \<notin> set a"

lemma argument_at_escaped:
  assumes "plain_argument a" "s = u @ escape_argument a @ r" "b = length u" "e = b + length (escape_argument a)"
  shows "argument_at s b e = a"
proof -
  have "kvu_priv_strip_escapes (escape_argument a) comma = escape_chars ({comma, colon} - {comma}) a"
    using strip_escapes_escape[of a "[]" comma "{comma, colon}"] assms(1) by (simp add: plain_argument_def)
  moreover have "kvu_priv_strip_escapes (escape_chars ({comma, colon} - {comma}) a) colon =
      escape_chars ({comma, colon} - {comma} - {colon}) a"
    using strip_escapes_escape[of a "[]" colon "{comma, colon} - {comma}"] assms(1)
    by (simp add: plain_argument_def)
  moreover have "escape_chars ({comma, colon} - {comma} - {colon}) a = a"
    by (induction a) auto
  ultimately show ?thesis
    using assms by (simp add: argument_at_def plain_argument_def strip_outer_quotes_plain)
qed

lemma next_instance_step_noquote:
  assumes "quote_char \<notin> set (drop cur s)" "cur \<le> length s"
  shows "next_instance_step s v cur = find_char s v cur"
proof -
  have tw: "takeWhile (\<lambda>x. x \<noteq> quote_char) (drop cur s) = drop cur s"
    using assms(1) by (intro takeWhile_eq_all_conv[THEN iffD2]) auto
  have "find_char s quote_char cur = length s"
    using assms(2) by (simp add: find_char_def tw del: takeWhile_eq_all_conv)
  then show ?thesis
    using find_char_bounds(2)[OF assms(2), of v] by (simp add: next_instance_step_def Let_def)
qed

lemma find_char_at:
  assumes "v \<notin> set x" "r = [] \<or> hd r = v"
  shows "find_char (u @ x @ r) v (length u) = length u + length x"
proof -
  have tw: "takeWhile (\<lambda>y. y \<noteq> v) x = x"
    using assms(1) by (intro takeWhile_eq_all_conv[THEN iffD2]) auto
  have "takeWhile (\<lambda>y. y \<noteq> v) (x @ r) = x"
    using assms by (cases r) (simp_all add: tw takeWhile_tail del: takeWhile_eq_all_conv)
  then show ?thesis by (simp add: find_char_def)
qed

lemma next_instance_loop_escaped:
  assumes "cur < length s" "next_instance_step s v cur = ret" "ret < length s" "0 < ret"
    "s ! (ret - 1) = backslash"
  shows "next_instance_loop s v cur p = next_instance_loop s v (ret + 1) ret"
  using assms by (subst next_instance_loop.simps) (simp add: Let_def)

text \<open>The scan finds the separator after an escaped argument.\<close>

lemma next_instance_escaped:
  assumes "plain_argument a" "quote_char \<notin> set r" "u \<noteq> []" "last u \<noteq> backslash"
    and "r \<noteq> [] \<and> hd r = comma \<or> r = [] \<and> (a = [] \<longrightarrow> p = length u) \<and> (a \<noteq> [] \<longrightarrow> last a \<noteq> comma)"
  shows "next_instance_loop (u @ escape_argument a @ r) comma (length u) p =
    length u + length (escape_argument a)"
  using assms
proof (induction a arbitrary: u p rule: length_induct)
  case (1 a)
  let ?s = "u @ escape_argument a @ r"
  have nq: "quote_char \<notin> set (escape_argument a @ r)"
    using 1(2,3) set_escape_chars[of "{comma, colon}" a] by (auto simp: plain_argument_def)
  show ?case
  proof (cases "escape_argument a @ r = []")
    case True
    then have "a = []" "r = []" by simp_all
    then show ?thesis using 1(6) by (subst next_instance_loop.simps) simp
  next
    case False
    then have cur: "length u < length ?s" by simp
    have step: "next_instance_step ?s comma (length u) = find_char ?s comma (length u)"
      using nq by (intro next_instance_step_noquote) simp_all
    show ?thesis
    proof (cases "comma \<in> set a")
      case False
      then have "comma \<notin> set (escape_argument a)"
        using set_escape_chars[of "{comma, colon}" a] by auto
      then have ret: "find_char ?s comma (length u) = length u + length (escape_argument a)"
        using 1(6) by (intro find_char_at) auto
      have "?s ! (length u + length (escape_argument a) - 1) \<noteq> backslash"
      proof (cases "a = []")
        case True
        then show ?thesis using 1(4,5) by (simp add: nth_append last_conv_nth)
      next
        case False
        have "last a \<noteq> backslash"
          using 1(2) last_in_set[OF False] by (metis plain_argument_def)
        moreover have "escape_argument a ! (length (escape_argument a) - 1) = last a"
          using False by (metis escape_chars_Nil_iff last_conv_nth last_escape_chars)
        moreover have "length u + length (escape_argument a) - 1 =
            length u + (length (escape_argument a) - 1)" "length (escape_argument a) - 1 < length (escape_argument a)"
          using False by (simp_all add: Suc_leI)
        ultimately show ?thesis
          by (simp only: nth_append_middle) simp
      qed
      then show ?thesis
        using cur by (subst next_instance_loop.simps) (simp add: step ret Let_def)
    next
      case True
      then obtain a1 a2 where a: "a = a1 @ comma # a2" "comma \<notin> set a1"
        by (meson split_list_first)
      let ?x = "escape_argument a1 @ [backslash]"
      let ?u = "u @ ?x @ [comma]"
      have s: "?s = u @ ?x @ comma # escape_argument a2 @ r" "?s = ?u @ escape_argument a2 @ r"
        by (simp_all add: a)
      have "comma \<notin> set ?x"
        using a(2) set_escape_chars[of "{comma, colon}" a1] by auto
      then have ret: "find_char ?s comma (length u) = length u + length ?x"
        unfolding s(1) by (intro find_char_at) auto
      have bs: "?s ! (length u + length ?x - 1) = backslash"
        unfolding s(1) by (simp add: nth_append)
      have "next_instance_loop ?s comma (length u) p =
          next_instance_loop ?s comma (length u + length ?x + 1) (length u + length ?x)"
        using cur step ret bs by (intro next_instance_loop_escaped) (simp_all only: s(1), simp_all)
      also have "\<dots> = next_instance_loop ?s comma (length ?u) (length u + length ?x)"
        by (rule arg_cong[where f = "\<lambda>n. next_instance_loop ?s comma n (length u + length ?x)"]) simp
      also have "\<dots> = length ?u + length (escape_argument a2)"
        unfolding s(2) using 1(2-6) a
        by (intro 1(1)[rule_format]) (auto simp: plain_argument_def split: if_splits)
      finally show ?thesis by (simp add: a)
    qed
  qed
qed

text \<open>The writer: arguments escaped and joined by commas.\<close>

definition join_arguments :: "string list \<Rightarrow> string" where
  "join_arguments args = kvu_vector_to_string (map escape_argument args) [comma]"

lemma join_arguments_simps [simp]:
  "join_arguments [] = []"
  "join_arguments [a] = escape_argument a"
  by (simp_all add: join_arguments_def)

lemma join_arguments_Cons:
  "args \<noteq> [] \<Longrightarrow> join_arguments (a # args) = escape_argument a @ comma # join_arguments args"
  by (cases args) (simp_all add: join_arguments_def)

lemma join_arguments_no_quote:
  "\<forall>a \<in> set args. plain_argument a \<Longrightarrow> quote_char \<notin> set (join_arguments args)"
proof (induction args)
  case (Cons a args)
  then show ?case
    using set_escape_chars[of "{comma, colon}" a]
    by (cases "args = []") (auto simp: join_arguments_Cons plain_argument_def)
qed simp

lemma join_arguments_Nil_iff: "args \<noteq> [] \<Longrightarrow> join_arguments args = [] \<longleftrightarrow> args = [[]]"
  by (cases args; cases "tl args") (auto simp: join_arguments_Cons)

text \<open>
  Argument lists the syntax can express without quotes: at least one argument, not the single
  empty one, and a last argument that does not end with a comma (see the finding below).
\<close>

definition expressible :: "string list \<Rightarrow> bool" where
  "expressible args \<longleftrightarrow> args \<noteq> [] \<and> args \<noteq> [[]] \<and> list_all plain_argument args \<and>
     (last args \<noteq> [] \<longrightarrow> last (last args) \<noteq> comma)"

lemma get_arguments_loop_join:
  assumes "u \<noteq> []" "last u \<noteq> backslash" "expressible args"
  shows "get_arguments_loop (u @ join_arguments args) (length u) = args"
  using assms
proof (induction args arbitrary: u)
  case Nil
  then show ?case by (simp add: expressible_def)
next
  case (Cons a args)
  have plain: "plain_argument a" using Cons.prems by (simp add: expressible_def)
  have nq: "quote_char \<notin> set (join_arguments args)"
    using Cons.prems by (intro join_arguments_no_quote) (simp add: expressible_def list_all_iff)
  show ?case
  proof (cases "args = []")
    case True
    let ?s = "u @ escape_argument a @ []"
    have "a \<noteq> []" using Cons.prems True by (simp add: expressible_def)
    then have e: "kvu_priv_find_next_instance ?s (length u) comma = length u + length (escape_argument a)"
      unfolding kvu_priv_find_next_instance_def
      using plain Cons.prems True by (intro next_instance_escaped) (simp_all add: expressible_def)
    have "argument_at ?s (length u) (length u + length (escape_argument a)) = a"
      by (rule argument_at_escaped[OF plain]) simp_all
    then show ?thesis
      using e \<open>a \<noteq> []\<close> True by (subst get_arguments_loop.simps) simp
  next
    case False
    let ?r = "comma # join_arguments args"
    let ?s = "u @ escape_argument a @ ?r" and ?u = "u @ escape_argument a @ [comma]"
    let ?e = "length u + length (escape_argument a)"
    have s: "u @ join_arguments (a # args) = ?s" using False by (simp add: join_arguments_Cons)
    have e: "kvu_priv_find_next_instance ?s (length u) comma = ?e"
      unfolding kvu_priv_find_next_instance_def
      using plain nq Cons.prems by (intro next_instance_escaped) simp_all
    have arg: "argument_at ?s (length u) ?e = a"
      by (rule argument_at_escaped[OF plain]) simp_all
    have loop: "get_arguments_loop ?s (length u) =
        a # (if ?e + 1 = length ?s then [[]] else get_arguments_loop ?s (?e + 1))"
      using e arg by (subst get_arguments_loop.simps) (simp add: Let_def nth_append)
    show ?thesis
    proof (cases "args = [[]]")
      case True
      then show ?thesis unfolding s using loop by simp
    next
      case ne: False
      then have "join_arguments args \<noteq> []" using False by (simp add: join_arguments_Nil_iff)
      moreover have "get_arguments_loop (?u @ join_arguments args) (length ?u) = args"
        using Cons.prems False ne by (intro Cons.IH) (simp_all add: expressible_def)
      ultimately show ?thesis unfolding s using loop by simp
    qed
  qed
qed

lemma find_colon_prefix:
  assumes "prefix \<noteq> []" "colon \<notin> set prefix" "quote_char \<notin> set prefix" "last prefix \<noteq> backslash"
    "quote_char \<notin> set r"
  shows "kvu_priv_find_next_instance (prefix @ colon # r) 0 colon = length prefix"
proof -
  let ?s = "prefix @ colon # r"
  have "find_char ?s colon 0 = length prefix"
    using assms find_char_at[of colon prefix "colon # r" "[]"] by simp
  then have ret: "next_instance_step ?s colon 0 = length prefix"
    using assms by (simp add: next_instance_step_noquote)
  have "?s ! (length prefix - 1) \<noteq> backslash"
    using assms(1,4) by (simp add: nth_append last_conv_nth)
  then show ?thesis
    by (simp add: kvu_priv_find_next_instance_def, subst next_instance_loop.simps) (simp add: ret Let_def)
qed

subsection \<open>Printed integers read back\<close>

definition digits_value :: "string \<Rightarrow> int" where
  "digits_value ds = foldl (\<lambda>n c. 10 * n + digit_value c) 0 ds"

lemma digits_value_snoc: "digits_value (ds @ [c]) = 10 * digits_value ds + digit_value c"
  by (simp add: digits_value_def)

lemma digit_char_digit: "d < 10 \<Longrightarrow> is_digit (digit_char d) \<and> digit_value (digit_char d) = int d"
  by (simp add: is_digit_def digit_value_def digit_char_def)

lemma decimal_nat_digits: "\<forall>c \<in> set (decimal_nat n). is_digit c"
proof (induction n rule: decimal_nat.induct)
  case (1 n)
  then show ?case by (subst decimal_nat.simps) (auto simp: digit_char_digit)
qed

lemma decimal_nat_not_Nil [simp]: "decimal_nat n \<noteq> []"
  by (subst decimal_nat.simps) simp

lemma digits_value_take_decimal:
  "0 < k \<Longrightarrow> k \<le> length (decimal_nat n) \<Longrightarrow>
   digits_value (take k (decimal_nat n)) = int (n div 10 ^ (length (decimal_nat n) - k))"
proof (induction n arbitrary: k rule: decimal_nat.induct)
  case (1 n)
  show ?case
  proof (cases "n < 10")
    case True
    then have "decimal_nat n = [digit_char n]" by (subst decimal_nat.simps) simp
    then show ?thesis
      using 1(2,3) True by (simp add: digits_value_def digit_char_digit)
  next
    case False
    let ?m = "decimal_nat (n div 10)"
    have d: "decimal_nat n = ?m @ [digit_char (n mod 10)]"
      using False by (subst decimal_nat.simps) simp
    show ?thesis
    proof (cases "k \<le> length ?m")
      case True
      then have "digits_value (take k ?m) = int (n div 10 div 10 ^ (length ?m - k))"
        using 1 False by simp
      also have "\<dots> = int (n div 10 ^ (Suc (length ?m) - k))"
        using True by (simp add: Suc_diff_le div_mult2_eq)
      finally show ?thesis using True by (simp add: d)
    next
      case False
      then have k: "k = Suc (length ?m)" using 1(3) by (simp add: d)
      have "digits_value ?m = int (n div 10)"
        using 1(1)[OF \<open>\<not> n < 10\<close>, of "length ?m"] by simp
      then show ?thesis
        by (simp add: d k digits_value_snoc digit_char_digit del: of_nat_div of_nat_mod)
          (metis of_nat_add of_nat_mult of_nat_numeral mult_div_mod_eq)
    qed
  qed
qed

lemma length_decimal_nat: "0 < k \<Longrightarrow> length (decimal_nat n) \<le> k \<longleftrightarrow> n < 10 ^ k"
proof (induction n arbitrary: k rule: decimal_nat.induct)
  case (1 n)
  show ?case
  proof (cases "n < 10")
    case True
    moreover have "(10::nat) \<le> 10 ^ k" using 1(2) by (cases k) simp_all
    ultimately show ?thesis using 1(2) by (subst decimal_nat.simps) simp
  next
    case False
    have d: "length (decimal_nat n) = Suc (length (decimal_nat (n div 10)))"
      using False by (subst decimal_nat.simps) simp
    obtain j where k: "k = Suc j" using 1(2) by (cases k) simp_all
    show ?thesis
    proof (cases "j = 0")
      case True
      then show ?thesis using False by (simp add: d k)
    next
      case j: False
      then have "length (decimal_nat (n div 10)) \<le> j \<longleftrightarrow> n div 10 < 10 ^ j"
        using 1(1)[OF False] by simp
      then show ?thesis by (simp add: d k div_less_iff_less_mult mult.commute)
    qed
  qed
qed

lemma atoi_digits_all: "\<forall>c \<in> set ds. is_digit c \<Longrightarrow> atoi_digits ds = digits_value ds"
  by (simp add: atoi_digits_def digits_value_def takeWhile_eq_all_conv[THEN iffD2])

lemma digit_not_special:
  assumes "is_digit c"
  shows "\<not> isspace c" "c \<noteq> dash" "c \<noteq> CHR 0x2B"
  using assms by (auto simp: is_digit_def isspace_def)

lemma atoi_plain:
  assumes "ds \<noteq> []" "\<forall>c \<in> set ds. is_digit c"
  shows "atoi ds = digits_value ds" "atoi (dash # ds) = - digits_value ds"
proof -
  have "is_digit (hd ds)" using assms by simp
  then show "atoi ds = digits_value ds"
    using assms digit_not_special[of "hd ds"] by (cases ds) (simp_all add: atoi_def atoi_digits_all)
  show "atoi (dash # ds) = - digits_value ds"
    using assms by (simp add: atoi_def atoi_digits_all isspace_def)
qed

lemma atoi_take_decimal:
  assumes "0 < k"
  shows "atoi (take k (decimal_nat n)) = int (n div 10 ^ (length (decimal_nat n) - k))"
    "atoi (dash # take k (decimal_nat n)) = - int (n div 10 ^ (length (decimal_nat n) - k))"
proof -
  have t: "take k (decimal_nat n) \<noteq> []" "\<forall>c \<in> set (take k (decimal_nat n)). is_digit c"
    using assms decimal_nat_digits[of n] by (auto dest: in_set_takeD)
  have v: "digits_value (take k (decimal_nat n)) = int (n div 10 ^ (length (decimal_nat n) - k))"
  proof (cases "k \<le> length (decimal_nat n)")
    case True
    then show ?thesis using digits_value_take_decimal[OF assms] by simp
  next
    case False
    then show ?thesis using digits_value_take_decimal[of "length (decimal_nat n)" n] by simp
  qed
  show "atoi (take k (decimal_nat n)) = int (n div 10 ^ (length (decimal_nat n) - k))"
    "atoi (dash # take k (decimal_nat n)) = - int (n div 10 ^ (length (decimal_nat n) - k))"
    using atoi_plain[OF t] v by simp_all
qed

lemma div_pow_eq_iff: "(n :: nat) div 10 ^ m = n \<longleftrightarrow> n = 0 \<or> m = 0"
proof (cases "n = 0 \<or> m = 0")
  case False
  then have "(1::nat) < 10 ^ m" by (intro one_less_power) simp_all
  then have "n div 10 ^ m < n" using False by (intro div_less_dividend) auto
  then show ?thesis using False by simp
qed auto

text \<open>Reading a number printed with \<open>k + 1\<close> characters of room gives it back exactly when it fits.\<close>

lemma atoi_cut_decimal:
  assumes "1 < k"
  shows "atoi (take k (decimal_int i)) = i \<longleftrightarrow> - (10 ^ (k - 1)) < i \<and> i < 10 ^ k"
proof (cases "i < 0")
  case False
  then obtain n where i: "i = int n" using nonneg_int_cases[of i] by auto
  have "atoi (take k (decimal_int i)) = i \<longleftrightarrow> n div 10 ^ (length (decimal_nat n) - k) = n"
    using assms by (simp add: i decimal_int_def atoi_take_decimal del: of_nat_div)
  also have "\<dots> \<longleftrightarrow> length (decimal_nat n) \<le> k"
    using assms by (auto simp: div_pow_eq_iff length_decimal_nat)
  also have "\<dots> \<longleftrightarrow> i < 10 ^ k"
    using assms by (simp add: length_decimal_nat i)
  finally show ?thesis using False by (smt (verit) zero_less_power)
next
  case True
  then obtain n where i: "i = - int n" "0 < n" by (metis neg_int_cases)
  obtain j where k: "k = Suc j" "0 < j" using assms by (cases k) simp_all
  have "atoi (take k (decimal_int i)) = i \<longleftrightarrow> n div 10 ^ (length (decimal_nat n) - j) = n"
    using i k by (simp add: decimal_int_def atoi_take_decimal del: of_nat_div)
  also have "\<dots> \<longleftrightarrow> length (decimal_nat n) \<le> j"
    using i k by (simp add: div_pow_eq_iff)
  also have "\<dots> \<longleftrightarrow> - (10 ^ j) < i"
    using k by (simp add: length_decimal_nat i)
  finally show ?thesis using True k by (smt (verit) diff_Suc_1 zero_less_power)
qed

subsection \<open>Properties\<close>

text \<open>
  Reading back a written argument string: a prefix, a colon and arguments whose commas and
  colons are escaped by backslashes give exactly the arguments, in order, empty ones included,
  for every list the syntax can express (\<open>expressible\<close>).
\<close>

theorem get_arguments_roundtrip:
  assumes "prefix \<noteq> []" "colon \<notin> set prefix" "quote_char \<notin> set prefix" "last prefix \<noteq> backslash"
    and "expressible args"
  shows "kvu_get_arguments (prefix @ colon # join_arguments args) = args"
proof -
  let ?s = "prefix @ colon # join_arguments args"
  have nq: "quote_char \<notin> set (join_arguments args)"
    using assms(5) by (intro join_arguments_no_quote) (simp add: expressible_def list_all_iff)
  have "kvu_priv_find_next_instance ?s 0 colon = length prefix"
    using assms(1-4) nq by (rule find_colon_prefix)
  moreover have "get_arguments_loop ((prefix @ [colon]) @ join_arguments args) (length (prefix @ [colon])) = args"
    using assms(5) by (intro get_arguments_loop_join) simp_all
  ultimately show ?thesis by (simp add: kvu_get_arguments_def Let_def)
qed

theorem get_arguments_roundtrip_witness:
  "kvu_get_arguments (''-i'' @ colon # join_arguments [''song,live.wav'', [], ''2:3'']) =
    [''song,live.wav'', [], ''2:3'']"
  by (rule get_arguments_roundtrip) (simp_all add: expressible_def plain_argument_def)

text \<open>
  An escaped comma that ends the string is taken for a separator: the argument \<open>a,\<close> written
  \<open>a\,\<close> at the end comes back as \<open>a\\<close> and an extra empty argument. (The scan returns the last
  escaped occurrence instead of the end when nothing follows it.)
\<close>

theorem get_arguments_trailing_escape:
  "kvu_get_arguments (''-x:a'' @ [backslash, comma]) = [''a'' @ [backslash], []]"
  by code_simp

text \<open>
  Separators are ignored in the first quoted part only: in \<open>"a""b,c"\<close> the comma inside the
  second pair of double quotes splits the argument.
\<close>

theorem get_arguments_second_quotes:
  "kvu_get_arguments (''-x:'' @ [quote_char] @ ''a'' @ [quote_char, quote_char] @ ''b,c'' @ [quote_char]) =
    [[quote_char] @ ''a'' @ [quote_char, quote_char] @ ''b'', ''c'' @ [quote_char]]"
  by code_simp

text \<open>
  The integer printers are exact where the printed number fits the buffer: reading back an
  \<open>int\<close> or a \<open>long long\<close> gives the number, while a \<open>long\<close> survives exactly when it is above
  \<open>-10^10\<close> and below \<open>10^11\<close>; other values lose their last digits.
\<close>

theorem numtostr_reads_back:
  "(- (2 ^ 31) \<le> n \<and> n < 2 ^ 31 \<longrightarrow> atoi (kvu_numtostr_int n) = n) \<and>
   (- (2 ^ 63) \<le> n \<and> n < 2 ^ 63 \<longrightarrow> atoi (kvu_numtostr_llong n) = n) \<and>
   (atoi (kvu_numtostr_long n) = n \<longleftrightarrow> - (10 ^ 10) < n \<and> n < 10 ^ 11)"
proof -
  have "- (10 ^ 10) < - (2 ^ 31 :: int)" "(2 ^ 31 :: int) \<le> 10 ^ 11"
    "- (10 ^ 22) < - (2 ^ 63 :: int)" "(2 ^ 63 :: int) \<le> 10 ^ 23" by simp_all
  then show ?thesis
    using atoi_cut_decimal[of 11 n] atoi_cut_decimal[of 23 n]
    by (auto simp: kvu_numtostr_int_def kvu_numtostr_llong_def kvu_numtostr_long_def)
qed

theorem numtostr_reads_back_witness:
  "atoi (kvu_numtostr_int (- 2147483648)) = - 2147483648 \<and>
   atoi (kvu_numtostr_long 123456789012) \<noteq> 123456789012"
  using numtostr_reads_back[of "- 2147483648"] numtostr_reads_back[of 123456789012] by simp

end
