(* ===== verification/Heap_Loops.thy ===== *)
theory Heap_Loops
  imports Prelude
begin

text \<open>
  The loops of the audio code over C arrays: \<open>update_loop\<close> runs over a range of one array and
  replaces each element, \<open>channel_loop\<close> runs over the arrays of a vector. An access outside an
  array is undefined behaviour; the facts below give the result of a loop in closed form when
  every access is inside.
\<close>

subsection \<open>One array\<close>

text \<open>\<open>for (i = start; n iterations; i++) xs[i] = f(i, xs[i])\<close>, where computing \<open>f\<close> may fault.\<close>

fun update_loop :: "(nat \<Rightarrow> 'a \<Rightarrow> 'a result) \<Rightarrow> nat \<Rightarrow> nat \<Rightarrow> 'a list \<Rightarrow> 'a list result" where
  "update_loop f i 0 xs = Inr xs"
| "update_loop f i (Suc n) xs =
     (if i < length xs
      then bind_result (f i (xs ! i)) (\<lambda>v. update_loop f (Suc i) n (xs[i := v]))
      else Inl Undefined_behaviour)"

text \<open>The elements from \<open>i\<close> to \<open>i + n - 1\<close> replaced, the others kept.\<close>

definition update_range :: "(nat \<Rightarrow> 'a \<Rightarrow> 'a) \<Rightarrow> nat \<Rightarrow> nat \<Rightarrow> 'a list \<Rightarrow> 'a list" where
  "update_range f i n xs = map (\<lambda>j. if i \<le> j \<and> j < i + n then f j (xs ! j) else xs ! j) [0..<length xs]"

lemma length_update_range [simp]: "length (update_range f i n xs) = length xs"
  by (simp add: update_range_def)

lemma nth_update_range [simp]:
  "j < length xs \<Longrightarrow> update_range f i n xs ! j = (if i \<le> j \<and> j < i + n then f j (xs ! j) else xs ! j)"
  by (simp add: update_range_def)

lemma update_range_0 [simp]: "update_range f i 0 xs = xs"
  by (rule nth_equalityI) auto

lemma take_update_range:
  "take k (update_range f i n xs) = update_range f i n (take k xs)"
  by (rule nth_equalityI) simp_all

lemma update_range_beyond: "length xs \<le> i \<Longrightarrow> update_range f i n xs = xs"
  by (rule nth_equalityI) simp_all

lemma update_range_all: "length xs \<le> n \<Longrightarrow> update_range f 0 n xs = map (\<lambda>j. f j (xs ! j)) [0..<length xs]"
  by (rule nth_equalityI) simp_all

lemma update_loop_ok:
  assumes "i + n \<le> length xs" "\<And>j. i \<le> j \<Longrightarrow> j < i + n \<Longrightarrow> f j (xs ! j) = Inr (g j (xs ! j))"
  shows "update_loop f i n xs = Inr (update_range g i n xs)"
  using assms
proof (induction n arbitrary: i xs)
  case (Suc n)
  let ?ys = "xs[i := g i (xs ! i)]"
  have "update_loop f (Suc i) n ?ys = Inr (update_range g (Suc i) n ?ys)"
    using Suc.prems by (intro Suc.IH) (simp_all add: nth_list_update)
  moreover have "update_range g (Suc i) n ?ys = update_range g i (Suc n) xs"
    by (rule nth_equalityI) (auto simp: nth_list_update not_less_eq_eq dest: le_antisym)
  ultimately show ?case using Suc.prems by simp
qed simp

lemma update_loop_pure:
  "i + n \<le> length xs \<Longrightarrow> update_loop (\<lambda>j x. Inr (g j x)) i n xs = Inr (update_range g i n xs)"
  by (rule update_loop_ok) simp_all

lemma update_loop_overrun:
  "0 < n \<Longrightarrow> length xs < i + n \<Longrightarrow> update_loop (\<lambda>j x. Inr (g j x)) i n xs = Inl Undefined_behaviour"
proof (induction n arbitrary: i xs)
  case (Suc n)
  then show ?case by (cases "n = 0") simp_all
qed simp

lemma update_loop_length: "update_loop f i n xs = Inr ys \<Longrightarrow> length ys = length xs"
proof (induction n arbitrary: i xs)
  case (Suc n)
  then show ?case by (fastforce simp: bind_result_Inr_iff split: if_splits)
qed simp

subsection \<open>A vector of arrays\<close>

text \<open>\<open>for (q = c; n iterations; q++)\<close> with a body that works on the array of channel \<open>q\<close>.\<close>

fun channel_loop :: "(nat \<Rightarrow> 'a list \<Rightarrow> 'a list result) \<Rightarrow> nat \<Rightarrow> nat \<Rightarrow> 'a list list \<Rightarrow> 'a list list result" where
  "channel_loop f q n bufs = update_loop f q n bufs"

lemma channel_loop_ok:
  assumes "q + n \<le> length bufs" "\<And>c. q \<le> c \<Longrightarrow> c < q + n \<Longrightarrow> f c (bufs ! c) = Inr (g c (bufs ! c))"
  shows "channel_loop f q n bufs = Inr (update_range g q n bufs)"
  unfolding channel_loop.simps by (rule update_loop_ok) (use assms in auto)

lemma channel_loop_length: "channel_loop f q n bufs = Inr bufs' \<Longrightarrow> length bufs' = length bufs"
  by (simp add: update_loop_length)

declare channel_loop.simps [simp del]

text \<open>Reading \<open>bufs[q][t]\<close>.\<close>

definition read_cell :: "'a list list \<Rightarrow> nat \<Rightarrow> nat \<Rightarrow> 'a result" where
  "read_cell bufs q t =
     (if q < length bufs \<and> t < length (bufs ! q) then Inr (bufs ! q ! t) else Inl Undefined_behaviour)"

lemma read_cell_ok [simp]:
  "q < length bufs \<Longrightarrow> t < length (bufs ! q) \<Longrightarrow> read_cell bufs q t = Inr (bufs ! q ! t)"
  by (simp add: read_cell_def)

end
