(* ===== verification/Sample_Buffer.thy ===== *)
theory Sample_Buffer
  imports Heap_Loops Complex_Main
begin

unbundle bit_operations_syntax

text \<open>
  The sample buffer of \<open>libecasound/samplebuffer.cpp\<close>: a vector of allocated sample arrays, of
  which the first \<open>channel_count_rep\<close> hold audio, \<open>buffersize_rep\<close> samples each out of
  \<open>reserved_samples_rep\<close> allocated ones. The type of a sample is a type variable with the
  operations the code uses and no laws, so every fact holds for IEEE doubles. Freshly allocated
  memory holds arbitrary values, the parameter \<open>g\<close> (array, position). Sizes and counts are natural
  numbers (the code requires them to be non-negative), their \<open>long int\<close> width is not modelled.
  The DBC macros only log, so they have no effect here.
\<close>

subsection \<open>State\<close>

record 's sample_buffer =
  sb_arrays :: "'s list list"
  sb_channel_count :: nat
  sb_buffersize :: nat
  sb_reserved :: nat
  sb_rt_lock :: bool
  sb_lockref :: int
  sb_quality :: int
  sb_event_tags :: "32 word"
  sb_old_buffer :: "'s list option"
  sb_resample_memory :: "'s list"

abbreviation (input) silent_value :: "'s::zero" where "silent_value \<equiv> 0"

definition impl_max_value :: "'s::{zero,one,plus}" where "impl_max_value = silent_value + 1"
definition impl_min_value :: "'s::{zero,one,minus}" where "impl_min_value = silent_value - 1"

definition alloc_sample_buf :: "(nat \<Rightarrow> nat \<Rightarrow> 's) \<Rightarrow> nat \<Rightarrow> nat \<Rightarrow> 's list" where
  "alloc_sample_buf g n count = map (g n) [0..<count]"

text \<open>A loop over the arrays \<open>q, ..., q + n - 1\<close> of the buffer.\<close>

definition on_channels ::
  "(nat \<Rightarrow> 's list \<Rightarrow> 's list result) \<Rightarrow> nat \<Rightarrow> nat \<Rightarrow> 's sample_buffer \<Rightarrow> 's sample_buffer result" where
  "on_channels f q n sb =
     bind_result (channel_loop f q n (sb_arrays sb)) (\<lambda>bufs. Inr (sb\<lparr>sb_arrays := bufs\<rparr>))"

text \<open>Storing \<open>v\<close> in the positions \<open>start, ..., start + n - 1\<close> of an array.\<close>

definition store_loop :: "'s \<Rightarrow> nat \<Rightarrow> nat \<Rightarrow> 's list \<Rightarrow> 's list result" where
  "store_loop v = update_loop (\<lambda>_ _. Inr v)"

subsection \<open>Muting\<close>

definition make_silent_channel :: "nat \<Rightarrow> 's::zero sample_buffer \<Rightarrow> 's sample_buffer result" where
  "make_silent_channel c sb = on_channels (\<lambda>_. store_loop silent_value 0 (sb_buffersize sb)) c 1 sb"

definition make_silent :: "'s::zero sample_buffer \<Rightarrow> 's sample_buffer result" where
  "make_silent sb = fold_result make_silent_channel [0..<sb_channel_count sb] sb"

definition make_silent_range :: "nat \<Rightarrow> nat \<Rightarrow> 's::zero sample_buffer \<Rightarrow> 's sample_buffer result" where
  "make_silent_range start_pos end_pos sb =
     on_channels
       (\<lambda>_. store_loop silent_value start_pos
              (if end_pos < sb_buffersize sb then end_pos else sb_buffersize sb))
       0 (sb_channel_count sb) sb"

definition make_silent_range_ref :: "nat \<Rightarrow> nat \<Rightarrow> 's::zero sample_buffer \<Rightarrow> 's sample_buffer result" where
  "make_silent_range_ref start_pos end_pos sb =
     on_channels
       (\<lambda>_. store_loop silent_value start_pos (min end_pos (sb_buffersize sb) - start_pos))
       0 (sb_channel_count sb) sb"

subsection \<open>The constructor\<close>

text \<open>
  \<open>samplerate\<close> says whether libsamplerate is compiled in. The member \<open>event_tags_rep\<close> is not
  initialised: its first value is the parameter \<open>tags\<close>.
\<close>

definition sample_buffer_create ::
  "bool \<Rightarrow> (nat \<Rightarrow> nat \<Rightarrow> 's::zero) \<Rightarrow> 32 word \<Rightarrow> nat \<Rightarrow> nat \<Rightarrow> 's sample_buffer result" where
  "sample_buffer_create samplerate g tags buffersize channels =
     make_silent
       \<lparr>sb_arrays = map (\<lambda>n. alloc_sample_buf g n buffersize) [0..<channels],
        sb_channel_count = channels, sb_buffersize = buffersize, sb_reserved = buffersize,
        sb_rt_lock = False, sb_lockref = 0, sb_quality = (if samplerate then 50 else 5),
        sb_event_tags = tags, sb_old_buffer = None, sb_resample_memory = []\<rparr>"

subsection \<open>Length and channel count\<close>

definition copy_prefix :: "'s list \<Rightarrow> nat \<Rightarrow> 's list \<Rightarrow> 's list result" where
  "copy_prefix src n dst =
     update_loop (\<lambda>m _. if m < length src then Inr (src ! m) else Inl Undefined_behaviour) 0 n dst"

definition length_in_samples_grow :: "(nat \<Rightarrow> nat \<Rightarrow> 's) \<Rightarrow> nat \<Rightarrow> 's sample_buffer \<Rightarrow> 's sample_buffer result" where
  "length_in_samples_grow g len sb =
     (let reserved = len * 2 in
      bind_result
        (on_channels
           (\<lambda>n prev. copy_prefix prev (sb_buffersize sb) (alloc_sample_buf g n reserved))
           0 (length (sb_arrays sb)) sb)
        (\<lambda>sb'. Inr (sb'\<lparr>sb_reserved := reserved,
           sb_old_buffer := map_option (\<lambda>_. alloc_sample_buf g (length (sb_arrays sb)) reserved)
                              (sb_old_buffer sb)\<rparr>)))"

definition length_in_samples :: "(nat \<Rightarrow> nat \<Rightarrow> 's::zero) \<Rightarrow> nat \<Rightarrow> 's sample_buffer \<Rightarrow> 's sample_buffer result" where
  "length_in_samples g len sb =
     bind_result (if len > sb_reserved sb then length_in_samples_grow g len sb else Inr sb) (\<lambda>sb1.
     bind_result
       (if len > sb_buffersize sb1
        then on_channels
               (\<lambda>_. store_loop silent_value (sb_buffersize sb1) (sb_reserved sb1 - sb_buffersize sb1))
               0 (length (sb_arrays sb1)) sb1
        else Inr sb1) (\<lambda>sb2.
     Inr (sb2\<lparr>sb_buffersize := len\<rparr>)))"

definition number_of_channels :: "(nat \<Rightarrow> nat \<Rightarrow> 's::zero) \<Rightarrow> nat \<Rightarrow> 's sample_buffer \<Rightarrow> 's sample_buffer result" where
  "number_of_channels g len sb =
     (let sb1 =
        (if len > length (sb_arrays sb)
         then sb\<lparr>sb_arrays := sb_arrays sb @
                   map (\<lambda>n. alloc_sample_buf g n (sb_reserved sb)) [length (sb_arrays sb)..<len]\<rparr>
         else sb) in
      bind_result
        (if len > sb_channel_count sb1
         then on_channels (\<lambda>_. store_loop silent_value 0 (sb_reserved sb1))
                (sb_channel_count sb1) (len - sb_channel_count sb1) sb1
         else Inr sb1) (\<lambda>sb2.
      Inr (sb2\<lparr>sb_channel_count := len\<rparr>)))"

definition make_empty :: "(nat \<Rightarrow> nat \<Rightarrow> 's::zero) \<Rightarrow> 's sample_buffer \<Rightarrow> 's sample_buffer result" where
  "make_empty g sb = length_in_samples g 0 sb"

definition reserve_channels :: "(nat \<Rightarrow> nat \<Rightarrow> 's::zero) \<Rightarrow> nat \<Rightarrow> 's sample_buffer \<Rightarrow> 's sample_buffer result" where
  "reserve_channels g num sb =
     bind_result (number_of_channels g num sb) (number_of_channels g (sb_channel_count sb))"

definition reserve_length_in_samples :: "(nat \<Rightarrow> nat \<Rightarrow> 's::zero) \<Rightarrow> nat \<Rightarrow> 's sample_buffer \<Rightarrow> 's sample_buffer result" where
  "reserve_length_in_samples g len sb =
     bind_result (length_in_samples g len sb) (length_in_samples g (sb_buffersize sb))"

subsection \<open>Copying and mixing\<close>

text \<open>The common loop of the mixing functions: \<open>buffer[q][t] = f(buffer[q][t], x.buffer[q][t])\<close>.\<close>

definition combine_loop ::
  "('s \<Rightarrow> 's \<Rightarrow> 's) \<Rightarrow> 's sample_buffer \<Rightarrow> nat \<Rightarrow> nat \<Rightarrow> 's list \<Rightarrow> 's list result" where
  "combine_loop f x n q =
     update_loop (\<lambda>t v. bind_result (read_cell (sb_arrays x) q t) (\<lambda>w. Inr (f v w))) 0 n"

definition add_matching_channels_ref ::
  "(nat \<Rightarrow> nat \<Rightarrow> 's::{zero,plus}) \<Rightarrow> 's sample_buffer \<Rightarrow> 's sample_buffer \<Rightarrow> 's sample_buffer result" where
  "add_matching_channels_ref g x sb =
     bind_result
       (if sb_buffersize x > sb_buffersize sb then length_in_samples g (sb_buffersize x) sb else Inr sb)
       (\<lambda>sb1. on_channels (combine_loop (+) x (sb_buffersize x))
                0 (min (sb_channel_count sb1) (sb_channel_count x)) sb1)"

definition add_with_weight ::
  "(nat \<Rightarrow> nat \<Rightarrow> 's::{zero,plus,divide}) \<Rightarrow> (int \<Rightarrow> 's) \<Rightarrow> 's sample_buffer \<Rightarrow> int \<Rightarrow> 's sample_buffer \<Rightarrow>
     's sample_buffer result" where
  "add_with_weight g cast x weight sb =
     bind_result
       (if sb_buffersize x > sb_buffersize sb then length_in_samples g (sb_buffersize x) sb else Inr sb)
       (\<lambda>sb1. on_channels (combine_loop (\<lambda>v w. v + w div cast weight) x (sb_buffersize x))
                0 (min (sb_channel_count sb1) (sb_channel_count x)) sb1)"

definition copy_matching_channels ::
  "(nat \<Rightarrow> nat \<Rightarrow> 's::zero) \<Rightarrow> 's sample_buffer \<Rightarrow> 's sample_buffer \<Rightarrow> 's sample_buffer result" where
  "copy_matching_channels g x sb =
     bind_result (length_in_samples g (sb_buffersize x) sb)
       (\<lambda>sb1. on_channels (combine_loop (\<lambda>_ w. w) x (sb_buffersize sb1))
                0 (min (sb_channel_count sb1) (sb_channel_count x)) sb1)"

definition event_tags_set :: "'s sample_buffer \<Rightarrow> 's sample_buffer \<Rightarrow> 's sample_buffer" where
  "event_tags_set x sb = sb\<lparr>sb_event_tags := sb_event_tags x\<rparr>"

definition copy_all_content ::
  "(nat \<Rightarrow> nat \<Rightarrow> 's::zero) \<Rightarrow> 's sample_buffer \<Rightarrow> 's sample_buffer \<Rightarrow> 's sample_buffer result" where
  "copy_all_content g x sb =
     bind_result (length_in_samples g (sb_buffersize x) sb) (\<lambda>sb1.
     bind_result (number_of_channels g (sb_channel_count x) sb1) (\<lambda>sb2.
     bind_result (on_channels (combine_loop (\<lambda>_ w. w) x (sb_buffersize sb2)) 0 (sb_channel_count sb2) sb2)
       (\<lambda>sb3. Inr (event_tags_set x sb3))))"

text \<open>
  The inner loop of \<open>copy_range\<close> advances a source and a destination position together while
  both are below their limits: it makes \<open>min (src_end - src_start) (length - dst_to)\<close> steps.
\<close>

definition copy_range ::
  "'s sample_buffer \<Rightarrow> nat \<Rightarrow> nat \<Rightarrow> nat \<Rightarrow> 's sample_buffer \<Rightarrow> 's sample_buffer result" where
  "copy_range src src_start_pos src_end_pos dst_to_pos sb =
     (let src_end = (if src_end_pos > sb_buffersize src then sb_buffersize src else src_end_pos) in
      on_channels
        (\<lambda>q. update_loop (\<lambda>dst_i _. read_cell (sb_arrays src) q (src_start_pos + (dst_i - dst_to_pos)))
               dst_to_pos (min (src_end - src_start_pos) (sb_buffersize sb - dst_to_pos)))
        0 (sb_channel_count sb) sb)"

subsection \<open>Scaling and limiting\<close>

definition multiply_by_channel :: "'s::times \<Rightarrow> nat \<Rightarrow> 's sample_buffer \<Rightarrow> 's sample_buffer result" where
  "multiply_by_channel factor c sb =
     on_channels (\<lambda>_. update_loop (\<lambda>_ v. Inr (v * factor)) 0 (sb_buffersize sb)) c 1 sb"

definition multiply_by :: "'s::times \<Rightarrow> 's sample_buffer \<Rightarrow> 's sample_buffer result" where
  "multiply_by factor sb = fold_result (multiply_by_channel factor) [0..<sb_channel_count sb] sb"

definition multiply_by_ref :: "'s::times \<Rightarrow> 's sample_buffer \<Rightarrow> 's sample_buffer result" where
  "multiply_by_ref factor sb =
     on_channels (\<lambda>_. update_loop (\<lambda>_ v. Inr (v * factor)) 0 (sb_buffersize sb))
       0 (sb_channel_count sb) sb"

definition divide_by :: "'s::{one,times,divide} \<Rightarrow> 's sample_buffer \<Rightarrow> 's sample_buffer result" where
  "divide_by dvalue sb = multiply_by (1 div dvalue) sb"

definition divide_by_ref :: "'s::{one,times,divide} \<Rightarrow> 's sample_buffer \<Rightarrow> 's sample_buffer result" where
  "divide_by_ref dvalue sb = multiply_by_ref (1 div dvalue) sb"

definition limit_sample :: "'s::{zero,one,plus,minus,ord} \<Rightarrow> 's" where
  "limit_sample v =
     (if v > impl_max_value then impl_max_value
      else if v < impl_min_value then impl_min_value else v)"

definition limit_values :: "'s::{zero,one,plus,minus,ord} sample_buffer \<Rightarrow> 's sample_buffer result" where
  "limit_values sb =
     on_channels (\<lambda>_. update_loop (\<lambda>_ v. Inr (limit_sample v)) 0 (sb_buffersize sb))
       0 (sb_channel_count sb) sb"

subsection \<open>Preparing for resampling\<close>

definition scaled_length :: "int \<Rightarrow> int \<Rightarrow> nat \<Rightarrow> nat" where
  "scaled_length from_srate to_srate n =
     nat \<lfloor>(if from_srate = 0 then 1 else of_int to_srate / of_int from_srate) * (of_nat n :: rat)\<rfloor>"

definition resample_init_memory ::
  "(nat \<Rightarrow> nat \<Rightarrow> 's::zero) \<Rightarrow> int \<Rightarrow> int \<Rightarrow> 's sample_buffer \<Rightarrow> 's sample_buffer" where
  "resample_init_memory g from_srate to_srate sb =
     (let new_buffer_size = scaled_length from_srate to_srate (sb_buffersize sb) + 8;
          sb1 = (if new_buffer_size > sb_reserved sb
                 then sb\<lparr>sb_reserved := new_buffer_size * 2,
                         sb_arrays :=
                           map (\<lambda>c. alloc_sample_buf g c (new_buffer_size * 2)) [0..<sb_channel_count sb]
                           @ drop (sb_channel_count sb) (sb_arrays sb)\<rparr>
                 else sb);
          sb2 = (if sb_old_buffer sb1 = None
                 then sb1\<lparr>sb_old_buffer :=
                            Some (alloc_sample_buf g (length (sb_arrays sb1)) (sb_reserved sb1))\<rparr>
                 else sb1)
      in if length (sb_resample_memory sb2) < sb_channel_count sb2
         then sb2\<lparr>sb_resample_memory := sb_resample_memory sb2 @
                    replicate (sb_channel_count sb2 - length (sb_resample_memory sb2)) 0\<rparr>
         else sb2)"

definition resample_set_quality :: "bool \<Rightarrow> int \<Rightarrow> 's sample_buffer \<Rightarrow> 's sample_buffer" where
  "resample_set_quality samplerate quality sb =
     (if samplerate then sb\<lparr>sb_quality := quality\<rparr>
      else if quality > 10 then sb\<lparr>sb_quality := 5\<rparr> else sb)"

subsection \<open>Locks and event tags\<close>

definition set_rt_lock :: "bool \<Rightarrow> 's sample_buffer \<Rightarrow> 's sample_buffer" where
  "set_rt_lock state sb = sb\<lparr>sb_rt_lock := state\<rparr>"

definition get_pointer_reflock :: "'s sample_buffer \<Rightarrow> 's sample_buffer" where
  "get_pointer_reflock sb = sb\<lparr>sb_lockref := sb_lockref sb + 1\<rparr>"

definition release_pointer_reflock :: "'s sample_buffer \<Rightarrow> 's sample_buffer" where
  "release_pointer_reflock sb = sb\<lparr>sb_lockref := sb_lockref sb - 1\<rparr>"

definition tag_end_of_stream :: "32 word" where "tag_end_of_stream = 1"
definition tag_mixed_content :: "32 word" where "tag_mixed_content = push_bit 1 1"
definition tag_var_length :: "32 word" where "tag_var_length = push_bit 2 1"

definition event_tags_add :: "'s sample_buffer \<Rightarrow> 's sample_buffer \<Rightarrow> 's sample_buffer" where
  "event_tags_add x sb = sb\<lparr>sb_event_tags := sb_event_tags sb OR sb_event_tags x\<rparr>"

definition event_tag_set :: "32 word \<Rightarrow> bool \<Rightarrow> 's sample_buffer \<Rightarrow> 's sample_buffer" where
  "event_tag_set tag val sb =
     (if val then sb\<lparr>sb_event_tags := sb_event_tags sb OR tag\<rparr>
      else sb\<lparr>sb_event_tags := sb_event_tags sb AND NOT tag\<rparr>)"

definition event_tags_clear :: "32 word \<Rightarrow> 's sample_buffer \<Rightarrow> 's sample_buffer" where
  "event_tags_clear tagmask sb = event_tag_set tagmask False sb"

definition event_tag_test :: "32 word \<Rightarrow> 's sample_buffer \<Rightarrow> bool" where
  "event_tag_test tag sb \<longleftrightarrow> sb_event_tags sb AND tag \<noteq> 0"

end
