(* ===== verification/Sample_Buffer_Facts.thy ===== *)
theory Sample_Buffer_Facts
  imports Sample_Buffer
begin

text \<open>
  What the sample buffer promises: a well-formedness invariant of the representation, the audio
  it denotes (a length and a list of channels), and one refinement lemma per operation: on a
  well-formed buffer the operation does not fault, keeps the invariant and changes the audio as
  the specification says, whatever the values in freshly allocated memory.
\<close>

subsection \<open>Invariant and abstraction\<close>

definition sb_wf :: "'s sample_buffer \<Rightarrow> bool" where
  "sb_wf sb \<longleftrightarrow> sb_channel_count sb \<le> length (sb_arrays sb) \<and> sb_buffersize sb \<le> sb_reserved sb \<and>
     (\<forall>a \<in> set (sb_arrays sb). length a = sb_reserved sb)"

lemma sb_wfD:
  assumes "sb_wf sb"
  shows "sb_channel_count sb \<le> length (sb_arrays sb)" "sb_buffersize sb \<le> sb_reserved sb"
    "c < length (sb_arrays sb) \<Longrightarrow> length (sb_arrays sb ! c) = sb_reserved sb"
  using assms by (auto simp: sb_wf_def)

type_synonym 's audio = "nat \<times> 's list list"

definition sb_audio :: "'s sample_buffer \<Rightarrow> 's audio" where
  "sb_audio sb = (sb_buffersize sb, map (take (sb_buffersize sb)) (take (sb_channel_count sb) (sb_arrays sb)))"

lemma sb_audio_length [simp]: "fst (sb_audio sb) = sb_buffersize sb"
  by (simp add: sb_audio_def)

lemma sb_audio_channels: "sb_wf sb \<Longrightarrow> length (snd (sb_audio sb)) = sb_channel_count sb"
  by (simp add: sb_audio_def sb_wf_def)

text \<open>Every sample replaced by a function of its channel, its position and its value.\<close>

definition audio_map :: "(nat \<Rightarrow> nat \<Rightarrow> 's \<Rightarrow> 's) \<Rightarrow> 's audio \<Rightarrow> 's audio" where
  "audio_map h = (\<lambda>(n, cs). (n, map (\<lambda>c. map (\<lambda>t. h c t (cs ! c ! t)) [0..<n]) [0..<length cs]))"

text \<open>The length changed: truncation, or padding with silence.\<close>

definition audio_resize :: "nat \<Rightarrow> 's::zero audio \<Rightarrow> 's audio" where
  "audio_resize n' = (\<lambda>(n, cs). (n', map (\<lambda>a. take n' a @ replicate (n' - n) 0) cs))"

definition audio_set_channels :: "nat \<Rightarrow> 's::zero audio \<Rightarrow> 's audio" where
  "audio_set_channels k = (\<lambda>(n, cs). (n, take k cs @ replicate (k - length cs) (replicate n 0)))"

text \<open>The fields that only the locks and tags touch.\<close>

definition sb_frame :: "'s sample_buffer \<Rightarrow> bool \<times> int \<times> int \<times> 32 word" where
  "sb_frame sb = (sb_rt_lock sb, sb_lockref sb, sb_quality sb, sb_event_tags sb)"

text \<open>An operation implements \<open>spec\<close> on \<open>sb\<close>.\<close>

definition refines :: "'s sample_buffer result \<Rightarrow> ('s audio \<Rightarrow> 's audio) \<Rightarrow> 's sample_buffer \<Rightarrow> bool" where
  "refines r spec sb \<longleftrightarrow>
     (\<exists>sb'. r = Inr sb' \<and> sb_wf sb' \<and> sb_audio sb' = spec (sb_audio sb) \<and> sb_frame sb' = sb_frame sb)"

lemma refinesI:
  "r = Inr sb' \<Longrightarrow> sb_wf sb' \<Longrightarrow> sb_audio sb' = spec (sb_audio sb) \<Longrightarrow> sb_frame sb' = sb_frame sb \<Longrightarrow>
   refines r spec sb"
  by (auto simp: refines_def)

lemma refinesE:
  assumes "refines r spec sb"
  obtains sb' where "r = Inr sb'" "sb_wf sb'" "sb_audio sb' = spec (sb_audio sb)" "sb_frame sb' = sb_frame sb"
  using assms by (auto simp: refines_def)

lemma refines_bind:
  assumes "refines r f sb" and "\<And>sb1. sb_wf sb1 \<Longrightarrow> sb_audio sb1 = f (sb_audio sb) \<Longrightarrow> refines (k sb1) g sb1"
  shows "refines (bind_result r k) (\<lambda>a. g (f a)) sb"
  using assms by (fastforce simp: refines_def)

lemma refines_id: "sb_wf sb \<Longrightarrow> refines (Inr sb) (\<lambda>a. a) sb"
  by (simp add: refines_def)

lemma refines_cong: "refines r f sb \<Longrightarrow> f (sb_audio sb) = g (sb_audio sb) \<Longrightarrow> refines r g sb"
  by (simp add: refines_def)

subsection \<open>Loops over the channels\<close>

lemma on_channels_fields:
  "on_channels f q n sb = Inr sb' \<Longrightarrow> \<exists>bufs. sb' = sb\<lparr>sb_arrays := bufs\<rparr> \<and> length bufs = length (sb_arrays sb)"
  by (auto simp: on_channels_def bind_result_Inr_iff dest: channel_loop_length)

lemma on_channels_closed:
  assumes "q + n \<le> length (sb_arrays sb)"
    and "\<And>c. q \<le> c \<Longrightarrow> c < q + n \<Longrightarrow> f c (sb_arrays sb ! c) = Inr (h c (sb_arrays sb ! c))"
  shows "on_channels f q n sb = Inr (sb\<lparr>sb_arrays := update_range h q n (sb_arrays sb)\<rparr>)"
  unfolding on_channels_def using channel_loop_ok[of q n "sb_arrays sb" f h] assms by simp

lemma on_channels_append:
  "on_channels f q (m + n) sb = bind_result (on_channels f q m sb) (on_channels f (q + m) n)"
proof -
  have "update_loop f q (m + n) bs = bind_result (update_loop f q m bs) (update_loop f (q + m) n)" for bs
  proof (induction m arbitrary: q bs)
    case (Suc m)
    then show ?case by (cases "f q (bs ! q)") simp_all
  qed simp
  then show ?thesis
    by (cases "update_loop f q m (sb_arrays sb)") (simp_all add: on_channels_def channel_loop.simps)
qed

text \<open>The loop over the whole buffer is the loop of the single-channel operations.\<close>

lemma fold_on_channels:
  assumes "\<And>c sb'. sb_buffersize sb' = sb_buffersize sb \<Longrightarrow> op c sb' = on_channels f c 1 sb'"
  shows "fold_result op [q..<q + n] sb = on_channels f q n sb"
  using assms
proof (induction n arbitrary: sb)
  case 0
  then show ?case by (simp add: on_channels_def channel_loop.simps)
next
  case (Suc n)
  have "fold_result op [q..<q + Suc n] sb = bind_result (fold_result op [q..<q + n] sb) (fold_result op [q + n])"
    by (simp add: fold_result_append)
  also have "\<dots> = bind_result (on_channels f q n sb) (fold_result op [q + n])"
    using Suc.IH Suc.prems by simp
  also have "\<dots> = bind_result (on_channels f q n sb) (on_channels f (q + n) 1)"
  proof (cases "on_channels f q n sb")
    case (Inr sb')
    then have "sb_buffersize sb' = sb_buffersize sb"
      using on_channels_fields by fastforce
    then have "op (q + n) sb' = on_channels f (q + n) 1 sb'" by (rule Suc.prems)
    then show ?thesis using Inr by (cases "on_channels f (q + n) 1 sb'") simp_all
  qed simp
  finally show ?case using on_channels_append[of f q n 1 sb] by simp
qed

text \<open>The one fact about loops over samples: in bounds, they implement a pointwise update.\<close>

lemma on_channels_refines:
  assumes "sb_wf sb" "q + n \<le> sb_channel_count sb" "count = 0 \<or> start + count \<le> sb_buffersize sb"
    and "\<And>c t v. q \<le> c \<Longrightarrow> c < q + n \<Longrightarrow> start \<le> t \<Longrightarrow> t < start + count \<Longrightarrow> f c t v = Inr (h c t v)"
  shows "refines (on_channels (\<lambda>c. update_loop (f c) start count) q n sb)
           (audio_map (\<lambda>c t v. if q \<le> c \<and> c < q + n \<and> start \<le> t \<and> t < start + count then h c t v else v)) sb"
proof -
  let ?h = "\<lambda>c. update_range (h c) start count"
  let ?sb' = "sb\<lparr>sb_arrays := update_range ?h q n (sb_arrays sb)\<rparr>"
  note wf = sb_wfD[OF assms(1)]
  have "on_channels (\<lambda>c. update_loop (f c) start count) q n sb = Inr ?sb'"
  proof (rule on_channels_closed)
    show "q + n \<le> length (sb_arrays sb)" using assms(2) wf(1) by simp
    fix c assume "q \<le> c" "c < q + n"
    then show "update_loop (f c) start count (sb_arrays sb ! c) = Inr (?h c (sb_arrays sb ! c))"
      using assms(2-4) wf by (cases "count = 0") (auto intro!: update_loop_ok)
  qed
  moreover have "sb_wf ?sb'"
    using assms(1) wf(3) by (auto simp: sb_wf_def in_set_conv_nth)
  moreover have "sb_audio ?sb' = audio_map
      (\<lambda>c t v. if q \<le> c \<and> c < q + n \<and> start \<le> t \<and> t < start + count then h c t v else v) (sb_audio sb)"
    unfolding sb_audio_def audio_map_def using wf
    by (auto intro!: nth_equalityI)
  ultimately show ?thesis by (auto intro: refinesI simp: sb_frame_def)
qed

lemma refines_audio_map_cong:
  assumes "refines r (audio_map h) sb" "sb_wf sb"
    and "\<And>c t v. c < sb_channel_count sb \<Longrightarrow> t < sb_buffersize sb \<Longrightarrow> h c t v = h' c t v"
  shows "refines r (audio_map h') sb"
  by (rule refines_cong[OF assms(1)])
    (use assms in \<open>auto simp: audio_map_def sb_audio_def sb_wf_def\<close>)

lemma on_channels_refines_all:
  assumes "sb_wf sb" "n \<le> sb_channel_count sb" "count \<le> sb_buffersize sb"
    and "\<And>c t v. c < n \<Longrightarrow> t < count \<Longrightarrow> f c t v = Inr (h c t v)"
  shows "refines (on_channels (\<lambda>c. update_loop (f c) 0 count) 0 n sb)
           (audio_map (\<lambda>c t v. if c < n \<and> t < count then h c t v else v)) sb"
  using on_channels_refines[where sb = sb and q = 0 and start = 0 and count = count and n = n and f = f and h = h] assms
  by simp

subsection \<open>The operations on samples\<close>

lemma refines_fold:
  assumes "\<And>c sb'. sb_buffersize sb' = sb_buffersize sb \<Longrightarrow> op c sb' = on_channels f c 1 sb'"
    and "refines (on_channels f 0 (sb_channel_count sb) sb) spec sb"
  shows "refines (fold_result op [0..<sb_channel_count sb] sb) spec sb"
  using fold_on_channels[of sb op f 0 "sb_channel_count sb"] assms by simp

lemma make_silent_channel_refines:
  assumes "sb_wf sb" "c < sb_channel_count sb"
  shows "refines (make_silent_channel c sb) (audio_map (\<lambda>q t v. if q = c then 0 else v)) sb"
proof -
  have "refines (make_silent_channel c sb)
      (audio_map (\<lambda>q t v. if c \<le> q \<and> q < c + 1 \<and> 0 \<le> t \<and> t < 0 + sb_buffersize sb then silent_value else v)) sb"
    unfolding make_silent_channel_def store_loop_def
    by (rule on_channels_refines) (use assms in auto)
  then show ?thesis by (rule refines_audio_map_cong) (use assms in auto)
qed

lemma make_silent_refines:
  assumes "sb_wf sb" shows "refines (make_silent sb) (audio_map (\<lambda>_ _ _. 0)) sb"
  unfolding make_silent_def
proof (rule refines_fold)
  let ?f = "\<lambda>_. store_loop silent_value 0 (sb_buffersize sb)"
  show "sb_buffersize sb' = sb_buffersize sb \<Longrightarrow> make_silent_channel c sb' = on_channels ?f c 1 sb'" for c sb'
    by (simp add: make_silent_channel_def)
  have "refines (on_channels ?f 0 (sb_channel_count sb) sb)
      (audio_map (\<lambda>c t v. if c < sb_channel_count sb \<and> t < sb_buffersize sb then silent_value else v)) sb"
    unfolding store_loop_def by (rule on_channels_refines_all) (use assms in auto)
  then show "refines (on_channels ?f 0 (sb_channel_count sb) sb) (audio_map (\<lambda>_ _ _. 0)) sb"
    by (rule refines_audio_map_cong) (use assms in auto)
qed

lemma make_silent_range_ref_refines:
  assumes "sb_wf sb"
  shows "refines (make_silent_range_ref s e sb) (audio_map (\<lambda>_ t v. if s \<le> t \<and> t < e then 0 else v)) sb"
proof -
  have "refines (make_silent_range_ref s e sb)
      (audio_map (\<lambda>c t v. if 0 \<le> c \<and> c < 0 + sb_channel_count sb \<and> s \<le> t \<and>
          t < s + (min e (sb_buffersize sb) - s) then silent_value else v)) sb"
    unfolding make_silent_range_ref_def store_loop_def
    by (rule on_channels_refines) (use assms in auto)
  then show ?thesis by (rule refines_audio_map_cong) (use assms in auto)
qed

lemma multiply_by_ref_refines:
  assumes "sb_wf sb" shows "refines (multiply_by_ref k sb) (audio_map (\<lambda>_ _ v. v * k)) sb"
proof -
  have "refines (multiply_by_ref k sb)
      (audio_map (\<lambda>c t v. if c < sb_channel_count sb \<and> t < sb_buffersize sb then v * k else v)) sb"
    unfolding multiply_by_ref_def by (rule on_channels_refines_all) (use assms in auto)
  then show ?thesis by (rule refines_audio_map_cong) (use assms in auto)
qed

lemma multiply_by_eq_ref: "multiply_by k sb = multiply_by_ref k sb"
  unfolding multiply_by_def multiply_by_ref_def
  by (rule fold_on_channels[of sb _ _ 0, simplified]) (simp add: multiply_by_channel_def)

lemma divide_by_eq_ref: "divide_by d sb = divide_by_ref d sb"
  by (simp add: divide_by_def divide_by_ref_def multiply_by_eq_ref)

lemma multiply_by_channel_refines:
  assumes "sb_wf sb" "c < sb_channel_count sb"
  shows "refines (multiply_by_channel k c sb) (audio_map (\<lambda>q t v. if q = c then v * k else v)) sb"
proof -
  have "refines (multiply_by_channel k c sb)
      (audio_map (\<lambda>q t v. if c \<le> q \<and> q < c + 1 \<and> 0 \<le> t \<and> t < 0 + sb_buffersize sb then v * k else v)) sb"
    unfolding multiply_by_channel_def by (rule on_channels_refines) (use assms in auto)
  then show ?thesis by (rule refines_audio_map_cong) (use assms in auto)
qed

lemma limit_values_refines:
  assumes "sb_wf sb" shows "refines (limit_values sb) (audio_map (\<lambda>_ _. limit_sample)) sb"
proof -
  have "refines (limit_values sb)
      (audio_map (\<lambda>c t v. if c < sb_channel_count sb \<and> t < sb_buffersize sb then limit_sample v else v)) sb"
    unfolding limit_values_def by (rule on_channels_refines_all) (use assms in auto)
  then show ?thesis by (rule refines_audio_map_cong) (use assms in auto)
qed

subsection \<open>The length of the buffer\<close>

text \<open>Every array with the samples before \<open>n\<close> kept and silence after them, \<open>r\<close> long.\<close>

definition pad_silence :: "nat \<Rightarrow> nat \<Rightarrow> 's::zero list \<Rightarrow> 's list" where
  "pad_silence r n a = take n a @ replicate (r - n) 0"

lemma length_pad_silence: "n \<le> r \<Longrightarrow> n \<le> length a \<Longrightarrow> length (pad_silence r n a) = r"
  by (simp add: pad_silence_def)

lemma update_range_map: "length xs \<le> n \<Longrightarrow> update_range (\<lambda>_. f) 0 n xs = map f xs"
  by (rule nth_equalityI) simp_all

lemma copy_prefix_ok:
  "n \<le> length src \<Longrightarrow> n \<le> length dst \<Longrightarrow> copy_prefix src n dst = Inr (take n src @ drop n dst)"
proof -
  assume n: "n \<le> length src" "n \<le> length dst"
  then have "copy_prefix src n dst = Inr (update_range (\<lambda>m _. src ! m) 0 n dst)"
    unfolding copy_prefix_def by (intro update_loop_ok) auto
  moreover have "update_range (\<lambda>m _. src ! m) 0 n dst = take n src @ drop n dst"
    by (rule nth_equalityI) (use n in \<open>auto simp: nth_append\<close>)
  ultimately show ?thesis by simp
qed

lemma store_loop_tail:
  "n \<le> length a \<Longrightarrow> store_loop 0 n (length a - n) a = Inr (pad_silence (length a) n a)"
proof -
  assume n: "n \<le> length a"
  then have "store_loop 0 n (length a - n) a = Inr (update_range (\<lambda>_ _. 0) n (length a - n) a)"
    unfolding store_loop_def by (intro update_loop_pure) simp
  moreover have "update_range (\<lambda>_ _. 0) n (length a - n) a = pad_silence (length a) n a"
    by (rule nth_equalityI) (use n in \<open>auto simp: nth_append pad_silence_def\<close>)
  ultimately show ?thesis by simp
qed

lemma grow_wf:
  assumes "sb_wf sb" "len > sb_reserved sb"
  shows "\<exists>sb1. length_in_samples_grow g len sb = Inr sb1 \<and> sb_wf sb1 \<and> sb_audio sb1 = sb_audio sb \<and>
           sb_frame sb1 = sb_frame sb \<and> sb_reserved sb1 = len * 2 \<and> sb_buffersize sb1 = sb_buffersize sb"
proof -
  note wf = sb_wfD[OF assms(1)]
  let ?bs = "sb_buffersize sb" and ?n = "length (sb_arrays sb)"
  define h where "h = (\<lambda>n prev. take ?bs prev @ drop ?bs (alloc_sample_buf g n (len * 2)))"
  define arrays where "arrays = update_range h 0 ?n (sb_arrays sb)"
  define sb1 where "sb1 = sb\<lparr>sb_arrays := arrays, sb_reserved := len * 2,
      sb_old_buffer := map_option (\<lambda>_. alloc_sample_buf g ?n (len * 2)) (sb_old_buffer sb)\<rparr>"
  have len_h: "length (h c (sb_arrays sb ! c)) = len * 2"
    and take_h: "take ?bs (h c (sb_arrays sb ! c)) = take ?bs (sb_arrays sb ! c)" if "c < ?n" for c
    using that wf assms(2) by (simp_all add: h_def alloc_sample_buf_def)
  have n: "length arrays = ?n" and nth: "c < ?n \<Longrightarrow> arrays ! c = h c (sb_arrays sb ! c)" for c
    by (simp_all add: arrays_def)
  have "on_channels (\<lambda>n prev. copy_prefix prev ?bs (alloc_sample_buf g n (len * 2))) 0 ?n sb
      = Inr (sb\<lparr>sb_arrays := arrays\<rparr>)"
    unfolding arrays_def
  proof (rule on_channels_closed)
    fix c assume "c < 0 + ?n"
    then have "?bs \<le> length (sb_arrays sb ! c)" "?bs \<le> length (alloc_sample_buf g c (len * 2))"
      using wf assms(2) by (simp_all add: alloc_sample_buf_def)
    then show "copy_prefix (sb_arrays sb ! c) ?bs (alloc_sample_buf g c (len * 2)) = Inr (h c (sb_arrays sb ! c))"
      unfolding h_def by (rule copy_prefix_ok)
  qed simp
  then have "length_in_samples_grow g len sb = Inr sb1"
    by (simp add: length_in_samples_grow_def sb1_def Let_def)
  moreover have "sb_wf sb1"
    unfolding sb_wf_def using wf(1,2) assms(2) n nth len_h
    by (auto simp: sb1_def in_set_conv_nth)
  moreover have "map (take ?bs) (take (sb_channel_count sb) arrays) = map (take ?bs) (take (sb_channel_count sb) (sb_arrays sb))"
    by (rule nth_equalityI) (use wf(1) n nth take_h in simp_all)
  then have "sb_audio sb1 = sb_audio sb" by (simp add: sb_audio_def sb1_def)
  ultimately show ?thesis by (intro exI[of _ sb1]) (simp add: sb1_def sb_frame_def)
qed

lemma mute_tail_refines:
  assumes "sb_wf sb" "sb_buffersize sb < len" "len \<le> sb_reserved sb"
  shows "\<exists>sb1. on_channels (\<lambda>_. store_loop 0 (sb_buffersize sb) (sb_reserved sb - sb_buffersize sb))
              0 (length (sb_arrays sb)) sb = Inr sb1 \<and> sb_wf sb1 \<and>
           sb_audio (sb1\<lparr>sb_buffersize := len\<rparr>) = audio_resize len (sb_audio sb) \<and> sb_frame sb1 = sb_frame sb \<and>
           sb_reserved sb1 = sb_reserved sb"
proof -
  note wf = sb_wfD[OF assms(1)]
  let ?bs = "sb_buffersize sb" and ?r = "sb_reserved sb"
  have "on_channels (\<lambda>_. store_loop 0 ?bs (?r - ?bs)) 0 (length (sb_arrays sb)) sb =
      Inr (sb\<lparr>sb_arrays := update_range (\<lambda>_. pad_silence ?r ?bs) 0 (length (sb_arrays sb)) (sb_arrays sb)\<rparr>)"
  proof (rule on_channels_closed)
    fix c assume "c < 0 + length (sb_arrays sb)"
    then show "store_loop 0 ?bs (?r - ?bs) (sb_arrays sb ! c) = Inr (pad_silence ?r ?bs (sb_arrays sb ! c))"
      using wf store_loop_tail[of ?bs "sb_arrays sb ! c"] by simp
  qed simp
  then show ?thesis
    using assms wf
    by (auto simp: update_range_map sb_wf_def sb_audio_def sb_frame_def audio_resize_def take_map
          length_pad_silence pad_silence_def min_def dest!: in_set_takeD)
qed

lemma shrink_refines:
  assumes "sb_wf sb" "len \<le> sb_buffersize sb"
  shows "refines (Inr (sb\<lparr>sb_buffersize := len\<rparr>)) (audio_resize len) sb"
  using assms by (auto simp: refines_def sb_wf_def sb_audio_def audio_resize_def sb_frame_def min_def)

lemma length_in_samples_refines:
  assumes "sb_wf sb" shows "refines (length_in_samples g len sb) (audio_resize len) sb"
proof -
  obtain sb1 where sb1: "(if len > sb_reserved sb then length_in_samples_grow g len sb else Inr sb) = Inr sb1"
      "sb_wf sb1" "sb_audio sb1 = sb_audio sb" "sb_frame sb1 = sb_frame sb" "len \<le> sb_reserved sb1"
    using assms grow_wf[OF assms, of len g] by (cases "len > sb_reserved sb") auto
  have "refines (length_in_samples g len sb) (audio_resize len) sb1"
  proof (cases "len > sb_buffersize sb1")
    case True
    with mute_tail_refines[OF sb1(2) True sb1(5)] show ?thesis
      by (auto simp: length_in_samples_def sb1(1) refines_def sb_wf_def sb_frame_def sb1(5))
  next
    case False
    then show ?thesis
      using shrink_refines[OF sb1(2)] by (simp add: length_in_samples_def sb1(1))
  qed
  then show ?thesis using sb1 by (simp add: refines_def)
qed

subsection \<open>The channel count\<close>

lemma mute_channels_refines:
  assumes "sb_wf sb" "sb_channel_count sb \<le> k" "k \<le> length (sb_arrays sb)"
  shows "refines (bind_result
           (on_channels (\<lambda>_. store_loop 0 0 (sb_reserved sb)) (sb_channel_count sb) (k - sb_channel_count sb) sb)
           (\<lambda>sb2. Inr (sb2\<lparr>sb_channel_count := k\<rparr>))) (audio_set_channels k) sb"
proof -
  note wf = sb_wfD[OF assms(1)]
  let ?r = "sb_reserved sb" and ?n = "sb_channel_count sb"
  define arrays where "arrays = update_range (\<lambda>_ _. replicate ?r 0) ?n (k - ?n) (sb_arrays sb)"
  have n: "length arrays = length (sb_arrays sb)"
    and nth: "c < length (sb_arrays sb) \<Longrightarrow>
      arrays ! c = (if ?n \<le> c \<and> c < k then replicate ?r 0 else sb_arrays sb ! c)" for c
    using assms(2) by (auto simp: arrays_def)
  have "on_channels (\<lambda>_. store_loop 0 0 ?r) ?n (k - ?n) sb = Inr (sb\<lparr>sb_arrays := arrays\<rparr>)"
    unfolding arrays_def
  proof (rule on_channels_closed)
    fix c assume c: "c < ?n + (k - ?n)"
    then have "length (sb_arrays sb ! c) = ?r" using wf assms(2,3) by simp
    then show "store_loop 0 0 ?r (sb_arrays sb ! c) = Inr (replicate ?r 0)"
      using store_loop_tail[of 0 "sb_arrays sb ! c"] by (simp add: pad_silence_def)
  qed (use assms in simp)
  moreover have "sb_wf (sb\<lparr>sb_arrays := arrays, sb_channel_count := k\<rparr>)"
    unfolding sb_wf_def using wf n nth assms(3) by (auto simp: in_set_conv_nth)
  moreover have "map (take (sb_buffersize sb)) (take k arrays) =
      map (take (sb_buffersize sb)) (take ?n (sb_arrays sb)) @
      replicate (k - ?n) (replicate (sb_buffersize sb) 0)" (is "?l = ?rhs")
  proof (rule nth_equalityI)
    show "length ?l = length ?rhs" using assms(2,3) n by simp
    fix c assume "c < length ?l"
    then have c: "c < k" "c < length (sb_arrays sb)" using n assms(3) by simp_all
    then show "?l ! c = ?rhs ! c"
      using assms(2) wf(1,2) n nth[OF c(2)] by (cases "c < ?n") (simp_all add: nth_append min_def)
  qed
  ultimately show ?thesis
    using wf(1) assms(2)
    by (intro refinesI[where sb' = "sb\<lparr>sb_arrays := arrays, sb_channel_count := k\<rparr>"])
       (simp_all add: sb_audio_def audio_set_channels_def sb_frame_def)
qed

lemma drop_channels_refines:
  assumes "sb_wf sb" "k \<le> sb_channel_count sb"
  shows "refines (Inr (sb\<lparr>sb_channel_count := k\<rparr>)) (audio_set_channels k) sb"
  using assms by (auto simp: refines_def sb_wf_def sb_audio_def audio_set_channels_def sb_frame_def take_map min_def)

lemma alloc_channels_wf:
  assumes "sb_wf sb"
  shows "sb_wf (sb\<lparr>sb_arrays := sb_arrays sb @ map (\<lambda>n. alloc_sample_buf g n (sb_reserved sb)) ns\<rparr>)"
    "sb_audio (sb\<lparr>sb_arrays := sb_arrays sb @ map (\<lambda>n. alloc_sample_buf g n (sb_reserved sb)) ns\<rparr>) = sb_audio sb"
  using assms by (auto simp: sb_wf_def sb_audio_def alloc_sample_buf_def)

lemma number_of_channels_refines:
  assumes "sb_wf sb" shows "refines (number_of_channels g k sb) (audio_set_channels k) sb"
proof -
  define sb1 where "sb1 = (if k > length (sb_arrays sb)
      then sb\<lparr>sb_arrays := sb_arrays sb @
                map (\<lambda>n. alloc_sample_buf g n (sb_reserved sb)) [length (sb_arrays sb)..<k]\<rparr>
      else sb)"
  have sb1: "sb_wf sb1" "sb_audio sb1 = sb_audio sb" "k \<le> length (sb_arrays sb1)"
      "sb_channel_count sb1 = sb_channel_count sb" "sb_frame sb1 = sb_frame sb"
    using alloc_channels_wf[OF assms] assms by (auto simp: sb1_def sb_frame_def)
  have "refines (number_of_channels g k sb) (audio_set_channels k) sb1"
  proof (cases "k > sb_channel_count sb1")
    case True
    then show ?thesis
      using mute_channels_refines[OF sb1(1) _ sb1(3)] by (simp add: number_of_channels_def Let_def flip: sb1_def)
  next
    case False
    then show ?thesis
      using drop_channels_refines[OF sb1(1)] by (simp add: number_of_channels_def Let_def flip: sb1_def)
  qed
  then show ?thesis using sb1 by (simp add: refines_def)
qed

subsection \<open>Reserving\<close>

lemma reserve_channels_refines:
  assumes "sb_wf sb"
  shows "refines (reserve_channels g k sb) (\<lambda>a. audio_set_channels (sb_channel_count sb) (audio_set_channels k a)) sb"
  unfolding reserve_channels_def
  by (rule refines_bind[OF number_of_channels_refines[OF assms]]) (rule number_of_channels_refines)

lemma reserve_length_refines:
  assumes "sb_wf sb"
  shows "refines (reserve_length_in_samples g len sb) (\<lambda>a. audio_resize (sb_buffersize sb) (audio_resize len a)) sb"
  unfolding reserve_length_in_samples_def
  by (rule refines_bind[OF length_in_samples_refines[OF assms]]) (rule length_in_samples_refines)

lemma make_empty_refines:
  "sb_wf sb \<Longrightarrow> refines (make_empty g sb) (audio_resize 0) sb"
  by (simp add: make_empty_def length_in_samples_refines)

subsection \<open>Mixing and copying\<close>

text \<open>
  \<open>audio_combine f x n\<close>: the first \<open>n\<close> samples of the channels that both have are replaced by \<open>f\<close> of
  the own sample and that of \<open>x\<close>.
\<close>

definition audio_combine :: "('s \<Rightarrow> 's \<Rightarrow> 's) \<Rightarrow> 's audio \<Rightarrow> 's audio \<Rightarrow> 's audio" where
  "audio_combine f x = audio_map (\<lambda>c t v. if c < length (snd x) \<and> t < fst x then f v (snd x ! c ! t) else v)"

lemma sb_audio_nth:
  assumes "sb_wf x" "c < sb_channel_count x" "t < sb_buffersize x"
  shows "snd (sb_audio x) ! c ! t = sb_arrays x ! c ! t" "read_cell (sb_arrays x) c t = Inr (sb_arrays x ! c ! t)"
  using assms sb_wfD[OF assms(1)] by (simp_all add: sb_audio_def)

lemma combine_refines:
  assumes "sb_wf sb" "sb_wf x" "sb_buffersize x \<le> sb_buffersize sb"
  shows "refines (on_channels (combine_loop f x (sb_buffersize x)) 0 (min (sb_channel_count sb) (sb_channel_count x)) sb)
           (audio_combine f (sb_audio x)) sb"
proof -
  let ?n = "min (sb_channel_count sb) (sb_channel_count x)"
  have "refines (on_channels (combine_loop f x (sb_buffersize x)) 0 ?n sb)
      (audio_map (\<lambda>c t v. if c < ?n \<and> t < sb_buffersize x then f v (snd (sb_audio x) ! c ! t) else v)) sb"
    unfolding combine_loop_def
    by (rule on_channels_refines_all) (use assms sb_audio_nth[OF assms(2)] in auto)
  then show ?thesis unfolding audio_combine_def
    by (rule refines_audio_map_cong) (use assms sb_audio_channels[OF assms(2)] in auto)
qed

text \<open>The length a mixing operation makes room for.\<close>

lemma enlarge_refines:
  assumes "sb_wf sb"
  shows "refines (if n > sb_buffersize sb then length_in_samples g n sb else Inr sb)
           (\<lambda>a. if n > fst a then audio_resize n a else a) sb"
  using length_in_samples_refines[OF assms, of g n] refines_id[OF assms]
  by (auto simp: refines_def)

lemma audio_resize_fst [simp]: "fst (audio_resize n a) = n"
  by (cases a) (simp add: audio_resize_def)

lemma audio_set_channels_simps [simp]:
  "fst (audio_set_channels k a) = fst a" "length (snd (audio_set_channels k a)) = k"
  "length (snd (audio_resize n a)) = length (snd a)"
  by (cases a; simp add: audio_set_channels_def audio_resize_def)+

lemma mix_refines:
  assumes "sb_wf sb" "sb_wf x"
  shows "refines (bind_result
           (if sb_buffersize x > sb_buffersize sb then length_in_samples g (sb_buffersize x) sb else Inr sb)
           (\<lambda>sb1. on_channels (combine_loop f x (sb_buffersize x)) 0
                    (min (sb_channel_count sb1) (sb_channel_count x)) sb1))
           (\<lambda>a. audio_combine f (sb_audio x) (if fst (sb_audio x) > fst a then audio_resize (fst (sb_audio x)) a else a)) sb"
proof (rule refines_bind[where f = "\<lambda>a. if fst (sb_audio x) > fst a then audio_resize (fst (sb_audio x)) a else a"])
  show "refines (if sb_buffersize x > sb_buffersize sb then length_in_samples g (sb_buffersize x) sb else Inr sb)
      (\<lambda>a. if fst (sb_audio x) > fst a then audio_resize (fst (sb_audio x)) a else a) sb"
    unfolding sb_audio_length by (rule enlarge_refines[OF assms(1)])
  fix sb1 assume "sb_wf sb1" and a: "sb_audio sb1 =
      (if fst (sb_audio x) > fst (sb_audio sb) then audio_resize (fst (sb_audio x)) (sb_audio sb) else sb_audio sb)"
  have "sb_buffersize sb1 = fst (sb_audio sb1)" by simp
  also have "\<dots> \<ge> sb_buffersize x" unfolding a by simp
  finally show "refines (on_channels (combine_loop f x (sb_buffersize x)) 0 (min (sb_channel_count sb1) (sb_channel_count x)) sb1)
      (audio_combine f (sb_audio x)) sb1"
    using \<open>sb_wf sb1\<close> assms(2) by (intro combine_refines) simp_all
qed

lemma add_matching_channels_refines:
  assumes "sb_wf sb" "sb_wf x"
  shows "refines (add_matching_channels_ref g x sb)
    (\<lambda>a. audio_combine (+) (sb_audio x) (if fst (sb_audio x) > fst a then audio_resize (fst (sb_audio x)) a else a)) sb"
  unfolding add_matching_channels_ref_def by (rule mix_refines[OF assms])

lemma add_with_weight_refines:
  assumes "sb_wf sb" "sb_wf x"
  shows "refines (add_with_weight g cast x w sb)
    (\<lambda>a. audio_combine (\<lambda>v u. v + u div cast w) (sb_audio x)
           (if fst (sb_audio x) > fst a then audio_resize (fst (sb_audio x)) a else a)) sb"
  unfolding add_with_weight_def by (rule mix_refines[OF assms])

lemma copy_matching_channels_refines:
  assumes "sb_wf sb" "sb_wf x"
  shows "refines (copy_matching_channels g x sb)
    (\<lambda>a. audio_combine (\<lambda>_ u. u) (sb_audio x) (audio_resize (fst (sb_audio x)) a)) sb"
  unfolding copy_matching_channels_def
proof (rule refines_bind[where f = "audio_resize (fst (sb_audio x))"])
  show "refines (length_in_samples g (sb_buffersize x) sb) (audio_resize (fst (sb_audio x))) sb"
    using length_in_samples_refines[OF assms(1), of g "sb_buffersize x"] by simp
  fix sb1 assume "sb_wf sb1" "sb_audio sb1 = audio_resize (fst (sb_audio x)) (sb_audio sb)"
  then have "sb_buffersize sb1 = sb_buffersize x" by (metis audio_resize_fst sb_audio_length)
  then show "refines (on_channels (combine_loop (\<lambda>_ u. u) x (sb_buffersize sb1)) 0
      (min (sb_channel_count sb1) (sb_channel_count x)) sb1) (audio_combine (\<lambda>_ u. u) (sb_audio x)) sb1"
    using \<open>sb_wf sb1\<close> assms(2) combine_refines[of sb1 x "\<lambda>_ u. u"] by simp
qed

end
