(* ===== verification/Sample_Buffer_Ops.thy ===== *)
theory Sample_Buffer_Ops
  imports Sample_Buffer_Facts
begin

text \<open>
  The operations of the sample buffer as one datatype, what they do to the audio as a partial
  function (undefined where a channel number is out of range or an argument is not well formed),
  and the theorems on whole histories of operations; then the operations whose result is not what
  their documentation promises, and the realtime guarantee of reserving.
\<close>

subsection \<open>Copies\<close>

lemma event_tags_set_wf [simp]:
  "sb_wf (event_tags_set x sb) = sb_wf sb" "sb_audio (event_tags_set x sb) = sb_audio sb"
  "sb_event_tags (event_tags_set x sb) = sb_event_tags x"
  by (simp_all add: event_tags_set_def sb_wf_def sb_audio_def)

lemma copy_all_content_ok:
  assumes "sb_wf sb" "sb_wf x"
  shows "\<exists>sb'. copy_all_content g x sb = Inr sb' \<and> sb_wf sb' \<and> sb_audio sb' = sb_audio x \<and>
           sb_event_tags sb' = sb_event_tags x"
proof -
  obtain sb1 where 1: "length_in_samples g (sb_buffersize x) sb = Inr sb1" "sb_wf sb1"
      "sb_audio sb1 = audio_resize (sb_buffersize x) (sb_audio sb)"
    using length_in_samples_refines[OF assms(1)] by (rule refinesE)
  obtain sb2 where 2: "number_of_channels g (sb_channel_count x) sb1 = Inr sb2" "sb_wf sb2"
      "sb_audio sb2 = audio_set_channels (sb_channel_count x) (sb_audio sb1)"
    using number_of_channels_refines[OF 1(2)] by (rule refinesE)
  have n: "sb_buffersize sb2 = sb_buffersize x"
    by (metis 1(3) 2(3) audio_resize_fst audio_set_channels_simps(1) sb_audio_length)
  have k: "sb_channel_count sb2 = sb_channel_count x"
    by (metis 2(2,3) audio_set_channels_simps(2) sb_audio_channels)
  obtain sb3 where 3: "on_channels (combine_loop (\<lambda>_ w. w) x (sb_buffersize sb2)) 0 (sb_channel_count sb2) sb2 = Inr sb3"
      "sb_wf sb3" "sb_audio sb3 = audio_combine (\<lambda>_ w. w) (sb_audio x) (sb_audio sb2)"
    using combine_refines[OF 2(2) assms(2), of "\<lambda>_ w. w"] n k by (auto elim: refinesE)
  have "sb_audio sb3 = sb_audio x"
  proof -
    note cx = sb_wfD[OF assms(2)]
    have "sb_audio sb3 = (sb_buffersize x,
        map (\<lambda>c. map (\<lambda>t. snd (sb_audio x) ! c ! t) [0..<sb_buffersize x]) [0..<sb_channel_count x])"
      unfolding 3(3) audio_combine_def audio_map_def
      using n k sb_audio_channels[OF assms(2)] sb_audio_channels[OF 2(2)]
      by (cases "sb_audio sb2") (auto simp: sb_audio_def)
    also have "\<dots> = sb_audio x"
      unfolding sb_audio_def using cx by (auto intro!: nth_equalityI)
    finally show ?thesis .
  qed
  then show ?thesis
    using 1(1) 2(1) 3(1,2) by (simp add: copy_all_content_def)
qed

definition audio_copy_range :: "'s audio \<Rightarrow> nat \<Rightarrow> nat \<Rightarrow> nat \<Rightarrow> 's audio \<Rightarrow> 's audio" where
  "audio_copy_range x s e to =
     audio_map (\<lambda>c t v. if to \<le> t \<and> s + (t - to) < min e (fst x) then snd x ! c ! (s + (t - to)) else v)"

lemma copy_range_refines:
  assumes "sb_wf sb" "sb_wf x" "sb_channel_count sb = sb_channel_count x"
  shows "refines (copy_range x s e to sb) (audio_copy_range (sb_audio x) s e to) sb"
proof -
  let ?e = "if e > sb_buffersize x then sb_buffersize x else e"
  let ?m = "min (?e - s) (sb_buffersize sb - to)"
  have "refines (copy_range x s e to sb)
      (audio_map (\<lambda>c t v. if 0 \<le> c \<and> c < 0 + sb_channel_count sb \<and> to \<le> t \<and> t < to + ?m
         then snd (sb_audio x) ! c ! (s + (t - to)) else v)) sb"
    unfolding copy_range_def Let_def
  proof (rule on_channels_refines)
    fix c t
    assume c: "c < 0 + sb_channel_count sb" and t: "to \<le> t" "t < to + ?m"
    then have "t - to < ?e - s" by linarith
    then have "s + (t - to) < sb_buffersize x" by (simp split: if_splits)
    then show "read_cell (sb_arrays x) c (s + (t - to)) = Inr (snd (sb_audio x) ! c ! (s + (t - to)))"
      using sb_audio_nth[OF assms(2)] c assms(3) by simp
  qed (use assms in auto)
  then show ?thesis unfolding audio_copy_range_def
    by (rule refines_audio_map_cong) (use assms in \<open>auto simp: min_def\<close>)
qed

subsection \<open>Histories of operations\<close>

datatype 's sb_op =
    Make_silent
  | Make_silent_channel nat
  | Make_silent_range_ref nat nat
  | Multiply_by 's
  | Multiply_by_channel 's nat
  | Limit_values
  | Make_empty
  | Number_of_channels nat
  | Length_in_samples nat
  | Reserve_channels nat
  | Reserve_length nat
  | Add_matching_channels "'s sample_buffer"
  | Add_with_weight "'s sample_buffer" int
  | Copy_matching_channels "'s sample_buffer"
  | Copy_all_content "'s sample_buffer"
  | Copy_range "'s sample_buffer" nat nat nat

fun sb_exec :: "(nat \<Rightarrow> nat \<Rightarrow> 's::{zero,one,plus,minus,times,divide,ord}) \<Rightarrow> (int \<Rightarrow> 's) \<Rightarrow> 's sb_op \<Rightarrow>
    's sample_buffer \<Rightarrow> 's sample_buffer result" where
  "sb_exec g cast Make_silent = make_silent"
| "sb_exec g cast (Make_silent_channel c) = make_silent_channel c"
| "sb_exec g cast (Make_silent_range_ref s e) = make_silent_range_ref s e"
| "sb_exec g cast (Multiply_by k) = multiply_by k"
| "sb_exec g cast (Multiply_by_channel k c) = multiply_by_channel k c"
| "sb_exec g cast Limit_values = limit_values"
| "sb_exec g cast Make_empty = make_empty g"
| "sb_exec g cast (Number_of_channels k) = number_of_channels g k"
| "sb_exec g cast (Length_in_samples n) = length_in_samples g n"
| "sb_exec g cast (Reserve_channels k) = reserve_channels g k"
| "sb_exec g cast (Reserve_length n) = reserve_length_in_samples g n"
| "sb_exec g cast (Add_matching_channels x) = add_matching_channels_ref g x"
| "sb_exec g cast (Add_with_weight x w) = add_with_weight g cast x w"
| "sb_exec g cast (Copy_matching_channels x) = copy_matching_channels g x"
| "sb_exec g cast (Copy_all_content x) = copy_all_content g x"
| "sb_exec g cast (Copy_range x s e to) = copy_range x s e to"

definition audio_enlarge :: "'s::zero audio \<Rightarrow> 's audio \<Rightarrow> 's audio" where
  "audio_enlarge x a = (if fst x > fst a then audio_resize (fst x) a else a)"

text \<open>The meaning of an operation on a buffer with \<open>length (snd a)\<close> channels of \<open>fst a\<close> samples.\<close>

fun sb_spec :: "(int \<Rightarrow> 's::{zero,one,plus,minus,times,divide,ord}) \<Rightarrow> 's sb_op \<Rightarrow> 's audio \<Rightarrow> 's audio option" where
  "sb_spec cast Make_silent a = Some (audio_map (\<lambda>_ _ _. 0) a)"
| "sb_spec cast (Make_silent_channel c) a =
     (if c < length (snd a) then Some (audio_map (\<lambda>q t v. if q = c then 0 else v) a) else None)"
| "sb_spec cast (Make_silent_range_ref s e) a = Some (audio_map (\<lambda>_ t v. if s \<le> t \<and> t < e then 0 else v) a)"
| "sb_spec cast (Multiply_by k) a = Some (audio_map (\<lambda>_ _ v. v * k) a)"
| "sb_spec cast (Multiply_by_channel k c) a =
     (if c < length (snd a) then Some (audio_map (\<lambda>q t v. if q = c then v * k else v) a) else None)"
| "sb_spec cast Limit_values a = Some (audio_map (\<lambda>_ _. limit_sample) a)"
| "sb_spec cast Make_empty a = Some (audio_resize 0 a)"
| "sb_spec cast (Number_of_channels k) a = Some (audio_set_channels k a)"
| "sb_spec cast (Length_in_samples n) a = Some (audio_resize n a)"
| "sb_spec cast (Reserve_channels k) a = Some (audio_set_channels (length (snd a)) (audio_set_channels k a))"
| "sb_spec cast (Reserve_length n) a = Some (audio_resize (fst a) (audio_resize n a))"
| "sb_spec cast (Add_matching_channels x) a =
     (if sb_wf x then Some (audio_combine (+) (sb_audio x) (audio_enlarge (sb_audio x) a)) else None)"
| "sb_spec cast (Add_with_weight x w) a =
     (if sb_wf x
      then Some (audio_combine (\<lambda>v u. v + u div cast w) (sb_audio x) (audio_enlarge (sb_audio x) a)) else None)"
| "sb_spec cast (Copy_matching_channels x) a =
     (if sb_wf x then Some (audio_combine (\<lambda>_ u. u) (sb_audio x) (audio_resize (fst (sb_audio x)) a)) else None)"
| "sb_spec cast (Copy_all_content x) a = (if sb_wf x then Some (sb_audio x) else None)"
| "sb_spec cast (Copy_range x s e to) a =
     (if sb_wf x \<and> length (snd a) = sb_channel_count x
      then Some (audio_copy_range (sb_audio x) s e to a) else None)"

lemmas sb_op_refines =
  make_silent_refines make_silent_channel_refines make_silent_range_ref_refines
  multiply_by_ref_refines multiply_by_channel_refines limit_values_refines make_empty_refines
  number_of_channels_refines length_in_samples_refines reserve_channels_refines reserve_length_refines
  add_matching_channels_refines add_with_weight_refines copy_matching_channels_refines copy_range_refines

lemma refines_Some:
  "refines r f sb \<Longrightarrow> f (sb_audio sb) = b \<Longrightarrow> \<exists>sb'. r = Inr sb' \<and> sb_wf sb' \<and> sb_audio sb' = b"
  by (auto simp: refines_def)

lemmas sb_op_results = sb_op_refines[THEN refines_Some]

lemma sb_exec_refines:
  assumes "sb_wf sb" "sb_spec cast op (sb_audio sb) = Some b"
  shows "\<exists>sb'. sb_exec g cast op sb = Inr sb' \<and> sb_wf sb' \<and> sb_audio sb' = b"
proof (cases op)
  case (Copy_all_content x)
  then show ?thesis using assms copy_all_content_ok[OF assms(1), of x g] by (auto split: if_splits)
qed (use assms in \<open>auto simp: sb_audio_channels multiply_by_eq_ref audio_enlarge_def
        split: if_split_asm intro!: sb_op_results\<close>)

fun sb_spec_run :: "(int \<Rightarrow> 's::{zero,one,plus,minus,times,divide,ord}) \<Rightarrow> 's sb_op list \<Rightarrow> 's audio \<Rightarrow> 's audio option" where
  "sb_spec_run cast [] a = Some a"
| "sb_spec_run cast (op # ops) a = Option.bind (sb_spec cast op a) (sb_spec_run cast ops)"

text \<open>Every operation of a history meets its own uninitialised memory.\<close>

definition sb_run :: "(int \<Rightarrow> 's::{zero,one,plus,minus,times,divide,ord}) \<Rightarrow>
    ((nat \<Rightarrow> nat \<Rightarrow> 's) \<times> 's sb_op) list \<Rightarrow> 's sample_buffer \<Rightarrow> 's sample_buffer result" where
  "sb_run cast = fold_result (\<lambda>(g, op). sb_exec g cast op)"

lemma sb_run_refines:
  "sb_wf sb \<Longrightarrow> sb_spec_run cast (map snd ops) (sb_audio sb) = Some b \<Longrightarrow>
   \<exists>sb'. sb_run cast ops sb = Inr sb' \<and> sb_wf sb' \<and> sb_audio sb' = b"
proof (induction ops arbitrary: sb)
  case Nil
  then show ?case by (simp add: sb_run_def)
next
  case (Cons gop ops)
  obtain g op where gop: "gop = (g, op)" by force
  with Cons.prems(2) obtain a where a: "sb_spec cast op (sb_audio sb) = Some a"
      "sb_spec_run cast (map snd ops) a = Some b"
    by (auto simp: bind_eq_Some_conv)
  obtain sb1 where sb1: "sb_exec g cast op sb = Inr sb1" "sb_wf sb1" "sb_audio sb1 = a"
    using sb_exec_refines[OF Cons.prems(1) a(1)] by blast
  then show ?case using Cons.IH[of sb1] a(2) gop by (simp add: sb_run_def)
qed

definition silent_audio :: "nat \<Rightarrow> nat \<Rightarrow> 's::zero audio" where
  "silent_audio n k = (n, replicate k (replicate n 0))"

lemma create_ok:
  "\<exists>sb. sample_buffer_create srl g tags n k = Inr sb \<and> sb_wf sb \<and> sb_audio sb = silent_audio n k \<and>
     \<not> sb_rt_lock sb \<and> sb_lockref sb = 0 \<and> sb_event_tags sb = tags"
proof -
  define sb0 where "sb0 = \<lparr>sb_arrays = map (\<lambda>c. alloc_sample_buf g c n) [0..<k],
        sb_channel_count = k, sb_buffersize = n, sb_reserved = n,
        sb_rt_lock = False, sb_lockref = 0, sb_quality = (if srl then 50 else 5),
        sb_event_tags = tags, sb_old_buffer = None, sb_resample_memory = []\<rparr>"
  have wf: "sb_wf sb0" by (auto simp: sb0_def sb_wf_def alloc_sample_buf_def)
  obtain sb where "make_silent sb0 = Inr sb" "sb_wf sb" "sb_audio sb = audio_map (\<lambda>_ _ _. 0) (sb_audio sb0)"
      "sb_frame sb = sb_frame sb0"
    using make_silent_refines[OF wf] by (rule refinesE)
  then show ?thesis
    by (auto simp: sample_buffer_create_def sb0_def[symmetric])
       (auto simp: sb0_def sb_audio_def audio_map_def silent_audio_def sb_frame_def map_replicate_const)
qed

text \<open>
  C9. Whatever a freshly allocated array contains, every history of sample buffer operations that
  the specification admits (channel numbers in range, well-formed arguments, equal channel counts
  for a ranged copy) runs without an access outside an array, ends in a well-formed buffer, and
  the audio it then holds is the one the specification computes from silence.
\<close>

theorem sample_buffer_histories:
  assumes "sb_spec_run cast (map snd ops) (silent_audio n k) = Some a"
  shows "\<exists>sb0 sb. sample_buffer_create srl g tags n k = Inr sb0 \<and> sb_run cast ops sb0 = Inr sb \<and>
           sb_wf sb \<and> sb_audio sb = a"
proof -
  obtain sb0 where "sample_buffer_create srl g tags n k = Inr sb0" "sb_wf sb0" "sb_audio sb0 = silent_audio n k"
    using create_ok[of srl g tags n k] by blast
  then show ?thesis using sb_run_refines[of sb0 cast ops a] assms by auto
qed

definition example_buffer :: "int sample_buffer" where
  "example_buffer = \<lparr>sb_arrays = [[1, 2, 3, 4, 5], [6, 7, 8, 9, 10]], sb_channel_count = 1, sb_buffersize = 4,
     sb_reserved = 5, sb_rt_lock = False, sb_lockref = 0, sb_quality = 5, sb_event_tags = 0,
     sb_old_buffer = None, sb_resample_memory = []\<rparr>"

lemma example_buffer_wf: "sb_wf example_buffer"
  by code_simp

lemma example_buffer_audio: "sb_audio example_buffer = (4, [[1, 2, 3, 4]])"
  by code_simp

definition example_ops :: "((nat \<Rightarrow> nat \<Rightarrow> int) \<times> int sb_op) list" where
  "example_ops =
    [(\<lambda>_ _. 99, Copy_all_content example_buffer), (\<lambda>_ _. 98, Multiply_by 5),
     (\<lambda>_ _. 97, Make_silent_range_ref 1 2), (\<lambda>_ _. 96, Reserve_length 3), (\<lambda>_ _. 95, Number_of_channels 2)]"

lemma sample_buffer_histories_witness:
  "\<exists>sb0 sb. sample_buffer_create True (\<lambda>_ _. 77) 0 2 1 = Inr sb0 \<and> sb_run id example_ops sb0 = Inr sb \<and>
     sb_wf sb \<and> sb_audio sb = (4, [[5, 0, 15, 0], [0, 0, 0, 0]])"
  by (rule sample_buffer_histories)
     (simp add: example_ops_def example_buffer_wf example_buffer_audio
        audio_map_def audio_resize_def audio_set_channels_def upt_rec numeral_eq_Suc)

subsection \<open>Reserving and realtime\<close>

lemma on_channels_length:
  "on_channels f q n sb = Inr sb' \<Longrightarrow> sb_reserved sb' = sb_reserved sb \<and>
     length (sb_arrays sb') = length (sb_arrays sb) \<and> sb_buffersize sb' = sb_buffersize sb"
  using on_channels_fields by fastforce

lemma length_in_samples_reserved:
  assumes "length_in_samples g len sb = Inr sb'"
  shows "sb_reserved sb' = (if len > sb_reserved sb then len * 2 else sb_reserved sb)"
    and "length (sb_arrays sb') = length (sb_arrays sb)" and "sb_buffersize sb' = len"
proof -
  obtain sb1 where 1: "(if len > sb_reserved sb then length_in_samples_grow g len sb else Inr sb) = Inr sb1"
    using assms by (auto simp: length_in_samples_def bind_result_Inr_iff)
  have 2: "sb_reserved sb1 = (if len > sb_reserved sb then len * 2 else sb_reserved sb)
      \<and> length (sb_arrays sb1) = length (sb_arrays sb)"
    using 1 by (auto simp: length_in_samples_grow_def Let_def bind_result_Inr_iff split: if_split_asm
        dest: on_channels_length)
  show "sb_reserved sb' = (if len > sb_reserved sb then len * 2 else sb_reserved sb)"
    "length (sb_arrays sb') = length (sb_arrays sb)" "sb_buffersize sb' = len"
    using assms 1 2 by (auto simp: length_in_samples_def bind_result_Inr_iff split: if_split_asm
        dest: on_channels_length)
qed

lemma number_of_channels_reserved:
  assumes "number_of_channels g k sb = Inr sb'"
  shows "sb_reserved sb' = sb_reserved sb" "length (sb_arrays sb') = max (length (sb_arrays sb)) k"
    "sb_channel_count sb' = k"
  using assms
  by (auto simp: number_of_channels_def Let_def bind_result_Inr_iff split: if_split_asm dest: on_channels_length)

text \<open>
  Reserving makes later resizing realtime-safe: after \<open>reserve_length_in_samples(len)\<close> and
  \<open>reserve_channels(k)\<close> on a well-formed buffer, setting any length up to \<open>len\<close> and any channel
  count up to \<open>k\<close> succeeds without an allocation (the reserved size and the number of arrays stay,
  and the outcome does not depend on what fresh memory would hold).
\<close>

theorem reserve_makes_resizing_rt_safe:
  assumes "sb_wf sb" "n \<le> len" "c \<le> k"
  shows "\<exists>sb1 sb2 sb3. bind_result (reserve_length_in_samples g len sb) (reserve_channels g k) = Inr sb1 \<and>
    (\<forall>g'. length_in_samples g' n sb1 = Inr sb2 \<and> number_of_channels g' c sb2 = Inr sb3) \<and>
    sb_reserved sb3 = sb_reserved sb1 \<and> length (sb_arrays sb3) = length (sb_arrays sb1)"
proof -
  obtain sba where a: "length_in_samples g len sb = Inr sba" "sb_wf sba"
    using length_in_samples_refines[OF assms(1)] by (rule refinesE)
  obtain sbb where b: "length_in_samples g (sb_buffersize sb) sba = Inr sbb" "sb_wf sbb"
    using length_in_samples_refines[OF a(2)] by (rule refinesE)
  obtain sbc where c: "number_of_channels g k sbb = Inr sbc" "sb_wf sbc"
    using number_of_channels_refines[OF b(2)] by (rule refinesE)
  obtain sb1 where d: "number_of_channels g (sb_channel_count sbb) sbc = Inr sb1" "sb_wf sb1"
    using number_of_channels_refines[OF c(2)] by (rule refinesE)
  have reserved: "len \<le> sb_reserved sb1" "k \<le> length (sb_arrays sb1)"
    using number_of_channels_reserved[OF c(1)] number_of_channels_reserved[OF d(1)]
      length_in_samples_reserved[OF a(1)] length_in_samples_reserved[OF b(1)]
      sb_wfD(2)[OF a(2)] by (auto split: if_splits)
  obtain sb2 where e: "length_in_samples g n sb1 = Inr sb2" "sb_wf sb2"
    using length_in_samples_refines[OF d(2)] by (rule refinesE)
  obtain sb3 where f: "number_of_channels g c sb2 = Inr sb3" "sb_wf sb3"
    using number_of_channels_refines[OF e(2)] by (rule refinesE)
  have "length_in_samples g' n sb1 = length_in_samples g n sb1" for g'
    using reserved assms(2) by (simp add: length_in_samples_def)
  moreover have "number_of_channels g' c sb2 = number_of_channels g c sb2" for g'
    using reserved assms(3) length_in_samples_reserved[OF e(1)] by (simp add: number_of_channels_def)
  ultimately show ?thesis
    using a(1) b(1) c(1) d(1) e(1) f(1) reserved assms(2,3)
      length_in_samples_reserved[OF e(1)] number_of_channels_reserved[OF f(1)]
    by (intro exI[of _ sb1] exI[of _ sb2] exI[of _ sb3])
       (simp add: reserve_length_in_samples_def reserve_channels_def)
qed

lemma reserve_makes_resizing_rt_safe_witness:
  "\<exists>sb1 sb2 sb3. bind_result (reserve_length_in_samples (\<lambda>_ _. 42) 9 example_buffer) (reserve_channels (\<lambda>_ _. 42) 3) = Inr sb1 \<and>
    (\<forall>g'. length_in_samples g' 7 sb1 = Inr sb2 \<and> number_of_channels g' 2 sb2 = Inr sb3) \<and>
    sb_reserved sb3 = sb_reserved sb1 \<and> length (sb_arrays sb3) = length (sb_arrays sb1)"
  by (rule reserve_makes_resizing_rt_safe[OF example_buffer_wf]) simp_all

text \<open>Reserving less than the current length loses audio: the samples beyond it become silence.\<close>

lemma reserve_shorter_silences:
  assumes "sb_wf sb" "reserve_length_in_samples g len sb = Inr sb'" "len \<le> t" "t < sb_buffersize sb"
    "c < sb_channel_count sb"
  shows "snd (sb_audio sb') ! c ! t = 0"
proof -
  have "sb_audio sb' = audio_resize (sb_buffersize sb) (audio_resize len (sb_audio sb))"
    using reserve_length_refines[OF assms(1), of g len] assms(2) by (auto simp: refines_def)
  then show ?thesis
    using assms sb_audio_channels[OF assms(1)]
    by (cases "sb_audio sb") (auto simp: audio_resize_def nth_append sb_audio_def sb_wf_def min_def)
qed

subsection \<open>Muting a range\<close>

lemma store_loop_overrun:
  "0 < n \<Longrightarrow> length a < s + n \<Longrightarrow> store_loop v s n a = Inl Undefined_behaviour"
  unfolding store_loop_def by (rule update_loop_overrun)

text \<open>
  \<open>make_silent_range(start, end)\<close> does not mute the range it is given unless \<open>start\<close> is 0: it
  mutes \<open>min end length\<close> samples from \<open>start\<close> on, so it mutes samples after \<open>end\<close>, and when that
  goes past the reserved size it writes outside the array. With \<open>start = 0\<close> it agrees with the
  reference version.
\<close>

theorem make_silent_range_exact:
  assumes "sb_wf sb" "0 < sb_channel_count sb"
  shows "make_silent_range 0 e sb = make_silent_range_ref 0 e sb \<and>
    (0 < min e (sb_buffersize sb) \<and> sb_reserved sb < s + min e (sb_buffersize sb) \<longrightarrow>
       make_silent_range s e sb = Inl Undefined_behaviour) \<and>
    (s + min e (sb_buffersize sb) \<le> sb_buffersize sb \<longrightarrow>
       refines (make_silent_range s e sb)
         (audio_map (\<lambda>_ t v. if s \<le> t \<and> t < s + min e (sb_buffersize sb) then 0 else v)) sb)"
proof (intro conjI impI)
  define m where "m = min e (sb_buffersize sb)"
  have m: "(if e < sb_buffersize sb then e else sb_buffersize sb) = m"
    by (simp add: m_def)
  show "make_silent_range 0 e sb = make_silent_range_ref 0 e sb"
    unfolding make_silent_range_def make_silent_range_ref_def m by (simp add: m_def)
  assume "s + min e (sb_buffersize sb) \<le> sb_buffersize sb"
  then have "refines (make_silent_range s e sb)
      (audio_map (\<lambda>c t v. if 0 \<le> c \<and> c < 0 + sb_channel_count sb \<and> s \<le> t \<and> t < s + m then silent_value else v)) sb"
    unfolding make_silent_range_def m store_loop_def m_def[symmetric]
    by (intro on_channels_refines) (use assms in auto)
  then show "refines (make_silent_range s e sb)
      (audio_map (\<lambda>_ t v. if s \<le> t \<and> t < s + min e (sb_buffersize sb) then 0 else v)) sb"
    unfolding m_def[symmetric] by (rule refines_audio_map_cong) (use assms in auto)
next
  let ?m = "min e (sb_buffersize sb)"
  assume overrun: "0 < ?m \<and> sb_reserved sb < s + ?m"
  have "length (sb_arrays sb ! 0) = sb_reserved sb"
    using sb_wfD(1)[OF assms(1)] assms(2) by (intro sb_wfD(3)[OF assms(1)]) linarith
  with overrun have "store_loop 0 s ?m (sb_arrays sb ! 0) = Inl Undefined_behaviour"
    by (intro store_loop_overrun) auto
  moreover obtain n where "sb_channel_count sb = Suc n"
    using assms(2) by (cases "sb_channel_count sb") auto
  moreover have "0 < length (sb_arrays sb)"
    using assms(2) sb_wfD(1)[OF assms(1)] by linarith
  moreover have "(if e < sb_buffersize sb then e else sb_buffersize sb) = ?m" by simp
  ultimately show "make_silent_range s e sb = Inl Undefined_behaviour"
    unfolding make_silent_range_def by (simp add: on_channels_def channel_loop.simps)
qed

lemma make_silent_range_exact_witness:
  "make_silent_range 3 4 example_buffer = Inl Undefined_behaviour"
  using make_silent_range_exact[OF example_buffer_wf, of 4 3] by (simp add: example_buffer_def)

subsection \<open>Preparing for resampling\<close>

text \<open>
  \<open>resample_init_memory()\<close> only reallocates the channels in use but raises the reserved size
  of all: when it has to reallocate while the buffer holds more arrays than channels (its channel
  count was lowered or \<open>reserve_channels()\<close> was called), setting the channel count back to one of
  those writes outside an array.
\<close>

theorem resample_init_memory_breaks_spare_arrays:
  assumes "sb_wf sb" "sb_channel_count sb < k" "k \<le> length (sb_arrays sb)"
    and "sb_reserved sb < scaled_length fr to (sb_buffersize sb) + 8"
  shows "number_of_channels g k (resample_init_memory g' fr to sb) = Inl Undefined_behaviour"
proof -
  let ?n = "sb_channel_count sb" and ?r = "(scaled_length fr to (sb_buffersize sb) + 8) * 2"
  define sb' where "sb' = resample_init_memory g' fr to sb"
  have sb': "sb_channel_count sb' = ?n" "sb_reserved sb' = ?r"
    "sb_arrays sb' = map (\<lambda>c. alloc_sample_buf g' c ?r) [0..<?n] @ drop ?n (sb_arrays sb)"
    using assms(4) by (simp_all add: sb'_def resample_init_memory_def Let_def)
  have len: "length (sb_arrays sb') = length (sb_arrays sb)" "sb_arrays sb' ! ?n = sb_arrays sb ! ?n"
    using assms(2,3) by (simp_all add: sb'(3) nth_append)
  have "length (sb_arrays sb ! ?n) = sb_reserved sb"
    using sb_wfD(3)[OF assms(1)] assms(2,3) by simp
  then have "store_loop 0 0 ?r (sb_arrays sb' ! ?n) = Inl Undefined_behaviour"
    using assms(4) len(2) by (intro store_loop_overrun) simp_all
  moreover obtain d where d: "k - ?n = Suc d" using assms(2) by (cases "k - ?n") auto
  ultimately have "on_channels (\<lambda>_. store_loop 0 0 ?r) ?n (k - ?n) sb' = Inl Undefined_behaviour"
    using assms(2,3) len(1) unfolding d on_channels_def channel_loop.simps by simp
  then show ?thesis
    using assms(2,3) len(1) by (simp add: number_of_channels_def sb' flip: sb'_def)
qed

lemma resample_init_memory_breaks_spare_arrays_witness:
  "number_of_channels (\<lambda>_ _. 0) 2 (resample_init_memory (\<lambda>_ _. 0) 44100 48000 example_buffer) = Inl Undefined_behaviour"
  by (rule resample_init_memory_breaks_spare_arrays[OF example_buffer_wf])
     (simp_all add: example_buffer_def scaled_length_def)

end
