(* ===== verification/Kvu_Timestamp.thy ===== *)
theory Kvu_Timestamp
  imports Prelude
begin

text \<open>
  Time stamps, \<open>kvutils/kvu_timestamp.h\<close> and \<open>kvu_timestamp.cpp\<close>: pairs of seconds and nanoseconds with
  addition, subtraction and comparison. The order of the code is made the \<open>linorder\<close> of the type.
\<close>

datatype timespec = Timespec (tv_sec: int) (tv_nsec: int)

definition kvu_timespec_clear :: timespec where
  "kvu_timespec_clear = Timespec 0 0"

definition kvu_timespec_add :: "timespec \<Rightarrow> timespec \<Rightarrow> timespec" where
  "kvu_timespec_add a b =
     (let sec = tv_sec a + tv_sec b; nsec = tv_nsec a + tv_nsec b in
      if nsec \<ge> 1000000000 then Timespec (sec + 1) (nsec - 1000000000) else Timespec sec nsec)"

definition kvu_timespec_sub :: "timespec \<Rightarrow> timespec \<Rightarrow> timespec" where
  "kvu_timespec_sub a b =
     (let sec = tv_sec a - tv_sec b; nsec = tv_nsec a - tv_nsec b in
      if nsec < 0 then Timespec (sec - 1) (nsec + 1000000000) else Timespec sec nsec)"

definition kvu_timespec_cmp_lt :: "timespec \<Rightarrow> timespec \<Rightarrow> bool" where
  "kvu_timespec_cmp_lt a b =
     (if tv_sec a = tv_sec b then tv_nsec a < tv_nsec b else tv_sec a < tv_sec b)"

definition kvu_timespec_cmp_gt :: "timespec \<Rightarrow> timespec \<Rightarrow> bool" where
  "kvu_timespec_cmp_gt a b =
     (if tv_sec a = tv_sec b then tv_nsec a > tv_nsec b else tv_sec a > tv_sec b)"

text \<open>
  \<open>kvu_clock_getres\<close> with \<open>clock_getres\<close>: \<open>mclk\<close> and \<open>rclk\<close> are what the system call gives for the
  two clocks (\<open>None\<close>: it fails). The result is stored in \<open>dst\<close>, whose \<open>tv_nsec\<close> is left as it was.
\<close>

definition kvu_clock_getres :: "timespec option \<Rightarrow> timespec option \<Rightarrow> timespec \<Rightarrow> int \<times> timespec" where
  "kvu_clock_getres mclk rclk dst =
     (case (case mclk of Some tp \<Rightarrow> Some tp | None \<Rightarrow> rclk) of
        Some tp \<Rightarrow> (0, Timespec (tv_nsec tp) (tv_nsec dst))
      | None \<Rightarrow> (-1, dst))"

definition kvu_clock_gettime :: "timespec option \<Rightarrow> timespec option \<Rightarrow> timespec \<Rightarrow> int \<times> timespec" where
  "kvu_clock_gettime mclk rclk dst =
     (case (case mclk of Some tp \<Rightarrow> Some tp | None \<Rightarrow> rclk) of
        Some tp \<Rightarrow> (0, Timespec (tv_sec tp) (tv_nsec tp))
      | None \<Rightarrow> (-1, dst))"

instantiation timespec :: linorder
begin

definition less_timespec :: "timespec \<Rightarrow> timespec \<Rightarrow> bool" where
  "less_timespec = kvu_timespec_cmp_lt"

definition less_eq_timespec :: "timespec \<Rightarrow> timespec \<Rightarrow> bool" where
  "less_eq_timespec a b \<longleftrightarrow> \<not> kvu_timespec_cmp_lt b a"

instance
proof
  fix a b c :: timespec
  show "(a < b) = (a \<le> b \<and> \<not> b \<le> a)" "a \<le> a" "a \<le> b \<or> b \<le> a"
    by (auto simp: less_timespec_def less_eq_timespec_def kvu_timespec_cmp_lt_def)
  show "a \<le> b \<Longrightarrow> b \<le> a \<Longrightarrow> a = b"
    by (cases a; cases b) (auto simp: less_eq_timespec_def kvu_timespec_cmp_lt_def split: if_splits)
  show "a \<le> b \<Longrightarrow> b \<le> c \<Longrightarrow> a \<le> c"
    by (auto simp: less_eq_timespec_def kvu_timespec_cmp_lt_def split: if_splits)
qed

end

text \<open>Time in nanoseconds, and the stamps POSIX calls valid.\<close>

definition nanoseconds :: "timespec \<Rightarrow> int" where
  "nanoseconds t = tv_sec t * 1000000000 + tv_nsec t"

definition valid_timespec :: "timespec \<Rightarrow> bool" where
  "valid_timespec t \<longleftrightarrow> 0 \<le> tv_nsec t \<and> tv_nsec t < 1000000000"

lemma nanoseconds_add: "nanoseconds (kvu_timespec_add a b) = nanoseconds a + nanoseconds b"
  by (simp add: kvu_timespec_add_def nanoseconds_def Let_def)

lemma nanoseconds_sub: "nanoseconds (kvu_timespec_sub a b) = nanoseconds a - nanoseconds b"
  by (simp add: kvu_timespec_sub_def nanoseconds_def Let_def)

lemma valid_add: "valid_timespec a \<Longrightarrow> valid_timespec b \<Longrightarrow> valid_timespec (kvu_timespec_add a b)"
  by (auto simp: valid_timespec_def kvu_timespec_add_def Let_def)

lemma valid_sub: "valid_timespec a \<Longrightarrow> valid_timespec b \<Longrightarrow> valid_timespec (kvu_timespec_sub a b)"
  by (auto simp: valid_timespec_def kvu_timespec_sub_def Let_def)

lemma less_iff_nanoseconds:
  "valid_timespec a \<Longrightarrow> valid_timespec b \<Longrightarrow> a < b \<longleftrightarrow> nanoseconds a < nanoseconds b"
  by (auto simp: valid_timespec_def nanoseconds_def less_timespec_def kvu_timespec_cmp_lt_def)

lemma gt_is_less: "kvu_timespec_cmp_gt a b \<longleftrightarrow> b < a"
  by (auto simp: less_timespec_def kvu_timespec_cmp_lt_def kvu_timespec_cmp_gt_def)

text \<open>
  On valid time stamps the code's arithmetic is that of the nanoseconds they stand for: sums
  and differences are valid again and exact, subtraction undoes addition, and the two comparisons
  compare the times.
\<close>

theorem timespec_arithmetic:
  assumes "valid_timespec a" "valid_timespec b"
  shows "valid_timespec (kvu_timespec_add a b) \<and> valid_timespec (kvu_timespec_sub a b) \<and>
    nanoseconds (kvu_timespec_add a b) = nanoseconds a + nanoseconds b \<and>
    nanoseconds (kvu_timespec_sub a b) = nanoseconds a - nanoseconds b \<and>
    kvu_timespec_sub (kvu_timespec_add a b) b = a \<and>
    kvu_timespec_cmp_lt a b = (nanoseconds a < nanoseconds b) \<and>
    kvu_timespec_cmp_gt a b = (nanoseconds a > nanoseconds b)"
proof (intro conjI)
  show "kvu_timespec_sub (kvu_timespec_add a b) b = a"
    using assms by (cases a; cases b)
      (auto simp: kvu_timespec_sub_def kvu_timespec_add_def valid_timespec_def Let_def)
qed (use assms in \<open>simp_all add: valid_add valid_sub nanoseconds_add nanoseconds_sub gt_is_less
      less_iff_nanoseconds flip: less_timespec_def\<close>)

lemma timespec_arithmetic_witness:
  "kvu_timespec_sub (kvu_timespec_add (Timespec 4 900000000) (Timespec 1 200000000)) (Timespec 1 200000000)
     = Timespec 4 900000000"
  using timespec_arithmetic[of "Timespec 4 900000000" "Timespec 1 200000000"]
  by (simp add: valid_timespec_def)

text \<open>\<open>kvu_clock_getres\<close> stores the nanoseconds in the seconds.\<close>

lemma clock_getres_swaps_fields:
  "kvu_clock_getres (Some (Timespec 0 1)) rclk (Timespec 7 8) = (0, Timespec 1 8)"
  by (simp add: kvu_clock_getres_def)

end
