(* ===== verification/Kvu_Queues.thy ===== *)
theory Kvu_Queues
  imports Kvu_Timestamp
begin

text \<open>
  The queues between the control thread and the engine thread: \<open>kvutils/kvu_message_queue.h\<close>
  (used by the engine), \<open>kvu_value_queue.cpp\<close> and \<open>kvu_object_queue.h\<close>. An operation that takes the
  mutex with \<open>pthread_mutex_trylock\<close> has the outcome as an argument \<open>busy\<close>; where it can fall back
  to a blocking lock, \<open>q'\<close> is the queue at the time the lock is granted. What a consumer relies on
  is the locale \<open>fifo_queue\<close>, interpreted on all four classes.
\<close>

subsection \<open>The interface of a consumer\<close>

datatype ('a, 'b) queue_event = Push 'a | Take 'b

text \<open>
  A history of a queue: \<open>push\<close> adds an item, \<open>take\<close> is one attempt of the consumer under the
  locking conditions \<open>b\<close>, with an item or nothing; the items delivered are collected in order.
\<close>

fun deliver :: "('a \<Rightarrow> 'q \<Rightarrow> 'q) \<Rightarrow> ('b \<Rightarrow> 'q \<Rightarrow> ('a option \<times> 'q) result) \<Rightarrow>
    ('a, 'b) queue_event list \<Rightarrow> 'q \<Rightarrow> ('a list \<times> 'q) result" where
  "deliver push fetch [] q = Inr ([], q)"
| "deliver push fetch (Push x # evs) q = deliver push fetch evs (push x q)"
| "deliver push fetch (Take b # evs) q =
     bind_result (fetch b q) (\<lambda>(r, q'). bind_result (deliver push fetch evs q') (\<lambda>(out, q'').
       Inr ((case r of Some x \<Rightarrow> [x] | None \<Rightarrow> []) @ out, q'')))"

fun pushed :: "('a, 'b) queue_event list \<Rightarrow> 'a list" where
  "pushed [] = []"
| "pushed (Push x # evs) = x # pushed evs"
| "pushed (Take b # evs) = pushed evs"

locale fifo_queue =
  fixes contents :: "'q \<Rightarrow> 'a list"
    and ok :: "'q \<Rightarrow> bool"
    and push :: "'a \<Rightarrow> 'q \<Rightarrow> 'q"
    and fetch :: "'b \<Rightarrow> 'q \<Rightarrow> ('a option \<times> 'q) result"
    and free :: "'b \<Rightarrow> bool"
  assumes push_contents: "ok q \<Longrightarrow> contents (push x q) = contents q @ [x]"
    and push_ok: "ok q \<Longrightarrow> ok (push x q)"
    and fetch_total: "ok q \<Longrightarrow> is_ok (fetch b q)"
    and fetch_ok: "ok q \<Longrightarrow> fetch b q = Inr (r, q') \<Longrightarrow> ok q'"
    and fetch_contents: "ok q \<Longrightarrow> fetch b q = Inr (r, q') \<Longrightarrow>
      contents q = (case r of Some x \<Rightarrow> [x] | None \<Rightarrow> []) @ contents q'"
    and fetch_free: "ok q \<Longrightarrow> free b \<Longrightarrow> fetch b q = Inr (None, q') \<Longrightarrow> contents q = []"
begin

lemma deliver_total: "ok q \<Longrightarrow> \<exists>out q'. deliver push fetch evs q = Inr (out, q') \<and> ok q' \<and>
    contents q @ pushed evs = out @ contents q'"
proof (induction evs arbitrary: q)
  case (Cons ev evs)
  show ?case
  proof (cases ev)
    case (Push x)
    then show ?thesis using Cons.IH[of "push x q"] push_ok push_contents Cons.prems by simp
  next
    case (Take b)
    obtain r q1 where f: "fetch b q = Inr (r, q1)"
      using fetch_total[OF Cons.prems, of b] by (cases "fetch b q") auto
    obtain out q' where "deliver push fetch evs q1 = Inr (out, q')" "ok q'"
        "contents q1 @ pushed evs = out @ contents q'"
      using Cons.IH fetch_ok[OF Cons.prems f] by blast
    then show ?thesis using Take f fetch_contents[OF Cons.prems f] by simp
  qed
qed simp

text \<open>Enough attempts with the lock free deliver everything.\<close>

lemma deliver_drains:
  assumes "ok q" "\<And>i. free (b i)" "length (contents q) \<le> n"
  shows "\<exists>q'. deliver push fetch (map (\<lambda>i. Take (b i)) [0..<n]) q = Inr (contents q, q') \<and> contents q' = []"
proof -
  have "\<exists>q'. deliver push fetch (map (\<lambda>i. Take (b i)) is) q = Inr (contents q, q') \<and> contents q' = []"
    if "ok q" "length (contents q) \<le> length is" for "is" q
    using that
  proof (induction "is" arbitrary: q)
    case (Cons i "is")
    obtain r q1 where f: "fetch (b i) q = Inr (r, q1)"
      using fetch_total[OF Cons.prems(1), of "b i"] by (cases "fetch (b i) q") auto
    have "length (contents q1) \<le> length is"
      using Cons.prems fetch_contents[OF Cons.prems(1) f] fetch_free[OF Cons.prems(1) assms(2)] f
      by (cases r) auto
    then show ?case
      using Cons.IH[OF fetch_ok[OF Cons.prems(1) f]] f fetch_contents[OF Cons.prems(1) f] by auto
  qed simp
  from this[of q "[0..<n]"] show ?thesis using assms by simp
qed

end

subsection \<open>The message queue\<close>

record 'a message_queue =
  mq_msgs :: "'a list"
  mq_max_rt_size :: nat

definition message_queue_create :: "int \<Rightarrow> 'a message_queue" where
  "message_queue_create max_rt_size =
     \<lparr>mq_msgs = [], mq_max_rt_size = (if max_rt_size = -1 then 1024 else nat max_rt_size)\<rparr>"

definition mq_push_back :: "'a \<Rightarrow> 'a message_queue \<Rightarrow> 'a message_queue" where
  "mq_push_back x q = q\<lparr>mq_msgs := mq_msgs q @ [x]\<rparr>"

text \<open>The result code, the message stored through the argument (if any), and the queue.\<close>

definition mq_pop_front :: "bool \<Rightarrow> 'a message_queue \<Rightarrow> int \<times> 'a option \<times> 'a message_queue" where
  "mq_pop_front busy q =
     (if busy then (-1, None, q)
      else case mq_msgs q of
        x # xs \<Rightarrow> (1, Some x, q\<lparr>mq_msgs := xs\<rparr>)
      | [] \<Rightarrow> (0, None, q))"

definition mq_peek_front :: "bool \<Rightarrow> 'a message_queue \<Rightarrow> int \<times> 'a option" where
  "mq_peek_front busy q =
     (if busy then (-1, None) else case mq_msgs q of x # xs \<Rightarrow> (1, Some x) | [] \<Rightarrow> (0, None))"

definition mq_clear :: "'a message_queue \<Rightarrow> 'a message_queue" where
  "mq_clear q = q\<lparr>mq_msgs := []\<rparr>"

definition mq_is_empty :: "bool \<Rightarrow> 'a message_queue \<Rightarrow> 'a message_queue \<Rightarrow> bool" where
  "mq_is_empty busy q q' =
     (if busy then (if length (mq_msgs q) \<ge> mq_max_rt_size q then mq_msgs q' = [] else False)
      else mq_msgs q = [])"

definition mq_fetch :: "bool \<Rightarrow> 'a message_queue \<Rightarrow> ('a option \<times> 'a message_queue) result" where
  "mq_fetch busy q = (case mq_pop_front busy q of (_, m, q') \<Rightarrow> Inr (m, q'))"

interpretation mq: fifo_queue mq_msgs "\<lambda>_. True" mq_push_back mq_fetch Not
  by unfold_locales
    (auto simp: mq_push_back_def mq_fetch_def mq_pop_front_def split: list.splits if_splits)

lemma mq_pop_front_code:
  "fst (mq_pop_front busy q) = 1 \<longleftrightarrow> (\<exists>x. fst (snd (mq_pop_front busy q)) = Some x)"
  "fst (mq_pop_front busy q) = -1 \<longleftrightarrow> busy"
  "fst (mq_pop_front busy q) = 0 \<longleftrightarrow> \<not> busy \<and> mq_msgs q = []"
  by (auto simp: mq_pop_front_def split: list.splits)

text \<open>
  C39. Whatever the interleaving of a producer's \<open>push_back\<close> and a consumer's \<open>pop_front\<close> attempts,
  and whichever attempts find the mutex busy, the consumer gets the messages in the order they
  were pushed, none lost and none twice; the messages not yet delivered are those in the queue.
\<close>

theorem message_queue_in_order:
  "\<exists>out q'. deliver mq_push_back mq_fetch evs (message_queue_create n) = Inr (out, q') \<and>
     pushed evs = out @ mq_msgs q'"
  using mq.deliver_total[where q = "message_queue_create n" and evs = evs]
  by (auto simp: message_queue_create_def)

text \<open>
  As many attempts with the mutex free as there are messages deliver all of them and leave
  the queue empty.
\<close>

theorem message_queue_drains:
  assumes "length (mq_msgs q) \<le> n"
  shows "\<exists>q'. deliver mq_push_back mq_fetch (map (\<lambda>_. Take False) [0..<n]) q = Inr (mq_msgs q, q') \<and>
           mq_msgs q' = [] \<and> mq_is_empty False q' q'"
  using mq.deliver_drains[where q = q and b = "\<lambda>_. False" and n = n] assms by (auto simp: mq_is_empty_def)

lemma message_queue_drains_witness:
  "\<exists>q'. deliver mq_push_back mq_fetch (map (\<lambda>_. Take False) [0..<3])
      (mq_push_back ''b'' (mq_push_back ''a'' (message_queue_create 8))) = Inr ([''a'', ''b''], q') \<and>
     mq_msgs q' = [] \<and> mq_is_empty False q' q'"
  using message_queue_drains[of "mq_push_back ''b'' (mq_push_back ''a'' (message_queue_create 8))" 3]
  by (simp add: mq_push_back_def message_queue_create_def)

subsection \<open>The blocking value queue\<close>

text \<open>The values are of a type variable (the code has \<open>pair<int, double>\<close>).\<close>

definition vq_pop_front :: "'a list \<Rightarrow> 'a list result" where
  "vq_pop_front cmds = (case cmds of [] \<Rightarrow> Inl Undefined_behaviour | _ # cs \<Rightarrow> Inr cs)"

definition vq_front :: "'a list \<Rightarrow> 'a result" where
  "vq_front cmds = (case cmds of [] \<Rightarrow> Inl Undefined_behaviour | c # _ \<Rightarrow> Inr c)"

definition vq_push_back :: "'a \<Rightarrow> 'a list \<Rightarrow> 'a list" where
  "vq_push_back x cmds = cmds @ [x]"

definition vq_is_empty :: "'a list \<Rightarrow> bool" where
  "vq_is_empty cmds \<longleftrightarrow> cmds = []"

definition vq_fetch :: "unit \<Rightarrow> 'a list \<Rightarrow> ('a option \<times> 'a list) result" where
  "vq_fetch u cmds =
     (if vq_is_empty cmds then Inr (None, cmds)
      else bind_result (vq_front cmds) (\<lambda>x. bind_result (vq_pop_front cmds) (\<lambda>cs. Inr (Some x, cs))))"

interpretation vq: fifo_queue "\<lambda>cmds. cmds" "\<lambda>_. True" vq_push_back vq_fetch "\<lambda>_. True"
  by unfold_locales
    (auto simp: vq_push_back_def vq_fetch_def vq_is_empty_def vq_front_def vq_pop_front_def neq_Nil_conv
      split: list.splits if_splits)

text \<open>
  The deadline of \<open>poll\<close>, from the time of day and the timeout in seconds and microseconds, as
  \<open>VALUE_QUEUE\<close> (both classes) and as \<open>MESSAGE_QUEUE_RT_C\<close> compute it.
\<close>

definition vq_poll_deadline :: "int \<Rightarrow> int \<Rightarrow> int \<Rightarrow> int \<Rightarrow> timespec" where
  "vq_poll_deadline now_sec now_usec timeout_sec timeout_usec =
     Timespec (now_sec + timeout_sec) (now_usec * 1000 + timeout_usec * 1000)"

definition mq_poll_deadline :: "int \<Rightarrow> int \<Rightarrow> int \<Rightarrow> int \<Rightarrow> timespec" where
  "mq_poll_deadline now_sec now_usec timeout_sec timeout_usec =
     kvu_timespec_add (Timespec now_sec (now_usec * 1000)) (Timespec timeout_sec (timeout_usec * 1000))"

datatype wait_outcome = Woken | ETIMEDOUT | EINVAL

text \<open>
  The waiting loop: \<open>wait i deadline q\<close> is the outcome of the \<open>i\<close>-th \<open>pthread_cond_timedwait\<close> and
  the queue when it returns. \<open>None\<close>: the loop has not ended within the given number of waits.
\<close>

fun poll_loop :: "(nat \<Rightarrow> timespec \<Rightarrow> 'a list \<Rightarrow> wait_outcome \<times> 'a list) \<Rightarrow> timespec \<Rightarrow> nat \<Rightarrow> nat \<Rightarrow>
    wait_outcome \<Rightarrow> 'a list \<Rightarrow> 'a list option" where
  "poll_loop wait deadline i 0 retcode q = (if q = [] \<and> retcode \<noteq> ETIMEDOUT then None else Some q)"
| "poll_loop wait deadline i (Suc fuel) retcode q =
     (if q = [] \<and> retcode \<noteq> ETIMEDOUT
      then (case wait i deadline q of (r, q') \<Rightarrow> poll_loop wait deadline (Suc i) fuel r q')
      else Some q)"

text \<open>
  What POSIX says of the wait: with an invalid deadline it fails with \<open>EINVAL\<close>, and the mutex is
  not released, so the queue is unchanged.
\<close>

definition posix_wait :: "(nat \<Rightarrow> timespec \<Rightarrow> 'a list \<Rightarrow> wait_outcome \<times> 'a list) \<Rightarrow> bool" where
  "posix_wait wait \<longleftrightarrow>
     (\<forall>i deadline q. (\<not> valid_timespec deadline \<longrightarrow> wait i deadline q = (EINVAL, q)) \<and>
        (valid_timespec deadline \<longrightarrow> fst (wait i deadline q) \<noteq> EINVAL))"

lemma poll_loop_invalid:
  "posix_wait wait \<Longrightarrow> \<not> valid_timespec dl \<Longrightarrow> r \<noteq> ETIMEDOUT \<Longrightarrow> poll_loop wait dl i fuel r [] = None"
  by (induction fuel arbitrary: i r) (simp_all add: posix_wait_def)

text \<open>
  \<open>poll\<close> of the value queues does not carry microseconds into seconds: when the timeout's and
  the clock's fractions of a second add up to a second or more, the deadline is not a valid time
  stamp, so every wait on an empty queue fails at once and the loop never ends, with the mutex
  held. The deadline that the message queue computes is always valid.
\<close>

theorem value_queue_poll_spins:
  assumes "posix_wait wait" "0 \<le> now_usec" "now_usec < 1000000" "0 \<le> usec" "usec < 1000000"
  shows "(now_usec + usec \<ge> 1000000 \<longrightarrow>
            (\<forall>fuel. poll_loop wait (vq_poll_deadline now_sec now_usec sec usec) 0 fuel Woken [] = None)) \<and>
         valid_timespec (mq_poll_deadline now_sec now_usec sec usec)"
proof -
  have "valid_timespec (mq_poll_deadline now_sec now_usec sec usec)"
    unfolding mq_poll_deadline_def by (rule valid_add) (use assms in \<open>simp_all add: valid_timespec_def\<close>)
  moreover have "\<not> valid_timespec (vq_poll_deadline now_sec now_usec sec usec)" if "now_usec + usec \<ge> 1000000"
    using that by (simp add: valid_timespec_def vq_poll_deadline_def)
  ultimately show ?thesis using poll_loop_invalid[OF assms(1)] by simp
qed

definition timeout_wait :: "nat \<Rightarrow> timespec \<Rightarrow> 'a list \<Rightarrow> wait_outcome \<times> 'a list" where
  "timeout_wait i deadline q = (if valid_timespec deadline then ETIMEDOUT else EINVAL, q)"

lemma value_queue_poll_spins_witness:
  "\<forall>fuel. poll_loop timeout_wait (vq_poll_deadline 100 900000 1 500000) 0 fuel Woken ([] :: int list) = None"
  using value_queue_poll_spins[of "timeout_wait :: nat \<Rightarrow> timespec \<Rightarrow> int list \<Rightarrow> _" 900000 500000 100 1]
  by (simp add: posix_wait_def timeout_wait_def)

subsection \<open>The realtime value queue\<close>

record 'a value_queue_rt =
  rt_cmds :: "'a list"
  rt_pending_pops :: nat
  rt_bounded_exec_max_size :: nat

definition value_queue_rt_create :: "int \<Rightarrow> 'a value_queue_rt" where
  "value_queue_rt_create n =
     \<lparr>rt_cmds = [], rt_pending_pops = 0, rt_bounded_exec_max_size = (if n = -1 then 1024 else nat n)\<rparr>"

definition rt_push_back :: "'a \<Rightarrow> 'a value_queue_rt \<Rightarrow> 'a value_queue_rt" where
  "rt_push_back x q = q\<lparr>rt_cmds := rt_cmds q @ [x]\<rparr>"

definition rt_pop_front :: "bool \<Rightarrow> 'a value_queue_rt \<Rightarrow> 'a value_queue_rt result" where
  "rt_pop_front busy q =
     (if \<not> busy then bind_result (vq_pop_front (rt_cmds q)) (\<lambda>cs. Inr (q\<lparr>rt_cmds := cs\<rparr>))
      else if rt_pending_pops q \<noteq> length (rt_cmds q)
      then Inr (q\<lparr>rt_pending_pops := rt_pending_pops q + 1\<rparr>) else Inr q)"

fun rt_flush_loop :: "nat \<Rightarrow> 'a list \<Rightarrow> nat \<times> 'a list" where
  "rt_flush_loop (Suc pending) (c # cs) = rt_flush_loop pending cs"
| "rt_flush_loop pending cs = (pending, cs)"

definition rt_got_lock :: "bool \<Rightarrow> 'a value_queue_rt \<Rightarrow> bool" where
  "rt_got_lock busy q \<longleftrightarrow> \<not> busy \<or> length (rt_cmds q) \<ge> rt_bounded_exec_max_size q"

text \<open>\<open>None\<close> is \<open>invalid_item()\<close>.\<close>

definition rt_front :: "bool \<Rightarrow> 'a value_queue_rt \<Rightarrow> 'a value_queue_rt \<Rightarrow> ('a option \<times> 'a value_queue_rt) result" where
  "rt_front busy q q' =
     (if rt_got_lock busy q
      then (case rt_flush_loop (rt_pending_pops q') (rt_cmds q') of (pending, cs) \<Rightarrow>
        bind_result (vq_front cs) (\<lambda>x. Inr (Some x, q'\<lparr>rt_cmds := cs, rt_pending_pops := pending\<rparr>)))
      else Inr (None, q))"

text \<open>
  \<open>is_empty\<close> compares a difference of two \<open>size_t\<close> with 0; both are below \<open>2 ^ 64\<close>, so it is 0
  exactly when they are equal.
\<close>

definition rt_is_empty :: "bool \<Rightarrow> 'a value_queue_rt \<Rightarrow> 'a value_queue_rt \<Rightarrow> bool" where
  "rt_is_empty busy q q' =
     (let size = (if rt_got_lock busy q then length (rt_cmds q') else 0) in size = rt_pending_pops q)"

text \<open>
  The consumer: \<open>if (!q.is_empty()) { x = q.front(); if (x != q.invalid_item()) { use x; q.pop_front(); } }\<close>
  where \<open>is_empty\<close> and \<open>front\<close> meet the same lock state and \<open>pop_front\<close> its own.
\<close>

definition rt_fetch :: "bool \<times> bool \<Rightarrow> 'a value_queue_rt \<Rightarrow> ('a option \<times> 'a value_queue_rt) result" where
  "rt_fetch b q =
     (if rt_is_empty (fst b) q q then Inr (None, q)
      else bind_result (rt_front (fst b) q q) (\<lambda>(x, q1).
        case x of None \<Rightarrow> Inr (None, q1)
        | Some v \<Rightarrow> bind_result (rt_pop_front (snd b) q1) (\<lambda>q2. Inr (Some v, q2))))"

definition rt_contents :: "'a value_queue_rt \<Rightarrow> 'a list" where
  "rt_contents q = drop (rt_pending_pops q) (rt_cmds q)"

definition rt_ok :: "'a value_queue_rt \<Rightarrow> bool" where
  "rt_ok q \<longleftrightarrow> rt_pending_pops q \<le> length (rt_cmds q)"

lemma rt_flush_loop_eq:
  "p \<le> length cs \<Longrightarrow> rt_flush_loop p cs = (0, drop p cs)"
  by (induction p cs rule: rt_flush_loop.induct) simp_all



lemma rt_front_ok:
  assumes "rt_ok q" "rt_got_lock busy q" "rt_contents q \<noteq> []"
  shows "rt_front busy q q = Inr (Some (hd (rt_contents q)), q\<lparr>rt_cmds := rt_contents q, rt_pending_pops := 0\<rparr>)"
  using assms by (cases "rt_contents q")
    (simp_all add: rt_front_def rt_ok_def rt_flush_loop_eq rt_contents_def vq_front_def)

lemma rt_pop_front_ok:
  assumes "rt_ok q" "rt_contents q \<noteq> []"
  shows "\<exists>q'. rt_pop_front busy q = Inr q' \<and> rt_ok q' \<and> rt_contents q' = tl (rt_contents q)"
proof -
  obtain c cs where "rt_cmds q = c # cs" using assms(2) by (cases "rt_cmds q") (auto simp: rt_contents_def)
  moreover have "rt_pending_pops q < length (rt_cmds q)" using assms by (simp add: rt_ok_def rt_contents_def)
  moreover have "drop (rt_pending_pops q) (tl (rt_cmds q)) = tl (rt_contents q)"
    by (simp add: rt_contents_def tl_drop)
  ultimately show ?thesis
    using assms(1) by (auto simp: rt_pop_front_def vq_pop_front_def rt_ok_def rt_contents_def drop_Suc)
qed

lemma rt_fetch_cases:
  assumes "rt_ok q"
  shows "rt_fetch b q =
    (if rt_got_lock (fst b) q \<and> rt_contents q \<noteq> []
     then bind_result (rt_pop_front (snd b) (q\<lparr>rt_cmds := rt_contents q, rt_pending_pops := 0\<rparr>))
            (\<lambda>q2. Inr (Some (hd (rt_contents q)), q2))
     else Inr (None, q))"
proof (cases "rt_got_lock (fst b) q")
  case True
  then have "rt_is_empty (fst b) q q \<longleftrightarrow> rt_contents q = []"
    using assms by (auto simp: rt_is_empty_def rt_ok_def rt_contents_def)
  then show ?thesis
    using True rt_front_ok[OF assms True] by (simp add: rt_fetch_def)
next
  case False
  then show ?thesis by (simp add: rt_fetch_def rt_front_def)
qed

lemma rt_fetch_result:
  assumes "rt_ok q"
  shows "\<exists>q'. rt_fetch b q = Inr (if rt_got_lock (fst b) q \<and> rt_contents q \<noteq> [] then Some (hd (rt_contents q)) else None, q') \<and>
    rt_ok q' \<and> rt_contents q' = (if rt_got_lock (fst b) q then tl (rt_contents q) else rt_contents q)"
proof (cases "rt_got_lock (fst b) q \<and> rt_contents q \<noteq> []")
  case True
  let ?q1 = "q\<lparr>rt_cmds := rt_contents q, rt_pending_pops := 0\<rparr>"
  have "rt_ok ?q1" "rt_contents ?q1 = rt_contents q"
    by (simp_all add: rt_ok_def rt_contents_def)
  then obtain q' where "rt_pop_front (snd b) ?q1 = Inr q'" "rt_ok q'" "rt_contents q' = tl (rt_contents q)"
    using rt_pop_front_ok[of ?q1 "snd b"] True by auto
  then show ?thesis using rt_fetch_cases[OF assms, of b] True by simp
next
  case False
  then show ?thesis using rt_fetch_cases[OF assms, of b] assms by auto
qed

interpretation rt: fifo_queue rt_contents rt_ok rt_push_back rt_fetch "\<lambda>b. \<not> fst b"
proof unfold_locales
  fix q :: "'a value_queue_rt" and x b r q'
  assume ok: "rt_ok q"
  show "rt_contents (rt_push_back x q) = rt_contents q @ [x]" "rt_ok (rt_push_back x q)"
    using ok by (simp_all add: rt_contents_def rt_push_back_def rt_ok_def)
  show "is_ok (rt_fetch b q)" using rt_fetch_result[OF ok, of b] by auto
  assume f: "rt_fetch b q = Inr (r, q')"
  then show "rt_ok q'" "rt_contents q = (case r of Some x \<Rightarrow> [x] | None \<Rightarrow> []) @ rt_contents q'"
    using rt_fetch_result[OF ok, of b] by (auto split: if_splits)
next
  fix q :: "'a value_queue_rt" and b q'
  assume "rt_ok q" "\<not> fst b" "rt_fetch b q = Inr (None, q')"
  then show "rt_contents q = []"
    using rt_fetch_result[of q b] by (auto simp: rt_got_lock_def split: if_splits)
qed

text \<open>
  The realtime value queue is a queue for the consumer that checks \<open>is_empty\<close>, reads \<open>front\<close>
  and then pops, as long as \<open>is_empty\<close> and \<open>front\<close> find the mutex in the same state: whatever pops
  are put off because the mutex is busy, every item is delivered once and in order, and \<open>front\<close> of
  an empty deque is never taken.
\<close>

theorem value_queue_rt_in_order:
  "\<exists>out q'. deliver rt_push_back rt_fetch evs (value_queue_rt_create n) = Inr (out, q') \<and>
     pushed evs = out @ rt_contents q'"
  using rt.deliver_total[of "value_queue_rt_create n" evs]
  by (auto simp: value_queue_rt_create_def rt_ok_def rt_contents_def)

text \<open>
  When the mutex changes hands between the two calls the promise of \<open>is_empty\<close> fails: with
  every item already popped and the pops pending, \<open>is_empty\<close> on a busy mutex says that the queue is
  not empty, and \<open>front\<close> on the free mutex then reads the front of an empty deque. And with no pops
  pending a busy \<open>is_empty\<close> says empty however many items there are.
\<close>

theorem value_queue_rt_busy_is_empty:
  assumes "length (rt_cmds q) < rt_bounded_exec_max_size q"
  shows "(rt_pending_pops q = length (rt_cmds q) \<and> rt_cmds q \<noteq> [] \<longrightarrow>
            \<not> rt_is_empty True q q \<and> rt_front False q q = Inl Undefined_behaviour) \<and>
         (rt_pending_pops q = 0 \<longrightarrow> rt_is_empty True q q)"
  using assms by (auto simp: rt_is_empty_def rt_got_lock_def rt_front_def rt_flush_loop_eq vq_front_def)

lemma value_queue_rt_busy_is_empty_witness:
  "\<exists>q. rt_pop_front True (rt_push_back ''x'' (value_queue_rt_create 8)) = Inr q \<and>
     \<not> rt_is_empty True q q \<and> rt_front False q q = Inl Undefined_behaviour"
proof -
  define q where "q = (rt_push_back ''x'' (value_queue_rt_create 8))\<lparr>rt_pending_pops := 1\<rparr>"
  have "rt_pop_front True (rt_push_back ''x'' (value_queue_rt_create 8)) = Inr q"
    by (simp add: q_def rt_push_back_def value_queue_rt_create_def rt_pop_front_def)
  moreover have "\<not> rt_is_empty True q q \<and> rt_front False q q = Inl Undefined_behaviour"
    using value_queue_rt_busy_is_empty[of q] by (simp add: q_def rt_push_back_def value_queue_rt_create_def)
  ultimately show ?thesis by blast
qed

subsection \<open>The object queue\<close>

text \<open>\<open>none\<close> is the value of a default-constructed item.\<close>

definition oq_front :: "'a \<Rightarrow> 'a list \<Rightarrow> 'a" where
  "oq_front none cmds = (case cmds of [] \<Rightarrow> none | c # _ \<Rightarrow> c)"

definition oq_pop_front :: "'a list \<Rightarrow> 'a list result" where
  "oq_pop_front cmds = (case cmds of [] \<Rightarrow> Inl Undefined_behaviour | _ # cs \<Rightarrow> Inr cs)"

definition oq_push_back :: "'a \<Rightarrow> 'a list \<Rightarrow> 'a list" where
  "oq_push_back x cmds = cmds @ [x]"

definition oq_is_empty :: "bool \<Rightarrow> 'a list \<Rightarrow> bool" where
  "oq_is_empty busy cmds \<longleftrightarrow> busy \<or> cmds = []"

definition oq_fetch :: "bool \<Rightarrow> 'a list \<Rightarrow> ('a option \<times> 'a list) result" where
  "oq_fetch busy cmds =
     (if oq_is_empty busy cmds then Inr (None, cmds)
      else bind_result (oq_pop_front cmds) (\<lambda>cs. Inr (Some (oq_front (hd cmds) cmds), cs)))"

interpretation oq: fifo_queue "\<lambda>cmds. cmds" "\<lambda>_. True" oq_push_back oq_fetch Not
  by unfold_locales
    (auto simp: oq_push_back_def oq_fetch_def oq_is_empty_def oq_front_def oq_pop_front_def neq_Nil_conv
      split: list.splits if_splits)

end
