(* ===== verification/Audio_Position.thy ===== *)
theory Audio_Position
  imports Kvu_Args Complex_Main
begin

text \<open>
  Positions and lengths of audio objects: \<open>eca-samplerate-aware\<close>, \<open>eca-audio-position\<close>,
  \<open>eca-chainsetup-position\<close> and the time values of \<open>eca-audio-time\<close>. Sample positions are integers
  (64-bit in the code). The \<open>double\<close> arithmetic on seconds and rates is that of the rationals: the
  values are exact, so the rounding of doubles is not modelled. The conversion of a double to an
  integer truncates; a quotient by a zero rate is infinite and its conversion is undefined.
\<close>

definition truncate_rat :: "rat \<Rightarrow> int" where
  "truncate_rat x = (if 0 \<le> x then \<lfloor>x\<rfloor> else \<lceil>x\<rceil>)"

lemma truncate_rat_int [simp]: "truncate_rat (of_int n) = n"
  by (simp add: truncate_rat_def)

lemma truncate_rat_error: "\<bar>of_int (truncate_rat x) - x\<bar> < 1"
proof (cases "0 \<le> x")
  case True
  then show ?thesis unfolding truncate_rat_def by simp linarith
next
  case False
  then show ?thesis unfolding truncate_rat_def by simp linarith
qed

lemma truncate_rat_nonneg: "0 \<le> x \<Longrightarrow> 0 \<le> truncate_rat x"
  by (simp add: truncate_rat_def)

subsection \<open>Position and length\<close>

record audio_position =
  ap_position :: int
  ap_length :: int
  ap_length_set :: bool
  ap_srate :: int

definition audio_position_create :: "int \<Rightarrow> audio_position" where
  "audio_position_create srate = \<lparr>ap_position = 0, ap_length = 0, ap_length_set = False, ap_srate = srate\<rparr>"

definition samplerate_aware_set :: "int \<Rightarrow> audio_position \<Rightarrow> audio_position" where
  "samplerate_aware_set v a = a\<lparr>ap_srate := v\<rparr>"

definition seconds_exact :: "int \<Rightarrow> audio_position \<Rightarrow> rat result" where
  "seconds_exact n a =
     (if ap_srate a = 0 then Inl Undefined_behaviour else Inr (of_int n / of_int (ap_srate a)))"

definition length_in_seconds_exact :: "audio_position \<Rightarrow> rat result" where
  "length_in_seconds_exact a = seconds_exact (ap_length a) a"

definition length_in_seconds :: "audio_position \<Rightarrow> int result" where
  "length_in_seconds a = bind_result (length_in_seconds_exact a) (\<lambda>s. Inr \<lceil>s\<rceil>)"

definition position_in_seconds_exact :: "audio_position \<Rightarrow> rat result" where
  "position_in_seconds_exact a = seconds_exact (ap_position a) a"

definition position_in_seconds :: "audio_position \<Rightarrow> int result" where
  "position_in_seconds a = bind_result (position_in_seconds_exact a) (\<lambda>s. Inr \<lceil>s\<rceil>)"

definition set_length_in_samples :: "int \<Rightarrow> audio_position \<Rightarrow> audio_position" where
  "set_length_in_samples pos a = a\<lparr>ap_length := pos, ap_length_set := True\<rparr>"

definition seconds_to_samples :: "rat \<Rightarrow> audio_position \<Rightarrow> int" where
  "seconds_to_samples s a = truncate_rat (s * of_int (ap_srate a))"

definition set_length_in_seconds :: "rat \<Rightarrow> audio_position \<Rightarrow> audio_position" where
  "set_length_in_seconds s a = set_length_in_samples (seconds_to_samples s a) a"

definition set_position_in_samples :: "int \<Rightarrow> audio_position \<Rightarrow> audio_position" where
  "set_position_in_samples pos a = a\<lparr>ap_position := (if pos < 0 then 0 else pos)\<rparr>"

definition set_position_in_seconds :: "rat \<Rightarrow> audio_position \<Rightarrow> audio_position" where
  "set_position_in_seconds s a = set_position_in_samples (seconds_to_samples s a) a"

definition change_position_in_samples :: "int \<Rightarrow> audio_position \<Rightarrow> audio_position" where
  "change_position_in_samples pos a = a\<lparr>ap_position := ap_position a + pos\<rparr>"

definition change_position_in_seconds :: "rat \<Rightarrow> audio_position \<Rightarrow> audio_position" where
  "change_position_in_seconds s a = change_position_in_samples (seconds_to_samples s a) a"

definition extend_position :: "audio_position \<Rightarrow> audio_position" where
  "extend_position a = a\<lparr>ap_length := (if ap_position a > ap_length a then ap_position a else ap_length a)\<rparr>"

definition out_position :: "audio_position \<Rightarrow> bool" where
  "out_position a \<longleftrightarrow> ap_position a < 0 \<and> ap_position a > ap_length a"

text \<open>\<open>seek\<close> is the virtual \<open>seek_position\<close>: the position that the object ends up at.\<close>

definition seek_position_in_samples :: "(int \<Rightarrow> int) \<Rightarrow> int \<Rightarrow> audio_position \<Rightarrow> audio_position" where
  "seek_position_in_samples seek pos a = set_position_in_samples (seek pos) a"

definition seek_first :: "(int \<Rightarrow> int) \<Rightarrow> audio_position \<Rightarrow> audio_position" where
  "seek_first seek a = seek_position_in_samples seek 0 a"

definition seek_last :: "(int \<Rightarrow> int) \<Rightarrow> audio_position \<Rightarrow> audio_position" where
  "seek_last seek a = seek_position_in_samples seek (ap_length a) a"

definition seek_position_in_samples_advance :: "(int \<Rightarrow> int) \<Rightarrow> int \<Rightarrow> audio_position \<Rightarrow> audio_position" where
  "seek_position_in_samples_advance seek pos a = seek_position_in_samples seek (ap_position a + pos) a"

definition seek_position_in_seconds :: "(int \<Rightarrow> int) \<Rightarrow> rat \<Rightarrow> audio_position \<Rightarrow> audio_position" where
  "seek_position_in_seconds seek s a = seek_position_in_samples seek (seconds_to_samples s a) a"

definition ap_set_samples_per_second :: "int \<Rightarrow> audio_position \<Rightarrow> audio_position result" where
  "ap_set_samples_per_second v a =
     (if ap_srate a = 0 then Inl Undefined_behaviour
      else let ratio = (of_int v :: rat) / of_int (ap_srate a);
               a1 = set_position_in_samples (truncate_rat (of_int (ap_position a) * ratio)) a;
               a2 = (if ap_length_set a1
                     then set_length_in_samples (truncate_rat (of_int (ap_length a1) * ratio)) a1 else a1)
           in Inr (samplerate_aware_set v a2))"

subsection \<open>Chainsetup position\<close>

record chainsetup_position =
  cp_pos :: audio_position
  cp_looping :: bool
  cp_max_length :: int
  cp_max_length_set :: bool

text \<open>The constructor leaves \<open>max_length_in_samples_rep\<close> with any value \<open>m\<close>.\<close>

definition chainsetup_position_create :: "int \<Rightarrow> int \<Rightarrow> chainsetup_position" where
  "chainsetup_position_create srate m =
     \<lparr>cp_pos = audio_position_create srate, cp_looping = False, cp_max_length = m, cp_max_length_set = False\<rparr>"

definition set_max_length_in_samples :: "int \<Rightarrow> chainsetup_position \<Rightarrow> chainsetup_position" where
  "set_max_length_in_samples pos c =
     c\<lparr>cp_max_length := pos, cp_max_length_set := (pos \<noteq> -1 * ap_srate (cp_pos c))\<rparr>"

definition set_max_length_in_seconds :: "rat \<Rightarrow> chainsetup_position \<Rightarrow> chainsetup_position" where
  "set_max_length_in_seconds s c = set_max_length_in_samples (seconds_to_samples s (cp_pos c)) c"

definition is_over_max_length :: "chainsetup_position \<Rightarrow> bool" where
  "is_over_max_length c \<longleftrightarrow> ap_position (cp_pos c) > cp_max_length c \<and> cp_max_length_set c"

definition cp_set_samples_per_second :: "int \<Rightarrow> chainsetup_position \<Rightarrow> chainsetup_position result" where
  "cp_set_samples_per_second v c =
     (if cp_max_length_set c \<and> ap_srate (cp_pos c) = 0 then Inl Undefined_behaviour
      else let c1 = (if cp_max_length_set c
                     then set_max_length_in_samples
                            (truncate_rat (of_int (cp_max_length c) * (of_int v / of_int (ap_srate (cp_pos c))))) c
                     else c)
           in bind_result (ap_set_samples_per_second v (cp_pos c1)) (\<lambda>p. Inr (c1\<lparr>cp_pos := p\<rparr>)))"

subsection \<open>What the position promises\<close>

text \<open>
  A change of the sampling rate keeps the time of the position and of the length: with
  positive rates the position in seconds moves by less than one sample of the new rate, and so
  does a length that has been set; a non-negative position stays non-negative.
\<close>

theorem rate_change_keeps_time:
  assumes "0 < ap_srate a" "0 < v" "0 \<le> ap_position a"
  shows "\<exists>a'. ap_set_samples_per_second v a = Inr a' \<and> ap_srate a' = v \<and> 0 \<le> ap_position a' \<and>
    \<bar>of_int (ap_position a') / of_int v - (of_int (ap_position a) / of_int (ap_srate a) :: rat)\<bar> < 1 / of_int v \<and>
    (ap_length_set a \<longrightarrow>
       \<bar>of_int (ap_length a') / of_int v - (of_int (ap_length a) / of_int (ap_srate a) :: rat)\<bar> < 1 / of_int v)"
proof -
  define ratio where "ratio = (of_int v :: rat) / of_int (ap_srate a)"
  define p where "p = truncate_rat (of_int (ap_position a) * ratio)"
  define l where "l = truncate_rat (of_int (ap_length a) * ratio)"
  have scaled: "\<bar>of_int (truncate_rat (of_int n * ratio)) / of_int v - (of_int n / of_int (ap_srate a) :: rat)\<bar>
      < 1 / of_int v" for n
  proof -
    have v: "(0::rat) < of_int v" using assms(2) by simp
    have "of_int n * ratio / of_int v = (of_int n / of_int (ap_srate a) :: rat)"
      unfolding ratio_def using assms by simp
    then have "of_int (truncate_rat (of_int n * ratio)) / of_int v - (of_int n / of_int (ap_srate a) :: rat)
        = (of_int (truncate_rat (of_int n * ratio)) - of_int n * ratio) / of_int v"
      by (simp only: diff_divide_distrib)
    then have "\<bar>of_int (truncate_rat (of_int n * ratio)) / of_int v - (of_int n / of_int (ap_srate a) :: rat)\<bar>
        = \<bar>of_int (truncate_rat (of_int n * ratio)) - of_int n * ratio\<bar> / of_int v"
      using v by (simp only: abs_divide abs_of_pos)
    also have "\<dots> < 1 / of_int v"
      using divide_strict_right_mono[OF truncate_rat_error v] .
    finally show ?thesis .
  qed
  have pos: "0 \<le> p"
    unfolding p_def using assms by (intro truncate_rat_nonneg) (simp add: ratio_def)
  define a' where "a' = a\<lparr>ap_position := p, ap_length := (if ap_length_set a then l else ap_length a), ap_srate := v\<rparr>"
  have "ap_set_samples_per_second v a = Inr a'"
    using assms(1) pos
    by (simp add: ap_set_samples_per_second_def set_position_in_samples_def set_length_in_samples_def
        samplerate_aware_set_def a'_def Let_def flip: ratio_def p_def l_def)
  then show ?thesis
    using pos scaled[of "ap_position a"] scaled[of "ap_length a"]
    by (intro exI[of _ a']) (simp add: a'_def flip: p_def l_def)
qed

lemma rate_change_keeps_time_witness:
  "\<exists>a'. ap_set_samples_per_second 48000 (set_position_in_samples 1001 (audio_position_create 44100)) = Inr a' \<and>
     \<bar>of_int (ap_position a') / of_int 48000 - (of_int 1001 / of_int 44100 :: rat)\<bar> < 1 / of_int 48000"
  using rate_change_keeps_time[of "set_position_in_samples 1001 (audio_position_create 44100)" 48000]
  by (auto simp: set_position_in_samples_def audio_position_create_def)

text \<open>
  \<open>out_position()\<close> is documented as true when the position is past the end or negative, but
  it joins the two tests with a conjunction: with a non-negative length it is never true.
\<close>

theorem out_position_never:
  assumes "0 \<le> ap_length a"
  shows "\<not> out_position a"
  using assms by (simp add: out_position_def)

lemma out_position_never_witness:
  "\<not> out_position (change_position_in_samples 10 (set_length_in_samples 5 (audio_position_create 44100)))"
  using out_position_never[of "change_position_in_samples 10 (set_length_in_samples 5 (audio_position_create 44100))"]
  by (simp add: change_position_in_samples_def set_length_in_samples_def audio_position_create_def)

text \<open>
  \<open>extend_position\<close> makes the length the maximum of the two, so its documented postcondition
  (position equal to length) only holds when the position was not below the length.
\<close>

lemma extend_position_length:
  "ap_length (extend_position a) = max (ap_position a) (ap_length a)"
  "ap_position (extend_position a) = ap_length (extend_position a) \<longleftrightarrow> ap_length a \<le> ap_position a"
  by (auto simp: extend_position_def)

text \<open>The special value \<open>-1 * srate\<close> clears the maximum length, every other value sets it.\<close>

lemma set_max_length_postcondition:
  "cp_max_length_set (set_max_length_in_samples pos c) \<longleftrightarrow> pos \<noteq> -1 * ap_srate (cp_pos c)"
  "\<not> is_over_max_length (set_max_length_in_samples (-1 * ap_srate (cp_pos c)) c)"
  by (simp_all add: set_max_length_in_samples_def is_over_max_length_def)

subsection \<open>Time values\<close>

record audio_time =
  at_samples :: int
  at_rate :: int
  at_rate_set :: bool

abbreviation (input) default_srate :: int where "default_srate \<equiv> 384000"
abbreviation (input) invalid_srate :: int where "invalid_srate \<equiv> -1"

definition audio_time_none :: audio_time where
  "audio_time_none = \<lparr>at_samples = 0, at_rate = invalid_srate, at_rate_set = False\<rparr>"

definition at_set_samples :: "int \<Rightarrow> audio_time \<Rightarrow> audio_time" where
  "at_set_samples n t = t\<lparr>at_samples := n\<rparr>"

definition at_set_samples_per_second :: "int \<Rightarrow> audio_time \<Rightarrow> audio_time" where
  "at_set_samples_per_second srate t =
     (if srate > 0 then t\<lparr>at_rate := srate, at_rate_set := True\<rparr>
      else t\<lparr>at_rate_set := False, at_rate := invalid_srate\<rparr>)"

definition at_mark_as_invalid :: "audio_time \<Rightarrow> audio_time" where
  "at_mark_as_invalid t = at_set_samples_per_second invalid_srate t"

definition at_set_seconds :: "rat \<Rightarrow> audio_time \<Rightarrow> audio_time" where
  "at_set_seconds s t =
     (let t1 = (if at_rate t = invalid_srate then t\<lparr>at_rate := default_srate, at_rate_set := True\<rparr> else t)
      in t1\<lparr>at_samples := truncate_rat (s * of_int (at_rate t1))\<rparr>)"

text \<open>\<open>seconds()\<close> is \<open>const\<close> but fixes the rate of a value without one (the members are \<open>mutable\<close>).\<close>

definition at_fix_rate :: "audio_time \<Rightarrow> audio_time" where
  "at_fix_rate t = (if \<not> at_rate_set t then t\<lparr>at_rate := default_srate, at_rate_set := True\<rparr> else t)"

definition at_seconds :: "audio_time \<Rightarrow> rat" where
  "at_seconds t = of_int (at_samples (at_fix_rate t)) / of_int (at_rate (at_fix_rate t))"

definition at_set_samples_per_second_keeptime :: "int \<Rightarrow> audio_time \<Rightarrow> audio_time" where
  "at_set_samples_per_second_keeptime srate t =
     (if srate > 0 \<and> at_rate t \<noteq> srate
      then (if at_rate_set t
            then at_set_seconds (at_seconds t) (at_set_samples_per_second srate (at_fix_rate t))
            else at_set_samples_per_second srate t)
      else t)"

text \<open>The constructor from a sample count and a rate (the fields start with any values), and from seconds.\<close>

definition audio_time_of_samples :: "audio_time \<Rightarrow> int \<Rightarrow> int \<Rightarrow> audio_time" where
  "audio_time_of_samples garbage samples srate =
     (at_set_samples samples (at_set_samples_per_second srate garbage))\<lparr>at_rate_set := True\<rparr>"

definition audio_time_of_seconds :: "rat \<Rightarrow> audio_time" where
  "audio_time_of_seconds s = (at_set_seconds s audio_time_none)\<lparr>at_rate_set := True\<rparr>"

datatype time_format = Format_hour_min_sec | Format_min_sec | Format_seconds | Format_samples

text \<open>
  \<open>atof\<close> on decimal numbers: white space, a sign, digits with an optional fraction, an optional
  exponent; text without a digit gives 0. (Hexadecimal numbers, infinities and NaNs are not
  modelled.)
\<close>

definition split_sign :: "string \<Rightarrow> int \<times> string" where
  "split_sign s = (case s of [] \<Rightarrow> (1, [])
     | c # cs \<Rightarrow> if c = dash then (-1, cs) else if c = CHR 0x2B then (1, cs) else (1, s))"

definition power_of_ten :: "int \<Rightarrow> rat" where
  "power_of_ten e = (if 0 \<le> e then 10 ^ nat e else 1 / 10 ^ nat (- e))"

definition atof :: "string \<Rightarrow> rat" where
  "atof s =
     (case split_sign (dropWhile isspace s) of (sign, r) \<Rightarrow>
      let whole = takeWhile is_digit r; r1 = dropWhile is_digit r;
          frac = (case r1 of c # cs \<Rightarrow> if c = CHR 0x2E then takeWhile is_digit cs else [] | [] \<Rightarrow> []);
          r2 = (case r1 of c # cs \<Rightarrow> if c = CHR 0x2E then dropWhile is_digit cs else r1 | [] \<Rightarrow> []);
          e = (case r2 of c # cs \<Rightarrow> if c = CHR 0x65 \<or> c = CHR 0x45
                 then (case split_sign cs of (es, ds) \<Rightarrow> es * atoi_digits ds) else 0 | [] \<Rightarrow> 0)
      in if whole = [] \<and> frac = [] then 0
         else of_int (sign * atoi_digits (whole @ frac)) * power_of_ten (e - int (length frac)))"

definition at_set :: "time_format \<Rightarrow> string \<Rightarrow> audio_time \<Rightarrow> audio_time" where
  "at_set fmt time t =
     (case fmt of
        Format_hour_min_sec \<Rightarrow> t
      | Format_min_sec \<Rightarrow> t
      | Format_seconds \<Rightarrow> at_set_seconds (atof time) t
      | Format_samples \<Rightarrow> t\<lparr>at_samples := atoi time\<rparr>)"

definition at_set_time_string :: "string \<Rightarrow> audio_time \<Rightarrow> audio_time" where
  "at_set_time_string time t =
     (if length time > 2 \<and> string_find time ''sa'' 0 \<noteq> None
      then at_set Format_samples (take (length time - 2) time) t
      else at_set Format_seconds time t)"

definition audio_time_of_string :: "string \<Rightarrow> audio_time" where
  "audio_time_of_string time = at_set_time_string time audio_time_none"

definition at_to_string :: "(rat \<Rightarrow> string) \<Rightarrow> time_format \<Rightarrow> audio_time \<Rightarrow> string" where
  "at_to_string print_seconds fmt t =
     (case fmt of
        Format_hour_min_sec \<Rightarrow> ''''
      | Format_min_sec \<Rightarrow> ''''
      | Format_seconds \<Rightarrow> print_seconds (at_seconds t)
      | Format_samples \<Rightarrow> kvu_numtostr_llong (at_samples t))"

subsection \<open>What the time values promise\<close>

lemma find_first_suffix: "pat \<noteq> [] \<Longrightarrow> find_first pat (xs @ pat) \<noteq> None"
proof (induction xs)
  case Nil
  then show ?case by (cases pat) simp_all
qed simp

text \<open>
  A sample count printed by \<open>kvu_numtostr\<close> and followed by \<open>sa\<close> is read back by
  \<open>set_time_string\<close> as that count, for every 64-bit value, and leaves the rate alone.
\<close>

theorem time_string_roundtrip:
  assumes "- (2 ^ 63) \<le> at_samples t" "at_samples t < 2 ^ 63"
  shows "at_set_time_string (at_to_string print_seconds Format_samples t @ ''sa'') u = u\<lparr>at_samples := at_samples t\<rparr>"
proof -
  let ?s = "kvu_numtostr_llong (at_samples t)"
  have "atoi ?s = at_samples t"
    using atoi_cut_decimal[of 23 "at_samples t"] assms by (simp add: kvu_numtostr_llong_def)
  moreover have "?s \<noteq> []"
    by (simp add: kvu_numtostr_llong_def decimal_int_def)
  moreover have "string_find (?s @ ''sa'') ''sa'' 0 \<noteq> None"
    using find_first_suffix[of "''sa''" ?s] by (simp add: string_find_def)
  ultimately show ?thesis by (simp add: at_to_string_def at_set_time_string_def at_set_def)
qed

lemma time_string_roundtrip_witness:
  "at_set_time_string (at_to_string (\<lambda>_. []) Format_samples (audio_time_none\<lparr>at_samples := -44100\<rparr>) @ ''sa'') audio_time_none
     = audio_time_none\<lparr>at_samples := -44100\<rparr>"
  using time_string_roundtrip[of "audio_time_none\<lparr>at_samples := -44100\<rparr>" "\<lambda>_. []" audio_time_none] by simp

text \<open>The postfix is searched anywhere in the text, and the last two characters are dropped.\<close>

lemma time_string_sa_anywhere:
  "at_samples (audio_time_of_string ''12sa345'') = 12" "at_samples (audio_time_of_string ''sa12'') = 0"
  by code_simp+

text \<open>
  \<open>set_samples_per_second_keeptime\<close> keeps the time: for a value with a positive rate the time in
  seconds moves by less than one sample of the new rate.
\<close>

theorem keeptime_keeps_time:
  assumes "at_rate_set t" "0 < at_rate t" "0 < srate"
  shows "\<bar>at_seconds (at_set_samples_per_second_keeptime srate t) - at_seconds t\<bar> < 1 / of_int srate \<and>
    at_rate (at_set_samples_per_second_keeptime srate t) = srate"
proof (cases "at_rate t = srate")
  case False
  let ?x = "at_seconds t * of_int srate"
  have v: "(0::rat) < of_int srate" using assms(3) by simp
  have "at_seconds (at_set_samples_per_second_keeptime srate t) = of_int (truncate_rat ?x) / of_int srate"
    "at_rate (at_set_samples_per_second_keeptime srate t) = srate"
    using assms False
    by (simp_all add: at_set_samples_per_second_keeptime_def at_set_seconds_def at_set_samples_per_second_def
        at_seconds_def at_fix_rate_def Let_def)
  moreover have "of_int (truncate_rat ?x) / of_int srate - at_seconds t = (of_int (truncate_rat ?x) - ?x) / of_int srate"
    using v by (simp add: diff_divide_distrib)
  then have "\<bar>of_int (truncate_rat ?x) / of_int srate - at_seconds t\<bar> = \<bar>of_int (truncate_rat ?x) - ?x\<bar> / of_int srate"
    using v by (simp only: abs_divide abs_of_pos)
  ultimately show ?thesis
    using divide_strict_right_mono[OF truncate_rat_error[of ?x] v] by simp
qed (use assms in \<open>simp add: at_set_samples_per_second_keeptime_def\<close>)

lemma keeptime_keeps_time_witness:
  "\<bar>at_seconds (at_set_samples_per_second_keeptime 48000 (audio_time_of_samples audio_time_none 1001 44100))
      - 1001 / 44100\<bar> < 1 / 48000"
  using keeptime_keeps_time[of "audio_time_of_samples audio_time_none 1001 44100" 48000]
  by (simp add: audio_time_of_samples_def at_set_samples_def at_set_samples_per_second_def at_seconds_def at_fix_rate_def)

text \<open>
  The constructor from a sample count marks the rate as set whatever it is: with an invalid rate
  the value counts as valid and its seconds are the negated sample count.
\<close>

lemma audio_time_of_samples_invalid_rate:
  "srate \<le> 0 \<Longrightarrow> at_rate_set (audio_time_of_samples g n srate) \<and> at_seconds (audio_time_of_samples g n srate) = - of_int n"
  by (simp add: audio_time_of_samples_def at_set_samples_def at_set_samples_per_second_def at_seconds_def at_fix_rate_def)

end
