(* ===== verification/Db_Buffer.thy ===== *)
theory Db_Buffer
  imports Prelude
begin

text \<open>
  The ring of sample buffers between the engine and the disk thread,
  \<open>libecasound/audioio-db-buffer.cpp\<close>, and its use by one producer and one consumer as in
  \<open>audioio-db-server.cpp\<close> (\<open>io_thread\<close>, for a client opened for reading) and
  \<open>audioio-db-client.cpp\<close> (\<open>read_buffer\<close>). A sample buffer is a value of a type variable.
\<close>

subsection \<open>The ring\<close>

datatype db_io_mode = Io_read | Io_write

record 'b db_buffer =
  db_sbufs :: "'b list"
  db_readptr :: nat
  db_writeptr :: nat
  db_finished :: bool
  db_io_mode :: db_io_mode

text \<open>\<open>blank\<close> is a newly constructed sample buffer; \<open>io_mode_rep\<close> is set by the client, from any value \<open>m\<close>.\<close>

definition db_buffer_create :: "nat \<Rightarrow> 'b \<Rightarrow> db_io_mode \<Rightarrow> 'b db_buffer" where
  "db_buffer_create n blank m =
     \<lparr>db_sbufs = replicate n blank, db_readptr = 0, db_writeptr = 0, db_finished = False, db_io_mode = m\<rparr>"

definition db_reset :: "'b db_buffer \<Rightarrow> 'b db_buffer" where
  "db_reset b = b\<lparr>db_readptr := 0, db_writeptr := 0, db_finished := False\<rparr>"

definition ring_read_space :: "nat \<Rightarrow> nat \<Rightarrow> nat \<Rightarrow> nat" where
  "ring_read_space n wp rp = (if wp \<ge> rp then wp - rp else (wp + n - rp) mod n)"

definition ring_write_space :: "nat \<Rightarrow> nat \<Rightarrow> nat \<Rightarrow> nat" where
  "ring_write_space n wp rp =
     (if wp > rp then (rp + n - wp) mod n - 1
      else if wp < rp then rp - wp - 1
      else n - 1)"

definition db_read_space :: "'b db_buffer \<Rightarrow> nat" where
  "db_read_space b = ring_read_space (length (db_sbufs b)) (db_writeptr b) (db_readptr b)"

definition db_write_space :: "'b db_buffer \<Rightarrow> nat" where
  "db_write_space b = ring_write_space (length (db_sbufs b)) (db_writeptr b) (db_readptr b)"

definition advance_read_pointer :: "'b db_buffer \<Rightarrow> 'b db_buffer" where
  "advance_read_pointer b = b\<lparr>db_readptr := (db_readptr b + 1) mod length (db_sbufs b)\<rparr>"

definition advance_write_pointer :: "'b db_buffer \<Rightarrow> 'b db_buffer" where
  "advance_write_pointer b = b\<lparr>db_writeptr := (db_writeptr b + 1) mod length (db_sbufs b)\<rparr>"

definition db_wf :: "'b db_buffer \<Rightarrow> bool" where
  "db_wf b \<longleftrightarrow> db_readptr b < length (db_sbufs b) \<and> db_writeptr b < length (db_sbufs b)"

text \<open>Pointers as the low parts of counters that only grow.\<close>

lemma ring_spaces:
  assumes "R \<le> W" "W - R < n"
  shows "ring_read_space n (W mod n) (R mod n) = W - R" "ring_write_space n (W mod n) (R mod n) = n - 1 - (W - R)"
proof -
  define r d where "r = R mod n" and "d = W - R"
  have n: "0 < n" and r: "r < n" and d: "d < n" using assms(2) by (auto simp: r_def d_def)
  have "W mod n = (r + d) mod n"
    unfolding r_def d_def mod_add_left_eq using assms(1) by simp
  also have "\<dots> = (if r + d < n then r + d else r + d - n)"
    using r d by (auto simp: mod_if)
  finally have W: "W mod n = (if r + d < n then r + d else r + d - n)" .
  show "ring_read_space n (W mod n) (R mod n) = W - R"
    using r d unfolding ring_read_space_def W r_def[symmetric] d_def[symmetric] by (auto simp: mod_if)
  show "ring_write_space n (W mod n) (R mod n) = n - 1 - (W - R)"
    using r d unfolding ring_write_space_def W r_def[symmetric] d_def[symmetric] by (auto simp: mod_if)
qed

lemma ring_pointers:
  fixes rp wp n :: nat
  assumes "rp < n" "wp < n"
  obtains W where "rp \<le> W" "W - rp < n" "W mod n = wp"
proof (cases "rp \<le> wp")
  case True
  then show ?thesis using that[of wp] assms by (simp add: less_imp_diff_less)
next
  case False
  then show ?thesis using that[of "wp + n"] assms by auto
qed

lemma db_spaces_lemma:
  assumes "db_wf b"
  shows "db_read_space b + db_write_space b = length (db_sbufs b) - 1 \<and>
    (0 < db_write_space b \<longrightarrow> db_read_space (advance_write_pointer b) = db_read_space b + 1) \<and>
    (0 < db_read_space b \<longrightarrow> db_write_space (advance_read_pointer b) = db_write_space b + 1) \<and>
    db_wf (advance_write_pointer b) \<and> db_wf (advance_read_pointer b)"
proof -
  let ?n = "length (db_sbufs b)" and ?r = "db_readptr b"
  have rw: "?r < ?n" "db_writeptr b < ?n" using assms by (simp_all add: db_wf_def)
  obtain W where W: "?r \<le> W" "W - ?r < ?n" "W mod ?n = db_writeptr b"
    using ring_pointers[OF rw] .
  have r: "?r mod ?n = ?r" using rw by simp
  have sp: "db_read_space b = W - ?r" "db_write_space b = ?n - 1 - (W - ?r)"
    using ring_spaces[OF W(1,2)] by (simp_all add: db_read_space_def db_write_space_def W(3) r)
  have w1: "(db_writeptr b + 1) mod ?n = Suc W mod ?n" using W(3) by (metis Suc_eq_plus1 mod_Suc_eq)
  have "db_read_space (advance_write_pointer b) = db_read_space b + 1" if "0 < db_write_space b"
    using ring_spaces(1)[of ?r "Suc W" ?n] that W sp r w1
    by (simp add: db_read_space_def advance_write_pointer_def)
  moreover have "db_write_space (advance_read_pointer b) = db_write_space b + 1" if "0 < db_read_space b"
    using ring_spaces(2)[of "Suc ?r" W ?n] that W sp
    by (simp add: db_write_space_def advance_read_pointer_def)
  ultimately show ?thesis
    using sp W(2) rw mod_less_divisor[OF le_less_trans[OF le0 rw(1)]]
    by (simp add: db_wf_def advance_write_pointer_def advance_read_pointer_def)
qed

text \<open>
  The two spaces of a ring of \<open>n\<close> buffers always add up to \<open>n - 1\<close>: one slot stays free, so a
  full ring is never taken for an empty one. Advancing a pointer moves one unit from one space to
  the other when there is one.
\<close>

theorem db_spaces:
  assumes "db_wf b"
  shows "db_read_space b + db_write_space b = length (db_sbufs b) - 1 \<and>
    (0 < db_write_space b \<longrightarrow> db_read_space (advance_write_pointer b) = db_read_space b + 1) \<and>
    (0 < db_read_space b \<longrightarrow> db_write_space (advance_read_pointer b) = db_write_space b + 1) \<and>
    db_wf (advance_write_pointer b) \<and> db_wf (advance_read_pointer b)"
  by (rule db_spaces_lemma[OF assms])

lemma db_spaces_witness:
  "db_read_space (advance_write_pointer (db_buffer_create 4 () Io_read)) = 1"
  using db_spaces[of "db_buffer_create 4 () Io_read"] by (simp add: db_buffer_create_def db_wf_def
      db_read_space_def db_write_space_def ring_read_space_def ring_write_space_def advance_write_pointer_def)

subsection \<open>One producer, one consumer\<close>

text \<open>
  The disk thread and the engine thread share the ring. The file holds the blocks \<open>src\<close>; the
  child object is finished once the last block is rp. The steps are the accesses to the shared
  pointers and the shared flag, each atomic; a thread reads its own pointer without
  interference, so a computation of the space is one step. \<open>out\<close> is what the engine has received.
\<close>

datatype server_pc = S_round | S_fill | S_set_finished | S_advance
datatype client_pc = C_read | C_copy | C_advance | C_no_data

record 'b db_system =
  ring :: "'b db_buffer"
  src :: "'b list"
  out :: "'b list"
  client_finished :: bool
  xruns :: nat
  server_at :: server_pc
  client_at :: client_pc

inductive db_step :: "'b db_system \<Rightarrow> 'b db_system \<Rightarrow> bool" where
  server_finished:
    "server_at s = S_round \<Longrightarrow> \<not> db_finished (ring s) \<Longrightarrow> src s = [] \<Longrightarrow>
     db_step s (s\<lparr>ring := (ring s)\<lparr>db_finished := True\<rparr>\<rparr>)"
| server_space:
    "server_at s = S_round \<Longrightarrow> \<not> db_finished (ring s) \<Longrightarrow> src s \<noteq> [] \<Longrightarrow> db_write_space (ring s) > 0 \<Longrightarrow>
     db_step s (s\<lparr>server_at := S_fill\<rparr>)"
| server_fill:
    "server_at s = S_fill \<Longrightarrow>
     db_step s (s\<lparr>ring := (ring s)\<lparr>db_sbufs := (db_sbufs (ring s))[db_writeptr (ring s) := hd (src s)]\<rparr>,
                  src := tl (src s),
                  server_at := (if tl (src s) = [] then S_set_finished else S_advance)\<rparr>)"
| server_set_finished:
    "server_at s = S_set_finished \<Longrightarrow>
     db_step s (s\<lparr>ring := (ring s)\<lparr>db_finished := True\<rparr>, server_at := S_advance\<rparr>)"
| server_advance:
    "server_at s = S_advance \<Longrightarrow>
     db_step s (s\<lparr>ring := advance_write_pointer (ring s), server_at := S_round\<rparr>)"
| client_space:
    "client_at s = C_read \<Longrightarrow> \<not> client_finished s \<Longrightarrow>
     db_step s (s\<lparr>client_at := (if db_read_space (ring s) > 0 then C_copy else C_no_data)\<rparr>)"
| client_copy:
    "client_at s = C_copy \<Longrightarrow>
     db_step s (s\<lparr>out := out s @ [db_sbufs (ring s) ! db_readptr (ring s)], client_at := C_advance\<rparr>)"
| client_advance:
    "client_at s = C_advance \<Longrightarrow>
     db_step s (s\<lparr>ring := advance_read_pointer (ring s), client_at := C_read\<rparr>)"
| client_no_data_finished:
    "client_at s = C_no_data \<Longrightarrow> db_finished (ring s) \<Longrightarrow>
     db_step s (s\<lparr>client_finished := True, client_at := C_read\<rparr>)"
| client_no_data_xrun:
    "client_at s = C_no_data \<Longrightarrow> \<not> db_finished (ring s) \<Longrightarrow>
     db_step s (s\<lparr>xruns := xruns s + 1, client_at := C_read\<rparr>)"

inductive_cases db_stepE: "db_step s s'"

definition db_start :: "nat \<Rightarrow> 'b \<Rightarrow> 'b list \<Rightarrow> 'b db_system" where
  "db_start n blank blocks =
     \<lparr>ring = db_buffer_create n blank Io_read, src = blocks, out = [], client_finished = False, xruns = 0,
      server_at = S_round, client_at = C_read\<rparr>"

definition db_reachable :: "nat \<Rightarrow> 'b \<Rightarrow> 'b list \<Rightarrow> 'b db_system \<Rightarrow> bool" where
  "db_reachable n blank blocks s \<longleftrightarrow> db_step\<^sup>*\<^sup>* (db_start n blank blocks) s"

definition filled :: "'b db_system \<Rightarrow> nat" where
  "filled s = (if server_at s \<in> {S_set_finished, S_advance} then 1 else 0)"

definition copied :: "'b db_system \<Rightarrow> nat" where
  "copied s = (if client_at s = C_advance then 1 else 0)"

text \<open>
  The invariant: \<open>R\<close> blocks have been consumed and \<open>W\<close> produced; the slots between hold the blocks
  of the file in order.
\<close>

definition db_inv :: "nat \<Rightarrow> 'b list \<Rightarrow> 'b db_system \<Rightarrow> nat \<Rightarrow> nat \<Rightarrow> bool" where
  "db_inv n blocks s R W \<longleftrightarrow>
     length (db_sbufs (ring s)) = n \<and> db_readptr (ring s) = R mod n \<and> db_writeptr (ring s) = W mod n \<and>
     R + copied s \<le> W \<and> W + filled s < R + n \<and> W + filled s \<le> length blocks \<and>
     (\<forall>i. R \<le> i \<and> i < W + filled s \<longrightarrow> db_sbufs (ring s) ! (i mod n) = blocks ! i) \<and>
     src s = drop (W + filled s) blocks \<and> out s = take (R + copied s) blocks \<and>
     (server_at s = S_fill \<longrightarrow> W + 1 < R + n \<and> src s \<noteq> []) \<and>
     (client_at s = C_copy \<longrightarrow> R < W) \<and>
     (db_finished (ring s) \<longrightarrow> W + filled s = length blocks) \<and>
     (server_at s = S_set_finished \<longrightarrow> W + 1 = length blocks)"

lemma mod_neq: "i < (W::nat) \<Longrightarrow> W < i + n \<Longrightarrow> i mod n \<noteq> W mod n"
proof
  assume a: "i < W" "W < i + n" "i mod n = W mod n"
  then have "n dvd W - i" by (metis less_imp_le_nat mod_eq_dvd_iff_nat)
  then have "n \<le> W - i" using a(1) by (simp add: dvd_imp_le)
  then show False using a by linarith
qed

lemma db_start_inv: "0 < n \<Longrightarrow> db_inv n blocks (db_start n blank blocks) 0 0"
  by (simp add: db_inv_def db_start_def db_buffer_create_def filled_def copied_def)

lemma db_step_inv:
  assumes "db_step s s'" "db_inv n blocks s R W"
  shows "\<exists>R' W'. db_inv n blocks s' R' W'"
proof -
  note inv = assms(2)[unfolded db_inv_def]
  have n: "0 < n" using inv by linarith
  show ?thesis
    using assms(1)
  proof (cases rule: db_step.cases)
    case server_finished
    then have "db_inv n blocks s' R W" using inv by (auto simp: db_inv_def filled_def copied_def)
    then show ?thesis by blast
  next
    case server_space
    then have "W - R < n - 1"
      using inv ring_spaces(2)[of R W n] by (auto simp: db_write_space_def)
    then have "db_inv n blocks s' R W" using server_space inv by (auto simp: db_inv_def filled_def copied_def)
    then show ?thesis by blast
  next
    case server_fill
    have f: "filled s = 0" using server_fill by (simp add: filled_def)
    have w: "W < length blocks" "hd (src s) = blocks ! W" "tl (src s) = drop (Suc W) blocks"
      using server_fill inv f by (auto simp: hd_drop_conv_nth drop_Suc tl_drop)
    have slots: "(db_sbufs (ring s))[W mod n := blocks ! W] ! (i mod n) = blocks ! i"
      if "R \<le> i" "i < Suc W" for i
    proof (cases "i = W")
      case False
      then have "i mod n \<noteq> W mod n" using that inv f by (intro mod_neq) auto
      then show ?thesis using that False inv f by simp
    qed (use inv n in simp)
    have "filled s' = 1" "copied s' = copied s" using server_fill by (auto simp: filled_def copied_def)
    then have "db_inv n blocks s' R W"
      using server_fill inv w slots f unfolding db_inv_def by (auto simp: Suc_le_eq split: if_splits)
    then show ?thesis by blast
  next
    case server_set_finished
    then have "db_inv n blocks s' R W" using inv by (auto simp: db_inv_def filled_def copied_def)
    then show ?thesis by blast
  next
    case server_advance
    then have f: "filled s = 1" "filled s' = 0" "copied s' = copied s" by (simp_all add: filled_def copied_def)
    then have "db_inv n blocks s' R (Suc W)"
      using server_advance inv unfolding db_inv_def
      by (auto simp: advance_write_pointer_def mod_Suc_eq)
    then show ?thesis by blast
  next
    case client_space
    then have "R \<le> W" "W - R < n" using inv by (auto simp: copied_def)
    then have "db_read_space (ring s) = W - R"
      using inv ring_spaces(1)[of R W n] by (simp add: db_read_space_def)
    then have "db_inv n blocks s' R W" using client_space inv by (auto simp: db_inv_def filled_def copied_def)
    then show ?thesis by blast
  next
    case client_copy
    have "db_sbufs (ring s) ! (R mod n) = blocks ! R" "R < length blocks"
      using client_copy inv by auto
    then have "db_inv n blocks s' R W"
      using client_copy inv by (auto simp: db_inv_def filled_def copied_def take_Suc_conv_app_nth)
    then show ?thesis by blast
  next
    case client_advance
    then have "copied s = 1" "copied s' = 0" "filled s' = filled s" by (simp_all add: filled_def copied_def)
    then have "db_inv n blocks s' (Suc R) W"
      using client_advance inv unfolding db_inv_def
      by (auto simp: advance_read_pointer_def mod_Suc_eq)
    then show ?thesis by blast
  next
    case client_no_data_finished
    then have "db_inv n blocks s' R W" using inv by (auto simp: db_inv_def filled_def copied_def)
    then show ?thesis by blast
  next
    case client_no_data_xrun
    then have "db_inv n blocks s' R W" using inv by (auto simp: db_inv_def filled_def copied_def)
    then show ?thesis by blast
  qed
qed

lemma db_reachable_inv:
  assumes "0 < n" "db_reachable n blank blocks s"
  shows "\<exists>R W. db_inv n blocks s R W"
proof -
  have "db_step\<^sup>*\<^sup>* (db_start n blank blocks) s" using assms(2) by (simp add: db_reachable_def)
  then show ?thesis
  proof (induction rule: rtranclp_induct)
    case base
    show ?case by (intro exI) (rule db_start_inv[OF assms(1)])
  next
    case (step s s')
    then show ?case using db_step_inv by blast
  qed
qed

text \<open>
  C10. Whatever the interleaving of the two threads, the engine receives the blocks of the file in
  order, without loss, repetition or an overwritten slot: what it has received, the blocks still in
  the ring and the blocks still in the file make up the file.
\<close>

theorem db_ring_in_order:
  assumes "db_reachable n blank blocks s" "0 < n"
  shows "\<exists>k. blocks = out s @ map (\<lambda>i. db_sbufs (ring s) ! (i mod n)) [length (out s)..<k] @ src s"
proof -
  obtain R W where inv: "db_inv n blocks s R W" using db_reachable_inv[OF assms(2,1)] by (elim exE)
  define r w where "r = R + copied s" and "w = W + filled s"
  have slots: "\<forall>i. R \<le> i \<and> i < w \<longrightarrow> db_sbufs (ring s) ! (i mod n) = blocks ! i"
    and out: "out s = take r blocks" and src: "src s = drop w blocks" and w: "w \<le> length blocks" and "r \<le> W"
    using inv unfolding db_inv_def r_def w_def by blast+
  then have r: "R \<le> r" "r \<le> w" by (simp_all add: r_def w_def)
  have len: "length (out s) = r" using out r w by simp
  have "map (\<lambda>i. db_sbufs (ring s) ! (i mod n)) [r..<w] = map ((!) blocks) [r..<w]"
    using slots r(1) by simp
  also have "\<dots> = take (w - r) (drop r blocks)"
    by (rule nth_equalityI) (use r w in simp_all)
  finally have "out s @ map (\<lambda>i. db_sbufs (ring s) ! (i mod n)) [length (out s)..<w] @ src s
      = take r blocks @ take (w - r) (drop r blocks) @ drop w blocks"
    by (subst len) (simp only: out src)
  also have "\<dots> = take (r + (w - r)) blocks @ drop w blocks"
    by (simp only: take_add append.assoc)
  also have "\<dots> = blocks" using r(2) by simp
  finally show ?thesis by (intro exI) (rule sym)
qed

lemma db_finish_example:
  "db_reachable 2 blank [x] (db_start 2 blank [x]\<lparr>ring := (db_buffer_create 2 blank Io_read)
      \<lparr>db_sbufs := [x, blank], db_finished := True, db_writeptr := 1\<rparr>,
     src := [], client_finished := True\<rparr>)"
proof -
  define b where "b = (db_buffer_create 2 blank Io_read)\<lparr>db_sbufs := [x, blank]\<rparr>"
  define s0 where "s0 = db_start 2 blank [x]"
  define s1 where "s1 = s0\<lparr>server_at := S_fill\<rparr>"
  define s2 where "s2 = s1\<lparr>ring := b, src := [], server_at := S_set_finished\<rparr>"
  define s3 where "s3 = s2\<lparr>client_at := C_no_data\<rparr>"
  define s4 where "s4 = s3\<lparr>ring := b\<lparr>db_finished := True\<rparr>, server_at := S_advance\<rparr>"
  define s5 where "s5 = s4\<lparr>client_finished := True, client_at := C_read\<rparr>"
  define s6 where "s6 = s5\<lparr>ring := b\<lparr>db_finished := True, db_writeptr := 1\<rparr>, server_at := S_round\<rparr>"
  note d = s0_def s1_def s2_def s3_def s4_def s5_def s6_def b_def db_start_def db_buffer_create_def
  have two: "replicate 2 blank = [blank, blank]" by (simp add: numeral_2_eq_2)
  have steps: "db_step s0 s1" "db_step s1 s2" "db_step s2 s3" "db_step s3 s4" "db_step s4 s5" "db_step s5 s6"
    using server_space[of s0] server_fill[of s1] client_space[of s2] server_set_finished[of s3]
      client_no_data_finished[of s4] server_advance[of s5]
    by (simp_all add: d two db_read_space_def ring_read_space_def db_write_space_def ring_write_space_def
        advance_write_pointer_def)
  have "db_step\<^sup>*\<^sup>* s0 s6"
    using steps by (meson converse_rtranclp_into_rtranclp rtranclp.rtrancl_refl)
  moreover have "s6 = (db_start 2 blank [x]\<lparr>ring := (db_buffer_create 2 blank Io_read)
      \<lparr>db_sbufs := [x, blank], db_finished := True, db_writeptr := 1\<rparr>, src := [], client_finished := True\<rparr>)"
    by (simp add: d)
  ultimately show ?thesis by (simp add: db_reachable_def s0_def)
qed

text \<open>
  The end of a file can be lost: the disk thread sets the finished flag before it advances the
  write pointer, so an engine that finds no data and then reads the flag takes the stream for
  finished while the last block is on its way. There is a run on the one-block file after which the
  client is finished, the block is in the ring, and nothing has been received.
\<close>

theorem db_last_block_lost:
  "\<exists>s. db_reachable 2 blank [x] s \<and> client_finished s \<and> server_at s = S_round \<and> src s = [] \<and>
     out s = [] \<and> db_read_space (ring s) = 1"
  by (intro exI conjI, rule db_finish_example)
     (simp_all add: db_start_def db_buffer_create_def db_read_space_def ring_read_space_def)

text \<open>When the client finds data instead of no data, what it has not received can still be fetched.\<close>

lemma db_finished_complete:
  assumes "db_reachable n blank blocks s" "0 < n" "db_finished (ring s)" "server_at s = S_round"
    "db_read_space (ring s) = 0" "client_at s = C_read"
  shows "out s = blocks"
proof -
  obtain R W where inv: "db_inv n blocks s R W" using db_reachable_inv[OF assms(2,1)] by (elim exE)
  then have "R \<le> W" "W - R < n" "db_read_space (ring s) = ring_read_space n (W mod n) (R mod n)"
    using assms unfolding db_inv_def by (auto simp: filled_def copied_def db_read_space_def)
  then have "W = R" using ring_spaces(1) assms(5) by simp
  then show ?thesis using inv assms unfolding db_inv_def by (simp add: filled_def copied_def)
qed

lemma db_ring_in_order_witness:
  "\<exists>k. ''x'' = [] @ map (\<lambda>i. [CHR ''x'', CHR ''b''] ! (i mod 2)) [0..<k] @ []"
  using db_ring_in_order[OF db_finish_example[of "CHR ''b''" "CHR ''x''"]]
  by (simp add: db_start_def db_buffer_create_def)

end
