(* ===== verification/Db_Server.thy ===== *)
theory Db_Server
  imports Db_Buffer
begin

text \<open>
  The double-buffering server and its clients, \<open>audioio-db-server.cpp\<close> and \<open>audioio-db-client.cpp\<close>.
  The audio object behind a client (the child) is a state \<open>'c\<close> with the operations of \<open>AUDIO_IO\<close>
  that are called on it, the record \<open>child_ops\<close>; what they do is up to the class of the child.
\<close>

record ('c, 'b) child_ops =
  ch_finished :: "'c \<Rightarrow> bool"
  ch_read :: "'b \<Rightarrow> 'c \<Rightarrow> 'c \<times> 'b"
  ch_write :: "'b \<Rightarrow> 'c \<Rightarrow> 'c"

subsection \<open>The rounds of the server thread\<close>

text \<open>A client slot: both pointers are null after \<open>unregister_client\<close>.\<close>

type_synonym ('c, 'b) client_slot = "('c \<times> 'b db_buffer) option"

definition set_finished :: "bool \<Rightarrow> 'b db_buffer \<Rightarrow> 'b db_buffer" where
  "set_finished f b = (if f then b\<lparr>db_finished := True\<rparr> else b)"

definition serve_read :: "('c, 'b) child_ops \<Rightarrow> 'c \<times> 'b db_buffer \<Rightarrow> ('c \<times> 'b db_buffer) \<times> bool" where
  "serve_read ops = (\<lambda>(c, b).
     if db_write_space b > 0 \<and> \<not> ch_finished ops c
     then (case ch_read ops (db_sbufs b ! db_writeptr b) c of (c', block) \<Rightarrow>
       ((c', advance_write_pointer (set_finished (ch_finished ops c')
               (b\<lparr>db_sbufs := (db_sbufs b)[db_writeptr b := block]\<rparr>))), True))
     else ((c, b), False))"

definition serve_write :: "('c, 'b) child_ops \<Rightarrow> 'c \<times> 'b db_buffer \<Rightarrow> ('c \<times> 'b db_buffer) \<times> bool" where
  "serve_write ops = (\<lambda>(c, b).
     if db_read_space b > 0 \<and> \<not> ch_finished ops c
     then (let c' = ch_write ops (db_sbufs b ! db_readptr b) c in
       ((c', advance_read_pointer (set_finished (ch_finished ops c') b)), True))
     else ((c, b), False))"

text \<open>One pass of the loop of \<open>io_thread\<close> over a client; the flag says whether a block was moved.\<close>

definition serve_client :: "('c, 'b) child_ops \<Rightarrow> ('c, 'b) client_slot \<Rightarrow> ('c, 'b) client_slot \<times> bool" where
  "serve_client ops slot =
     (case slot of None \<Rightarrow> (None, False)
      | Some (c, b) \<Rightarrow>
          if db_finished b then (Some (c, b), False)
          else (let b1 = set_finished (ch_finished ops c) b;
                    r = (if db_io_mode b1 = Io_read then serve_read ops (c, b1) else serve_write ops (c, b1))
                in (Some (fst r), snd r)))"

record ('c, 'b) db_server =
  sv_clients :: "('c, 'b) client_slot list"
  sv_client_map :: "nat \<rightharpoonup> nat"
  sv_buffercount :: nat
  sv_buffersize :: nat
  sv_running :: bool
  sv_full :: bool
  sv_stop_request :: bool
  sv_passive_rounds :: nat

definition db_server_create :: "('c, 'b) db_server" where
  "db_server_create = \<lparr>sv_clients = [], sv_client_map = Map.empty, sv_buffercount = 32, sv_buffersize = 1024,
     sv_running = False, sv_full = False, sv_stop_request = False, sv_passive_rounds = 0\<rparr>"

definition db_server_start :: "('c, 'b) db_server \<Rightarrow> ('c, 'b) db_server" where
  "db_server_start sv = sv\<lparr>sv_stop_request := False, sv_running := True\<rparr>"

definition db_server_stop :: "('c, 'b) db_server \<Rightarrow> ('c, 'b) db_server" where
  "db_server_stop sv = sv\<lparr>sv_stop_request := True\<rparr>"

definition set_buffer_defaults :: "nat \<Rightarrow> nat \<Rightarrow> ('c, 'b) db_server \<Rightarrow> ('c, 'b) db_server" where
  "set_buffer_defaults buffers buffersize sv = sv\<lparr>sv_buffercount := buffers, sv_buffersize := buffersize\<rparr>"

text \<open>An audio object is known by its address; \<open>blank\<close> is the new buffer for its channels.\<close>

definition register_client :: "nat \<Rightarrow> 'c \<Rightarrow> 'b \<Rightarrow> db_io_mode \<Rightarrow> ('c, 'b) db_server \<Rightarrow> ('c, 'b) db_server" where
  "register_client a c blank m sv =
     sv\<lparr>sv_clients := sv_clients sv @ [Some (c, db_buffer_create (sv_buffercount sv) blank m)],
        sv_client_map := (sv_client_map sv)(a \<mapsto> length (sv_clients sv))\<rparr>"

definition unregister_client :: "nat \<Rightarrow> ('c, 'b) db_server \<Rightarrow> ('c, 'b) db_server" where
  "unregister_client a sv =
     (case sv_client_map sv a of
        None \<Rightarrow> sv
      | Some index \<Rightarrow>
          if index < length (sv_clients sv) then sv\<lparr>sv_clients := (sv_clients sv)[index := None]\<rparr> else sv)"

definition get_client_buffer :: "nat \<Rightarrow> ('c, 'b) db_server \<Rightarrow> 'b db_buffer option result" where
  "get_client_buffer a sv =
     (case sv_client_map sv a of
        None \<Rightarrow> Inr None
      | Some index \<Rightarrow>
          if index < length (sv_clients sv) then Inr (map_option snd (sv_clients sv ! index))
          else Inl Undefined_behaviour)"

text \<open>
  A round of the loop while the server runs: every client is served, then a stop request ends the
  processing, or two passive rounds in a row mark the buffers as full.
\<close>

definition io_round :: "('c, 'b) child_ops \<Rightarrow> ('c, 'b) db_server \<Rightarrow> ('c, 'b) db_server" where
  "io_round ops sv =
     (let rs = map (serve_client ops) (sv_clients sv);
          processed = length (filter snd rs);
          sv1 = sv\<lparr>sv_clients := map fst rs\<rparr>
      in if sv_stop_request sv1
         then sv1\<lparr>sv_stop_request := False, sv_running := False, sv_full := False\<rparr>
         else let passive = (if processed = 0 then sv_passive_rounds sv1 + 1 else 0);
                  sv2 = sv1\<lparr>sv_passive_rounds := passive\<rparr>
              in if processed = 0 \<and> passive > 1 then sv2\<lparr>sv_full := True\<rparr> else sv2)"

subsection \<open>Flushing\<close>

definition flush_active :: "('c, 'b) client_slot \<Rightarrow> bool" where
  "flush_active slot =
     (case slot of None \<Rightarrow> False
      | Some (c, b) \<Rightarrow> \<not> db_finished b \<and> db_io_mode b \<noteq> Io_read \<and> db_read_space b > 0)"

definition flush_client :: "('c, 'b) child_ops \<Rightarrow> ('c, 'b) client_slot \<Rightarrow> ('c, 'b) client_slot" where
  "flush_client ops slot =
     (if flush_active slot
      then map_option (\<lambda>(c, b). let c' = ch_write ops (db_sbufs b ! db_readptr b) c in
             (c', advance_read_pointer (set_finished (ch_finished ops c') b))) slot
      else slot)"

partial_function (option) flush_loop ::
  "('c, 'b) child_ops \<Rightarrow> ('c, 'b) client_slot list \<Rightarrow> ('c, 'b) client_slot list option" where
  "flush_loop ops slots =
     (if \<exists>slot \<in> set slots. flush_active slot then flush_loop ops (map (flush_client ops) slots)
      else Some slots)"

definition db_server_flush :: "('c, 'b) child_ops \<Rightarrow> ('c, 'b) db_server \<Rightarrow> ('c, 'b) db_server option" where
  "db_server_flush ops sv =
     map_option (\<lambda>slots. sv\<lparr>sv_clients := map (map_option (\<lambda>(c, b). (c, db_reset b))) slots\<rparr>)
       (flush_loop ops (sv_clients sv))"

text \<open>The blocks waiting in a ring, oldest first.\<close>

definition pending_blocks :: "'b db_buffer \<Rightarrow> 'b list" where
  "pending_blocks b = map (\<lambda>i. db_sbufs b ! ((db_readptr b + i) mod length (db_sbufs b))) [0..<db_read_space b]"

text \<open>Writing blocks until the child is finished.\<close>

fun write_blocks :: "('c, 'b) child_ops \<Rightarrow> 'b list \<Rightarrow> 'c \<Rightarrow> 'c" where
  "write_blocks ops [] c = c"
| "write_blocks ops (x # xs) c =
     (let c' = ch_write ops x c in if ch_finished ops c' then c' else write_blocks ops xs c')"

definition slot_space :: "('c, 'b) client_slot \<Rightarrow> nat" where
  "slot_space slot = (case slot of None \<Rightarrow> 0 | Some (c, b) \<Rightarrow> db_read_space b)"

definition slot_wf :: "('c, 'b) client_slot \<Rightarrow> bool" where
  "slot_wf slot = (case slot of None \<Rightarrow> True | Some (c, b) \<Rightarrow> db_wf b)"

lemma read_space_advance:
  assumes "db_wf b" "0 < db_read_space b"
  shows "db_read_space (advance_read_pointer b) = db_read_space b - 1" "db_wf (advance_read_pointer b)"
    "pending_blocks b = db_sbufs b ! db_readptr b # pending_blocks (advance_read_pointer b)"
proof -
  let ?n = "length (db_sbufs b)"
  show wf: "db_wf (advance_read_pointer b)" using db_spaces_lemma[OF assms(1)] by simp
  have "db_read_space b + db_write_space b = ?n - 1"
    "db_read_space (advance_read_pointer b) + db_write_space (advance_read_pointer b) = ?n - 1"
    "db_write_space (advance_read_pointer b) = db_write_space b + 1"
    using db_spaces_lemma[OF assms(1)] db_spaces_lemma[OF wf] assms(2) by (simp_all add: advance_read_pointer_def)
  then show sp: "db_read_space (advance_read_pointer b) = db_read_space b - 1" by linarith
  have rp: "db_readptr b < ?n" using assms(1) by (simp add: db_wf_def)
  have "((db_readptr b + 1) mod ?n + i) mod ?n = (db_readptr b + Suc i) mod ?n" for i
    by (simp add: mod_add_left_eq)
  moreover obtain k where k: "db_read_space b = Suc k" using assms(2) by (cases "db_read_space b") auto
  moreover have "[0..<Suc k] = 0 # map Suc [0..<k]"
    by (simp add: upt_conv_Cons map_Suc_upt del: upt_Suc)
  ultimately show "pending_blocks b = db_sbufs b ! db_readptr b # pending_blocks (advance_read_pointer b)"
    unfolding pending_blocks_def sp using rp by (simp add: advance_read_pointer_def o_def del: upt_Suc)
qed

lemma flush_client_step:
  assumes "slot_wf slot" "flush_active slot"
  shows "slot_wf (flush_client ops slot)" "slot_space (flush_client ops slot) < slot_space slot"
proof -
  obtain c b where slot: "slot = Some (c, b)" "0 < db_read_space b" "db_wf b"
    using assms by (auto simp: flush_active_def slot_wf_def split: option.splits)
  have same: "db_read_space (advance_read_pointer (set_finished f b)) = db_read_space (advance_read_pointer b)"
    "db_wf (advance_read_pointer (set_finished f b)) = db_wf (advance_read_pointer b)" for f
    by (simp_all add: set_finished_def advance_read_pointer_def db_read_space_def db_wf_def)
  show "slot_wf (flush_client ops slot)" "slot_space (flush_client ops slot) < slot_space slot"
    using read_space_advance[OF slot(3,2)] slot assms(2)
    by (simp_all add: flush_client_def slot_wf_def slot_space_def Let_def same)
qed

lemma flush_inactive [simp]: "\<not> flush_active slot \<Longrightarrow> flush_client ops slot = slot"
  by (simp add: flush_client_def)

lemma flush_client_wf: "slot_wf slot \<Longrightarrow> slot_wf (flush_client ops slot)"
  using flush_client_step(1)[of slot ops] by (cases "flush_active slot") simp_all

text \<open>The work left in a slot: no pass makes it larger, and a pass over an active slot makes it smaller.\<close>

definition flush_work :: "('c, 'b) client_slot \<Rightarrow> nat" where
  "flush_work slot = (if flush_active slot then slot_space slot else 0)"

lemma flush_work_decreases:
  assumes "slot_wf slot"
  shows "flush_work (flush_client ops slot) \<le> flush_work slot"
    "flush_active slot \<Longrightarrow> flush_work (flush_client ops slot) < flush_work slot"
proof -
  show "flush_active slot \<Longrightarrow> flush_work (flush_client ops slot) < flush_work slot"
    using flush_client_step(2)[OF assms, of ops]
    by (fastforce simp: flush_work_def slot_space_def flush_active_def split: option.splits)
  then show "flush_work (flush_client ops slot) \<le> flush_work slot"
    by (cases "flush_active slot") (auto simp: flush_client_def)
qed

lemma sum_list_flush_work:
  assumes "\<forall>slot \<in> set slots. slot_wf slot" "\<exists>slot \<in> set slots. flush_active slot"
  shows "sum_list (map flush_work (map (flush_client ops) slots)) < sum_list (map flush_work slots)"
  using assms
proof (induction slots)
  case (Cons slot slots)
  have le: "sum_list (map flush_work (map (flush_client ops) slots)) \<le> sum_list (map flush_work slots)"
    unfolding map_map o_def using Cons.prems(1) by (intro sum_list_mono) (simp add: flush_work_decreases)
  show ?case
  proof (cases "flush_active slot")
    case True
    then show ?thesis using flush_work_decreases(2)[of slot ops] le Cons.prems(1) by simp
  next
    case False
    then have "sum_list (map flush_work (map (flush_client ops) slots)) < sum_list (map flush_work slots)"
      using Cons by auto
    then show ?thesis using flush_work_decreases(1)[of slot ops] Cons.prems(1) by simp
  qed
qed simp

lemma flush_idle: "\<not> flush_active slot \<Longrightarrow> (flush_client ops ^^ k) slot = slot"
  by (induction k) simp_all

text \<open>The loop ends, and what it does to each client is what flushing that client alone does.\<close>

lemma flush_loop_result:
  assumes "\<forall>slot \<in> set slots. slot_wf slot"
  shows "\<exists>k. flush_loop ops slots = Some (map (flush_client ops ^^ k) slots) \<and>
    (\<forall>slot \<in> set slots. \<not> flush_active ((flush_client ops ^^ k) slot))"
  using assms
proof (induction "sum_list (map flush_work slots)" arbitrary: slots rule: less_induct)
  case less
  show ?case
  proof (cases "\<exists>slot \<in> set slots. flush_active slot")
    case True
    let ?slots = "map (flush_client ops) slots"
    have "\<forall>slot \<in> set ?slots. slot_wf slot" using less.prems by (simp add: flush_client_wf)
    then obtain k where "flush_loop ops ?slots = Some (map (flush_client ops ^^ k) ?slots)"
        "\<forall>slot \<in> set ?slots. \<not> flush_active ((flush_client ops ^^ k) slot)"
      using less.hyps[OF sum_list_flush_work[OF less.prems True]] by blast
    then show ?thesis using True
      by (intro exI[of _ "Suc k"]) (simp add: flush_loop.simps[of ops slots] funpow_Suc_right o_def del: funpow.simps)
  next
    case False
    then show ?thesis by (intro exI[of _ 0]) (simp add: flush_loop.simps[of ops slots])
  qed
qed

text \<open>What flushing one client does to its child.\<close>

lemma flush_client_child:
  assumes "db_wf b" "db_io_mode b \<noteq> Io_read" "\<not> db_finished b" "\<not> flush_active ((flush_client ops ^^ k) (Some (c, b)))"
  shows "\<exists>b'. (flush_client ops ^^ k) (Some (c, b)) = Some (write_blocks ops (pending_blocks b) c, b')"
  using assms
proof (induction k arbitrary: c b)
  case 0
  then show ?case by (simp add: flush_active_def pending_blocks_def)
next
  case (Suc k)
  show ?case
  proof (cases "db_read_space b = 0")
    case True
    then show ?thesis using flush_idle[of "Some (c, b)"] by (simp add: flush_active_def pending_blocks_def del: funpow.simps)
  next
    case False
    define c' where "c' = ch_write ops (db_sbufs b ! db_readptr b) c"
    define b' where "b' = advance_read_pointer (set_finished (ch_finished ops c') b)"
    have active: "flush_active (Some (c, b))" using Suc.prems False by (simp add: flush_active_def)
    then have step: "flush_client ops (Some (c, b)) = Some (c', b')"
      by (simp add: flush_client_def c'_def b'_def Let_def)
    note adv = read_space_advance[OF Suc.prems(1)]
    have p: "pending_blocks b = db_sbufs b ! db_readptr b # pending_blocks (advance_read_pointer b)"
      using adv(3) False by simp
    show ?thesis
    proof (cases "ch_finished ops c'")
      case True
      then have "\<not> flush_active (Some (c', b'))"
        by (simp add: flush_active_def b'_def set_finished_def advance_read_pointer_def)
      then show ?thesis
        using True step flush_idle[of "Some (c', b')" k ops] p
        by (simp add: funpow_Suc_right c'_def Let_def del: funpow.simps)
    next
      case f: False
      then have b': "b' = advance_read_pointer b" by (simp add: b'_def set_finished_def)
      have "db_wf b'" "db_io_mode b' \<noteq> Io_read" "\<not> db_finished b'"
        using adv(2) False Suc.prems b' by (simp_all add: advance_read_pointer_def)
      moreover have "\<not> flush_active ((flush_client ops ^^ k) (Some (c', b')))"
        using Suc.prems(4) step by (simp add: funpow_Suc_right del: funpow.simps)
      ultimately obtain b'' where
        "(flush_client ops ^^ k) (Some (c', b')) = Some (write_blocks ops (pending_blocks b') c', b'')"
        using Suc.IH by blast
      then show ?thesis
        using step p f b' by (simp add: funpow_Suc_right c'_def Let_def del: funpow.simps)
    qed
  qed
qed

subsection \<open>What the server promises\<close>

definition slots_wf :: "('c, 'b) db_server \<Rightarrow> bool" where
  "slots_wf sv \<longleftrightarrow> (\<forall>slot \<in> set (sv_clients sv). slot_wf slot)"

text \<open>
  C13. Flushing ends, however the clients' buffers are filled, and writes to the audio object of
  every unfinished output client exactly the blocks that were waiting in its buffer, in order, until
  the object is finished; the buffers are reset.
\<close>

theorem flush_writes_everything:
  assumes "slots_wf sv"
  shows "\<exists>sv'. db_server_flush ops sv = Some sv' \<and> length (sv_clients sv') = length (sv_clients sv) \<and>
    (\<forall>i c b. i < length (sv_clients sv) \<and> sv_clients sv ! i = Some (c, b) \<and>
        \<not> db_finished b \<and> db_io_mode b \<noteq> Io_read \<longrightarrow>
      (\<exists>b'. sv_clients sv' ! i = Some (write_blocks ops (pending_blocks b) c, b') \<and> db_read_space b' = 0))"
proof -
  obtain k where k: "flush_loop ops (sv_clients sv) = Some (map (flush_client ops ^^ k) (sv_clients sv))"
      "\<forall>slot \<in> set (sv_clients sv). \<not> flush_active ((flush_client ops ^^ k) slot)"
    using flush_loop_result[of "sv_clients sv" ops] assms by (auto simp: slots_wf_def)
  define sv' where "sv' = sv\<lparr>sv_clients := map (map_option (\<lambda>(c, b). (c, db_reset b)))
      (map (flush_client ops ^^ k) (sv_clients sv))\<rparr>"
  have "db_server_flush ops sv = Some sv'" by (simp add: db_server_flush_def k(1) sv'_def)
  moreover have "\<exists>b'. sv_clients sv' ! i = Some (write_blocks ops (pending_blocks b) c, b') \<and> db_read_space b' = 0"
    if i: "i < length (sv_clients sv)" "sv_clients sv ! i = Some (c, b)" "\<not> db_finished b" "db_io_mode b \<noteq> Io_read"
    for i c b
  proof -
    have mem: "Some (c, b) \<in> set (sv_clients sv)" using i(1,2) nth_mem by metis
    then have "db_wf b" using assms by (fastforce simp: slots_wf_def slot_wf_def)
    then obtain b' where "(flush_client ops ^^ k) (Some (c, b)) = Some (write_blocks ops (pending_blocks b) c, b')"
      using flush_client_child[of b k ops c] i k(2) mem by blast
    then show ?thesis
      using i by (simp add: sv'_def db_reset_def db_read_space_def ring_read_space_def)
  qed
  moreover have "length (sv_clients sv') = length (sv_clients sv)" by (simp add: sv'_def)
  ultimately show ?thesis by (intro exI[of _ sv'] conjI allI impI) blast+
qed

text \<open>A child that collects what is written to it.\<close>

definition list_child :: "('b list, 'b) child_ops" where
  "list_child = \<lparr>ch_finished = \<lambda>_. False, ch_read = \<lambda>b c. (c, b), ch_write = \<lambda>b c. c @ [b]\<rparr>"

definition example_server :: "(int list, int) db_server" where
  "example_server = db_server_create\<lparr>sv_clients := [None, Some ([], \<lparr>db_sbufs = [7, 8, 9, 10],
     db_readptr = 3, db_writeptr = 1, db_finished = False, db_io_mode = Io_write\<rparr>)]\<rparr>"

lemma flush_writes_everything_witness:
  "\<exists>sv' b'. db_server_flush list_child example_server = Some sv' \<and> sv_clients sv' ! 1 = Some ([10, 7], b')"
proof -
  have wf: "slots_wf example_server"
    by (simp add: slots_wf_def example_server_def slot_wf_def db_wf_def db_server_create_def)
  have blocks: "pending_blocks \<lparr>db_sbufs = [7, 8, 9, 10], db_readptr = 3, db_writeptr = 1, db_finished = False,
      db_io_mode = Io_write\<rparr> = [10, 7 :: int]"
    by code_simp
  show ?thesis
    using flush_writes_everything[OF wf, of list_child] blocks
    by (fastforce simp: example_server_def db_server_create_def list_child_def nth_Cons)
qed

definition server_map_ok :: "('c, 'b) db_server \<Rightarrow> bool" where
  "server_map_ok sv \<longleftrightarrow> (\<forall>a i. sv_client_map sv a = Some i \<longrightarrow> i < length (sv_clients sv)) \<and>
     inj_on (sv_client_map sv) (dom (sv_client_map sv))"

lemma server_map_ok_ops:
  "server_map_ok db_server_create"
  "server_map_ok sv \<Longrightarrow> server_map_ok (register_client a c blank m sv)"
  "server_map_ok sv \<Longrightarrow> server_map_ok (unregister_client a sv)"
proof -
  show "server_map_ok db_server_create" by (simp add: server_map_ok_def db_server_create_def)
  assume ok: "server_map_ok sv"
  have "sv_client_map sv x \<noteq> Some (length (sv_clients sv))" for x
    using ok by (auto simp: server_map_ok_def)
  then show "server_map_ok (register_client a c blank m sv)"
    using ok by (auto simp: server_map_ok_def register_client_def less_Suc_eq inj_on_def dom_def)
  show "server_map_ok (unregister_client a sv)"
    using ok by (auto simp: server_map_ok_def unregister_client_def split: option.splits)
qed

text \<open>
  \<open>get_client_buffer\<close> gives a newly registered object its own empty buffer, gives every other
  object what it had, gives null after \<open>unregister_client\<close>, which leaves the other objects' buffers
  alone, and never looks outside the table.
\<close>

theorem client_buffer_lookup:
  assumes "server_map_ok sv"
  shows "get_client_buffer a (register_client a c blank m sv) =
      Inr (Some (db_buffer_create (sv_buffercount sv) blank m)) \<and>
    get_client_buffer a (unregister_client a sv) = Inr None \<and>
    (\<forall>a'. a' \<noteq> a \<longrightarrow> get_client_buffer a' (register_client a c blank m sv) = get_client_buffer a' sv \<and>
                     get_client_buffer a' (unregister_client a sv) = get_client_buffer a' sv) \<and>
    is_ok (get_client_buffer a sv) \<and>
    server_map_ok (register_client a c blank m sv) \<and> server_map_ok (unregister_client a sv)"
proof (intro conjI allI impI)
  note ok = assms[unfolded server_map_ok_def]
  show "get_client_buffer a (register_client a c blank m sv) =
      Inr (Some (db_buffer_create (sv_buffercount sv) blank m))"
    by (simp add: get_client_buffer_def register_client_def)
  show "get_client_buffer a (unregister_client a sv) = Inr None"
    using ok by (auto simp: get_client_buffer_def unregister_client_def split: option.splits)
  show "is_ok (get_client_buffer a sv)"
    using ok by (auto simp: get_client_buffer_def split: option.splits)
  have less: "i < length (sv_clients sv)" if "sv_client_map sv a' = Some i" for a' i
    using ok that by blast
  fix a' assume "a' \<noteq> a"
  then show "get_client_buffer a' (register_client a c blank m sv) = get_client_buffer a' sv"
    by (auto simp: get_client_buffer_def register_client_def nth_append less_Suc_eq split: option.splits dest: less)
  have "sv_client_map sv a' \<noteq> sv_client_map sv a" if "sv_client_map sv a' \<noteq> None" "sv_client_map sv a \<noteq> None"
    using ok that \<open>a' \<noteq> a\<close> by (metis domIff inj_onD)
  then show "get_client_buffer a' (unregister_client a sv) = get_client_buffer a' sv"
    using ok by (auto simp: get_client_buffer_def unregister_client_def nth_list_update split: option.splits)
qed (rule server_map_ok_ops(2,3)[OF assms])+

lemma client_buffer_lookup_witness:
  "get_client_buffer 5 (register_client 5 () (3::int) Io_read db_server_create) = Inr (Some (db_buffer_create 32 (3::int) Io_read))"
  using client_buffer_lookup[OF server_map_ok_ops(1), of 5 "()" "3::int" Io_read] by (simp add: db_server_create_def)

end
