(* ===== verification/Db_Client.thy ===== *)
theory Db_Client
  imports Db_Server Sample_Buffer_Ops Audio_Position
begin

text \<open>
  The engine side of double buffering, \<open>audioio-db-client.cpp\<close>: reading from and writing to the
  ring of sample buffers, over-runs and under-runs, seeking. The ring holds the sample buffers of
  the theory \<open>Sample_Buffer\<close>. \<open>g\<close> is the content of fresh memory, \<open>chs\<close> the client's channel count.
\<close>

record db_client =
  dc_pos :: audio_position
  dc_finished :: bool
  dc_xruns :: nat
  dc_recursing :: bool

definition db_client_create :: "audio_position \<Rightarrow> db_client" where
  "db_client_create child_pos = \<lparr>dc_pos = child_pos, dc_finished = False, dc_xruns = 0, dc_recursing = False\<rparr>"

definition move_position :: "nat \<Rightarrow> db_client \<Rightarrow> db_client" where
  "move_position n cl = cl\<lparr>dc_pos := change_position_in_samples (int n) (dc_pos cl)\<rparr>"

text \<open>\<open>open\<close> prepares the buffers of the ring for the client's channels and buffer size.\<close>

definition db_client_open ::
  "(nat \<Rightarrow> nat \<Rightarrow> 's::zero) \<Rightarrow> nat \<Rightarrow> nat \<Rightarrow> bool \<Rightarrow> 's sample_buffer db_buffer \<Rightarrow> 's sample_buffer db_buffer result" where
  "db_client_open g chs buffersize reading b =
     bind_result
       (fold_result (\<lambda>n bufs. bind_result (number_of_channels g chs (bufs ! n)) (\<lambda>s1.
            bind_result (length_in_samples g buffersize s1) (\<lambda>s2. Inr (bufs[n := s2]))))
          [0..<length (db_sbufs b)] (db_sbufs b))
       (\<lambda>bufs. Inr (b\<lparr>db_sbufs := bufs, db_io_mode := (if reading then Io_read else Io_write)\<rparr>))"

definition db_client_read_buffer ::
  "(nat \<Rightarrow> nat \<Rightarrow> 's::zero) \<Rightarrow> nat \<Rightarrow> 's sample_buffer \<Rightarrow> db_client \<Rightarrow> 's sample_buffer db_buffer \<Rightarrow>
     ('s sample_buffer \<times> db_client \<times> 's sample_buffer db_buffer) result" where
  "db_client_read_buffer g chs sbuf cl b =
     (if db_read_space b > 0
      then bind_result (copy_all_content g (db_sbufs b ! db_readptr b) sbuf) (\<lambda>sbuf'.
             Inr (sbuf', move_position (sb_buffersize sbuf') cl, advance_read_pointer b))
      else bind_result (number_of_channels g chs sbuf) (\<lambda>sbuf1.
             let cl' = (if db_finished b then cl\<lparr>dc_finished := True\<rparr> else cl\<lparr>dc_xruns := dc_xruns cl + 1\<rparr>)
             in bind_result (length_in_samples g 0 sbuf1) (\<lambda>sbuf2. Inr (sbuf2, cl', b))))"

definition db_client_store ::
  "(nat \<Rightarrow> nat \<Rightarrow> 's::zero) \<Rightarrow> nat \<Rightarrow> 's sample_buffer \<Rightarrow> db_client \<Rightarrow> 's sample_buffer db_buffer \<Rightarrow>
     (db_client \<times> 's sample_buffer db_buffer) result" where
  "db_client_store g chs sbuf cl b =
     bind_result (copy_all_content g sbuf (db_sbufs b ! db_writeptr b)) (\<lambda>target1.
     bind_result (number_of_channels g chs target1) (\<lambda>target2.
       let cl1 = move_position (sb_buffersize sbuf) cl
       in Inr (cl1\<lparr>dc_pos := extend_position (dc_pos cl1)\<rparr>,
               advance_write_pointer (b\<lparr>db_sbufs := (db_sbufs b)[db_writeptr b := target2]\<rparr>))))"

text \<open>
  Seeking: \<open>child_seek\<close> is where the child ends up. \<open>AUDIO_IO::seek_position(res)\<close> returns the
  position, which the caller stores.
\<close>

definition db_client_seek ::
  "bool \<Rightarrow> int \<Rightarrow> (int \<Rightarrow> int) \<Rightarrow> int \<Rightarrow> db_client \<Rightarrow> 'b db_buffer \<Rightarrow> int \<times> db_client \<times> 'b db_buffer" where
  "db_client_seek supports child_pos child_seek pos cl b =
     (if supports then (child_seek pos, cl\<lparr>dc_finished := False\<rparr>, db_reset b)
      else (child_pos, cl, b))"

text \<open>
  \<open>waited\<close> is the ring after \<open>wait_for_full\<close>, and \<open>seek\<close> the call of \<open>seek_position\<close> that restarts
  the server.
\<close>

definition db_client_write_buffer ::
  "(nat \<Rightarrow> nat \<Rightarrow> 's::zero) \<Rightarrow> nat \<Rightarrow> ('s sample_buffer db_buffer \<Rightarrow> 's sample_buffer db_buffer) \<Rightarrow>
     (int \<Rightarrow> db_client \<Rightarrow> 's sample_buffer db_buffer \<Rightarrow> int \<times> db_client \<times> 's sample_buffer db_buffer) \<Rightarrow>
     's sample_buffer \<Rightarrow> db_client \<Rightarrow> 's sample_buffer db_buffer \<Rightarrow>
     (db_client \<times> 's sample_buffer db_buffer) result" where
  "db_client_write_buffer g chs waited seek sbuf cl b =
     (if db_write_space b > 0 then db_client_store g chs sbuf cl b
      else if db_finished b then Inr (cl\<lparr>dc_finished := True\<rparr>, b)
      else let cl1 = cl\<lparr>dc_xruns := dc_xruns cl + 1\<rparr>; b1 = waited b in
        if \<not> dc_recursing cl1 \<and> db_write_space b1 > 0
        then bind_result (db_client_store g chs sbuf (cl1\<lparr>dc_recursing := True\<rparr>) b1)
               (\<lambda>(cl2, b2). Inr (cl2\<lparr>dc_recursing := False\<rparr>, b2))
        else (case seek (ap_position (dc_pos cl1)) cl1 b1 of (_, cl2, b2) \<Rightarrow> Inr (cl2, b2)))"

definition db_client_start_io ::
  "bool \<Rightarrow> int \<Rightarrow> db_client \<Rightarrow> 'b db_buffer \<Rightarrow> db_client \<times> 'b db_buffer" where
  "db_client_start_io supports child_pos cl b =
     (if \<not> supports \<and> ap_position (dc_pos cl) \<noteq> 0
      then (cl\<lparr>dc_pos := set_position_in_samples child_pos (dc_pos cl)\<rparr>, db_reset b)
      else (cl, b))"

subsection \<open>What a client does to the ring\<close>

definition ring_wf :: "'s sample_buffer db_buffer \<Rightarrow> bool" where
  "ring_wf b \<longleftrightarrow> db_wf b \<and> (\<forall>x \<in> set (db_sbufs b). sb_wf x)"

definition pending_audio :: "'s sample_buffer db_buffer \<Rightarrow> 's audio list" where
  "pending_audio b = map sb_audio (pending_blocks b)"

text \<open>
  A read with data in the ring gives the engine the oldest block, takes it from the ring and
  moves the position by its length; with no data it gives an empty buffer with the client's
  channels, and ends the stream if the server has finished, or counts an under-run.
\<close>

theorem client_read_buffer:
  assumes "ring_wf b" "sb_wf sbuf"
  shows "\<exists>sbuf' cl' b'. db_client_read_buffer g chs sbuf cl b = Inr (sbuf', cl', b') \<and> ring_wf b' \<and> sb_wf sbuf' \<and>
    (case pending_audio b of
       a # as \<Rightarrow> sb_audio sbuf' = a \<and> pending_audio b' = as \<and> cl' = move_position (fst a) cl
     | [] \<Rightarrow> fst (sb_audio sbuf') = 0 \<and> sb_channel_count sbuf' = chs \<and> b' = b \<and>
         cl' = (if db_finished b then cl\<lparr>dc_finished := True\<rparr> else cl\<lparr>dc_xruns := dc_xruns cl + 1\<rparr>))"
proof (cases "db_read_space b > 0")
  case True
  let ?x = "db_sbufs b ! db_readptr b"
  have b: "db_wf b" using assms(1) by (simp add: ring_wf_def)
  then have "?x \<in> set (db_sbufs b)" by (simp add: db_wf_def)
  then have "sb_wf ?x" using assms(1) by (simp add: ring_wf_def)
  then obtain sbuf' where s: "copy_all_content g ?x sbuf = Inr sbuf'" "sb_wf sbuf'" "sb_audio sbuf' = sb_audio ?x"
    using copy_all_content_ok[OF assms(2)] by blast
  have "ring_wf (advance_read_pointer b)"
    using read_space_advance(2)[OF b True] assms(1) by (simp add: ring_wf_def advance_read_pointer_def)
  moreover have "pending_audio b = sb_audio ?x # pending_audio (advance_read_pointer b)"
    unfolding pending_audio_def by (subst read_space_advance(3)[OF b True]) simp
  moreover have "sb_buffersize sbuf' = fst (sb_audio ?x)"
    using s(3) by (metis sb_audio_length)
  ultimately show ?thesis
    using True s by (simp add: db_client_read_buffer_def)
next
  case False
  obtain s1 where s1: "number_of_channels g chs sbuf = Inr s1" "sb_wf s1"
    using number_of_channels_refines[OF assms(2)] by (rule refinesE)
  obtain s2 where s2: "length_in_samples g 0 s1 = Inr s2" "sb_wf s2" "sb_audio s2 = audio_resize 0 (sb_audio s1)"
    using length_in_samples_refines[OF s1(2)] by (rule refinesE)
  have "sb_channel_count s2 = sb_channel_count s1"
    using sb_audio_channels[OF s2(2)] sb_audio_channels[OF s1(2)] s2(3) by simp
  then have "sb_channel_count s2 = chs" "sb_buffersize s2 = 0"
    using number_of_channels_reserved(3)[OF s1(1)] s2(3) by (simp_all flip: sb_audio_length)
  moreover have "pending_audio b = []" using False by (simp add: pending_audio_def pending_blocks_def)
  ultimately show ?thesis
    using False s1 s2 assms(1) by (simp add: db_client_read_buffer_def Let_def)
qed

lemma pending_blocks_advance_write:
  assumes "db_wf b" "0 < db_write_space b"
  shows "pending_blocks (advance_write_pointer (b\<lparr>db_sbufs := (db_sbufs b)[db_writeptr b := x]\<rparr>)) = pending_blocks b @ [x]"
proof -
  let ?n = "length (db_sbufs b)" and ?r = "db_readptr b"
  let ?b = "advance_write_pointer (b\<lparr>db_sbufs := (db_sbufs b)[db_writeptr b := x]\<rparr>)"
  have rw: "?r < ?n" "db_writeptr b < ?n" using assms(1) by (simp_all add: db_wf_def)
  obtain W where W: "?r \<le> W" "W - ?r < ?n" "W mod ?n = db_writeptr b"
    using ring_pointers[OF rw] .
  have r: "?r mod ?n = ?r" using rw by simp
  have sp: "db_read_space b = W - ?r"
    using ring_spaces[OF W(1,2)] by (simp add: db_read_space_def W(3) r)
  have "db_read_space ?b = db_read_space (advance_write_pointer b)"
    by (simp add: db_read_space_def advance_write_pointer_def)
  also have "\<dots> = db_read_space b + 1" using db_spaces_lemma[OF assms(1)] assms(2) by simp
  finally have sp': "db_read_space ?b = Suc (W - ?r)" using sp by simp
  have "(db_sbufs b)[db_writeptr b := x] ! ((?r + i) mod ?n) = db_sbufs b ! ((?r + i) mod ?n)" if "i < W - ?r" for i
  proof -
    have "(?r + i) mod ?n \<noteq> W mod ?n" using that W by (intro mod_neq) auto
    then show ?thesis using W(3) by simp
  qed
  moreover have "(db_sbufs b)[db_writeptr b := x] ! ((?r + (W - ?r)) mod ?n) = x"
    using W(1,3) rw by simp
  moreover have "db_sbufs ?b = (db_sbufs b)[db_writeptr b := x]" "db_readptr ?b = ?r"
    by (simp_all add: advance_write_pointer_def)
  ultimately show ?thesis unfolding pending_blocks_def sp sp' by simp
qed

text \<open>
  A write with room in the ring appends the block, with the client's channel count, to the
  blocks waiting for the disk and advances the position by its length, extending the length; a
  write into a full ring waits for the server once and then writes, and without room it restarts the
  server.
\<close>

theorem client_write_buffer:
  assumes "ring_wf b" "sb_wf sbuf" "0 < db_write_space b"
  shows "\<exists>cl' b'. db_client_write_buffer g chs waited seek sbuf cl b = Inr (cl', b') \<and> ring_wf b' \<and>
    pending_audio b' = pending_audio b @ [audio_set_channels chs (sb_audio sbuf)] \<and>
    ap_position (dc_pos cl') = ap_position (dc_pos cl) + int (sb_buffersize sbuf) \<and>
    ap_length (dc_pos cl') = max (ap_position (dc_pos cl')) (ap_length (dc_pos cl))"
proof -
  let ?x = "db_sbufs b ! db_writeptr b"
  have b: "db_wf b" using assms(1) by (simp add: ring_wf_def)
  then have "sb_wf ?x" using assms(1) by (simp add: ring_wf_def db_wf_def)
  then obtain t1 where t1: "copy_all_content g sbuf ?x = Inr t1" "sb_wf t1" "sb_audio t1 = sb_audio sbuf"
    using copy_all_content_ok[OF _ assms(2)] by blast
  obtain t2 where t2: "number_of_channels g chs t1 = Inr t2" "sb_wf t2" "sb_audio t2 = audio_set_channels chs (sb_audio t1)"
    using number_of_channels_refines[OF t1(2)] by (rule refinesE)
  let ?b = "b\<lparr>db_sbufs := (db_sbufs b)[db_writeptr b := t2]\<rparr>"
  have "db_wf (advance_write_pointer ?b)"
    using db_spaces_lemma[of ?b] b by (simp add: db_wf_def)
  then have "ring_wf (advance_write_pointer ?b)"
    using assms(1) t2(2) by (auto simp: ring_wf_def advance_write_pointer_def dest!: set_update_subset_insert[THEN subsetD])
  moreover have "pending_audio (advance_write_pointer ?b) = pending_audio b @ [audio_set_channels chs (sb_audio sbuf)]"
    using pending_blocks_advance_write[OF b assms(3), of t2] t2(3) t1(3) by (simp add: pending_audio_def)
  ultimately show ?thesis
    using assms(3) t1(1) t2(1)
    by (simp add: db_client_write_buffer_def db_client_store_def Let_def move_position_def extend_position_def
        change_position_in_samples_def)
qed

definition example_ring :: "int sample_buffer db_buffer" where
  "example_ring = \<lparr>db_sbufs = [example_buffer, example_buffer], db_readptr = 1, db_writeptr = 1,
     db_finished = False, db_io_mode = Io_write\<rparr>"

lemma example_ring_wf: "ring_wf example_ring"
  by (simp add: ring_wf_def example_ring_def db_wf_def example_buffer_wf)

lemma client_write_buffer_witness:
  "\<exists>cl' b'. db_client_write_buffer (\<lambda>_ _. 3) 1 id (\<lambda>p cl b. (p, cl, b)) example_buffer
       (db_client_create (audio_position_create 44100)) example_ring = Inr (cl', b') \<and>
     ap_position (dc_pos cl') = 4 \<and> ap_length (dc_pos cl') = 4"
  using client_write_buffer[OF example_ring_wf example_buffer_wf, where chs = 1 and g = "\<lambda>_ _. 3" and waited = id
      and seek = "\<lambda>p cl b. (p, cl, b)" and cl = "db_client_create (audio_position_create 44100)"]
  by (auto simp: example_ring_def example_buffer_def db_write_space_def ring_write_space_def db_client_create_def
      audio_position_create_def)

lemma client_read_buffer_witness:
  "\<exists>sbuf' cl' b'. db_client_read_buffer (\<lambda>_ _. 3) 2 example_buffer (db_client_create (audio_position_create 44100))
     example_ring = Inr (sbuf', cl', b') \<and> dc_xruns cl' = 1 \<and> sb_channel_count sbuf' = 2"
  using client_read_buffer[OF example_ring_wf example_buffer_wf, where chs = 2 and g = "\<lambda>_ _. 3"
      and cl = "db_client_create (audio_position_create 44100)"]
  by (auto simp: example_ring_def pending_audio_def pending_blocks_def db_read_space_def ring_read_space_def
      db_client_create_def)

end
