(* ===== verification/Chain.thy ===== *)
theory Chain
  imports Sample_Buffer_Ops Audio_Position
begin

text \<open>
  A chain of \<open>libecasound/eca-chain.cpp\<close>: its chain operators, the controllers that drive their
  parameters (\<open>generic-controller.cpp\<close>), the current selections, its connections and its position.
  Operators and controllers are heap objects: each carries its address, pointers are addresses, and
  a pointer to a deleted object is an address that no object of the chain has. What an operator or
  a controller source does is given by its class, the records \<open>op_class\<close> and \<open>source_class\<close>
  (\<open>op_set_srate\<close> is the identity for an operator that is not samplerate-aware).
\<close>

subsection \<open>State\<close>

record ('o, 'v, 's) op_class =
  op_number_of_params :: "'o \<Rightarrow> int"
  op_get_parameter :: "int \<Rightarrow> 'o \<Rightarrow> 'v"
  op_set_parameter :: "int \<Rightarrow> 'v \<Rightarrow> 'o \<Rightarrow> 'o"
  op_output_channels :: "nat \<Rightarrow> 'o \<Rightarrow> nat"
  op_init :: "'s sample_buffer \<Rightarrow> 'o \<Rightarrow> 'o"
  op_process :: "'s sample_buffer \<Rightarrow> 'o \<Rightarrow> ('o \<times> 's sample_buffer) result"
  op_release :: "'o \<Rightarrow> 'o"
  op_set_srate :: "int \<Rightarrow> 'o \<Rightarrow> 'o"

record ('c, 'v) source_class =
  src_value :: "rat \<Rightarrow> 'c \<Rightarrow> 'v \<times> 'c"
  src_init :: "'c \<Rightarrow> 'c"
  src_set_initial_value :: "'v \<Rightarrow> 'c \<Rightarrow> 'c"
  src_set_parameter :: "int \<Rightarrow> 'v \<Rightarrow> 'c \<Rightarrow> 'c"
  src_get_parameter :: "int \<Rightarrow> 'c \<Rightarrow> 'v"
  value_to_int :: "'v \<Rightarrow> int"
  value_of_int :: "int \<Rightarrow> 'v"

record 'o cop_container =
  cop_addr :: nat
  cop_obj :: 'o
  cop_bypassed :: bool

record ('c, 'v) generic_controller =
  gc_addr :: nat
  gc_target :: "nat option"
  gc_source :: 'c
  gc_param_id :: int
  gc_rangelow :: 'v
  gc_rangehigh :: 'v

record ('o, 'c, 'v) chain =
  ch_initialized :: bool
  ch_name :: string
  ch_muted :: bool
  ch_bypass :: bool
  ch_in_channels :: nat
  ch_out_channels :: nat
  ch_ops :: "'o cop_container list"
  ch_ctrls :: "('c, 'v) generic_controller list"
  ch_sel_ctrl_ptr :: "nat option"
  ch_sel_dynobj :: "nat option"
  ch_sel_op :: int
  ch_sel_op_param :: int
  ch_sel_ctrl :: int
  ch_sel_ctrl_param :: int
  ch_input :: int
  ch_output :: int
  ch_position :: audio_position

text \<open>The constructor; \<open>ic\<close> and \<open>oc\<close> are the uninitialised channel counts.\<close>

definition chain_create :: "nat \<Rightarrow> nat \<Rightarrow> int \<Rightarrow> ('o, 'c, 'v) chain" where
  "chain_create ic oc srate =
     \<lparr>ch_initialized = False, ch_name = '''', ch_muted = False, ch_bypass = False,
      ch_in_channels = ic, ch_out_channels = oc, ch_ops = [], ch_ctrls = [],
      ch_sel_ctrl_ptr = None, ch_sel_dynobj = None, ch_sel_op = 0, ch_sel_op_param = 0,
      ch_sel_ctrl = 0, ch_sel_ctrl_param = 0, ch_input = -1, ch_output = -1,
      ch_position = audio_position_create srate\<rparr>"

subsection \<open>Connections\<close>

definition chain_is_valid :: "('o, 'c, 'v) chain \<Rightarrow> bool" where
  "chain_is_valid ch \<longleftrightarrow> \<not> (ch_input ch = -1 \<or> ch_output ch = -1)"

definition connect_input :: "int \<Rightarrow> ('o, 'c, 'v) chain \<Rightarrow> ('o, 'c, 'v) chain" where
  "connect_input i ch = ch\<lparr>ch_input := i\<rparr>"

definition connect_output :: "int \<Rightarrow> ('o, 'c, 'v) chain \<Rightarrow> ('o, 'c, 'v) chain" where
  "connect_output i ch = ch\<lparr>ch_output := i\<rparr>"

definition disconnect_input :: "('o, 'c, 'v) chain \<Rightarrow> ('o, 'c, 'v) chain" where
  "disconnect_input ch = ch\<lparr>ch_input := -1, ch_initialized := False\<rparr>"

definition disconnect_output :: "('o, 'c, 'v) chain \<Rightarrow> ('o, 'c, 'v) chain" where
  "disconnect_output ch = ch\<lparr>ch_output := -1, ch_initialized := False\<rparr>"

definition input_removed :: "int \<Rightarrow> ('o, 'c, 'v) chain \<Rightarrow> ('o, 'c, 'v) chain" where
  "input_removed i ch =
     (if ch_input ch > i then ch\<lparr>ch_input := ch_input ch - 1\<rparr>
      else if ch_input ch = i then disconnect_input ch else ch)"

definition output_removed :: "int \<Rightarrow> ('o, 'c, 'v) chain \<Rightarrow> ('o, 'c, 'v) chain" where
  "output_removed i ch =
     (if ch_output ch > i then ch\<lparr>ch_output := ch_output ch - 1\<rparr>
      else if ch_output ch = i then disconnect_output ch else ch)"

subsection \<open>Chain operators\<close>

definition add_chain_operator ::
  "('o, 'v, 's) op_class \<Rightarrow> nat \<Rightarrow> 'o \<Rightarrow> ('o, 'c, 'v) chain \<Rightarrow> ('o, 'c, 'v) chain" where
  "add_chain_operator cls a obj ch =
     (let ops = ch_ops ch @ [\<lparr>cop_addr = a, cop_obj = op_set_srate cls (ap_srate (ch_position ch)) obj,
                              cop_bypassed = False\<rparr>]
      in ch\<lparr>ch_ops := ops, ch_sel_op := int (length ops), ch_initialized := False\<rparr>)"

definition valid_op_index :: "int \<Rightarrow> ('o, 'c, 'v) chain \<Rightarrow> bool" where
  "valid_op_index i ch \<longleftrightarrow> i > 0 \<and> i \<le> int (length (ch_ops ch))"

text \<open>
  The body of \<open>remove_chain_operator\<close> for the operator at position \<open>p\<close>: the controllers that target
  it are deleted (the loop restarts after each), and the selected controller is forgotten if it is
  one of them.
\<close>

definition delete_op :: "nat \<Rightarrow> ('o, 'c, 'v) chain \<Rightarrow> ('o, 'c, 'v) chain" where
  "delete_op p ch =
     (let a = cop_addr (ch_ops ch ! p);
          gone = filter (\<lambda>q. gc_target q = Some a) (ch_ctrls ch)
      in ch\<lparr>ch_sel_ctrl_ptr := (if \<exists>q \<in> set gone. ch_sel_ctrl_ptr ch = Some (gc_addr q) then None
                                else ch_sel_ctrl_ptr ch),
            ch_ctrls := filter (\<lambda>q. gc_target q \<noteq> Some a) (ch_ctrls ch),
            ch_ops := take p (ch_ops ch) @ drop (Suc p) (ch_ops ch)\<rparr>)"

text \<open>
  The loop over the operators, with the iterator as the index \<open>p\<close>: it is advanced also after an
  erasure, and an iterator past the end never meets \<open>end()\<close>.
\<close>

function (sequential) remove_op_loop ::
  "nat \<Rightarrow> int \<Rightarrow> nat \<Rightarrow> ('o, 'c, 'v) chain \<Rightarrow> ('o, 'c, 'v) chain result" where
  "remove_op_loop target op_index p ch =
     (if p = length (ch_ops ch) then Inr ch
      else if p > length (ch_ops ch) then Inl Undefined_behaviour
      else if cop_addr (ch_ops ch ! p) = target
      then (let ch1 = delete_op p ch in
            if op_index \<ge> ch_sel_op ch1 then Inr (ch1\<lparr>ch_sel_op := -1\<rparr>)
            else remove_op_loop target op_index (Suc p) ch1)
      else remove_op_loop target op_index (Suc p) ch)"
  by pat_completeness auto
termination
  by (relation "measure (\<lambda>(_, _, p, ch). Suc (length (ch_ops ch)) - p)") (auto simp: delete_op_def Let_def)

declare remove_op_loop.simps [simp del]

definition remove_chain_operator :: "int \<Rightarrow> ('o, 'c, 'v) chain \<Rightarrow> ('o, 'c, 'v) chain result" where
  "remove_chain_operator i ch =
     (let op_index = (if i < 0 then ch_sel_op ch else i) in
      if valid_op_index op_index ch
      then bind_result (remove_op_loop (cop_addr (ch_ops ch ! nat (op_index - 1))) op_index 0 ch)
             (\<lambda>ch1. Inr (ch1\<lparr>ch_initialized := False\<rparr>))
      else Inr ch)"

text \<open>The accesses through the selection are guarded by \<open>assert\<close>.\<close>

definition selected_op :: "('o, 'c, 'v) chain \<Rightarrow> 'o cop_container result" where
  "selected_op ch =
     (if valid_op_index (ch_sel_op ch) ch then Inr (ch_ops ch ! nat (ch_sel_op ch - 1))
      else Inl Assertion_failure)"

definition chain_operator_name :: "('o \<Rightarrow> string) \<Rightarrow> ('o, 'c, 'v) chain \<Rightarrow> string result" where
  "chain_operator_name cop_name ch = bind_result (selected_op ch) (\<lambda>c. Inr (cop_name (cop_obj c)))"

definition number_of_chain_operator_parameters :: "('o, 'v, 's) op_class \<Rightarrow> ('o, 'c, 'v) chain \<Rightarrow> int result" where
  "number_of_chain_operator_parameters cls ch =
     bind_result (selected_op ch) (\<lambda>c. Inr (op_number_of_params cls (cop_obj c)))"

definition number_of_chain_operator_parameters_at :: "('o, 'v, 's) op_class \<Rightarrow> int \<Rightarrow> ('o, 'c, 'v) chain \<Rightarrow> int" where
  "number_of_chain_operator_parameters_at cls i ch =
     (if valid_op_index i ch then op_number_of_params cls (cop_obj (ch_ops ch ! nat (i - 1))) else -1)"

definition update_op :: "nat \<Rightarrow> ('o \<Rightarrow> 'o) \<Rightarrow> ('o, 'c, 'v) chain \<Rightarrow> ('o, 'c, 'v) chain" where
  "update_op p f ch =
     ch\<lparr>ch_ops := (ch_ops ch)[p := (ch_ops ch ! p)\<lparr>cop_obj := f (cop_obj (ch_ops ch ! p))\<rparr>]\<rparr>"

definition chain_set_parameter ::
  "('o, 'v, 's) op_class \<Rightarrow> int \<Rightarrow> int \<Rightarrow> 'v \<Rightarrow> ('o, 'c, 'v) chain \<Rightarrow> ('o, 'c, 'v) chain" where
  "chain_set_parameter cls i param_index v ch =
     (let op_index = (if i < 0 then ch_sel_op ch else i);
          param = (if param_index < 0 then ch_sel_op_param ch else param_index)
      in if valid_op_index op_index ch
         then update_op (nat (op_index - 1)) (op_set_parameter cls param v) ch else ch)"

definition chain_get_parameter :: "('o, 'v::zero, 's) op_class \<Rightarrow> ('o, 'c, 'v) chain \<Rightarrow> 'v" where
  "chain_get_parameter cls ch =
     (if valid_op_index (ch_sel_op ch) ch
      then op_get_parameter cls (ch_sel_op_param ch) (cop_obj (ch_ops ch ! nat (ch_sel_op ch - 1))) else 0)"

definition tristate :: "int \<Rightarrow> bool \<Rightarrow> bool" where
  "tristate state b = (if state < 0 then \<not> b else state > 0)"

definition bypass_operator :: "int \<Rightarrow> int \<Rightarrow> ('o, 'c, 'v) chain \<Rightarrow> ('o, 'c, 'v) chain" where
  "bypass_operator i bypassed ch =
     (if valid_op_index i ch
      then let p = nat (i - 1); c = ch_ops ch ! p in
        ch\<lparr>ch_ops := (ch_ops ch)[p := c\<lparr>cop_bypassed := tristate bypassed (cop_bypassed c)\<rparr>]\<rparr>
      else ch)"

definition is_operator_bypassed :: "int \<Rightarrow> ('o, 'c, 'v) chain \<Rightarrow> bool" where
  "is_operator_bypassed i ch = (if valid_op_index i ch then cop_bypassed (ch_ops ch ! nat (i - 1)) else False)"

definition set_mute :: "int \<Rightarrow> ('o, 'c, 'v) chain \<Rightarrow> ('o, 'c, 'v) chain" where
  "set_mute state ch = ch\<lparr>ch_muted := tristate state (ch_muted ch)\<rparr>"

definition set_bypass :: "int \<Rightarrow> ('o, 'c, 'v) chain \<Rightarrow> ('o, 'c, 'v) chain" where
  "set_bypass state ch = ch\<lparr>ch_bypass := tristate state (ch_bypass ch)\<rparr>"

definition selected_chain_operator_as_target :: "('o, 'c, 'v) chain \<Rightarrow> ('o, 'c, 'v) chain result" where
  "selected_chain_operator_as_target ch =
     bind_result (selected_op ch) (\<lambda>c. Inr (ch\<lparr>ch_sel_dynobj := Some (cop_addr c)\<rparr>))"

definition select_chain_operator :: "int \<Rightarrow> ('o, 'c, 'v) chain \<Rightarrow> ('o, 'c, 'v) chain result" where
  "select_chain_operator i ch =
     (if valid_op_index i ch then selected_chain_operator_as_target (ch\<lparr>ch_sel_op := i\<rparr>) else Inr ch)"

definition select_chain_operator_parameter :: "int \<Rightarrow> ('o, 'c, 'v) chain \<Rightarrow> ('o, 'c, 'v) chain" where
  "select_chain_operator_parameter i ch = ch\<lparr>ch_sel_op_param := i\<rparr>"

definition chain_clear :: "('o, 'c, 'v) chain \<Rightarrow> ('o, 'c, 'v) chain" where
  "chain_clear ch = ch\<lparr>ch_ops := [], ch_ctrls := [], ch_initialized := False\<rparr>"

subsection \<open>Controllers\<close>

text \<open>The parameters of the object at an address: an operator or a controller of the chain.\<close>

definition ctrl_set_parameter ::
  "('c, 'v) source_class \<Rightarrow> int \<Rightarrow> 'v \<Rightarrow> ('c, 'v) generic_controller \<Rightarrow> ('c, 'v) generic_controller" where
  "ctrl_set_parameter src param v q =
     (if param = 1 then q\<lparr>gc_param_id := value_to_int src v\<rparr>
      else if param = 2 then q\<lparr>gc_rangelow := v\<rparr>
      else if param = 3 then q\<lparr>gc_rangehigh := v\<rparr>
      else q\<lparr>gc_source := src_set_parameter src (param - 3) v (gc_source q)\<rparr>)"

definition ctrl_get_parameter ::
  "('c, 'v) source_class \<Rightarrow> int \<Rightarrow> ('c, 'v) generic_controller \<Rightarrow> 'v" where
  "ctrl_get_parameter src param q =
     (if param = 1 then value_of_int src (gc_param_id q)
      else if param = 2 then gc_rangelow q
      else if param = 3 then gc_rangehigh q
      else src_get_parameter src (param - 3) (gc_source q))"

definition find_addr :: "('a \<Rightarrow> nat) \<Rightarrow> nat \<Rightarrow> 'a list \<Rightarrow> nat option" where
  "find_addr addr a xs = (let i = length (takeWhile (\<lambda>x. addr x \<noteq> a) xs) in if i < length xs then Some i else None)"

definition set_target_parameter ::
  "('o, 'v, 's) op_class \<Rightarrow> ('c, 'v) source_class \<Rightarrow> nat option \<Rightarrow> int \<Rightarrow> 'v \<Rightarrow>
     ('o, 'c, 'v) chain \<Rightarrow> ('o, 'c, 'v) chain result" where
  "set_target_parameter cls src ptr param v ch =
     (case ptr of None \<Rightarrow> Inl Undefined_behaviour
      | Some a \<Rightarrow>
         (case find_addr cop_addr a (ch_ops ch) of
            Some p \<Rightarrow> Inr (update_op p (op_set_parameter cls param v) ch)
          | None \<Rightarrow>
             (case find_addr gc_addr a (ch_ctrls ch) of
                Some p \<Rightarrow> Inr (ch\<lparr>ch_ctrls := (ch_ctrls ch)[p := ctrl_set_parameter src param v (ch_ctrls ch ! p)]\<rparr>)
              | None \<Rightarrow> Inl Undefined_behaviour)))"

definition get_target_parameter ::
  "('o, 'v, 's) op_class \<Rightarrow> ('c, 'v) source_class \<Rightarrow> nat option \<Rightarrow> int \<Rightarrow> ('o, 'c, 'v) chain \<Rightarrow> 'v result" where
  "get_target_parameter cls src ptr param ch =
     (case ptr of None \<Rightarrow> Inl Undefined_behaviour
      | Some a \<Rightarrow>
         (case find_addr cop_addr a (ch_ops ch) of
            Some p \<Rightarrow> Inr (op_get_parameter cls param (cop_obj (ch_ops ch ! p)))
          | None \<Rightarrow>
             (case find_addr gc_addr a (ch_ctrls ch) of
                Some p \<Rightarrow> Inr (ctrl_get_parameter src param (ch_ctrls ch ! p))
              | None \<Rightarrow> Inl Undefined_behaviour)))"

text \<open>
  \<open>add_controller\<close>: the target is the selected dynamic object; \<open>status()\<close>, which is logged, reads
  the target's name and parameter, so a deleted target is an error at once.
\<close>

definition add_controller ::
  "('o, 'v, 's) op_class \<Rightarrow> ('c, 'v) source_class \<Rightarrow> ('c, 'v) generic_controller \<Rightarrow>
     ('o, 'c, 'v) chain \<Rightarrow> ('o, 'c, 'v) chain result" where
  "add_controller cls src q ch =
     (let q1 = q\<lparr>gc_target := ch_sel_dynobj ch\<rparr> in
      bind_result
        (if gc_target q1 = None then Inr ()
         else bind_result (get_target_parameter cls src (gc_target q1) (gc_param_id q1) ch) (\<lambda>_. Inr ()))
        (\<lambda>_. let ctrls = ch_ctrls ch @ [q1] in
             Inr (ch\<lparr>ch_ctrls := ctrls, ch_sel_ctrl_ptr := Some (gc_addr q1), ch_sel_ctrl := int (length ctrls)\<rparr>)))"

definition select_controller :: "int \<Rightarrow> ('o, 'c, 'v) chain \<Rightarrow> ('o, 'c, 'v) chain" where
  "select_controller i ch =
     (if 1 \<le> i \<and> i \<le> int (length (ch_ctrls ch))
      then ch\<lparr>ch_sel_ctrl_ptr := Some (gc_addr (ch_ctrls ch ! nat (i - 1))), ch_sel_ctrl := i\<rparr>
      else ch\<lparr>ch_sel_ctrl_ptr := None, ch_sel_ctrl := 0\<rparr>)"

definition remove_controller :: "('o, 'c, 'v) chain \<Rightarrow> ('o, 'c, 'v) chain" where
  "remove_controller ch =
     (if 1 \<le> ch_sel_ctrl ch \<and> ch_sel_ctrl ch \<le> int (length (ch_ctrls ch))
      then let p = nat (ch_sel_ctrl ch - 1) in
        select_controller (-1) (ch\<lparr>ch_ctrls := take p (ch_ctrls ch) @ drop (Suc p) (ch_ctrls ch)\<rparr>)
      else ch)"

definition select_controller_parameter :: "int \<Rightarrow> ('o, 'c, 'v) chain \<Rightarrow> ('o, 'c, 'v) chain" where
  "select_controller_parameter i ch = ch\<lparr>ch_sel_ctrl_param := i\<rparr>"

definition selected_controller_as_target :: "('o, 'c, 'v) chain \<Rightarrow> ('o, 'c, 'v) chain" where
  "selected_controller_as_target ch = ch\<lparr>ch_sel_dynobj := ch_sel_ctrl_ptr ch\<rparr>"

definition set_controller_parameter ::
  "('c, 'v) source_class \<Rightarrow> int \<Rightarrow> int \<Rightarrow> 'v \<Rightarrow> ('o, 'c, 'v) chain \<Rightarrow> ('o, 'c, 'v) chain" where
  "set_controller_parameter src i param_index v ch =
     (let ctrl_index = (if i < 0 then ch_sel_ctrl ch else i);
          param = (if param_index < 0 then ch_sel_ctrl_param ch else param_index)
      in if 0 < ctrl_index \<and> ctrl_index \<le> int (length (ch_ctrls ch))
         then let p = nat (ctrl_index - 1) in
           ch\<lparr>ch_ctrls := (ch_ctrls ch)[p := ctrl_set_parameter src param v (ch_ctrls ch ! p)]\<rparr>
         else ch)"

text \<open>\<open>GENERIC_CONTROLLER::value\<close> of the controller at position \<open>n\<close>, and the update of all of them.\<close>

definition ctrl_value ::
  "('o, 'v::{plus,minus,times}, 's) op_class \<Rightarrow> ('c, 'v) source_class \<Rightarrow> rat \<Rightarrow> nat \<Rightarrow>
     ('o, 'c, 'v) chain \<Rightarrow> ('o, 'c, 'v) chain result" where
  "ctrl_value cls src pos n ch =
     (let q = ch_ctrls ch ! n in
      case src_value src pos (gc_source q) of (sv, source') \<Rightarrow>
        set_target_parameter cls src (gc_target q) (gc_param_id q)
          (gc_rangelow q + sv * (gc_rangehigh q - gc_rangelow q))
          (ch\<lparr>ch_ctrls := (ch_ctrls ch)[n := q\<lparr>gc_source := source'\<rparr>]\<rparr>))"

definition controller_update ::
  "('o, 'v::{plus,minus,times}, 's) op_class \<Rightarrow> ('c, 'v) source_class \<Rightarrow>
     ('o, 'c, 'v) chain \<Rightarrow> ('o, 'c, 'v) chain result" where
  "controller_update cls src ch =
     bind_result (position_in_seconds_exact (ch_position ch)) (\<lambda>pos.
       fold_result (ctrl_value cls src pos) [0..<length (ch_ctrls ch)] ch)"

subsection \<open>Processing\<close>

text \<open>\<open>refresh_parameters\<close>: every parameter of every operator is set to its own value. The
  number of parameters is the one before the loop.\<close>

definition refresh_op :: "('o, 'v, 's) op_class \<Rightarrow> 'o \<Rightarrow> 'o" where
  "refresh_op cls obj =
     fold (\<lambda>n o'. op_set_parameter cls (int n + 1) (op_get_parameter cls (int n + 1) o') o')
       [0..<nat (op_number_of_params cls obj)] obj"

definition refresh_parameters :: "('o, 'v, 's) op_class \<Rightarrow> ('o, 'c, 'v) chain \<Rightarrow> ('o, 'c, 'v) chain" where
  "refresh_parameters cls ch = ch\<lparr>ch_ops := map (\<lambda>c. c\<lparr>cop_obj := refresh_op cls (cop_obj c)\<rparr>) (ch_ops ch)\<rparr>"

text \<open>The loop of \<open>init\<close> over the operators: \<open>next\<close> channels carry audio into operator \<open>c\<close>.\<close>

fun init_ops ::
  "('o, 'v, 's::zero) op_class \<Rightarrow> (nat \<Rightarrow> nat \<Rightarrow> 's) \<Rightarrow> nat \<Rightarrow> 'o cop_container list \<Rightarrow> 's sample_buffer \<Rightarrow>
     ('o cop_container list \<times> 's sample_buffer) result" where
  "init_ops cls g chs [] slot = Inr ([], slot)"
| "init_ops cls g chs (c # cs) slot =
     (let out_ch = op_output_channels cls chs (cop_obj c);
          room = (if out_ch > chs then out_ch else chs)
      in bind_result (number_of_channels g room slot) (\<lambda>slot1.
         bind_result (init_ops cls g out_ch cs slot1) (\<lambda>(cs', slot2).
           Inr (c\<lparr>cop_obj := op_init cls slot1 (cop_obj c)\<rparr> # cs', slot2))))"

definition ctrl_init ::
  "('o, 'v::{minus,divide}, 's) op_class \<Rightarrow> ('c, 'v) source_class \<Rightarrow> nat \<Rightarrow>
     ('o, 'c, 'v) chain \<Rightarrow> ('o, 'c, 'v) chain result" where
  "ctrl_init cls src n ch =
     (let q = ch_ctrls ch ! n; source1 = src_init src (gc_source q) in
      bind_result (get_target_parameter cls src (gc_target q) (gc_param_id q) ch) (\<lambda>v.
        Inr (ch\<lparr>ch_ctrls := (ch_ctrls ch)[n := q\<lparr>gc_source :=
          src_set_initial_value src ((v - gc_rangelow q) div (gc_rangehigh q - gc_rangelow q)) source1\<rparr>]\<rparr>)))"

definition chain_init ::
  "('o, 'v::{minus,divide}, 's::zero) op_class \<Rightarrow> ('c, 'v) source_class \<Rightarrow> (nat \<Rightarrow> nat \<Rightarrow> 's) \<Rightarrow> nat \<Rightarrow> nat \<Rightarrow>
     ('o, 'c, 'v) chain \<Rightarrow> 's sample_buffer \<Rightarrow> (('o, 'c, 'v) chain \<times> 's sample_buffer) result" where
  "chain_init cls src g in_channels out_channels ch slot =
     (let ch1 = ch\<lparr>ch_in_channels := (if in_channels \<noteq> 0 then in_channels else ch_in_channels ch),
                   ch_out_channels := (if out_channels \<noteq> 0 then out_channels else ch_out_channels ch)\<rparr>
      in bind_result (init_ops cls g (ch_in_channels ch1) (ch_ops ch1) slot) (\<lambda>(ops, slot1).
         bind_result (fold_result (ctrl_init cls src) [0..<length (ch_ctrls ch1)] (ch1\<lparr>ch_ops := ops\<rparr>)) (\<lambda>ch2.
           Inr ((refresh_parameters cls ch2)\<lparr>ch_initialized := True\<rparr>, slot1))))"

definition chain_release :: "('o, 'v, 's) op_class \<Rightarrow> ('o, 'c, 'v) chain \<Rightarrow> ('o, 'c, 'v) chain" where
  "chain_release cls ch =
     ch\<lparr>ch_ops := map (\<lambda>c. c\<lparr>cop_obj := op_release cls (cop_obj c)\<rparr>) (ch_ops ch), ch_initialized := False\<rparr>"

definition disconnect_buffer :: "('o, 'v, 's) op_class \<Rightarrow> ('o, 'c, 'v) chain \<Rightarrow> ('o, 'c, 'v) chain" where
  "disconnect_buffer cls ch = chain_release cls (ch\<lparr>ch_initialized := False\<rparr>)"

fun process_ops ::
  "('o, 'v, 's::zero) op_class \<Rightarrow> (nat \<Rightarrow> nat \<Rightarrow> 's) \<Rightarrow> 'o cop_container list \<Rightarrow> 's sample_buffer \<Rightarrow>
     ('o cop_container list \<times> 's sample_buffer) result" where
  "process_ops cls g [] slot = Inr ([], slot)"
| "process_ops cls g (c # cs) slot =
     (if cop_bypassed c
      then bind_result (process_ops cls g cs slot) (\<lambda>(cs', slot'). Inr (c # cs', slot'))
      else let out_ch = op_output_channels cls (sb_channel_count slot) (cop_obj c) in
        bind_result (if out_ch > sb_channel_count slot then number_of_channels g out_ch slot else Inr slot) (\<lambda>slot1.
        bind_result (op_process cls slot1 (cop_obj c)) (\<lambda>(obj', slot2).
        bind_result (process_ops cls g cs slot2) (\<lambda>(cs', slot3).
          Inr (c\<lparr>cop_obj := obj'\<rparr> # cs', slot3)))))"

definition chain_process ::
  "('o, 'v::{plus,minus,times}, 's::zero) op_class \<Rightarrow> ('c, 'v) source_class \<Rightarrow> (nat \<Rightarrow> nat \<Rightarrow> 's) \<Rightarrow>
     ('o, 'c, 'v) chain \<Rightarrow> 's sample_buffer \<Rightarrow> (('o, 'c, 'v) chain \<times> 's sample_buffer) result" where
  "chain_process cls src g ch slot =
     bind_result (controller_update cls src ch) (\<lambda>ch1.
     bind_result
       (if \<not> ch_muted ch1
        then (if \<not> ch_bypass ch1
              then bind_result (process_ops cls g (ch_ops ch1) slot)
                     (\<lambda>(ops, slot1). Inr (ch1\<lparr>ch_ops := ops\<rparr>, slot1))
              else Inr (ch1, slot))
        else bind_result (make_silent slot) (\<lambda>slot1. Inr (ch1, slot1)))
       (\<lambda>(ch2, slot2). Inr (ch2\<lparr>ch_position :=
          change_position_in_samples (int (sb_buffersize slot2)) (ch_position ch2)\<rparr>, slot2)))"

definition chain_set_samples_per_second ::
  "('o, 'v, 's) op_class \<Rightarrow> int \<Rightarrow> ('o, 'c, 'v) chain \<Rightarrow> ('o, 'c, 'v) chain" where
  "chain_set_samples_per_second cls v ch =
     ch\<lparr>ch_ops := map (\<lambda>c. c\<lparr>cop_obj := op_set_srate cls v (cop_obj c)\<rparr>) (ch_ops ch),
        ch_position := samplerate_aware_set v (ch_position ch)\<rparr>"

end
