(* ===== verification/Chain_Facts.thy ===== *)
theory Chain_Facts
  imports Chain
begin

text \<open>
  What a chain promises: its connections keep naming the same audio objects when another one is
  removed; removing an operator removes it and its controllers; the buffer has room for every
  operator; muted and bypassed processing. And what goes wrong: selections and targets that outlive
  what they name.
\<close>

subsection \<open>Connections\<close>

definition remove_nth :: "nat \<Rightarrow> 'a list \<Rightarrow> 'a list" where
  "remove_nth i xs = take i xs @ drop (Suc i) xs"

lemma length_remove_nth: "i < length xs \<Longrightarrow> length (remove_nth i xs) = length xs - 1"
  by (simp add: remove_nth_def)

lemma nth_remove_nth:
  "i < length xs \<Longrightarrow> k < length xs - 1 \<Longrightarrow> remove_nth i xs ! k = (if k < i then xs ! k else xs ! Suc k)"
  by (auto simp: remove_nth_def nth_append min_def)

lemma distinct_remove_nth: "distinct xs \<Longrightarrow> distinct (remove_nth i xs)"
  using set_take_disj_set_drop_if_distinct[of xs i "Suc i"] by (simp add: remove_nth_def)

text \<open>
  When an input object is taken out of the chainsetup's list, every chain that was connected to
  another object stays connected to that object, at its new index, and keeps its state; a chain
  connected to the removed one becomes disconnected and has to be initialised again. The same holds
  for outputs.
\<close>

theorem connections_follow_removal:
  assumes "i < length objs" "0 \<le> ch_input ch" "ch_input ch < int (length objs)"
    "0 \<le> ch_output ch" "ch_output ch < int (length objs)"
  shows "(if ch_input ch = int i
          then ch_input (input_removed (int i) ch) = -1 \<and> \<not> ch_initialized (input_removed (int i) ch)
          else remove_nth i objs ! nat (ch_input (input_removed (int i) ch)) = objs ! nat (ch_input ch) \<and>
               nat (ch_input (input_removed (int i) ch)) < length (remove_nth i objs) \<and>
               ch_initialized (input_removed (int i) ch) = ch_initialized ch) \<and>
         (if ch_output ch = int i
          then ch_output (output_removed (int i) ch) = -1 \<and> \<not> ch_initialized (output_removed (int i) ch)
          else remove_nth i objs ! nat (ch_output (output_removed (int i) ch)) = objs ! nat (ch_output ch) \<and>
               nat (ch_output (output_removed (int i) ch)) < length (remove_nth i objs) \<and>
               ch_initialized (output_removed (int i) ch) = ch_initialized ch)"
proof -
  have shift: "remove_nth i objs ! nat (if k > int i then k - 1 else k) = objs ! nat k \<and>
      nat (if k > int i then k - 1 else k) < length (remove_nth i objs)"
    if k: "0 \<le> k" "k < int (length objs)" "k \<noteq> int i" for k
  proof -
    obtain m where m: "k = int m" using k(1) by (rule nonneg_int_cases)
    show ?thesis
    proof (cases "i < m")
      case True
      then have "nat (k - 1) = m - 1" "Suc (m - 1) = m" "\<not> m - 1 < i" "m - 1 < length objs - 1"
        using m k(2) by auto
      then show ?thesis using k m True assms(1)
        by (simp add: nth_remove_nth length_remove_nth)
    next
      case False
      then show ?thesis using k m assms(1) by (simp add: nth_remove_nth length_remove_nth)
    qed
  qed
  show ?thesis
    using shift[of "ch_input ch"] shift[of "ch_output ch"] assms
    by (auto simp: input_removed_def output_removed_def disconnect_input_def disconnect_output_def)
qed

lemma connections_follow_removal_witness:
  "let ch = connect_output 2 (connect_input 0 (chain_create 0 0 44100 :: (unit, unit, int) chain)) in
     [''a'', ''c''] ! nat (ch_output (output_removed 1 ch)) = ''c''"
  using connections_follow_removal[of 1 "[''a'', ''b'', ''c'']"
      "connect_output 2 (connect_input 0 (chain_create 0 0 44100 :: (unit, unit, int) chain))"]
  by (simp add: connect_output_def connect_input_def chain_create_def remove_nth_def)

subsection \<open>Removing an operator\<close>

definition distinct_ops :: "('o, 'c, 'v) chain \<Rightarrow> bool" where
  "distinct_ops ch \<longleftrightarrow> distinct (map cop_addr (ch_ops ch))"

lemma delete_op_simps [simp]:
  "ch_ops (delete_op p ch) = remove_nth p (ch_ops ch)"
  "ch_ctrls (delete_op p ch) = filter (\<lambda>q. gc_target q \<noteq> Some (cop_addr (ch_ops ch ! p))) (ch_ctrls ch)"
  "ch_sel_op (delete_op p ch) = ch_sel_op ch" "ch_sel_dynobj (delete_op p ch) = ch_sel_dynobj ch"
  "ch_sel_ctrl (delete_op p ch) = ch_sel_ctrl ch"
  by (simp_all add: delete_op_def Let_def remove_nth_def)

text \<open>A loop that meets no operator with the address runs to the end and changes nothing.\<close>

lemma remove_op_loop_none:
  assumes "p \<le> length (ch_ops ch)" "\<And>k. p \<le> k \<Longrightarrow> k < length (ch_ops ch) \<Longrightarrow> cop_addr (ch_ops ch ! k) \<noteq> target"
  shows "remove_op_loop target i p ch = Inr ch"
  using assms
proof (induction "length (ch_ops ch) - p" arbitrary: p)
  case 0
  then show ?case by (subst remove_op_loop.simps) simp
next
  case (Suc n)
  then have "p < length (ch_ops ch)" "cop_addr (ch_ops ch ! p) \<noteq> target" by auto
  moreover have "remove_op_loop target i (Suc p) ch = Inr ch" using Suc by (intro Suc.hyps(1)) auto
  ultimately show ?case by (subst remove_op_loop.simps) simp
qed

lemma remove_op_loop_skip:
  assumes "p \<le> k" "k < length (ch_ops ch)" "\<And>j. p \<le> j \<Longrightarrow> j < k \<Longrightarrow> cop_addr (ch_ops ch ! j) \<noteq> target"
  shows "remove_op_loop target i p ch = remove_op_loop target i k ch"
  using assms
proof (induction "k - p" arbitrary: p)
  case (Suc n)
  then have "p < length (ch_ops ch)" "cop_addr (ch_ops ch ! p) \<noteq> target" by auto
  then have "remove_op_loop target i p ch = remove_op_loop target i (Suc p) ch"
    by (subst remove_op_loop.simps) simp
  also have "\<dots> = remove_op_loop target i k ch" using Suc by (intro Suc.hyps(1)) auto
  finally show ?case .
qed simp

lemma remove_op_loop_found:
  assumes "distinct_ops ch" "k < length (ch_ops ch)"
  shows "remove_op_loop (cop_addr (ch_ops ch ! k)) i 0 ch =
    (if i \<ge> ch_sel_op ch then Inr ((delete_op k ch)\<lparr>ch_sel_op := -1\<rparr>)
     else if Suc k = length (ch_ops ch) then Inl Undefined_behaviour
     else Inr (delete_op k ch))"
proof -
  let ?a = "cop_addr (ch_ops ch ! k)"
  have neq: "cop_addr (ch_ops ch ! j) \<noteq> ?a" if "j < length (ch_ops ch)" "j \<noteq> k" for j
    using assms that by (auto simp: distinct_ops_def distinct_conv_nth)
  have "remove_op_loop ?a i 0 ch = remove_op_loop ?a i k ch"
    by (rule remove_op_loop_skip) (use assms neq in auto)
  also have "\<dots> = (if i \<ge> ch_sel_op ch then Inr ((delete_op k ch)\<lparr>ch_sel_op := -1\<rparr>)
      else remove_op_loop ?a i (Suc k) (delete_op k ch))"
    using assms(2) by (subst remove_op_loop.simps) (simp add: Let_def)
  also have "remove_op_loop ?a i (Suc k) (delete_op k ch) =
      (if Suc k = length (ch_ops ch) then Inl Undefined_behaviour else Inr (delete_op k ch))"
  proof (cases "Suc k = length (ch_ops ch)")
    case True
    then have "length (ch_ops (delete_op k ch)) = k" using assms(2) by (simp add: length_remove_nth)
    then show ?thesis using True by (subst remove_op_loop.simps) (simp del: delete_op_simps)
  next
    case False
    have "remove_op_loop ?a i (Suc k) (delete_op k ch) = Inr (delete_op k ch)"
    proof (rule remove_op_loop_none)
      fix j assume j: "Suc k \<le> j" "j < length (ch_ops (delete_op k ch))"
      then have "Suc j < length (ch_ops ch)" using assms(2) by (simp add: length_remove_nth)
      then show "cop_addr (ch_ops (delete_op k ch) ! j) \<noteq> ?a"
        using j assms(2) neq[of "Suc j"] by (simp add: nth_remove_nth length_remove_nth)
    qed (use False assms(2) in \<open>simp add: length_remove_nth\<close>)
    then show ?thesis using False by simp
  qed
  finally show ?thesis .
qed

text \<open>
  C28. Removing operator \<open>i\<close> of a chain whose selection is one of its operators deletes exactly that
  operator and the controllers that target it, in place, and the chain has to be initialised again.
  A selection at or before \<open>i\<close> is cleared; a selection after \<open>i\<close> keeps its number, so it then means
  the next operator, or none if it was the last one.
\<close>

theorem remove_chain_operator_effect:
  assumes "distinct_ops ch" "valid_op_index i ch" "ch_sel_op ch \<le> int (length (ch_ops ch))"
  shows "\<exists>ch'. remove_chain_operator i ch = Inr ch' \<and> distinct_ops ch' \<and> \<not> ch_initialized ch' \<and>
    ch_ops ch' = remove_nth (nat (i - 1)) (ch_ops ch) \<and>
    ch_ctrls ch' = filter (\<lambda>q. gc_target q \<noteq> Some (cop_addr (ch_ops ch ! nat (i - 1)))) (ch_ctrls ch) \<and>
    ch_sel_op ch' = (if ch_sel_op ch \<le> i then -1 else ch_sel_op ch)"
proof -
  define k where "k = nat (i - 1)"
  have k: "k < length (ch_ops ch)" "i = int k + 1" "\<not> i < 0"
    using assms(2) by (auto simp: valid_op_index_def k_def)
  have "\<not> (ch_sel_op ch > i \<and> Suc k = length (ch_ops ch))" using assms(3) k by linarith
  then have loop: "remove_op_loop (cop_addr (ch_ops ch ! k)) i 0 ch =
      Inr (if ch_sel_op ch \<le> i then (delete_op k ch)\<lparr>ch_sel_op := -1\<rparr> else delete_op k ch)"
    using remove_op_loop_found[OF assms(1) k(1), of i] by auto
  have "distinct (map cop_addr (remove_nth k (ch_ops ch)))"
    using distinct_remove_nth[of "map cop_addr (ch_ops ch)" k] assms(1)
    by (simp add: distinct_ops_def remove_nth_def take_map drop_map)
  then show ?thesis
    using loop assms(2) k(3)
    by (auto simp: remove_chain_operator_def Let_def distinct_ops_def simp flip: k_def)
qed



text \<open>
  A selection that is left over after a removal breaks what is done next: with the selection on
  the last operator, removing an earlier one leaves it past the end, where asking for the selected
  operator's name fails an assertion; and removing the operator that is then last walks past the
  end of the operator list.
\<close>

theorem stale_selection:
  assumes "distinct_ops ch" "ch_sel_op ch = int (length (ch_ops ch))" "0 < i" "i < ch_sel_op ch"
    "2 < length (ch_ops ch)"
  shows "\<exists>ch'. remove_chain_operator i ch = Inr ch' \<and>
    chain_operator_name cop_name ch' = Inl Assertion_failure \<and>
    number_of_chain_operator_parameters cls ch' = Inl Assertion_failure \<and>
    remove_chain_operator (int (length (ch_ops ch'))) ch' = Inl Undefined_behaviour"
proof -
  have v: "valid_op_index i ch" using assms by (simp add: valid_op_index_def)
  then obtain ch' where ch': "remove_chain_operator i ch = Inr ch'" "distinct_ops ch'"
      "ch_ops ch' = remove_nth (nat (i - 1)) (ch_ops ch)" "ch_sel_op ch' = ch_sel_op ch"
    using remove_chain_operator_effect[OF assms(1) v] assms by (auto split: if_splits)
  have len: "length (ch_ops ch') = length (ch_ops ch) - 1"
    using ch'(3) assms v by (simp add: length_remove_nth valid_op_index_def)
  then have no: "\<not> valid_op_index (ch_sel_op ch') ch'"
    using ch'(4) assms by (simp add: valid_op_index_def)
  define k where "k = length (ch_ops ch') - 1"
  have k: "k < length (ch_ops ch')" "Suc k = length (ch_ops ch')" using len assms(5) by (simp_all add: k_def)
  have "remove_op_loop (cop_addr (ch_ops ch' ! k)) (int (length (ch_ops ch'))) 0 ch' = Inl Undefined_behaviour"
    using remove_op_loop_found[OF ch'(2) k(1), of "int (length (ch_ops ch'))"] k ch'(4) len assms(2,5) by auto
  moreover have "nat (int (length (ch_ops ch')) - 1) = k" using k by linarith
  moreover have "0 < length (ch_ops ch')" using k by linarith
  then have "valid_op_index (int (length (ch_ops ch'))) ch'" by (simp add: valid_op_index_def)
  ultimately have "remove_chain_operator (int (length (ch_ops ch'))) ch' = Inl Undefined_behaviour"
    by (simp add: remove_chain_operator_def Let_def)
  then show ?thesis
    using ch'(1) no
    by (simp add: chain_operator_name_def number_of_chain_operator_parameters_def selected_op_def)
qed

text \<open>A chain of three operators whose parameters are lists, with the last one selected.\<close>

definition list_ops :: "(int list, int, int) op_class" where
  "list_ops = \<lparr>op_number_of_params = \<lambda>ps. int (length ps), op_get_parameter = \<lambda>i ps. ps ! nat (i - 1),
     op_set_parameter = \<lambda>i v ps. ps[nat (i - 1) := v], op_output_channels = \<lambda>n ps. n + length ps,
     op_init = \<lambda>_ ps. ps, op_process = \<lambda>slot ps. bind_result (multiply_by (hd ps) slot) (\<lambda>slot'. Inr (ps, slot')),
     op_release = \<lambda>ps. ps, op_set_srate = \<lambda>_ ps. ps\<rparr>"

definition example_chain :: "(int list, unit, int) chain" where
  "example_chain = add_chain_operator list_ops 12 [4] (add_chain_operator list_ops 11 [3]
     (add_chain_operator list_ops 10 [2] (chain_create 1 1 44100)))"

lemma example_chain_ops:
  "distinct_ops example_chain" "ch_sel_op example_chain = 3" "length (ch_ops example_chain) = 3"
  "ch_ctrls example_chain = []" "ch_position example_chain = audio_position_create 44100"
  "\<not> ch_muted example_chain" "\<not> ch_bypass example_chain"
  by (simp_all add: example_chain_def add_chain_operator_def chain_create_def distinct_ops_def Let_def)

lemma remove_chain_operator_effect_witness:
  "\<exists>ch'. remove_chain_operator 2 example_chain = Inr ch' \<and> length (ch_ops ch') = 2 \<and> ch_sel_op ch' = 3"
  using remove_chain_operator_effect[OF example_chain_ops(1), of 2]
  by (auto simp: example_chain_ops valid_op_index_def length_remove_nth)

lemma stale_selection_witness:
  "\<exists>ch'. remove_chain_operator 1 example_chain = Inr ch' \<and>
     chain_operator_name (\<lambda>_. ''op'') ch' = Inl Assertion_failure"
  using stale_selection[OF example_chain_ops(1), of 1 "\<lambda>_. ''op''" list_ops]
  by (auto simp: example_chain_ops)

text \<open>
  The selected target also outlives the operator: a controller added after its target was removed
  reads a deleted object. And \<open>clear\<close> keeps every selection.
\<close>

lemma target_of_removed_operator:
  assumes "distinct_ops ch" "valid_op_index (ch_sel_op ch) ch"
    "selected_chain_operator_as_target ch = Inr ch1" "\<forall>q \<in> set (ch_ctrls ch). gc_addr q \<noteq> cop_addr (ch_ops ch ! nat (ch_sel_op ch - 1))"
  shows "\<exists>ch2. remove_chain_operator (-1) ch1 = Inr ch2 \<and> add_controller cls src q ch2 = Inl Undefined_behaviour"
proof -
  define k where "k = nat (ch_sel_op ch - 1)"
  have k: "k < length (ch_ops ch)" "ch_sel_op ch = int k + 1" using assms(2) by (auto simp: valid_op_index_def k_def)
  have ch1: "ch1 = ch\<lparr>ch_sel_dynobj := Some (cop_addr (ch_ops ch ! k))\<rparr>"
    using assms(2,3) by (simp add: selected_chain_operator_as_target_def selected_op_def k_def)
  define ch2 where "ch2 = (delete_op k ch1)\<lparr>ch_sel_op := -1, ch_initialized := False\<rparr>"
  have d: "distinct_ops ch1" using assms(1) by (simp add: ch1 distinct_ops_def)
  have v: "valid_op_index (ch_sel_op ch1) ch1" "nat (ch_sel_op ch1 - 1) = k" "k < length (ch_ops ch1)"
    using assms(2) k by (auto simp: ch1 valid_op_index_def)
  have "remove_chain_operator (-1) ch1 = Inr ch2"
    using remove_op_loop_found[OF d v(3), of "ch_sel_op ch1"] v(1,2)
    by (simp add: remove_chain_operator_def Let_def ch2_def)
  moreover have "find_addr cop_addr (cop_addr (ch_ops ch ! k)) (ch_ops ch2) = None"
  proof -
    have "cop_addr x \<noteq> cop_addr (ch_ops ch ! k)" if "x \<in> set (remove_nth k (ch_ops ch))" for x
    proof -
      from that obtain j where j: "j < length (ch_ops ch) - 1" "x = remove_nth k (ch_ops ch) ! j"
        using k(1) by (auto simp: in_set_conv_nth length_remove_nth)
      define m where "m = (if j < k then j else Suc j)"
      have "x = ch_ops ch ! m" "m \<noteq> k" "m < length (ch_ops ch)"
        using j k(1) by (auto simp: nth_remove_nth m_def)
      then show ?thesis using assms(1) k(1) by (auto simp: distinct_ops_def distinct_conv_nth)
    qed
    then have "takeWhile (\<lambda>x. cop_addr x \<noteq> cop_addr (ch_ops ch ! k)) (ch_ops ch2) = ch_ops ch2"
      by (simp add: takeWhile_eq_self_iff ch2_def ch1)
    then show ?thesis by (simp add: find_addr_def del: takeWhile_eq_all_conv)
  qed
  moreover have "find_addr gc_addr (cop_addr (ch_ops ch ! k)) (ch_ctrls ch2) = None"
  proof -
    have "takeWhile (\<lambda>x. gc_addr x \<noteq> cop_addr (ch_ops ch ! k)) (ch_ctrls ch2) = ch_ctrls ch2"
      using assms(4) by (simp add: takeWhile_eq_self_iff ch2_def ch1 k_def[symmetric])
    then show ?thesis by (simp add: find_addr_def del: takeWhile_eq_all_conv)
  qed
  moreover have "ch_sel_dynobj ch2 = Some (cop_addr (ch_ops ch ! k))" by (simp add: ch2_def ch1)
  ultimately show ?thesis by (simp add: add_controller_def get_target_parameter_def Let_def)
qed

lemma clear_keeps_selections:
  "ch_sel_op (chain_clear ch) = ch_sel_op ch" "ch_sel_ctrl_ptr (chain_clear ch) = ch_sel_ctrl_ptr ch"
  "ch_sel_dynobj (chain_clear ch) = ch_sel_dynobj ch"
  by (simp_all add: chain_clear_def)

subsection \<open>Initialisation and processing\<close>

text \<open>The channel counts that the audio has before each operator: the input's, then each output's.\<close>

fun channels_before :: "('o, 'v, 's) op_class \<Rightarrow> nat \<Rightarrow> 'o cop_container list \<Rightarrow> nat list" where
  "channels_before cls chs [] = []"
| "channels_before cls chs (c # cs) = chs # channels_before cls (op_output_channels cls chs (cop_obj c)) cs"

text \<open>An operator class whose \<open>init\<close> records the channel count of the buffer it is given.\<close>

lemma init_ops_result:
  assumes "sb_wf slot"
  shows "\<exists>slots slot'. init_ops cls g chs cs slot =
      Inr (map2 (\<lambda>c s. c\<lparr>cop_obj := op_init cls s (cop_obj c)\<rparr>) cs slots, slot') \<and>
    length slots = length cs \<and> sb_wf slot' \<and> sb_buffersize slot' = sb_buffersize slot \<and>
    (\<forall>n < length cs. sb_wf (slots ! n) \<and> sb_buffersize (slots ! n) = sb_buffersize slot \<and>
       sb_channel_count (slots ! n) = max (channels_before cls chs cs ! n)
         (op_output_channels cls (channels_before cls chs cs ! n) (cop_obj (cs ! n))))"
  using assms
proof (induction cs arbitrary: chs slot)
  case (Cons c cs)
  define out_ch where "out_ch = op_output_channels cls chs (cop_obj c)"
  obtain slot1 where 1: "number_of_channels g (max chs out_ch) slot = Inr slot1" "sb_wf slot1"
      "sb_audio slot1 = audio_set_channels (max chs out_ch) (sb_audio slot)"
    using number_of_channels_refines[OF Cons.prems] by (rule refinesE)
  have cc: "sb_channel_count slot1 = max chs out_ch" "sb_buffersize slot1 = sb_buffersize slot"
    using number_of_channels_reserved(3)[OF 1(1)] 1(3) by (simp_all flip: sb_audio_length)
  obtain slots slot' where 2: "init_ops cls g out_ch cs slot1 =
        Inr (map2 (\<lambda>c s. c\<lparr>cop_obj := op_init cls s (cop_obj c)\<rparr>) cs slots, slot')"
      "length slots = length cs" "sb_wf slot'" "sb_buffersize slot' = sb_buffersize slot1"
      "\<forall>n < length cs. sb_wf (slots ! n) \<and> sb_buffersize (slots ! n) = sb_buffersize slot1 \<and>
       sb_channel_count (slots ! n) = max (channels_before cls out_ch cs ! n)
         (op_output_channels cls (channels_before cls out_ch cs ! n) (cop_obj (cs ! n)))"
    using Cons.IH[OF 1(2), of out_ch] by blast
  have room: "(if out_ch > chs then out_ch else chs) = max chs out_ch" by simp
  show ?case
    using 1 2 cc
    by (intro exI[of _ "slot1 # slots"] exI[of _ slot'])
       (auto simp: Let_def room nth_Cons simp flip: out_ch_def split: nat.splits)
qed simp

text \<open>
  C30. Initialising a chain hands every operator a well-formed buffer of the same length with room
  for both the channels that reach it and the channels that it puts out.
\<close>

theorem init_gives_room:
  assumes "sb_wf slot"
  shows "\<exists>slots slot'. init_ops cls g chs cs slot =
      Inr (map2 (\<lambda>c s. c\<lparr>cop_obj := op_init cls s (cop_obj c)\<rparr>) cs slots, slot') \<and> sb_wf slot' \<and>
    (\<forall>n < length cs. sb_wf (slots ! n) \<and> sb_buffersize (slots ! n) = sb_buffersize slot \<and>
       channels_before cls chs cs ! n \<le> sb_channel_count (slots ! n) \<and>
       op_output_channels cls (channels_before cls chs cs ! n) (cop_obj (cs ! n)) \<le> sb_channel_count (slots ! n))"
proof -
  obtain slots slot' where "init_ops cls g chs cs slot =
        Inr (map2 (\<lambda>c s. c\<lparr>cop_obj := op_init cls s (cop_obj c)\<rparr>) cs slots, slot')" "sb_wf slot'"
      "\<forall>n < length cs. sb_wf (slots ! n) \<and> sb_buffersize (slots ! n) = sb_buffersize slot \<and>
       sb_channel_count (slots ! n) = max (channels_before cls chs cs ! n)
         (op_output_channels cls (channels_before cls chs cs ! n) (cop_obj (cs ! n)))"
    using init_ops_result[OF assms, of cls g chs cs] by blast
  then show ?thesis by (intro exI[of _ slots] exI[of _ slot']) auto
qed

lemma init_gives_room_witness:
  "\<exists>slots slot'. init_ops list_ops (\<lambda>_ _. 5) 1 (ch_ops example_chain) example_buffer =
      Inr (map2 (\<lambda>c s. c\<lparr>cop_obj := op_init list_ops s (cop_obj c)\<rparr>) (ch_ops example_chain) slots, slot') \<and>
    sb_wf slot'"
  using init_gives_room[OF example_buffer_wf, of list_ops "\<lambda>_ _. 5" 1 "ch_ops example_chain"] by blast

text \<open>
  What a chain needs from its operators. \<open>valid obj\<close> says that the operator can be initialised, and
  \<open>ready obj k\<close> that it can work on a buffer that has \<open>k\<close> allocated arrays: initialising it on a
  buffer makes it ready for that buffer, more arrays and new parameter values do not hurt. A ready operator with room for its output channels
  processes a buffer without a fault, keeps its length, takes no array away and stays ready; asked
  again on a buffer that has room for its output channels, it does not ask for more.
\<close>

locale operator_contract =
  fixes cls :: "('o, 'v, 's::zero) op_class" and ready :: "'o \<Rightarrow> nat \<Rightarrow> bool" and valid :: "'o \<Rightarrow> bool"
  assumes ready_valid: "ready obj k \<Longrightarrow> valid obj"
    and ready_mono: "ready obj k \<Longrightarrow> k \<le> k' \<Longrightarrow> ready obj k'"
    and init_ready: "sb_wf slot \<Longrightarrow> valid obj \<Longrightarrow> ready (op_init cls slot obj) (length (sb_arrays slot))"
    and set_ready: "ready obj k \<Longrightarrow> ready (op_set_parameter cls param v obj) k"
    and process_ok: "sb_wf slot \<Longrightarrow> ready obj (length (sb_arrays slot)) \<Longrightarrow>
      op_output_channels cls (sb_channel_count slot) obj \<le> sb_channel_count slot \<Longrightarrow>
      \<exists>obj' slot'. op_process cls slot obj = Inr (obj', slot') \<and> sb_wf slot' \<and>
        sb_buffersize slot' = sb_buffersize slot \<and> length (sb_arrays slot) \<le> length (sb_arrays slot') \<and>
        ready obj' (length (sb_arrays slot))"
    and output_room: "n < op_output_channels cls n obj \<Longrightarrow>
      op_output_channels cls (op_output_channels cls n obj) obj \<le> op_output_channels cls n obj"
begin

lemma init_ops_ready:
  "sb_wf slot \<Longrightarrow> \<forall>c \<in> set cs. valid (cop_obj c) \<Longrightarrow>
   \<exists>cs' slot'. init_ops cls g chs cs slot = Inr (cs', slot') \<and> sb_wf slot' \<and>
     sb_buffersize slot' = sb_buffersize slot \<and> length (sb_arrays slot) \<le> length (sb_arrays slot') \<and>
     (\<forall>c \<in> set cs'. ready (cop_obj c) (length (sb_arrays slot')))"
proof (induction cs arbitrary: chs slot)
  case (Cons c cs)
  define out_ch where "out_ch = op_output_channels cls chs (cop_obj c)"
  define room where "room = (if out_ch > chs then out_ch else chs)"
  obtain slot1 where 1: "number_of_channels g room slot = Inr slot1" "sb_wf slot1"
      "sb_audio slot1 = audio_set_channels room (sb_audio slot)"
    using number_of_channels_refines[OF Cons.prems(1)] by (rule refinesE)
  have 2: "sb_buffersize slot1 = sb_buffersize slot" "length (sb_arrays slot) \<le> length (sb_arrays slot1)"
    using 1(3) number_of_channels_reserved[OF 1(1)] by (simp_all flip: sb_audio_length)
  obtain cs' slot2 where 3: "init_ops cls g out_ch cs slot1 = Inr (cs', slot2)" "sb_wf slot2"
      "sb_buffersize slot2 = sb_buffersize slot1" "length (sb_arrays slot1) \<le> length (sb_arrays slot2)"
      "\<forall>c \<in> set cs'. ready (cop_obj c) (length (sb_arrays slot2))"
    using Cons.IH[OF 1(2)] Cons.prems(2) by (metis list.set_intros(2))
  have "valid (cop_obj c)" using Cons.prems(2) by auto
  then have "ready (op_init cls slot1 (cop_obj c)) (length (sb_arrays slot2))"
    using init_ready[OF 1(2)] ready_mono 3(4) by blast
  then show ?case using 1(1) 2 3 by (simp add: Let_def flip: out_ch_def room_def)
qed simp

lemma make_room:
  assumes "sb_wf slot"
  obtains slot1 where
    "(if out_ch > sb_channel_count slot then number_of_channels g out_ch slot else Inr slot) = Inr slot1"
    "sb_wf slot1" "sb_buffersize slot1 = sb_buffersize slot"
    "sb_channel_count slot1 = max (sb_channel_count slot) out_ch"
    "length (sb_arrays slot) \<le> length (sb_arrays slot1)"
proof (cases "out_ch > sb_channel_count slot")
  case True
  obtain slot1 where 1: "number_of_channels g out_ch slot = Inr slot1" "sb_wf slot1"
      "sb_audio slot1 = audio_set_channels out_ch (sb_audio slot)"
    using number_of_channels_refines[OF assms] by (rule refinesE)
  then show ?thesis
    using True number_of_channels_reserved[OF 1(1)] that[of slot1] by (simp flip: sb_audio_length)
qed (use assms that in simp)

lemma process_ops_ok:
  "sb_wf slot \<Longrightarrow> \<forall>c \<in> set cs. ready (cop_obj c) (length (sb_arrays slot)) \<Longrightarrow>
   \<exists>cs' slot'. process_ops cls g cs slot = Inr (cs', slot') \<and> sb_wf slot' \<and>
     sb_buffersize slot' = sb_buffersize slot \<and> length (sb_arrays slot) \<le> length (sb_arrays slot') \<and>
     map cop_addr cs' = map cop_addr cs \<and> map cop_bypassed cs' = map cop_bypassed cs \<and>
     (\<forall>c \<in> set cs'. ready (cop_obj c) (length (sb_arrays slot')))"
proof (induction cs arbitrary: slot)
  case (Cons c cs)
  have rc: "ready (cop_obj c) (length (sb_arrays slot))" using Cons.prems(2) by simp
  show ?case
  proof (cases "cop_bypassed c")
    case True
    obtain cs' slot' where "process_ops cls g cs slot = Inr (cs', slot')" "sb_wf slot'"
        "sb_buffersize slot' = sb_buffersize slot" "length (sb_arrays slot) \<le> length (sb_arrays slot')"
        "map cop_addr cs' = map cop_addr cs" "map cop_bypassed cs' = map cop_bypassed cs"
        "\<forall>c \<in> set cs'. ready (cop_obj c) (length (sb_arrays slot'))"
      using Cons.IH[OF Cons.prems(1)] Cons.prems(2) by (metis list.set_intros(2))
    then show ?thesis using True ready_mono[OF rc] by simp
  next
    case False
    define out_ch where "out_ch = op_output_channels cls (sb_channel_count slot) (cop_obj c)"
    obtain slot1 where 1:
        "(if out_ch > sb_channel_count slot then number_of_channels g out_ch slot else Inr slot) = Inr slot1"
        "sb_wf slot1" "sb_buffersize slot1 = sb_buffersize slot"
        "sb_channel_count slot1 = max (sb_channel_count slot) out_ch"
        "length (sb_arrays slot) \<le> length (sb_arrays slot1)"
      by (rule make_room[OF Cons.prems(1)])
    have "op_output_channels cls (sb_channel_count slot1) (cop_obj c) \<le> sb_channel_count slot1"
      using output_room[of "sb_channel_count slot" "cop_obj c"] 1(4)
      by (cases "out_ch > sb_channel_count slot") (auto simp: max_def simp flip: out_ch_def)
    then obtain obj' slot2 where 2: "op_process cls slot1 (cop_obj c) = Inr (obj', slot2)" "sb_wf slot2"
        "sb_buffersize slot2 = sb_buffersize slot1" "length (sb_arrays slot1) \<le> length (sb_arrays slot2)"
        "ready obj' (length (sb_arrays slot1))"
      using process_ok[OF 1(2) ready_mono[OF rc 1(5)]] by blast
    have "\<forall>c \<in> set cs. ready (cop_obj c) (length (sb_arrays slot2))"
      using Cons.prems(2) 1(5) 2(4) ready_mono by (metis le_trans list.set_intros(2))
    from Cons.IH[OF 2(2) this]
    obtain cs' slot3 where 3: "process_ops cls g cs slot2 = Inr (cs', slot3)" "sb_wf slot3"
        "sb_buffersize slot3 = sb_buffersize slot2" "length (sb_arrays slot2) \<le> length (sb_arrays slot3)"
        "map cop_addr cs' = map cop_addr cs" "map cop_bypassed cs' = map cop_bypassed cs"
        "\<forall>c \<in> set cs'. ready (cop_obj c) (length (sb_arrays slot3))"
      by blast
    have "ready obj' (length (sb_arrays slot3))" using 2(4,5) 3(4) ready_mono by (meson le_trans)
    then show ?thesis
      using False 1 2 3 by (simp add: Let_def flip: out_ch_def)
  qed
qed simp

lemma refresh_op_ready: "ready obj k \<Longrightarrow> ready (refresh_op cls obj) k"
proof -
  have "ready (fold (\<lambda>n o'. op_set_parameter cls (int n + 1) (op_get_parameter cls (int n + 1) o') o') ns x) k"
    if "ready x k" for ns x using that by (induction ns arbitrary: x) (simp_all add: set_ready)
  then show "ready obj k \<Longrightarrow> ready (refresh_op cls obj) k" by (simp add: refresh_op_def)
qed

end

text \<open>The controllers do not touch the switches and the position of a chain.\<close>

lemma update_op_frame:
  "map cop_addr (ch_ops (update_op p f ch)) = map cop_addr (ch_ops ch)"
  "map cop_bypassed (ch_ops (update_op p f ch)) = map cop_bypassed (ch_ops ch)"
  "ch_muted (update_op p f ch) = ch_muted ch" "ch_bypass (update_op p f ch) = ch_bypass ch"
  "ch_position (update_op p f ch) = ch_position ch"
proof -
  show "map cop_addr (ch_ops (update_op p f ch)) = map cop_addr (ch_ops ch)"
    by (rule nth_equalityI; cases "p < length (ch_ops ch)") (simp_all add: update_op_def nth_list_update)
  show "map cop_bypassed (ch_ops (update_op p f ch)) = map cop_bypassed (ch_ops ch)"
    by (rule nth_equalityI; cases "p < length (ch_ops ch)") (simp_all add: update_op_def nth_list_update)
qed (simp_all add: update_op_def)

lemma set_target_parameter_frame:
  "set_target_parameter cls src ptr param v ch = Inr ch' \<Longrightarrow>
     ch_muted ch' = ch_muted ch \<and> ch_bypass ch' = ch_bypass ch \<and> ch_position ch' = ch_position ch \<and>
     map cop_addr (ch_ops ch') = map cop_addr (ch_ops ch) \<and> map cop_bypassed (ch_ops ch') = map cop_bypassed (ch_ops ch)"
  by (auto simp: set_target_parameter_def update_op_frame split: option.splits)

lemma controller_update_frame:
  assumes "controller_update cls src ch = Inr ch'"
  shows "ch_muted ch' = ch_muted ch \<and> ch_bypass ch' = ch_bypass ch \<and> ch_position ch' = ch_position ch \<and>
    map cop_addr (ch_ops ch') = map cop_addr (ch_ops ch) \<and> map cop_bypassed (ch_ops ch') = map cop_bypassed (ch_ops ch)"
proof -
  obtain pos where "fold_result (ctrl_value cls src pos) [0..<length (ch_ctrls ch)] ch = Inr ch'"
    using assms by (auto simp: controller_update_def bind_result_Inr_iff)
  then show ?thesis
    by (rule fold_result_invariant[rotated -1])
       (auto simp: ctrl_value_def Let_def split: prod.splits dest!: set_target_parameter_frame)
qed

lemma process_ops_bypassed:
  "\<forall>c \<in> set cs. cop_bypassed c \<Longrightarrow> process_ops cls g cs slot = Inr (cs, slot)"
  by (induction cs) simp_all

text \<open>
  Once the controllers have been updated, a muted chain puts out silence without running its
  operators, and a bypassed chain, or one whose operators are all bypassed, passes the audio through
  unchanged; in each case the position advances by the length of the buffer.
\<close>

theorem process_switches:
  assumes "controller_update cls src ch = Inr ch1" "sb_wf slot"
  shows "(ch_muted ch \<longrightarrow> (\<exists>slot'. chain_process cls src g ch slot =
            Inr (ch1\<lparr>ch_position := change_position_in_samples (int (sb_buffersize slot)) (ch_position ch)\<rparr>, slot') \<and>
            sb_wf slot' \<and> sb_audio slot' = audio_map (\<lambda>_ _ _. 0) (sb_audio slot))) \<and>
         (\<not> ch_muted ch \<and> (ch_bypass ch \<or> (\<forall>c \<in> set (ch_ops ch). cop_bypassed c)) \<longrightarrow>
            chain_process cls src g ch slot =
            Inr (ch1\<lparr>ch_position := change_position_in_samples (int (sb_buffersize slot)) (ch_position ch)\<rparr>, slot))"
proof (intro conjI impI)
  note frame = controller_update_frame[OF assms(1)]
  assume "ch_muted ch"
  obtain slot' where s: "make_silent slot = Inr slot'" "sb_wf slot'" "sb_audio slot' = audio_map (\<lambda>_ _ _. 0) (sb_audio slot)"
    using make_silent_refines[OF assms(2)] by (rule refinesE)
  moreover have "sb_buffersize slot' = sb_buffersize slot"
    using s(3) by (metis (no_types, lifting) audio_map_def case_prod_unfold fst_conv sb_audio_length)
  ultimately show "\<exists>slot'. chain_process cls src g ch slot =
      Inr (ch1\<lparr>ch_position := change_position_in_samples (int (sb_buffersize slot)) (ch_position ch)\<rparr>, slot') \<and>
      sb_wf slot' \<and> sb_audio slot' = audio_map (\<lambda>_ _ _. 0) (sb_audio slot)"
    using assms(1) frame \<open>ch_muted ch\<close> by (simp add: chain_process_def)
next
  note frame = controller_update_frame[OF assms(1)]
  assume a: "\<not> ch_muted ch \<and> (ch_bypass ch \<or> (\<forall>c \<in> set (ch_ops ch). cop_bypassed c))"
  have "\<forall>c \<in> set (ch_ops ch1). cop_bypassed c" if "\<forall>c \<in> set (ch_ops ch). cop_bypassed c"
  proof
    fix c assume "c \<in> set (ch_ops ch1)"
    then have "cop_bypassed c \<in> set (map cop_bypassed (ch_ops ch))" using frame by (metis image_eqI list.set_map)
    then show "cop_bypassed c" using that by auto
  qed
  then show "chain_process cls src g ch slot =
      Inr (ch1\<lparr>ch_position := change_position_in_samples (int (sb_buffersize slot)) (ch_position ch)\<rparr>, slot)"
    using assms(1) frame a process_ops_bypassed[of "ch_ops ch1" cls g slot]
    by (auto simp: chain_process_def)
qed

definition unit_source :: "(unit, int) source_class" where
  "unit_source = \<lparr>src_value = \<lambda>_ c. (0, c), src_init = id, src_set_initial_value = \<lambda>_ c. c,
     src_set_parameter = \<lambda>_ _ c. c, src_get_parameter = \<lambda>_ _. 0, value_to_int = id, value_of_int = id\<rparr>"

lemma process_switches_witness:
  "chain_process list_ops unit_source (\<lambda>_ _. 0) (set_bypass 1 example_chain) example_buffer =
     Inr ((set_bypass 1 example_chain)\<lparr>ch_position := change_position_in_samples 4 (audio_position_create 44100)\<rparr>,
       example_buffer)"
proof -
  have "controller_update list_ops unit_source (set_bypass 1 example_chain) = Inr (set_bypass 1 example_chain)"
    by (simp add: controller_update_def set_bypass_def example_chain_ops position_in_seconds_exact_def
        seconds_exact_def audio_position_create_def)
  from process_switches[OF this example_buffer_wf, of "\<lambda>_ _. 0"] show ?thesis
    by (simp add: set_bypass_def example_chain_ops tristate_def example_buffer_def)
qed

end
