(* ===== verification/Effects.thy ===== *)
theory Effects
  imports Chain_Facts
begin

text \<open>
  The chain operators that scale and route channels, from \<open>audiofx_amplitude.cpp\<close> and
  \<open>audiofx_mixing.cpp\<close>: their parameters, their output channels and their processing on a sample
  buffer, together the class record \<open>effect_class\<close> that a chain runs. Parameters and samples are
  exact rational numbers. A channel number of type \<open>ch_type\<close> is a 64 bit word: parameter 0 wraps
  around, as \<open>from_channel--\<close> does. The conversion of a negative parameter to \<open>ch_type\<close>, which C++
  leaves undefined, is taken modulo \<open>2 ^ 64\<close>.
\<close>

subsection \<open>Cells\<close>

definition write_cell :: "nat \<Rightarrow> nat \<Rightarrow> 's \<Rightarrow> 's list list \<Rightarrow> 's list list result" where
  "write_cell q t v bufs =
     (if q < length bufs \<and> t < length (bufs ! q) then Inr (bufs[q := (bufs ! q)[t := v]])
      else Inl Undefined_behaviour)"

text \<open>A loop over the samples of the buffer, as an iterator over one of its channels makes it.\<close>

definition sample_loop ::
  "(nat \<Rightarrow> 's list list \<Rightarrow> 's list list result) \<Rightarrow> 's sample_buffer \<Rightarrow> 's sample_buffer result" where
  "sample_loop body slot =
     bind_result (fold_result body [0..<sb_buffersize slot] (sb_arrays slot))
       (\<lambda>bufs. Inr (slot\<lparr>sb_arrays := bufs\<rparr>))"

subsection \<open>The effects\<close>

datatype effect =
    Amplify rat
  | Amplify_channel rat int nat
  | Channel_mute int nat
  | Channel_copy "64 word" "64 word"
  | Channel_move "64 word" "64 word"
  | Mix_to_channel nat "64 word"
  | Channel_order "rat sample_buffer" "int list" int

text \<open>The truncation of \<open>static_cast<int>\<close>, and the conversions between \<open>int\<close> and \<open>ch_type\<close>.\<close>

definition trunc_int :: "rat \<Rightarrow> int" where
  "trunc_int v = (if v < 0 then \<lceil>v\<rceil> else \<lfloor>v\<rfloor>)"

definition to_ch_type :: "rat \<Rightarrow> 64 word" where
  "to_ch_type v = word_of_int (trunc_int v)"

definition ch_int :: "64 word \<Rightarrow> int" where
  "ch_int c = sint (ucast c :: 32 word)"

definition ch_in_range :: "64 word \<Rightarrow> 's sample_buffer \<Rightarrow> bool" where
  "ch_in_range c slot \<longleftrightarrow> 0 \<le> ch_int c \<and> ch_int c < int (sb_channel_count slot)"

subsection \<open>Parameters\<close>

text \<open>\<open>resize\<close> of the channel map fills it with zeros, that is with the first source channel.\<close>

definition highest_routed :: "int list \<Rightarrow> int" where
  "highest_routed chsrc = int (length (dropWhile (\<lambda>c. c < 0) (rev chsrc)))"

definition route_channel :: "int \<Rightarrow> rat \<Rightarrow> rat sample_buffer \<Rightarrow> int list \<Rightarrow> int \<Rightarrow> effect" where
  "route_channel dst_ch v bounce chsrc out_ch =
     (if dst_ch > 0
      then let chsrc1 = (if dst_ch > int (length chsrc)
                         then chsrc @ replicate (nat dst_ch - length chsrc) 0 else chsrc);
               chsrc2 = chsrc1[nat (dst_ch - 1) := trunc_int v - 1]
           in Channel_order bounce chsrc2 (highest_routed chsrc2)
      else Channel_order bounce chsrc out_ch)"

fun effect_set_parameter :: "int \<Rightarrow> rat \<Rightarrow> effect \<Rightarrow> effect" where
  "effect_set_parameter param v (Amplify gain) = (if param = 1 then Amplify (v / 100) else Amplify gain)"
| "effect_set_parameter param v (Amplify_channel gain ch n) =
     (if param = 1 then Amplify_channel (v / 100) ch n
      else if param = 2 then Amplify_channel gain (trunc_int v - 1) n
      else Amplify_channel gain ch n)"
| "effect_set_parameter param v (Channel_mute ch n) =
     (if param = 1 then Channel_mute (trunc_int (of_nat (unat (to_ch_type v))) - 1) n else Channel_mute ch n)"
| "effect_set_parameter param v (Channel_copy fr to) =
     (if param = 1 then Channel_copy (to_ch_type v - 1) to
      else if param = 2 then Channel_copy fr (to_ch_type v - 1)
      else Channel_copy fr to)"
| "effect_set_parameter param v (Channel_move fr to) =
     (if param = 1 then Channel_move (to_ch_type v - 1) to
      else if param = 2 then Channel_move fr (to_ch_type v - 1)
      else Channel_move fr to)"
| "effect_set_parameter param v (Mix_to_channel n to) =
     (if param = 1 then Mix_to_channel n (to_ch_type v - 1) else Mix_to_channel n to)"
| "effect_set_parameter param v (Channel_order bounce chsrc out_ch) = route_channel param v bounce chsrc out_ch"

definition ch_param :: "64 word \<Rightarrow> rat" where
  "ch_param c = of_nat (unat (c + 1))"

fun effect_get_parameter :: "int \<Rightarrow> effect \<Rightarrow> rat" where
  "effect_get_parameter param (Amplify gain) = (if param = 1 then gain * 100 else 0)"
| "effect_get_parameter param (Amplify_channel gain ch n) =
     (if param = 1 then gain * 100 else if param = 2 then of_int (ch + 1) else 0)"
| "effect_get_parameter param (Channel_mute ch n) = (if param = 1 then of_int (ch + 1) else 0)"
| "effect_get_parameter param (Channel_copy fr to) =
     (if param = 1 then ch_param fr else if param = 2 then ch_param to else 0)"
| "effect_get_parameter param (Channel_move fr to) =
     (if param = 1 then ch_param fr else if param = 2 then ch_param to else 0)"
| "effect_get_parameter param (Mix_to_channel n to) = (if param = 1 then ch_param to else 0)"
| "effect_get_parameter param (Channel_order bounce chsrc out_ch) =
     (if param > 0 \<and> param \<le> out_ch then of_int (chsrc ! nat (param - 1) + 1) else 0)"

fun effect_number_of_params :: "effect \<Rightarrow> int" where
  "effect_number_of_params (Amplify gain) = 1"
| "effect_number_of_params (Amplify_channel gain ch n) = 2"
| "effect_number_of_params (Channel_mute ch n) = 1"
| "effect_number_of_params (Channel_copy fr to) = 2"
| "effect_number_of_params (Channel_move fr to) = 2"
| "effect_number_of_params (Mix_to_channel n to) = 1"
| "effect_number_of_params (Channel_order bounce chsrc out_ch) = out_ch"

subsection \<open>Channels\<close>

definition at_least :: "nat \<Rightarrow> int \<Rightarrow> nat" where
  "at_least i_channels c = (if c > int i_channels then nat c else i_channels)"

fun effect_output_channels :: "nat \<Rightarrow> effect \<Rightarrow> nat" where
  "effect_output_channels n (Amplify gain) = n"
| "effect_output_channels n (Amplify_channel gain ch k) = at_least n (ch + 1)"
| "effect_output_channels n (Channel_mute ch k) = at_least n (ch + 1)"
| "effect_output_channels n (Channel_copy fr to) = at_least n (ch_int (if to > fr then to else fr) + 1)"
| "effect_output_channels n (Channel_move fr to) = at_least n (ch_int (if to > fr then to else fr) + 1)"
| "effect_output_channels n (Mix_to_channel k to) = at_least n (ch_int to + 1)"
| "effect_output_channels n (Channel_order bounce chsrc out_ch) = nat out_ch"

text \<open>
  \<open>priv_from_make_sane\<close>: \<open>channel < 0\<close> is never true of an unsigned number. The initialisation of
  \<open>EFFECT_CHANNEL_ORDER\<close> may have to allocate, with the contents \<open>g\<close>.
\<close>

definition from_make_sane :: "64 word \<Rightarrow> 's sample_buffer \<Rightarrow> 64 word" where
  "from_make_sane c slot =
     (let channels = of_nat (sb_channel_count slot) in if c \<ge> channels then channels - 1 else c)"

fun effect_init :: "(nat \<Rightarrow> nat \<Rightarrow> rat) \<Rightarrow> rat sample_buffer \<Rightarrow> effect \<Rightarrow> effect" where
  "effect_init g slot (Amplify gain) = Amplify gain"
| "effect_init g slot (Amplify_channel gain ch n) = Amplify_channel gain ch (sb_channel_count slot)"
| "effect_init g slot (Channel_mute ch n) = Channel_mute ch (sb_channel_count slot)"
| "effect_init g slot (Channel_copy fr to) = Channel_copy (from_make_sane fr slot) to"
| "effect_init g slot (Channel_move fr to) = Channel_move (from_make_sane fr slot) to"
| "effect_init g slot (Mix_to_channel n to) = Mix_to_channel (sb_channel_count slot) to"
| "effect_init g slot (Channel_order bounce chsrc out_ch) =
     (case bind_result (number_of_channels g (sb_channel_count slot) bounce)
             (length_in_samples g (sb_buffersize slot)) of
        Inr bounce' \<Rightarrow> Channel_order bounce' chsrc out_ch
      | Inl _ \<Rightarrow> Channel_order bounce chsrc out_ch)"

subsection \<open>Processing\<close>

definition amplify_channel :: "'s::times \<Rightarrow> int \<Rightarrow> nat \<Rightarrow> 's sample_buffer \<Rightarrow> 's sample_buffer result" where
  "amplify_channel gain ch channels slot =
     (if ch \<ge> 0 \<and> ch < int channels then multiply_by_channel gain (nat ch) slot else Inr slot)"

definition channel_copy :: "64 word \<Rightarrow> 64 word \<Rightarrow> 's sample_buffer \<Rightarrow> 's sample_buffer result" where
  "channel_copy fr to slot =
     (if ch_in_range fr slot \<and> ch_in_range to slot
      then sample_loop (\<lambda>t bufs. bind_result (read_cell bufs (nat (ch_int fr)) t) (\<lambda>v.
             write_cell (nat (ch_int to)) t v bufs)) slot
      else Inr slot)"

definition channel_move :: "64 word \<Rightarrow> 64 word \<Rightarrow> 's::zero sample_buffer \<Rightarrow> 's sample_buffer result" where
  "channel_move fr to slot =
     (if ch_in_range fr slot \<and> ch_in_range to slot
      then sample_loop (\<lambda>t bufs. bind_result (read_cell bufs (nat (ch_int fr)) t) (\<lambda>v.
             bind_result (write_cell (nat (ch_int to)) t v bufs) (\<lambda>bufs1.
             if fr \<noteq> to then write_cell (nat (ch_int fr)) t silent_value bufs1 else Inr bufs1))) slot
      else Inr slot)"

definition mix_to_channel :: "nat \<Rightarrow> 64 word \<Rightarrow> rat sample_buffer \<Rightarrow> rat sample_buffer result" where
  "mix_to_channel channels to slot =
     (if ch_in_range to slot
      then sample_loop (\<lambda>t bufs.
             bind_result (fold_result (\<lambda>n sum. bind_result (read_cell bufs n t) (\<lambda>v. Inr (sum + v)))
                            [0..<channels] silent_value) (\<lambda>sum.
             write_cell (nat (ch_int to)) t (sum / of_nat channels) bufs)) slot
      else Inr slot)"

text \<open>
  One turn of the loop of \<open>EFFECT_CHANNEL_ORDER::process\<close>: \<open>dst_ch\<close> receives channel \<open>chsrc[dst_ch]\<close>
  of the copy, or silence. (\<open>t_iter.begin\<close> ends at once when the buffer lacks \<open>dst_ch\<close>.)
\<close>

definition order_channel ::
  "'s::zero sample_buffer \<Rightarrow> int list \<Rightarrow> nat \<Rightarrow> 's sample_buffer \<Rightarrow> 's sample_buffer result" where
  "order_channel bounce chsrc dst_ch slot =
     (if dst_ch < length chsrc
      then let src_ch = chsrc ! dst_ch in
        if src_ch \<ge> 0 \<and> src_ch < int (sb_channel_count bounce)
        then (if dst_ch < sb_channel_count slot
              then on_channels (\<lambda>_. update_loop (\<lambda>t _. read_cell (sb_arrays bounce) (nat src_ch) t) 0
                     (min (sb_buffersize bounce) (sb_buffersize slot))) dst_ch 1 slot
              else Inr slot)
        else make_silent_channel dst_ch slot
      else Inl Undefined_behaviour)"

definition channel_order ::
  "(nat \<Rightarrow> nat \<Rightarrow> 's::zero) \<Rightarrow> 's sample_buffer \<Rightarrow> int list \<Rightarrow> int \<Rightarrow> 's sample_buffer \<Rightarrow>
     ('s sample_buffer \<times> 's sample_buffer) result" where
  "channel_order g bounce chsrc out_ch slot =
     bind_result (copy_all_content g slot bounce) (\<lambda>bounce1.
     bind_result (fold_result (order_channel bounce1 chsrc) [0..<nat out_ch] slot) (\<lambda>slot1.
     bind_result (number_of_channels g (nat out_ch) slot1) (\<lambda>slot2.
       Inr (bounce1, slot2))))"

fun effect_process ::
  "(nat \<Rightarrow> nat \<Rightarrow> rat) \<Rightarrow> rat sample_buffer \<Rightarrow> effect \<Rightarrow> (effect \<times> rat sample_buffer) result" where
  "effect_process g slot (Amplify gain) =
     bind_result (multiply_by gain slot) (\<lambda>s. Inr (Amplify gain, s))"
| "effect_process g slot (Amplify_channel gain ch n) =
     bind_result (amplify_channel gain ch n slot) (\<lambda>s. Inr (Amplify_channel gain ch n, s))"
| "effect_process g slot (Channel_mute ch n) =
     bind_result (amplify_channel 0 ch n slot) (\<lambda>s. Inr (Channel_mute ch n, s))"
| "effect_process g slot (Channel_copy fr to) =
     bind_result (channel_copy fr to slot) (\<lambda>s. Inr (Channel_copy fr to, s))"
| "effect_process g slot (Channel_move fr to) =
     bind_result (channel_move fr to slot) (\<lambda>s. Inr (Channel_move fr to, s))"
| "effect_process g slot (Mix_to_channel n to) =
     bind_result (mix_to_channel n to slot) (\<lambda>s. Inr (Mix_to_channel n to, s))"
| "effect_process g slot (Channel_order bounce chsrc out_ch) =
     bind_result (channel_order g bounce chsrc out_ch slot) (\<lambda>(b, s). Inr (Channel_order b chsrc out_ch, s))"

definition effect_class :: "(nat \<Rightarrow> nat \<Rightarrow> rat) \<Rightarrow> (effect, rat, rat) op_class" where
  "effect_class g =
     \<lparr>op_number_of_params = effect_number_of_params, op_get_parameter = effect_get_parameter,
      op_set_parameter = effect_set_parameter, op_output_channels = effect_output_channels,
      op_init = effect_init g, op_process = effect_process g, op_release = (\<lambda>e. e),
      op_set_srate = (\<lambda>_ e. e)\<rparr>"

end
