(* ===== verification/Chain_Safety.thy ===== *)
theory Chain_Safety
  imports Chain_Facts
begin

text \<open>
  When a chain cannot fault: every controller's target is an object of the chain (\<open>chain_linked\<close>), and
  its operators meet their contract. Initialising such a chain makes its operators ready for the
  buffer, and processing keeps them ready, so that a chain can be processed for ever.
\<close>

definition target_exists :: "nat option \<Rightarrow> ('o, 'c, 'v) chain \<Rightarrow> bool" where
  "target_exists ptr ch =
     (case ptr of None \<Rightarrow> False
      | Some a \<Rightarrow> a \<in> set (map cop_addr (ch_ops ch)) \<or> a \<in> set (map gc_addr (ch_ctrls ch)))"

definition chain_linked :: "('o, 'c, 'v) chain \<Rightarrow> bool" where
  "chain_linked ch \<longleftrightarrow> (\<forall>q \<in> set (ch_ctrls ch). target_exists (gc_target q) ch)"

text \<open>The addresses and pointers of a chain, and the fields that the controllers leave alone.\<close>

definition chain_frame :: "('o, 'c, 'v) chain \<Rightarrow> nat list \<times> (nat \<times> nat option) list \<times> audio_position" where
  "chain_frame ch = (map cop_addr (ch_ops ch), map (\<lambda>q. (gc_addr q, gc_target q)) (ch_ctrls ch), ch_position ch)"

lemma chain_frame_eq:
  assumes "chain_frame ch' = chain_frame ch"
  shows "target_exists ptr ch' = target_exists ptr ch" "chain_linked ch' = chain_linked ch"
    "length (ch_ctrls ch') = length (ch_ctrls ch)" "n < length (ch_ctrls ch) \<Longrightarrow> gc_target (ch_ctrls ch' ! n) = gc_target (ch_ctrls ch ! n)"
proof -
  have a: "map cop_addr (ch_ops ch') = map cop_addr (ch_ops ch)"
    and c: "map (\<lambda>q. (gc_addr q, gc_target q)) (ch_ctrls ch') = map (\<lambda>q. (gc_addr q, gc_target q)) (ch_ctrls ch)"
    using assms by (simp_all add: chain_frame_def)
  have g: "map gc_addr (ch_ctrls ch') = map gc_addr (ch_ctrls ch)" "map gc_target (ch_ctrls ch') = map gc_target (ch_ctrls ch)"
    using arg_cong[OF c, of "map fst"] arg_cong[OF c, of "map snd"] by (simp_all add: comp_def)
  show t: "target_exists ptr ch' = target_exists ptr ch" for ptr
    unfolding target_exists_def a g(1) by simp
  show "chain_linked ch' = chain_linked ch"
    using arg_cong[OF g(2), of set] by (auto simp: chain_linked_def t) (metis image_eqI imageE)+
  show "length (ch_ctrls ch') = length (ch_ctrls ch)" using arg_cong[OF g(2), of length] by simp
  then show "n < length (ch_ctrls ch) \<Longrightarrow> gc_target (ch_ctrls ch' ! n) = gc_target (ch_ctrls ch ! n)"
    using g(2) by (metis nth_map)
qed

lemma target_exists_simps [simp]:
  "target_exists ptr (ch\<lparr>ch_position := x\<rparr>) = target_exists ptr ch"
  "target_exists ptr (ch\<lparr>ch_initialized := b\<rparr>) = target_exists ptr ch"
  by (cases ptr; simp add: target_exists_def)+

lemma chain_linked_simps [simp]:
  "chain_linked (ch\<lparr>ch_position := x\<rparr>) = chain_linked ch"
  "chain_linked (ch\<lparr>ch_initialized := b\<rparr>) = chain_linked ch"
  by (simp_all add: chain_linked_def)

lemma find_addr_exists:
  assumes "a \<in> set (map addr xs)"
  shows "\<exists>i. find_addr addr a xs = Some i \<and> i < length xs"
proof -
  have "takeWhile (\<lambda>x. addr x \<noteq> a) xs \<noteq> xs"
    unfolding takeWhile_eq_self_iff
    using assms by auto
  then have "length (takeWhile (\<lambda>x. addr x \<noteq> a) xs) < length xs"
    by (metis le_neq_implies_less length_takeWhile_le takeWhile_eq_take take_all_iff order_refl)
  then show ?thesis by (simp add: find_addr_def)
qed

lemma find_addr_SomeD: "find_addr addr a xs = Some i \<Longrightarrow> i < length xs"
  by (simp add: find_addr_def Let_def split: if_split_asm)

lemma map_list_update_same: "(i < length xs \<Longrightarrow> f y = f (xs ! i)) \<Longrightarrow> map f (xs[i := y]) = map f xs"
  by (cases "i < length xs") (auto intro!: nth_equalityI simp: nth_list_update)

lemma ctrl_set_parameter_frame [simp]:
  "gc_addr (ctrl_set_parameter src p v q) = gc_addr q" "gc_target (ctrl_set_parameter src p v q) = gc_target q"
  by (simp_all add: ctrl_set_parameter_def)

lemma get_target_ok:
  assumes "target_exists ptr ch" shows "\<exists>v. get_target_parameter cls src ptr p ch = Inr v"
  using assms
  by (auto simp: target_exists_def get_target_parameter_def simp del: set_map
      split: option.splits dest: find_addr_exists)

lemma init_ops_addr: "init_ops cls g chs cs slot = Inr (cs', slot') \<Longrightarrow> map cop_addr cs' = map cop_addr cs"
  by (induction cs arbitrary: chs slot cs' slot') (auto simp: Let_def bind_result_Inr_iff split: prod.splits)

lemma make_silent_length: "make_silent sb = Inr sb' \<Longrightarrow> length (sb_arrays sb') = length (sb_arrays sb)"
  unfolding make_silent_def
  by (rule fold_result_invariant[where I = "\<lambda>s. length (sb_arrays s) = length (sb_arrays sb)"])
    (auto simp: make_silent_channel_def dest: on_channels_length)

definition ops_ready :: "('o \<Rightarrow> nat \<Rightarrow> bool) \<Rightarrow> nat \<Rightarrow> ('o, 'c, 'v) chain \<Rightarrow> bool" where
  "ops_ready ready k ch \<longleftrightarrow> (\<forall>c \<in> set (ch_ops ch). ready (cop_obj c) k)"

definition ops_valid :: "('o \<Rightarrow> bool) \<Rightarrow> ('o, 'c, 'v) chain \<Rightarrow> bool" where
  "ops_valid valid ch \<longleftrightarrow> (\<forall>c \<in> set (ch_ops ch). valid (cop_obj c))"

text \<open>
  Consecutive periods: between two of them the buffer is refilled, by an arbitrary function that
  keeps it well-formed and takes no array away, as reading the next period from an input does.
\<close>

fun process_periods ::
  "('o, 'v::{plus,minus,times}, 's::zero) op_class \<Rightarrow> ('c, 'v) source_class \<Rightarrow> (nat \<Rightarrow> nat \<Rightarrow> 's) \<Rightarrow>
     ('s sample_buffer \<Rightarrow> 's sample_buffer) list \<Rightarrow> ('o, 'c, 'v) chain \<Rightarrow> 's sample_buffer \<Rightarrow>
     (('o, 'c, 'v) chain \<times> 's sample_buffer) result" where
  "process_periods cls src g [] ch slot = Inr (ch, slot)"
| "process_periods cls src g (fill # fills) ch slot =
     bind_result (chain_process cls src g ch (fill slot)) (\<lambda>(ch1, slot1). process_periods cls src g fills ch1 slot1)"

definition keeps_buffer :: "('s sample_buffer \<Rightarrow> 's sample_buffer) \<Rightarrow> bool" where
  "keeps_buffer fill \<longleftrightarrow> (\<forall>s. sb_wf s \<longrightarrow> sb_wf (fill s) \<and> length (sb_arrays s) \<le> length (sb_arrays (fill s)))"

text \<open>Operators whose parameters are numbers, so that controllers can drive them.\<close>

locale controlled_operators = operator_contract cls ready valid
  for cls :: "('o, 'v::{plus,minus,times,divide}, 's::zero) op_class" and ready :: "'o \<Rightarrow> nat \<Rightarrow> bool" and valid :: "'o \<Rightarrow> bool"
begin

lemma ops_ready_valid: "ops_ready ready k ch \<Longrightarrow> ops_valid valid ch"
  using ready_valid by (auto simp: ops_ready_def ops_valid_def)

lemma update_op_ready:
  assumes "ops_ready ready k ch" "i < length (ch_ops ch)"
  shows "ops_ready ready k (update_op i (op_set_parameter cls p v) ch)"
  using assms set_ready set_update_subset_insert[of "ch_ops ch" i]
  by (fastforce simp: ops_ready_def update_op_def)

lemma set_target_ok:
  fixes ch :: "('o, 'c, 'v) chain"
  assumes "target_exists ptr ch" "ops_ready ready k ch"
  shows "\<exists>ch'. set_target_parameter cls src ptr p v ch = Inr ch' \<and> chain_frame ch' = chain_frame ch \<and> ops_ready ready k ch'"
proof -
  obtain a where a: "ptr = Some a" "a \<in> set (map cop_addr (ch_ops ch)) \<or> a \<in> set (map gc_addr (ch_ctrls ch))"
    using assms(1) by (auto simp: target_exists_def split: option.splits)
  show ?thesis
  proof (cases "find_addr cop_addr a (ch_ops ch)")
    case (Some i)
    then have i: "i < length (ch_ops ch)" by (rule find_addr_SomeD)
    have "chain_frame (update_op i (op_set_parameter cls p v) ch) = chain_frame ch"
      by (simp add: chain_frame_def update_op_frame) (simp add: update_op_def)
    then show ?thesis using Some a(1) update_op_ready[OF assms(2) i] by (simp add: set_target_parameter_def)
  next
    case None
    then obtain i where i: "find_addr gc_addr a (ch_ctrls ch) = Some i" "i < length (ch_ctrls ch)"
      using a(2) find_addr_exists[of a cop_addr "ch_ops ch"] find_addr_exists[of a gc_addr "ch_ctrls ch"] by fastforce
    then show ?thesis using None a(1) assms(2)
      by (simp add: set_target_parameter_def chain_frame_def ops_ready_def map_list_update_same)
  qed
qed

lemma ctrl_value_ok:
  fixes ch :: "('o, 'c, 'v) chain"
  assumes "chain_linked ch" "ops_ready ready k ch" "n < length (ch_ctrls ch)"
  shows "\<exists>ch'. ctrl_value cls src pos n ch = Inr ch' \<and> chain_frame ch' = chain_frame ch \<and> ops_ready ready k ch'"
proof -
  define q where "q = ch_ctrls ch ! n"
  obtain sv s' where sv: "src_value src pos (gc_source q) = (sv, s')" by fastforce
  define ch1 where "ch1 = ch\<lparr>ch_ctrls := (ch_ctrls ch)[n := q\<lparr>gc_source := s'\<rparr>]\<rparr>"
  have f: "chain_frame ch1 = chain_frame ch" by (simp add: chain_frame_def ch1_def q_def map_list_update_same)
  have "target_exists (gc_target q) ch1" "ops_ready ready k ch1"
    using assms chain_frame_eq(1)[OF f] by (auto simp: chain_linked_def q_def ops_ready_def ch1_def)
  from set_target_ok[OF this] show ?thesis
    using f by (simp add: ctrl_value_def Let_def sv ch1_def flip: q_def)
qed

lemma controller_update_ok:
  fixes ch :: "('o, 'c, 'v) chain"
  assumes "chain_linked ch" "ops_ready ready k ch" "position_in_seconds_exact (ch_position ch) = Inr pos"
  shows "\<exists>ch'. controller_update cls src ch = Inr ch' \<and> chain_frame ch' = chain_frame ch \<and> ops_ready ready k ch'"
proof -
  have "\<exists>ch'. fold_result (ctrl_value cls src pos) [0..<length (ch_ctrls ch)] ch = Inr ch' \<and>
      (chain_frame ch' = chain_frame ch \<and> ops_ready ready k ch')"
  proof (rule fold_result_ok)
    fix n and ch1 :: "('o, 'c, 'v) chain"
    assume "n \<in> set [0..<length (ch_ctrls ch)]" and 1: "chain_frame ch1 = chain_frame ch \<and> ops_ready ready k ch1"
    then show "\<exists>s'. ctrl_value cls src pos n ch1 = Inr s' \<and> chain_frame s' = chain_frame ch \<and> ops_ready ready k s'"
      using ctrl_value_ok[of ch1 k n] chain_frame_eq[of ch1 ch] assms(1) by fastforce
  qed (use assms in simp)
  then show ?thesis using assms(3) by (simp add: controller_update_def)
qed

lemma ctrl_init_ok:
  fixes ch :: "('o, 'c, 'v) chain"
  assumes "chain_linked ch" "n < length (ch_ctrls ch)"
  shows "\<exists>ch'. ctrl_init cls src n ch = Inr ch' \<and> chain_frame ch' = chain_frame ch \<and> ch_ops ch' = ch_ops ch"
proof -
  have "target_exists (gc_target (ch_ctrls ch ! n)) ch" using assms by (simp add: chain_linked_def)
  then obtain v where "get_target_parameter cls src (gc_target (ch_ctrls ch ! n)) (gc_param_id (ch_ctrls ch ! n)) ch = Inr v"
    using get_target_ok by blast
  then show ?thesis by (simp add: ctrl_init_def Let_def chain_frame_def map_list_update_same)
qed

lemma refresh_ready: "ops_ready ready k ch \<Longrightarrow> ops_ready ready k (refresh_parameters cls ch)"
  using refresh_op_ready by (auto simp: ops_ready_def refresh_parameters_def)

lemma chain_init_ok:
  fixes ch :: "('o, 'c, 'v) chain"
  assumes "sb_wf slot" "chain_linked ch" "ops_valid valid ch"
  shows "\<exists>ch' slot'. chain_init cls src g ic oc ch slot = Inr (ch', slot') \<and> sb_wf slot' \<and>
    sb_buffersize slot' = sb_buffersize slot \<and> chain_frame ch' = chain_frame ch \<and> ch_initialized ch' \<and>
    ops_ready ready (length (sb_arrays slot')) ch'"
proof -
  define ch1 where "ch1 = ch\<lparr>ch_in_channels := (if ic \<noteq> 0 then ic else ch_in_channels ch),
                   ch_out_channels := (if oc \<noteq> 0 then oc else ch_out_channels ch)\<rparr>"
  have "\<forall>c \<in> set (ch_ops ch). valid (cop_obj c)" using assms(3) by (simp add: ops_valid_def)
  then obtain cs slot' where i: "init_ops cls g (ch_in_channels ch1) (ch_ops ch) slot = Inr (cs, slot')" "sb_wf slot'"
      "sb_buffersize slot' = sb_buffersize slot" "\<forall>c \<in> set cs. ready (cop_obj c) (length (sb_arrays slot'))"
    using init_ops_ready[OF assms(1)] by metis
  have "map cop_addr cs = map cop_addr (ch_ops ch)"
    using init_ops_addr[OF i(1)] .
  then have f: "chain_frame (ch1\<lparr>ch_ops := cs\<rparr>) = chain_frame ch" by (simp add: chain_frame_def ch1_def)
  have "\<exists>ch2. fold_result (ctrl_init cls src) [0..<length (ch_ctrls ch)] (ch1\<lparr>ch_ops := cs\<rparr>) = Inr ch2 \<and>
      (chain_frame ch2 = chain_frame ch \<and> ch_ops ch2 = cs)"
  proof (rule fold_result_ok)
    fix n and ch1 :: "('o, 'c, 'v) chain"
    assume "n \<in> set [0..<length (ch_ctrls ch)]" and 1: "chain_frame ch1 = chain_frame ch \<and> ch_ops ch1 = cs"
    then show "\<exists>s'. ctrl_init cls src n ch1 = Inr s' \<and> chain_frame s' = chain_frame ch \<and> ch_ops s' = cs"
      using ctrl_init_ok[of ch1 n src] chain_frame_eq[of ch1 ch] assms(2) by fastforce
  qed (use f in simp)
  then obtain ch2 where 2: "fold_result (ctrl_init cls src) [0..<length (ch_ctrls ch)] (ch1\<lparr>ch_ops := cs\<rparr>) = Inr ch2"
      "chain_frame ch2 = chain_frame ch" "ch_ops ch2 = cs" by blast
  have "ops_ready ready (length (sb_arrays slot')) (refresh_parameters cls ch2)"
    by (rule refresh_ready) (use i(4) 2(3) in \<open>simp add: ops_ready_def\<close>)
  moreover have "chain_frame (refresh_parameters cls ch2) = chain_frame ch2"
    by (simp add: chain_frame_def refresh_parameters_def)
  moreover have "chain_init cls src g ic oc ch slot = Inr ((refresh_parameters cls ch2)\<lparr>ch_initialized := True\<rparr>, slot')"
    using i(1) 2(1) by (simp add: chain_init_def Let_def ch1_def)
  ultimately show ?thesis
    using i(2,3) 2(2) by (simp add: chain_frame_def ops_ready_def)
qed

lemma chain_process_ok:
  fixes ch :: "('o, 'c, 'v) chain"
  assumes "sb_wf slot" "chain_linked ch" "ops_ready ready (length (sb_arrays slot)) ch"
    and "position_in_seconds_exact (ch_position ch) = Inr pos"
  shows "\<exists>ch' slot'. chain_process cls src g ch slot = Inr (ch', slot') \<and> sb_wf slot' \<and>
    sb_buffersize slot' = sb_buffersize slot \<and> length (sb_arrays slot) \<le> length (sb_arrays slot') \<and>
    chain_linked ch' \<and> ops_ready ready (length (sb_arrays slot')) ch' \<and>
    ch_position ch' = change_position_in_samples (int (sb_buffersize slot)) (ch_position ch)"
proof -
  obtain ch1 where c1: "controller_update cls src ch = Inr ch1" "chain_frame ch1 = chain_frame ch"
      "ops_ready ready (length (sb_arrays slot)) ch1"
    using controller_update_ok[OF assms(2-4)] by blast
  have pos: "ch_position ch1 = ch_position ch" using c1(2) by (simp add: chain_frame_def)
  have l1: "chain_linked ch1" using chain_frame_eq(2)[OF c1(2)] assms(2) by simp
  consider "ch_muted ch1" | "\<not> ch_muted ch1" "ch_bypass ch1" | "\<not> ch_muted ch1" "\<not> ch_bypass ch1" by blast
  then show ?thesis
  proof cases
    case 1
    obtain slot1 where s: "make_silent slot = Inr slot1" "sb_wf slot1" "sb_audio slot1 = audio_map (\<lambda>_ _ _. 0) (sb_audio slot)"
      using make_silent_refines[OF assms(1)] by (rule refinesE)
    have "sb_buffersize slot1 = sb_buffersize slot"
      using s(3) by (metis (no_types, lifting) audio_map_def case_prod_unfold fst_conv sb_audio_length)
    moreover have "length (sb_arrays slot1) = length (sb_arrays slot)" using make_silent_length[OF s(1)] .
    ultimately show ?thesis using 1 c1 s l1 pos
      by (simp add: chain_process_def ops_ready_def)
  next
    case 2
    then show ?thesis using c1 l1 pos assms(1)
      by (simp add: chain_process_def ops_ready_def)
  next
    case 3
    obtain cs slot1 where s: "process_ops cls g (ch_ops ch1) slot = Inr (cs, slot1)" "sb_wf slot1"
        "sb_buffersize slot1 = sb_buffersize slot" "length (sb_arrays slot) \<le> length (sb_arrays slot1)"
        "map cop_addr cs = map cop_addr (ch_ops ch1)" "\<forall>c \<in> set cs. ready (cop_obj c) (length (sb_arrays slot1))"
      using process_ops_ok[OF assms(1)] c1(3) unfolding ops_ready_def by blast
    have f: "chain_frame (ch1\<lparr>ch_ops := cs\<rparr>) = chain_frame ch1" using s(5) by (simp add: chain_frame_def)
    have "chain_linked (ch1\<lparr>ch_ops := cs\<rparr>)" using chain_frame_eq(2)[OF f] l1 by simp
    then show ?thesis using 3 c1 s pos
      by (simp add: chain_process_def ops_ready_def)
  qed
qed

lemma process_periods_ok:
  fixes ch :: "('o, 'c, 'v) chain"
  assumes "sb_wf slot" "chain_linked ch" "ops_ready ready (length (sb_arrays slot)) ch"
    and "ap_srate (ch_position ch) \<noteq> 0" "\<forall>fill \<in> set fills. keeps_buffer fill"
  shows "\<exists>ch' slot'. process_periods cls src g fills ch slot = Inr (ch', slot') \<and> sb_wf slot'"
  using assms
proof (induction fills arbitrary: ch slot)
  case (Cons fill fills)
  have f: "sb_wf (fill slot)" "length (sb_arrays slot) \<le> length (sb_arrays (fill slot))"
    using Cons.prems(1,5) by (simp_all add: keeps_buffer_def)
  have r: "ops_ready ready (length (sb_arrays (fill slot))) ch"
    using Cons.prems(3) f(2) ready_mono by (fastforce simp: ops_ready_def)
  have "position_in_seconds_exact (ch_position ch) =
      Inr (of_int (ap_position (ch_position ch)) / of_int (ap_srate (ch_position ch)))"
    using Cons.prems(4) by (simp add: position_in_seconds_exact_def seconds_exact_def)
  from chain_process_ok[OF f(1) Cons.prems(2) r this]
  obtain ch1 slot1 where 1: "chain_process cls src g ch (fill slot) = Inr (ch1, slot1)" "sb_wf slot1"
      "chain_linked ch1" "ops_ready ready (length (sb_arrays slot1)) ch1"
      "ch_position ch1 = change_position_in_samples (int (sb_buffersize (fill slot))) (ch_position ch)"
    by blast
  have "ap_srate (ch_position ch1) \<noteq> 0" using 1(5) Cons.prems(4) by (simp add: change_position_in_samples_def)
  from Cons.IH[OF 1(2-4) this] Cons.prems(5) 1(1) show ?case by simp
qed simp

lemma init_and_process_ok:
  fixes ch :: "('o, 'c, 'v) chain"
  assumes "sb_wf slot" "chain_linked ch" "ops_valid valid ch" "ap_srate (ch_position ch) \<noteq> 0"
  shows "\<exists>ch1 slot1. chain_init cls src g ic oc ch slot = Inr (ch1, slot1) \<and> ch_initialized ch1 \<and>
    (\<forall>fills. (\<forall>fill \<in> set fills. keeps_buffer fill) \<longrightarrow>
       (\<exists>ch2 slot2. process_periods cls src g fills ch1 slot1 = Inr (ch2, slot2) \<and> sb_wf slot2))"
proof -
  obtain ch1 slot1 where 1: "chain_init cls src g ic oc ch slot = Inr (ch1, slot1)" "sb_wf slot1"
      "chain_frame ch1 = chain_frame ch" "ch_initialized ch1" "ops_ready ready (length (sb_arrays slot1)) ch1"
    using chain_init_ok[OF assms(1-3)] by blast
  have "chain_linked ch1" "ap_srate (ch_position ch1) \<noteq> 0"
    using chain_frame_eq(2)[OF 1(3)] assms(2,4) 1(3) by (simp_all add: chain_frame_def)
  from process_periods_ok[OF 1(2) this(1) 1(5) this(2)] 1(1,4) show ?thesis by blast
qed

end

end
