(* ===== verification/Audio_Mixing.thy ===== *)
theory Audio_Mixing
  imports Sample_Buffer_Ops
begin

text \<open>
  Mixing seen sample by sample: the value of a buffer at a channel and a position, which is silence
  outside the audio, and what the mixing operations do to it; shared by the loop device and the
  engine. Also, no operation here takes an allocated array away.
\<close>

definition sample_at :: "'s::zero sample_buffer \<Rightarrow> nat \<Rightarrow> nat \<Rightarrow> 's" where
  "sample_at sb c t =
     (if c < sb_channel_count sb \<and> t < sb_buffersize sb then snd (sb_audio sb) ! c ! t else 0)"

lemma audio_map_simps [simp]:
  "fst (audio_map h a) = fst a" "length (snd (audio_map h a)) = length (snd a)"
  "c < length (snd a) \<Longrightarrow> t < fst a \<Longrightarrow> snd (audio_map h a) ! c ! t = h c t (snd a ! c ! t)"
  by (simp_all add: audio_map_def case_prod_beta)

lemma sb_count_of_audio: "sb_wf sb \<Longrightarrow> sb_channel_count sb = length (snd (sb_audio sb))"
  by (simp add: sb_audio_channels)

lemma sb_size_of_audio: "sb_buffersize sb = fst (sb_audio sb)"
  by simp

subsection \<open>Arrays are never taken away\<close>

definition arrays_kept :: "'s sample_buffer \<Rightarrow> 's sample_buffer \<Rightarrow> bool" where
  "arrays_kept sb sb' \<longleftrightarrow> length (sb_arrays sb) \<le> length (sb_arrays sb')"

lemma arrays_kept_refl [simp]: "arrays_kept sb sb"
  by (simp add: arrays_kept_def)

lemma arrays_kept_trans [trans]: "arrays_kept a b \<Longrightarrow> arrays_kept b c \<Longrightarrow> arrays_kept a c"
  by (simp add: arrays_kept_def)

lemma arrays_kept_on_channels: "on_channels f q n sb = Inr sb' \<Longrightarrow> arrays_kept sb sb'"
  by (auto simp: arrays_kept_def dest: on_channels_length)

lemma arrays_kept_length: "length_in_samples g n sb = Inr sb' \<Longrightarrow> arrays_kept sb sb'"
  using length_in_samples_reserved[of g n sb sb'] by (simp add: arrays_kept_def)

lemma arrays_kept_channels: "number_of_channels g n sb = Inr sb' \<Longrightarrow> arrays_kept sb sb'"
  using number_of_channels_reserved[of g n sb sb'] by (simp add: arrays_kept_def)

lemma arrays_kept_tags: "arrays_kept sb (event_tags_set x sb)"
  by (simp add: arrays_kept_def event_tags_set_def)

lemma arrays_kept_copy: "copy_all_content g x sb = Inr sb' \<Longrightarrow> arrays_kept sb sb'"
  unfolding copy_all_content_def bind_result_Inr_iff
  by (metis arrays_kept_channels arrays_kept_length arrays_kept_on_channels arrays_kept_tags arrays_kept_trans Inr_inject)

lemma arrays_kept_silent: "make_silent sb = Inr sb' \<Longrightarrow> arrays_kept sb sb'"
  unfolding make_silent_def
  by (rule fold_result_invariant[where I = "arrays_kept sb"])
    (auto simp: make_silent_channel_def intro: arrays_kept_trans dest: arrays_kept_on_channels)

lemma arrays_kept_mix:
  "bind_result (if P then length_in_samples g n sb else Inr sb) (\<lambda>sb1. on_channels (f sb1) 0 (k sb1) sb1) = Inr sb' \<Longrightarrow>
   arrays_kept sb sb'"
  by (auto simp: bind_result_Inr_iff split: if_split_asm
      intro: arrays_kept_trans dest: arrays_kept_on_channels arrays_kept_length)

subsection \<open>The operations sample by sample\<close>

lemma number_of_channels_at:
  assumes "sb_wf sb"
  shows "\<exists>sb'. number_of_channels g k sb = Inr sb' \<and> sb_wf sb' \<and> sb_channel_count sb' = k \<and>
    sb_buffersize sb' = sb_buffersize sb \<and> arrays_kept sb sb' \<and>
    (\<forall>c < k. \<forall>t. sample_at sb' c t = sample_at sb c t)"
proof -
  obtain sb' where 1: "number_of_channels g k sb = Inr sb'" "sb_wf sb'"
      "sb_audio sb' = audio_set_channels k (sb_audio sb)"
    using number_of_channels_refines[OF assms] by (rule refinesE)
  have "sb_buffersize sb' = sb_buffersize sb" unfolding sb_size_of_audio 1(3) by simp
  moreover have "sb_channel_count sb' = k" using number_of_channels_reserved(3)[OF 1(1)] .
  ultimately show ?thesis
    using 1 arrays_kept_channels[OF 1(1)] sb_audio_channels[OF assms]
    by (auto simp: sample_at_def audio_set_channels_def case_prod_beta nth_append)
qed

lemma make_silent_at:
  assumes "sb_wf sb"
  shows "\<exists>sb'. make_silent sb = Inr sb' \<and> sb_wf sb' \<and> sb_channel_count sb' = sb_channel_count sb \<and>
    sb_buffersize sb' = sb_buffersize sb \<and> arrays_kept sb sb' \<and> (\<forall>c t. sample_at sb' c t = 0)"
proof -
  obtain sb' where 1: "make_silent sb = Inr sb'" "sb_wf sb'" "sb_audio sb' = audio_map (\<lambda>_ _ _. 0) (sb_audio sb)"
    using make_silent_refines[OF assms] by (rule refinesE)
  have 2: "sb_buffersize sb' = sb_buffersize sb" unfolding sb_size_of_audio 1(3) by simp
  have 3: "sb_channel_count sb' = sb_channel_count sb"
    using 1(2,3) assms by (simp add: sb_count_of_audio)
  have "sample_at sb' c t = 0" for c t
    using 1(3) 2 3 sb_audio_channels[OF assms] by (simp add: sample_at_def)
  then show ?thesis using 1 2 3 arrays_kept_silent[OF 1(1)] by blast
qed

lemma length_in_samples_at:
  assumes "sb_wf sb"
  shows "\<exists>sb'. length_in_samples g n sb = Inr sb' \<and> sb_wf sb' \<and> sb_channel_count sb' = sb_channel_count sb \<and>
    sb_buffersize sb' = n \<and> arrays_kept sb sb' \<and>
    (\<forall>c t. sample_at sb' c t = (if t < n then sample_at sb c t else 0))"
proof -
  obtain sb' where 1: "length_in_samples g n sb = Inr sb'" "sb_wf sb'" "sb_audio sb' = audio_resize n (sb_audio sb)"
    using length_in_samples_refines[OF assms] by (rule refinesE)
  have 2: "sb_buffersize sb' = n" unfolding sb_size_of_audio 1(3) by simp
  have 3: "sb_channel_count sb' = sb_channel_count sb"
    using 1(2,3) assms by (simp add: sb_count_of_audio)
  have len: "c < sb_channel_count sb \<Longrightarrow> length (snd (sb_audio sb) ! c) = sb_buffersize sb" for c
    using sb_wfD[OF assms] by (simp add: sb_audio_def)
  have "sample_at sb' c t = (if t < n then sample_at sb c t else 0)" for c t
    using 1(3) 2 3 len[of c] sb_audio_channels[OF assms]
    by (auto simp: sample_at_def audio_resize_def case_prod_beta nth_append)
  then show ?thesis using 1 2 3 arrays_kept_length[OF 1(1)] by blast
qed

lemma mix_at:
  fixes h :: "'s::{zero,plus} \<Rightarrow> 's"
  assumes "sb_wf sb" "sb_wf x" and h: "\<And>v. v + h 0 = v"
  shows "\<exists>sb'. bind_result
      (if sb_buffersize x > sb_buffersize sb then length_in_samples g (sb_buffersize x) sb else Inr sb)
      (\<lambda>sb1. on_channels (combine_loop (\<lambda>v u. v + h u) x (sb_buffersize x)) 0
               (min (sb_channel_count sb1) (sb_channel_count x)) sb1) = Inr sb' \<and>
    sb_wf sb' \<and> sb_channel_count sb' = sb_channel_count sb \<and>
    sb_buffersize sb' = max (sb_buffersize sb) (sb_buffersize x) \<and> arrays_kept sb sb' \<and>
    (\<forall>c < sb_channel_count sb. \<forall>t < max (sb_buffersize sb) (sb_buffersize x).
       sample_at sb' c t = sample_at sb c t + h (sample_at x c t))"
proof -
  define a where "a = (if fst (sb_audio x) > fst (sb_audio sb) then audio_resize (fst (sb_audio x)) (sb_audio sb) else sb_audio sb)"
  obtain sb' where 1: "bind_result
      (if sb_buffersize x > sb_buffersize sb then length_in_samples g (sb_buffersize x) sb else Inr sb)
      (\<lambda>sb1. on_channels (combine_loop (\<lambda>v u. v + h u) x (sb_buffersize x)) 0
               (min (sb_channel_count sb1) (sb_channel_count x)) sb1) = Inr sb'"
      "sb_wf sb'" "sb_audio sb' = audio_combine (\<lambda>v u. v + h u) (sb_audio x) a"
    using mix_refines[OF assms(1,2), of g "\<lambda>v u. v + h u"] unfolding a_def by (rule refinesE)
  have fa: "fst a = max (sb_buffersize sb) (sb_buffersize x)" by (simp add: a_def)
  have la: "length (snd a) = sb_channel_count sb" using sb_audio_channels[OF assms(1)] by (simp add: a_def)
  have 2: "sb_buffersize sb' = max (sb_buffersize sb) (sb_buffersize x)"
    unfolding sb_size_of_audio[of sb'] 1(3) by (simp add: audio_combine_def fa)
  have 3: "sb_channel_count sb' = sb_channel_count sb"
    using 1(2,3) la by (simp add: sb_count_of_audio audio_combine_def)
  have len: "c < sb_channel_count sb \<Longrightarrow> length (snd (sb_audio sb) ! c) = sb_buffersize sb" for c
    using sb_wfD[OF assms(1)] by (simp add: sb_audio_def)
  have aa: "snd a ! c ! t = sample_at sb c t"
    if "c < sb_channel_count sb" "t < max (sb_buffersize sb) (sb_buffersize x)" for c t
    using that len sb_audio_channels[OF assms(1)]
    by (auto simp: a_def sample_at_def audio_resize_def case_prod_beta nth_append)
  have "sample_at sb' c t = sample_at sb c t + h (sample_at x c t)"
    if c: "c < sb_channel_count sb" and t: "t < max (sb_buffersize sb) (sb_buffersize x)" for c t
  proof -
    have "sample_at sb' c t = snd (sb_audio sb') ! c ! t" using c t 2 3 by (simp add: sample_at_def)
    also have "\<dots> = (if c < sb_channel_count x \<and> t < sb_buffersize x
        then snd a ! c ! t + h (snd (sb_audio x) ! c ! t) else snd a ! c ! t)"
      unfolding 1(3) audio_combine_def using c t fa la sb_audio_channels[OF assms(2)] by simp
    also have "\<dots> = sample_at sb c t + h (sample_at x c t)"
      unfolding aa[OF c t] by (simp add: sample_at_def[of x] h)
    finally show ?thesis .
  qed
  then show ?thesis using 1 2 3 arrays_kept_mix[OF 1(1)] by blast
qed

lemma copy_all_content_at:
  assumes "sb_wf sb" "sb_wf x"
  shows "\<exists>sb'. copy_all_content g x sb = Inr sb' \<and> sb_wf sb' \<and> sb_channel_count sb' = sb_channel_count x \<and>
    sb_buffersize sb' = sb_buffersize x \<and> arrays_kept sb sb' \<and> sb_event_tags sb' = sb_event_tags x \<and>
    (\<forall>c t. sample_at sb' c t = sample_at x c t)"
proof -
  obtain sb' where 1: "copy_all_content g x sb = Inr sb'" "sb_wf sb'" "sb_audio sb' = sb_audio x"
      "sb_event_tags sb' = sb_event_tags x"
    using copy_all_content_ok[OF assms] by blast
  have "sb_buffersize sb' = sb_buffersize x" unfolding sb_size_of_audio 1(3) by simp
  moreover have "sb_channel_count sb' = sb_channel_count x" using 1 assms by (simp add: sb_count_of_audio)
  ultimately show ?thesis using 1 arrays_kept_copy[OF 1(1)] by (simp add: sample_at_def)
qed

text \<open>Weighted addition, over a field.\<close>

lemma add_with_weight_at:
  fixes sb :: "'s::field sample_buffer"
  assumes "sb_wf sb" "sb_wf x"
  shows "\<exists>sb'. add_with_weight g cast x w sb = Inr sb' \<and> sb_wf sb' \<and> sb_channel_count sb' = sb_channel_count sb \<and>
    sb_buffersize sb' = max (sb_buffersize sb) (sb_buffersize x) \<and> arrays_kept sb sb' \<and>
    (\<forall>c < sb_channel_count sb. \<forall>t < max (sb_buffersize sb) (sb_buffersize x).
       sample_at sb' c t = sample_at sb c t + sample_at x c t / cast w)"
  unfolding add_with_weight_def by (rule mix_at[OF assms]) simp


lemma copy_matching_at:
  fixes sb :: "'s::zero sample_buffer"
  assumes "sb_wf sb" "sb_wf x"
  shows "\<exists>sb'. copy_matching_channels g x sb = Inr sb' \<and> sb_wf sb' \<and> sb_channel_count sb' = sb_channel_count sb \<and>
    sb_buffersize sb' = sb_buffersize x \<and>
    (\<forall>c < sb_channel_count sb. \<forall>t < sb_buffersize x.
       sample_at sb' c t = (if c < sb_channel_count x then sample_at x c t else sample_at sb c t))"
proof -
  define a where "a = audio_resize (fst (sb_audio x)) (sb_audio sb)"
  obtain sb' where 1: "copy_matching_channels g x sb = Inr sb'" "sb_wf sb'" "sb_audio sb' = audio_combine (\<lambda>_ u. u) (sb_audio x) a"
    using copy_matching_channels_refines[OF assms, of g] unfolding a_def by (rule refinesE)
  have fa: "fst a = sb_buffersize x" by (simp add: a_def)
  have la: "length (snd a) = sb_channel_count sb" using sb_audio_channels[OF assms(1)] by (simp add: a_def)
  have 2: "sb_buffersize sb' = sb_buffersize x"
    unfolding sb_size_of_audio[of sb'] 1(3) by (simp add: audio_combine_def fa)
  have 3: "sb_channel_count sb' = sb_channel_count sb"
    using 1(2,3) la by (simp add: sb_count_of_audio audio_combine_def)
  have len: "c < sb_channel_count sb \<Longrightarrow> length (snd (sb_audio sb) ! c) = sb_buffersize sb" for c
    using sb_wfD[OF assms(1)] by (simp add: sb_audio_def)
  have aa: "snd a ! c ! t = sample_at sb c t" if "c < sb_channel_count sb" "t < sb_buffersize x" for c t
    using that len sb_audio_channels[OF assms(1)]
    by (auto simp: a_def sample_at_def audio_resize_def case_prod_beta nth_append)
  have "sample_at sb' c t = (if c < sb_channel_count x then sample_at x c t else sample_at sb c t)"
    if c: "c < sb_channel_count sb" and t: "t < sb_buffersize x" for c t
  proof -
    have "sample_at sb' c t = snd (sb_audio sb') ! c ! t" using c t 2 3 by (simp add: sample_at_def)
    also have "\<dots> = (if c < sb_channel_count x then snd (sb_audio x) ! c ! t else snd a ! c ! t)"
      unfolding 1(3) audio_combine_def using c t fa la sb_audio_channels[OF assms(2)] by simp
    finally show ?thesis using t aa[OF c t] by (simp add: sample_at_def[of x])
  qed
  then show ?thesis using 1(1,2) 2 3 by blast
qed

lemma add_matching_at:
  fixes sb :: "'s::monoid_add sample_buffer"
  assumes "sb_wf sb" "sb_wf x"
  shows "\<exists>sb'. add_matching_channels_ref g x sb = Inr sb' \<and> sb_wf sb' \<and> sb_channel_count sb' = sb_channel_count sb \<and>
    sb_buffersize sb' = max (sb_buffersize sb) (sb_buffersize x) \<and> arrays_kept sb sb' \<and>
    (\<forall>c < sb_channel_count sb. \<forall>t < max (sb_buffersize sb) (sb_buffersize x).
       sample_at sb' c t = sample_at sb c t + sample_at x c t)"
  unfolding add_matching_channels_ref_def using mix_at[OF assms, of "\<lambda>v. v" g] by simp

lemma divide_by_at:
  fixes sb :: "'s::field sample_buffer"
  assumes "sb_wf sb"
  shows "\<exists>sb'. divide_by d sb = Inr sb' \<and> sb_wf sb' \<and> sb_channel_count sb' = sb_channel_count sb \<and>
    sb_buffersize sb' = sb_buffersize sb \<and> (\<forall>c t. sample_at sb' c t = sample_at sb c t / d)"
proof -
  have "refines (divide_by d sb) (audio_map (\<lambda>_ _ v. v * (1 / d))) sb"
    using multiply_by_ref_refines[OF assms, of "1 / d"] by (simp add: divide_by_eq_ref divide_by_ref_def)
  then obtain sb' where 1: "divide_by d sb = Inr sb'" "sb_wf sb'" "sb_audio sb' = audio_map (\<lambda>_ _ v. v * (1 / d)) (sb_audio sb)"
    by (rule refinesE)
  have 2: "sb_buffersize sb' = sb_buffersize sb" unfolding sb_size_of_audio 1(3) by simp
  have 3: "sb_channel_count sb' = sb_channel_count sb" using 1(2,3) assms by (simp add: sb_count_of_audio)
  have "sample_at sb' c t = sample_at sb c t / d" for c t
    using 1(3) 2 3 sb_audio_channels[OF assms] by (simp add: sample_at_def)
  then show ?thesis using 1(1,2) 2 3 by blast
qed

end
