(* ===== verification/Effects_Facts.thy ===== *)
theory Effects_Facts
  imports Effects Chain_Safety Audio_Mixing
begin

text \<open>
  What the effects do to the audio of a buffer, and that they meet the contract of a chain: the
  interpretation \<open>fx\<close> of \<open>operator_contract\<close>. From it, a chain of effects that has been initialised
  never faults, whatever it is given to process; refreshing the parameters of an effect changes
  nothing.
\<close>

subsection \<open>Loops over the samples of several channels\<close>

lemma write_cell_ok:
  assumes "q < length bufs" "t < length (bufs ! q)"
  obtains bufs' where "write_cell q t v bufs = Inr bufs'" "map length bufs' = map length bufs"
    "\<And>p j. p < length bufs \<Longrightarrow> j < length (bufs ! p) \<Longrightarrow>
       bufs' ! p ! j = (if p = q \<and> j = t then v else bufs ! p ! j)"
proof (rule that)
  show "write_cell q t v bufs = Inr (bufs[q := (bufs ! q)[t := v]])"
    using assms by (simp add: write_cell_def)
  show "map length (bufs[q := (bufs ! q)[t := v]]) = map length bufs"
    using assms by (auto intro!: nth_equalityI simp: nth_list_update)
qed (use assms in \<open>auto simp: nth_list_update\<close>)

lemma shapeD:
  assumes "map length bufs = map length arrays"
  shows "length bufs = length arrays" "q < length arrays \<Longrightarrow> length (bufs ! q) = length (arrays ! q)"
  using assms by (auto dest: map_eq_imp_length_eq) (metis length_map nth_map)

text \<open>
  A loop whose turn \<open>t\<close> only touches column \<open>t\<close> and sets it as a function of that column: the first
  \<open>n\<close> columns are replaced.
\<close>

lemma fold_columns:
  fixes arrays :: "'s list list"
  assumes "\<And>t bufs. t < n \<Longrightarrow> map length bufs = map length arrays \<Longrightarrow>
      (\<And>q. q < length arrays \<Longrightarrow> bufs ! q ! t = arrays ! q ! t) \<Longrightarrow>
      \<exists>bufs'. body t bufs = Inr bufs' \<and> map length bufs' = map length arrays \<and>
        (\<forall>q < length arrays. \<forall>j < length (arrays ! q). bufs' ! q ! j = (if j = t then h q t else bufs ! q ! j))"
    and "\<And>q. q < length arrays \<Longrightarrow> n \<le> length (arrays ! q)"
  shows "\<exists>bufs'. fold_result body [0..<n] arrays = Inr bufs' \<and> map length bufs' = map length arrays \<and>
    (\<forall>q < length arrays. \<forall>j < length (arrays ! q). bufs' ! q ! j = (if j < n then h q j else arrays ! q ! j))"
  using assms
proof (induction n)
  case (Suc n)
  have "\<And>q. q < length arrays \<Longrightarrow> n \<le> length (arrays ! q)" using Suc.prems(2) by (meson Suc_leD)
  then obtain b where b: "fold_result body [0..<n] arrays = Inr b" "map length b = map length arrays"
      "\<forall>q < length arrays. \<forall>j < length (arrays ! q). b ! q ! j = (if j < n then h q j else arrays ! q ! j)"
    using Suc.IH[OF Suc.prems(1)] less_SucI by blast
  have "b ! q ! n = arrays ! q ! n" if "q < length arrays" for q
    using b(3) that Suc.prems(2)[OF that] by auto
  then obtain b' where b': "body n b = Inr b'" "map length b' = map length arrays"
      "\<forall>q < length arrays. \<forall>j < length (arrays ! q). b' ! q ! j = (if j = n then h q n else b ! q ! j)"
    using Suc.prems(1)[of n b] b(2) by blast
  have "\<forall>q < length arrays. \<forall>j < length (arrays ! q). b' ! q ! j = (if j < Suc n then h q j else arrays ! q ! j)"
    using b(3) b'(3) by (auto simp: less_Suc_eq)
  then show ?case using b(1) b'(1,2) by (simp add: fold_result_append)
qed simp

lemma sample_loop_ok:
  assumes wf: "sb_wf slot"
    and body: "\<And>t bufs. t < sb_buffersize slot \<Longrightarrow> map length bufs = map length (sb_arrays slot) \<Longrightarrow>
      (\<And>q. q < length (sb_arrays slot) \<Longrightarrow> bufs ! q ! t = sb_arrays slot ! q ! t) \<Longrightarrow>
      \<exists>bufs'. body t bufs = Inr bufs' \<and> map length bufs' = map length (sb_arrays slot) \<and>
        (\<forall>q < length (sb_arrays slot). \<forall>j < sb_reserved slot. bufs' ! q ! j = (if j = t then h q t else bufs ! q ! j))"
  shows "\<exists>slot'. sample_loop body slot = Inr slot' \<and> sb_wf slot' \<and>
    sb_audio slot' = audio_map (\<lambda>q t _. h q t) (sb_audio slot) \<and> length (sb_arrays slot') = length (sb_arrays slot)"
proof -
  note w = sb_wfD[OF wf]
  have len: "q < length (sb_arrays slot) \<Longrightarrow> length (sb_arrays slot ! q) = sb_reserved slot" for q by (rule w(3))
  obtain b where b: "fold_result body [0..<sb_buffersize slot] (sb_arrays slot) = Inr b"
      "map length b = map length (sb_arrays slot)"
      "\<forall>q < length (sb_arrays slot). \<forall>j < length (sb_arrays slot ! q).
         b ! q ! j = (if j < sb_buffersize slot then h q j else sb_arrays slot ! q ! j)"
    using fold_columns[of "sb_buffersize slot" "sb_arrays slot" body h] body w(2) len by (auto 0 3)
  have lb: "length b = length (sb_arrays slot)" "q < length b \<Longrightarrow> length (b ! q) = sb_reserved slot" for q
    using shapeD[OF b(2)] len by simp_all
  have "sb_wf (slot\<lparr>sb_arrays := b\<rparr>)"
    using wf lb by (auto simp: sb_wf_def in_set_conv_nth)
  moreover have "sb_audio (slot\<lparr>sb_arrays := b\<rparr>) = audio_map (\<lambda>q t _. h q t) (sb_audio slot)"
    unfolding sb_audio_def audio_map_def using b(3) lb len w(1,2)
    by (auto intro!: nth_equalityI)
  ultimately show ?thesis using b(1) lb(1) by (simp add: sample_loop_def)
qed

subsection \<open>What the effects do\<close>

definition copied :: "nat \<Rightarrow> nat \<Rightarrow> 's audio \<Rightarrow> 's audio" where
  "copied f d a = audio_map (\<lambda>q t v. if q = d then snd a ! f ! t else v) a"

definition moved :: "nat \<Rightarrow> nat \<Rightarrow> 's::zero audio \<Rightarrow> 's audio" where
  "moved f d a = audio_map (\<lambda>q t v. if q = f then 0 else if q = d then snd a ! f ! t else v) a"

lemma audio_map_eqI:
  assumes "sb_wf slot"
    and "\<And>q t. q < sb_channel_count slot \<Longrightarrow> t < sb_buffersize slot \<Longrightarrow>
      h q t (sb_arrays slot ! q ! t) = h' q t (sb_arrays slot ! q ! t)"
  shows "audio_map h (sb_audio slot) = audio_map h' (sb_audio slot)"
  using assms by (auto simp: audio_map_def sb_audio_def sb_wf_def)

lemma ch_in_rangeD:
  assumes "ch_in_range c slot" "sb_wf slot"
  shows "nat (ch_int c) < sb_channel_count slot" "nat (ch_int c) < length (sb_arrays slot)"
  using assms by (auto simp: ch_in_range_def sb_wf_def)

lemma channel_copy_ok:
  assumes wf: "sb_wf slot"
  shows "\<exists>slot'. channel_copy fr to slot = Inr slot' \<and> sb_wf slot' \<and>
    length (sb_arrays slot') = length (sb_arrays slot) \<and>
    sb_audio slot' = (if ch_in_range fr slot \<and> ch_in_range to slot
                      then copied (nat (ch_int fr)) (nat (ch_int to)) (sb_audio slot) else sb_audio slot)"
proof (cases "ch_in_range fr slot \<and> ch_in_range to slot")
  case True
  define f d where "f = nat (ch_int fr)" "d = nat (ch_int to)"
  define body where "body = (\<lambda>t bufs. bind_result (read_cell bufs f t) (\<lambda>v. write_cell d t v bufs) :: 'a list list result)"
  note w = sb_wfD[OF wf]
  have fd: "f < sb_channel_count slot" "d < sb_channel_count slot" "f < length (sb_arrays slot)" "d < length (sb_arrays slot)"
    using True ch_in_rangeD[OF _ wf] by (auto simp: f_d_def)
  have "\<exists>slot'. sample_loop body slot = Inr slot' \<and> sb_wf slot' \<and>
      sb_audio slot' = audio_map (\<lambda>q t _. if q = d then sb_arrays slot ! f ! t else sb_arrays slot ! q ! t) (sb_audio slot) \<and>
      length (sb_arrays slot') = length (sb_arrays slot)"
  proof (rule sample_loop_ok[OF wf])
    fix t and bufs :: "'a list list"
    assume t: "t < sb_buffersize slot" and sh: "map length bufs = map length (sb_arrays slot)"
      and col: "\<And>q. q < length (sb_arrays slot) \<Longrightarrow> bufs ! q ! t = sb_arrays slot ! q ! t"
    note s = shapeD[OF sh]
    have tr: "t < sb_reserved slot" using t w(2) by simp
    obtain b' where b': "write_cell d t (bufs ! f ! t) bufs = Inr b'" "map length b' = map length bufs"
        "\<And>p j. p < length bufs \<Longrightarrow> j < length (bufs ! p) \<Longrightarrow>
           b' ! p ! j = (if p = d \<and> j = t then bufs ! f ! t else bufs ! p ! j)"
      using write_cell_ok[of d bufs t "bufs ! f ! t"] s fd w(3) tr by auto
    have "body t bufs = Inr b'"
      using b'(1) s fd w(3) tr by (simp add: body_def)
    then show "\<exists>bufs'. body t bufs = Inr bufs' \<and> map length bufs' = map length (sb_arrays slot) \<and>
        (\<forall>q < length (sb_arrays slot). \<forall>j < sb_reserved slot. bufs' ! q ! j =
          (if j = t then (if q = d then sb_arrays slot ! f ! t else sb_arrays slot ! q ! t) else bufs ! q ! j))"
      using b'(2,3) sh s w(3) col fd by auto
  qed
  moreover have "audio_map (\<lambda>q t _. if q = d then sb_arrays slot ! f ! t else sb_arrays slot ! q ! t) (sb_audio slot)
      = copied f d (sb_audio slot)"
    unfolding copied_def by (rule audio_map_eqI[OF wf]) (use fd w in \<open>auto simp: sb_audio_def\<close>)
  ultimately show ?thesis
    using True by (auto simp: channel_copy_def body_def f_d_def)
qed (use wf in \<open>auto simp: channel_copy_def\<close>)



lemma channel_move_ok:
  assumes wf: "sb_wf slot"
  shows "\<exists>slot'. channel_move fr to slot = Inr slot' \<and> sb_wf slot' \<and>
    length (sb_arrays slot') = length (sb_arrays slot) \<and>
    sb_audio slot' = (if ch_in_range fr slot \<and> ch_in_range to slot \<and> fr \<noteq> to
                      then moved (nat (ch_int fr)) (nat (ch_int to)) (sb_audio slot) else sb_audio slot)"
proof (cases "ch_in_range fr slot \<and> ch_in_range to slot")
  case True
  define f d where "f = nat (ch_int fr)" "d = nat (ch_int to)"
  define h where "h = (\<lambda>q t. if fr \<noteq> to \<and> q = f then 0 else if q = d then sb_arrays slot ! f ! t
                              else sb_arrays slot ! q ! t)"
  define body where "body = (\<lambda>t bufs. bind_result (read_cell bufs f t) (\<lambda>v.
             bind_result (write_cell d t v bufs) (\<lambda>bufs1.
             if fr \<noteq> to then write_cell f t silent_value bufs1 else Inr bufs1)) :: 'a list list result)"
  note w = sb_wfD[OF wf]
  have fd: "f < sb_channel_count slot" "d < sb_channel_count slot" "f < length (sb_arrays slot)" "d < length (sb_arrays slot)"
    using True ch_in_rangeD[OF _ wf] by (auto simp: f_d_def)
  have "\<exists>slot'. sample_loop body slot = Inr slot' \<and> sb_wf slot' \<and>
      sb_audio slot' = audio_map (\<lambda>q t _. h q t) (sb_audio slot) \<and>
      length (sb_arrays slot') = length (sb_arrays slot)"
  proof (rule sample_loop_ok[OF wf])
    fix t and bufs :: "'a list list"
    assume t: "t < sb_buffersize slot" and sh: "map length bufs = map length (sb_arrays slot)"
      and col: "\<And>q. q < length (sb_arrays slot) \<Longrightarrow> bufs ! q ! t = sb_arrays slot ! q ! t"
    note s = shapeD[OF sh]
    have tr: "t < sb_reserved slot" using t w(2) by simp
    obtain b1 where b1: "write_cell d t (bufs ! f ! t) bufs = Inr b1" "map length b1 = map length bufs"
        "\<And>p j. p < length bufs \<Longrightarrow> j < length (bufs ! p) \<Longrightarrow>
           b1 ! p ! j = (if p = d \<and> j = t then bufs ! f ! t else bufs ! p ! j)"
      using write_cell_ok[of d bufs t "bufs ! f ! t"] s fd w(3) tr by auto
    note s1 = shapeD[OF b1(2)]
    obtain b2 where b2: "write_cell f t 0 b1 = Inr b2" "map length b2 = map length b1"
        "\<And>p j. p < length b1 \<Longrightarrow> j < length (b1 ! p) \<Longrightarrow>
           b2 ! p ! j = (if p = f \<and> j = t then 0 else b1 ! p ! j)"
      using write_cell_ok[of f b1 t 0] s s1 fd w(3) tr by auto
    have "body t bufs = Inr (if fr \<noteq> to then b2 else b1)"
      using b1(1) b2(1) s fd w(3) tr by (simp add: body_def)
    moreover have "map length (if fr \<noteq> to then b2 else b1) = map length (sb_arrays slot)"
      using b1(2) b2(2) sh by simp
    moreover have "\<forall>q < length (sb_arrays slot). \<forall>j < sb_reserved slot.
        (if fr \<noteq> to then b2 else b1) ! q ! j = (if j = t then h q t else bufs ! q ! j)"
      using b1(3) b2(3) s s1 w(3) col fd by (auto simp: h_def)
    ultimately show "\<exists>bufs'. body t bufs = Inr bufs' \<and> map length bufs' = map length (sb_arrays slot) \<and>
        (\<forall>q < length (sb_arrays slot). \<forall>j < sb_reserved slot. bufs' ! q ! j = (if j = t then h q t else bufs ! q ! j))"
      by blast
  qed
  moreover have "audio_map (\<lambda>q t _. h q t) (sb_audio slot) =
      (if fr \<noteq> to then moved f d (sb_audio slot) else sb_audio slot)"
  proof (cases "fr = to")
    case False
    have "audio_map (\<lambda>q t _. h q t) (sb_audio slot) = moved f d (sb_audio slot)"
      unfolding moved_def by (rule audio_map_eqI[OF wf]) (use fd w False in \<open>auto simp: sb_audio_def h_def\<close>)
    then show ?thesis using False by simp
  next
    case eq: True
    have "audio_map (\<lambda>q t _. h q t) (sb_audio slot) = audio_map (\<lambda>_ _ v. v) (sb_audio slot)"
      by (rule audio_map_eqI[OF wf]) (use eq in \<open>auto simp: h_def f_d_def\<close>)
    also have "\<dots> = sb_audio slot"
      using w by (auto simp: audio_map_def sb_audio_def intro!: nth_equalityI)
    finally show ?thesis using eq by simp
  qed
  ultimately show ?thesis
    using True by (auto simp: channel_move_def body_def f_d_def)
qed (use wf in \<open>auto simp: channel_move_def\<close>)

definition mixed :: "nat \<Rightarrow> nat \<Rightarrow> rat sample_buffer \<Rightarrow> rat audio" where
  "mixed n d slot = audio_map (\<lambda>q t v. if q = d then (\<Sum>c<n. sb_arrays slot ! c ! t) / of_nat n else v) (sb_audio slot)"

lemma fold_sum:
  assumes "\<And>c. c < n \<Longrightarrow> f c = Inr (g c)"
  shows "fold_result (\<lambda>c sum. bind_result (f c) (\<lambda>v. Inr (sum + v))) [0..<n] (0 :: rat) = Inr (\<Sum>c<n. g c)"
  using assms by (induction n) (simp_all add: fold_result_append)

lemma mix_to_channel_ok:
  assumes wf: "sb_wf slot" and n: "n \<le> length (sb_arrays slot)"
  shows "\<exists>slot'. mix_to_channel n to slot = Inr slot' \<and> sb_wf slot' \<and>
    length (sb_arrays slot') = length (sb_arrays slot) \<and>
    sb_audio slot' = (if ch_in_range to slot then mixed n (nat (ch_int to)) slot else sb_audio slot)"
proof (cases "ch_in_range to slot")
  case True
  define d where "d = nat (ch_int to)"
  define m where "m = (\<lambda>t. (\<Sum>c<n. sb_arrays slot ! c ! t) / of_nat n)"
  define body where "body = (\<lambda>t bufs.
             bind_result (fold_result (\<lambda>n sum. bind_result (read_cell bufs n t) (\<lambda>v. Inr (sum + v)))
                            [0..<n] silent_value) (\<lambda>sum.
             write_cell d t (sum / of_nat n) bufs) :: rat list list result)"
  note w = sb_wfD[OF wf]
  have d: "d < sb_channel_count slot" "d < length (sb_arrays slot)"
    using True ch_in_rangeD[OF _ wf] by (auto simp: d_def)
  have "\<exists>slot'. sample_loop body slot = Inr slot' \<and> sb_wf slot' \<and>
      sb_audio slot' = audio_map (\<lambda>q t _. if q = d then m t else sb_arrays slot ! q ! t) (sb_audio slot) \<and>
      length (sb_arrays slot') = length (sb_arrays slot)"
  proof (rule sample_loop_ok[OF wf])
    fix t and bufs :: "rat list list"
    assume t: "t < sb_buffersize slot" and sh: "map length bufs = map length (sb_arrays slot)"
      and col: "\<And>q. q < length (sb_arrays slot) \<Longrightarrow> bufs ! q ! t = sb_arrays slot ! q ! t"
    note s = shapeD[OF sh]
    have tr: "t < sb_reserved slot" using t w(2) by simp
    obtain b' where b': "write_cell d t (m t) bufs = Inr b'" "map length b' = map length bufs"
        "\<And>p j. p < length bufs \<Longrightarrow> j < length (bufs ! p) \<Longrightarrow>
           b' ! p ! j = (if p = d \<and> j = t then m t else bufs ! p ! j)"
      using write_cell_ok[of d bufs t "m t"] s d w(3) tr by auto
    have "fold_result (\<lambda>n sum. bind_result (read_cell bufs n t) (\<lambda>v. Inr (sum + v))) [0..<n] (0 :: rat)
        = Inr (\<Sum>c<n. sb_arrays slot ! c ! t)"
      by (rule fold_sum) (use n s w(3) tr col in simp)
    then have "body t bufs = Inr b'"
      using b'(1) by (simp add: body_def m_def)
    then show "\<exists>bufs'. body t bufs = Inr bufs' \<and> map length bufs' = map length (sb_arrays slot) \<and>
        (\<forall>q < length (sb_arrays slot). \<forall>j < sb_reserved slot. bufs' ! q ! j =
          (if j = t then (if q = d then m t else sb_arrays slot ! q ! t) else bufs ! q ! j))"
      using b'(2,3) sh s w(3) col d by auto
  qed
  moreover have "audio_map (\<lambda>q t _. if q = d then m t else sb_arrays slot ! q ! t) (sb_audio slot) = mixed n d slot"
    unfolding mixed_def by (rule audio_map_eqI[OF wf]) (simp add: m_def)
  ultimately show ?thesis
    using True by (auto simp: mix_to_channel_def body_def d_def)
qed (use wf in \<open>auto simp: mix_to_channel_def\<close>)

text \<open>Routing: destination \<open>d\<close> receives the channel the map names, or silence.\<close>

definition routed :: "int list \<Rightarrow> 's::zero audio \<Rightarrow> nat \<Rightarrow> nat \<Rightarrow> 's" where
  "routed chsrc a d t =
     (if 0 \<le> chsrc ! d \<and> chsrc ! d < int (length (snd a)) then snd a ! nat (chsrc ! d) ! t else 0)"

lemma order_channel_refines:
  assumes wf: "sb_wf slot" "sb_wf bounce" and d: "d < length chsrc" "d < sb_channel_count slot"
    and n: "sb_buffersize bounce = sb_buffersize slot"
  shows "refines (order_channel bounce chsrc d slot)
    (audio_map (\<lambda>q t v. if q = d then routed chsrc (sb_audio bounce) d t else v)) slot"
proof (cases "0 \<le> chsrc ! d \<and> chsrc ! d < int (sb_channel_count bounce)")
  case True
  define s where "s = nat (chsrc ! d)"
  have s: "s < sb_channel_count bounce" using True by (simp add: s_def nat_less_iff)
  note wb = sb_wfD[OF wf(2)]
  let ?f = "\<lambda>_ t _. read_cell (sb_arrays bounce) s t"
  have "refines (on_channels (\<lambda>c. update_loop (?f c) 0 (sb_buffersize slot)) d 1 slot)
      (audio_map (\<lambda>q t v. if d \<le> q \<and> q < d + 1 \<and> 0 \<le> t \<and> t < 0 + sb_buffersize slot
         then sb_arrays bounce ! s ! t else v)) slot"
    by (rule on_channels_refines) (use wf(1) d(2) s wb n in \<open>auto intro!: read_cell_ok\<close>)
  then have "refines (on_channels (\<lambda>c. update_loop (?f c) 0 (sb_buffersize slot)) d 1 slot)
      (audio_map (\<lambda>q t v. if q = d then routed chsrc (sb_audio bounce) d t else v)) slot"
    by (rule refines_audio_map_cong)
      (use True s wb n wf in \<open>auto simp: routed_def s_def sb_audio_channels sb_audio_def\<close>)
  then show ?thesis using True d n by (simp add: order_channel_def Let_def s_def)
next
  case False
  have "refines (make_silent_channel d slot) (audio_map (\<lambda>q t v. if q = d then 0 else v)) slot"
    by (rule make_silent_channel_refines) (use wf d in auto)
  then have "refines (make_silent_channel d slot)
      (audio_map (\<lambda>q t v. if q = d then routed chsrc (sb_audio bounce) d t else v)) slot"
    by (rule refines_audio_map_cong) (use False wf in \<open>auto simp: routed_def sb_audio_channels\<close>)
  moreover have "order_channel bounce chsrc d slot = make_silent_channel d slot"
    using False d by (auto simp: order_channel_def Let_def)
  ultimately show ?thesis by simp
qed

lemma audio_eqI:
  assumes "sb_wf slot" "fst a = sb_buffersize slot" "length (snd a) = sb_channel_count slot"
    "\<And>c. c < sb_channel_count slot \<Longrightarrow> length (snd a ! c) = sb_buffersize slot"
    "\<And>c t. c < sb_channel_count slot \<Longrightarrow> t < sb_buffersize slot \<Longrightarrow> snd (sb_audio slot) ! c ! t = snd a ! c ! t"
  shows "sb_audio slot = a"
proof (rule prod_eqI)
  note w = sb_wfD[OF assms(1)]
  show "fst (sb_audio slot) = fst a" using assms(2) by simp
  show "snd (sb_audio slot) = snd a"
  proof (rule nth_equalityI)
    show "length (snd (sb_audio slot)) = length (snd a)" using assms(1,3) by (simp add: sb_audio_channels)
    fix c assume "c < length (snd (sb_audio slot))"
    then have c: "c < sb_channel_count slot" using assms(1) by (simp add: sb_audio_channels)
    have "length (snd (sb_audio slot) ! c) = sb_buffersize slot" using c w by (simp add: sb_audio_def)
    then show "snd (sb_audio slot) ! c = snd a ! c"
      using assms(4,5)[OF c] by (intro nth_equalityI) simp_all
  qed
qed

lemma make_silent_channel_length:
  "make_silent_channel c sb = Inr sb' \<Longrightarrow> length (sb_arrays sb') = length (sb_arrays sb)"
  by (auto simp: make_silent_channel_def dest: on_channels_length)

lemma order_channel_length:
  "order_channel bounce chsrc d slot = Inr slot' \<Longrightarrow> length (sb_arrays slot') = length (sb_arrays slot)"
  by (auto simp: order_channel_def Let_def split: if_split_asm dest: on_channels_length make_silent_channel_length)

lemma order_channels_ok:
  assumes wf: "sb_wf slot" "sb_wf bounce" and k: "k \<le> length chsrc" "k \<le> sb_channel_count slot"
    and n: "sb_buffersize bounce = sb_buffersize slot"
  shows "\<exists>slot'. fold_result (order_channel bounce chsrc) [0..<k] slot = Inr slot' \<and> sb_wf slot' \<and>
    sb_buffersize slot' = sb_buffersize slot \<and> sb_channel_count slot' = sb_channel_count slot \<and>
    length (sb_arrays slot') = length (sb_arrays slot) \<and>
    (\<forall>d < k. \<forall>t < sb_buffersize slot. snd (sb_audio slot') ! d ! t = routed chsrc (sb_audio bounce) d t)"
  using k
proof (induction k)
  case (Suc k)
  then obtain s1 where 1: "fold_result (order_channel bounce chsrc) [0..<k] slot = Inr s1" "sb_wf s1"
      "sb_buffersize s1 = sb_buffersize slot" "sb_channel_count s1 = sb_channel_count slot"
      "length (sb_arrays s1) = length (sb_arrays slot)"
      "\<forall>d < k. \<forall>t < sb_buffersize slot. snd (sb_audio s1) ! d ! t = routed chsrc (sb_audio bounce) d t"
    by auto
  define h where "h = (\<lambda>q t v. if q = k then routed chsrc (sb_audio bounce) k t else v)"
  have "refines (order_channel bounce chsrc k s1) (audio_map h) s1"
    unfolding h_def by (rule order_channel_refines) (use 1 Suc.prems n wf in auto)
  then obtain s2 where 2: "order_channel bounce chsrc k s1 = Inr s2" "sb_wf s2" "sb_audio s2 = audio_map h (sb_audio s1)"
    by (rule refinesE)
  have len: "length (snd (sb_audio s1)) = sb_channel_count slot" using 1(2,4) by (simp add: sb_audio_channels)
  have "sb_buffersize s2 = sb_buffersize slot" using 2(3) 1(3) by (simp flip: sb_audio_length)
  moreover have "sb_channel_count s2 = sb_channel_count slot"
    using 2(2,3) len by (metis audio_map_simps(2) sb_audio_channels)
  moreover have "snd (sb_audio s2) ! d ! t = routed chsrc (sb_audio bounce) d t"
    if "d < Suc k" "t < sb_buffersize slot" for d t
    using that 1(3,6) 2(3) len Suc.prems(2) by (auto simp: h_def less_Suc_eq)
  ultimately show ?case
    using 1(1,5) 2(1,2) order_channel_length[OF 2(1)] by (simp add: fold_result_append)
qed (use wf in simp)

lemma channel_order_ok:
  assumes wf: "sb_wf slot" "sb_wf bounce" and k: "nat out_ch \<le> length chsrc" "nat out_ch \<le> sb_channel_count slot"
  shows "\<exists>bounce' slot'. channel_order g bounce chsrc out_ch slot = Inr (bounce', slot') \<and>
    sb_wf bounce' \<and> sb_wf slot' \<and> length (sb_arrays slot') = length (sb_arrays slot) \<and>
    sb_audio slot' = (sb_buffersize slot,
      map (\<lambda>d. map (routed chsrc (sb_audio slot) d) [0..<sb_buffersize slot]) [0..<nat out_ch])"
proof -
  obtain b1 where b1: "copy_all_content g slot bounce = Inr b1" "sb_wf b1" "sb_audio b1 = sb_audio slot"
    using copy_all_content_ok[OF wf(2,1)] by blast
  have n: "sb_buffersize b1 = sb_buffersize slot" using b1(3) by (metis sb_audio_length)
  obtain s1 where s1: "fold_result (order_channel b1 chsrc) [0..<nat out_ch] slot = Inr s1" "sb_wf s1"
      "sb_buffersize s1 = sb_buffersize slot" "sb_channel_count s1 = sb_channel_count slot"
      "length (sb_arrays s1) = length (sb_arrays slot)"
      "\<forall>d < nat out_ch. \<forall>t < sb_buffersize slot. snd (sb_audio s1) ! d ! t = routed chsrc (sb_audio slot) d t"
    using order_channels_ok[OF wf(1) b1(2) k n] b1(3) by auto
  obtain s2 where s2: "number_of_channels g (nat out_ch) s1 = Inr s2" "sb_wf s2"
      "sb_audio s2 = audio_set_channels (nat out_ch) (sb_audio s1)"
    using number_of_channels_refines[OF s1(2)] by (rule refinesE)
  note r = number_of_channels_reserved[OF s2(1)]
  have bs: "sb_buffersize s2 = sb_buffersize slot" using s2(3) s1(3) by (simp flip: sb_audio_length)
  have l1: "length (snd (sb_audio s1)) = sb_channel_count slot" using s1(2,4) by (simp add: sb_audio_channels)
  have "sb_audio s2 = (sb_buffersize slot,
      map (\<lambda>d. map (routed chsrc (sb_audio slot) d) [0..<sb_buffersize slot]) [0..<nat out_ch])"
  proof (rule audio_eqI[OF s2(2)])
    fix c t assume "c < sb_channel_count s2" "t < sb_buffersize s2"
    then show "snd (sb_audio s2) ! c ! t = snd (sb_buffersize slot,
        map (\<lambda>d. map (routed chsrc (sb_audio slot) d) [0..<sb_buffersize slot]) [0..<nat out_ch]) ! c ! t"
      using s2(3) s1(6) l1 k(2) r(3) bs by (simp add: audio_set_channels_def case_prod_beta nth_append)
  qed (use bs r in simp_all)
  moreover have "length (sb_arrays s2) = length (sb_arrays slot)"
    using r(2) s1(5) k(2) sb_wfD(1)[OF wf(1)] by simp
  ultimately show ?thesis using b1(1,2) s1(1) s2(1,2) by (simp add: channel_order_def)
qed

subsection \<open>The effects meet the contract of a chain\<close>

text \<open>Ready for a buffer with \<open>k\<close> arrays.\<close>

fun effect_ready :: "effect \<Rightarrow> nat \<Rightarrow> bool" where
  "effect_ready (Mix_to_channel n to) k = (n \<le> k)"
| "effect_ready (Channel_order bounce chsrc out_ch) k = (sb_wf bounce \<and> out_ch = highest_routed chsrc)"
| "effect_ready _ k = True"

lemma highest_routed_le: "nat (highest_routed chsrc) \<le> length chsrc"
  using length_dropWhile_le[of "\<lambda>c. c < 0" "rev chsrc"] by (simp add: highest_routed_def)

lemma multiply_by_ok:
  assumes "sb_wf slot"
  shows "\<exists>slot'. multiply_by k slot = Inr slot' \<and> sb_wf slot' \<and> sb_buffersize slot' = sb_buffersize slot \<and>
    length (sb_arrays slot') = length (sb_arrays slot)"
  using multiply_by_ref_refines[OF assms, of k] on_channels_length
  by (fastforce simp: multiply_by_eq_ref multiply_by_ref_def elim: refinesE)

lemma amplify_channel_ok:
  assumes "sb_wf slot" "ch < int (sb_channel_count slot)"
  shows "\<exists>slot'. amplify_channel k ch n slot = Inr slot' \<and> sb_wf slot' \<and> sb_buffersize slot' = sb_buffersize slot \<and>
    length (sb_arrays slot') = length (sb_arrays slot)"
proof (cases "0 \<le> ch \<and> ch < int n")
  case True
  then have "nat ch < sb_channel_count slot" using assms(2) by (simp add: nat_less_iff)
  from multiply_by_channel_refines[OF assms(1) this, of k] show ?thesis
    using True on_channels_length
    by (fastforce simp: amplify_channel_def multiply_by_channel_def elim: refinesE)
qed (use assms in \<open>auto simp: amplify_channel_def\<close>)

lemma at_least_le: "at_least n c \<le> n \<Longrightarrow> c \<le> int n"
  by (auto simp: at_least_def split: if_split_asm)

lemma buffersize_of_audio: "sb_audio slot' = a \<Longrightarrow> fst a = sb_buffersize slot \<Longrightarrow> sb_buffersize slot' = sb_buffersize slot"
  by (metis sb_audio_length)

lemma effect_process_ok:
  assumes "sb_wf slot" "effect_ready e (length (sb_arrays slot))"
    and "effect_output_channels (sb_channel_count slot) e \<le> sb_channel_count slot"
  shows "\<exists>e' slot'. effect_process g slot e = Inr (e', slot') \<and> sb_wf slot' \<and>
    sb_buffersize slot' = sb_buffersize slot \<and> length (sb_arrays slot) \<le> length (sb_arrays slot') \<and>
    effect_ready e' (length (sb_arrays slot))"
proof (cases e)
  case (Amplify k)
  then show ?thesis using multiply_by_ok[OF assms(1), of k] by auto
next
  case (Amplify_channel k ch n)
  then have "ch < int (sb_channel_count slot)" using assms(3) by (auto dest: at_least_le)
  then show ?thesis using Amplify_channel amplify_channel_ok[OF assms(1), of ch k n] by auto
next
  case (Channel_mute ch n)
  then have "ch < int (sb_channel_count slot)" using assms(3) by (auto dest: at_least_le)
  then show ?thesis using Channel_mute amplify_channel_ok[OF assms(1), of ch 0 n] by auto
next
  case (Channel_copy fr to)
  obtain slot' where "channel_copy fr to slot = Inr slot'" "sb_wf slot'" "length (sb_arrays slot') = length (sb_arrays slot)"
      and a: "sb_audio slot' = (if ch_in_range fr slot \<and> ch_in_range to slot
                then copied (nat (ch_int fr)) (nat (ch_int to)) (sb_audio slot) else sb_audio slot)"
    using channel_copy_ok[OF assms(1), of fr to] by blast
  then show ?thesis using Channel_copy buffersize_of_audio[OF a, of slot] by (simp add: copied_def)
next
  case (Channel_move fr to)
  obtain slot' where "channel_move fr to slot = Inr slot'" "sb_wf slot'" "length (sb_arrays slot') = length (sb_arrays slot)"
      and a: "sb_audio slot' = (if ch_in_range fr slot \<and> ch_in_range to slot \<and> fr \<noteq> to
                then moved (nat (ch_int fr)) (nat (ch_int to)) (sb_audio slot) else sb_audio slot)"
    using channel_move_ok[OF assms(1), of fr to] by blast
  then show ?thesis using Channel_move buffersize_of_audio[OF a, of slot] by (simp add: moved_def)
next
  case (Mix_to_channel n to)
  then have n: "n \<le> length (sb_arrays slot)" using assms(2) by simp
  obtain slot' where "mix_to_channel n to slot = Inr slot'" "sb_wf slot'" "length (sb_arrays slot') = length (sb_arrays slot)"
      and a: "sb_audio slot' = (if ch_in_range to slot then mixed n (nat (ch_int to)) slot else sb_audio slot)"
    using mix_to_channel_ok[OF assms(1) n, of to] by blast
  then show ?thesis using Mix_to_channel n buffersize_of_audio[OF a, of slot] by (simp add: mixed_def)
next
  case (Channel_order bounce chsrc out_ch)
  then have b: "sb_wf bounce" "out_ch = highest_routed chsrc" "nat out_ch \<le> sb_channel_count slot"
    using assms(2,3) by simp_all
  obtain bounce' slot' where "channel_order g bounce chsrc out_ch slot = Inr (bounce', slot')" "sb_wf bounce'" "sb_wf slot'"
      "length (sb_arrays slot') = length (sb_arrays slot)"
      and a: "sb_audio slot' = (sb_buffersize slot,
        map (\<lambda>d. map (routed chsrc (sb_audio slot) d) [0..<sb_buffersize slot]) [0..<nat out_ch])"
    using channel_order_ok[OF assms(1) b(1), of out_ch chsrc g] b(2,3) highest_routed_le by blast
  then show ?thesis using Channel_order b(2) buffersize_of_audio[OF a, of slot] by simp
qed

lemma effect_init_ready:
  assumes "sb_wf slot" "effect_ready e k" shows "effect_ready (effect_init g slot e) (length (sb_arrays slot))"
proof (cases e)
  case (Channel_order bounce chsrc out_ch)
  then have "sb_wf bounce" using assms(2) by simp
  then obtain b1 where 1: "number_of_channels g (sb_channel_count slot) bounce = Inr b1" "sb_wf b1"
    using number_of_channels_refines by (blast elim: refinesE)
  obtain b2 where 2: "length_in_samples g (sb_buffersize slot) b1 = Inr b2" "sb_wf b2"
    using length_in_samples_refines[OF 1(2)] by (blast elim: refinesE)
  then show ?thesis using Channel_order 1 2 assms(2) by simp
qed (use sb_wfD(1)[OF assms(1)] in simp_all)

lemma effect_set_ready: "effect_ready e k \<Longrightarrow> effect_ready (effect_set_parameter p v e) k"
  by (cases e) (simp_all add: route_channel_def Let_def)

interpretation fx: controlled_operators "effect_class g" effect_ready "\<lambda>e. \<exists>k. effect_ready e k" for g
proof unfold_locales
  fix e :: effect and k k' :: nat
  show "effect_ready e k \<Longrightarrow> k \<le> k' \<Longrightarrow> effect_ready e k'" by (cases e) auto
next
  fix n and e :: effect
  show "n < op_output_channels (effect_class g) n e \<Longrightarrow>
      op_output_channels (effect_class g) (op_output_channels (effect_class g) n e) e \<le>
      op_output_channels (effect_class g) n e"
    by (cases e) (auto simp: effect_class_def at_least_def split: if_split_asm)
qed (auto simp: effect_class_def effect_init_ready effect_set_ready effect_process_ok)

subsection \<open>Properties\<close>


text \<open>Effects whose parameters fit their types.\<close>

definition effect_valid :: "effect \<Rightarrow> bool" where
  "effect_valid e = (case e of
     Channel_mute ch n \<Rightarrow> -1 \<le> ch \<and> ch + 1 < 2 ^ 64
   | Channel_order bounce chsrc out_ch \<Rightarrow> out_ch = highest_routed chsrc
   | _ \<Rightarrow> True)"

lemma trunc_int_of_int [simp]: "trunc_int (of_int n) = n" "trunc_int (of_nat m) = int m"
  by (simp_all add: trunc_int_def)

lemma trunc_int_unsigned [simp]: "trunc_int (unsigned w) = uint (w :: 64 word)"
proof -
  have "(unsigned w :: rat) = of_int (uint w)" by simp
  then show ?thesis by (simp only: trunc_int_of_int)
qed

lemma to_ch_type_ch_param: "to_ch_type (ch_param c) - 1 = c"
  by (simp add: to_ch_type_def ch_param_def)

lemma to_ch_type_of_int: "to_ch_type (of_int n) = word_of_int n"
  by (simp add: to_ch_type_def)

lemma uint_of_small: "0 \<le> n \<Longrightarrow> n < 2 ^ 64 \<Longrightarrow> int (unat (word_of_int n :: 64 word)) = n"
  by (simp add: uint_word_of_int take_bit_int_eq_self)

lemma route_same:
  assumes "out_ch = highest_routed chsrc" "0 < p" "p \<le> out_ch"
  shows "route_channel p (of_int (chsrc ! nat (p - 1) + 1)) bounce chsrc out_ch = Channel_order bounce chsrc out_ch"
proof -
  have "p \<le> int (length chsrc)" using assms highest_routed_le[of chsrc] by linarith
  then show ?thesis using assms(1,2) trunc_int_of_int(1)[of "chsrc ! nat (p - 1) + 1"]
    by (simp add: route_channel_def Let_def)
qed

lemma set_same_parameter:
  assumes "effect_valid e" "1 \<le> p" "p \<le> effect_number_of_params e"
  shows "effect_set_parameter p (effect_get_parameter p e) e = e"
proof (cases e)
  case (Amplify gain)
  then show ?thesis using assms by simp
next
  case (Amplify_channel gain ch n)
  have "trunc_int (of_int (ch + 1)) - 1 = ch" by (simp only: trunc_int_of_int)
  then show ?thesis using Amplify_channel by simp
next
  case (Channel_mute ch n)
  then have p: "p = 1" and ch: "-1 \<le> ch" "ch + 1 < 2 ^ 64" using assms by (simp_all add: effect_valid_def)
  have "trunc_int (of_nat (unat (to_ch_type (of_int (ch + 1))))) - 1 = ch"
    unfolding to_ch_type_of_int using uint_of_small[of "ch + 1"] ch
    by (simp only: trunc_int_of_int)
  then show ?thesis using Channel_mute p by (simp only: effect_set_parameter.simps effect_get_parameter.simps if_True simp_thms)
next
  case (Channel_order bounce chsrc out_ch)
  then show ?thesis using assms route_same[of out_ch chsrc p bounce] by (simp add: effect_valid_def)
qed (use to_ch_type_ch_param in simp_all)

text \<open>
  \<open>refresh_parameters\<close>, which sets every parameter to the value it reads, changes no effect: a
  parameter that is read and set again is the same parameter, and for the channel map the highest
  routed channel stays what it was.
\<close>

theorem refresh_changes_nothing:
  assumes "effect_valid e" shows "refresh_op (effect_class g) e = e"
proof -
  have "fold (\<lambda>n o'. effect_set_parameter (int n + 1) (effect_get_parameter (int n + 1) o') o') [0..<m] e = e"
    if "int m \<le> effect_number_of_params e \<or> m = 0" for m
    using that by (induction m) (simp_all add: set_same_parameter[OF assms])
  from this[of "nat (effect_number_of_params e)"] show ?thesis
    by (auto simp: refresh_op_def effect_class_def)
qed

text \<open>
  \<open>EFFECT_CHANNEL_ORDER\<close> routes: with room for its outputs, the buffer it leaves has exactly
  \<open>out_ch\<close> channels, each the source channel its parameter names, as it was before processing, or
  silence where the parameter is 0 or names no channel of the buffer.
\<close>

theorem channel_order_routes:
  assumes "sb_wf slot" "effect_ready (Channel_order bounce chsrc out_ch) (length (sb_arrays slot))"
    and "effect_output_channels (sb_channel_count slot) (Channel_order bounce chsrc out_ch) \<le> sb_channel_count slot"
  shows "\<exists>bounce' slot'. effect_process g slot (Channel_order bounce chsrc out_ch) =
      Inr (Channel_order bounce' chsrc out_ch, slot') \<and>
    sb_audio slot' = (sb_buffersize slot,
      map (\<lambda>d. if 0 \<le> chsrc ! d \<and> chsrc ! d < int (sb_channel_count slot)
               then snd (sb_audio slot) ! nat (chsrc ! d) else replicate (sb_buffersize slot) 0) [0..<nat out_ch])"
proof -
  have b: "sb_wf bounce" "out_ch = highest_routed chsrc" "nat out_ch \<le> sb_channel_count slot"
    using assms(2,3) by simp_all
  obtain bounce' slot' where 1: "channel_order g bounce chsrc out_ch slot = Inr (bounce', slot')"
      "sb_audio slot' = (sb_buffersize slot,
        map (\<lambda>d. map (routed chsrc (sb_audio slot) d) [0..<sb_buffersize slot]) [0..<nat out_ch])"
    using channel_order_ok[OF assms(1) b(1), of out_ch chsrc g] b(2,3) highest_routed_le by blast
  have "map (routed chsrc (sb_audio slot) d) [0..<sb_buffersize slot] =
      (if 0 \<le> chsrc ! d \<and> chsrc ! d < int (sb_channel_count slot)
       then snd (sb_audio slot) ! nat (chsrc ! d) else replicate (sb_buffersize slot) 0)" for d
    using sb_wfD[OF assms(1)] assms(1)
    by (intro nth_equalityI) (auto simp: routed_def sb_audio_channels sb_audio_def)
  then show ?thesis using 1 by simp
qed

text \<open>
  \<open>EFFECT_CHANNEL_MOVE\<close> moves: with two different channels of the buffer, the destination becomes
  the source, the source becomes silent, and the other channels stay; with the same channel twice,
  or a channel the buffer does not have, nothing changes.
\<close>

theorem channel_move_moves:
  assumes "sb_wf slot"
  shows "\<exists>slot'. effect_process g slot (Channel_move fr to) = Inr (Channel_move fr to, slot') \<and>
    (if ch_in_range fr slot \<and> ch_in_range to slot \<and> fr \<noteq> to
     then \<forall>q < sb_channel_count slot. \<forall>t < sb_buffersize slot. snd (sb_audio slot') ! q ! t =
       (if q = nat (ch_int fr) then 0 else if q = nat (ch_int to) then snd (sb_audio slot) ! nat (ch_int fr) ! t
        else snd (sb_audio slot) ! q ! t)
     else sb_audio slot' = sb_audio slot)"
proof -
  obtain slot' where "channel_move fr to slot = Inr slot'"
      "sb_audio slot' = (if ch_in_range fr slot \<and> ch_in_range to slot \<and> fr \<noteq> to
                then moved (nat (ch_int fr)) (nat (ch_int to)) (sb_audio slot) else sb_audio slot)"
    using channel_move_ok[OF assms, of fr to] by blast
  then show ?thesis using assms by (simp add: moved_def sb_audio_channels)
qed

text \<open>A stereo buffer, and a chain that swaps its channels, amplifies the first and mixes to a third.\<close>

definition stereo_buffer :: "rat sample_buffer" where
  "stereo_buffer = \<lparr>sb_arrays = [[1, 2], [3, 4]], sb_channel_count = 2, sb_buffersize = 2, sb_reserved = 2,
     sb_rt_lock = False, sb_lockref = 0, sb_quality = 50, sb_event_tags = 0, sb_old_buffer = None,
     sb_resample_memory = []\<rparr>"

lemma stereo_buffer_wf: "sb_wf stereo_buffer"
  by (simp add: stereo_buffer_def sb_wf_def)

definition effects_chain :: "(effect, unit, rat) chain" where
  "effects_chain = add_chain_operator (effect_class (\<lambda>_ _. 7)) 3 (Mix_to_channel 0 2)
     (add_chain_operator (effect_class (\<lambda>_ _. 7)) 2 (Amplify_channel 2 0 0)
     (add_chain_operator (effect_class (\<lambda>_ _. 7)) 1 (Channel_order stereo_buffer [1, 0] 2) (chain_create 2 3 44100)))"

definition still_source :: "(unit, rat) source_class" where
  "still_source = \<lparr>src_value = \<lambda>_ c. (0, c), src_init = id, src_set_initial_value = \<lambda>_ c. c,
     src_set_parameter = \<lambda>_ _ c. c, src_get_parameter = \<lambda>_ _. 0, value_to_int = trunc_int, value_of_int = of_int\<rparr>"


lemma refresh_changes_nothing_witness:
  "refresh_op (effect_class (\<lambda>_ _. 7)) (Channel_order stereo_buffer [1, -1, 0] 3) = Channel_order stereo_buffer [1, -1, 0] 3"
  by (rule refresh_changes_nothing) (simp add: effect_valid_def highest_routed_def)

lemma channel_order_routes_witness:
  "\<exists>bounce' slot'. effect_process (\<lambda>_ _. 7) stereo_buffer (Channel_order stereo_buffer [1, -1] 1) =
      Inr (Channel_order bounce' [1, -1] 1, slot') \<and> sb_audio slot' = (2, [[3, 4]])"
proof -
  have "effect_ready (Channel_order stereo_buffer [1, -1] 1) (length (sb_arrays stereo_buffer))"
    by (simp add: stereo_buffer_wf highest_routed_def)
  moreover have "effect_output_channels (sb_channel_count stereo_buffer) (Channel_order stereo_buffer [1, -1] 1)
      \<le> sb_channel_count stereo_buffer"
    by (simp add: stereo_buffer_def)
  ultimately show ?thesis
    using channel_order_routes[OF stereo_buffer_wf, of stereo_buffer "[1, -1]" 1 "\<lambda>_ _. 7"]
    by (simp add: stereo_buffer_def sb_audio_def)
qed

lemma channel_move_moves_witness:
  "\<exists>slot'. effect_process (\<lambda>_ _. 7) stereo_buffer (Channel_move 0 1) = Inr (Channel_move 0 1, slot') \<and>
     snd (sb_audio slot') ! 1 ! 0 = 1 \<and> snd (sb_audio slot') ! 0 ! 0 = 0"
proof -
  have "ch_in_range 0 stereo_buffer" "ch_in_range 1 stereo_buffer" "nat (ch_int 0) = 0" "nat (ch_int 1) = 1"
    by (simp_all add: ch_in_range_def ch_int_def stereo_buffer_def)
  then show ?thesis
    using channel_move_moves[OF stereo_buffer_wf, of "\<lambda>_ _. 7" 0 1] by (auto simp: stereo_buffer_def sb_audio_def)
qed

end
