(* ===== verification/Loop_Device.thy ===== *)
theory Loop_Device
  imports Audio_Mixing Audio_Position
begin

text \<open>
  The loop device of \<open>libecasound/audioio-loop.cpp\<close>: an output that mixes what the chains write in one
  engine iteration, each with weight \<open>1 / registered_outputs\<close>, and an input that hands the mix to
  the chains that read it. The theorems say what comes out, and when a loop device counts as
  finished.
\<close>

record 's loop_device =
  ld_channels :: nat
  ld_writes :: int
  ld_registered_inputs :: int
  ld_registered_outputs :: int
  ld_empty_rounds :: int
  ld_finished :: bool
  ld_filled :: bool
  ld_sbuf :: "'s sample_buffer"
  ld_position :: audio_position

text \<open>
  The constructor: \<open>sbuf\<close> is a \<open>SAMPLE_BUFFER(buffersize(), 0)\<close>, where \<open>buffersize()\<close> is 0. The
  channel count comes from the audio format of the object.
\<close>

definition loop_device_create :: "nat \<Rightarrow> int \<Rightarrow> 32 word \<Rightarrow> 's::zero loop_device result" where
  "loop_device_create channels srate tags =
     bind_result (sample_buffer_create True (\<lambda>_ _. 0) tags 0 0) (\<lambda>sb.
     Inr \<lparr>ld_channels = channels, ld_writes = 0, ld_registered_inputs = 0, ld_registered_outputs = 0,
          ld_empty_rounds = 0, ld_finished = False, ld_filled = False, ld_sbuf = sb,
          ld_position = audio_position_create srate\<rparr>)"

definition register_input :: "'s loop_device \<Rightarrow> 's loop_device" where
  "register_input ld = ld\<lparr>ld_registered_inputs := ld_registered_inputs ld + 1\<rparr>"

definition register_output :: "'s loop_device \<Rightarrow> 's loop_device" where
  "register_output ld = ld\<lparr>ld_registered_outputs := ld_registered_outputs ld + 1\<rparr>"

definition loop_seek :: "int \<Rightarrow> 's loop_device \<Rightarrow> 's loop_device" where
  "loop_seek pos ld =
     ld\<lparr>ld_writes := 0, ld_empty_rounds := 0, ld_filled := False, ld_finished := False,
        ld_position := set_position_in_samples pos (ld_position ld)\<rparr>"

definition loop_read_buffer ::
  "(nat \<Rightarrow> nat \<Rightarrow> 's::zero) \<Rightarrow> 's sample_buffer \<Rightarrow> 's loop_device \<Rightarrow> ('s loop_device \<times> 's sample_buffer) result" where
  "loop_read_buffer g buffer ld =
     (if ld_empty_rounds ld = 0
      then (if ld_filled ld
            then bind_result (copy_all_content g (ld_sbuf ld) buffer) (\<lambda>b. Inr (ld, b))
            else bind_result (number_of_channels g (ld_channels ld) buffer) (\<lambda>b1.
                 bind_result (make_silent b1) (\<lambda>b2. Inr (ld, b2))))
      else bind_result (number_of_channels g (ld_channels ld) buffer) (\<lambda>b1.
           bind_result (make_silent b1) (\<lambda>b2. Inr (ld\<lparr>ld_finished := True\<rparr>, b2))))"

text \<open>\<open>first_write\<close> is the block that clears the mix at the first write after a read.\<close>

definition loop_first_write ::
  "(nat \<Rightarrow> nat \<Rightarrow> 's::zero) \<Rightarrow> 's sample_buffer \<Rightarrow> 's loop_device \<Rightarrow> 's loop_device result" where
  "loop_first_write g buffer ld =
     bind_result (number_of_channels g (ld_channels ld) (ld_sbuf ld)) (\<lambda>b1.
     bind_result (make_silent b1) (\<lambda>b2.
       Inr (ld\<lparr>ld_position := extend_position (change_position_in_samples (int (sb_buffersize buffer)) (ld_position ld)),
               ld_sbuf := b2\<rparr>)))"

definition loop_write_buffer ::
  "(nat \<Rightarrow> nat \<Rightarrow> 's::{zero,plus,divide}) \<Rightarrow> (int \<Rightarrow> 's) \<Rightarrow> 's sample_buffer \<Rightarrow> 's loop_device \<Rightarrow> 's loop_device result" where
  "loop_write_buffer g cast buffer ld =
     (let ld0 = ld\<lparr>ld_writes := ld_writes ld + 1\<rparr> in
      bind_result (if ld_writes ld0 = 1 then loop_first_write g buffer ld0 else Inr ld0) (\<lambda>ld1.
      let ld2 = (if ld_writes ld1 = ld_registered_outputs ld1 then ld1\<lparr>ld_writes := 0\<rparr> else ld1) in
      if sb_buffersize buffer \<noteq> 0
      then bind_result (add_with_weight g cast buffer (ld_registered_outputs ld2) (ld_sbuf ld2)) (\<lambda>b.
           Inr (ld2\<lparr>ld_empty_rounds := 0, ld_sbuf := b, ld_filled := True\<rparr>))
      else Inr (ld2\<lparr>ld_empty_rounds := ld_empty_rounds ld2 + 1\<rparr>)))"

subsection \<open>One write\<close>

definition loop_wf :: "'s loop_device \<Rightarrow> bool" where
  "loop_wf ld \<longleftrightarrow> sb_wf (ld_sbuf ld) \<and> (ld_filled ld \<longrightarrow> sb_channel_count (ld_sbuf ld) = ld_channels ld) \<and>
     (ld_writes ld \<noteq> 0 \<longrightarrow> sb_channel_count (ld_sbuf ld) = ld_channels ld)"

text \<open>The mix that a write starts from: silence if it is the first one after a read.\<close>

definition mix_before :: "'s::zero loop_device \<Rightarrow> nat \<Rightarrow> nat \<Rightarrow> 's" where
  "mix_before ld c t = (if ld_writes ld = 0 then 0 else sample_at (ld_sbuf ld) c t)"

lemma loop_write_at:
  fixes ld :: "'s::field loop_device"
  assumes wf: "loop_wf ld" "sb_wf buffer" and w: "0 \<le> ld_writes ld"
  shows "\<exists>ld'. loop_write_buffer g cast buffer ld = Inr ld' \<and> loop_wf ld' \<and>
    ld_channels ld' = ld_channels ld \<and> ld_registered_outputs ld' = ld_registered_outputs ld \<and>
    ld_finished ld' = ld_finished ld \<and> sb_channel_count (ld_sbuf ld') = ld_channels ld \<and>
    ld_writes ld' = (if ld_writes ld + 1 = ld_registered_outputs ld then 0 else ld_writes ld + 1) \<and>
    ld_empty_rounds ld' = (if sb_buffersize buffer = 0 then ld_empty_rounds ld + 1 else 0) \<and>
    ld_filled ld' = (ld_filled ld \<or> sb_buffersize buffer \<noteq> 0) \<and>
    sb_buffersize (ld_sbuf ld') = max (sb_buffersize (ld_sbuf ld)) (sb_buffersize buffer) \<and>
    (\<forall>c < ld_channels ld. \<forall>t < sb_buffersize (ld_sbuf ld').
       sample_at (ld_sbuf ld') c t = mix_before ld c t + sample_at buffer c t / cast (ld_registered_outputs ld))"
proof -
  define ld0 where "ld0 = ld\<lparr>ld_writes := ld_writes ld + 1\<rparr>"
  have "\<exists>ld1. (if ld_writes ld0 = 1 then loop_first_write g buffer ld0 else Inr ld0) = Inr ld1 \<and> sb_wf (ld_sbuf ld1) \<and>
      sb_channel_count (ld_sbuf ld1) = ld_channels ld \<and> sb_buffersize (ld_sbuf ld1) = sb_buffersize (ld_sbuf ld) \<and>
      (\<forall>c t. sample_at (ld_sbuf ld1) c t = mix_before ld c t) \<and> ld_channels ld1 = ld_channels ld \<and>
      ld_writes ld1 = ld_writes ld + 1 \<and> ld_registered_outputs ld1 = ld_registered_outputs ld \<and>
      ld_empty_rounds ld1 = ld_empty_rounds ld \<and> ld_filled ld1 = ld_filled ld \<and> ld_finished ld1 = ld_finished ld"
  proof (cases "ld_writes ld = 0")
    case True
    have "sb_wf (ld_sbuf ld)" using wf(1) by (simp add: loop_wf_def)
    from number_of_channels_at[OF this, of g "ld_channels ld"]
    obtain b1 where 1: "number_of_channels g (ld_channels ld) (ld_sbuf ld) = Inr b1" "sb_wf b1"
        "sb_channel_count b1 = ld_channels ld" "sb_buffersize b1 = sb_buffersize (ld_sbuf ld)" by blast
    from make_silent_at[OF 1(2)]
    obtain b2 where 2: "make_silent b1 = Inr b2" "sb_wf b2" "sb_channel_count b2 = ld_channels ld"
        "sb_buffersize b2 = sb_buffersize (ld_sbuf ld)" "\<forall>c t. sample_at b2 c t = 0" using 1(3,4) by auto
    show ?thesis using True 1(1) 2 by (simp add: loop_first_write_def ld0_def mix_before_def)
  qed (use wf w in \<open>auto simp: ld0_def loop_wf_def mix_before_def\<close>)
  then obtain ld1 where 1: "(if ld_writes ld0 = 1 then loop_first_write g buffer ld0 else Inr ld0) = Inr ld1"
      and s1: "sb_wf (ld_sbuf ld1)" "sb_channel_count (ld_sbuf ld1) = ld_channels ld"
        "sb_buffersize (ld_sbuf ld1) = sb_buffersize (ld_sbuf ld)"
        "\<And>c t. sample_at (ld_sbuf ld1) c t = mix_before ld c t"
      and f1: "ld_channels ld1 = ld_channels ld" "ld_writes ld1 = ld_writes ld + 1"
        "ld_registered_outputs ld1 = ld_registered_outputs ld" "ld_empty_rounds ld1 = ld_empty_rounds ld"
        "ld_filled ld1 = ld_filled ld" "ld_finished ld1 = ld_finished ld"
    by blast
  define ld2 where "ld2 = (if ld_writes ld1 = ld_registered_outputs ld1 then ld1\<lparr>ld_writes := 0\<rparr> else ld1)"
  have f2: "ld_sbuf ld2 = ld_sbuf ld1" "ld_channels ld2 = ld_channels ld" "ld_registered_outputs ld2 = ld_registered_outputs ld"
      "ld_empty_rounds ld2 = ld_empty_rounds ld" "ld_filled ld2 = ld_filled ld" "ld_finished ld2 = ld_finished ld"
      "ld_writes ld2 = (if ld_writes ld + 1 = ld_registered_outputs ld then 0 else ld_writes ld + 1)"
    using f1 by (simp_all add: ld2_def)
  show ?thesis
  proof (cases "sb_buffersize buffer = 0")
    case True
    have z: "sample_at buffer c t = 0" for c t using True by (simp add: sample_at_def)
    have "loop_write_buffer g cast buffer ld = Inr (ld2\<lparr>ld_empty_rounds := ld_empty_rounds ld2 + 1\<rparr>)"
      unfolding loop_write_buffer_def Let_def ld0_def[symmetric] 1 bind_result_simps ld2_def[symmetric] using True by simp
    then show ?thesis using True s1 f2 z by (auto simp: loop_wf_def)
  next
    case False
    from add_with_weight_at[OF s1(1) wf(2), of g cast "ld_registered_outputs ld"]
    obtain b where b: "add_with_weight g cast buffer (ld_registered_outputs ld) (ld_sbuf ld1) = Inr b" "sb_wf b"
        "sb_channel_count b = ld_channels ld" "sb_buffersize b = max (sb_buffersize (ld_sbuf ld)) (sb_buffersize buffer)"
        "\<forall>c < ld_channels ld. \<forall>t < max (sb_buffersize (ld_sbuf ld)) (sb_buffersize buffer).
           sample_at b c t = mix_before ld c t + sample_at buffer c t / cast (ld_registered_outputs ld)"
      using s1(2-4) by auto
    have "loop_write_buffer g cast buffer ld = Inr (ld2\<lparr>ld_empty_rounds := 0, ld_sbuf := b, ld_filled := True\<rparr>)"
      unfolding loop_write_buffer_def Let_def ld0_def[symmetric] 1 bind_result_simps ld2_def[symmetric]
      using False b(1) f2(1,3) by simp
    then show ?thesis using False b f2 by (auto simp: loop_wf_def)
  qed
qed

subsection \<open>One iteration\<close>

lemma loop_read_at:
  assumes "loop_wf ld" "sb_wf buffer"
  shows "\<exists>ld' b. loop_read_buffer g buffer ld = Inr (ld', b) \<and> loop_wf ld' \<and> sb_wf b \<and> arrays_kept buffer b \<and>
    ld' = ld\<lparr>ld_finished := (ld_finished ld \<or> ld_empty_rounds ld \<noteq> 0)\<rparr> \<and> sb_channel_count b = ld_channels ld \<and>
    (if ld_empty_rounds ld = 0 \<and> ld_filled ld
     then sb_buffersize b = sb_buffersize (ld_sbuf ld) \<and> (\<forall>c t. sample_at b c t = sample_at (ld_sbuf ld) c t)
     else sb_buffersize b = sb_buffersize buffer \<and> (\<forall>c t. sample_at b c t = 0))"
proof -
  have wf: "sb_wf (ld_sbuf ld)" using assms(1) by (simp add: loop_wf_def)
  from number_of_channels_at[OF assms(2), of g "ld_channels ld"]
  obtain b1 where 1: "number_of_channels g (ld_channels ld) buffer = Inr b1" "sb_wf b1"
      "sb_channel_count b1 = ld_channels ld" "sb_buffersize b1 = sb_buffersize buffer" "arrays_kept buffer b1" by blast
  from make_silent_at[OF 1(2)]
  obtain b2 where 2: "make_silent b1 = Inr b2" "sb_wf b2" "sb_channel_count b2 = ld_channels ld"
      "sb_buffersize b2 = sb_buffersize buffer" "\<forall>c t. sample_at b2 c t = 0" "arrays_kept buffer b2"
    using 1(3-5) arrays_kept_trans by metis
  from copy_all_content_at[OF assms(2) wf, of g]
  obtain b3 where 3: "copy_all_content g (ld_sbuf ld) buffer = Inr b3" "sb_wf b3"
      "sb_channel_count b3 = sb_channel_count (ld_sbuf ld)" "sb_buffersize b3 = sb_buffersize (ld_sbuf ld)"
      "\<forall>c t. sample_at b3 c t = sample_at (ld_sbuf ld) c t" "arrays_kept buffer b3" by blast
  show ?thesis
    using assms(1) 1(1) 2 3 by (auto simp: loop_read_buffer_def loop_wf_def)
qed

text \<open>The writes of one iteration, one after the other.\<close>

definition loop_writes ::
  "(nat \<Rightarrow> nat \<Rightarrow> 's::field) \<Rightarrow> (int \<Rightarrow> 's) \<Rightarrow> 's sample_buffer list \<Rightarrow> 's loop_device \<Rightarrow> 's loop_device result" where
  "loop_writes g cast bs ld = fold_result (loop_write_buffer g cast) bs ld"

lemma loop_writes_at:
  fixes ld :: "'s::field loop_device"
  assumes "loop_wf ld" "ld_writes ld = 0" "\<forall>b \<in> set bs. sb_wf b \<and> 0 < sb_buffersize b"
    and "int (length bs) \<le> ld_registered_outputs ld" "bs \<noteq> []"
  shows "\<exists>ld'. loop_writes g cast bs ld = Inr ld' \<and> loop_wf ld' \<and>
    ld_channels ld' = ld_channels ld \<and> ld_registered_outputs ld' = ld_registered_outputs ld \<and> ld_finished ld' = ld_finished ld \<and>
    ld_writes ld' = (if int (length bs) = ld_registered_outputs ld then 0 else int (length bs)) \<and>
    ld_empty_rounds ld' = 0 \<and> ld_filled ld' \<and> sb_channel_count (ld_sbuf ld') = ld_channels ld \<and>
    (\<forall>b \<in> set bs. sb_buffersize b \<le> sb_buffersize (ld_sbuf ld')) \<and>
    (\<forall>c < ld_channels ld. \<forall>t < sb_buffersize (ld_sbuf ld').
       sample_at (ld_sbuf ld') c t = (\<Sum>b\<leftarrow>bs. sample_at b c t / cast (ld_registered_outputs ld)))"
  using assms(3-5)
proof (induction bs rule: rev_induct)
  case (snoc b bs)
  show ?case
  proof (cases "bs = []")
    case True
    from loop_write_at[OF assms(1), of b g cast] assms(2) snoc.prems(1,2) True
    obtain ld' where "loop_write_buffer g cast b ld = Inr ld'" "loop_wf ld'"
        "ld_channels ld' = ld_channels ld" "ld_registered_outputs ld' = ld_registered_outputs ld" "ld_finished ld' = ld_finished ld"
        "sb_channel_count (ld_sbuf ld') = ld_channels ld"
        "ld_writes ld' = (if 1 = ld_registered_outputs ld then 0 else 1)" "ld_empty_rounds ld' = 0" "ld_filled ld'"
        "sb_buffersize (ld_sbuf ld') = max (sb_buffersize (ld_sbuf ld)) (sb_buffersize b)"
        "\<forall>c < ld_channels ld. \<forall>t < sb_buffersize (ld_sbuf ld').
           sample_at (ld_sbuf ld') c t = mix_before ld c t + sample_at b c t / cast (ld_registered_outputs ld)"
      by fastforce
    then show ?thesis using True assms(2) by (simp add: loop_writes_def mix_before_def)
  next
    case False
    have "int (length bs) < ld_registered_outputs ld" using snoc.prems(2) by simp
    with snoc.IH snoc.prems False
    obtain ld1 where 1: "loop_writes g cast bs ld = Inr ld1" "loop_wf ld1" "ld_channels ld1 = ld_channels ld"
        "ld_registered_outputs ld1 = ld_registered_outputs ld" "ld_finished ld1 = ld_finished ld"
        "ld_writes ld1 = int (length bs)" "\<forall>b \<in> set bs. sb_buffersize b \<le> sb_buffersize (ld_sbuf ld1)"
        "sb_channel_count (ld_sbuf ld1) = ld_channels ld"
        "\<forall>c < ld_channels ld. \<forall>t < sb_buffersize (ld_sbuf ld1).
           sample_at (ld_sbuf ld1) c t = (\<Sum>b\<leftarrow>bs. sample_at b c t / cast (ld_registered_outputs ld))"
      by auto
    have b: "sb_wf b" "0 < sb_buffersize b" using snoc.prems(1) by simp_all
    from loop_write_at[OF 1(2) b(1), of g cast] 1(6) b(2)
    obtain ld' where 2: "loop_write_buffer g cast b ld1 = Inr ld'" "loop_wf ld'"
        "ld_channels ld' = ld_channels ld1" "ld_registered_outputs ld' = ld_registered_outputs ld1" "ld_finished ld' = ld_finished ld1"
        "sb_channel_count (ld_sbuf ld') = ld_channels ld1"
        "ld_writes ld' = (if ld_writes ld1 + 1 = ld_registered_outputs ld1 then 0 else ld_writes ld1 + 1)" "ld_empty_rounds ld' = 0" "ld_filled ld'"
        "sb_buffersize (ld_sbuf ld') = max (sb_buffersize (ld_sbuf ld1)) (sb_buffersize b)"
        "\<forall>c < ld_channels ld1. \<forall>t < sb_buffersize (ld_sbuf ld').
           sample_at (ld_sbuf ld') c t = mix_before ld1 c t + sample_at b c t / cast (ld_registered_outputs ld1)"
      by fastforce
    have z: "sample_at x c t = 0" if "x \<in> set bs" "\<not> t < sb_buffersize (ld_sbuf ld1)" for x c t
      using 1(7) that by (fastforce simp: sample_at_def)
    have "mix_before ld1 c t = (\<Sum>b\<leftarrow>bs. sample_at b c t / cast (ld_registered_outputs ld))" if "c < ld_channels ld" for c t
    proof (cases "t < sb_buffersize (ld_sbuf ld1)")
      case True
      then show ?thesis using 1(6,9) False that by (simp add: mix_before_def)
    next
      case tf: False
      then have "(\<Sum>b\<leftarrow>bs. sample_at b c t / cast (ld_registered_outputs ld)) = (\<Sum>b\<leftarrow>bs. 0)"
        by (intro arg_cong[where f = sum_list] map_cong) (simp_all add: z)
      then show ?thesis using tf by (simp add: mix_before_def sample_at_def)
    qed
    then show ?thesis using 1 2 by (auto simp: loop_writes_def fold_result_append)
  qed
qed simp

subsection \<open>Properties\<close>

text \<open>
  C38. A loop device mixes: when every registered output writes a non-empty buffer, in any iteration, the
  next read hands out their average, sample by sample, with the device ready for the next iteration.
\<close>

theorem loop_device_mixes:
  fixes ld :: "'s::field loop_device"
  assumes "loop_wf ld" "ld_writes ld = 0" "sb_wf buffer" "\<forall>b \<in> set bs. sb_wf b \<and> 0 < sb_buffersize b"
    and "int (length bs) = ld_registered_outputs ld" "bs \<noteq> []"
  shows "\<exists>ld1 ld2 mix. loop_writes g cast bs ld = Inr ld1 \<and> loop_read_buffer g buffer ld1 = Inr (ld2, mix) \<and>
    loop_wf ld2 \<and> ld_writes ld2 = 0 \<and> ld_finished ld2 = ld_finished ld \<and> sb_channel_count mix = ld_channels ld \<and>
    (\<forall>b \<in> set bs. sb_buffersize b \<le> sb_buffersize mix) \<and>
    (\<forall>c < ld_channels ld. \<forall>t < sb_buffersize mix.
       sample_at mix c t = (\<Sum>b\<leftarrow>bs. sample_at b c t / cast (ld_registered_outputs ld)))"
proof -
  from loop_writes_at[OF assms(1,2,4), of g cast] assms(5,6)
  obtain ld1 where 1: "loop_writes g cast bs ld = Inr ld1" "loop_wf ld1" "ld_channels ld1 = ld_channels ld"
      "ld_finished ld1 = ld_finished ld" "ld_writes ld1 = 0" "ld_empty_rounds ld1 = 0" "ld_filled ld1"
      "\<forall>b \<in> set bs. sb_buffersize b \<le> sb_buffersize (ld_sbuf ld1)"
      "\<forall>c < ld_channels ld. \<forall>t < sb_buffersize (ld_sbuf ld1).
         sample_at (ld_sbuf ld1) c t = (\<Sum>b\<leftarrow>bs. sample_at b c t / cast (ld_registered_outputs ld))"
    by auto
  from loop_read_at[OF 1(2) assms(3), of g] 1(6,7)
  obtain ld2 mix where "loop_read_buffer g buffer ld1 = Inr (ld2, mix)" "loop_wf ld2" "ld2 = ld1\<lparr>ld_finished := ld_finished ld1\<rparr>"
      "sb_channel_count mix = ld_channels ld1" "sb_buffersize mix = sb_buffersize (ld_sbuf ld1)"
      "\<forall>c t. sample_at mix c t = sample_at (ld_sbuf ld1) c t"
    by auto
  then show ?thesis using 1 by auto
qed

text \<open>
  A loop device with two registered outputs of which only one writes in each iteration (so does the
  engine when the same device was given as an output twice) does not clear the mix in every other
  iteration: what it hands out then still holds the audio of the iteration before.
\<close>

theorem loop_stale_mix:
  fixes ld :: "'s::field loop_device"
  assumes "loop_wf ld" "ld_writes ld = 0" "sb_wf buffer" "ld_registered_outputs ld = 2"
    and "sb_wf b1" "0 < sb_buffersize b1" "sb_wf b2" "0 < sb_buffersize b2"
  shows "\<exists>ld1 ld2 ld3 ld4 mix1 mix2. loop_write_buffer g cast b1 ld = Inr ld1 \<and> loop_read_buffer g buffer ld1 = Inr (ld2, mix1) \<and>
    loop_write_buffer g cast b2 ld2 = Inr ld3 \<and> loop_read_buffer g buffer ld3 = Inr (ld4, mix2) \<and>
    (\<forall>c < ld_channels ld. \<forall>t < min (sb_buffersize b1) (sb_buffersize b2).
       sample_at mix2 c t = sample_at b1 c t / cast 2 + sample_at b2 c t / cast 2)"
proof -
  from loop_write_at[OF assms(1,5), of g cast] assms(2,4,6)
  obtain ld1 where 1: "loop_write_buffer g cast b1 ld = Inr ld1" "loop_wf ld1" "ld_channels ld1 = ld_channels ld"
      "ld_registered_outputs ld1 = 2" "ld_writes ld1 = 1" "ld_empty_rounds ld1 = 0" "ld_filled ld1"
      "sb_buffersize b1 \<le> sb_buffersize (ld_sbuf ld1)" "sb_channel_count (ld_sbuf ld1) = ld_channels ld"
      "\<forall>c < ld_channels ld. \<forall>t < sb_buffersize (ld_sbuf ld1). sample_at (ld_sbuf ld1) c t = sample_at b1 c t / cast 2"
    by (fastforce simp: mix_before_def)
  from loop_read_at[OF 1(2) assms(3), of g] 1(6,7)
  obtain ld2 mix1 where 2: "loop_read_buffer g buffer ld1 = Inr (ld2, mix1)" "loop_wf ld2" "ld2 = ld1" by auto
  from loop_write_at[OF 2(2) assms(7), of g cast] 1 2(3) assms(8)
  obtain ld3 where 3: "loop_write_buffer g cast b2 ld1 = Inr ld3" "loop_wf ld3" "ld_empty_rounds ld3 = 0" "ld_filled ld3"
      "sb_buffersize (ld_sbuf ld3) = max (sb_buffersize (ld_sbuf ld1)) (sb_buffersize b2)"
      "\<forall>c < ld_channels ld. \<forall>t < sb_buffersize (ld_sbuf ld3).
         sample_at (ld_sbuf ld3) c t = mix_before ld1 c t + sample_at b2 c t / cast 2"
    by fastforce
  from loop_read_at[OF 3(2) assms(3), of g] 3(3,4)
  obtain ld4 mix2 where 4: "loop_read_buffer g buffer ld3 = Inr (ld4, mix2)"
      "\<forall>c t. sample_at mix2 c t = sample_at (ld_sbuf ld3) c t" by auto
  have "sample_at mix2 c t = sample_at b1 c t / cast 2 + sample_at b2 c t / cast 2"
    if "c < ld_channels ld" "t < min (sb_buffersize b1) (sb_buffersize b2)" for c t
  proof -
    have "t < sb_buffersize (ld_sbuf ld1)" "t < sb_buffersize (ld_sbuf ld3)" using that 1(8) 3(5) by auto
    then show ?thesis using that(1) 1(5,10) 3(6) 4(2) by (simp add: mix_before_def)
  qed
  then show ?thesis using 1(1) 2(1,3) 3(1) 4(1) by blast
qed

text \<open>
  An iteration whose last write is empty finishes the device at the next read, and drops the audio
  that the other outputs wrote in the same iteration.
\<close>

lemma loop_ends_early:
  fixes ld :: "'s::field loop_device"
  assumes "loop_wf ld" "ld_writes ld = 0" "sb_wf buffer" "ld_registered_outputs ld = 2"
    and "sb_wf b1" "0 < sb_buffersize b1" "sb_wf b2" "sb_buffersize b2 = 0"
  shows "\<exists>ld1 ld2 mix. loop_writes g cast [b1, b2] ld = Inr ld1 \<and> loop_read_buffer g buffer ld1 = Inr (ld2, mix) \<and>
    ld_finished ld2 \<and> (\<forall>c t. sample_at mix c t = 0)"
proof -
  from loop_write_at[OF assms(1,5), of g cast] assms(2,4)
  obtain ld1 where 1: "loop_write_buffer g cast b1 ld = Inr ld1" "loop_wf ld1" "ld_writes ld1 = 1" "ld_empty_rounds ld1 = 0"
    using assms(6) by fastforce
  from loop_write_at[OF 1(2) assms(7), of g cast] 1(3,4) assms(8)
  obtain ld2 where 2: "loop_write_buffer g cast b2 ld1 = Inr ld2" "loop_wf ld2" "ld_empty_rounds ld2 = 1" by fastforce
  from loop_read_at[OF 2(2) assms(3), of g] 2(3)
  show ?thesis using 1(1) 2(1) by (auto simp: loop_writes_def)
qed

text \<open>A device with one channel, two registered outputs and an initial buffer of no samples.\<close>

definition example_loop :: "rat loop_device" where
  "example_loop = \<lparr>ld_channels = 1, ld_writes = 0, ld_registered_inputs = 1, ld_registered_outputs = 2,
     ld_empty_rounds = 0, ld_finished = False, ld_filled = False,
     ld_sbuf = \<lparr>sb_arrays = [], sb_channel_count = 0, sb_buffersize = 0, sb_reserved = 0,
       sb_rt_lock = False, sb_lockref = 0, sb_quality = 50, sb_event_tags = 0, sb_old_buffer = None, sb_resample_memory = []\<rparr>,
     ld_position = audio_position_create 44100\<rparr>"

definition tone :: "rat \<Rightarrow> rat sample_buffer" where
  "tone v = \<lparr>sb_arrays = [[v, v]], sb_channel_count = 1, sb_buffersize = 2, sb_reserved = 2,
     sb_rt_lock = False, sb_lockref = 0, sb_quality = 50, sb_event_tags = 0, sb_old_buffer = None, sb_resample_memory = []\<rparr>"

lemma example_loop_wf: "loop_wf example_loop" "ld_writes example_loop = 0" "ld_registered_outputs example_loop = 2"
    "ld_channels example_loop = 1"
  by (simp_all add: example_loop_def loop_wf_def sb_wf_def)

lemma tone_wf: "sb_wf (tone v)" "sb_buffersize (tone v) = 2" "sample_at (tone v) 0 0 = v"
  by (simp_all add: tone_def sb_wf_def sample_at_def sb_audio_def)

lemma loop_device_mixes_witness:
  "\<exists>ld1 ld2 mix. loop_writes (\<lambda>_ _. 9) of_int [tone 1, tone 3] example_loop = Inr ld1 \<and>
     loop_read_buffer (\<lambda>_ _. 9) (tone 0) ld1 = Inr (ld2, mix) \<and> sample_at mix 0 0 = 2"
proof -
  have "\<forall>b \<in> set [tone 1, tone 3]. sb_wf b \<and> 0 < sb_buffersize b" by (simp add: tone_wf)
  from loop_device_mixes[OF example_loop_wf(1,2) tone_wf(1) this, of "\<lambda>_ _. 9" of_int] show ?thesis
    by (fastforce simp: example_loop_wf tone_wf)
qed

lemma loop_stale_mix_witness:
  "\<exists>ld1 ld2 ld3 ld4 mix1 mix2. loop_write_buffer (\<lambda>_ _. 9) of_int (tone 1) example_loop = Inr ld1 \<and>
     loop_read_buffer (\<lambda>_ _. 9) (tone 0) ld1 = Inr (ld2, mix1) \<and>
     loop_write_buffer (\<lambda>_ _. 9) of_int (tone 3) ld2 = Inr ld3 \<and>
     loop_read_buffer (\<lambda>_ _. 9) (tone 0) ld3 = Inr (ld4, mix2) \<and> sample_at mix2 0 0 = 2"
  using loop_stale_mix[OF example_loop_wf(1,2) tone_wf(1) example_loop_wf(3) tone_wf(1) _ tone_wf(1), of 1 3 "\<lambda>_ _. 9" of_int 0]
  by (fastforce simp: example_loop_wf tone_wf)

end
