(* ===== verification/Chainsetup.thy ===== *)
theory Chainsetup
  imports Chain_Safety Audio_Mixing
begin

text \<open>
  The chainsetup of \<open>libecasound/eca-chainsetup.cpp\<close>: chains, selected chains, and the input and output
  objects with the connections between them. Audio objects live at addresses of a heap, since a
  loop device is an input and an output at the same time and an object may be wrapped in a proxy
  (a double-buffering client). What an object does is given by its class, the record \<open>io_class\<close>.
  The object managers (of JACK) and the MIDI devices are not modelled.
\<close>

subsection \<open>Audio objects\<close>

record ('io, 's) io_class =
  io_channels :: "'io \<Rightarrow> nat"
  io_finished :: "'io \<Rightarrow> bool"
  io_read_buffer :: "'s sample_buffer \<Rightarrow> 'io \<Rightarrow> ('io \<times> 's sample_buffer) result"
  io_write_buffer :: "'s sample_buffer \<Rightarrow> 'io \<Rightarrow> 'io result"
  io_set_buffersize :: "int \<Rightarrow> 'io \<Rightarrow> 'io"
  io_seek :: "int \<Rightarrow> 'io \<Rightarrow> 'io"
  io_length :: "'io \<Rightarrow> int"
  io_is_device :: "'io \<Rightarrow> bool"
  io_is_loop :: "'io \<Rightarrow> bool"
  io_is_proxy :: "'io \<Rightarrow> bool"
  io_prepare :: "'io \<Rightarrow> 'io"
  io_start :: "'io \<Rightarrow> 'io"
  io_stop :: "bool \<Rightarrow> 'io \<Rightarrow> 'io"
  io_is_running :: "'io \<Rightarrow> bool"
  io_start_forked :: "'io \<Rightarrow> 'io"
  io_stop_forked :: "'io \<Rightarrow> 'io"
  io_prefill_space :: "'io \<Rightarrow> int"
  io_latency :: "'io \<Rightarrow> int"

datatype buffering_mode = Bmode_auto | Bmode_nonrt | Bmode_rt | Bmode_rtlowlatency | Bmode_none
datatype audio_dir = Dir_input | Dir_output

record ('io, 'o, 'c, 'v) chainsetup =
  cs_objects :: "nat \<Rightarrow> 'io option"
  cs_inputs :: "nat list"
  cs_inputs_direct :: "nat list"
  cs_outputs :: "nat list"
  cs_outputs_direct :: "nat list"
  cs_loop_map :: "string \<Rightarrow> nat option"
  cs_chains :: "('o, 'c, 'v) chain list"
  cs_selected :: "string list"
  cs_position :: chainsetup_position
  cs_buffersize :: nat
  cs_mix_avg :: bool
  cs_locked :: bool
  cs_enabled :: bool
  cs_db_clients :: int
  cs_double_buffering :: bool
  cs_max_buffers :: bool
  cs_raised_priority :: bool
  cs_rtcaps :: bool
  cs_multitrack :: bool
  cs_multitrack_override :: bool
  cs_multitrack_offset :: int
  cs_bmode :: buffering_mode
  cs_bmode_active :: buffering_mode

abbreviation (input) cs_srate :: "('io, 'o, 'c, 'v) chainsetup \<Rightarrow> int" where
  "cs_srate cs \<equiv> ap_srate (cp_pos (cs_position cs))"

text \<open>The object at an address, and an update of it. Using a deleted object is undefined.\<close>

definition get_obj :: "nat \<Rightarrow> ('io, 'o, 'c, 'v) chainsetup \<Rightarrow> 'io result" where
  "get_obj a cs = (case cs_objects cs a of None \<Rightarrow> Inl Undefined_behaviour | Some x \<Rightarrow> Inr x)"

definition put_obj :: "nat \<Rightarrow> 'io \<Rightarrow> ('io, 'o, 'c, 'v) chainsetup \<Rightarrow> ('io, 'o, 'c, 'v) chainsetup" where
  "put_obj a x cs = cs\<lparr>cs_objects := (cs_objects cs)(a := Some x)\<rparr>"

definition delete_obj :: "nat \<Rightarrow> ('io, 'o, 'c, 'v) chainsetup \<Rightarrow> ('io, 'o, 'c, 'v) chainsetup" where
  "delete_obj a cs = cs\<lparr>cs_objects := (cs_objects cs)(a := None)\<rparr>"

definition update_obj :: "('io \<Rightarrow> 'io) \<Rightarrow> nat \<Rightarrow> ('io, 'o, 'c, 'v) chainsetup \<Rightarrow> ('io, 'o, 'c, 'v) chainsetup result" where
  "update_obj f a cs = bind_result (get_obj a cs) (\<lambda>x. Inr (put_obj a (f x) cs))"

text \<open>\<open>inputs[i]\<close>: an index outside a vector is undefined.\<close>

definition at_index :: "'a list \<Rightarrow> int \<Rightarrow> 'a result" where
  "at_index xs i = (if 0 \<le> i \<and> i < int (length xs) then Inr (xs ! nat i) else Inl Undefined_behaviour)"

definition has_cast :: "('io \<Rightarrow> bool) \<Rightarrow> ('io, 'o, 'c, 'v) chainsetup \<Rightarrow> nat \<Rightarrow> bool" where
  "has_cast p cs a = (case cs_objects cs a of None \<Rightarrow> False | Some x \<Rightarrow> p x)"

subsection \<open>Chains\<close>

definition chain_names :: "('io, 'o, 'c, 'v) chainsetup \<Rightarrow> string list" where
  "chain_names cs = map ch_name (cs_chains cs)"

text \<open>\<open>ic\<close> and \<open>oc\<close> are the uninitialised channel counts of a new chain.\<close>

definition add_chain_helper ::
  "('o, 'v, 's) op_class \<Rightarrow> nat \<Rightarrow> nat \<Rightarrow> string \<Rightarrow> ('io, 'o, 'c, 'v) chainsetup \<Rightarrow> ('io, 'o, 'c, 'v) chainsetup" where
  "add_chain_helper cls ic oc name cs =
     cs\<lparr>cs_chains := cs_chains cs @
          [chain_set_samples_per_second cls (cs_srate cs) ((chain_create ic oc 0)\<lparr>ch_name := name\<rparr>)]\<rparr>"

definition add_default_chain ::
  "('o, 'v, 's) op_class \<Rightarrow> nat \<Rightarrow> nat \<Rightarrow> ('io, 'o, 'c, 'v) chainsetup \<Rightarrow> ('io, 'o, 'c, 'v) chainsetup" where
  "add_default_chain cls ic oc cs =
     (let cs1 = add_chain_helper cls ic oc ''default'' cs in cs1\<lparr>cs_selected := cs_selected cs1 @ [''default'']\<rparr>)"

definition add_new_chains ::
  "('o, 'v, 's) op_class \<Rightarrow> nat \<Rightarrow> nat \<Rightarrow> string list \<Rightarrow> ('io, 'o, 'c, 'v) chainsetup \<Rightarrow> ('io, 'o, 'c, 'v) chainsetup" where
  "add_new_chains cls ic oc newchains cs =
     fold (\<lambda>p cs. if p \<in> set (chain_names cs) then cs else add_chain_helper cls ic oc p cs) newchains cs"

text \<open>The first chain with a name is deleted, for each selected name.\<close>

fun erase_first :: "('a \<Rightarrow> bool) \<Rightarrow> 'a list \<Rightarrow> 'a list" where
  "erase_first p [] = []"
| "erase_first p (x # xs) = (if p x then xs else x # erase_first p xs)"

definition remove_chains :: "('io, 'o, 'c, 'v) chainsetup \<Rightarrow> ('io, 'o, 'c, 'v) chainsetup" where
  "remove_chains cs =
     cs\<lparr>cs_chains := fold (\<lambda>a. erase_first (\<lambda>q. ch_name q = a)) (cs_selected cs) (cs_chains cs), cs_selected := []\<rparr>"

text \<open>An operation on every chain of each selected name, in the order of the names.\<close>

definition on_selected ::
  "(('o, 'c, 'v) chain \<Rightarrow> ('o, 'c, 'v) chain) \<Rightarrow> ('io, 'o, 'c, 'v) chainsetup \<Rightarrow> ('io, 'o, 'c, 'v) chainsetup" where
  "on_selected f cs =
     cs\<lparr>cs_chains := fold (\<lambda>a. map (\<lambda>q. if ch_name q = a then f q else q)) (cs_selected cs) (cs_chains cs)\<rparr>"

definition clear_chains :: "('io, 'o, 'c, 'v) chainsetup \<Rightarrow> ('io, 'o, 'c, 'v) chainsetup" where
  "clear_chains cs = on_selected chain_clear cs"

definition toggle_chain_muting :: "('io, 'o, 'c, 'v) chainsetup \<Rightarrow> ('io, 'o, 'c, 'v) chainsetup" where
  "toggle_chain_muting cs = on_selected (set_mute (-1)) cs"

definition toggle_chain_bypass :: "('io, 'o, 'c, 'v) chainsetup \<Rightarrow> ('io, 'o, 'c, 'v) chainsetup" where
  "toggle_chain_bypass cs = on_selected (set_bypass (-1)) cs"

definition select_all_chains :: "('io, 'o, 'c, 'v) chainsetup \<Rightarrow> ('io, 'o, 'c, 'v) chainsetup" where
  "select_all_chains cs = cs\<lparr>cs_selected := chain_names cs\<rparr>"

text \<open>The position of the first chain of a name, or the number of chains.\<close>

definition chain_position :: "string \<Rightarrow> ('io, 'o, 'c, 'v) chainsetup \<Rightarrow> nat" where
  "chain_position name cs = length (takeWhile (\<lambda>q. ch_name q \<noteq> name) (cs_chains cs))"

fun first_chain_of :: "string list \<Rightarrow> ('io, 'o, 'c, 'v) chainsetup \<Rightarrow> nat" where
  "first_chain_of [] cs = length (cs_chains cs)"
| "first_chain_of (a # as) cs =
     (if chain_position a cs < length (cs_chains cs) then chain_position a cs else first_chain_of as cs)"

definition first_selected_chain :: "('io, 'o, 'c, 'v) chainsetup \<Rightarrow> nat" where
  "first_selected_chain cs = first_chain_of (cs_selected cs) cs"

definition rename_chain :: "string \<Rightarrow> ('io, 'o, 'c, 'v) chainsetup \<Rightarrow> ('io, 'o, 'c, 'v) chainsetup" where
  "rename_chain name cs =
     (let p = first_selected_chain cs in
      if p < length (cs_chains cs)
      then cs\<lparr>cs_chains := (cs_chains cs)[p := (cs_chains cs ! p)\<lparr>ch_name := name\<rparr>]\<rparr> else cs)"

definition get_chain_index :: "string \<Rightarrow> ('io, 'o, 'c, 'v) chainsetup \<Rightarrow> int" where
  "get_chain_index name cs =
     (let p = chain_position name cs in if p < length (cs_chains cs) then int p + 1 else -1)"

definition number_of_chain_operators :: "('io, 'o, 'c, 'v) chainsetup \<Rightarrow> nat" where
  "number_of_chain_operators cs = (\<Sum>q\<leftarrow>cs_chains cs. length (ch_ops q))"

subsection \<open>Inputs and outputs\<close>

text \<open>
  \<open>attach_input_to_selected_chains\<close>: at every position \<open>c\<close> that holds the object, the chains connected
  there are disconnected, and the selected chains connected.
\<close>

definition attach_at ::
  "(('o, 'c, 'v) chain \<Rightarrow> int) \<Rightarrow> (('o, 'c, 'v) chain \<Rightarrow> ('o, 'c, 'v) chain) \<Rightarrow> (int \<Rightarrow> ('o, 'c, 'v) chain \<Rightarrow> ('o, 'c, 'v) chain) \<Rightarrow>
     string list \<Rightarrow> nat \<Rightarrow> ('o, 'c, 'v) chain list \<Rightarrow> ('o, 'c, 'v) chain list" where
  "attach_at conn disconnect connect selected c chs =
     fold (\<lambda>p. map (\<lambda>q. if p = ch_name q then connect (int c) q else q)) selected
       (map (\<lambda>q. if conn q = int c then disconnect q else q) chs)"

definition attach_input_to_selected_chains ::
  "nat \<Rightarrow> ('io, 'o, 'c, 'v) chainsetup \<Rightarrow> ('io, 'o, 'c, 'v) chainsetup" where
  "attach_input_to_selected_chains obj cs =
     cs\<lparr>cs_chains := fold (\<lambda>c chs. if cs_inputs cs ! c = obj
           then attach_at ch_input disconnect_input connect_input (cs_selected cs) c chs else chs)
         [0..<length (cs_inputs cs)] (cs_chains cs)\<rparr>"

definition attach_output_to_selected_chains ::
  "nat \<Rightarrow> ('io, 'o, 'c, 'v) chainsetup \<Rightarrow> ('io, 'o, 'c, 'v) chainsetup" where
  "attach_output_to_selected_chains obj cs =
     cs\<lparr>cs_chains := fold (\<lambda>c chs. if cs_outputs cs ! c = obj
           then attach_at ch_output disconnect_output connect_output (cs_selected cs) c chs else chs)
         [0..<length (cs_outputs cs)] (cs_chains cs)\<rparr>"

text \<open>
  \<open>add_audio_object_helper\<close>: unless it is a device or a loop device, the object is wrapped in a proxy,
  which \<open>proxy\<close> constructs, at the fresh address \<open>fresh\<close>. The result is the address to use.
\<close>

definition add_audio_object_helper ::
  "('io, 's) io_class \<Rightarrow> (nat \<Rightarrow> 'io) \<Rightarrow> nat \<Rightarrow> nat \<Rightarrow> ('io, 'o, 'c, 'v) chainsetup \<Rightarrow> nat \<times> ('io, 'o, 'c, 'v) chainsetup" where
  "add_audio_object_helper iocls proxy fresh aio cs =
     (if \<not> has_cast (io_is_device iocls) cs aio \<and> \<not> has_cast (io_is_loop iocls) cs aio
      then (fresh, (put_obj fresh (proxy aio) cs)\<lparr>cs_db_clients := cs_db_clients cs + 1\<rparr>)
      else (aio, cs))"

definition add_input ::
  "('io, 's) io_class \<Rightarrow> (nat \<Rightarrow> 'io) \<Rightarrow> nat \<Rightarrow> nat \<Rightarrow> ('io, 'o, 'c, 'v) chainsetup \<Rightarrow> ('io, 'o, 'c, 'v) chainsetup result" where
  "add_input iocls proxy fresh aio cs =
     bind_result (update_obj (io_set_buffersize iocls (int (cs_buffersize cs))) aio cs) (\<lambda>cs1.
       case add_audio_object_helper iocls proxy fresh aio cs1 of (layerobj, cs2) \<Rightarrow>
         Inr (attach_input_to_selected_chains layerobj
           (cs2\<lparr>cs_inputs := cs_inputs cs2 @ [layerobj], cs_inputs_direct := cs_inputs_direct cs2 @ [aio]\<rparr>)))"

definition add_output ::
  "('io, 's) io_class \<Rightarrow> (nat \<Rightarrow> 'io) \<Rightarrow> nat \<Rightarrow> nat \<Rightarrow> ('io, 'o, 'c, 'v) chainsetup \<Rightarrow> ('io, 'o, 'c, 'v) chainsetup result" where
  "add_output iocls proxy fresh aio cs =
     bind_result (update_obj (io_set_buffersize iocls (int (cs_buffersize cs))) aio cs) (\<lambda>cs1.
       case add_audio_object_helper iocls proxy fresh aio cs1 of (layerobj, cs2) \<Rightarrow>
         Inr (attach_output_to_selected_chains layerobj
           (cs2\<lparr>cs_outputs := cs_outputs cs2 @ [layerobj], cs_outputs_direct := cs_outputs_direct cs2 @ [aio]\<rparr>)))"

text \<open>
  \<open>remove_audio_object_impl\<close>. The object to remove is searched for from the front without stopping,
  so that the last match counts; \<open>priv_erase_object\<close> erases the first one. A loop device is also taken
  out of the other direction, by a recursive call that does not destroy it, and out of the loop map
  (which has at most one tag for it).
\<close>

fun last_index_of :: "nat \<Rightarrow> nat list \<Rightarrow> nat option" where
  "last_index_of a [] = None"
| "last_index_of a (x # xs) =
     (case last_index_of a xs of Some i \<Rightarrow> Some (Suc i) | None \<Rightarrow> if x = a then Some 0 else None)"

definition remove_in_dir ::
  "('io, 's) io_class \<Rightarrow> nat \<Rightarrow> audio_dir \<Rightarrow> ('io, 'o, 'c, 'v) chainsetup \<Rightarrow> ('io, 'o, 'c, 'v) chainsetup \<times> nat option" where
  "remove_in_dir iocls aobj dir cs =
     (let objs = (case dir of Dir_input \<Rightarrow> cs_inputs cs | Dir_output \<Rightarrow> cs_outputs cs);
          objs_dir = (case dir of Dir_input \<Rightarrow> cs_inputs_direct cs | Dir_output \<Rightarrow> cs_outputs_direct cs)
      in case last_index_of aobj objs of
           None \<Rightarrow> (cs, None)
         | Some i \<Rightarrow>
             (let direct = objs_dir ! i;
                  cs1 = cs\<lparr>cs_chains := map (case dir of Dir_input \<Rightarrow> input_removed (int i)
                                                       | Dir_output \<Rightarrow> output_removed (int i)) (cs_chains cs)\<rparr>;
                  cs2 = (if aobj \<noteq> direct \<and> has_cast (io_is_proxy iocls) cs1 aobj
                         then (delete_obj aobj cs1)\<lparr>cs_db_clients := cs_db_clients cs1 - 1\<rparr> else cs1);
                  cs3 = (case dir of
                           Dir_input \<Rightarrow> cs2\<lparr>cs_inputs := erase_first ((=) aobj) (cs_inputs cs2),
                                            cs_inputs_direct := erase_first ((=) direct) (cs_inputs_direct cs2)\<rparr>
                         | Dir_output \<Rightarrow> cs2\<lparr>cs_outputs := erase_first ((=) aobj) (cs_outputs cs2),
                                             cs_outputs_direct := erase_first ((=) direct) (cs_outputs_direct cs2)\<rparr>)
              in (cs3, Some direct)))"

definition remove_audio_object_impl ::
  "('io, 's) io_class \<Rightarrow> nat \<Rightarrow> audio_dir \<Rightarrow> ('io, 'o, 'c, 'v) chainsetup \<Rightarrow> ('io, 'o, 'c, 'v) chainsetup" where
  "remove_audio_object_impl iocls aobj dir cs =
     (case remove_in_dir iocls aobj dir cs of
        (cs1, None) \<Rightarrow> cs1
      | (cs1, Some direct) \<Rightarrow>
          delete_obj direct
            (if has_cast (io_is_loop iocls) cs1 direct
             then let cs2 = fst (remove_in_dir iocls aobj
                              (case dir of Dir_input \<Rightarrow> Dir_output | Dir_output \<Rightarrow> Dir_input) cs1)
                  in cs2\<lparr>cs_loop_map := (\<lambda>tag. if cs_loop_map cs2 tag = Some direct then None else cs_loop_map cs2 tag)\<rparr>
             else cs1))"

text \<open>Counting. The connection of a chain is used as an index without a test.\<close>

definition number_of_attached ::
  "(('o, 'c, 'v) chain \<Rightarrow> int) \<Rightarrow> nat list \<Rightarrow> nat \<Rightarrow> ('o, 'c, 'v) chain list \<Rightarrow> nat result" where
  "number_of_attached conn objs aiod chs =
     fold_result (\<lambda>q count. bind_result (at_index objs (conn q)) (\<lambda>a.
       Inr (if aiod = a then count + 1 else count))) chs 0"

definition number_of_attached_chains_to_input :: "nat \<Rightarrow> ('io, 'o, 'c, 'v) chainsetup \<Rightarrow> nat result" where
  "number_of_attached_chains_to_input aiod cs = number_of_attached ch_input (cs_inputs cs) aiod (cs_chains cs)"

definition number_of_attached_chains_to_output :: "nat \<Rightarrow> ('io, 'o, 'c, 'v) chainsetup \<Rightarrow> nat result" where
  "number_of_attached_chains_to_output aiod cs = number_of_attached ch_output (cs_outputs cs) aiod (cs_chains cs)"

definition is_realtime_target_output :: "('io, 's) io_class \<Rightarrow> nat \<Rightarrow> ('io, 'o, 'c, 'v) chainsetup \<Rightarrow> bool result" where
  "is_realtime_target_output iocls output_id cs =
     bind_result (fold_result (\<lambda>q (result, found).
       if ch_output q = int output_id
       then bind_result (at_index (cs_inputs cs) (ch_input q)) (\<lambda>a.
              Inr (result \<and> has_cast (io_is_device iocls) cs a, True))
       else Inr (result, found)) (cs_chains cs) (True, False))
     (\<lambda>(result, found). Inr (found \<and> result))"

definition number_of_realtime_inputs :: "('io, 's) io_class \<Rightarrow> ('io, 'o, 'c, 'v) chainsetup \<Rightarrow> nat" where
  "number_of_realtime_inputs iocls cs = length (filter (has_cast (io_is_device iocls) cs) (cs_inputs_direct cs))"

definition number_of_realtime_outputs :: "('io, 's) io_class \<Rightarrow> ('io, 'o, 'c, 'v) chainsetup \<Rightarrow> nat" where
  "number_of_realtime_outputs iocls cs = length (filter (has_cast (io_is_device iocls) cs) (cs_outputs_direct cs))"

definition number_of_non_realtime_inputs :: "('io, 's) io_class \<Rightarrow> ('io, 'o, 'c, 'v) chainsetup \<Rightarrow> int" where
  "number_of_non_realtime_inputs iocls cs = int (length (cs_inputs cs)) - int (number_of_realtime_inputs iocls cs)"

definition number_of_non_realtime_outputs :: "('io, 's) io_class \<Rightarrow> ('io, 'o, 'c, 'v) chainsetup \<Rightarrow> int" where
  "number_of_non_realtime_outputs iocls cs = int (length (cs_outputs cs)) - int (number_of_realtime_outputs iocls cs)"

definition has_realtime_objects :: "('io, 's) io_class \<Rightarrow> ('io, 'o, 'c, 'v) chainsetup \<Rightarrow> bool" where
  "has_realtime_objects iocls cs \<longleftrightarrow> number_of_realtime_inputs iocls cs > 0 \<or> number_of_realtime_outputs iocls cs > 0"

definition is_valid_for_connection :: "('io, 'o, 'c, 'v) chainsetup \<Rightarrow> bool" where
  "is_valid_for_connection cs \<longleftrightarrow>
     cs_inputs cs \<noteq> [] \<and> cs_outputs cs \<noteq> [] \<and> cs_chains cs \<noteq> [] \<and> list_all chain_is_valid (cs_chains cs)"

subsection \<open>Buffering mode, length and position\<close>

definition select_multitrack :: "('io, 's) io_class \<Rightarrow> ('io, 'o, 'c, 'v) chainsetup \<Rightarrow> bool" where
  "select_multitrack iocls cs \<longleftrightarrow>
     \<not> (cs_multitrack_override cs \<and> \<not> cs_multitrack cs) \<and>
     ((cs_multitrack_override cs \<and> cs_multitrack cs) \<or>
      (number_of_realtime_inputs iocls cs > 0 \<and> number_of_realtime_outputs iocls cs > 0 \<and>
       number_of_non_realtime_inputs iocls cs > 0 \<and> number_of_non_realtime_outputs iocls cs > 0 \<and>
       length (cs_chains cs) > 1))"

definition select_active_buffering_mode ::
  "('io, 's) io_class \<Rightarrow> ('io, 'o, 'c, 'v) chainsetup \<Rightarrow> ('io, 'o, 'c, 'v) chainsetup" where
  "select_active_buffering_mode iocls cs0 =
     (let cs = (if cs_bmode cs0 = Bmode_none then cs0\<lparr>cs_bmode_active := Bmode_auto\<rparr> else cs0);
          cs1 = cs\<lparr>cs_multitrack := select_multitrack iocls cs\<rparr>
      in if cs_bmode cs1 = Bmode_auto
         then (if has_realtime_objects iocls cs1
               then (if cs_multitrack cs1 then cs1\<lparr>cs_bmode_active := Bmode_rt\<rparr>
                     else if \<not> cs_rtcaps cs1 then cs1\<lparr>cs_bmode_active := Bmode_rt, cs_raised_priority := False\<rparr>
                     else if number_of_chain_operators cs1 = 0 \<and>
                             (number_of_realtime_inputs iocls cs1 = 0 \<or> number_of_realtime_outputs iocls cs1 = 0)
                     then cs1\<lparr>cs_bmode_active := Bmode_rt\<rparr>
                     else cs1\<lparr>cs_bmode_active := Bmode_rtlowlatency\<rparr>)
               else cs1\<lparr>cs_bmode_active := Bmode_nonrt\<rparr>)
         else cs1\<lparr>cs_bmode_active := cs_bmode cs1\<rparr>)"

definition calculate_processing_length ::
  "('io, 's) io_class \<Rightarrow> ('io, 'o, 'c, 'v) chainsetup \<Rightarrow> ('io, 'o, 'c, 'v) chainsetup result" where
  "calculate_processing_length iocls cs =
     bind_result (fold_result (\<lambda>a m. bind_result (get_obj a cs) (\<lambda>x.
       Inr (if io_length iocls x > m then io_length iocls x else m))) (cs_inputs cs) 0) (\<lambda>max_input_length.
     let p = (cs_position cs)\<lparr>cp_pos := set_length_in_samples max_input_length (cp_pos (cs_position cs))\<rparr> in
     Inr (cs\<lparr>cs_position :=
       (if cp_looping p \<and> \<not> cp_max_length_set p \<and> max_input_length > 0
        then set_max_length_in_samples max_input_length p else p)\<rparr>))"

definition seek_objects ::
  "('io, 's) io_class \<Rightarrow> int \<Rightarrow> nat list \<Rightarrow> ('io, 'o, 'c, 'v) chainsetup \<Rightarrow> ('io, 'o, 'c, 'v) chainsetup result" where
  "seek_objects iocls pos objs cs =
     fold_result (\<lambda>a cs. bind_result (get_obj a cs) (\<lambda>x.
       if io_is_device iocls x then Inr cs else Inr (put_obj a (io_seek iocls pos x) cs))) objs cs"

text \<open>
  \<open>seek_position_in_samples\<close> of a chainsetup: all objects but the realtime devices, then the chains,
  then the position of the chainsetup itself. With double buffering the server's \<open>flush\<close> runs first,
  which this model leaves to \<open>Db_Server\<close>.
\<close>

definition cs_seek_position_in_samples ::
  "('io, 's) io_class \<Rightarrow> int \<Rightarrow> ('io, 'o, 'c, 'v) chainsetup \<Rightarrow> ('io, 'o, 'c, 'v) chainsetup result" where
  "cs_seek_position_in_samples iocls pos cs =
     bind_result (seek_objects iocls pos (cs_inputs cs) cs) (\<lambda>cs1.
     bind_result (seek_objects iocls pos (cs_outputs cs1) cs1) (\<lambda>cs2.
     Inr (cs2\<lparr>cs_chains := map (\<lambda>q. q\<lparr>ch_position := seek_position_in_samples (\<lambda>p. p) pos (ch_position q)\<rparr>) (cs_chains cs2),
              cs_position := (cs_position cs2)\<lparr>cp_pos :=
                set_position_in_samples pos (cp_pos (cs_position cs2))\<rparr>\<rparr>)))"

subsection \<open>Edits\<close>

datatype 'v edit =
    Edit_c_bypass int int
  | Edit_c_muting int int
  | Edit_cop_set_param int int int 'v
  | Edit_cop_bypass int int int
  | Edit_ctrl_set_param int int int 'v

text \<open>
  \<open>execute_edit\<close>, for the edits that do not parse an option string: the result code and the
  chainsetup. Chains are numbered from 1.
\<close>

definition edit_chain ::
  "int \<Rightarrow> (('o, 'c, 'v) chain \<Rightarrow> ('o, 'c, 'v) chain) \<Rightarrow> ('io, 'o, 'c, 'v) chainsetup \<Rightarrow> bool \<times> ('io, 'o, 'c, 'v) chainsetup" where
  "edit_chain n f cs =
     (if n < 1 \<or> n > int (length (cs_chains cs)) then (False, cs)
      else (True, cs\<lparr>cs_chains := (cs_chains cs)[nat (n - 1) := f (cs_chains cs ! nat (n - 1))]\<rparr>))"

fun execute_edit ::
  "('o, 'v, 's) op_class \<Rightarrow> ('c, 'v) source_class \<Rightarrow> 'v edit \<Rightarrow> ('io, 'o, 'c, 'v) chainsetup \<Rightarrow> bool \<times> ('io, 'o, 'c, 'v) chainsetup" where
  "execute_edit cls src (Edit_c_bypass n v) cs = edit_chain n (set_bypass v) cs"
| "execute_edit cls src (Edit_c_muting n v) cs = edit_chain n (set_mute v) cs"
| "execute_edit cls src (Edit_cop_set_param n op param v) cs = edit_chain n (chain_set_parameter cls op param v) cs"
| "execute_edit cls src (Edit_cop_bypass n op bypass) cs = edit_chain n (bypass_operator op bypass) cs"
| "execute_edit cls src (Edit_ctrl_set_param n op param v) cs = edit_chain n (set_controller_parameter src op param v) cs"

end
