(* ===== verification/Chainsetup_Facts.thy ===== *)
theory Chainsetup_Facts
  imports Chainsetup
begin

text \<open>
  The connections of a chainsetup: after any sequence of edits they point at existing objects, adding
  an object connects exactly the selected chains to it, and removing one leaves every other chain
  with the object it had.
\<close>

subsection \<open>Attaching\<close>

lemma fold_map_selected:
  assumes "\<And>q. ch_name (f q) = ch_name q" "\<And>q. f (f q) = f q"
  shows "fold (\<lambda>p. map (\<lambda>q. if p = ch_name q then f q else q)) ps chs =
         map (\<lambda>q. if ch_name q \<in> set ps then f q else q) chs"
proof (induction ps arbitrary: chs)
  case (Cons p ps)
  then show ?case by (auto simp: comp_def assms)
qed simp

definition attach_one ::
  "(('o, 'c, 'v) chain \<Rightarrow> int) \<Rightarrow> (('o, 'c, 'v) chain \<Rightarrow> ('o, 'c, 'v) chain) \<Rightarrow> (int \<Rightarrow> ('o, 'c, 'v) chain \<Rightarrow> ('o, 'c, 'v) chain) \<Rightarrow>
     string list \<Rightarrow> nat \<Rightarrow> ('o, 'c, 'v) chain \<Rightarrow> ('o, 'c, 'v) chain" where
  "attach_one conn disconnect connect selected c q =
     (let q1 = (if conn q = int c then disconnect q else q) in
      if ch_name q1 \<in> set selected then connect (int c) q1 else q1)"

lemma attach_at_map:
  assumes "\<And>i q. ch_name (connect i q) = ch_name q" "\<And>i q. connect i (connect i q) = connect i q"
  shows "attach_at conn disconnect connect selected c chs = map (attach_one conn disconnect connect selected c) chs"
  unfolding attach_at_def
  by (subst fold_map_selected) (simp_all add: assms attach_one_def Let_def comp_def)

lemma fold_map_if: "fold (\<lambda>c xs. if P c then map (f c) xs else xs) cs xs = map (fold (\<lambda>c x. if P c then f c x else x) cs) xs"
  by (induction cs arbitrary: xs) (simp_all add: comp_def)

definition attach_input_chain :: "string list \<Rightarrow> nat list \<Rightarrow> nat \<Rightarrow> ('o, 'c, 'v) chain \<Rightarrow> ('o, 'c, 'v) chain" where
  "attach_input_chain selected objs obj =
     fold (\<lambda>c q. if objs ! c = obj then attach_one ch_input disconnect_input connect_input selected c q else q) [0..<length objs]"

definition attach_output_chain :: "string list \<Rightarrow> nat list \<Rightarrow> nat \<Rightarrow> ('o, 'c, 'v) chain \<Rightarrow> ('o, 'c, 'v) chain" where
  "attach_output_chain selected objs obj =
     fold (\<lambda>c q. if objs ! c = obj then attach_one ch_output disconnect_output connect_output selected c q else q) [0..<length objs]"

lemma attach_input_map:
  "attach_input_to_selected_chains obj cs =
     cs\<lparr>cs_chains := map (attach_input_chain (cs_selected cs) (cs_inputs cs) obj) (cs_chains cs)\<rparr>"
  unfolding attach_input_to_selected_chains_def attach_input_chain_def
  by (subst attach_at_map) (simp_all add: connect_input_def fold_map_if)

lemma attach_output_map:
  "attach_output_to_selected_chains obj cs =
     cs\<lparr>cs_chains := map (attach_output_chain (cs_selected cs) (cs_outputs cs) obj) (cs_chains cs)\<rparr>"
  unfolding attach_output_to_selected_chains_def attach_output_chain_def
  by (subst attach_at_map) (simp_all add: connect_output_def fold_map_if)

text \<open>What attaching does to one chain: its other connection and its name stay.\<close>

lemma attach_input_chain_frame:
  "ch_name (attach_input_chain sel objs obj q) = ch_name q \<and> ch_output (attach_input_chain sel objs obj q) = ch_output q"
proof -
  have "ch_name (fold (\<lambda>c q. if objs ! c = obj then attach_one ch_input disconnect_input connect_input sel c q else q) cs q) = ch_name q \<and>
      ch_output (fold (\<lambda>c q. if objs ! c = obj then attach_one ch_input disconnect_input connect_input sel c q else q) cs q) = ch_output q" for cs
    by (induction cs arbitrary: q) (auto simp: attach_one_def Let_def disconnect_input_def connect_input_def)
  then show ?thesis by (simp add: attach_input_chain_def)
qed

lemma attach_output_chain_frame:
  "ch_name (attach_output_chain sel objs obj q) = ch_name q \<and> ch_input (attach_output_chain sel objs obj q) = ch_input q"
proof -
  have "ch_name (fold (\<lambda>c q. if objs ! c = obj then attach_one ch_output disconnect_output connect_output sel c q else q) cs q) = ch_name q \<and>
      ch_input (fold (\<lambda>c q. if objs ! c = obj then attach_one ch_output disconnect_output connect_output sel c q else q) cs q) = ch_input q" for cs
    by (induction cs arbitrary: q) (auto simp: attach_one_def Let_def disconnect_output_def connect_output_def)
  then show ?thesis by (simp add: attach_output_chain_def)
qed

text \<open>
  The connection afterwards: the last position of the object if the chain is selected, none if it was
  connected to the object, otherwise what it was.
\<close>

lemma attach_fold:
  fixes conn :: "('o, 'c, 'v) chain \<Rightarrow> int"
  assumes d: "\<And>q. conn (disconnect q) = -1" "\<And>q. ch_name (disconnect q) = ch_name q"
    and c: "\<And>i q. conn (connect i q) = i" "\<And>i q. ch_name (connect i q) = ch_name q"
  shows "conn (fold (\<lambda>c q. if objs ! c = obj then attach_one conn disconnect connect sel c q else q) [0..<n] q) =
    (if ch_name q \<in> set sel \<and> (\<exists>c < n. objs ! c = obj) then int (GREATEST c. c < n \<and> objs ! c = obj)
     else if \<exists>c < n. objs ! c = obj \<and> conn q = int c then -1 else conn q) \<and>
    ch_name (fold (\<lambda>c q. if objs ! c = obj then attach_one conn disconnect connect sel c q else q) [0..<n] q) = ch_name q"
proof (induction n)
  case (Suc n)
  show ?case
  proof (cases "objs ! n = obj")
    case True
    have "(GREATEST c. c < Suc n \<and> objs ! c = obj) = n"
      by (rule Greatest_equality) (use True in auto)
    then show ?thesis using Suc.IH True by (auto simp: attach_one_def Let_def d c less_Suc_eq)
  next
    case False
    have "(\<lambda>c. c < Suc n \<and> objs ! c = obj) = (\<lambda>c. c < n \<and> objs ! c = obj)"
      using False by (auto simp: less_Suc_eq)
    then show ?thesis using Suc.IH False by (auto simp: less_Suc_eq)
  qed
qed simp

lemma attach_input_chain_conn:
  "ch_input (attach_input_chain sel objs obj q) =
    (if ch_name q \<in> set sel \<and> obj \<in> set objs then int (GREATEST c. c < length objs \<and> objs ! c = obj)
     else if \<exists>c < length objs. objs ! c = obj \<and> ch_input q = int c then -1 else ch_input q)"
  unfolding attach_input_chain_def
  using attach_fold[of ch_input disconnect_input connect_input objs obj sel "length objs" q]
  by (simp add: disconnect_input_def connect_input_def in_set_conv_nth)

lemma attach_output_chain_conn:
  "ch_output (attach_output_chain sel objs obj q) =
    (if ch_name q \<in> set sel \<and> obj \<in> set objs then int (GREATEST c. c < length objs \<and> objs ! c = obj)
     else if \<exists>c < length objs. objs ! c = obj \<and> ch_output q = int c then -1 else ch_output q)"
  unfolding attach_output_chain_def
  using attach_fold[of ch_output disconnect_output connect_output objs obj sel "length objs" q]
  by (simp add: disconnect_output_def connect_output_def in_set_conv_nth)

lemma greatest_append: "(GREATEST c. c < length (objs @ [obj]) \<and> (objs @ [obj]) ! c = obj) = length objs"
  by (rule Greatest_equality) auto

subsection \<open>Adding\<close>

definition cs_linked :: "('io, 'o, 'c, 'v) chainsetup \<Rightarrow> bool" where
  "cs_linked cs \<longleftrightarrow> length (cs_inputs_direct cs) = length (cs_inputs cs) \<and>
     length (cs_outputs_direct cs) = length (cs_outputs cs) \<and>
     (\<forall>q \<in> set (cs_chains cs). -1 \<le> ch_input q \<and> ch_input q < int (length (cs_inputs cs)) \<and>
        -1 \<le> ch_output q \<and> ch_output q < int (length (cs_outputs cs)))"

lemma add_output_result:
  assumes "add_output iocls proxy fresh aio cs = Inr cs'"
  shows "\<exists>layer \<in> {aio, fresh}. cs_outputs cs' = cs_outputs cs @ [layer] \<and> cs_outputs_direct cs' = cs_outputs_direct cs @ [aio] \<and>
    cs_inputs cs' = cs_inputs cs \<and> cs_inputs_direct cs' = cs_inputs_direct cs \<and> cs_selected cs' = cs_selected cs \<and>
    cs_chains cs' = map (attach_output_chain (cs_selected cs) (cs_outputs cs @ [layer]) layer) (cs_chains cs)"
  using assms
  by (auto simp: add_output_def add_audio_object_helper_def update_obj_def get_obj_def put_obj_def bind_result_Inr_iff
      attach_output_map split: if_split_asm option.splits)

lemma add_input_result:
  assumes "add_input iocls proxy fresh aio cs = Inr cs'"
  shows "\<exists>layer \<in> {aio, fresh}. cs_inputs cs' = cs_inputs cs @ [layer] \<and> cs_inputs_direct cs' = cs_inputs_direct cs @ [aio] \<and>
    cs_outputs cs' = cs_outputs cs \<and> cs_outputs_direct cs' = cs_outputs_direct cs \<and> cs_selected cs' = cs_selected cs \<and>
    cs_chains cs' = map (attach_input_chain (cs_selected cs) (cs_inputs cs @ [layer]) layer) (cs_chains cs)"
  using assms
  by (auto simp: add_input_def add_audio_object_helper_def update_obj_def get_obj_def put_obj_def bind_result_Inr_iff
      attach_input_map split: if_split_asm option.splits)

lemma attached_new:
  assumes "-1 \<le> i" "i < int (length objs)" "layer \<notin> set objs"
  shows "\<not> (\<exists>c < length (objs @ [layer]). (objs @ [layer]) ! c = layer \<and> i = int c)"
  using assms by (auto simp: nth_append less_Suc_eq split: if_split_asm)

lemma attached_range:
  assumes "-1 \<le> i" "i < int (length objs)"
  shows "-1 \<le> ch_output (attach_output_chain sel (objs @ [layer]) layer (q\<lparr>ch_output := i\<rparr>)) \<and>
    ch_output (attach_output_chain sel (objs @ [layer]) layer (q\<lparr>ch_output := i\<rparr>)) < int (length (objs @ [layer]))"
    and "-1 \<le> ch_input (attach_input_chain sel (objs @ [layer]) layer (q\<lparr>ch_input := i\<rparr>)) \<and>
    ch_input (attach_input_chain sel (objs @ [layer]) layer (q\<lparr>ch_input := i\<rparr>)) < int (length (objs @ [layer]))"
  using assms by (simp_all only: attach_output_chain_conn attach_input_chain_conn greatest_append) auto

lemma add_output_linked:
  assumes "add_output iocls proxy fresh aio cs = Inr cs'" "cs_linked cs"
  shows "cs_linked cs'"
proof -
  obtain layer where l: "cs_outputs cs' = cs_outputs cs @ [layer]" "cs_outputs_direct cs' = cs_outputs_direct cs @ [aio]"
      "cs_inputs cs' = cs_inputs cs" "cs_inputs_direct cs' = cs_inputs_direct cs"
      "cs_chains cs' = map (attach_output_chain (cs_selected cs) (cs_outputs cs @ [layer]) layer) (cs_chains cs)"
    using add_output_result[OF assms(1)] by blast
  have "-1 \<le> ch_output (attach_output_chain (cs_selected cs) (cs_outputs cs @ [layer]) layer q) \<and>
      ch_output (attach_output_chain (cs_selected cs) (cs_outputs cs @ [layer]) layer q) < int (length (cs_outputs cs @ [layer]))"
    if "q \<in> set (cs_chains cs)" for q
    using attached_range(1)[of "ch_output q" "cs_outputs cs" "cs_selected cs" layer q] assms(2) that by (simp add: cs_linked_def)
  then show ?thesis
    using assms(2) l by (simp add: cs_linked_def attach_output_chain_frame)
qed

lemma add_input_linked:
  assumes "add_input iocls proxy fresh aio cs = Inr cs'" "cs_linked cs"
  shows "cs_linked cs'"
proof -
  obtain layer where l: "cs_inputs cs' = cs_inputs cs @ [layer]" "cs_inputs_direct cs' = cs_inputs_direct cs @ [aio]"
      "cs_outputs cs' = cs_outputs cs" "cs_outputs_direct cs' = cs_outputs_direct cs"
      "cs_chains cs' = map (attach_input_chain (cs_selected cs) (cs_inputs cs @ [layer]) layer) (cs_chains cs)"
    using add_input_result[OF assms(1)] by blast
  have "-1 \<le> ch_input (attach_input_chain (cs_selected cs) (cs_inputs cs @ [layer]) layer q) \<and>
      ch_input (attach_input_chain (cs_selected cs) (cs_inputs cs @ [layer]) layer q) < int (length (cs_inputs cs @ [layer]))"
    if "q \<in> set (cs_chains cs)" for q
    using attached_range(2)[of "ch_input q" "cs_inputs cs" "cs_selected cs" layer q] assms(2) that by (simp add: cs_linked_def)
  then show ?thesis
    using assms(2) l by (simp add: cs_linked_def attach_input_chain_frame)
qed

text \<open>
  Adding an output that the chainsetup does not have yet connects exactly the selected chains to it:
  they get its position, every other chain keeps the output it had, and no input changes.
\<close>

theorem add_output_connects_selected:
  assumes "add_output iocls proxy fresh aio cs = Inr cs'" "cs_linked cs" "aio \<notin> set (cs_outputs cs)" "fresh \<notin> set (cs_outputs cs)"
  shows "length (cs_chains cs') = length (cs_chains cs) \<and>
    (\<forall>j < length (cs_chains cs). let q = cs_chains cs ! j; q' = cs_chains cs' ! j in
       ch_name q' = ch_name q \<and> ch_input q' = ch_input q \<and>
       ch_output q' = (if ch_name q \<in> set (cs_selected cs) then int (length (cs_outputs cs)) else ch_output q))"
proof -
  obtain layer where l: "layer \<notin> set (cs_outputs cs)"
      "cs_chains cs' = map (attach_output_chain (cs_selected cs) (cs_outputs cs @ [layer]) layer) (cs_chains cs)"
    using add_output_result[OF assms(1)] assms(3,4) by blast
  have "ch_output (attach_output_chain (cs_selected cs) (cs_outputs cs @ [layer]) layer q) =
      (if ch_name q \<in> set (cs_selected cs) then int (length (cs_outputs cs)) else ch_output q)"
    if "q \<in> set (cs_chains cs)" for q
    using attached_new[OF _ _ l(1), of "ch_output q"] assms(2) that
    by (simp only: attach_output_chain_conn greatest_append) (auto simp: cs_linked_def)
  then show ?thesis
    using l(2) by (simp add: Let_def attach_output_chain_frame)
qed

text \<open>
  A loop device given as an output a second time, for other chains: the chains that were connected
  to it before lose their output, and the chainsetup is no longer valid.
\<close>

theorem second_loop_output_disconnects:
  assumes "add_output iocls proxy fresh aio cs = Inr cs'" "has_cast (io_is_loop iocls) cs aio"
    and loop_stays: "\<And>x n. io_is_loop iocls x \<Longrightarrow> io_is_loop iocls (io_set_buffersize iocls n x)"
    and "q \<in> set (cs_chains cs)" "ch_name q \<notin> set (cs_selected cs)"
    and "c < length (cs_outputs cs)" "cs_outputs cs ! c = aio" "ch_output q = int c"
  shows "(\<exists>q' \<in> set (cs_chains cs'). ch_name q' = ch_name q \<and> ch_output q' = -1) \<and> \<not> is_valid_for_connection cs'"
proof -
  have "cs_outputs cs' = cs_outputs cs @ [aio] \<and>
      cs_chains cs' = map (attach_output_chain (cs_selected cs) (cs_outputs cs @ [aio]) aio) (cs_chains cs)"
    using assms(1,2) loop_stays
    by (auto simp: add_output_def add_audio_object_helper_def update_obj_def get_obj_def put_obj_def bind_result_Inr_iff
        has_cast_def attach_output_map split: if_split_asm option.splits)
  moreover have "ch_output (attach_output_chain (cs_selected cs) (cs_outputs cs @ [aio]) aio q) = -1"
    using assms(5-8) by (auto simp: attach_output_chain_conn nth_append intro!: exI[of _ c])
  ultimately have "attach_output_chain (cs_selected cs) (cs_outputs cs @ [aio]) aio q \<in> set (cs_chains cs') \<and>
      ch_output (attach_output_chain (cs_selected cs) (cs_outputs cs @ [aio]) aio q) = -1"
    using assms(4) by simp
  then show ?thesis
    using attach_output_chain_frame[of "cs_selected cs" "cs_outputs cs @ [aio]" aio q]
    by (auto simp: is_valid_for_connection_def list_all_iff chain_is_valid_def)
qed

subsection \<open>Removing\<close>

lemma last_index_of_Some:
  "last_index_of a xs = Some i \<Longrightarrow> i < length xs \<and> xs ! i = a"
  by (induction xs arbitrary: i) (auto split: option.splits if_split_asm)

lemma last_index_of_None: "last_index_of a xs = None \<longleftrightarrow> a \<notin> set xs"
  by (induction xs) (auto split: option.splits)

lemma length_erase_first: "length (erase_first p xs) = (if \<exists>x \<in> set xs. p x then length xs - 1 else length xs)"
  by (induction xs) (auto dest: length_pos_if_in_set)

lemma erase_first_unique:
  "distinct xs \<Longrightarrow> i < length xs \<Longrightarrow> erase_first ((=) (xs ! i)) xs = take i xs @ drop (Suc i) xs"
proof (induction xs arbitrary: i)
  case (Cons x xs)
  then show ?case by (cases i) auto
qed simp

lemma removed_range:
  assumes "-1 \<le> ch_input q" "ch_input q < int n" "i < n"
  shows "-1 \<le> ch_input (input_removed (int i) q) \<and> ch_input (input_removed (int i) q) < int (n - 1)"
  using assms by (auto simp: input_removed_def disconnect_input_def)

lemma output_removed_range:
  assumes "-1 \<le> ch_output q" "ch_output q < int n" "i < n"
  shows "-1 \<le> ch_output (output_removed (int i) q) \<and> ch_output (output_removed (int i) q) < int (n - 1)"
  using assms by (auto simp: output_removed_def disconnect_output_def)

lemma removed_frame [simp]:
  "ch_output (input_removed i q) = ch_output q" "ch_input (output_removed i q) = ch_input q"
  "ch_name (input_removed i q) = ch_name q" "ch_name (output_removed i q) = ch_name q"
  by (simp_all add: input_removed_def output_removed_def disconnect_input_def disconnect_output_def)

text \<open>The input direction, in one equation; the output direction alike.\<close>

lemma remove_input_result:
  assumes "last_index_of aobj (cs_inputs cs) = Some i"
  shows "\<exists>cs'. remove_in_dir iocls aobj Dir_input cs = (cs', Some (cs_inputs_direct cs ! i)) \<and>
    cs_inputs cs' = erase_first ((=) aobj) (cs_inputs cs) \<and>
    cs_inputs_direct cs' = erase_first ((=) (cs_inputs_direct cs ! i)) (cs_inputs_direct cs) \<and>
    cs_outputs cs' = cs_outputs cs \<and> cs_outputs_direct cs' = cs_outputs_direct cs \<and>
    cs_chains cs' = map (input_removed (int i)) (cs_chains cs)"
  using assms by (auto simp: remove_in_dir_def Let_def delete_obj_def)

lemma remove_output_result:
  assumes "last_index_of aobj (cs_outputs cs) = Some i"
  shows "\<exists>cs'. remove_in_dir iocls aobj Dir_output cs = (cs', Some (cs_outputs_direct cs ! i)) \<and>
    cs_outputs cs' = erase_first ((=) aobj) (cs_outputs cs) \<and>
    cs_outputs_direct cs' = erase_first ((=) (cs_outputs_direct cs ! i)) (cs_outputs_direct cs) \<and>
    cs_inputs cs' = cs_inputs cs \<and> cs_inputs_direct cs' = cs_inputs_direct cs \<and>
    cs_chains cs' = map (output_removed (int i)) (cs_chains cs)"
  using assms by (auto simp: remove_in_dir_def Let_def delete_obj_def)

lemma remove_in_dir_linked:
  assumes "cs_linked cs" shows "cs_linked (fst (remove_in_dir iocls aobj dir cs))"
proof (cases dir)
  case Dir_input
  show ?thesis
  proof (cases "last_index_of aobj (cs_inputs cs)")
    case (Some i)
    then have i: "i < length (cs_inputs cs)" "cs_inputs cs ! i = aobj" by (auto dest: last_index_of_Some)
    then have m: "\<exists>x \<in> set (cs_inputs cs). aobj = x" "\<exists>x \<in> set (cs_inputs_direct cs). cs_inputs_direct cs ! i = x"
      using assms by (auto simp: cs_linked_def)
    obtain cs' where r: "remove_in_dir iocls aobj Dir_input cs = (cs', Some (cs_inputs_direct cs ! i))"
      "cs_inputs cs' = erase_first ((=) aobj) (cs_inputs cs)"
      "cs_inputs_direct cs' = erase_first ((=) (cs_inputs_direct cs ! i)) (cs_inputs_direct cs)"
      "cs_outputs cs' = cs_outputs cs" "cs_outputs_direct cs' = cs_outputs_direct cs"
      "cs_chains cs' = map (input_removed (int i)) (cs_chains cs)"
      using remove_input_result[OF Some] by blast
    have "-1 \<le> ch_input (input_removed (int i) q) \<and> ch_input (input_removed (int i) q) < int (length (cs_inputs cs) - 1)"
      if "q \<in> set (cs_chains cs)" for q
      by (rule removed_range) (use i(1) assms that in \<open>auto simp: cs_linked_def\<close>)
    then show ?thesis using Dir_input r assms m by (simp add: cs_linked_def length_erase_first)
  qed (use Dir_input assms in \<open>simp add: remove_in_dir_def\<close>)
next
  case Dir_output
  show ?thesis
  proof (cases "last_index_of aobj (cs_outputs cs)")
    case (Some i)
    then have i: "i < length (cs_outputs cs)" "cs_outputs cs ! i = aobj" by (auto dest: last_index_of_Some)
    then have m: "\<exists>x \<in> set (cs_outputs cs). aobj = x" "\<exists>x \<in> set (cs_outputs_direct cs). cs_outputs_direct cs ! i = x"
      using assms by (auto simp: cs_linked_def)
    obtain cs' where r: "remove_in_dir iocls aobj Dir_output cs = (cs', Some (cs_outputs_direct cs ! i))"
      "cs_outputs cs' = erase_first ((=) aobj) (cs_outputs cs)"
      "cs_outputs_direct cs' = erase_first ((=) (cs_outputs_direct cs ! i)) (cs_outputs_direct cs)"
      "cs_inputs cs' = cs_inputs cs" "cs_inputs_direct cs' = cs_inputs_direct cs"
      "cs_chains cs' = map (output_removed (int i)) (cs_chains cs)"
      using remove_output_result[OF Some] by blast
    have "-1 \<le> ch_output (output_removed (int i) q) \<and> ch_output (output_removed (int i) q) < int (length (cs_outputs cs) - 1)"
      if "q \<in> set (cs_chains cs)" for q
      by (rule output_removed_range) (use i(1) assms that in \<open>auto simp: cs_linked_def\<close>)
    then show ?thesis using Dir_output r assms m by (simp add: cs_linked_def length_erase_first)
  qed (use Dir_output assms in \<open>simp add: remove_in_dir_def\<close>)
qed

lemma remove_audio_object_linked:
  assumes "cs_linked cs" shows "cs_linked (remove_audio_object_impl iocls aobj dir cs)"
proof -
  have d: "cs_linked (delete_obj a c) = cs_linked c" "cs_linked (c\<lparr>cs_loop_map := m\<rparr>) = cs_linked c" for a m and c :: "('a, 'b, 'c, 'd) chainsetup"
    by (simp_all add: delete_obj_def cs_linked_def)
  obtain cs1 r where r: "remove_in_dir iocls aobj dir cs = (cs1, r)" by fastforce
  have "cs_linked cs1" using remove_in_dir_linked[OF assms, of iocls aobj dir] r by simp
  then show ?thesis
    by (cases r) (auto simp: remove_audio_object_impl_def r d Let_def intro: remove_in_dir_linked)
qed

text \<open>
  Removing an input that occurs once disconnects exactly the chains that read it; every other chain
  reads the same object as before, although its position may have changed.
\<close>

theorem remove_input_keeps_others:
  assumes "cs_linked cs" "distinct (cs_inputs cs)" "aobj \<in> set (cs_inputs cs)"
    and cs': "cs' = fst (remove_in_dir iocls aobj Dir_input cs)"
    and q: "j < length (cs_chains cs)" "ch_input (cs_chains cs ! j) \<noteq> -1"
  shows "let q = cs_chains cs ! j; q' = cs_chains cs' ! j in
    (if at_index (cs_inputs cs) (ch_input q) = Inr aobj then ch_input q' = -1
     else at_index (cs_inputs cs') (ch_input q') = at_index (cs_inputs cs) (ch_input q))"
proof -
  obtain i where i: "last_index_of aobj (cs_inputs cs) = Some i"
    using assms(3) last_index_of_None by (metis not_None_eq)
  note i' = last_index_of_Some[OF i]
  define k where "k = nat (ch_input (cs_chains cs ! j))"
  have "-1 \<le> ch_input (cs_chains cs ! j)" "ch_input (cs_chains cs ! j) < int (length (cs_inputs cs))"
    using assms(1) nth_mem[OF q(1)] by (simp_all add: cs_linked_def)
  then have k: "ch_input (cs_chains cs ! j) = int k" "k < length (cs_inputs cs)"
    using q(2) by (auto simp: k_def)
  have c: "cs_chains cs' ! j = input_removed (int i) (cs_chains cs ! j)"
      "cs_inputs cs' = take i (cs_inputs cs) @ drop (Suc i) (cs_inputs cs)"
    using remove_input_result[OF i, of iocls] q(1) i' erase_first_unique[OF assms(2), of i] by (auto simp: cs')
  show ?thesis
  proof (cases "k = i")
    case True
    then show ?thesis using k c(1) i' by (simp add: Let_def at_index_def input_removed_def disconnect_input_def)
  next
    case False
    then have "cs_inputs cs ! k \<noteq> aobj" using assms(2) i' k(2) by (metis nth_eq_iff_index_eq)
    moreover have "at_index (cs_inputs cs') (ch_input (cs_chains cs' ! j)) = Inr (cs_inputs cs ! k)"
      using False k i' c by (auto simp: at_index_def input_removed_def disconnect_input_def nth_append nat_diff_distrib)
    ultimately show ?thesis using k by (simp add: Let_def at_index_def)
  qed
qed

subsection \<open>Histories\<close>

datatype 'io cs_op =
    Add_default_chain nat nat
  | Add_new_chains nat nat "string list"
  | Remove_chains
  | Clear_chains
  | Toggle_chain_muting
  | Toggle_chain_bypass
  | Select_all_chains
  | Select_chains "string list"
  | Rename_chain string
  | New_object nat 'io
  | Add_input nat nat
  | Add_output nat nat
  | Remove_audio_object nat audio_dir

fun cs_exec ::
  "('o, 'v, 's) op_class \<Rightarrow> ('io, 's) io_class \<Rightarrow> (nat \<Rightarrow> 'io) \<Rightarrow> 'io cs_op \<Rightarrow>
     ('io, 'o, 'c, 'v) chainsetup \<Rightarrow> ('io, 'o, 'c, 'v) chainsetup result" where
  "cs_exec cls iocls proxy (Add_default_chain ic oc) cs = Inr (add_default_chain cls ic oc cs)"
| "cs_exec cls iocls proxy (Add_new_chains ic oc names) cs = Inr (add_new_chains cls ic oc names cs)"
| "cs_exec cls iocls proxy Remove_chains cs = Inr (remove_chains cs)"
| "cs_exec cls iocls proxy Clear_chains cs = Inr (clear_chains cs)"
| "cs_exec cls iocls proxy Toggle_chain_muting cs = Inr (toggle_chain_muting cs)"
| "cs_exec cls iocls proxy Toggle_chain_bypass cs = Inr (toggle_chain_bypass cs)"
| "cs_exec cls iocls proxy Select_all_chains cs = Inr (select_all_chains cs)"
| "cs_exec cls iocls proxy (Select_chains names) cs = Inr (cs\<lparr>cs_selected := names\<rparr>)"
| "cs_exec cls iocls proxy (Rename_chain name) cs = Inr (rename_chain name cs)"
| "cs_exec cls iocls proxy (New_object a x) cs = Inr (put_obj a x cs)"
| "cs_exec cls iocls proxy (Add_input aio fresh) cs = add_input iocls proxy fresh aio cs"
| "cs_exec cls iocls proxy (Add_output aio fresh) cs = add_output iocls proxy fresh aio cs"
| "cs_exec cls iocls proxy (Remove_audio_object aio dir) cs = Inr (remove_audio_object_impl iocls aio dir cs)"

definition cs_run ::
  "('o, 'v, 's) op_class \<Rightarrow> ('io, 's) io_class \<Rightarrow> (nat \<Rightarrow> 'io) \<Rightarrow> 'io cs_op list \<Rightarrow>
     ('io, 'o, 'c, 'v) chainsetup \<Rightarrow> ('io, 'o, 'c, 'v) chainsetup result" where
  "cs_run cls iocls proxy ops cs = fold_result (cs_exec cls iocls proxy) ops cs"

lemma cs_linked_chains:
  assumes "cs_linked cs" "\<forall>q \<in> set chs. \<exists>p \<in> set (cs_chains cs) \<union> {q. ch_input q = -1 \<and> ch_output q = -1}.
      ch_input q = ch_input p \<and> ch_output q = ch_output p"
  shows "cs_linked (cs\<lparr>cs_chains := chs\<rparr>)"
  using assms by (fastforce simp: cs_linked_def)

lemma add_chain_helper_linked: "cs_linked cs \<Longrightarrow> cs_linked (add_chain_helper cls ic oc name cs)"
  by (auto simp: cs_linked_def add_chain_helper_def chain_create_def chain_set_samples_per_second_def)

lemma set_erase_first: "set (erase_first p xs) \<subseteq> set xs"
  by (induction xs) auto

lemma set_fold_erase: "set (fold (\<lambda>a. erase_first (P a)) as xs) \<subseteq> set xs"
proof (induction as arbitrary: xs)
  case (Cons a as)
  show ?case using Cons.IH[of "erase_first (P a) xs"] set_erase_first[of "P a" xs] by auto
qed simp

lemma on_selected_linked:
  assumes "cs_linked cs" "\<And>q. ch_input (f q) = ch_input q \<and> ch_output (f q) = ch_output q"
  shows "cs_linked (on_selected f cs)"
proof -
  have "\<forall>q \<in> set (fold (\<lambda>a. map (\<lambda>q. if ch_name q = a then f q else q)) as chs).
      \<exists>p \<in> set chs. ch_input q = ch_input p \<and> ch_output q = ch_output p" for as chs
  proof (induction as arbitrary: chs)
    case (Cons a as)
    show ?case using Cons.IH[of "map (\<lambda>q. if ch_name q = a then f q else q) chs"] assms(2) by fastforce
  qed auto
  then show ?thesis unfolding on_selected_def by (intro cs_linked_chains[OF assms(1)]) blast
qed

lemma cs_exec_linked:
  assumes "cs_linked cs" "cs_exec cls iocls proxy oper cs = Inr cs'"
  shows "cs_linked cs'"
proof (cases oper)
  case (Add_default_chain ic oc)
  then have "cs_linked (add_chain_helper cls ic oc ''default'' cs)" using assms(1) by (simp add: add_chain_helper_linked)
  then show ?thesis using Add_default_chain assms(2) by (auto simp: add_default_chain_def Let_def cs_linked_def)
next
  case (Add_new_chains ic oc names)
  have "cs_linked (fold (\<lambda>p cs. if p \<in> set (chain_names cs) then cs else add_chain_helper cls ic oc p cs) names cs)"
    using assms(1) by (induction names arbitrary: cs) (simp_all add: add_chain_helper_linked)
  then show ?thesis using Add_new_chains assms(2) by (simp add: add_new_chains_def)
next
  case Remove_chains
  have "set (fold (\<lambda>a. erase_first (\<lambda>q. ch_name q = a)) (cs_selected cs) (cs_chains cs)) \<subseteq> set (cs_chains cs)"
    by (rule set_fold_erase)
  then show ?thesis using Remove_chains assms by (auto simp: remove_chains_def cs_linked_def dest: subsetD)
next
  case Clear_chains
  then show ?thesis using assms on_selected_linked[of cs chain_clear] by (simp add: clear_chains_def chain_clear_def)
next
  case Toggle_chain_muting
  then show ?thesis using assms on_selected_linked[of cs "set_mute (-1)"] by (simp add: toggle_chain_muting_def set_mute_def)
next
  case Toggle_chain_bypass
  then show ?thesis using assms on_selected_linked[of cs "set_bypass (-1)"] by (simp add: toggle_chain_bypass_def set_bypass_def)
next
  case (Rename_chain name)
  have "cs_linked (cs\<lparr>cs_chains := (cs_chains cs)[p := (cs_chains cs ! p)\<lparr>ch_name := name\<rparr>]\<rparr>)" if "p < length (cs_chains cs)" for p
  proof (rule cs_linked_chains[OF assms(1)], rule ballI)
    fix q assume "q \<in> set ((cs_chains cs)[p := (cs_chains cs ! p)\<lparr>ch_name := name\<rparr>])"
    then have "q = (cs_chains cs ! p)\<lparr>ch_name := name\<rparr> \<or> q \<in> set (cs_chains cs)"
      using set_update_subset_insert[of "cs_chains cs" p] by fastforce
    then show "\<exists>p \<in> set (cs_chains cs) \<union> {q. ch_input q = -1 \<and> ch_output q = -1}.
        ch_input q = ch_input p \<and> ch_output q = ch_output p"
      using nth_mem[OF that] by fastforce
  qed
  then show ?thesis using Rename_chain assms by (auto simp: rename_chain_def Let_def)
next
  case (Remove_audio_object aio dir)
  then show ?thesis using assms remove_audio_object_linked by auto
next
  case (Add_input aio fresh)
  then show ?thesis using assms add_input_linked by (metis cs_exec.simps(11))
next
  case (Add_output aio fresh)
  then show ?thesis using assms add_output_linked by (metis cs_exec.simps(12))
qed (use assms in \<open>auto simp: cs_linked_def select_all_chains_def put_obj_def\<close>)

text \<open>A chainsetup that is valid for connection can be counted through.\<close>

lemma valid_connections:
  assumes "cs_linked cs" "is_valid_for_connection cs" "q \<in> set (cs_chains cs)"
  shows "at_index (cs_inputs cs) (ch_input q) = Inr (cs_inputs cs ! nat (ch_input q))"
    "at_index (cs_outputs cs) (ch_output q) = Inr (cs_outputs cs ! nat (ch_output q))"
  using assms by (fastforce simp: is_valid_for_connection_def list_all_iff chain_is_valid_def cs_linked_def at_index_def)+

lemma number_of_attached_ok:
  assumes "\<And>q. q \<in> set chs \<Longrightarrow> \<exists>x. at_index objs (conn q) = Inr x"
  shows "\<exists>n. number_of_attached conn objs a chs = Inr n"
  using fold_result_ok[of chs "\<lambda>_. True" "\<lambda>q count. bind_result (at_index objs (conn q)) (\<lambda>x. Inr (if a = x then count + 1 else count))" 0]
    assms unfolding number_of_attached_def by fastforce

lemma realtime_target_ok:
  assumes "\<And>q. q \<in> set (cs_chains cs) \<Longrightarrow> \<exists>x. at_index (cs_inputs cs) (ch_input q) = Inr x"
  shows "\<exists>b. is_realtime_target_output iocls a cs = Inr b"
proof -
  let ?f = "\<lambda>q (result, found). if ch_output q = int a
        then bind_result (at_index (cs_inputs cs) (ch_input q)) (\<lambda>a. Inr (result \<and> has_cast (io_is_device iocls) cs a, True))
        else Inr (result, found)"
  have "\<exists>r. fold_result ?f (cs_chains cs) (True, False) = Inr r \<and> True"
    by (rule fold_result_ok) (use assms in \<open>fastforce split: prod.splits\<close>)+
  then show ?thesis by (auto simp: is_realtime_target_output_def)
qed



subsection \<open>Examples\<close>

text \<open>
  Objects that are only told apart by whether they are loop devices; two chains, the second one
  selected, the first one connected to a file (address 0) and a loop device (address 1).
\<close>

definition example_io :: "(bool, unit) io_class" where
  "example_io = \<lparr>io_channels = (\<lambda>_. 2), io_finished = (\<lambda>_. False), io_read_buffer = (\<lambda>b x. Inr (x, b)),
     io_write_buffer = (\<lambda>b x. Inr x), io_set_buffersize = (\<lambda>n x. x), io_seek = (\<lambda>p x. x), io_length = (\<lambda>x. 0),
     io_is_device = (\<lambda>x. False), io_is_loop = (\<lambda>x. x), io_is_proxy = (\<lambda>x. False), io_prepare = (\<lambda>x. x),
     io_start = (\<lambda>x. x), io_stop = (\<lambda>d x. x), io_is_running = (\<lambda>x. False), io_start_forked = (\<lambda>x. x),
     io_stop_forked = (\<lambda>x. x), io_prefill_space = (\<lambda>x. 0), io_latency = (\<lambda>x. 0)\<rparr>"

definition example_chainsetup :: "(bool, unit, unit, unit) chainsetup" where
  "example_chainsetup = \<lparr>cs_objects = [0 \<mapsto> False, 1 \<mapsto> True, 2 \<mapsto> False], cs_inputs = [0], cs_inputs_direct = [0],
     cs_outputs = [1], cs_outputs_direct = [1], cs_loop_map = Map.empty,
     cs_chains = [(chain_create 0 0 44100)\<lparr>ch_name := ''a'', ch_input := 0, ch_output := 0\<rparr>,
                  (chain_create 0 0 44100)\<lparr>ch_name := ''b''\<rparr>],
     cs_selected = [''b''], cs_position = chainsetup_position_create 44100 0, cs_buffersize = 1024, cs_mix_avg = False,
     cs_locked = False, cs_enabled = False, cs_db_clients = 0, cs_double_buffering = False, cs_max_buffers = False,
     cs_raised_priority = False, cs_rtcaps = False, cs_multitrack = False, cs_multitrack_override = False,
     cs_multitrack_offset = -1, cs_bmode = Bmode_auto, cs_bmode_active = Bmode_auto\<rparr>"

lemma example_chainsetup_simps:
  "cs_linked example_chainsetup" "cs_outputs example_chainsetup = [1]" "cs_inputs example_chainsetup = [0]"
  "cs_selected example_chainsetup = [''b'']" "has_cast (io_is_loop example_io) example_chainsetup 1"
  "length (cs_chains example_chainsetup) = 2"
  "ch_name (cs_chains example_chainsetup ! 0) = ''a''" "ch_name (cs_chains example_chainsetup ! Suc 0) = ''b''"
  "ch_output (cs_chains example_chainsetup ! 0) = 0" "ch_input (cs_chains example_chainsetup ! 0) = 0"
  by (simp_all add: example_chainsetup_def cs_linked_def chain_create_def has_cast_def example_io_def)

lemma example_io_buffersize: "io_set_buffersize example_io n x = x"
  by (simp add: example_io_def)

lemma all_less_two: "(\<forall>j < (2 :: nat). P j) \<longleftrightarrow> P 0 \<and> P 1"
  by (simp add: numeral_2_eq_2 less_Suc_eq all_conj_distrib imp_conjL disj_imp) (auto simp: less_Suc_eq)

lemma example_add_output: "\<exists>cs'. add_output example_io (\<lambda>_. False) 7 a example_chainsetup = Inr cs'" if "a < 3" for a
  using that
  by (auto simp: less_Suc_eq numeral_eq_Suc add_output_def add_audio_object_helper_def update_obj_def get_obj_def example_chainsetup_def)

lemma add_output_connects_selected_witness:
  "\<exists>cs'. add_output example_io (\<lambda>_. False) 7 2 example_chainsetup = Inr cs' \<and> ch_output (cs_chains cs' ! 1) = 1 \<and>
     ch_output (cs_chains cs' ! 0) = 0"
proof -
  obtain cs' where r: "add_output example_io (\<lambda>_. False) 7 2 example_chainsetup = Inr cs'"
    using example_add_output[of 2] by auto
  show ?thesis
    using add_output_connects_selected[OF r] r by (simp add: example_chainsetup_simps Let_def all_less_two)
qed

lemma second_loop_output_disconnects_witness:
  "\<exists>cs'. add_output example_io (\<lambda>_. False) 7 1 example_chainsetup = Inr cs' \<and> \<not> is_valid_for_connection cs'"
proof -
  obtain cs' where r: "add_output example_io (\<lambda>_. False) 7 1 example_chainsetup = Inr cs'"
    using example_add_output[of 1] by auto
  have "cs_chains example_chainsetup ! 0 \<in> set (cs_chains example_chainsetup)"
    by (rule nth_mem) (simp add: example_chainsetup_simps)
  then show ?thesis
    using second_loop_output_disconnects[OF r example_chainsetup_simps(5), of "cs_chains example_chainsetup ! 0" 0] r
    by (simp add: example_chainsetup_simps example_io_buffersize)
qed

lemma remove_input_keeps_others_witness:
  "ch_input (cs_chains (fst (remove_in_dir example_io 0 Dir_input example_chainsetup)) ! 0) = -1"
  using remove_input_keeps_others[of example_chainsetup 0 "fst (remove_in_dir example_io 0 Dir_input example_chainsetup)" example_io 0]
  by (simp add: example_chainsetup_simps at_index_def Let_def)

definition no_operators :: "(unit, unit, unit) op_class" where
  "no_operators = \<lparr>op_number_of_params = (\<lambda>_. 0), op_get_parameter = (\<lambda>_ _. ()), op_set_parameter = (\<lambda>_ _ _. ()),
     op_output_channels = (\<lambda>n _. n), op_init = (\<lambda>_ _. ()), op_process = (\<lambda>b _. Inr ((), b)), op_release = (\<lambda>_. ()),
     op_set_srate = (\<lambda>_ _. ())\<rparr>"



subsection \<open>Dangling outputs\<close>

lemma count_erase_first: "count_list (erase_first ((=) a) xs) a = count_list xs a - 1"
  by (induction xs) auto

lemma remove_in_dir_other: "cs_outputs (fst (remove_in_dir iocls a Dir_input cs)) = cs_outputs cs"
  by (auto simp: remove_in_dir_def Let_def delete_obj_def split: option.splits)

text \<open>
  Removing a loop device that was given as an output twice leaves the chainsetup with a pointer to a
  deleted object: only one of its occurrences is erased before the device is destroyed.
\<close>

theorem removed_loop_dangles:
  assumes "2 \<le> count_list (cs_outputs cs) a" "has_cast (io_is_loop iocls) cs a"
    and "\<And>i. i < length (cs_outputs cs) \<Longrightarrow> cs_outputs cs ! i = a \<Longrightarrow> cs_outputs_direct cs ! i = a"
    and cs': "cs' = remove_audio_object_impl iocls a Dir_output cs"
  shows "a \<in> set (cs_outputs cs') \<and> get_obj a cs' = Inl Undefined_behaviour"
proof -
  have "a \<in> set (cs_outputs cs)" using assms(1) count_notin by fastforce
  then obtain i where i: "last_index_of a (cs_outputs cs) = Some i"
    using last_index_of_None[of a "cs_outputs cs"] by (metis not_None_eq)
  then have d: "cs_outputs_direct cs ! i = a" using assms(3) last_index_of_Some[OF i] by simp
  obtain cs1 where r: "remove_in_dir iocls a Dir_output cs = (cs1, Some a)" "cs_outputs cs1 = erase_first ((=) a) (cs_outputs cs)"
      "cs_objects cs1 = cs_objects cs"
    using i d by (simp add: remove_in_dir_def Let_def)
  have "0 < count_list (cs_outputs cs1) a" using assms(1) r(2) count_erase_first[of a "cs_outputs cs"] by simp
  then have o1: "a \<in> set (cs_outputs cs1)" using count_notin by fastforce
  have "has_cast (io_is_loop iocls) cs1 a" using assms(2) r(3) by (simp add: has_cast_def)
  then show ?thesis
    using o1 by (simp add: cs' remove_audio_object_impl_def r(1) Let_def delete_obj_def get_obj_def remove_in_dir_other)
qed

lemma removed_loop_dangles_witness:
  "get_obj 1 (remove_audio_object_impl example_io 1 Dir_output (example_chainsetup\<lparr>cs_outputs := [1, 1], cs_outputs_direct := [1, 1]\<rparr>))
     = Inl Undefined_behaviour"
  using removed_loop_dangles[of "example_chainsetup\<lparr>cs_outputs := [1, 1], cs_outputs_direct := [1, 1]\<rparr>" 1 example_io]
  by (auto simp: less_Suc_eq example_chainsetup_def has_cast_def example_io_def)

end
