(* ===== verification/Audio_Format.thy ===== *)
theory Audio_Format
  imports Kvu_Args
begin

text \<open>
  The audio format of \<open>libecasound/eca-audio-format.cpp\<close>: channels, sample rate and the coding, size
  and byte order of a sample, with their names as strings. The parameter \<open>be\<close> says whether the
  machine is big-endian (\<open>WORDS_BIGENDIAN\<close>). An operation that may throw returns the exception, if
  any, with the state it leaves behind.
\<close>

datatype sample_fmt =
    Sfmt_none | Sfmt_u8 | Sfmt_s8
  | Sfmt_s16 | Sfmt_s16_le | Sfmt_s16_be | Sfmt_s24 | Sfmt_s24_le | Sfmt_s24_be
  | Sfmt_s32 | Sfmt_s32_le | Sfmt_s32_be | Sfmt_f32 | Sfmt_f32_le | Sfmt_f32_be
  | Sfmt_f64 | Sfmt_f64_le | Sfmt_f64_be

datatype sample_endianess = Se_native | Se_big | Se_little
datatype sample_coding = Sc_signed | Sc_unsigned | Sc_float

record audio_format =
  af_channels :: int
  af_srate :: int
  af_ileaved :: bool
  af_align :: int
  af_endian :: sample_endianess
  af_coding :: sample_coding

type_synonym format_outcome = "fault option \<times> audio_format"

subsection \<open>Operations\<close>

definition update_sample_endianess :: "bool \<Rightarrow> sample_endianess \<Rightarrow> audio_format \<Rightarrow> audio_format" where
  "update_sample_endianess be v af =
     (if v = Se_native then af\<lparr>af_endian := (if be then Se_big else Se_little)\<rparr> else af\<lparr>af_endian := v\<rparr>)"

text \<open>The coding, byte order and size of each format.\<close>

fun fmt_params :: "sample_fmt \<Rightarrow> sample_coding \<times> sample_endianess \<times> int" where
  "fmt_params Sfmt_none = (Sc_unsigned, Se_native, 0)"
| "fmt_params Sfmt_u8 = (Sc_unsigned, Se_native, 1)"
| "fmt_params Sfmt_s8 = (Sc_signed, Se_native, 1)"
| "fmt_params Sfmt_s16 = (Sc_signed, Se_native, 2)"
| "fmt_params Sfmt_s16_le = (Sc_signed, Se_little, 2)"
| "fmt_params Sfmt_s16_be = (Sc_signed, Se_big, 2)"
| "fmt_params Sfmt_s24 = (Sc_signed, Se_native, 3)"
| "fmt_params Sfmt_s24_le = (Sc_signed, Se_little, 3)"
| "fmt_params Sfmt_s24_be = (Sc_signed, Se_big, 3)"
| "fmt_params Sfmt_s32 = (Sc_signed, Se_native, 4)"
| "fmt_params Sfmt_s32_le = (Sc_signed, Se_little, 4)"
| "fmt_params Sfmt_s32_be = (Sc_signed, Se_big, 4)"
| "fmt_params Sfmt_f32 = (Sc_float, Se_native, 4)"
| "fmt_params Sfmt_f32_le = (Sc_float, Se_little, 4)"
| "fmt_params Sfmt_f32_be = (Sc_float, Se_big, 4)"
| "fmt_params Sfmt_f64 = (Sc_float, Se_native, 8)"
| "fmt_params Sfmt_f64_le = (Sc_float, Se_little, 8)"
| "fmt_params Sfmt_f64_be = (Sc_float, Se_big, 8)"

definition set_sample_format :: "bool \<Rightarrow> sample_fmt \<Rightarrow> audio_format \<Rightarrow> audio_format" where
  "set_sample_format be fmt af =
     (case fmt_params fmt of (coding, endian, align) \<Rightarrow>
        (update_sample_endianess be endian (af\<lparr>af_coding := coding\<rparr>))\<lparr>af_align := align\<rparr>)"

definition af_set_channels :: "int \<Rightarrow> audio_format \<Rightarrow> audio_format" where
  "af_set_channels v af = af\<lparr>af_channels := v\<rparr>"

definition af_set_srate :: "int \<Rightarrow> audio_format \<Rightarrow> audio_format" where
  "af_set_srate v af = af\<lparr>af_srate := v\<rparr>"

definition toggle_interleaved_channels :: "bool \<Rightarrow> audio_format \<Rightarrow> audio_format" where
  "toggle_interleaved_channels v af = af\<lparr>af_ileaved := v\<rparr>"

text \<open>The members before the constructor bodies run are uninitialised: \<open>af0\<close>.\<close>

definition audio_format_create :: "bool \<Rightarrow> int \<Rightarrow> int \<Rightarrow> sample_fmt \<Rightarrow> bool \<Rightarrow> audio_format \<Rightarrow> audio_format" where
  "audio_format_create be channels srate fmt ileaved af0 =
     toggle_interleaved_channels ileaved (set_sample_format be fmt (af_set_srate srate (af_set_channels channels af0)))"

definition audio_format_default :: "bool \<Rightarrow> audio_format \<Rightarrow> audio_format" where
  "audio_format_default be af0 = audio_format_create be 0 (-1) Sfmt_none True af0"

definition af_bits :: "audio_format \<Rightarrow> int" where "af_bits af = af_align af * 8"
definition frame_size :: "audio_format \<Rightarrow> int" where "frame_size af = af_align af * af_channels af"
definition bytes_per_second :: "audio_format \<Rightarrow> int" where
  "bytes_per_second af = af_srate af * af_align af * af_channels af"

definition string_to_sample_format :: "string \<Rightarrow> sample_fmt result" where
  "string_to_sample_format str =
     (if str = ''u8'' then Inr Sfmt_u8
      else if str = ''s16'' then Inr Sfmt_s16
      else if str = ''s16_le'' then Inr Sfmt_s16_le
      else if str = ''s16_be'' then Inr Sfmt_s16_be
      else if str = ''s24'' then Inr Sfmt_s24
      else if str = ''s24_le'' then Inr Sfmt_s24_le
      else if str = ''s24_be'' then Inr Sfmt_s24_be
      else if str = ''s32'' then Inr Sfmt_s32
      else if str = ''s32_le'' then Inr Sfmt_s32_le
      else if str = ''s32_be'' then Inr Sfmt_s32_be
      else if str = ''f32'' then Inr Sfmt_f32
      else if str = ''f32_le'' then Inr Sfmt_f32_le
      else if str = ''f32_be'' then Inr Sfmt_f32_be
      else if str = ''f64'' then Inr Sfmt_f64
      else if str = ''f64_le'' then Inr Sfmt_f64_le
      else if str = ''f64_be'' then Inr Sfmt_f64_be
      else if str = ''8'' then Inr Sfmt_u8
      else if str = ''16'' then Inr Sfmt_s16
      else if str = ''24'' then Inr Sfmt_s24
      else if str = ''32'' then Inr Sfmt_s32
      else if str \<noteq> ''none''
      then Inl (Thrown ''ECA_AUDIO_FORMAT'' (''Unknown sample format '' @ [CHR 0x22] @ str @ [CHR 0x22] @ ''.''))
      else Inr Sfmt_none)"

definition format_string :: "audio_format \<Rightarrow> string" where
  "format_string af =
     (if af_align af > 0
      then (case af_coding af of Sc_unsigned \<Rightarrow> ''u'' | Sc_signed \<Rightarrow> ''s'' | Sc_float \<Rightarrow> ''f'') @
           kvu_numtostr_int (af_bits af) @
           (if af_align af > 1 then (if af_endian af = Se_little then ''_le'' else ''_be'') else [])
      else ''none'')"

definition sample_format :: "audio_format \<Rightarrow> sample_fmt" where
  "sample_format af = (case string_to_sample_format (format_string af) of Inl e \<Rightarrow> Sfmt_none | Inr f \<Rightarrow> f)"

definition set_sample_format_string :: "bool \<Rightarrow> string \<Rightarrow> audio_format \<Rightarrow> format_outcome" where
  "set_sample_format_string be s af =
     (case string_to_sample_format s of Inl e \<Rightarrow> (Some e, af) | Inr f \<Rightarrow> (None, set_sample_format be f af))"

definition set_sample_endianess :: "bool \<Rightarrow> sample_endianess \<Rightarrow> audio_format \<Rightarrow> format_outcome" where
  "set_sample_endianess be v af =
     (let af1 = update_sample_endianess be v af in set_sample_format_string be (format_string af1) af1)"

definition set_sample_coding :: "bool \<Rightarrow> sample_coding \<Rightarrow> audio_format \<Rightarrow> format_outcome" where
  "set_sample_coding be v af =
     (let af1 = af\<lparr>af_coding := v\<rparr> in set_sample_format_string be (format_string af1) af1)"

definition set_audio_format :: "bool \<Rightarrow> audio_format \<Rightarrow> audio_format \<Rightarrow> audio_format" where
  "set_audio_format be f af =
     toggle_interleaved_channels (af_ileaved f)
       (af_set_srate (af_srate f) (set_sample_format be (sample_format f) (af_set_channels (af_channels f) af)))"

subsection \<open>Names of formats\<close>

text \<open>The format that stands for the same samples with the byte order written out.\<close>

fun explicit_fmt :: "bool \<Rightarrow> sample_fmt \<Rightarrow> sample_fmt" where
  "explicit_fmt be Sfmt_s16 = (if be then Sfmt_s16_be else Sfmt_s16_le)"
| "explicit_fmt be Sfmt_s24 = (if be then Sfmt_s24_be else Sfmt_s24_le)"
| "explicit_fmt be Sfmt_s32 = (if be then Sfmt_s32_be else Sfmt_s32_le)"
| "explicit_fmt be Sfmt_f32 = (if be then Sfmt_f32_be else Sfmt_f32_le)"
| "explicit_fmt be Sfmt_f64 = (if be then Sfmt_f64_be else Sfmt_f64_le)"
| "explicit_fmt be f = f"

lemma kvu_numtostr_bits:
  "kvu_numtostr_int 0 = ''0''" "kvu_numtostr_int 8 = ''8''" "kvu_numtostr_int 16 = ''16''" "kvu_numtostr_int 24 = ''24''"
  "kvu_numtostr_int 32 = ''32''" "kvu_numtostr_int 64 = ''64''"
  by code_simp+

lemma set_sample_format_explicit: "set_sample_format be (explicit_fmt be fmt) af = set_sample_format be fmt af"
  by (cases fmt) (simp_all add: set_sample_format_def update_sample_endianess_def)

lemma format_string_of:
  "format_string (set_sample_format be fmt af) =
     (case explicit_fmt be fmt of Sfmt_u8 \<Rightarrow> ''u8'' | Sfmt_s8 \<Rightarrow> ''s8'' | Sfmt_s16_le \<Rightarrow> ''s16_le'' | Sfmt_s16_be \<Rightarrow> ''s16_be''
      | Sfmt_s24_le \<Rightarrow> ''s24_le'' | Sfmt_s24_be \<Rightarrow> ''s24_be'' | Sfmt_s32_le \<Rightarrow> ''s32_le'' | Sfmt_s32_be \<Rightarrow> ''s32_be''
      | Sfmt_f32_le \<Rightarrow> ''f32_le'' | Sfmt_f32_be \<Rightarrow> ''f32_be'' | Sfmt_f64_le \<Rightarrow> ''f64_le'' | Sfmt_f64_be \<Rightarrow> ''f64_be''
      | _ \<Rightarrow> ''none'')"
  by (cases fmt; cases be)
    (simp_all add: format_string_def set_sample_format_def update_sample_endianess_def af_bits_def kvu_numtostr_bits)

text \<open>
  Printing the name of a sample format and parsing it again gives the format back, with its byte
  order written out, and leaves the audio format unchanged - except for signed 8-bit samples: their
  name \<open>s8\<close> is not known to the parser, so that setting it throws, and copying such an audio format
  silently gives one without a sample format, whose frames have size 0.
\<close>

theorem format_string_roundtrip:
  "(if fmt = Sfmt_s8
    then fst (set_sample_format_string be (format_string (set_sample_format be fmt af)) af) \<noteq> None \<and>
         sample_format (set_sample_format be fmt af) = Sfmt_none \<and>
         frame_size (set_audio_format be (set_sample_format be fmt af) af') = 0
    else sample_format (set_sample_format be fmt af) = explicit_fmt be fmt \<and>
         set_sample_format_string be (format_string (set_sample_format be fmt af)) af = (None, set_sample_format be fmt af) \<and>
         frame_size (set_audio_format be (set_sample_format be fmt af) af') = frame_size (set_sample_format be fmt af))"
proof -
  have *: "string_to_sample_format (format_string (set_sample_format be fmt af)) =
      (if fmt = Sfmt_s8 then string_to_sample_format ''s8'' else Inr (explicit_fmt be fmt))"
    unfolding format_string_of by (cases fmt; cases be) (simp_all add: string_to_sample_format_def)
  have s8: "\<exists>e. string_to_sample_format ''s8'' = Inl e" by (simp add: string_to_sample_format_def)
  show ?thesis
  proof (cases "fmt = Sfmt_s8")
    case True
    then show ?thesis using * s8
      by (auto simp: sample_format_def set_sample_format_string_def set_audio_format_def frame_size_def
          toggle_interleaved_channels_def af_set_srate_def set_sample_format_def update_sample_endianess_def)
  next
    case False
    have f: "sample_format (set_sample_format be fmt af) = explicit_fmt be fmt" using * False by (simp add: sample_format_def)
    have "frame_size (set_audio_format be (set_sample_format be fmt af) af') = frame_size (set_sample_format be fmt af)"
      unfolding set_audio_format_def f set_sample_format_explicit
      by (cases fmt) (simp_all add: frame_size_def toggle_interleaved_channels_def af_set_srate_def af_set_channels_def
          set_sample_format_def update_sample_endianess_def)
    then show ?thesis using False f * by (simp add: set_sample_format_string_def set_sample_format_explicit)
  qed
qed

subsection \<open>Every audio format is one of a sample format\<close>

datatype format_op =
    Fo_channels int | Fo_srate int | Fo_interleaved bool | Fo_format sample_fmt | Fo_string string
  | Fo_coding sample_coding | Fo_endianess sample_endianess | Fo_copy audio_format

fun format_exec :: "bool \<Rightarrow> format_op \<Rightarrow> audio_format \<Rightarrow> format_outcome" where
  "format_exec be (Fo_channels n) af = (None, af_set_channels n af)"
| "format_exec be (Fo_srate n) af = (None, af_set_srate n af)"
| "format_exec be (Fo_interleaved b) af = (None, toggle_interleaved_channels b af)"
| "format_exec be (Fo_format f) af = (None, set_sample_format be f af)"
| "format_exec be (Fo_string s) af = set_sample_format_string be s af"
| "format_exec be (Fo_coding v) af = set_sample_coding be v af"
| "format_exec be (Fo_endianess v) af = set_sample_endianess be v af"
| "format_exec be (Fo_copy f) af = (None, set_audio_format be f af)"

fun format_run :: "bool \<Rightarrow> format_op list \<Rightarrow> audio_format \<Rightarrow> format_outcome" where
  "format_run be [] af = (None, af)"
| "format_run be (q # qs) af =
     (case format_exec be q af of (Some e, af1) \<Rightarrow> (Some e, af1) | (None, af1) \<Rightarrow> format_run be qs af1)"

definition af_typed :: "bool \<Rightarrow> audio_format \<Rightarrow> bool" where
  "af_typed be af \<longleftrightarrow> (\<exists>f. set_sample_format be f af = af)"

lemma set_format_twice: "set_sample_format be f (set_sample_format be f' af) = set_sample_format be f af"
  by (cases f; cases f') (simp_all add: set_sample_format_def update_sample_endianess_def)

lemma af_typed_set: "af_typed be (set_sample_format be f af)"
  unfolding af_typed_def by (rule exI[of _ f]) (rule set_format_twice)

lemma af_typed_other:
  "set_sample_format be f (af_set_channels n af) = af_set_channels n (set_sample_format be f af)"
  "set_sample_format be f (af_set_srate n af) = af_set_srate n (set_sample_format be f af)"
  "set_sample_format be f (toggle_interleaved_channels b af) = toggle_interleaved_channels b (set_sample_format be f af)"
  by (cases f; simp add: set_sample_format_def update_sample_endianess_def af_set_channels_def af_set_srate_def toggle_interleaved_channels_def)+

lemma af_typed_simps [simp]:
  "af_typed be af \<Longrightarrow> af_typed be (af_set_channels n af)" "af_typed be af \<Longrightarrow> af_typed be (af_set_srate n af)"
  "af_typed be af \<Longrightarrow> af_typed be (toggle_interleaved_channels b af)"
  unfolding af_typed_def af_typed_other by metis+

lemma set_string_typed: "set_sample_format_string be s af = (None, af') \<Longrightarrow> af_typed be af'"
  by (auto simp: set_sample_format_string_def af_typed_set split: sum.splits)

lemma format_exec_typed:
  assumes "format_exec be q af = (None, af')" "af_typed be af" shows "af_typed be af'"
  using assms by (cases q) (auto simp: set_sample_endianess_def set_sample_coding_def Let_def set_audio_format_def af_typed_set
      dest: set_string_typed)


definition example_format :: audio_format where
  "example_format = \<lparr>af_channels = 9, af_srate = 9, af_ileaved = False, af_align = 9, af_endian = Se_native, af_coding = Sc_float\<rparr>"


text \<open>
  An exception leaves the coding changed: signed 16-bit samples, set to be floating-point, throw,
  and are then of no sample format at all.
\<close>

lemma failed_coding_is_untyped:
  "fst (set_sample_coding False Sc_float (set_sample_format False Sfmt_s16 af)) \<noteq> None \<and>
   sample_format (snd (set_sample_coding False Sc_float (set_sample_format False Sfmt_s16 af))) = Sfmt_none \<and>
   frame_size (snd (set_sample_coding False Sc_float (set_sample_format False Sfmt_s16 af))) = 2 * af_channels af"
  by (simp add: set_sample_coding_def set_sample_format_def update_sample_endianess_def Let_def format_string_def af_bits_def
      kvu_numtostr_bits set_sample_format_string_def string_to_sample_format_def sample_format_def frame_size_def)

end
