(* ===== verification/Sample_Bytes.thy ===== *)
theory Sample_Bytes
  imports Audio_Format Audio_Mixing Audio_Position
begin

text \<open>
  Conversion between samples and the bytes of files and devices: \<open>eca-sample-conversion.h\<close> and the
  import and export of \<open>libecasound/samplebuffer.cpp\<close>. Samples are rational numbers here: scaling an
  integer of at most 32 bits by a power of two is exact in a double, so that the PCM conversions
  agree, up to the rounding of \<open>v * 0x80 + 0x80\<close> for samples closer to 0 than a double can add.
  The bits of \<open>(float)value\<close>, and the value of such bits, are parameters.
\<close>

type_synonym byte = "8 word"

record byte_env =
  be_little :: bool
  be_f32_bits :: "rat \<Rightarrow> int"
  be_f32_value :: "int \<Rightarrow> rat"

subsection \<open>Numbers and bytes\<close>

text \<open>A cast of a double to an integer type with the given range; outside it is undefined.\<close>

definition c_truncate :: "int \<Rightarrow> int \<Rightarrow> rat \<Rightarrow> int result" where
  "c_truncate lo hi v =
     (let n = truncate_rat v in if lo \<le> n \<and> n \<le> hi then Inr n else Inl Undefined_behaviour)"

definition sample_to_u8 :: "rat \<Rightarrow> int result" where
  "sample_to_u8 v = (if v \<ge> 0x7f / 0x80 then Inr 255 else c_truncate 0 255 (v * 0x80 + 0x80))"

definition sample_to_s16 :: "rat \<Rightarrow> int result" where
  "sample_to_s16 v = (if v \<ge> 0x7fff / 0x8000 then Inr 32767 else c_truncate (- 32768) 32767 (v * 0x8000))"

definition sample_to_s32 :: "rat \<Rightarrow> int result" where
  "sample_to_s32 v =
     (if v \<ge> 0x7fffff / 0x800000 then Inr 2147483647 else c_truncate (- 2147483648) 2147483647 (v * 0x80000000))"

definition u8_to_sample :: "int \<Rightarrow> rat" where "u8_to_sample n = of_int (n - 0x80) / 0x80"
definition s16_to_sample :: "int \<Rightarrow> rat" where "s16_to_sample n = of_int n / 0x8000"
definition s32_to_sample :: "int \<Rightarrow> rat" where "s32_to_sample n = of_int n / 0x80000000"

text \<open>\<open>(unsigned char)((n >> 8 * k) & 0xff)\<close>, and an integer copied from memory with \<open>memcpy\<close>.\<close>

definition byte_of :: "int \<Rightarrow> nat \<Rightarrow> byte" where
  "byte_of n k = word_of_int (drop_bit (8 * k) n)"

fun le_value :: "byte list \<Rightarrow> int" where
  "le_value [] = 0"
| "le_value (b # bs) = uint b + 256 * le_value bs"

definition memory_int :: "bool \<Rightarrow> byte list \<Rightarrow> int" where
  "memory_int little bs =
     (let u = le_value (if little then bs else rev bs) in
      if 2 * u \<ge> 256 ^ length bs then u - 256 ^ length bs else u)"

subsection \<open>One sample\<close>

fun export_bytes :: "byte_env \<Rightarrow> sample_fmt \<Rightarrow> rat \<Rightarrow> byte list result" where
  "export_bytes E Sfmt_u8 v = bind_result (sample_to_u8 v) (\<lambda>n. Inr [word_of_int n])"
| "export_bytes E Sfmt_s16_le v = bind_result (sample_to_s16 v) (\<lambda>n. Inr [byte_of n 0, byte_of n 1])"
| "export_bytes E Sfmt_s16_be v = bind_result (sample_to_s16 v) (\<lambda>n. Inr [byte_of n 1, byte_of n 0])"
| "export_bytes E Sfmt_s24_le v = bind_result (sample_to_s32 v) (\<lambda>n. Inr [byte_of n 1, byte_of n 2, byte_of n 3])"
| "export_bytes E Sfmt_s24_be v = bind_result (sample_to_s32 v) (\<lambda>n. Inr [byte_of n 3, byte_of n 2, byte_of n 1])"
| "export_bytes E Sfmt_s32_le v = bind_result (sample_to_s32 v) (\<lambda>n. Inr [byte_of n 0, byte_of n 1, byte_of n 2, byte_of n 3])"
| "export_bytes E Sfmt_s32_be v = bind_result (sample_to_s32 v) (\<lambda>n. Inr [byte_of n 3, byte_of n 2, byte_of n 1, byte_of n 0])"
| "export_bytes E Sfmt_f32_le v =
     (let n = be_f32_bits E v in Inr [byte_of n 0, byte_of n 1, byte_of n 2, byte_of n 3])"
| "export_bytes E Sfmt_f32_be v =
     (let n = be_f32_bits E v in Inr [byte_of n 3, byte_of n 2, byte_of n 1, byte_of n 0])"
| "export_bytes E _ v = Inr []"

definition export_helper ::
  "byte_env \<Rightarrow> sample_fmt \<Rightarrow> rat \<Rightarrow> byte list \<times> nat \<Rightarrow> (byte list \<times> nat) result" where
  "export_helper E fmt v = (\<lambda>(obuffer, optr).
     bind_result (export_bytes E fmt v) (\<lambda>bs.
       if optr + length bs \<le> length obuffer
       then Inr (take optr obuffer @ bs @ drop (optr + length bs) obuffer, optr + length bs)
       else Inl Undefined_behaviour))"

text \<open>The number of bytes read for a sample, and its value from the bytes in the order read.\<close>

fun import_size :: "sample_fmt \<Rightarrow> nat" where
  "import_size Sfmt_u8 = 1"
| "import_size Sfmt_s16_le = 2"
| "import_size Sfmt_s16_be = 2"
| "import_size Sfmt_s24_le = 3"
| "import_size Sfmt_s24_be = 3"
| "import_size Sfmt_s32_le = 4"
| "import_size Sfmt_s32_be = 4"
| "import_size Sfmt_f32_le = 4"
| "import_size Sfmt_f32_be = 4"
| "import_size _ = 0"

fun import_value :: "byte_env \<Rightarrow> sample_fmt \<Rightarrow> byte list \<Rightarrow> rat" where
  "import_value E Sfmt_u8 xs = u8_to_sample (uint (xs ! 0))"
| "import_value E Sfmt_s16_le xs = s16_to_sample (memory_int (be_little E) (if be_little E then xs else rev xs))"
| "import_value E Sfmt_s16_be xs = s16_to_sample (memory_int (be_little E) (if \<not> be_little E then xs else rev xs))"
| "import_value E Sfmt_s24_le xs = s32_to_sample (memory_int (be_little E) (if be_little E then 0 # xs else rev xs @ [0]))"
| "import_value E Sfmt_s24_be xs = s32_to_sample (memory_int (be_little E) (if be_little E then 0 # rev xs else xs @ [0]))"
| "import_value E Sfmt_s32_le xs = s32_to_sample (memory_int (be_little E) (if be_little E then xs else rev xs))"
| "import_value E Sfmt_s32_be xs = s32_to_sample (memory_int (be_little E) (if be_little E then rev xs else xs))"
| "import_value E Sfmt_f32_le xs = be_f32_value E (memory_int (be_little E) (if be_little E then xs else rev xs))"
| "import_value E Sfmt_f32_be xs = be_f32_value E (memory_int (be_little E) (if be_little E then rev xs else xs))"
| "import_value E _ xs = 0"

definition import_helper ::
  "byte_env \<Rightarrow> sample_fmt \<Rightarrow> byte list \<Rightarrow> nat \<Rightarrow> nat \<Rightarrow> rat list \<Rightarrow> rat list result" where
  "import_helper E fmt ibuffer iptr optr obuffer =
     (if import_size fmt = 0 then Inr obuffer
      else if iptr + import_size fmt \<le> length ibuffer \<and> optr < length obuffer
      then Inr (obuffer[optr := import_value E fmt (take (import_size fmt) (drop iptr ibuffer))])
      else Inl Undefined_behaviour)"

subsection \<open>Buffers\<close>

text \<open>The order in which the loops visit the samples, as pairs of a channel and a position.\<close>

definition interleaved_order :: "nat \<Rightarrow> nat \<Rightarrow> (nat \<times> nat) list" where
  "interleaved_order frames chcount = concat (map (\<lambda>t. map (\<lambda>c. (c, t)) [0..<chcount]) [0..<frames])"

definition noninterleaved_order :: "nat \<Rightarrow> nat \<Rightarrow> (nat \<times> nat) list" where
  "noninterleaved_order frames chcount = concat (map (\<lambda>c. map (\<lambda>t. (c, t)) [0..<frames]) [0..<chcount])"

definition clamp_sample :: "rat \<Rightarrow> rat" where
  "clamp_sample v = (if v > impl_max_value then impl_max_value else if v < impl_min_value then impl_min_value else v)"

definition export_loop ::
  "byte_env \<Rightarrow> sample_fmt \<Rightarrow> rat sample_buffer \<Rightarrow> (nat \<times> nat) list \<Rightarrow> byte list \<times> nat \<Rightarrow> (byte list \<times> nat) result" where
  "export_loop E fmt sb order =
     fold_result (\<lambda>(c, t) s. bind_result (read_cell (sb_arrays sb) c t) (\<lambda>v. export_helper E fmt (clamp_sample v) s)) order"

definition export_samples ::
  "byte_env \<Rightarrow> (nat \<Rightarrow> nat \<Rightarrow> rat) \<Rightarrow> (nat \<Rightarrow> nat \<Rightarrow> (nat \<times> nat) list) \<Rightarrow> sample_fmt \<Rightarrow> nat \<Rightarrow> byte list \<Rightarrow>
     rat sample_buffer \<Rightarrow> (byte list \<times> rat sample_buffer) result" where
  "export_samples E g order fmt chcount target sb =
     bind_result (if chcount > sb_channel_count sb then number_of_channels g chcount sb else Inr sb) (\<lambda>sb1.
     bind_result (export_loop E fmt sb1 (order (sb_buffersize sb1) chcount) (target, 0)) (\<lambda>(target1, osize).
       Inr (target1, sb1)))"

definition export_interleaved ::
  "byte_env \<Rightarrow> (nat \<Rightarrow> nat \<Rightarrow> rat) \<Rightarrow> sample_fmt \<Rightarrow> nat \<Rightarrow> byte list \<Rightarrow> rat sample_buffer \<Rightarrow> (byte list \<times> rat sample_buffer) result" where
  "export_interleaved E g = export_samples E g interleaved_order"

definition export_noninterleaved ::
  "byte_env \<Rightarrow> (nat \<Rightarrow> nat \<Rightarrow> rat) \<Rightarrow> sample_fmt \<Rightarrow> nat \<Rightarrow> byte list \<Rightarrow> rat sample_buffer \<Rightarrow> (byte list \<times> rat sample_buffer) result" where
  "export_noninterleaved E g = export_samples E g noninterleaved_order"

definition import_loop ::
  "byte_env \<Rightarrow> sample_fmt \<Rightarrow> byte list \<Rightarrow> (nat \<times> nat) list \<Rightarrow> nat \<times> rat sample_buffer \<Rightarrow> (nat \<times> rat sample_buffer) result" where
  "import_loop E fmt source order =
     fold_result (\<lambda>(c, t) (isize, sb).
       bind_result (if c < length (sb_arrays sb) then Inr (sb_arrays sb ! c) else Inl Undefined_behaviour) (\<lambda>obuffer.
       bind_result (import_helper E fmt source isize t obuffer) (\<lambda>obuffer1.
         Inr (isize + import_size fmt, sb\<lparr>sb_arrays := (sb_arrays sb)[c := obuffer1]\<rparr>)))) order"

definition import_samples ::
  "byte_env \<Rightarrow> (nat \<Rightarrow> nat \<Rightarrow> rat) \<Rightarrow> (nat \<Rightarrow> nat \<Rightarrow> (nat \<times> nat) list) \<Rightarrow> byte list \<Rightarrow> nat \<Rightarrow> sample_fmt \<Rightarrow> nat \<Rightarrow>
     rat sample_buffer \<Rightarrow> rat sample_buffer result" where
  "import_samples E g order source samples_read fmt chcount sb =
     bind_result (if sb_channel_count sb \<noteq> chcount then number_of_channels g chcount sb else Inr sb) (\<lambda>sb1.
     bind_result (if sb_buffersize sb1 \<noteq> samples_read then length_in_samples g samples_read sb1 else Inr sb1) (\<lambda>sb2.
     bind_result (import_loop E fmt source (order (sb_buffersize sb2) chcount) (0, sb2)) (\<lambda>(isize, sb3). Inr sb3)))"

definition import_interleaved ::
  "byte_env \<Rightarrow> (nat \<Rightarrow> nat \<Rightarrow> rat) \<Rightarrow> byte list \<Rightarrow> nat \<Rightarrow> sample_fmt \<Rightarrow> nat \<Rightarrow> rat sample_buffer \<Rightarrow> rat sample_buffer result" where
  "import_interleaved E g = import_samples E g interleaved_order"

definition import_noninterleaved ::
  "byte_env \<Rightarrow> (nat \<Rightarrow> nat \<Rightarrow> rat) \<Rightarrow> byte list \<Rightarrow> nat \<Rightarrow> sample_fmt \<Rightarrow> nat \<Rightarrow> rat sample_buffer \<Rightarrow> rat sample_buffer result" where
  "import_noninterleaved E g = import_samples E g noninterleaved_order"

end
