(* ===== verification/Sample_Bytes_Facts.thy ===== *)
theory Sample_Bytes_Facts
  imports Sample_Bytes
begin

text \<open>
  Round trips between bytes and samples. The facts on bytes and integers hold for words of any number
  of bytes and do not depend on the byte order of the machine; the loops of the import and the export
  visit each sample once, so that they amount to a list of codings.
\<close>

subsection \<open>Bytes of an integer\<close>

lemma uint_byte_of: "uint (byte_of n k) = (n div 256 ^ k) mod 256"
proof -
  have "(2 :: int) ^ (8 * k) = 256 ^ k" by (simp add: power_mult)
  then show ?thesis by (simp add: byte_of_def uint_word_of_int drop_bit_eq_div)
qed

lemma uint_byte: "0 \<le> uint (b :: byte)" "uint (b :: byte) < 256"
  using uint_lt2p[of b] by simp_all

lemma le_value_bounds: "0 \<le> le_value bs \<and> le_value bs < 256 ^ length bs"
proof (induction bs)
  case (Cons b bs)
  then show ?case using uint_byte[of b] by auto
qed simp

lemma le_value_digit: "j < length bs \<Longrightarrow> (le_value bs div 256 ^ j) mod 256 = uint (bs ! j)"
proof (induction bs arbitrary: j)
  case (Cons b bs)
  show ?case
  proof (cases j)
    case 0
    then show ?thesis using uint_byte[of b] by simp
  next
    case (Suc i)
    have "(uint b + 256 * le_value bs) div 256 = le_value bs" using uint_byte[of b] by simp
    then have "(uint b + 256 * le_value bs) div 256 ^ j = le_value bs div 256 ^ i"
      by (simp add: Suc zdiv_zmult2_eq)
    then show ?thesis using Cons Suc by simp
  qed
qed simp

lemma memory_int_rev: "memory_int False xs = memory_int True (rev xs)"
  by (simp add: memory_int_def Let_def)

lemma memory_int_bounds: "- (256 ^ length bs) \<le> 2 * memory_int True bs \<and> 2 * memory_int True bs < 256 ^ length bs"
  using le_value_bounds[of bs] by (auto simp: memory_int_def Let_def)

lemma byte_of_memory_int:
  assumes "j < length bs" shows "byte_of (memory_int True bs) j = bs ! j"
proof -
  define n where "n = length bs"
  have "(u - 256 ^ n) div 256 ^ j = u div 256 ^ j - 256 ^ (n - j)" for u :: int
  proof -
    have "u - 256 ^ n = u + - (256 ^ (n - j)) * 256 ^ j" using assms by (simp add: n_def power_add[symmetric])
    then have "(u - 256 ^ n) div 256 ^ j = (u + - (256 ^ (n - j)) * 256 ^ j) div 256 ^ j" by (rule arg_cong)
    also have "\<dots> = - (256 ^ (n - j)) + u div 256 ^ j" by (rule div_mult_self1) simp
    finally show ?thesis by simp
  qed
  moreover obtain i where "n - j = Suc i" using assms by (metis Suc_diff_Suc n_def)
  ultimately have "((u - 256 ^ n) div 256 ^ j) mod 256 = (u div 256 ^ j) mod 256" for u :: int
    by (simp add: mod_diff_eq[symmetric])
  then have "(memory_int True bs div 256 ^ j) mod 256 = (le_value bs div 256 ^ j) mod 256"
    by (simp add: memory_int_def Let_def n_def)
  then have "uint (byte_of (memory_int True bs) j) = uint (bs ! j)"
    using le_value_digit[OF assms] by (simp add: uint_byte_of)
  then show ?thesis by (metis word_of_int_uint)
qed

subsection \<open>One sample\<close>

text \<open>The bytes of a PCM sample from the least significant one on, and its integer value.\<close>

fun pcm_order :: "sample_fmt \<Rightarrow> byte list \<Rightarrow> byte list" where
  "pcm_order Sfmt_s16_be xs = rev xs"
| "pcm_order Sfmt_s24_le xs = 0 # xs"
| "pcm_order Sfmt_s24_be xs = 0 # rev xs"
| "pcm_order Sfmt_s32_be xs = rev xs"
| "pcm_order fmt xs = xs"

definition pcm_fmts :: "sample_fmt set" where
  "pcm_fmts = {Sfmt_u8, Sfmt_s16_le, Sfmt_s16_be, Sfmt_s24_le, Sfmt_s24_be, Sfmt_s32_le, Sfmt_s32_be}"

text \<open>32-bit samples at or above \<open>0x7fffff00\<close> are the ones that exporting sets to the maximum.\<close>

definition pcm_exact :: "sample_fmt \<Rightarrow> byte list \<Rightarrow> bool" where
  "pcm_exact fmt xs \<longleftrightarrow> fmt \<in> pcm_fmts \<and> (fmt \<in> {Sfmt_s32_le, Sfmt_s32_be} \<longrightarrow> memory_int True (pcm_order fmt xs) < 0x7fffff00)"

lemma import_value_pcm:
  "import_value E Sfmt_s16_le xs = s16_to_sample (memory_int True (pcm_order Sfmt_s16_le xs))"
  "import_value E Sfmt_s16_be xs = s16_to_sample (memory_int True (pcm_order Sfmt_s16_be xs))"
  "import_value E Sfmt_s24_le xs = s32_to_sample (memory_int True (pcm_order Sfmt_s24_le xs))"
  "import_value E Sfmt_s24_be xs = s32_to_sample (memory_int True (pcm_order Sfmt_s24_be xs))"
  "import_value E Sfmt_s32_le xs = s32_to_sample (memory_int True (pcm_order Sfmt_s32_le xs))"
  "import_value E Sfmt_s32_be xs = s32_to_sample (memory_int True (pcm_order Sfmt_s32_be xs))"
  by (cases "be_little E"; simp add: memory_int_rev)+

lemma clamp_sample_id: "- 1 \<le> v \<Longrightarrow> v \<le> 1 \<Longrightarrow> clamp_sample v = v"
  by (simp add: clamp_sample_def impl_max_value_def impl_min_value_def)

lemma clamp_sample_bounds: "- 1 \<le> clamp_sample v \<and> clamp_sample v \<le> 1"
  by (simp add: clamp_sample_def impl_max_value_def impl_min_value_def)

lemma s16_there_and_back:
  assumes "- 32768 \<le> m" "m \<le> 32767" shows "sample_to_s16 (clamp_sample (s16_to_sample m)) = Inr m"
proof -
  have c: "clamp_sample (s16_to_sample m) = of_int m / 0x8000"
    unfolding s16_to_sample_def by (rule clamp_sample_id) (use assms in \<open>simp_all add: field_simps\<close>)
  show ?thesis
  proof (cases "m = 32767")
    case True
    then show ?thesis unfolding c by (simp add: sample_to_s16_def)
  next
    case False
    then have "\<not> (of_int m / 0x8000 \<ge> (0x7fff / 0x8000 :: rat))" using assms by (simp add: field_simps)
    moreover have "of_int m / 0x8000 * 0x8000 = (of_int m :: rat)" by simp
    ultimately show ?thesis unfolding c sample_to_s16_def c_truncate_def Let_def using assms by simp
  qed
qed

lemma s32_there_and_back:
  assumes "- 2147483648 \<le> m" "m \<le> 2147483647"
  shows "sample_to_s32 (clamp_sample (s32_to_sample m)) = Inr (if m \<ge> 0x7fffff00 then 2147483647 else m)"
proof -
  have c: "clamp_sample (s32_to_sample m) = of_int m / 0x80000000"
    unfolding s32_to_sample_def by (rule clamp_sample_id) (use assms in \<open>simp_all add: field_simps\<close>)
  have "of_int m / 0x80000000 \<ge> (0x7fffff / 0x800000 :: rat) \<longleftrightarrow> m \<ge> 0x7fffff00" by (simp add: field_simps)
  moreover have "of_int m / 0x80000000 * 0x80000000 = (of_int m :: rat)" by simp
  ultimately show ?thesis unfolding c sample_to_s32_def c_truncate_def Let_def using assms by simp
qed

lemma u8_there_and_back:
  assumes "0 \<le> m" "m \<le> 255" shows "sample_to_u8 (clamp_sample (u8_to_sample m)) = Inr m"
proof -
  have c: "clamp_sample (u8_to_sample m) = of_int (m - 0x80) / 0x80"
    unfolding u8_to_sample_def by (rule clamp_sample_id) (use assms in \<open>simp_all add: field_simps\<close>)
  show ?thesis
  proof (cases "m = 255")
    case True
    then show ?thesis unfolding c by (simp add: sample_to_u8_def)
  next
    case False
    then have "\<not> (of_int (m - 0x80) / 0x80 \<ge> (0x7f / 0x80 :: rat))" using assms by (simp add: field_simps)
    moreover have "of_int (m - 0x80) / 0x80 * 0x80 + 0x80 = (of_int m :: rat)" by (simp add: field_simps)
    ultimately show ?thesis unfolding c sample_to_u8_def c_truncate_def Let_def using assms by simp
  qed
qed

lemma memory_int_last_byte:
  assumes "byte_of (memory_int True (0 # xs)) 0 = 0" "length xs = 3" "memory_int True (0 # xs) \<ge> 0x7fffff00"
  shows "memory_int True (0 # xs) = 0x7fffff00"
proof -
  have "memory_int True (0 # xs) mod 256 = 0" using assms(1) uint_byte_of[of "memory_int True (0 # xs)" 0] by simp
  moreover have "2 * memory_int True (0 # xs) < 256 ^ 4" using memory_int_bounds[of "0 # xs"] assms(2) by simp
  moreover obtain k where "memory_int True (0 # xs) = 256 * k" using calculation(1) by (meson calculation(1) dvdE mod_0_imp_dvd)
  ultimately show ?thesis using assms(3) by simp
qed

lemma export_import_bytes:
  assumes "pcm_exact fmt xs" "length xs = import_size fmt"
  shows "export_bytes E fmt (clamp_sample (import_value E fmt xs)) = Inr xs"
proof -
  define ys where "ys = pcm_order fmt xs"
  define m where "m = memory_int True ys"
  have b: "byte_of m j = ys ! j" if "j < length ys" for j using that byte_of_memory_int by (simp add: m_def)
  have r: "- (256 ^ length ys) \<le> 2 * m" "2 * m < 256 ^ length ys" using memory_int_bounds[of ys] by (simp_all add: m_def)
  consider "fmt = Sfmt_u8" | "fmt \<in> {Sfmt_s16_le, Sfmt_s16_be}" | "fmt \<in> {Sfmt_s24_le, Sfmt_s24_be}" | "fmt \<in> {Sfmt_s32_le, Sfmt_s32_be}"
    using assms(1) by (auto simp: pcm_exact_def pcm_fmts_def)
  then show ?thesis
  proof cases
    case 1
    obtain x where x: "xs = [x]" using assms(2) 1 by (auto simp: length_Suc_conv)
    have "sample_to_u8 (clamp_sample (u8_to_sample (uint x))) = Inr (uint x)"
      using uint_byte[of x] by (intro u8_there_and_back) simp_all
    then show ?thesis by (simp add: 1 x)
  next
    case 2
    obtain x y where x: "xs = [x, y]" using assms(2) 2 by (auto simp: length_Suc_conv numeral_eq_Suc)
    have "sample_to_s16 (clamp_sample (s16_to_sample m)) = Inr m"
      using r 2 x by (intro s16_there_and_back) (auto simp: ys_def)
    moreover have "import_value E fmt xs = s16_to_sample m" using 2 import_value_pcm[of E xs] by (auto simp: m_def ys_def)
    ultimately show ?thesis using 2 b[of 0] b[of 1] by (auto simp: x ys_def)
  next
    case 3
    obtain x y z where x: "xs = [x, y, z]" using assms(2) 3 by (auto simp: length_Suc_conv numeral_eq_Suc)
    define k where "k = (if m \<ge> 0x7fffff00 then 2147483647 else m)"
    have "sample_to_s32 (clamp_sample (s32_to_sample m)) = Inr k"
      unfolding k_def using r 3 x by (intro s32_there_and_back) (auto simp: ys_def)
    moreover have "import_value E fmt xs = s32_to_sample m" using 3 import_value_pcm[of E xs] by (auto simp: m_def ys_def)
    moreover have "byte_of k j = byte_of m j" if "j \<in> {1, 2, 3}" for j
    proof (cases "m \<ge> 0x7fffff00")
      case True
      obtain zs where zs: "ys = 0 # zs" "length zs = 3" using 3 by (auto simp: ys_def x)
      have "byte_of m 0 = 0" using b[of 0] by (simp add: zs)
      then have m: "m = 0x7fffff00" using memory_int_last_byte[of zs] True zs by (simp add: m_def)
      have "uint (byte_of 2147483647 j) = uint (byte_of m j)" using that by (auto simp: uint_byte_of m)
      then show ?thesis using True unfolding k_def by (metis word_of_int_uint)
    qed (simp add: k_def)
    ultimately show ?thesis using 3 b[of 1] b[of 2] b[of 3] by (auto simp: x ys_def numeral_eq_Suc)
  next
    case 4
    obtain x y z w where x: "xs = [x, y, z, w]" using assms(2) 4 by (auto simp: length_Suc_conv numeral_eq_Suc)
    have "sample_to_s32 (clamp_sample (s32_to_sample m)) = Inr (if m \<ge> 0x7fffff00 then 2147483647 else m)"
      using r 4 x by (intro s32_there_and_back) (auto simp: ys_def)
    then have "sample_to_s32 (clamp_sample (s32_to_sample m)) = Inr m"
      using assms(1) 4 by (auto simp: pcm_exact_def m_def ys_def split: if_split_asm)
    moreover have "import_value E fmt xs = s32_to_sample m" using 4 import_value_pcm[of E xs] by (auto simp: m_def ys_def)
    ultimately show ?thesis using 4 b[of 0] b[of 1] b[of 2] b[of 3] by (auto simp: x ys_def numeral_eq_Suc)
  qed
qed

text \<open>The other way round: a sample in range comes back with an error of at most one quantisation step.\<close>

lemma byte_of_Suc: "byte_of n (Suc k) = byte_of (n div 256) k"
proof -
  have "n div 256 ^ Suc k = n div 256 div 256 ^ k" by (simp add: zdiv_zmult2_eq)
  then have "uint (byte_of n (Suc k)) = uint (byte_of (n div 256) k)" by (simp add: uint_byte_of)
  then show ?thesis by (metis word_of_int_uint)
qed

lemma le_value_bytes: "le_value (map (byte_of n) [0..<k]) = n mod 256 ^ k"
proof (induction k arbitrary: n)
  case (Suc k)
  have "map (byte_of n) [0..<Suc k] = byte_of n 0 # map (byte_of (n div 256)) [0..<k]"
    unfolding upt_conv_Cons[OF zero_less_Suc] by (simp add: map_Suc_upt[symmetric] byte_of_Suc comp_def del: upt_Suc)
  then show ?case using Suc.IH[of "n div 256"] by (simp add: uint_byte_of zmod_zmult2_eq)
qed simp

lemma memory_int_bytes:
  assumes "- (256 ^ k) \<le> 2 * n" "2 * n < 256 ^ k" shows "memory_int True (map (byte_of n) [0..<k]) = n"
proof (cases "0 \<le> n")
  case True
  then have "n mod 256 ^ k = n" using assms by simp
  then show ?thesis using assms(2) by (simp add: memory_int_def le_value_bytes)
next
  case False
  have "(n + 256 ^ k) mod 256 ^ k = n + 256 ^ k" using assms(1) False by (intro mod_pos_pos_trivial) simp_all
  then have "n mod 256 ^ k = n + 256 ^ k" by simp
  then show ?thesis using assms(1) by (simp add: memory_int_def le_value_bytes)
qed

lemma truncate_scaled:
  assumes "0 < (s :: rat)" shows "\<bar>of_int (truncate_rat (v * s)) / s - v\<bar> < 1 / s"
proof -
  have "\<bar>of_int (truncate_rat (v * s)) - v * s\<bar> / s < 1 / s" using truncate_rat_error assms by (simp add: divide_strict_right_mono)
  moreover have "of_int (truncate_rat (v * s)) / s - v = (of_int (truncate_rat (v * s)) - v * s) / s" using assms by (simp add: field_simps)
  ultimately show ?thesis using assms by (simp add: abs_divide)
qed

lemma truncate_bounds:
  assumes "of_int lo \<le> v" "v < of_int hi + 1" "lo \<le> 0" "0 \<le> hi" shows "lo \<le> truncate_rat v \<and> truncate_rat v \<le> hi"
proof (cases "0 \<le> v")
  case True
  then show ?thesis using assms by (simp add: truncate_rat_def floor_le_iff) linarith
next
  case False
  moreover have "(0 :: rat) \<le> of_int hi" using assms(4) by simp
  ultimately have "v \<le> of_int hi" by linarith
  then have "\<lceil>v\<rceil> \<le> hi" by (simp add: ceiling_le_iff)
  moreover have "lo \<le> \<lceil>v\<rceil>" using assms(1) by linarith
  ultimately show ?thesis using False assms(4) by (auto simp: truncate_rat_def)
qed

text \<open>One step of the quantisation of each PCM format; 32-bit samples are cut off like 24-bit ones.\<close>

fun quantum :: "sample_fmt \<Rightarrow> rat" where
  "quantum Sfmt_u8 = 1 / 0x80"
| "quantum Sfmt_s16_le = 1 / 0x8000"
| "quantum Sfmt_s16_be = 1 / 0x8000"
| "quantum _ = 1 / 0x800000"

lemma s32_error:
  assumes "- 1 \<le> v" "v \<le> 1"
  shows "\<exists>n. sample_to_s32 v = Inr n \<and> - 2147483648 \<le> n \<and> n \<le> 2147483647 \<and>
    \<bar>s32_to_sample n - v\<bar> \<le> 1 / 0x800000 \<and> \<bar>s32_to_sample (256 * (n div 256)) - v\<bar> \<le> 1 / 0x800000"
proof (cases "v \<ge> 0x7fffff / 0x800000")
  case True
  have "\<bar>s32_to_sample 2147483647 - v\<bar> \<le> 1 / 0x800000" "\<bar>s32_to_sample (256 * (2147483647 div 256)) - v\<bar> \<le> 1 / 0x800000"
    unfolding s32_to_sample_def abs_le_iff using True assms by simp_all
  then show ?thesis using True by (simp add: sample_to_s32_def)
next
  case False
  define n where "n = truncate_rat (v * 0x80000000)"
  have b: "- 2147483648 \<le> n \<and> n \<le> 2147483647"
    unfolding n_def by (rule truncate_bounds) (use assms False in simp_all)
  have e: "\<bar>of_int n / 0x80000000 - v\<bar> < 1 / 0x80000000" unfolding n_def by (rule truncate_scaled) simp
  have "256 * (n div 256) = n - n mod 256" by (simp add: minus_mod_eq_mult_div)
  moreover have "0 \<le> n mod 256" "n mod 256 < 256" by simp_all
  ultimately have d: "n - 255 \<le> 256 * (n div 256)" "256 * (n div 256) \<le> n" by linarith+
  have "of_int (256 * (n div 256)) \<le> (of_int n :: rat)" "of_int n - 255 \<le> (of_int (256 * (n div 256)) :: rat)"
    using d by simp_all
  then have "\<bar>of_int (256 * (n div 256)) / 0x80000000 - v\<bar> \<le> 1 / 0x800000" using e by (simp add: abs_le_iff abs_less_iff field_simps)
  moreover have "sample_to_s32 v = Inr n" using False b by (simp add: sample_to_s32_def c_truncate_def n_def)
  ultimately show ?thesis using b e by (auto simp: s32_to_sample_def abs_le_iff abs_less_iff)
qed

lemma s16_error:
  assumes "- 1 \<le> v" "v \<le> 1"
  shows "\<exists>n. sample_to_s16 v = Inr n \<and> - 32768 \<le> n \<and> n \<le> 32767 \<and> \<bar>s16_to_sample n - v\<bar> \<le> 1 / 0x8000"
proof (cases "v \<ge> 0x7fff / 0x8000")
  case True
  then show ?thesis using assms by (simp add: sample_to_s16_def s16_to_sample_def abs_le_iff)
next
  case False
  define n where "n = truncate_rat (v * 0x8000)"
  have b: "- 32768 \<le> n \<and> n \<le> 32767" unfolding n_def by (rule truncate_bounds) (use assms False in simp_all)
  have "\<bar>of_int n / 0x8000 - v\<bar> < 1 / 0x8000" unfolding n_def by (rule truncate_scaled) simp
  then show ?thesis using b False by (simp add: sample_to_s16_def c_truncate_def n_def s16_to_sample_def)
qed

lemma u8_error:
  assumes "- 1 \<le> v" "v \<le> 1"
  shows "\<exists>n. sample_to_u8 v = Inr n \<and> 0 \<le> n \<and> n \<le> 255 \<and> \<bar>u8_to_sample n - v\<bar> \<le> 1 / 0x80"
proof (cases "v \<ge> 0x7f / 0x80")
  case True
  then show ?thesis using assms by (simp add: sample_to_u8_def u8_to_sample_def abs_le_iff)
next
  case False
  define n where "n = truncate_rat (v * 0x80 + 0x80)"
  have n: "n = \<lfloor>v * 0x80 + 0x80\<rfloor>" using assms(1) by (simp add: n_def truncate_rat_def)
  have b: "0 \<le> n \<and> n \<le> 255" unfolding n_def by (rule truncate_bounds) (use assms False in simp_all)
  have "of_int n \<le> v * 0x80 + 0x80" "v * 0x80 + 0x80 < of_int n + 1" unfolding n by linarith+
  then have "\<bar>u8_to_sample n - v\<bar> \<le> 1 / 0x80" by (simp add: u8_to_sample_def abs_le_iff field_simps)
  then show ?thesis using b False by (simp add: sample_to_u8_def c_truncate_def n_def)
qed

lemma import_export_bytes:
  assumes "fmt \<in> pcm_fmts" "- 1 \<le> v" "v \<le> 1"
  shows "\<exists>bs. export_bytes E fmt v = Inr bs \<and> length bs = import_size fmt \<and> \<bar>import_value E fmt bs - v\<bar> \<le> quantum fmt"
proof -
  consider "fmt = Sfmt_u8" | "fmt \<in> {Sfmt_s16_le, Sfmt_s16_be}" | "fmt \<in> {Sfmt_s24_le, Sfmt_s24_be}" | "fmt \<in> {Sfmt_s32_le, Sfmt_s32_be}"
    using assms(1) by (auto simp: pcm_fmts_def)
  then show ?thesis
  proof cases
    case 1
    obtain n where n: "sample_to_u8 v = Inr n" "0 \<le> n" "n \<le> 255" "\<bar>u8_to_sample n - v\<bar> \<le> 1 / 0x80"
      using u8_error[OF assms(2,3)] by blast
    have "uint (word_of_int n :: byte) = n" using n(2,3) by (simp add: uint_word_of_int)
    then show ?thesis using n by (simp add: 1)
  next
    case 2
    obtain n where n: "sample_to_s16 v = Inr n" "- 32768 \<le> n" "n \<le> 32767" "\<bar>s16_to_sample n - v\<bar> \<le> 1 / 0x8000"
      using s16_error[OF assms(2,3)] by blast
    have "memory_int True [byte_of n 0, byte_of n 1] = n"
      using memory_int_bytes[of 2 n] n(2,3) by (simp add: upt_rec[of _ 2] numeral_eq_Suc)
    then show ?thesis using 2 n import_value_pcm(1,2)[of E] by (auto simp del: import_value.simps)
  next
    case 3
    obtain n where n: "sample_to_s32 v = Inr n" "- 2147483648 \<le> n" "n \<le> 2147483647" "\<bar>s32_to_sample (256 * (n div 256)) - v\<bar> \<le> 1 / 0x800000"
      using s32_error[OF assms(2,3)] by blast
    define k where "k = 256 * (n div 256)"
    have "uint (byte_of k 0) = 0" unfolding uint_byte_of by (simp add: k_def)
    then have "byte_of k 0 = 0" by (metis word_of_int_uint word_of_int_0)
    moreover have "byte_of k (Suc j) = byte_of n (Suc j)" for j by (simp add: byte_of_Suc k_def)
    moreover have "- 2147483648 \<le> k" "k \<le> 2147483647" using n(2,3) by (simp_all add: k_def)
    ultimately have "memory_int True [0, byte_of n 1, byte_of n 2, byte_of n 3] = k"
      using memory_int_bytes[of 4 k] by (simp add: upt_rec[of _ 4] numeral_eq_Suc)
    then show ?thesis using 3 n import_value_pcm(3,4)[of E] by (auto simp: k_def simp del: import_value.simps)
  next
    case 4
    obtain n where n: "sample_to_s32 v = Inr n" "- 2147483648 \<le> n" "n \<le> 2147483647" "\<bar>s32_to_sample n - v\<bar> \<le> 1 / 0x800000"
      using s32_error[OF assms(2,3)] by blast
    have "memory_int True [byte_of n 0, byte_of n 1, byte_of n 2, byte_of n 3] = n"
      using memory_int_bytes[of 4 n] n(2,3) by (simp add: upt_rec[of _ 4] numeral_eq_Suc)
    then show ?thesis using 4 n import_value_pcm(5,6)[of E] by (auto simp del: import_value.simps)
  qed
qed

subsection \<open>Loops\<close>

lemma orders:
  "distinct (interleaved_order n k)" "set (interleaved_order n k) = {..<k} \<times> {..<n}" "length (interleaved_order n k) = n * k"
  "distinct (noninterleaved_order n k)" "set (noninterleaved_order n k) = {..<k} \<times> {..<n}" "length (noninterleaved_order n k) = n * k"
proof -
  have p: "concat (map (\<lambda>x. map (Pair x) ys) xs) = List.product xs ys" for xs :: "nat list" and ys :: "nat list"
    by (induction xs) simp_all
  then have 1: "noninterleaved_order n k = List.product [0..<k] [0..<n]" by (simp add: noninterleaved_order_def)
  have 2: "interleaved_order n k = map prod.swap (List.product [0..<n] [0..<k])"
    by (simp add: interleaved_order_def p[symmetric] map_concat comp_def)
  show "distinct (noninterleaved_order n k)" "set (noninterleaved_order n k) = {..<k} \<times> {..<n}" "length (noninterleaved_order n k) = n * k"
    by (auto simp: 1 distinct_product length_product)
  show "distinct (interleaved_order n k)" "length (interleaved_order n k) = n * k"
    by (auto simp: 2 distinct_product length_product distinct_map intro: inj_on_subset[OF inj_swap])
  show "set (interleaved_order n k) = {..<k} \<times> {..<n}" by (auto simp: 2 image_iff)
qed

definition cell :: "'s sample_buffer \<Rightarrow> nat \<times> nat \<Rightarrow> 's" where
  "cell sb p = sb_arrays sb ! fst p ! snd p"

lemma cell_sample_at:
  "sb_wf sb \<Longrightarrow> c < sb_channel_count sb \<Longrightarrow> t < sb_buffersize sb \<Longrightarrow> sample_at sb c t = cell sb (c, t)"
  by (simp add: sample_at_def cell_def sb_audio_nth)

definition slice :: "nat \<Rightarrow> byte list \<Rightarrow> nat \<Rightarrow> byte list" where
  "slice s xs k = take s (drop (k * s) xs)"

lemma length_slice: "Suc k * s \<le> length xs \<Longrightarrow> length (slice s xs k) = s"
  by (simp add: slice_def)

lemma concat_slices: "m * s \<le> length xs \<Longrightarrow> concat (map (slice s xs) [0..<m]) = take (m * s) xs"
proof (induction m)
  case (Suc m)
  then show ?case by (simp add: slice_def add.commute[of s] take_add)
qed simp

lemma import_loop_at:
  assumes "sb_wf sb" "distinct ps" "set ps \<subseteq> {..<sb_channel_count sb} \<times> {..<sb_buffersize sb}" "import_size fmt \<noteq> 0"
    "import_size fmt * (i + length ps) \<le> length source"
  shows "\<exists>sb'. import_loop E fmt source ps (i * import_size fmt, sb) = Inr ((i + length ps) * import_size fmt, sb') \<and> sb_wf sb' \<and>
    sb_channel_count sb' = sb_channel_count sb \<and> sb_buffersize sb' = sb_buffersize sb \<and>
    (\<forall>k < length ps. cell sb' (ps ! k) = import_value E fmt (slice (import_size fmt) source (i + k))) \<and>
    (\<forall>c t. (c, t) \<notin> set ps \<longrightarrow> cell sb' (c, t) = cell sb (c, t))"
  using assms
proof (induction ps arbitrary: i sb)
  case (Cons p ps)
  obtain c t where p: "p = (c, t)" by fastforce
  note w = sb_wfD[OF Cons.prems(1)]
  have ct: "c < sb_channel_count sb" "t < sb_buffersize sb" using Cons.prems(3) p by auto
  then have c: "c < length (sb_arrays sb)" and t: "t < length (sb_arrays sb ! c)" using w(1,2) w(3)[of c] by auto
  define v where "v = import_value E fmt (slice (import_size fmt) source i)"
  define sb1 where "sb1 = sb\<lparr>sb_arrays := (sb_arrays sb)[c := (sb_arrays sb ! c)[t := v]]\<rparr>"
  have "i * import_size fmt + import_size fmt \<le> length source" using Cons.prems(5) by (simp add: algebra_simps)
  then have step: "import_helper E fmt source (i * import_size fmt) t (sb_arrays sb ! c) = Inr ((sb_arrays sb ! c)[t := v])"
    using Cons.prems(4) t by (simp add: import_helper_def v_def slice_def)
  have wf1: "sb_wf sb1" "sb_channel_count sb1 = sb_channel_count sb" "sb_buffersize sb1 = sb_buffersize sb"
    using Cons.prems(1) c by (auto simp: sb1_def sb_wf_def dest!: set_update_subset_insert[THEN subsetD])
  obtain sb' where 2: "import_loop E fmt source ps (Suc i * import_size fmt, sb1) = Inr ((Suc i + length ps) * import_size fmt, sb')" "sb_wf sb'"
      "sb_channel_count sb' = sb_channel_count sb1" "sb_buffersize sb' = sb_buffersize sb1"
      "\<forall>k < length ps. cell sb' (ps ! k) = import_value E fmt (slice (import_size fmt) source (Suc i + k))"
      "\<forall>c t. (c, t) \<notin> set ps \<longrightarrow> cell sb' (c, t) = cell sb1 (c, t)"
    using Cons.IH[of sb1 "Suc i"] Cons.prems wf1 by auto
  have 3: "cell sb1 (a, b) = (if (a, b) = (c, t) then v else cell sb (a, b))" for a b
    using c t by (auto simp: cell_def sb1_def nth_list_update)
  have "import_loop E fmt source (p # ps) (i * import_size fmt, sb) = Inr ((Suc i + length ps) * import_size fmt, sb')"
    using 2(1) c step by (simp add: import_loop_def p sb1_def add.commute)
  moreover have "cell sb' ((p # ps) ! k) = import_value E fmt (slice (import_size fmt) source (i + k))" if "k < length (p # ps)" for k
  proof (cases k)
    case 0
    then show ?thesis using 2(6) 3 Cons.prems(2) by (simp add: p v_def)
  next
    case (Suc j)
    then show ?thesis using 2(5) that by simp
  qed
  moreover have "cell sb' (a, b) = cell sb (a, b)" if "(a, b) \<notin> set (p # ps)" for a b
    using that 2(6) 3 by (auto simp: p)
  ultimately show ?case using 2(2-4) wf1 by (intro exI[of _ sb']) simp
qed (simp add: import_loop_def)

lemma export_loop_at:
  assumes "\<And>p. p \<in> set ps \<Longrightarrow> fst p < length (sb_arrays sb) \<and> snd p < length (sb_arrays sb ! fst p)"
    and "\<And>p. p \<in> set ps \<Longrightarrow> export_bytes E fmt (clamp_sample (cell sb p)) = Inr (enc p) \<and> length (enc p) = s"
    and "o1 + s * length ps \<le> length target"
  shows "export_loop E fmt sb ps (target, o1) =
    Inr (take o1 target @ concat (map enc ps) @ drop (o1 + s * length ps) target, o1 + s * length ps)"
  using assms
proof (induction ps arbitrary: target o1)
  case (Cons p ps)
  obtain c t where p: "p = (c, t)" by fastforce
  have r: "read_cell (sb_arrays sb) c t = Inr (cell sb p)" using Cons.prems(1)[of p] by (simp add: p cell_def)
  define target1 where "target1 = take o1 target @ enc p @ drop (o1 + s) target"
  have e: "export_bytes E fmt (clamp_sample (cell sb p)) = Inr (enc p)" "length (enc p) = s" using Cons.prems(2)[of p] by simp_all
  have h: "export_helper E fmt (clamp_sample (cell sb p)) (target, o1) = Inr (target1, o1 + s)"
    using e Cons.prems(3) by (simp add: export_helper_def target1_def)
  have l: "length target1 = length target" "o1 \<le> length target" using Cons.prems(3) e(2) by (simp_all add: target1_def)
  have "export_loop E fmt sb ps (target1, o1 + s) =
      Inr (take (o1 + s) target1 @ concat (map enc ps) @ drop (o1 + s + s * length ps) target1, o1 + s + s * length ps)"
    using Cons.IH[of "o1 + s" target1] Cons.prems l by (simp add: algebra_simps)
  moreover have "take (o1 + s) target1 = take o1 target @ enc p" using l(2) e(2) by (simp add: target1_def)
  moreover have "drop (o1 + s + s * length ps) target1 = drop (o1 + s + s * length ps) target"
    using l(2) e(2) by (simp add: target1_def add.commute)
  ultimately show ?case using r h by (simp add: export_loop_def p algebra_simps)
qed (simp add: export_loop_def)

subsection \<open>Properties\<close>

text \<open>An order in which the loops visit every sample once.\<close>

definition visits_all :: "(nat \<Rightarrow> nat \<Rightarrow> (nat \<times> nat) list) \<Rightarrow> bool" where
  "visits_all order \<longleftrightarrow> (\<forall>n k. distinct (order n k) \<and> set (order n k) = {..<k} \<times> {..<n} \<and> length (order n k) = n * k)"

lemma visits_all_orders: "visits_all interleaved_order" "visits_all noninterleaved_order"
  by (simp_all add: visits_all_def orders)

lemma visited:
  assumes "visits_all order" "sb_wf sb" "k \<le> sb_channel_count sb" "p \<in> set (order (sb_buffersize sb) k)"
  shows "fst p < k" "snd p < sb_buffersize sb" "fst p < length (sb_arrays sb)" "snd p < length (sb_arrays sb ! fst p)"
proof -
  have "p \<in> {..<k} \<times> {..<sb_buffersize sb}" using assms(1,4) unfolding visits_all_def by blast
  then show 1: "fst p < k" "snd p < sb_buffersize sb" by auto
  then show "fst p < length (sb_arrays sb)" "snd p < length (sb_arrays sb ! fst p)"
    using assms(3) sb_wfD[OF assms(2)] by (metis order_less_le_trans)+
qed

lemma import_samples_at:
  assumes "visits_all order" "sb_wf sb" "import_size fmt \<noteq> 0" "frames * chcount * import_size fmt \<le> length source"
  shows "\<exists>sb'. import_samples E g order source frames fmt chcount sb = Inr sb' \<and> sb_wf sb' \<and>
    sb_channel_count sb' = chcount \<and> sb_buffersize sb' = frames \<and>
    (\<forall>k < frames * chcount. cell sb' (order frames chcount ! k) = import_value E fmt (slice (import_size fmt) source k))"
proof -
  obtain sb1 where 1: "(if sb_channel_count sb \<noteq> chcount then number_of_channels g chcount sb else Inr sb) = Inr sb1"
      "sb_wf sb1" "sb_channel_count sb1 = chcount"
    using number_of_channels_at[OF assms(2), of g chcount] assms(2) by (cases "sb_channel_count sb = chcount") auto
  obtain sb2 where 2: "(if sb_buffersize sb1 \<noteq> frames then length_in_samples g frames sb1 else Inr sb1) = Inr sb2"
      "sb_wf sb2" "sb_channel_count sb2 = chcount" "sb_buffersize sb2 = frames"
    using length_in_samples_at[OF 1(2), of g frames] 1(2,3) by (cases "sb_buffersize sb1 = frames") auto
  have o: "distinct (order frames chcount)" "set (order frames chcount) = {..<chcount} \<times> {..<frames}" "length (order frames chcount) = frames * chcount"
    using assms(1) by (simp_all add: visits_all_def)
  have "import_size fmt * (0 + length (order frames chcount)) \<le> length source" using assms(4) by (simp add: o(3) mult.commute)
  from import_loop_at[OF 2(2) o(1) _ assms(3) this, of E] obtain sb' where
    3: "import_loop E fmt source (order frames chcount) (0, sb2) = Inr (frames * chcount * import_size fmt, sb')" "sb_wf sb'"
      "sb_channel_count sb' = chcount" "sb_buffersize sb' = frames"
      "\<forall>k < frames * chcount. cell sb' (order frames chcount ! k) = import_value E fmt (slice (import_size fmt) source k)"
    using o(2,3) 2(3,4) by auto
  have "import_samples E g order source frames fmt chcount sb = Inr sb'"
    unfolding import_samples_def 1(1) bind_result_simps 2(1) 2(4) 3(1) by simp
  then show ?thesis using 3(2-5) by blast
qed

lemma export_samples_at:
  assumes "visits_all order" "sb_wf sb" "chcount \<le> sb_channel_count sb"
    and "\<And>p. p \<in> set (order (sb_buffersize sb) chcount) \<Longrightarrow>
      export_bytes E fmt (clamp_sample (cell sb p)) = Inr (enc p) \<and> length (enc p) = s"
    and "length target = sb_buffersize sb * chcount * s"
  shows "export_samples E g order fmt chcount target sb = Inr (concat (map enc (order (sb_buffersize sb) chcount)), sb)"
proof -
  define ps where "ps = order (sb_buffersize sb) chcount"
  have l: "length ps = sb_buffersize sb * chcount" using assms(1) by (simp add: ps_def visits_all_def)
  have "export_loop E fmt sb ps (target, 0) = Inr (take 0 target @ concat (map enc ps) @ drop (0 + s * length ps) target, 0 + s * length ps)"
    by (rule export_loop_at) (use assms visited[OF assms(1-3)] l in \<open>simp_all add: ps_def mult.commute\<close>)
  then show ?thesis using assms(3,5) l by (simp add: export_samples_def ps_def mult.commute)
qed

text \<open>
  C23. Importing bytes and exporting them again gives the same bytes: for interleaved and for
  non-interleaved 8-, 16-, 24- and 32-bit PCM data, on a machine of either byte order, into a buffer
  of any shape. The 32-bit samples from \<open>0x7fffff00\<close> on are excluded, which exporting sets to the maximum.
\<close>

theorem import_export_roundtrip:
  assumes "sb_wf sb" "fmt \<in> pcm_fmts" "length source = frames * chcount * import_size fmt"
    "\<forall>k < frames * chcount. pcm_exact fmt (slice (import_size fmt) source k)" "length target = length source"
  shows "(\<exists>sb1 sb2. import_interleaved E g source frames fmt chcount sb = Inr sb1 \<and> sb_wf sb1 \<and>
      export_interleaved E g fmt chcount target sb1 = Inr (source, sb2)) \<and>
    (\<exists>sb1 sb2. import_noninterleaved E g source frames fmt chcount sb = Inr sb1 \<and> sb_wf sb1 \<and>
      export_noninterleaved E g fmt chcount target sb1 = Inr (source, sb2))"
proof -
  have size: "import_size fmt \<noteq> 0" using assms(2) by (auto simp: pcm_fmts_def)
  have "\<exists>sb1 sb2. import_samples E g order source frames fmt chcount sb = Inr sb1 \<and> sb_wf sb1 \<and>
      export_samples E g order fmt chcount target sb1 = Inr (source, sb2)" if order: "visits_all order" for order
  proof -
    obtain sb1 where 1: "import_samples E g order source frames fmt chcount sb = Inr sb1" "sb_wf sb1"
        "sb_channel_count sb1 = chcount" "sb_buffersize sb1 = frames"
        "\<forall>k < frames * chcount. cell sb1 (order frames chcount ! k) = import_value E fmt (slice (import_size fmt) source k)"
      using import_samples_at[OF order assms(1) size, of frames chcount source E g] assms(3) by auto
    define ps where "ps = order frames chcount"
    have l: "length ps = frames * chcount" using order by (simp add: ps_def visits_all_def)
    define enc where "enc p = projr (export_bytes E fmt (clamp_sample (cell sb1 p)))" for p
    have e: "export_bytes E fmt (clamp_sample (cell sb1 (ps ! k))) = Inr (slice (import_size fmt) source k)"
        "length (slice (import_size fmt) source k) = import_size fmt" if "k < frames * chcount" for k
    proof -
      have "Suc k * import_size fmt \<le> frames * chcount * import_size fmt" using that by (intro mult_le_mono1) simp
      then show "length (slice (import_size fmt) source k) = import_size fmt" by (intro length_slice) (simp add: assms(3))
      then show "export_bytes E fmt (clamp_sample (cell sb1 (ps ! k))) = Inr (slice (import_size fmt) source k)"
        using 1(5) assms(4) that export_import_bytes by (simp add: ps_def)
    qed
    have "map enc ps = map (slice (import_size fmt) source) [0..<frames * chcount]"
      by (rule nth_equalityI) (use l e(1) in \<open>simp_all add: enc_def\<close>)
    then have c: "concat (map enc ps) = source" using concat_slices[of "frames * chcount" "import_size fmt" source] assms(3) by simp
    have "export_samples E g order fmt chcount target sb1 = Inr (concat (map enc (order (sb_buffersize sb1) chcount)), sb1)"
    proof (rule export_samples_at[where s = "import_size fmt", OF order 1(2)])
      fix p assume "p \<in> set (order (sb_buffersize sb1) chcount)"
      then have "p \<in> set ps" by (simp add: ps_def 1(4))
      then obtain k where "p = ps ! k" "k < frames * chcount" using l by (metis in_set_conv_nth)
      then show "export_bytes E fmt (clamp_sample (cell sb1 p)) = Inr (enc p) \<and> length (enc p) = import_size fmt"
        using e by (simp add: enc_def)
    qed (simp_all add: 1(3,4) assms(3,5))
    then have "export_samples E g order fmt chcount target sb1 = Inr (source, sb1)" using c by (simp add: ps_def 1(4))
    then show ?thesis using 1(1,2) by blast
  qed
  from this[OF visits_all_orders(1)] this[OF visits_all_orders(2)] show ?thesis
    by (simp add: import_interleaved_def import_noninterleaved_def export_interleaved_def export_noninterleaved_def)
qed

text \<open>
  C24. Exporting a buffer and importing the bytes gives every sample back, limited to the range from -1 to
  1, with an error of at most one quantisation step: 1/128 for 8 bits, 1/32768 for 16 bits and
  1/8388608 for 24 and also for 32 bits, on a machine of either byte order.
\<close>

theorem export_import_error:
  assumes "sb_wf sb" "sb_wf sb0" "fmt \<in> pcm_fmts" "length target = sb_buffersize sb * sb_channel_count sb * import_size fmt"
  shows "\<exists>bytes sb1 sb2. export_interleaved E g fmt (sb_channel_count sb) target sb = Inr (bytes, sb1) \<and>
    import_interleaved E g bytes (sb_buffersize sb) fmt (sb_channel_count sb) sb0 = Inr sb2 \<and>
    sb_channel_count sb2 = sb_channel_count sb \<and> sb_buffersize sb2 = sb_buffersize sb \<and>
    (\<forall>c < sb_channel_count sb. \<forall>t < sb_buffersize sb. \<bar>sample_at sb2 c t - clamp_sample (sample_at sb c t)\<bar> \<le> quantum fmt)"
proof -
  define n k s where "n = sb_buffersize sb" and "k = sb_channel_count sb" and "s = import_size fmt"
  define ps where "ps = interleaved_order n k"
  define enc where "enc p = projr (export_bytes E fmt (clamp_sample (cell sb p)))" for p
  have e: "export_bytes E fmt (clamp_sample (cell sb p)) = Inr (enc p) \<and> length (enc p) = s \<and>
      \<bar>import_value E fmt (enc p) - clamp_sample (cell sb p)\<bar> \<le> quantum fmt" for p
    using import_export_bytes[OF assms(3), of "clamp_sample (cell sb p)" E] clamp_sample_bounds by (auto simp: enc_def s_def)
  define bytes where "bytes = concat (map enc ps)"
  have 1: "export_interleaved E g fmt k target sb = Inr (bytes, sb)"
    unfolding export_interleaved_def bytes_def ps_def n_def
    by (rule export_samples_at[where s = s, OF visits_all_orders(1) assms(1)]) (use e assms(4) in \<open>simp_all add: k_def s_def\<close>)
  have l: "length ps = n * k" by (simp add: ps_def orders)
  have lb: "length (concat (map enc qs)) = length qs * s" for qs using e by (induction qs) simp_all
  have sl: "slice s bytes j = enc (ps ! j)" if "j < n * k" for j
  proof -
    have "ps = take j ps @ ps ! j # drop (Suc j) ps" using that l by (simp add: id_take_nth_drop)
    then have "bytes = concat (map enc (take j ps)) @ enc (ps ! j) @ concat (map enc (drop (Suc j) ps))"
      unfolding bytes_def by (metis concat.simps(2) concat_append list.simps(9) map_append)
    moreover have "length (concat (map enc (take j ps))) = j * s" using lb[of "take j ps"] that l by simp
    ultimately show ?thesis using e by (simp add: slice_def)
  qed
  have size: "import_size fmt \<noteq> 0" using assms(3) by (auto simp: pcm_fmts_def)
  obtain sb2 where 2: "import_interleaved E g bytes n fmt k sb0 = Inr sb2" "sb_wf sb2" "sb_channel_count sb2 = k" "sb_buffersize sb2 = n"
      "\<forall>j < n * k. cell sb2 (ps ! j) = import_value E fmt (slice s bytes j)"
    using import_samples_at[OF visits_all_orders(1) assms(2) size, of n k bytes E g] lb[of ps] l
    by (auto simp: import_interleaved_def bytes_def ps_def s_def)
  have "\<bar>sample_at sb2 c t - clamp_sample (sample_at sb c t)\<bar> \<le> quantum fmt" if "c < k" "t < n" for c t
  proof -
    have "(c, t) \<in> set ps" using that by (simp add: ps_def orders)
    then obtain j where "(c, t) = ps ! j" "j < n * k" using l by (metis in_set_conv_nth)
    then have "cell sb2 (c, t) = import_value E fmt (enc (c, t))" using 2(5) sl by simp
    then show ?thesis
      using e[of "(c, t)"] that 2(2-4) assms(1) cell_sample_at[of sb2 c t] cell_sample_at[of sb c t] by (simp add: n_def k_def)
  qed
  then show ?thesis using 1 2(1,3,4) unfolding n_def k_def by blast
qed

text \<open>Examples: a mono buffer of two samples, on a little-endian machine.\<close>

definition mono_buffer :: "rat sample_buffer" where
  "mono_buffer = \<lparr>sb_arrays = [[1 / 3, -2]], sb_channel_count = 1, sb_buffersize = 2, sb_reserved = 2,
     sb_rt_lock = False, sb_lockref = 0, sb_quality = 50, sb_event_tags = 0, sb_old_buffer = None, sb_resample_memory = []\<rparr>"

definition little_env :: byte_env where
  "little_env = \<lparr>be_little = True, be_f32_bits = (\<lambda>_. 0), be_f32_value = (\<lambda>_. 0)\<rparr>"

lemma mono_buffer_wf: "sb_wf mono_buffer"
  by (simp add: mono_buffer_def sb_wf_def)

lemma import_export_roundtrip_witness:
  "(\<exists>sb1 sb2. import_interleaved little_env (\<lambda>_ _. 7) [1, 2, 255, 254] 1 Sfmt_s16_be 2 mono_buffer = Inr sb1 \<and> sb_wf sb1 \<and>
     export_interleaved little_env (\<lambda>_ _. 7) Sfmt_s16_be 2 [0, 0, 0, 0] sb1 = Inr ([1, 2, 255, 254], sb2))"
proof -
  have "\<forall>k < 1 * 2. pcm_exact Sfmt_s16_be (slice (import_size Sfmt_s16_be) [1, 2, 255, 254] k)"
    by (simp add: pcm_exact_def pcm_fmts_def)
  from import_export_roundtrip[OF mono_buffer_wf _ _ this, of "[0, 0, 0, 0]" little_env "\<lambda>_ _. 7"] show ?thesis
    by (simp add: pcm_fmts_def)
qed

lemma export_import_error_witness:
  "\<exists>bytes sb1 sb2. export_interleaved little_env (\<lambda>_ _. 7) Sfmt_u8 1 [0, 0] mono_buffer = Inr (bytes, sb1) \<and>
     import_interleaved little_env (\<lambda>_ _. 7) bytes 2 Sfmt_u8 1 mono_buffer = Inr sb2 \<and>
     \<bar>sample_at sb2 0 0 - 1 / 3\<bar> \<le> 1 / 0x80 \<and> \<bar>sample_at sb2 0 1 - (- 1)\<bar> \<le> 1 / 0x80"
proof -
  have n: "sb_channel_count mono_buffer = 1" "sb_buffersize mono_buffer = 2" by (simp_all add: mono_buffer_def)
  have v: "clamp_sample (sample_at mono_buffer 0 0) = 1 / 3" "clamp_sample (sample_at mono_buffer 0 1) = - 1"
    by (simp_all add: sample_at_def sb_audio_def mono_buffer_def clamp_sample_def impl_max_value_def impl_min_value_def)
  have "Sfmt_u8 \<in> pcm_fmts" "length [0 :: byte, 0] = sb_buffersize mono_buffer * sb_channel_count mono_buffer * import_size Sfmt_u8"
    by (simp_all add: pcm_fmts_def n)
  from export_import_error[OF mono_buffer_wf mono_buffer_wf this, of little_env "\<lambda>_ _. 7"]
  obtain bytes sb1 sb2 where 1: "export_interleaved little_env (\<lambda>_ _. 7) Sfmt_u8 1 [0, 0] mono_buffer = Inr (bytes, sb1)"
      "import_interleaved little_env (\<lambda>_ _. 7) bytes 2 Sfmt_u8 1 mono_buffer = Inr sb2"
      "\<forall>c < 1. \<forall>t < 2. \<bar>sample_at sb2 c t - clamp_sample (sample_at mono_buffer c t)\<bar> \<le> quantum Sfmt_u8"
    unfolding n by blast
  have "(0 :: nat) < 1" "(0 :: nat) < 2" "(1 :: nat) < 2" by simp_all
  then have "\<bar>sample_at sb2 0 0 - 1 / 3\<bar> \<le> 1 / 0x80" "\<bar>sample_at sb2 0 1 - (- 1)\<bar> \<le> 1 / 0x80"
    using 1(3) unfolding v[symmetric] quantum.simps(1)[symmetric] by blast+
  then show ?thesis using 1(1,2) by blast
qed

text \<open>The 32-bit samples near the maximum are not preserved.\<close>

lemma s32_near_maximum:
  assumes "0x7fffff00 \<le> n" "n \<le> 0x7fffffff"
  shows "sample_to_s32 (clamp_sample (s32_to_sample n)) = Inr 0x7fffffff"
  using s32_there_and_back[of n] assms by simp

end
