(* ===== verification/Child_Stream.thy ===== *)
theory Child_Stream
  imports Audio_Format Audio_Mixing Audio_Position
begin

text \<open>
  Audio objects that play other objects (\<open>audioio-proxy\<close>, \<open>audioio-seqbase\<close>, \<open>audioio-reverse\<close>) use a
  child through the virtual functions of \<open>AUDIO_IO\<close>: the record \<open>stream_class\<close>. The locale
  \<open>child_stream\<close> is what a finite, seekable child promises: \<open>read_buffer\<close> at the frame \<open>p\<close> with the
  buffer size \<open>n\<close> gives the frames \<open>p, ..., p + n - 1\<close> of its content, or those that there are.
\<close>

datatype io_mode = Io_read | Io_write | Io_readwrite

record ('c, 's) stream_class =
  sc_channels :: "'c \<Rightarrow> nat"
  sc_buffersize :: "'c \<Rightarrow> int"
  sc_position :: "'c \<Rightarrow> int"
  sc_length :: "'c \<Rightarrow> int"
  sc_set_buffersize :: "int \<Rightarrow> 'c \<Rightarrow> 'c"
  sc_seek :: "int \<Rightarrow> 'c \<Rightarrow> 'c"
  sc_read :: "'s sample_buffer \<Rightarrow> 'c \<Rightarrow> ('c \<times> 's sample_buffer) result"
  sc_write :: "'s sample_buffer \<Rightarrow> 'c \<Rightarrow> ('c \<times> 's sample_buffer) result"
  sc_finished :: "'c \<Rightarrow> bool result"
  sc_finite :: "'c \<Rightarrow> bool"
  sc_seekable :: "'c \<Rightarrow> bool"
  sc_seekable_accurate :: "'c \<Rightarrow> bool"
  sc_is_open :: "'c \<Rightarrow> bool"
  sc_open :: "'c \<Rightarrow> 'c result"
  sc_close :: "'c \<Rightarrow> 'c"
  sc_set_io_mode :: "io_mode \<Rightarrow> 'c \<Rightarrow> 'c"
  sc_format :: "'c \<Rightarrow> audio_format"
  sc_set_format :: "audio_format \<Rightarrow> 'c \<Rightarrow> 'c result"
  sc_set_srate :: "int \<Rightarrow> 'c \<Rightarrow> 'c result"
  sc_locked :: "'c \<Rightarrow> bool"
  sc_seek_position :: "int \<Rightarrow> 'c \<Rightarrow> 'c"
  sc_set_channels :: "int \<Rightarrow> 'c \<Rightarrow> 'c"
  sc_set_sample_format :: "sample_fmt \<Rightarrow> 'c \<Rightarrow> 'c"
  sc_toggle_interleaved :: "bool \<Rightarrow> 'c \<Rightarrow> 'c"
  sc_is_resample :: "'c \<Rightarrow> bool"
  sc_label :: "'c \<Rightarrow> string"
  sc_number_of_params :: "'c \<Rightarrow> nat"
  sc_variable_params :: "'c \<Rightarrow> bool"
  sc_set_parameter :: "nat \<Rightarrow> string \<Rightarrow> 'c \<Rightarrow> 'c"
  sc_get_parameter :: "nat \<Rightarrow> 'c \<Rightarrow> string"

text \<open>The audio of a buffer and of a whole stream, frame by frame; reading one buffer after the other.\<close>

definition interleaved :: "'s::zero sample_buffer \<Rightarrow> 's list" where
  "interleaved b = map (\<lambda>j. sample_at b (j mod sb_channel_count b) (j div sb_channel_count b)) [0..<sb_buffersize b * sb_channel_count b]"

definition frame_list :: "nat \<Rightarrow> nat \<Rightarrow> (nat \<Rightarrow> nat \<Rightarrow> 's) \<Rightarrow> 's list" where
  "frame_list n k f = map (\<lambda>j. f (j mod k) (j div k)) [0..<n * k]"

lemma frame_list_nth: "j < n * k \<Longrightarrow> frame_list n k f ! j = f (j mod k) (j div k)"
  by (simp add: frame_list_def)

lemma frame_list_length [simp]: "length (frame_list n k f) = n * k"
  by (simp add: frame_list_def)

lemma interleaved_window:
  assumes "0 < k" "sb_channel_count b = k" "sb_buffersize b \<le> n - p"
    and "\<And>c t. c < k \<Longrightarrow> t < sb_buffersize b \<Longrightarrow> sample_at b c t = f c (p + t)"
  shows "interleaved b = take (sb_buffersize b * k) (drop (p * k) (frame_list n k f))"
proof (rule nth_equalityI)
  define m where "m = sb_buffersize b"
  have l: "m * k \<le> n * k - p * k" using assms(3) unfolding m_def by (metis diff_mult_distrib mult_le_mono1)
  then show "length (interleaved b) = length (take (sb_buffersize b * k) (drop (p * k) (frame_list n k f)))"
    by (simp add: interleaved_def frame_list_def assms(2) m_def)
  fix j assume "j < length (interleaved b)"
  then have j: "j < m * k" by (simp add: interleaved_def assms(2) m_def)
  have pj: "p * k + j < n * k" "p * k \<le> n * k" using j l by linarith+
  have "j mod k < k" "j div k < m" using j assms(1) by (simp_all add: less_mult_imp_div_less)
  then have "sample_at b (j mod k) (j div k) = f (j mod k) (p + j div k)" using assms(4) by (simp add: m_def)
  also have "\<dots> = frame_list n k f ! (p * k + j)" 
    using frame_list_nth[of "p * k + j" n k f] pj assms(1) by simp
  finally show "interleaved b ! j = take (sb_buffersize b * k) (drop (p * k) (frame_list n k f)) ! j"
    using j l pj by (simp add: interleaved_def assms(2) flip: m_def)
qed

fun sc_read_blocks :: "('c, 's) stream_class \<Rightarrow> 's sample_buffer \<Rightarrow> nat \<Rightarrow> 'c \<Rightarrow> ('c \<times> 's sample_buffer list) result" where
  "sc_read_blocks K b 0 c = Inr (c, [])"
| "sc_read_blocks K b (Suc m) c =
     bind_result (sc_read K b c) (\<lambda>(c1, b1). bind_result (sc_read_blocks K b1 m c1) (\<lambda>(c2, bs). Inr (c2, b1 # bs)))"

locale child_stream =
  fixes K :: "('c, 's::zero) stream_class" and ok :: "'c \<Rightarrow> bool"
    and frames :: "'c \<Rightarrow> nat" and content :: "'c \<Rightarrow> nat \<Rightarrow> nat \<Rightarrow> 's"
  assumes set_buffersize_ok: "ok c \<Longrightarrow> 0 \<le> n \<Longrightarrow> ok (sc_set_buffersize K n c) \<and> sc_buffersize K (sc_set_buffersize K n c) = n \<and>
      sc_position K (sc_set_buffersize K n c) = sc_position K c \<and> sc_channels K (sc_set_buffersize K n c) = sc_channels K c \<and>
      frames (sc_set_buffersize K n c) = frames c \<and> content (sc_set_buffersize K n c) = content c"
    and seek_ok: "ok c \<Longrightarrow> 0 \<le> p \<Longrightarrow> ok (sc_seek K p c) \<and> sc_buffersize K (sc_seek K p c) = sc_buffersize K c \<and>
      sc_position K (sc_seek K p c) = p \<and> sc_channels K (sc_seek K p c) = sc_channels K c \<and>
      frames (sc_seek K p c) = frames c \<and> content (sc_seek K p c) = content c"
    and read_ok: "ok c \<Longrightarrow> sb_wf b \<Longrightarrow>
      (let n = min (nat (sc_buffersize K c)) (frames c - nat (sc_position K c)) in
       \<exists>c' b'. sc_read K b c = Inr (c', b') \<and> ok c' \<and> sb_wf b' \<and> sb_channel_count b' = sc_channels K c \<and> sb_buffersize b' = n \<and>
         sc_position K c' = sc_position K c + int n \<and> sc_buffersize K c' = sc_buffersize K c \<and>
         sc_channels K c' = sc_channels K c \<and> frames c' = frames c \<and> content c' = content c \<and>
         (\<forall>ch < sc_channels K c. \<forall>t < n. sample_at b' ch t = content c ch (nat (sc_position K c) + t)))"
    and position_ok: "ok c \<Longrightarrow> 0 \<le> sc_position K c" and buffersize_ok: "ok c \<Longrightarrow> 0 \<le> sc_buffersize K c"
    and length_ok: "ok c \<Longrightarrow> sc_length K c = int (frames c)"
    and finite_ok: "ok c \<Longrightarrow> sc_finite K c"
begin

text \<open>Reading at a position, for clients that seek first.\<close>

lemma read_at:
  assumes "ok c" "sb_wf b" "sc_buffersize K c = int n" "sc_position K c = int p"
  obtains c' b' where "sc_read K b c = Inr (c', b')" "ok c'" "sb_wf b'" "sb_channel_count b' = sc_channels K c"
    "sb_buffersize b' = min n (frames c - p)" "sc_position K c' = int p + int (min n (frames c - p))"
    "sc_buffersize K c' = int n" "sc_channels K c' = sc_channels K c" "frames c' = frames c" "content c' = content c"
    "\<And>ch t. ch < sc_channels K c \<Longrightarrow> t < min n (frames c - p) \<Longrightarrow> sample_at b' ch t = content c ch (p + t)"
  using read_ok[OF assms(1,2)] assms(3,4) by (auto simp: Let_def)

lemma read_blocks:
  assumes "ok c" "sb_wf b" "sc_buffersize K c = int n" "sc_position K c = int p" "sc_channels K c = k" "0 < k"
  shows "\<exists>c' bs. sc_read_blocks K b m c = Inr (c', bs) \<and> length bs = m \<and>
    concat (map interleaved bs) = take (m * n * k) (drop (p * k) (frame_list (frames c) k (content c)))"
  using assms
proof (induction m arbitrary: c b p)
  case (Suc m)
  define q where "q = min n (frames c - p)"
  obtain c1 b1 where 1: "sc_read K b c = Inr (c1, b1)" "ok c1" "sb_wf b1" "sb_channel_count b1 = k" "sb_buffersize b1 = q"
      "sc_position K c1 = int p + int q" "sc_buffersize K c1 = int n" "sc_channels K c1 = k" "frames c1 = frames c" "content c1 = content c"
      "\<And>ch t. ch < k \<Longrightarrow> t < q \<Longrightarrow> sample_at b1 ch t = content c ch (p + t)"
    using read_at[OF Suc.prems(1-4)] Suc.prems(5) unfolding q_def by metis
  define xs where "xs = frame_list (frames c) k (content c)"
  have lx: "length xs = frames c * k" by (simp add: xs_def frame_list_def)
  have i: "interleaved b1 = take (q * k) (drop (p * k) xs)"
    unfolding xs_def 1(5)[symmetric]
    by (rule interleaved_window[OF Suc.prems(6) 1(4)]) (use 1(5,11) in \<open>simp_all add: q_def\<close>)
  obtain c2 bs where 2: "sc_read_blocks K b1 m c1 = Inr (c2, bs)" "length bs = m"
      "concat (map interleaved bs) = take (m * n * k) (drop ((p + q) * k) xs)"
    using Suc.IH[OF 1(2,3,7), of "p + q"] 1(6,8,9,10) Suc.prems(6) by (auto simp: xs_def)
  have "take (q * k) ys @ take (m * n * k) (drop (q * k) ys) = take (Suc m * n * k) ys" if "ys = drop (p * k) xs" for ys
  proof (cases "n \<le> frames c - p")
    case True
    then show ?thesis by (simp add: q_def add_mult_distrib take_add)
  next
    case False
    then have "length ys \<le> q * k" "length ys \<le> Suc m * n * k"
      by (simp_all add: that lx q_def flip: diff_mult_distrib)
    then show ?thesis by simp
  qed
  then have "concat (map interleaved (b1 # bs)) = take (Suc m * n * k) (drop (p * k) xs)"
    using i 2(3) by (simp add: add.commute add_mult_distrib)
  then show ?case using 1(1) 2 by (simp add: xs_def)
qed simp

end

end
