(* ===== verification/Raw_File.thy ===== *)
theory Raw_File
  imports Sample_Bytes_Facts Child_Stream
begin

text \<open>
  Raw audio files: the file stream of \<open>libecasound/eca-fileio-stream.cpp\<close>, the buffered audio object of
  \<open>audioio-buffered.cpp\<close> and the raw file of \<open>audioio-raw.cpp\<close>. A file of the C library is its bytes,
  a position and the end-of-file indicator; I/O errors and the standard streams are not modelled.
  The file system is a map from names to contents.
\<close>

subsection \<open>C files\<close>

record c_file =
  cf_bytes :: "byte list"
  cf_pos :: nat
  cf_eof :: bool

definition c_fread :: "nat \<Rightarrow> c_file \<Rightarrow> byte list \<times> c_file" where
  "c_fread n f =
     (let got = take n (drop (cf_pos f) (cf_bytes f)) in
      (got, f\<lparr>cf_pos := cf_pos f + length got, cf_eof := cf_eof f \<or> length got < n\<rparr>))"

definition c_fwrite :: "byte list \<Rightarrow> c_file \<Rightarrow> c_file" where
  "c_fwrite bs f =
     f\<lparr>cf_bytes := take (cf_pos f) (cf_bytes f) @ replicate (cf_pos f - length (cf_bytes f)) 0 @ bs @
                  drop (cf_pos f + length bs) (cf_bytes f),
       cf_pos := cf_pos f + length bs\<rparr>"

definition c_fseek :: "int \<Rightarrow> c_file \<Rightarrow> c_file" where
  "c_fseek pos f = (if pos < 0 then f else f\<lparr>cf_pos := nat pos, cf_eof := False\<rparr>)"

type_synonym file_system = "string \<Rightarrow> byte list option"

text \<open>\<open>fopen\<close> for the modes that the audio objects use.\<close>

definition c_fopen :: "string \<Rightarrow> string \<Rightarrow> file_system \<Rightarrow> c_file option" where
  "c_fopen name mode fs =
     (if mode = ''wb'' \<or> mode = ''w+b'' then Some \<lparr>cf_bytes = [], cf_pos = 0, cf_eof = False\<rparr>
      else map_option (\<lambda>bs. \<lparr>cf_bytes = bs, cf_pos = 0, cf_eof = False\<rparr>) (fs name))"

subsection \<open>File streams\<close>

record file_stream =
  fs_file :: "c_file option"
  fs_mode :: string
  fs_name :: string
  fs_curpos :: int
  fs_last :: nat

definition open_file :: "string \<Rightarrow> string \<Rightarrow> file_system \<Rightarrow> nat \<Rightarrow> file_stream" where
  "open_file fname fmode fs n0 =
     (case c_fopen fname fmode fs of
        None \<Rightarrow> \<lparr>fs_file = None, fs_mode = [], fs_name = fname, fs_curpos = 0, fs_last = n0\<rparr>
      | Some f \<Rightarrow> \<lparr>fs_file = Some f, fs_mode = fmode, fs_name = fname, fs_curpos = 0, fs_last = n0\<rparr>)"

definition close_file :: "file_stream \<Rightarrow> file_system \<Rightarrow> file_stream \<times> file_system" where
  "close_file st fs =
     (st\<lparr>fs_mode := []\<rparr>, case fs_file st of None \<Rightarrow> fs | Some f \<Rightarrow> if fs_mode st = ''rb'' then fs else fs(fs_name st \<mapsto> cf_bytes f))"

definition is_file_ready :: "file_stream \<Rightarrow> bool" where
  "is_file_ready st \<longleftrightarrow> fs_mode st \<noteq> [] \<and> (case fs_file st of None \<Rightarrow> False | Some f \<Rightarrow> \<not> cf_eof f)"

text \<open>Reading into a buffer: the bytes that \<open>fread\<close> stores.\<close>

definition read_to_buffer :: "nat \<Rightarrow> file_stream \<Rightarrow> byte list \<times> file_stream" where
  "read_to_buffer n st =
     (if is_file_ready st
      then (case fs_file st of
              None \<Rightarrow> ([], st)
            | Some f \<Rightarrow> (case c_fread n f of (got, f') \<Rightarrow>
                (got, st\<lparr>fs_file := Some f', fs_last := length got, fs_curpos := fs_curpos st + int (length got)\<rparr>)))
      else ([], st\<lparr>fs_last := 0\<rparr>))"

definition write_from_buffer :: "byte list \<Rightarrow> file_stream \<Rightarrow> file_stream" where
  "write_from_buffer bs st =
     (if is_file_ready st
      then st\<lparr>fs_file := map_option (c_fwrite bs) (fs_file st), fs_last := length bs, fs_curpos := fs_curpos st + int (length bs)\<rparr>
      else st\<lparr>fs_last := 0\<rparr>)"

definition set_file_position :: "int \<Rightarrow> file_stream \<Rightarrow> file_stream" where
  "set_file_position newpos st = st\<lparr>fs_curpos := newpos, fs_file := map_option (c_fseek newpos) (fs_file st)\<rparr>"

text \<open>\<open>get_file_length\<close> asks the file system (\<open>stat\<close>); the length of what has been written is used here.\<close>

definition get_file_length :: "file_stream \<Rightarrow> int" where
  "get_file_length st = (case fs_file st of None \<Rightarrow> 0 | Some f \<Rightarrow> int (length (cf_bytes f)))"

subsection \<open>State of a raw file\<close>

record raw_file =
  rf_label :: string
  rf_mmap :: string
  rf_io_mode :: io_mode
  rf_open :: bool
  rf_format :: audio_format
  rf_position :: audio_position
  rf_buffersize :: int
  rf_iobuf :: "byte list option"
  rf_stream :: "file_stream option"

definition rf_iobuf_size :: "raw_file \<Rightarrow> int" where
  "rf_iobuf_size rf = (case rf_iobuf rf of None \<Rightarrow> 0 | Some bs \<Rightarrow> int (length bs))"

definition rf_frame_size :: "raw_file \<Rightarrow> int" where
  "rf_frame_size rf = frame_size (rf_format rf)"

text \<open>The constructor; an audio object starts in read mode with an unspecified format.\<close>

definition raw_file_create :: "bool \<Rightarrow> string \<Rightarrow> audio_format \<Rightarrow> raw_file" where
  "raw_file_create be name af0 =
     \<lparr>rf_label = name, rf_mmap = ''0'', rf_io_mode = Io_read, rf_open = False, rf_format = audio_format_default be af0,
      rf_position = audio_position_create (-1), rf_buffersize = 0, rf_iobuf = None, rf_stream = None\<rparr>"

subsection \<open>The buffered audio object\<close>

text \<open>Freshly allocated bytes are \<open>gb\<close>. The test of \<open>set_buffersize\<close> uses the previous buffer size.\<close>

definition reserve_buffer_space :: "(nat \<Rightarrow> byte) \<Rightarrow> int \<Rightarrow> raw_file \<Rightarrow> raw_file" where
  "reserve_buffer_space gb bytes rf =
     (if bytes > rf_iobuf_size rf then rf\<lparr>rf_iobuf := Some (map gb [0..<nat bytes])\<rparr> else rf)"

definition rf_set_buffersize :: "(nat \<Rightarrow> byte) \<Rightarrow> int \<Rightarrow> raw_file \<Rightarrow> raw_file" where
  "rf_set_buffersize gb samples rf =
     (if rf_buffersize rf \<noteq> samples \<or> rf_iobuf_size rf < rf_buffersize rf * rf_frame_size rf
      then reserve_buffer_space gb (samples * rf_frame_size rf) (rf\<lparr>rf_buffersize := samples\<rparr>) else rf)"

definition rf_set_channels :: "(nat \<Rightarrow> byte) \<Rightarrow> int \<Rightarrow> raw_file \<Rightarrow> raw_file" where
  "rf_set_channels gb v rf =
     (let rf1 = rf\<lparr>rf_format := af_set_channels v (rf_format rf)\<rparr> in rf_set_buffersize gb (rf_buffersize rf1) rf1)"

definition rf_set_sample_format :: "bool \<Rightarrow> (nat \<Rightarrow> byte) \<Rightarrow> sample_fmt \<Rightarrow> raw_file \<Rightarrow> raw_file" where
  "rf_set_sample_format be gb fmt rf =
     (let rf1 = rf\<lparr>rf_format := set_sample_format be fmt (rf_format rf)\<rparr> in rf_set_buffersize gb (rf_buffersize rf1) rf1)"

text \<open>
  \<open>read_samples\<close> stores bytes at the start of the buffer (\<open>None\<close>: a null pointer) and returns the number
  of frames; storing outside it, and dividing by a frame size of 0, is undefined.
\<close>

definition rf_read_samples :: "raw_file \<Rightarrow> (nat \<times> raw_file) result" where
  "rf_read_samples rf =
     (case rf_stream rf of
        None \<Rightarrow> Inl Undefined_behaviour
      | Some st \<Rightarrow>
          (case read_to_buffer (nat (rf_frame_size rf * rf_buffersize rf)) st of (got, st') \<Rightarrow>
             if int (length got) > rf_iobuf_size rf \<or> rf_frame_size rf = 0 then Inl Undefined_behaviour
             else Inr (nat (int (fs_last st') div rf_frame_size rf),
                       rf\<lparr>rf_stream := Some st', rf_iobuf := map_option (\<lambda>bs. got @ drop (length got) bs) (rf_iobuf rf)\<rparr>)))"

definition rf_write_samples :: "nat \<Rightarrow> raw_file \<Rightarrow> raw_file result" where
  "rf_write_samples samples rf =
     (case (rf_stream rf, rf_iobuf rf) of
        (Some st, Some bs) \<Rightarrow>
          (if nat (rf_frame_size rf) * samples \<le> length bs
           then Inr (rf\<lparr>rf_stream := Some (write_from_buffer (take (nat (rf_frame_size rf) * samples) bs) st)\<rparr>)
           else Inl Undefined_behaviour)
      | _ \<Rightarrow> Inl Undefined_behaviour)"

definition rf_read_buffer ::
  "byte_env \<Rightarrow> (nat \<Rightarrow> nat \<Rightarrow> rat) \<Rightarrow> rat sample_buffer \<Rightarrow> raw_file \<Rightarrow> (raw_file \<times> rat sample_buffer) result" where
  "rf_read_buffer E g sbuf rf =
     bind_result (rf_read_samples rf) (\<lambda>(frames, rf1).
     (case rf_iobuf rf1 of
        None \<Rightarrow> Inl Undefined_behaviour
      | Some bs \<Rightarrow>
        bind_result ((if af_ileaved (rf_format rf1) then import_interleaved E g else import_noninterleaved E g)
                       bs frames (sample_format (rf_format rf1)) (nat (af_channels (rf_format rf1))) sbuf) (\<lambda>sb1.
        Inr (rf1\<lparr>rf_position := change_position_in_samples (int (sb_buffersize sb1)) (rf_position rf1)\<rparr>,
             if int (sb_buffersize sb1) < rf_buffersize rf1 then event_tag_set tag_end_of_stream True sb1 else sb1))))"

definition rf_write_buffer ::
  "byte_env \<Rightarrow> (nat \<Rightarrow> nat \<Rightarrow> rat) \<Rightarrow> (nat \<Rightarrow> byte) \<Rightarrow> rat sample_buffer \<Rightarrow> raw_file \<Rightarrow> (raw_file \<times> rat sample_buffer) result" where
  "rf_write_buffer E g gb sbuf rf =
     (let rf1 = rf_set_buffersize gb (int (sb_buffersize sbuf)) rf in
      case rf_iobuf rf1 of
        None \<Rightarrow> Inl Undefined_behaviour
      | Some target \<Rightarrow>
        bind_result ((if af_ileaved (rf_format rf1) then export_interleaved E g else export_noninterleaved E g)
                       (sample_format (rf_format rf1)) (nat (af_channels (rf_format rf1))) target sbuf) (\<lambda>(bs, sb1).
        bind_result (rf_write_samples (sb_buffersize sb1) (rf1\<lparr>rf_iobuf := Some bs\<rparr>)) (\<lambda>rf2.
          Inr (rf2\<lparr>rf_position := extend_position (change_position_in_samples (int (sb_buffersize sb1)) (rf_position rf2))\<rparr>, sb1))))"

subsection \<open>Opening, closing and seeking\<close>

text \<open>\<open>seek_position\<close> of a raw file moves the file position; \<open>seek_position_in_samples\<close> also sets the position.\<close>

definition rf_seek_position :: "int \<Rightarrow> raw_file \<Rightarrow> raw_file" where
  "rf_seek_position pos rf =
     (if rf_open rf then rf\<lparr>rf_stream := map_option (set_file_position (pos * rf_frame_size rf)) (rf_stream rf)\<rparr> else rf)"

definition rf_seek :: "int \<Rightarrow> raw_file \<Rightarrow> raw_file" where
  "rf_seek pos rf =
     (let rf1 = rf_seek_position pos rf in rf1\<lparr>rf_position := set_position_in_samples pos (rf_position rf1)\<rparr>)"

definition rf_finished :: "raw_file \<Rightarrow> bool result" where
  "rf_finished rf = (case rf_stream rf of None \<Rightarrow> Inl Undefined_behaviour | Some st \<Rightarrow> Inr (\<not> is_file_ready st))"

definition raw_open_error :: "string \<Rightarrow> string \<Rightarrow> fault" where
  "raw_open_error label purpose = Thrown ''AUDIOIO-RAW'' (''Couldn't open file '' @ label @ '' for '' @ purpose @ ''.'')"

text \<open>
  \<open>open\<close>, for a label that is none of the standard streams. \<open>mmap\<close> access behaves like the stream. Then
  \<open>AUDIO_IO::open\<close> moves the file to the current position, without changing the position.
\<close>

definition rf_open_stream :: "file_system \<Rightarrow> raw_file \<Rightarrow> file_stream result" where
  "rf_open_stream fs rf =
     (case rf_io_mode rf of
        Io_read \<Rightarrow>
          (let st = open_file (rf_label rf) ''rb'' fs 0
           in if is_file_ready st then Inr st else Inl (raw_open_error (rf_label rf) ''reading''))
      | Io_write \<Rightarrow>
          (let st = open_file (rf_label rf) ''wb'' fs 0
           in if is_file_ready st then Inr st else Inl (raw_open_error (rf_label rf) ''writing''))
      | Io_readwrite \<Rightarrow>
          (let st = open_file (rf_label rf) ''r+b'' fs 0
           in if fs_mode st = []
              then let st1 = open_file (rf_label rf) ''w+b'' fs 0
                   in if is_file_ready st1 then Inr st1 else Inl (raw_open_error (rf_label rf) ''read&write'')
              else Inr st))"

definition rf_open_file :: "file_system \<Rightarrow> raw_file \<Rightarrow> raw_file result" where
  "rf_open_file fs rf =
     bind_result (rf_open_stream fs rf) (\<lambda>st.
       if rf_frame_size rf = 0 then Inl Undefined_behaviour
       else let p = set_length_in_samples (get_file_length st div rf_frame_size rf) (rf_position rf)
            in Inr (rf\<lparr>rf_position := p, rf_open := True,
                       rf_stream := Some (set_file_position (ap_position p * rf_frame_size rf) st)\<rparr>))"

definition rf_close :: "file_system \<Rightarrow> raw_file \<Rightarrow> raw_file \<times> file_system" where
  "rf_close fs rf =
     (rf\<lparr>rf_stream := None, rf_open := False\<rparr>,
      case rf_stream rf of None \<Rightarrow> fs | Some st \<Rightarrow> snd (close_file st fs))"

subsection \<open>Parameters\<close>

definition rf_set_parameter :: "nat \<Rightarrow> string \<Rightarrow> raw_file \<Rightarrow> raw_file" where
  "rf_set_parameter param v rf = (if param = 1 then rf\<lparr>rf_label := v\<rparr> else if param = 2 then rf\<lparr>rf_mmap := v\<rparr> else rf)"

definition rf_get_parameter :: "nat \<Rightarrow> raw_file \<Rightarrow> string" where
  "rf_get_parameter param rf = (if param = 1 then rf_label rf else if param = 2 then rf_mmap rf else '''')"

subsection \<open>A raw file as an audio object\<close>

definition rf_set_samples_per_second :: "int \<Rightarrow> raw_file \<Rightarrow> raw_file result" where
  "rf_set_samples_per_second v rf =
     bind_result (ap_set_samples_per_second v (rf_position rf)) (\<lambda>p.
       Inr (rf\<lparr>rf_format := af_set_srate v (rf_format rf), rf_position := p\<rparr>))"

definition rf_set_audio_format :: "bool \<Rightarrow> (nat \<Rightarrow> byte) \<Rightarrow> audio_format \<Rightarrow> raw_file \<Rightarrow> raw_file result" where
  "rf_set_audio_format be gb f rf =
     bind_result (rf_set_samples_per_second (af_srate f)
       (rf_set_sample_format be gb (sample_format f) (rf_set_channels gb (af_channels f) rf))) (\<lambda>rf1.
     bind_result (ap_set_samples_per_second (af_srate f) (rf_position rf1)) (\<lambda>p.
       Inr (rf1\<lparr>rf_format := toggle_interleaved_channels (af_ileaved f) (rf_format rf1), rf_position := p\<rparr>)))"

text \<open>The state of the class is a raw file with the file system that it opens and closes its file in.\<close>

definition raw_stream ::
  "byte_env \<Rightarrow> (nat \<Rightarrow> nat \<Rightarrow> rat) \<Rightarrow> (nat \<Rightarrow> byte) \<Rightarrow> (raw_file \<times> file_system, rat) stream_class" where
  "raw_stream E g gb =
     \<lparr>sc_channels = (\<lambda>(rf, fs). nat (af_channels (rf_format rf))), sc_buffersize = (\<lambda>(rf, fs). rf_buffersize rf),
      sc_position = (\<lambda>(rf, fs). ap_position (rf_position rf)), sc_length = (\<lambda>(rf, fs). ap_length (rf_position rf)),
      sc_set_buffersize = (\<lambda>n (rf, fs). (rf_set_buffersize gb n rf, fs)), sc_seek = (\<lambda>p (rf, fs). (rf_seek p rf, fs)),
      sc_read = (\<lambda>b (rf, fs). bind_result (rf_read_buffer E g b rf) (\<lambda>(rf', b'). Inr ((rf', fs), b'))),
      sc_write = (\<lambda>b (rf, fs). bind_result (rf_write_buffer E g gb b rf) (\<lambda>(rf', b'). Inr ((rf', fs), b'))),
      sc_finished = (\<lambda>(rf, fs). rf_finished rf), sc_finite = (\<lambda>c. True), sc_seekable = (\<lambda>c. True),
      sc_seekable_accurate = (\<lambda>c. True), sc_is_open = (\<lambda>(rf, fs). rf_open rf),
      sc_open = (\<lambda>(rf, fs). bind_result (rf_open_file fs rf) (\<lambda>rf'. Inr (rf', fs))), sc_close = (\<lambda>(rf, fs). rf_close fs rf),
      sc_set_io_mode = (\<lambda>m (rf, fs). (rf\<lparr>rf_io_mode := m\<rparr>, fs)), sc_format = (\<lambda>(rf, fs). rf_format rf),
      sc_set_format = (\<lambda>f (rf, fs). bind_result (rf_set_audio_format (\<not> be_little E) gb f rf) (\<lambda>rf'. Inr (rf', fs))),
      sc_set_srate = (\<lambda>v (rf, fs). bind_result (rf_set_samples_per_second v rf) (\<lambda>rf'. Inr (rf', fs))),
      sc_locked = (\<lambda>c. False), sc_seek_position = (\<lambda>p (rf, fs). (rf_seek_position p rf, fs)),
      sc_set_channels = (\<lambda>n (rf, fs). (rf_set_channels gb n rf, fs)),
      sc_set_sample_format = (\<lambda>f (rf, fs). (rf_set_sample_format (\<not> be_little E) gb f rf, fs)),
      sc_toggle_interleaved = (\<lambda>b (rf, fs). (rf\<lparr>rf_format := toggle_interleaved_channels b (rf_format rf)\<rparr>, fs)),
      sc_is_resample = (\<lambda>c. False), sc_label = (\<lambda>(rf, fs). rf_label rf), sc_number_of_params = (\<lambda>c. 2),
      sc_variable_params = (\<lambda>c. False), sc_set_parameter = (\<lambda>n v (rf, fs). (rf_set_parameter n v rf, fs)),
      sc_get_parameter = (\<lambda>n (rf, fs). rf_get_parameter n rf)\<rparr>"

end
