(* ===== verification/Chainsetup_Enable.thy ===== *)
theory Chainsetup_Enable
  imports Chainsetup_Facts Raw_File
begin

text \<open>
  Enabling and disabling a chainsetup (\<open>libecasound/eca-chainsetup.cpp\<close>): choosing the buffering
  mode, switching between double buffering and direct access, opening and closing the audio objects,
  and agreeing on a sampling rate. An \<open>ECA_ERROR\<close> leaves what was done so far in place, so an operation
  that may throw returns the state with the message of the exception. MIDI devices, the memory locks
  and the buffer sizes of the double-buffering server are not modelled; the buffer size that jackd
  demands is an argument. Logging and the flag of the devices that ignores xruns are left out.
\<close>

subsection \<open>Operations that may throw\<close>

type_synonym 'a throwing = "('a \<times> string option) result"

definition then_do :: "'a throwing \<Rightarrow> ('a \<Rightarrow> 'a throwing) \<Rightarrow> 'a throwing" where
  "then_do r f = bind_result r (\<lambda>(s, e). case e of None \<Rightarrow> f s | Some msg \<Rightarrow> Inr (s, Some msg))"

definition no_throw :: "'a result \<Rightarrow> 'a throwing" where
  "no_throw r = bind_result r (\<lambda>s. Inr (s, None))"

fun fold_throw :: "('b \<Rightarrow> 'a \<Rightarrow> 'a throwing) \<Rightarrow> 'b list \<Rightarrow> 'a \<Rightarrow> 'a throwing" where
  "fold_throw f [] s = Inr (s, None)"
| "fold_throw f (x # xs) s = then_do (f x s) (fold_throw f xs)"

subsection \<open>Audio objects\<close>

text \<open>\<open>oc_open\<close> gives the message of a \<open>SETUP_ERROR\<close>, if it throws one.\<close>

record 'io open_class =
  oc_label :: "'io \<Rightarrow> string"
  oc_is_open :: "'io \<Rightarrow> bool"
  oc_open :: "'io \<Rightarrow> ('io \<times> string option) result"
  oc_close :: "'io \<Rightarrow> 'io"
  oc_position :: "'io \<Rightarrow> int"
  oc_locked_format :: "'io \<Rightarrow> bool"
  oc_srate :: "'io \<Rightarrow> int"
  oc_set_srate :: "int \<Rightarrow> 'io \<Rightarrow> 'io result"
  oc_toggle_max_buffers :: "bool \<Rightarrow> 'io \<Rightarrow> 'io"

text \<open>An audio object that is given as a \<open>stream_class\<close>.\<close>

definition stream_io :: "('io, 's) stream_class \<Rightarrow> ('io, 's) io_class" where
  "stream_io S =
     \<lparr>io_channels = sc_channels S, io_finished = (\<lambda>x. sc_finished S x = Inr True), io_read_buffer = sc_read S,
      io_write_buffer = (\<lambda>b x. bind_result (sc_write S b x) (\<lambda>(x', _). Inr x')), io_set_buffersize = sc_set_buffersize S,
      io_seek = sc_seek S, io_length = sc_length S, io_is_device = (\<lambda>x. False), io_is_loop = (\<lambda>x. False),
      io_is_proxy = (\<lambda>x. False), io_prepare = (\<lambda>x. x), io_start = (\<lambda>x. x), io_stop = (\<lambda>d x. x),
      io_is_running = (\<lambda>x. False), io_start_forked = (\<lambda>x. x), io_stop_forked = (\<lambda>x. x),
      io_prefill_space = (\<lambda>x. 0), io_latency = (\<lambda>x. 0)\<rparr>"

definition stream_open :: "('io, 's) stream_class \<Rightarrow> 'io open_class" where
  "stream_open S =
     \<lparr>oc_label = sc_label S, oc_is_open = sc_is_open S,
      oc_open = (\<lambda>x. case sc_open S x of Inr x' \<Rightarrow> Inr (x', None) | Inl (Thrown sec msg) \<Rightarrow> Inr (x, Some msg) | Inl f \<Rightarrow> Inl f),
      oc_close = sc_close S, oc_position = sc_position S, oc_locked_format = sc_locked S,
      oc_srate = (\<lambda>x. af_srate (sc_format S x)), oc_set_srate = sc_set_srate S, oc_toggle_max_buffers = (\<lambda>b x. x)\<rparr>"

definition has_nonrealtime_objects :: "('io, 's) io_class \<Rightarrow> ('io, 'o, 'c, 'v) chainsetup \<Rightarrow> bool" where
  "has_nonrealtime_objects iocls cs \<longleftrightarrow>
     length (cs_inputs_direct cs) + length (cs_outputs_direct cs) >
     number_of_realtime_inputs iocls cs + number_of_realtime_outputs iocls cs"

subsection \<open>Buffering\<close>

text \<open>Each client is deleted and its place taken by the object behind it.\<close>

definition direct_step ::
  "('io, 's) io_class \<Rightarrow> nat list \<Rightarrow> nat \<Rightarrow> nat list \<times> ('io, 'o, 'c, 'v) chainsetup \<Rightarrow> (nat list \<times> ('io, 'o, 'c, 'v) chainsetup) result" where
  "direct_step iocls directobjs n = (\<lambda>(objs, cs).
     bind_result (at_index objs (int n)) (\<lambda>a.
       if has_cast (io_is_proxy iocls) cs a
       then bind_result (at_index directobjs (int n)) (\<lambda>d.
              Inr (objs[n := d], (delete_obj a cs)\<lparr>cs_db_clients := cs_db_clients cs - 1\<rparr>))
       else Inr (objs, cs)))"

definition switch_to_direct_mode ::
  "('io, 's) io_class \<Rightarrow> ('io, 'o, 'c, 'v) chainsetup \<Rightarrow> ('io, 'o, 'c, 'v) chainsetup result" where
  "switch_to_direct_mode iocls cs =
     bind_result (fold_result (direct_step iocls (cs_inputs_direct cs)) [0..<length (cs_inputs cs)] (cs_inputs cs, cs)) (\<lambda>(ins, cs1).
     bind_result (fold_result (direct_step iocls (cs_outputs_direct cs1)) [0..<length (cs_outputs cs1)]
                    (cs_outputs cs1, cs1\<lparr>cs_inputs := ins\<rparr>)) (\<lambda>(outs, cs2).
       Inr (cs2\<lparr>cs_outputs := outs\<rparr>)))"

text \<open>The objects behind are wrapped again; \<open>fresh n\<close> is the address of the proxy made in turn \<open>n\<close>.\<close>

definition db_step ::
  "('io, 's) io_class \<Rightarrow> (nat \<Rightarrow> 'io) \<Rightarrow> (nat \<Rightarrow> nat) \<Rightarrow> nat list \<Rightarrow> nat \<Rightarrow> nat list \<times> ('io, 'o, 'c, 'v) chainsetup \<Rightarrow>
     (nat list \<times> ('io, 'o, 'c, 'v) chainsetup) result" where
  "db_step iocls proxy fresh directobjs n = (\<lambda>(objs, cs).
     bind_result (at_index directobjs (int n)) (\<lambda>d.
       case add_audio_object_helper iocls proxy (fresh n) d cs of (layerobj, cs1) \<Rightarrow>
         bind_result (at_index objs (int n)) (\<lambda>_. Inr (objs[n := layerobj], cs1))))"

definition switch_to_db_mode ::
  "('io, 's) io_class \<Rightarrow> (nat \<Rightarrow> 'io) \<Rightarrow> (nat \<Rightarrow> nat) \<Rightarrow> ('io, 'o, 'c, 'v) chainsetup \<Rightarrow> ('io, 'o, 'c, 'v) chainsetup result" where
  "switch_to_db_mode iocls proxy fresh cs =
     bind_result (fold_result (db_step iocls proxy fresh (cs_inputs_direct cs)) [0..<length (cs_inputs_direct cs)] (cs_inputs cs, cs)) (\<lambda>(ins, cs1).
     bind_result (fold_result (db_step iocls proxy (\<lambda>n. fresh (length (cs_inputs_direct cs) + n)) (cs_outputs_direct cs1))
                    [0..<length (cs_outputs_direct cs1)] (cs_outputs cs1, cs1\<lparr>cs_inputs := ins\<rparr>)) (\<lambda>(outs, cs2).
       Inr (cs2\<lparr>cs_outputs := outs\<rparr>)))"

definition enable_active_buffering_mode ::
  "('io, 's) io_class \<Rightarrow> (nat \<Rightarrow> 'io) \<Rightarrow> (nat \<Rightarrow> nat) \<Rightarrow> ('io, 'o, 'c, 'v) chainsetup \<Rightarrow> ('io, 'o, 'c, 'v) chainsetup result" where
  "enable_active_buffering_mode iocls proxy fresh cs =
     (if cs_double_buffering cs
      then if \<not> has_realtime_objects iocls cs \<or> \<not> has_nonrealtime_objects iocls cs
           then bind_result (switch_to_direct_mode iocls cs) (\<lambda>cs1. Inr (cs1\<lparr>cs_double_buffering := False\<rparr>))
           else if cs_db_clients cs = 0 then switch_to_db_mode iocls proxy fresh cs
           else Inr cs
      else if cs_db_clients cs > 0 then switch_to_direct_mode iocls cs
      else Inr cs)"

subsection \<open>Enabling\<close>

definition set_rate_of :: "'io open_class \<Rightarrow> int \<Rightarrow> nat list \<Rightarrow> ('io, 'o, 'c, 'v) chainsetup \<Rightarrow> ('io, 'o, 'c, 'v) chainsetup result" where
  "set_rate_of K rate objs cs =
     fold_result (\<lambda>a cs. bind_result (get_obj a cs) (\<lambda>x. bind_result (oc_set_srate K rate x) (\<lambda>x1. Inr (put_obj a x1 cs)))) objs cs"

definition cs_set_samples_per_second ::
  "'io open_class \<Rightarrow> ('o, 'v, 's) op_class \<Rightarrow> int \<Rightarrow> ('io, 'o, 'c, 'v) chainsetup \<Rightarrow> ('io, 'o, 'c, 'v) chainsetup result" where
  "cs_set_samples_per_second K cls rate cs =
     bind_result (set_rate_of K rate (cs_inputs cs) cs) (\<lambda>cs1.
     bind_result (set_rate_of K rate (cs_outputs cs1) cs1) (\<lambda>cs2.
     bind_result (cp_set_samples_per_second rate (cs_position cs2)) (\<lambda>p.
       Inr (cs2\<lparr>cs_chains := map (chain_set_samples_per_second cls rate) (cs_chains cs2), cs_position := p\<rparr>))))"

text \<open>The messages of the exceptions.\<close>

definition setup_error :: "string \<Rightarrow> string" where
  "setup_error msg = ''Enabling chainsetup: '' @ msg"

definition open_failed :: string where
  "open_failed = ''Open failed without explicit exception!''"

definition rate_error :: "string \<Rightarrow> int \<Rightarrow> int \<Rightarrow> string" where
  "rate_error label rate srate =
     ''All audio objects must have a common'' @ '' sampling rate; sampling rate of audio object '' @ [CHR 34] @ label @ [CHR 34] @
     '' differs from engine rate ('' @ kvu_numtostr_long rate @ '' <-> '' @ kvu_numtostr_long srate @ ''); unable to continue.''"

definition check_object_samplerate ::
  "'io open_class \<Rightarrow> nat \<Rightarrow> int \<Rightarrow> ('io, 'o, 'c, 'v) chainsetup \<Rightarrow> ('io, 'o, 'c, 'v) chainsetup throwing" where
  "check_object_samplerate K a srate cs =
     bind_result (get_obj a cs) (\<lambda>x.
       Inr (cs, if oc_srate K x \<noteq> srate
                then Some (rate_error (oc_label K x) (oc_srate K x) srate) else None))"

definition enable_audio_object_helper ::
  "('io, 's) io_class \<Rightarrow> 'io open_class \<Rightarrow> nat \<Rightarrow> ('io, 'o, 'c, 'v) chainsetup \<Rightarrow> ('io, 'o, 'c, 'v) chainsetup throwing" where
  "enable_audio_object_helper iocls K a cs =
     bind_result (get_obj a cs) (\<lambda>x.
       let x1 = io_set_buffersize iocls (int (cs_buffersize cs)) x;
           x2 = (if io_is_device iocls x1 then oc_toggle_max_buffers K (cs_max_buffers cs) x1 else x1)
       in bind_result (if oc_is_open K x2 then Inr (x2, None) else oc_open K x2) (\<lambda>(x3, e).
          case e of
            Some msg \<Rightarrow> Inr (put_obj a x3 cs, Some (setup_error msg))
          | None \<Rightarrow> Inr (put_obj a (if oc_is_open K x3 then io_seek iocls (oc_position K x3) x3 else x3) cs, None)))"

definition open_object ::
  "('io, 's) io_class \<Rightarrow> 'io open_class \<Rightarrow> nat \<Rightarrow> ('io, 'o, 'c, 'v) chainsetup \<Rightarrow> ('io, 'o, 'c, 'v) chainsetup throwing" where
  "open_object iocls K a cs =
     then_do (enable_audio_object_helper iocls K a cs) (\<lambda>cs1.
     bind_result (get_obj a cs1) (\<lambda>x.
       Inr (cs1, if oc_is_open K x then None else Some open_failed)))"

text \<open>
  The first object whose format is locked sets the rate of the chainsetup, and those after it have to
  agree. \<open>f\<close> is that rate, or 0.
\<close>

definition agree_rate ::
  "'io open_class \<Rightarrow> ('o, 'v, 's) op_class \<Rightarrow> nat \<Rightarrow> int \<times> ('io, 'o, 'c, 'v) chainsetup \<Rightarrow>
     (int \<times> ('io, 'o, 'c, 'v) chainsetup) throwing" where
  "agree_rate K cls a = (\<lambda>(f, cs).
     if f = 0
     then bind_result (get_obj a cs) (\<lambda>x.
            if oc_locked_format K x
            then bind_result (cs_set_samples_per_second K cls (oc_srate K x) cs) (\<lambda>cs1. Inr ((oc_srate K x, cs1), None))
            else Inr ((f, cs), None))
     else bind_result (check_object_samplerate K a f cs) (\<lambda>(cs1, e). Inr ((f, cs1), e)))"

definition open_output ::
  "('io, 's) io_class \<Rightarrow> 'io open_class \<Rightarrow> ('o, 'v, 's) op_class \<Rightarrow> nat \<Rightarrow> int \<times> ('io, 'o, 'c, 'v) chainsetup \<Rightarrow>
     (int \<times> ('io, 'o, 'c, 'v) chainsetup) throwing" where
  "open_output iocls K cls a = (\<lambda>(f, cs).
     then_do (bind_result (open_object iocls K a cs) (\<lambda>(cs1, e). Inr ((f, cs1), e))) (agree_rate K cls a))"

definition rate_of_first ::
  "'io open_class \<Rightarrow> ('o, 'v, 's) op_class \<Rightarrow> int \<times> ('io, 'o, 'c, 'v) chainsetup \<Rightarrow> ('io, 'o, 'c, 'v) chainsetup result" where
  "rate_of_first K cls = (\<lambda>(f, cs).
     if f = 0
     then case cs_inputs cs of
            [] \<Rightarrow> Inr cs
          | a # _ \<Rightarrow> bind_result (get_obj a cs) (\<lambda>x. cs_set_samples_per_second K cls (oc_srate K x) cs)
     else Inr cs)"

text \<open>The part of \<open>enable\<close> that runs when the chainsetup is not enabled yet.\<close>

definition open_objects ::
  "('io, 's) io_class \<Rightarrow> 'io open_class \<Rightarrow> ('o, 'v, 's) op_class \<Rightarrow> (nat \<Rightarrow> 'io) \<Rightarrow> (nat \<Rightarrow> nat) \<Rightarrow> int \<Rightarrow>
     ('io, 'o, 'c, 'v) chainsetup \<Rightarrow> ('io, 'o, 'c, 'v) chainsetup throwing" where
  "open_objects iocls K cls proxy fresh locked_bsize cs =
     (let cs1 = (if locked_bsize \<noteq> -1 then cs\<lparr>cs_buffersize := nat locked_bsize\<rparr> else cs) in
      bind_result (enable_active_buffering_mode iocls proxy fresh (select_active_buffering_mode iocls cs1)) (\<lambda>cs2.
      then_do (fold_throw (open_object iocls K) (cs_inputs cs2) cs2) (\<lambda>cs3.
      bind_result
        (then_do (fold_throw (agree_rate K cls) (cs_inputs cs3) (0, cs3)) (\<lambda>(f, cs4).
           fold_throw (open_output iocls K cls) (cs_outputs cs4) (f, cs4)))
        (\<lambda>((f, cs5), e).
           case e of
             Some msg \<Rightarrow> Inr (cs5, Some msg)
           | None \<Rightarrow> no_throw (bind_result (rate_of_first K cls (f, cs5)) (calculate_processing_length iocls))))))"

definition cs_enable ::
  "('io, 's) io_class \<Rightarrow> 'io open_class \<Rightarrow> ('o, 'v, 's) op_class \<Rightarrow> (nat \<Rightarrow> 'io) \<Rightarrow> (nat \<Rightarrow> nat) \<Rightarrow> int \<Rightarrow>
     ('io, 'o, 'c, 'v) chainsetup \<Rightarrow> ('io, 'o, 'c, 'v) chainsetup throwing" where
  "cs_enable iocls K cls proxy fresh locked_bsize cs =
     then_do (if cs_enabled cs then Inr (cs, None) else open_objects iocls K cls proxy fresh locked_bsize cs)
       (\<lambda>cs1. Inr (cs1\<lparr>cs_enabled := True\<rparr>, None))"

subsection \<open>Disabling\<close>

definition close_object :: "'io open_class \<Rightarrow> nat \<Rightarrow> ('io, 'o, 'c, 'v) chainsetup \<Rightarrow> ('io, 'o, 'c, 'v) chainsetup result" where
  "close_object K = update_obj (\<lambda>x. if oc_is_open K x then oc_close K x else x)"

definition cs_disable ::
  "('io, 's) io_class \<Rightarrow> 'io open_class \<Rightarrow> ('io, 'o, 'c, 'v) chainsetup \<Rightarrow> ('io, 'o, 'c, 'v) chainsetup result" where
  "cs_disable iocls K cs =
     bind_result (calculate_processing_length iocls cs) (\<lambda>cs1.
       if cs_enabled cs1
       then bind_result (fold_result (close_object K) (cs_inputs cs1) cs1) (\<lambda>cs2.
            bind_result (fold_result (close_object K) (cs_outputs cs2) cs2) (\<lambda>cs3.
              Inr (cs3\<lparr>cs_enabled := False\<rparr>)))
       else Inr cs1)"

end
