(* ===== verification/Raw_File_Facts.thy ===== *)
theory Raw_File_Facts
  imports Raw_File
begin

text \<open>
  A raw file that is open for reading meets the contract of a child stream: its content are the
  decoded frames of the file. What has been written to a file is read back, up to the precision of
  the sample format.
\<close>

subsection \<open>Frames of a file\<close>

lemma interleaved_order_nth:
  assumes "c < k" "t < n" shows "interleaved_order n k ! (t * k + c) = (c, t)" "t * k + c < n * k"
proof -
  have p: "concat (map (\<lambda>x. map (\<lambda>y. (y, x)) ys) xs) = map prod.swap (List.product xs ys)" for xs ys :: "nat list"
    by (induction xs) (simp_all add: comp_def)
  have "Suc t * k \<le> n * k" using assms(2) by (intro mult_le_mono1) simp
  then show b: "t * k + c < n * k" using assms(1) by simp
  have "(t * k + c) div k = t" "(t * k + c) mod k = c" using assms(1) by simp_all
  then show "interleaved_order n k ! (t * k + c) = (c, t)"
    using b assms by (simp add: interleaved_order_def p product_nth length_product)
qed

lemma diff_div_nat: "0 < s \<Longrightarrow> (l - p * s) div s = l div s - (p :: nat)"
proof (cases "p * s \<le> l")
  case True
  assume s: "0 < s"
  have "l = p * s + (l - p * s)" using True by simp
  then have "l div s = (p * s + (l - p * s)) div s" by (rule arg_cong)
  then show ?thesis using s by simp
next
  case False
  assume s: "0 < s"
  have "l div s < p" using False s by (simp add: div_less_iff_less_mult)
  then show ?thesis using False by simp
qed

lemma min_mult_div: "0 < s \<Longrightarrow> min (s * n) l div s = min n (l div (s :: nat))"
  by (metis div_le_mono dual_order.refl le_cases min.absorb1 min.absorb2 nonzero_mult_div_cancel_left not_less0)

text \<open>Samples of a frame in the bytes of a file.\<close>

definition frame_value :: "byte_env \<Rightarrow> audio_format \<Rightarrow> byte list \<Rightarrow> nat \<Rightarrow> nat \<Rightarrow> rat" where
  "frame_value E f bs c t = import_value E (sample_format f)
     (slice (import_size (sample_format f)) bs (t * nat (af_channels f) + c))"

definition layout_ok :: "audio_format \<Rightarrow> bool" where
  "layout_ok f \<longleftrightarrow> af_ileaved f \<and> 0 < import_size (sample_format f) \<and> 0 < af_channels f \<and>
     af_align f = int (import_size (sample_format f))"

definition frame_bytes :: "audio_format \<Rightarrow> nat" where
  "frame_bytes f = import_size (sample_format f) * nat (af_channels f)"

lemma layout_frame_size: "layout_ok f \<Longrightarrow> frame_size f = int (frame_bytes f) \<and> 0 < frame_bytes f"
  by (simp add: layout_ok_def frame_bytes_def frame_size_def)

subsection \<open>Open for reading\<close>

definition raw_file_of :: "raw_file \<Rightarrow> c_file" where
  "raw_file_of rf = the (fs_file (the (rf_stream rf)))"

definition raw_frames :: "raw_file \<Rightarrow> nat" where
  "raw_frames rf = length (cf_bytes (raw_file_of rf)) div frame_bytes (rf_format rf)"

definition raw_content :: "byte_env \<Rightarrow> raw_file \<Rightarrow> nat \<Rightarrow> nat \<Rightarrow> rat" where
  "raw_content E rf = frame_value E (rf_format rf) (cf_bytes (raw_file_of rf))"

definition at_position :: "c_file \<Rightarrow> int \<Rightarrow> nat \<Rightarrow> bool" where
  "at_position f p s \<longleftrightarrow> 0 \<le> p \<and>
     (if cf_eof f then length (cf_bytes f) div s \<le> nat p else int (cf_pos f) = p * int s)"

definition raw_ok :: "raw_file \<Rightarrow> bool" where
  "raw_ok rf \<longleftrightarrow> (\<exists>st f bs. rf_stream rf = Some st \<and> fs_file st = Some f \<and> fs_mode st \<noteq> [] \<and> rf_open rf \<and>
     layout_ok (rf_format rf) \<and> at_position f (ap_position (rf_position rf)) (frame_bytes (rf_format rf)) \<and>
     ap_length (rf_position rf) = int (raw_frames rf) \<and>
     rf_iobuf rf = Some bs \<and> 0 \<le> rf_buffersize rf \<and> rf_buffersize rf * int (frame_bytes (rf_format rf)) \<le> int (length bs))"

lemma raw_okE:
  assumes "raw_ok rf"
  obtains st f bs where "rf_stream rf = Some st" "fs_file st = Some f" "raw_file_of rf = f" "fs_mode st \<noteq> []" "rf_open rf"
    "layout_ok (rf_format rf)" "at_position f (ap_position (rf_position rf)) (frame_bytes (rf_format rf))"
    "ap_length (rf_position rf) = int (raw_frames rf)" "rf_iobuf rf = Some bs" "0 \<le> rf_buffersize rf"
    "rf_buffersize rf * int (frame_bytes (rf_format rf)) \<le> int (length bs)" "frame_size (rf_format rf) = int (frame_bytes (rf_format rf))"
    "0 < frame_bytes (rf_format rf)"
  using assms layout_frame_size[of "rf_format rf"] that by (auto simp: raw_ok_def raw_file_of_def)

text \<open>Reading bytes: the whole frames that are left, at most a buffer of them.\<close>

lemma read_bytes_at:
  assumes "fs_file st = Some f" "fs_mode st \<noteq> []" "at_position f p s" "0 < s"
  shows "\<exists>got st' f'. read_to_buffer (s * n) st = (got, st') \<and> fs_file st' = Some f' \<and> cf_bytes f' = cf_bytes f \<and>
    fs_mode st' = fs_mode st \<and> length got \<le> s * n \<and> fs_last st' = length got \<and>
    fs_last st' div s = min n (length (cf_bytes f) div s - nat p) \<and>
    at_position f' (p + int (fs_last st' div s)) s \<and>
    got = take (length got) (drop (nat p * s) (cf_bytes f))"
proof (cases "cf_eof f")
  case True
  then show ?thesis using assms
    by (intro exI[of _ "[]"] exI[of _ "st\<lparr>fs_last := 0\<rparr>"] exI[of _ f])
      (simp add: read_to_buffer_def is_file_ready_def at_position_def)
next
  case False
  have "0 \<le> p" "int (cf_pos f) = int (nat p * s)" using assms(3) False by (auto simp: at_position_def)
  then have p: "0 \<le> p" "cf_pos f = nat p * s" by (simp_all only: of_nat_eq_iff)
  define got where "got = take (s * n) (drop (cf_pos f) (cf_bytes f))"
  define f' where "f' = f\<lparr>cf_pos := cf_pos f + length got, cf_eof := cf_eof f \<or> length got < s * n\<rparr>"
  have l: "length got = min (s * n) (length (cf_bytes f) - nat p * s)" by (simp add: got_def p min.commute)
  have d: "length got div s = min n (length (cf_bytes f) div s - nat p)"
    using assms(4) by (simp add: l min_mult_div diff_div_nat)
  have pos: "at_position f' (p + int (length got div s)) s"
  proof (cases "length got < s * n")
    case True
    then have "length got = length (cf_bytes f) - nat p * s" using l by simp
    then have "length got div s = length (cf_bytes f) div s - nat p" using assms(4) by (simp add: diff_div_nat)
    then show ?thesis using True p by (simp add: at_position_def f'_def)
  next
    case f: False
    then have "length got = s * n" using l by simp
    then show ?thesis using False f p assms(4) by (simp add: at_position_def f'_def algebra_simps)
  qed
  have "read_to_buffer (s * n) st = (got, st\<lparr>fs_file := Some f', fs_last := length got, fs_curpos := fs_curpos st + int (length got)\<rparr>)"
    using assms(1,2) False by (simp add: read_to_buffer_def is_file_ready_def c_fread_def Let_def f'_def got_def)
  moreover have "got = take (length got) (drop (nat p * s) (cf_bytes f))" by (auto simp: got_def p min_def)
  ultimately show ?thesis using assms d l pos
    by (intro exI[of _ got] exI[of _ "st\<lparr>fs_file := Some f', fs_last := length got, fs_curpos := fs_curpos st + int (length got)\<rparr>"]
        exI[of _ f']) (simp add: f'_def)
qed

lemma slice_window:
  assumes "got = take (length got) (drop (p * b) xs)" "Suc k * s \<le> length got" "b = s * c"
  shows "slice s (got @ ys) k = slice s xs (p * c + k)"
proof -
  have "slice s (got @ ys) k = take s (drop (k * s) got)" using assms(2) by (simp add: slice_def)
  also have "\<dots> = take s (drop (k * s) (take (length got) (drop (p * b) xs)))" using assms(1) by simp
  also have "\<dots> = take s (drop (k * s + p * b) xs)" using assms(2) by (simp add: drop_take add.commute min_def)
  also have "k * s + p * b = (p * c + k) * s" by (simp add: assms(3) algebra_simps)
  finally show ?thesis by (simp add: slice_def)
qed

lemma rf_read_at:
  assumes "raw_ok rf" "sb_wf b" and n: "n = min (nat (rf_buffersize rf)) (raw_frames rf - nat (ap_position (rf_position rf)))"
  shows "\<exists>rf' b'. rf_read_buffer E g b rf = Inr (rf', b') \<and> raw_ok rf' \<and> sb_wf b' \<and>
    sb_channel_count b' = nat (af_channels (rf_format rf)) \<and> sb_buffersize b' = n \<and>
    ap_position (rf_position rf') = ap_position (rf_position rf) + int n \<and> rf_buffersize rf' = rf_buffersize rf \<and>
    rf_format rf' = rf_format rf \<and> raw_frames rf' = raw_frames rf \<and> raw_content E rf' = raw_content E rf \<and>
    (\<forall>ch < nat (af_channels (rf_format rf)). \<forall>t < n. sample_at b' ch t = raw_content E rf ch (nat (ap_position (rf_position rf)) + t))"
proof -
  obtain st f bs where r: "rf_stream rf = Some st" "fs_file st = Some f" "raw_file_of rf = f" "fs_mode st \<noteq> []" "rf_open rf"
    "layout_ok (rf_format rf)" "at_position f (ap_position (rf_position rf)) (frame_bytes (rf_format rf))"
    "ap_length (rf_position rf) = int (raw_frames rf)" "rf_iobuf rf = Some bs" "0 \<le> rf_buffersize rf"
    "rf_buffersize rf * int (frame_bytes (rf_format rf)) \<le> int (length bs)" "frame_size (rf_format rf) = int (frame_bytes (rf_format rf))"
    "0 < frame_bytes (rf_format rf)" using assms(1) by (rule raw_okE)
  define s p k where "s = frame_bytes (rf_format rf)" and "p = ap_position (rf_position rf)" and "k = nat (af_channels (rf_format rf))"
  define i fmt where "i = import_size (sample_format (rf_format rf))" and "fmt = sample_format (rf_format rf)"
  have fsz: "rf_frame_size rf = int s" using r(12) by (simp add: rf_frame_size_def s_def)
  have bytes: "nat (int s * rf_buffersize rf) = s * nat (rf_buffersize rf)" using r(10) by (simp add: nat_mult_distrib)
  obtain got st' f' where g: "read_to_buffer (s * nat (rf_buffersize rf)) st = (got, st')" "fs_file st' = Some f'"
      "cf_bytes f' = cf_bytes f" "fs_mode st' = fs_mode st" "length got \<le> s * nat (rf_buffersize rf)" "fs_last st' = length got"
      "fs_last st' div s = min (nat (rf_buffersize rf)) (length (cf_bytes f) div s - nat p)"
      "at_position f' (p + int (fs_last st' div s)) s" "got = take (length got) (drop (nat p * s) (cf_bytes f))"
    using read_bytes_at[OF r(2,4), of p s "nat (rf_buffersize rf)"] r(7,13) unfolding s_def p_def by blast
  have m: "fs_last st' div s = n" using g(7) by (simp add: n raw_frames_def r(3) s_def p_def)
  have "s * nat (rf_buffersize rf) \<le> length bs" using r(10,11) unfolding s_def
    by (metis mult.commute nat_0_le nat_int_comparison(3) of_nat_mult)
  then have lg: "length got \<le> length bs" using g(5) by simp
  define bs' where "bs' = got @ drop (length got) bs"
  define rf1 where "rf1 = rf\<lparr>rf_stream := Some st', rf_iobuf := Some bs'\<rparr>"
  have read: "rf_read_samples rf = Inr (n, rf1)"
    using r(1,9,13) lg g(1) m
    by (simp add: rf_read_samples_def fsz bytes rf_iobuf_size_def rf1_def bs'_def flip: s_def zdiv_int)
  have i: "s = i * k" "i \<noteq> 0" using r(6) by (simp_all add: s_def frame_bytes_def i_def k_def layout_ok_def)
  have "n * s \<le> length got" using m g(6) by (metis div_times_less_eq_dividend)
  then have w: "n * k * i \<le> length got" by (simp add: i(1) mult.commute mult.left_commute)
  then have w': "n * k * import_size fmt \<le> length bs'" using lg by (simp add: bs'_def i_def fmt_def)
  obtain b1 where b1: "import_interleaved E g bs' n fmt k b = Inr b1" "sb_wf b1" "sb_channel_count b1 = k" "sb_buffersize b1 = n"
      "\<forall>j < n * k. cell b1 (interleaved_order n k ! j) = import_value E fmt (slice (import_size fmt) bs' j)"
    using import_samples_at[OF visits_all_orders(1) assms(2) _ w', of E g] i(2)
    by (auto simp: import_interleaved_def i_def fmt_def)
  define b' where "b' = (if int n < rf_buffersize rf then event_tag_set tag_end_of_stream True b1 else b1)"
  define rf' where "rf' = rf1\<lparr>rf_position := change_position_in_samples (int n) (rf_position rf)\<rparr>"
  have 1: "rf_read_buffer E g b rf = Inr (rf', b')"
    using b1(1,4) r(6) by (simp add: rf_read_buffer_def read rf1_def layout_ok_def fmt_def k_def rf'_def b'_def)
  have b': "sb_wf b'" "sb_channel_count b' = k" "sb_buffersize b' = n" "sample_at b' c t = sample_at b1 c t" for c t
    using b1(2-4) by (auto simp: b'_def event_tag_set_def sb_wf_def sample_at_def sb_audio_def)
  have files: "raw_file_of rf' = f'" "rf_format rf' = rf_format rf" "ap_position (rf_position rf') = p + int n" "rf_buffersize rf' = rf_buffersize rf"
    by (simp_all add: rf'_def rf1_def raw_file_of_def g(2) change_position_in_samples_def p_def)
  have same: "raw_frames rf' = raw_frames rf" "raw_content E rf' = raw_content E rf"
    using files g(3) r(3) by (simp_all add: raw_frames_def raw_content_def)
  have "raw_ok rf'" unfolding raw_ok_def
    using files same r(5,6,8,10,11) g(2,4,8) r(4) lg m
    by (simp add: rf'_def rf1_def change_position_in_samples_def bs'_def s_def p_def)
  moreover have "sample_at b' c t = raw_content E rf c (nat p + t)" if "c < k" "t < n" for c t
  proof -
    have o: "interleaved_order n k ! (t * k + c) = (c, t)" "t * k + c < n * k" using interleaved_order_nth that by simp_all
    have "Suc (t * k + c) * i \<le> n * k * i" using o(2) by (intro mult_le_mono1) simp
    then have "slice i bs' (t * k + c) = slice i (cf_bytes f) (nat p * k + (t * k + c))"
      unfolding bs'_def using w by (intro slice_window[OF g(9)]) (simp_all add: i(1))
    then have "cell b1 (c, t) = raw_content E rf c (nat p + t)"
      using b1(5) o unfolding raw_content_def frame_value_def r(3)
      by (metis add.assoc distrib_right fmt_def i_def k_def)
    then show ?thesis using that b1(2-4) b'(4) by (simp add: cell_sample_at)
  qed
  ultimately show ?thesis using 1 b' files same by (intro exI[of _ rf'] exI[of _ b']) (simp add: k_def p_def)
qed

lemma rf_set_buffersize_ok:
  assumes "raw_ok rf" "0 \<le> n"
  shows "raw_ok (rf_set_buffersize gb n rf) \<and> rf_buffersize (rf_set_buffersize gb n rf) = n \<and>
    rf_position (rf_set_buffersize gb n rf) = rf_position rf \<and> rf_format (rf_set_buffersize gb n rf) = rf_format rf \<and>
    raw_file_of (rf_set_buffersize gb n rf) = raw_file_of rf"
proof -
  define rf' where "rf' = rf_set_buffersize gb n rf"
  have same: "rf_stream rf' = rf_stream rf" "rf_open rf' = rf_open rf" "rf_format rf' = rf_format rf" "rf_position rf' = rf_position rf"
    by (simp_all add: rf'_def rf_set_buffersize_def reserve_buffer_space_def)
  obtain bs where o: "rf_iobuf rf = Some bs" "0 \<le> rf_buffersize rf" "rf_buffersize rf * int (frame_bytes (rf_format rf)) \<le> int (length bs)"
      "frame_size (rf_format rf) = int (frame_bytes (rf_format rf))" using assms(1) by (rule raw_okE) metis
  have b: "\<exists>bs'. rf_iobuf rf' = Some bs' \<and> rf_buffersize rf' = n \<and> n * int (frame_bytes (rf_format rf)) \<le> int (length bs')"
    using o assms(2) by (auto simp: rf'_def rf_set_buffersize_def reserve_buffer_space_def rf_iobuf_size_def rf_frame_size_def)
  have f: "raw_file_of rf' = raw_file_of rf" "raw_frames rf' = raw_frames rf" using same by (simp_all add: raw_file_of_def raw_frames_def)
  have "raw_ok rf'" using assms b unfolding raw_ok_def same f by auto
  then show ?thesis using b same f by (simp add: rf'_def) blast
qed

lemma rf_seek_ok:
  assumes "raw_ok rf" "0 \<le> p"
  shows "raw_ok (rf_seek p rf) \<and> rf_buffersize (rf_seek p rf) = rf_buffersize rf \<and> ap_position (rf_position (rf_seek p rf)) = p \<and>
    rf_format (rf_seek p rf) = rf_format rf \<and> cf_bytes (raw_file_of (rf_seek p rf)) = cf_bytes (raw_file_of rf)"
proof -
  obtain st f bs where r: "rf_stream rf = Some st" "fs_file st = Some f" "raw_file_of rf = f" "fs_mode st \<noteq> []" "rf_open rf"
    "layout_ok (rf_format rf)" "at_position f (ap_position (rf_position rf)) (frame_bytes (rf_format rf))"
    "ap_length (rf_position rf) = int (raw_frames rf)" "rf_iobuf rf = Some bs" "0 \<le> rf_buffersize rf"
    "rf_buffersize rf * int (frame_bytes (rf_format rf)) \<le> int (length bs)" "frame_size (rf_format rf) = int (frame_bytes (rf_format rf))"
    "0 < frame_bytes (rf_format rf)" using assms(1) by (rule raw_okE)
  define q where "q = p * int (frame_bytes (rf_format rf))"
  have "0 \<le> q" using assms(2) by (simp add: q_def)
  then have q: "\<not> q < 0" "int (nat q) = p * int (frame_bytes (rf_format rf))" by (simp_all add: q_def)
  define rf' where "rf' = rf\<lparr>rf_stream := Some (set_file_position q st), rf_position := set_position_in_samples p (rf_position rf)\<rparr>"
  have e: "rf_seek p rf = rf'" using r(1,5,12) by (simp add: rf_seek_def rf_seek_position_def rf_frame_size_def q_def rf'_def)
  have f': "raw_file_of rf' = f\<lparr>cf_pos := nat q, cf_eof := False\<rparr>" "rf_format rf' = rf_format rf" "rf_buffersize rf' = rf_buffersize rf"
      "ap_position (rf_position rf') = p"
    using r(1,2) q assms(2) by (simp_all add: rf'_def raw_file_of_def set_file_position_def c_fseek_def set_position_in_samples_def)
  then have f: "raw_frames rf' = raw_frames rf" using r(3) by (simp add: raw_frames_def)
  have "raw_ok rf'" unfolding raw_ok_def f using f' r q assms(2)
    by (simp add: rf'_def set_file_position_def c_fseek_def set_position_in_samples_def at_position_def)
  then show ?thesis using e f' r(3) by simp
qed

definition raw_child_ok :: "raw_file \<times> file_system \<Rightarrow> bool" where "raw_child_ok c = raw_ok (fst c)"

interpretation raw_child: child_stream "raw_stream E g gb" raw_child_ok "\<lambda>c. raw_frames (fst c)" "\<lambda>c. raw_content E (fst c)"
  for E g gb
proof
  fix c :: "raw_file \<times> file_system" and b :: "rat sample_buffer" and n p :: int
  obtain rf fs where c: "c = (rf, fs)" by fastforce
  assume "raw_child_ok c"
  then have ok: "raw_ok rf" by (simp add: raw_child_ok_def c)
  then obtain st f bs where r: "rf_stream rf = Some st" "fs_file st = Some f" "raw_file_of rf = f"
    "at_position f (ap_position (rf_position rf)) (frame_bytes (rf_format rf))"
    "ap_length (rf_position rf) = int (raw_frames rf)" "0 \<le> rf_buffersize rf" by (rule raw_okE)
  show "0 \<le> sc_position (raw_stream E g gb) c" "0 \<le> sc_buffersize (raw_stream E g gb) c"
      "sc_length (raw_stream E g gb) c = int (raw_frames (fst c))" "sc_finite (raw_stream E g gb) c"
    using r by (simp_all add: raw_stream_def c at_position_def)
  show "raw_child_ok (sc_set_buffersize (raw_stream E g gb) n c) \<and>
      sc_buffersize (raw_stream E g gb) (sc_set_buffersize (raw_stream E g gb) n c) = n \<and>
      sc_position (raw_stream E g gb) (sc_set_buffersize (raw_stream E g gb) n c) = sc_position (raw_stream E g gb) c \<and>
      sc_channels (raw_stream E g gb) (sc_set_buffersize (raw_stream E g gb) n c) = sc_channels (raw_stream E g gb) c \<and>
      raw_frames (fst (sc_set_buffersize (raw_stream E g gb) n c)) = raw_frames (fst c) \<and>
      raw_content E (fst (sc_set_buffersize (raw_stream E g gb) n c)) = raw_content E (fst c)" if "0 \<le> n"
    using rf_set_buffersize_ok[OF ok that, of gb] by (simp add: raw_stream_def c raw_child_ok_def raw_frames_def raw_content_def)
  show "raw_child_ok (sc_seek (raw_stream E g gb) p c) \<and>
      sc_buffersize (raw_stream E g gb) (sc_seek (raw_stream E g gb) p c) = sc_buffersize (raw_stream E g gb) c \<and>
      sc_position (raw_stream E g gb) (sc_seek (raw_stream E g gb) p c) = p \<and>
      sc_channels (raw_stream E g gb) (sc_seek (raw_stream E g gb) p c) = sc_channels (raw_stream E g gb) c \<and>
      raw_frames (fst (sc_seek (raw_stream E g gb) p c)) = raw_frames (fst c) \<and>
      raw_content E (fst (sc_seek (raw_stream E g gb) p c)) = raw_content E (fst c)" if "0 \<le> p"
    using rf_seek_ok[OF ok that] by (simp add: raw_stream_def c raw_child_ok_def raw_frames_def raw_content_def)
  show "let n = min (nat (sc_buffersize (raw_stream E g gb) c)) (raw_frames (fst c) - nat (sc_position (raw_stream E g gb) c)) in
      \<exists>c' b'. sc_read (raw_stream E g gb) b c = Inr (c', b') \<and> raw_child_ok c' \<and> sb_wf b' \<and>
         sb_channel_count b' = sc_channels (raw_stream E g gb) c \<and> sb_buffersize b' = n \<and>
         sc_position (raw_stream E g gb) c' = sc_position (raw_stream E g gb) c + int n \<and>
         sc_buffersize (raw_stream E g gb) c' = sc_buffersize (raw_stream E g gb) c \<and>
         sc_channels (raw_stream E g gb) c' = sc_channels (raw_stream E g gb) c \<and> raw_frames (fst c') = raw_frames (fst c) \<and>
         raw_content E (fst c') = raw_content E (fst c) \<and>
         (\<forall>ch < sc_channels (raw_stream E g gb) c. \<forall>t < n.
            sample_at b' ch t = raw_content E (fst c) ch (nat (sc_position (raw_stream E g gb) c) + t))" if "sb_wf b"
    using rf_read_at[OF ok that refl, of E g] by (fastforce simp: raw_stream_def c raw_child_ok_def Let_def)
qed

subsection \<open>Recording and playing back\<close>

text \<open>Bytes that code a list of samples, up to the precision of the format.\<close>

definition coded :: "byte_env \<Rightarrow> sample_fmt \<Rightarrow> byte list \<Rightarrow> rat list \<Rightarrow> bool" where
  "coded E fmt bytes xs \<longleftrightarrow> length bytes = length xs * import_size fmt \<and>
     (\<forall>j < length xs. \<bar>import_value E fmt (slice (import_size fmt) bytes j) - clamp_sample (xs ! j)\<bar> \<le> quantum fmt)"

lemma slice_append:
  "slice s (us @ vs) j = (if Suc j * s \<le> length us then slice s us j else slice s vs (j - n))"
  if "length us = n * s"
proof (cases "j < n")
  case True
  then have "Suc j * s \<le> n * s" by (intro mult_le_mono1) simp
  then show ?thesis using that by (simp add: slice_def)
next
  case False
  then obtain i where j: "j = n + i" using le_Suc_ex not_less by blast
  show ?thesis using that by (cases "s = 0") (simp_all add: slice_def j algebra_simps)
qed

lemma coded_append:
  assumes "coded E fmt us xs" "coded E fmt vs ys" shows "coded E fmt (us @ vs) (xs @ ys)"
proof -
  define s where "s = import_size fmt"
  have l: "length us = length xs * s" "length vs = length ys * s" using assms by (simp_all add: coded_def s_def)
  have "\<bar>import_value E fmt (slice s (us @ vs) j) - clamp_sample ((xs @ ys) ! j)\<bar> \<le> quantum fmt"
    if j: "j < length (xs @ ys)" for j
  proof (cases "j < length xs")
    case True
    then have "Suc j * s \<le> length us" unfolding l by (intro mult_le_mono1) simp
    then show ?thesis using assms(1) True slice_append[OF l(1)] by (simp add: coded_def s_def nth_append)
  next
    case False
    then have "slice s (us @ vs) j = slice s vs (j - length xs)"
      using slice_append[OF l(1), of vs j] l(1) by (cases "s = 0") (auto simp: slice_def)
    then show ?thesis using assms(2) False j by (simp add: coded_def s_def nth_append)
  qed
  then show ?thesis using l by (simp add: coded_def s_def algebra_simps)
qed

lemma export_block:
  assumes "sb_wf b" "fmt \<in> pcm_fmts" "length target \<ge> sb_buffersize b * sb_channel_count b * import_size fmt" "0 < sb_channel_count b"
  obtains bytes where "export_interleaved E g fmt (sb_channel_count b) target b = Inr (bytes @ drop (length bytes) target, b)"
    "coded E fmt bytes (interleaved b)" "length bytes = sb_buffersize b * sb_channel_count b * import_size fmt"
proof -
  define n k s where "n = sb_buffersize b" and "k = sb_channel_count b" and "s = import_size fmt"
  define ps where "ps = interleaved_order n k"
  define enc where "enc p = projr (export_bytes E fmt (clamp_sample (cell b p)))" for p
  have e: "export_bytes E fmt (clamp_sample (cell b p)) = Inr (enc p) \<and> length (enc p) = s \<and>
      \<bar>import_value E fmt (enc p) - clamp_sample (cell b p)\<bar> \<le> quantum fmt" for p
    using import_export_bytes[OF assms(2), of "clamp_sample (cell b p)" E] clamp_sample_bounds by (auto simp: enc_def s_def)
  have l: "length ps = n * k" by (simp add: ps_def orders)
  have lb: "length (concat (map enc qs)) = length qs * s" for qs using e by (induction qs) simp_all
  define bytes where "bytes = concat (map enc ps)"
  have len: "length bytes = n * k * s" using lb l by (simp add: bytes_def)
  have "export_loop E fmt b ps (target, 0) = Inr (take 0 target @ concat (map enc ps) @ drop (0 + s * length ps) target, 0 + s * length ps)"
  proof (rule export_loop_at)
    show "fst p < length (sb_arrays b) \<and> snd p < length (sb_arrays b ! fst p)" if "p \<in> set ps" for p
      using visited[OF visits_all_orders(1) assms(1), of k] that by (simp add: ps_def k_def n_def)
    show "0 + s * length ps \<le> length target" using assms(3) l by (simp add: n_def k_def s_def mult.commute)
  qed (use e in simp)
  then have 1: "export_interleaved E g fmt k target b = Inr (bytes @ drop (length bytes) target, b)"
    using len l by (simp add: export_interleaved_def export_samples_def flip: n_def k_def ps_def bytes_def) (simp add: k_def mult.commute)
  have "coded E fmt bytes (interleaved b)"
  proof -
    have "\<bar>import_value E fmt (slice s bytes j) - clamp_sample (interleaved b ! j)\<bar> \<le> quantum fmt" if j: "j < n * k" for j
    proof -
      have d: "j mod k < k" "j div k < n" using assms(4) j by (simp_all add: k_def less_mult_imp_div_less)
      then have p: "ps ! j = (j mod k, j div k)" using interleaved_order_nth(1)[OF d] by (simp add: ps_def)
      have "ps = take j ps @ ps ! j # drop (Suc j) ps" using j l by (simp add: id_take_nth_drop)
      then have "bytes = concat (map enc (take j ps)) @ enc (ps ! j) @ concat (map enc (drop (Suc j) ps))"
        unfolding bytes_def by (metis concat.simps(2) concat_append list.simps(9) map_append)
      moreover have "length (concat (map enc (take j ps))) = j * s" using lb[of "take j ps"] j l by simp
      ultimately have "slice s bytes j = enc (ps ! j)" using e by (simp add: slice_def)
      moreover have "interleaved b ! j = cell b (ps ! j)"
        using j d p assms(1) by (simp add: interleaved_def flip: n_def k_def) (simp add: cell_sample_at k_def n_def)
      ultimately show ?thesis using e by simp
    qed
    then show ?thesis using len by (simp add: coded_def interleaved_def flip: n_def k_def s_def)
  qed
  then show ?thesis using that 1 len by (simp add: n_def k_def s_def)
qed

definition raw_appending :: "byte list \<Rightarrow> raw_file \<Rightarrow> bool" where
  "raw_appending bytes rf \<longleftrightarrow> (\<exists>st f bs. rf_stream rf = Some st \<and> fs_file st = Some f \<and> fs_mode st = ''wb'' \<and>
     fs_name st = rf_label rf \<and> \<not> cf_eof f \<and> cf_bytes f = bytes \<and> cf_pos f = length bytes \<and> rf_iobuf rf = Some bs \<and>
     rf_buffersize rf * int (frame_bytes (rf_format rf)) \<le> int (length bs))"

lemma rf_write_at:
  assumes "raw_appending bytes rf" "layout_ok (rf_format rf)" "sample_format (rf_format rf) \<in> pcm_fmts" "sb_wf b"
    "sb_channel_count b = nat (af_channels (rf_format rf))"
  shows "\<exists>rf' bytes'. rf_write_buffer E g gb b rf = Inr (rf', b) \<and> raw_appending (bytes @ bytes') rf' \<and>
    coded E (sample_format (rf_format rf)) bytes' (interleaved b) \<and> rf_format rf' = rf_format rf \<and> rf_label rf' = rf_label rf"
proof -
  define n fmt k where "n = sb_buffersize b" and "fmt = sample_format (rf_format rf)" and "k = nat (af_channels (rf_format rf))"
  define rf1 where "rf1 = rf_set_buffersize gb (int n) rf"
  have fs: "frame_size (rf_format rf) = int (frame_bytes (rf_format rf))" "0 < frame_bytes (rf_format rf)"
    using layout_frame_size[OF assms(2)] by simp_all
  obtain st f bs where r: "rf_stream rf = Some st" "fs_file st = Some f" "fs_mode st = ''wb''" "fs_name st = rf_label rf" "\<not> cf_eof f"
      "cf_bytes f = bytes" "cf_pos f = length bytes" "rf_iobuf rf = Some bs" "rf_buffersize rf * int (frame_bytes (rf_format rf)) \<le> int (length bs)"
    using assms(1) by (auto simp: raw_appending_def)
  have same: "rf_stream rf1 = Some st" "rf_format rf1 = rf_format rf" "rf_label rf1 = rf_label rf"
    using r(1) by (simp_all add: rf1_def rf_set_buffersize_def reserve_buffer_space_def)
  have "\<exists>t. rf_iobuf rf1 = Some t \<and> rf_buffersize rf1 = int n \<and> int n * int (frame_bytes (rf_format rf)) \<le> int (length t)"
    using r(8,9) fs by (auto simp: rf1_def rf_set_buffersize_def reserve_buffer_space_def rf_iobuf_size_def rf_frame_size_def)
  then obtain t where t: "rf_iobuf rf1 = Some t" "rf_buffersize rf1 = int n" "int (n * frame_bytes (rf_format rf)) \<le> int (length t)" by auto
  have nk: "n * k * import_size fmt = n * frame_bytes (rf_format rf)" by (simp add: k_def fmt_def frame_bytes_def)
  have k: "sb_channel_count b = k" "0 < k" using assms(2,5) by (simp_all add: k_def layout_ok_def)
  obtain bytes' where e: "export_interleaved E g fmt k t b = Inr (bytes' @ drop (length bytes') t, b)"
      "coded E fmt bytes' (interleaved b)" "length bytes' = n * k * import_size fmt"
    using export_block[OF assms(4), of fmt t] assms(3) t(3) nk k fmt_def n_def by (metis of_nat_le_iff)
  define t' where "t' = bytes' @ drop (length bytes') t"
  have lb: "length bytes' = n * frame_bytes (rf_format rf)" using e(3) nk by simp
  have le: "length bytes' \<le> length t" using t(3) unfolding lb by (simp only: of_nat_le_iff)
  have lt: "length t' = length t" "nat (int (frame_bytes (rf_format rf)) * int n) = length bytes'" "length bytes' \<le> length t"
    using le lb by (simp_all add: t'_def nat_mult_distrib mult.commute)
  define rf2 where "rf2 = rf1\<lparr>rf_iobuf := Some t', rf_stream := Some (write_from_buffer bytes' st)\<rparr>"
  have w: "rf_write_samples n (rf1\<lparr>rf_iobuf := Some t'\<rparr>) = Inr rf2"
    using same fs lb lt by (simp add: rf_write_samples_def rf_frame_size_def rf2_def t'_def mult.commute)
  define rf' where "rf' = rf2\<lparr>rf_position := extend_position (change_position_in_samples (int n) (rf_position rf2))\<rparr>"
  have "rf_write_buffer E g gb b rf = Inr (rf', b)"
    using assms(2) same t(1) e(1) w
    by (simp add: rf_write_buffer_def Let_def layout_ok_def rf'_def flip: n_def rf1_def fmt_def k_def t'_def)
  moreover have "raw_appending (bytes @ bytes') rf'"
  proof -
    have "write_from_buffer bytes' st = st\<lparr>fs_file := Some (c_fwrite bytes' f), fs_last := length bytes',
        fs_curpos := fs_curpos st + int (length bytes')\<rparr>"
      using r by (simp add: write_from_buffer_def is_file_ready_def)
    moreover have "c_fwrite bytes' f = f\<lparr>cf_bytes := bytes @ bytes', cf_pos := length (bytes @ bytes')\<rparr>" using r by (simp add: c_fwrite_def)
    ultimately show ?thesis using r same t lt by (simp add: raw_appending_def rf'_def rf2_def)
  qed
  ultimately show ?thesis using e(2) same by (intro exI[of _ rf'] exI[of _ bytes']) (simp add: rf'_def rf2_def fmt_def)
qed

text \<open>A file that is opened, written block after block and closed; opened again and read block after block.\<close>

definition rf_record ::
  "byte_env \<Rightarrow> (nat \<Rightarrow> nat \<Rightarrow> rat) \<Rightarrow> (nat \<Rightarrow> byte) \<Rightarrow> int \<Rightarrow> raw_file \<Rightarrow> rat sample_buffer list \<Rightarrow> file_system \<Rightarrow> file_system result" where
  "rf_record E g gb n w blocks fs =
     bind_result (rf_open_file fs (w\<lparr>rf_io_mode := Io_write\<rparr>)) (\<lambda>w1.
     bind_result (fold_result (\<lambda>b rf. bind_result (rf_write_buffer E g gb b rf) (\<lambda>(rf', b'). Inr rf')) blocks (rf_set_buffersize gb n w1)) (\<lambda>w2.
       Inr (snd (rf_close fs w2))))"

definition rf_play ::
  "byte_env \<Rightarrow> (nat \<Rightarrow> nat \<Rightarrow> rat) \<Rightarrow> (nat \<Rightarrow> byte) \<Rightarrow> int \<Rightarrow> raw_file \<Rightarrow> rat sample_buffer \<Rightarrow> nat \<Rightarrow> file_system \<Rightarrow>
     ((raw_file \<times> file_system) \<times> rat sample_buffer list) result" where
  "rf_play E g gb n r b m fs =
     bind_result (rf_open_file fs (r\<lparr>rf_io_mode := Io_read\<rparr>)) (\<lambda>r1.
       sc_read_blocks (raw_stream E g gb) b m (rf_set_buffersize gb n r1, fs))"

lemma buffer_reserved:
  assumes "0 < n" "layout_ok (rf_format rf)"
  obtains bs where "rf_iobuf (rf_set_buffersize gb n rf) = Some bs" "n * int (frame_bytes (rf_format rf)) \<le> int (length bs)"
    "rf_buffersize (rf_set_buffersize gb n rf) = n" "rf_stream (rf_set_buffersize gb n rf) = rf_stream rf"
    "rf_format (rf_set_buffersize gb n rf) = rf_format rf" "rf_label (rf_set_buffersize gb n rf) = rf_label rf"
    "rf_position (rf_set_buffersize gb n rf) = rf_position rf" "rf_open (rf_set_buffersize gb n rf) = rf_open rf"
proof -
  have f: "frame_size (rf_format rf) = int (frame_bytes (rf_format rf))" "0 < n * int (frame_bytes (rf_format rf))"
    using layout_frame_size[OF assms(2)] assms(1) by simp_all
  have "\<exists>bs. rf_iobuf (rf_set_buffersize gb n rf) = Some bs \<and> n * int (frame_bytes (rf_format rf)) \<le> int (length bs)"
    using f by (cases "rf_iobuf rf") (auto simp: rf_set_buffersize_def reserve_buffer_space_def rf_iobuf_size_def rf_frame_size_def)
  moreover have "rf_buffersize (rf_set_buffersize gb n rf) = n \<and> rf_stream (rf_set_buffersize gb n rf) = rf_stream rf \<and>
      rf_format (rf_set_buffersize gb n rf) = rf_format rf \<and> rf_label (rf_set_buffersize gb n rf) = rf_label rf \<and>
      rf_position (rf_set_buffersize gb n rf) = rf_position rf \<and> rf_open (rf_set_buffersize gb n rf) = rf_open rf"
    by (simp add: rf_set_buffersize_def reserve_buffer_space_def)
  ultimately show ?thesis using that by blast
qed

lemma write_blocks:
  assumes "raw_appending bytes rf" "layout_ok (rf_format rf)" "sample_format (rf_format rf) \<in> pcm_fmts"
    "\<forall>b \<in> set blocks. sb_wf b \<and> sb_channel_count b = nat (af_channels (rf_format rf))" "coded E (sample_format (rf_format rf)) bytes xs"
  shows "\<exists>rf' bytes'. fold_result (\<lambda>b rf. bind_result (rf_write_buffer E g gb b rf) (\<lambda>(rf', b'). Inr rf')) blocks rf = Inr rf' \<and>
    raw_appending bytes' rf' \<and> coded E (sample_format (rf_format rf)) bytes' (xs @ concat (map interleaved blocks)) \<and> rf_label rf' = rf_label rf"
  using assms
proof (induction blocks arbitrary: rf bytes xs)
  case (Cons b blocks)
  obtain rf1 bytes1 where 1: "rf_write_buffer E g gb b rf = Inr (rf1, b)" "raw_appending (bytes @ bytes1) rf1"
      "coded E (sample_format (rf_format rf)) bytes1 (interleaved b)" "rf_format rf1 = rf_format rf" "rf_label rf1 = rf_label rf"
    using rf_write_at[OF Cons.prems(1-3), of b E g gb] Cons.prems(4) by auto
  show ?case
    using Cons.IH[OF 1(2), of "xs @ interleaved b"] Cons.prems 1 coded_append[OF Cons.prems(5) 1(3)] by auto
qed auto

lemma open_for_reading:
  assumes "fs (rf_label r) = Some bytes" "layout_ok (rf_format r)" "ap_position (rf_position r) = 0" "0 < n"
  shows "\<exists>r1. rf_open_file fs (r\<lparr>rf_io_mode := Io_read\<rparr>) = Inr r1 \<and> raw_ok (rf_set_buffersize gb n r1) \<and>
    rf_buffersize (rf_set_buffersize gb n r1) = n \<and> ap_position (rf_position (rf_set_buffersize gb n r1)) = 0 \<and>
    rf_format (rf_set_buffersize gb n r1) = rf_format r \<and> cf_bytes (raw_file_of (rf_set_buffersize gb n r1)) = bytes"
proof -
  have f: "frame_size (rf_format r) = int (frame_bytes (rf_format r))" "0 < frame_bytes (rf_format r)"
    using layout_frame_size[OF assms(2)] by simp_all
  define p where "p = set_length_in_samples (int (length bytes) div int (frame_bytes (rf_format r))) (rf_position r)"
  define st where "st = \<lparr>fs_file = Some \<lparr>cf_bytes = bytes, cf_pos = 0, cf_eof = False\<rparr>, fs_mode = ''rb'', fs_name = rf_label r, fs_curpos = 0, fs_last = 0\<rparr>"
  define r1 where "r1 = r\<lparr>rf_io_mode := Io_read, rf_position := p, rf_open := True, rf_stream := Some (set_file_position 0 st)\<rparr>"
  have "rf_open_file fs (r\<lparr>rf_io_mode := Io_read\<rparr>) = Inr r1"
    using assms(1,3) f by (simp add: rf_open_file_def rf_open_stream_def open_file_def c_fopen_def is_file_ready_def
        rf_frame_size_def Let_def r1_def st_def p_def get_file_length_def set_length_in_samples_def)
  moreover have l: "layout_ok (rf_format r1)" using assms(2) by (simp add: r1_def)
  obtain bs where b: "rf_iobuf (rf_set_buffersize gb n r1) = Some bs" "n * int (frame_bytes (rf_format r1)) \<le> int (length bs)"
    "rf_buffersize (rf_set_buffersize gb n r1) = n" "rf_stream (rf_set_buffersize gb n r1) = rf_stream r1"
    "rf_format (rf_set_buffersize gb n r1) = rf_format r1" "rf_label (rf_set_buffersize gb n r1) = rf_label r1"
    "rf_position (rf_set_buffersize gb n r1) = rf_position r1" "rf_open (rf_set_buffersize gb n r1) = rf_open r1"
    using buffer_reserved[OF assms(4) l, of gb] by metis
  have fl: "raw_file_of (rf_set_buffersize gb n r1) = \<lparr>cf_bytes = bytes, cf_pos = 0, cf_eof = False\<rparr>"
    unfolding raw_file_of_def b(4) by (simp add: r1_def st_def set_file_position_def c_fseek_def)
  have "raw_ok (rf_set_buffersize gb n r1)" unfolding raw_ok_def raw_frames_def fl b(1,3-8)
    using b(2) assms(2,3,4)
    by (simp add: r1_def st_def set_file_position_def c_fseek_def at_position_def p_def set_length_in_samples_def zdiv_int)
  ultimately show ?thesis using b fl assms(3) by (simp add: r1_def p_def set_length_in_samples_def)
qed

lemma coded_frames:
  assumes "coded E (sample_format f) bytes xs" "layout_ok f" "length xs = t * nat (af_channels f)"
  shows "length bytes div frame_bytes f = t" "length (frame_list t (nat (af_channels f)) (frame_value E f bytes)) = length xs"
    "j < length xs \<Longrightarrow> \<bar>frame_list t (nat (af_channels f)) (frame_value E f bytes) ! j - clamp_sample (xs ! j)\<bar> \<le> quantum (sample_format f)"
proof -
  have "length bytes = t * frame_bytes f" using assms(1,3) by (simp add: coded_def frame_bytes_def)
  then show "length bytes div frame_bytes f = t" using layout_frame_size[OF assms(2)] by simp
  show "length (frame_list t (nat (af_channels f)) (frame_value E f bytes)) = length xs" using assms(3) by simp
  show "\<bar>frame_list t (nat (af_channels f)) (frame_value E f bytes) ! j - clamp_sample (xs ! j)\<bar> \<le> quantum (sample_format f)"
    if "j < length xs"
    using that assms(1,3) by (simp add: frame_list_nth frame_value_def coded_def)
qed


definition example_raw :: raw_file where
  "example_raw = (raw_file_create False ''take.raw'' example_format)\<lparr>rf_format := audio_format_create False 1 44100 Sfmt_s16_le True example_format\<rparr>"


text \<open>A mono file with five 16-bit frames, open for reading.\<close>

lemma example_child:
  assumes "0 < n"
  shows "\<exists>c. raw_child_ok c \<and> sc_buffersize (raw_stream E g gb) c = n \<and> sc_position (raw_stream E g gb) c = 0 \<and>
    sc_channels (raw_stream E g gb) c = 1 \<and> raw_frames (fst c) = 5"
proof -
  define fs where "fs = [''take.raw'' \<mapsto> replicate 10 (0 :: byte)]"
  have l: "layout_ok (rf_format example_raw)" "frame_bytes (rf_format example_raw) = 2" "af_channels (rf_format example_raw) = 1"
    unfolding example_raw_def by code_simp+
  have "fs (rf_label example_raw) = Some (replicate 10 0)" "ap_position (rf_position example_raw) = 0"
    by (simp_all add: fs_def example_raw_def raw_file_create_def audio_position_create_def)
  from open_for_reading[where fs = fs and r = example_raw, OF this(1) l(1) this(2) assms] obtain r1 where
    "raw_ok (rf_set_buffersize gb n r1)" "rf_buffersize (rf_set_buffersize gb n r1) = n" "ap_position (rf_position (rf_set_buffersize gb n r1)) = 0"
    "rf_format (rf_set_buffersize gb n r1) = rf_format example_raw" "cf_bytes (raw_file_of (rf_set_buffersize gb n r1)) = replicate 10 0" by blast
  then show ?thesis using l
    by (intro exI[of _ "(rf_set_buffersize gb n r1, fs)"]) (simp add: raw_child_ok_def raw_stream_def raw_frames_def)
qed

end
