(* ===== verification/Enable_Facts.thy ===== *)
theory Enable_Facts
  imports Chainsetup_Enable Raw_File_Facts
begin

text \<open>
  What enabling and disabling a chainsetup achieve. The locale \<open>openable\<close> states what the class of the
  audio objects promises: seeking, a new buffer size and a new rate leave an object open or closed,
  and closing closes it.
\<close>

subsection \<open>Operations that may throw\<close>

lemma then_do_None: "then_do r f = Inr (t, None) \<longleftrightarrow> (\<exists>s. r = Inr (s, None) \<and> f s = Inr (t, None))"
  by (cases r) (auto simp: then_do_def split: option.splits)

lemma then_do_Some:
  "then_do r f = Inr (t, Some m) \<longleftrightarrow> r = Inr (t, Some m) \<or> (\<exists>s. r = Inr (s, None) \<and> f s = Inr (t, Some m))"
  by (cases r) (auto simp: then_do_def split: option.splits)

lemma then_do_rel:
  assumes "then_do r f = Inr (t, e)" "reflp R" "transp R"
    and "\<And>s e. r = Inr (s, e) \<Longrightarrow> R s0 s" "\<And>s. r = Inr (s, None) \<Longrightarrow> f s = Inr (t, e) \<Longrightarrow> R s t"
  shows "R s0 t"
proof (cases e)
  case None
  then show ?thesis using assms by (auto simp: then_do_None dest: transpD)
next
  case (Some m)
  then show ?thesis using assms by (auto simp: then_do_Some dest: transpD)
qed

lemma fold_throw_rel:
  assumes "reflp R" "transp R" "\<And>x s s' e. f x s = Inr (s', e) \<Longrightarrow> R s s'" "fold_throw f xs s = Inr (t, e)"
  shows "R s t"
  using assms(4)
proof (induction xs arbitrary: s)
  case Nil
  then show ?case using assms(1) by (simp add: reflpD)
next
  case (Cons x xs)
  show ?case by (rule then_do_rel[OF Cons.prems[simplified] assms(1,2)]) (use assms(3) Cons.IH in auto)
qed

lemma fold_throw_None:
  assumes "reflp R" "transp R" "\<And>x s s'. f x s = Inr (s', None) \<Longrightarrow> R s s'" "fold_throw f xs s = Inr (t, None)"
  shows "R s t"
  using assms(4)
proof (induction xs arbitrary: s)
  case Nil
  then show ?case using assms(1) by (simp add: reflpD)
next
  case (Cons x xs)
  then obtain s1 where "f x s = Inr (s1, None)" "fold_throw f xs s1 = Inr (t, None)" by (auto simp: then_do_None)
  then show ?case using assms(3) Cons.IH transpD[OF assms(2)] by blast
qed

lemma fold_throw_all:
  assumes "reflp R" "transp R" "\<And>x s s'. f x s = Inr (s', None) \<Longrightarrow> R s s'"
    and "\<And>x s s'. f x s = Inr (s', None) \<Longrightarrow> P x s'" "\<And>x s s'. P x s \<Longrightarrow> R s s' \<Longrightarrow> P x s'"
    and "fold_throw f xs s = Inr (t, None)" "x \<in> set xs"
  shows "P x t"
  using assms(6,7)
proof (induction xs arbitrary: s)
  case (Cons y ys)
  then obtain s1 where s1: "f y s = Inr (s1, None)" "fold_throw f ys s1 = Inr (t, None)" by (auto simp: then_do_None)
  show ?case
  proof (cases "x = y")
    case True
    then show ?thesis using assms(4)[OF s1(1)] assms(5) fold_throw_None[OF assms(1,2,3) s1(2)] by auto
  qed (use Cons.IH[OF s1(2)] Cons.prems(2) in auto)
qed simp

lemma fold_result_rel:
  assumes "reflp R" "transp R" "\<And>x s s'. f x s = Inr s' \<Longrightarrow> R s s'" "fold_result f xs s = Inr t"
  shows "R s t"
  using assms(4)
proof (induction xs arbitrary: s)
  case Nil
  then show ?case using assms(1) by (simp add: reflpD)
next
  case (Cons x xs)
  then obtain s1 where "f x s = Inr s1" "fold_result f xs s1 = Inr t" by (auto simp: bind_result_Inr_iff)
  then show ?case using assms(3) Cons.IH transpD[OF assms(2)] by blast
qed

subsection \<open>Connections\<close>

text \<open>What decides whether a chainsetup is valid; enabling and disabling keep it.\<close>

definition links :: "('io, 'o, 'c, 'v) chainsetup \<Rightarrow> nat \<times> nat \<times> (string \<times> int \<times> int) list \<times> string list" where
  "links cs = (length (cs_inputs cs), length (cs_outputs cs),
     map (\<lambda>q. (ch_name q, ch_input q, ch_output q)) (cs_chains cs), cs_selected cs)"

lemma list_all_links:
  "map (\<lambda>q. (ch_name q, ch_input q, ch_output q)) chs = map (\<lambda>q. (ch_name q, ch_input q, ch_output q)) chs' \<Longrightarrow>
     list_all chain_is_valid chs = list_all chain_is_valid chs'"
proof (induction chs arbitrary: chs')
  case (Cons q chs)
  then show ?case by (cases chs') (auto simp: chain_is_valid_def)
qed simp

lemma links_valid: "links cs = links cs' \<Longrightarrow> is_valid_for_connection cs = is_valid_for_connection cs'"
  using list_all_links[of "cs_chains cs" "cs_chains cs'"]
  by (auto simp: links_def is_valid_for_connection_def dest: map_eq_imp_length_eq)

lemma links_update [simp]:
  "links (put_obj a x cs) = links cs" "links (delete_obj a cs) = links cs" "links (cs\<lparr>cs_db_clients := n\<rparr>) = links cs"
  "links (cs\<lparr>cs_enabled := b\<rparr>) = links cs" "links (cs\<lparr>cs_buffersize := k\<rparr>) = links cs" "links (cs\<lparr>cs_double_buffering := b\<rparr>) = links cs"
  "links (cs\<lparr>cs_position := p\<rparr>) = links cs" "links (cs\<lparr>cs_objects := ob\<rparr>) = links cs"
  by (simp_all add: links_def put_obj_def delete_obj_def)

lemma links_bmode [simp]: "links (select_active_buffering_mode iocls cs) = links cs"
  unfolding select_active_buffering_mode_def links_def Let_def by (simp split: if_splits)

lemma direct_steps_links:
  assumes "fold_result (direct_step iocls ds) ns (objs, cs) = Inr (objs', cs')"
  shows "length objs' = length objs \<and> cs_inputs cs' = cs_inputs cs \<and> cs_outputs cs' = cs_outputs cs \<and> links cs' = links cs \<and> cs_enabled cs' = cs_enabled cs"
proof -
  have "(\<lambda>(o1, c1) (o2, c2). length o2 = length o1 \<and> cs_inputs c2 = cs_inputs c1 \<and> cs_outputs c2 = cs_outputs c1 \<and> links c2 = links c1 \<and> cs_enabled c2 = cs_enabled c1)
      (objs, cs) (objs', cs')"
    by (rule fold_result_rel[OF _ _ _ assms])
      (auto simp: reflp_def transp_def direct_step_def bind_result_Inr_iff delete_obj_def split: if_splits)
  then show ?thesis by simp
qed

lemma db_steps_links:
  assumes "fold_result (db_step iocls proxy fresh ds) ns (objs, cs) = Inr (objs', cs')"
  shows "length objs' = length objs \<and> cs_inputs cs' = cs_inputs cs \<and> cs_outputs cs' = cs_outputs cs \<and> links cs' = links cs \<and> cs_enabled cs' = cs_enabled cs"
proof -
  have "(\<lambda>(o1, c1) (o2, c2). length o2 = length o1 \<and> cs_inputs c2 = cs_inputs c1 \<and> cs_outputs c2 = cs_outputs c1 \<and> links c2 = links c1 \<and> cs_enabled c2 = cs_enabled c1)
      (objs, cs) (objs', cs')"
    by (rule fold_result_rel[OF _ _ _ assms])
      (auto simp: reflp_def transp_def db_step_def bind_result_Inr_iff add_audio_object_helper_def put_obj_def split: if_splits)
  then show ?thesis by simp
qed

lemma switch_links:
  "switch_to_direct_mode iocls cs = Inr cs' \<Longrightarrow> links cs' = links cs"
  "switch_to_db_mode iocls proxy fresh cs = Inr cs' \<Longrightarrow> links cs' = links cs"
  unfolding switch_to_direct_mode_def switch_to_db_mode_def
  by (auto simp: bind_result_Inr_iff links_def dest!: direct_steps_links db_steps_links)

lemma buffering_links: "enable_active_buffering_mode iocls proxy fresh cs = Inr cs' \<Longrightarrow> links cs' = links cs"
  unfolding enable_active_buffering_mode_def
  by (auto simp: bind_result_Inr_iff switch_links split: if_splits)

lemma switch_enabled:
  "switch_to_direct_mode iocls cs = Inr cs' \<Longrightarrow> cs_enabled cs' = cs_enabled cs"
  "switch_to_db_mode iocls proxy fresh cs = Inr cs' \<Longrightarrow> cs_enabled cs' = cs_enabled cs"
  unfolding switch_to_direct_mode_def switch_to_db_mode_def
  by (auto simp: bind_result_Inr_iff dest!: direct_steps_links db_steps_links)

lemma buffering_enabled: "enable_active_buffering_mode iocls proxy fresh cs = Inr cs' \<Longrightarrow> cs_enabled cs' = cs_enabled cs"
  unfolding enable_active_buffering_mode_def
  by (auto simp: bind_result_Inr_iff switch_enabled split: if_splits)

lemma enabled_bmode [simp]: "cs_enabled (select_active_buffering_mode iocls cs) = cs_enabled cs"
  unfolding select_active_buffering_mode_def Let_def by (simp split: if_splits)

text \<open>The rest of \<open>enable\<close> leaves the vectors of objects alone too.\<close>

definition rest_kept :: "('io, 'o, 'c, 'v) chainsetup \<Rightarrow> ('io, 'o, 'c, 'v) chainsetup \<Rightarrow> bool" where
  "rest_kept cs cs' \<longleftrightarrow> links cs' = links cs \<and> cs_inputs cs' = cs_inputs cs \<and> cs_outputs cs' = cs_outputs cs \<and>
     cs_enabled cs' = cs_enabled cs"

lemma rest_kept_order: "reflp rest_kept" "transp rest_kept"
  by (auto simp: reflp_def transp_def rest_kept_def)

lemma rest_kept_put [simp]: "rest_kept cs (put_obj a x cs)"
  by (simp add: rest_kept_def) (simp add: put_obj_def)

lemma set_rate_kept: "set_rate_of K rate objs cs = Inr cs' \<Longrightarrow> rest_kept cs cs'"
  unfolding set_rate_of_def by (erule fold_result_rel[OF rest_kept_order, rotated]) (auto simp: bind_result_Inr_iff)

lemma cs_rate_kept: "cs_set_samples_per_second K cls rate cs = Inr cs' \<Longrightarrow> rest_kept cs cs'"
proof -
  assume "cs_set_samples_per_second K cls rate cs = Inr cs'"
  then obtain cs1 cs2 p where 1: "set_rate_of K rate (cs_inputs cs) cs = Inr cs1" "set_rate_of K rate (cs_outputs cs1) cs1 = Inr cs2"
      "cs' = cs2\<lparr>cs_chains := map (chain_set_samples_per_second cls rate) (cs_chains cs2), cs_position := p\<rparr>"
    by (auto simp: cs_set_samples_per_second_def bind_result_Inr_iff)
  have "links cs' = links cs2" by (simp add: 1(3) links_def chain_set_samples_per_second_def comp_def)
  then show "rest_kept cs cs'" using set_rate_kept[OF 1(1)] set_rate_kept[OF 1(2)] by (simp add: rest_kept_def 1(3))
qed

lemma check_rate_kept: "check_object_samplerate K a r cs = Inr (cs', e) \<Longrightarrow> cs' = cs"
  by (auto simp: check_object_samplerate_def bind_result_Inr_iff)

lemma open_helper_kept: "enable_audio_object_helper iocls K a cs = Inr (cs', e) \<Longrightarrow> rest_kept cs cs'"
  unfolding enable_audio_object_helper_def Let_def by (auto simp: bind_result_Inr_iff case_prod_beta split: option.split_asm)

lemma open_object_kept: "open_object iocls K a cs = Inr (cs', e) \<Longrightarrow> rest_kept cs cs'"
  unfolding open_object_def
  by (erule then_do_rel[OF _ rest_kept_order]) (auto simp: open_helper_kept bind_result_Inr_iff intro: reflpD[OF rest_kept_order(1)])

lemma agree_rate_kept: "agree_rate K cls a (f, cs) = Inr ((f', cs'), e) \<Longrightarrow> rest_kept cs cs'"
  by (auto simp: agree_rate_def bind_result_Inr_iff cs_rate_kept check_rate_kept intro: reflpD[OF rest_kept_order(1)] split: if_splits
      dest!: check_rate_kept)

text \<open>The two loops with the rate that was agreed on.\<close>

abbreviation snd_kept :: "int \<times> ('io, 'o, 'c, 'v) chainsetup \<Rightarrow> int \<times> ('io, 'o, 'c, 'v) chainsetup \<Rightarrow> bool" where
  "snd_kept s t \<equiv> rest_kept (snd s) (snd t)"

lemma snd_kept_order: "reflp snd_kept" "transp snd_kept"
  by (auto simp: reflp_def transp_def rest_kept_def)

lemma agree_rate_snd: "agree_rate K cls a s = Inr (t, e) \<Longrightarrow> snd_kept s t"
  using agree_rate_kept[of K cls a "fst s" "snd s" "fst t" "snd t"] by simp

lemma open_output_snd: "open_output iocls K cls a s = Inr (t, e) \<Longrightarrow> snd_kept s t"
proof -
  assume "open_output iocls K cls a s = Inr (t, e)"
  then have "then_do (bind_result (open_object iocls K a (snd s)) (\<lambda>(cs1, e). Inr ((fst s, cs1), e))) (agree_rate K cls a) = Inr (t, e)"
    by (simp add: open_output_def case_prod_beta)
  then show ?thesis
    by (rule then_do_rel[OF _ snd_kept_order]) (auto simp: bind_result_Inr_iff dest: open_object_kept agree_rate_snd)
qed

lemma rate_of_first_kept: "rate_of_first K cls (f, cs) = Inr cs' \<Longrightarrow> rest_kept cs cs'"
  by (auto simp: rate_of_first_def bind_result_Inr_iff cs_rate_kept intro: reflpD[OF rest_kept_order(1)] split: if_splits list.splits)

lemma processing_length_kept:
  "calculate_processing_length iocls cs = Inr cs' \<Longrightarrow> rest_kept cs cs' \<and> cs_objects cs' = cs_objects cs"
  by (auto simp: calculate_processing_length_def bind_result_Inr_iff Let_def rest_kept_def)

text \<open>The steps of \<open>open_objects\<close>.\<close>

lemma open_objects_steps:
  assumes "open_objects iocls K cls proxy fresh bsize cs = Inr (cs', e)"
  obtains cs2 where "links cs2 = links cs" "cs_enabled cs2 = cs_enabled cs" "rest_kept cs2 cs'"
    and "e = None \<Longrightarrow> \<exists>cs3 f4 cs4 f5 cs5 cs6. fold_throw (open_object iocls K) (cs_inputs cs2) cs2 = Inr (cs3, None) \<and>
        fold_throw (agree_rate K cls) (cs_inputs cs3) (0, cs3) = Inr ((f4, cs4), None) \<and>
        fold_throw (open_output iocls K cls) (cs_outputs cs4) (f4, cs4) = Inr ((f5, cs5), None) \<and>
        rate_of_first K cls (f5, cs5) = Inr cs6 \<and> calculate_processing_length iocls cs6 = Inr cs'"
proof -
  define cs1 where "cs1 = select_active_buffering_mode iocls (if bsize \<noteq> -1 then cs\<lparr>cs_buffersize := nat bsize\<rparr> else cs)"
  obtain cs2 where cs2: "enable_active_buffering_mode iocls proxy fresh cs1 = Inr cs2"
    and r: "then_do (fold_throw (open_object iocls K) (cs_inputs cs2) cs2) (\<lambda>cs3.
      bind_result
        (then_do (fold_throw (agree_rate K cls) (cs_inputs cs3) (0, cs3)) (\<lambda>(f, cs4).
           fold_throw (open_output iocls K cls) (cs_outputs cs4) (f, cs4)))
        (\<lambda>((f, cs5), e).
           case e of
             Some msg \<Rightarrow> Inr (cs5, Some msg)
           | None \<Rightarrow> no_throw (bind_result (rate_of_first K cls (f, cs5)) (calculate_processing_length iocls)))) = Inr (cs', e)"
    using assms by (auto simp: open_objects_def Let_def bind_result_Inr_iff cs1_def)
  have en: "cs_enabled cs2 = cs_enabled cs1" using cs2 by (rule buffering_enabled)
  have "cs_enabled cs1 = cs_enabled cs" by (simp add: cs1_def)
  then have l: "links cs2 = links cs" "cs_enabled cs2 = cs_enabled cs"
    using buffering_links[OF cs2] en by (simp_all add: cs1_def split: if_splits)
  let ?rest = "\<lambda>cs3. then_do (fold_throw (agree_rate K cls) (cs_inputs cs3) (0, cs3)) (\<lambda>(f, cs4).
           fold_throw (open_output iocls K cls) (cs_outputs cs4) (f, cs4))"
  have rest: "snd_kept (0, cs3) t" if "?rest cs3 = Inr (t, e0)" for cs3 t e0
  proof (rule then_do_rel[OF that snd_kept_order])
    show "snd_kept (0, cs3) u" if "fold_throw (agree_rate K cls) (cs_inputs cs3) (0, cs3) = Inr (u, e1)" for u e1
      by (rule fold_throw_rel[OF snd_kept_order _ that]) (rule agree_rate_snd)
    show "snd_kept u t" if "(case u of (f, cs4) \<Rightarrow> fold_throw (open_output iocls K cls) (cs_outputs cs4) (f, cs4)) = Inr (t, e0)" for u
      by (rule fold_throw_rel[OF snd_kept_order _ that[unfolded case_prod_beta prod.collapse]]) (rule open_output_snd)
  qed
  have "rest_kept cs2 cs'"
  proof (rule then_do_rel[OF r rest_kept_order])
    show "rest_kept cs2 s" if "fold_throw (open_object iocls K) (cs_inputs cs2) cs2 = Inr (s, e0)" for s e0
      by (rule fold_throw_rel[OF rest_kept_order _ that]) (rule open_object_kept)
  next
    fix s assume "bind_result (?rest s) (\<lambda>((f, cs5), e). case e of Some msg \<Rightarrow> Inr (cs5, Some msg)
           | None \<Rightarrow> no_throw (bind_result (rate_of_first K cls (f, cs5)) (calculate_processing_length iocls))) = Inr (cs', e)"
    then obtain f5 cs5 e0 where s5: "?rest s = Inr ((f5, cs5), e0)"
      and e0: "(case e0 of Some msg \<Rightarrow> Inr (cs5, Some msg)
           | None \<Rightarrow> no_throw (bind_result (rate_of_first K cls (f5, cs5)) (calculate_processing_length iocls))) = Inr (cs', e)"
      by (auto simp: bind_result_Inr_iff)
    have "rest_kept s cs5" using rest[OF s5] by simp
    moreover have "rest_kept cs5 cs'"
      using e0 by (auto simp: no_throw_def bind_result_Inr_iff dest!: rate_of_first_kept processing_length_kept
          intro: reflpD[OF rest_kept_order(1)] transpD[OF rest_kept_order(2)] split: option.splits)
    ultimately show "rest_kept s cs'" by (rule transpD[OF rest_kept_order(2)])
  qed
  then show thesis
  proof (rule that[OF l])
    assume None: "e = None"
    from r obtain cs3 f5 cs5 e0 where s: "fold_throw (open_object iocls K) (cs_inputs cs2) cs2 = Inr (cs3, None)"
        "?rest cs3 = Inr ((f5, cs5), e0)"
        "(case e0 of Some msg \<Rightarrow> Inr (cs5, Some msg)
           | None \<Rightarrow> no_throw (bind_result (rate_of_first K cls (f5, cs5)) (calculate_processing_length iocls))) = Inr (cs', None)"
      unfolding None then_do_None by (auto simp: bind_result_Inr_iff)
    from s(3) have e0: "e0 = None" by (cases e0) auto
    from s(2)[unfolded e0] obtain f4 cs4 where "fold_throw (agree_rate K cls) (cs_inputs cs3) (0, cs3) = Inr ((f4, cs4), None)"
        "fold_throw (open_output iocls K cls) (cs_outputs cs4) (f4, cs4) = Inr ((f5, cs5), None)"
      unfolding then_do_None by auto
    with s(1,3) e0 show "\<exists>cs3 f4 cs4 f5 cs5 cs6. fold_throw (open_object iocls K) (cs_inputs cs2) cs2 = Inr (cs3, None) \<and>
        fold_throw (agree_rate K cls) (cs_inputs cs3) (0, cs3) = Inr ((f4, cs4), None) \<and>
        fold_throw (open_output iocls K cls) (cs_outputs cs4) (f4, cs4) = Inr ((f5, cs5), None) \<and>
        rate_of_first K cls (f5, cs5) = Inr cs6 \<and> calculate_processing_length iocls cs6 = Inr cs'"
      by (auto simp: no_throw_def bind_result_Inr_iff)
  qed
qed

lemma enable_links:
  assumes "cs_enable iocls K cls proxy fresh bsize cs = Inr (cs', e)"
  shows "links cs' = links cs" "cs_enabled cs' \<longleftrightarrow> e = None"
proof -
  have "links cs' = links cs \<and> (cs_enabled cs' \<longleftrightarrow> e = None)"
  proof (cases "cs_enabled cs")
    case True
    then show ?thesis using assms by (auto simp: cs_enable_def then_do_def)
  next
    case False
    then obtain cs1 e1 where 1: "open_objects iocls K cls proxy fresh bsize cs = Inr (cs1, e1)"
        "(case e1 of None \<Rightarrow> (cs1\<lparr>cs_enabled := True\<rparr>, None) | Some msg \<Rightarrow> (cs1, Some msg)) = (cs', e)"
      using assms by (auto simp: cs_enable_def then_do_def bind_result_Inr_iff split: option.splits)
    obtain cs2 where "links cs2 = links cs" "cs_enabled cs2 = cs_enabled cs" "rest_kept cs2 cs1"
      using open_objects_steps[OF 1(1)] by metis
    then show ?thesis using 1(2) False by (auto simp: rest_kept_def split: option.splits)
  qed
  then show "links cs' = links cs" "cs_enabled cs' \<longleftrightarrow> e = None" by simp_all
qed

subsection \<open>Open objects\<close>

definition is_open_at :: "'io open_class \<Rightarrow> ('io, 'o, 'c, 'v) chainsetup \<Rightarrow> nat \<Rightarrow> bool" where
  "is_open_at K cs a = (case cs_objects cs a of None \<Rightarrow> False | Some x \<Rightarrow> oc_is_open K x)"

definition open_kept :: "'io open_class \<Rightarrow> ('io, 'o, 'c, 'v) chainsetup \<Rightarrow> ('io, 'o, 'c, 'v) chainsetup \<Rightarrow> bool" where
  "open_kept K cs cs' \<longleftrightarrow> (\<forall>a. is_open_at K cs a \<longrightarrow> is_open_at K cs' a)"

definition closed_kept :: "'io open_class \<Rightarrow> ('io, 'o, 'c, 'v) chainsetup \<Rightarrow> ('io, 'o, 'c, 'v) chainsetup \<Rightarrow> bool" where
  "closed_kept K cs cs' \<longleftrightarrow> (\<forall>a. \<not> is_open_at K cs a \<longrightarrow> \<not> is_open_at K cs' a)"

lemma open_kept_order: "reflp (open_kept K)" "transp (open_kept K)" "reflp (closed_kept K)" "transp (closed_kept K)"
  by (auto simp: reflp_def transp_def open_kept_def closed_kept_def)

lemma is_open_at_simps [simp]:
  "is_open_at K (put_obj a x cs) b = (if b = a then oc_is_open K x else is_open_at K cs b)"
  "is_open_at K (cs\<lparr>cs_enabled := e\<rparr>) b = is_open_at K cs b" "is_open_at K (cs\<lparr>cs_position := p\<rparr>) b = is_open_at K cs b"
  "is_open_at K (cs\<lparr>cs_chains := chs\<rparr>) b = is_open_at K cs b"
  by (simp_all add: is_open_at_def put_obj_def)

lemma is_open_at_get: "get_obj a cs = Inr x \<Longrightarrow> is_open_at K cs a = oc_is_open K x"
  by (auto simp: get_obj_def is_open_at_def split: option.splits)

lemma fold_result_all:
  assumes "reflp R" "transp R" "\<And>x s s'. f x s = Inr s' \<Longrightarrow> R s s'" "\<And>x s s'. f x s = Inr s' \<Longrightarrow> P x s'"
    and "\<And>x s s'. P x s \<Longrightarrow> R s s' \<Longrightarrow> P x s'" "fold_result f xs s = Inr t" "x \<in> set xs"
  shows "P x t"
  using assms(6,7)
proof (induction xs arbitrary: s)
  case (Cons y ys)
  then obtain s1 where s1: "f y s = Inr s1" "fold_result f ys s1 = Inr t" by (auto simp: bind_result_Inr_iff)
  show ?case
  proof (cases "x = y")
    case True
    then show ?thesis using assms(4)[OF s1(1)] assms(5) fold_result_rel[OF assms(1,2,3) s1(2)] by auto
  qed (use Cons.IH[OF s1(2)] Cons.prems(2) in auto)
qed simp

locale openable =
  fixes iocls :: "('io, 's) io_class" and K :: "'io open_class"
  assumes seek_open [simp]: "oc_is_open K (io_seek iocls p x) = oc_is_open K x"
    and buffersize_open [simp]: "oc_is_open K (io_set_buffersize iocls n x) = oc_is_open K x"
    and max_buffers_open [simp]: "oc_is_open K (oc_toggle_max_buffers K b x) = oc_is_open K x"
    and rate_open: "oc_set_srate K r x = Inr x' \<Longrightarrow> oc_is_open K x' = oc_is_open K x"
    and closed [simp]: "\<not> oc_is_open K (oc_close K x)"
begin

lemma set_rate_open: "set_rate_of K rate objs cs = Inr cs' \<Longrightarrow> open_kept K cs cs'"
  unfolding set_rate_of_def
  by (erule fold_result_rel[OF open_kept_order(1,2), rotated])
    (auto simp: bind_result_Inr_iff open_kept_def rate_open is_open_at_get)

lemma cs_rate_open: "cs_set_samples_per_second K cls rate cs = Inr cs' \<Longrightarrow> open_kept K cs cs'"
proof -
  assume "cs_set_samples_per_second K cls rate cs = Inr cs'"
  then obtain cs1 cs2 p where 1: "set_rate_of K rate (cs_inputs cs) cs = Inr cs1" "set_rate_of K rate (cs_outputs cs1) cs1 = Inr cs2"
      "cs' = cs2\<lparr>cs_chains := map (chain_set_samples_per_second cls rate) (cs_chains cs2), cs_position := p\<rparr>"
    by (auto simp: cs_set_samples_per_second_def bind_result_Inr_iff)
  then show ?thesis using set_rate_open[OF 1(1)] set_rate_open[OF 1(2)] by (auto simp: open_kept_def)
qed

lemma helper_open: "enable_audio_object_helper iocls K a cs = Inr (cs', None) \<Longrightarrow> open_kept K cs cs'"
  unfolding enable_audio_object_helper_def Let_def
  by (auto simp: bind_result_Inr_iff case_prod_beta open_kept_def is_open_at_get split: option.split_asm if_split_asm)

lemma open_object_open: "open_object iocls K a cs = Inr (cs', None) \<Longrightarrow> open_kept K cs cs' \<and> is_open_at K cs' a"
  unfolding open_object_def
  by (auto simp: then_do_None bind_result_Inr_iff is_open_at_get helper_open split: if_split_asm)

lemma agree_rate_open: "agree_rate K cls a s = Inr (t, None) \<Longrightarrow> open_kept K (snd s) (snd t)"
  using open_kept_order(1)[of K]
  by (auto simp: agree_rate_def bind_result_Inr_iff case_prod_beta reflp_def dest: cs_rate_open check_rate_kept split: if_split_asm)

lemma open_output_open:
  "open_output iocls K cls a s = Inr (t, None) \<Longrightarrow> open_kept K (snd s) (snd t) \<and> is_open_at K (snd t) a"
  unfolding open_output_def case_prod_beta then_do_None
  by (fastforce simp: bind_result_Inr_iff open_kept_def dest: open_object_open agree_rate_open)

lemma rate_of_first_open: "rate_of_first K cls (f, cs) = Inr cs' \<Longrightarrow> open_kept K cs cs'"
  using open_kept_order(1)[of K]
  by (auto simp: rate_of_first_def bind_result_Inr_iff reflp_def cs_rate_open split: if_splits list.splits)

abbreviation (input) okept :: "int \<times> ('io, 'o, 'c, 'v) chainsetup \<Rightarrow> int \<times> ('io, 'o, 'c, 'v) chainsetup \<Rightarrow> bool" where
  "okept s t \<equiv> open_kept K (snd s) (snd t) \<and> snd_kept s t"

lemma okept_order: "reflp okept" "transp okept"
  by (auto simp: reflp_def transp_def open_kept_def rest_kept_def)

lemma enable_opens:
  assumes "cs_enable iocls K cls proxy fresh bsize cs = Inr (cs', None)" "\<not> cs_enabled cs"
    and "a \<in> set (cs_inputs cs') \<union> set (cs_outputs cs')"
  shows "is_open_at K cs' a"
proof -
  obtain cs1 where cs1: "open_objects iocls K cls proxy fresh bsize cs = Inr (cs1, None)" "cs' = cs1\<lparr>cs_enabled := True\<rparr>"
    using assms(1,2) by (auto simp: cs_enable_def then_do_None)
  obtain cs2 where k: "rest_kept cs2 cs1"
    and ex: "\<exists>cs3 f4 cs4 f5 cs5 cs6. fold_throw (open_object iocls K) (cs_inputs cs2) cs2 = Inr (cs3, None) \<and>
        fold_throw (agree_rate K cls) (cs_inputs cs3) (0, cs3) = Inr ((f4, cs4), None) \<and>
        fold_throw (open_output iocls K cls) (cs_outputs cs4) (f4, cs4) = Inr ((f5, cs5), None) \<and>
        rate_of_first K cls (f5, cs5) = Inr cs6 \<and> calculate_processing_length iocls cs6 = Inr cs1"
    by (rule open_objects_steps[OF cs1(1)]) simp
  then obtain cs3 f4 cs4 f5 cs5 cs6 where s: "fold_throw (open_object iocls K) (cs_inputs cs2) cs2 = Inr (cs3, None)"
      "fold_throw (agree_rate K cls) (cs_inputs cs3) (0, cs3) = Inr ((f4, cs4), None)"
      "fold_throw (open_output iocls K cls) (cs_outputs cs4) (f4, cs4) = Inr ((f5, cs5), None)"
      "rate_of_first K cls (f5, cs5) = Inr cs6" "calculate_processing_length iocls cs6 = Inr cs1"
    by blast
  have ins: "is_open_at K cs3 b" if "b \<in> set (cs_inputs cs2)" for b
    by (rule fold_throw_all[OF open_kept_order(1,2) _ _ _ s(1) that]) (auto simp: open_kept_def dest: open_object_open)
  have 3: "okept (0, cs3) (f4, cs4)"
    by (rule fold_throw_None[OF okept_order _ s(2)]) (auto dest: agree_rate_open agree_rate_snd)
  have 4: "okept (f4, cs4) (f5, cs5)"
    by (rule fold_throw_None[OF okept_order _ s(3)]) (auto dest: open_output_open open_output_snd)
  have outs: "is_open_at K (snd (f5, cs5)) b" if "b \<in> set (cs_outputs cs4)" for b
    by (rule fold_throw_all[OF okept_order _ _ _ s(3) that, where P = "\<lambda>b s. is_open_at K (snd s) b"])
      (auto simp: open_kept_def dest: open_output_open open_output_snd)
  have 2: "rest_kept cs2 cs3" by (rule fold_throw_rel[OF rest_kept_order _ s(1)]) (rule open_object_kept)
  have 6: "open_kept K cs5 cs6" "cs_objects cs1 = cs_objects cs6"
    using rate_of_first_open[OF s(4)] processing_length_kept[OF s(5)] by simp_all
  have "is_open_at K cs1 b" if "is_open_at K cs5 b" for b
    using that 6 by (auto simp: open_kept_def is_open_at_def)
  moreover have "a \<in> set (cs_inputs cs2) \<or> a \<in> set (cs_outputs cs4)"
    using assms(3) k 2 3 by (auto simp: cs1(2) rest_kept_def)
  ultimately show ?thesis using ins outs 3 4 by (auto simp: cs1(2) open_kept_def)
qed

lemma close_step: "close_object K a cs = Inr cs' \<Longrightarrow> closed_kept K cs cs' \<and> \<not> is_open_at K cs' a"
proof -
  assume "close_object K a cs = Inr cs'"
  then obtain x where x: "cs' = put_obj a (if oc_is_open K x then oc_close K x else x) cs"
    by (auto simp: close_object_def update_obj_def bind_result_Inr_iff)
  define y where "y = (if oc_is_open K x then oc_close K x else x)"
  have "\<not> oc_is_open K y" by (simp add: y_def)
  then show ?thesis by (auto simp: x closed_kept_def simp flip: y_def)
qed

lemma close_frame: "close_object K a cs = Inr cs' \<Longrightarrow> rest_kept cs cs'"
  by (auto simp: close_object_def update_obj_def bind_result_Inr_iff)

lemma disable_closes:
  assumes "cs_disable iocls K cs = Inr cs'" "cs_enabled cs" "a \<in> set (cs_inputs cs') \<union> set (cs_outputs cs')"
  shows "\<not> is_open_at K cs' a"
proof -
  obtain cs1 cs2 cs3 where s: "calculate_processing_length iocls cs = Inr cs1" "fold_result (close_object K) (cs_inputs cs1) cs1 = Inr cs2"
      "fold_result (close_object K) (cs_outputs cs2) cs2 = Inr cs3" "cs' = cs3\<lparr>cs_enabled := False\<rparr>"
  proof -
    obtain cs1 where 1: "calculate_processing_length iocls cs = Inr cs1"
      using assms(1) by (auto simp: cs_disable_def bind_result_Inr_iff)
    then have "cs_enabled cs1" using processing_length_kept[OF 1] assms(2) by (simp add: rest_kept_def)
    with assms(1) 1 that[OF 1] show thesis by (auto simp: cs_disable_def bind_result_Inr_iff)
  qed
  have r: "rest_kept cs1 cs2" "rest_kept cs2 cs3"
    by (rule fold_result_rel[OF rest_kept_order _ s(2)], erule close_frame)
      (rule fold_result_rel[OF rest_kept_order _ s(3)], erule close_frame)
  have c: "closed_kept K cs2 cs3" by (rule fold_result_rel[OF open_kept_order(3,4) _ s(3)]) (simp add: close_step)
  have "\<not> is_open_at K cs2 b" if "b \<in> set (cs_inputs cs1)" for b
    by (rule fold_result_all[OF open_kept_order(3,4) _ _ _ s(2) that]) (auto simp: closed_kept_def dest: close_step)
  moreover have "\<not> is_open_at K cs3 b" if "b \<in> set (cs_outputs cs2)" for b
    by (rule fold_result_all[OF open_kept_order(3,4) _ _ _ s(3) that]) (auto simp: closed_kept_def dest: close_step)
  ultimately show ?thesis using assms(3) r c by (auto simp: s(4) rest_kept_def closed_kept_def)
qed

end

subsection \<open>Raw files can be opened\<close>

interpretation raw_files: openable "stream_io (raw_stream E g gb)" "stream_open (raw_stream E g gb)" for E g gb
  by unfold_locales
    (auto simp: stream_io_def stream_open_def raw_stream_def rf_seek_def rf_seek_position_def rf_set_buffersize_def reserve_buffer_space_def
      rf_set_samples_per_second_def rf_close_def bind_result_Inr_iff Let_def split: if_splits prod.splits)

text \<open>
  A chainsetup with two raw files as inputs of the chain \<open>c\<close>.
\<close>

definition two_inputs :: "file_system \<Rightarrow> (raw_file \<times> file_system, unit, unit, unit) chainsetup" where
  "two_inputs fs =
     \<lparr>cs_objects = [0 \<mapsto> (example_raw\<lparr>rf_io_mode := Io_read\<rparr>, fs), 1 \<mapsto> (example_raw\<lparr>rf_io_mode := Io_read, rf_label := ''more.raw''\<rparr>, fs)],
      cs_inputs = [0, 1], cs_inputs_direct = [0, 1], cs_outputs = [], cs_outputs_direct = [],
      cs_loop_map = Map.empty, cs_chains = [(chain_create 0 0 44100)\<lparr>ch_name := ''c'', ch_input := 0\<rparr>], cs_selected = [''c''],
      cs_position = chainsetup_position_create 44100 0, cs_buffersize = 4, cs_mix_avg = False, cs_locked = False, cs_enabled = False,
      cs_db_clients = 0, cs_double_buffering = False, cs_max_buffers = False, cs_raised_priority = False, cs_rtcaps = False,
      cs_multitrack = False, cs_multitrack_override = False, cs_multitrack_offset = 0, cs_bmode = Bmode_nonrt,
      cs_bmode_active = Bmode_nonrt\<rparr>"

definition plain_operators :: "(unit, unit, rat) op_class" where
  "plain_operators = \<lparr>op_number_of_params = (\<lambda>_. 0), op_get_parameter = (\<lambda>_ _. ()), op_set_parameter = (\<lambda>_ _ _. ()),
     op_output_channels = (\<lambda>n _. n), op_init = (\<lambda>_ _. ()), op_process = (\<lambda>b _. Inr ((), b)), op_release = (\<lambda>_. ()),
     op_set_srate = (\<lambda>_ _. ())\<rparr>"

definition small_files :: file_system where
  "small_files = [''take.raw'' \<mapsto> replicate 10 0]"


subsection \<open>What enabling achieves\<close>

text \<open>
  C33. When \<open>enable\<close> returns for a chainsetup that was not enabled, all its inputs and outputs are open and
  its connections are those from before; when \<open>disable\<close> then returns, all of them are closed.
\<close>

theorem enabling_opens_everything:
  assumes "openable iocls K" "cs_enable iocls K cls proxy fresh bsize cs = Inr (cs1, None)" "\<not> cs_enabled cs"
  shows "cs_enabled cs1 \<and> links cs1 = links cs \<and> (\<forall>a \<in> set (cs_inputs cs1) \<union> set (cs_outputs cs1). is_open_at K cs1 a) \<and>
    (\<forall>cs2. cs_disable iocls K cs1 = Inr cs2 \<longrightarrow>
      \<not> cs_enabled cs2 \<and> (\<forall>a \<in> set (cs_inputs cs2) \<union> set (cs_outputs cs2). \<not> is_open_at K cs2 a))"
proof (intro conjI ballI allI impI)
  show en: "cs_enabled cs1" and "links cs1 = links cs" using enable_links[OF assms(2)] by simp_all
  show "is_open_at K cs1 a" if "a \<in> set (cs_inputs cs1) \<union> set (cs_outputs cs1)" for a
    by (rule openable.enable_opens[OF assms that])
  show "\<not> is_open_at K cs2 a" if "cs_disable iocls K cs1 = Inr cs2" "a \<in> set (cs_inputs cs2) \<union> set (cs_outputs cs2)" for cs2 a
    by (rule openable.disable_closes[OF assms(1) that(1) en that(2)])
  show "\<not> cs_enabled cs2" if "cs_disable iocls K cs1 = Inr cs2" for cs2
    using that by (auto simp: cs_disable_def bind_result_Inr_iff split: if_splits)
qed


definition enable_two :: "file_system \<Rightarrow> (raw_file \<times> file_system, unit, unit, unit) chainsetup throwing" where
  "enable_two fs =
     cs_enable (stream_io (raw_stream little_env (\<lambda>_ _. 0) (\<lambda>_. 0))) (stream_open (raw_stream little_env (\<lambda>_ _. 0) (\<lambda>_. 0)))
       plain_operators (\<lambda>_. (example_raw, fs)) (\<lambda>n. n + 10) (-1) (two_inputs fs)"

definition disable_two :: "(raw_file \<times> file_system, unit, unit, unit) chainsetup \<Rightarrow> (raw_file \<times> file_system, unit, unit, unit) chainsetup result" where
  "disable_two cs =
     cs_disable (stream_io (raw_stream little_env (\<lambda>_ _. 0) (\<lambda>_. 0))) (stream_open (raw_stream little_env (\<lambda>_ _. 0) (\<lambda>_. 0))) cs"

definition two_files :: file_system where
  "two_files = small_files(''more.raw'' \<mapsto> replicate 6 0)"

text \<open>What enabling and disabling these files gives: which exception is thrown, and which files are open then.\<close>

fun outcome :: "(raw_file \<times> file_system, unit, unit, unit) chainsetup throwing \<Rightarrow> (bool \<times> nat list \<times> bool) option" where
  "outcome (Inl f) = None"
| "outcome (Inr (cs, e)) =
     Some (e = None, filter (is_open_at (stream_open (raw_stream little_env (\<lambda>_ _. 0) (\<lambda>_. 0))) cs) [0, 1],
       (case disable_two cs of Inl f \<Rightarrow> False | Inr _ \<Rightarrow> True))"

lemma outcome_two:
  "outcome (enable_two two_files) = Some (True, [0, 1], True)" "outcome (enable_two small_files) = Some (False, [0], True)"
  by code_simp+

lemma enable_outcome_Some: "outcome r = Some (ok, opened, True) \<Longrightarrow> \<exists>cs e cs2. r = Inr (cs, e) \<and> ok = (e = None) \<and>
    opened = filter (is_open_at (stream_open (raw_stream little_env (\<lambda>_ _. 0) (\<lambda>_. 0))) cs) [0, 1] \<and> disable_two cs = Inr cs2"
  by (cases r rule: outcome.cases) (auto split: sum.splits)

lemma enabling_opens_everything_witness:
  "\<exists>cs1 cs2. enable_two two_files = Inr (cs1, None) \<and> disable_two cs1 = Inr cs2 \<and> cs_enabled cs1 \<and> \<not> cs_enabled cs2"
proof -
  obtain cs1 cs2 where r: "enable_two two_files = Inr (cs1, None)" "disable_two cs1 = Inr cs2"
    using enable_outcome_Some[OF outcome_two(1)] by auto
  then show ?thesis
    using enabling_opens_everything[OF raw_files.openable_axioms r(1)[unfolded enable_two_def]]
    by (auto simp: disable_two_def two_inputs_def)
qed


end
