(* ===== verification/Engine.thy ===== *)
theory Engine
  imports Chainsetup Kvu_Queues
begin

text \<open>
  The engine of \<open>libecasound/eca-engine.cpp\<close>: its state, transport control, position handling, signal
  routing, command queue and the default driver. The engine owns one buffer per chain
  (\<open>cslots\<close>) and one for mixing (\<open>mixslot\<close>), and works on the chainsetup it is connected to.

  Left out: thread scheduling, the double-buffering and MIDI servers (the former are modelled in
  \<open>Db_Server\<close>), profiling and the condition variables that other threads wait on. The narrowing of
  a position to \<open>int\<close> in \<open>prehandle_control_position\<close> is not modelled.
\<close>

subsection \<open>State\<close>

text \<open>
  The environment of an engine: the classes of the objects it calls, and the C++ values that are not
  determined by the program: uninitialised samples, uninitialised event tags, and whether
  libsamplerate is used.
\<close>

record ('io, 'o, 'c, 'v, 's) engine_env =
  ee_ops :: "('o, 'v, 's) op_class"
  ee_sources :: "('c, 'v) source_class"
  ee_io :: "('io, 's) io_class"
  ee_garbage :: "nat \<Rightarrow> nat \<Rightarrow> 's"
  ee_cast :: "int \<Rightarrow> 's"
  ee_samplerate :: bool
  ee_tags :: "32 word"

datatype 'v engine_command =
    Ep_prepare | Ep_start | Ep_stop | Ep_stop_with_drain | Ep_debug | Ep_exit
  | Ep_exec_edit "'v edit" bool
  | Ep_rewind rat | Ep_forward rat | Ep_setpos rat | Ep_setpos_samples rat | Ep_setpos_live_samples rat

datatype engine_status = Status_running | Status_stopped | Status_finished | Status_error | Status_notready

record ('io, 'o, 'c, 'v, 's) engine =
  en_cs :: "('io, 'o, 'c, 'v) chainsetup"
  en_attached :: bool
  en_batchmode :: bool
  en_prepared :: bool
  en_running :: bool
  en_was_running :: bool
  en_finished :: bool
  en_outputs_finished :: int
  en_driver_errors :: int
  en_inputs_not_finished :: int
  en_prefill_threshold :: int
  en_preroll_samples :: int
  en_recording_offset :: int
  en_mixslot :: "'s sample_buffer"
  en_cslots :: "'s sample_buffer list"
  en_realtime_inputs :: "nat list"
  en_realtime_outputs :: "nat list"
  en_realtime_objects :: "nat list"
  en_non_realtime_inputs :: "nat list"
  en_non_realtime_outputs :: "nat list"
  en_input_chain_count :: "nat list"
  en_output_chain_count :: "nat list"
  en_queue :: "'v engine_command message_queue"
  en_exit_request :: bool

definition en_buffersize :: "('io, 'o, 'c, 'v, 's) engine \<Rightarrow> int" where
  "en_buffersize e = int (cs_buffersize (en_cs e))"

definition en_status :: "('io, 'o, 'c, 'v, 's) engine \<Rightarrow> engine_status" where
  "en_status e =
     (if \<not> en_attached e then Status_notready
      else if en_finished e then Status_finished
      else if en_outputs_finished e > 0 \<or> en_driver_errors e > 0 then Status_error
      else if en_running e then Status_running
      else Status_stopped)"

definition en_command :: "'v engine_command \<Rightarrow> ('io, 'o, 'c, 'v, 's) engine \<Rightarrow> ('io, 'o, 'c, 'v, 's) engine" where
  "en_command c e = e\<lparr>en_queue := mq_push_back c (en_queue e)\<rparr>"

definition en_is_valid :: "('io, 'o, 'c, 'v, 's) engine \<Rightarrow> bool" where
  "en_is_valid e \<longleftrightarrow> en_attached e \<and> cs_enabled (en_cs e) \<and> is_valid_for_connection (en_cs e)"

definition is_finite_length :: "('io, 's) io_class \<Rightarrow> ('io, 'o, 'c, 'v, 's) engine \<Rightarrow> bool" where
  "is_finite_length iocls e \<longleftrightarrow>
     cp_max_length_set (cs_position (en_cs e)) \<or> number_of_realtime_inputs iocls (en_cs e) = 0"

text \<open>A call on an audio object, on all objects of a list, and on a chain with its buffer.\<close>

definition on_object ::
  "('io \<Rightarrow> 'io result) \<Rightarrow> nat \<Rightarrow> ('io, 'o, 'c, 'v, 's) engine \<Rightarrow> ('io, 'o, 'c, 'v, 's) engine result" where
  "on_object f a e = bind_result (get_obj a (en_cs e)) (\<lambda>x. bind_result (f x) (\<lambda>x'.
     Inr (e\<lparr>en_cs := put_obj a x' (en_cs e)\<rparr>)))"

definition on_objects ::
  "('io \<Rightarrow> 'io) \<Rightarrow> nat list \<Rightarrow> ('io, 'o, 'c, 'v, 's) engine \<Rightarrow> ('io, 'o, 'c, 'v, 's) engine result" where
  "on_objects f as e = fold_result (on_object (\<lambda>x. Inr (f x))) as e"

definition on_chain ::
  "(('o, 'c, 'v) chain \<Rightarrow> 's sample_buffer \<Rightarrow> (('o, 'c, 'v) chain \<times> 's sample_buffer) result) \<Rightarrow> nat \<Rightarrow>
     ('io, 'o, 'c, 'v, 's) engine \<Rightarrow> ('io, 'o, 'c, 'v, 's) engine result" where
  "on_chain f i e =
     (if i < length (cs_chains (en_cs e)) \<and> i < length (en_cslots e)
      then bind_result (f (cs_chains (en_cs e) ! i) (en_cslots e ! i)) (\<lambda>(ch, slot).
        Inr (e\<lparr>en_cs := (en_cs e)\<lparr>cs_chains := (cs_chains (en_cs e))[i := ch]\<rparr>,
               en_cslots := (en_cslots e)[i := slot]\<rparr>))
      else Inl Undefined_behaviour)"

subsection \<open>Transport control\<close>

definition init_engine_state :: "('io, 'o, 'c, 'v, 's) engine \<Rightarrow> ('io, 'o, 'c, 'v, 's) engine" where
  "init_engine_state e =
     e\<lparr>en_finished := False, en_inputs_not_finished := 1, en_outputs_finished := 0,
       en_mixslot := event_tag_set tag_end_of_stream False (en_mixslot e),
       en_cslots := map (event_tag_set tag_end_of_stream False) (en_cslots e)\<rparr>"

definition reinit_chains ::
  "('io, 'o, 'c, 'v::{minus,divide}, 's::zero) engine_env \<Rightarrow> bool \<Rightarrow> ('io, 'o, 'c, 'v, 's) engine \<Rightarrow>
     ('io, 'o, 'c, 'v, 's) engine result" where
  "reinit_chains E force e =
     fold_result (\<lambda>i e. if force \<or> \<not> ch_initialized (cs_chains (en_cs e) ! i)
         then on_chain (chain_init (ee_ops E) (ee_sources E) (ee_garbage E) 0 0) i e else Inr e)
       [0..<length (cs_chains (en_cs e))] e"

text \<open>Prefilling one realtime output with \<open>prefill_threshold\<close> blocks of silence.\<close>

definition prefill_output ::
  "('io, 's) io_class \<Rightarrow> nat \<Rightarrow> ('io, 'o, 'c, 'v, 's) engine \<Rightarrow> ('io, 'o, 'c, 'v, 's) engine result" where
  "prefill_output iocls a e =
     bind_result (get_obj a (en_cs e)) (\<lambda>x.
       if io_prefill_space iocls x > 0
       then let e1 = (if io_prefill_space iocls x < en_prefill_threshold e * en_buffersize e
                      then e\<lparr>en_prefill_threshold := io_prefill_space iocls x div en_buffersize e\<rparr> else e)
            in fold_result (\<lambda>_. on_object (io_write_buffer iocls (en_mixslot e1)) a)
                 [0..<nat (en_prefill_threshold e1)] e1
       else Inr e)"

definition prepare_realtime_objects ::
  "('io, 's::zero) io_class \<Rightarrow> ('io, 'o, 'c, 'v, 's) engine \<Rightarrow> ('io, 'o, 'c, 'v, 's) engine result" where
  "prepare_realtime_objects iocls e =
     bind_result (on_objects (io_prepare iocls) (en_realtime_objects e) e) (\<lambda>e1.
     bind_result (make_silent (en_mixslot e1)) (\<lambda>slot.
       fold_result (prefill_output iocls) (en_realtime_outputs e1) (e1\<lparr>en_mixslot := slot\<rparr>)))"

definition toggle_locked_state :: "bool \<Rightarrow> ('io, 'o, 'c, 'v, 's) engine \<Rightarrow> ('io, 'o, 'c, 'v, 's) engine" where
  "toggle_locked_state v e = e\<lparr>en_cs := (en_cs e)\<lparr>cs_locked := v\<rparr>\<rparr>"

definition set_rt_locks :: "bool \<Rightarrow> ('io, 'o, 'c, 'v, 's) engine \<Rightarrow> ('io, 'o, 'c, 'v, 's) engine" where
  "set_rt_locks v e =
     e\<lparr>en_cslots := map (set_rt_lock v) (en_cslots e), en_mixslot := set_rt_lock v (en_mixslot e)\<rparr>"

definition toggle_forked_objects ::
  "('io, 's) io_class \<Rightarrow> bool \<Rightarrow> ('io, 'o, 'c, 'v, 's) engine \<Rightarrow> ('io, 'o, 'c, 'v, 's) engine result" where
  "toggle_forked_objects iocls start e =
     (let f = (if start then io_start_forked iocls else io_stop_forked iocls) in
      bind_result (on_objects f (cs_inputs (en_cs e)) e) (\<lambda>e1. on_objects f (cs_outputs (en_cs e1)) e1))"

definition prepare_operation ::
  "('io, 'o, 'c, 'v::{minus,divide}, 's::zero) engine_env \<Rightarrow> ('io, 'o, 'c, 'v, 's) engine \<Rightarrow>
     ('io, 'o, 'c, 'v, 's) engine result" where
  "prepare_operation E e =
     bind_result (reinit_chains E True (set_rt_locks True (toggle_locked_state True e))) (\<lambda>e1.
     bind_result (toggle_forked_objects (ee_io E) True e1) (\<lambda>e2.
     bind_result (prepare_realtime_objects (ee_io E) e2) (\<lambda>e3.
       Inr (init_engine_state (e3\<lparr>en_preroll_samples := en_buffersize e3, en_prepared := True\<rparr>)))))"

definition start_operation ::
  "('io, 's) io_class \<Rightarrow> ('io, 'o, 'c, 'v, 's) engine \<Rightarrow> ('io, 'o, 'c, 'v, 's) engine result" where
  "start_operation iocls e =
     bind_result (on_objects (io_start iocls) (en_realtime_objects e) e) (\<lambda>e1. Inr (e1\<lparr>en_running := True\<rparr>))"

definition signal_stop :: "('io, 'o, 'c, 'v, 's) engine \<Rightarrow> ('io, 'o, 'c, 'v, 's) engine" where
  "signal_stop e = e\<lparr>en_running := False\<rparr>"

definition stop_operation ::
  "('io, 's) io_class \<Rightarrow> bool \<Rightarrow> ('io, 'o, 'c, 'v, 's) engine \<Rightarrow> ('io, 'o, 'c, 'v, 's) engine result" where
  "stop_operation iocls drain e =
     bind_result (on_objects (\<lambda>x. if io_is_running iocls x then io_stop iocls drain x else x) (en_realtime_objects e) e) (\<lambda>e1.
     bind_result (toggle_forked_objects iocls False (set_rt_locks False (e1\<lparr>en_prepared := False\<rparr>))) (\<lambda>e2.
       Inr (signal_stop (toggle_locked_state False e2))))"

text \<open>The default driver's \<open>start\<close>, \<open>stop\<close> and \<open>exit\<close>, and the requests of the engine.\<close>

definition driver_start ::
  "('io, 'o, 'c, 'v::{minus,divide}, 's::zero) engine_env \<Rightarrow> ('io, 'o, 'c, 'v, 's) engine \<Rightarrow>
     ('io, 'o, 'c, 'v, 's) engine result" where
  "driver_start E e =
     bind_result (if \<not> en_prepared e then prepare_operation E e else Inr e) (start_operation (ee_io E))"

definition driver_stop ::
  "('io, 's) io_class \<Rightarrow> bool \<Rightarrow> ('io, 'o, 'c, 'v, 's) engine \<Rightarrow> ('io, 'o, 'c, 'v, 's) engine result" where
  "driver_stop iocls drain e = (if en_prepared e then stop_operation iocls drain e else Inr e)"

definition driver_exit ::
  "('io, 's) io_class \<Rightarrow> ('io, 'o, 'c, 'v, 's) engine \<Rightarrow> ('io, 'o, 'c, 'v, 's) engine result" where
  "driver_exit iocls e =
     bind_result (if en_prepared e then stop_operation iocls False e else Inr e) (\<lambda>e1. Inr (e1\<lparr>en_exit_request := True\<rparr>))"

definition conditional_start ::
  "('io, 'o, 'c, 'v::{minus,divide}, 's::zero) engine_env \<Rightarrow> ('io, 'o, 'c, 'v, 's) engine \<Rightarrow>
     ('io, 'o, 'c, 'v, 's) engine result" where
  "conditional_start E e = (if en_was_running e then driver_start E e else Inr e)"

definition conditional_stop ::
  "('io, 's) io_class \<Rightarrow> ('io, 'o, 'c, 'v, 's) engine \<Rightarrow> ('io, 'o, 'c, 'v, 's) engine result" where
  "conditional_stop iocls e =
     (if en_status e = Status_running
      then driver_stop iocls False (e\<lparr>en_was_running := True\<rparr>) else Inr (e\<lparr>en_was_running := False\<rparr>))"

subsection \<open>Position\<close>

definition en_seek ::
  "('io, 's) io_class \<Rightarrow> int \<Rightarrow> ('io, 'o, 'c, 'v, 's) engine \<Rightarrow> ('io, 'o, 'c, 'v, 's) engine result" where
  "en_seek iocls pos e =
     bind_result (cs_seek_position_in_samples iocls pos (en_cs e)) (\<lambda>cs. Inr (e\<lparr>en_cs := cs\<rparr>))"

definition set_position_samples ::
  "('io, 'o, 'c, 'v::{minus,divide}, 's::zero) engine_env \<Rightarrow> int \<Rightarrow> ('io, 'o, 'c, 'v, 's) engine \<Rightarrow>
     ('io, 'o, 'c, 'v, 's) engine result" where
  "set_position_samples E samples e =
     bind_result (conditional_stop (ee_io E) e) (\<lambda>e1.
     bind_result (en_seek (ee_io E) samples e1) (\<lambda>e2.
     bind_result (reinit_chains E True e2) (\<lambda>e3.
       conditional_start E (init_engine_state e3))))"

definition set_position ::
  "('io, 'o, 'c, 'v::{minus,divide}, 's::zero) engine_env \<Rightarrow> rat \<Rightarrow> ('io, 'o, 'c, 'v, 's) engine \<Rightarrow>
     ('io, 'o, 'c, 'v, 's) engine result" where
  "set_position E seconds e =
     bind_result (conditional_stop (ee_io E) e) (\<lambda>e1.
     bind_result (en_seek (ee_io E) (seconds_to_samples seconds (cp_pos (cs_position (en_cs e1)))) e1) (\<lambda>e2.
     bind_result (reinit_chains E True e2) (\<lambda>e3.
       conditional_start E (init_engine_state e3))))"

definition set_position_samples_live ::
  "('io, 's) io_class \<Rightarrow> int \<Rightarrow> ('io, 'o, 'c, 'v, 's) engine \<Rightarrow> ('io, 'o, 'c, 'v, 's) engine result" where
  "set_position_samples_live iocls samples e =
     bind_result (en_seek iocls samples e) (\<lambda>e1. Inr (init_engine_state e1))"

definition change_position ::
  "('io, 'o, 'c, 'v::{minus,divide}, 's::zero) engine_env \<Rightarrow> rat \<Rightarrow> ('io, 'o, 'c, 'v, 's) engine \<Rightarrow>
     ('io, 'o, 'c, 'v, 's) engine result" where
  "change_position E seconds e =
     bind_result (position_in_seconds_exact (cp_pos (cs_position (en_cs e)))) (\<lambda>curpos.
     bind_result (conditional_stop (ee_io E) e) (\<lambda>e1.
     bind_result (en_seek (ee_io E) (seconds_to_samples (curpos + seconds) (cp_pos (cs_position (en_cs e1)))) e1)
       (conditional_start E)))"

definition prehandle_control_position ::
  "('io, 's) io_class \<Rightarrow> ('io, 'o, 'c, 'v, 's) engine \<Rightarrow> ('io, 'o, 'c, 'v, 's) engine result" where
  "prehandle_control_position iocls e0 =
     (let p = (cs_position (en_cs e0))\<lparr>cp_pos :=
                change_position_in_samples (en_buffersize e0) (cp_pos (cs_position (en_cs e0)))\<rparr>;
          e = e0\<lparr>en_cs := (en_cs e0)\<lparr>cs_position := p\<rparr>\<rparr>
      in if cp_max_length_set p \<and> is_over_max_length p
         then let extra_tail = ap_position (cp_pos p) - cp_max_length p;
                  remain = en_buffersize e - extra_tail;
                  buffer_remain = (if remain < 0 then 0 else if remain > en_buffersize e then en_buffersize e else remain)
              in on_objects (io_set_buffersize iocls buffer_remain) (en_non_realtime_inputs e) e
         else Inr e)"

definition posthandle_control_position ::
  "('io, 's) io_class \<Rightarrow> ('io, 'o, 'c, 'v, 's) engine \<Rightarrow> ('io, 'o, 'c, 'v, 's) engine result" where
  "posthandle_control_position iocls e =
     (let p = cs_position (en_cs e) in
      if cp_max_length_set p \<and> is_over_max_length p
      then if cp_looping p
           then bind_result (en_seek iocls 0 (e\<lparr>en_inputs_not_finished := 1\<rparr>)) (\<lambda>e1.
                  on_objects (io_set_buffersize iocls (en_buffersize e1)) (en_non_realtime_inputs e1) e1)
           else let e1 = (if en_status e = Status_running \<or> en_status e = Status_finished
                          then en_command Ep_stop_with_drain e else e)
                in Inr (e1\<lparr>en_finished := True\<rparr>)
      else Inr e)"

end
