(* ===== verification/Engine_Routing.thy ===== *)
theory Engine_Routing
  imports Engine
begin

text \<open>
  The signal path of the engine: reading the inputs into the buffers of the chains, processing the
  chains, mixing to the outputs, and one iteration. Then the cached object lists and connection counts,
  and the setup of the engine.
\<close>

subsection \<open>From the inputs to the chains\<close>

text \<open>Reading input \<open>n\<close> into a buffer; the engine counts the inputs that have more to give.\<close>

definition read_input ::
  "('io, 'o, 'c, 'v, 's::zero) engine_env \<Rightarrow> nat \<Rightarrow> 's sample_buffer \<Rightarrow> ('io, 'o, 'c, 'v, 's) engine \<Rightarrow>
     (('io, 'o, 'c, 'v, 's) engine \<times> 's sample_buffer) result" where
  "read_input E n slot e =
     bind_result (length_in_samples (ee_garbage E) (cs_buffersize (en_cs e)) slot) (\<lambda>slot1.
     bind_result (at_index (cs_inputs (en_cs e)) (int n)) (\<lambda>a.
     bind_result (get_obj a (en_cs e)) (\<lambda>x.
       if \<not> io_finished (ee_io E) x
       then bind_result (io_read_buffer (ee_io E) slot1 x) (\<lambda>(x', slot2).
              let e1 = e\<lparr>en_cs := put_obj a x' (en_cs e)\<rparr> in
              Inr (if \<not> io_finished (ee_io E) x'
                   then e1\<lparr>en_inputs_not_finished := en_inputs_not_finished e1 + 1\<rparr> else e1, slot2))
       else bind_result (make_empty (ee_garbage E) slot1) (\<lambda>slot2. Inr (e, slot2)))))"

text \<open>\<open>on_slot\<close> applies an operation to the buffer of chain \<open>c\<close>.\<close>

definition on_slot ::
  "('s sample_buffer \<Rightarrow> ('io, 'o, 'c, 'v, 's) engine \<Rightarrow> (('io, 'o, 'c, 'v, 's) engine \<times> 's sample_buffer) result) \<Rightarrow>
     nat \<Rightarrow> ('io, 'o, 'c, 'v, 's) engine \<Rightarrow> ('io, 'o, 'c, 'v, 's) engine result" where
  "on_slot f c e =
     (if c < length (en_cslots e)
      then bind_result (f (en_cslots e ! c) e) (\<lambda>(e1, slot). Inr (e1\<lparr>en_cslots := (en_cslots e1)[c := slot]\<rparr>))
      else Inl Undefined_behaviour)"

definition copy_mixslot ::
  "(nat \<Rightarrow> nat \<Rightarrow> 's::zero) \<Rightarrow> 's sample_buffer \<Rightarrow> ('io, 'o, 'c, 'v, 's) engine \<Rightarrow>
     (('io, 'o, 'c, 'v, 's) engine \<times> 's sample_buffer) result" where
  "copy_mixslot g slot e = bind_result (copy_all_content g (en_mixslot e) slot) (\<lambda>s. Inr (e, s))"

text \<open>The loop over the chains for input \<open>n\<close>, with \<open>cc\<close> chains attached.\<close>

fun input_chain_loop ::
  "('io, 'o, 'c, 'v, 's::zero) engine_env \<Rightarrow> nat \<Rightarrow> nat \<Rightarrow> nat list \<Rightarrow> ('io, 'o, 'c, 'v, 's) engine \<Rightarrow>
     ('io, 'o, 'c, 'v, 's) engine result" where
  "input_chain_loop E n cc [] e = Inr e"
| "input_chain_loop E n cc (c # cs) e =
     (if ch_input (cs_chains (en_cs e) ! c) = int n
      then (if cc = 1 then on_slot (read_input E n) c e
            else bind_result (on_slot (copy_mixslot (ee_garbage E)) c e) (input_chain_loop E n cc cs))
      else input_chain_loop E n cc cs e)"

definition input_to_chains ::
  "('io, 'o, 'c, 'v, 's::zero) engine_env \<Rightarrow> nat \<Rightarrow> ('io, 'o, 'c, 'v, 's) engine \<Rightarrow> ('io, 'o, 'c, 'v, 's) engine result" where
  "input_to_chains E n e =
     bind_result (at_index (en_input_chain_count e) (int n)) (\<lambda>cc.
     bind_result
       (if cc > 1 then bind_result (read_input E n (en_mixslot e) e) (\<lambda>(e1, slot). Inr (e1\<lparr>en_mixslot := slot\<rparr>))
        else Inr e)
       (\<lambda>e1. input_chain_loop E n cc [0..<length (cs_chains (en_cs e1))] e1))"

definition inputs_to_chains ::
  "('io, 'o, 'c, 'v, 's::zero) engine_env \<Rightarrow> ('io, 'o, 'c, 'v, 's) engine \<Rightarrow> ('io, 'o, 'c, 'v, 's) engine result" where
  "inputs_to_chains E e = fold_result (input_to_chains E) [0..<length (cs_inputs (en_cs e))] e"

definition process_chains ::
  "('io, 'o, 'c, 'v::{plus,minus,times}, 's::zero) engine_env \<Rightarrow> ('io, 'o, 'c, 'v, 's) engine \<Rightarrow>
     ('io, 'o, 'c, 'v, 's) engine result" where
  "process_chains E e =
     fold_result (on_chain (chain_process (ee_ops E) (ee_sources E) (ee_garbage E))) [0..<length (cs_chains (en_cs e))] e"

subsection \<open>From the chains to the outputs\<close>

definition mix_to_outputs_divide_helper ::
  "('io, 'o, 'c, 'v, 's::{zero,one,plus,times,divide}) engine_env \<Rightarrow> 's sample_buffer \<Rightarrow> int \<Rightarrow> bool \<Rightarrow> 's sample_buffer \<Rightarrow>
     's sample_buffer result" where
  "mix_to_outputs_divide_helper E src divide_value first_time dst =
     (if first_time
      then bind_result (if sb_channel_count src < sb_channel_count dst then make_silent dst else Inr dst) (\<lambda>dst1.
           bind_result (copy_matching_channels (ee_garbage E) src dst1) (divide_by (ee_cast E divide_value)))
      else add_with_weight (ee_garbage E) (ee_cast E) src divide_value dst)"

definition mix_to_outputs_sum_helper ::
  "('io, 'o, 'c, 'v, 's::{zero,plus}) engine_env \<Rightarrow> 's sample_buffer \<Rightarrow> bool \<Rightarrow> 's sample_buffer \<Rightarrow> 's sample_buffer result" where
  "mix_to_outputs_sum_helper E src first_time dst =
     (if first_time
      then bind_result (if sb_channel_count src < sb_channel_count dst then make_silent dst else Inr dst)
             (copy_matching_channels (ee_garbage E) src)
      else add_matching_channels_ref (ee_garbage E) src dst)"

definition write_output ::
  "('io, 's) io_class \<Rightarrow> nat \<Rightarrow> 's sample_buffer \<Rightarrow> ('io, 'o, 'c, 'v, 's) engine \<Rightarrow> ('io, 'o, 'c, 'v, 's) engine result" where
  "write_output iocls n slot e =
     bind_result (at_index (cs_outputs (en_cs e)) (int n)) (\<lambda>a.
     bind_result (get_obj a (en_cs e)) (\<lambda>x.
     bind_result (io_write_buffer iocls slot x) (\<lambda>x'.
       let e1 = e\<lparr>en_cs := put_obj a x' (en_cs e)\<rparr> in
       Inr (if io_finished iocls x' \<and> \<not> io_is_loop iocls x'
            then e1\<lparr>en_outputs_finished := en_outputs_finished e1 + 1\<rparr> else e1))))"

definition mix_step ::
  "('io, 'o, 'c, 'v, 's::{zero,one,plus,times,divide}) engine_env \<Rightarrow> nat \<Rightarrow> bool \<Rightarrow> 's sample_buffer \<Rightarrow>
     ('io, 'o, 'c, 'v, 's) engine \<Rightarrow> ('io, 'o, 'c, 'v, 's) engine result" where
  "mix_step E oc first_time slot e =
     bind_result
       (if cs_mix_avg (en_cs e) then mix_to_outputs_divide_helper E slot (int oc) first_time (en_mixslot e)
        else mix_to_outputs_sum_helper E slot first_time (en_mixslot e))
       (\<lambda>mix. Inr (e\<lparr>en_mixslot := event_tags_add slot mix\<rparr>))"

text \<open>
  The loop over the chains for output \<open>n\<close>, with \<open>oc\<close> chains attached, of which \<open>count\<close> have been
  mixed. An unconnected chain (connection -1) is skipped like one of another output.
\<close>

fun output_chain_loop ::
  "('io, 'o, 'c, 'v, 's::{zero,one,plus,times,divide}) engine_env \<Rightarrow> nat \<Rightarrow> nat \<Rightarrow> nat list \<Rightarrow> nat \<Rightarrow>
     ('io, 'o, 'c, 'v, 's) engine \<Rightarrow> ('io, 'o, 'c, 'v, 's) engine result" where
  "output_chain_loop E n oc [] count e = Inr e"
| "output_chain_loop E n oc (c # cs) count e =
     (if ch_output (cs_chains (en_cs e) ! c) = -1 then output_chain_loop E n oc cs count e
      else if ch_output (cs_chains (en_cs e) ! c) = int n
      then bind_result (at_index (en_cslots e) (int c)) (\<lambda>slot.
        if oc = 1 then write_output (ee_io E) n slot e
        else bind_result (mix_step E oc (count + 1 = 1) slot e) (\<lambda>e1.
             bind_result (if count + 1 = oc then write_output (ee_io E) n (en_mixslot e1) e1 else Inr e1)
               (output_chain_loop E n oc cs (count + 1))))
      else output_chain_loop E n oc cs count e)"

definition mix_to_output ::
  "('io, 'o, 'c, 'v, 's::{zero,one,plus,times,divide}) engine_env \<Rightarrow> bool \<Rightarrow> nat \<Rightarrow> ('io, 'o, 'c, 'v, 's) engine \<Rightarrow>
     ('io, 'o, 'c, 'v, 's) engine result" where
  "mix_to_output E skip n e =
     bind_result (if skip then is_realtime_target_output (ee_io E) n (en_cs e) else Inr False) (\<lambda>skipped.
       if skipped then Inr e
       else
         bind_result (at_index (cs_outputs (en_cs e)) (int n)) (\<lambda>a.
         bind_result (get_obj a (en_cs e)) (\<lambda>x.
         bind_result (number_of_channels (ee_garbage E) (io_channels (ee_io E) x) (en_mixslot e)) (\<lambda>slot.
         bind_result (at_index (en_output_chain_count e) (int n)) (\<lambda>oc.
           output_chain_loop E n oc [0..<length (cs_chains (en_cs e))] 0 (e\<lparr>en_mixslot := slot\<rparr>))))))"

definition mix_to_outputs ::
  "('io, 'o, 'c, 'v, 's::{zero,one,plus,times,divide}) engine_env \<Rightarrow> bool \<Rightarrow> ('io, 'o, 'c, 'v, 's) engine \<Rightarrow>
     ('io, 'o, 'c, 'v, 's) engine result" where
  "mix_to_outputs E skip e = fold_result (mix_to_output E skip) [0..<length (cs_outputs (en_cs e))] e"

subsection \<open>One iteration\<close>

definition engine_iteration ::
  "('io, 'o, 'c, 'v::{plus,minus,times}, 's::{zero,one,plus,times,divide}) engine_env \<Rightarrow> ('io, 'o, 'c, 'v, 's) engine \<Rightarrow>
     ('io, 'o, 'c, 'v, 's) engine result" where
  "engine_iteration E e =
     bind_result (prehandle_control_position (ee_io E) (e\<lparr>en_inputs_not_finished := 0\<rparr>)) (\<lambda>e1.
     bind_result (inputs_to_chains E e1) (\<lambda>e2.
     bind_result (process_chains E e2) (\<lambda>e3.
     bind_result
       (if en_preroll_samples e3 \<ge> en_recording_offset e3 then mix_to_outputs E False e3
        else bind_result (mix_to_outputs E True e3) (\<lambda>e4.
             Inr (e4\<lparr>en_preroll_samples := en_preroll_samples e4 + en_buffersize e4\<rparr>)))
       (posthandle_control_position (ee_io E)))))"

definition update_engine_state :: "('io, 'o, 'c, 'v, 's) engine \<Rightarrow> ('io, 'o, 'c, 'v, 's) engine" where
  "update_engine_state e =
     (let e1 = (if en_inputs_not_finished e = 0 \<and> en_outputs_finished e = 0 \<and> \<not> en_finished e
                then (if en_running e then en_command Ep_stop_with_drain e else e)\<lparr>en_finished := True\<rparr> else e)
      in if en_status e1 = Status_error \<and> en_running e1 then en_command Ep_stop e1 else e1)"

subsection \<open>Setup\<close>

definition max_channels :: "('io, 's) io_class \<Rightarrow> ('io, 'o, 'c, 'v) chainsetup \<Rightarrow> nat result" where
  "max_channels iocls cs =
     fold_result (\<lambda>a m. bind_result (get_obj a cs) (\<lambda>x.
       Inr (if io_channels iocls x > m then io_channels iocls x else m))) (cs_inputs cs @ cs_outputs cs) 0"

text \<open>\<open>init_prefill\<close>: a division by a buffer size of 0 is undefined.\<close>

definition init_prefill ::
  "('io, 's) io_class \<Rightarrow> ('io, 'o, 'c, 'v, 's) engine \<Rightarrow> ('io, 'o, 'c, 'v, 's) engine result" where
  "init_prefill iocls e =
     bind_result (max_channels iocls (en_cs e)) (\<lambda>m.
     let channels = (if m > 0 then m else 1) in
     bind_result (if cs_max_buffers (en_cs e)
                  then (if en_buffersize e = 0 then Inl Undefined_behaviour
                        else Inr (16348 div en_buffersize e div int channels)) else Inr 0) (\<lambda>t.
     Inr (e\<lparr>en_prefill_threshold := (if t < 3 then 3 else t)\<rparr>)))"

definition init_chain ::
  "('io, 'o, 'c, 'v::{minus,divide}, 's::zero) engine_env \<Rightarrow> nat \<Rightarrow> ('io, 'o, 'c, 'v, 's) engine \<Rightarrow>
     ('io, 'o, 'c, 'v, 's) engine result" where
  "init_chain E c e =
     bind_result (at_index (cs_inputs (en_cs e)) (ch_input (cs_chains (en_cs e) ! c))) (\<lambda>a.
     bind_result (get_obj a (en_cs e)) (\<lambda>i.
     bind_result (at_index (cs_outputs (en_cs e)) (ch_output (cs_chains (en_cs e) ! c))) (\<lambda>b.
     bind_result (get_obj b (en_cs e)) (\<lambda>j.
       on_chain (chain_init (ee_ops E) (ee_sources E) (ee_garbage E) (io_channels (ee_io E) i) (io_channels (ee_io E) j)) c e))))"

definition init_chains ::
  "('io, 'o, 'c, 'v::{minus,divide}, 's::zero) engine_env \<Rightarrow> ('io, 'o, 'c, 'v, 's) engine \<Rightarrow>
     ('io, 'o, 'c, 'v, 's) engine result" where
  "init_chains E e =
     bind_result (max_channels (ee_io E) (en_cs e)) (\<lambda>m.
     bind_result (number_of_channels (ee_garbage E) m (en_mixslot e)) (\<lambda>slot.
     bind_result (sample_buffer_create (ee_samplerate E) (ee_garbage E) (ee_tags E) (cs_buffersize (en_cs e)) m) (\<lambda>cslot.
       fold_result (init_chain E) [0..<length (cs_chains (en_cs e))]
         (e\<lparr>en_mixslot := event_tag_set tag_var_length False (event_tag_set tag_mixed_content True slot),
            en_cslots := replicate (length (cs_chains (en_cs e))) (event_tag_set tag_var_length False cslot)\<rparr>))))"

definition create_cache_object_lists ::
  "('io, 's) io_class \<Rightarrow> ('io, 'o, 'c, 'v, 's) engine \<Rightarrow> ('io, 'o, 'c, 'v, 's) engine" where
  "create_cache_object_lists iocls e =
     (let rt = has_cast (io_is_device iocls) (en_cs e); ins = cs_inputs (en_cs e); outs = cs_outputs (en_cs e) in
      e\<lparr>en_realtime_inputs := en_realtime_inputs e @ filter rt ins,
        en_non_realtime_inputs := en_non_realtime_inputs e @ filter (\<lambda>a. \<not> rt a) ins,
        en_realtime_outputs := en_realtime_outputs e @ filter rt outs,
        en_non_realtime_outputs := en_non_realtime_outputs e @ filter (\<lambda>a. \<not> rt a) outs,
        en_realtime_objects := en_realtime_objects e @ filter rt ins @ filter rt outs\<rparr>)"

definition count_all :: "(nat \<Rightarrow> nat result) \<Rightarrow> nat list \<Rightarrow> nat list result" where
  "count_all f as = fold_result (\<lambda>a ns. bind_result (f a) (\<lambda>n. Inr (ns @ [n]))) as []"

definition update_cache_chain_connections ::
  "('io, 'o, 'c, 'v, 's) engine \<Rightarrow> ('io, 'o, 'c, 'v, 's) engine result" where
  "update_cache_chain_connections e =
     bind_result (count_all (\<lambda>a. number_of_attached_chains_to_input a (en_cs e)) (cs_inputs (en_cs e))) (\<lambda>ins.
     bind_result (count_all (\<lambda>a. number_of_attached_chains_to_output a (en_cs e)) (cs_outputs (en_cs e))) (\<lambda>outs.
       Inr (e\<lparr>en_input_chain_count := ins, en_output_chain_count := outs\<rparr>)))"

text \<open>The latencies of the first realtime input and output, -1 without any.\<close>

definition input_latency :: "('io, 's) io_class \<Rightarrow> ('io, 'o, 'c, 'v, 's) engine \<Rightarrow> int result" where
  "input_latency iocls e =
     fold_result (\<lambda>a latency. bind_result (get_obj a (en_cs e)) (\<lambda>x.
       Inr (if latency = -1 then io_latency iocls x else latency))) (en_realtime_inputs e) (-1)"

definition output_latency :: "('io, 's) io_class \<Rightarrow> ('io, 'o, 'c, 'v, 's) engine \<Rightarrow> int result" where
  "output_latency iocls e =
     fold_result (\<lambda>a latency. bind_result (get_obj a (en_cs e)) (\<lambda>x.
       Inr (if latency = -1
            then (if io_prefill_space iocls x > 0
                  then let max_prefill = en_prefill_threshold e * en_buffersize e in
                       (if max_prefill > io_prefill_space iocls x then io_prefill_space iocls x else max_prefill)
                       + io_latency iocls x
                  else io_latency iocls x)
            else latency))) (en_realtime_outputs e) (-1)"

definition update_cache_latency_values ::
  "('io, 's) io_class \<Rightarrow> ('io, 'o, 'c, 'v, 's) engine \<Rightarrow> ('io, 'o, 'c, 'v, 's) engine result" where
  "update_cache_latency_values iocls e =
     (if cs_multitrack (en_cs e) \<and> cs_multitrack_offset (en_cs e) = -1
      then bind_result (input_latency iocls e) (\<lambda>in_latency.
           bind_result (output_latency iocls e) (\<lambda>out_latency.
             if en_buffersize e = 0 then Inl Undefined_behaviour
             else Inr (e\<lparr>en_recording_offset := (if out_latency > in_latency then out_latency else in_latency)\<rparr>)))
      else if cs_multitrack (en_cs e) then Inr (e\<lparr>en_recording_offset := cs_multitrack_offset (en_cs e)\<rparr>)
      else Inr (e\<lparr>en_recording_offset := 0\<rparr>))"

text \<open>
  The constructor, on an enabled chainsetup; \<open>w\<close>, \<open>p\<close> and \<open>r\<close> are the uninitialised \<open>was_running\<close>,
  \<open>preroll_samples\<close> and \<open>recording_offset\<close>.
\<close>

definition init_connection_to_chainsetup ::
  "('io, 'o, 'c, 'v::{minus,divide}, 's::zero) engine_env \<Rightarrow> ('io, 'o, 'c, 'v, 's) engine \<Rightarrow>
     ('io, 'o, 'c, 'v, 's) engine result" where
  "init_connection_to_chainsetup E e =
     bind_result (init_prefill (ee_io E) (init_engine_state e)) (\<lambda>e1.
     bind_result (init_chains E e1) (\<lambda>e2.
     bind_result (update_cache_chain_connections (create_cache_object_lists (ee_io E) e2))
       (update_cache_latency_values (ee_io E))))"

definition engine_create ::
  "('io, 'o, 'c, 'v::{minus,divide}, 's::zero) engine_env \<Rightarrow> bool \<Rightarrow> int \<Rightarrow> int \<Rightarrow> ('io, 'o, 'c, 'v) chainsetup \<Rightarrow>
     ('io, 'o, 'c, 'v, 's) engine result" where
  "engine_create E w p r cs =
     bind_result (sample_buffer_create (ee_samplerate E) (ee_garbage E) (ee_tags E) (cs_buffersize cs) 0) (\<lambda>mixslot.
     bind_result (init_connection_to_chainsetup E
       \<lparr>en_cs = cs\<lparr>cs_locked := True\<rparr>, en_attached = True, en_batchmode = False, en_prepared = False, en_running = False,
        en_was_running = w, en_finished = False, en_outputs_finished = 0, en_driver_errors = 0,
        en_inputs_not_finished = 1, en_prefill_threshold = 0, en_preroll_samples = p, en_recording_offset = r,
        en_mixslot = mixslot, en_cslots = [], en_realtime_inputs = [], en_realtime_outputs = [],
        en_realtime_objects = [], en_non_realtime_inputs = [], en_non_realtime_outputs = [],
        en_input_chain_count = [], en_output_chain_count = [],
        en_queue = message_queue_create (-1), en_exit_request = False\<rparr>)
     (\<lambda>e. Inr (toggle_locked_state False e)))"

definition en_cleanup ::
  "('o, 'v, 's) op_class \<Rightarrow> ('io, 'o, 'c, 'v, 's) engine \<Rightarrow> ('io, 'o, 'c, 'v, 's) engine" where
  "en_cleanup cls e =
     (if en_attached e
      then e\<lparr>en_cs := (en_cs e)\<lparr>cs_chains := map (disconnect_buffer cls) (cs_chains (en_cs e)), cs_locked := False\<rparr>,
             en_attached := False\<rparr>
      else e)"

end
