(* ===== verification/Engine_Frames.thy ===== *)
theory Engine_Frames
  imports Engine_Routing
begin

text \<open>
  What the operations of the engine leave unchanged. Each frame lemma says that the result is the
  engine with some fields replaced; from these, the transport operations and the ways to seek get one
  result each.
\<close>

subsection \<open>Frames\<close>

text \<open>Objects only: every other field of the engine and of the chainsetup stays.\<close>

definition objects_only :: "('io, 'o, 'c, 'v, 's) engine \<Rightarrow> ('io, 'o, 'c, 'v, 's) engine \<Rightarrow> bool" where
  "objects_only e e' \<longleftrightarrow> (\<exists>m. e' = e\<lparr>en_cs := (en_cs e)\<lparr>cs_objects := m\<rparr>\<rparr>)"

text \<open>Chains and buffers only.\<close>

definition chains_only :: "('io, 'o, 'c, 'v, 's) engine \<Rightarrow> ('io, 'o, 'c, 'v, 's) engine \<Rightarrow> bool" where
  "chains_only e e' \<longleftrightarrow> (\<exists>chs ss. length chs = length (cs_chains (en_cs e)) \<and> length ss = length (en_cslots e) \<and>
     e' = e\<lparr>en_cs := (en_cs e)\<lparr>cs_chains := chs\<rparr>, en_cslots := ss\<rparr>)"

lemma objects_only_refl [simp]: "objects_only e e"
  unfolding objects_only_def by (rule exI[of _ "cs_objects (en_cs e)"]) simp

lemma objects_only_trans [trans]: "objects_only a b \<Longrightarrow> objects_only b c \<Longrightarrow> objects_only a c"
  by (fastforce simp: objects_only_def)

lemma chains_only_refl [simp]: "chains_only e e"
  unfolding chains_only_def by (rule exI[of _ "cs_chains (en_cs e)"], rule exI[of _ "en_cslots e"]) simp

lemma chains_only_trans [trans]: "chains_only a b \<Longrightarrow> chains_only b c \<Longrightarrow> chains_only a c"
  by (fastforce simp: chains_only_def)

lemma on_object_frame: "on_object f a e = Inr e' \<Longrightarrow> objects_only e e'"
  by (auto simp: on_object_def bind_result_Inr_iff objects_only_def put_obj_def)

lemma on_objects_frame: "on_objects f as e = Inr e' \<Longrightarrow> objects_only e e'"
  unfolding on_objects_def
  by (rule fold_result_invariant[where I = "objects_only e"]) (auto intro: objects_only_trans dest: on_object_frame)

lemma on_chain_frame:
  assumes "on_chain f i e = Inr e'" shows "chains_only e e'"
proof -
  obtain ch slot where "e' = e\<lparr>en_cs := (en_cs e)\<lparr>cs_chains := (cs_chains (en_cs e))[i := ch]\<rparr>, en_cslots := (en_cslots e)[i := slot]\<rparr>"
    using assms by (auto simp: on_chain_def bind_result_Inr_iff split: if_split_asm)
  then show ?thesis
    unfolding chains_only_def
    by (intro exI[of _ "(cs_chains (en_cs e))[i := ch]"] exI[of _ "(en_cslots e)[i := slot]"]) simp
qed

lemma reinit_chains_frame: "reinit_chains E force e = Inr e' \<Longrightarrow> chains_only e e'"
  unfolding reinit_chains_def
  by (rule fold_result_invariant[where I = "chains_only e"])
    (auto intro: chains_only_trans dest: on_chain_frame split: if_split_asm)

lemma toggle_forked_frame:
  assumes "toggle_forked_objects iocls b e = Inr e'" shows "objects_only e e'"
  using assms unfolding toggle_forked_objects_def Let_def bind_result_Inr_iff
  by (metis on_objects_frame objects_only_trans)

lemma seek_objects_frame: "seek_objects iocls pos objs cs = Inr cs' \<Longrightarrow> \<exists>m. cs' = cs\<lparr>cs_objects := m\<rparr>"
proof -
  assume *: "seek_objects iocls pos objs cs = Inr cs'"
  have "\<exists>m. cs = cs\<lparr>cs_objects := m\<rparr>" by (rule exI[of _ "cs_objects cs"]) simp
  then show ?thesis
    using * unfolding seek_objects_def
    by (rule fold_result_invariant[where I = "\<lambda>c. \<exists>m. c = cs\<lparr>cs_objects := m\<rparr>", rotated])
      (auto simp: bind_result_Inr_iff put_obj_def split: if_split_asm)
qed

definition seek_chain :: "int \<Rightarrow> ('o, 'c, 'v) chain \<Rightarrow> ('o, 'c, 'v) chain" where
  "seek_chain pos q = q\<lparr>ch_position := seek_position_in_samples (\<lambda>p. p) pos (ch_position q)\<rparr>"

lemma en_seek_frame:
  assumes "en_seek iocls pos e = Inr e'"
  shows "\<exists>m. e' = e\<lparr>en_cs := (en_cs e)\<lparr>cs_objects := m, cs_chains := map (seek_chain pos) (cs_chains (en_cs e)),
      cs_position := (cs_position (en_cs e))\<lparr>cp_pos := set_position_in_samples pos (cp_pos (cs_position (en_cs e)))\<rparr>\<rparr>\<rparr>"
proof -
  obtain cs1 cs2 where 1: "seek_objects iocls pos (cs_inputs (en_cs e)) (en_cs e) = Inr cs1"
      "seek_objects iocls pos (cs_outputs cs1) cs1 = Inr cs2"
      "e' = e\<lparr>en_cs := cs2\<lparr>cs_chains := map (seek_chain pos) (cs_chains cs2),
         cs_position := (cs_position cs2)\<lparr>cp_pos := set_position_in_samples pos (cp_pos (cs_position cs2))\<rparr>\<rparr>\<rparr>"
    using assms by (auto simp: en_seek_def cs_seek_position_in_samples_def bind_result_Inr_iff seek_chain_def[abs_def])
  from seek_objects_frame[OF 1(1)] seek_objects_frame[OF 1(2)] obtain m where "cs2 = (en_cs e)\<lparr>cs_objects := m\<rparr>"
    by auto
  then show ?thesis using 1(3) by auto
qed

text \<open>What a prefill changes: the objects, the prefill threshold and the mixing buffer.\<close>

definition prefill_only :: "('io, 'o, 'c, 'v, 's) engine \<Rightarrow> ('io, 'o, 'c, 'v, 's) engine \<Rightarrow> bool" where
  "prefill_only e e' \<longleftrightarrow> (\<exists>m t s. e' = e\<lparr>en_cs := (en_cs e)\<lparr>cs_objects := m\<rparr>, en_prefill_threshold := t, en_mixslot := s\<rparr>)"

lemma prefill_only_objects: "objects_only e e' \<Longrightarrow> prefill_only e e'"
  by (auto simp: objects_only_def prefill_only_def intro!: exI[of _ "en_prefill_threshold e"] exI[of _ "en_mixslot e"])

lemma prefill_only_trans [trans]: "prefill_only a b \<Longrightarrow> prefill_only b c \<Longrightarrow> prefill_only a c"
  by (fastforce simp: prefill_only_def)

lemma prefill_only_refl [simp]: "prefill_only e e"
  by (rule prefill_only_objects) simp

lemma prefill_only_updates [simp]:
  "prefill_only e (e\<lparr>en_prefill_threshold := t\<rparr>)" "prefill_only e (e\<lparr>en_mixslot := s\<rparr>)"
  unfolding prefill_only_def
  by (rule exI[of _ "cs_objects (en_cs e)"], rule exI[of _ t], rule exI[of _ "en_mixslot e"], simp)
    (rule exI[of _ "cs_objects (en_cs e)"], rule exI[of _ "en_prefill_threshold e"], rule exI[of _ s], simp)

lemma prefill_writes_frame: "fold_result (\<lambda>_. on_object f a) ns e = Inr e' \<Longrightarrow> prefill_only e e'"
  by (rule fold_result_invariant[where I = "prefill_only e"])
    (auto intro: prefill_only_trans prefill_only_objects dest: on_object_frame)

lemma prefill_output_frame:
  assumes "prefill_output iocls a e = Inr e'" shows "prefill_only e e'"
proof -
  obtain t and ns :: "nat list" where "fold_result (\<lambda>_. on_object (io_write_buffer iocls (en_mixslot e)) a) ns (e\<lparr>en_prefill_threshold := t\<rparr>) = Inr e' \<or>
      fold_result (\<lambda>_. on_object (io_write_buffer iocls (en_mixslot e)) a) ns e = Inr e' \<or> e = e'"
    using assms by (auto simp: prefill_output_def bind_result_Inr_iff Let_def split: if_split_asm)
  then show ?thesis
    using prefill_writes_frame prefill_only_trans[OF prefill_only_updates(1)] prefill_only_refl by metis
qed

lemma prepare_realtime_frame:
  assumes "prepare_realtime_objects iocls e = Inr e'" shows "prefill_only e e'"
proof -
  obtain e1 slot where 1: "on_objects (io_prepare iocls) (en_realtime_objects e) e = Inr e1"
      "fold_result (prefill_output iocls) (en_realtime_outputs e1) (e1\<lparr>en_mixslot := slot\<rparr>) = Inr e'"
    using assms by (auto simp: prepare_realtime_objects_def bind_result_Inr_iff)
  have "prefill_only e (e1\<lparr>en_mixslot := slot\<rparr>)"
    using prefill_only_objects[OF on_objects_frame[OF 1(1)]] prefill_only_trans prefill_only_updates(2) by blast
  moreover have "prefill_only (e1\<lparr>en_mixslot := slot\<rparr>) e'"
    using _ _ 1(2) by (rule fold_result_invariant[where I = "prefill_only (e1\<lparr>en_mixslot := slot\<rparr>)"])
      (auto intro: prefill_only_trans dest: prefill_output_frame)
  ultimately show ?thesis by (rule prefill_only_trans)
qed


text \<open>The transport operations in one equation each.\<close>

lemma prepare_operation_frame:
  assumes "prepare_operation E e = Inr e'"
  shows "\<exists>m chs ss mix t. length chs = length (cs_chains (en_cs e)) \<and> length ss = length (en_cslots e) \<and>
    e' = e\<lparr>en_cs := (en_cs e)\<lparr>cs_objects := m, cs_chains := chs, cs_locked := True\<rparr>, en_cslots := ss, en_mixslot := mix,
      en_prefill_threshold := t, en_preroll_samples := en_buffersize e, en_prepared := True, en_finished := False,
      en_inputs_not_finished := 1, en_outputs_finished := 0\<rparr>"
proof -
  obtain e1 e2 e3 where 1: "reinit_chains E True (set_rt_locks True (toggle_locked_state True e)) = Inr e1"
      "toggle_forked_objects (ee_io E) True e1 = Inr e2" "prepare_realtime_objects (ee_io E) e2 = Inr e3"
      "e' = init_engine_state (e3\<lparr>en_preroll_samples := en_buffersize e3, en_prepared := True\<rparr>)"
    using assms by (auto simp: prepare_operation_def bind_result_Inr_iff)
  from reinit_chains_frame[OF 1(1)] obtain chs ss where "length chs = length (cs_chains (en_cs e))" "length ss = length (en_cslots e)"
      "e1 = (set_rt_locks True (toggle_locked_state True e))\<lparr>en_cs := (en_cs (set_rt_locks True (toggle_locked_state True e)))\<lparr>cs_chains := chs\<rparr>, en_cslots := ss\<rparr>"
    by (auto simp: chains_only_def set_rt_locks_def toggle_locked_state_def)
  moreover obtain m1 where "e2 = e1\<lparr>en_cs := (en_cs e1)\<lparr>cs_objects := m1\<rparr>\<rparr>"
    using toggle_forked_frame[OF 1(2)] by (auto simp: objects_only_def)
  moreover obtain m t s where "e3 = e2\<lparr>en_cs := (en_cs e2)\<lparr>cs_objects := m\<rparr>, en_prefill_threshold := t, en_mixslot := s\<rparr>"
    using prepare_realtime_frame[OF 1(3)] by (auto simp: prefill_only_def)
  ultimately show ?thesis
    unfolding 1(4)
    by (intro exI[of _ m] exI[of _ chs] exI[of _ "map (event_tag_set tag_end_of_stream False) ss"]
        exI[of _ "event_tag_set tag_end_of_stream False s"] exI[of _ t])
      (simp add: set_rt_locks_def toggle_locked_state_def init_engine_state_def en_buffersize_def)
qed

lemma start_operation_frame:
  assumes "start_operation iocls e = Inr e'"
  shows "\<exists>m. e' = e\<lparr>en_cs := (en_cs e)\<lparr>cs_objects := m\<rparr>, en_running := True\<rparr>"
  using assms by (auto simp: start_operation_def bind_result_Inr_iff objects_only_def dest!: on_objects_frame)

lemma stop_operation_frame:
  assumes "stop_operation iocls drain e = Inr e'"
  shows "\<exists>m. e' = e\<lparr>en_cs := (en_cs e)\<lparr>cs_objects := m, cs_locked := False\<rparr>,
    en_cslots := map (set_rt_lock False) (en_cslots e), en_mixslot := set_rt_lock False (en_mixslot e),
    en_prepared := False, en_running := False\<rparr>"
proof -
  obtain m where "e' = e\<lparr>en_prepared := False, en_cslots := map (set_rt_lock False) (en_cslots e),
      en_mixslot := set_rt_lock False (en_mixslot e), en_cs := (en_cs e)\<lparr>cs_objects := m, cs_locked := False\<rparr>, en_running := False\<rparr>"
    using assms
    by (auto simp: stop_operation_def bind_result_Inr_iff objects_only_def toggle_locked_state_def set_rt_locks_def signal_stop_def
        dest!: on_objects_frame toggle_forked_frame)
  then show ?thesis by (intro exI[of _ m]) simp
qed

text \<open>
  Consistency of the transport: a running engine is prepared, and a prepared one has locked its
  chainsetup.
\<close>

definition transport_ok :: "('io, 'o, 'c, 'v, 's) engine \<Rightarrow> bool" where
  "transport_ok e \<longleftrightarrow> (en_running e \<longrightarrow> en_prepared e) \<and> (en_prepared e \<longrightarrow> cs_locked (en_cs e))"

text \<open>What no transport or position operation touches.\<close>

definition same_session :: "('io, 'o, 'c, 'v, 's) engine \<Rightarrow> ('io, 'o, 'c, 'v, 's) engine \<Rightarrow> bool" where
  "same_session e e' \<longleftrightarrow> en_queue e' = en_queue e \<and> en_exit_request e' = en_exit_request e \<and>
     en_attached e' = en_attached e \<and> en_batchmode e' = en_batchmode e \<and> en_driver_errors e' = en_driver_errors e \<and>
     en_recording_offset e' = en_recording_offset e \<and> en_realtime_objects e' = en_realtime_objects e \<and>
     en_non_realtime_inputs e' = en_non_realtime_inputs e \<and>
     en_input_chain_count e' = en_input_chain_count e \<and> en_output_chain_count e' = en_output_chain_count e \<and>
     cs_inputs (en_cs e') = cs_inputs (en_cs e) \<and> cs_outputs (en_cs e') = cs_outputs (en_cs e) \<and>
     cs_buffersize (en_cs e') = cs_buffersize (en_cs e) \<and> cs_mix_avg (en_cs e') = cs_mix_avg (en_cs e) \<and>
     length (cs_chains (en_cs e')) = length (cs_chains (en_cs e)) \<and> length (en_cslots e') = length (en_cslots e)"

lemma same_session_refl [simp]: "same_session e e"
  by (simp add: same_session_def)

lemma same_session_trans [trans]: "same_session a b \<Longrightarrow> same_session b c \<Longrightarrow> same_session a c"
  by (simp add: same_session_def)

lemma driver_start_result:
  assumes "driver_start E e = Inr e'"
  shows "same_session e e' \<and> en_running e' \<and> en_prepared e' \<and> (transport_ok e \<longrightarrow> transport_ok e') \<and>
    cs_position (en_cs e') = cs_position (en_cs e) \<and>
    (if en_prepared e then en_finished e' = en_finished e \<and> en_outputs_finished e' = en_outputs_finished e
     else \<not> en_finished e' \<and> en_outputs_finished e' = 0)"
proof -
  obtain e1 where 1: "(if \<not> en_prepared e then prepare_operation E e else Inr e) = Inr e1" "start_operation (ee_io E) e1 = Inr e'"
    using assms by (auto simp: driver_start_def bind_result_Inr_iff)
  obtain m where m: "e' = e1\<lparr>en_cs := (en_cs e1)\<lparr>cs_objects := m\<rparr>, en_running := True\<rparr>"
    using start_operation_frame[OF 1(2)] by blast
  show ?thesis
  proof (cases "en_prepared e")
    case True
    then show ?thesis using 1(1) m by (simp add: same_session_def transport_ok_def)
  next
    case False
    then have "prepare_operation E e = Inr e1" using 1(1) by simp
    from prepare_operation_frame[OF this] False show ?thesis using m by (auto simp: same_session_def transport_ok_def)
  qed
qed

lemma driver_stop_result:
  assumes "driver_stop iocls drain e = Inr e'"
  shows "same_session e e' \<and> \<not> en_prepared e' \<and> (transport_ok e \<longrightarrow> transport_ok e' \<and> \<not> en_running e') \<and>
    en_was_running e' = en_was_running e \<and> cs_position (en_cs e') = cs_position (en_cs e) \<and>
    en_finished e' = en_finished e \<and> en_outputs_finished e' = en_outputs_finished e"
proof (cases "en_prepared e")
  case True
  then have "stop_operation iocls drain e = Inr e'" using assms by (simp add: driver_stop_def)
  from stop_operation_frame[OF this] True show ?thesis by (auto simp: same_session_def transport_ok_def)
next
  case False
  then show ?thesis using assms by (auto simp: driver_stop_def transport_ok_def)
qed


text \<open>Seeking.\<close>

lemma chains_only_session:
  assumes "chains_only e e'"
  shows "same_session e e'" "en_prepared e' = en_prepared e" "en_running e' = en_running e" "en_was_running e' = en_was_running e"
    "cs_locked (en_cs e') = cs_locked (en_cs e)" "cs_position (en_cs e') = cs_position (en_cs e)"
    "en_finished e' = en_finished e" "en_outputs_finished e' = en_outputs_finished e"
  using assms by (auto simp: chains_only_def same_session_def)

lemma seek_session:
  assumes "en_seek iocls pos e = Inr e'"
  shows "same_session e e'" "en_prepared e' = en_prepared e" "en_running e' = en_running e" "en_was_running e' = en_was_running e"
    "cs_locked (en_cs e') = cs_locked (en_cs e)"
    "cs_position (en_cs e') = (cs_position (en_cs e))\<lparr>cp_pos := set_position_in_samples pos (cp_pos (cs_position (en_cs e)))\<rparr>"
    "en_finished e' = en_finished e" "en_outputs_finished e' = en_outputs_finished e"
  using en_seek_frame[OF assms] by (auto simp: same_session_def)

lemma init_engine_state_session [simp]:
  "same_session e (init_engine_state e)" "en_prepared (init_engine_state e) = en_prepared e"
  "en_running (init_engine_state e) = en_running e" "en_was_running (init_engine_state e) = en_was_running e"
  "en_cs (init_engine_state e) = en_cs e" "\<not> en_finished (init_engine_state e)" "en_outputs_finished (init_engine_state e) = 0"
  "en_inputs_not_finished (init_engine_state e) = 1" "en_queue (init_engine_state e) = en_queue e"
  "en_exit_request (init_engine_state e) = en_exit_request e" "en_attached (init_engine_state e) = en_attached e"
  "en_batchmode (init_engine_state e) = en_batchmode e" "en_driver_errors (init_engine_state e) = en_driver_errors e"
  by (simp_all add: init_engine_state_def same_session_def)

lemma conditional_stop_result:
  assumes "conditional_stop iocls e = Inr e'" "transport_ok e"
  shows "same_session e e' \<and> transport_ok e' \<and> cs_position (en_cs e') = cs_position (en_cs e) \<and>
    en_finished e' = en_finished e \<and> en_outputs_finished e' = en_outputs_finished e \<and>
    en_was_running e' = (en_status e = Status_running) \<and>
    (if en_status e = Status_running then \<not> en_prepared e' \<and> \<not> en_running e'
     else en_prepared e' = en_prepared e \<and> en_running e' = en_running e)"
proof (cases "en_status e = Status_running")
  case True
  define e1 where "e1 = e\<lparr>en_was_running := True\<rparr>"
  have "driver_stop iocls False e1 = Inr e'" "transport_ok e1" "same_session e e1"
      "cs_position (en_cs e1) = cs_position (en_cs e)" "en_finished e1 = en_finished e"
      "en_outputs_finished e1 = en_outputs_finished e" "en_was_running e1"
    using assms True by (simp_all add: conditional_stop_def e1_def transport_ok_def same_session_def)
  then show ?thesis
    using driver_stop_result[of iocls False e1 e'] True same_session_trans by auto
next
  case False
  then show ?thesis using assms by (auto simp: conditional_stop_def transport_ok_def same_session_def)
qed

lemma status_running_prepared: "transport_ok e \<Longrightarrow> en_status e = Status_running \<Longrightarrow> en_prepared e \<and> en_running e"
  by (auto simp: en_status_def transport_ok_def split: if_split_asm)

text \<open>
  The three ways to seek share one shape: stop if running, seek, reinitialise, start again if
  it was running.
\<close>

definition seek_sequence ::
  "('io, 'o, 'c, 'v::{minus,divide}, 's::zero) engine_env \<Rightarrow> bool \<Rightarrow> int \<Rightarrow> ('io, 'o, 'c, 'v, 's) engine \<Rightarrow>
     ('io, 'o, 'c, 'v, 's) engine result" where
  "seek_sequence E reinit pos e =
     bind_result (conditional_stop (ee_io E) e) (\<lambda>e1.
     bind_result (en_seek (ee_io E) pos e1) (\<lambda>e2.
     bind_result (if reinit then bind_result (reinit_chains E True e2) (\<lambda>e3. Inr (init_engine_state e3)) else Inr e2)
       (conditional_start E)))"

lemma seek_sequence_result:
  assumes "seek_sequence E reinit pos e = Inr e'" "transport_ok e"
  shows "same_session e e' \<and> transport_ok e' \<and> en_prepared e' = en_prepared e \<and> en_running e' = en_running e \<and>
    cs_position (en_cs e') = (cs_position (en_cs e))\<lparr>cp_pos := set_position_in_samples pos (cp_pos (cs_position (en_cs e)))\<rparr> \<and>
    (reinit \<or> en_status e = Status_running \<longrightarrow> \<not> en_finished e' \<and> en_outputs_finished e' = 0)"
proof -
  obtain e1 e2 e3 where 1: "conditional_stop (ee_io E) e = Inr e1" "en_seek (ee_io E) pos e1 = Inr e2"
      "(if reinit then bind_result (reinit_chains E True e2) (\<lambda>e3. Inr (init_engine_state e3)) else Inr e2) = Inr e3"
      "conditional_start E e3 = Inr e'"
    using assms(1) by (auto simp: seek_sequence_def bind_result_Inr_iff)
  note s1 = conditional_stop_result[OF 1(1) assms(2)] and s2 = seek_session[OF 1(2)]
  have s3: "same_session e2 e3" "en_prepared e3 = en_prepared e2" "en_running e3 = en_running e2" "en_was_running e3 = en_was_running e2"
      "cs_locked (en_cs e3) = cs_locked (en_cs e2)" "cs_position (en_cs e3) = cs_position (en_cs e2)"
      "if reinit then \<not> en_finished e3 \<and> en_outputs_finished e3 = 0
       else en_finished e3 = en_finished e2 \<and> en_outputs_finished e3 = en_outputs_finished e2"
  proof -
    have "same_session e2 e3 \<and> en_prepared e3 = en_prepared e2 \<and> en_running e3 = en_running e2 \<and> en_was_running e3 = en_was_running e2 \<and>
        cs_locked (en_cs e3) = cs_locked (en_cs e2) \<and> cs_position (en_cs e3) = cs_position (en_cs e2) \<and>
        (if reinit then \<not> en_finished e3 \<and> en_outputs_finished e3 = 0
         else en_finished e3 = en_finished e2 \<and> en_outputs_finished e3 = en_outputs_finished e2)"
    proof (cases reinit)
      case True
      then obtain e4 where 4: "reinit_chains E True e2 = Inr e4" "e3 = init_engine_state e4"
        using 1(3) by (auto simp: bind_result_Inr_iff)
      note c = chains_only_session[OF reinit_chains_frame[OF 4(1)]]
      show ?thesis using c True same_session_trans[OF c(1)] by (simp add: 4(2))
    qed (use 1(3) in auto)
    then show "same_session e2 e3" "en_prepared e3 = en_prepared e2" "en_running e3 = en_running e2" "en_was_running e3 = en_was_running e2"
      "cs_locked (en_cs e3) = cs_locked (en_cs e2)" "cs_position (en_cs e3) = cs_position (en_cs e2)"
      "if reinit then \<not> en_finished e3 \<and> en_outputs_finished e3 = 0
       else en_finished e3 = en_finished e2 \<and> en_outputs_finished e3 = en_outputs_finished e2"
      by blast+
  qed
  have t3: "transport_ok e3" using s1 s2(2,3,5) s3(2,3,5) by (simp add: transport_ok_def)
  have m: "same_session e e3" using s1 s2(1) s3(1) same_session_trans by blast
  have p: "cs_position (en_cs e3) = (cs_position (en_cs e))\<lparr>cp_pos := set_position_in_samples pos (cp_pos (cs_position (en_cs e)))\<rparr>"
    using s1 s2(6) s3(6) by simp
  show ?thesis
  proof (cases "en_status e = Status_running")
    case True
    then have r: "driver_start E e3 = Inr e'" "\<not> en_prepared e3"
      using 1(4) s1 s2 s3 by (simp_all add: conditional_start_def)
    show ?thesis
      using driver_start_result[OF r(1)] r(2) t3 m p status_running_prepared[OF assms(2) True] same_session_trans[OF m] by auto
  next
    case False
    then have "e' = e3" using 1(4) s1 s2 s3 by (simp add: conditional_start_def)
    then show ?thesis using t3 m p s1 s2 s3 False by auto
  qed
qed

lemma set_position_samples_sequence: "set_position_samples E pos e = seek_sequence E True pos e"
  by (simp add: set_position_samples_def seek_sequence_def bind_result_assoc)

lemma set_position_sequence:
  assumes "transport_ok e"
  shows "set_position E s e = seek_sequence E True (seconds_to_samples s (cp_pos (cs_position (en_cs e)))) e"
  unfolding set_position_def seek_sequence_def
  using conditional_stop_result[OF _ assms] by (cases "conditional_stop (ee_io E) e") (auto simp: bind_result_assoc)

lemma change_position_sequence:
  assumes "transport_ok e" "position_in_seconds_exact (cp_pos (cs_position (en_cs e))) = Inr p"
  shows "change_position E s e = seek_sequence E False (seconds_to_samples (p + s) (cp_pos (cs_position (en_cs e)))) e"
  unfolding change_position_def seek_sequence_def
  using conditional_stop_result[OF _ assms(1)] assms(2) by (cases "conditional_stop (ee_io E) e") auto

end
