(* ===== verification/Engine_Driver.thy ===== *)
theory Engine_Driver
  imports Engine_Frames
begin

text \<open>
  The command queue of the engine and the loop of the default driver, and what holds over a whole
  run: the transport stays consistent, seeking does not change whether the engine runs, and when
  \<open>exec\<close> returns everything has been stopped and released.
\<close>

subsection \<open>Commands\<close>

text \<open>One command. The result of an edit is ignored.\<close>

fun handle_command ::
  "('io, 'o, 'c, 'v::{minus,divide}, 's::zero) engine_env \<Rightarrow> 'v engine_command \<Rightarrow> ('io, 'o, 'c, 'v, 's) engine \<Rightarrow>
     ('io, 'o, 'c, 'v, 's) engine result" where
  "handle_command E (Ep_exec_edit ed need_chain_reinit) e =
     (let e1 = e\<lparr>en_cs := snd (execute_edit (ee_ops E) (ee_sources E) ed (en_cs e))\<rparr> in
      if need_chain_reinit then reinit_chains E True e1 else Inr e1)"
| "handle_command E Ep_prepare e = (if \<not> en_prepared e then prepare_operation E e else Inr e)"
| "handle_command E Ep_start e = (if en_status e \<noteq> Status_running then driver_start E e else Inr e)"
| "handle_command E Ep_stop e =
     (if en_status e = Status_running \<or> en_status e = Status_finished then driver_stop (ee_io E) False e else Inr e)"
| "handle_command E Ep_stop_with_drain e =
     (if en_status e = Status_running \<or> en_status e = Status_finished then driver_stop (ee_io E) True e else Inr e)"
| "handle_command E (Ep_rewind s) e = change_position E (- s) e"
| "handle_command E (Ep_forward s) e = change_position E s e"
| "handle_command E (Ep_setpos s) e = set_position E s e"
| "handle_command E (Ep_setpos_samples s) e = set_position_samples E (truncate_rat s) e"
| "handle_command E (Ep_setpos_live_samples s) e = set_position_samples_live (ee_io E) (truncate_rat s) e"
| "handle_command E Ep_debug e = Inr e"
| "handle_command E Ep_exit e = driver_exit (ee_io E) e"

lemma edit_session:
  "snd (execute_edit cls src ed cs) = cs\<lparr>cs_chains := cs_chains (snd (execute_edit cls src ed cs))\<rparr> \<and>
   length (cs_chains (snd (execute_edit cls src ed cs))) = length (cs_chains cs)"
  by (cases ed) (simp_all add: edit_chain_def)

text \<open>The commands, one at a time: the transport stays consistent and the queue is left alone.\<close>

lemma handle_command_result:
  assumes "handle_command E c e = Inr e'" "transport_ok e" "c \<noteq> Ep_exit"
  shows "same_session e e' \<and> transport_ok e'"
proof (cases c)
  case Ep_prepare
  then show ?thesis
    using assms prepare_operation_frame[of E e e'] by (auto simp: transport_ok_def same_session_def split: if_split_asm)
next
  case Ep_start
  then show ?thesis
    using assms driver_start_result[of E e e'] by (auto split: if_split_asm)
next
  case Ep_stop
  then show ?thesis
    using assms driver_stop_result[of "ee_io E" False e e'] by (auto split: if_split_asm)
next
  case Ep_stop_with_drain
  then show ?thesis
    using assms driver_stop_result[of "ee_io E" True e e'] by (auto split: if_split_asm)
next
  case (Ep_exec_edit ed reinit)
  define e1 where "e1 = e\<lparr>en_cs := snd (execute_edit (ee_ops E) (ee_sources E) ed (en_cs e))\<rparr>"
  obtain chs where "snd (execute_edit (ee_ops E) (ee_sources E) ed (en_cs e)) = (en_cs e)\<lparr>cs_chains := chs\<rparr>"
      "length chs = length (cs_chains (en_cs e))"
    using edit_session by metis
  then have 1: "same_session e e1 \<and> transport_ok e1"
    using assms(2) by (simp add: e1_def same_session_def transport_ok_def)
  have 2: "(if reinit then reinit_chains E True e1 else Inr e1) = Inr e'"
    using Ep_exec_edit assms(1) by (cases reinit) (simp_all add: e1_def Let_def)
  have 3: "chains_only e1 e'"
    using 2 reinit_chains_frame[of E True e1 e'] by (cases reinit) auto
  show ?thesis
    using 1 chains_only_session[OF 3] same_session_trans[of e e1 e'] by (auto simp: transport_ok_def)
next
  case (Ep_rewind s)
  then obtain p where "position_in_seconds_exact (cp_pos (cs_position (en_cs e))) = Inr p"
    using assms(1) by (auto simp: change_position_def bind_result_Inr_iff)
  then show ?thesis
    using Ep_rewind assms change_position_sequence[OF assms(2)] seek_sequence_result[of E False _ e e'] by auto
next
  case (Ep_forward s)
  then obtain p where "position_in_seconds_exact (cp_pos (cs_position (en_cs e))) = Inr p"
    using assms(1) by (auto simp: change_position_def bind_result_Inr_iff)
  then show ?thesis
    using Ep_forward assms change_position_sequence[OF assms(2)] seek_sequence_result[of E False _ e e'] by auto
next
  case (Ep_setpos s)
  then show ?thesis
    using assms set_position_sequence[OF assms(2)] seek_sequence_result[of E True _ e e'] by auto
next
  case (Ep_setpos_samples s)
  then show ?thesis
    using assms set_position_samples_sequence[of E "truncate_rat s" e] seek_sequence_result[of E True _ e e'] by auto
next
  case (Ep_setpos_live_samples s)
  then obtain e1 where 1: "en_seek (ee_io E) (truncate_rat s) e = Inr e1" "e' = init_engine_state e1"
    using assms(1) by (auto simp: set_position_samples_live_def bind_result_Inr_iff)
  then show ?thesis
    using assms(2) seek_session[OF 1(1)] same_session_trans[of e e1 e'] by (auto simp: transport_ok_def)
qed (use assms in simp_all)


text \<open>
  \<open>check_command_queue\<close>: turn \<open>n\<close> of the loop finds the queue locked by another thread as \<open>busy n\<close>
  says, once in \<open>is_empty\<close> and once in \<open>pop_front\<close>. Each turn consumes a message or ends the loop. The
  exit command clears the queue and returns.
\<close>

lemma bind_result_cong [fundef_cong]:
  "r = r' \<Longrightarrow> (\<And>x. r' = Inr x \<Longrightarrow> f x = f' x) \<Longrightarrow> bind_result r f = bind_result r' f'"
  by (cases r') simp_all

function check_command_queue ::
  "('io, 'o, 'c, 'v::{minus,divide}, 's::zero) engine_env \<Rightarrow> (nat \<Rightarrow> bool \<times> bool) \<Rightarrow> nat \<Rightarrow>
     ('io, 'o, 'c, 'v, 's) engine \<Rightarrow> ('io, 'o, 'c, 'v, 's) engine result" where
  "check_command_queue E busy n e =
     (if mq_is_empty (fst (busy n)) (en_queue e) (en_queue e) then Inr e
      else case mq_pop_front (snd (busy n)) (en_queue e) of
        (popres, None, q) \<Rightarrow> Inr (e\<lparr>en_queue := q\<rparr>)
      | (popres, Some c, q) \<Rightarrow>
          if popres \<le> 0 then Inr (e\<lparr>en_queue := q\<rparr>)
          else if c = Ep_exit then handle_command E c (e\<lparr>en_queue := mq_clear q\<rparr>)
          else bind_result (handle_command E c (e\<lparr>en_queue := q\<rparr>)) (check_command_queue E busy (Suc n)))"
  by pat_completeness auto

text \<open>A command leaves the queue alone, whatever the state of the transport.\<close>

lemma en_queue_frames:
  "chains_only e e' \<Longrightarrow> en_queue e' = en_queue e"
  "en_seek iocls pos e = Inr e' \<Longrightarrow> en_queue e' = en_queue e"
  "driver_start E e = Inr e' \<Longrightarrow> en_queue e' = en_queue e"
  "driver_stop iocls d e = Inr e' \<Longrightarrow> en_queue e' = en_queue e"
  using chains_only_session(1)[of e e'] seek_session(1)[of iocls pos e e'] driver_start_result[of E e e']
    driver_stop_result[of iocls d e e'] by (auto simp: same_session_def)

lemma conditional_queue:
  "conditional_stop iocls e = Inr e' \<Longrightarrow> en_queue e' = en_queue e"
  "conditional_start E e = Inr e' \<Longrightarrow> en_queue e' = en_queue e"
  by (auto simp: conditional_stop_def conditional_start_def dest: en_queue_frames split: if_split_asm)

lemmas en_queue_kept = en_queue_frames conditional_queue chains_only_session(1)[unfolded same_session_def, THEN conjunct1]
  reinit_chains_frame[THEN en_queue_frames(1)]

lemma handle_command_queue:
  assumes "handle_command E c e = Inr e'" "c \<noteq> Ep_exit" shows "en_queue e' = en_queue e"
proof (cases c)
  case Ep_prepare
  then show ?thesis using assms prepare_operation_frame[of E e e'] by (auto split: if_split_asm)
next
  case (Ep_exec_edit ed reinit)
  then show ?thesis using assms(1) by (cases reinit) (auto simp: Let_def dest: reinit_chains_frame[THEN en_queue_frames(1)])
qed (use assms in \<open>auto simp: set_position_def set_position_samples_def set_position_samples_live_def change_position_def
    bind_result_Inr_iff split: if_split_asm dest!: en_queue_kept(2-6,8)\<close>)

termination check_command_queue
  by (relation "measure (\<lambda>(E, busy, n, e). length (mq_msgs (en_queue e)))")
    (auto simp: mq_pop_front_def split: if_split_asm list.splits dest!: handle_command_queue)

declare check_command_queue.simps [simp del]


subsection \<open>The loop of the default driver\<close>

text \<open>
  What other threads do in one turn of the loop: the commands they have queued before it, and how
  they hold the lock of the queue. \<open>wait_for_commands\<close> only blocks, so it does nothing here. The
  loop runs as long as the list goes on; \<open>None\<close> means that it has not ended by then. Its result is
  whether to drain at the end.
\<close>

type_synonym 'v turn = "'v engine_command list \<times> (nat \<Rightarrow> bool \<times> bool)"

fun driver_loop ::
  "('io, 'o, 'c, 'v::{plus,minus,times,divide}, 's::{zero,one,plus,times,divide}) engine_env \<Rightarrow> 'v turn list \<Rightarrow>
     ('io, 'o, 'c, 'v, 's) engine \<Rightarrow> (bool \<times> ('io, 'o, 'c, 'v, 's) engine) result option" where
  "driver_loop E [] e = None"
| "driver_loop E ((commands, busy) # turns) e =
     (case check_command_queue E busy 0 (fold en_command commands e) of
        Inl f \<Rightarrow> Some (Inl f)
      | Inr e1 \<Rightarrow>
          if en_exit_request e1 then Some (Inr (False, e1))
          else if en_status e1 = Status_running
          then (case engine_iteration E e1 of
                  Inl f \<Rightarrow> Some (Inl f)
                | Inr e2 \<Rightarrow> driver_loop E turns (update_engine_state e2))
          else if en_status e1 = Status_finished \<and> en_batchmode e1 then Some (Inr (True, e1))
          else if en_status e1 = Status_error then Some (Inr (False, e1))
          else driver_loop E turns (update_engine_state e1))"

definition driver_exec ::
  "('io, 'o, 'c, 'v::{plus,minus,times,divide}, 's::{zero,one,plus,times,divide}) engine_env \<Rightarrow> 'v turn list \<Rightarrow>
     ('io, 'o, 'c, 'v, 's) engine \<Rightarrow> ('io, 'o, 'c, 'v, 's) engine result option" where
  "driver_exec E turns e =
     map_option (\<lambda>r. bind_result r (\<lambda>(drain_at_end, e1).
         if en_prepared e1 then stop_operation (ee_io E) drain_at_end e1 else Inr e1))
       (driver_loop E turns (init_engine_state (e\<lparr>en_exit_request := False\<rparr>)))"

text \<open>\<open>exec\<close> of the engine; the default driver always returns 0, so it raises no driver error.\<close>

definition engine_exec ::
  "('io, 'o, 'c, 'v::{plus,minus,times,divide}, 's::{zero,one,plus,times,divide}) engine_env \<Rightarrow> bool \<Rightarrow> 'v turn list \<Rightarrow>
     ('io, 'o, 'c, 'v, 's) engine \<Rightarrow> (int \<times> ('io, 'o, 'c, 'v, 's) engine) result option" where
  "engine_exec E batch_mode turns e =
     map_option (\<lambda>r. bind_result r (\<lambda>e1.
         let e2 = toggle_locked_state False e1 in
         Inr (if en_status e2 = Status_error then -1 else 0, en_cleanup (ee_ops E) e2)))
       (driver_exec E turns ((toggle_locked_state True e)\<lparr>en_batchmode := batch_mode\<rparr>))"

text \<open>Queueing commands and updating the state.\<close>

lemma en_commands_simps [simp]:
  "transport_ok (en_command c e) = transport_ok e" "en_status (en_command c e) = en_status e"
  "en_running (en_command c e) = en_running e" "en_prepared (en_command c e) = en_prepared e"
  "en_finished (en_command c e) = en_finished e" "en_cs (en_command c e) = en_cs e"
  "en_exit_request (en_command c e) = en_exit_request e" "en_attached (en_command c e) = en_attached e"
  by (simp_all add: en_command_def transport_ok_def en_status_def)

lemma transport_ok_commands [simp]: "transport_ok (fold en_command cs e) = transport_ok e"
  by (induction cs arbitrary: e) simp_all

lemma transport_ok_fields:
  "en_running e' = en_running e \<Longrightarrow> en_prepared e' = en_prepared e \<Longrightarrow> cs_locked (en_cs e') = cs_locked (en_cs e) \<Longrightarrow>
   transport_ok e' = transport_ok e"
  by (simp add: transport_ok_def)

lemma transport_ok_update: "transport_ok (update_engine_state e) = transport_ok e"
  by (rule transport_ok_fields) (simp_all add: update_engine_state_def Let_def)

lemma check_command_queue_ok:
  assumes "check_command_queue E busy n e = Inr e'" "transport_ok e"
  shows "transport_ok e'"
  using assms
proof (induction E busy n e rule: check_command_queue.induct)
  case (1 E busy n e)
  show ?case
  proof (cases "mq_is_empty (fst (busy n)) (en_queue e) (en_queue e)")
    case True
    then show ?thesis using "1.prems" by (subst (asm) check_command_queue.simps) simp
  next
    case ne: False
    obtain r m q where p: "mq_pop_front (snd (busy n)) (en_queue e) = (r, m, q)" by (metis prod_cases3)
    have q: "transport_ok (e\<lparr>en_queue := q'\<rparr>)" for q' using "1.prems"(2) by (simp add: transport_ok_def)
    show ?thesis
    proof (cases "m = None \<or> r \<le> 0")
      case True
      then show ?thesis using "1.prems"(1) ne p q by (subst (asm) check_command_queue.simps) (auto split: option.splits)
    next
      case False
      then obtain c where c: "m = Some c" "\<not> r \<le> 0" by auto
      show ?thesis
      proof (cases "c = Ep_exit")
        case True
        then have "driver_exit (ee_io E) (e\<lparr>en_queue := mq_clear q\<rparr>) = Inr e'"
          using "1.prems"(1) ne p c by (subst (asm) check_command_queue.simps) simp
        then show ?thesis
          using q[of "mq_clear q"] stop_operation_frame[of "ee_io E" False "e\<lparr>en_queue := mq_clear q\<rparr>"]
          by (auto simp: driver_exit_def bind_result_Inr_iff transport_ok_def split: if_split_asm)
      next
        case nx: False
        obtain e1 where e1: "handle_command E c (e\<lparr>en_queue := q\<rparr>) = Inr e1" "check_command_queue E busy (Suc n) e1 = Inr e'"
          using "1.prems"(1) ne p c nx by (subst (asm) check_command_queue.simps) (auto simp: bind_result_Inr_iff)
        have "transport_ok e1" using handle_command_result[OF e1(1) q nx] by simp
        then show ?thesis using "1.IH"[OF ne p[symmetric] refl c(1) c(2) nx e1(1) e1(2)] by simp
      qed
    qed
  qed
qed


text \<open>What an iteration leaves alone.\<close>

definition iterates :: "('io, 'o, 'c, 'v, 's) engine \<Rightarrow> ('io, 'o, 'c, 'v, 's) engine \<Rightarrow> bool" where
  "iterates e e' \<longleftrightarrow> en_prepared e' = en_prepared e \<and> en_running e' = en_running e \<and>
     en_exit_request e' = en_exit_request e \<and> en_attached e' = en_attached e \<and> en_batchmode e' = en_batchmode e \<and>
     en_driver_errors e' = en_driver_errors e \<and> en_recording_offset e' = en_recording_offset e \<and>
     en_realtime_objects e' = en_realtime_objects e \<and> en_non_realtime_inputs e' = en_non_realtime_inputs e \<and>
     en_input_chain_count e' = en_input_chain_count e \<and> en_output_chain_count e' = en_output_chain_count e \<and>
     length (en_cslots e') = length (en_cslots e) \<and> length (cs_chains (en_cs e')) = length (cs_chains (en_cs e)) \<and>
     cs_locked (en_cs e') = cs_locked (en_cs e) \<and> cs_inputs (en_cs e') = cs_inputs (en_cs e) \<and>
     cs_outputs (en_cs e') = cs_outputs (en_cs e) \<and> cs_buffersize (en_cs e') = cs_buffersize (en_cs e)"

lemma iterates_refl [simp]: "iterates e e"
  by (simp add: iterates_def)

lemma iterates_trans [trans]: "iterates a b \<Longrightarrow> iterates b c \<Longrightarrow> iterates a c"
  by (simp add: iterates_def)

lemma fold_iterates:
  assumes "\<And>x e e'. f x e = Inr e' \<Longrightarrow> iterates e e'" "fold_result f xs e = Inr e'"
  shows "iterates e e'"
  by (rule fold_result_invariant[where I = "iterates e", OF _ _ assms(2)]) (auto intro: iterates_trans assms(1))

lemma objects_only_iterates: "objects_only e e' \<Longrightarrow> iterates e e'"
  by (auto simp: objects_only_def iterates_def)

lemma chains_only_iterates: "chains_only e e' \<Longrightarrow> iterates e e'"
  by (auto simp: chains_only_def iterates_def)

lemma seek_iterates: "en_seek iocls pos e = Inr e' \<Longrightarrow> iterates e e'"
  using seek_session[of iocls pos e e'] by (simp add: iterates_def same_session_def)

lemma read_input_iterates: "read_input E n slot e = Inr (e', slot') \<Longrightarrow> iterates e e'"
proof -
  assume *: "read_input E n slot e = Inr (e', slot')"
  obtain slot1 a x where 1: "length_in_samples (ee_garbage E) (cs_buffersize (en_cs e)) slot = Inr slot1"
      "at_index (cs_inputs (en_cs e)) (int n) = Inr a" "get_obj a (en_cs e) = Inr x"
    using * by (auto simp only: read_input_def bind_result_Inr_iff)
  have u: "iterates e (e\<lparr>en_cs := put_obj a y (en_cs e)\<rparr>)"
      "iterates e (e\<lparr>en_cs := put_obj a y (en_cs e), en_inputs_not_finished := k\<rparr>)" for y k
    by (simp_all add: iterates_def put_obj_def)
  show ?thesis
  proof (cases "io_finished (ee_io E) x")
    case True
    then show ?thesis using * 1 by (auto simp: read_input_def bind_result_Inr_iff)
  next
    case False
    then obtain y s where "io_read_buffer (ee_io E) slot1 x = Inr (y, s)"
        "e' = (if \<not> io_finished (ee_io E) y
               then e\<lparr>en_cs := put_obj a y (en_cs e), en_inputs_not_finished := en_inputs_not_finished e + 1\<rparr>
               else e\<lparr>en_cs := put_obj a y (en_cs e)\<rparr>)"
      using * 1 by (auto simp: read_input_def bind_result_Inr_iff Let_def)
    then show ?thesis using u by simp
  qed
qed

lemma on_slot_iterates:
  assumes "\<And>slot e1 slot'. f slot e = Inr (e1, slot') \<Longrightarrow> iterates e e1" "on_slot f c e = Inr e'"
  shows "iterates e e'"
proof -
  obtain e1 slot where "f (en_cslots e ! c) e = Inr (e1, slot)" "e' = e1\<lparr>en_cslots := (en_cslots e1)[c := slot]\<rparr>"
    using assms(2) by (auto simp: on_slot_def bind_result_Inr_iff split: if_split_asm)
  then show ?thesis using assms(1) by (fastforce simp: iterates_def)
qed

lemma input_chain_loop_iterates: "input_chain_loop E n cc cs e = Inr e' \<Longrightarrow> iterates e e'"
proof (induction cs arbitrary: e)
  case (Cons c cs)
  have "iterates e e1" if "on_slot (copy_mixslot (ee_garbage E)) c e = Inr e1" for e1
    by (rule on_slot_iterates[OF _ that]) (auto simp: copy_mixslot_def bind_result_Inr_iff)
  moreover have "iterates e e1" if "on_slot (read_input E n) c e = Inr e1" for e1
    by (rule on_slot_iterates[OF _ that]) (rule read_input_iterates)
  ultimately show ?case
    using Cons by (auto simp: bind_result_Inr_iff split: if_split_asm intro: iterates_trans)
qed simp

lemma input_to_chains_iterates:
  assumes "input_to_chains E n e = Inr e'" shows "iterates e e'"
proof -
  obtain cc e1 where 1: "(if cc > 1 then bind_result (read_input E n (en_mixslot e) e) (\<lambda>(e1, slot). Inr (e1\<lparr>en_mixslot := slot\<rparr>))
      else Inr e) = Inr e1" "input_chain_loop E n cc [0..<length (cs_chains (en_cs e1))] e1 = Inr e'"
    using assms by (auto simp: input_to_chains_def bind_result_Inr_iff)
  have "iterates e e1"
    using 1(1) by (auto simp: bind_result_Inr_iff iterates_def split: if_split_asm dest!: read_input_iterates)
  then show "iterates e e'" using input_chain_loop_iterates[OF 1(2)] by (rule iterates_trans)
qed

lemma inputs_to_chains_iterates: "inputs_to_chains E e = Inr e' \<Longrightarrow> iterates e e'"
  unfolding inputs_to_chains_def by (rule fold_iterates) (auto dest: input_to_chains_iterates)

lemma process_chains_iterates: "process_chains E e = Inr e' \<Longrightarrow> iterates e e'"
  unfolding process_chains_def by (rule fold_iterates) (auto dest: on_chain_frame chains_only_iterates)

lemma write_output_iterates:
  assumes "write_output iocls n slot e = Inr e'" shows "iterates e e'"
proof -
  obtain a x y where 1: "at_index (cs_outputs (en_cs e)) (int n) = Inr a" "get_obj a (en_cs e) = Inr x"
      "io_write_buffer iocls slot x = Inr y"
    using assms by (auto simp: write_output_def bind_result_Inr_iff)
  have "e' = e\<lparr>en_cs := put_obj a y (en_cs e)\<rparr> \<or>
      e' = e\<lparr>en_cs := put_obj a y (en_cs e), en_outputs_finished := en_outputs_finished e + 1\<rparr>"
    using assms by (cases "io_finished iocls y \<and> \<not> io_is_loop iocls y") (auto simp: write_output_def 1)
  moreover have "iterates e (e\<lparr>en_cs := put_obj a y (en_cs e)\<rparr>)"
      "iterates e (e\<lparr>en_cs := put_obj a y (en_cs e), en_outputs_finished := k\<rparr>)" for k
    by (simp_all add: iterates_def put_obj_def)
  ultimately show ?thesis by blast
qed

lemma mix_step_iterates: "mix_step E oc first slot e = Inr e' \<Longrightarrow> iterates e e'"
  by (auto simp: mix_step_def bind_result_Inr_iff iterates_def)

lemma output_chain_loop_iterates: "output_chain_loop E n oc cs count e = Inr e' \<Longrightarrow> iterates e e'"
proof (induction cs arbitrary: count e)
  case (Cons c cs)
  then show ?case
    by (auto simp: bind_result_Inr_iff split: if_split_asm
        intro: iterates_trans dest!: mix_step_iterates write_output_iterates)
qed simp

lemma mix_to_output_iterates:
  assumes "mix_to_output E skip n e = Inr e'" shows "iterates e e'"
proof -
  have "iterates e (e\<lparr>en_mixslot := slot\<rparr>)" for slot by (simp add: iterates_def)
  then show "iterates e e'"
    using assms by (auto simp: mix_to_output_def bind_result_Inr_iff split: if_split_asm
        intro: iterates_trans dest!: output_chain_loop_iterates)
qed

lemma mix_to_outputs_iterates: "mix_to_outputs E skip e = Inr e' \<Longrightarrow> iterates e e'"
  unfolding mix_to_outputs_def by (rule fold_iterates) (auto dest: mix_to_output_iterates)

lemma engine_iteration_iterates:
  assumes "engine_iteration E e = Inr e'" shows "iterates e e'"
proof -
  obtain e1 e2 e3 e4 where 1: "prehandle_control_position (ee_io E) (e\<lparr>en_inputs_not_finished := 0\<rparr>) = Inr e1"
      "inputs_to_chains E e1 = Inr e2" "process_chains E e2 = Inr e3"
      "(if en_preroll_samples e3 \<ge> en_recording_offset e3 then mix_to_outputs E False e3
        else bind_result (mix_to_outputs E True e3) (\<lambda>e4.
             Inr (e4\<lparr>en_preroll_samples := en_preroll_samples e4 + en_buffersize e4\<rparr>))) = Inr e4"
      "posthandle_control_position (ee_io E) e4 = Inr e'"
    using assms by (auto simp: engine_iteration_def bind_result_Inr_iff)
  have "iterates e e1"
    using 1(1) by (auto simp: prehandle_control_position_def Let_def iterates_def split: if_split_asm
        dest!: on_objects_frame objects_only_iterates)
  also have "iterates e1 e2" using 1(2) by (rule inputs_to_chains_iterates)
  also have "iterates e2 e3" using 1(3) by (rule process_chains_iterates)
  also have "iterates e3 e4"
    using 1(4) by (auto simp: bind_result_Inr_iff iterates_def split: if_split_asm dest!: mix_to_outputs_iterates)
  also have "iterates e4 e'"
  proof -
    have *: "iterates e5 e'" if "en_seek (ee_io E) 0 e5 = Inr e6" "on_objects f as e6 = Inr e'" for f as e5 e6
      using that seek_iterates on_objects_frame objects_only_iterates iterates_trans by metis
    have u: "iterates e4 (e4\<lparr>en_inputs_not_finished := 1\<rparr>)" "iterates e4 (e4\<lparr>en_finished := True\<rparr>)"
        "iterates e4 ((en_command Ep_stop_with_drain e4)\<lparr>en_finished := True\<rparr>)"
      by (simp_all add: iterates_def en_command_def)
    show ?thesis
      using 1(5) u by (auto simp: posthandle_control_position_def Let_def bind_result_Inr_iff split: if_split_asm
          intro: iterates_trans dest!: *)
  qed
  finally show ?thesis .
qed


subsection \<open>Over a whole run\<close>

lemma iterates_transport: "iterates e e' \<Longrightarrow> transport_ok e' = transport_ok e"
  by (rule transport_ok_fields) (simp_all add: iterates_def)

lemma driver_loop_ok:
  assumes "driver_loop E turns e = Some (Inr (drain, e'))" "transport_ok e"
  shows "transport_ok e'"
  using assms
proof (induction turns arbitrary: e)
  case (Cons t turns)
  obtain commands busy where t: "t = (commands, busy)" by fastforce
  obtain e1 where e1: "check_command_queue E busy 0 (fold en_command commands e) = Inr e1"
    using Cons.prems(1) t by (auto split: sum.splits)
  have ok: "transport_ok e1" using check_command_queue_ok[OF e1] Cons.prems(2) by simp
  show ?case
  proof (cases "\<not> en_exit_request e1 \<and> en_status e1 = Status_running")
    case True
    then obtain e2 where e2: "engine_iteration E e1 = Inr e2" "driver_loop E turns (update_engine_state e2) = Some (Inr (drain, e'))"
      using Cons.prems(1) t e1 by (auto split: sum.splits)
    have "transport_ok (update_engine_state e2)"
      using ok iterates_transport[OF engine_iteration_iterates[OF e2(1)]] by (simp add: transport_ok_update)
    then show ?thesis using Cons.IH[OF e2(2)] by blast
  next
    case False
    then have "e' = e1 \<or> driver_loop E turns (update_engine_state e1) = Some (Inr (drain, e'))"
      using Cons.prems(1) t e1 by (auto split: if_split_asm)
    then show ?thesis using ok Cons.IH[of "update_engine_state e1"] by (auto simp: transport_ok_update)
  qed
qed simp

text \<open>
  C5. However the control threads interleave their commands with a run, in any mode, and whatever the
  audio objects and operators do: when the engine's \<open>exec\<close> returns, the engine is neither running nor
  prepared, the chainsetup is unlocked, and the engine is detached from it.
\<close>

theorem engine_exec_releases:
  assumes "\<not> en_running e" "\<not> en_prepared e" "engine_exec E batch turns e = Some (Inr (code, e'))"
  shows "\<not> en_running e' \<and> \<not> en_prepared e' \<and> \<not> cs_locked (en_cs e') \<and> en_status e' = Status_notready"
proof -
  define e0 where "e0 = init_engine_state ((toggle_locked_state True e)\<lparr>en_batchmode := batch, en_exit_request := False\<rparr>)"
  have e0: "transport_ok e0" using assms(1,2) by (simp add: e0_def transport_ok_def toggle_locked_state_def)
  obtain e1 where 1: "driver_exec E turns ((toggle_locked_state True e)\<lparr>en_batchmode := batch\<rparr>) = Some (Inr e1)"
      "e' = en_cleanup (ee_ops E) (toggle_locked_state False e1)"
    using assms(3) by (auto simp: engine_exec_def bind_result_Inr_iff Let_def)
  obtain drain e2 where 2: "driver_loop E turns e0 = Some (Inr (drain, e2))"
      "(if en_prepared e2 then stop_operation (ee_io E) drain e2 else Inr e2) = Inr e1"
    using 1(1) by (auto simp: driver_exec_def bind_result_Inr_iff e0_def)
  have "transport_ok e2" using driver_loop_ok[OF 2(1) e0] .
  then have "\<not> en_running e1 \<and> \<not> en_prepared e1"
    using 2(2) driver_stop_result[of "ee_io E" drain e2 e1] by (simp add: driver_stop_def transport_ok_def)
  then show ?thesis
    by (simp add: 1(2) en_cleanup_def toggle_locked_state_def en_status_def)
qed

text \<open>Where a seeking command moves the engine to.\<close>

fun seek_target :: "'v engine_command \<Rightarrow> ('io, 'o, 'c, 'v, 's) engine \<Rightarrow> int option" where
  "seek_target (Ep_setpos_samples s) e = Some (truncate_rat s)"
| "seek_target (Ep_setpos s) e = Some (seconds_to_samples s (cp_pos (cs_position (en_cs e))))"
| "seek_target (Ep_forward s) e =
     (case position_in_seconds_exact (cp_pos (cs_position (en_cs e))) of
        Inl f \<Rightarrow> None | Inr p \<Rightarrow> Some (seconds_to_samples (p + s) (cp_pos (cs_position (en_cs e)))))"
| "seek_target (Ep_rewind s) e =
     (case position_in_seconds_exact (cp_pos (cs_position (en_cs e))) of
        Inl f \<Rightarrow> None | Inr p \<Rightarrow> Some (seconds_to_samples (p - s) (cp_pos (cs_position (en_cs e)))))"
| "seek_target c e = None"

text \<open>
  C29. A seek moves the engine, and only that: it ends at the target, or at 0 when that is negative, and
  is running and prepared exactly as before, although the seek itself stops and restarts it.
\<close>

theorem seeking_keeps_transport:
  assumes "transport_ok e" "seek_target c e = Some p" "handle_command E c e = Inr e'"
  shows "ap_position (cp_pos (cs_position (en_cs e'))) = max 0 p \<and>
    en_running e' = en_running e \<and> en_prepared e' = en_prepared e \<and> transport_ok e' \<and> en_queue e' = en_queue e \<and>
    (en_status e = Status_running \<longrightarrow> en_status e' = Status_running)"
proof -
  obtain reinit where "seek_sequence E reinit p e = Inr e'"
    using assms set_position_sequence[OF assms(1)] change_position_sequence[OF assms(1)]
    by (cases c) (auto simp: set_position_samples_sequence split: sum.splits)
  from seek_sequence_result[OF this assms(1)]
  have *: "same_session e e'" "transport_ok e'" "en_prepared e' = en_prepared e" "en_running e' = en_running e"
      "cs_position (en_cs e') = (cs_position (en_cs e))\<lparr>cp_pos := set_position_in_samples p (cp_pos (cs_position (en_cs e)))\<rparr>"
      "en_status e = Status_running \<longrightarrow> \<not> en_finished e' \<and> en_outputs_finished e' = 0"
    by blast+
  have "en_status e' = Status_running" if "en_status e = Status_running"
    using that * by (auto simp: en_status_def same_session_def split: if_split_asm)
  then show ?thesis using * by (simp add: same_session_def set_position_in_samples_def max_def)
qed


subsection \<open>An example engine\<close>

text \<open>
  Objects that are numbers: an input gives as many silent periods as its number says, and an output
  takes anything. One chain without operators connects the input at address 0 to the output at
  address 1; a period has two samples of one channel.
\<close>

definition period_io :: "(nat, rat) io_class" where
  "period_io = \<lparr>io_channels = (\<lambda>_. 1), io_finished = (\<lambda>x. x = 0),
     io_read_buffer = (\<lambda>b x. bind_result (make_silent b) (\<lambda>b'. Inr (x - 1, b'))),
     io_write_buffer = (\<lambda>b x. Inr x), io_set_buffersize = (\<lambda>n x. x), io_seek = (\<lambda>p x. x), io_length = (\<lambda>x. 0),
     io_is_device = (\<lambda>x. False), io_is_loop = (\<lambda>x. False), io_is_proxy = (\<lambda>x. False), io_prepare = (\<lambda>x. x),
     io_start = (\<lambda>x. x), io_stop = (\<lambda>d x. x), io_is_running = (\<lambda>x. False), io_start_forked = (\<lambda>x. x),
     io_stop_forked = (\<lambda>x. x), io_prefill_space = (\<lambda>x. 0), io_latency = (\<lambda>x. 0)\<rparr>"

definition period_env :: "(nat, unit, unit, rat, rat) engine_env" where
  "period_env = \<lparr>ee_ops = \<lparr>op_number_of_params = (\<lambda>_. 0), op_get_parameter = (\<lambda>_ _. 0), op_set_parameter = (\<lambda>_ _ _. ()),
       op_output_channels = (\<lambda>n _. n), op_init = (\<lambda>_ _. ()), op_process = (\<lambda>b _. Inr ((), b)), op_release = (\<lambda>_. ()),
       op_set_srate = (\<lambda>_ _. ())\<rparr>,
     ee_sources = \<lparr>src_value = (\<lambda>_ _. (0, ())), src_init = (\<lambda>_. ()), src_set_initial_value = (\<lambda>_ _. ()),
       src_set_parameter = (\<lambda>_ _ _. ()), src_get_parameter = (\<lambda>_ _. 0), value_to_int = (\<lambda>_. 0), value_of_int = (\<lambda>_. 0)\<rparr>,
     ee_io = period_io, ee_garbage = (\<lambda>_ _. 9), ee_cast = of_int, ee_samplerate = True, ee_tags = 0\<rparr>"

definition period_chainsetup :: "nat \<Rightarrow> (nat, unit, unit, rat) chainsetup" where
  "period_chainsetup periods = \<lparr>cs_objects = [0 \<mapsto> periods, 1 \<mapsto> 1], cs_inputs = [0], cs_inputs_direct = [0],
     cs_outputs = [1], cs_outputs_direct = [1], cs_loop_map = Map.empty,
     cs_chains = [(chain_create 0 0 44100)\<lparr>ch_name := ''a'', ch_input := 0, ch_output := 0\<rparr>],
     cs_selected = [''a''], cs_position = chainsetup_position_create 44100 0, cs_buffersize = 2, cs_mix_avg = False,
     cs_locked = False, cs_enabled = True, cs_db_clients = 0, cs_double_buffering = False, cs_max_buffers = False,
     cs_raised_priority = False, cs_rtcaps = False, cs_multitrack = False, cs_multitrack_override = False,
     cs_multitrack_offset = -1, cs_bmode = Bmode_auto, cs_bmode_active = Bmode_auto\<rparr>"

definition period_engine :: "nat \<Rightarrow> (nat, unit, unit, rat, rat) engine" where
  "period_engine periods = (case engine_create period_env False 0 0 (period_chainsetup periods) of Inr e \<Rightarrow> e | Inl f \<Rightarrow> undefined)"

text \<open>A batch run of two periods: started by the first command, it ends on its own.\<close>

definition quiet_turns :: "nat \<Rightarrow> rat turn list" where
  "quiet_turns n = ([Ep_start], \<lambda>_. (False, False)) # replicate n ([], \<lambda>_. (False, False))"

definition outcome :: "(int \<times> ('io, 'o, 'c, 'v, 's) engine) result option \<Rightarrow> (int \<times> int) option" where
  "outcome r = (case r of Some (Inr (code, e)) \<Rightarrow> Some (code, ap_position (cp_pos (cs_position (en_cs e)))) | _ \<Rightarrow> None)"

lemma period_run: "outcome (engine_exec period_env True (quiet_turns 5) (period_engine 2)) = Some (0, 4)"
  by code_simp


lemma outcome_Some: "outcome r = Some (code, p) \<Longrightarrow> \<exists>e. r = Some (Inr (code, e))"
  by (auto simp: outcome_def split: option.splits sum.splits)

lemma engine_exec_releases_witness:
  "\<exists>e'. engine_exec period_env True (quiet_turns 5) (period_engine 2) = Some (Inr (0, e')) \<and> \<not> en_running e' \<and>
     en_status e' = Status_notready"
proof -
  obtain e' where r: "engine_exec period_env True (quiet_turns 5) (period_engine 2) = Some (Inr (0, e'))"
    using outcome_Some[OF period_run] by blast
  have "\<not> en_running (period_engine 2)" "\<not> en_prepared (period_engine 2)" by code_simp+
  from engine_exec_releases[OF this r] show ?thesis using r by blast
qed

definition is_running_after :: "('io, 'o, 'c, 'v, 's) engine result \<Rightarrow> bool" where
  "is_running_after r = (case r of Inr e \<Rightarrow> en_status e = Status_running \<and> transport_ok e | Inl f \<Rightarrow> False)"

lemma seeking_keeps_transport_witness:
  "\<exists>e e'. handle_command period_env Ep_start (period_engine 2) = Inr e \<and>
     handle_command period_env (Ep_setpos_samples 100) e = Inr e' \<and>
     ap_position (cp_pos (cs_position (en_cs e'))) = 100 \<and> en_status e' = Status_running"
proof -
  have "is_running_after (handle_command period_env Ep_start (period_engine 2))" by code_simp
  then obtain e where e: "handle_command period_env Ep_start (period_engine 2) = Inr e" "en_status e = Status_running" "transport_ok e"
    by (auto simp: is_running_after_def simp del: handle_command.simps split: sum.splits)
  have "is_running_after (bind_result (handle_command period_env Ep_start (period_engine 2)) (handle_command period_env (Ep_setpos_samples 100)))"
    by code_simp
  then have "is_running_after (handle_command period_env (Ep_setpos_samples 100) e)"
    by (simp only: e(1) bind_result_simps)
  then obtain e' where e': "handle_command period_env (Ep_setpos_samples 100) e = Inr e'"
    by (auto simp: is_running_after_def simp del: handle_command.simps split: sum.splits)
  have "seek_target (Ep_setpos_samples 100) e = Some 100"
    using truncate_rat_int[of 100] by simp
  from seeking_keeps_transport[OF e(3) this e'] e e' show ?thesis by (auto simp del: handle_command.simps)
qed

end
