(* ===== verification/Engine_Mixing.thy ===== *)
theory Engine_Mixing
  imports Engine_Driver Loop_Device Chainsetup_Facts
begin

text \<open>
  The signal path sample by sample: what the mixing helpers add to a mix, that an output gets the sum
  or the average of the chains attached to it, and that every chain attached to an input gets the
  audio of one read of that input.
\<close>

lemma at_index_nth: "i < length xs \<Longrightarrow> at_index xs (int i) = Inr (xs ! i)"
  by (simp add: at_index_def)

subsection \<open>The mixing helpers\<close>

lemma first_mix_at:
  fixes dst :: "'s::field sample_buffer"
  assumes "sb_wf dst" "sb_wf src"
  shows "\<exists>dst1 dst2. (if sb_channel_count src < sb_channel_count dst then make_silent dst else Inr dst) = Inr dst1 \<and>
    copy_matching_channels g src dst1 = Inr dst2 \<and> sb_wf dst2 \<and> sb_channel_count dst2 = sb_channel_count dst \<and>
    sb_buffersize dst2 = sb_buffersize src \<and>
    (\<forall>c < sb_channel_count dst. \<forall>t < sb_buffersize src. sample_at dst2 c t = sample_at src c t)"
proof -
  obtain dst1 where 1: "(if sb_channel_count src < sb_channel_count dst then make_silent dst else Inr dst) = Inr dst1"
      "sb_wf dst1" "sb_channel_count dst1 = sb_channel_count dst"
      "sb_channel_count src < sb_channel_count dst \<Longrightarrow> \<forall>c t. sample_at dst1 c t = 0"
    using make_silent_at[OF assms(1)] assms(1) by (cases "sb_channel_count src < sb_channel_count dst") auto
  from copy_matching_at[OF 1(2) assms(2), of g] obtain dst2 where 2: "copy_matching_channels g src dst1 = Inr dst2" "sb_wf dst2"
      "sb_channel_count dst2 = sb_channel_count dst" "sb_buffersize dst2 = sb_buffersize src"
      "\<forall>c < sb_channel_count dst. \<forall>t < sb_buffersize src.
         sample_at dst2 c t = (if c < sb_channel_count src then sample_at src c t else sample_at dst1 c t)"
    unfolding 1(3) by blast
  have "sample_at dst2 c t = sample_at src c t" if "c < sb_channel_count dst" "t < sb_buffersize src" for c t
    using 2(5) that 1(4) by (auto simp: sample_at_def[of src])
  then show ?thesis using 1(1) 2(1-4) by blast
qed

text \<open>What a step adds: a chain's sample, divided by the number of chains when averaging.\<close>

definition mix_weight :: "('io, 'o, 'c, 'v, 's::field) engine_env \<Rightarrow> bool \<Rightarrow> nat \<Rightarrow> 's" where
  "mix_weight E avg oc = (if avg then ee_cast E (int oc) else 1)"

lemma mix_divide_at:
  fixes dst :: "'s::field sample_buffer"
  assumes "sb_wf dst" "sb_wf src"
  shows "\<exists>mix. mix_to_outputs_divide_helper E src k first dst = Inr mix \<and> sb_wf mix \<and> sb_channel_count mix = sb_channel_count dst \<and>
    sb_buffersize mix = (if first then sb_buffersize src else max (sb_buffersize dst) (sb_buffersize src)) \<and>
    (\<forall>c < sb_channel_count dst. \<forall>t < sb_buffersize mix.
       sample_at mix c t = (if first then 0 else sample_at dst c t) + sample_at src c t / ee_cast E k)"
proof (cases first)
  case True
  obtain dst1 dst2 where 1: "(if sb_channel_count src < sb_channel_count dst then make_silent dst else Inr dst) = Inr dst1"
      "copy_matching_channels (ee_garbage E) src dst1 = Inr dst2" "sb_wf dst2" "sb_channel_count dst2 = sb_channel_count dst"
      "sb_buffersize dst2 = sb_buffersize src"
      "\<forall>c < sb_channel_count dst. \<forall>t < sb_buffersize src. sample_at dst2 c t = sample_at src c t"
    using first_mix_at[OF assms] by blast
  from divide_by_at[OF 1(3), of "ee_cast E k"] show ?thesis
    using True 1 by (auto simp: mix_to_outputs_divide_helper_def)
next
  case False
  then show ?thesis
    using add_with_weight_at[OF assms, of "ee_garbage E" "ee_cast E" k] by (auto simp: mix_to_outputs_divide_helper_def)
qed

lemma mix_sum_at:
  fixes dst :: "'s::field sample_buffer"
  assumes "sb_wf dst" "sb_wf src"
  shows "\<exists>mix. mix_to_outputs_sum_helper E src first dst = Inr mix \<and> sb_wf mix \<and> sb_channel_count mix = sb_channel_count dst \<and>
    sb_buffersize mix = (if first then sb_buffersize src else max (sb_buffersize dst) (sb_buffersize src)) \<and>
    (\<forall>c < sb_channel_count dst. \<forall>t < sb_buffersize mix.
       sample_at mix c t = (if first then 0 else sample_at dst c t) + sample_at src c t)"
proof (cases first)
  case True
  then show ?thesis using first_mix_at[OF assms, of "ee_garbage E"] by (fastforce simp: mix_to_outputs_sum_helper_def)
next
  case False
  then show ?thesis
    using add_matching_at[OF assms, of "ee_garbage E"] by (auto simp: mix_to_outputs_sum_helper_def)
qed

lemma mix_step_at:
  fixes e :: "('io, 'o, 'c, 'v, 's::field) engine"
  assumes "sb_wf (en_mixslot e)" "sb_wf slot"
  shows "\<exists>mix. mix_step E oc first slot e = Inr (e\<lparr>en_mixslot := mix\<rparr>) \<and> sb_wf mix \<and>
    sb_channel_count mix = sb_channel_count (en_mixslot e) \<and>
    sb_buffersize mix = (if first then sb_buffersize slot else max (sb_buffersize (en_mixslot e)) (sb_buffersize slot)) \<and>
    (\<forall>c < sb_channel_count mix. \<forall>t < sb_buffersize mix.
       sample_at mix c t = (if first then 0 else sample_at (en_mixslot e) c t) +
         sample_at slot c t / mix_weight E (cs_mix_avg (en_cs e)) oc)"
proof -
  have tag: "sb_wf (event_tags_add slot m) = sb_wf m" "sb_channel_count (event_tags_add slot m) = sb_channel_count m"
      "sb_buffersize (event_tags_add slot m) = sb_buffersize m" "sample_at (event_tags_add slot m) c t = sample_at m c t" for m c t
    by (simp_all add: event_tags_add_def sb_wf_def sample_at_def sb_audio_def)
  show ?thesis
  proof (cases "cs_mix_avg (en_cs e)")
    case True
    from mix_divide_at[OF assms, of E "int oc" first] obtain m where
      "mix_to_outputs_divide_helper E slot (int oc) first (en_mixslot e) = Inr m" "sb_wf m"
      "sb_channel_count m = sb_channel_count (en_mixslot e)"
      "sb_buffersize m = (if first then sb_buffersize slot else max (sb_buffersize (en_mixslot e)) (sb_buffersize slot))"
      "\<forall>c < sb_channel_count (en_mixslot e). \<forall>t < sb_buffersize m.
         sample_at m c t = (if first then 0 else sample_at (en_mixslot e) c t) + sample_at slot c t / ee_cast E (int oc)"
      by blast
    then show ?thesis using True
      by (intro exI[of _ "event_tags_add slot m"]) (simp add: mix_step_def tag mix_weight_def)
  next
    case False
    from mix_sum_at[OF assms, of E first] obtain m where
      "mix_to_outputs_sum_helper E slot first (en_mixslot e) = Inr m" "sb_wf m"
      "sb_channel_count m = sb_channel_count (en_mixslot e)"
      "sb_buffersize m = (if first then sb_buffersize slot else max (sb_buffersize (en_mixslot e)) (sb_buffersize slot))"
      "\<forall>c < sb_channel_count (en_mixslot e). \<forall>t < sb_buffersize m.
         sample_at m c t = (if first then 0 else sample_at (en_mixslot e) c t) + sample_at slot c t"
      by blast
    then show ?thesis using False
      by (intro exI[of _ "event_tags_add slot m"]) (simp add: mix_step_def tag mix_weight_def)
  qed
qed


subsection \<open>What an output gets\<close>

definition attached_chains :: "(('o, 'c, 'v) chain \<Rightarrow> int) \<Rightarrow> nat \<Rightarrow> ('o, 'c, 'v) chain list \<Rightarrow> nat list \<Rightarrow> nat list" where
  "attached_chains conn n chs cs = filter (\<lambda>c. conn (chs ! c) = int n) cs"

lemma attached_chains_simps [simp]:
  "attached_chains conn n chs [] = []"
  "attached_chains conn n chs (c # cs) =
     (if conn (chs ! c) = int n then c # attached_chains conn n chs cs else attached_chains conn n chs cs)"
  by (simp_all add: attached_chains_def)

lemma output_loop_none:
  "attached_chains ch_output n (cs_chains (en_cs e)) cs = [] \<Longrightarrow> output_chain_loop E n oc cs count e = Inr e"
  by (induction cs) (auto split: if_split_asm)

lemma write_output_chains: "write_output iocls n slot e = Inr e' \<Longrightarrow> cs_chains (en_cs e') = cs_chains (en_cs e)"
proof -
  assume *: "write_output iocls n slot e = Inr e'"
  then obtain a x y where 1: "at_index (cs_outputs (en_cs e)) (int n) = Inr a" "get_obj a (en_cs e) = Inr x"
      "io_write_buffer iocls slot x = Inr y"
    by (auto simp: write_output_def bind_result_Inr_iff)
  show ?thesis
    using * by (cases "io_finished iocls y \<and> \<not> io_is_loop iocls y") (auto simp: write_output_def 1 put_obj_def)
qed

lemma sample_outside: "sb_buffersize b \<le> t \<Longrightarrow> sample_at b c t = 0"
  by (simp add: sample_at_def)

lemma sum_list_divide: "(\<Sum>j\<leftarrow>xs. f j / w) = (\<Sum>j\<leftarrow>xs. f j) / (w :: 's::field)"
  by (induction xs) (simp_all add: add_divide_distrib)

text \<open>The mix of the chains in a list, on top of what has been mixed.\<close>

lemma output_loop_mix:
  fixes e :: "('io, 'o, 'c, 'v, 's::field) engine"
  assumes "oc = count + length (attached_chains ch_output n (cs_chains (en_cs e)) cs)" "2 \<le> oc"
    and "attached_chains ch_output n (cs_chains (en_cs e)) cs \<noteq> []"
    and "sb_wf (en_mixslot e)" "\<forall>j \<in> set cs. j < length (en_cslots e) \<and> sb_wf (en_cslots e ! j)"
  shows "\<exists>mix. output_chain_loop E n oc cs count e = write_output (ee_io E) n mix (e\<lparr>en_mixslot := mix\<rparr>) \<and> sb_wf mix \<and>
    sb_channel_count mix = sb_channel_count (en_mixslot e) \<and>
    (\<forall>j \<in> set (attached_chains ch_output n (cs_chains (en_cs e)) cs). sb_buffersize (en_cslots e ! j) \<le> sb_buffersize mix) \<and>
    (count \<noteq> 0 \<longrightarrow> sb_buffersize (en_mixslot e) \<le> sb_buffersize mix) \<and>
    (\<forall>c < sb_channel_count mix. \<forall>t. sample_at mix c t = (if count = 0 then 0 else sample_at (en_mixslot e) c t) +
       (\<Sum>j\<leftarrow>attached_chains ch_output n (cs_chains (en_cs e)) cs.
          sample_at (en_cslots e ! j) c t / mix_weight E (cs_mix_avg (en_cs e)) oc))"
  using assms
proof (induction cs arbitrary: count e)
  case (Cons d cs)
  have d: "d < length (en_cslots e)" "sb_wf (en_cslots e ! d)" using Cons.prems(5) by simp_all
  show ?case
  proof (cases "ch_output (cs_chains (en_cs e) ! d) = int n")
    case False
    have "output_chain_loop E n oc (d # cs) count e = output_chain_loop E n oc cs count e" using False by simp
    then show ?thesis using Cons.IH[of count e] Cons.prems False by simp
  next
    case True
    let ?w = "mix_weight E (cs_mix_avg (en_cs e)) oc"
    from mix_step_at[OF Cons.prems(4) d(2), of E oc "count + 1 = 1"]
    obtain m where m: "mix_step E oc (count + 1 = 1) (en_cslots e ! d) e = Inr (e\<lparr>en_mixslot := m\<rparr>)" "sb_wf m"
        "sb_channel_count m = sb_channel_count (en_mixslot e)"
        "sb_buffersize m = (if count = 0 then sb_buffersize (en_cslots e ! d) else max (sb_buffersize (en_mixslot e)) (sb_buffersize (en_cslots e ! d)))"
        "\<forall>c < sb_channel_count m. \<forall>t < sb_buffersize m.
           sample_at m c t = (if count = 0 then 0 else sample_at (en_mixslot e) c t) + sample_at (en_cslots e ! d) c t / ?w"
      by auto
    have all: "sample_at m c t = (if count = 0 then 0 else sample_at (en_mixslot e) c t) + sample_at (en_cslots e ! d) c t / ?w"
      if "c < sb_channel_count m" for c t
      using m(4,5) that by (cases "t < sb_buffersize m") (auto simp: sample_outside split: if_split_asm)
    define e1 where "e1 = e\<lparr>en_mixslot := m\<rparr>"
    have step: "output_chain_loop E n oc (d # cs) count e =
        bind_result (if count + 1 = oc then write_output (ee_io E) n m e1 else Inr e1) (output_chain_loop E n oc cs (count + 1))"
      using True Cons.prems(2) m(1)[simplified] d(1) by (simp add: at_index_nth e1_def)
    show ?thesis
    proof (cases "attached_chains ch_output n (cs_chains (en_cs e)) cs = []")
      case none: True
      then have oc: "count + 1 = oc" using Cons.prems(1) True by simp
      have "output_chain_loop E n oc (d # cs) count e = write_output (ee_io E) n m e1"
      proof (cases "write_output (ee_io E) n m e1")
        case (Inr e2)
        have "cs_chains (en_cs e2) = cs_chains (en_cs e)" using write_output_chains[OF Inr] by (simp add: e1_def)
        then show ?thesis using step oc Inr output_loop_none[of n e2 cs] none by simp
      qed (use step oc in simp)
      then show ?thesis
        using m all none True by (intro exI[of _ m]) (auto simp: e1_def)
    next
      case more: False
      then have nc: "count + 1 \<noteq> oc" using Cons.prems(1) True by simp
      have ch: "cs_chains (en_cs e1) = cs_chains (en_cs e)" "en_cslots e1 = en_cslots e" "en_mixslot e1 = m"
          "cs_mix_avg (en_cs e1) = cs_mix_avg (en_cs e)" by (simp_all add: e1_def)
      from Cons.IH[of "count + 1" e1, unfolded ch] more Cons.prems True m(2)
      obtain mix where mix: "output_chain_loop E n oc cs (count + 1) e1 = write_output (ee_io E) n mix (e1\<lparr>en_mixslot := mix\<rparr>)" "sb_wf mix"
          "sb_channel_count mix = sb_channel_count m" "sb_buffersize m \<le> sb_buffersize mix"
          "\<forall>j \<in> set (attached_chains ch_output n (cs_chains (en_cs e)) cs). sb_buffersize (en_cslots e ! j) \<le> sb_buffersize mix"
          "\<forall>c < sb_channel_count mix. \<forall>t. sample_at mix c t = sample_at m c t +
             (\<Sum>j\<leftarrow>attached_chains ch_output n (cs_chains (en_cs e)) cs. sample_at (en_cslots e ! j) c t / ?w)"
        by auto
      have "output_chain_loop E n oc (d # cs) count e = write_output (ee_io E) n mix (e\<lparr>en_mixslot := mix\<rparr>)"
        using step nc mix(1) by (simp add: e1_def)
      then show ?thesis
        using mix m(3,4) all True by (intro exI[of _ mix]) (auto simp: add.assoc split: if_split_asm)
    qed
  qed
qed simp

definition output_chains :: "nat \<Rightarrow> ('io, 'o, 'c, 'v, 's) engine \<Rightarrow> nat list" where
  "output_chains n e = attached_chains ch_output n (cs_chains (en_cs e)) [0..<length (cs_chains (en_cs e))]"

definition input_chains :: "nat \<Rightarrow> ('io, 'o, 'c, 'v, 's) engine \<Rightarrow> nat list" where
  "input_chains n e = attached_chains ch_input n (cs_chains (en_cs e)) [0..<length (cs_chains (en_cs e))]"

text \<open>
  C3. An output with several chains attached gets one write per iteration, of the sum of what the chains
  hold, or of their average in the averaging mode, sample by sample, over as many samples as the
  longest of them has.
\<close>

theorem output_gets_the_mix:
  fixes e :: "('io, 'o, 'c, 'v, 's::field) engine"
  assumes "at_index (cs_outputs (en_cs e)) (int n) = Inr a" "get_obj a (en_cs e) = Inr x"
    and "at_index (en_output_chain_count e) (int n) = Inr (length (output_chains n e))" "2 \<le> length (output_chains n e)"
    and "sb_wf (en_mixslot e)" "length (en_cslots e) = length (cs_chains (en_cs e))" "\<forall>s \<in> set (en_cslots e). sb_wf s"
  shows "\<exists>mix. mix_to_output E False n e = write_output (ee_io E) n mix (e\<lparr>en_mixslot := mix\<rparr>) \<and>
    sb_channel_count mix = io_channels (ee_io E) x \<and>
    (\<forall>j \<in> set (output_chains n e). sb_buffersize (en_cslots e ! j) \<le> sb_buffersize mix) \<and>
    (\<forall>c < io_channels (ee_io E) x. \<forall>t. sample_at mix c t =
       (\<Sum>j\<leftarrow>output_chains n e. sample_at (en_cslots e ! j) c t) / (if cs_mix_avg (en_cs e) then ee_cast E (int (length (output_chains n e))) else 1))"
proof -
  define attached where "attached = output_chains n e"
  note assms = assms[folded attached_def]
  from number_of_channels_at[OF assms(5), of "ee_garbage E" "io_channels (ee_io E) x"]
  obtain slot where s: "number_of_channels (ee_garbage E) (io_channels (ee_io E) x) (en_mixslot e) = Inr slot" "sb_wf slot"
      "sb_channel_count slot = io_channels (ee_io E) x" by blast
  define e0 where "e0 = e\<lparr>en_mixslot := slot\<rparr>"
  have e0: "en_cs e0 = en_cs e" "en_cslots e0 = en_cslots e" "en_mixslot e0 = slot" by (simp_all add: e0_def)
  have ne: "attached \<noteq> []" using assms(4) by auto
  have sl: "\<forall>j \<in> set [0..<length (cs_chains (en_cs e))]. j < length (en_cslots e) \<and> sb_wf (en_cslots e ! j)"
    using assms(6,7) by auto
  have eq: "mix_to_output E False n e = output_chain_loop E n (length attached) [0..<length (cs_chains (en_cs e))] 0 e0"
    by (simp add: mix_to_output_def assms(1,2,3) s(1) e0_def)
  from output_loop_mix[of "length attached" 0 n e0 "[0..<length (cs_chains (en_cs e))]" E, unfolded e0, folded output_chains_def, folded attached_def] assms(4) ne s(2) sl
  obtain mix where mix: "output_chain_loop E n (length attached) [0..<length (cs_chains (en_cs e))] 0 e0 =
        write_output (ee_io E) n mix (e0\<lparr>en_mixslot := mix\<rparr>)" "sb_channel_count mix = sb_channel_count slot"
      "\<forall>j \<in> set attached. sb_buffersize (en_cslots e ! j) \<le> sb_buffersize mix"
      "\<forall>c < sb_channel_count mix. \<forall>t. sample_at mix c t =
         (\<Sum>j\<leftarrow>attached. sample_at (en_cslots e ! j) c t / mix_weight E (cs_mix_avg (en_cs e)) (length attached))"
    by auto
  have w: "(\<Sum>j\<leftarrow>attached. sample_at (en_cslots e ! j) c t / mix_weight E (cs_mix_avg (en_cs e)) (length attached)) =
      (\<Sum>j\<leftarrow>attached. sample_at (en_cslots e ! j) c t) / (if cs_mix_avg (en_cs e) then ee_cast E (int (length attached)) else 1)" for c t
    by (simp add: sum_list_divide mix_weight_def)
  show ?thesis
    unfolding attached_def[symmetric] using eq mix s(3) unfolding w by (intro exI[of _ mix]) (simp add: e0_def)
qed


subsection \<open>What the chains get\<close>

text \<open>The same audio, seen from outside: channels, length and samples.\<close>

definition same_audio :: "'s::zero sample_buffer \<Rightarrow> 's sample_buffer \<Rightarrow> bool" where
  "same_audio b b' \<longleftrightarrow> sb_channel_count b' = sb_channel_count b \<and> sb_buffersize b' = sb_buffersize b \<and>
     (\<forall>c t. sample_at b' c t = sample_at b c t)"

lemma input_loop_one:
  "attached_chains ch_input n (cs_chains (en_cs e)) cs = [j] \<Longrightarrow>
   input_chain_loop E n 1 cs e = on_slot (read_input E n) j e"
  by (induction cs) (auto split: if_split_asm)

lemma input_loop_copies:
  fixes e :: "('io, 'o, 'c, 'v, 's::field) engine"
  assumes "cc \<noteq> 1" "sb_wf (en_mixslot e)" "\<forall>j \<in> set cs. j < length (en_cslots e)" "\<forall>s \<in> set (en_cslots e). sb_wf s"
  shows "\<exists>ss. input_chain_loop E n cc cs e = Inr (e\<lparr>en_cslots := ss\<rparr>) \<and> length ss = length (en_cslots e) \<and> (\<forall>s \<in> set ss. sb_wf s) \<and>
    (\<forall>j < length ss. if j \<in> set (attached_chains ch_input n (cs_chains (en_cs e)) cs) then same_audio (en_mixslot e) (ss ! j)
       else ss ! j = en_cslots e ! j)"
  using assms
proof (induction cs arbitrary: e)
  case Nil
  then show ?case by (intro exI[of _ "en_cslots e"]) simp
next
  case (Cons d cs)
  show ?case
  proof (cases "ch_input (cs_chains (en_cs e) ! d) = int n")
    case False
    then show ?thesis using Cons.IH[of e] Cons.prems by simp
  next
    case True
    have d: "d < length (en_cslots e)" "sb_wf (en_cslots e ! d)" using Cons.prems(3,4) by auto
    from copy_all_content_at[OF d(2) Cons.prems(2), of "ee_garbage E"] obtain b where
      b: "copy_all_content (ee_garbage E) (en_mixslot e) (en_cslots e ! d) = Inr b" "sb_wf b" "same_audio (en_mixslot e) b"
      by (auto simp: same_audio_def)
    define e1 where "e1 = e\<lparr>en_cslots := (en_cslots e)[d := b]\<rparr>"
    have step: "on_slot (copy_mixslot (ee_garbage E)) d e = Inr e1"
      using d(1) b(1) by (simp add: on_slot_def copy_mixslot_def e1_def)
    have e1: "en_mixslot e1 = en_mixslot e" "en_cs e1 = en_cs e" "en_cslots e1 = (en_cslots e)[d := b]" by (simp_all add: e1_def)
    have w: "\<forall>s \<in> set ((en_cslots e)[d := b]). sb_wf s"
      using Cons.prems(4) b(2) set_update_subset_insert by fastforce
    from Cons.IH[of e1, unfolded e1] Cons.prems(1-3) w obtain ss where
      ss: "input_chain_loop E n cc cs e1 = Inr (e1\<lparr>en_cslots := ss\<rparr>)" "length ss = length (en_cslots e)" "\<forall>s \<in> set ss. sb_wf s"
      "\<forall>j < length ss. if j \<in> set (attached_chains ch_input n (cs_chains (en_cs e)) cs) then same_audio (en_mixslot e) (ss ! j)
         else ss ! j = (en_cslots e)[d := b] ! j"
      by auto
    have "input_chain_loop E n cc (d # cs) e = Inr (e\<lparr>en_cslots := ss\<rparr>)"
      using True Cons.prems(1) step ss(1) by (simp add: e1_def)
    moreover have "if j \<in> set (attached_chains ch_input n (cs_chains (en_cs e)) (d # cs)) then same_audio (en_mixslot e) (ss ! j)
        else ss ! j = en_cslots e ! j" if "j < length ss" for j
      using ss(2,4) that True b(3) d(1) by (cases "j = d") (auto split: if_split_asm)
    ultimately show ?thesis using ss(2,3) by blast
  qed
qed

text \<open>
  C4. Every chain attached to an input that has not ended gets the audio of one and the same read, for
  which the input is offered a buffer of the engine's size; the other chains keep theirs. The input
  is counted as unfinished exactly if it has more to give after the read.
\<close>

theorem chains_get_the_input:
  fixes e :: "('io, 'o, 'c, 'v, 's::field) engine"
  assumes "at_index (cs_inputs (en_cs e)) (int n) = Inr a" "get_obj a (en_cs e) = Inr x" "\<not> io_finished (ee_io E) x"
    and "\<And>b. sb_wf b \<Longrightarrow> \<exists>x' b'. io_read_buffer (ee_io E) b x = Inr (x', b') \<and> sb_wf b'"
    and "at_index (en_input_chain_count e) (int n) = Inr (length (input_chains n e))" "input_chains n e \<noteq> []"
    and "sb_wf (en_mixslot e)" "length (en_cslots e) = length (cs_chains (en_cs e))" "\<forall>s \<in> set (en_cslots e). sb_wf s"
  shows "\<exists>e' slot x' b. input_to_chains E n e = Inr e' \<and> sb_buffersize slot = cs_buffersize (en_cs e) \<and>
    io_read_buffer (ee_io E) slot x = Inr (x', b) \<and> get_obj a (en_cs e') = Inr x' \<and>
    (\<forall>j < length (en_cslots e). if j \<in> set (input_chains n e) then same_audio b (en_cslots e' ! j)
       else en_cslots e' ! j = en_cslots e ! j) \<and>
    en_inputs_not_finished e' = en_inputs_not_finished e + (if io_finished (ee_io E) x' then 0 else 1)"
proof -
  define k where "k = length (input_chains n e)"
  have rd: "\<exists>slot x' b e1. read_input E n s e = Inr (e1, b) \<and> sb_buffersize slot = cs_buffersize (en_cs e) \<and>
      io_read_buffer (ee_io E) slot x = Inr (x', b) \<and> sb_wf b \<and>
      (e1 = e\<lparr>en_cs := put_obj a x' (en_cs e), en_inputs_not_finished := en_inputs_not_finished e + (if io_finished (ee_io E) x' then 0 else 1)\<rparr>)"
    if s: "sb_wf s" for s
  proof -
    from length_in_samples_at[OF s, of "ee_garbage E" "cs_buffersize (en_cs e)"] obtain slot where
      1: "length_in_samples (ee_garbage E) (cs_buffersize (en_cs e)) s = Inr slot" "sb_wf slot" "sb_buffersize slot = cs_buffersize (en_cs e)"
      by blast
    obtain x' b where 2: "io_read_buffer (ee_io E) slot x = Inr (x', b)" "sb_wf b" using assms(4)[OF 1(2)] by blast
    have "read_input E n s e = Inr (e\<lparr>en_cs := put_obj a x' (en_cs e),
        en_inputs_not_finished := en_inputs_not_finished e + (if io_finished (ee_io E) x' then 0 else 1)\<rparr>, b)"
      using assms(1-3) 1(1) 2(1) by (simp add: read_input_def Let_def)
    then show ?thesis using 1(3) 2 by blast
  qed
  show ?thesis
  proof (cases "k = 1")
    case True
    then obtain j where j: "input_chains n e = [j]" by (auto simp: k_def length_Suc_conv)
    then have "j \<in> set (input_chains n e)" by simp
    then have jl: "j < length (en_cslots e)" using assms(8) by (auto simp: input_chains_def attached_chains_def)
    then have "sb_wf (en_cslots e ! j)" using assms(9) by simp
    from rd[OF this] obtain slot x' b e1 where 1: "read_input E n (en_cslots e ! j) e = Inr (e1, b)"
        "sb_buffersize slot = cs_buffersize (en_cs e)" "io_read_buffer (ee_io E) slot x = Inr (x', b)" "sb_wf b"
        "e1 = e\<lparr>en_cs := put_obj a x' (en_cs e), en_inputs_not_finished := en_inputs_not_finished e + (if io_finished (ee_io E) x' then 0 else 1)\<rparr>"
      by blast
    have "input_to_chains E n e = Inr (e1\<lparr>en_cslots := (en_cslots e1)[j := b]\<rparr>)"
      using assms(5) True j input_loop_one[of n e _ j E] jl 1(1)
      by (simp add: input_to_chains_def k_def input_chains_def on_slot_def)
    then show ?thesis
      using 1 j jl by (intro exI[of _ "e1\<lparr>en_cslots := (en_cslots e1)[j := b]\<rparr>"] exI[of _ slot] exI[of _ x'] exI[of _ b])
        (auto simp: same_audio_def get_obj_def put_obj_def nth_list_update)
  next
    case False
    then have k: "k > 1" using assms(6) by (cases "input_chains n e") (auto simp: k_def)
    from rd[OF assms(7)] obtain slot x' b e1 where 1: "read_input E n (en_mixslot e) e = Inr (e1, b)"
        "sb_buffersize slot = cs_buffersize (en_cs e)" "io_read_buffer (ee_io E) slot x = Inr (x', b)" "sb_wf b"
        "e1 = e\<lparr>en_cs := put_obj a x' (en_cs e), en_inputs_not_finished := en_inputs_not_finished e + (if io_finished (ee_io E) x' then 0 else 1)\<rparr>"
      by blast
    define e2 where "e2 = e1\<lparr>en_mixslot := b\<rparr>"
    have e2: "en_mixslot e2 = b" "en_cslots e2 = en_cslots e" "cs_chains (en_cs e2) = cs_chains (en_cs e)"
      by (simp_all add: e2_def 1(5) put_obj_def)
    have "\<forall>j \<in> set [0..<length (cs_chains (en_cs e))]. j < length (en_cslots e)" using assms(8) by auto
    from input_loop_copies[of k e2 "[0..<length (cs_chains (en_cs e))]" E n, unfolded e2, OF False 1(4) this assms(9)] obtain ss where
      ss: "input_chain_loop E n k [0..<length (cs_chains (en_cs e))] e2 = Inr (e2\<lparr>en_cslots := ss\<rparr>)" "length ss = length (en_cslots e)"
      "\<forall>j < length ss. if j \<in> set (input_chains n e) then same_audio b (ss ! j) else ss ! j = en_cslots e ! j"
      unfolding input_chains_def by blast
    have "input_to_chains E n e = Inr (e2\<lparr>en_cslots := ss\<rparr>)"
      using assms(5) k 1(1) ss(1) e2(3) by (simp add: input_to_chains_def k_def e2_def)
    then show ?thesis
      using 1 ss(2,3) by (intro exI[of _ "e2\<lparr>en_cslots := ss\<rparr>"] exI[of _ slot] exI[of _ x'] exI[of _ b])
        (simp add: e2_def get_obj_def put_obj_def)
  qed
qed

subsection \<open>Examples\<close>

text \<open>Two chains that share an input and an output, and hold the constant signals 1 and 3.\<close>

definition two_chains :: "bool \<Rightarrow> (nat, unit, unit, rat, rat) engine" where
  "two_chains avg = (period_engine 2)\<lparr>
     en_cs := (period_chainsetup 2)\<lparr>cs_mix_avg := avg, cs_chains := [(chain_create 0 0 44100)\<lparr>ch_input := 0, ch_output := 0\<rparr>,
                                                 (chain_create 0 0 44100)\<lparr>ch_input := 0, ch_output := 0\<rparr>]\<rparr>,
     en_mixslot := tone 0, en_cslots := [tone 1, tone 3], en_input_chain_count := [2], en_output_chain_count := [2]\<rparr>"

lemma two_chains_simps:
  "at_index (cs_outputs (en_cs (two_chains avg))) (int 0) = Inr 1" "get_obj 1 (en_cs (two_chains avg)) = Inr 1"
  "at_index (cs_inputs (en_cs (two_chains avg))) (int 0) = Inr 0" "get_obj 0 (en_cs (two_chains avg)) = Inr 2"
  "output_chains 0 (two_chains avg) = [0, 1]" "input_chains 0 (two_chains avg) = [0, 1]"
  "at_index (en_output_chain_count (two_chains avg)) (int 0) = Inr 2" "at_index (en_input_chain_count (two_chains avg)) (int 0) = Inr 2"
  "en_cslots (two_chains avg) = [tone 1, tone 3]" "en_mixslot (two_chains avg) = tone 0" "cs_mix_avg (en_cs (two_chains avg)) = avg"
  "length (cs_chains (en_cs (two_chains avg))) = 2" "cs_buffersize (en_cs (two_chains avg)) = 2"
  by (simp_all add: two_chains_def period_chainsetup_def at_index_def get_obj_def output_chains_def input_chains_def
      attached_chains_def chain_create_def)

lemma two_chains_counts:
  "at_index (en_output_chain_count (two_chains avg)) 0 = Inr (Suc (Suc 0))"
  "at_index (en_input_chain_count (two_chains avg)) 0 = Inr (Suc (Suc 0))"
  by (simp_all add: two_chains_def at_index_def)

lemma period_env_simps [simp]:
  "ee_io period_env = period_io" "ee_cast period_env = of_int" "io_channels period_io x = 1" "io_finished period_io x = (x = 0)"
  by (simp_all add: period_env_def period_io_def)

lemma output_gets_the_mix_witness:
  "\<exists>mix. mix_to_output period_env False 0 (two_chains True) = write_output period_io 0 mix ((two_chains True)\<lparr>en_mixslot := mix\<rparr>) \<and>
     sample_at mix 0 0 = 2"
proof -
  have "at_index (en_output_chain_count (two_chains True)) (int 0) = Inr (length (output_chains 0 (two_chains True)))"
      "2 \<le> length (output_chains 0 (two_chains True))" "sb_wf (en_mixslot (two_chains True))"
      "length (en_cslots (two_chains True)) = length (cs_chains (en_cs (two_chains True)))" "\<forall>s \<in> set (en_cslots (two_chains True)). sb_wf s"
    by (simp_all add: two_chains_simps two_chains_counts tone_wf)
  from output_gets_the_mix[OF two_chains_simps(1,2) this, of period_env]
  obtain mix where "mix_to_output period_env False 0 (two_chains True) = write_output period_io 0 mix ((two_chains True)\<lparr>en_mixslot := mix\<rparr>)"
      "\<forall>c < 1. \<forall>t. sample_at mix c t = (sample_at (tone 1) c t + sample_at (tone 3) c t) / 2"
    by (auto simp: two_chains_simps)
  moreover have "sample_at mix 0 0 = 2"
    using calculation(2) by (simp only: tone_wf(3) less_one simp_thms) (simp add: tone_wf)
  ultimately show ?thesis by blast
qed

lemma period_read:
  assumes "sb_wf b" shows "\<exists>x' b'. io_read_buffer (ee_io period_env) b x = Inr (x', b') \<and> sb_wf b'"
  using make_silent_at[OF assms] by (auto simp: period_io_def)

lemma chains_get_the_input_witness:
  "\<exists>e'. input_to_chains period_env 0 (two_chains True) = Inr e' \<and> get_obj 0 (en_cs e') = Inr 1 \<and>
     (\<exists>b. same_audio b (en_cslots e' ! 0) \<and> same_audio b (en_cslots e' ! 1))"
proof -
  have 1: "\<not> io_finished (ee_io period_env) 2" by simp
  have 2: "at_index (en_input_chain_count (two_chains True)) (int 0) = Inr (length (input_chains 0 (two_chains True)))"
      "input_chains 0 (two_chains True) \<noteq> []" "sb_wf (en_mixslot (two_chains True))"
      "length (en_cslots (two_chains True)) = length (cs_chains (en_cs (two_chains True)))" "\<forall>s \<in> set (en_cslots (two_chains True)). sb_wf s"
    by (simp_all add: two_chains_simps two_chains_counts tone_wf)
  from chains_get_the_input[OF two_chains_simps(3,4) 1 period_read 2]
  obtain e' slot x' b where "input_to_chains period_env 0 (two_chains True) = Inr e'" "io_read_buffer period_io slot 2 = Inr (x', b)"
      "get_obj 0 (en_cs e') = Inr x'" "same_audio b (en_cslots e' ! 0)" "same_audio b (en_cslots e' ! 1)"
    by (auto simp: two_chains_simps all_less_two)
  moreover have "x' = 1" using calculation(2) by (auto simp: period_io_def bind_result_Inr_iff)
  ultimately show ?thesis by blast
qed

end
