(* ===== verification/Engine_Safety.thy ===== *)
theory Engine_Safety
  imports Engine_Mixing Effects_Facts Loop_Device
begin

text \<open>
  When an engine cannot fault. Audio objects and chain operators meet their contracts (the locales
  \<open>io_contract\<close> and \<open>controlled_operators\<close>); the engine's invariant \<open>engine_ok\<close> then holds after
  every command and every iteration, so that a run never faults, whatever the other threads do.
\<close>

subsection \<open>The contract of audio objects\<close>

locale io_contract =
  fixes iocls :: "('io, 's::zero) io_class" and io_ok :: "'io \<Rightarrow> bool"
  assumes read_ok: "io_ok x \<Longrightarrow> sb_wf b \<Longrightarrow>
      \<exists>x' b'. io_read_buffer iocls b x = Inr (x', b') \<and> io_ok x' \<and> sb_wf b' \<and> arrays_kept b b'"
    and write_ok: "io_ok x \<Longrightarrow> sb_wf b \<Longrightarrow> \<exists>x'. io_write_buffer iocls b x = Inr x' \<and> io_ok x'"
    and controls_ok: "io_ok x \<Longrightarrow> io_ok (io_set_buffersize iocls n x)" "io_ok x \<Longrightarrow> io_ok (io_seek iocls p x)"
      "io_ok x \<Longrightarrow> io_ok (io_prepare iocls x)" "io_ok x \<Longrightarrow> io_ok (io_start iocls x)" "io_ok x \<Longrightarrow> io_ok (io_stop iocls d x)"
      "io_ok x \<Longrightarrow> io_ok (io_start_forked iocls x)" "io_ok x \<Longrightarrow> io_ok (io_stop_forked iocls x)"

text \<open>The loop device as an audio object; its buffer size, starting and stopping have no effect.\<close>

definition loop_io :: "(nat \<Rightarrow> nat \<Rightarrow> 's::field) \<Rightarrow> (int \<Rightarrow> 's) \<Rightarrow> ('s loop_device, 's) io_class" where
  "loop_io g cast = \<lparr>io_channels = ld_channels, io_finished = ld_finished, io_read_buffer = loop_read_buffer g,
     io_write_buffer = loop_write_buffer g cast, io_set_buffersize = (\<lambda>n x. x), io_seek = loop_seek,
     io_length = (\<lambda>x. ap_length (ld_position x)), io_is_device = (\<lambda>x. False), io_is_loop = (\<lambda>x. True), io_is_proxy = (\<lambda>x. False),
     io_prepare = (\<lambda>x. x), io_start = (\<lambda>x. x), io_stop = (\<lambda>d x. x), io_is_running = (\<lambda>x. False), io_start_forked = (\<lambda>x. x),
     io_stop_forked = (\<lambda>x. x), io_prefill_space = (\<lambda>x. 0), io_latency = (\<lambda>x. 0)\<rparr>"

definition loop_ok :: "'s::field loop_device \<Rightarrow> bool" where
  "loop_ok x \<longleftrightarrow> loop_wf x \<and> 0 \<le> ld_writes x"

interpretation lio: io_contract "loop_io g cast" loop_ok for g :: "nat \<Rightarrow> nat \<Rightarrow> 's::field" and cast
proof
  fix x :: "'s loop_device" and b :: "'s sample_buffer"
  assume x: "loop_ok x" and b: "sb_wf b"
  then have w: "loop_wf x" "0 \<le> ld_writes x" by (simp_all add: loop_ok_def)
  show "\<exists>x' b'. io_read_buffer (loop_io g cast) b x = Inr (x', b') \<and> loop_ok x' \<and> sb_wf b' \<and> arrays_kept b b'"
    using loop_read_at[OF w(1) b, of g] w by (fastforce simp: loop_io_def loop_ok_def)
  show "\<exists>x'. io_write_buffer (loop_io g cast) b x = Inr x' \<and> loop_ok x'"
    using loop_write_at[OF w(1) b w(2), of g cast] w(2) by (fastforce simp: loop_io_def loop_ok_def)
qed (simp_all add: loop_io_def loop_seek_def loop_wf_def loop_ok_def)

subsection \<open>The invariant\<close>

definition connected_chain :: "('io, 'o, 'c, 'v) chainsetup \<Rightarrow> ('o, 'c, 'v) chain \<Rightarrow> bool" where
  "connected_chain cs q \<longleftrightarrow> 0 \<le> ch_input q \<and> ch_input q < int (length (cs_inputs cs)) \<and>
     0 \<le> ch_output q \<and> ch_output q < int (length (cs_outputs cs))"

definition chain_ok :: "('o \<Rightarrow> nat \<Rightarrow> bool) \<Rightarrow> 's::zero sample_buffer \<Rightarrow> ('o, 'c, 'v) chain \<Rightarrow> bool" where
  "chain_ok ready slot ch \<longleftrightarrow> sb_wf slot \<and> chain_linked ch \<and> ops_ready ready (length (sb_arrays slot)) ch \<and>
     ap_srate (ch_position ch) \<noteq> 0"

definition engine_objects :: "('io, 'o, 'c, 'v, 's) engine \<Rightarrow> nat set" where
  "engine_objects e = set (cs_inputs (en_cs e)) \<union> set (cs_outputs (en_cs e))"

definition engine_ok :: "('io \<Rightarrow> bool) \<Rightarrow> ('o \<Rightarrow> nat \<Rightarrow> bool) \<Rightarrow> ('io, 'o, 'c, 'v, 's::zero) engine \<Rightarrow> bool" where
  "engine_ok io_ok ready e \<longleftrightarrow>
     (\<forall>a \<in> engine_objects e. \<exists>x. cs_objects (en_cs e) a = Some x \<and> io_ok x) \<and>
     set (en_realtime_objects e) \<union> set (en_realtime_outputs e) \<union> set (en_non_realtime_inputs e) \<subseteq> engine_objects e \<and>
     length (en_input_chain_count e) = length (cs_inputs (en_cs e)) \<and>
     length (en_output_chain_count e) = length (cs_outputs (en_cs e)) \<and>
     length (en_cslots e) = length (cs_chains (en_cs e)) \<and> sb_wf (en_mixslot e) \<and>
     (\<forall>i < length (cs_chains (en_cs e)). connected_chain (en_cs e) (cs_chains (en_cs e) ! i) \<and>
        chain_ok ready (en_cslots e ! i) (cs_chains (en_cs e) ! i)) \<and>
     ap_srate (cp_pos (cs_position (en_cs e))) \<noteq> 0"

lemma engine_ok_fields [simp]:
  "engine_ok io ready (e\<lparr>en_batchmode := b\<rparr>) = engine_ok io ready e"
  "engine_ok io ready (e\<lparr>en_attached := b\<rparr>) = engine_ok io ready e"
  "engine_ok io ready (e\<lparr>en_prepared := b\<rparr>) = engine_ok io ready e"
  "engine_ok io ready (e\<lparr>en_running := b\<rparr>) = engine_ok io ready e"
  "engine_ok io ready (e\<lparr>en_was_running := b\<rparr>) = engine_ok io ready e"
  "engine_ok io ready (e\<lparr>en_finished := b\<rparr>) = engine_ok io ready e"
  "engine_ok io ready (e\<lparr>en_exit_request := b\<rparr>) = engine_ok io ready e"
  "engine_ok io ready (e\<lparr>en_outputs_finished := n\<rparr>) = engine_ok io ready e"
  "engine_ok io ready (e\<lparr>en_inputs_not_finished := n\<rparr>) = engine_ok io ready e"
  "engine_ok io ready (e\<lparr>en_prefill_threshold := n\<rparr>) = engine_ok io ready e"
  "engine_ok io ready (e\<lparr>en_preroll_samples := n\<rparr>) = engine_ok io ready e"
  "engine_ok io ready (e\<lparr>en_recording_offset := n\<rparr>) = engine_ok io ready e"
  "engine_ok io ready (e\<lparr>en_queue := q\<rparr>) = engine_ok io ready e"
  "engine_ok io ready (toggle_locked_state b e) = engine_ok io ready e"
  by (simp_all add: engine_ok_def engine_objects_def chain_ok_def connected_chain_def toggle_locked_state_def)

lemma engine_ok_put:
  assumes "engine_ok io ready e" "io x" shows "engine_ok io ready (e\<lparr>en_cs := put_obj a x (en_cs e)\<rparr>)"
  using assms by (auto simp: engine_ok_def engine_objects_def connected_chain_def put_obj_def)

lemma engine_ok_mix: "engine_ok io ready e \<Longrightarrow> sb_wf s \<Longrightarrow> engine_ok io ready (e\<lparr>en_mixslot := s\<rparr>)"
  by (simp add: engine_ok_def engine_objects_def)

lemma engine_ok_object:
  assumes "engine_ok io ready e" "a \<in> engine_objects e"
  obtains x where "get_obj a (en_cs e) = Inr x" "io x"
  using assms by (fastforce simp: engine_ok_def get_obj_def)

lemma chain_ok_kept:
  assumes "chain_ok ready slot ch" "sb_wf slot'" "arrays_kept slot slot'"
    and "\<And>obj k k'. ready obj k \<Longrightarrow> k \<le> k' \<Longrightarrow> ready obj k'"
  shows "chain_ok ready slot' ch"
  using assms by (fastforce simp: chain_ok_def ops_ready_def arrays_kept_def)

lemma engine_ok_chain:
  assumes "engine_ok io ready e" "i < length (cs_chains (en_cs e))" "connected_chain (en_cs e) ch" "chain_ok ready slot ch"
  shows "engine_ok io ready (e\<lparr>en_cs := (en_cs e)\<lparr>cs_chains := (cs_chains (en_cs e))[i := ch]\<rparr>,
    en_cslots := (en_cslots e)[i := slot]\<rparr>)"
  using assms by (auto simp: engine_ok_def engine_objects_def nth_list_update connected_chain_def)

lemma engine_ok_chainD:
  assumes "engine_ok io ready e" "i < length (cs_chains (en_cs e))"
  shows "connected_chain (en_cs e) (cs_chains (en_cs e) ! i)" "chain_ok ready (en_cslots e ! i) (cs_chains (en_cs e) ! i)"
    "i < length (en_cslots e)" "sb_wf (en_cslots e ! i)"
  using assms by (simp_all add: engine_ok_def chain_ok_def)

lemma engine_ok_slot:
  assumes "engine_ok io ready e" "i < length (cs_chains (en_cs e))" "sb_wf s" "arrays_kept (en_cslots e ! i) s"
    and "\<And>obj k k'. ready obj k \<Longrightarrow> k \<le> k' \<Longrightarrow> ready obj k'"
  shows "engine_ok io ready (e\<lparr>en_cslots := (en_cslots e)[i := s]\<rparr>)"
proof -
  have "chain_ok ready s (cs_chains (en_cs e) ! i)"
    using chain_ok_kept[OF engine_ok_chainD(2)[OF assms(1,2)] assms(3,4,5)] .
  then show ?thesis
    using assms(1,2) by (auto simp: engine_ok_def engine_objects_def nth_list_update)
qed

lemma engine_ok_slots:
  assumes "engine_ok io ready e" "\<And>s. sb_wf (f s) = sb_wf s" "\<And>s. length (sb_arrays (f s)) = length (sb_arrays s)"
  shows "engine_ok io ready (e\<lparr>en_cslots := map f (en_cslots e)\<rparr>)"
  using assms by (simp add: engine_ok_def engine_objects_def chain_ok_def)

lemma tags_and_locks [simp]:
  "sb_wf (event_tag_set t v s) = sb_wf s" "length (sb_arrays (event_tag_set t v s)) = length (sb_arrays s)"
  "sb_wf (set_rt_lock b s) = sb_wf s" "length (sb_arrays (set_rt_lock b s)) = length (sb_arrays s)"
  "sb_wf (event_tags_add x s) = sb_wf s"
  by (simp_all add: event_tag_set_def set_rt_lock_def event_tags_add_def sb_wf_def)

lemma engine_ok_tags:
  assumes "engine_ok io ready e"
  shows "engine_ok io ready (init_engine_state e)" "engine_ok io ready (set_rt_locks b e)"
proof -
  have m: "sb_wf (en_mixslot e)" using assms by (simp add: engine_ok_def)
  have "engine_ok io ready (e\<lparr>en_cslots := map (event_tag_set tag_end_of_stream False) (en_cslots e)\<rparr>)"
    by (rule engine_ok_slots[OF assms]) simp_all
  from engine_ok_mix[OF this, of "event_tag_set tag_end_of_stream False (en_mixslot e)"] m
  have "engine_ok io ready (e\<lparr>en_cslots := map (event_tag_set tag_end_of_stream False) (en_cslots e),
      en_mixslot := event_tag_set tag_end_of_stream False (en_mixslot e), en_finished := False,
      en_inputs_not_finished := 1, en_outputs_finished := 0\<rparr>)"
    by (simp only: engine_ok_fields tags_and_locks)
  also have "e\<lparr>en_cslots := map (event_tag_set tag_end_of_stream False) (en_cslots e),
      en_mixslot := event_tag_set tag_end_of_stream False (en_mixslot e), en_finished := False,
      en_inputs_not_finished := 1, en_outputs_finished := 0\<rparr> = init_engine_state e"
    by (simp add: init_engine_state_def)
  finally show "engine_ok io ready (init_engine_state e)" .
  have "engine_ok io ready (e\<lparr>en_cslots := map (set_rt_lock b) (en_cslots e)\<rparr>)"
    by (rule engine_ok_slots[OF assms]) simp_all
  from engine_ok_mix[OF this, of "set_rt_lock b (en_mixslot e)"] m
  show "engine_ok io ready (set_rt_locks b e)" by (simp add: set_rt_locks_def)
qed

subsection \<open>Chains keep their connections\<close>

definition same_connections :: "('o, 'c, 'v) chain \<Rightarrow> ('o, 'c, 'v) chain \<Rightarrow> bool" where
  "same_connections ch ch' \<longleftrightarrow> ch_input ch' = ch_input ch \<and> ch_output ch' = ch_output ch"

lemma same_connections_refl [simp]: "same_connections ch ch"
  by (simp add: same_connections_def)

lemma same_connections_trans [trans]: "same_connections a b \<Longrightarrow> same_connections b c \<Longrightarrow> same_connections a c"
  by (simp add: same_connections_def)

lemma same_connections_chain: "same_connections ch ch' \<Longrightarrow> connected_chain cs ch' = connected_chain cs ch"
  by (simp add: same_connections_def connected_chain_def)

lemma set_target_connections: "set_target_parameter cls src ptr p v ch = Inr ch' \<Longrightarrow> same_connections ch ch'"
  by (auto simp: set_target_parameter_def update_op_def same_connections_def Let_def split: option.splits if_split_asm)

lemma ctrl_value_connections:
  assumes "ctrl_value cls src pos n ch = Inr ch'" shows "same_connections ch ch'"
proof -
  obtain sv s where "src_value src pos (gc_source (ch_ctrls ch ! n)) = (sv, s)" by fastforce
  then show ?thesis
    using assms set_target_connections by (fastforce simp: ctrl_value_def Let_def same_connections_def)
qed

lemma controller_update_connections: "controller_update cls src ch = Inr ch' \<Longrightarrow> same_connections ch ch'"
  unfolding controller_update_def bind_result_Inr_iff
  by (elim exE conjE, erule fold_result_invariant[where I = "same_connections ch", rotated 2])
    (auto dest: ctrl_value_connections intro: same_connections_trans)

lemma chain_process_connections: "chain_process cls src g ch slot = Inr (ch', slot') \<Longrightarrow> same_connections ch ch'"
  by (auto simp: chain_process_def bind_result_Inr_iff same_connections_def split: if_split_asm
      dest!: controller_update_connections)

lemma chain_init_connections:
  assumes "chain_init cls src g ic oc ch slot = Inr (ch', slot')" shows "same_connections ch ch'"
proof -
  define ch1 where "ch1 = ch\<lparr>ch_in_channels := (if ic \<noteq> 0 then ic else ch_in_channels ch),
      ch_out_channels := (if oc \<noteq> 0 then oc else ch_out_channels ch)\<rparr>"
  obtain ops ch2 where 2: "fold_result (ctrl_init cls src) [0..<length (ch_ctrls ch1)] (ch1\<lparr>ch_ops := ops\<rparr>) = Inr ch2"
      "ch' = (refresh_parameters cls ch2)\<lparr>ch_initialized := True\<rparr>"
    using assms by (auto simp: chain_init_def Let_def ch1_def bind_result_Inr_iff)
  have "same_connections ch ch2"
    using _ _ 2(1)
    by (rule fold_result_invariant[where I = "same_connections ch"])
      (auto simp: same_connections_def ctrl_init_def Let_def bind_result_Inr_iff ch1_def)
  then show ?thesis by (simp add: 2(2) same_connections_def refresh_parameters_def)
qed


subsection \<open>No operation faults\<close>

lemma objects_only_objects: "objects_only e e' \<Longrightarrow> engine_objects e' = engine_objects e"
  by (auto simp: objects_only_def engine_objects_def)

lemma prefill_only_objects_eq: "prefill_only e e' \<Longrightarrow> engine_objects e' = engine_objects e"
  by (auto simp: prefill_only_def engine_objects_def)

lemma engine_ok_sets:
  assumes "engine_ok io ready e"
  shows "set (en_realtime_objects e) \<subseteq> engine_objects e" "set (en_realtime_outputs e) \<subseteq> engine_objects e"
    "set (en_non_realtime_inputs e) \<subseteq> engine_objects e" "sb_wf (en_mixslot e)"
    "length (en_input_chain_count e) = length (cs_inputs (en_cs e))"
    "length (en_output_chain_count e) = length (cs_outputs (en_cs e))"
  using assms by (simp_all add: engine_ok_def)

text \<open>A chain that is still to be initialised.\<close>

definition chain_waiting :: "('o \<Rightarrow> bool) \<Rightarrow> 's sample_buffer \<Rightarrow> ('o, 'c, 'v) chain \<Rightarrow> bool" where
  "chain_waiting valid slot ch \<longleftrightarrow>
     sb_wf slot \<and> chain_linked ch \<and> ops_valid valid ch \<and> ap_srate (ch_position ch) \<noteq> 0"

locale engine_parts = controlled_operators "ee_ops E" ready valid + io_contract "ee_io E" io_ok
  for E :: "('io, 'o, 'c, 'v::{plus,minus,times,divide}, 's::field) engine_env" and ready and valid and io_ok
begin

lemma on_object_ok:
  fixes e :: "('io, 'o, 'c, 'v, 's) engine"
  assumes "engine_ok io_ok ready e" "a \<in> engine_objects e" "\<And>x. io_ok x \<Longrightarrow> \<exists>x'. f x = Inr x' \<and> io_ok x'"
  shows "\<exists>e'. on_object f a e = Inr e' \<and> engine_ok io_ok ready e'"
proof -
  obtain x where x: "get_obj a (en_cs e) = Inr x" "io_ok x" using engine_ok_object[OF assms(1,2)] .
  then obtain x' where "f x = Inr x'" "io_ok x'" using assms(3) by blast
  then show ?thesis using engine_ok_put[of io_ok ready e x' a] assms(1) x(1) by (simp add: on_object_def)
qed

lemma on_object_fold_ok:
  fixes ns :: "'n list" and e :: "('io, 'o, 'c, 'v, 's) engine"
  assumes "engine_ok io_ok ready e" "\<And>n. n \<in> set ns \<Longrightarrow> h n \<in> engine_objects e"
    and "\<And>n x. io_ok x \<Longrightarrow> \<exists>x'. f n x = Inr x' \<and> io_ok x'"
  shows "\<exists>e'. fold_result (\<lambda>n. on_object (f n) (h n)) ns e = Inr e' \<and> engine_ok io_ok ready e'"
proof -
  have "\<exists>e'. fold_result (\<lambda>n. on_object (f n) (h n)) ns e = Inr e' \<and> (engine_ok io_ok ready e' \<and> objects_only e e')"
  proof (rule fold_result_ok)
    fix n and e1 :: "('io, 'o, 'c, 'v, 's) engine"
    assume "n \<in> set ns" and 1: "engine_ok io_ok ready e1 \<and> objects_only e e1"
    then have "h n \<in> engine_objects e1" using assms(2) objects_only_objects by blast
    then obtain e2 where "on_object (f n) (h n) e1 = Inr e2" "engine_ok io_ok ready e2"
      using on_object_ok[of e1 "h n" "f n"] 1 assms(3) by blast
    then show "\<exists>s'. on_object (f n) (h n) e1 = Inr s' \<and> engine_ok io_ok ready s' \<and> objects_only e s'"
      using 1 on_object_frame objects_only_trans by blast
  qed (use assms(1) in simp)
  then show ?thesis by blast
qed

lemma on_objects_ok:
  fixes e :: "('io, 'o, 'c, 'v, 's) engine"
  assumes "engine_ok io_ok ready e" "set as \<subseteq> engine_objects e" "\<And>x. io_ok x \<Longrightarrow> io_ok (f x)"
  shows "\<exists>e'. on_objects f as e = Inr e' \<and> engine_ok io_ok ready e'"
  unfolding on_objects_def using on_object_fold_ok[of e as "\<lambda>a. a" "\<lambda>_ x. Inr (f x)"] assms by auto

lemma on_chain_ok:
  fixes e :: "('io, 'o, 'c, 'v, 's) engine" and f :: "('o, 'c, 'v) chain \<Rightarrow> 's sample_buffer \<Rightarrow> (('o, 'c, 'v) chain \<times> 's sample_buffer) result"
  assumes "engine_ok io_ok ready e" "i < length (cs_chains (en_cs e))"
    and "\<And>ch slot. chain_ok ready slot ch \<Longrightarrow> \<exists>ch' slot'. f ch slot = Inr (ch', slot') \<and> chain_ok ready slot' ch' \<and> same_connections ch ch'"
  shows "\<exists>e'. on_chain f i e = Inr e' \<and> engine_ok io_ok ready e'"
proof -
  note c = engine_ok_chainD[OF assms(1,2)]
  obtain ch slot where 1: "f (cs_chains (en_cs e) ! i) (en_cslots e ! i) = Inr (ch, slot)" "chain_ok ready slot ch"
      "same_connections (cs_chains (en_cs e) ! i) ch"
    using assms(3)[OF c(2)] by blast
  moreover have "connected_chain (en_cs e) ch" using c(1) by (simp add: same_connections_chain[OF 1(3)])
  ultimately show ?thesis
    using engine_ok_chain[OF assms(1,2) _ 1(2)] c(3) assms(2) by (simp add: on_chain_def)
qed

lemma chain_init_waiting:
  fixes ch :: "('o, 'c, 'v) chain"
  assumes "chain_waiting valid slot ch"
  shows "\<exists>ch' slot'. chain_init (ee_ops E) (ee_sources E) (ee_garbage E) ic oc ch slot = Inr (ch', slot') \<and>
    chain_ok ready slot' ch' \<and> same_connections ch ch'"
proof -
  have w: "sb_wf slot" "chain_linked ch" "ops_valid valid ch" "ap_srate (ch_position ch) \<noteq> 0"
    using assms by (simp_all add: chain_waiting_def)
  from chain_init_ok[OF w(1-3), of "ee_sources E" "ee_garbage E" ic oc]
  obtain ch' slot' where 1: "chain_init (ee_ops E) (ee_sources E) (ee_garbage E) ic oc ch slot = Inr (ch', slot')" "sb_wf slot'"
      "chain_frame ch' = chain_frame ch" "ops_ready ready (length (sb_arrays slot')) ch'"
    by blast
  then show ?thesis
    using chain_frame_eq(2)[OF 1(3)] w chain_init_connections[OF 1(1)] by (simp add: chain_ok_def chain_frame_def)
qed

lemma chain_init_kept:
  fixes ch :: "('o, 'c, 'v) chain"
  assumes "chain_ok ready slot ch"
  shows "\<exists>ch' slot'. chain_init (ee_ops E) (ee_sources E) (ee_garbage E) ic oc ch slot = Inr (ch', slot') \<and>
    chain_ok ready slot' ch' \<and> same_connections ch ch'"
  by (rule chain_init_waiting) (use assms ops_ready_valid in \<open>auto simp: chain_ok_def chain_waiting_def\<close>)

lemma chain_process_kept:
  fixes ch :: "('o, 'c, 'v) chain"
  assumes "chain_ok ready slot ch"
  shows "\<exists>ch' slot'. chain_process (ee_ops E) (ee_sources E) (ee_garbage E) ch slot = Inr (ch', slot') \<and>
    chain_ok ready slot' ch' \<and> same_connections ch ch'"
proof -
  have w: "sb_wf slot" "chain_linked ch" "ops_ready ready (length (sb_arrays slot)) ch" "ap_srate (ch_position ch) \<noteq> 0"
    using assms by (simp_all add: chain_ok_def)
  then have "position_in_seconds_exact (ch_position ch) = Inr (of_int (ap_position (ch_position ch)) / of_int (ap_srate (ch_position ch)))"
    by (simp add: position_in_seconds_exact_def seconds_exact_def)
  from chain_process_ok[OF w(1-3) this, of "ee_sources E" "ee_garbage E"]
  obtain ch' slot' where 1: "chain_process (ee_ops E) (ee_sources E) (ee_garbage E) ch slot = Inr (ch', slot')" "sb_wf slot'"
      "chain_linked ch'" "ops_ready ready (length (sb_arrays slot')) ch'"
      "ch_position ch' = change_position_in_samples (int (sb_buffersize slot)) (ch_position ch)"
    by blast
  then show ?thesis
    using w(4) chain_process_connections[OF 1(1)] by (simp add: chain_ok_def change_position_in_samples_def)
qed

lemma chains_fold_ok:
  fixes e :: "('io, 'o, 'c, 'v, 's) engine"
  assumes "engine_ok io_ok ready e" "set is \<subseteq> {..<length (cs_chains (en_cs e))}"
    and "\<And>i e1. engine_ok io_ok ready e1 \<Longrightarrow> i < length (cs_chains (en_cs e1)) \<Longrightarrow> \<exists>e2. f i e1 = Inr e2 \<and> engine_ok io_ok ready e2"
    and "\<And>i e1 e2. f i e1 = Inr e2 \<Longrightarrow> chains_only e1 e2"
  shows "\<exists>e'. fold_result f is e = Inr e' \<and> engine_ok io_ok ready e'"
proof -
  have "\<exists>e'. fold_result f is e = Inr e' \<and> (engine_ok io_ok ready e' \<and> chains_only e e')"
  proof (rule fold_result_ok)
    fix i e1 assume "i \<in> set is" and 1: "engine_ok io_ok ready e1 \<and> chains_only e e1"
    then have "i < length (cs_chains (en_cs e1))" using assms(2) by (auto simp: chains_only_def)
    then obtain e2 where "f i e1 = Inr e2" "engine_ok io_ok ready e2" using assms(3) 1 by blast
    then show "\<exists>s'. f i e1 = Inr s' \<and> engine_ok io_ok ready s' \<and> chains_only e s'"
      using 1 assms(4) chains_only_trans by blast
  qed (use assms(1) in simp)
  then show ?thesis by blast
qed

lemma process_chains_ok:
  fixes e :: "('io, 'o, 'c, 'v, 's) engine"
  assumes "engine_ok io_ok ready e"
  shows "\<exists>e'. process_chains E e = Inr e' \<and> engine_ok io_ok ready e'"
  unfolding process_chains_def
  by (rule chains_fold_ok[OF assms]) (auto intro: on_chain_ok chain_process_kept on_chain_frame)

lemma reinit_chains_ok:
  fixes e :: "('io, 'o, 'c, 'v, 's) engine"
  assumes "engine_ok io_ok ready e"
  shows "\<exists>e'. reinit_chains E force e = Inr e' \<and> engine_ok io_ok ready e'"
  unfolding reinit_chains_def
  by (rule chains_fold_ok[OF assms]) (auto intro: on_chain_ok chain_init_kept on_chain_frame split: if_split_asm)

lemma read_input_ok:
  fixes e :: "('io, 'o, 'c, 'v, 's) engine"
  assumes "engine_ok io_ok ready e" "n < length (cs_inputs (en_cs e))" "sb_wf slot"
  shows "\<exists>e' slot'. read_input E n slot e = Inr (e', slot') \<and> engine_ok io_ok ready e' \<and> sb_wf slot' \<and> arrays_kept slot slot' \<and>
    en_cslots e' = en_cslots e \<and> en_mixslot e' = en_mixslot e \<and> cs_chains (en_cs e') = cs_chains (en_cs e)"
proof -
  from length_in_samples_at[OF assms(3), of "ee_garbage E" "cs_buffersize (en_cs e)"]
  obtain slot1 where 1: "length_in_samples (ee_garbage E) (cs_buffersize (en_cs e)) slot = Inr slot1" "sb_wf slot1"
      "arrays_kept slot slot1" by blast
  have "cs_inputs (en_cs e) ! n \<in> engine_objects e" using assms(2) by (simp add: engine_objects_def)
  then obtain x where x: "get_obj (cs_inputs (en_cs e) ! n) (en_cs e) = Inr x" "io_ok x"
    using engine_ok_object[OF assms(1)] by blast
  show ?thesis
  proof (cases "io_finished (ee_io E) x")
    case True
    from length_in_samples_at[OF 1(2), of "ee_garbage E" 0]
    obtain slot2 where "make_empty (ee_garbage E) slot1 = Inr slot2" "sb_wf slot2" "arrays_kept slot1 slot2"
      by (auto simp: make_empty_def)
    then show ?thesis
      using True 1 x assms(1) at_index_nth[OF assms(2)] arrays_kept_trans by (fastforce simp: read_input_def)
  next
    case False
    obtain x' slot2 where 2: "io_read_buffer (ee_io E) slot1 x = Inr (x', slot2)" "io_ok x'" "sb_wf slot2" "arrays_kept slot1 slot2"
      using read_ok[OF x(2) 1(2)] by blast
    define e1 where "e1 = e\<lparr>en_cs := put_obj (cs_inputs (en_cs e) ! n) x' (en_cs e)\<rparr>"
    have e1: "engine_ok io_ok ready e1" "en_cslots e1 = en_cslots e" "en_mixslot e1 = en_mixslot e"
        "cs_chains (en_cs e1) = cs_chains (en_cs e)"
      using engine_ok_put[OF assms(1) 2(2)] by (simp_all add: e1_def put_obj_def)
    have "read_input E n slot e = Inr (if \<not> io_finished (ee_io E) x'
        then e1\<lparr>en_inputs_not_finished := en_inputs_not_finished e1 + 1\<rparr> else e1, slot2)"
      unfolding read_input_def 1(1) at_index_nth[OF assms(2)] bind_result_simps x(1) Let_def 2(1) e1_def using False by (simp add: 2(1))
    then show ?thesis using e1 2(3,4) 1(3) arrays_kept_trans by fastforce
  qed
qed

lemma on_slot_ok:
  fixes e :: "('io, 'o, 'c, 'v, 's) engine"
  assumes "engine_ok io_ok ready e" "c < length (cs_chains (en_cs e))"
    and "\<And>slot. sb_wf slot \<Longrightarrow> \<exists>e1 slot1. f slot e = Inr (e1, slot1) \<and> engine_ok io_ok ready e1 \<and> sb_wf slot1 \<and> arrays_kept slot slot1 \<and>
      en_cslots e1 = en_cslots e \<and> cs_chains (en_cs e1) = cs_chains (en_cs e)"
  shows "\<exists>e'. on_slot f c e = Inr e' \<and> engine_ok io_ok ready e'"
proof -
  note c = engine_ok_chainD[OF assms(1,2)]
  obtain e1 slot1 where 1: "f (en_cslots e ! c) e = Inr (e1, slot1)" "engine_ok io_ok ready e1" "sb_wf slot1"
      "arrays_kept (en_cslots e ! c) slot1" "en_cslots e1 = en_cslots e" "cs_chains (en_cs e1) = cs_chains (en_cs e)"
    using assms(3)[OF c(4)] by blast
  have "engine_ok io_ok ready (e1\<lparr>en_cslots := (en_cslots e1)[c := slot1]\<rparr>)"
    using engine_ok_slot[OF 1(2) _ 1(3) _ ready_mono, of c] 1(4-6) assms(2) by simp
  then show ?thesis using 1(1) c(3) by (simp add: on_slot_def)
qed

lemma copy_mixslot_ok:
  fixes e :: "('io, 'o, 'c, 'v, 's) engine"
  assumes "engine_ok io_ok ready e" "sb_wf slot"
  shows "\<exists>e1 slot1. copy_mixslot (ee_garbage E) slot e = Inr (e1, slot1) \<and> engine_ok io_ok ready e1 \<and> sb_wf slot1 \<and>
    arrays_kept slot slot1 \<and> en_cslots e1 = en_cslots e \<and> cs_chains (en_cs e1) = cs_chains (en_cs e)"
  using copy_all_content_at[OF assms(2) engine_ok_sets(4)[OF assms(1)], of "ee_garbage E"] assms(1)
  by (auto simp: copy_mixslot_def)

lemma input_chain_loop_ok:
  fixes e :: "('io, 'o, 'c, 'v, 's) engine"
  assumes "engine_ok io_ok ready e" "n < length (cs_inputs (en_cs e))" "set cs \<subseteq> {..<length (cs_chains (en_cs e))}"
  shows "\<exists>e'. input_chain_loop E n cc cs e = Inr e' \<and> engine_ok io_ok ready e'"
  using assms
proof (induction cs arbitrary: e)
  case (Cons c cs)
  have c: "c < length (cs_chains (en_cs e))" "set cs \<subseteq> {..<length (cs_chains (en_cs e))}" using Cons.prems(3) by auto
  have r: "\<exists>e'. on_slot (read_input E n) c e = Inr e' \<and> engine_ok io_ok ready e'"
    by (rule on_slot_ok[OF Cons.prems(1) c(1)]) (use read_input_ok[OF Cons.prems(1,2)] in blast)
  obtain e1 where e1: "on_slot (copy_mixslot (ee_garbage E)) c e = Inr e1" "engine_ok io_ok ready e1"
    using on_slot_ok[OF Cons.prems(1) c(1)] copy_mixslot_ok[OF Cons.prems(1)] by blast
  have "iterates e e1" by (rule on_slot_iterates[OF _ e1(1)]) (auto simp: copy_mixslot_def bind_result_Inr_iff)
  then show ?case using r e1 Cons.IH[of e1] Cons.IH[of e] Cons.prems(1,2) c by (auto simp: iterates_def)
qed simp

lemma inputs_to_chains_ok:
  fixes e :: "('io, 'o, 'c, 'v, 's) engine"
  assumes "engine_ok io_ok ready e"
  shows "\<exists>e'. inputs_to_chains E e = Inr e' \<and> engine_ok io_ok ready e'"
proof -
  have step: "\<exists>e2. input_to_chains E n e1 = Inr e2 \<and> engine_ok io_ok ready e2"
    if 1: "engine_ok io_ok ready e1" "n < length (cs_inputs (en_cs e1))" for n and e1 :: "('io, 'o, 'c, 'v, 's) engine"
  proof -
    define cc where "cc = en_input_chain_count e1 ! n"
    have cc: "at_index (en_input_chain_count e1) (int n) = Inr cc"
      using at_index_nth[of n "en_input_chain_count e1"] 1(2) engine_ok_sets(5)[OF 1(1)] by (simp add: cc_def)
    obtain e2 where 2: "(if cc > 1 then bind_result (read_input E n (en_mixslot e1) e1) (\<lambda>(e1, slot). Inr (e1\<lparr>en_mixslot := slot\<rparr>))
        else Inr e1) = Inr e2" "engine_ok io_ok ready e2" "iterates e1 e2"
    proof (cases "cc > 1")
      case True
      obtain e3 slot where r: "read_input E n (en_mixslot e1) e1 = Inr (e3, slot)" "engine_ok io_ok ready e3" "sb_wf slot"
        using read_input_ok[OF 1 engine_ok_sets(4)[OF 1(1)]] by blast
      have "iterates e1 (e3\<lparr>en_mixslot := slot\<rparr>)" using read_input_iterates[OF r(1)] by (simp add: iterates_def)
      then show ?thesis using that True r engine_ok_mix[OF r(2,3)] by simp
    qed (use 1 that in simp)
    have "n < length (cs_inputs (en_cs e2))" "set [0..<length (cs_chains (en_cs e2))] \<subseteq> {..<length (cs_chains (en_cs e2))}"
      using 2(3) 1(2) by (auto simp: iterates_def)
    from input_chain_loop_ok[OF 2(2) this] show ?thesis
      unfolding input_to_chains_def cc bind_result_simps 2(1) .
  qed
  have "\<exists>e'. fold_result (input_to_chains E) [0..<length (cs_inputs (en_cs e))] e = Inr e' \<and>
      (engine_ok io_ok ready e' \<and> cs_inputs (en_cs e') = cs_inputs (en_cs e))"
  proof (rule fold_result_ok)
    fix n and e1 :: "('io, 'o, 'c, 'v, 's) engine"
    assume "n \<in> set [0..<length (cs_inputs (en_cs e))]" "engine_ok io_ok ready e1 \<and> cs_inputs (en_cs e1) = cs_inputs (en_cs e)"
    then show "\<exists>s'. input_to_chains E n e1 = Inr s' \<and> engine_ok io_ok ready s' \<and> cs_inputs (en_cs s') = cs_inputs (en_cs e)"
      using step[of e1 n] input_to_chains_iterates[of E n e1] by (fastforce simp: iterates_def)
  qed (use assms in simp)
  then show ?thesis by (auto simp: inputs_to_chains_def)
qed

lemma write_output_ok:
  fixes e :: "('io, 'o, 'c, 'v, 's) engine"
  assumes "engine_ok io_ok ready e" "n < length (cs_outputs (en_cs e))" "sb_wf slot"
  shows "\<exists>e'. write_output (ee_io E) n slot e = Inr e' \<and> engine_ok io_ok ready e'"
proof -
  have "cs_outputs (en_cs e) ! n \<in> engine_objects e" using assms(2) by (simp add: engine_objects_def)
  then obtain x where x: "get_obj (cs_outputs (en_cs e) ! n) (en_cs e) = Inr x" "io_ok x"
    using engine_ok_object[OF assms(1)] by blast
  obtain x' where x': "io_write_buffer (ee_io E) slot x = Inr x'" "io_ok x'" using write_ok[OF x(2) assms(3)] by blast
  show ?thesis
    unfolding write_output_def at_index_nth[OF assms(2)] bind_result_simps x(1) x'(1) Let_def
    using engine_ok_put[of io_ok ready e x', OF assms(1) x'(2)] by simp
qed

lemma mix_step_ok:
  fixes e :: "('io, 'o, 'c, 'v, 's) engine"
  assumes "engine_ok io_ok ready e" "sb_wf slot"
  shows "\<exists>e'. mix_step E oc first slot e = Inr e' \<and> engine_ok io_ok ready e'"
  using mix_step_at[OF engine_ok_sets(4)[OF assms(1)] assms(2), of E oc first] engine_ok_mix[OF assms(1)] by blast

lemma output_chain_loop_ok:
  fixes e :: "('io, 'o, 'c, 'v, 's) engine"
  assumes "engine_ok io_ok ready e" "n < length (cs_outputs (en_cs e))" "set cs \<subseteq> {..<length (cs_chains (en_cs e))}"
  shows "\<exists>e'. output_chain_loop E n oc cs count e = Inr e' \<and> engine_ok io_ok ready e'"
  using assms
proof (induction cs arbitrary: count e)
  case (Cons c cs)
  have c: "c < length (cs_chains (en_cs e))" "set cs \<subseteq> {..<length (cs_chains (en_cs e))}" using Cons.prems(3) by auto
  note s = engine_ok_chainD[OF Cons.prems(1) c(1)]
  obtain e1 where e1: "mix_step E oc (count + 1 = 1) (en_cslots e ! c) e = Inr e1" "engine_ok io_ok ready e1"
    using mix_step_ok[OF Cons.prems(1) s(4)] by blast
  note i1 = mix_step_iterates[OF e1(1)]
  have n1: "n < length (cs_outputs (en_cs e1))" using i1 Cons.prems(2) by (simp add: iterates_def)
  obtain e2 where e2: "(if count + 1 = oc then write_output (ee_io E) n (en_mixslot e1) e1 else Inr e1) = Inr e2"
      "engine_ok io_ok ready e2" "iterates e1 e2"
    using write_output_ok[OF e1(2) n1 engine_ok_sets(4)[OF e1(2)]] e1(2) write_output_iterates iterates_refl by metis
  have 2: "n < length (cs_outputs (en_cs e2))" "set cs \<subseteq> {..<length (cs_chains (en_cs e2))}"
    using iterates_trans[OF i1 e2(3)] Cons.prems(2) c(2) by (simp_all add: iterates_def)
  have "bind_result (mix_step E oc (count + 1 = 1) (en_cslots e ! c) e) (\<lambda>e1.
      bind_result (if count + 1 = oc then write_output (ee_io E) n (en_mixslot e1) e1 else Inr e1)
        (output_chain_loop E n oc cs (count + 1))) = output_chain_loop E n oc cs (count + 1) e2"
    by (simp only: e1(1) e2(1) bind_result_simps)
  then show ?case
    using write_output_ok[OF Cons.prems(1,2) s(4)] Cons.IH[OF e2(2) 2, of "count + 1"] Cons.IH[OF Cons.prems(1,2) c(2), of count]
    by (simp only: output_chain_loop.simps at_index_nth[OF s(3)] bind_result_simps split: if_split) blast
qed simp

lemma mix_to_output_ok:
  fixes e :: "('io, 'o, 'c, 'v, 's) engine"
  assumes "engine_ok io_ok ready e" "n < length (cs_outputs (en_cs e))"
  shows "\<exists>e'. mix_to_output E skip n e = Inr e' \<and> engine_ok io_ok ready e'"
proof -
  have "\<exists>b. is_realtime_target_output (ee_io E) n (en_cs e) = Inr b"
  proof (rule realtime_target_ok)
    fix q assume "q \<in> set (cs_chains (en_cs e))"
    then obtain i where "i < length (cs_chains (en_cs e))" "q = cs_chains (en_cs e) ! i" by (metis in_set_conv_nth)
    then show "\<exists>x. at_index (cs_inputs (en_cs e)) (ch_input q) = Inr x"
      using engine_ok_chainD(1)[OF assms(1)] by (auto simp: connected_chain_def at_index_def)
  qed
  then obtain b where b: "(if skip then is_realtime_target_output (ee_io E) n (en_cs e) else Inr False) = Inr b" by metis
  have "cs_outputs (en_cs e) ! n \<in> engine_objects e" using assms(2) by (simp add: engine_objects_def)
  then obtain x where x: "get_obj (cs_outputs (en_cs e) ! n) (en_cs e) = Inr x"
    using engine_ok_object[OF assms(1)] by blast
  from number_of_channels_at[OF engine_ok_sets(4)[OF assms(1)], of "ee_garbage E" "io_channels (ee_io E) x"]
  obtain slot where s: "number_of_channels (ee_garbage E) (io_channels (ee_io E) x) (en_mixslot e) = Inr slot" "sb_wf slot" by blast
  have oc: "at_index (en_output_chain_count e) (int n) = Inr (en_output_chain_count e ! n)"
    using at_index_nth[of n "en_output_chain_count e"] assms(2) engine_ok_sets(6)[OF assms(1)] by simp
  have "n < length (cs_outputs (en_cs (e\<lparr>en_mixslot := slot\<rparr>)))"
      "set [0..<length (cs_chains (en_cs e))] \<subseteq> {..<length (cs_chains (en_cs (e\<lparr>en_mixslot := slot\<rparr>)))}"
    using assms(2) by auto
  from output_chain_loop_ok[OF engine_ok_mix[OF assms(1) s(2)] this] assms(1)
  show ?thesis
    unfolding mix_to_output_def b bind_result_simps at_index_nth[OF assms(2)] x s(1) oc by simp
qed

lemma mix_to_outputs_ok:
  fixes e :: "('io, 'o, 'c, 'v, 's) engine"
  assumes "engine_ok io_ok ready e"
  shows "\<exists>e'. mix_to_outputs E skip e = Inr e' \<and> engine_ok io_ok ready e'"
proof -
  have "\<exists>e'. fold_result (mix_to_output E skip) [0..<length (cs_outputs (en_cs e))] e = Inr e' \<and>
      (engine_ok io_ok ready e' \<and> cs_outputs (en_cs e') = cs_outputs (en_cs e))"
  proof (rule fold_result_ok)
    fix n and e1 :: "('io, 'o, 'c, 'v, 's) engine"
    assume n: "n \<in> set [0..<length (cs_outputs (en_cs e))]" and 1: "engine_ok io_ok ready e1 \<and> cs_outputs (en_cs e1) = cs_outputs (en_cs e)"
    then obtain e2 where "mix_to_output E skip n e1 = Inr e2" "engine_ok io_ok ready e2" using mix_to_output_ok[of e1 n] by auto
    moreover have "cs_outputs (en_cs e2) = cs_outputs (en_cs e)"
      using mix_to_output_iterates[OF calculation(1)] 1 by (simp add: iterates_def)
    ultimately show "\<exists>s'. mix_to_output E skip n e1 = Inr s' \<and> engine_ok io_ok ready s' \<and> cs_outputs (en_cs s') = cs_outputs (en_cs e)"
      by blast
  qed (use assms in simp)
  then show ?thesis by (auto simp: mix_to_outputs_def)
qed

lemma seek_objects_ok:
  fixes cs :: "('io, 'o, 'c, 'v) chainsetup"
  assumes "\<forall>a \<in> S. \<exists>x. cs_objects cs a = Some x \<and> io_ok x" "set as \<subseteq> S"
  shows "\<exists>cs'. seek_objects (ee_io E) pos as cs = Inr cs' \<and> (\<forall>a \<in> S. \<exists>x. cs_objects cs' a = Some x \<and> io_ok x)"
  unfolding seek_objects_def
proof (rule fold_result_ok)
  fix a and cs1 :: "('io, 'o, 'c, 'v) chainsetup"
  assume "a \<in> set as" and 1: "\<forall>a \<in> S. \<exists>x. cs_objects cs1 a = Some x \<and> io_ok x"
  then obtain x where "cs_objects cs1 a = Some x" "io_ok x" using assms(2) by blast
  then show "\<exists>s'. bind_result (get_obj a cs1) (\<lambda>x. if io_is_device (ee_io E) x then Inr cs1 else Inr (put_obj a (io_seek (ee_io E) pos x) cs1)) = Inr s' \<and>
      (\<forall>a \<in> S. \<exists>x. cs_objects s' a = Some x \<and> io_ok x)"
    using 1 controls_ok(2)[of x pos] by (auto simp: get_obj_def put_obj_def)
qed (use assms(1) in simp)

lemma seek_ok:
  fixes e :: "('io, 'o, 'c, 'v, 's) engine"
  assumes "engine_ok io_ok ready e"
  shows "\<exists>e'. en_seek (ee_io E) pos e = Inr e' \<and> engine_ok io_ok ready e'"
proof -
  have o: "\<forall>a \<in> engine_objects e. \<exists>x. cs_objects (en_cs e) a = Some x \<and> io_ok x" using assms by (simp add: engine_ok_def)
  obtain cs1 where 1: "seek_objects (ee_io E) pos (cs_inputs (en_cs e)) (en_cs e) = Inr cs1"
      "\<forall>a \<in> engine_objects e. \<exists>x. cs_objects cs1 a = Some x \<and> io_ok x"
    using seek_objects_ok[OF o, of "cs_inputs (en_cs e)" pos] by (auto simp: engine_objects_def)
  obtain m1 where m1: "cs1 = (en_cs e)\<lparr>cs_objects := m1\<rparr>" using seek_objects_frame[OF 1(1)] by blast
  obtain cs2 where 2: "seek_objects (ee_io E) pos (cs_outputs cs1) cs1 = Inr cs2"
      "\<forall>a \<in> engine_objects e. \<exists>x. cs_objects cs2 a = Some x \<and> io_ok x"
    using seek_objects_ok[OF 1(2), of "cs_outputs cs1" pos] by (auto simp: engine_objects_def m1)
  obtain m where m: "cs2 = (en_cs e)\<lparr>cs_objects := m\<rparr>" using seek_objects_frame[OF 2(1)] m1 by auto
  define e' where "e' = e\<lparr>en_cs := (en_cs e)\<lparr>cs_objects := m, cs_chains := map (seek_chain pos) (cs_chains (en_cs e)),
      cs_position := (cs_position (en_cs e))\<lparr>cp_pos := set_position_in_samples pos (cp_pos (cs_position (en_cs e)))\<rparr>\<rparr>\<rparr>"
  have s: "chain_ok ready slot (seek_chain pos q) = chain_ok ready slot q" "connected_chain cs (seek_chain pos q) = connected_chain cs q"
    for slot :: "'s sample_buffer" and q :: "('o, 'c, 'v) chain" and cs :: "('io, 'o, 'c, 'v) chainsetup"
    by (simp_all add: chain_ok_def connected_chain_def seek_chain_def ops_ready_def seek_position_in_samples_def set_position_in_samples_def)
  have "connected_chain (en_cs e') q = connected_chain (en_cs e) q" for q :: "('o, 'c, 'v) chain" by (simp add: connected_chain_def e'_def)
  then have "engine_ok io_ok ready e'"
    using assms 2(2) unfolding engine_ok_def m by (simp add: e'_def engine_objects_def s set_position_in_samples_def)
  moreover have "en_seek (ee_io E) pos e = Inr e'"
    using 1(1) 2(1) by (simp add: en_seek_def cs_seek_position_in_samples_def m e'_def seek_chain_def[abs_def])
  ultimately show ?thesis by blast
qed

lemma prehandle_ok:
  fixes e :: "('io, 'o, 'c, 'v, 's) engine"
  assumes "engine_ok io_ok ready e"
  shows "\<exists>e'. prehandle_control_position (ee_io E) e = Inr e' \<and> engine_ok io_ok ready e'"
proof -
  define p where "p = (cs_position (en_cs e))\<lparr>cp_pos := change_position_in_samples (en_buffersize e) (cp_pos (cs_position (en_cs e)))\<rparr>"
  define e1 where "e1 = e\<lparr>en_cs := (en_cs e)\<lparr>cs_position := p\<rparr>\<rparr>"
  have "connected_chain (en_cs e1) q = connected_chain (en_cs e) q" for q :: "('o, 'c, 'v) chain" by (simp add: connected_chain_def e1_def)
  then have ok: "engine_ok io_ok ready e1"
    using assms by (simp add: engine_ok_def engine_objects_def e1_def p_def change_position_in_samples_def)
  have "\<exists>e'. on_objects (io_set_buffersize (ee_io E) n) (en_non_realtime_inputs e1) e1 = Inr e' \<and> engine_ok io_ok ready e'" for n
    using on_objects_ok[where f = "io_set_buffersize (ee_io E) n", OF ok engine_ok_sets(3)[OF ok] controls_ok(1)] .
  then show ?thesis unfolding prehandle_control_position_def Let_def p_def[symmetric] e1_def[symmetric]
    using ok by (cases "cp_max_length_set p \<and> is_over_max_length p") auto
qed

lemma posthandle_ok:
  fixes e :: "('io, 'o, 'c, 'v, 's) engine"
  assumes "engine_ok io_ok ready e"
  shows "\<exists>e'. posthandle_control_position (ee_io E) e = Inr e' \<and> engine_ok io_ok ready e'"
proof -
  have "engine_ok io_ok ready (e\<lparr>en_inputs_not_finished := 1\<rparr>)" using assms by simp
  from seek_ok[OF this, of 0] obtain e1 where
    1: "en_seek (ee_io E) 0 (e\<lparr>en_inputs_not_finished := 1\<rparr>) = Inr e1" "engine_ok io_ok ready e1" by blast
  from on_objects_ok[where f = "io_set_buffersize (ee_io E) (en_buffersize e1)", OF 1(2) engine_ok_sets(3)[OF 1(2)] controls_ok(1)] 1(1) assms
  show ?thesis by (auto simp: posthandle_control_position_def Let_def en_command_def)
qed

lemma engine_iteration_ok:
  fixes e :: "('io, 'o, 'c, 'v, 's) engine"
  assumes "engine_ok io_ok ready e"
  shows "\<exists>e'. engine_iteration E e = Inr e' \<and> engine_ok io_ok ready e'"
proof -
  have "engine_ok io_ok ready (e\<lparr>en_inputs_not_finished := 0\<rparr>)" using assms by simp
  then obtain e1 where 1: "prehandle_control_position (ee_io E) (e\<lparr>en_inputs_not_finished := 0\<rparr>) = Inr e1" "engine_ok io_ok ready e1"
    using prehandle_ok by blast
  obtain e2 where 2: "inputs_to_chains E e1 = Inr e2" "engine_ok io_ok ready e2" using inputs_to_chains_ok[OF 1(2)] by blast
  obtain e3 where 3: "process_chains E e2 = Inr e3" "engine_ok io_ok ready e3" using process_chains_ok[OF 2(2)] by blast
  have "\<exists>e6. (if en_preroll_samples e3 \<ge> en_recording_offset e3 then mix_to_outputs E False e3
        else bind_result (mix_to_outputs E True e3) (\<lambda>e4.
             Inr (e4\<lparr>en_preroll_samples := en_preroll_samples e4 + en_buffersize e4\<rparr>))) = Inr e6 \<and> engine_ok io_ok ready e6"
  proof (cases "en_preroll_samples e3 \<ge> en_recording_offset e3")
    case True
    then show ?thesis using mix_to_outputs_ok[OF 3(2), of False] by simp
  next
    case False
    obtain e4 where 4: "mix_to_outputs E True e3 = Inr e4" "engine_ok io_ok ready e4" using mix_to_outputs_ok[OF 3(2)] by blast
    then show ?thesis using False by simp
  qed
  then obtain e6 where 6: "(if en_preroll_samples e3 \<ge> en_recording_offset e3 then mix_to_outputs E False e3
        else bind_result (mix_to_outputs E True e3) (\<lambda>e4.
             Inr (e4\<lparr>en_preroll_samples := en_preroll_samples e4 + en_buffersize e4\<rparr>))) = Inr e6" "engine_ok io_ok ready e6" by blast
  show ?thesis
    unfolding engine_iteration_def 1(1) 2(1) 3(1) 6(1) bind_result_simps by (rule posthandle_ok[OF 6(2)])
qed

lemma toggle_forked_ok:
  fixes e :: "('io, 'o, 'c, 'v, 's) engine"
  assumes "engine_ok io_ok ready e"
  shows "\<exists>e'. toggle_forked_objects (ee_io E) b e = Inr e' \<and> engine_ok io_ok ready e'"
proof -
  define f where "f = (if b then io_start_forked (ee_io E) else io_stop_forked (ee_io E))"
  have f: "io_ok x \<Longrightarrow> io_ok (f x)" for x using controls_ok(6,7) by (simp add: f_def)
  have "set (cs_inputs (en_cs e)) \<subseteq> engine_objects e" by (auto simp: engine_objects_def)
  from on_objects_ok[where f = f, OF assms this f] obtain e1 where
    1: "on_objects f (cs_inputs (en_cs e)) e = Inr e1" "engine_ok io_ok ready e1" by blast
  have "set (cs_outputs (en_cs e1)) \<subseteq> engine_objects e1" by (auto simp: engine_objects_def)
  from on_objects_ok[where f = f, OF 1(2) this f] show ?thesis
    unfolding toggle_forked_objects_def Let_def f_def[symmetric] 1(1) bind_result_simps .
qed

lemma prefill_output_ok:
  fixes e :: "('io, 'o, 'c, 'v, 's) engine"
  assumes "engine_ok io_ok ready e" "a \<in> engine_objects e"
  shows "\<exists>e'. prefill_output (ee_io E) a e = Inr e' \<and> engine_ok io_ok ready e'"
proof -
  have w: "\<exists>e2. fold_result (\<lambda>_. on_object (io_write_buffer (ee_io E) (en_mixslot e1)) a) ns e1 = Inr e2 \<and> engine_ok io_ok ready e2"
    if "engine_ok io_ok ready e1" "a \<in> engine_objects e1" for ns :: "nat list" and e1 :: "('io, 'o, 'c, 'v, 's) engine"
    using on_object_fold_ok[OF that(1), of ns "\<lambda>_. a" "\<lambda>_. io_write_buffer (ee_io E) (en_mixslot e1)"] that(2)
      write_ok engine_ok_sets(4)[OF that(1)] by auto
  obtain x where x: "get_obj a (en_cs e) = Inr x" using engine_ok_object[OF assms] by blast
  define e1 where "e1 = (if io_prefill_space (ee_io E) x < en_prefill_threshold e * en_buffersize e
      then e\<lparr>en_prefill_threshold := io_prefill_space (ee_io E) x div en_buffersize e\<rparr> else e)"
  have "engine_ok io_ok ready e1" "a \<in> engine_objects e1" using assms by (simp_all add: e1_def engine_objects_def)
  from w[OF this, of "[0..<nat (en_prefill_threshold e1)]"] assms(1) show ?thesis
    unfolding prefill_output_def x bind_result_simps Let_def e1_def[symmetric] by simp
qed

lemma prepare_realtime_ok:
  fixes e :: "('io, 'o, 'c, 'v, 's) engine"
  assumes "engine_ok io_ok ready e"
  shows "\<exists>e'. prepare_realtime_objects (ee_io E) e = Inr e' \<and> engine_ok io_ok ready e'"
proof -
  from on_objects_ok[where f = "io_prepare (ee_io E)", OF assms engine_ok_sets(1)[OF assms] controls_ok(3)] obtain e1 where
    1: "on_objects (io_prepare (ee_io E)) (en_realtime_objects e) e = Inr e1" "engine_ok io_ok ready e1" by blast
  from make_silent_at[OF engine_ok_sets(4)[OF 1(2)]] obtain slot where s: "make_silent (en_mixslot e1) = Inr slot" "sb_wf slot" by blast
  define e2 where "e2 = e1\<lparr>en_mixslot := slot\<rparr>"
  have 2: "engine_ok io_ok ready e2" using engine_ok_mix[OF 1(2) s(2)] by (simp add: e2_def)
  have "\<exists>e3. fold_result (prefill_output (ee_io E)) (en_realtime_outputs e2) e2 = Inr e3 \<and> (engine_ok io_ok ready e3 \<and> prefill_only e2 e3)"
  proof (rule fold_result_ok)
    fix a and e3 :: "('io, 'o, 'c, 'v, 's) engine"
    assume "a \<in> set (en_realtime_outputs e2)" and 3: "engine_ok io_ok ready e3 \<and> prefill_only e2 e3"
    then have "a \<in> engine_objects e3" using engine_ok_sets(2)[OF 2] prefill_only_objects_eq by blast
    then obtain e4 where "prefill_output (ee_io E) a e3 = Inr e4" "engine_ok io_ok ready e4" using prefill_output_ok 3 by blast
    then show "\<exists>s'. prefill_output (ee_io E) a e3 = Inr s' \<and> engine_ok io_ok ready s' \<and> prefill_only e2 s'"
      using 3 prefill_output_frame prefill_only_trans by blast
  qed (use 2 in simp)
  then show ?thesis
    unfolding prepare_realtime_objects_def 1(1) bind_result_simps s(1) e2_def by auto
qed

lemma prepare_operation_ok:
  fixes e :: "('io, 'o, 'c, 'v, 's) engine"
  assumes "engine_ok io_ok ready e"
  shows "\<exists>e'. prepare_operation E e = Inr e' \<and> engine_ok io_ok ready e'"
proof -
  have "engine_ok io_ok ready (set_rt_locks True (toggle_locked_state True e))"
    by (rule engine_ok_tags(2)) (use assms in simp)
  then obtain e1 where 1: "reinit_chains E True (set_rt_locks True (toggle_locked_state True e)) = Inr e1" "engine_ok io_ok ready e1"
    using reinit_chains_ok by blast
  obtain e2 where 2: "toggle_forked_objects (ee_io E) True e1 = Inr e2" "engine_ok io_ok ready e2" using toggle_forked_ok[OF 1(2)] by blast
  obtain e3 where 3: "prepare_realtime_objects (ee_io E) e2 = Inr e3" "engine_ok io_ok ready e3" using prepare_realtime_ok[OF 2(2)] by blast
  have "engine_ok io_ok ready (e3\<lparr>en_preroll_samples := en_buffersize e3, en_prepared := True\<rparr>)" using 3(2) by simp
  from engine_ok_tags(1)[OF this] show ?thesis
    unfolding prepare_operation_def 1(1) 2(1) 3(1) bind_result_simps by blast
qed

lemma start_operation_ok:
  fixes e :: "('io, 'o, 'c, 'v, 's) engine"
  assumes "engine_ok io_ok ready e"
  shows "\<exists>e'. start_operation (ee_io E) e = Inr e' \<and> engine_ok io_ok ready e'"
  using on_objects_ok[where f = "io_start (ee_io E)", OF assms engine_ok_sets(1)[OF assms] controls_ok(4)] by (auto simp: start_operation_def)

lemma stop_operation_ok:
  fixes e :: "('io, 'o, 'c, 'v, 's) engine"
  assumes "engine_ok io_ok ready e"
  shows "\<exists>e'. stop_operation (ee_io E) drain e = Inr e' \<and> engine_ok io_ok ready e'"
proof -
  have "io_ok x \<Longrightarrow> io_ok (if io_is_running (ee_io E) x then io_stop (ee_io E) drain x else x)" for x
    using controls_ok(5) by simp
  from on_objects_ok[where f = "\<lambda>x. if io_is_running (ee_io E) x then io_stop (ee_io E) drain x else x", OF assms engine_ok_sets(1)[OF assms] this] obtain e1 where
    1: "on_objects (\<lambda>x. if io_is_running (ee_io E) x then io_stop (ee_io E) drain x else x) (en_realtime_objects e) e = Inr e1"
      "engine_ok io_ok ready e1" by blast
  have "engine_ok io_ok ready (set_rt_locks False (e1\<lparr>en_prepared := False\<rparr>))"
    by (rule engine_ok_tags(2)) (use 1(2) in simp)
  then obtain e2 where "toggle_forked_objects (ee_io E) False (set_rt_locks False (e1\<lparr>en_prepared := False\<rparr>)) = Inr e2"
      "engine_ok io_ok ready e2" using toggle_forked_ok by blast
  then show ?thesis by (simp add: stop_operation_def 1(1) signal_stop_def)
qed

lemma driver_start_ok:
  fixes e :: "('io, 'o, 'c, 'v, 's) engine"
  assumes "engine_ok io_ok ready e"
  shows "\<exists>e'. driver_start E e = Inr e' \<and> engine_ok io_ok ready e'"
  using prepare_operation_ok[OF assms] start_operation_ok assms by (cases "en_prepared e") (auto simp: driver_start_def)

lemma driver_stop_ok:
  fixes e :: "('io, 'o, 'c, 'v, 's) engine"
  assumes "engine_ok io_ok ready e"
  shows "\<exists>e'. driver_stop (ee_io E) drain e = Inr e' \<and> engine_ok io_ok ready e'"
  using stop_operation_ok[OF assms] assms by (simp add: driver_stop_def)

lemma seek_sequence_ok:
  fixes e :: "('io, 'o, 'c, 'v, 's) engine"
  assumes "engine_ok io_ok ready e"
  shows "\<exists>e'. seek_sequence E reinit pos e = Inr e' \<and> engine_ok io_ok ready e'"
proof -
  have "\<exists>e1. conditional_stop (ee_io E) e = Inr e1 \<and> engine_ok io_ok ready e1"
  proof (cases "en_status e = Status_running")
    case True
    have "engine_ok io_ok ready (e\<lparr>en_was_running := True\<rparr>)" using assms by simp
    from driver_stop_ok[OF this] show ?thesis unfolding conditional_stop_def using True by simp
  next
    case False
    then show ?thesis unfolding conditional_stop_def using assms by simp
  qed
  then obtain e1 where 1: "conditional_stop (ee_io E) e = Inr e1" "engine_ok io_ok ready e1" by blast
  obtain e2 where 2: "en_seek (ee_io E) pos e1 = Inr e2" "engine_ok io_ok ready e2" using seek_ok[OF 1(2)] by blast
  have "\<exists>e3. (if reinit then bind_result (reinit_chains E True e2) (\<lambda>e3. Inr (init_engine_state e3)) else Inr e2) = Inr e3 \<and>
      engine_ok io_ok ready e3"
  proof (cases reinit)
    case True
    obtain e3 where 3: "reinit_chains E True e2 = Inr e3" "engine_ok io_ok ready e3" using reinit_chains_ok[OF 2(2)] by blast
    then show ?thesis using engine_ok_tags(1)[OF 3(2)] True by simp
  next
    case False
    then show ?thesis using 2(2) by simp
  qed
  then obtain e3 where 3: "(if reinit then bind_result (reinit_chains E True e2) (\<lambda>e3. Inr (init_engine_state e3)) else Inr e2) = Inr e3"
      "engine_ok io_ok ready e3" by blast
  show ?thesis
    unfolding seek_sequence_def 1(1) 2(1) 3(1) bind_result_simps conditional_start_def
    using driver_start_ok[OF 3(2)] 3(2) by simp
qed

text \<open>Edits of a chain, commands and the command queue.\<close>

lemma edit_chain_kept:
  fixes e :: "('io, 'o, 'c, 'v, 's) engine"
  assumes "engine_ok io_ok ready e"
    and "\<And>ch k. chain_linked ch \<Longrightarrow> ops_ready ready k ch \<Longrightarrow> chain_linked (f ch) \<and> ops_ready ready k (f ch)"
    and "\<And>ch. same_connections ch (f ch) \<and> ch_position (f ch) = ch_position ch"
  shows "engine_ok io_ok ready (e\<lparr>en_cs := snd (edit_chain n f (en_cs e))\<rparr>)"
proof (cases "n < 1 \<or> n > int (length (cs_chains (en_cs e)))")
  case True
  then show ?thesis using assms(1) by (simp add: edit_chain_def)
next
  case False
  define i where "i = nat (n - 1)"
  define ch where "ch = cs_chains (en_cs e) ! i"
  have i: "i < length (cs_chains (en_cs e))" using False by (simp add: i_def nat_less_iff)
  note c = engine_ok_chainD[OF assms(1) i]
  have "connected_chain (en_cs e) (f ch)"
    using c(1) assms(3)[of ch] same_connections_chain[of ch "f ch" "en_cs e"] by (simp add: ch_def)
  moreover have "chain_ok ready (en_cslots e ! i) (f ch)"
    using c(2) assms(2)[of ch "length (sb_arrays (en_cslots e ! i))"] assms(3)[of ch] by (simp add: ch_def chain_ok_def)
  ultimately have "engine_ok io_ok ready (e\<lparr>en_cs := (en_cs e)\<lparr>cs_chains := (cs_chains (en_cs e))[i := f ch]\<rparr>,
      en_cslots := (en_cslots e)[i := en_cslots e ! i]\<rparr>)"
    by (rule engine_ok_chain[OF assms(1) i])
  then show ?thesis using False by (simp add: edit_chain_def ch_def i_def)
qed

lemma edit_linked:
  fixes ch :: "('o, 'c, 'v) chain"
  assumes "chain_linked ch" "ops_ready ready k ch"
  shows "chain_linked (chain_set_parameter (ee_ops E) i p v ch) \<and> ops_ready ready k (chain_set_parameter (ee_ops E) i p v ch)"
    and "chain_linked (bypass_operator i b ch) \<and> ops_ready ready k (bypass_operator i b ch)"
    and "chain_linked (set_controller_parameter (ee_sources E) i p v ch) \<and>
      ops_ready ready k (set_controller_parameter (ee_sources E) i p v ch)"
proof -
  have f: "chain_linked ch'" if "chain_frame ch' = chain_frame ch" for ch' :: "('o, 'c, 'v) chain"
    using chain_frame_eq(2)[OF that] assms(1) by simp
  show "chain_linked (chain_set_parameter (ee_ops E) i p v ch) \<and> ops_ready ready k (chain_set_parameter (ee_ops E) i p v ch)"
  proof (cases "valid_op_index (if i < 0 then ch_sel_op ch else i) ch")
    case True
    define j where "j = nat ((if i < 0 then ch_sel_op ch else i) - 1)"
    define q where "q = (if p < 0 then ch_sel_op_param ch else p)"
    have j: "j < length (ch_ops ch)" using True by (auto simp: valid_op_index_def j_def)
    have "chain_frame (update_op j (op_set_parameter (ee_ops E) q v) ch) = chain_frame ch"
      by (simp add: chain_frame_def update_op_frame) (simp add: update_op_def)
    moreover have "chain_set_parameter (ee_ops E) i p v ch = update_op j (op_set_parameter (ee_ops E) q v) ch"
      using True by (simp add: chain_set_parameter_def Let_def j_def q_def)
    ultimately show ?thesis using f update_op_ready[OF assms(2) j] by simp
  next
    case False
    then show ?thesis using assms by (simp add: chain_set_parameter_def Let_def)
  qed
  show "chain_linked (bypass_operator i b ch) \<and> ops_ready ready k (bypass_operator i b ch)"
  proof (cases "valid_op_index i ch")
    case True
    define j where "j = nat (i - 1)"
    have j: "j < length (ch_ops ch)" using True by (auto simp: valid_op_index_def j_def)
    define c where "c = (ch_ops ch ! j)\<lparr>cop_bypassed := tristate b (cop_bypassed (ch_ops ch ! j))\<rparr>"
    have e: "bypass_operator i b ch = ch\<lparr>ch_ops := (ch_ops ch)[j := c]\<rparr>"
      using True by (simp add: bypass_operator_def Let_def j_def c_def)
    have "ready (cop_obj c) k" using assms(2) j by (simp add: ops_ready_def c_def)
    then have "ops_ready ready k (bypass_operator i b ch)"
      using assms(2) set_update_subset_insert[of "ch_ops ch" j c] by (auto simp: ops_ready_def e)
    moreover have "chain_frame (bypass_operator i b ch) = chain_frame ch"
      by (simp add: e chain_frame_def map_list_update_same c_def)
    ultimately show ?thesis using f by simp
  next
    case False
    then show ?thesis using assms by (simp add: bypass_operator_def)
  qed
  have "chain_frame (set_controller_parameter (ee_sources E) i p v ch) = chain_frame ch"
    by (simp add: set_controller_parameter_def chain_frame_def Let_def map_list_update_same)
  then show "chain_linked (set_controller_parameter (ee_sources E) i p v ch) \<and>
      ops_ready ready k (set_controller_parameter (ee_sources E) i p v ch)"
    using f assms(2) by (simp add: ops_ready_def set_controller_parameter_def Let_def)
qed

lemma execute_edit_ok:
  fixes e :: "('io, 'o, 'c, 'v, 's) engine"
  assumes "engine_ok io_ok ready e"
  shows "engine_ok io_ok ready (e\<lparr>en_cs := snd (execute_edit (ee_ops E) (ee_sources E) ed (en_cs e))\<rparr>)"
proof (cases ed)
  case (Edit_c_bypass n v)
  show ?thesis unfolding Edit_c_bypass execute_edit.simps
    by (rule edit_chain_kept[OF assms]) (auto simp: set_bypass_def chain_linked_def target_exists_def ops_ready_def same_connections_def split: option.splits)
next
  case (Edit_c_muting n v)
  show ?thesis unfolding Edit_c_muting execute_edit.simps
    by (rule edit_chain_kept[OF assms]) (auto simp: set_mute_def chain_linked_def target_exists_def ops_ready_def same_connections_def split: option.splits)
next
  case (Edit_cop_set_param n i p v)
  show ?thesis unfolding Edit_cop_set_param execute_edit.simps
    by (rule edit_chain_kept[OF assms])
      (use edit_linked(1) in \<open>auto simp: chain_set_parameter_def Let_def update_op_def same_connections_def\<close>)
next
  case (Edit_cop_bypass n i b)
  show ?thesis unfolding Edit_cop_bypass execute_edit.simps
    by (rule edit_chain_kept[OF assms])
      (use edit_linked(2) in \<open>auto simp: bypass_operator_def Let_def same_connections_def\<close>)
next
  case (Edit_ctrl_set_param n i p v)
  show ?thesis unfolding Edit_ctrl_set_param execute_edit.simps
    by (rule edit_chain_kept[OF assms])
      (use edit_linked(3) in \<open>auto simp: set_controller_parameter_def Let_def same_connections_def\<close>)
qed

lemma driver_exit_ok:
  fixes e :: "('io, 'o, 'c, 'v, 's) engine"
  assumes "engine_ok io_ok ready e"
  shows "\<exists>e'. driver_exit (ee_io E) e = Inr e' \<and> engine_ok io_ok ready e'"
proof (cases "en_prepared e")
  case True
  obtain e1 where "stop_operation (ee_io E) False e = Inr e1" "engine_ok io_ok ready e1" using stop_operation_ok[OF assms] by blast
  then show ?thesis using True by (simp add: driver_exit_def)
qed (use assms in \<open>simp add: driver_exit_def\<close>)

lemma handle_command_ok:
  fixes e :: "('io, 'o, 'c, 'v, 's) engine"
  assumes "engine_ok io_ok ready e" "transport_ok e"
  shows "\<exists>e'. handle_command E c e = Inr e' \<and> engine_ok io_ok ready e'"
proof (cases c)
  case (Ep_exec_edit ed reinit)
  define e1 where "e1 = e\<lparr>en_cs := snd (execute_edit (ee_ops E) (ee_sources E) ed (en_cs e))\<rparr>"
  have "engine_ok io_ok ready e1" using execute_edit_ok[OF assms(1)] by (simp add: e1_def)
  then show ?thesis
    unfolding Ep_exec_edit handle_command.simps Let_def e1_def[symmetric] using reinit_chains_ok[of e1] by (cases reinit) simp_all
next
  case (Ep_rewind s)
  have "ap_srate (cp_pos (cs_position (en_cs e))) \<noteq> 0" using assms(1) by (simp add: engine_ok_def)
  then have "position_in_seconds_exact (cp_pos (cs_position (en_cs e))) =
      Inr (of_int (ap_position (cp_pos (cs_position (en_cs e)))) / of_int (ap_srate (cp_pos (cs_position (en_cs e)))))"
    by (simp add: position_in_seconds_exact_def seconds_exact_def)
  from change_position_sequence[OF assms(2) this] show ?thesis using seek_sequence_ok[OF assms(1)] by (simp add: Ep_rewind)
next
  case (Ep_forward s)
  have "ap_srate (cp_pos (cs_position (en_cs e))) \<noteq> 0" using assms(1) by (simp add: engine_ok_def)
  then have "position_in_seconds_exact (cp_pos (cs_position (en_cs e))) =
      Inr (of_int (ap_position (cp_pos (cs_position (en_cs e)))) / of_int (ap_srate (cp_pos (cs_position (en_cs e)))))"
    by (simp add: position_in_seconds_exact_def seconds_exact_def)
  from change_position_sequence[OF assms(2) this] show ?thesis using seek_sequence_ok[OF assms(1)] by (simp add: Ep_forward)
next
  case (Ep_setpos s)
  then show ?thesis using seek_sequence_ok[OF assms(1)] by (simp add: set_position_sequence[OF assms(2)])
next
  case (Ep_setpos_samples s)
  then show ?thesis using seek_sequence_ok[OF assms(1)] by (simp add: set_position_samples_sequence)
next
  case (Ep_setpos_live_samples s)
  obtain e1 where "en_seek (ee_io E) (truncate_rat s) e = Inr e1" "engine_ok io_ok ready e1" using seek_ok[OF assms(1)] by blast
  then show ?thesis using engine_ok_tags(1)[of io_ok ready e1] by (simp add: Ep_setpos_live_samples set_position_samples_live_def)
next
  case Ep_prepare
  then show ?thesis using prepare_operation_ok[OF assms(1)] assms(1) by simp
next
  case Ep_start
  then show ?thesis using driver_start_ok[OF assms(1)] assms(1) by simp
next
  case Ep_stop
  then show ?thesis using driver_stop_ok[OF assms(1)] assms(1) by simp
next
  case Ep_stop_with_drain
  then show ?thesis using driver_stop_ok[OF assms(1)] assms(1) by simp
next
  case Ep_exit
  then show ?thesis using driver_exit_ok[OF assms(1)] by simp
next
  case Ep_debug
  then show ?thesis using assms(1) by simp
qed

lemma command_queue_safe:
  fixes e :: "('io, 'o, 'c, 'v, 's) engine"
  assumes "engine_ok io_ok ready e" "transport_ok e"
  shows "\<exists>e'. check_command_queue E busy n e = Inr e' \<and> engine_ok io_ok ready e'"
  using assms
proof (induction "length (mq_msgs (en_queue e))" arbitrary: n e rule: less_induct)
  case less
  show ?case
  proof (cases "mq_is_empty (fst (busy n)) (en_queue e) (en_queue e)")
    case True
    then show ?thesis using less.prems by (subst check_command_queue.simps) simp
  next
    case ne: False
    obtain r m q where p: "mq_pop_front (snd (busy n)) (en_queue e) = (r, m, q)" by (metis prod_cases3)
    show ?thesis
    proof (cases "m = None \<or> r \<le> 0")
      case True
      then show ?thesis using less.prems ne p by (subst check_command_queue.simps) (auto split: option.splits)
    next
      case False
      then obtain c where c: "m = Some c" "\<not> r \<le> 0" by auto
      have l: "length (mq_msgs q) < length (mq_msgs (en_queue e))"
        using p c by (auto simp: mq_pop_front_def split: if_split_asm list.splits)
      have ok: "engine_ok io_ok ready (e\<lparr>en_queue := q'\<rparr>)" "transport_ok (e\<lparr>en_queue := q'\<rparr>)" for q'
        using less.prems by (simp_all add: transport_ok_def)
      show ?thesis
      proof (cases "c = Ep_exit")
        case True
        then show ?thesis using handle_command_ok[OF ok] ne p c by (subst check_command_queue.simps) (simp del: handle_command.simps)
      next
        case nx: False
        obtain e1 where e1: "handle_command E c (e\<lparr>en_queue := q\<rparr>) = Inr e1" "engine_ok io_ok ready e1"
          using handle_command_ok[OF ok] by blast
        have "length (mq_msgs (en_queue e1)) < length (mq_msgs (en_queue e))"
          using handle_command_queue[OF e1(1) nx] l by simp
        from less.hyps[OF this e1(2), of "Suc n"] handle_command_result[OF e1(1) ok(2) nx] show ?thesis
          using ne p c nx e1(1) by (subst check_command_queue.simps) (simp del: handle_command.simps)
      qed
    qed
  qed
qed

text \<open>A whole run.\<close>

lemma engine_ok_commands: "engine_ok io_ok ready e \<Longrightarrow> engine_ok io_ok ready (fold en_command cs e)"
  by (induction cs arbitrary: e) (simp_all add: en_command_def)

lemma update_engine_state_ok: "engine_ok io_ok ready e \<Longrightarrow> engine_ok io_ok ready (update_engine_state e)"
  by (auto simp: update_engine_state_def Let_def en_command_def)

lemma driver_loop_safe:
  fixes e :: "('io, 'o, 'c, 'v, 's) engine"
  assumes "engine_ok io_ok ready e" "transport_ok e"
  shows "driver_loop E turns e = None \<or> (\<exists>d e'. driver_loop E turns e = Some (Inr (d, e')) \<and> engine_ok io_ok ready e')"
  using assms
proof (induction turns arbitrary: e)
  case (Cons turn turns)
  obtain commands busy where t: "turn = (commands, busy)" by fastforce
  have ok: "engine_ok io_ok ready (fold en_command commands e)" "transport_ok (fold en_command commands e)"
    using engine_ok_commands Cons.prems by simp_all
  obtain e1 where e1: "check_command_queue E busy 0 (fold en_command commands e) = Inr e1" "engine_ok io_ok ready e1"
    using command_queue_safe[OF ok] by blast
  have t1: "transport_ok e1" using check_command_queue_ok[OF e1(1) ok(2)] .
  obtain e2 where e2: "engine_iteration E e1 = Inr e2" "engine_ok io_ok ready e2" using engine_iteration_ok[OF e1(2)] by blast
  have t2: "transport_ok e2" using engine_iteration_iterates[OF e2(1)] t1 by (simp add: iterates_def transport_ok_def)
  have b: "\<exists>d. d" "\<exists>d. \<not> d" by blast+
  show ?case
    using Cons.IH[OF update_engine_state_ok[OF e2(2)]] Cons.IH[OF update_engine_state_ok[OF e1(2)]] t1 t2 e1 e2 b
    by (simp add: t transport_ok_update)
qed simp

lemma engine_exec_ok:
  fixes e :: "('io, 'o, 'c, 'v, 's) engine"
  assumes "engine_ok io_ok ready e" "transport_ok (toggle_locked_state True e)"
  shows "engine_exec E batch turns e = None \<or> (\<exists>r e'. engine_exec E batch turns e = Some (Inr (r, e')))"
proof -
  define e0 where "e0 = init_engine_state (((toggle_locked_state True e)\<lparr>en_batchmode := batch\<rparr>)\<lparr>en_exit_request := False\<rparr>)"
  have 0: "engine_ok io_ok ready e0" unfolding e0_def by (rule engine_ok_tags(1)) (use assms(1) in simp)
  have t: "transport_ok e0" using assms(2) by (simp add: e0_def transport_ok_def)
  from driver_loop_safe[OF 0 t, of turns] show ?thesis
  proof (elim disjE exE conjE)
    fix d e1 assume 1: "driver_loop E turns e0 = Some (Inr (d, e1))" "engine_ok io_ok ready e1"
    obtain e2 where "stop_operation (ee_io E) d e1 = Inr e2" using stop_operation_ok[OF 1(2)] by blast
    then have "\<exists>e2. (if en_prepared e1 then stop_operation (ee_io E) d e1 else Inr e1) = Inr e2" by simp
    then show ?thesis using 1(1) by (auto simp: engine_exec_def driver_exec_def e0_def Let_def)
  qed (simp add: engine_exec_def driver_exec_def e0_def)
qed

end

end
