(* ===== verification/Engine_Setup.thy ===== *)
theory Engine_Setup
  imports Engine_Safety
begin

text \<open>
  The constructor of the engine establishes its invariant: on a chainsetup whose chains are
  connected and whose objects and operators meet their contracts, \<open>engine_create\<close> succeeds, and the
  engine can then be run. The contracts are interpreted on the model's own operators
  (\<open>effect_class\<close>) and on the loop device.
\<close>

definition chainsetup_ok :: "('io \<Rightarrow> bool) \<Rightarrow> ('o \<Rightarrow> bool) \<Rightarrow> ('io, 'o, 'c, 'v) chainsetup \<Rightarrow> bool" where
  "chainsetup_ok io valid cs \<longleftrightarrow>
     (\<forall>a \<in> set (cs_inputs cs) \<union> set (cs_outputs cs). \<exists>x. cs_objects cs a = Some x \<and> io x) \<and>
     (\<forall>q \<in> set (cs_chains cs). connected_chain cs q \<and> chain_linked q \<and> ops_valid valid q \<and> ap_srate (ch_position q) \<noteq> 0) \<and>
     cs_srate cs \<noteq> 0 \<and> cs_buffersize cs \<noteq> 0"

lemma chainsetup_ok_object:
  assumes "chainsetup_ok io ready cs" "a \<in> set (cs_inputs cs) \<union> set (cs_outputs cs)"
  shows "\<exists>x. get_obj a cs = Inr x"
proof -
  obtain x where "cs_objects cs a = Some x" using assms by (auto simp: chainsetup_ok_def)
  then show ?thesis by (simp add: get_obj_def)
qed

lemma max_channels_ok:
  assumes "chainsetup_ok io ready cs" shows "\<exists>m. max_channels iocls cs = Inr m"
  using fold_result_ok[of "cs_inputs cs @ cs_outputs cs" "\<lambda>_. True"
      "\<lambda>a m. bind_result (get_obj a cs) (\<lambda>x. Inr (if io_channels iocls x > m then io_channels iocls x else m))" 0]
    chainsetup_ok_object[OF assms] unfolding max_channels_def by fastforce

lemma init_prefill_ok:
  assumes "chainsetup_ok io ready (en_cs e)"
  shows "\<exists>t. init_prefill iocls e = Inr (e\<lparr>en_prefill_threshold := t\<rparr>)"
proof -
  obtain m where m: "max_channels iocls (en_cs e) = Inr m" using max_channels_ok[OF assms] by blast
  have "en_buffersize e \<noteq> 0" using assms by (simp add: en_buffersize_def chainsetup_ok_def)
  then show ?thesis unfolding init_prefill_def m bind_result_simps Let_def by (cases "cs_max_buffers (en_cs e)") auto
qed

lemma latency_ok:
  assumes "\<And>a. a \<in> set as \<Longrightarrow> \<exists>x. get_obj a cs = Inr x"
  shows "\<exists>n. fold_result (\<lambda>a latency. bind_result (get_obj a cs) (\<lambda>x. Inr (f x latency))) as z = Inr n"
  using fold_result_ok[of as "\<lambda>_. True" "\<lambda>a latency. bind_result (get_obj a cs) (\<lambda>x. Inr (f x latency))" z] assms by fastforce

lemma count_all_ok:
  assumes "\<And>a. \<exists>n. f a = Inr n"
  shows "\<exists>ns. count_all f as = Inr ns \<and> length ns = length as"
proof (induction as rule: rev_induct)
  case (snoc a as)
  obtain n where "f a = Inr n" using assms by blast
  then show ?case using snoc.IH by (auto simp: count_all_def fold_result_append)
qed (simp add: count_all_def)

lemma connected_chain_simps [simp]:
  "connected_chain (cs\<lparr>cs_chains := chs\<rparr>) q = connected_chain cs q" "connected_chain (cs\<lparr>cs_locked := b\<rparr>) q = connected_chain cs q"
  by (simp_all add: connected_chain_def)

lemma chainsetup_ok_locked: "chainsetup_ok io ready (cs\<lparr>cs_locked := b\<rparr>) = chainsetup_ok io ready cs"
  by (simp add: chainsetup_ok_def)

lemma chain_counts_ok:
  assumes "\<And>q. q \<in> set (cs_chains (en_cs e)) \<Longrightarrow> connected_chain (en_cs e) q"
  shows "\<exists>ins outs. update_cache_chain_connections e = Inr (e\<lparr>en_input_chain_count := ins, en_output_chain_count := outs\<rparr>) \<and>
    length ins = length (cs_inputs (en_cs e)) \<and> length outs = length (cs_outputs (en_cs e))"
proof -
  have "\<exists>n. number_of_attached_chains_to_input a (en_cs e) = Inr n" for a
    unfolding number_of_attached_chains_to_input_def
    by (rule number_of_attached_ok) (use assms in \<open>auto simp: connected_chain_def at_index_def\<close>)
  from count_all_ok[of "\<lambda>a. number_of_attached_chains_to_input a (en_cs e)", OF this, of "cs_inputs (en_cs e)"] obtain ins where
    1: "count_all (\<lambda>a. number_of_attached_chains_to_input a (en_cs e)) (cs_inputs (en_cs e)) = Inr ins" "length ins = length (cs_inputs (en_cs e))"
    by blast
  have "\<exists>n. number_of_attached_chains_to_output a (en_cs e) = Inr n" for a
    unfolding number_of_attached_chains_to_output_def
    by (rule number_of_attached_ok) (use assms in \<open>auto simp: connected_chain_def at_index_def\<close>)
  from count_all_ok[of "\<lambda>a. number_of_attached_chains_to_output a (en_cs e)", OF this, of "cs_outputs (en_cs e)"] obtain outs where
    2: "count_all (\<lambda>a. number_of_attached_chains_to_output a (en_cs e)) (cs_outputs (en_cs e)) = Inr outs" "length outs = length (cs_outputs (en_cs e))"
    by blast
  show ?thesis unfolding update_cache_chain_connections_def 1(1) 2(1) bind_result_simps
    by (rule exI[of _ ins], rule exI[of _ outs]) (simp add: 1(2) 2(2))
qed

lemma latency_values_ok:
  assumes "\<And>a. a \<in> set (en_realtime_inputs e) \<union> set (en_realtime_outputs e) \<Longrightarrow> \<exists>x. get_obj a (en_cs e) = Inr x" "cs_buffersize (en_cs e) \<noteq> 0"
  shows "\<exists>n. update_cache_latency_values iocls e = Inr (e\<lparr>en_recording_offset := n\<rparr>)"
proof -
  have "\<exists>i. input_latency iocls e = Inr i"
    unfolding input_latency_def by (rule latency_ok) (use assms(1) in blast)
  then obtain i where i: "input_latency iocls e = Inr i" by blast
  have "\<exists>j. output_latency iocls e = Inr j"
    unfolding output_latency_def by (rule latency_ok) (use assms(1) in blast)
  then obtain j where j: "output_latency iocls e = Inr j" by blast
  show ?thesis
    unfolding update_cache_latency_values_def i j bind_result_simps using assms(2) by (auto simp: en_buffersize_def)
qed

text \<open>The state when the first \<open>n\<close> chains have been initialised.\<close>

definition chains_ready ::
  "('o \<Rightarrow> nat \<Rightarrow> bool) \<Rightarrow> ('o \<Rightarrow> bool) \<Rightarrow> nat \<Rightarrow> ('io, 'o, 'c, 'v, 's::zero) engine \<Rightarrow> bool" where
  "chains_ready ready valid n e \<longleftrightarrow> length (en_cslots e) = length (cs_chains (en_cs e)) \<and>
     (\<forall>i < length (cs_chains (en_cs e)). connected_chain (en_cs e) (cs_chains (en_cs e) ! i) \<and>
        (if i < n then chain_ok ready (en_cslots e ! i) (cs_chains (en_cs e) ! i)
         else chain_waiting valid (en_cslots e ! i) (cs_chains (en_cs e) ! i)))"

context engine_parts begin

lemma init_chain_ready:
  fixes e :: "('io, 'o, 'c, 'v, 's) engine"
  assumes "chains_ready ready valid c e" "c < length (cs_chains (en_cs e))"
    and "\<And>a. a \<in> set (cs_inputs (en_cs e)) \<union> set (cs_outputs (en_cs e)) \<Longrightarrow> \<exists>x. get_obj a (en_cs e) = Inr x"
  shows "\<exists>e'. init_chain E c e = Inr e' \<and> chains_ready ready valid (Suc c) e' \<and> chains_only e e'"
proof -
  define q where "q = cs_chains (en_cs e) ! c"
  have q: "connected_chain (en_cs e) q" "chain_waiting valid (en_cslots e ! c) q" "c < length (en_cslots e)"
    using assms(1,2) by (simp_all add: chains_ready_def q_def)
  obtain a b where a: "at_index (cs_inputs (en_cs e)) (ch_input q) = Inr a" "a \<in> set (cs_inputs (en_cs e))"
    and b: "at_index (cs_outputs (en_cs e)) (ch_output q) = Inr b" "b \<in> set (cs_outputs (en_cs e))"
    using q(1) by (auto simp: connected_chain_def at_index_def nat_less_iff)
  obtain x y where x: "get_obj a (en_cs e) = Inr x" and y: "get_obj b (en_cs e) = Inr y" using assms(3) a(2) b(2) by blast
  obtain q' slot where 1: "chain_init (ee_ops E) (ee_sources E) (ee_garbage E) (io_channels (ee_io E) x) (io_channels (ee_io E) y) q (en_cslots e ! c) = Inr (q', slot)"
      "chain_ok ready slot q'" "same_connections q q'"
    using chain_init_waiting[OF q(2)] by blast
  define e' where "e' = e\<lparr>en_cs := (en_cs e)\<lparr>cs_chains := (cs_chains (en_cs e))[c := q']\<rparr>, en_cslots := (en_cslots e)[c := slot]\<rparr>"
  have r: "init_chain E c e = Inr e'"
    unfolding init_chain_def q_def[symmetric] a(1) b(1) bind_result_simps x y on_chain_def
    using 1(1) assms(2) q(3) by (simp add: q_def e'_def)
  have "connected_chain (en_cs e) q'" using q(1) same_connections_chain[OF 1(3), of "en_cs e"] by simp
  then have "chains_ready ready valid (Suc c) e'"
    using assms(1,2) 1(2) by (auto simp: chains_ready_def e'_def nth_list_update less_Suc_eq)
  moreover have "chains_only e e'"
    unfolding chains_only_def e'_def
    by (intro exI[of _ "(cs_chains (en_cs e))[c := q']"] exI[of _ "(en_cslots e)[c := slot]"]) simp
  ultimately show ?thesis using r by blast
qed

lemma init_chains_ready:
  fixes e :: "('io, 'o, 'c, 'v, 's) engine"
  assumes "chainsetup_ok io_ok valid (en_cs e)" "sb_wf (en_mixslot e)"
  shows "\<exists>mix slots e'. init_chains E e = Inr e' \<and> sb_wf mix \<and> chains_ready ready valid (length (cs_chains (en_cs e'))) e' \<and>
    chains_only (e\<lparr>en_mixslot := mix, en_cslots := slots\<rparr>) e'"
proof -
  define n where "n = length (cs_chains (en_cs e))"
  obtain m where m: "max_channels (ee_io E) (en_cs e) = Inr m" using max_channels_ok[OF assms(1)] by blast
  obtain s where s: "number_of_channels (ee_garbage E) m (en_mixslot e) = Inr s" "sb_wf s"
    using number_of_channels_at[OF assms(2)] by blast
  obtain c where c: "sample_buffer_create (ee_samplerate E) (ee_garbage E) (ee_tags E) (cs_buffersize (en_cs e)) m = Inr c" "sb_wf c"
    using create_ok by blast
  define mix where "mix = event_tag_set tag_var_length False (event_tag_set tag_mixed_content True s)"
  define slots where "slots = replicate n (event_tag_set tag_var_length False c)"
  define e1 where "e1 = e\<lparr>en_mixslot := mix, en_cslots := slots\<rparr>"
  have "connected_chain (en_cs e) q \<and> chain_linked q \<and> ops_valid valid q \<and> ap_srate (ch_position q) \<noteq> 0"
    if "q \<in> set (cs_chains (en_cs e))" for q using assms(1) that by (simp add: chainsetup_ok_def)
  then have ready1: "chains_ready ready valid 0 e1"
    using c(2) by (simp add: chains_ready_def e1_def slots_def n_def chain_waiting_def)
  have "\<exists>e'. fold_result (init_chain E) [0..<i] e1 = Inr e' \<and> chains_ready ready valid i e' \<and> chains_only e1 e'" if "i \<le> n" for i
    using that
  proof (induction i)
    case (Suc i)
    then obtain e2 where 2: "fold_result (init_chain E) [0..<i] e1 = Inr e2" "chains_ready ready valid i e2" "chains_only e1 e2" by auto
    obtain chs where chs: "en_cs e2 = (en_cs e)\<lparr>cs_chains := chs\<rparr>" "length chs = n"
      using 2 by (auto simp: chains_only_def e1_def n_def)
    have "\<exists>x. get_obj a (en_cs e2) = Inr x" if "a \<in> set (cs_inputs (en_cs e2)) \<union> set (cs_outputs (en_cs e2))" for a
      using chainsetup_ok_object[OF assms(1), of a] that by (simp add: chs get_obj_def)
    moreover have "i < length (cs_chains (en_cs e2))" using Suc.prems chs by simp
    ultimately obtain e3 where "init_chain E i e2 = Inr e3" "chains_ready ready valid (Suc i) e3" "chains_only e2 e3"
      using init_chain_ready[OF 2(2)] by blast
    then show ?case using 2 chains_only_trans by (auto simp: fold_result_append)
  qed (use ready1 in simp)
  then obtain e' where e': "fold_result (init_chain E) [0..<n] e1 = Inr e'" "chains_ready ready valid n e'" "chains_only e1 e'" by blast
  have "length (cs_chains (en_cs e')) = n" using e'(3) by (auto simp: chains_only_def e1_def n_def)
  have "init_chains E e = Inr e'"
    unfolding init_chains_def m s(1) c(1) bind_result_simps using e'(1) by (simp add: e1_def mix_def slots_def n_def)
  moreover have "sb_wf mix" using s(2) by (simp add: mix_def)
  ultimately show ?thesis using e' \<open>length (cs_chains (en_cs e')) = n\<close> unfolding e1_def by blast
qed

lemma engine_create_ok:
  fixes cs :: "('io, 'o, 'c, 'v) chainsetup"
  assumes "chainsetup_ok io_ok valid cs"
  shows "\<exists>e. engine_create E w p r cs = Inr e \<and> engine_ok io_ok ready e \<and> \<not> en_prepared e \<and> \<not> en_running e"
proof -
  obtain mixslot where 0: "sample_buffer_create (ee_samplerate E) (ee_garbage E) (ee_tags E) (cs_buffersize cs) 0 = Inr mixslot" "sb_wf mixslot"
    using create_ok by blast
  define cs1 where "cs1 = cs\<lparr>cs_locked := True\<rparr>"
  define e0 where "e0 = \<lparr>en_cs = cs1, en_attached = True, en_batchmode = False, en_prepared = False, en_running = False,
        en_was_running = w, en_finished = False, en_outputs_finished = 0, en_driver_errors = 0,
        en_inputs_not_finished = 1, en_prefill_threshold = 0, en_preroll_samples = p, en_recording_offset = r,
        en_mixslot = mixslot, en_cslots = [], en_realtime_inputs = [], en_realtime_outputs = [],
        en_realtime_objects = [], en_non_realtime_inputs = [], en_non_realtime_outputs = [],
        en_input_chain_count = [], en_output_chain_count = [],
        en_queue = message_queue_create (-1), en_exit_request = False\<rparr>"
  have ok: "chainsetup_ok io_ok valid cs1" using assms by (simp add: cs1_def chainsetup_ok_locked)
  have "en_cs (init_engine_state e0) = cs1" by (simp add: e0_def)
  from init_prefill_ok[of io_ok valid "init_engine_state e0", unfolded this, OF ok] obtain t where
    t: "init_prefill (ee_io E) (init_engine_state e0) = Inr ((init_engine_state e0)\<lparr>en_prefill_threshold := t\<rparr>)" by blast
  define e1 where "e1 = (init_engine_state e0)\<lparr>en_prefill_threshold := t\<rparr>"
  have 1: "en_cs e1 = cs1" "sb_wf (en_mixslot e1)" "\<not> en_prepared e1" "\<not> en_running e1"
      "en_realtime_inputs e1 = []" "en_realtime_outputs e1 = []" "en_realtime_objects e1 = []" "en_non_realtime_inputs e1 = []"
    using 0(2) by (simp_all add: e1_def e0_def init_engine_state_def)
  obtain mix slots e2 where 2: "init_chains E e1 = Inr e2" "sb_wf mix" "chains_ready ready valid (length (cs_chains (en_cs e2))) e2"
      "chains_only (e1\<lparr>en_mixslot := mix, en_cslots := slots\<rparr>) e2"
    using init_chains_ready[of e1] ok 1 by auto
  obtain chs ss where e2: "e2 = e1\<lparr>en_mixslot := mix, en_cs := cs1\<lparr>cs_chains := chs\<rparr>, en_cslots := ss\<rparr>"
    using 2(4) 1(1) by (auto simp: chains_only_def)
  define e3 where "e3 = create_cache_object_lists (ee_io E) e2"
  have 3: "en_cs e3 = cs1\<lparr>cs_chains := chs\<rparr>" "en_cslots e3 = ss" "en_mixslot e3 = mix" "\<not> en_prepared e3" "\<not> en_running e3"
      "set (en_realtime_inputs e3) \<union> set (en_realtime_outputs e3) \<union> set (en_realtime_objects e3) \<union> set (en_non_realtime_inputs e3)
        \<subseteq> set (cs_inputs cs1) \<union> set (cs_outputs cs1)"
    using 1 by (auto simp: e3_def create_cache_object_lists_def e2 Let_def)
  have ready3: "\<And>i. i < length chs \<Longrightarrow> connected_chain cs1 (chs ! i) \<and> chain_ok ready (ss ! i) (chs ! i)" "length ss = length chs"
    using 2(3) by (simp_all add: chains_ready_def e2)
  have "connected_chain (en_cs e3) q" if "q \<in> set (cs_chains (en_cs e3))" for q
    using that ready3(1) by (auto simp: 3(1) in_set_conv_nth)
  from chain_counts_ok[of e3, OF this] obtain ins outs where
    4: "update_cache_chain_connections e3 = Inr (e3\<lparr>en_input_chain_count := ins, en_output_chain_count := outs\<rparr>)"
      "length ins = length (cs_inputs cs1)" "length outs = length (cs_outputs cs1)"
    by (auto simp: 3(1))
  define e4 where "e4 = e3\<lparr>en_input_chain_count := ins, en_output_chain_count := outs\<rparr>"
  have "\<exists>x. get_obj a (en_cs e4) = Inr x" if "a \<in> set (en_realtime_inputs e4) \<union> set (en_realtime_outputs e4)" for a
    using chainsetup_ok_object[OF ok, of a] that 3(1,6) by (auto simp: e4_def get_obj_def)
  moreover have "cs_buffersize (en_cs e4) \<noteq> 0" using ok 3(1) by (simp add: e4_def chainsetup_ok_def)
  ultimately obtain n where n: "update_cache_latency_values (ee_io E) e4 = Inr (e4\<lparr>en_recording_offset := n\<rparr>)"
    using latency_values_ok[of e4] by blast
  define e5 where "e5 = e4\<lparr>en_recording_offset := n\<rparr>"
  have conn: "init_connection_to_chainsetup E e0 = Inr e5"
    unfolding init_connection_to_chainsetup_def t bind_result_simps e1_def[symmetric] 2(1) e3_def[symmetric] 4(1) e4_def[symmetric] n e5_def ..
  have "engine_ok io_ok ready e5"
    unfolding engine_ok_def engine_objects_def
    using ok ready3 4(2,3) 3 2(2) by (auto simp: e5_def e4_def chainsetup_ok_def)
  then have "engine_ok io_ok ready (toggle_locked_state False e5)" by simp
  moreover have "engine_create E w p r cs = Inr (toggle_locked_state False e5)"
    unfolding engine_create_def 0(1) bind_result_simps cs1_def[symmetric] e0_def[symmetric] conn ..
  moreover have "\<not> en_prepared (toggle_locked_state False e5)" "\<not> en_running (toggle_locked_state False e5)"
    using 3(4,5) by (simp_all add: toggle_locked_state_def e5_def e4_def)
  ultimately show ?thesis by blast
qed

lemma engine_run_ok:
  fixes cs :: "('io, 'o, 'c, 'v) chainsetup"
  assumes "chainsetup_ok io_ok valid cs"
  shows "\<exists>e. engine_create E w p r cs = Inr e \<and>
    (\<forall>batch turns. engine_exec E batch turns e = None \<or> (\<exists>code e'. engine_exec E batch turns e = Some (Inr (code, e'))))"
proof -
  obtain e where e: "engine_create E w p r cs = Inr e" "engine_ok io_ok ready e" "\<not> en_prepared e" "\<not> en_running e"
    using engine_create_ok[OF assms] by blast
  have "transport_ok (toggle_locked_state True e)" using e(3,4) by (simp add: transport_ok_def toggle_locked_state_def)
  from engine_exec_ok[OF e(2) this] e(1) show ?thesis by blast
qed

end

text \<open>An engine whose operators are the effects and whose inputs and outputs are loop devices.\<close>

definition studio_env ::
  "('c, rat) source_class \<Rightarrow> (nat \<Rightarrow> nat \<Rightarrow> rat) \<Rightarrow> (int \<Rightarrow> rat) \<Rightarrow> bool \<Rightarrow> 32 word \<Rightarrow> (rat loop_device, effect, 'c, rat, rat) engine_env" where
  "studio_env src g cast samplerate tags =
     \<lparr>ee_ops = effect_class g, ee_sources = src, ee_io = loop_io g cast, ee_garbage = g, ee_cast = cast,
      ee_samplerate = samplerate, ee_tags = tags\<rparr>"

interpretation studio: engine_parts "studio_env src g cast samplerate tags" effect_ready "\<lambda>e. \<exists>k. effect_ready e k" loop_ok
  for src :: "('c, rat) source_class" and g cast samplerate tags
proof -
  have ops: "ee_ops (studio_env src g cast samplerate tags) = effect_class g" "ee_io (studio_env src g cast samplerate tags) = loop_io g cast"
    by (simp_all add: studio_env_def)
  show "engine_parts (studio_env src g cast samplerate tags) effect_ready (\<lambda>e. \<exists>k. effect_ready e k) loop_ok"
    unfolding engine_parts_def ops using fx.controlled_operators_axioms lio.io_contract_axioms by blast
qed


definition studio_loop :: "rat loop_device" where
  "studio_loop = \<lparr>ld_channels = 2, ld_writes = 0, ld_registered_inputs = 1, ld_registered_outputs = 1, ld_empty_rounds = 0,
     ld_finished = False, ld_filled = False, ld_sbuf = stereo_buffer, ld_position = audio_position_create 44100\<rparr>"

definition studio_setup :: "(rat loop_device, effect, unit, rat) chainsetup" where
  "studio_setup = \<lparr>cs_objects = [0 \<mapsto> studio_loop], cs_inputs = [0], cs_inputs_direct = [0],
     cs_outputs = [0], cs_outputs_direct = [0], cs_loop_map = [''1'' \<mapsto> 0],
     cs_chains = [effects_chain\<lparr>ch_name := ''a'', ch_input := 0, ch_output := 0\<rparr>],
     cs_selected = [''a''], cs_position = chainsetup_position_create 44100 0, cs_buffersize = 2, cs_mix_avg = False,
     cs_locked = False, cs_enabled = True, cs_db_clients = 0, cs_double_buffering = False, cs_max_buffers = False,
     cs_raised_priority = False, cs_rtcaps = False, cs_multitrack = False, cs_multitrack_override = False,
     cs_multitrack_offset = -1, cs_bmode = Bmode_auto, cs_bmode_active = Bmode_auto\<rparr>"


end
