(* ===== verification/Proxy.thy ===== *)
theory Proxy
  imports Child_Stream Kvu_Args
begin

text \<open>
  Audio objects that wrap another one: \<open>audioio-proxy.cpp\<close> and what they inherit from \<open>audioio.cpp\<close>. The
  child is the state \<open>'c\<close> of a stream class; \<open>be\<close> says whether the machine is big-endian. A sample rate
  that has been 0 makes a change of the rate undefined.
\<close>

record audio_io =
  ai_label :: string
  ai_io_mode :: io_mode
  ai_open :: bool
  ai_format :: audio_format
  ai_position :: audio_position

definition audio_io_create :: "bool \<Rightarrow> audio_format \<Rightarrow> audio_io" where
  "audio_io_create be af0 =
     \<lparr>ai_label = ''unknown'', ai_io_mode = Io_read, ai_open = False, ai_format = audio_format_default be af0,
      ai_position = audio_position_create (-1)\<rparr>"

definition ai_set_samples_per_second :: "int \<Rightarrow> audio_io \<Rightarrow> audio_io result" where
  "ai_set_samples_per_second v a =
     bind_result (ap_set_samples_per_second v (ai_position a)) (\<lambda>p.
       Inr (a\<lparr>ai_format := af_set_srate v (ai_format a), ai_position := p\<rparr>))"

record 'c proxy =
  px_io :: audio_io
  px_buffersize :: int
  px_child :: 'c
  px_child_initialized :: bool

text \<open>The first child is a null file \<open>nullfile\<close>.\<close>

definition proxy_create :: "bool \<Rightarrow> audio_format \<Rightarrow> 'c \<Rightarrow> 'c proxy" where
  "proxy_create be af0 nullfile =
     \<lparr>px_io = audio_io_create be af0, px_buffersize = 0, px_child = nullfile, px_child_initialized = False\<rparr>"

definition set_child :: "'c \<Rightarrow> 'c proxy \<Rightarrow> 'c proxy" where
  "set_child v px = px\<lparr>px_child := v, px_child_initialized := True\<rparr>"

definition release_child_no_delete :: "'c \<Rightarrow> 'c proxy \<Rightarrow> 'c proxy" where
  "release_child_no_delete nullfile px = px\<lparr>px_child := nullfile, px_child_initialized := False\<rparr>"

abbreviation with_child :: "('c \<Rightarrow> 'c) \<Rightarrow> 'c proxy \<Rightarrow> 'c proxy" where
  "with_child f px \<equiv> px\<lparr>px_child := f (px_child px)\<rparr>"

definition pre_child_open :: "('c, 's) stream_class \<Rightarrow> 'c proxy \<Rightarrow> 'c proxy result" where
  "pre_child_open K px =
     bind_result (sc_set_format K (ai_format (px_io px))
       (sc_set_io_mode K (ai_io_mode (px_io px)) (sc_set_buffersize K (px_buffersize px) (px_child px)))) (\<lambda>c.
     bind_result (sc_set_srate K (af_srate (ai_format (px_io px))) c) (\<lambda>c'. Inr (px\<lparr>px_child := c'\<rparr>)))"

text \<open>Setters forward to the child after changing the proxy itself.\<close>

definition px_set_buffersize :: "('c, 's) stream_class \<Rightarrow> int \<Rightarrow> 'c proxy \<Rightarrow> 'c proxy" where
  "px_set_buffersize K samples px = with_child (sc_set_buffersize K samples) (px\<lparr>px_buffersize := samples\<rparr>)"

definition px_set_channels :: "('c, 's) stream_class \<Rightarrow> int \<Rightarrow> 'c proxy \<Rightarrow> 'c proxy" where
  "px_set_channels K v px =
     with_child (sc_set_channels K v) (px\<lparr>px_io := (px_io px)\<lparr>ai_format := af_set_channels v (ai_format (px_io px))\<rparr>\<rparr>)"

definition px_set_sample_format :: "bool \<Rightarrow> ('c, 's) stream_class \<Rightarrow> sample_fmt \<Rightarrow> 'c proxy \<Rightarrow> 'c proxy" where
  "px_set_sample_format be K v px =
     with_child (sc_set_sample_format K v) (px\<lparr>px_io := (px_io px)\<lparr>ai_format := set_sample_format be v (ai_format (px_io px))\<rparr>\<rparr>)"

definition px_toggle_interleaved :: "('c, 's) stream_class \<Rightarrow> bool \<Rightarrow> 'c proxy \<Rightarrow> 'c proxy" where
  "px_toggle_interleaved K v px =
     with_child (sc_toggle_interleaved K v) (px\<lparr>px_io := (px_io px)\<lparr>ai_format := toggle_interleaved_channels v (ai_format (px_io px))\<rparr>\<rparr>)"

definition px_set_samples_per_second :: "('c, 's) stream_class \<Rightarrow> int \<Rightarrow> 'c proxy \<Rightarrow> 'c proxy result" where
  "px_set_samples_per_second K v px =
     bind_result (ai_set_samples_per_second v (px_io px)) (\<lambda>a.
     bind_result (sc_set_srate K v (px_child px)) (\<lambda>c. Inr (px\<lparr>px_io := a, px_child := c\<rparr>)))"

text \<open>
  \<open>AUDIO_IO::set_audio_format\<close> calls the virtual setters above, each of which also changes the child, and
  sets the rate of the position once more; then the child gets the whole format.
\<close>

definition px_set_audio_format :: "bool \<Rightarrow> ('c, 's) stream_class \<Rightarrow> audio_format \<Rightarrow> 'c proxy \<Rightarrow> 'c proxy result" where
  "px_set_audio_format be K f px =
     bind_result (px_set_samples_per_second K (af_srate f)
       (px_set_sample_format be K (sample_format f) (px_set_channels K (af_channels f) px))) (\<lambda>px1.
     let px2 = px_toggle_interleaved K (af_ileaved f) px1 in
     bind_result (ap_set_samples_per_second (af_srate f) (ai_position (px_io px2))) (\<lambda>p.
     bind_result (sc_set_format K f (px_child px2)) (\<lambda>c.
       Inr (px2\<lparr>px_io := (px_io px2)\<lparr>ai_position := p\<rparr>, px_child := c\<rparr>))))"

definition post_child_open :: "bool \<Rightarrow> ('c, 's) stream_class \<Rightarrow> 'c proxy \<Rightarrow> 'c proxy result" where
  "post_child_open be K px =
     bind_result (if sc_locked K (px_child px) then px_set_audio_format be K (sc_format K (px_child px)) px else Inr px) (\<lambda>px1.
       Inr (px1\<lparr>px_io := (px_io px1)\<lparr>ai_position := set_length_in_samples (sc_length K (px_child px1)) (ai_position (px_io px1))\<rparr>\<rparr>))"

text \<open>\<open>child_params_as_string\<close>: the parameters from \<open>first\<close> on, those with a comma in quotes.\<close>

definition quote_commas :: "string \<Rightarrow> string" where
  "quote_commas v = (if CHR '','' \<in> set v then [CHR 0x22] @ v @ [CHR 0x22] else v)"

fun join_commas :: "string list \<Rightarrow> string" where
  "join_commas [] = []"
| "join_commas [v] = v"
| "join_commas (v # vs) = v @ '','' @ join_commas vs"

definition child_params_as_string :: "(nat \<Rightarrow> string) \<Rightarrow> nat \<Rightarrow> nat \<Rightarrow> string" where
  "child_params_as_string get_parameter first last_param =
     join_commas (map (\<lambda>n. quote_commas (get_parameter n)) [first..<Suc last_param])"

text \<open>Setting the parameters of a child one after the other; their number may change on the way.\<close>

function set_child_params :: "('c, 's) stream_class \<Rightarrow> (nat \<Rightarrow> string) \<Rightarrow> nat \<Rightarrow> nat \<Rightarrow> nat \<Rightarrow> 'c \<Rightarrow> 'c result" where
  "set_child_params K param fuel n numparams c =
     (if n < numparams
      then (case fuel of 0 \<Rightarrow> Inl Undefined_behaviour | Suc fuel' \<Rightarrow>
        (let c1 = sc_set_parameter K (n + 1) (param (n + 1)) c;
             numparams' = (if sc_variable_params K c1 then sc_number_of_params K c1 else numparams)
         in set_child_params K param fuel' (n + 1) numparams' c1))
      else Inr c)"
  by pat_completeness auto
termination by (relation "measure (\<lambda>(K, param, fuel, n, m, c). fuel)") auto

declare set_child_params.simps [simp del]

end
