(* ===== verification/Reverse.thy ===== *)
theory Reverse
  imports Proxy Raw_File_Facts
begin

text \<open>
  The audio object that plays its child backwards, \<open>audioio-reverse.cpp\<close>. \<open>create\<close> is the object factory,
  \<open>n_params\<close> bounds the parameters that a child with a varying number of them may have.
\<close>

record ('c, 's) reverse =
  rv_proxy :: "'c proxy"
  rv_params :: "string list"
  rv_init :: bool
  rv_finished :: bool
  rv_tempbuf :: "'s sample_buffer"

definition reverse_create :: "bool \<Rightarrow> audio_format \<Rightarrow> 'c \<Rightarrow> 's sample_buffer \<Rightarrow> ('c, 's) reverse" where
  "reverse_create be af0 nullfile tempbuf =
     \<lparr>rv_proxy = proxy_create be af0 nullfile, rv_params = [], rv_init = False, rv_finished = False, rv_tempbuf = tempbuf\<rparr>"

abbreviation rv_child :: "('c, 's) reverse \<Rightarrow> 'c" where "rv_child rv \<equiv> px_child (rv_proxy rv)"

definition rv_put_child :: "'c \<Rightarrow> ('c, 's) reverse \<Rightarrow> ('c, 's) reverse" where
  "rv_put_child c rv = rv\<lparr>rv_proxy := (rv_proxy rv)\<lparr>px_child := c\<rparr>\<rparr>"

definition rv_position :: "('c, 's) reverse \<Rightarrow> int" where
  "rv_position rv = ap_position (ai_position (px_io (rv_proxy rv)))"

definition rv_set_position :: "int \<Rightarrow> ('c, 's) reverse \<Rightarrow> ('c, 's) reverse" where
  "rv_set_position pos rv = rv\<lparr>rv_proxy := (rv_proxy rv)\<lparr>px_io :=
     (px_io (rv_proxy rv))\<lparr>ai_position := set_position_in_samples pos (ai_position (px_io (rv_proxy rv)))\<rparr>\<rparr>\<rparr>"

subsection \<open>Parameters\<close>

definition reverse_set_parameter :: "('c, 's) stream_class \<Rightarrow> nat \<Rightarrow> string \<Rightarrow> ('c, 's) reverse \<Rightarrow> ('c, 's) reverse" where
  "reverse_set_parameter K param v rv =
     (let ps = rv_params rv @ replicate (param - length (rv_params rv)) '''';
          rv1 = rv\<lparr>rv_params := (if param > 0 then ps[param - 1 := v] else ps)\<rparr>
      in if param > 1 \<and> rv_init rv then rv_put_child (sc_set_parameter K (param - 1) v (rv_child rv1)) rv1 else rv1)"

text \<open>\<open>get_parameter\<close> also stores what the child returns.\<close>

definition reverse_get_parameter :: "('c, 's) stream_class \<Rightarrow> nat \<Rightarrow> ('c, 's) reverse \<Rightarrow> string \<times> ('c, 's) reverse" where
  "reverse_get_parameter K param rv =
     (if param > 0 \<and> param < length (rv_params rv) + 1
      then (let rv1 = (if param > 1 \<and> rv_init rv
                       then rv\<lparr>rv_params := (rv_params rv)[param - 1 := sc_get_parameter K (param - 1) (rv_child rv)]\<rparr> else rv)
            in (rv_params rv1 ! (param - 1), rv1))
      else ('''', rv))"

subsection \<open>Opening, closing and seeking\<close>

definition reverse_seek_position :: "('c, 's) stream_class \<Rightarrow> int \<Rightarrow> ('c, 's) reverse \<Rightarrow> ('c, 's) reverse" where
  "reverse_seek_position K pos rv = rv_put_child (sc_seek_position K pos (rv_child rv)) (rv\<lparr>rv_finished := False\<rparr>)"

definition reverse_seek :: "('c, 's) stream_class \<Rightarrow> int \<Rightarrow> ('c, 's) reverse \<Rightarrow> ('c, 's) reverse" where
  "reverse_seek K pos rv = rv_set_position pos (reverse_seek_position K pos rv)"

definition reverse_error :: "string \<Rightarrow> fault" where "reverse_error msg = Thrown ''AUDIOIO-REVERSE'' msg"

definition reverse_init ::
  "('c, 's) stream_class \<Rightarrow> (string \<Rightarrow> 'c option) \<Rightarrow> nat \<Rightarrow> ('c, 's) reverse \<Rightarrow> ('c, 's) reverse result" where
  "reverse_init K create n_params rv =
     (let objname = child_params_as_string (\<lambda>n. fst (reverse_get_parameter K n rv)) 2 (length (rv_params rv)) in
      case (if objname = [] then None else create objname) of
        None \<Rightarrow> Inl (reverse_error (''unable to open child object '' @ [CHR 0x27] @ objname @ [CHR 0x27]))
      | Some tmp \<Rightarrow>
          bind_result (set_child_params K (\<lambda>n. fst (reverse_get_parameter K (n + 1) rv)) n_params 0 (sc_number_of_params K tmp) tmp) (\<lambda>c.
            Inr (rv\<lparr>rv_proxy := set_child c (rv_proxy rv), rv_init := True\<rparr>)))"

text \<open>An exception after the child has been opened closes the child again.\<close>

definition reverse_open ::
  "bool \<Rightarrow> ('c, 's) stream_class \<Rightarrow> (string \<Rightarrow> 'c option) \<Rightarrow> nat \<Rightarrow> ('c, 's) reverse \<Rightarrow> ('c, 's) reverse result" where
  "reverse_open be K create n_params rv =
     (if ai_io_mode (px_io (rv_proxy rv)) \<noteq> Io_read then Inl (reverse_error ''Reversed writing not supported!'')
      else bind_result (if rv_init rv then Inr rv else reverse_init K create n_params rv) (\<lambda>rv1.
           bind_result (pre_child_open K (rv_proxy rv1)) (\<lambda>px2.
           bind_result (sc_open K (px_child px2)) (\<lambda>c.
           bind_result (post_child_open be K (px2\<lparr>px_child := c\<rparr>)) (\<lambda>px3.
             if \<not> sc_finite K (px_child px3)
             then Inl (reverse_error (''Unable to reverse an infinite length audio object '' @ sc_label K (px_child px3) @ ''.''))
             else if sc_is_resample K (px_child px3) then Inl (reverse_error ''resample objects not supported'')
             else if \<not> sc_seekable K (px_child px3)
             then Inl (reverse_error (''Unable to reverse audio object types that don'' @ [CHR 0x27] @ ''t support seek ('' @ sc_label K (px_child px3) @ '').''))
             else let rv4 = rv1\<lparr>rv_proxy := px3\<lparr>px_io := (px_io px3)\<lparr>ai_open := True\<rparr>\<rparr>\<rparr>
                  in Inr (reverse_seek_position K (rv_position rv4) rv4))))))"

definition reverse_close :: "('c, 's) stream_class \<Rightarrow> ('c, 's) reverse \<Rightarrow> ('c, 's) reverse" where
  "reverse_close K rv =
     (let rv1 = (if sc_is_open K (rv_child rv) then rv_put_child (sc_close K (rv_child rv)) rv else rv)
      in rv1\<lparr>rv_proxy := (rv_proxy rv1)\<lparr>px_io := (px_io (rv_proxy rv1))\<lparr>ai_open := False\<rparr>\<rparr>\<rparr>)"

subsection \<open>Reading\<close>

text \<open>\<open>sbuf->buffer[c][dst] = tempbuf->buffer[c][length - src - 1]\<close> for all samples of the temporary buffer.\<close>

definition copy_reversed :: "'s sample_buffer \<Rightarrow> nat \<Rightarrow> 's sample_buffer \<Rightarrow> 's sample_buffer result" where
  "copy_reversed temp dst sbuf =
     on_channels (\<lambda>c. update_loop (\<lambda>i _. read_cell (sb_arrays temp) c (sb_buffersize temp - (i - dst) - 1)) dst (sb_buffersize temp))
       0 (sb_channel_count sbuf) sbuf"

fun reverse_loop ::
  "(nat \<Rightarrow> nat \<Rightarrow> 's::zero) \<Rightarrow> ('c, 's) stream_class \<Rightarrow> nat \<Rightarrow> nat \<Rightarrow> nat \<Rightarrow> 's sample_buffer \<Rightarrow> ('c, 's) reverse \<Rightarrow>
     (nat \<times> 's sample_buffer \<times> ('c, 's) reverse) result" where
  "reverse_loop g K read_count 0 read_sofar sbuf rv = Inr (read_sofar, sbuf, rv)"
| "reverse_loop g K read_count (Suc loops) read_sofar sbuf rv =
     bind_result (sc_read K (rv_tempbuf rv) (rv_child rv)) (\<lambda>(c, temp).
     bind_result (if sb_buffersize temp + read_sofar > read_count then length_in_samples g (read_count - read_sofar) temp else Inr temp) (\<lambda>temp1.
     bind_result (copy_reversed temp1 (read_count - read_sofar - sb_buffersize temp1) sbuf) (\<lambda>sbuf1.
     let rv1 = rv_put_child c (rv\<lparr>rv_tempbuf := temp1\<rparr>);
         read_sofar1 = read_sofar + sb_buffersize temp1
     in if read_sofar1 \<ge> read_count then Inr (read_sofar1, sbuf1, rv1)
        else reverse_loop g K read_count loops read_sofar1 sbuf1 rv1)))"

definition reverse_read_buffer ::
  "(nat \<Rightarrow> nat \<Rightarrow> 's::zero) \<Rightarrow> ('c, 's) stream_class \<Rightarrow> 's sample_buffer \<Rightarrow> ('c, 's) reverse \<Rightarrow>
     (('c, 's) reverse \<times> 's sample_buffer) result" where
  "reverse_read_buffer g K sbuf rv =
     (let channels = nat (af_channels (ai_format (px_io (rv_proxy rv)))) in
      bind_result (number_of_channels g channels (rv_tempbuf rv)) (\<lambda>temp.
      bind_result (number_of_channels g channels sbuf) (\<lambda>sbuf1.
      let bs = px_buffersize (rv_proxy rv);
          curpos = rv_position rv;
          newpos = sc_length K (rv_child rv) - curpos - bs;
          rv1 = rv\<lparr>rv_tempbuf := temp\<rparr>;
          rv2 = (if newpos \<le> 0 then (rv_put_child (sc_seek K 0 (rv_child rv1)) rv1)\<lparr>rv_finished := True\<rparr>
                 else rv_put_child (sc_seek K newpos (rv_child rv1)) rv1);
          read_count = nat (if newpos \<le> 0 then - newpos else bs)
      in bind_result (length_in_samples g read_count sbuf1) (\<lambda>sbuf2.
         bind_result (reverse_loop g K read_count 3 0 sbuf2 rv2) (\<lambda>(read_sofar, sbuf3, rv3).
           Inr (rv_set_position (curpos + int read_sofar) rv3, sbuf3))))))"

subsection \<open>What is played\<close>

lemma copy_reversed_at:
  assumes "sb_wf temp" "sb_wf sbuf" "sb_channel_count temp = sb_channel_count sbuf" "dst + sb_buffersize temp \<le> sb_buffersize sbuf"
  obtains sb' where "copy_reversed temp dst sbuf = Inr sb'" "sb_wf sb'" "sb_channel_count sb' = sb_channel_count sbuf"
    "sb_buffersize sb' = sb_buffersize sbuf"
    "\<And>c t. c < sb_channel_count sbuf \<Longrightarrow> dst \<le> t \<Longrightarrow> t < dst + sb_buffersize temp \<Longrightarrow>
       sample_at sb' c t = sample_at temp c (sb_buffersize temp - (t - dst) - 1)"
proof -
  let ?n = "sb_buffersize temp"
  have "refines (copy_reversed temp dst sbuf)
      (audio_map (\<lambda>c t v. if 0 \<le> c \<and> c < 0 + sb_channel_count sbuf \<and> dst \<le> t \<and> t < dst + ?n
         then sample_at temp c (?n - (t - dst) - 1) else v)) sbuf"
    unfolding copy_reversed_def
  proof (rule on_channels_refines)
    fix c t assume "c < 0 + sb_channel_count sbuf" "dst \<le> t" "t < dst + ?n"
    then have "c < sb_channel_count temp" "?n - (t - dst) - 1 < ?n" using assms(3) by simp_all
    then show "read_cell (sb_arrays temp) c (?n - (t - dst) - 1) = Inr (sample_at temp c (?n - (t - dst) - 1))"
      using sb_audio_nth[OF assms(1)] by (simp add: sample_at_def)
  qed (use assms in auto)
  then obtain sb' where 1: "copy_reversed temp dst sbuf = Inr sb'" "sb_wf sb'" "sb_audio sb' = audio_map (\<lambda>c t v.
      if 0 \<le> c \<and> c < 0 + sb_channel_count sbuf \<and> dst \<le> t \<and> t < dst + ?n then sample_at temp c (?n - (t - dst) - 1) else v) (sb_audio sbuf)"
    by (rule refinesE)
  have 2: "sb_buffersize sb' = sb_buffersize sbuf" unfolding sb_size_of_audio 1(3) by simp
  have 3: "sb_channel_count sb' = sb_channel_count sbuf"
    unfolding sb_count_of_audio[OF 1(2)] 1(3) by (simp add: sb_count_of_audio[OF assms(2)])
  show ?thesis
  proof (rule that[OF 1(1,2) 3 2])
    fix c t assume "c < sb_channel_count sbuf" "dst \<le> t" "t < dst + ?n"
    then show "sample_at sb' c t = sample_at temp c (?n - (t - dst) - 1)"
      using assms(2,4) 2 3 by (auto simp: sample_at_def 1(3) sb_audio_channels)
  qed
qed

definition reverse_ok :: "('c, 's) stream_class \<Rightarrow> ('c \<Rightarrow> bool) \<Rightarrow> ('c, 's) reverse \<Rightarrow> bool" where
  "reverse_ok K ok rv \<longleftrightarrow> ok (rv_child rv) \<and> sb_wf (rv_tempbuf rv) \<and>
     int (sc_channels K (rv_child rv)) = af_channels (ai_format (px_io (rv_proxy rv))) \<and>
     sc_buffersize K (rv_child rv) = px_buffersize (rv_proxy rv)"

text \<open>Reading \<open>m\<close> buffers in turn.\<close>

fun reverse_read_blocks ::
  "(nat \<Rightarrow> nat \<Rightarrow> 's::zero) \<Rightarrow> ('c, 's) stream_class \<Rightarrow> 's sample_buffer \<Rightarrow> nat \<Rightarrow> ('c, 's) reverse \<Rightarrow>
     (('c, 's) reverse \<times> 's sample_buffer list) result" where
  "reverse_read_blocks g K b 0 rv = Inr (rv, [])"
| "reverse_read_blocks g K b (Suc m) rv =
     bind_result (reverse_read_buffer g K b rv) (\<lambda>(rv1, b1).
     bind_result (reverse_read_blocks g K b1 m rv1) (\<lambda>(rv2, bs). Inr (rv2, b1 # bs)))"

context child_stream
begin

text \<open>One block: \<open>count\<close> samples that end where the child's block of \<open>count\<close> samples from \<open>start\<close> begins.\<close>

lemma reverse_block:
  assumes "reverse_ok K ok rv" "sb_wf b" "px_buffersize (rv_proxy rv) = int n" "rv_position rv = int p" "L = frames (rv_child rv)"
    and "start = (if L \<le> p + n then 0 else L - p - n)" "count = (if L \<le> p + n then p + n - L else n)" "start + n \<le> L" "count \<le> n"
  obtains rv' b' where "reverse_read_buffer g K b rv = Inr (rv', b')" "reverse_ok K ok rv'" "sb_wf b'"
    "px_buffersize (rv_proxy rv') = int n" "rv_position rv' = int (p + count)" "frames (rv_child rv') = L"
    "content (rv_child rv') = content (rv_child rv)" "sc_channels K (rv_child rv') = sc_channels K (rv_child rv)"
    "sb_buffersize b' = count" "rv_finished rv' = (L \<le> p + n \<or> rv_finished rv)"
    "\<And>c t. c < sc_channels K (rv_child rv) \<Longrightarrow> t < count \<Longrightarrow> sample_at b' c t = content (rv_child rv) c (start + (count - 1 - t))"
proof -
  define k where "k = sc_channels K (rv_child rv)"
  note o = assms(1)[unfolded reverse_ok_def]
  have ch: "nat (af_channels (ai_format (px_io (rv_proxy rv)))) = k" using o by (metis nat_int k_def)
  obtain temp where temp: "number_of_channels g k (rv_tempbuf rv) = Inr temp" "sb_wf temp" using number_of_channels_at o by blast
  obtain b1 where b1: "number_of_channels g k b = Inr b1" "sb_wf b1" "sb_channel_count b1 = k" using number_of_channels_at[OF assms(2)] by blast
  obtain b2 where b2: "length_in_samples g count b1 = Inr b2" "sb_wf b2" "sb_channel_count b2 = k" "sb_buffersize b2 = count"
    using length_in_samples_at[OF b1(2)] b1(3) by metis
  define c0 where "c0 = sc_seek K (int start) (rv_child rv)"
  have c0: "ok c0" "sc_buffersize K c0 = int n" "sc_position K c0 = int start" "sc_channels K c0 = k" "frames c0 = L" "content c0 = content (rv_child rv)"
    using seek_ok[of "rv_child rv" "int start"] o assms(3,5) by (simp_all add: c0_def k_def)
  obtain c1 t1 where r: "sc_read K temp c0 = Inr (c1, t1)" "ok c1" "sb_wf t1" "sb_channel_count t1 = k" "sb_buffersize t1 = n"
      "sc_buffersize K c1 = int n" "sc_channels K c1 = k" "frames c1 = L" "content c1 = content (rv_child rv)"
      "\<And>ch t. ch < k \<Longrightarrow> t < n \<Longrightarrow> sample_at t1 ch t = content (rv_child rv) ch (start + t)"
  proof (rule read_at[OF c0(1) temp(2) c0(2,3)])
    fix c' b' assume "sc_read K temp c0 = Inr (c', b')" "ok c'" "sb_wf b'" "sb_channel_count b' = sc_channels K c0"
      "sb_buffersize b' = min n (frames c0 - start)" "sc_buffersize K c' = int n" "sc_channels K c' = sc_channels K c0"
      "frames c' = frames c0" "content c' = content c0"
      "\<And>ch t. ch < sc_channels K c0 \<Longrightarrow> t < min n (frames c0 - start) \<Longrightarrow> sample_at b' ch t = content c0 ch (start + t)"
    moreover have "min n (frames c0 - start) = n" using assms(8) c0(5) by simp
    ultimately show thesis using that c0 by simp
  qed
  obtain t2 where t2: "(if sb_buffersize t1 + 0 > count then length_in_samples g (count - 0) t1 else Inr t1) = Inr t2" "sb_wf t2"
      "sb_channel_count t2 = k" "sb_buffersize t2 = count" "\<And>ch t. t < count \<Longrightarrow> sample_at t2 ch t = sample_at t1 ch t"
  proof (cases "count < n")
    case True
    then show thesis using length_in_samples_at[OF r(3), of g count] r(4,5) that by fastforce
  next
    case False
    then show thesis using that[of t1] r assms(9) by simp
  qed
  have fits: "sb_channel_count t2 = sb_channel_count b2" "0 + sb_buffersize t2 \<le> sb_buffersize b2" using t2 b2 by simp_all
  obtain b3 where b3: "copy_reversed t2 0 b2 = Inr b3" "sb_wf b3" "sb_buffersize b3 = count"
      "\<And>ch t. ch < k \<Longrightarrow> t < count \<Longrightarrow> sample_at b3 ch t = sample_at t2 ch (count - t - 1)"
  proof (rule copy_reversed_at[OF t2(2) b2(2) fits])
    fix b' assume "copy_reversed t2 0 b2 = Inr b'" "sb_wf b'" "sb_buffersize b' = sb_buffersize b2"
      "\<And>c t. c < sb_channel_count b2 \<Longrightarrow> 0 \<le> t \<Longrightarrow> t < 0 + sb_buffersize t2 \<Longrightarrow>
         sample_at b' c t = sample_at t2 c (sb_buffersize t2 - (t - 0) - 1)"
    then show thesis using that[of b'] by (simp add: b2 t2(4))
  qed
  define fin where "fin = (L \<le> p + n \<or> rv_finished rv)"
  define rv2 where "rv2 = rv_put_child c0 (rv\<lparr>rv_tempbuf := temp, rv_finished := fin\<rparr>)"
  define rv3 where "rv3 = rv_put_child c1 (rv2\<lparr>rv_tempbuf := t2\<rparr>)"
  have loop: "reverse_loop g K count 3 0 b2 rv2 = Inr (count, b3, rv3)"
    using r(1) t2(1,4) b3(1) by (simp add: numeral_3_eq_3 rv2_def rv3_def rv_put_child_def)
  define new where "new = sc_length K (rv_child rv) - rv_position rv - px_buffersize (rv_proxy rv)"
  have new: "new = int L - int p - int n" using o length_ok assms(3-5) by (simp add: new_def)
  have "(if new \<le> 0 then (rv_put_child (sc_seek K 0 (rv_child (rv\<lparr>rv_tempbuf := temp\<rparr>))) (rv\<lparr>rv_tempbuf := temp\<rparr>))\<lparr>rv_finished := True\<rparr>
      else rv_put_child (sc_seek K new (rv_child (rv\<lparr>rv_tempbuf := temp\<rparr>))) (rv\<lparr>rv_tempbuf := temp\<rparr>)) = rv2"
    using assms(6) by (cases "L \<le> p + n") (simp_all add: new rv2_def c0_def rv_put_child_def fin_def of_nat_diff diff_diff_eq)
  moreover have "nat (if new \<le> 0 then - new else px_buffersize (rv_proxy rv)) = count" using assms(3,7) new by auto
  ultimately have e: "reverse_read_buffer g K b rv = Inr (rv_set_position (int p + int count) rv3, b3)"
    unfolding reverse_read_buffer_def Let_def ch temp(1) b1(1) bind_result_simps new_def[symmetric] assms(4)[symmetric]
    by (simp add: b2(1) loop)
  show ?thesis
  proof (rule that[OF e _ b3(2)])
    show "reverse_ok K ok (rv_set_position (int p + int count) rv3)"
      using o r t2(2) assms(3) by (simp add: reverse_ok_def rv_set_position_def rv3_def rv2_def rv_put_child_def k_def)
    show "rv_position (rv_set_position (int p + int count) rv3) = int (p + count)"
      by (simp add: rv_position_def rv_set_position_def set_position_in_samples_def)
    show "sample_at b3 c t = content (rv_child rv) c (start + (count - 1 - t))" if "c < sc_channels K (rv_child rv)" "t < count" for c t
      using that b3(4)[of c t] t2(5)[of "count - t - 1" c] r(10)[of c "count - t - 1"] assms(9) by (simp add: k_def)
  qed (use b3 r assms(3) in \<open>simp_all add: rv_set_position_def rv3_def rv2_def rv_put_child_def k_def fin_def\<close>)
qed

text \<open>The full blocks, and the last one.\<close>

lemma reverse_blocks:
  assumes "reverse_ok K ok rv" "sb_wf b" "px_buffersize (rv_proxy rv) = int n" "rv_position rv = int p" "L = frames (rv_child rv)"
    and "p + q * n + r = L" "0 < r" "r \<le> n" "n \<le> L"
  shows "\<exists>rv' bufs last_buf. reverse_read_blocks g K b (Suc q) rv = Inr (rv', bufs @ [last_buf]) \<and> length bufs = q \<and> rv_finished rv' \<and>
    (\<forall>j < q. sb_buffersize (bufs ! j) = n \<and> (\<forall>c < sc_channels K (rv_child rv). \<forall>t < n.
       sample_at (bufs ! j) c t = content (rv_child rv) c (L - 1 - (p + j * n + t)))) \<and>
    sb_buffersize last_buf = n - r \<and> (\<forall>c < sc_channels K (rv_child rv). \<forall>t < n - r.
       sample_at last_buf c t = content (rv_child rv) c (n - r - 1 - t))"
  using assms
proof (induction q arbitrary: rv b p)
  case 0
  have last_block: "L \<le> p + n" "p + n - L = n - r" using "0.prems"(6,8) by simp_all
  show ?case
  proof (rule reverse_block[OF "0.prems"(1-5), of 0 "n - r" g])
    fix rv' b' assume "reverse_read_buffer g K b rv = Inr (rv', b')" "sb_buffersize b' = n - r"
      "rv_finished rv' = (L \<le> p + n \<or> rv_finished rv)"
      "\<And>c t. c < sc_channels K (rv_child rv) \<Longrightarrow> t < n - r \<Longrightarrow> sample_at b' c t = content (rv_child rv) c (0 + (n - r - 1 - t))"
    then show ?thesis using last_block by (intro exI[of _ rv'] exI[of _ "[]"] exI[of _ b']) simp
  qed (use last_block "0.prems" in simp_all)
next
  case (Suc q)
  have full: "\<not> L \<le> p + n" "L - p - n + n \<le> L" using Suc.prems(6,7) by simp_all
  show ?case
  proof (rule reverse_block[OF Suc.prems(1-5), of "L - p - n" n g])
    fix rv1 b1 assume 1: "reverse_read_buffer g K b rv = Inr (rv1, b1)" "reverse_ok K ok rv1" "sb_wf b1"
      "px_buffersize (rv_proxy rv1) = int n" "rv_position rv1 = int (p + n)" "frames (rv_child rv1) = L"
      "content (rv_child rv1) = content (rv_child rv)" "sc_channels K (rv_child rv1) = sc_channels K (rv_child rv)" "sb_buffersize b1 = n"
      "\<And>c t. c < sc_channels K (rv_child rv) \<Longrightarrow> t < n \<Longrightarrow> sample_at b1 c t = content (rv_child rv) c (L - p - n + (n - 1 - t))"
    have "p + n + q * n + r = L" using Suc.prems(6) by simp
    from Suc.IH[OF 1(2-5) 1(6)[symmetric] this Suc.prems(7-9)] obtain rv' bufs last_buf where
      2: "reverse_read_blocks g K b1 (Suc q) rv1 = Inr (rv', bufs @ [last_buf])" "length bufs = q" "rv_finished rv'"
        "\<forall>j < q. sb_buffersize (bufs ! j) = n \<and> (\<forall>c < sc_channels K (rv_child rv). \<forall>t < n.
           sample_at (bufs ! j) c t = content (rv_child rv) c (L - 1 - (p + n + j * n + t)))"
        "sb_buffersize last_buf = n - r"
        "\<forall>c < sc_channels K (rv_child rv). \<forall>t < n - r. sample_at last_buf c t = content (rv_child rv) c (n - r - 1 - t)"
      unfolding 1(7,8) by blast
    have "reverse_read_blocks g K b (Suc (Suc q)) rv = Inr (rv', (b1 # bufs) @ [last_buf])"
      using 1(1) 2(1) by (simp del: reverse_read_blocks.simps(2) add: reverse_read_blocks.simps(2)[of g K b "Suc q"])
    moreover have "sb_buffersize ((b1 # bufs) ! j) = n \<and> (\<forall>c < sc_channels K (rv_child rv). \<forall>t < n.
        sample_at ((b1 # bufs) ! j) c t = content (rv_child rv) c (L - 1 - (p + j * n + t)))" if "j < Suc q" for j
    proof (cases j)
      case 0
      have "L - p - n + (n - 1 - t) = L - 1 - (p + t)" if "t < n" for t using that full by simp
      then show ?thesis using 0 1(9,10) by simp
    next
      case (Suc i)
      then show ?thesis using 2(4) that by (simp add: add.assoc)
    qed
    ultimately show ?thesis using 2(2,3,5,6) by (intro exI[of _ rv'] exI[of _ "b1 # bufs"] exI[of _ last_buf]) simp
  qed (use full Suc.prems in simp_all)
qed

end



end
