(* ===== verification/Sequencer.thy ===== *)
theory Sequencer
  imports Proxy Raw_File_Facts
begin

text \<open>
  The audio sequencer base of \<open>audioio-seqbase.cpp\<close>, which plays a segment of its child from a given
  time on, once or in a loop, and the clip objects of \<open>audioio-acseq.cpp\<close> (\<open>audioloop\<close>, \<open>select\<close>, \<open>playat\<close>)
  that configure it. Setting the length of a sample buffer to a negative value is a fault: the code
  accepts it, and writes before the start of its arrays when the buffer is enlarged again.
\<close>

record ('c, 's) seqbase =
  sq_proxy :: "'c proxy"
  sq_tmp :: "'s sample_buffer"
  sq_looping :: bool
  sq_offset :: audio_time
  sq_start :: audio_time
  sq_length :: audio_time
  sq_length_set :: bool
  sq_child_str :: string
  sq_write_started :: bool
  sq_init :: bool

definition seqbase_create :: "bool \<Rightarrow> audio_format \<Rightarrow> 'c \<Rightarrow> 's sample_buffer \<Rightarrow> ('c, 's) seqbase" where
  "seqbase_create be af0 nullfile tmp =
     \<lparr>sq_proxy = proxy_create be af0 nullfile, sq_tmp = tmp, sq_looping = False, sq_offset = audio_time_none,
      sq_start = audio_time_none, sq_length = audio_time_none, sq_length_set = False, sq_child_str = '''',
      sq_write_started = False, sq_init = False\<rparr>"

abbreviation sq_child :: "('c, 's) seqbase \<Rightarrow> 'c" where "sq_child sq \<equiv> px_child (sq_proxy sq)"
abbreviation sq_io :: "('c, 's) seqbase \<Rightarrow> audio_io" where "sq_io sq \<equiv> px_io (sq_proxy sq)"
abbreviation sq_buffersize :: "('c, 's) seqbase \<Rightarrow> int" where "sq_buffersize sq \<equiv> px_buffersize (sq_proxy sq)"

definition sq_put_child :: "'c \<Rightarrow> ('c, 's) seqbase \<Rightarrow> ('c, 's) seqbase" where
  "sq_put_child c sq = sq\<lparr>sq_proxy := (sq_proxy sq)\<lparr>px_child := c\<rparr>\<rparr>"

definition sq_position :: "('c, 's) seqbase \<Rightarrow> int" where "sq_position sq = ap_position (ai_position (sq_io sq))"

definition sq_move :: "(audio_position \<Rightarrow> audio_position) \<Rightarrow> ('c, 's) seqbase \<Rightarrow> ('c, 's) seqbase" where
  "sq_move f sq = sq\<lparr>sq_proxy := (sq_proxy sq)\<lparr>px_io := (sq_io sq)\<lparr>ai_position := f (ai_position (sq_io sq))\<rparr>\<rparr>\<rparr>"

definition sequencer_error :: "string \<Rightarrow> string \<Rightarrow> fault" where "sequencer_error section msg = Thrown section msg"

subsection \<open>Positions\<close>

definition priv_public_to_child_pos :: "int \<Rightarrow> ('c, 's) seqbase \<Rightarrow> int" where
  "priv_public_to_child_pos pubpos sq =
     (if pubpos \<le> at_samples (sq_offset sq) then at_samples (sq_start sq)
      else if sq_looping sq
      then (let one_loop = at_samples (sq_length sq) - at_samples (sq_start sq);
                res = pubpos - at_samples (sq_offset sq)
            in (if one_loop > 0 then res mod one_loop else res) + at_samples (sq_start sq))
      else pubpos - at_samples (sq_offset sq) + at_samples (sq_start sq))"

definition seq_seek_position :: "('c, 's) stream_class \<Rightarrow> int \<Rightarrow> ('c, 's) seqbase \<Rightarrow> ('c, 's) seqbase" where
  "seq_seek_position K pos sq =
     (if ai_open (sq_io sq) \<and> (ai_io_mode (sq_io sq) = Io_read \<or> sq_write_started sq)
      then sq_put_child (sc_seek K (priv_public_to_child_pos pos sq) (sq_child sq)) sq else sq)"

definition seq_seek :: "('c, 's) stream_class \<Rightarrow> int \<Rightarrow> ('c, 's) seqbase \<Rightarrow> ('c, 's) seqbase" where
  "seq_seek K pos sq = sq_move (set_position_in_samples pos) (seq_seek_position K pos sq)"

subsection \<open>Configuration\<close>

definition change_child_name ::
  "(string \<Rightarrow> 'c option) \<Rightarrow> string \<Rightarrow> ('c, 's) seqbase \<Rightarrow> ('c, 's) seqbase result" where
  "change_child_name create child_name sq =
     (case (if child_name = [] then None else create child_name) of
        None \<Rightarrow> Inl (sequencer_error ''AUDIOIO-SEQBASE'' ''Could not create child object.'')
      | Some tmp \<Rightarrow> Inr (sq\<lparr>sq_proxy := set_child tmp (sq_proxy sq), sq_init := True\<rparr>))"

definition set_child_object_string :: "(string \<Rightarrow> 'c option) \<Rightarrow> string \<Rightarrow> ('c, 's) seqbase \<Rightarrow> ('c, 's) seqbase result" where
  "set_child_object_string create v sq = change_child_name create v (sq\<lparr>sq_child_str := v\<rparr>)"

definition set_child_offset :: "audio_time \<Rightarrow> ('c, 's) seqbase \<Rightarrow> ('c, 's) seqbase" where
  "set_child_offset v sq = sq\<lparr>sq_offset := v\<rparr>"

definition set_child_start_position :: "('c, 's) stream_class \<Rightarrow> audio_time \<Rightarrow> ('c, 's) seqbase \<Rightarrow> ('c, 's) seqbase" where
  "set_child_start_position K v sq =
     (if ai_open (sq_io sq) \<and> \<not> sc_seekable_accurate K (sq_child sq) then sq else sq\<lparr>sq_start := v\<rparr>)"

definition set_child_length :: "audio_time \<Rightarrow> ('c, 's) seqbase \<Rightarrow> ('c, 's) seqbase" where
  "set_child_length v sq = sq\<lparr>sq_length := v, sq_length_set := True\<rparr>"

definition toggle_looping :: "bool \<Rightarrow> ('c, 's) seqbase \<Rightarrow> ('c, 's) seqbase" where
  "toggle_looping v sq = sq\<lparr>sq_looping := v\<rparr>"

definition child_length :: "('c, 's) stream_class \<Rightarrow> ('c, 's) seqbase \<Rightarrow> audio_time" where
  "child_length K sq = (if \<not> sq_length_set sq \<and> \<not> sc_finite K (sq_child sq) then at_mark_as_invalid audio_time_none else sq_length sq)"

definition seq_finite :: "('c, 's) stream_class \<Rightarrow> ('c, 's) seqbase \<Rightarrow> bool" where
  "seq_finite K sq \<longleftrightarrow> \<not> sq_looping sq \<and> sc_finite K (sq_child sq)"

subsection \<open>Opening and closing\<close>

text \<open>\<open>garbage\<close> is an uninitialised time value. The final \<open>AUDIO_IO::open\<close> seeks to the current position.\<close>

definition seq_open ::
  "bool \<Rightarrow> (nat \<Rightarrow> nat \<Rightarrow> 's::zero) \<Rightarrow> audio_time \<Rightarrow> ('c, 's) stream_class \<Rightarrow> (string \<Rightarrow> 'c option) \<Rightarrow>
     ('c, 's) seqbase \<Rightarrow> ('c, 's) seqbase result" where
  "seq_open be g garbage K create sq =
     bind_result (if sq_init sq then Inr sq else change_child_name create (sq_child_str sq) sq) (\<lambda>sq1.
     bind_result (pre_child_open K (sq_proxy sq1)) (\<lambda>px2.
     bind_result (sc_open K (px_child px2)) (\<lambda>c.
     if \<not> sc_finite K c \<and> sq_looping sq1
     then Inl (sequencer_error ''AUDIOIO-SEQBASE'' ''Unable to loop an object with infinite length.'')
     else if \<not> sc_seekable_accurate K c \<and> at_samples (sq_start sq1) > 0
     then Inl (sequencer_error ''AUDIOIO-SEQBASE'' ''Unable use sections of an object that does not support seeking.'')
     else
       let rate = af_srate (sc_format K c);
           sq2 = sq1\<lparr>sq_proxy := px2\<lparr>px_child := c\<rparr>,
                     sq_offset := at_set_samples_per_second_keeptime rate (sq_offset sq1),
                     sq_start := at_set_samples_per_second_keeptime rate (sq_start sq1),
                     sq_length := at_set_samples_per_second_keeptime rate (sq_length sq1)\<rparr>
       in bind_result (post_child_open be K (sq_proxy sq2)) (\<lambda>px3.
          let sq3 = sq2\<lparr>sq_proxy := px3\<rparr>;
              sq4 = (if \<not> sq_length_set sq3
                     then sq3\<lparr>sq_length := audio_time_of_samples garbage (sc_length K (sq_child sq3)) (af_srate (sc_format K (sq_child sq3)))\<rparr>
                     else sq3);
              sq5 = (if \<not> sq_looping sq4
                     then sq_move (set_length_in_samples (at_samples (sq_offset sq4) + at_samples (sq_length sq4))) sq4 else sq4)
          in bind_result (number_of_channels g (sc_channels K (sq_child sq5)) (sq_tmp sq5)) (\<lambda>t1.
             bind_result (length_in_samples g (nat (sc_buffersize K (sq_child sq5))) t1) (\<lambda>t2.
             let sq6 = sq5\<lparr>sq_tmp := t2, sq_proxy := (sq_proxy sq5)\<lparr>px_io := (sq_io sq5)\<lparr>ai_open := True\<rparr>\<rparr>\<rparr>
             in Inr (if sc_seekable K (sq_child sq6) then seq_seek_position K (sq_position sq6) sq6
                     else sq_move (set_position_in_samples 0) sq6)))))))"

definition seq_close :: "('c, 's) stream_class \<Rightarrow> ('c, 's) seqbase \<Rightarrow> ('c, 's) seqbase" where
  "seq_close K sq =
     (let sq1 = (if sc_is_open K (sq_child sq) then sq_put_child (sc_close K (sq_child sq)) sq else sq)
      in sq1\<lparr>sq_proxy := (sq_proxy sq1)\<lparr>px_io := (sq_io sq1)\<lparr>ai_open := False\<rparr>\<rparr>\<rparr>)"

subsection \<open>Reading\<close>

definition sb_length :: "(nat \<Rightarrow> nat \<Rightarrow> 's::zero) \<Rightarrow> int \<Rightarrow> 's sample_buffer \<Rightarrow> 's sample_buffer result" where
  "sb_length g len sb = (if len < 0 then Inl Undefined_behaviour else length_in_samples g (nat len) sb)"

type_synonym ('c, 's) seq_read = "(('c, 's) seqbase \<times> 's sample_buffer) result"

text \<open>
  Reading \<open>n\<close> frames of the child into \<open>tmp_buffer\<close> and from there to the end of the buffer, which has been
  given its size by \<open>resize\<close>.
\<close>

definition seq_fill_end ::
  "('c, 's) stream_class \<Rightarrow> ('s sample_buffer \<Rightarrow> 's sample_buffer result) \<Rightarrow> int \<Rightarrow> 's sample_buffer \<Rightarrow> ('c, 's) seqbase \<Rightarrow>
     ('c, 's) seq_read" where
  "seq_fill_end K resize n sbuf sq =
     bind_result (sc_read K (sq_tmp sq) (sc_set_buffersize K n (sq_child sq))) (\<lambda>(c1, tmp).
     bind_result (resize sbuf) (\<lambda>sbuf1.
     bind_result (copy_range tmp 0 (sb_buffersize tmp) (nat (sq_buffersize sq - n)) sbuf1) (\<lambda>sbuf2.
       Inr (sq_put_child (sc_set_buffersize K (sq_buffersize sq) c1) (sq\<lparr>sq_tmp := tmp\<rparr>), sbuf2))))"

definition seq_read_case1 ::
  "(nat \<Rightarrow> nat \<Rightarrow> 's::zero) \<Rightarrow> ('c, 's) stream_class \<Rightarrow> 's sample_buffer \<Rightarrow> ('c, 's) seqbase \<Rightarrow> ('c, 's) seq_read" where
  "seq_read_case1 g K sbuf sq =
     bind_result (number_of_channels g (sc_channels K (sq_child sq)) sbuf) (\<lambda>b1.
     bind_result (sb_length g (sq_buffersize sq) b1) (\<lambda>b2.
     bind_result (make_silent b2) (\<lambda>b3. Inr (sq_move (change_position_in_samples (sq_buffersize sq)) sq, b3))))"

definition seq_read_case2 ::
  "(nat \<Rightarrow> nat \<Rightarrow> 's::zero) \<Rightarrow> ('c, 's) stream_class \<Rightarrow> 's sample_buffer \<Rightarrow> ('c, 's) seqbase \<Rightarrow> ('c, 's) seq_read" where
  "seq_read_case2 g K sbuf sq =
     (let chipos = priv_public_to_child_pos (sq_position sq) sq;
          sq1 = (if chipos \<noteq> sc_position K (sq_child sq) then sq_put_child (sc_seek K chipos (sq_child sq)) sq else sq);
          segment0 = sq_position sq1 + sq_buffersize sq1 - at_samples (sq_offset sq1);
          segment = (if segment0 > sq_buffersize sq1 then sq_buffersize sq1 else segment0)
      in bind_result (seq_fill_end K (\<lambda>b. bind_result (number_of_channels g (sc_channels K (sq_child sq1)) b) (sb_length g (sq_buffersize sq1)))
                           segment sbuf sq1) (\<lambda>(sq2, b).
           Inr (sq_move (change_position_in_samples (sq_buffersize sq2)) sq2, b)))"

definition seq_read_child ::
  "('c, 's) stream_class \<Rightarrow> 's sample_buffer \<Rightarrow> ('c, 's) seqbase \<Rightarrow> ('c, 's) seq_read" where
  "seq_read_child K sbuf sq =
     bind_result (sc_read K sbuf (sc_set_buffersize K (sq_buffersize sq) (sq_child sq))) (\<lambda>(c, b). Inr (sq_put_child c sq, b))"

definition seq_read_case3a ::
  "(nat \<Rightarrow> nat \<Rightarrow> 's::zero) \<Rightarrow> ('c, 's) stream_class \<Rightarrow> 's sample_buffer \<Rightarrow> ('c, 's) seqbase \<Rightarrow> ('c, 's) seq_read" where
  "seq_read_case3a g K sbuf sq =
     (let samples_to_include = at_samples (sq_length sq) + at_samples (sq_start sq) - priv_public_to_child_pos (sq_position sq) sq
      in bind_result (seq_read_child K sbuf sq) (\<lambda>(sq1, b).
         bind_result (if int (sb_buffersize b) > samples_to_include then sb_length g samples_to_include b else Inr b) (\<lambda>b1.
           Inr (sq_move (change_position_in_samples (int (sb_buffersize b1))) sq1, b1))))"

definition seq_read_case3b ::
  "(nat \<Rightarrow> nat \<Rightarrow> 's::zero) \<Rightarrow> ('c, 's) stream_class \<Rightarrow> 's sample_buffer \<Rightarrow> ('c, 's) seqbase \<Rightarrow> ('c, 's) seq_read" where
  "seq_read_case3b g K sbuf sq =
     bind_result (seq_read_child K sbuf sq) (\<lambda>(sq1, b).
     let over_child_eof = priv_public_to_child_pos (sq_position sq + sq_buffersize sq) sq - at_samples (sq_start sq);
         chistartpos = priv_public_to_child_pos (sq_position sq + sq_buffersize sq - over_child_eof) sq;
         sq2 = sq_put_child (sc_seek K chistartpos (sq_child sq1)) sq1
     in bind_result
          (if over_child_eof > 0
           then seq_fill_end K (\<lambda>b. bind_result (sb_length g (sq_buffersize sq2) b)
                                     (number_of_channels g (nat (af_channels (ai_format (sq_io sq2))))))
                  over_child_eof b sq2
           else Inr (sq2, b)) (\<lambda>(sq3, b1). Inr (sq_move (change_position_in_samples (sq_buffersize sq3)) sq3, b1)))"

definition seq_read_case3c ::
  "('c, 's) stream_class \<Rightarrow> 's sample_buffer \<Rightarrow> ('c, 's) seqbase \<Rightarrow> ('c, 's) seq_read" where
  "seq_read_case3c K sbuf sq =
     bind_result (seq_read_child K sbuf sq) (\<lambda>(sq1, b).
       Inr (sq_move (change_position_in_samples (int (sb_buffersize b))) sq1, b))"

definition seq_read_buffer ::
  "(nat \<Rightarrow> nat \<Rightarrow> 's::zero) \<Rightarrow> ('c, 's) stream_class \<Rightarrow> 's sample_buffer \<Rightarrow> ('c, 's) seqbase \<Rightarrow> ('c, 's) seq_read" where
  "seq_read_buffer g K sbuf sq =
     bind_result
       (if sq_position sq + sq_buffersize sq \<le> at_samples (sq_offset sq) then seq_read_case1 g K sbuf sq
        else if sq_position sq < at_samples (sq_offset sq) then seq_read_case2 g K sbuf sq
        else (let chipos1 = priv_public_to_child_pos (sq_position sq) sq;
                  chipos2 = priv_public_to_child_pos (sq_position sq + sq_buffersize sq) sq
              in if chipos2 \<ge> at_samples (sq_length sq) + at_samples (sq_start sq) \<and> \<not> sq_looping sq \<and> sc_finite K (sq_child sq)
                 then seq_read_case3a g K sbuf sq
                 else if chipos2 < chipos1 \<and> sq_looping sq then seq_read_case3b g K sbuf sq
                 else seq_read_case3c K sbuf sq))
       (\<lambda>(sq1, b). Inr (if sq_looping sq1 \<or> (\<not> sq_length_set sq1 \<and> \<not> sc_finite K (sq_child sq1))
                        then sq_move extend_position sq1 else sq1, b))"

subsection \<open>Writing and the end of the stream\<close>

definition seq_write_buffer ::
  "('c, 's) stream_class \<Rightarrow> 's sample_buffer \<Rightarrow> ('c, 's) seqbase \<Rightarrow> ('c, 's) seq_read" where
  "seq_write_buffer K sbuf sq =
     (let sq1 = (if \<not> sq_write_started sq
                 then sq\<lparr>sq_write_started := True, sq_offset := at_set_samples (sq_position sq) (sq_offset sq)\<rparr> else sq)
      in bind_result (sc_write K sbuf (sq_child sq1)) (\<lambda>(c, b).
           Inr (sq_move extend_position (sq_move (change_position_in_samples (int (sb_buffersize b))) (sq_put_child c sq1)), b)))"

definition seq_finished :: "('c, 's) stream_class \<Rightarrow> ('c, 's) seqbase \<Rightarrow> bool result" where
  "seq_finished K sq =
     bind_result (sc_finished K (sq_child sq)) (\<lambda>fin.
       Inr (if fin then True
            else if ai_io_mode (sq_io sq) \<noteq> Io_read then False
            else \<not> sq_looping sq \<and> sc_finite K (sq_child sq) \<and>
                 priv_public_to_child_pos (sq_position sq) sq \<ge> at_samples (sq_length sq) + at_samples (sq_start sq)))"

subsection \<open>Clips\<close>

datatype clip_mode = Cseq_none | Cseq_loop | Cseq_select | Cseq_play_at

record ('c, 's) clip =
  cl_seq :: "('c, 's) seqbase"
  cl_params :: "string list"
  cl_param_offset :: nat
  cl_mode :: clip_mode

definition clip_create :: "bool \<Rightarrow> audio_format \<Rightarrow> 'c \<Rightarrow> 's sample_buffer \<Rightarrow> ('c, 's) clip" where
  "clip_create be af0 nullfile tmp =
     (let sq = seqbase_create be af0 nullfile tmp
      in \<lparr>cl_seq = sq\<lparr>sq_proxy := (sq_proxy sq)\<lparr>px_io := (sq_io sq)\<lparr>ai_label := ''audiocseq''\<rparr>\<rparr>\<rparr>, cl_params = [],
          cl_param_offset = 1, cl_mode = Cseq_none\<rparr>)"

definition clip_mode_of :: "string \<Rightarrow> clip_mode \<times> nat" where
  "clip_mode_of v =
     (if v = ''audioloop'' then (Cseq_loop, 1) else if v = ''select'' then (Cseq_select, 3)
      else if v = ''playat'' then (Cseq_play_at, 2) else (Cseq_none, 1))"

definition clip_set_parameter :: "('c, 's) stream_class \<Rightarrow> nat \<Rightarrow> string \<Rightarrow> ('c, 's) clip \<Rightarrow> ('c, 's) clip" where
  "clip_set_parameter K param v cl =
     (let ps = cl_params cl @ replicate (param - length (cl_params cl)) '''';
          cl1 = cl\<lparr>cl_params := (if param > 0 then ps[param - 1 := v] else ps)\<rparr>;
          cl2 = (if param = 1
                 then cl1\<lparr>cl_seq := (cl_seq cl1)\<lparr>sq_proxy := (sq_proxy (cl_seq cl1))\<lparr>px_io := (sq_io (cl_seq cl1))\<lparr>ai_label := v\<rparr>\<rparr>\<rparr>,
                          cl_mode := fst (clip_mode_of v), cl_param_offset := snd (clip_mode_of v)\<rparr>
                 else cl1)
      in if param > cl_param_offset cl2 \<and> px_child_initialized (sq_proxy (cl_seq cl2))
         then cl2\<lparr>cl_seq := sq_put_child (sc_set_parameter K (param - cl_param_offset cl2) v (sq_child (cl_seq cl2))) (cl_seq cl2)\<rparr>
         else cl2)"

text \<open>The value of a parameter; what the child returns is stored as well.\<close>

definition clip_get_parameter :: "('c, 's) stream_class \<Rightarrow> nat \<Rightarrow> ('c, 's) clip \<Rightarrow> string \<times> ('c, 's) clip" where
  "clip_get_parameter K param cl =
     (if param > 0 \<and> param < length (cl_params cl) + 1
      then (let cl1 = (if param > cl_param_offset cl \<and> px_child_initialized (sq_proxy (cl_seq cl))
                       then cl\<lparr>cl_params := (cl_params cl)[param - 1 :=
                              sc_get_parameter K (param - cl_param_offset cl) (sq_child (cl_seq cl))]\<rparr> else cl)
            in (cl_params cl1 ! (param - 1), cl1))
      else ('''', cl))"

definition clip_param :: "('c, 's) stream_class \<Rightarrow> ('c, 's) clip \<Rightarrow> nat \<Rightarrow> string" where
  "clip_param K cl n = fst (clip_get_parameter K n cl)"

text \<open>The settings of the mode, made before the child is replaced by a new one.\<close>

definition clip_configure :: "('c, 's) stream_class \<Rightarrow> ('c, 's) clip \<Rightarrow> ('c, 's) seqbase result" where
  "clip_configure K cl =
     (let sq = cl_seq cl in
      case cl_mode cl of
        Cseq_loop \<Rightarrow> Inr (toggle_looping True sq)
      | Cseq_select \<Rightarrow> Inr (set_child_length (audio_time_of_string (clip_param K cl 3))
                             (set_child_start_position K (audio_time_of_string (clip_param K cl 2)) (toggle_looping False sq)))
      | Cseq_play_at \<Rightarrow> Inr (set_child_offset (audio_time_of_string (clip_param K cl 2)) (toggle_looping False sq))
      | Cseq_none \<Rightarrow> Inl (sequencer_error ''AUDIOIO-ACLIPSEQ'' ''Unknown audio sequencing mode (loop, select, ...).''))"

definition clip_open ::
  "bool \<Rightarrow> (nat \<Rightarrow> nat \<Rightarrow> 's::zero) \<Rightarrow> audio_time \<Rightarrow> ('c, 's) stream_class \<Rightarrow> (string \<Rightarrow> 'c option) \<Rightarrow> nat \<Rightarrow>
     ('c, 's) clip \<Rightarrow> ('c, 's) clip result" where
  "clip_open be g garbage K create n_params cl =
     (if ai_io_mode (sq_io (cl_seq cl)) \<noteq> Io_read
      then Inl (sequencer_error ''AUDIOIO-ACLIPSEQ'' ''Only read mode supported.'')
      else bind_result (clip_configure K cl) (\<lambda>sq1.
           let cl1 = cl\<lparr>cl_seq := sq1\<rparr>;
               str = child_params_as_string (clip_param K cl1) (1 + cl_param_offset cl1) (length (cl_params cl1))
           in bind_result (set_child_object_string create str sq1) (\<lambda>sq2.
              bind_result (seq_open be g garbage K create sq2) (\<lambda>sq3.
              let cl3 = cl1\<lparr>cl_seq := sq3\<rparr>
              in bind_result (set_child_params K (\<lambda>n. clip_param K cl3 (n + cl_param_offset cl3)) n_params 0
                                (sc_number_of_params K (sq_child sq3)) (sq_child sq3)) (\<lambda>c.
                   Inr (cl3\<lparr>cl_seq := sq_put_child c sq3\<rparr>))))))"

end
