(* ===== verification/Sequencer_Facts.thy ===== *)
theory Sequencer_Facts
  imports Sequencer Sample_Buffer_Ops
begin

text \<open>
  What the sequencer plays: before its offset silence, then the segment of the child, once or in a
  loop; and where it does not, the block in which the child starts and positions after the segment.
\<close>

lemma copy_range_at:
  assumes "sb_wf sb" "sb_wf x" "sb_channel_count sb = sb_channel_count x"
  obtains sb' where "copy_range x 0 (sb_buffersize x) to sb = Inr sb'" "sb_wf sb'" "sb_channel_count sb' = sb_channel_count sb"
    "sb_buffersize sb' = sb_buffersize sb"
    "\<And>c t. c < sb_channel_count sb \<Longrightarrow> t < sb_buffersize sb \<Longrightarrow>
       sample_at sb' c t = (if to \<le> t \<and> t - to < sb_buffersize x then sample_at x c (t - to) else sample_at sb c t)"
proof -
  obtain sb' where 1: "copy_range x 0 (sb_buffersize x) to sb = Inr sb'" "sb_wf sb'"
      "sb_audio sb' = audio_copy_range (sb_audio x) 0 (sb_buffersize x) to (sb_audio sb)"
    using copy_range_refines[OF assms] by (rule refinesE)
  have 2: "sb_buffersize sb' = sb_buffersize sb" unfolding sb_size_of_audio 1(3) by (simp add: audio_copy_range_def)
  have 3: "sb_channel_count sb' = sb_channel_count sb"
    unfolding sb_count_of_audio[OF 1(2)] 1(3) by (simp add: audio_copy_range_def sb_count_of_audio[OF assms(1)])
  show ?thesis
    by (rule that[OF 1(1,2) 3 2]) (use assms 2 3 in \<open>simp add: sample_at_def 1(3) audio_copy_range_def sb_audio_channels\<close>)
qed

definition seq_state ::
  "('c, 's) stream_class \<Rightarrow> ('c \<Rightarrow> bool) \<Rightarrow> ('c, 's) seqbase \<Rightarrow> nat \<Rightarrow> nat \<Rightarrow> nat \<Rightarrow> nat \<Rightarrow> nat \<Rightarrow> bool" where
  "seq_state K ok sq n p off s l \<longleftrightarrow> ok (sq_child sq) \<and> sb_wf (sq_tmp sq) \<and> sq_buffersize sq = int n \<and> 0 < n \<and> sq_position sq = int p \<and>
     at_samples (sq_offset sq) = int off \<and> at_samples (sq_start sq) = int s \<and> at_samples (sq_length sq) = int l \<and>
     af_channels (ai_format (sq_io sq)) = int (sc_channels K (sq_child sq))"

definition seq_synced :: "('c, 's) stream_class \<Rightarrow> ('c, 's) seqbase \<Rightarrow> bool" where
  "seq_synced K sq \<longleftrightarrow> sc_position K (sq_child sq) = priv_public_to_child_pos (sq_position sq) sq"

lemma move_simps [simp]:
  "sq_child (sq_move f sq) = sq_child sq" "sq_tmp (sq_move f sq) = sq_tmp sq" "sq_buffersize (sq_move f sq) = sq_buffersize sq"
  "sq_offset (sq_move f sq) = sq_offset sq" "sq_start (sq_move f sq) = sq_start sq" "sq_length (sq_move f sq) = sq_length sq"
  "sq_looping (sq_move f sq) = sq_looping sq" "ai_format (sq_io (sq_move f sq)) = ai_format (sq_io sq)"
  "sq_length_set (sq_move f sq) = sq_length_set sq"
  "sq_position (sq_move f sq) = ap_position (f (ai_position (sq_io sq)))"
  by (simp_all add: sq_move_def sq_position_def)

lemma put_child_simps [simp]:
  "sq_child (sq_put_child c sq) = c" "sq_tmp (sq_put_child c sq) = sq_tmp sq" "sq_buffersize (sq_put_child c sq) = sq_buffersize sq"
  "sq_offset (sq_put_child c sq) = sq_offset sq" "sq_start (sq_put_child c sq) = sq_start sq" "sq_length (sq_put_child c sq) = sq_length sq"
  "sq_looping (sq_put_child c sq) = sq_looping sq" "sq_io (sq_put_child c sq) = sq_io sq"
  "sq_length_set (sq_put_child c sq) = sq_length_set sq" "sq_position (sq_put_child c sq) = sq_position sq"
  by (simp_all add: sq_put_child_def sq_position_def)

lemma tmp_simps [simp]:
  "sq_position (sq\<lparr>sq_tmp := t\<rparr>) = sq_position sq"
  by (simp add: sq_position_def)

lemma position_steps [simp]:
  "ap_position (change_position_in_samples n a) = ap_position a + n" "ap_position (extend_position a) = ap_position a"
  "ap_position (ai_position (sq_io sq)) = sq_position sq"
  by (simp_all add: change_position_in_samples_def extend_position_def sq_position_def)

lemma child_pos_cong:
  assumes "sq_offset sq' = sq_offset sq" "sq_start sq' = sq_start sq" "sq_length sq' = sq_length sq" "sq_looping sq' = sq_looping sq"
  shows "priv_public_to_child_pos p sq' = priv_public_to_child_pos p sq"
  by (simp add: priv_public_to_child_pos_def assms)

lemma child_pos_simps [simp]:
  "priv_public_to_child_pos p (sq_move f sq) = priv_public_to_child_pos p sq"
  "priv_public_to_child_pos p (sq_put_child c sq) = priv_public_to_child_pos p sq"
  "priv_public_to_child_pos p (sq\<lparr>sq_tmp := t\<rparr>) = priv_public_to_child_pos p sq"
  by (rule child_pos_cong; simp)+

lemma child_pos_segment:
  assumes "seq_state K ok sq n p off s l" "\<not> sq_looping sq" "off \<le> p'"
  shows "priv_public_to_child_pos (int p') sq = int (s + p' - off)"
  using assms by (auto simp: seq_state_def priv_public_to_child_pos_def)

lemma child_pos_loop:
  assumes "seq_state K ok sq n p off s l" "sq_looping sq" "off \<le> p'" "s < l"
  shows "priv_public_to_child_pos (int p') sq = int (s + (p' - off) mod (l - s))"
proof -
  have "(int p' - int off) mod (int l - int s) = int ((p' - off) mod (l - s))"
    using assms(3,4) by (simp add: of_nat_mod of_nat_diff)
  then show ?thesis using assms by (auto simp: seq_state_def priv_public_to_child_pos_def Let_def)
qed

lemma mod_step:
  fixes a n m :: nat assumes "n < m"
  shows "(a + n) mod m = (if a mod m + n < m then a mod m + n else a mod m + n - m)"
proof -
  have "(a + n) mod m = (a mod m + n) mod m" by (simp add: mod_add_left_eq)
  moreover have "a mod m < m" using assms by simp
  ultimately show ?thesis using assms
    by (cases "a mod m + n < m") (simp_all add: le_mod_geq)
qed

fun seq_read_blocks ::
  "(nat \<Rightarrow> nat \<Rightarrow> 's::zero) \<Rightarrow> ('c, 's) stream_class \<Rightarrow> 's sample_buffer \<Rightarrow> nat \<Rightarrow> ('c, 's) seqbase \<Rightarrow>
     (('c, 's) seqbase \<times> 's sample_buffer list) result" where
  "seq_read_blocks g K b 0 sq = Inr (sq, [])"
| "seq_read_blocks g K b (Suc m) sq =
     bind_result (seq_read_buffer g K b sq) (\<lambda>(sq1, b1).
     bind_result (seq_read_blocks g K b1 m sq1) (\<lambda>(sq2, bs). Inr (sq2, b1 # bs)))"

context child_stream
begin

lemma seq_read_child_at:
  assumes "seq_state K ok sq n p off s l" "sb_wf b" "sc_position K (sq_child sq) = int q"
  obtains c' b' where "seq_read_child K b sq = Inr (sq_put_child c' sq, b')" "sb_wf b'" "sb_channel_count b' = sc_channels K (sq_child sq)"
    "sb_buffersize b' = min n (frames (sq_child sq) - q)" "ok c'" "sc_buffersize K c' = int n"
    "sc_position K c' = int q + int (min n (frames (sq_child sq) - q))" "sc_channels K c' = sc_channels K (sq_child sq)"
    "frames c' = frames (sq_child sq)" "content c' = content (sq_child sq)" "seq_state K ok (sq_put_child c' sq) n p off s l"
    "\<And>ch t. ch < sc_channels K (sq_child sq) \<Longrightarrow> t < min n (frames (sq_child sq) - q) \<Longrightarrow> sample_at b' ch t = content (sq_child sq) ch (q + t)"
proof -
  note st = assms(1)[unfolded seq_state_def]
  define c where "c = sc_set_buffersize K (int n) (sq_child sq)"
  have c: "ok c" "sc_buffersize K c = int n" "sc_position K c = int q" "sc_channels K c = sc_channels K (sq_child sq)"
      "frames c = frames (sq_child sq)" "content c = content (sq_child sq)"
    using set_buffersize_ok[of "sq_child sq" "int n"] st assms(3) by (simp_all add: c_def)
  show thesis
  proof (rule read_at[OF c(1) assms(2) c(2,3)])
    fix c' b' assume r: "sc_read K b c = Inr (c', b')" "ok c'" "sb_wf b'" "sb_channel_count b' = sc_channels K c"
      "sb_buffersize b' = min n (frames c - q)" "sc_position K c' = int q + int (min n (frames c - q))"
      "sc_buffersize K c' = int n" "sc_channels K c' = sc_channels K c" "frames c' = frames c" "content c' = content c"
      "\<And>ch t. ch < sc_channels K c \<Longrightarrow> t < min n (frames c - q) \<Longrightarrow> sample_at b' ch t = content c ch (q + t)"
    have "seq_read_child K b sq = Inr (sq_put_child c' sq, b')" using r(1) st by (simp add: seq_read_child_def c_def)
    then show thesis using that[of c' b'] r c st by (simp add: seq_state_def)
  qed
qed

text \<open>Silence before the offset.\<close>

lemma seq_silence:
  assumes "seq_state K ok sq n p off s l" "sb_wf b" "p + n \<le> off"
  obtains sq' b' where "seq_read_buffer g K b sq = Inr (sq', b')" "seq_state K ok sq' n (p + n) off s l" "sb_wf b'"
    "sq_child sq' = sq_child sq" "sq_looping sq' = sq_looping sq" "sb_channel_count b' = sc_channels K (sq_child sq)" "sb_buffersize b' = n"
    "\<And>c t. sample_at b' c t = 0"
proof -
  note st = assms(1)[unfolded seq_state_def]
  obtain b1 where 1: "number_of_channels g (sc_channels K (sq_child sq)) b = Inr b1" "sb_wf b1" "sb_channel_count b1 = sc_channels K (sq_child sq)"
    using number_of_channels_at[OF assms(2)] by blast
  obtain b2 where 2: "length_in_samples g n b1 = Inr b2" "sb_wf b2" "sb_channel_count b2 = sc_channels K (sq_child sq)" "sb_buffersize b2 = n"
    using length_in_samples_at[OF 1(2), of g n] 1(3) by auto
  obtain b3 where 3: "make_silent b2 = Inr b3" "sb_wf b3" "sb_channel_count b3 = sc_channels K (sq_child sq)" "sb_buffersize b3 = n"
      "\<And>c t. sample_at b3 c t = 0"
    using make_silent_at[OF 2(2)] 2(3,4) by auto
  define sq1 where "sq1 = sq_move (change_position_in_samples (int n)) sq"
  have f: "sc_finite K (sq_child sq1)" using finite_ok st by (simp add: sq1_def)
  have "seq_read_case1 g K b sq = Inr (sq1, b3)" using st 1(1) 2(1) 3(1) by (simp add: seq_read_case1_def sb_length_def sq1_def)
  then have "seq_read_buffer g K b sq = Inr (if sq_looping sq1 then sq_move extend_position sq1 else sq1, b3)"
    using st assms(3) f by (simp add: seq_read_buffer_def)
  then show thesis
    by (rule that) (use st 3 in \<open>auto simp: seq_state_def sq1_def\<close>)
qed

text \<open>Within the segment, played once.\<close>

lemma seq_segment_block:
  assumes st: "seq_state K ok sq n p off s l" and "sb_wf b" "\<not> sq_looping sq" "off \<le> p" "p \<le> off + l"
    and sync: "seq_synced K sq \<or> p = off + l" and m: "m = min n (min (s + l) (frames (sq_child sq)) - (s + p - off))"
  obtains sq' b' where "seq_read_buffer g K b sq = Inr (sq', b')" "seq_state K ok sq' n (p + m) off s l" "sb_wf b'"
    "sq_looping sq' = sq_looping sq" "frames (sq_child sq') = frames (sq_child sq)" "content (sq_child sq') = content (sq_child sq)"
    "sc_channels K (sq_child sq') = sc_channels K (sq_child sq)" "seq_synced K sq' \<or> p + m = off + l"
    "sb_channel_count b' = sc_channels K (sq_child sq)" "sb_buffersize b' = m"
    "\<And>c t. c < sc_channels K (sq_child sq) \<Longrightarrow> t < m \<Longrightarrow> sample_at b' c t = content (sq_child sq) c (s + p - off + t)"
proof -
  define F k where "F = frames (sq_child sq)" and "k = sc_channels K (sq_child sq)"
  note u = st[unfolded seq_state_def]
  define q1 where "q1 = s + p - off"
  have pos: "priv_public_to_child_pos (int p) sq = int q1" "priv_public_to_child_pos (int p + int n) sq = int (q1 + n)"
    using child_pos_segment[OF st assms(3,4)] child_pos_segment[OF st assms(3), of "p + n"] assms(4) by (simp_all add: q1_def)
  have q1: "q1 + (off + l - p) = s + l" "q1 \<le> s + l" using assms(4,5) by (simp_all add: q1_def)
  obtain q where q: "sc_position K (sq_child sq) = int q" using position_ok u nonneg_int_cases by metis
  obtain c' b' where r: "seq_read_child K b sq = Inr (sq_put_child c' sq, b')" "sb_wf b'" "sb_channel_count b' = k"
      "sb_buffersize b' = min n (F - q)" "ok c'" "sc_position K c' = int q + int (min n (F - q))" "sc_channels K c' = k"
      "frames c' = F" "content c' = content (sq_child sq)" "seq_state K ok (sq_put_child c' sq) n p off s l"
      "\<And>ch t. ch < k \<Longrightarrow> t < min n (F - q) \<Longrightarrow> sample_at b' ch t = content (sq_child sq) ch (q + t)"
    using seq_read_child_at[OF st assms(2) q] unfolding F_def k_def by metis
  have sync': "q = q1 \<or> m = 0 \<and> p = off + l" using sync q pos u q1 by (auto simp: seq_synced_def m q1_def)
  obtain b2 where b2: "sb_wf b2" "sb_channel_count b2 = k" "sb_buffersize b2 = m"
      "\<And>c t. c < k \<Longrightarrow> t < m \<Longrightarrow> sample_at b2 c t = content (sq_child sq) c (q1 + t)"
      "(if int (q1 + n) \<ge> int l + int s then
          (if int (sb_buffersize b') > int l + int s - int q1 then sb_length g (int l + int s - int q1) b' else Inr b') else Inr b') = Inr b2"
  proof (cases "q = q1")
    case True
    then have n': "sb_buffersize b' = min n (F - q1)" using r(4) by simp
    show ?thesis
    proof (cases "int (q1 + n) \<ge> int l + int s \<and> int (sb_buffersize b') > int l + int s - int q1")
      case cut: True
      then have "m = s + l - q1" "m \<le> min n (F - q1)" using n' q1 by (auto simp: m F_def[symmetric] q1_def[symmetric])
      moreover have "nat (int l + int s - int q1) = s + l - q1" "\<not> int l + int s - int q1 < 0" using q1 by auto
      ultimately show ?thesis using length_in_samples_at[OF r(2), of g m] that cut r(3,11) True by (fastforce simp: sb_length_def)
    next
      case False
      then have "min n (F - q1) \<le> s + l - q1" using n' q1 by linarith
      then have "m = min n (F - q1)" unfolding m F_def[symmetric] q1_def[symmetric] by (auto simp: min_def split: if_splits)
      then show ?thesis using that[of b'] False r True by auto
    qed
  next
    case False
    then have z: "m = 0" "p = off + l" using sync' by simp_all
    then have "int l + int s - int q1 = 0" "int (q1 + n) \<ge> int l + int s" using q1 by auto
    moreover obtain b0 where "length_in_samples g 0 b' = Inr b0" "sb_wf b0" "sb_channel_count b0 = k" "sb_buffersize b0 = 0"
      using length_in_samples_at[OF r(2), of g 0] r(3) by auto
    ultimately show ?thesis using that[of b0] that[of b'] r(2,3) z by (cases "sb_buffersize b' = 0") (simp_all add: sb_length_def)
  qed
  define sq1 where "sq1 = sq_move (change_position_in_samples (int m)) (sq_put_child c' sq)"
  have fin: "sc_finite K (sq_child sq)" "sc_finite K c'" using finite_ok u r(5) by auto
  have "seq_read_buffer g K b sq = Inr (sq1, b2)"
    using assms(3,4) u pos r(1) b2(3,5) fin
    by (auto simp: seq_read_buffer_def seq_read_case3a_def seq_read_case3c_def Let_def sq1_def split: if_splits)
  moreover have "seq_synced K sq1 \<or> p + m = off + l"
  proof (cases "q = q1")
    case True
    have "m = min n (F - q1) \<or> m = s + l - q1" by (auto simp: m F_def[symmetric] q1_def[symmetric])
    moreover have "p + (s + l - q1) = off + l" using assms(4,5) by (simp add: q1_def)
    moreover have "priv_public_to_child_pos (int p + int m) sq = int (q1 + m)"
      using child_pos_segment[OF st assms(3), of "p + m"] assms(4) by (simp add: q1_def)
    ultimately show ?thesis using r(6) True u by (auto simp: seq_synced_def sq1_def)
  qed (use sync' in auto)
  moreover have "seq_state K ok sq1 n (p + m) off s l" using r(10) by (simp add: seq_state_def sq1_def)
  ultimately show thesis
    using that[of sq1 b2] b2 r by (simp add: sq1_def F_def k_def q1_def)
qed

text \<open>Within a loop that is longer than a buffer.\<close>

lemma seq_loop_block:
  assumes st: "seq_state K ok sq n p off s l" and "sb_wf b" "sq_looping sq" "off \<le> p" "s + n < l" "l \<le> frames (sq_child sq)"
    and sync: "seq_synced K sq"
  obtains sq' b' where "seq_read_buffer g K b sq = Inr (sq', b')" "seq_state K ok sq' n (p + n) off s l" "sb_wf b'"
    "sq_looping sq' = sq_looping sq" "frames (sq_child sq') = frames (sq_child sq)" "content (sq_child sq') = content (sq_child sq)"
    "sc_channels K (sq_child sq') = sc_channels K (sq_child sq)" "seq_synced K sq'"
    "sb_channel_count b' = sc_channels K (sq_child sq)" "sb_buffersize b' = n"
    "\<And>c t. c < sc_channels K (sq_child sq) \<Longrightarrow> t < n \<Longrightarrow> sample_at b' c t = content (sq_child sq) c (s + (p - off + t) mod (l - s))"
proof -
  define F k where "F = frames (sq_child sq)" and "k = sc_channels K (sq_child sq)"
  note u = st[unfolded seq_state_def]
  define d a where "d = l - s" and "a = (p - off) mod d"
  have d: "n < d" "s < l" "a < d" "s + d = l" using assms(5) by (auto simp: d_def a_def)
  have pos: "priv_public_to_child_pos (int p) sq = int (s + a)"
      "priv_public_to_child_pos (int p + int n) sq = int (s + (p - off + n) mod d)"
    using child_pos_loop[OF st assms(3,4) d(2)] child_pos_loop[OF st assms(3), of "p + n"] assms(4) d(2)
    by (simp_all add: a_def d_def)
  have q: "sc_position K (sq_child sq) = int (s + a)" using sync pos u by (simp add: seq_synced_def)
  obtain c' b' where r: "seq_read_child K b sq = Inr (sq_put_child c' sq, b')" "sb_wf b'" "sb_channel_count b' = k"
      "sb_buffersize b' = min n (F - (s + a))" "ok c'" "sc_buffersize K c' = int n" "sc_position K c' = int (s + a) + int (min n (F - (s + a)))"
      "sc_channels K c' = k" "frames c' = F" "content c' = content (sq_child sq)" "seq_state K ok (sq_put_child c' sq) n p off s l"
      "\<And>ch t. ch < k \<Longrightarrow> t < min n (F - (s + a)) \<Longrightarrow> sample_at b' ch t = content (sq_child sq) ch (s + a + t)"
    using seq_read_child_at[OF st assms(2) q] unfolding F_def k_def by metis
  have lF: "l \<le> F" using assms(6) by (simp add: F_def)
  have step: "(p - off + t) mod d = (if a + t < d then a + t else a + t - d)" if "t \<le> n" for t
    unfolding a_def by (rule mod_step) (use that d(1) in simp)
  show thesis
  proof (cases "a + n < d")
    case True
    then have nw: "(p - off + n) mod d = a + n" "min n (F - (s + a)) = n" using step[of n] d lF by auto
    define sq1 where "sq1 = sq_move extend_position (sq_move (change_position_in_samples (int n)) (sq_put_child c' sq))"
    have "seq_read_buffer g K b sq = Inr (sq1, b')"
      using assms(3,4) u pos r(1,4) nw by (simp add: seq_read_buffer_def seq_read_case3c_def Let_def sq1_def)
    moreover have "seq_state K ok sq1 n (p + n) off s l" using r(11) by (simp add: seq_state_def sq1_def)
    moreover have "seq_synced K sq1" using r(7) nw pos u by (simp add: seq_synced_def sq1_def)
    moreover have "sample_at b' c t = content (sq_child sq) c (s + (p - off + t) mod d)" if "c < k" "t < n" for c t
      using r(12)[of c t] that nw(2) step[of t] True by (simp add: add.assoc)
    ultimately show thesis using that[of sq1 b'] r nw by (simp add: sq1_def F_def k_def d_def)
  next
    case False
    define over where "over = a + n - d"
    have over: "(p - off + n) mod d = over" "over < a" "over < n" "d - a \<le> n" "n - over = d - a" "d - a \<le> min n (F - (s + a))"
      using step[of n] False d lF by (auto simp: over_def)
    have wrap: "priv_public_to_child_pos (int p + int n - int over) sq = int s"
    proof -
      have le: "off \<le> p + n - over" "over \<le> p + n" using over(3) assms(4) by simp_all
      have "(p - off + n - over) mod d = 0" using over(1) by (metis minus_mod_eq_mult_div mod_mult_self1_is_0 mult.commute)
      moreover have "p - off + n - over = p + n - over - off" using assms(4) by simp
      ultimately have z: "(p + n - over - off) mod (l - s) = 0" by (simp only: d_def)
      have eq: "int p + int n - int over = int (p + n - over)" using le(2) by simp
      show ?thesis unfolding eq child_pos_loop[OF st assms(3) le(1) d(2)] z by (simp only: add_0_right)
    qed
    define c2 where "c2 = sc_seek K (int s) c'"
    have c2: "ok c2" "sc_buffersize K c2 = int n" "sc_position K c2 = int s" "sc_channels K c2 = k" "frames c2 = F" "content c2 = content (sq_child sq)"
      using seek_ok[OF r(5), of "int s"] r by (simp_all add: c2_def)
    define sq2 where "sq2 = sq_put_child c2 (sq_put_child c' sq)"
    have st2: "seq_state K ok sq2 n p off s l" using r(8,11) c2 by (simp add: seq_state_def sq2_def)
    obtain sq3 b3 where 3: "(if int over > 0
           then seq_fill_end K (\<lambda>b. bind_result (sb_length g (sq_buffersize sq2) b)
                                     (number_of_channels g (nat (af_channels (ai_format (sq_io sq2)))))) (int over) b' sq2
           else Inr (sq2, b')) = Inr (sq3, b3)" "sb_wf b3" "sb_channel_count b3 = k" "sb_buffersize b3 = n"
        "\<And>c t. c < k \<Longrightarrow> t < n \<Longrightarrow> sample_at b3 c t = content (sq_child sq) c (if t < d - a then s + a + t else s + (t - (d - a)))"
        "seq_state K ok sq3 n p off s l" "sq_looping sq3 = sq_looping sq" "frames (sq_child sq3) = F" "content (sq_child sq3) = content (sq_child sq)"
        "sc_channels K (sq_child sq3) = k" "sc_position K (sq_child sq3) = int (s + over)"
        "\<And>p'. priv_public_to_child_pos p' sq3 = priv_public_to_child_pos p' sq" "sq_length_set sq3 = sq_length_set sq"
    proof (cases "over = 0")
      case True
      then have "d - a = n" using over by simp
      then show ?thesis using that[of sq2 b'] True r st2 c2 over by (simp add: sq2_def)
    next
      case o: False
      define c3 where "c3 = sc_set_buffersize K (int over) c2"
      have c3: "ok c3" "sc_buffersize K c3 = int over" "sc_position K c3 = int s" "sc_channels K c3 = k" "frames c3 = F" "content c3 = content (sq_child sq)"
        using set_buffersize_ok[OF c2(1), of "int over"] c2 by (simp_all add: c3_def)
      have mo: "min over (F - s) = over" using over d lF by simp
      obtain c4 t4 where 4: "sc_read K (sq_tmp sq) c3 = Inr (c4, t4)" "ok c4" "sb_wf t4" "sb_channel_count t4 = k" "sb_buffersize t4 = over"
          "sc_position K c4 = int s + int over" "sc_channels K c4 = k" "frames c4 = F" "content c4 = content (sq_child sq)"
          "\<And>ch t. ch < k \<Longrightarrow> t < over \<Longrightarrow> sample_at t4 ch t = content (sq_child sq) ch (s + t)"
        using read_at[OF c3(1) _ c3(2,3), of "sq_tmp sq"] u mo c3 by metis
      obtain b1 where 5: "length_in_samples g n b' = Inr b1" "sb_wf b1" "sb_channel_count b1 = k" "sb_buffersize b1 = n"
          "\<And>c t. sample_at b1 c t = (if t < n then sample_at b' c t else 0)"
        using length_in_samples_at[OF r(2), of g n] r(3) by auto
      obtain b2 where 6: "number_of_channels g k b1 = Inr b2" "sb_wf b2" "sb_channel_count b2 = k" "sb_buffersize b2 = n"
          "\<And>c t. c < k \<Longrightarrow> sample_at b2 c t = sample_at b1 c t"
        using number_of_channels_at[OF 5(2), of g k] 5(4) by auto
      obtain b3 where 7: "copy_range t4 0 (sb_buffersize t4) (n - over) b2 = Inr b3" "sb_wf b3" "sb_channel_count b3 = k" "sb_buffersize b3 = n"
          "\<And>c t. c < k \<Longrightarrow> t < n \<Longrightarrow> sample_at b3 c t = (if n - over \<le> t \<and> t - (n - over) < over then sample_at t4 c (t - (n - over)) else sample_at b2 c t)"
        using copy_range_at[OF 6(2) 4(3), of "n - over"] 6(3,4) 4(4,5) by metis
      define c5 where "c5 = sc_set_buffersize K (int n) c4"
      have c5: "ok c5" "sc_position K c5 = int s + int over" "sc_channels K c5 = k" "frames c5 = F" "content c5 = content (sq_child sq)"
        using set_buffersize_ok[OF 4(2), of "int n"] 4 by (simp_all add: c5_def)
      define sq3 where "sq3 = sq_put_child c5 (sq2\<lparr>sq_tmp := t4\<rparr>)"
      have "nat (af_channels (ai_format (sq_io sq2))) = k" using st2 c2 by (simp add: seq_state_def sq2_def)
      moreover have "nat (int n - int over) = n - over" using over by simp
      ultimately have "seq_fill_end K (\<lambda>b. bind_result (sb_length g (sq_buffersize sq2) b)
          (number_of_channels g (nat (af_channels (ai_format (sq_io sq2)))))) (int over) b' sq2 = Inr (sq3, b3)"
        using u 4(1) 5(1) 6(1) 7(1) by (simp add: seq_fill_end_def sb_length_def sq3_def sq2_def c3_def c5_def)
      moreover have "sample_at b3 c t = content (sq_child sq) c (if t < d - a then s + a + t else s + (t - (d - a)))" if "c < k" "t < n" for c t
        using 7(5)[OF that] 6(5)[OF that(1), of t] 5(5)[of c t] r(12)[of c t] 4(10)[of c "t - (n - over)"] that over by auto
      moreover have "seq_state K ok sq3 n p off s l" using st2 c5 4(3) c2 by (simp add: seq_state_def sq3_def sq2_def)
      ultimately show ?thesis using that[of sq3 b3] o 7 c5 by (simp add: sq3_def sq2_def)
    qed
    define sq4 where "sq4 = sq_move extend_position (sq_move (change_position_in_samples (int n)) sq3)"
    have ov: "priv_public_to_child_pos (sq_position sq + sq_buffersize sq) sq - at_samples (sq_start sq) = int over"
        "priv_public_to_child_pos (sq_position sq + sq_buffersize sq - int over) sq = int s"
      using u pos(2) over(1) wrap by simp_all
    have same2: "sq_buffersize sq2 = sq_buffersize sq" "sq_io sq2 = sq_io sq" by (simp_all add: sq2_def)
    have "seq_read_case3b g K b sq = bind_result (Inr (sq3, b3)) (\<lambda>(sq3, b1). Inr (sq_move (change_position_in_samples (sq_buffersize sq3)) sq3, b1))"
      unfolding seq_read_case3b_def r(1) 3(1)[symmetric]
      by (simp only: bind_result_simps split_conv Let_def ov put_child_simps c2_def[symmetric] sq2_def[symmetric] same2)
    then have "seq_read_case3b g K b sq = Inr (sq_move (change_position_in_samples (int n)) sq3, b3)"
      using 3(6) by (simp add: seq_state_def)
    then have "seq_read_buffer g K b sq = Inr (sq4, b3)"
      using assms(3,4) u pos over(1,2) 3(7) by (simp add: seq_read_buffer_def Let_def sq4_def)
    moreover have "seq_state K ok sq4 n (p + n) off s l" using 3(6) by (simp add: seq_state_def sq4_def)
    moreover have "seq_synced K sq4" using 3(6,11,12) pos over(1) by (simp add: seq_synced_def seq_state_def sq4_def)
    moreover have "sample_at b3 c t = content (sq_child sq) c (s + (p - off + t) mod d)" if "c < k" "t < n" for c t
      using 3(5)[OF that] that step[of t] over d by (auto simp: add.assoc add.commute[of t a])
    ultimately show thesis using that[of sq4 b3] 3 by (simp add: sq4_def F_def k_def d_def)
  qed
qed

text \<open>Blocks in turn.\<close>

lemma take_blocks:
  assumes "xs = take (n * k) ys" "length xs = m * k" "m \<le> n" "0 < k"
  shows "xs @ take (j * n * k) (drop (m * k) ys) = take (Suc j * n * k) ys"
proof (cases "m = n")
  case True
  then show ?thesis by (simp add: assms(1) add_mult_distrib take_add)
next
  case False
  then have "m * k < n * k" using assms(3,4) by simp
  then have "length ys = m * k" using assms(1,2) by (simp add: min_def split: if_splits)
  moreover have "n * k \<le> Suc j * n * k" by simp
  ultimately show ?thesis using assms(1) \<open>m * k < n * k\<close> by simp
qed

lemma seq_play_block:
  assumes st: "seq_state K ok sq n p off s l" and "sb_wf b" "\<not> sq_looping sq" "p \<le> off + l" "p < off \<longrightarrow> p + n \<le> off"
    and sync: "p < off \<and> sc_position K (sq_child sq) = int s \<or> off \<le> p \<and> (seq_synced K sq \<or> p = off + l)"
    and k: "sc_channels K (sq_child sq) = k" "0 < k"
  obtains sq' b' m where "seq_read_buffer g K b sq = Inr (sq', b')" "seq_state K ok sq' n (p + m) off s l" "sb_wf b'" "m \<le> n"
    "\<not> sq_looping sq'" "p + m \<le> off + l" "p < off \<longrightarrow> m = n"
    "p + m < off \<and> sc_position K (sq_child sq') = int s \<or> off \<le> p + m \<and> (seq_synced K sq' \<or> p + m = off + l)"
    "sc_channels K (sq_child sq') = k" "frames (sq_child sq') = frames (sq_child sq)" "content (sq_child sq') = content (sq_child sq)"
    "interleaved b' = take (n * k) (drop (p * k) (replicate (off * k) 0 @ take (l * k) (drop (s * k) (frame_list (frames (sq_child sq)) k (content (sq_child sq))))))"
    "length (interleaved b') = m * k"
proof (cases "p < off")
  case True
  then have pn: "p + n \<le> off" "sc_position K (sq_child sq) = int s" using assms(5) sync by simp_all
  obtain sq' b' where r: "seq_read_buffer g K b sq = Inr (sq', b')" "seq_state K ok sq' n (p + n) off s l" "sb_wf b'" "sq_child sq' = sq_child sq"
      "sq_looping sq' = sq_looping sq" "sb_channel_count b' = k" "sb_buffersize b' = n" "\<And>c t. sample_at b' c t = 0"
    using seq_silence[OF st assms(2) pn(1)] k by metis
  have "interleaved b' = replicate (n * k) 0" using r(6-8) by (simp add: interleaved_def map_replicate_const)
  moreover have "n * k \<le> off * k - p * k" using pn(1) by (metis add_leD2 diff_mult_distrib le_diff_conv2 mult_le_mono1 trans_le_add1 add.commute le_add2 add_le_imp_le_diff)
  ultimately have i: "interleaved b' = take (n * k) (drop (p * k) (replicate (off * k) 0 @ ys))" for ys by simp
  have len: "length (interleaved b') = n * k" using r(6,7) by (simp add: interleaved_def)
  have "priv_public_to_child_pos (int off) sq' = int s" using r(2) by (simp add: priv_public_to_child_pos_def seq_state_def)
  then have "p + n = off \<longrightarrow> seq_synced K sq'" using r(2,4) pn(2) by (auto simp: seq_synced_def seq_state_def)
  then have sy: "p + n < off \<and> sc_position K (sq_child sq') = int s \<or> off \<le> p + n \<and> (seq_synced K sq' \<or> p + n = off + l)"
    using pn r(4) by (cases "p + n = off") auto
  show thesis by (rule that[OF r(1-3) _ _ _ _ sy _ _ _ i len]) (use r pn assms(3) k in simp_all)
next
  case False
  define F m q where "F = frames (sq_child sq)" and "m = min n (min (s + l) (frames (sq_child sq)) - (s + p - off))" and "q = s + p - off"
  have le: "off \<le> p" using False by simp
  obtain sq' b' where r: "seq_read_buffer g K b sq = Inr (sq', b')" "seq_state K ok sq' n (p + m) off s l" "sb_wf b'" "sq_looping sq' = sq_looping sq"
      "frames (sq_child sq') = F" "content (sq_child sq') = content (sq_child sq)" "sc_channels K (sq_child sq') = k"
      "seq_synced K sq' \<or> p + m = off + l" "sb_channel_count b' = k" "sb_buffersize b' = m"
      "\<And>c t. c < k \<Longrightarrow> t < m \<Longrightarrow> sample_at b' c t = content (sq_child sq) c (q + t)"
    using seq_segment_block[OF st assms(2,3) le assms(4) _ m_def] sync False k(1) unfolding F_def q_def by (metis not_less)
  have "s + l - q = l - (p - off)" using le by (simp add: q_def)
  then have "min (s + l) F - q = min (l - (p - off)) (F - q)" by (metis min_diff)
  then have m: "m = min n (min (l - (p - off)) (F - q))" by (simp add: m_def F_def[symmetric] q_def[symmetric])
  then have mF: "sb_buffersize b' \<le> F - q" using r(10) by (auto simp: min_le_iff_disj)
  have i: "interleaved b' = take (m * k) (drop (q * k) (frame_list F k (content (sq_child sq))))"
    using interleaved_window[OF k(2) r(9) mF, of "content (sq_child sq)"] r(10,11) by simp
  define fl where "fl = frame_list F k (content (sq_child sq))"
  have "(p * k - off * k) + s * k = q * k" "l * k - (p * k - off * k) = (l - (p - off)) * k"
    using le assms(4) by (simp_all add: q_def algebra_simps flip: diff_mult_distrib)
  then have "drop (p * k) (replicate (off * k) 0 @ take (l * k) (drop (s * k) fl)) = take ((l - (p - off)) * k) (drop (q * k) fl)"
    using le by (simp add: drop_take)
  then have "take (n * k) (drop (p * k) (replicate (off * k) 0 @ take (l * k) (drop (s * k) fl))) = take (min n (l - (p - off)) * k) (drop (q * k) fl)"
    by (simp add: min_def)
  also have "\<dots> = take (m * k) (drop (q * k) fl)"
  proof (cases "min n (l - (p - off)) \<le> F - q")
    case True
    then show ?thesis by (simp add: m min_def split: if_splits)
  next
    case short: False
    then have "m = F - q" by (auto simp: m)
    moreover have "length (drop (q * k) fl) = (F - q) * k" by (simp add: fl_def diff_mult_distrib)
    ultimately show ?thesis using short by (simp add: min_def)
  qed
  finally have i': "interleaved b' = take (n * k) (drop (p * k) (replicate (off * k) 0 @ take (l * k) (drop (s * k) fl)))" using i by (simp add: fl_def)
  have lm: "length (interleaved b') = m * k" using r(9,10) by (simp add: interleaved_def)
  have "p + m \<le> off + l" "m \<le> n" using m le assms(4) by simp_all
  then show thesis
    using that[of sq' b' m] r i' lm assms(3) le by (simp add: fl_def F_def)
qed

lemma seq_plays:
  assumes "seq_state K ok sq n p off s l" "sb_wf b" "\<not> sq_looping sq" "p \<le> off + l" "p < off \<longrightarrow> n dvd (off - p)"
    "p < off \<and> sc_position K (sq_child sq) = int s \<or> off \<le> p \<and> (seq_synced K sq \<or> p = off + l)"
    "sc_channels K (sq_child sq) = k" "0 < k"
  shows "\<exists>sq' bufs. seq_read_blocks g K b m sq = Inr (sq', bufs) \<and> length bufs = m \<and> concat (map interleaved bufs) =
    take (m * n * k) (drop (p * k) (replicate (off * k) 0 @ take (l * k) (drop (s * k) (frame_list (frames (sq_child sq)) k (content (sq_child sq))))))"
  using assms
proof (induction m arbitrary: sq b p)
  case (Suc m)
  have pn: "p < off \<longrightarrow> p + n \<le> off" using Suc.prems(5) by (auto dest: dvd_imp_le)
  define full where "full = replicate (off * k) 0 @ take (l * k) (drop (s * k) (frame_list (frames (sq_child sq)) k (content (sq_child sq))))"
  obtain sq1 b1 d where 1: "seq_read_buffer g K b sq = Inr (sq1, b1)" "seq_state K ok sq1 n (p + d) off s l" "sb_wf b1" "d \<le> n"
    "\<not> sq_looping sq1" "p + d \<le> off + l" "p < off \<longrightarrow> d = n"
    "p + d < off \<and> sc_position K (sq_child sq1) = int s \<or> off \<le> p + d \<and> (seq_synced K sq1 \<or> p + d = off + l)"
    "sc_channels K (sq_child sq1) = k" "frames (sq_child sq1) = frames (sq_child sq)" "content (sq_child sq1) = content (sq_child sq)"
    "interleaved b1 = take (n * k) (drop (p * k) full)" "length (interleaved b1) = d * k"
    using seq_play_block[OF Suc.prems(1-4) pn Suc.prems(6-8)] unfolding full_def by metis
  have dv: "p + d < off \<longrightarrow> n dvd (off - (p + d))"
  proof
    assume "p + d < off"
    then have "off - (p + d) = off - p - n" "n dvd off - p" "n dvd n" using 1(7) Suc.prems(5) by auto
    then show "n dvd (off - (p + d))" by (metis dvd_diff_nat)
  qed
  obtain sq' bufs where 2: "seq_read_blocks g K b1 m sq1 = Inr (sq', bufs)" "length bufs = m"
      "concat (map interleaved bufs) = take (m * n * k) (drop ((p + d) * k) full)"
    using Suc.IH[OF 1(2,3,5,6) dv 1(8,9) Suc.prems(8)] unfolding full_def 1(10,11) by blast
  have "concat (map interleaved (b1 # bufs)) = take (Suc m * n * k) (drop (p * k) full)"
    using take_blocks[OF 1(12,13,4) Suc.prems(8), of m] 2(3) by (simp add: add_mult_distrib add.commute)
  then show ?case using 1(1) 2(1,2) unfolding full_def[symmetric] by (intro exI[of _ sq'] exI[of _ "b1 # bufs"]) simp
qed simp

lemma seq_loops:
  assumes "seq_state K ok sq n p off s l" "sb_wf b" "sq_looping sq" "off \<le> p" "s + n < l" "l \<le> frames (sq_child sq)" "seq_synced K sq"
    "sc_channels K (sq_child sq) = k" "0 < k"
  shows "\<exists>sq' bufs. seq_read_blocks g K b m sq = Inr (sq', bufs) \<and> length bufs = m \<and> concat (map interleaved bufs) =
    map (\<lambda>j. content (sq_child sq) (j mod k) (s + (p - off + j div k) mod (l - s))) [0..<m * n * k]"
  using assms
proof (induction m arbitrary: sq b p)
  case (Suc m)
  obtain sq1 b1 where 1: "seq_read_buffer g K b sq = Inr (sq1, b1)" "seq_state K ok sq1 n (p + n) off s l" "sb_wf b1"
    "sq_looping sq1 = sq_looping sq" "frames (sq_child sq1) = frames (sq_child sq)" "content (sq_child sq1) = content (sq_child sq)"
    "sc_channels K (sq_child sq1) = k" "seq_synced K sq1" "sb_channel_count b1 = k" "sb_buffersize b1 = n"
    "\<And>c t. c < k \<Longrightarrow> t < n \<Longrightarrow> sample_at b1 c t = content (sq_child sq) c (s + (p - off + t) mod (l - s))"
    using seq_loop_block[OF Suc.prems(1-7)] Suc.prems(8) by metis
  have "off \<le> p + n" "l \<le> frames (sq_child sq1)" "sq_looping sq1" using Suc.prems(3,4,6) 1(4,5) by simp_all
  then obtain sq' bufs where 2: "seq_read_blocks g K b1 m sq1 = Inr (sq', bufs)" "length bufs = m" "concat (map interleaved bufs) =
      map (\<lambda>j. content (sq_child sq) (j mod k) (s + (p + n - off + j div k) mod (l - s))) [0..<m * n * k]"
    using Suc.IH[OF 1(2,3) _ _ Suc.prems(5) _ 1(8,7) Suc.prems(9)] unfolding 1(6) by blast
  define f where "f j = content (sq_child sq) (j mod k) (s + (p - off + j div k) mod (l - s))" for j
  have "sample_at b1 (j mod k) (j div k) = f j" if "j < n * k" for j
    using 1(11)[of "j mod k" "j div k"] that Suc.prems(9) by (simp add: f_def less_mult_imp_div_less)
  then have i: "interleaved b1 = map f [0..<n * k]" using 1(9,10) by (simp add: interleaved_def)
  have "content (sq_child sq) (j mod k) (s + (p + n - off + j div k) mod (l - s)) = f (j + n * k)" for j
    using Suc.prems(4,9) by (simp add: f_def algebra_simps)
  then have "concat (map interleaved bufs) = map f (map (\<lambda>j. j + n * k) [0..<m * n * k])" using 2(3) by simp
  also have "map (\<lambda>j. j + n * k) [0..<m * n * k] = [n * k..<m * n * k + n * k]" by (simp add: map_add_upt)
  finally have "concat (map interleaved (b1 # bufs)) = map f ([0..<n * k] @ [n * k..<m * n * k + n * k])" using i by simp
  also have "[0..<n * k] @ [n * k..<m * n * k + n * k] = [0..<Suc m * n * k]"
    using upt_add_eq_append[of 0 "n * k" "m * n * k"] by (simp add: add_mult_distrib add.commute)
  finally show ?case using 1(1) 2(1,2) by (intro exI[of _ sq'] exI[of _ "b1 # bufs"]) (simp add: f_def)
qed simp

lemma seq_past_segment:
  assumes st: "seq_state K ok sq n p off s l" and "sb_wf b" "\<not> sq_looping sq" "off + l < p"
  shows "seq_read_buffer g K b sq = Inl Undefined_behaviour"
proof -
  note u = st[unfolded seq_state_def]
  have pos: "priv_public_to_child_pos (int p) sq = int (s + p - off)" "priv_public_to_child_pos (int p + int n) sq = int (s + p - off + n)"
    using child_pos_segment[OF st assms(3), of p] child_pos_segment[OF st assms(3), of "p + n"] assms(4) by simp_all
  obtain q where q: "sc_position K (sq_child sq) = int q" using position_ok u nonneg_int_cases by metis
  obtain c' b' where r: "seq_read_child K b sq = Inr (sq_put_child c' sq, b')" using seq_read_child_at[OF st assms(2) q] by metis
  define x where "x = at_samples (sq_length sq) + at_samples (sq_start sq) - priv_public_to_child_pos (sq_position sq) sq"
  have "x < 0" using assms(4) u pos by (simp add: x_def)
  then have "x < 0" "x < int (sb_buffersize b')" by linarith+
  then have "seq_read_case3a g K b sq = Inl Undefined_behaviour"
    unfolding seq_read_case3a_def Let_def x_def[symmetric] r bind_result_simps by (simp add: sb_length_def)
  moreover have "int (s + p - off + n) \<ge> int l + int s" using assms(4) by auto
  moreover have "sc_finite K (sq_child sq)" using finite_ok u by simp
  moreover have "\<not> int p + int n \<le> int off" "\<not> int p < int off" using assms(4) by auto
  ultimately show ?thesis
    using u pos assms(3) \<open>int (s + p - off + n) \<ge> int l + int s\<close> by (simp add: seq_read_buffer_def Let_def)
qed

end

text \<open>
  C19. A sequencer over a raw file, read from its start in buffers of \<open>n\<close> frames: it gives silence up to its
  offset, then the segment of the file - the frames from the start position on, as many as the segment's
  length and the file allow - and then nothing more. The offset is taken to be a multiple of the buffer size.
\<close>

theorem sequencer_plays_segment:
  assumes "seq_state (raw_stream E g gb) raw_child_ok sq n 0 off s l" "sb_wf b" "\<not> sq_looping sq" "n dvd off"
    "sc_position (raw_stream E g gb) (sq_child sq) = int s" "sc_channels (raw_stream E g gb) (sq_child sq) = k" "0 < k"
  shows "\<exists>sq' bufs. seq_read_blocks g' (raw_stream E g gb) b m sq = Inr (sq', bufs) \<and> length bufs = m \<and>
    concat (map interleaved bufs) = take (m * n * k) (replicate (off * k) 0 @
      take (l * k) (drop (s * k) (frame_list (raw_frames (fst (sq_child sq))) k (raw_content E (fst (sq_child sq))))))"
proof -
  have "priv_public_to_child_pos (sq_position sq) sq = int s"
    using assms(1) by (simp add: priv_public_to_child_pos_def seq_state_def)
  then have "0 < off \<and> sc_position (raw_stream E g gb) (sq_child sq) = int s \<or>
      off \<le> 0 \<and> (seq_synced (raw_stream E g gb) sq \<or> 0 = off + l)"
    using assms(5) by (auto simp: seq_synced_def)
  then show ?thesis using raw_child.seq_plays[OF assms(1-3), of k g' m] assms(4,6,7) by simp
qed

text \<open>
  C20. A looping sequencer over a raw file gives full buffers for ever: the frames between the start position
  and the end of the loop (\<open>child_length\<close>, taken as a position in the file), again and again without a gap.
  The loop is taken to be longer than a buffer.
\<close>

theorem sequencer_loops:
  assumes "seq_state (raw_stream E g gb) raw_child_ok sq n off off s l" "sb_wf b" "sq_looping sq" "s + n < l"
    "l \<le> raw_frames (fst (sq_child sq))" "sc_position (raw_stream E g gb) (sq_child sq) = int s"
    "sc_channels (raw_stream E g gb) (sq_child sq) = k" "0 < k"
  shows "\<exists>sq' bufs. seq_read_blocks g' (raw_stream E g gb) b m sq = Inr (sq', bufs) \<and> length bufs = m \<and>
    concat (map interleaved bufs) =
      map (\<lambda>j. raw_content E (fst (sq_child sq)) (j mod k) (s + (j div k) mod (l - s))) [0..<m * n * k]"
proof -
  have "seq_synced (raw_stream E g gb) sq"
    using assms(1,6) by (simp add: seq_synced_def priv_public_to_child_pos_def seq_state_def)
  then show ?thesis using raw_child.seq_loops[OF assms(1-3) _ assms(4,5), of k g' m] assms(7,8) by simp
qed


text \<open>An example: a sequencer over the file with five frames.\<close>

definition example_seq :: "'c \<Rightarrow> nat \<Rightarrow> nat \<Rightarrow> nat \<Rightarrow> bool \<Rightarrow> ('c, rat) seqbase" where
  "example_seq c p off l looping =
     \<lparr>sq_proxy = \<lparr>px_io = \<lparr>ai_label = ''take'', ai_io_mode = Io_read, ai_open = True, ai_format = example_format\<lparr>af_channels := 1\<rparr>,
        ai_position = \<lparr>ap_position = int p, ap_length = 0, ap_length_set = False, ap_srate = 44100\<rparr>\<rparr>,
        px_buffersize = 2, px_child = c, px_child_initialized = True\<rparr>,
      sq_tmp = mono_buffer, sq_looping = looping, sq_offset = audio_time_none\<lparr>at_samples := int off\<rparr>,
      sq_start = audio_time_none\<lparr>at_samples := 0\<rparr>, sq_length = audio_time_none\<lparr>at_samples := int l\<rparr>, sq_length_set = True,
      sq_child_str = '''', sq_write_started = False, sq_init = True\<rparr>"

lemma example_seq_state:
  assumes "raw_child_ok c" "sc_channels (raw_stream E g gb) c = 1"
  shows "seq_state (raw_stream E g gb) raw_child_ok (example_seq c p off l looping) 2 p off 0 l"
  using assms mono_buffer_wf by (simp add: seq_state_def example_seq_def sq_position_def)

lemma sequencer_plays_segment_witness:
  "\<exists>c sq' bufs. seq_read_blocks (\<lambda>_ _. 0) (raw_stream little_env (\<lambda>_ _. 0) (\<lambda>_. 0)) mono_buffer 3 (example_seq c 0 2 3 False) = Inr (sq', bufs) \<and>
     length (concat (map interleaved bufs)) = 5"
proof -
  obtain c where c: "raw_child_ok c" "sc_position (raw_stream little_env (\<lambda>_ _. 0) (\<lambda>_. 0)) c = 0"
      "sc_channels (raw_stream little_env (\<lambda>_ _. 0) (\<lambda>_. 0)) c = 1" "raw_frames (fst c) = 5"
    using example_child[of 2 little_env "\<lambda>_ _. 0" "\<lambda>_. 0"] by auto
  have e: "\<not> sq_looping (example_seq c 0 2 3 False)" "(2 :: nat) dvd 2" "sq_child (example_seq c 0 2 3 False) = c"
    by (simp_all add: example_seq_def)
  obtain sq' bufs where "seq_read_blocks (\<lambda>_ _. 0) (raw_stream little_env (\<lambda>_ _. 0) (\<lambda>_. 0)) mono_buffer 3 (example_seq c 0 2 3 False) = Inr (sq', bufs)"
      "concat (map interleaved bufs) = take (3 * 2 * 1) (replicate (2 * 1) 0 @ take (3 * 1) (drop (0 * 1) (frame_list 5 1 (raw_content little_env (fst c)))))"
    using sequencer_plays_segment[OF example_seq_state[OF c(1,3)] mono_buffer_wf e(1,2), of 1 "\<lambda>_ _. 0" 3] c(2-4) e(3) by auto
  then show ?thesis by (intro exI[of _ c] exI[of _ sq'] exI[of _ bufs]) simp
qed

lemma sequencer_loops_witness:
  "\<exists>c sq' bufs. seq_read_blocks (\<lambda>_ _. 0) (raw_stream little_env (\<lambda>_ _. 0) (\<lambda>_. 0)) mono_buffer 100 (example_seq c 0 0 5 True) = Inr (sq', bufs) \<and>
     length (concat (map interleaved bufs)) = 200"
proof -
  obtain c where c: "raw_child_ok c" "sc_position (raw_stream little_env (\<lambda>_ _. 0) (\<lambda>_. 0)) c = 0"
      "sc_channels (raw_stream little_env (\<lambda>_ _. 0) (\<lambda>_. 0)) c = 1" "raw_frames (fst c) = 5"
    using example_child[of 2 little_env "\<lambda>_ _. 0" "\<lambda>_. 0"] by auto
  have e: "sq_looping (example_seq c 0 0 5 True)" "0 + 2 < (5 :: nat)" "sq_child (example_seq c 0 0 5 True) = c"
    by (simp_all add: example_seq_def)
  obtain sq' bufs where 1: "seq_read_blocks (\<lambda>_ _. 0) (raw_stream little_env (\<lambda>_ _. 0) (\<lambda>_. 0)) mono_buffer 100 (example_seq c 0 0 5 True) = Inr (sq', bufs)"
      "concat (map interleaved bufs) = map (\<lambda>j. raw_content little_env (fst c) (j mod 1) (0 + (j div 1) mod (5 - 0))) [0..<100 * 2 * 1]"
    using sequencer_loops[OF example_seq_state[OF c(1,3)] mono_buffer_wf e(1,2), of 1 "\<lambda>_ _. 0" 100] c(2-4) e(3) by auto
  have "length (concat (map interleaved bufs)) = 200" unfolding 1(2) by (simp del: upt_Suc upt_rec_numeral)
  then show ?thesis using 1(1) by blast
qed


end
