(* ===== verification/Signal_Loops.thy ===== *)
theory Signal_Loops
  imports Effects_Facts
begin

text \<open>
  The loops over a sample buffer that the effects with a memory run: one sample after the other
  within one channel after the other (\<open>SAMPLE_ITERATOR_CHANNELS\<close>), frame after frame
  (\<open>SAMPLE_ITERATOR_INTERLEAVED\<close>), and two channels in step (two \<open>SAMPLE_ITERATOR_CHANNEL\<close>s).
  An effect that keeps a state per channel is a transducer of signals: whatever the order of the
  loop and wherever a stream is cut into buffers, each channel of the output is the transducer run
  over that channel of the input. The locales state what the body of a loop has to do for that.
\<close>

subsection \<open>Transducers\<close>

fun mealy :: "('m \<Rightarrow> 'a \<Rightarrow> 'm \<times> 'b) \<Rightarrow> 'm \<Rightarrow> 'a list \<Rightarrow> 'm \<times> 'b list" where
  "mealy f m [] = (m, [])"
| "mealy f m (x # xs) =
     (let (m1, y) = f m x; (m2, ys) = mealy f m1 xs in (m2, y # ys))"

lemma mealy_append:
  "mealy f m (xs @ ys) =
     (let (m1, us) = mealy f m xs; (m2, vs) = mealy f m1 ys in (m2, us @ vs))"
  by (induction xs arbitrary: m) (auto simp: case_prod_beta Let_def)

lemma mealy_append_simps:
  "fst (mealy f m (xs @ ys)) = fst (mealy f (fst (mealy f m xs)) ys)"
  "snd (mealy f m (xs @ ys)) = snd (mealy f m xs) @ snd (mealy f (fst (mealy f m xs)) ys)"
  by (simp_all add: mealy_append case_prod_beta Let_def)

lemma length_mealy [simp]: "length (snd (mealy f m xs)) = length xs"
  by (induction xs arbitrary: m) (auto simp: case_prod_beta Let_def)

lemma mealy_single: "mealy f m [x] = (fst (f m x), [snd (f m x)])"
  by (simp add: case_prod_beta Let_def)

lemma mealy_take_Suc:
  assumes "k < length xs"
  shows "fst (mealy f m (take (Suc k) xs)) = fst (f (fst (mealy f m (take k xs))) (xs ! k))"
    and "snd (mealy f m (take (Suc k) xs)) =
      snd (mealy f m (take k xs)) @ [snd (f (fst (mealy f m (take k xs))) (xs ! k))]"
  using assms by (simp_all add: take_Suc_conv_app_nth mealy_append_simps mealy_single del: mealy.simps)

lemma mealy_nth:
  assumes "k < length xs"
  shows "snd (mealy f m xs) ! k = snd (f (fst (mealy f m (take k xs))) (xs ! k))"
proof -
  have "xs = take k xs @ xs ! k # drop (Suc k) xs" using assms by (simp add: id_take_nth_drop)
  then have "snd (mealy f m xs) = snd (mealy f m (take k xs @ xs ! k # drop (Suc k) xs))" by simp
  then show ?thesis using assms by (simp add: mealy_append_simps nth_append case_prod_beta Let_def)
qed

text \<open>Two transducers with related states and the same outputs.\<close>

lemma mealy_simulation:
  assumes "R m m'" "\<And>m m' x. R m m' \<Longrightarrow> R (fst (f m x)) (fst (f' m' x)) \<and> snd (f m x) = snd (f' m' x)"
  shows "R (fst (mealy f m xs)) (fst (mealy f' m' xs)) \<and> snd (mealy f m xs) = snd (mealy f' m' xs)"
  using assms(1)
proof (induction xs arbitrary: m m')
  case (Cons x xs)
  then show ?case using Cons.IH[of "fst (f m x)" "fst (f' m' x)"] assms(2)[of m m' x]
    by (simp add: case_prod_beta Let_def)
qed simp

text \<open>An invariant of the state.\<close>

lemma mealy_invariant:
  assumes "P m" "\<And>m x. P m \<Longrightarrow> P (fst (f m x))"
  shows "P (fst (mealy f m xs))"
  using assms(1) by (induction xs arbitrary: m) (simp_all add: assms(2) case_prod_beta Let_def)

subsection \<open>The loops\<close>

text \<open>One turn of a loop: \<open>body\<close> computes the new sample and may change the effect.\<close>

definition at_cell ::
  "(nat \<Rightarrow> 'e \<Rightarrow> 's \<Rightarrow> ('e \<times> 's) result) \<Rightarrow> nat \<Rightarrow> nat \<Rightarrow> 'e \<times> 's list list \<Rightarrow> ('e \<times> 's list list) result" where
  "at_cell body c t = (\<lambda>(e, bufs).
     bind_result (read_cell bufs c t) (\<lambda>x.
     bind_result (body c e x) (\<lambda>(e', y).
     bind_result (write_cell c t y bufs) (\<lambda>bufs'. Inr (e', bufs')))))"

definition with_arrays ::
  "('e \<times> 's list list \<Rightarrow> ('e \<times> 's list list) result) \<Rightarrow> 'e \<Rightarrow> 's sample_buffer \<Rightarrow> ('e \<times> 's sample_buffer) result" where
  "with_arrays work e slot =
     bind_result (work (e, sb_arrays slot)) (\<lambda>(e', bufs). Inr (e', slot\<lparr>sb_arrays := bufs\<rparr>))"

definition each_sample ::
  "(nat \<Rightarrow> 'e \<Rightarrow> 's \<Rightarrow> ('e \<times> 's) result) \<Rightarrow> 'e \<Rightarrow> 's sample_buffer \<Rightarrow> ('e \<times> 's sample_buffer) result" where
  "each_sample body e slot =
     with_arrays (fold_result (\<lambda>c. fold_result (at_cell body c) [0..<sb_buffersize slot]) [0..<sb_channel_count slot]) e slot"

text \<open>The loop over frames visits the first \<open>k\<close> channels of each.\<close>

definition each_frame ::
  "nat \<Rightarrow> (nat \<Rightarrow> 'e \<Rightarrow> 's \<Rightarrow> ('e \<times> 's) result) \<Rightarrow> 'e \<Rightarrow> 's sample_buffer \<Rightarrow> ('e \<times> 's sample_buffer) result" where
  "each_frame k body e slot =
     with_arrays (fold_result (\<lambda>t. fold_result (\<lambda>c. at_cell body c t) [0..<k]) [0..<sb_buffersize slot]) e slot"

text \<open>
  Two channels in step. \<open>begin\<close> of an iterator ends it at once when the buffer lacks its channel, and
  the loop ends when one of the iterators does.
\<close>

definition at_pair ::
  "('e \<Rightarrow> 's \<Rightarrow> 's \<Rightarrow> ('e \<times> 's \<times> 's) result) \<Rightarrow> nat \<Rightarrow> 'e \<times> 's list list \<Rightarrow> ('e \<times> 's list list) result" where
  "at_pair body t = (\<lambda>(e, bufs).
     bind_result (read_cell bufs 0 t) (\<lambda>l.
     bind_result (read_cell bufs 1 t) (\<lambda>r.
     bind_result (body e l r) (\<lambda>(e', l', r').
     bind_result (write_cell 0 t l' bufs) (\<lambda>bufs1.
     bind_result (write_cell 1 t r' bufs1) (\<lambda>bufs2. Inr (e', bufs2)))))))"

definition each_pair ::
  "('e \<Rightarrow> 's \<Rightarrow> 's \<Rightarrow> ('e \<times> 's \<times> 's) result) \<Rightarrow> 'e \<Rightarrow> 's sample_buffer \<Rightarrow> ('e \<times> 's sample_buffer) result" where
  "each_pair body e slot =
     with_arrays (fold_result (at_pair body) [0..<(if 2 \<le> sb_channel_count slot then sb_buffersize slot else 0)]) e slot"

text \<open>A stream cut into buffers.\<close>

fun process_blocks :: "('e \<Rightarrow> 'b \<Rightarrow> ('e \<times> 'b) result) \<Rightarrow> 'e \<Rightarrow> 'b list \<Rightarrow> ('e \<times> 'b list) result" where
  "process_blocks process e [] = Inr (e, [])"
| "process_blocks process e (b # bs) =
     bind_result (process e b) (\<lambda>(e1, b').
     bind_result (process_blocks process e1 bs) (\<lambda>(e2, bs'). Inr (e2, b' # bs')))"

definition signal :: "nat \<Rightarrow> 's sample_buffer list \<Rightarrow> 's list" where
  "signal c bufs = concat (map (\<lambda>b. snd (sb_audio b) ! c) bufs)"

lemma signal_simps [simp]:
  "signal c [] = []" "signal c (b # bs) = snd (sb_audio b) ! c @ signal c bs"
  by (simp_all add: signal_def)

definition blocks_ok :: "nat \<Rightarrow> 's sample_buffer list \<Rightarrow> bool" where
  "blocks_ok n bufs \<longleftrightarrow> (\<forall>b \<in> set bufs. sb_wf b \<and> sb_channel_count b = n)"

lemma blocks_ok_simps [simp]:
  "blocks_ok n []" "blocks_ok n (b # bs) \<longleftrightarrow> sb_wf b \<and> sb_channel_count b = n \<and> blocks_ok n bs"
  by (auto simp: blocks_ok_def)

lemma sb_audio_channel:
  assumes "sb_wf slot" "c < sb_channel_count slot"
  shows "snd (sb_audio slot) ! c = take (sb_buffersize slot) (sb_arrays slot ! c)"
  using assms sb_wfD(1)[OF assms(1)] by (simp add: sb_audio_def)

lemma length_audio_channel:
  assumes "sb_wf slot" "c < sb_channel_count slot"
  shows "length (snd (sb_audio slot) ! c) = sb_buffersize slot"
  using assms sb_wfD[OF assms(1)] by (simp add: sb_audio_channel)

text \<open>New arrays of the same shape keep a buffer well-formed.\<close>

lemma wf_new_arrays:
  assumes "sb_wf slot" "map length bufs = map length (sb_arrays slot)"
  shows "sb_wf (slot\<lparr>sb_arrays := bufs\<rparr>)" "length bufs = length (sb_arrays slot)"
  using assms shapeD[OF assms(2)] sb_wfD(3)[OF assms(1)] by (auto simp: sb_wf_def in_set_conv_nth)

subsection \<open>Effects with a state per channel\<close>

text \<open>
  After some turns of the loop, in any order: of channel \<open>c\<close> the first \<open>p c\<close> samples are done, that is
  replaced by the output of the transducer, and the state of the channel is that of the transducer.
\<close>

definition cells_done ::
  "(nat \<Rightarrow> 'e \<Rightarrow> bool) \<Rightarrow> ('e \<Rightarrow> nat \<Rightarrow> 'm) \<Rightarrow> ('e \<Rightarrow> 'm \<Rightarrow> 's \<Rightarrow> 'm \<times> 's) \<Rightarrow> nat \<Rightarrow> 'e \<Rightarrow> 's list list \<Rightarrow>
     (nat \<Rightarrow> nat) \<Rightarrow> 'e \<times> 's list list \<Rightarrow> bool" where
  "cells_done good state step n e0 arr0 p s \<longleftrightarrow>
     good n (fst s) \<and> step (fst s) = step e0 \<and> length (snd s) = length arr0 \<and>
     (\<forall>c < length arr0. p c \<le> length (arr0 ! c) \<and>
        snd s ! c = snd (mealy (step e0) (state e0 c) (take (p c) (arr0 ! c))) @ drop (p c) (arr0 ! c)) \<and>
     (\<forall>c < n. state (fst s) c = fst (mealy (step e0) (state e0 c) (take (p c) (arr0 ! c))))"

locale channel_effect =
  fixes body :: "nat \<Rightarrow> 'e \<Rightarrow> 's::zero \<Rightarrow> ('e \<times> 's) result"
    and good :: "nat \<Rightarrow> 'e \<Rightarrow> bool"
    and state :: "'e \<Rightarrow> nat \<Rightarrow> 'm"
    and step :: "'e \<Rightarrow> 'm \<Rightarrow> 's \<Rightarrow> 'm \<times> 's"
  assumes body_step: "good n e \<Longrightarrow> c < n \<Longrightarrow>
      \<exists>e'. body c e x = Inr (e', snd (step e (state e c) x)) \<and> good n e' \<and> step e' = step e \<and>
        (\<forall>d < n. state e' d = (if d = c then fst (step e (state e c) x) else state e d))"
begin

lemma cells_done_start: "good n e \<Longrightarrow> cells_done good state step n e arr (\<lambda>_. 0) (e, arr)"
  by (simp add: cells_done_def)

lemma cells_done_progress:
  assumes d: "cells_done good state step n e0 arr0 p s" and c: "c < n" "c < length arr0" "p c < length (arr0 ! c)"
  shows "\<exists>s'. at_cell body c (p c) s = Inr s' \<and> cells_done good state step n e0 arr0 (p(c := Suc (p c))) s'"
proof -
  obtain e arr where s: "s = (e, arr)" by (cases s)
  define m where "m = fst (mealy (step e0) (state e0 c) (take (p c) (arr0 ! c)))"
  define x where "x = arr0 ! c ! p c"
  have i: "good n e" "step e = step e0" "length arr = length arr0" "state e c = m"
      "arr ! c = snd (mealy (step e0) (state e0 c) (take (p c) (arr0 ! c))) @ drop (p c) (arr0 ! c)"
    using d c by (simp_all add: cells_done_def s m_def)
  obtain e' where e': "body c e x = Inr (e', snd (step e0 m x))" "good n e'" "step e' = step e"
      "\<forall>d < n. state e' d = (if d = c then fst (step e0 m x) else state e d)"
    using body_step[OF i(1) c(1), of x] i(2,4) by auto
  have cell: "arr ! c ! p c = x" "p c < length (arr ! c)"
    using c(3) by (simp_all add: i(5) x_def nth_append min_def)
  let ?arr' = "arr[c := (arr ! c)[p c := snd (step e0 m x)]]"
  have "at_cell body c (p c) s = Inr (e', ?arr')"
    using c i(3) cell e'(1) by (simp add: at_cell_def s write_cell_def)
  moreover have "cells_done good state step n e0 arr0 (p(c := Suc (p c))) (e', ?arr')"
    unfolding cells_done_def
  proof (intro conjI allI impI)
    fix d' assume d': "d' < length arr0"
    show "(p(c := Suc (p c))) d' \<le> length (arr0 ! d')" using d d' c(3) by (auto simp: cells_done_def)
    show "snd (e', ?arr') ! d' = snd (mealy (step e0) (state e0 d') (take ((p(c := Suc (p c))) d') (arr0 ! d'))) @
        drop ((p(c := Suc (p c))) d') (arr0 ! d')"
    proof (cases "d' = c")
      case True
      have "drop (p c) (arr0 ! c) = x # drop (Suc (p c)) (arr0 ! c)" using c(3) by (simp add: Cons_nth_drop_Suc x_def)
      then show ?thesis using True c(2,3) i(3) i(5)
        by (simp add: mealy_take_Suc(2)[OF c(3)] list_update_append min_def flip: m_def x_def)
    next
      case False
      then show ?thesis using d d' by (simp add: cells_done_def s)
    qed
  next
    fix d' assume d': "d' < n"
    show "state (fst (e', ?arr')) d' = fst (mealy (step e0) (state e0 d') (take ((p(c := Suc (p c))) d') (arr0 ! d')))"
      using d d' e'(4) mealy_take_Suc(1)[OF c(3), of "step e0" "state e0 c"]
      by (auto simp: cells_done_def s simp flip: m_def x_def)
  qed (use i e' in simp_all)
  ultimately show ?thesis by blast
qed

lemma channel_done:
  assumes "cells_done good state step n e0 arr0 p s" "c < n" "c < length arr0" "p c + k \<le> length (arr0 ! c)"
  shows "\<exists>s'. fold_result (at_cell body c) [p c..<p c + k] s = Inr s' \<and>
    cells_done good state step n e0 arr0 (p(c := p c + k)) s'"
  using assms(4)
proof (induction k)
  case (Suc k)
  obtain s1 where 1: "fold_result (at_cell body c) [p c..<p c + k] s = Inr s1"
      "cells_done good state step n e0 arr0 (p(c := p c + k)) s1"
    using Suc.IH Suc.prems add_Suc_right Suc_leD by metis
  obtain s2 where "at_cell body c (p c + k) s1 = Inr s2"
      "cells_done good state step n e0 arr0 (p(c := Suc (p c + k))) s2"
    using cells_done_progress[OF 1(2) assms(2,3)] Suc.prems by auto
  then show ?case using 1(1) by (simp add: fold_result_append fun_upd_def)
qed (use assms in simp)

lemma channels_done:
  assumes "good n e" "m \<le> n" "m \<le> length arr" "\<And>c. c < m \<Longrightarrow> k \<le> length (arr ! c)"
  shows "\<exists>s'. fold_result (\<lambda>c. fold_result (at_cell body c) [0..<k]) [0..<m] (e, arr) = Inr s' \<and>
    cells_done good state step n e arr (\<lambda>c. if c < m then k else 0) s'"
  using assms(2-)
proof (induction m)
  case 0
  then show ?case using cells_done_start[OF assms(1)] by simp
next
  case (Suc m)
  obtain s1 where 1: "fold_result (\<lambda>c. fold_result (at_cell body c) [0..<k]) [0..<m] (e, arr) = Inr s1"
      "cells_done good state step n e arr (\<lambda>c. if c < m then k else 0) s1"
    using Suc.IH Suc.prems by (auto simp: less_SucI)
  obtain s2 where 2: "fold_result (at_cell body m) [0..<k] s1 = Inr s2"
      "cells_done good state step n e arr ((\<lambda>c. if c < m then k else 0)(m := k)) s2"
    using channel_done[OF 1(2), of m k] Suc.prems by auto
  moreover have "(\<lambda>c. if c < m then k else 0)(m := k) = (\<lambda>c. if c < Suc m then k else 0)"
    by (auto simp: less_Suc_eq)
  ultimately show ?case using 1(1) by (simp add: fold_result_append)
qed

lemma frame_done:
  assumes "cells_done good state step n e0 arr0 p s" "m \<le> n" "m \<le> length arr0"
    and "\<And>c. c < m \<Longrightarrow> p c = t \<and> t < length (arr0 ! c)"
  shows "\<exists>s'. fold_result (\<lambda>c. at_cell body c t) [0..<m] s = Inr s' \<and>
    cells_done good state step n e0 arr0 (\<lambda>c. if c < m then Suc t else p c) s'"
  using assms(2-)
proof (induction m)
  case (Suc m)
  have "\<exists>s'. fold_result (\<lambda>c. at_cell body c t) [0..<m] s = Inr s' \<and>
      cells_done good state step n e0 arr0 (\<lambda>c. if c < m then Suc t else p c) s'"
    by (rule Suc.IH) (use Suc.prems in \<open>auto simp: less_SucI\<close>)
  then obtain s1 where 1: "fold_result (\<lambda>c. at_cell body c t) [0..<m] s = Inr s1"
      "cells_done good state step n e0 arr0 (\<lambda>c. if c < m then Suc t else p c) s1"
    by blast
  have pm: "p m = t" "t < length (arr0 ! m)" using Suc.prems(3)[of m] by simp_all
  obtain s2 where 2: "at_cell body m t s1 = Inr s2"
      "cells_done good state step n e0 arr0 ((\<lambda>c. if c < m then Suc t else p c)(m := Suc t)) s2"
    using cells_done_progress[OF 1(2), of m] Suc.prems(1,2) pm by auto
  moreover have "(\<lambda>c. if c < m then Suc t else p c)(m := Suc t) = (\<lambda>c. if c < Suc m then Suc t else p c)"
    by (auto simp: less_Suc_eq)
  ultimately show ?case using 1(1) by (simp add: fold_result_append)
qed (use assms in simp)

lemma frames_done:
  assumes "good n e" "m \<le> n" "m \<le> length arr" "\<And>c. c < m \<Longrightarrow> k \<le> length (arr ! c)"
  shows "\<exists>s'. fold_result (\<lambda>t. fold_result (\<lambda>c. at_cell body c t) [0..<m]) [0..<k] (e, arr) = Inr s' \<and>
    cells_done good state step n e arr (\<lambda>c. if c < m then k else 0) s'"
  using assms(4)
proof (induction k)
  case 0
  then show ?case using cells_done_start[OF assms(1)] by simp
next
  case (Suc k)
  have "\<And>c. c < m \<Longrightarrow> k \<le> length (arr ! c)" using Suc.prems by (meson Suc_leD)
  then obtain s1 where 1: "fold_result (\<lambda>t. fold_result (\<lambda>c. at_cell body c t) [0..<m]) [0..<k] (e, arr) = Inr s1"
      "cells_done good state step n e arr (\<lambda>c. if c < m then k else 0) s1"
    using Suc.IH by auto
  have "\<exists>s'. fold_result (\<lambda>c. at_cell body c k) [0..<m] s1 = Inr s' \<and>
      cells_done good state step n e arr (\<lambda>c. if c < m then Suc k else if c < m then k else 0) s'"
    by (rule frame_done[OF 1(2) assms(2,3)]) (use Suc.prems in \<open>auto simp: Suc_le_lessD\<close>)
  moreover have "(\<lambda>c. if c < m then Suc k else if c < m then k else 0) = (\<lambda>c. if c < m then Suc k else (0 :: nat))"
    by auto
  ultimately show ?case using 1(1) by (auto simp: fold_result_append)
qed


text \<open>All samples of the first channels done: both loops give the same buffer and the same effect.\<close>

lemma cells_done_audio:
  assumes wf: "sb_wf slot" and n: "sb_channel_count slot \<le> n"
    and d: "cells_done good state step n e (sb_arrays slot)
      (\<lambda>c. if c < sb_channel_count slot then sb_buffersize slot else 0) (e', arr)"
  shows "sb_wf (slot\<lparr>sb_arrays := arr\<rparr>) \<and> good n e' \<and> step e' = step e \<and> length arr = length (sb_arrays slot) \<and>
    (\<forall>c < sb_channel_count slot.
       snd (sb_audio (slot\<lparr>sb_arrays := arr\<rparr>)) ! c = snd (mealy (step e) (state e c) (snd (sb_audio slot) ! c)) \<and>
       state e' c = fst (mealy (step e) (state e c) (snd (sb_audio slot) ! c)))"
proof -
  note w = sb_wfD[OF wf]
  have len: "length arr = length (sb_arrays slot)" using d by (simp add: cells_done_def)
  have "map length arr = map length (sb_arrays slot)"
  proof (rule nth_equalityI)
    fix q assume "q < length (map length arr)"
    then have "q < length (sb_arrays slot)" using len by simp
    then show "map length arr ! q = map length (sb_arrays slot) ! q"
      using d w(3)[of q] w(2) len by (auto simp: cells_done_def)
  qed (use len in simp)
  then have wf': "sb_wf (slot\<lparr>sb_arrays := arr\<rparr>)" by (rule wf_new_arrays[OF wf])
  have "snd (sb_audio (slot\<lparr>sb_arrays := arr\<rparr>)) ! c = snd (mealy (step e) (state e c) (snd (sb_audio slot) ! c)) \<and>
      state e' c = fst (mealy (step e) (state e c) (snd (sb_audio slot) ! c))"
    if c: "c < sb_channel_count slot" for c
  proof -
    have "c < length (sb_arrays slot)" using c w(1) by simp
    then have "arr ! c = snd (mealy (step e) (state e c) (take (sb_buffersize slot) (sb_arrays slot ! c))) @
        drop (sb_buffersize slot) (sb_arrays slot ! c)"
        "state e' c = fst (mealy (step e) (state e c) (take (sb_buffersize slot) (sb_arrays slot ! c)))"
      using d c n by (auto simp: cells_done_def)
    then show ?thesis using sb_audio_channel[OF wf c] sb_audio_channel[OF wf', of c] c
        length_audio_channel[OF wf c] by simp
  qed
  then show ?thesis using wf' d len by (simp add: cells_done_def)
qed

lemma each_sample_ok:
  assumes "sb_wf slot" "good n e" "sb_channel_count slot \<le> n"
  shows "\<exists>e' slot'. each_sample body e slot = Inr (e', slot') \<and> sb_wf slot' \<and> good n e' \<and> step e' = step e \<and>
    sb_buffersize slot' = sb_buffersize slot \<and> sb_channel_count slot' = sb_channel_count slot \<and>
    length (sb_arrays slot') = length (sb_arrays slot) \<and>
    (\<forall>c < sb_channel_count slot.
       snd (sb_audio slot') ! c = snd (mealy (step e) (state e c) (snd (sb_audio slot) ! c)) \<and>
       state e' c = fst (mealy (step e) (state e c) (snd (sb_audio slot) ! c)))"
proof -
  note w = sb_wfD[OF assms(1)]
  obtain e' arr where
      "fold_result (\<lambda>c. fold_result (at_cell body c) [0..<sb_buffersize slot]) [0..<sb_channel_count slot] (e, sb_arrays slot) = Inr (e', arr)"
      "cells_done good state step n e (sb_arrays slot) (\<lambda>c. if c < sb_channel_count slot then sb_buffersize slot else 0) (e', arr)"
    using channels_done[OF assms(2,3), of "sb_arrays slot" "sb_buffersize slot"] w by (auto)
  then show ?thesis using cells_done_audio[OF assms(1,3)] by (simp add: each_sample_def with_arrays_def)
qed

lemma each_frame_ok:
  assumes "sb_wf slot" "good n e" "sb_channel_count slot \<le> n"
  shows "\<exists>e' slot'. each_frame (sb_channel_count slot) body e slot = Inr (e', slot') \<and> sb_wf slot' \<and> good n e' \<and> step e' = step e \<and>
    sb_buffersize slot' = sb_buffersize slot \<and> sb_channel_count slot' = sb_channel_count slot \<and>
    length (sb_arrays slot') = length (sb_arrays slot) \<and>
    (\<forall>c < sb_channel_count slot.
       snd (sb_audio slot') ! c = snd (mealy (step e) (state e c) (snd (sb_audio slot) ! c)) \<and>
       state e' c = fst (mealy (step e) (state e c) (snd (sb_audio slot) ! c)))"
proof -
  note w = sb_wfD[OF assms(1)]
  obtain e' arr where
      "fold_result (\<lambda>t. fold_result (\<lambda>c. at_cell body c t) [0..<sb_channel_count slot]) [0..<sb_buffersize slot] (e, sb_arrays slot) = Inr (e', arr)"
      "cells_done good state step n e (sb_arrays slot) (\<lambda>c. if c < sb_channel_count slot then sb_buffersize slot else 0) (e', arr)"
    using frames_done[OF assms(2,3), of "sb_arrays slot" "sb_buffersize slot"] w by auto
  then show ?thesis using cells_done_audio[OF assms(1,3)] by (simp add: each_frame_def with_arrays_def)
qed

text \<open>A stream in any blocks: the loop that \<open>process\<close> runs may be either of the two.\<close>

lemma stream_ok:
  assumes process: "\<And>e b. good n e \<Longrightarrow> sb_channel_count b = n \<Longrightarrow>
      process e b = each_sample body e b \<or> process e b = each_frame (sb_channel_count b) body e b"
    and "blocks_ok n bufs" "good n e"
  shows "\<exists>e' bufs'. process_blocks process e bufs = Inr (e', bufs') \<and> blocks_ok n bufs' \<and>
    map sb_buffersize bufs' = map sb_buffersize bufs \<and> good n e' \<and> step e' = step e \<and>
    (\<forall>c < n. signal c bufs' = snd (mealy (step e) (state e c) (signal c bufs)) \<and>
       state e' c = fst (mealy (step e) (state e c) (signal c bufs)))"
  using assms(2,3)
proof (induction bufs arbitrary: e)
  case (Cons b bufs)
  have b: "sb_wf b" "sb_channel_count b = n" using Cons.prems(1) by simp_all
  obtain e1 b' where 1: "process e b = Inr (e1, b')" "sb_wf b'" "good n e1" "step e1 = step e"
      "sb_buffersize b' = sb_buffersize b" "sb_channel_count b' = n"
      "\<forall>c < n. snd (sb_audio b') ! c = snd (mealy (step e) (state e c) (snd (sb_audio b) ! c)) \<and>
         state e1 c = fst (mealy (step e) (state e c) (snd (sb_audio b) ! c))"
    using process[OF Cons.prems(2) b(2)] each_sample_ok[OF b(1) Cons.prems(2)] each_frame_ok[OF b(1) Cons.prems(2)] b(2) by auto
  obtain e2 bufs' where 2: "process_blocks process e1 bufs = Inr (e2, bufs')" "blocks_ok n bufs'"
      "map sb_buffersize bufs' = map sb_buffersize bufs" "good n e2" "step e2 = step e1"
      "\<forall>c < n. signal c bufs' = snd (mealy (step e1) (state e1 c) (signal c bufs)) \<and>
         state e2 c = fst (mealy (step e1) (state e1 c) (signal c bufs))"
    using Cons.IH[OF _ 1(3)] Cons.prems(1) by auto
  show ?case
    by (rule exI[of _ e2], rule exI[of _ "b' # bufs'"]) (use 1 2 in \<open>simp add: mealy_append_simps\<close>)
qed simp

end

subsection \<open>Effects on a pair of channels\<close>

locale pair_effect =
  fixes body :: "'e \<Rightarrow> 's::zero \<Rightarrow> 's \<Rightarrow> ('e \<times> 's \<times> 's) result"
    and good :: "'e \<Rightarrow> bool"
    and step :: "'e \<Rightarrow> 's \<times> 's \<Rightarrow> 'e \<times> 's \<times> 's"
  assumes body_ok: "good e \<Longrightarrow> body e l r = Inr (step e (l, r)) \<and> good (fst (step e (l, r)))"
begin

lemma pairs_done:
  assumes "good e" "2 \<le> length arr" "k \<le> length (arr ! 0)" "k \<le> length (arr ! 1)"
  shows "fold_result (at_pair body) [0..<k] (e, arr) =
    Inr (fst (mealy step e (take k (zip (arr ! 0) (arr ! 1)))),
         arr[0 := map fst (snd (mealy step e (take k (zip (arr ! 0) (arr ! 1))))) @ drop k (arr ! 0),
             1 := map snd (snd (mealy step e (take k (zip (arr ! 0) (arr ! 1))))) @ drop k (arr ! 1)])"
  using assms(3,4)
proof (induction k)
  case (Suc k)
  let ?z = "zip (arr ! 0) (arr ! 1)"
  have ne: "arr \<noteq> []" using assms(2) by auto
  have k: "k < length ?z" "?z ! k = (arr ! 0 ! k, arr ! 1 ! k)" using Suc.prems by simp_all
  define e1 where "e1 = fst (mealy step e (take k ?z))"
  define ys where "ys = snd (mealy step e (take k ?z))"
  have ly: "length ys = k" using k by (simp add: ys_def)
  have g: "good e1" unfolding e1_def by (rule mealy_invariant) (use assms(1) body_ok in auto)
  obtain e2 l' r' where st: "step e1 (arr ! 0 ! k, arr ! 1 ! k) = (e2, l', r')" by (metis surj_pair)
  have d: "drop k (arr ! 0) = arr ! 0 ! k # drop (Suc k) (arr ! 0)" "drop k (arr ! 1) = arr ! 1 ! k # drop (Suc k) (arr ! 1)"
    using Suc.prems by (simp_all add: Cons_nth_drop_Suc)
  define arr1 where "arr1 = arr[0 := map fst ys @ drop k (arr ! 0), 1 := map snd ys @ drop k (arr ! 1)]"
  have a1: "length arr1 = length arr" "arr1 \<noteq> []" "arr1 ! 0 = map fst ys @ drop k (arr ! 0)" "arr1 ! 1 = map snd ys @ drop k (arr ! 1)"
    using assms(2) ne by (simp_all add: arr1_def)
  have rd: "read_cell arr1 0 k = Inr (arr ! 0 ! k)" "read_cell arr1 1 k = Inr (arr ! 1 ! k)"
    using a1 ly Suc.prems assms(2) ne by (simp_all add: read_cell_def nth_append)
  have "at_pair body k (e1, arr1) = Inr (e2, arr1[0 := (arr1 ! 0)[k := l'], 1 := (arr1 ! 1)[k := r']])"
    using rd body_ok[OF g, of "arr ! 0 ! k" "arr ! 1 ! k"] st a1 ly Suc.prems assms(2) ne
    by (simp add: at_pair_def write_cell_def)
  also have "arr1[0 := (arr1 ! 0)[k := l'], 1 := (arr1 ! 1)[k := r']] =
      arr[0 := map fst (ys @ [(l', r')]) @ drop (Suc k) (arr ! 0), 1 := map snd (ys @ [(l', r')]) @ drop (Suc k) (arr ! 1)]"
    using assms(2) ly ne by (simp add: a1(3,4) d list_update_append list_update_swap) (simp add: arr1_def list_update_swap d(2)[unfolded One_nat_def] list_update_append)
  finally have "at_pair body k (e1, arr1) = Inr (e2, arr[0 := map fst (ys @ [(l', r')]) @ drop (Suc k) (arr ! 0),
      1 := map snd (ys @ [(l', r')]) @ drop (Suc k) (arr ! 1)])" .
  moreover have "fold_result (at_pair body) [0..<k] (e, arr) = Inr (e1, arr1)"
    using Suc.IH Suc.prems by (simp add: e1_def arr1_def ys_def)
  moreover have "fst (mealy step e (take (Suc k) ?z)) = e2" "snd (mealy step e (take (Suc k) ?z)) = ys @ [(l', r')]"
    using mealy_take_Suc[OF k(1), of step e, folded e1_def ys_def] unfolding k(2) st by simp_all
  ultimately show ?case by (simp add: fold_result_append)
qed (use assms in simp)

lemma each_pair_ok:
  assumes wf: "sb_wf slot" and good: "good e" and two: "2 \<le> sb_channel_count slot"
  shows "\<exists>slot'. each_pair body e slot =
      Inr (fst (mealy step e (zip (snd (sb_audio slot) ! 0) (snd (sb_audio slot) ! 1))), slot') \<and> sb_wf slot' \<and>
    good (fst (mealy step e (zip (snd (sb_audio slot) ! 0) (snd (sb_audio slot) ! 1)))) \<and>
    sb_buffersize slot' = sb_buffersize slot \<and> sb_channel_count slot' = sb_channel_count slot \<and>
    length (sb_arrays slot') = length (sb_arrays slot) \<and>
    zip (snd (sb_audio slot') ! 0) (snd (sb_audio slot') ! 1) =
      snd (mealy step e (zip (snd (sb_audio slot) ! 0) (snd (sb_audio slot) ! 1))) \<and>
    (\<forall>c. 2 \<le> c \<longrightarrow> c < sb_channel_count slot \<longrightarrow> snd (sb_audio slot') ! c = snd (sb_audio slot) ! c)"
proof -
  note w = sb_wfD[OF wf]
  let ?k = "sb_buffersize slot" and ?arr = "sb_arrays slot"
  have len: "2 \<le> length ?arr" "length (?arr ! 0) = sb_reserved slot" "length (?arr ! 1) = sb_reserved slot"
    using two w(1) w(3)[of "0 :: nat"] w(3)[of "1 :: nat"] by fastforce+
  have ne: "?arr \<noteq> []" using len(1) by auto
  have z: "zip (snd (sb_audio slot) ! 0) (snd (sb_audio slot) ! 1) = take ?k (zip (?arr ! 0) (?arr ! 1))"
    using sb_audio_channel[OF wf, of 0] sb_audio_channel[OF wf, of 1] two by (simp add: take_zip)
  define ys where "ys = snd (mealy step e (take ?k (zip (?arr ! 0) (?arr ! 1))))"
  have ly: "length ys = ?k" using len w(2) by (simp add: ys_def)
  define arr1 where "arr1 = ?arr[0 := map fst ys @ drop ?k (?arr ! 0), 1 := map snd ys @ drop ?k (?arr ! 1)]"
  have "fold_result (at_pair body) [0..<?k] (e, ?arr) = Inr (fst (mealy step e (take ?k (zip (?arr ! 0) (?arr ! 1)))), arr1)"
    using pairs_done[OF good len(1), of ?k] len w(2) by (simp add: arr1_def ys_def)
  then have 1: "each_pair body e slot = Inr (fst (mealy step e (take ?k (zip (?arr ! 0) (?arr ! 1)))), slot\<lparr>sb_arrays := arr1\<rparr>)"
    using two by (simp add: each_pair_def with_arrays_def)
  have shape: "map length arr1 = map length ?arr"
    using len ly w(2) ne by (intro nth_equalityI) (auto simp: arr1_def nth_list_update)
  note wf' = wf_new_arrays[OF wf shape]
  have a: "snd (sb_audio (slot\<lparr>sb_arrays := arr1\<rparr>)) ! c = take ?k (arr1 ! c)" if "c < sb_channel_count slot" for c
    using sb_audio_channel[OF wf'(1)] that by simp
  have "arr1 ! 0 = map fst ys @ drop ?k (?arr ! 0)" "arr1 ! 1 = map snd ys @ drop ?k (?arr ! 1)"
      "\<And>c. 2 \<le> c \<Longrightarrow> arr1 ! c = ?arr ! c"
    using len(1) ne by (simp_all add: arr1_def)
  then have "zip (snd (sb_audio (slot\<lparr>sb_arrays := arr1\<rparr>)) ! 0) (snd (sb_audio (slot\<lparr>sb_arrays := arr1\<rparr>)) ! 1) = ys"
      "\<forall>c. 2 \<le> c \<longrightarrow> c < sb_channel_count slot \<longrightarrow> snd (sb_audio (slot\<lparr>sb_arrays := arr1\<rparr>)) ! c = snd (sb_audio slot) ! c"
    using a[of 0] a[of 1] a two ly sb_audio_channel[OF wf] by (simp_all add: zip_map_fst_snd)
  moreover have "good (fst (mealy step e (take ?k (zip (?arr ! 0) (?arr ! 1)))))"
    by (rule mealy_invariant) (use good body_ok in auto)
  ultimately show ?thesis unfolding z using 1 wf' by (simp add: ys_def)
qed

text \<open>The two channels of a stream.\<close>

lemma stream_ok:
  assumes process: "\<And>e b. process e b = each_pair body e b"
    and "blocks_ok n bufs" "2 \<le> n" "good e"
  shows "\<exists>e' bufs'. process_blocks process e bufs = Inr (e', bufs') \<and> blocks_ok n bufs' \<and>
    map sb_buffersize bufs' = map sb_buffersize bufs \<and> good e' \<and>
    mealy step e (zip (signal 0 bufs) (signal 1 bufs)) = (e', zip (signal 0 bufs') (signal 1 bufs')) \<and>
    (\<forall>c. 2 \<le> c \<longrightarrow> c < n \<longrightarrow> signal c bufs' = signal c bufs)"
  using assms(2,4)
proof (induction bufs arbitrary: e)
  case (Cons b bufs)
  have b: "sb_wf b" "sb_channel_count b = n" "2 \<le> sb_channel_count b" using Cons.prems(1) assms(3) by simp_all
  let ?z = "zip (snd (sb_audio b) ! 0) (snd (sb_audio b) ! 1)"
  obtain b' where 1: "process e b = Inr (fst (mealy step e ?z), b')" "sb_wf b'" "good (fst (mealy step e ?z))"
      "sb_buffersize b' = sb_buffersize b" "sb_channel_count b' = n"
      "zip (snd (sb_audio b') ! 0) (snd (sb_audio b') ! 1) = snd (mealy step e ?z)"
      "\<forall>c. 2 \<le> c \<longrightarrow> c < n \<longrightarrow> snd (sb_audio b') ! c = snd (sb_audio b) ! c"
    using each_pair_ok[OF b(1) Cons.prems(2) b(3)] b(2) process by auto
  obtain e2 bufs' where 2: "process_blocks process (fst (mealy step e ?z)) bufs = Inr (e2, bufs')" "blocks_ok n bufs'"
      "map sb_buffersize bufs' = map sb_buffersize bufs" "good e2"
      "mealy step (fst (mealy step e ?z)) (zip (signal 0 bufs) (signal 1 bufs)) = (e2, zip (signal 0 bufs') (signal 1 bufs'))"
      "\<forall>c. 2 \<le> c \<longrightarrow> c < n \<longrightarrow> signal c bufs' = signal c bufs"
    using Cons.IH[OF _ 1(3)] Cons.prems(1) by auto
  have l: "length (snd (sb_audio b) ! 0) = length (snd (sb_audio b) ! 1)"
      "length (snd (sb_audio b') ! 0) = length (snd (sb_audio b') ! 1)"
    using length_audio_channel[OF b(1)] length_audio_channel[OF 1(2)] b(3) 1(5) assms(3) by simp_all
  then have "mealy step e (zip (signal 0 (b # bufs)) (signal 1 (b # bufs))) =
      (e2, zip (signal 0 (b' # bufs')) (signal 1 (b' # bufs')))"
    using 2(5) 1(6) by (simp add: mealy_append case_prod_beta Let_def zip_append)
  then show ?case
    by (intro exI[of _ e2] exI[of _ "b' # bufs'"]) (use 1 2 in simp)
qed simp

end

end
