(* ===== verification/Effect_Base.thy ===== *)
theory Effect_Base
  imports Signal_Loops "HOL-Library.Signed_Division"
begin

text \<open>
  What the effects with a memory share: the base class of effects (\<open>audiofx.cpp\<close>: the number of
  channels, the sample rate, and the change of the sample rate that keeps the parameters), the
  vectors and queues of the standard library that hold their memory, the conversion of a parameter
  to an integer, and \<open>ecaops_flush_to_zero\<close> (\<open>sample-ops_impl.h\<close>), which is taken without the
  rounding to single precision that its argument type causes.
\<close>

subsection \<open>Numbers\<close>

text \<open>\<open>static_cast<long int>\<close>.\<close>

definition truncated :: "'s::floor_ceiling \<Rightarrow> int" where
  "truncated v = (if v < 0 then \<lceil>v\<rceil> else \<lfloor>v\<rfloor>)"

lemma truncated_simps [simp]: "truncated (of_int n) = n" "truncated (of_nat k) = int k" "truncated 0 = 0" "truncated 1 = 1"
  "truncated (numeral w) = numeral w"
  by (simp_all add: truncated_def)

lemma truncated_nonneg: "0 \<le> v \<Longrightarrow> 0 \<le> truncated v"
  by (simp add: truncated_def)

lemma truncated_le: "0 \<le> v \<Longrightarrow> of_int (truncated v) \<le> v"
  by (simp add: truncated_def of_int_floor_le)

lemma truncated_less: "0 \<le> v \<Longrightarrow> v < of_int n \<Longrightarrow> truncated v < n"
  by (simp add: truncated_def floor_less_iff)

text \<open>
  The exponent bits \<open>v.i & 0x7f800000\<close> are below \<open>0x08000000\<close> when the biased exponent is below 16,
  that is for the numbers below \<open>2 ^ (16 - 127)\<close> in size.
\<close>

definition flush_to_zero :: "'s::linordered_field \<Rightarrow> 's" where
  "flush_to_zero f = (if \<bar>f\<bar> < 1 / 2 ^ 111 then 0 else f)"

lemma flush_to_zero_0 [simp]: "flush_to_zero 0 = 0"
  by (simp add: flush_to_zero_def)

lemma flush_to_zero_cases: "flush_to_zero f = 0 \<or> flush_to_zero f = f"
  by (simp add: flush_to_zero_def)

lemma abs_flush_to_zero_le: "\<bar>flush_to_zero f\<bar> \<le> \<bar>f\<bar>"
  by (simp add: flush_to_zero_def)

lemma flush_to_zero_error: "\<bar>flush_to_zero f - f\<bar> < 1 / 2 ^ 111"
  by (simp add: flush_to_zero_def)

lemma flush_to_zero_idem [simp]: "flush_to_zero (flush_to_zero f) = flush_to_zero f"
  by (simp add: flush_to_zero_def)

lemma fold_result_sum:
  assumes "\<And>k s. k < n \<Longrightarrow> f k s = Inr (s + g k)"
  shows "fold_result f [0..<n] s = Inr (s + (\<Sum>k<n. g k :: 's::comm_monoid_add))"
  using assms by (induction n) (simp_all add: fold_result_append add.assoc)

subsection \<open>Vectors and queues\<close>

definition resize :: "nat \<Rightarrow> 'a \<Rightarrow> 'a list \<Rightarrow> 'a list" where
  "resize n x xs = take n xs @ replicate (n - length xs) x"

lemma length_resize [simp]: "length (resize n x xs) = n"
  by (simp add: resize_def)

lemma resize_same [simp]: "length xs = n \<Longrightarrow> resize n x xs = xs"
  by (simp add: resize_def)

lemma resize_Nil [simp]: "resize n x [] = replicate n x"
  by (simp add: resize_def)

text \<open>\<open>p->resize(n)\<close> of a queue that has become too long for a delay of \<open>d\<close> samples.\<close>

definition shorten_queue :: "int \<Rightarrow> 'a list \<Rightarrow> 'a list" where
  "shorten_queue d q = (if 0 \<le> d \<and> int (length q) > d then take (nat d) q else q)"

definition vector_at :: "'a list \<Rightarrow> nat \<Rightarrow> 'a result" where
  "vector_at xs i = (if i < length xs then Inr (xs ! i) else Inl Undefined_behaviour)"

lemma vector_at_ok [simp]: "i < length xs \<Longrightarrow> vector_at xs i = Inr (xs ! i)"
  by (simp add: vector_at_def)

text \<open>An element of a vector of vectors whose inner index is a signed number.\<close>

definition read_signed :: "'a list list \<Rightarrow> nat \<Rightarrow> int \<Rightarrow> 'a result" where
  "read_signed bufs c i = (if 0 \<le> i then read_cell bufs c (nat i) else Inl Undefined_behaviour)"

definition write_signed :: "nat \<Rightarrow> int \<Rightarrow> 'a \<Rightarrow> 'a list list \<Rightarrow> 'a list list result" where
  "write_signed c i v bufs = (if 0 \<le> i then write_cell c (nat i) v bufs else Inl Undefined_behaviour)"

lemma read_signed_ok:
  "c < length bufs \<Longrightarrow> 0 \<le> i \<Longrightarrow> i < int (length (bufs ! c)) \<Longrightarrow> read_signed bufs c i = Inr (bufs ! c ! nat i)"
  by (simp add: read_signed_def)

lemma write_signed_ok:
  "c < length bufs \<Longrightarrow> 0 \<le> i \<Longrightarrow> i < int (length (bufs ! c)) \<Longrightarrow>
   write_signed c i v bufs = Inr (bufs[c := (bufs ! c)[nat i := v]])"
  by (simp add: write_signed_def write_cell_def nat_less_iff)

subsection \<open>The base class\<close>

record fx_base =
  fb_srate :: int
  fb_channels :: nat

definition effect_base_init :: "'s sample_buffer \<Rightarrow> 'x fx_base_scheme \<Rightarrow> 'x fx_base_scheme" where
  "effect_base_init slot e = e\<lparr>fb_channels := sb_channel_count slot\<rparr>"

text \<open>
  Changing the sample rate sets all parameters again to what they were. The class is given by its
  parameters.
\<close>

definition effect_base_set_srate ::
  "int \<Rightarrow> (int \<Rightarrow> 'x fx_base_scheme \<Rightarrow> 's) \<Rightarrow> (int \<Rightarrow> 's \<Rightarrow> 'x fx_base_scheme \<Rightarrow> 'x fx_base_scheme) \<Rightarrow>
     int \<Rightarrow> 'x fx_base_scheme \<Rightarrow> 'x fx_base_scheme" where
  "effect_base_set_srate params getp setp new_rate e =
     (if fb_srate e \<noteq> new_rate
      then fold (\<lambda>n. setp n (getp n e)) [1..params] (e\<lparr>fb_srate := new_rate\<rparr>)
      else e)"

subsection \<open>Effects that remember what they have been given\<close>

text \<open>
  Most effects here only depend on what has been put in: \<open>st H\<close> is the state after the samples \<open>H\<close>.
\<close>

lemma mealy_history:
  assumes "\<And>H x. step (st H) x = (st (H @ [x]), out H x)"
  shows "mealy step (st H) xs = (st (H @ xs), map (\<lambda>k. out (H @ take k xs) (xs ! k)) [0..<length xs])"
proof (induction xs arbitrary: H)
  case (Cons x xs)
  have "map (\<lambda>k. out (H @ take k (x # xs)) ((x # xs) ! k)) [0..<length (x # xs)] =
      out H x # map (\<lambda>k. out (H @ x # take k xs) (xs ! k)) [0..<length xs]"
    by (rule nth_equalityI) (auto simp: nth_Cons' take_Cons' simp del: upt_Suc)
  then show ?case using Cons.IH[of "H @ [x]"] assms[of H x] by (simp del: upt_Suc)
qed simp

lemma mealy_relation:
  assumes "\<And>H m x. R H m \<Longrightarrow> R (H @ [x]) (fst (step m x)) \<and> snd (step m x) = out H x" "R H m"
  shows "R (H @ xs) (fst (mealy step m xs)) \<and>
    snd (mealy step m xs) = map (\<lambda>k. out (H @ take k xs) (xs ! k)) [0..<length xs]"
  using assms(2)
proof (induction xs arbitrary: H m)
  case (Cons x xs)
  have "map (\<lambda>k. out (H @ take k (x # xs)) ((x # xs) ! k)) [0..<length (x # xs)] =
      out H x # map (\<lambda>k. out (H @ x # take k xs) (xs ! k)) [0..<length xs]"
    by (rule nth_equalityI) (auto simp: nth_Cons' take_Cons' simp del: upt_Suc)
  then show ?case using Cons.IH[of "H @ [x]" "fst (step m x)"] assms(1)[OF Cons.prems, of x]
    by (simp add: case_prod_beta Let_def del: upt_Suc)
qed simp

text \<open>Others depend on what they have put out: \<open>st Y\<close> is the state after the output \<open>Y\<close>.\<close>

lemma mealy_feedback:
  assumes "\<And>Y x. step (st Y) x = (st (Y @ [out Y x]), out Y x)"
  shows "fst (mealy step (st Y) xs) = st (Y @ snd (mealy step (st Y) xs)) \<and>
    (\<forall>k < length xs. snd (mealy step (st Y) xs) ! k = out (Y @ take k (snd (mealy step (st Y) xs))) (xs ! k))"
proof (induction xs arbitrary: Y)
  case (Cons x xs)
  from Cons.IH[of "Y @ [out Y x]"] show ?case
    by (auto simp: assms[of Y x] case_prod_beta Let_def nth_Cons' take_Cons')
qed simp

text \<open>A transducer that logs what it writes.\<close>

lemma mealy_log:
  assumes "\<And>W m x. R W m \<Longrightarrow> R (W @ [kept x (out W x)]) (fst (step m x)) \<and> snd (step m x) = out W x" "R W m"
  shows "R (W @ map2 kept xs (snd (mealy step m xs))) (fst (mealy step m xs)) \<and>
    (\<forall>k < length xs. snd (mealy step m xs) ! k = out (W @ map2 kept (take k xs) (take k (snd (mealy step m xs)))) (xs ! k))"
  using assms(2)
proof (induction xs arbitrary: W m)
  case (Cons x xs)
  from assms(1)[OF Cons.prems, of x] have 1: "R (W @ [kept x (out W x)]) (fst (step m x))" "snd (step m x) = out W x" by simp_all
  from Cons.IH[OF 1(1)] show ?case
    by (auto simp: 1(2) case_prod_beta Let_def nth_Cons' take_Cons')
qed simp

definition recent :: "nat \<Rightarrow> 'a list \<Rightarrow> 'a list" where
  "recent n H = drop (length H - n) H"

lemma recent_Nil [simp]: "recent n [] = []"
  by (simp add: recent_def)

lemma length_recent [simp]: "length (recent n H) = min n (length H)"
  by (simp add: recent_def)

lemma recent_snoc:
  "0 < n \<Longrightarrow> recent n (H @ [x]) = (if n \<le> length H then tl (recent n H) else recent n H) @ [x]"
  by (simp add: recent_def Suc_diff_le drop_Suc tl_drop)

lemma hd_recent:
  "0 < n \<Longrightarrow> n \<le> length H \<Longrightarrow> recent n H \<noteq> [] \<and> hd (recent n H) = H ! (length H - n)"
  by (simp add: recent_def hd_drop_conv_nth)

lemma length_signal:
  "blocks_ok n bufs \<Longrightarrow> c < n \<Longrightarrow> length (signal c bufs) = sum_list (map sb_buffersize bufs)"
  by (induction bufs) (auto simp: length_audio_channel)

context pair_effect begin

lemma history_stream:
  assumes process: "\<And>e b. process e b = each_pair body e b" and bufs: "blocks_ok n bufs" "2 \<le> n"
    and st: "good (st [])" "\<And>H l r. step (st H) (l, r) = (st (H @ [(l, r)]), out H (l, r))"
  shows "\<exists>bufs'. process_blocks process (st []) bufs = Inr (st (zip (signal 0 bufs) (signal 1 bufs)), bufs') \<and>
    blocks_ok n bufs' \<and> map sb_buffersize bufs' = map sb_buffersize bufs \<and>
    (\<forall>t < length (signal 0 bufs). (signal 0 bufs' ! t, signal 1 bufs' ! t) =
       out (take t (zip (signal 0 bufs) (signal 1 bufs))) (signal 0 bufs ! t, signal 1 bufs ! t)) \<and>
    (\<forall>c. 2 \<le> c \<longrightarrow> c < n \<longrightarrow> signal c bufs' = signal c bufs)"
proof -
  let ?z = "zip (signal 0 bufs) (signal 1 bufs)"
  obtain e' bufs' where 1: "process_blocks process (st []) bufs = Inr (e', bufs')" "blocks_ok n bufs'"
      "map sb_buffersize bufs' = map sb_buffersize bufs"
      "mealy step (st []) ?z = (e', zip (signal 0 bufs') (signal 1 bufs'))"
      "\<forall>c. 2 \<le> c \<longrightarrow> c < n \<longrightarrow> signal c bufs' = signal c bufs"
    using stream_ok[OF process bufs st(1)] by blast
  have m: "mealy step (st []) ?z = (st ?z, map (\<lambda>k. out (take k ?z) (?z ! k)) [0..<length ?z])"
    using mealy_history[of step st out "[]" ?z] st(2) by (simp only: split_paired_all append_Nil)
  have len: "length (signal 0 bufs) = length (signal 1 bufs)" "length (signal 0 bufs') = length (signal 0 bufs)"
      "length (signal 1 bufs') = length (signal 0 bufs)"
    using length_signal[OF bufs(1)] length_signal[OF 1(2)] bufs(2) 1(3) by simp_all
  have "(signal 0 bufs' ! t, signal 1 bufs' ! t) = out (take t ?z) (signal 0 bufs ! t, signal 1 bufs ! t)"
    if t: "t < length (signal 0 bufs)" for t
  proof -
    have "(signal 0 bufs' ! t, signal 1 bufs' ! t) = zip (signal 0 bufs') (signal 1 bufs') ! t" using t len by simp
    also have "\<dots> = map (\<lambda>k. out (take k ?z) (?z ! k)) [0..<length ?z] ! t" using 1(4) m by simp
    also have "\<dots> = out (take t ?z) (?z ! t)" using t len by (simp del: upt_Suc)
    finally show ?thesis using t len by simp
  qed
  then show ?thesis using 1 m by simp
qed

lemma feedback_stream:
  assumes process: "\<And>e b. process e b = each_pair body e b" and bufs: "blocks_ok n bufs" "2 \<le> n"
    and st: "good (st [])" "\<And>Y l r. step (st Y) (l, r) = (st (Y @ [out Y (l, r)]), out Y (l, r))"
  shows "\<exists>e' bufs'. process_blocks process (st []) bufs = Inr (e', bufs') \<and>
    blocks_ok n bufs' \<and> map sb_buffersize bufs' = map sb_buffersize bufs \<and> good e' \<and>
    (\<forall>t < length (signal 0 bufs). (signal 0 bufs' ! t, signal 1 bufs' ! t) =
       out (take t (zip (signal 0 bufs') (signal 1 bufs'))) (signal 0 bufs ! t, signal 1 bufs ! t)) \<and>
    (\<forall>c. 2 \<le> c \<longrightarrow> c < n \<longrightarrow> signal c bufs' = signal c bufs)"
proof -
  let ?z = "zip (signal 0 bufs) (signal 1 bufs)"
  obtain e' bufs' where 1: "process_blocks process (st []) bufs = Inr (e', bufs')" "blocks_ok n bufs'"
      "map sb_buffersize bufs' = map sb_buffersize bufs" "good e'"
      "mealy step (st []) ?z = (e', zip (signal 0 bufs') (signal 1 bufs'))"
      "\<forall>c. 2 \<le> c \<longrightarrow> c < n \<longrightarrow> signal c bufs' = signal c bufs"
    using stream_ok[OF process bufs st(1)] by blast
  have m: "\<forall>k < length ?z. snd (mealy step (st []) ?z) ! k = out (take k (snd (mealy step (st []) ?z))) (?z ! k)"
    using mealy_feedback[of step st out "[]" ?z] st(2) by (simp only: split_paired_all append_Nil) blast
  have len: "length (signal 0 bufs) = length (signal 1 bufs)" "length (signal 0 bufs') = length (signal 0 bufs)"
      "length (signal 1 bufs') = length (signal 0 bufs)"
    using length_signal[OF bufs(1)] length_signal[OF 1(2)] bufs(2) 1(3) by simp_all
  have "(signal 0 bufs' ! t, signal 1 bufs' ! t) =
      out (take t (zip (signal 0 bufs') (signal 1 bufs'))) (signal 0 bufs ! t, signal 1 bufs ! t)"
    if t: "t < length (signal 0 bufs)" for t
  proof -
    have "zip (signal 0 bufs') (signal 1 bufs') ! t = out (take t (zip (signal 0 bufs') (signal 1 bufs'))) (?z ! t)"
      using m t len unfolding 1(5) by simp
    then show ?thesis using t len by simp
  qed
  then show ?thesis using 1 by blast
qed

end

context channel_effect begin

text \<open>A relation between the states and the histories is enough.\<close>

lemma history_stream:
  assumes process: "\<And>e b. good n e \<Longrightarrow> sb_channel_count b = n \<Longrightarrow>
      process e b = each_sample body e b \<or> process e b = each_frame (sb_channel_count b) body e b"
    and bufs: "blocks_ok n bufs" "good n e"
    and R: "\<And>c. c < n \<Longrightarrow> R [] (state e c)"
      "\<And>H m x. R H m \<Longrightarrow> R (H @ [x]) (fst (step e m x)) \<and> snd (step e m x) = out H x"
  shows "\<exists>e' bufs'. process_blocks process e bufs = Inr (e', bufs') \<and> blocks_ok n bufs' \<and>
    map sb_buffersize bufs' = map sb_buffersize bufs \<and> good n e' \<and> step e' = step e \<and>
    (\<forall>c < n. R (signal c bufs) (state e' c) \<and>
       (\<forall>t < length (signal c bufs). signal c bufs' ! t = out (take t (signal c bufs)) (signal c bufs ! t)))"
proof -
  obtain e' bufs' where 1: "process_blocks process e bufs = Inr (e', bufs')" "blocks_ok n bufs'"
      "map sb_buffersize bufs' = map sb_buffersize bufs" "good n e'" "step e' = step e"
      "\<forall>c < n. signal c bufs' = snd (mealy (step e) (state e c) (signal c bufs)) \<and>
         state e' c = fst (mealy (step e) (state e c) (signal c bufs))"
    using stream_ok[OF process bufs] by blast
  have "R xs (fst (mealy (step e) m xs)) \<and> snd (mealy (step e) m xs) = map (\<lambda>k. out (take k xs) (xs ! k)) [0..<length xs]"
    if "R [] m" for m xs
    using mealy_relation[where R = R and step = "step e" and out = out and H = "[]" and m = m and xs = xs] R(2) that by simp
  then show ?thesis using 1 R(1) by (intro exI[of _ e'] exI[of _ bufs']) (auto simp del: upt_Suc)
qed

lemma feedback_stream:
  assumes process: "\<And>e b. good n e \<Longrightarrow> sb_channel_count b = n \<Longrightarrow>
      process e b = each_sample body e b \<or> process e b = each_frame (sb_channel_count b) body e b"
    and bufs: "blocks_ok n bufs" "good n e"
    and st: "\<And>c. c < n \<Longrightarrow> state e c = st []" "\<And>Y x. step e (st Y) x = (st (Y @ [out Y x]), out Y x)"
  shows "\<exists>e' bufs'. process_blocks process e bufs = Inr (e', bufs') \<and> blocks_ok n bufs' \<and>
    map sb_buffersize bufs' = map sb_buffersize bufs \<and> good n e' \<and> step e' = step e \<and>
    (\<forall>c < n. state e' c = st (signal c bufs') \<and>
       (\<forall>t < length (signal c bufs). signal c bufs' ! t = out (take t (signal c bufs')) (signal c bufs ! t)))"
proof -
  obtain e' bufs' where 1: "process_blocks process e bufs = Inr (e', bufs')" "blocks_ok n bufs'"
      "map sb_buffersize bufs' = map sb_buffersize bufs" "good n e'" "step e' = step e"
      "\<forall>c < n. signal c bufs' = snd (mealy (step e) (state e c) (signal c bufs)) \<and>
         state e' c = fst (mealy (step e) (state e c) (signal c bufs))"
    using stream_ok[OF process bufs] by blast
  have m: "fst (mealy (step e) (st []) xs) = st (snd (mealy (step e) (st []) xs)) \<and>
      (\<forall>k < length xs. snd (mealy (step e) (st []) xs) ! k = out (take k (snd (mealy (step e) (st []) xs))) (xs ! k))" for xs
    using mealy_feedback[of "step e" st out "[]" xs] st(2) by simp
  show ?thesis using 1 st(1) m by (intro exI[of _ e'] exI[of _ bufs']) (metis (no_types, lifting))
qed

text \<open>What is kept of each sample may depend on the input and on the output.\<close>

lemma log_stream:
  assumes process: "\<And>e b. good n e \<Longrightarrow> sb_channel_count b = n \<Longrightarrow>
      process e b = each_sample body e b \<or> process e b = each_frame (sb_channel_count b) body e b"
    and bufs: "blocks_ok n bufs" "good n e"
    and R: "\<And>c. c < n \<Longrightarrow> R [] (state e c)"
      "\<And>W m x. R W m \<Longrightarrow> R (W @ [kept x (out W x)]) (fst (step e m x)) \<and> snd (step e m x) = out W x"
  shows "\<exists>e' bufs'. process_blocks process e bufs = Inr (e', bufs') \<and> blocks_ok n bufs' \<and>
    map sb_buffersize bufs' = map sb_buffersize bufs \<and> good n e' \<and> step e' = step e \<and>
    (\<forall>c < n. R (map2 kept (signal c bufs) (signal c bufs')) (state e' c) \<and>
       (\<forall>t < length (signal c bufs). signal c bufs' ! t =
          out (map2 kept (take t (signal c bufs)) (take t (signal c bufs'))) (signal c bufs ! t)))"
proof -
  obtain e' bufs' where 1: "process_blocks process e bufs = Inr (e', bufs')" "blocks_ok n bufs'"
      "map sb_buffersize bufs' = map sb_buffersize bufs" "good n e'" "step e' = step e"
      "\<forall>c < n. signal c bufs' = snd (mealy (step e) (state e c) (signal c bufs)) \<and>
         state e' c = fst (mealy (step e) (state e c) (signal c bufs))"
    using stream_ok[OF process bufs] by blast
  from mealy_log[where R = R and kept = kept and out = out and step = "step e" and W = "[]", OF R(2)]
  have "R [] m \<Longrightarrow> R (map2 kept xs (snd (mealy (step e) m xs))) (fst (mealy (step e) m xs)) \<and>
      (\<forall>k < length xs. snd (mealy (step e) m xs) ! k = out (map2 kept (take k xs) (take k (snd (mealy (step e) m xs)))) (xs ! k))"
    for m xs by simp
  then show ?thesis using 1 R(1) by (intro exI[of _ e'] exI[of _ bufs']) simp
qed

end

end
