(* ===== verification/Time_Effects.thy ===== *)
theory Time_Effects
  imports Effect_Base
begin

text \<open>
  The delay effects of \<open>audiofx_timebased.cpp\<close> with a fixed delay: echoes (\<open>EFFECT_DELAY\<close>), the
  multitap delay, fake stereo and the simple reverb. Samples and parameters are elements of an
  ordered field with a floor, as the rational numbers. \<open>dtime\<close> is a signed number of samples; a negative count that is
  converted to an unsigned one is taken as 0 where a vector is resized.
\<close>

subsection \<open>The delay time\<close>

definition check_for_zerodelay :: "int \<Rightarrow> 's::floor_ceiling \<Rightarrow> int \<Rightarrow> int \<times> 's" where
  "check_for_zerodelay dtime dtime_msec srate =
     (if dtime = 0 then (1, 1 / of_int srate * 1000) else (dtime, dtime_msec))"

definition delay_samples :: "'s::floor_ceiling \<Rightarrow> int \<Rightarrow> int \<times> 's" where
  "delay_samples msec srate = check_for_zerodelay (truncated (msec * of_int srate / 1000)) msec srate"

subsection \<open>Echoes: EFFECT DELAY\<close>

record 's echo = fx_base +
  ec_surround :: 's
  ec_dnum :: 's
  ec_dtime :: int
  ec_dtime_msec :: 's
  ec_mix :: 's
  ec_feedback :: 's
  ec_laskuri :: 's
  ec_buffer :: "'s list list list"

definition echo_set_parameter :: "int \<Rightarrow> 's::floor_ceiling \<Rightarrow> 's echo \<Rightarrow> 's echo" where
  "echo_set_parameter param v e =
     (if param = 1 then
        let (d, ms) = delay_samples v (fb_srate e)
        in e\<lparr>ec_dtime := d, ec_dtime_msec := ms,
             ec_laskuri := (if list_ex (list_ex (\<lambda>q. 0 \<le> d \<and> int (length q) > d)) (ec_buffer e) then of_int d else ec_laskuri e),
             ec_buffer := map (map (shorten_queue d)) (ec_buffer e)\<rparr>
      else if param = 2 then e\<lparr>ec_surround := v\<rparr>
      else if param = 3 then
        let n = (if v \<noteq> 0 then of_int (truncated v) else 1)
        in e\<lparr>ec_dnum := n, ec_buffer := map (resize (nat (truncated n)) []) (ec_buffer e), ec_laskuri := 0\<rparr>
      else if param = 4 then e\<lparr>ec_mix := v / 100\<rparr>
      else if param = 5 then e\<lparr>ec_feedback := (if v = 0 \<or> v > 100 then 1 else v / 100)\<rparr>
      else e)"

definition echo_get_parameter :: "int \<Rightarrow> 's::floor_ceiling echo \<Rightarrow> 's" where
  "echo_get_parameter param e =
     (if param = 1 then ec_dtime_msec e else if param = 2 then ec_surround e else if param = 3 then ec_dnum e
      else if param = 4 then ec_mix e * 100 else if param = 5 then ec_feedback e * 100 else 0)"

definition echo_create :: "'s::floor_ceiling \<Rightarrow> int \<Rightarrow> int \<Rightarrow> 's \<Rightarrow> 's \<Rightarrow> 's echo" where
  "echo_create delay_time surround_mode num_of_delays mix_percent feedback_percent =
     echo_set_parameter 5 feedback_percent (echo_set_parameter 4 mix_percent
       (echo_set_parameter 3 (of_int num_of_delays) (echo_set_parameter 2 (of_int surround_mode)
         (echo_set_parameter 1 delay_time
           \<lparr>fb_srate = 384000, fb_channels = 0, ec_surround = 0, ec_dnum = 0, ec_dtime = 0, ec_dtime_msec = 0,
            ec_mix = 0, ec_feedback = 0, ec_laskuri = 0, ec_buffer = []\<rparr>))))"

text \<open>
  The loop of \<open>init\<close> clears \<open>buffer[i]\<close>, not \<open>buffer[i][j]\<close>: every vector of queues becomes empty.
\<close>

definition echo_init :: "'s::floor_ceiling sample_buffer \<Rightarrow> 's echo \<Rightarrow> 's echo" where
  "echo_init slot e =
     (let e1 = echo_set_parameter 1 (ec_dtime_msec e) (effect_base_init slot e)
      in e1\<lparr>ec_buffer := map (\<lambda>_. []) (resize 2 (replicate (nat (truncated (ec_dnum e1))) []) (ec_buffer e1))\<rparr>)"

definition surround_taps :: "int \<Rightarrow> nat \<Rightarrow> 's::floor_ceiling \<Rightarrow> 's \<Rightarrow> 's \<times> 's" where
  "surround_taps mode k front_left front_right =
     (if mode = 0 then (front_left, front_right)
      else if mode = 1 then (front_right, front_left)
      else if mode = 2 then (if even k then ((front_left + front_right) / 2, 0) else (0, (front_left + front_right) / 2))
      else (0, 0))"

text \<open>One turn of the loop over the delays: the factor, the two sums and the queues.\<close>

definition echo_tap ::
  "'s::floor_ceiling echo \<Rightarrow> 's \<Rightarrow> 's \<Rightarrow> nat \<Rightarrow> 's \<times> 's \<times> 's \<times> 's list list list \<Rightarrow> ('s \<times> 's \<times> 's \<times> 's list list list) result" where
  "echo_tap e l r k = (\<lambda>(feedfact0, sum_left, sum_right, buf).
     let feedfact = feedfact0 * ec_feedback e in
     bind_result (read_cell buf 0 k) (\<lambda>ql.
     bind_result (read_cell buf 1 k) (\<lambda>qr.
     bind_result
       (if ec_laskuri e \<ge> of_int (ec_dtime e * (int k + 1))
        then (case (ql, qr) of
                (fl # ql', fr # qr') \<Rightarrow>
                  (let (a, b) = surround_taps (truncated (ec_surround e)) k fl fr
                   in Inr (a * feedfact, b * feedfact, ql', qr'))
              | _ \<Rightarrow> Inl Undefined_behaviour)
        else Inr (0, 0, ql, qr)) (\<lambda>(a, b, ql', qr').
     bind_result (write_cell 0 k (ql' @ [l]) buf) (\<lambda>buf1.
     bind_result (write_cell 1 k (qr' @ [r]) buf1) (\<lambda>buf2.
       Inr (feedfact, sum_left + a / ec_dnum e, sum_right + b / ec_dnum e, buf2)))))))"

definition echo_body :: "'s::floor_ceiling echo \<Rightarrow> 's \<Rightarrow> 's \<Rightarrow> ('s echo \<times> 's \<times> 's) result" where
  "echo_body e l r =
     bind_result (fold_result (echo_tap e l r) [0..<nat \<lceil>ec_dnum e\<rceil>] (1, 0, 0, ec_buffer e)) (\<lambda>(_, sum_left, sum_right, buf).
       Inr (e\<lparr>ec_buffer := buf,
              ec_laskuri := (if ec_laskuri e < of_int (ec_dtime e) * ec_dnum e then ec_laskuri e + 1 else ec_laskuri e)\<rparr>,
            l * (1 - ec_mix e) + sum_left * ec_mix e, r * (1 - ec_mix e) + sum_right * ec_mix e))"

definition echo_process :: "'s::floor_ceiling sample_buffer \<Rightarrow> 's echo \<Rightarrow> ('s echo \<times> 's sample_buffer) result" where
  "echo_process slot e = each_pair echo_body e slot"

definition echo_class :: "('s::floor_ceiling echo, 's, 's) op_class" where
  "echo_class =
     \<lparr>op_number_of_params = (\<lambda>_. 5), op_get_parameter = echo_get_parameter, op_set_parameter = echo_set_parameter,
      op_output_channels = (\<lambda>_ _. 2), op_init = echo_init, op_process = echo_process, op_release = (\<lambda>e. e),
      op_set_srate = effect_base_set_srate 5 echo_get_parameter echo_set_parameter\<rparr>"

subsection \<open>The multitap delay\<close>

record 's multitap = fx_base +
  mt_mix :: 's
  mt_dtime_msec :: 's
  mt_dtime :: int
  mt_dnum :: int
  mt_index :: "int list"
  mt_filled :: "bool list list"
  mt_buffer :: "'s list list"

text \<open>Both parameters resize the buffers that are too small, and start filling them again.\<close>

definition multitap_restart :: "'s::floor_ceiling multitap \<Rightarrow> 's multitap" where
  "multitap_restart e =
     (let len = mt_dtime e * mt_dnum e
      in e\<lparr>mt_buffer := map (\<lambda>b. if len > int (length b) then resize (nat len) 0 b else b) (mt_buffer e),
           mt_index := map (\<lambda>_. len - 1) (mt_index e), mt_filled := map (map (\<lambda>_. False)) (mt_filled e)\<rparr>)"

definition multitap_set_parameter :: "int \<Rightarrow> 's::floor_ceiling \<Rightarrow> 's multitap \<Rightarrow> 's multitap" where
  "multitap_set_parameter param v e =
     (if param = 1 then
        let (d, ms) = delay_samples v (fb_srate e) in multitap_restart (e\<lparr>mt_dtime := d, mt_dtime_msec := ms\<rparr>)
      else if param = 2 then multitap_restart (e\<lparr>mt_dnum := (if v \<noteq> 0 then truncated v else 1)\<rparr>)
      else if param = 3 then e\<lparr>mt_mix := v / 100\<rparr>
      else e)"

definition multitap_get_parameter :: "int \<Rightarrow> 's::floor_ceiling multitap \<Rightarrow> 's" where
  "multitap_get_parameter param e =
     (if param = 1 then mt_dtime_msec e else if param = 2 then of_int (mt_dnum e)
      else if param = 3 then mt_mix e * 100 else 0)"

definition multitap_create :: "'s::floor_ceiling \<Rightarrow> int \<Rightarrow> 's \<Rightarrow> 's multitap" where
  "multitap_create delay_time num_of_delays mix_percent =
     multitap_set_parameter 3 mix_percent (multitap_set_parameter 2 (of_int num_of_delays)
       (multitap_set_parameter 1 delay_time
         \<lparr>fb_srate = 384000, fb_channels = 0, mt_mix = 0, mt_dtime_msec = 0, mt_dtime = 0, mt_dnum = 0,
          mt_index = [], mt_filled = [], mt_buffer = []\<rparr>))"

definition multitap_init :: "'s::floor_ceiling sample_buffer \<Rightarrow> 's multitap \<Rightarrow> 's multitap" where
  "multitap_init slot e =
     (let e1 = multitap_set_parameter 1 (mt_dtime_msec e) (effect_base_init slot e);
          len = mt_dtime e1 * mt_dnum e1
      in e1\<lparr>mt_index := replicate (fb_channels e1) (len - 1),
            mt_filled := map (map (\<lambda>_. False)) (resize (fb_channels e1) (replicate (nat (mt_dnum e1)) False) (mt_filled e1)),
            mt_buffer := map (map (\<lambda>_. 0)) (resize (fb_channels e1) (replicate (nat len) 0) (mt_buffer e1))\<rparr>)"

definition multitap_taps :: "nat \<Rightarrow> 's::floor_ceiling multitap \<Rightarrow> int \<Rightarrow> 's result" where
  "multitap_taps c e idx =
     fold_result (\<lambda>k temp1.
         bind_result (read_cell (mt_filled e) c k) (\<lambda>f.
         if f then bind_result (read_signed (mt_buffer e) c ((idx + int k * mt_dtime e) smod (mt_dtime e * mt_dnum e)))
                     (\<lambda>v. Inr (temp1 + v))
         else Inr temp1))
       [0..<nat (mt_dnum e)] 0"

definition multitap_body :: "nat \<Rightarrow> 's::floor_ceiling multitap \<Rightarrow> 's \<Rightarrow> ('s multitap \<times> 's) result" where
  "multitap_body c e x =
     (let len = mt_dtime e * mt_dnum e in
      bind_result (vector_at (mt_index e) c) (\<lambda>idx.
      bind_result (multitap_taps c e idx) (\<lambda>temp1.
      bind_result (write_signed c idx x (mt_buffer e)) (\<lambda>buf.
      bind_result (fold_result (\<lambda>k filled. if idx - 1 < len - mt_dtime e * int k then write_cell c k True filled else Inr filled)
                     [0..<nat (mt_dnum e)] (mt_filled e)) (\<lambda>filled.
        Inr (e\<lparr>mt_buffer := buf, mt_filled := filled,
               mt_index := (mt_index e)[c := (if idx - 1 = -1 then len - 1 else idx - 1)]\<rparr>,
             x * (1 - mt_mix e) + temp1 * mt_mix e / of_int (mt_dnum e)))))))"

definition multitap_process :: "'s::floor_ceiling sample_buffer \<Rightarrow> 's multitap \<Rightarrow> ('s multitap \<times> 's sample_buffer) result" where
  "multitap_process slot e = each_frame (fb_channels e) multitap_body e slot"

subsection \<open>Fake stereo\<close>

record 's fake_stereo = fx_base +
  fs_buffer :: "'s list list"
  fs_dtime :: int
  fs_dtime_msec :: 's

definition fake_set_parameter :: "int \<Rightarrow> 's::floor_ceiling \<Rightarrow> 's fake_stereo \<Rightarrow> 's fake_stereo" where
  "fake_set_parameter param v e =
     (if param = 1 then
        let (d, ms) = delay_samples v (fb_srate e)
        in e\<lparr>fs_dtime := d, fs_dtime_msec := ms, fs_buffer := map (shorten_queue d) (fs_buffer e)\<rparr>
      else e)"

definition fake_get_parameter :: "int \<Rightarrow> 's::floor_ceiling fake_stereo \<Rightarrow> 's" where
  "fake_get_parameter param e = (if param = 1 then fs_dtime_msec e else 0)"

definition fake_create :: "'s::floor_ceiling \<Rightarrow> 's fake_stereo" where
  "fake_create delay_time =
     fake_set_parameter 1 delay_time
       \<lparr>fb_srate = 384000, fb_channels = 0, fs_buffer = [], fs_dtime = 0, fs_dtime_msec = 0\<rparr>"

definition fake_init :: "'s::floor_ceiling sample_buffer \<Rightarrow> 's fake_stereo \<Rightarrow> 's fake_stereo" where
  "fake_init slot e =
     (let e1 = fake_set_parameter 1 (fs_dtime_msec e) (effect_base_init slot e)
      in e1\<lparr>fs_buffer := map (\<lambda>_. []) (resize 2 [] (fs_buffer e1))\<rparr>)"

text \<open>\<open>front()\<close> and \<open>pop_front()\<close> of the queue of one channel, then \<open>push_back\<close>.\<close>

definition queue_step :: "bool \<Rightarrow> nat \<Rightarrow> 'a \<Rightarrow> 'a list list \<Rightarrow> 'a list list result" where
  "queue_step pop c x bufs =
     bind_result (vector_at bufs c) (\<lambda>q.
       if pop then (if q = [] then Inl Undefined_behaviour else Inr (bufs[c := tl q @ [x]])) else Inr (bufs[c := q @ [x]]))"

definition queue_front :: "nat \<Rightarrow> 'a list list \<Rightarrow> 'a result" where
  "queue_front c bufs =
     bind_result (vector_at bufs c) (\<lambda>q. if q = [] then Inl Undefined_behaviour else Inr (hd q))"

definition queue_full :: "int \<Rightarrow> nat \<Rightarrow> 'a list list \<Rightarrow> bool result" where
  "queue_full d c bufs =
     bind_result (vector_at bufs c) (\<lambda>q. Inr (0 \<le> d \<and> int (length q) \<ge> d))"

definition fake_body :: "'s::floor_ceiling fake_stereo \<Rightarrow> 's \<Rightarrow> 's \<Rightarrow> ('s fake_stereo \<times> 's \<times> 's) result" where
  "fake_body e l r =
     bind_result (queue_full (fs_dtime e) 0 (fs_buffer e)) (\<lambda>full.
     bind_result (if full
                  then bind_result (queue_front 0 (fs_buffer e)) (\<lambda>fl.
                       bind_result (queue_front 1 (fs_buffer e)) (\<lambda>fr. Inr ((l + r) / 2, (fl + fr) / 2)))
                  else Inr ((l + r) / 2, 0)) (\<lambda>(temp_left, temp_right).
     bind_result (queue_step full 0 l (fs_buffer e)) (\<lambda>buf1.
     bind_result (queue_step full 1 r buf1) (\<lambda>buf2.
       Inr (e\<lparr>fs_buffer := buf2\<rparr>, temp_left, temp_right)))))"

definition fake_process :: "'s::floor_ceiling sample_buffer \<Rightarrow> 's fake_stereo \<Rightarrow> ('s fake_stereo \<times> 's sample_buffer) result" where
  "fake_process slot e = each_pair fake_body e slot"

subsection \<open>The simple reverb\<close>

record 's reverb = fx_base +
  rv_buffer :: "'s list list"
  rv_surround :: 's
  rv_feedback :: 's
  rv_dtime :: int
  rv_dtime_msec :: 's

definition reverb_set_parameter :: "int \<Rightarrow> 's::floor_ceiling \<Rightarrow> 's reverb \<Rightarrow> 's reverb" where
  "reverb_set_parameter param v e =
     (if param = 1 then
        let (d, ms) = delay_samples v (fb_srate e)
        in e\<lparr>rv_dtime := d, rv_dtime_msec := ms, rv_buffer := map (shorten_queue d) (rv_buffer e)\<rparr>
      else if param = 2 then e\<lparr>rv_surround := v\<rparr>
      else if param = 3 then e\<lparr>rv_feedback := v / 100\<rparr>
      else e)"

definition reverb_get_parameter :: "int \<Rightarrow> 's::floor_ceiling reverb \<Rightarrow> 's" where
  "reverb_get_parameter param e =
     (if param = 1 then rv_dtime_msec e else if param = 2 then rv_surround e
      else if param = 3 then rv_feedback e * 100 else 0)"

definition reverb_create :: "'s::floor_ceiling \<Rightarrow> int \<Rightarrow> 's \<Rightarrow> 's reverb" where
  "reverb_create delay_time surround_mode feedback_percent =
     reverb_set_parameter 3 feedback_percent (reverb_set_parameter 2 (of_int surround_mode)
       (reverb_set_parameter 1 delay_time
         \<lparr>fb_srate = 384000, fb_channels = 0, rv_buffer = [], rv_surround = 0, rv_feedback = 0, rv_dtime = 0, rv_dtime_msec = 0\<rparr>))"

definition reverb_init :: "'s::floor_ceiling sample_buffer \<Rightarrow> 's reverb \<Rightarrow> 's reverb" where
  "reverb_init slot e =
     (let e1 = reverb_set_parameter 1 (rv_dtime_msec e) (effect_base_init slot e)
      in e1\<lparr>rv_buffer := map (\<lambda>_. []) (resize 2 [] (rv_buffer e1))\<rparr>)"

definition reverb_body :: "'s::floor_ceiling reverb \<Rightarrow> 's \<Rightarrow> 's \<Rightarrow> ('s reverb \<times> 's \<times> 's) result" where
  "reverb_body e l r =
     (let fb = rv_feedback e in
      bind_result (queue_full (rv_dtime e) 0 (rv_buffer e)) (\<lambda>full.
      bind_result (if full
                   then bind_result (queue_front 0 (rv_buffer e)) (\<lambda>fl.
                        bind_result (queue_front 1 (rv_buffer e)) (\<lambda>fr.
                          Inr (if rv_surround e = 0 then (l * (1 - fb) + fl * fb, r * (1 - fb) + fr * fb)
                               else (l * (1 - fb) + fr * fb, r * (1 - fb) + fl * fb))))
                   else Inr (l * (1 - fb), r * (1 - fb))) (\<lambda>(l1, r1).
      let l2 = flush_to_zero l1; r2 = flush_to_zero r1 in
      bind_result (queue_step full 0 l2 (rv_buffer e)) (\<lambda>buf1.
      bind_result (queue_step full 1 r2 buf1) (\<lambda>buf2.
        Inr (e\<lparr>rv_buffer := buf2\<rparr>, l2, r2))))))"

definition reverb_process :: "'s::floor_ceiling sample_buffer \<Rightarrow> 's reverb \<Rightarrow> ('s reverb \<times> 's sample_buffer) result" where
  "reverb_process slot e = each_pair reverb_body e slot"

text \<open>The classes that a chain runs.\<close>

definition multitap_class :: "('s::floor_ceiling multitap, 's, 's) op_class" where
  "multitap_class =
     \<lparr>op_number_of_params = (\<lambda>_. 3), op_get_parameter = multitap_get_parameter, op_set_parameter = multitap_set_parameter,
      op_output_channels = (\<lambda>n _. n), op_init = multitap_init, op_process = multitap_process, op_release = (\<lambda>e. e),
      op_set_srate = effect_base_set_srate 3 multitap_get_parameter multitap_set_parameter\<rparr>"

definition fake_class :: "('s::floor_ceiling fake_stereo, 's, 's) op_class" where
  "fake_class =
     \<lparr>op_number_of_params = (\<lambda>_. 1), op_get_parameter = fake_get_parameter, op_set_parameter = fake_set_parameter,
      op_output_channels = (\<lambda>_ _. 2), op_init = fake_init, op_process = fake_process, op_release = (\<lambda>e. e),
      op_set_srate = effect_base_set_srate 1 fake_get_parameter fake_set_parameter\<rparr>"

definition reverb_class :: "('s::floor_ceiling reverb, 's, 's) op_class" where
  "reverb_class =
     \<lparr>op_number_of_params = (\<lambda>_. 3), op_get_parameter = reverb_get_parameter, op_set_parameter = reverb_set_parameter,
      op_output_channels = (\<lambda>_ _. 2), op_init = reverb_init, op_process = reverb_process, op_release = (\<lambda>e. e),
      op_set_srate = effect_base_set_srate 3 reverb_get_parameter reverb_set_parameter\<rparr>"

end
