(* ===== verification/Time_Effects_Facts.thy ===== *)
theory Time_Effects_Facts
  imports Time_Effects
begin

text \<open>
  What the delay effects compute. Each is a transducer in the sense of \<open>Signal_Loops\<close> whose state
  after a stream is determined by the stream, so that its output is given in closed form, however the
  stream is cut into buffers: echoes are a weighted sum of delayed copies, and so on. Fake stereo and
  the reverb meet the contract of a chain; the echo and the multitap delay do not, and lemmas show
  the faults.
\<close>

subsection \<open>The delay time is never 0\<close>

lemma delay_samples_pos:
  "0 \<le> msec \<Longrightarrow> 0 \<le> srate \<Longrightarrow> 0 < fst (delay_samples (msec :: 's::floor_ceiling) srate)"
proof -
  assume a: "0 \<le> msec" "0 \<le> srate"
  then have "0 \<le> msec * of_int srate / 1000" by simp
  then have "0 \<le> truncated (msec * of_int srate / 1000)" by (rule truncated_nonneg)
  then show ?thesis by (simp add: delay_samples_def check_for_zerodelay_def)
qed

lemma delay_samples_nonzero: "fst (delay_samples msec srate) \<noteq> 0"
  by (simp add: delay_samples_def check_for_zerodelay_def)

text \<open>Setting the delay time to its own value changes nothing.\<close>

lemma delay_samples_idem:
  fixes msec :: "'s::floor_ceiling"
  assumes "0 < srate"
  shows "delay_samples (snd (delay_samples msec srate)) srate = delay_samples msec srate"
  using assms by (simp add: delay_samples_def check_for_zerodelay_def)

lemma shorten_queue_same_length:
  "length q = length q' \<Longrightarrow> length (shorten_queue d q) = length (shorten_queue d q')"
  by (simp add: shorten_queue_def)

lemma shorten_queue_Nil [simp]: "shorten_queue d [] = []"
  by (simp add: shorten_queue_def)

subsection \<open>Queues that hold the recent past\<close>

lemma queue_full_recent:
  assumes "0 < d" "c < length bufs" "bufs ! c = map f (recent d H)"
  shows "queue_full (int d) c bufs = Inr (d \<le> length H)"
  using assms by (simp add: queue_full_def min_def)

lemma queue_front_recent:
  assumes "0 < d" "d \<le> length H" "c < length bufs" "bufs ! c = map f (recent d H)"
  shows "queue_front c bufs = Inr (f (H ! (length H - d)))"
  using assms hd_recent[OF assms(1,2)] by (simp add: queue_front_def list.map_sel)

lemma queue_step_recent:
  assumes "0 < d" "c < length bufs" "bufs ! c = map f (recent d H)" "f z = x"
  shows "queue_step (d \<le> length H) c x bufs = Inr (bufs[c := map f (recent d (H @ [z]))])"
  using assms hd_recent[OF assms(1), of H] by (auto simp: queue_step_def recent_snoc map_tl)

subsection \<open>Fake stereo\<close>

definition fake_good :: "'s fake_stereo \<Rightarrow> bool" where
  "fake_good e \<longleftrightarrow> length (fs_buffer e) = 2 \<and> length (fs_buffer e ! 0) = length (fs_buffer e ! 1) \<and> fs_dtime e \<noteq> 0"

lemma two_queues: "length bufs = 2 \<Longrightarrow> \<exists>q r. bufs = [q, r]"
  by (simp add: numeral_2_eq_2 length_Suc_conv) blast

lemma fake_body_good:
  assumes "fake_good e"
  shows "case fake_body e l r of Inl _ \<Rightarrow> False | Inr x \<Rightarrow> fake_good (fst x)"
proof -
  obtain q p where b: "fs_buffer e = [q, p]" using two_queues[of "fs_buffer e"] assms by (auto simp: fake_good_def)
  have "length q = length p" "fs_dtime e \<noteq> 0" using assms b by (simp_all add: fake_good_def)
  then show ?thesis
    by (cases "0 \<le> fs_dtime e \<and> int (length q) \<ge> fs_dtime e"; cases q; cases p)
      (auto simp: fake_body_def b queue_full_def queue_front_def queue_step_def vector_at_def fake_good_def)
qed

interpretation fake: pair_effect fake_body fake_good "\<lambda>e (l, r). projr (fake_body e l r)"
proof unfold_locales
  fix e :: "'s::floor_ceiling fake_stereo" and l r assume "fake_good e"
  from fake_body_good[OF this, of l r] show "fake_body e l r = Inr (case (l, r) of (l, r) \<Rightarrow> projr (fake_body e l r)) \<and>
      fake_good (fst (case (l, r) of (l, r) \<Rightarrow> projr (fake_body e l r)))" by (auto split: sum.splits)
qed

lemma fake_init_good: "fake_good (fake_init slot e)"
  by (simp add: fake_init_def fake_good_def fake_set_parameter_def Let_def case_prod_beta delay_samples_nonzero)

lemma fake_set_good: "fake_good e \<Longrightarrow> fake_good (fake_set_parameter p v e)"
  by (auto simp: fake_good_def fake_set_parameter_def case_prod_beta delay_samples_nonzero intro: shorten_queue_same_length)

text \<open>Fake stereo in a chain.\<close>

interpretation fake_chain: controlled_operators "fake_class :: ('s::floor_ceiling fake_stereo, 's, 's) op_class"
  "\<lambda>e _. fake_good e" "\<lambda>_. True"
proof unfold_locales
  fix slot :: "'s sample_buffer" and e :: "'s fake_stereo"
  assume "sb_wf slot" "fake_good e" "op_output_channels fake_class (sb_channel_count slot) e \<le> sb_channel_count slot"
  then show "\<exists>obj' slot'. op_process fake_class slot e = Inr (obj', slot') \<and> sb_wf slot' \<and>
      sb_buffersize slot' = sb_buffersize slot \<and> length (sb_arrays slot) \<le> length (sb_arrays slot') \<and> fake_good obj'"
    using fake.each_pair_ok[of slot e] by (auto simp: fake_class_def fake_process_def)
qed (simp_all add: fake_class_def fake_init_good fake_set_good)

text \<open>The state after the frames \<open>H\<close>.\<close>

definition fake_after :: "'s fake_stereo \<Rightarrow> ('s \<times> 's) list \<Rightarrow> 's fake_stereo" where
  "fake_after e H = e\<lparr>fs_buffer := [map fst (recent (nat (fs_dtime e)) H), map snd (recent (nat (fs_dtime e)) H)]\<rparr>"

definition fake_out :: "nat \<Rightarrow> ('s::field \<times> 's) list \<Rightarrow> 's \<times> 's \<Rightarrow> 's \<times> 's" where
  "fake_out d H x =
     ((fst x + snd x) / 2, if d \<le> length H then (fst (H ! (length H - d)) + snd (H ! (length H - d))) / 2 else 0)"

lemma fake_body_after:
  assumes "0 < fs_dtime e"
  shows "fake_body (fake_after e H) l r = Inr (fake_after e (H @ [(l, r)]), fake_out (nat (fs_dtime e)) H (l, r))"
proof -
  define d where "d = nat (fs_dtime e)"
  have d: "0 < d" "fs_dtime e = int d" "nat (fs_dtime e) = d" using assms by (simp_all add: d_def)
  define Q where "Q = [map fst (recent d H), map snd (recent d H)]"
  have q: "Q ! 0 = map fst (recent d H)" "Q ! 1 = map snd (recent d H)" "length Q = 2" by (simp_all add: Q_def)
  have l: "fake_after e H = e\<lparr>fs_buffer := Q\<rparr>"
      "fake_after e (H @ [(l, r)]) = e\<lparr>fs_buffer := Q[0 := map fst (recent d (H @ [(l, r)])), 1 := map snd (recent d (H @ [(l, r)]))]\<rparr>"
    by (simp_all add: fake_after_def d(3) Q_def)
  have full: "queue_full (int d) 0 Q = Inr (d \<le> length H)" by (rule queue_full_recent[OF d(1) _ q(1)]) (simp add: Q_def)
  show ?thesis
  proof (cases "d \<le> length H")
    case True
    then show ?thesis
      using queue_front_recent[OF d(1) True _ q(1)] queue_front_recent[OF d(1) True _ q(2)]
        queue_step_recent[OF d(1) _ q(1), where x = l and z = "(l, r)"]
        queue_step_recent[OF d(1), where c = 1 and bufs = "Q[0 := map fst (recent d (H @ [(l, r)]))]" and f = snd and H = H and x = r and z = "(l, r)"]
      by (simp add: fake_body_def l full q d fake_out_def) (simp add: Q_def)
  next
    case False
    then show ?thesis
      using queue_step_recent[OF d(1) _ q(1), where x = l and z = "(l, r)"]
        queue_step_recent[OF d(1), where c = 1 and bufs = "Q[0 := map fst (recent d (H @ [(l, r)]))]" and f = snd and H = H and x = r and z = "(l, r)"]
      by (simp add: fake_body_def l full q d fake_out_def) (simp add: Q_def)
  qed
qed

text \<open>An effect as a chain has it when processing begins: initialised, then refreshed.\<close>

lemma refresh_op_1: "op_number_of_params cls e = 1 \<Longrightarrow> refresh_op cls e = op_set_parameter cls 1 (op_get_parameter cls 1 e) e"
  by (simp add: refresh_op_def)

lemma fake_start:
  fixes e :: "'s::floor_ceiling fake_stereo" and slot :: "'s sample_buffer"
  assumes "0 \<le> fs_dtime_msec e" "0 < fb_srate e"
  defines "e1 \<equiv> refresh_op fake_class (fake_init slot e)"
  shows "e1 = fake_after e1 []" "0 < fs_dtime e1" "fs_dtime e1 = fst (delay_samples (fs_dtime_msec e) (fb_srate e))"
proof -
  obtain d ms where dm: "delay_samples (fs_dtime_msec e) (fb_srate e) = (d, ms)" by fastforce
  have i: "fake_init slot e = (effect_base_init slot e)\<lparr>fs_dtime := d, fs_dtime_msec := ms, fs_buffer := [[], []]\<rparr>"
    by (rule fake_stereo.equality) (simp_all add: fake_init_def fake_set_parameter_def dm effect_base_init_def map_replicate_const Let_def numeral_2_eq_2)
  have idem: "delay_samples ms (fb_srate e) = (d, ms)"
    using delay_samples_idem[OF assms(2), of "fs_dtime_msec e"] dm by simp
  have e1: "e1 = (effect_base_init slot e)\<lparr>fs_dtime := d, fs_dtime_msec := ms, fs_buffer := [[], []]\<rparr>"
    unfolding e1_def i by (simp add: refresh_op_1 fake_class_def fake_set_parameter_def fake_get_parameter_def effect_base_init_def idem)
  show "e1 = fake_after e1 []" by (simp add: e1 fake_after_def)
  show "fs_dtime e1 = fst (delay_samples (fs_dtime_msec e) (fb_srate e))" by (simp add: e1 dm)
  then show "0 < fs_dtime e1" using delay_samples_pos[OF assms(1), of "fb_srate e"] assms(2) by simp
qed

text \<open>
  Fake stereo, from a chain's initialisation on and however the stream is cut into buffers: the left
  channel is the mean of both, the right channel the same mean after the delay, and the other channels
  are left alone.
\<close>

theorem fake_stereo_delays:
  fixes e :: "'s::floor_ceiling fake_stereo"
  assumes "0 \<le> fs_dtime_msec e" "0 < fb_srate e" "blocks_ok n bufs" "2 \<le> n"
  shows "\<exists>e' bufs'. process_blocks (\<lambda>e b. fake_process b e) (refresh_op fake_class (fake_init slot e)) bufs = Inr (e', bufs') \<and>
    map sb_buffersize bufs' = map sb_buffersize bufs \<and>
    (\<forall>t < length (signal 0 bufs).
       signal 0 bufs' ! t = (signal 0 bufs ! t + signal 1 bufs ! t) / 2 \<and>
       signal 1 bufs' ! t =
         (let d = nat (fst (delay_samples (fs_dtime_msec e) (fb_srate e)))
          in if d \<le> t then (signal 0 bufs ! (t - d) + signal 1 bufs ! (t - d)) / 2 else 0)) \<and>
    (\<forall>c. 2 \<le> c \<longrightarrow> c < n \<longrightarrow> signal c bufs' = signal c bufs)"
proof -
  define e1 where "e1 = refresh_op fake_class (fake_init slot e)"
  note s = fake_start[OF assms(1,2), of slot, folded e1_def]
  have good: "fake_good (fake_after e1 [])" using s(2) by (simp add: fake_good_def fake_after_def)
  obtain bufs' where 1: "process_blocks (\<lambda>e b. fake_process b e) (fake_after e1 []) bufs =
        Inr (fake_after e1 (zip (signal 0 bufs) (signal 1 bufs)), bufs')"
      "map sb_buffersize bufs' = map sb_buffersize bufs"
      "\<forall>t < length (signal 0 bufs). (signal 0 bufs' ! t, signal 1 bufs' ! t) =
         fake_out (nat (fs_dtime e1)) (take t (zip (signal 0 bufs) (signal 1 bufs))) (signal 0 bufs ! t, signal 1 bufs ! t)"
      "\<forall>c. 2 \<le> c \<longrightarrow> c < n \<longrightarrow> signal c bufs' = signal c bufs"
    using fake.history_stream[of "\<lambda>e b. fake_process b e" n bufs "fake_after e1" "fake_out (nat (fs_dtime e1))"]
      assms(3,4) good fake_body_after[OF s(2)] by (auto simp: fake_process_def)
  have len: "length (signal 1 bufs) = length (signal 0 bufs)" using length_signal[OF assms(3)] assms(4) by simp
  show ?thesis
    unfolding e1_def[symmetric] s(3)[symmetric]
  proof (intro exI conjI)
    show "process_blocks (\<lambda>e b. fake_process b e) e1 bufs = Inr (fake_after e1 (zip (signal 0 bufs) (signal 1 bufs)), bufs')"
      using 1(1) s(1) by simp
    show "\<forall>t < length (signal 0 bufs).
       signal 0 bufs' ! t = (signal 0 bufs ! t + signal 1 bufs ! t) / 2 \<and>
       signal 1 bufs' ! t =
         (let d = nat (fs_dtime e1) in if d \<le> t then (signal 0 bufs ! (t - d) + signal 1 bufs ! (t - d)) / 2 else 0)"
      using 1(3) len s(2) by (auto simp: fake_out_def Let_def min_def)
  qed (use 1 in simp_all)
qed

subsection \<open>The simple reverb\<close>

definition reverb_good :: "'s reverb \<Rightarrow> bool" where
  "reverb_good e \<longleftrightarrow> length (rv_buffer e) = 2 \<and> length (rv_buffer e ! 0) = length (rv_buffer e ! 1) \<and> rv_dtime e \<noteq> 0"

lemma reverb_body_good:
  assumes "reverb_good e"
  shows "case reverb_body e l r of Inl _ \<Rightarrow> False | Inr x \<Rightarrow> reverb_good (fst x)"
proof -
  obtain q p where b: "rv_buffer e = [q, p]" using two_queues[of "rv_buffer e"] assms by (auto simp: reverb_good_def)
  have "length q = length p" "rv_dtime e \<noteq> 0" using assms b by (simp_all add: reverb_good_def)
  then show ?thesis
    by (cases "0 \<le> rv_dtime e \<and> int (length q) \<ge> rv_dtime e"; cases q; cases p; cases "rv_surround e = 0")
      (auto simp: reverb_body_def b queue_full_def queue_front_def queue_step_def vector_at_def reverb_good_def Let_def)
qed

interpretation reverb: pair_effect reverb_body reverb_good "\<lambda>e (l, r). projr (reverb_body e l r)"
proof unfold_locales
  fix e :: "'s::floor_ceiling reverb" and l r assume "reverb_good e"
  from reverb_body_good[OF this, of l r] show "reverb_body e l r = Inr (case (l, r) of (l, r) \<Rightarrow> projr (reverb_body e l r)) \<and>
      reverb_good (fst (case (l, r) of (l, r) \<Rightarrow> projr (reverb_body e l r)))" by (auto split: sum.splits)
qed

lemma reverb_init_good: "reverb_good (reverb_init slot e)"
  by (simp add: reverb_init_def reverb_good_def reverb_set_parameter_def Let_def case_prod_beta delay_samples_nonzero)

lemma reverb_set_good: "reverb_good e \<Longrightarrow> reverb_good (reverb_set_parameter p v e)"
  by (auto simp: reverb_good_def reverb_set_parameter_def case_prod_beta delay_samples_nonzero intro: shorten_queue_same_length)

interpretation reverb_chain: controlled_operators "reverb_class :: ('s::floor_ceiling reverb, 's, 's) op_class"
  "\<lambda>e _. reverb_good e" "\<lambda>_. True"
proof unfold_locales
  fix slot :: "'s sample_buffer" and e :: "'s reverb"
  assume "sb_wf slot" "reverb_good e" "op_output_channels reverb_class (sb_channel_count slot) e \<le> sb_channel_count slot"
  then show "\<exists>obj' slot'. op_process reverb_class slot e = Inr (obj', slot') \<and> sb_wf slot' \<and>
      sb_buffersize slot' = sb_buffersize slot \<and> length (sb_arrays slot) \<le> length (sb_arrays slot') \<and> reverb_good obj'"
    using reverb.each_pair_ok[of slot e] by (auto simp: reverb_class_def reverb_process_def)
qed (simp_all add: reverb_class_def reverb_init_good reverb_set_good)

definition reverb_after :: "'s reverb \<Rightarrow> ('s \<times> 's) list \<Rightarrow> 's reverb" where
  "reverb_after e Y = e\<lparr>rv_buffer := [map fst (recent (nat (rv_dtime e)) Y), map snd (recent (nat (rv_dtime e)) Y)]\<rparr>"

text \<open>The next frame from the output so far: a comb filter, with crossed feedback in surround mode.\<close>

definition reverb_out :: "'s::floor_ceiling reverb \<Rightarrow> ('s \<times> 's) list \<Rightarrow> 's \<times> 's \<Rightarrow> 's \<times> 's" where
  "reverb_out e Y x =
     (let d = nat (rv_dtime e); k = rv_feedback e;
          (fl, fr) = (if d \<le> length Y then Y ! (length Y - d) else (0, 0));
          (bl, br) = (if rv_surround e = 0 then (fl, fr) else (fr, fl))
      in (flush_to_zero (fst x * (1 - k) + bl * k), flush_to_zero (snd x * (1 - k) + br * k)))"

lemma reverb_body_after:
  assumes "0 < rv_dtime e"
  shows "reverb_body (reverb_after e Y) l r = Inr (reverb_after e (Y @ [reverb_out e Y (l, r)]), reverb_out e Y (l, r))"
proof -
  define d where "d = nat (rv_dtime e)"
  have d: "0 < d" "rv_dtime e = int d" "nat (rv_dtime e) = d" using assms by (simp_all add: d_def)
  obtain a b where ab: "reverb_out e Y (l, r) = (a, b)" by fastforce
  define Q where "Q = [map fst (recent d Y), map snd (recent d Y)]"
  have q: "Q ! 0 = map fst (recent d Y)" "Q ! 1 = map snd (recent d Y)" "length Q = 2" by (simp_all add: Q_def)
  have s: "reverb_after e Y = e\<lparr>rv_buffer := Q\<rparr>"
      "reverb_after e (Y @ [(a, b)]) = e\<lparr>rv_buffer := Q[0 := map fst (recent d (Y @ [(a, b)])), 1 := map snd (recent d (Y @ [(a, b)]))]\<rparr>"
    by (simp_all add: reverb_after_def d(3) Q_def)
  have full: "queue_full (int d) 0 Q = Inr (d \<le> length Y)" by (rule queue_full_recent[OF d(1) _ q(1)]) (simp add: Q_def)
  have steps: "queue_step (d \<le> length Y) 0 a Q = Inr (Q[0 := map fst (recent d (Y @ [(a, b)]))])"
      "queue_step (d \<le> length Y) 1 b (Q[0 := map fst (recent d (Y @ [(a, b)]))]) =
        Inr (Q[0 := map fst (recent d (Y @ [(a, b)])), 1 := map snd (recent d (Y @ [(a, b)]))])"
    by (rule queue_step_recent[OF d(1)]; simp add: Q_def)+
  show ?thesis
  proof (cases "d \<le> length Y")
    case True
    have front: "queue_front 0 Q = Inr (fst (Y ! (length Y - d)))" "queue_front 1 Q = Inr (snd (Y ! (length Y - d)))"
      by (rule queue_front_recent[OF d(1) True]; simp add: Q_def)+
    have "flush_to_zero (l * (1 - rv_feedback e) +
          (if rv_surround e = 0 then fst (Y ! (length Y - d)) else snd (Y ! (length Y - d))) * rv_feedback e) = a"
        "flush_to_zero (r * (1 - rv_feedback e) +
          (if rv_surround e = 0 then snd (Y ! (length Y - d)) else fst (Y ! (length Y - d))) * rv_feedback e) = b"
      using ab True by (auto simp: reverb_out_def Let_def d case_prod_beta split: if_split_asm)
    then show ?thesis unfolding ab using steps full front True
      by (cases "rv_surround e = 0") (simp_all add: reverb_body_def Let_def s d)
  next
    case False
    have "flush_to_zero (l * (1 - rv_feedback e)) = a" "flush_to_zero (r * (1 - rv_feedback e)) = b"
      using ab False by (auto simp: reverb_out_def Let_def d)
    then show ?thesis unfolding ab using steps full False
      by (simp add: reverb_body_def Let_def s d)
  qed
qed

lemma reverb_start:
  fixes e :: "'s::floor_ceiling reverb" and slot :: "'s sample_buffer"
  assumes "0 \<le> rv_dtime_msec e" "0 < fb_srate e"
  defines "e1 \<equiv> refresh_op reverb_class (reverb_init slot e)"
  shows "e1 = reverb_after e1 []" "0 < rv_dtime e1" "rv_dtime e1 = fst (delay_samples (rv_dtime_msec e) (fb_srate e))"
    "rv_surround e1 = rv_surround e" "rv_feedback e1 = rv_feedback e"
proof -
  obtain d ms where dm: "delay_samples (rv_dtime_msec e) (fb_srate e) = (d, ms)" by fastforce
  have i: "reverb_init slot e = (effect_base_init slot e)\<lparr>rv_dtime := d, rv_dtime_msec := ms, rv_buffer := [[], []]\<rparr>"
    by (rule reverb.equality) (simp_all add: reverb_init_def reverb_set_parameter_def dm effect_base_init_def map_replicate_const Let_def numeral_2_eq_2)
  have idem: "delay_samples ms (fb_srate e) = (d, ms)"
    using delay_samples_idem[OF assms(2), of "rv_dtime_msec e"] dm by simp
  have e1: "e1 = (effect_base_init slot e)\<lparr>rv_dtime := d, rv_dtime_msec := ms, rv_buffer := [[], []]\<rparr>"
    unfolding e1_def i
    by (rule reverb.equality) (simp_all add: refresh_op_def upt_rec numeral_3_eq_3 reverb_class_def reverb_set_parameter_def
        reverb_get_parameter_def effect_base_init_def idem)
  show "e1 = reverb_after e1 []" by (simp add: e1 reverb_after_def)
  show "rv_dtime e1 = fst (delay_samples (rv_dtime_msec e) (fb_srate e))" by (simp add: e1 dm)
  then show "0 < rv_dtime e1" using delay_samples_pos[OF assms(1), of "fb_srate e"] assms(2) by simp
  show "rv_surround e1 = rv_surround e" "rv_feedback e1 = rv_feedback e" by (simp_all add: e1 effect_base_init_def)
qed

lemma reverb_stream:
  fixes e :: "'s::floor_ceiling reverb" and slot :: "'s sample_buffer"
  assumes "0 \<le> rv_dtime_msec e" "0 < fb_srate e" "blocks_ok n bufs" "2 \<le> n"
  defines "e1 \<equiv> refresh_op reverb_class (reverb_init slot e)"
  shows "\<exists>e' bufs'. process_blocks (\<lambda>e b. reverb_process b e) e1 bufs = Inr (e', bufs') \<and> blocks_ok n bufs' \<and>
    map sb_buffersize bufs' = map sb_buffersize bufs \<and>
    (\<forall>t < length (signal 0 bufs). (signal 0 bufs' ! t, signal 1 bufs' ! t) =
       reverb_out e1 (take t (zip (signal 0 bufs') (signal 1 bufs'))) (signal 0 bufs ! t, signal 1 bufs ! t)) \<and>
    (\<forall>c. 2 \<le> c \<longrightarrow> c < n \<longrightarrow> signal c bufs' = signal c bufs)"
proof -
  note s = reverb_start[OF assms(1,2), of slot, folded e1_def]
  have "reverb_good (reverb_after e1 [])" using s(2) by (simp add: reverb_good_def reverb_after_def)
  from reverb.feedback_stream[of "\<lambda>e b. reverb_process b e" n bufs "reverb_after e1" "reverb_out e1", OF _ assms(3,4) this]
  show ?thesis using reverb_body_after[OF s(2)] s(1) by (auto simp: reverb_process_def)
qed


subsection \<open>Echoes\<close>

definition echo_queues :: "nat \<Rightarrow> nat \<Rightarrow> (nat \<Rightarrow> ('s \<times> 's) list) \<Rightarrow> 's list list list" where
  "echo_queues d N H =
     [map (\<lambda>k. map fst (recent (d * (k + 1)) (H k))) [0..<N], map (\<lambda>k. map snd (recent (d * (k + 1)) (H k))) [0..<N]]"

definition echo_after :: "'s::floor_ceiling echo \<Rightarrow> ('s \<times> 's) list \<Rightarrow> 's echo" where
  "echo_after e H =
     (let d = nat (ec_dtime e); N = nat \<lceil>ec_dnum e\<rceil>
      in e\<lparr>ec_buffer := echo_queues d N (\<lambda>_. H), ec_laskuri := of_nat (min (length H) (d * N))\<rparr>)"

text \<open>What the delay number \<open>k\<close> contributes when the frames \<open>H\<close> have passed.\<close>

definition echo_of :: "'s::floor_ceiling echo \<Rightarrow> ('s \<times> 's) list \<Rightarrow> nat \<Rightarrow> 's \<times> 's" where
  "echo_of e H k =
     (let d = nat (ec_dtime e) * (k + 1)
      in if d \<le> length H then surround_taps (truncated (ec_surround e)) k (fst (H ! (length H - d))) (snd (H ! (length H - d)))
         else (0, 0))"

definition echo_out :: "'s::floor_ceiling echo \<Rightarrow> ('s \<times> 's) list \<Rightarrow> 's \<times> 's \<Rightarrow> 's \<times> 's" where
  "echo_out e H x =
     (let N = nat \<lceil>ec_dnum e\<rceil>; mix = ec_mix e;
          total = (\<lambda>f. \<Sum>k<N. f (echo_of e H k) * ec_feedback e ^ (k + 1) / ec_dnum e)
      in (fst x * (1 - mix) + total fst * mix, snd x * (1 - mix) + total snd * mix))"

definition echo_live :: "'s::floor_ceiling echo \<Rightarrow> bool" where
  "echo_live e \<longleftrightarrow> 0 < ec_dtime e \<and> (\<exists>N. ec_dnum e = of_nat N)"

lemma map_upt_update: "n < N \<Longrightarrow> (map f [0..<N])[n := x] = map (\<lambda>k. if k = n then x else f k) [0..<N]"
  by (rule nth_equalityI) (auto simp: nth_list_update)

lemma echo_queues_update:
  assumes "k < N"
  shows "(echo_queues d N H)[0 := (echo_queues d N H ! 0)[k := map fst (recent (d * (k + 1)) H')],
      1 := (echo_queues d N H ! 1)[k := map snd (recent (d * (k + 1)) H')]] = echo_queues d N (H(k := H'))"
  using assms by (simp add: echo_queues_def map_upt_update)

lemma echo_taps_fold:
  fixes e :: "'s::floor_ceiling echo"
  assumes live: "echo_live e" and n: "n \<le> nat \<lceil>ec_dnum e\<rceil>"
  defines "d \<equiv> nat (ec_dtime e)" and "N \<equiv> nat \<lceil>ec_dnum e\<rceil>"
  shows "fold_result (echo_tap (echo_after e H) l r) [0..<n] (1, 0, 0, echo_queues d N (\<lambda>_. H)) =
    Inr (ec_feedback e ^ n, \<Sum>k<n. fst (echo_of e H k) * ec_feedback e ^ (k + 1) / ec_dnum e,
      \<Sum>k<n. snd (echo_of e H k) * ec_feedback e ^ (k + 1) / ec_dnum e,
      echo_queues d N (\<lambda>k. if k < n then H @ [(l, r)] else H))"
  using n
proof (induction n)
  case (Suc n)
  have d: "0 < d" "ec_dtime e = int d" using live by (simp_all add: echo_live_def d_def)
  have nN: "n < N" using Suc.prems by (simp add: N_def)
  define Hs where "Hs = (\<lambda>k. if k < n then H @ [(l, r)] else H)"
  define j where "j = d * (n + 1)"
  have j: "0 < j" "j \<le> d * N" using d(1) nN mult_le_mono2[of "n + 1" N d] by (simp_all add: j_def)
  have Hn: "Hs n = H" "Hs(n := H @ [(l, r)]) = (\<lambda>k. if k < Suc n then H @ [(l, r)] else H)"
    by (auto simp: Hs_def less_Suc_eq)
  have reads: "read_cell (echo_queues d N Hs) 0 n = Inr (map fst (recent j H))"
      "read_cell (echo_queues d N Hs) 1 n = Inr (map snd (recent j H))"
    using nN Hn(1) by (simp_all add: read_cell_def echo_queues_def j_def)
  define B1 where "B1 = (echo_queues d N Hs)[0 := (echo_queues d N Hs ! 0)[n := map fst (recent j (H @ [(l, r)]))]]"
  have writes: "write_cell 0 n (map fst (recent j (H @ [(l, r)]))) (echo_queues d N Hs) = Inr B1"
      "write_cell 1 n (map snd (recent j (H @ [(l, r)]))) B1 = Inr (echo_queues d N (Hs(n := H @ [(l, r)])))"
    using nN echo_queues_update[OF nN, of d Hs "H @ [(l, r)]"]
    by (simp_all add: write_cell_def B1_def echo_queues_def j_def)
  have due: "(ec_laskuri (echo_after e H) \<ge> of_int (ec_dtime (echo_after e H) * (int n + 1))) = (j \<le> length H)"
  proof -
    have "(of_int (int d * (int n + 1)) :: 's) = of_nat j" by (simp add: j_def algebra_simps)
    then show ?thesis using j(2) d(2) by (simp add: echo_after_def Let_def min_le_iff_disj flip: d_def N_def)
  qed
  have p: "ec_feedback (echo_after e H) = ec_feedback e" "ec_surround (echo_after e H) = ec_surround e" "ec_dnum (echo_after e H) = ec_dnum e"
    by (simp_all add: echo_after_def Let_def)
  have taps: "bind_result
       (if ec_laskuri (echo_after e H) \<ge> of_int (ec_dtime (echo_after e H) * (int n + 1))
        then (case (map fst (recent j H), map snd (recent j H)) of
                (fl # ql', fr # qr') \<Rightarrow>
                  (case surround_taps (truncated (ec_surround (echo_after e H))) n fl fr of
                     (a, b) \<Rightarrow> Inr (a * (ec_feedback e ^ n * ec_feedback e), b * (ec_feedback e ^ n * ec_feedback e), ql', qr'))
              | _ \<Rightarrow> Inl Undefined_behaviour)
        else Inr (0, 0, map fst (recent j H), map snd (recent j H))) F =
      F (fst (echo_of e H n) * ec_feedback e ^ (n + 1), snd (echo_of e H n) * ec_feedback e ^ (n + 1),
         map fst (if j \<le> length H then tl (recent j H) else recent j H), map snd (if j \<le> length H then tl (recent j H) else recent j H))"
    for F :: "'s \<times> 's \<times> 's list \<times> 's list \<Rightarrow> ('s \<times> 's \<times> 's \<times> 's list list list) result"
  proof (cases "j \<le> length H")
    case True
    then obtain z zs where z: "recent j H = z # zs" "z = H ! (length H - j)"
      using hd_recent[OF j(1) True] by (metis list.collapse)
    show ?thesis unfolding due using True z
      by (simp add: p echo_of_def Let_def case_prod_beta ac_simps flip: d_def j_def) (simp add: j_def algebra_simps)
  next
    case False
    then show ?thesis unfolding due
      by (simp add: echo_of_def Let_def flip: d_def) (simp add: j_def algebra_simps)
  qed
  have snoc: "map f (if j \<le> length H then tl (recent j H) else recent j H) @ [f (l, r)] = map f (recent j (H @ [(l, r)]))" for f :: "'s \<times> 's \<Rightarrow> 's"
    using recent_snoc[OF j(1), of H "(l, r)"] by simp
  have "echo_tap (echo_after e H) l r n (ec_feedback e ^ n, u, v, echo_queues d N Hs) =
      Inr (ec_feedback e ^ Suc n, u + fst (echo_of e H n) * ec_feedback e ^ (n + 1) / ec_dnum e,
        v + snd (echo_of e H n) * ec_feedback e ^ (n + 1) / ec_dnum e, echo_queues d N (Hs(n := H @ [(l, r)])))" for u v
    unfolding echo_tap_def split_conv Let_def p(1) reads bind_result_simps taps[unfolded split_conv]
    using snoc[of fst] snoc[of snd] writes by (simp add: p(3) ac_simps)
  then show ?case using Suc.IH Suc.prems by (simp add: fold_result_append Hs_def Hn(2)[unfolded Hs_def])
qed simp

lemma echo_body_after:
  fixes e :: "'s::floor_ceiling echo"
  assumes live: "echo_live e"
  shows "echo_body (echo_after e H) l r = Inr (echo_after e (H @ [(l, r)]), echo_out e H (l, r))"
proof -
  define d where "d = nat (ec_dtime e)"
  obtain N where N: "ec_dnum e = of_nat N" using live by (auto simp: echo_live_def)
  have d: "0 < d" "ec_dtime e = int d" "nat (ec_dtime e) = d" using live by (simp_all add: echo_live_def d_def)
  have NN: "nat \<lceil>ec_dnum e\<rceil> = N" "nat \<lceil>of_nat N :: 's\<rceil> = N" by (simp_all add: N)
  have a: "ec_dnum (echo_after e H) = ec_dnum e" "ec_buffer (echo_after e H) = echo_queues d N (\<lambda>_. H)"
      "ec_mix (echo_after e H) = ec_mix e" "ec_laskuri (echo_after e H) = of_nat (min (length H) (d * N))"
      "ec_dtime (echo_after e H) = int d"
    by (simp_all add: echo_after_def Let_def d NN)
  have q: "echo_queues d N (\<lambda>k. if k < N then H' else H) = echo_queues d N (\<lambda>_. H')" for H' by (simp add: echo_queues_def)
  have less: "(of_nat (min (length H) (d * N)) < (of_int (int d) * of_nat N :: 's)) = (length H < d * N)"
    by (simp add: min_less_iff_disj flip: of_nat_mult)
  have nxt: "(echo_after e H)\<lparr>ec_buffer := echo_queues d N (\<lambda>_. H @ [(l, r)]),
      ec_laskuri := (if length H < d * N then of_nat (min (length H) (d * N)) + 1 else of_nat (min (length H) (d * N)))\<rparr> =
      echo_after e (H @ [(l, r)])"
    by (auto simp: echo_after_def Let_def d NN min_def intro!: echo.equality)
  have taps: "fold_result (echo_tap (echo_after e H) l r) [0..<N] (1, 0, 0, echo_queues d N (\<lambda>_. H)) =
      Inr (ec_feedback e ^ N, \<Sum>k<N. fst (echo_of e H k) * ec_feedback e ^ (k + 1) / of_nat N,
        \<Sum>k<N. snd (echo_of e H k) * ec_feedback e ^ (k + 1) / of_nat N, echo_queues d N (\<lambda>_. H @ [(l, r)]))"
    using echo_taps_fold[OF live, of N H l r] unfolding NN d(3) N by (simp add: q)
  show ?thesis
    unfolding echo_body_def a NN taps bind_result_simps split_conv N less nxt
    by (simp add: echo_out_def Let_def N)
qed

interpretation echo: pair_effect echo_body "\<lambda>e. \<exists>e0 H. echo_live e0 \<and> e = echo_after e0 H"
  "\<lambda>e (l, r). projr (echo_body e l r)"
proof unfold_locales
  fix e :: "'s::floor_ceiling echo" and l r assume "\<exists>e0 H. echo_live e0 \<and> e = echo_after e0 H"
  then obtain e0 H where "echo_live e0" "e = echo_after e0 H" by blast
  then show "echo_body e l r = Inr (case (l, r) of (l, r) \<Rightarrow> projr (echo_body e l r)) \<and>
      (\<exists>e0 H. echo_live e0 \<and> fst (case (l, r) of (l, r) \<Rightarrow> projr (echo_body e l r)) = echo_after e0 H)"
    using echo_body_after[of e0 H l r] by auto
qed

lemma echo_init_eq:
  assumes "delay_samples (ec_dtime_msec e) (fb_srate e) = (d, ms)"
  shows "\<exists>z. echo_init slot e = (effect_base_init slot e)\<lparr>ec_dtime := d, ec_dtime_msec := ms, ec_laskuri := z, ec_buffer := [[], []]\<rparr>"
proof
  show "echo_init slot e = (effect_base_init slot e)\<lparr>ec_dtime := d, ec_dtime_msec := ms,
      ec_laskuri := ec_laskuri (echo_set_parameter 1 (ec_dtime_msec e) (effect_base_init slot e)), ec_buffer := [[], []]\<rparr>"
    by (rule echo.equality)
      (simp_all add: echo_init_def echo_set_parameter_def assms effect_base_init_def map_replicate_const Let_def numeral_2_eq_2)
qed

text \<open>
  The loop of \<open>init\<close> that clears the vectors instead of the queues leaves no queue: without a refresh of
  the parameters, which a chain does, the first frame is undefined behaviour.
\<close>

lemma echo_init_alone_faults:
  assumes "sb_wf slot" "2 \<le> sb_channel_count slot" "0 < sb_buffersize slot" "0 < ec_dnum e"
  shows "echo_process slot (echo_init slot e) = Inl Undefined_behaviour"
proof -
  obtain d ms where dm: "delay_samples (ec_dtime_msec e) (fb_srate e) = (d, ms)" by fastforce
  obtain z where i: "echo_init slot e = (effect_base_init slot e)\<lparr>ec_dtime := d, ec_dtime_msec := ms, ec_laskuri := z, ec_buffer := [[], []]\<rparr>"
    using echo_init_eq[OF dm] by blast
  define e1 where "e1 = echo_init slot e"
  have e1: "ec_buffer e1 = [[], []]" "ec_dnum e1 = ec_dnum e" by (simp_all add: e1_def i effect_base_init_def)
  have "0 < nat \<lceil>ec_dnum e1\<rceil>" using assms(4) e1(2) by simp
  then obtain m where m: "nat \<lceil>ec_dnum e1\<rceil> = Suc m" using gr0_implies_Suc by blast
  have body: "echo_body e1 l r = Inl Undefined_behaviour" for l r
    by (simp add: echo_body_def m upt_rec[of 0] echo_tap_def e1(1) read_cell_def Let_def del: upt_Suc)
  note w = sb_wfD[OF assms(1)]
  have "2 \<le> length (sb_arrays slot)" "length (sb_arrays slot ! 0) = sb_reserved slot" "length (sb_arrays slot ! 1) = sb_reserved slot"
    using assms(2) w(1) w(3)[of "0 :: nat"] w(3)[of "1 :: nat"] by fastforce+
  then have "at_pair echo_body 0 (e1, sb_arrays slot) = Inl Undefined_behaviour"
    using assms(3) w(2) by (simp add: at_pair_def read_cell_def body)
  then show ?thesis
    using assms(2,3) by (simp add: echo_process_def each_pair_def with_arrays_def upt_rec[of 0] flip: e1_def)
qed

lemma echo_start:
  fixes e :: "'s::floor_ceiling echo" and slot :: "'s sample_buffer"
  assumes "0 \<le> ec_dtime_msec e" "0 < fb_srate e" "ec_dnum e = of_nat N" "0 < N" "ec_feedback e \<noteq> 0" "ec_feedback e \<le> 1"
  defines "e1 \<equiv> refresh_op echo_class (echo_init slot e)"
  shows "e1 = echo_after e1 []" "echo_live e1" "ec_dtime e1 = fst (delay_samples (ec_dtime_msec e) (fb_srate e))"
    "ec_surround e1 = ec_surround e" "ec_feedback e1 = ec_feedback e" "ec_mix e1 = ec_mix e" "ec_dnum e1 = of_nat N"
proof -
  obtain d ms where dm: "delay_samples (ec_dtime_msec e) (fb_srate e) = (d, ms)" by fastforce
  obtain z where i: "echo_init slot e = (effect_base_init slot e)\<lparr>ec_dtime := d, ec_dtime_msec := ms, ec_laskuri := z, ec_buffer := [[], []]\<rparr>"
    using echo_init_eq[OF dm] by blast
  have idem: "delay_samples ms (fb_srate e) = (d, ms)"
    using delay_samples_idem[OF assms(2), of "ec_dtime_msec e"] dm by simp
  have e1: "e1 = (effect_base_init slot e)\<lparr>ec_dtime := d, ec_dtime_msec := ms, ec_laskuri := 0, ec_buffer := [replicate N [], replicate N []]\<rparr>"
    unfolding e1_def i
    by (rule echo.equality) (use assms(3-6) in \<open>simp_all add: refresh_op_def upt_rec echo_class_def echo_set_parameter_def
        echo_get_parameter_def effect_base_init_def idem\<close>)
  have d0: "0 < d" using delay_samples_pos[OF assms(1), of "fb_srate e"] assms(2) dm by simp
  show "ec_dtime e1 = fst (delay_samples (ec_dtime_msec e) (fb_srate e))" "ec_surround e1 = ec_surround e"
      "ec_feedback e1 = ec_feedback e" "ec_mix e1 = ec_mix e" "ec_dnum e1 = of_nat N"
    using dm assms(3) by (simp_all add: e1 effect_base_init_def)
  show "echo_live e1" using d0 assms(3) by (simp add: echo_live_def e1 effect_base_init_def)
  show "e1 = echo_after e1 []"
    by (rule echo.equality) (simp_all add: e1 echo_after_def echo_queues_def effect_base_init_def assms(3) Let_def map_replicate_const)
qed

text \<open>
  C11. The echo effect, from a chain's initialisation on and however the stream is cut into buffers: every
  output frame is the input frame, weighted, plus the mean of the delayed frames, the one after
  \<open>k\<close> delays reduced \<open>k\<close> times by the feedback, and placed by the surround mode.
\<close>

theorem echo_is_delayed_copies:
  fixes e :: "'s::floor_ceiling echo" and slot :: "'s sample_buffer"
  assumes "0 \<le> ec_dtime_msec e" "0 < fb_srate e" "ec_dnum e = of_nat N" "0 < N" "ec_feedback e \<noteq> 0" "ec_feedback e \<le> 1"
    and "blocks_ok n bufs" "2 \<le> n"
  shows "\<exists>e' bufs'. process_blocks (\<lambda>e b. echo_process b e) (refresh_op echo_class (echo_init slot e)) bufs = Inr (e', bufs') \<and>
    map sb_buffersize bufs' = map sb_buffersize bufs \<and>
    (\<forall>t < length (signal 0 bufs).
       (let d = nat (fst (delay_samples (ec_dtime_msec e) (fb_srate e)));
            tap = (\<lambda>k. if d * (k + 1) \<le> t
                       then surround_taps (truncated (ec_surround e)) k (signal 0 bufs ! (t - d * (k + 1))) (signal 1 bufs ! (t - d * (k + 1)))
                       else (0, 0));
            total = (\<lambda>f. \<Sum>k<N. f (tap k) * ec_feedback e ^ (k + 1) / of_nat N)
        in signal 0 bufs' ! t = signal 0 bufs ! t * (1 - ec_mix e) + total fst * ec_mix e \<and>
           signal 1 bufs' ! t = signal 1 bufs ! t * (1 - ec_mix e) + total snd * ec_mix e))"
proof -
  define e1 where "e1 = refresh_op echo_class (echo_init slot e)"
  note s = echo_start[OF assms(1-6), of slot, folded e1_def]
  have good: "\<exists>e0 H. echo_live e0 \<and> echo_after e1 [] = echo_after e0 H" using s(2) by blast
  from echo.history_stream[of "\<lambda>e b. echo_process b e" n bufs "echo_after e1" "echo_out e1", OF _ assms(7,8) good]
  obtain bufs' where 1: "process_blocks (\<lambda>e b. echo_process b e) (echo_after e1 []) bufs =
        Inr (echo_after e1 (zip (signal 0 bufs) (signal 1 bufs)), bufs')"
      "map sb_buffersize bufs' = map sb_buffersize bufs"
      "\<forall>t < length (signal 0 bufs). (signal 0 bufs' ! t, signal 1 bufs' ! t) =
         echo_out e1 (take t (zip (signal 0 bufs) (signal 1 bufs))) (signal 0 bufs ! t, signal 1 bufs ! t)"
    using echo_body_after[OF s(2)] by (auto simp: echo_process_def)
  have len: "length (signal 1 bufs) = length (signal 0 bufs)" using length_signal[OF assms(7)] assms(8) by simp
  define d where "d = nat (ec_dtime e1)"
  have d0: "0 < d" using s(2) by (simp add: d_def echo_live_def)
  have tap: "echo_of e1 (take t (zip (signal 0 bufs) (signal 1 bufs))) k =
      (if d * (k + 1) \<le> t
       then surround_taps (truncated (ec_surround e)) k (signal 0 bufs ! (t - d * (k + 1))) (signal 1 bufs ! (t - d * (k + 1)))
       else (0, 0))" if "t < length (signal 0 bufs)" for t k
  proof -
    have "t - d * (k + 1) < t" if "d * (k + 1) \<le> t" using that d0 by simp
    then show ?thesis using that len d0 by (simp add: echo_of_def Let_def s(4) min_def flip: d_def)
  qed
  have N: "nat \<lceil>ec_dnum e1\<rceil> = N" by (simp add: s(7))
  show ?thesis
    unfolding e1_def[symmetric] s(3)[symmetric] d_def[symmetric]
  proof (intro exI conjI allI impI)
    show "process_blocks (\<lambda>e b. echo_process b e) e1 bufs = Inr (echo_after e1 (zip (signal 0 bufs) (signal 1 bufs)), bufs')"
      using 1(1) s(1) by simp
    fix t assume t: "t < length (signal 0 bufs)"
    then have "(signal 0 bufs' ! t, signal 1 bufs' ! t) =
        echo_out e1 (take t (zip (signal 0 bufs) (signal 1 bufs))) (signal 0 bufs ! t, signal 1 bufs ! t)" using 1(3) by blast
    then show "let d = d; tap = (\<lambda>k. if d * (k + 1) \<le> t
                       then surround_taps (truncated (ec_surround e)) k (signal 0 bufs ! (t - d * (k + 1))) (signal 1 bufs ! (t - d * (k + 1)))
                       else (0, 0));
            total = (\<lambda>f. \<Sum>k<N. f (tap k) * ec_feedback e ^ (k + 1) / of_nat N)
        in signal 0 bufs' ! t = signal 0 bufs ! t * (1 - ec_mix e) + total fst * ec_mix e \<and>
           signal 1 bufs' ! t = signal 1 bufs ! t * (1 - ec_mix e) + total snd * ec_mix e"
      unfolding echo_out_def Let_def N tap[OF t] s(5-7) by simp
  qed (use 1 in simp)
qed

text \<open>
  Setting the number of delays while the effect runs, even to the same value, keeps the queues but
  restarts the count: the delay grows by what is in the queues. Here a delay of one sample becomes one
  of two.
\<close>

lemma echo_setting_count_grows_delay:
  fixes e :: "rat echo"
  defines "e \<equiv> \<lparr>fb_srate = 1000, fb_channels = 2, ec_surround = 0, ec_dnum = 1, ec_dtime = 1, ec_dtime_msec = 1, ec_mix = 1,
    ec_feedback = 1, ec_laskuri = 0, ec_buffer = [[[]], [[]]]\<rparr>"
  shows "\<exists>e1 e2 e3 e4 e5. echo_body e 10 10 = Inr (e1, 0, 0) \<and> echo_body e1 20 20 = Inr (e2, 10, 10) \<and>
    echo_body (echo_set_parameter 3 1 e2) 30 30 = Inr (e3, 0, 0) \<and> echo_body e3 40 40 = Inr (e4, 20, 20) \<and>
    echo_body e4 50 50 = Inr (e5, 30, 30)"
  by (simp add: e_def echo_body_def echo_tap_def read_cell_def write_cell_def surround_taps_def echo_set_parameter_def Let_def resize_def)

lemma echo_is_delayed_copies_witness:
  "\<exists>e' bufs'. process_blocks (\<lambda>e b. echo_process b e)
      (refresh_op echo_class (echo_init stereo_buffer (echo_create (1 / 1000) 0 2 50 50))) [stereo_buffer, stereo_buffer] = Inr (e', bufs') \<and>
    map sb_buffersize bufs' = [2, 2]"
proof -
  define e where "e = echo_create (1 / 1000 :: rat) 0 2 50 50"
  have e: "0 \<le> ec_dtime_msec e" "0 < fb_srate e" "ec_dnum e = of_nat 2" "0 < (2 :: nat)" "ec_feedback e \<noteq> 0" "ec_feedback e \<le> 1"
    by (simp_all add: e_def echo_create_def echo_set_parameter_def delay_samples_def check_for_zerodelay_def truncated_def)
  have b: "blocks_ok 2 [stereo_buffer, stereo_buffer]" using stereo_buffer_wf by (simp add: stereo_buffer_def)
  have "map sb_buffersize [stereo_buffer, stereo_buffer] = [2, 2]" by (simp add: stereo_buffer_def)
  then show ?thesis using echo_is_delayed_copies[OF e b, of stereo_buffer] unfolding e_def by auto
qed


end
