(* ===== verification/Multitap_Facts.thy ===== *)
theory Multitap_Facts
  imports Time_Effects_Facts
begin

text \<open>
  The multitap delay: every channel is a transducer of its own, a sum of equally spaced copies of its
  input. Raising the number of delays while it runs leads outside its tables.
\<close>

subsection \<open>The multitap delay\<close>

definition multitap_good :: "nat \<Rightarrow> 's::floor_ceiling multitap \<Rightarrow> bool" where
  "multitap_good n e \<longleftrightarrow> fb_channels e = n \<and> length (mt_index e) = n \<and> length (mt_filled e) = n \<and> length (mt_buffer e) = n \<and>
     0 < mt_dtime e \<and> 0 < mt_dnum e \<and>
     (\<forall>c < n. 0 \<le> mt_index e ! c \<and> mt_index e ! c < mt_dtime e * mt_dnum e \<and>
        mt_dnum e \<le> int (length (mt_filled e ! c)) \<and> mt_dtime e * mt_dnum e \<le> int (length (mt_buffer e ! c)))"

text \<open>The state of a channel: the index, the flags and the ring.\<close>

type_synonym 's tap_state = "int \<times> bool list \<times> 's list"

definition multitap_state :: "'s multitap \<Rightarrow> nat \<Rightarrow> 's tap_state" where
  "multitap_state e c = (mt_index e ! c, mt_filled e ! c, mt_buffer e ! c)"

definition tap_step :: "int \<Rightarrow> int \<Rightarrow> 's::floor_ceiling \<Rightarrow> 's tap_state \<Rightarrow> 's \<Rightarrow> 's tap_state \<times> 's" where
  "tap_step d n mix = (\<lambda>(idx, filled, ring) x.
     let len = d * n;
         taps = (\<Sum>k<nat n. if filled ! k then ring ! nat ((idx + int k * d) mod len) else 0)
     in ((if idx = 0 then len - 1 else idx - 1,
          map (\<lambda>k. (k < nat n \<and> idx - 1 < len - d * int k) \<or> filled ! k) [0..<length filled], ring[nat idx := x]),
         x * (1 - mix) + taps * mix / of_int n))"

definition multitap_step :: "'s::floor_ceiling multitap \<Rightarrow> 's tap_state \<Rightarrow> 's \<Rightarrow> 's tap_state \<times> 's" where
  "multitap_step e = tap_step (mt_dtime e) (mt_dnum e) (mt_mix e)"

lemma fold_set_flags:
  assumes "c < length fs" "n \<le> length (fs ! c)"
  shows "fold_result (\<lambda>k filled. if P k then write_cell c k True filled else Inr filled) [0..<n] fs =
    Inr (fs[c := map (\<lambda>k. (k < n \<and> P k) \<or> fs ! c ! k) [0..<length (fs ! c)]])"
  using assms(2)
proof (induction n)
  case 0
  have "fs[c := map (\<lambda>k. fs ! c ! k) [0..<length (fs ! c)]] = fs" using assms(1) by (simp add: map_nth)
  then show ?case by simp
next
  case (Suc n)
  have "(map (\<lambda>k. (k < n \<and> P k) \<or> fs ! c ! k) [0..<length (fs ! c)])[n := True] =
      map (\<lambda>k. (k < Suc n \<and> P k) \<or> fs ! c ! k) [0..<length (fs ! c)]" if "P n"
    using Suc.prems that by (auto intro!: nth_equalityI simp: nth_list_update less_Suc_eq split: if_split_asm)
  moreover have "map (\<lambda>k. (k < n \<and> P k) \<or> fs ! c ! k) [0..<length (fs ! c)] =
      map (\<lambda>k. (k < Suc n \<and> P k) \<or> fs ! c ! k) [0..<length (fs ! c)]" if "\<not> P n"
    using that by (auto simp: less_Suc_eq)
  ultimately show ?case using Suc assms(1) by (simp add: fold_result_append write_cell_def del: map_eq_conv)
qed

lemma multitap_body_ok:
  assumes good: "multitap_good n e" and c: "c < n"
  shows "\<exists>e'. multitap_body c e x = Inr (e', snd (multitap_step e (multitap_state e c) x)) \<and> multitap_good n e' \<and>
    multitap_step e' = multitap_step e \<and>
    (\<forall>i < n. multitap_state e' i = (if i = c then fst (multitap_step e (multitap_state e c) x) else multitap_state e i))"
proof -
  define d m len idx where "d = mt_dtime e" and "m = mt_dnum e" and "len = d * m" and "idx = mt_index e ! c"
  have g: "length (mt_index e) = n" "length (mt_filled e) = n" "length (mt_buffer e) = n" "0 < d" "0 < m" "0 \<le> idx" "idx < len"
      "m \<le> int (length (mt_filled e ! c))" "len \<le> int (length (mt_buffer e ! c))"
    using good c by (simp_all add: multitap_good_def d_def m_def len_def idx_def)
  have len0: "0 < len" using g(4,5) by (simp add: len_def)
  have read: "read_signed (mt_buffer e) c ((idx + int k * d) smod len) =
      Inr (mt_buffer e ! c ! nat ((idx + int k * d) mod len))" for k
  proof -
    have "0 \<le> idx + int k * d" using g(4,6) by simp
    then have s: "(idx + int k * d) smod len = (idx + int k * d) mod len"
      using len0 by (cases "idx + int k * d = 0") (simp_all add: signed_modulo_int_def)
    show ?thesis unfolding s
      by (rule read_signed_ok) (use g(3) c pos_mod_sign[OF len0] less_le_trans[OF pos_mod_bound[OF len0] g(9)] in simp_all)
  qed
  define taps where "taps = (\<Sum>k<nat m. if mt_filled e ! c ! k then mt_buffer e ! c ! nat ((idx + int k * d) mod len) else 0)"
  have taps: "multitap_taps c e idx = Inr taps"
    unfolding multitap_taps_def d_def[symmetric] m_def[symmetric] len_def[symmetric] taps_def
    using fold_result_sum[where g = "\<lambda>k. if mt_filled e ! c ! k then mt_buffer e ! c ! nat ((idx + int k * d) mod len) else 0"
        and n = "nat m" and s = 0] g(2,8) c read by (simp add: read_cell_def nat_less_iff)
  define filled where "filled = map (\<lambda>k. (k < nat m \<and> idx - 1 < len - d * int k) \<or> mt_filled e ! c ! k) [0..<length (mt_filled e ! c)]"
  have flags: "fold_result (\<lambda>k filled. if idx - 1 < len - d * int k then write_cell c k True filled else Inr filled) [0..<nat m] (mt_filled e) =
      Inr ((mt_filled e)[c := filled])"
    unfolding filled_def by (rule fold_set_flags) (use g c in simp_all)
  have wr: "write_signed c idx x (mt_buffer e) = Inr ((mt_buffer e)[c := (mt_buffer e ! c)[nat idx := x]])"
    using g c by (intro write_signed_ok) auto
  define e' where "e' = e\<lparr>mt_buffer := (mt_buffer e)[c := (mt_buffer e ! c)[nat idx := x]], mt_filled := (mt_filled e)[c := filled],
      mt_index := (mt_index e)[c := (if idx = 0 then len - 1 else idx - 1)]\<rparr>"
  have body: "multitap_body c e x = Inr (e', x * (1 - mt_mix e) + taps * mt_mix e / of_int m)"
    unfolding multitap_body_def Let_def d_def[symmetric] m_def[symmetric] len_def[symmetric]
    using g(1) c taps wr flags by (simp add: e'_def flip: idx_def)
  have step: "multitap_step e (multitap_state e c) x =
      ((if idx = 0 then len - 1 else idx - 1, filled, (mt_buffer e ! c)[nat idx := x]), x * (1 - mt_mix e) + taps * mt_mix e / of_int m)"
    unfolding multitap_step_def multitap_state_def d_def[symmetric] m_def[symmetric] idx_def[symmetric]
    by (simp add: tap_step_def Let_def filled_def taps_def flip: len_def)
  have "multitap_good n e'"
    unfolding multitap_good_def
  proof (intro conjI allI impI)
    fix i assume i: "i < n"
    then have gi: "0 \<le> mt_index e ! i" "mt_index e ! i < len" "m \<le> int (length (mt_filled e ! i))" "len \<le> int (length (mt_buffer e ! i))"
      using good by (simp_all add: multitap_good_def d_def m_def len_def)
    show "0 \<le> mt_index e' ! i" "mt_index e' ! i < mt_dtime e' * mt_dnum e'" "mt_dnum e' \<le> int (length (mt_filled e' ! i))"
        "mt_dtime e' * mt_dnum e' \<le> int (length (mt_buffer e' ! i))"
      using gi g len0 c by (cases "i = c"; simp add: e'_def filled_def flip: d_def m_def len_def)+
  qed (use good in \<open>simp_all add: multitap_good_def e'_def\<close>)
  moreover have "multitap_step e' = multitap_step e" by (simp add: multitap_step_def e'_def)
  moreover have "\<forall>i < n. multitap_state e' i = (if i = c then fst (multitap_step e (multitap_state e c) x) else multitap_state e i)"
    using g(1-3) c by (auto simp: step[unfolded multitap_state_def] multitap_state_def e'_def)
  ultimately show ?thesis using body step by simp
qed

interpretation multitap: channel_effect multitap_body multitap_good multitap_state multitap_step
  by unfold_locales (rule multitap_body_ok)

text \<open>The state of a channel after the samples \<open>H\<close>.\<close>

definition tap_after :: "nat \<Rightarrow> nat \<Rightarrow> 's::zero list \<Rightarrow> 's tap_state \<Rightarrow> bool" where
  "tap_after D M H = (\<lambda>(idx, filled, ring).
     let L = D * M; T = length H in
     idx = int (L - 1 - T mod L) \<and> M \<le> length filled \<and> L \<le> length ring \<and>
     (\<forall>k < M. filled ! k \<longleftrightarrow> 0 < T \<and> D * k \<le> T) \<and>
     (\<forall>h < T. T \<le> h + L \<longrightarrow> ring ! (L - 1 - h mod L) = H ! h) \<and>
     (\<forall>j. j + T < L \<longrightarrow> ring ! j = 0))"

definition tap_out :: "nat \<Rightarrow> nat \<Rightarrow> 's::floor_ceiling \<Rightarrow> 's list \<Rightarrow> 's \<Rightarrow> 's" where
  "tap_out D M mix H x =
     x * (1 - mix) + (\<Sum>k = 1..M. if D * k \<le> length H then H ! (length H - D * k) else 0) * mix / of_nat M"

lemma tap_position:
  fixes T L j :: nat
  assumes "0 < L" "j \<le> T" "j < L"
  shows "nat ((int (L - 1 - T mod L) + int j) mod int L) = L - 1 - (T - j) mod L"
proof -
  define a where "a = T mod L"
  have a: "a < L" using assms(1) by (simp add: a_def)
  have T: "T = T div L * L + a" by (simp add: a_def)
  show ?thesis
  proof (cases "j \<le> a")
    case True
    have "T - j = T div L * L + (a - j)" using T True by linarith
    then have "(T - j) mod L = a - j" using a True by (metis mod_mult_self3 mod_less less_imp_diff_less)
    moreover have "(L - 1 - a + j) mod L = L - 1 - (a - j)" using a True by simp
    moreover have "(int (L - 1 - a) + int j) mod int L = int ((L - 1 - a + j) mod L)" by (simp add: zmod_int)
    ultimately show ?thesis by (simp flip: a_def)
  next
    case False
    have "L \<le> T" using assms(2) False a T by (metis a_def mod_less not_le_imp_less)
    then have q: "T div L * L = (T div L - 1) * L + L"
      using assms(1) by (metis Suc_diff_1 add.commute div_greater_zero_iff mult_Suc)
    have "T - j = (T div L - 1) * L + (L + a - j)" using T q False assms(3) by linarith
    moreover have "L + a - j < L" using False a assms(3) by linarith
    ultimately have "(T - j) mod L = L + a - j" by (metis mod_mult_self3 mod_less)
    moreover have "L - 1 - a + j = L + (j - a - 1)" "j - a - 1 < L" "L - 1 - (L + a - j) = j - a - 1"
      using False a assms(3) by linarith+
    then have "(L - 1 - a + j) mod L = L - 1 - (L + a - j)" by simp
    moreover have "(int (L - 1 - a) + int j) mod int L = int ((L - 1 - a + j) mod L)" by (simp add: zmod_int)
    ultimately show ?thesis by (simp flip: a_def)
  qed
qed

lemma mod_distinct: "h < T \<Longrightarrow> T < h + L \<Longrightarrow> h mod L \<noteq> T mod (L :: nat)"
  by (metis add_diff_cancel_left' le_add_diff_inverse less_imp_le mod_eq_dvd_iff_nat nat_dvd_not_less nat_add_left_cancel_less zero_less_diff)

lemma tap_step_after:
  assumes "tap_after D M H m" "0 < D" "0 < M"
  shows "tap_after D M (H @ [x]) (fst (tap_step (int D) (int M) mix m x)) \<and>
    snd (tap_step (int D) (int M) mix m x) = tap_out D M mix H x"
proof -
  obtain idx filled ring where m: "m = (idx, filled, ring)" by (metis surj_pair)
  define L T where "L = D * M" and "T = length H"
  have i: "idx = int (L - 1 - T mod L)" "M \<le> length filled" "L \<le> length ring"
      "\<And>k. k < M \<Longrightarrow> filled ! k \<longleftrightarrow> 0 < T \<and> D * k \<le> T"
      "\<And>h. h < T \<Longrightarrow> T \<le> h + L \<Longrightarrow> ring ! (L - 1 - h mod L) = H ! h"
      "\<And>j. j + T < L \<Longrightarrow> ring ! j = 0"
    using assms(1) by (auto simp: tap_after_def m Let_def L_def T_def)
  have L0: "0 < L" using assms(2,3) by (simp add: L_def)
  have TL: "T mod L < L" using L0 by simp
  have DkL: "D * k + D \<le> L" if "k < M" for k
    using that mult_le_mono2[of "k + 1" M D] by (simp add: L_def)
  define g where "g = (\<lambda>k. if filled ! k then ring ! nat ((idx + int k * int D) mod (int D * int M)) else 0)"
  have g: "g k = (if D * k \<le> T then H ! (T - D * k) else 0)" if "0 < k" "k < M" for k
  proof (cases "D * k \<le> T")
    case True
    have k0: "0 < D * k" "D * k < L" using that assms(2) DkL[OF that(2)] by auto
    have "nat ((idx + int k * int D) mod (int D * int M)) = L - 1 - (T - D * k) mod L"
      using tap_position[OF L0 True k0(2)] by (simp add: i(1) L_def mult.commute)
    moreover have "ring ! (L - 1 - (T - D * k) mod L) = H ! (T - D * k)"
    proof (rule i(5))
      show "T - D * k < T" "T \<le> T - D * k + L" using True k0 by linarith+
    qed
    ultimately show ?thesis using i(4)[OF that(2)] True k0 by (simp add: g_def)
  next
    case False
    then show ?thesis using i(4)[OF that(2)] by (simp add: g_def)
  qed
  have g0: "g 0 = (if D * M \<le> T then H ! (T - D * M) else 0)"
  proof -
    have "nat ((idx + int 0 * int D) mod (int D * int M)) = L - 1 - T mod L"
    proof -
      have "(L - 1 - T mod L) mod L = L - 1 - T mod L" using L0 by simp
      moreover have "int D * int M = int L" by (simp add: L_def)
      ultimately show ?thesis unfolding i(1) by (simp flip: zmod_int)
    qed
    moreover have "ring ! (L - 1 - T mod L) = H ! (T - L)" if "L \<le> T"
      using i(5)[of "T - L"] that L0 le_mod_geq[OF that] by simp
    moreover have "ring ! (L - 1 - T mod L) = 0" if "\<not> L \<le> T"
      using i(6)[of "L - 1 - T mod L"] that L0 by simp
    ultimately show ?thesis using i(4)[of 0] assms(3) L0 by (auto simp: g_def simp flip: L_def)
  qed
  define tap where "tap = (\<lambda>k. if D * k \<le> T then H ! (T - D * k) else 0)"
  have "(\<Sum>k<M. g k) = g 0 + (\<Sum>k = 1..<M. g k)"
    using assms(3) by (simp add: lessThan_atLeast0 sum.atLeast_Suc_lessThan)
  also have "\<dots> = tap M + (\<Sum>k = 1..<M. tap k)" using g0 g by (simp add: tap_def)
  also have "\<dots> = (\<Sum>k = 1..M. tap k)"
    using assms(3) by (simp add: add.commute sum.last_plus)
  finally have sum: "(\<Sum>k<M. g k) = (\<Sum>k = 1..M. tap k)" .
  have out: "snd (tap_step (int D) (int M) mix m x) = tap_out D M mix H x"
    using sum unfolding g_def tap_def T_def by (simp add: tap_step_def m Let_def tap_out_def)
  define idx' where "idx' = (if idx = 0 then int D * int M - 1 else idx - 1)"
  define filled' where "filled' = map (\<lambda>k. (k < M \<and> idx - 1 < int D * int M - int D * int k) \<or> filled ! k) [0..<length filled]"
  have st: "fst (tap_step (int D) (int M) mix m x) = (idx', filled', ring[nat idx := x])"
    by (simp add: tap_step_def m Let_def idx'_def filled'_def)
  have 1: "idx' = int (L - 1 - Suc T mod L)"
  proof -
    have "int D * int M = int L" by (simp add: L_def)
    moreover obtain a where "T mod L = a" "a < L" "Suc T mod L = (if Suc a = L then 0 else Suc a)" using TL by (simp add: mod_Suc)
    ultimately show ?thesis unfolding idx'_def i(1) by (auto simp: of_nat_diff)
  qed
  have 2: "filled' ! k \<longleftrightarrow> D * k \<le> Suc T" if "k < M" for k
  proof -
    have "idx - 1 < int D * int M - int D * int k \<longleftrightarrow> D * k \<le> 1 + T mod L"
      using DkL[OF that] TL assms(2) unfolding i(1) by (simp add: of_nat_diff L_def flip: of_nat_mult) linarith
    moreover have "D * k \<le> 1 + T mod L \<or> (0 < T \<and> D * k \<le> T) \<longleftrightarrow> D * k \<le> Suc T"
    proof -
      have "Suc (T mod L) \<le> Suc T" by simp
      then have "D * k \<le> Suc T" if "D * k \<le> Suc (T mod L)" using that le_trans by blast
      moreover have "D * k \<le> 1 + T mod L" if "D * k = Suc T" using that DkL[OF \<open>k < M\<close>] by simp
      ultimately show ?thesis by (cases "T = 0") auto
    qed
    ultimately show ?thesis using i(2) i(4)[OF that] that by (simp add: filled'_def)
  qed
  have nat: "nat idx = L - 1 - T mod L" by (simp add: i(1))
  have 3: "ring[nat idx := x] ! (L - 1 - h mod L) = (H @ [x]) ! h" if h: "h < Suc T" "Suc T \<le> h + L" for h
  proof (cases "h = T")
    case True
    then show ?thesis using i(3) TL L0 by (simp add: nat T_def)
  next
    case False
    then have "h < T" "T < h + L" using h by simp_all
    then have "h mod L \<noteq> T mod L" by (rule mod_distinct)
    then have "L - 1 - h mod L \<noteq> nat idx" using TL L0 mod_less_divisor[OF L0, of h] unfolding nat by linarith
    then show ?thesis using i(5)[of h] \<open>h < T\<close> \<open>T < h + L\<close> by (simp add: nth_append T_def)
  qed
  have 4: "ring[nat idx := x] ! j = 0" if "j + Suc T < L" for j
  proof -
    have "j \<noteq> nat idx" using that unfolding nat by simp
    then show ?thesis using i(6)[of j] that by simp
  qed
  have "tap_after D M (H @ [x]) (idx', filled', ring[nat idx := x])"
    unfolding tap_after_def Let_def split_conv
    using 1 2 3 4 i(2,3) by (simp add: filled'_def flip: L_def T_def)
  then show ?thesis using st out by simp
qed

subsection \<open>Streams\<close>

lemma tap_start_after:
  assumes "M \<le> length filled" "D * M \<le> length ring" "0 < D" "0 < M" "\<forall>k < length filled. \<not> filled ! k" "\<forall>j < length ring. ring ! j = 0"
  shows "tap_after D M [] (int D * int M - 1, filled, ring)"
  using assms by (simp add: tap_after_def Let_def of_nat_diff)

lemma multitap_start:
  fixes e :: "'s::floor_ceiling multitap" and slot :: "'s sample_buffer"
  assumes "0 \<le> mt_dtime_msec e" "0 < fb_srate e" "mt_dnum e = int N" "0 < N"
    and "mt_index e = []" "mt_filled e = []" "mt_buffer e = []"
  defines "e1 \<equiv> refresh_op multitap_class (multitap_init slot e)" and "d \<equiv> fst (delay_samples (mt_dtime_msec e) (fb_srate e))"
  shows "mt_dtime e1 = d" "mt_dnum e1 = int N" "mt_mix e1 = mt_mix e" "fb_channels e1 = sb_channel_count slot"
    "mt_index e1 = replicate (sb_channel_count slot) (d * int N - 1)"
    "mt_filled e1 = replicate (sb_channel_count slot) (replicate N False)"
    "mt_buffer e1 = replicate (sb_channel_count slot) (replicate (nat (d * int N)) 0)"
proof -
  obtain ms where dm: "delay_samples (mt_dtime_msec e) (fb_srate e) = (d, ms)" by (metis d_def prod.collapse)
  have d0: "0 < d" using delay_samples_pos[OF assms(1), of "fb_srate e"] assms(2) by (simp add: d_def)
  define c where "c = sb_channel_count slot"
  define e2 where "e2 = e\<lparr>fb_channels := c, mt_dtime := d, mt_dtime_msec := ms, mt_index := replicate c (d * int N - 1),
      mt_filled := replicate c (replicate N False), mt_buffer := replicate c (replicate (nat (d * int N)) 0)\<rparr>"
  have i: "multitap_init slot e = e2"
    by (rule multitap.equality)
      (use assms(3,5-7) in \<open>simp_all add: e2_def multitap_init_def multitap_set_parameter_def multitap_restart_def dm effect_base_init_def Let_def c_def\<close>)
  have idem: "delay_samples ms (fb_srate e) = (d, ms)"
    using delay_samples_idem[OF assms(2), of "mt_dtime_msec e"] dm by simp
  have f: "mt_dtime e2 = d" "mt_dnum e2 = int N" "mt_buffer e2 = replicate c (replicate (nat (d * int N)) 0)"
      "mt_index e2 = replicate c (d * int N - 1)" "mt_filled e2 = replicate c (replicate N False)"
    using assms(3) by (simp_all add: e2_def)
  have r: "multitap_restart e2 = e2"
    by (rule multitap.equality) (use d0 in \<open>simp_all add: multitap_restart_def f Let_def\<close>)
  have p1: "multitap_set_parameter 1 ms e2 = e2"
  proof -
    have "multitap_set_parameter 1 ms e2 = multitap_restart (e2\<lparr>mt_dtime := d, mt_dtime_msec := ms\<rparr>)"
      using idem by (simp add: multitap_set_parameter_def e2_def)
    also have "e2\<lparr>mt_dtime := d, mt_dtime_msec := ms\<rparr> = e2" by (simp add: e2_def)
    finally show ?thesis using r by simp
  qed
  have p2: "multitap_set_parameter 2 (of_int (mt_dnum e2)) e2 = e2"
  proof -
    have "multitap_set_parameter 2 (of_int (mt_dnum e2)) e2 = multitap_restart (e2\<lparr>mt_dnum := mt_dnum e2\<rparr>)"
      using assms(3,4) by (simp add: multitap_set_parameter_def e2_def)
    then show ?thesis using r by simp
  qed
  have p3: "multitap_set_parameter 3 (mt_mix e2 * 100) e2 = e2" by (simp add: multitap_set_parameter_def)
  have "mt_dtime_msec e2 = ms" by (simp add: e2_def)
  then have "e1 = e2"
    unfolding e1_def i refresh_op_def using p1 p2 p3 by (simp add: multitap_class_def multitap_get_parameter_def upt_rec)
  then show "mt_dtime e1 = d" "mt_dnum e1 = int N" "mt_mix e1 = mt_mix e" "fb_channels e1 = sb_channel_count slot"
    "mt_index e1 = replicate (sb_channel_count slot) (d * int N - 1)"
    "mt_filled e1 = replicate (sb_channel_count slot) (replicate N False)"
    "mt_buffer e1 = replicate (sb_channel_count slot) (replicate (nat (d * int N)) 0)"
    using assms(3) by (simp_all add: e2_def c_def)
qed


subsection \<open>Raising the number of delays\<close>

lemma fold_result_faults:
  assumes "\<And>k s. f k s = Inl Undefined_behaviour \<or> is_ok (f k s)" "k \<in> set ks" "\<And>s. f k s = Inl Undefined_behaviour"
  shows "fold_result f ks s = Inl Undefined_behaviour"
  using assms(2)
proof (induction ks arbitrary: s)
  case (Cons k' ks)
  show ?case
  proof (cases "f k' s")
    case (Inl x)
    then show ?thesis using assms(1)[of k' s] by simp
  next
    case (Inr s')
    then have "k \<noteq> k'" using assms(3)[of s] by auto
    then show ?thesis using Cons Inr by simp
  qed
qed simp

lemma multitap_taps_fault:
  assumes "c < length (mt_filled e)" "int (length (mt_filled e ! c)) < mt_dnum e"
  shows "multitap_taps c e idx = Inl Undefined_behaviour"
  unfolding multitap_taps_def
proof (rule fold_result_faults[where k = "length (mt_filled e ! c)"])
  show "length (mt_filled e ! c) \<in> set [0..<nat (mt_dnum e)]" using assms(2) by simp
qed (auto simp: read_cell_def read_signed_def)

text \<open>
  Setting a larger number of delays once the effect has been initialised does not enlarge the table of
  flags: processing the next buffer is undefined behaviour.
\<close>

theorem multitap_more_delays_faults:
  fixes e :: "'s::floor_ceiling multitap" and slot :: "'s sample_buffer"
  assumes "0 \<le> mt_dtime_msec e" "0 < fb_srate e" "mt_dnum e = int N" "0 < N"
    and "mt_index e = []" "mt_filled e = []" "mt_buffer e = []"
    and "sb_wf slot" "0 < sb_channel_count slot" "0 < sb_buffersize slot" "N < m"
  shows "multitap_process slot (multitap_set_parameter 2 (of_nat m) (refresh_op multitap_class (multitap_init slot e))) =
    Inl Undefined_behaviour"
proof -
  define n where "n = sb_channel_count slot"
  define e1 where "e1 = refresh_op multitap_class (multitap_init slot e)"
  define d where "d = fst (delay_samples (mt_dtime_msec e) (fb_srate e))"
  note s = multitap_start[OF assms(1-7), of slot, folded e1_def n_def d_def]
  define e2 where "e2 = multitap_set_parameter 2 (of_nat m) e1"
  have n0: "0 < n" using assms(9) by (simp add: n_def)
  have e2: "mt_dnum e2 = int m" "fb_channels e2 = n" "mt_filled e2 = replicate n (replicate N False)"
      "mt_index e2 = replicate n (mt_dtime e1 * int m - 1)"
    using assms(11) s by (simp_all add: e2_def multitap_set_parameter_def multitap_restart_def Let_def)
  have body: "multitap_body 0 e2 x = Inl Undefined_behaviour" for x
    using multitap_taps_fault[of 0 e2] e2 assms(11) n0 by (simp add: multitap_body_def Let_def)
  note w = sb_wfD[OF assms(8)]
  have "sb_arrays slot \<noteq> []" "0 < length (sb_arrays slot ! 0)" using w(1,2) w(3)[of "0 :: nat"] assms(9,10) by fastforce+
  then have "at_cell multitap_body 0 0 (e2, sb_arrays slot) = Inl Undefined_behaviour"
    by (simp add: at_cell_def body)
  then show ?thesis
    using assms(10) n0 by (simp add: multitap_process_def each_frame_def with_arrays_def e2(2) upt_rec[of 0] flip: e1_def e2_def)
qed

definition example_multitap :: "rat multitap" where
  "example_multitap = multitap_create (1 / 1000) 2 50"

lemma example_multitap:
  "0 \<le> mt_dtime_msec example_multitap" "0 < fb_srate example_multitap" "mt_dnum example_multitap = int 2" "0 < (2 :: nat)"
  "mt_index example_multitap = []" "mt_filled example_multitap = []" "mt_buffer example_multitap = []"
  by (simp_all add: example_multitap_def multitap_create_def multitap_set_parameter_def multitap_restart_def delay_samples_def
      check_for_zerodelay_def truncated_def Let_def)


lemma multitap_more_delays_faults_witness:
  "multitap_process stereo_buffer
     (multitap_set_parameter 2 (of_nat 3) (refresh_op multitap_class (multitap_init stereo_buffer example_multitap))) =
   Inl Undefined_behaviour"
proof -
  have "0 < sb_channel_count stereo_buffer" "0 < sb_buffersize stereo_buffer" "2 < (3 :: nat)" by (simp_all add: stereo_buffer_def)
  from multitap_more_delays_faults[OF example_multitap stereo_buffer_wf this] show ?thesis .
qed

end
