(* ===== verification/Oscillators.thy ===== *)
theory Oscillators
  imports Effect_Base
begin

text \<open>
  The functions of \<open>cmath\<close> that the effects and oscillators call, as a record \<open>math\<close> of functions on
  the numbers at hand, and the sine oscillator (\<open>oscillator.h\<close>, \<open>osc-sine.cpp\<close>).
\<close>

record 's math =
  m_pi :: 's
  m_sin :: "'s \<Rightarrow> 's"
  m_cos :: "'s \<Rightarrow> 's"
  m_tan :: "'s \<Rightarrow> 's"
  m_acos :: "'s \<Rightarrow> 's"
  m_atan :: "'s \<Rightarrow> 's"
  m_exp :: "'s \<Rightarrow> 's"
  m_sqrt :: "'s \<Rightarrow> 's"
  m_pow :: "'s \<Rightarrow> 's \<Rightarrow> 's"

text \<open>What is used of them: the range of the sine.\<close>

definition math_ok :: "'s::linordered_field math \<Rightarrow> bool" where
  "math_ok M \<longleftrightarrow> (\<forall>x. - 1 \<le> m_sin M x \<and> m_sin M x \<le> 1)"

text \<open>An instance, for examples.\<close>

definition no_math :: "rat math" where
  "no_math = \<lparr>m_pi = 3, m_sin = (\<lambda>_. 0), m_cos = (\<lambda>_. 0), m_tan = (\<lambda>_. 0), m_acos = (\<lambda>_. 0), m_atan = (\<lambda>_. 0),
     m_exp = (\<lambda>_. 0), m_sqrt = (\<lambda>_. 0), m_pow = (\<lambda>_ _. 0)\<rparr>"

lemma no_math_ok: "math_ok no_math"
  by (simp add: math_ok_def no_math_def)

subsection \<open>The sine oscillator\<close>

record 's sine_osc =
  so_freq :: 's
  so_phase :: 's
  so_period :: 's

definition sine_set_parameter :: "'s::linordered_field math \<Rightarrow> int \<Rightarrow> 's \<Rightarrow> 's sine_osc \<Rightarrow> 's sine_osc" where
  "sine_set_parameter M param v o' =
     (if param = 1 then o'\<lparr>so_freq := v, so_period := (if v > 0 then 1 / v else 0)\<rparr>
      else if param = 2 then o'\<lparr>so_phase := v * m_pi M\<rparr>
      else o')"

definition sine_get_parameter :: "'s::linordered_field math \<Rightarrow> int \<Rightarrow> 's sine_osc \<Rightarrow> 's" where
  "sine_get_parameter M param o' =
     (if param = 1 then so_freq o' else if param = 2 then so_phase o' / m_pi M else 0)"

definition sine_create :: "'s::linordered_field math \<Rightarrow> 's \<Rightarrow> 's \<Rightarrow> 's sine_osc" where
  "sine_create M freq initial_phase =
     (let o1 = \<lparr>so_freq = freq, so_phase = initial_phase * m_pi M, so_period = 0\<rparr>;
          o2 = sine_set_parameter M 1 (sine_get_parameter M 1 o1) o1
      in sine_set_parameter M 2 (sine_get_parameter M 2 o2) o2)"

definition sine_value :: "'s::linordered_field math \<Rightarrow> 's \<Rightarrow> 's sine_osc \<Rightarrow> 's" where
  "sine_value M pos_secs o' =
     (if so_period o' = 0 then 1
      else (m_sin M (2 * m_pi M * (pos_secs / so_period o') + so_phase o') + 1) / 2)"

lemma sine_value_range: "math_ok M \<Longrightarrow> 0 \<le> sine_value M pos o' \<and> sine_value M pos o' \<le> 1"
proof -
  assume "math_ok M"
  then have "- 1 \<le> m_sin M x" "m_sin M x \<le> 1" for x by (simp_all add: math_ok_def)
  from this[of "2 * m_pi M * (pos / so_period o') + so_phase o'"] show ?thesis by (simp add: sine_value_def)
qed

end
