(* ===== verification/Modulated_Delays.thy ===== *)
theory Modulated_Delays
  imports Time_Effects Oscillators
begin

text \<open>
  The flanger, the chorus and the phaser of \<open>audiofx_timebased.cpp\<close> (\<open>EFFECT_MODULATING_DELAY\<close>): a
  ring per channel that is read at a distance which an oscillator moves. The position of the oscillator
  has no initial value in the code, so that the model starts from any.
\<close>

datatype modulation = Flanger | Chorus | Phaser

record 's mod_delay = fx_base +
  md_kind :: modulation
  md_buffer :: "'s list list"
  md_advance :: 's
  md_lfo_pos :: 's
  md_dtime :: int
  md_dtime_msec :: 's
  md_feedback :: 's
  md_vartime :: 's
  md_lfo :: "'s sine_osc"
  md_index :: "int list"
  md_filled :: "bool list"

definition mod_set_parameter :: "'s::floor_ceiling math \<Rightarrow> int \<Rightarrow> 's \<Rightarrow> 's mod_delay \<Rightarrow> 's mod_delay" where
  "mod_set_parameter M param v e =
     (if param = 1 then
        let (d, ms) = delay_samples v (fb_srate e)
        in e\<lparr>md_dtime := d, md_dtime_msec := ms,
             md_buffer := map (\<lambda>b. if d * 2 > int (length b) then resize (nat (d * 2)) 0 b else b) (md_buffer e),
             md_index := map (\<lambda>_. 0) (md_index e), md_filled := map (\<lambda>_. False) (md_filled e)\<rparr>
      else if param = 2 then e\<lparr>md_vartime := v\<rparr>
      else if param = 3 then e\<lparr>md_feedback := v / 100\<rparr>
      else if param = 4 then e\<lparr>md_lfo := sine_set_parameter M 1 v (md_lfo e)\<rparr>
      else e)"

definition mod_get_parameter :: "'s::floor_ceiling math \<Rightarrow> int \<Rightarrow> 's mod_delay \<Rightarrow> 's" where
  "mod_get_parameter M param e =
     (if param = 1 then md_dtime_msec e else if param = 2 then md_vartime e
      else if param = 3 then md_feedback e * 100 else if param = 4 then sine_get_parameter M 1 (md_lfo e) else 0)"

definition mod_create :: "'s::floor_ceiling math \<Rightarrow> modulation \<Rightarrow> 's \<Rightarrow> 's \<Rightarrow> int \<Rightarrow> 's \<Rightarrow> 's \<Rightarrow> 's mod_delay" where
  "mod_create M kind pos0 delay_time vartime_in_samples feedback_percent lfo_freq =
     mod_set_parameter M 4 lfo_freq (mod_set_parameter M 3 feedback_percent
       (mod_set_parameter M 2 (of_int vartime_in_samples) (mod_set_parameter M 1 delay_time
         \<lparr>fb_srate = 384000, fb_channels = 0, md_kind = kind, md_buffer = [], md_advance = 0, md_lfo_pos = pos0, md_dtime = 0,
          md_dtime_msec = 0, md_feedback = 0, md_vartime = 0, md_lfo = sine_create M 0 0, md_index = [], md_filled = []\<rparr>)))"

text \<open>The indices of new channels start one past the end of the ring.\<close>

definition mod_init :: "'s::floor_ceiling math \<Rightarrow> 's sample_buffer \<Rightarrow> 's mod_delay \<Rightarrow> 's mod_delay" where
  "mod_init M slot e =
     (let e1 = e\<lparr>md_advance := (if fb_srate e > 0 then of_nat (sb_buffersize slot) / of_int (fb_srate e) else 0)\<rparr>;
          e2 = effect_base_init slot (mod_set_parameter M 1 (md_dtime_msec e1) e1)
      in e2\<lparr>md_filled := resize (fb_channels e2) False (md_filled e2),
            md_index := resize (fb_channels e2) (2 * md_dtime e2) (md_index e2),
            md_buffer := map (map (\<lambda>_. 0)) (resize (fb_channels e2) (replicate (nat (2 * md_dtime e2)) 0) (md_buffer e2))\<rparr>)"

definition mod_sample :: "modulation \<Rightarrow> 's::floor_ceiling \<Rightarrow> 's \<Rightarrow> 's \<Rightarrow> 's" where
  "mod_sample kind feedback x temp1 =
     (case kind of
        Flanger \<Rightarrow> flush_to_zero (x * (1 - feedback) + temp1 * feedback)
      | Chorus \<Rightarrow> x * (1 - feedback) + temp1 * feedback
      | Phaser \<Rightarrow> flush_to_zero (x * (1 - feedback) + (- 1 * temp1 * feedback)))"

definition mod_body :: "'s::floor_ceiling math \<Rightarrow> nat \<Rightarrow> 's mod_delay \<Rightarrow> 's \<Rightarrow> ('s mod_delay \<times> 's) result" where
  "mod_body M c e x =
     (let p = md_vartime e * sine_value M (md_lfo_pos e) (md_lfo e) in
      bind_result (vector_at (md_filled e) c) (\<lambda>filled.
      bind_result (vector_at (md_index e) c) (\<lambda>idx.
      bind_result (if filled then read_signed (md_buffer e) c ((md_dtime e + idx + truncated p) smod (md_dtime e * 2)) else Inr 0) (\<lambda>temp1.
      let y = mod_sample (md_kind e) (md_feedback e) x temp1 in
      bind_result (write_signed c idx (if md_kind e = Chorus then x else y) (md_buffer e)) (\<lambda>buf.
        Inr (e\<lparr>md_buffer := buf, md_index := (md_index e)[c := (if idx + 1 = 2 * md_dtime e then 0 else idx + 1)],
               md_filled := (md_filled e)[c := (filled \<or> idx + 1 = 2 * md_dtime e)]\<rparr>, y))))))"

definition mod_process :: "'s::floor_ceiling math \<Rightarrow> 's sample_buffer \<Rightarrow> 's mod_delay \<Rightarrow> ('s mod_delay \<times> 's sample_buffer) result" where
  "mod_process M slot e = each_sample (mod_body M) (e\<lparr>md_lfo_pos := md_lfo_pos e + md_advance e\<rparr>) slot"

definition mod_class :: "'s::floor_ceiling math \<Rightarrow> ('s mod_delay, 's, 's) op_class" where
  "mod_class M =
     \<lparr>op_number_of_params = (\<lambda>_. 4), op_get_parameter = mod_get_parameter M, op_set_parameter = mod_set_parameter M,
      op_output_channels = (\<lambda>n _. n), op_init = mod_init M, op_process = mod_process M, op_release = (\<lambda>e. e),
      op_set_srate = effect_base_set_srate 4 (mod_get_parameter M) (mod_set_parameter M)\<rparr>"

end
