(* ===== verification/Modulated_Facts.thy ===== *)
theory Modulated_Facts
  imports Modulated_Delays Time_Effects_Facts
begin

text \<open>
  The modulated delays read their ring at the distance that the oscillator gives, without leaving it,
  as long as the variance is not below minus the delay time.
\<close>

subsection \<open>A turn of the loop\<close>

definition mod_shift :: "'s::floor_ceiling math \<Rightarrow> 's mod_delay \<Rightarrow> int" where
  "mod_shift M e = truncated (md_vartime e * sine_value M (md_lfo_pos e) (md_lfo e))"

type_synonym 's ring_state = "int \<times> bool \<times> 's list"

definition mod_state :: "'s mod_delay \<Rightarrow> nat \<Rightarrow> 's ring_state" where
  "mod_state e c = (md_index e ! c, md_filled e ! c, md_buffer e ! c)"

definition ring_step :: "modulation \<Rightarrow> int \<Rightarrow> 's::floor_ceiling \<Rightarrow> int \<Rightarrow> 's ring_state \<Rightarrow> 's \<Rightarrow> 's ring_state \<times> 's" where
  "ring_step kind d feedback q = (\<lambda>(idx, filled, ring) x.
     let y = mod_sample kind feedback x (if filled then ring ! nat ((d + idx + q) mod (d * 2)) else 0)
     in ((if idx + 1 = 2 * d then 0 else idx + 1, filled \<or> idx + 1 = 2 * d, ring[nat idx := if kind = Chorus then x else y]), y))"

definition mod_step :: "'s::floor_ceiling math \<Rightarrow> 's mod_delay \<Rightarrow> 's ring_state \<Rightarrow> 's \<Rightarrow> 's ring_state \<times> 's" where
  "mod_step M e = ring_step (md_kind e) (md_dtime e) (md_feedback e) (mod_shift M e)"

definition mod_good :: "'s::floor_ceiling math \<Rightarrow> nat \<Rightarrow> 's mod_delay \<Rightarrow> bool" where
  "mod_good M n e \<longleftrightarrow> math_ok M \<and> length (md_index e) = n \<and> length (md_filled e) = n \<and> length (md_buffer e) = n \<and>
     0 < md_dtime e \<and> - of_int (md_dtime e) \<le> md_vartime e \<and>
     (\<forall>c < n. 0 \<le> md_index e ! c \<and> md_index e ! c < 2 * md_dtime e \<and> 2 * md_dtime e \<le> int (length (md_buffer e ! c)))"

definition mod_settings :: "'s mod_delay \<Rightarrow> 's mod_delay" where
  "mod_settings e = e\<lparr>md_buffer := [], md_index := [], md_filled := []\<rparr>"

lemma truncated_lower: "of_int (- n) \<le> v \<Longrightarrow> 0 \<le> n \<Longrightarrow> - n \<le> truncated v"
  by (auto simp: truncated_def le_ceiling_iff intro: less_le_trans[of _ "of_int (- n)"] order_trans[of "- n" 0])

lemma mod_shift_lower:
  assumes "math_ok M" "0 < md_dtime e" "- of_int (md_dtime e) \<le> md_vartime e"
  shows "- md_dtime e \<le> mod_shift M e"
proof -
  define s where "s = sine_value M (md_lfo_pos e) (md_lfo e)"
  have s: "0 \<le> s" "s \<le> 1" using sine_value_range[OF assms(1)] by (simp_all add: s_def)
  have d: "(0 :: 'a) \<le> of_int (md_dtime e)" using assms(2) by simp
  have "- of_int (md_dtime e) \<le> - of_int (md_dtime e) * s" using mult_left_le[OF s(2) d] by simp
  also have "\<dots> \<le> md_vartime e * s" using assms(3) s(1) by (rule mult_right_mono)
  finally show ?thesis unfolding mod_shift_def s_def[symmetric] using assms(2) by (intro truncated_lower) simp_all
qed

lemma mod_body_ok:
  assumes good: "mod_good M n e" and c: "c < n"
  shows "\<exists>e'. mod_body M c e x = Inr (e', snd (mod_step M e (mod_state e c) x)) \<and> (mod_good M n e' \<and> mod_settings e' = mod_settings e) \<and>
    mod_step M e' = mod_step M e \<and>
    (\<forall>i < n. mod_state e' i = (if i = c then fst (mod_step M e (mod_state e c) x) else mod_state e i))"
proof -
  define d idx q where "d = md_dtime e" and "idx = md_index e ! c" and "q = mod_shift M e"
  have g: "length (md_index e) = n" "length (md_filled e) = n" "length (md_buffer e) = n" "0 < d" "0 \<le> idx" "idx < 2 * d"
      "2 * d \<le> int (length (md_buffer e ! c))"
    using good c by (simp_all add: mod_good_def d_def idx_def)
  have q: "- d \<le> q" using mod_shift_lower[of M e] good by (simp add: mod_good_def d_def q_def)
  have L0: "0 < d * 2" using g(4) by simp
  have "0 \<le> d + idx + q" using g(5) q by simp
  then have smod: "(d + idx + q) smod (d * 2) = (d + idx + q) mod (d * 2)"
    using L0 by (cases "d + idx + q = 0") (simp_all add: signed_modulo_int_def)
  have read: "read_signed (md_buffer e) c ((d + idx + q) smod (d * 2)) = Inr (md_buffer e ! c ! nat ((d + idx + q) mod (d * 2)))"
    unfolding smod
  proof (rule read_signed_ok)
    have "2 * d = d * 2" by simp
    from less_le_trans[OF pos_mod_bound[OF L0] g(7)[unfolded this]]
    show "(d + idx + q) mod (d * 2) < int (length (md_buffer e ! c))" .
  qed (use g(3) c pos_mod_sign[OF L0] in simp_all)
  define y where "y = mod_sample (md_kind e) (md_feedback e) x
      (if md_filled e ! c then md_buffer e ! c ! nat ((d + idx + q) mod (d * 2)) else 0)"
  have wr: "write_signed c idx v (md_buffer e) = Inr ((md_buffer e)[c := (md_buffer e ! c)[nat idx := v]])" for v
    using g c by (intro write_signed_ok) auto
  define e' where "e' = e\<lparr>md_buffer := (md_buffer e)[c := (md_buffer e ! c)[nat idx := if md_kind e = Chorus then x else y]],
      md_index := (md_index e)[c := (if idx + 1 = 2 * d then 0 else idx + 1)],
      md_filled := (md_filled e)[c := (md_filled e ! c \<or> idx + 1 = 2 * d)]\<rparr>"
  have rd: "(if md_filled e ! c then read_signed (md_buffer e) c ((d + idx + q) smod (d * 2)) else Inr 0) =
      Inr (if md_filled e ! c then md_buffer e ! c ! nat ((d + idx + q) mod (d * 2)) else 0)"
    using read by simp
  have body: "mod_body M c e x = Inr (e', y)"
    unfolding mod_body_def Let_def vector_at_ok[OF c[folded g(1)]] vector_at_ok[OF c[folded g(2)]] bind_result_simps
      d_def[symmetric] idx_def[symmetric] mod_shift_def[symmetric] q_def[symmetric] rd y_def[symmetric] wr e'_def[symmetric] ..
  have step: "mod_step M e (mod_state e c) x = ((if idx + 1 = 2 * d then 0 else idx + 1, md_filled e ! c \<or> idx + 1 = 2 * d,
      (md_buffer e ! c)[nat idx := if md_kind e = Chorus then x else y]), y)"
    unfolding mod_step_def mod_state_def d_def[symmetric] idx_def[symmetric] q_def[symmetric]
    by (simp add: ring_step_def Let_def y_def)
  have "mod_good M n e'"
    unfolding mod_good_def
  proof (intro conjI allI impI)
    fix i assume i: "i < n"
    then have "0 \<le> md_index e ! i" "md_index e ! i < 2 * d" "2 * d \<le> int (length (md_buffer e ! i))"
      using good by (simp_all add: mod_good_def d_def)
    then show "0 \<le> md_index e' ! i" "md_index e' ! i < 2 * md_dtime e'" "2 * md_dtime e' \<le> int (length (md_buffer e' ! i))"
      using g c by (cases "i = c"; simp add: e'_def flip: d_def)+
  qed (use good in \<open>simp_all add: mod_good_def e'_def\<close>)
  moreover have "mod_settings e' = mod_settings e" by (simp add: mod_settings_def e'_def)
  moreover have "mod_step M e' = mod_step M e" by (simp add: mod_step_def e'_def mod_shift_def)
  moreover have "\<forall>i < n. mod_state e' i = (if i = c then fst (mod_step M e (mod_state e c) x) else mod_state e i)"
    using g(1-3) c by (auto simp: step[unfolded mod_state_def] mod_state_def e'_def)
  ultimately show ?thesis using body step by simp
qed

interpretation modulated: channel_effect "mod_body M" "\<lambda>n e. mod_good M n e \<and> mod_settings e = s" mod_state "mod_step M" for M s
  by unfold_locales (metis (lifting) mod_body_ok)

subsection \<open>The ring\<close>

definition ring_after :: "nat \<Rightarrow> 's list \<Rightarrow> 's ring_state \<Rightarrow> bool" where
  "ring_after D W = (\<lambda>(idx, filled, ring).
     let L = 2 * D; T = length W in
     idx = int (T mod L) \<and> L \<le> length ring \<and> (filled \<longleftrightarrow> L \<le> T) \<and> (\<forall>h < T. T \<le> h + L \<longrightarrow> ring ! (h mod L) = W ! h))"

definition ring_out :: "modulation \<Rightarrow> nat \<Rightarrow> 's::floor_ceiling \<Rightarrow> int \<Rightarrow> 's list \<Rightarrow> 's \<Rightarrow> 's" where
  "ring_out kind D feedback q W x =
     mod_sample kind feedback x (if 2 * D \<le> length W then W ! (length W - nat (int D - q)) else 0)"

lemma ring_step_after:
  fixes x :: "'s::floor_ceiling"
  assumes R: "ring_after D W m" and D: "0 < D" and q: "- int D \<le> q" "q < int D"
  shows "ring_after D (W @ [if kind = Chorus then x else ring_out kind D feedback q W x]) (fst (ring_step kind (int D) feedback q m x)) \<and>
    snd (ring_step kind (int D) feedback q m x) = ring_out kind D feedback q W x"
proof -
  obtain idx filled ring where m: "m = (idx, filled, ring)" by (metis surj_pair)
  define L T where "L = 2 * D" and "T = length W"
  have i: "idx = int (T mod L)" "L \<le> length ring" "filled \<longleftrightarrow> L \<le> T" "\<And>h. h < T \<Longrightarrow> T \<le> h + L \<Longrightarrow> ring ! (h mod L) = W ! h"
    using R by (auto simp: ring_after_def m Let_def L_def T_def)
  have L0: "0 < L" "int D * 2 = int L" using D by (simp_all add: L_def)
  define j where "j = nat (int D - q)"
  have j: "0 < j" "j \<le> L" "int D + q = int L - int j" using q by (simp_all add: j_def L_def)
  have read: "ring ! nat ((int D + idx + q) mod (int D * 2)) = W ! (T - j)" if "L \<le> T"
  proof -
    have "int D + idx + q = (int (T mod L) - int j) + int L" using i(1) j(3) by linarith
    then have "(int D + idx + q) mod int L = (int (T mod L) - int j) mod int L" by (simp only: mod_add_self2)
    also have "\<dots> = int ((T - j) mod L)" using that j(2) by (simp add: zmod_int mod_diff_left_eq of_nat_diff)
    finally have "nat ((int D + idx + q) mod (int D * 2)) = (T - j) mod L" by (simp add: L0(2))
    then show ?thesis using i(4)[of "T - j"] that j by simp
  qed
  have out: "snd (ring_step kind (int D) feedback q m x) = ring_out kind D feedback q W x"
    using read i(3) by (simp add: ring_step_def m Let_def ring_out_def j_def T_def L_def)
  define v where "v = (if kind = Chorus then x else ring_out kind D feedback q W x)"
  have st: "fst (ring_step kind (int D) feedback q m x) =
      (if idx + 1 = 2 * int D then 0 else idx + 1, filled \<or> idx + 1 = 2 * int D, ring[nat idx := v])"
    using out by (simp add: ring_step_def m Let_def v_def)
  obtain a where a: "T mod L = a" "a < L" "Suc T mod L = (if Suc a = L then 0 else Suc a)" using L0(1) by (simp add: mod_Suc)
  have wrap: "idx + 1 = 2 * int D \<longleftrightarrow> Suc a = L" using i(1) a(1) by (auto simp: L_def)
  have idx': "(if idx + 1 = 2 * int D then 0 else idx + 1) = int (Suc T mod L)" using a wrap i(1) by auto
  have fill: "(filled \<or> idx + 1 = 2 * int D) \<longleftrightarrow> L \<le> Suc T"
  proof -
    have "a \<le> T" using a(1) by (metis mod_less_eq_dividend)
    moreover have "Suc a = L" if "Suc T = L" using that a(1) by auto
    ultimately show ?thesis unfolding wrap i(3) by (cases "Suc T = L") auto
  qed
  have content: "ring[nat idx := v] ! (h mod L) = (W @ [v]) ! h" if h: "h < Suc T" "Suc T \<le> h + L" for h
  proof (cases "h = T")
    case True
    then show ?thesis using i(1,2) a by (simp add: T_def)
  next
    case False
    then have "h < T" "T < h + L" using h by simp_all
    then have "h mod L \<noteq> T mod L"
      by (metis add_diff_cancel_left' le_add_diff_inverse less_imp_le mod_eq_dvd_iff_nat nat_dvd_not_less nat_add_left_cancel_less zero_less_diff)
    then show ?thesis using i(1) i(4)[of h] \<open>h < T\<close> \<open>T < h + L\<close> by (simp add: nth_append T_def)
  qed
  have "ring_after D (W @ [v]) (fst (ring_step kind (int D) feedback q m x))"
    unfolding ring_after_def Let_def st split_conv using idx' fill content i(2) by (simp add: flip: L_def T_def)
  then show ?thesis using out by (simp add: v_def)
qed

text \<open>A chorus keeps its input, the others their output.\<close>

definition mod_log :: "modulation \<Rightarrow> 's list \<Rightarrow> 's list \<Rightarrow> 's list" where
  "mod_log kind xs ys = (if kind = Chorus then xs else ys)"

lemma mod_log_map2: "length xs = length ys \<Longrightarrow> map2 (\<lambda>x y. if kind = Chorus then x else y) xs ys = mod_log kind xs ys"
  by (induction xs ys rule: list_induct2) (simp_all add: mod_log_def)

lemma mod_log_take: "take k (mod_log kind xs ys) = mod_log kind (take k xs) (take k ys)"
  by (simp add: mod_log_def)

lemma length_mod_log: "length xs = length ys \<Longrightarrow> length (mod_log kind xs ys) = length ys"
  by (simp add: mod_log_def)

lemma ring_mealy:
  fixes xs :: "'s::floor_ceiling list" and kind feedback
  assumes "ring_after D W m" "0 < D" "- int D \<le> q" "q < int D"
  defines "ys \<equiv> snd (mealy (ring_step kind (int D) feedback q) m xs)"
  shows "ring_after D (W @ mod_log kind xs ys) (fst (mealy (ring_step kind (int D) feedback q) m xs)) \<and>
    (\<forall>k < length xs. ys ! k = ring_out kind D feedback q (W @ take k (mod_log kind xs ys)) (xs ! k))"
proof -
  have m: "map2 (\<lambda>x y. if kind = Chorus then x else y) (take k xs) (take k ys) = take k (mod_log kind xs ys)" for k
    unfolding mod_log_take by (rule mod_log_map2) (simp add: ys_def)
  have m': "map2 (\<lambda>x y. if kind = Chorus then x else y) xs ys = mod_log kind xs ys"
    by (rule mod_log_map2) (simp add: ys_def)
  note step = ring_step_after[OF _ assms(2-4)]
  show ?thesis
    using mealy_log[where W = W and m = m and xs = xs, of "ring_after D" "\<lambda>x y. if kind = Chorus then x else y" "ring_out kind D feedback q"
        "ring_step kind (int D) feedback q", OF step assms(1)]
    unfolding ys_def[symmetric] m m' by simp
qed

lemma mod_shift_upper:
  assumes "math_ok M" "0 < d" "md_vartime e < of_int d"
  shows "mod_shift M e < d"
proof -
  define s where "s = sine_value M (md_lfo_pos e) (md_lfo e)"
  have s: "0 \<le> s" "s \<le> 1" using sine_value_range[OF assms(1)] by (simp_all add: s_def)
  show ?thesis
  proof (cases "0 \<le> md_vartime e")
    case True
    have "md_vartime e * s < of_int d" using mult_left_le[OF s(2) True] assms(3) by simp
    then show ?thesis unfolding mod_shift_def s_def[symmetric] using True s(1) by (intro truncated_less) simp_all
  next
    case False
    have "md_vartime e * s \<le> 0" using mult_right_mono[of "md_vartime e" 0 s] False s(1) by simp
    then have "truncated (md_vartime e * s) \<le> 0" by (auto simp: truncated_def ceiling_le_zero)
    then show ?thesis unfolding mod_shift_def s_def[symmetric] using assms(2) by simp
  qed
qed

subsection \<open>Streams\<close>

text \<open>The shift of each sample of a stream: the oscillator moves from one buffer to the next.\<close>

definition mod_advanced :: "'s::floor_ceiling mod_delay \<Rightarrow> 's mod_delay" where
  "mod_advanced e = e\<lparr>md_lfo_pos := md_lfo_pos e + md_advance e\<rparr>"

fun mod_shifts :: "'s::floor_ceiling math \<Rightarrow> 's mod_delay \<Rightarrow> 's sample_buffer list \<Rightarrow> int list" where
  "mod_shifts M e [] = []"
| "mod_shifts M e (b # bs) = replicate (sb_buffersize b) (mod_shift M (mod_advanced e)) @ mod_shifts M (mod_advanced e) bs"

lemma mod_settings_eq:
  assumes "mod_settings e' = mod_settings e"
  shows "mod_shift M e' = mod_shift M e" "md_kind e' = md_kind e" "md_feedback e' = md_feedback e" "md_dtime e' = md_dtime e"
    "md_vartime e' = md_vartime e" "mod_settings (mod_advanced e') = mod_settings (mod_advanced e)"
proof -
  have "md_lfo e' = md_lfo e" "md_lfo_pos e' = md_lfo_pos e" "md_vartime e' = md_vartime e"
    using arg_cong[OF assms, of md_lfo] arg_cong[OF assms, of md_lfo_pos] arg_cong[OF assms, of md_vartime]
    by (simp_all add: mod_settings_def)
  then show "mod_shift M e' = mod_shift M e" by (simp add: mod_shift_def)
  show "md_kind e' = md_kind e" "md_feedback e' = md_feedback e" "md_dtime e' = md_dtime e" "md_vartime e' = md_vartime e"
    using arg_cong[OF assms, of md_kind] arg_cong[OF assms, of md_feedback] arg_cong[OF assms, of md_dtime]
      arg_cong[OF assms, of md_vartime] by (simp_all add: mod_settings_def)
  have "mod_settings (mod_advanced e) = mod_advanced (mod_settings e)" for e :: "'a mod_delay"
    by (simp add: mod_settings_def mod_advanced_def)
  then show "mod_settings (mod_advanced e') = mod_settings (mod_advanced e)" using assms by simp
qed

lemma mod_shifts_settings: "mod_settings e' = mod_settings e \<Longrightarrow> mod_shifts M e' bufs = mod_shifts M e bufs"
proof (induction bufs arbitrary: e e')
  case (Cons b bufs)
  note s = mod_settings_eq(6)[OF Cons.prems]
  show ?case by (simp add: mod_settings_eq(1)[OF s] Cons.IH[OF s])
qed simp

lemma modulated_blocks:
  fixes e :: "'s::floor_ceiling mod_delay"
  assumes "blocks_ok n bufs" "mod_good M n e" "md_dtime e = int D" "md_vartime e < of_nat D"
    and "\<And>c. c < n \<Longrightarrow> ring_after D (W c) (mod_state e c)"
  shows "\<exists>e' bufs'. process_blocks (\<lambda>e b. mod_process M b e) e bufs = Inr (e', bufs') \<and> blocks_ok n bufs' \<and>
    map sb_buffersize bufs' = map sb_buffersize bufs \<and> mod_good M n e' \<and>
    (\<forall>c < n. \<forall>k < length (signal c bufs). signal c bufs' ! k =
       ring_out (md_kind e) D (md_feedback e) (mod_shifts M e bufs ! k)
         (W c @ take k (mod_log (md_kind e) (signal c bufs) (signal c bufs'))) (signal c bufs ! k))"
  using assms
proof (induction bufs arbitrary: e W)
  case (Cons b bufs)
  define e1 where "e1 = mod_advanced e"
  define q where "q = mod_shift M e1"
  have b: "sb_wf b" "sb_channel_count b = n" using Cons.prems(1) by simp_all
  have g: "mod_good M n e1" using Cons.prems(2) by (simp add: e1_def mod_advanced_def mod_good_def)
  have f: "md_kind e1 = md_kind e" "md_feedback e1 = md_feedback e" "md_dtime e1 = int D" "md_vartime e1 < of_int (int D)"
      "mod_state e1 = mod_state e"
    using Cons.prems(3,4) by (simp_all add: e1_def mod_advanced_def mod_state_def fun_eq_iff)
  have M: "math_ok M" "0 < D" "- of_int (md_dtime e1) \<le> md_vartime e1" using g f(3) by (simp_all add: mod_good_def)
  have q: "- int D \<le> q" "q < int D"
    using mod_shift_lower[OF M(1) _ M(3)] mod_shift_upper[OF M(1) _ f(4)] M(2) f(3) by (simp_all add: q_def)
  have step: "mod_step M e1 = ring_step (md_kind e) (int D) (md_feedback e) q" by (simp add: mod_step_def f q_def)
  from modulated.each_sample_ok[OF b(1), of M n e1 "mod_settings e1"] g b(2)
  obtain e2 b' where 1: "each_sample (mod_body M) e1 b = Inr (e2, b')" "sb_wf b'" "mod_good M n e2" "mod_settings e2 = mod_settings e1"
      "sb_buffersize b' = sb_buffersize b" "sb_channel_count b' = n"
      "\<And>c. c < n \<Longrightarrow> snd (sb_audio b') ! c = snd (mealy (mod_step M e1) (mod_state e1 c) (snd (sb_audio b) ! c))"
      "\<And>c. c < n \<Longrightarrow> mod_state e2 c = fst (mealy (mod_step M e1) (mod_state e1 c) (snd (sb_audio b) ! c))"
    by auto
  have p: "mod_process M b e = Inr (e2, b')" using 1(1) by (simp add: mod_process_def e1_def mod_advanced_def)
  define X Y where "X = (\<lambda>c. snd (sb_audio b) ! c)" and "Y = (\<lambda>c. snd (sb_audio b') ! c)"
  have len: "length (X c) = sb_buffersize b" "length (Y c) = sb_buffersize b" if "c < n" for c
    using length_audio_channel[OF b(1)] length_audio_channel[OF 1(2)] b(2) 1(5,6) that by (simp_all add: X_def Y_def)
  define L where "L = (\<lambda>c. mod_log (md_kind e) (X c) (Y c))"
  have r: "ring_after D (W c @ L c) (mod_state e2 c)"
      "\<forall>k < sb_buffersize b. Y c ! k = ring_out (md_kind e) D (md_feedback e) q (W c @ take k (L c)) (X c ! k)" if c: "c < n" for c
    using ring_mealy[OF Cons.prems(5)[OF c] M(2) q, where kind = "md_kind e" and feedback = "md_feedback e" and xs = "X c"] len[OF c]
    unfolding 1(8)[OF c] L_def Y_def 1(7)[OF c] step f(5) X_def by simp_all
  have s: "md_kind e2 = md_kind e" "md_feedback e2 = md_feedback e" "md_dtime e2 = int D" "md_vartime e2 < of_nat D"
    using mod_settings_eq[OF 1(4)] f by simp_all
  obtain e3 bufs' where 2: "process_blocks (\<lambda>e b. mod_process M b e) e2 bufs = Inr (e3, bufs')" "blocks_ok n bufs'"
      "map sb_buffersize bufs' = map sb_buffersize bufs" "mod_good M n e3"
      "\<forall>c < n. \<forall>k < length (signal c bufs). signal c bufs' ! k =
       ring_out (md_kind e) D (md_feedback e) (mod_shifts M e2 bufs ! k)
         ((W c @ L c) @ take k (mod_log (md_kind e) (signal c bufs) (signal c bufs'))) (signal c bufs ! k)"
    using Cons.IH[OF _ 1(3) s(3,4), of "\<lambda>c. W c @ L c"] r(1) Cons.prems(1) unfolding s by auto
  have "signal c (b' # bufs') ! k = ring_out (md_kind e) D (md_feedback e) (mod_shifts M e (b # bufs) ! k)
         (W c @ take k (mod_log (md_kind e) (signal c (b # bufs)) (signal c (b' # bufs')))) (signal c (b # bufs) ! k)"
    if c: "c < n" and k: "k < length (signal c (b # bufs))" for c k
  proof -
    have log: "mod_log (md_kind e) (signal c (b # bufs)) (signal c (b' # bufs')) =
        L c @ mod_log (md_kind e) (signal c bufs) (signal c bufs')"
      by (simp add: mod_log_def L_def X_def Y_def)
    have lL: "length (L c) = sb_buffersize b" using len[OF c] by (simp add: L_def mod_log_def)
    have sh: "mod_shifts M e (b # bufs) = replicate (sb_buffersize b) q @ mod_shifts M e2 bufs"
      using mod_shifts_settings[OF 1(4), of M bufs] by (simp add: e1_def q_def)
    have sig: "signal c (b # bufs) = X c @ signal c bufs" "signal c (b' # bufs') = Y c @ signal c bufs'"
      by (simp_all add: X_def Y_def)
    show ?thesis
    proof (cases "k < sb_buffersize b")
      case True
      then show ?thesis unfolding sig log[unfolded sig] sh using r(2)[OF c] len[OF c] lL by (simp add: nth_append)
    next
      case False
      then have "k - sb_buffersize b < length (signal c bufs)" using k len[OF c] unfolding sig by simp
      then show ?thesis unfolding sig log[unfolded sig] sh using 2(5) c False len[OF c] lL by (simp add: nth_append)
    qed
  qed
  then show ?case by (intro exI[of _ e3] exI[of _ "b' # bufs'"]) (use p 1 2 in simp)
qed simp

text \<open>What a chain's initialisation makes of an effect that has not been initialised before.\<close>

lemma mod_start:
  fixes e :: "'s::floor_ceiling mod_delay" and slot :: "'s sample_buffer" and M
  assumes "0 \<le> md_dtime_msec e" "0 < fb_srate e" "md_index e = []" "md_filled e = []" "md_buffer e = []"
  defines "e1 \<equiv> refresh_op (mod_class M) (mod_init M slot e)" and "n \<equiv> sb_channel_count slot"
    and "d \<equiv> fst (delay_samples (md_dtime_msec e) (fb_srate e))"
  shows "md_dtime e1 = d" "md_kind e1 = md_kind e" "md_feedback e1 = md_feedback e" "md_vartime e1 = md_vartime e"
    "md_index e1 = replicate n 0" "md_filled e1 = replicate n False" "md_buffer e1 = replicate n (replicate (nat (2 * d)) 0)"
    "md_index (mod_init M slot e) = replicate n (2 * d)" "md_filled (mod_init M slot e) = replicate n False"
    "md_buffer (mod_init M slot e) = replicate n (replicate (nat (2 * d)) 0)"
proof -
  obtain ms where dm: "delay_samples (md_dtime_msec e) (fb_srate e) = (d, ms)" by (metis d_def prod.collapse)
  define e0 where "e0 = mod_init M slot e"
  have i: "md_dtime_msec e0 = ms" "fb_srate e0 = fb_srate e" "md_kind e0 = md_kind e" "md_feedback e0 = md_feedback e"
      "md_vartime e0 = md_vartime e" "md_index e0 = replicate n (2 * d)" "md_filled e0 = replicate n False"
      "md_buffer e0 = replicate n (replicate (nat (2 * d)) 0)"
    by (simp_all add: e0_def mod_init_def mod_set_parameter_def dm effect_base_init_def Let_def assms(3-5) n_def map_replicate_const)
  have idem: "delay_samples ms (fb_srate e) = (d, ms)"
    using delay_samples_idem[OF assms(2), of "md_dtime_msec e"] dm by simp
  have keep: "map (\<lambda>b. if int (length b) < d * 2 then resize (nat (d * 2)) 0 b else b) (replicate n (replicate (nat (2 * d)) (0 :: 's))) =
      replicate n (replicate (nat (2 * d)) 0)"
    by (simp add: mult.commute)
  have "e1 = mod_set_parameter M 4 (so_freq (md_lfo e0)) (mod_set_parameter M 3 (md_feedback e * 100)
      (mod_set_parameter M 2 (md_vartime e) (mod_set_parameter M 1 ms e0)))"
    unfolding e1_def e0_def[symmetric]
    by (simp add: refresh_op_def mod_class_def upt_rec mod_get_parameter_def mod_set_parameter_def i(1-5) idem sine_get_parameter_def)
  then show "md_dtime e1 = d" "md_kind e1 = md_kind e" "md_feedback e1 = md_feedback e" "md_vartime e1 = md_vartime e"
      "md_index e1 = replicate n 0" "md_filled e1 = replicate n False" "md_buffer e1 = replicate n (replicate (nat (2 * d)) 0)"
    by (simp_all add: mod_set_parameter_def i idem keep map_replicate_const)
  show "md_index (mod_init M slot e) = replicate n (2 * d)" "md_filled (mod_init M slot e) = replicate n False"
    "md_buffer (mod_init M slot e) = replicate n (replicate (nat (2 * d)) 0)"
    using i(6-8) by (simp_all add: e0_def)
qed


text \<open>
  The constructor's way of initialising the indices of new channels, one past the end of the ring: a
  caller that does not set the parameters again writes out of bounds with the first sample.
\<close>

theorem mod_init_alone_faults:
  fixes e :: "'s::floor_ceiling mod_delay" and slot :: "'s sample_buffer"
  assumes "0 \<le> md_dtime_msec e" "0 < fb_srate e" "md_index e = []" "md_filled e = []" "md_buffer e = []"
    and "sb_wf slot" "0 < sb_channel_count slot" "0 < sb_buffersize slot"
  shows "mod_process M slot (mod_init M slot e) = Inl Undefined_behaviour"
proof -
  define e0 where "e0 = mod_advanced (mod_init M slot e)"
  note s = mod_start(8-10)[OF assms(1-5), of M slot]
  have i: "md_index e0 = replicate (sb_channel_count slot) (2 * fst (delay_samples (md_dtime_msec e) (fb_srate e)))"
      "md_filled e0 = replicate (sb_channel_count slot) False"
      "md_buffer e0 = replicate (sb_channel_count slot) (replicate (nat (2 * fst (delay_samples (md_dtime_msec e) (fb_srate e)))) 0)"
    using s by (simp_all add: e0_def mod_advanced_def)
  have body: "mod_body M 0 e0 x = Inl Undefined_behaviour" for x
    using assms(7) by (simp add: mod_body_def Let_def i write_signed_def write_cell_def)
  note w = sb_wfD[OF assms(6)]
  have "sb_arrays slot \<noteq> []" "0 < length (sb_arrays slot ! 0)" using w(1,2) w(3)[of "0 :: nat"] assms(7,8) by fastforce+
  then have "at_cell (mod_body M) 0 0 (e0, sb_arrays slot) = Inl Undefined_behaviour"
    by (simp add: at_cell_def body)
  then show ?thesis
    using assms(7,8) by (simp add: mod_process_def each_sample_def with_arrays_def upt_rec[of 0] flip: mod_advanced_def e0_def)
qed

lemma example_mod:
  defines "e \<equiv> mod_create no_math Flanger 0 (1 / 128) 1 50 2"
  shows "0 \<le> md_dtime_msec e" "0 < fb_srate e" "md_index e = []" "md_filled e = []" "md_buffer e = []"
    "3 = nat (fst (delay_samples (md_dtime_msec e) (fb_srate e)))" "- of_nat 3 \<le> md_vartime e" "md_vartime e < of_nat 3"
  by (simp_all add: e_def mod_create_def mod_set_parameter_def delay_samples_def check_for_zerodelay_def truncated_def)


lemma mod_init_alone_faults_witness:
  "mod_process no_math stereo_buffer (mod_init no_math stereo_buffer (mod_create no_math Flanger 0 (1 / 128) 1 50 2)) =
   Inl Undefined_behaviour"
proof -
  have "0 < sb_channel_count stereo_buffer" "0 < sb_buffersize stereo_buffer" by (simp_all add: stereo_buffer_def)
  from mod_init_alone_faults[OF example_mod(1-5) stereo_buffer_wf this] show ?thesis .
qed

end
