(* ===== verification/Filters.thy ===== *)
theory Filters
  imports Oscillators
begin

text \<open>
  The filters of \<open>audiofx_filter.cpp\<close>. Each has its parameters, the coefficients computed from them and
  the sample rate, and a short history per channel. The functions of \<open>cmath\<close> are those of the record
  \<open>math\<close>. A queue is shortened to the truncated delay when a parameter is set (a negative delay, whose
  conversion to an unsigned number is undefined, leaves the queue as it is).
\<close>

subsection \<open>Biquads: EFFECT BW FILTER\<close>

datatype bw_kind = Bandpass | Bandreject | Highpass | Lowpass

text \<open>The bandpass and bandreject filters have a centre and a width, the others a cutoff in \<open>bw_center\<close>.\<close>

record 's biquad = fx_base +
  bw_kind :: bw_kind
  bw_a :: "'s list"
  bw_b :: "'s list"
  bw_sin :: "'s list list"
  bw_sout :: "'s list list"
  bw_center :: 's
  bw_width :: 's
  bw_C :: 's
  bw_D :: 's

definition bandpass_set_parameter :: "'s::floor_ceiling math \<Rightarrow> int \<Rightarrow> 's \<Rightarrow> 's biquad \<Rightarrow> 's biquad" where
  "bandpass_set_parameter M param v e =
     (let srate = of_int (fb_srate e) in
      if param = 1 then
        let D = 2 * m_cos M (2 * m_pi M * v / srate)
        in e\<lparr>bw_center := v, bw_D := D, bw_b := (bw_b e)[0 := - bw_C e * D * bw_a e ! 0]\<rparr>
      else if param = 2 then
        let w = (if v \<noteq> 0 then v else bw_center e / 2);
            C = 1 / m_tan M (m_pi M * w / srate);
            D = 2 * m_cos M (2 * m_pi M * bw_center e / srate);
            a0 = 1 / (1 + C)
        in e\<lparr>bw_width := w, bw_C := C, bw_D := D, bw_a := [a0, 0, - a0], bw_b := [- C * D * a0, (C - 1) * a0]\<rparr>
      else e)"

definition bandreject_set_parameter :: "'s::floor_ceiling math \<Rightarrow> int \<Rightarrow> 's \<Rightarrow> 's biquad \<Rightarrow> 's biquad" where
  "bandreject_set_parameter M param v e =
     (let srate = of_int (fb_srate e) in
      if param = 1 then
        let D = 2 * m_cos M (2 * m_pi M * v / srate); a1 = - D * bw_a e ! 0
        in e\<lparr>bw_center := v, bw_D := D, bw_a := (bw_a e)[1 := a1], bw_b := (bw_b e)[0 := a1]\<rparr>
      else if param = 2 then
        let w = (if v \<noteq> 0 then v else bw_center e / 2);
            C = m_tan M (m_pi M * w / srate);
            a0 = 1 / (1 + C);
            a1 = - bw_D e * a0
        in e\<lparr>bw_width := w, bw_C := C, bw_a := [a0, a1, a0], bw_b := [a1, (1 - C) * a0]\<rparr>
      else e)"

definition highpass_set_parameter :: "'s::floor_ceiling math \<Rightarrow> int \<Rightarrow> 's \<Rightarrow> 's biquad \<Rightarrow> 's biquad" where
  "highpass_set_parameter M param v e =
     (if param = 1 then
        let C = m_tan M (m_pi M * v / of_int (fb_srate e));
            a0 = 1 / (1 + m_sqrt M 2 * C + C * C)
        in e\<lparr>bw_center := v, bw_C := C, bw_a := [a0, - 2 * a0, a0],
             bw_b := [2 * (C * C - 1) * a0, (1 - m_sqrt M 2 * C + C * C) * a0]\<rparr>
      else e)"

definition lowpass_set_cutoff :: "'s::floor_ceiling math \<Rightarrow> 's \<Rightarrow> int \<Rightarrow> 's biquad \<Rightarrow> 's biquad" where
  "lowpass_set_cutoff M v srate e =
     (let C = 1 / m_tan M (m_pi M * v / of_int srate);
          a0 = 1 / (1 + m_sqrt M 2 * C + C * C)
      in e\<lparr>bw_center := v, bw_C := C, bw_a := [a0, 2 * a0, a0],
           bw_b := [2 * (1 - C * C) * a0, (1 - m_sqrt M 2 * C + C * C) * a0]\<rparr>)"

definition lowpass_set_parameter :: "'s::floor_ceiling math \<Rightarrow> int \<Rightarrow> 's \<Rightarrow> 's biquad \<Rightarrow> 's biquad" where
  "lowpass_set_parameter M param v e = (if param = 1 then lowpass_set_cutoff M v (fb_srate e) e else e)"

definition bw_set_parameter :: "'s::floor_ceiling math \<Rightarrow> int \<Rightarrow> 's \<Rightarrow> 's biquad \<Rightarrow> 's biquad" where
  "bw_set_parameter M param v e =
     (case bw_kind e of
        Bandpass \<Rightarrow> bandpass_set_parameter M param v e
      | Bandreject \<Rightarrow> bandreject_set_parameter M param v e
      | Highpass \<Rightarrow> highpass_set_parameter M param v e
      | Lowpass \<Rightarrow> lowpass_set_parameter M param v e)"

definition bw_params :: "bw_kind \<Rightarrow> int" where
  "bw_params kind = (if kind = Bandpass \<or> kind = Bandreject then 2 else 1)"

definition bw_get_parameter :: "int \<Rightarrow> 's::floor_ceiling biquad \<Rightarrow> 's" where
  "bw_get_parameter param e =
     (if param = 1 then bw_center e else if param = 2 \<and> bw_params (bw_kind e) = 2 then bw_width e else 0)"

definition bw_create :: "'s::floor_ceiling math \<Rightarrow> bw_kind \<Rightarrow> 's \<Rightarrow> 's \<Rightarrow> 's biquad" where
  "bw_create M kind p1 p2 =
     (let e = \<lparr>fb_srate = 384000, fb_channels = 0, bw_kind = kind, bw_a = [0, 0, 0], bw_b = [0, 0], bw_sin = [], bw_sout = [],
               bw_center = 1, bw_width = 1, bw_C = 1, bw_D = 0\<rparr>;
          e1 = bw_set_parameter M 1 p1 e
      in if bw_params kind = 2 then bw_set_parameter M 2 p2 e1 else e1)"

definition bw_init :: "'s::floor_ceiling sample_buffer \<Rightarrow> 's biquad \<Rightarrow> 's biquad" where
  "bw_init slot e =
     (let e1 = effect_base_init slot e; zeros = map (map (\<lambda>_. 0)) \<circ> resize (sb_channel_count slot) [0, 0]
      in e1\<lparr>bw_sin := zeros (bw_sin e1), bw_sout := zeros (bw_sout e1)\<rparr>)"

definition bw_body :: "nat \<Rightarrow> 's::floor_ceiling biquad \<Rightarrow> 's \<Rightarrow> ('s biquad \<times> 's) result" where
  "bw_body c e x =
     bind_result (read_cell (bw_sin e) c 0) (\<lambda>i0.
     bind_result (read_cell (bw_sin e) c 1) (\<lambda>i1.
     bind_result (read_cell (bw_sout e) c 0) (\<lambda>o0.
     bind_result (read_cell (bw_sout e) c 1) (\<lambda>o1.
     let y = flush_to_zero (bw_a e ! 0 * x + bw_a e ! 1 * i0 + bw_a e ! 2 * i1 - bw_b e ! 0 * o0 - bw_b e ! 1 * o1) in
     bind_result (bind_result (write_cell c 1 i0 (bw_sin e)) (write_cell c 0 x)) (\<lambda>sin'.
     bind_result (bind_result (write_cell c 1 o0 (bw_sout e)) (write_cell c 0 y)) (\<lambda>sout'.
       Inr (e\<lparr>bw_sin := sin', bw_sout := sout'\<rparr>, y)))))))"

definition bw_process :: "'s::floor_ceiling sample_buffer \<Rightarrow> 's biquad \<Rightarrow> ('s biquad \<times> 's sample_buffer) result" where
  "bw_process slot e = each_sample bw_body e slot"

text \<open>Every class of operators with a fixed number of parameters and as many channels as it is given.\<close>

definition channelwise_class ::
  "int \<Rightarrow> (int \<Rightarrow> 'x fx_base_scheme \<Rightarrow> 's) \<Rightarrow> (int \<Rightarrow> 's \<Rightarrow> 'x fx_base_scheme \<Rightarrow> 'x fx_base_scheme) \<Rightarrow>
     ('s sample_buffer \<Rightarrow> 'x fx_base_scheme \<Rightarrow> 'x fx_base_scheme) \<Rightarrow>
     ('s sample_buffer \<Rightarrow> 'x fx_base_scheme \<Rightarrow> ('x fx_base_scheme \<times> 's sample_buffer) result) \<Rightarrow> ('x fx_base_scheme, 's, 's) op_class" where
  "channelwise_class params getp setp ini process =
     \<lparr>op_number_of_params = (\<lambda>_. params), op_get_parameter = getp, op_set_parameter = setp, op_output_channels = (\<lambda>n _. n),
      op_init = ini, op_process = process, op_release = (\<lambda>e. e), op_set_srate = effect_base_set_srate params getp setp\<rparr>"

definition bw_class :: "'s::floor_ceiling math \<Rightarrow> bw_kind \<Rightarrow> ('s biquad, 's, 's) op_class" where
  "bw_class M kind = channelwise_class (bw_params kind) bw_get_parameter (bw_set_parameter M) bw_init bw_process"

subsection \<open>Queues of past samples\<close>

text \<open>\<open>resize\<close> of a queue that is longer than a delay.\<close>

definition cut_queue :: "'s::floor_ceiling \<Rightarrow> 's list \<Rightarrow> 's list" where
  "cut_queue d q = (if 0 \<le> d \<and> of_nat (length q) > d then take (nat (truncated d)) q else q)"

text \<open>\<open>front\<close> of a queue.\<close>

definition front_of :: "'a list \<Rightarrow> 'a result" where
  "front_of q = (if q = [] then Inl Undefined_behaviour else Inr (hd q))"

subsection \<open>The allpass filter\<close>

record 's allpass = fx_base +
  ap_inbuf :: "'s list list"
  ap_feedback_gain :: 's
  ap_D :: 's

definition allpass_set_parameter :: "int \<Rightarrow> 's::floor_ceiling \<Rightarrow> 's allpass \<Rightarrow> 's allpass" where
  "allpass_set_parameter param v e =
     (if param = 1 then e\<lparr>ap_D := v, ap_inbuf := map (cut_queue v) (ap_inbuf e)\<rparr>
      else if param = 2 then e\<lparr>ap_feedback_gain := v / 100\<rparr>
      else e)"

definition allpass_get_parameter :: "int \<Rightarrow> 's::floor_ceiling allpass \<Rightarrow> 's" where
  "allpass_get_parameter param e = (if param = 1 then ap_D e else if param = 2 then ap_feedback_gain e * 100 else 0)"

definition allpass_create :: "'s::floor_ceiling allpass" where
  "allpass_create = \<lparr>fb_srate = 384000, fb_channels = 0, ap_inbuf = [], ap_feedback_gain = 0, ap_D = 0\<rparr>"

definition allpass_init :: "'s::floor_ceiling sample_buffer \<Rightarrow> 's allpass \<Rightarrow> 's allpass" where
  "allpass_init slot e =
     (effect_base_init slot e)\<lparr>ap_inbuf := map (\<lambda>_. []) (resize (sb_channel_count slot) [] (ap_inbuf e))\<rparr>"

definition allpass_body :: "nat \<Rightarrow> 's::floor_ceiling allpass \<Rightarrow> 's \<Rightarrow> ('s allpass \<times> 's) result" where
  "allpass_body c e x =
     bind_result (vector_at (ap_inbuf e) c) (\<lambda>q.
       if of_nat (length q) \<ge> ap_D e then
         bind_result (front_of (q @ [x])) (\<lambda>front.
         Inr (e\<lparr>ap_inbuf := (ap_inbuf e)[c := tl (q @ [x])]\<rparr>,
              flush_to_zero (- ap_feedback_gain e * x +
                (ap_feedback_gain e * front + x) * (1 - ap_feedback_gain e * ap_feedback_gain e))))
       else
         Inr (e\<lparr>ap_inbuf := (ap_inbuf e)[c := q @ [x]]\<rparr>, flush_to_zero (x * (1 - ap_feedback_gain e))))"

definition allpass_process :: "'s::floor_ceiling sample_buffer \<Rightarrow> 's allpass \<Rightarrow> ('s allpass \<times> 's sample_buffer) result" where
  "allpass_process slot e = each_sample allpass_body e slot"

definition allpass_class :: "('s::floor_ceiling allpass, 's, 's) op_class" where
  "allpass_class = channelwise_class 2 allpass_get_parameter allpass_set_parameter allpass_init allpass_process"

subsection \<open>The comb filter\<close>

record 's comb = fx_base +
  cb_buffer :: "'s list list"
  cb_C :: 's
  cb_D :: 's

definition comb_set_parameter :: "int \<Rightarrow> 's::floor_ceiling \<Rightarrow> 's comb \<Rightarrow> 's comb" where
  "comb_set_parameter param v e =
     (if param = 1 then e\<lparr>cb_C := v, cb_buffer := map (cut_queue v) (cb_buffer e)\<rparr>
      else if param = 2 then e\<lparr>cb_D := v\<rparr>
      else e)"

definition comb_get_parameter :: "int \<Rightarrow> 's::floor_ceiling comb \<Rightarrow> 's" where
  "comb_get_parameter param e = (if param = 1 then cb_C e else if param = 2 then cb_D e else 0)"

definition comb_create :: "int \<Rightarrow> 's::floor_ceiling \<Rightarrow> 's comb" where
  "comb_create delay_in_samples radius =
     comb_set_parameter 2 radius (comb_set_parameter 1 (of_int delay_in_samples)
       \<lparr>fb_srate = 384000, fb_channels = 0, cb_buffer = [], cb_C = 0, cb_D = 0\<rparr>)"

definition comb_init :: "'s::floor_ceiling sample_buffer \<Rightarrow> 's comb \<Rightarrow> 's comb" where
  "comb_init slot e = (effect_base_init slot e)\<lparr>cb_buffer := map (\<lambda>_. []) (resize (sb_channel_count slot) [] (cb_buffer e))\<rparr>"

definition comb_body :: "'s::floor_ceiling math \<Rightarrow> nat \<Rightarrow> 's comb \<Rightarrow> 's \<Rightarrow> ('s comb \<times> 's) result" where
  "comb_body M c e x =
     bind_result (vector_at (cb_buffer e) c) (\<lambda>q.
       if of_nat (length q) \<ge> cb_C e then
         bind_result (front_of q) (\<lambda>front.
         let y = x + m_pow M (cb_D e) (cb_C e) * front
         in Inr (e\<lparr>cb_buffer := (cb_buffer e)[c := tl (q @ [y])]\<rparr>, y))
       else Inr (e\<lparr>cb_buffer := (cb_buffer e)[c := q @ [x]]\<rparr>, x))"

definition comb_process :: "'s::floor_ceiling math \<Rightarrow> 's sample_buffer \<Rightarrow> 's comb \<Rightarrow> ('s comb \<times> 's sample_buffer) result" where
  "comb_process M slot e = each_sample (comb_body M) e slot"

definition comb_class :: "'s::floor_ceiling math \<Rightarrow> ('s comb, 's, 's) op_class" where
  "comb_class M = channelwise_class 2 comb_get_parameter comb_set_parameter comb_init (comb_process M)"

subsection \<open>The inverse comb filter\<close>

record 's inv_comb = fx_base +
  ic_laskuri :: "'s list"
  ic_buffer :: "'s list list"
  ic_C :: 's
  ic_D :: 's

definition inv_comb_set_parameter :: "int \<Rightarrow> 's::floor_ceiling \<Rightarrow> 's inv_comb \<Rightarrow> 's inv_comb" where
  "inv_comb_set_parameter param v e =
     (if param = 1 then e\<lparr>ic_C := v\<rparr> else if param = 2 then e\<lparr>ic_D := v\<rparr> else e)"

definition inv_comb_get_parameter :: "int \<Rightarrow> 's::floor_ceiling inv_comb \<Rightarrow> 's" where
  "inv_comb_get_parameter param e = (if param = 1 then ic_C e else if param = 2 then ic_D e else 0)"

definition inv_comb_create :: "int \<Rightarrow> 's::floor_ceiling \<Rightarrow> 's inv_comb" where
  "inv_comb_create delay_in_samples radius =
     inv_comb_set_parameter 2 radius (inv_comb_set_parameter 1 (of_int delay_in_samples)
       \<lparr>fb_srate = 384000, fb_channels = 0, ic_laskuri = [], ic_buffer = [], ic_C = 0, ic_D = 0\<rparr>)"

definition inv_comb_init :: "'s::floor_ceiling sample_buffer \<Rightarrow> 's inv_comb \<Rightarrow> 's inv_comb" where
  "inv_comb_init slot e =
     (effect_base_init slot e)\<lparr>ic_buffer := map (\<lambda>_. []) (resize (sb_channel_count slot) [] (ic_buffer e)),
       ic_laskuri := map (\<lambda>_. 0) (resize (sb_channel_count slot) 0 (ic_laskuri e))\<rparr>"

definition inv_comb_body :: "'s::floor_ceiling math \<Rightarrow> nat \<Rightarrow> 's inv_comb \<Rightarrow> 's \<Rightarrow> ('s inv_comb \<times> 's) result" where
  "inv_comb_body M c e x =
     bind_result (vector_at (ic_buffer e) c) (\<lambda>q.
     bind_result (vector_at (ic_laskuri e) c) (\<lambda>k.
       if k \<ge> ic_C e then
         bind_result (front_of (q @ [x])) (\<lambda>front.
         Inr (e\<lparr>ic_buffer := (ic_buffer e)[c := tl (q @ [x])]\<rparr>, x - m_pow M (ic_D e) (ic_C e) * front))
       else Inr (e\<lparr>ic_buffer := (ic_buffer e)[c := q @ [x]], ic_laskuri := (ic_laskuri e)[c := k + 1]\<rparr>, x)))"

definition inv_comb_process ::
  "'s::floor_ceiling math \<Rightarrow> 's sample_buffer \<Rightarrow> 's inv_comb \<Rightarrow> ('s inv_comb \<times> 's sample_buffer) result" where
  "inv_comb_process M slot e = each_sample (inv_comb_body M) e slot"

definition inv_comb_class :: "'s::floor_ceiling math \<Rightarrow> ('s inv_comb, 's, 's) op_class" where
  "inv_comb_class M = channelwise_class 2 inv_comb_get_parameter inv_comb_set_parameter inv_comb_init (inv_comb_process M)"

subsection \<open>The simple lowpass filter\<close>

record 's simple_lp = fx_base +
  sl_cutoff :: 's
  sl_A :: 's
  sl_B :: 's
  sl_outhist :: "'s list"
  sl_tempin :: "'s list"
  sl_temphist :: "'s list"

definition simple_lp_set_parameter :: "'s::floor_ceiling math \<Rightarrow> int \<Rightarrow> 's \<Rightarrow> 's simple_lp \<Rightarrow> 's simple_lp" where
  "simple_lp_set_parameter M param v e =
     (if param = 1 then
        let A = 2 * m_pi M * v / of_int (fb_srate e)
        in e\<lparr>sl_cutoff := v, sl_A := A, sl_B := m_exp M (- A / of_int (fb_srate e))\<rparr>
      else e)"

definition simple_lp_get_parameter :: "int \<Rightarrow> 's::floor_ceiling simple_lp \<Rightarrow> 's" where
  "simple_lp_get_parameter param e = (if param = 1 then sl_cutoff e else 0)"

definition simple_lp_create :: "'s::floor_ceiling math \<Rightarrow> 's \<Rightarrow> 's simple_lp" where
  "simple_lp_create M cutoff =
     simple_lp_set_parameter M 1 cutoff
       \<lparr>fb_srate = 384000, fb_channels = 0, sl_cutoff = 0, sl_A = 0, sl_B = 0, sl_outhist = [], sl_tempin = [], sl_temphist = []\<rparr>"

text \<open>\<open>priv_resize_buffer\<close>.\<close>

definition cleared :: "nat \<Rightarrow> 's::zero list \<Rightarrow> 's list" where
  "cleared count buffer = map (\<lambda>_. 0) (resize count 0 buffer)"

lemma cleared [simp]: "cleared n xs = replicate n 0"
  by (simp add: cleared_def map_replicate_const)

definition simple_lp_init :: "'s::floor_ceiling sample_buffer \<Rightarrow> 's simple_lp \<Rightarrow> 's simple_lp" where
  "simple_lp_init slot e =
     (let n = sb_channel_count slot
      in (effect_base_init slot e)\<lparr>sl_outhist := cleared n (sl_outhist e), sl_tempin := cleared n (sl_tempin e),
           sl_temphist := cleared n (sl_temphist e)\<rparr>)"

definition simple_lp_body :: "nat \<Rightarrow> 's::floor_ceiling simple_lp \<Rightarrow> 's \<Rightarrow> ('s simple_lp \<times> 's) result" where
  "simple_lp_body c e x =
     bind_result (vector_at (sl_tempin e) c) (\<lambda>_.
     bind_result (vector_at (sl_temphist e) c) (\<lambda>_.
     bind_result (vector_at (sl_outhist e) c) (\<lambda>h.
       let ti = x * (sl_A e * (1 / 2)); th = h * (sl_B e * (1 / 2))
       in Inr (e\<lparr>sl_outhist := (sl_outhist e)[c := x], sl_tempin := (sl_tempin e)[c := ti], sl_temphist := (sl_temphist e)[c := th]\<rparr>,
               flush_to_zero (ti + th)))))"

definition simple_lp_process :: "'s::floor_ceiling sample_buffer \<Rightarrow> 's simple_lp \<Rightarrow> ('s simple_lp \<times> 's sample_buffer) result" where
  "simple_lp_process slot e = each_sample simple_lp_body e slot"

definition simple_lp_class :: "'s::floor_ceiling math \<Rightarrow> ('s simple_lp, 's, 's) op_class" where
  "simple_lp_class M =
     channelwise_class 1 simple_lp_get_parameter (simple_lp_set_parameter M) simple_lp_init simple_lp_process"

subsection \<open>The resonant bandpass filter\<close>

record 's res_bp = fx_base +
  rb_outhist1 :: "'s list"
  rb_outhist2 :: "'s list"
  rb_center :: 's
  rb_width :: 's
  rb_a :: 's
  rb_b :: 's
  rb_c :: 's
  rb_R :: 's
  rb_pole_angle :: 's

definition res_bp_refresh :: "'s::floor_ceiling math \<Rightarrow> 's res_bp \<Rightarrow> 's res_bp" where
  "res_bp_refresh M e =
     (let srate = of_int (fb_srate e);
          R = 1 - m_pi M * (rb_width e / srate);
          c = R * R;
          angle = m_acos M (2 * R / (1 + c) * m_cos M (rb_center e / srate * 2 * m_pi M))
      in e\<lparr>rb_R := R, rb_c := c, rb_pole_angle := angle, rb_a := (1 - c) * m_sin M angle, rb_b := 2 * R * m_cos M angle\<rparr>)"

definition res_bp_set_parameter :: "'s::floor_ceiling math \<Rightarrow> int \<Rightarrow> 's \<Rightarrow> 's res_bp \<Rightarrow> 's res_bp" where
  "res_bp_set_parameter M param v e =
     res_bp_refresh M
       (if param = 1 then e\<lparr>rb_center := v\<rparr>
        else if param = 2 then e\<lparr>rb_width := (if v \<noteq> 0 then v else rb_center e / 2)\<rparr>
        else e)"

definition res_bp_get_parameter :: "int \<Rightarrow> 's::floor_ceiling res_bp \<Rightarrow> 's" where
  "res_bp_get_parameter param e = (if param = 1 then rb_center e else if param = 2 then rb_width e else 0)"

definition res_bp_create :: "'s::floor_ceiling math \<Rightarrow> 's \<Rightarrow> 's \<Rightarrow> 's res_bp" where
  "res_bp_create M centerf w =
     res_bp_set_parameter M 2 w (res_bp_set_parameter M 1 centerf
       \<lparr>fb_srate = 384000, fb_channels = 0, rb_outhist1 = [], rb_outhist2 = [], rb_center = 1, rb_width = 1,
        rb_a = 0, rb_b = 0, rb_c = 0, rb_R = 0, rb_pole_angle = 0\<rparr>)"

definition res_bp_init :: "'s::floor_ceiling sample_buffer \<Rightarrow> 's res_bp \<Rightarrow> 's res_bp" where
  "res_bp_init slot e =
     (let n = sb_channel_count slot
      in (effect_base_init slot e)\<lparr>rb_outhist1 := cleared n (rb_outhist1 e), rb_outhist2 := cleared n (rb_outhist2 e)\<rparr>)"

definition res_bp_body :: "nat \<Rightarrow> 's::floor_ceiling res_bp \<Rightarrow> 's \<Rightarrow> ('s res_bp \<times> 's) result" where
  "res_bp_body c e x =
     bind_result (vector_at (rb_outhist1 e) c) (\<lambda>h1.
     bind_result (vector_at (rb_outhist2 e) c) (\<lambda>h2.
       let y = flush_to_zero (rb_a e * x + rb_b e * h1 - rb_c e * h2)
       in Inr (e\<lparr>rb_outhist2 := (rb_outhist2 e)[c := h1], rb_outhist1 := (rb_outhist1 e)[c := y]\<rparr>, y)))"

definition res_bp_process :: "'s::floor_ceiling sample_buffer \<Rightarrow> 's res_bp \<Rightarrow> ('s res_bp \<times> 's sample_buffer) result" where
  "res_bp_process slot e = each_sample res_bp_body e slot"

definition res_bp_class :: "'s::floor_ceiling math \<Rightarrow> ('s res_bp, 's, 's) op_class" where
  "res_bp_class M = channelwise_class 2 res_bp_get_parameter (res_bp_set_parameter M) res_bp_init res_bp_process"

subsection \<open>The resonator\<close>

record 's resonator = fx_base +
  rs_center :: 's
  rs_width :: 's
  rs_cona :: "'s list"
  rs_conb :: "'s list"
  rs_saout0 :: "'s list"
  rs_saout1 :: "'s list"

definition resonator_refresh :: "'s::floor_ceiling math \<Rightarrow> 's resonator \<Rightarrow> 's resonator" where
  "resonator_refresh M e =
     (let srate = of_int (fb_srate e);
          b1 = m_exp M (- (2 * m_pi M) * (rs_width e / srate));
          b0 = - 4 * b1 / (1 + b1) * m_cos M (2 * m_pi M * (rs_center e / srate))
      in e\<lparr>rs_conb := [b0, b1], rs_cona := [(1 - b1) * m_sqrt M (1 - b0 * b0 / (4 * b1))]\<rparr>)"

definition resonator_set_parameter :: "'s::floor_ceiling math \<Rightarrow> int \<Rightarrow> 's \<Rightarrow> 's resonator \<Rightarrow> 's resonator" where
  "resonator_set_parameter M param v e =
     resonator_refresh M
       (if param = 1 then e\<lparr>rs_center := v\<rparr>
        else if param = 2 then e\<lparr>rs_width := (if v \<noteq> 0 then v else rs_center e / 2)\<rparr>
        else e)"

definition resonator_get_parameter :: "int \<Rightarrow> 's::floor_ceiling resonator \<Rightarrow> 's" where
  "resonator_get_parameter param e = (if param = 1 then rs_center e else if param = 2 then rs_width e else 0)"

definition resonator_create :: "'s::floor_ceiling math \<Rightarrow> 's \<Rightarrow> 's \<Rightarrow> 's resonator" where
  "resonator_create M centerf w =
     resonator_set_parameter M 2 w (resonator_set_parameter M 1 centerf
       \<lparr>fb_srate = 384000, fb_channels = 0, rs_center = 1, rs_width = 1, rs_cona = [0], rs_conb = [0, 0],
        rs_saout0 = [], rs_saout1 = []\<rparr>)"

definition resonator_init :: "'s::floor_ceiling sample_buffer \<Rightarrow> 's resonator \<Rightarrow> 's resonator" where
  "resonator_init slot e =
     (let n = sb_channel_count slot
      in (effect_base_init slot e)\<lparr>rs_saout0 := cleared n (rs_saout0 e), rs_saout1 := cleared n (rs_saout1 e)\<rparr>)"

definition resonator_body :: "nat \<Rightarrow> 's::floor_ceiling resonator \<Rightarrow> 's \<Rightarrow> ('s resonator \<times> 's) result" where
  "resonator_body c e x =
     bind_result (vector_at (rs_saout0 e) c) (\<lambda>o0.
     bind_result (vector_at (rs_saout1 e) c) (\<lambda>o1.
       let y = rs_cona e ! 0 * x - rs_conb e ! 0 * o0 - rs_conb e ! 1 * o1
       in Inr (e\<lparr>rs_saout1 := (rs_saout1 e)[c := o0], rs_saout0 := (rs_saout0 e)[c := flush_to_zero y]\<rparr>, y)))"

definition resonator_process :: "'s::floor_ceiling sample_buffer \<Rightarrow> 's resonator \<Rightarrow> ('s resonator \<times> 's sample_buffer) result" where
  "resonator_process slot e = each_sample resonator_body e slot"

definition resonator_class :: "'s::floor_ceiling math \<Rightarrow> ('s resonator, 's, 's) op_class" where
  "resonator_class M =
     channelwise_class 2 resonator_get_parameter (resonator_set_parameter M) resonator_init resonator_process"

subsection \<open>The resonant lowpass filter\<close>

record 's triple_coefs =
  tc_a0 :: 's
  tc_a1 :: 's
  tc_a2 :: 's
  tc_b0 :: 's
  tc_b1 :: 's
  tc_b2 :: 's

record 's filter_coefs =
  fc_A :: 's
  fc_B :: 's
  fc_C :: 's
  fc_D :: 's

text \<open>The prototype and the coefficients of the two sections are \<open>rl_proto k\<close> and \<open>rl_coef k\<close>.\<close>

record 's res_lp = fx_base +
  rl_proto :: "nat \<Rightarrow> 's triple_coefs"
  rl_coef :: "nat \<Rightarrow> 's filter_coefs"
  rl_cutoff :: 's
  rl_Q :: 's
  rl_gain :: 's
  rl_gain_orig :: 's
  rl_pi :: 's
  rl_outhist :: "nat \<Rightarrow> 's list"
  rl_newhist :: "nat \<Rightarrow> 's list"

text \<open>The transformation from the s to the z domain, of one section. It multiplies the gain.\<close>

definition szxform :: "'s::floor_ceiling math \<Rightarrow> nat \<Rightarrow> 's res_lp \<Rightarrow> 's res_lp" where
  "szxform M k e =
     (let srate = of_int (fb_srate e);
          wp = 2 * srate * m_tan M (rl_pi e * rl_cutoff e / srate);
          p0 = rl_proto e k;
          p = p0\<lparr>tc_a2 := tc_a2 p0 / (wp * wp), tc_a1 := tc_a1 p0 / wp, tc_b2 := tc_b2 p0 / (wp * wp), tc_b1 := tc_b1 p0 / wp\<rparr>;
          ad = 4 * tc_a2 p * srate * srate + 2 * tc_a1 p * srate + tc_a0 p;
          bd = 4 * tc_b2 p * srate * srate + 2 * tc_b1 p * srate + tc_b0 p
      in e\<lparr>rl_proto := (rl_proto e)(k := p), rl_gain := rl_gain e * (ad / bd),
           rl_coef := (rl_coef e)(k :=
             \<lparr>fc_A = (2 * tc_b0 p - 8 * tc_b2 p * srate * srate) / bd,
              fc_B = (4 * tc_b2 p * srate * srate - 2 * tc_b1 p * srate + tc_b0 p) / bd,
              fc_C = (2 * tc_a0 p - 8 * tc_a2 p * srate * srate) / ad,
              fc_D = (4 * tc_a2 p * srate * srate - 2 * tc_a1 p * srate + tc_a0 p) / ad\<rparr>)\<rparr>)"

definition rl_damping :: "nat \<Rightarrow> 's::floor_ceiling" where
  "rl_damping k = (if k = 0 then 765367 / 1000000 else 1847759 / 1000000)"

definition refresh_values :: "'s::floor_ceiling math \<Rightarrow> 's res_lp \<Rightarrow> 's res_lp" where
  "refresh_values M e =
     (let e1 = e\<lparr>rl_cutoff := (if rl_cutoff e = 0 then 1 / 10 else rl_cutoff e)\<rparr>;
          e2 = e1\<lparr>rl_gain := rl_gain_orig e1,
             rl_proto := (\<lambda>k. (rl_proto e1 k)\<lparr>tc_a1 := 0, tc_a2 := 0, tc_b1 := rl_damping k / rl_Q e1, tc_b2 := 1\<rparr>)\<rparr>
      in szxform M 1 (szxform M 0 e2))"

definition res_lp_set_parameter :: "'s::floor_ceiling math \<Rightarrow> int \<Rightarrow> 's \<Rightarrow> 's res_lp \<Rightarrow> 's res_lp" where
  "res_lp_set_parameter M param v e =
     refresh_values M
       (if param = 1 then e\<lparr>rl_cutoff := v\<rparr> else if param = 2 then e\<lparr>rl_Q := v\<rparr>
        else if param = 3 then e\<lparr>rl_gain_orig := v\<rparr> else e)"

definition res_lp_get_parameter :: "int \<Rightarrow> 's::floor_ceiling res_lp \<Rightarrow> 's" where
  "res_lp_get_parameter param e =
     (if param = 1 then rl_cutoff e else if param = 2 then rl_Q e else if param = 3 then rl_gain_orig e else 0)"

definition res_lp_create :: "'s::floor_ceiling math \<Rightarrow> 's \<Rightarrow> 's \<Rightarrow> 's \<Rightarrow> 's res_lp" where
  "res_lp_create M co res g =
     szxform M 1 (szxform M 0
       \<lparr>fb_srate = 384000, fb_channels = 0,
        rl_proto = (\<lambda>k. \<lparr>tc_a0 = 1, tc_a1 = 0, tc_a2 = 0, tc_b0 = 1, tc_b1 = rl_damping k / res, tc_b2 = 1\<rparr>),
        rl_coef = (\<lambda>_. \<lparr>fc_A = 0, fc_B = 0, fc_C = 0, fc_D = 0\<rparr>), rl_cutoff = co, rl_Q = res, rl_gain = g, rl_gain_orig = g,
        rl_pi = 4 * m_atan M 1, rl_outhist = (\<lambda>_. []), rl_newhist = (\<lambda>_. [])\<rparr>)"

text \<open>\<open>outhist0\<close> to \<open>outhist3\<close>, and \<open>newhist0\<close> and \<open>newhist1\<close>.\<close>

definition res_lp_init :: "'s::floor_ceiling sample_buffer \<Rightarrow> 's res_lp \<Rightarrow> 's res_lp" where
  "res_lp_init slot e =
     (let n = sb_channel_count slot
      in (effect_base_init slot e)\<lparr>rl_outhist := (\<lambda>k. cleared n (rl_outhist e k)), rl_newhist := (\<lambda>k. cleared n (rl_newhist e k))\<rparr>)"

text \<open>One section: the poles, the zeros, and the history.\<close>

definition res_lp_section :: "nat \<Rightarrow> nat \<Rightarrow> 's::floor_ceiling res_lp \<times> 's \<Rightarrow> ('s res_lp \<times> 's) result" where
  "res_lp_section c k = (\<lambda>(e, x).
     bind_result (vector_at (rl_outhist e (2 * k)) c) (\<lambda>h0.
     bind_result (vector_at (rl_outhist e (2 * k + 1)) c) (\<lambda>h1.
     bind_result (vector_at (rl_newhist e k) c) (\<lambda>_.
       let x1 = x - h0 * fc_A (rl_coef e k);
           nh = flush_to_zero (x1 - h1 * fc_B (rl_coef e k));
           x2 = nh + h0 * fc_C (rl_coef e k)
       in Inr (e\<lparr>rl_newhist := (rl_newhist e)(k := (rl_newhist e k)[c := nh]),
                 rl_outhist := (rl_outhist e)(2 * k + 1 := (rl_outhist e (2 * k + 1))[c := h0],
                   2 * k := (rl_outhist e (2 * k))[c := nh])\<rparr>,
               x2 + h1 * fc_D (rl_coef e k))))))"

definition res_lp_body :: "nat \<Rightarrow> 's::floor_ceiling res_lp \<Rightarrow> 's \<Rightarrow> ('s res_lp \<times> 's) result" where
  "res_lp_body c e x = bind_result (res_lp_section c 0 (e, x * rl_gain e)) (res_lp_section c 1)"

definition res_lp_process :: "'s::floor_ceiling sample_buffer \<Rightarrow> 's res_lp \<Rightarrow> ('s res_lp \<times> 's sample_buffer) result" where
  "res_lp_process slot e = each_sample res_lp_body e slot"

definition res_lp_class :: "'s::floor_ceiling math \<Rightarrow> ('s res_lp, 's, 's) op_class" where
  "res_lp_class M = channelwise_class 3 res_lp_get_parameter (res_lp_set_parameter M) res_lp_init res_lp_process"

end
