(* ===== verification/Filters_Facts.thy ===== *)
theory Filters_Facts
  imports Filters
begin

text \<open>
  Every filter is a transducer of each channel. The biquads satisfy their recurrence on every stream,
  with coefficients that always belong to the current parameters and sample rate; the inverse comb
  filter undoes the comb filter.
\<close>

subsection \<open>The signal some samples ago\<close>

definition delayed :: "nat \<Rightarrow> 's::zero list \<Rightarrow> nat \<Rightarrow> 's" where
  "delayed k xs t = (if k \<le> t then xs ! (t - k) else 0)"

definition past :: "nat \<Rightarrow> 's::zero list \<Rightarrow> 's" where
  "past k H = delayed k H (length H)"

lemma past_Nil [simp]: "0 < k \<Longrightarrow> past k [] = 0"
  by (simp add: past_def delayed_def)

lemma past_snoc [simp]: "past (Suc 0) (H @ [x]) = x" "past 2 (H @ [x]) = past 1 H"
  by (auto simp: past_def delayed_def nth_append numeral_2_eq_2)

lemma past_take: "t \<le> length xs \<Longrightarrow> 0 < k \<Longrightarrow> past k (take t xs) = delayed k xs t"
  by (simp add: past_def delayed_def min_def)

lemma map_fst_zip_take: "length xs = length ys \<Longrightarrow> map fst (map2 Pair (take t xs) (take t ys)) = take t xs"
  "length xs = length ys \<Longrightarrow> map snd (map2 Pair (take t xs) (take t ys)) = take t ys"
  by (simp_all add: map_fst_zip map_snd_zip)

subsection \<open>Biquads\<close>

definition bw_good :: "nat \<Rightarrow> 's biquad \<Rightarrow> bool" where
  "bw_good n e \<longleftrightarrow> length (bw_sin e) = n \<and> length (bw_sout e) = n \<and>
     (\<forall>c < n. length (bw_sin e ! c) = 2 \<and> length (bw_sout e ! c) = 2)"

definition bw_state :: "'s biquad \<Rightarrow> nat \<Rightarrow> 's list \<times> 's list" where
  "bw_state e c = (bw_sin e ! c, bw_sout e ! c)"

definition bw_out :: "'s list \<Rightarrow> 's list \<Rightarrow> 's \<Rightarrow> 's \<Rightarrow> 's \<Rightarrow> 's \<Rightarrow> 's::linordered_field \<Rightarrow> 's" where
  "bw_out a b i0 i1 o0 o1 x = flush_to_zero (a ! 0 * x + a ! 1 * i0 + a ! 2 * i1 - b ! 0 * o0 - b ! 1 * o1)"

definition bw_step :: "'s::floor_ceiling biquad \<Rightarrow> 's list \<times> 's list \<Rightarrow> 's \<Rightarrow> ('s list \<times> 's list) \<times> 's" where
  "bw_step e = (\<lambda>(si, so) x.
     let y = bw_out (bw_a e) (bw_b e) (si ! 0) (si ! 1) (so ! 0) (so ! 1) x in (([x, si ! 0], [y, so ! 0]), y))"

lemma two_cells: "length xs = 2 \<Longrightarrow> xs[Suc 0 := a, 0 := b] = [b, a]"
  by (auto simp: length_Suc_conv numeral_2_eq_2)

lemma bw_body_ok:
  assumes good: "bw_good n e" and c: "c < n"
  shows "\<exists>e'. bw_body c e x = Inr (e', snd (bw_step e (bw_state e c) x)) \<and> bw_good n e' \<and> bw_step e' = bw_step e \<and>
    (\<forall>i < n. bw_state e' i = (if i = c then fst (bw_step e (bw_state e c) x) else bw_state e i))"
proof -
  have g: "length (bw_sin e) = n" "length (bw_sout e) = n" "length (bw_sin e ! c) = 2" "length (bw_sout e ! c) = 2"
    using good c by (simp_all add: bw_good_def)
  define y where "y = bw_out (bw_a e) (bw_b e) (bw_sin e ! c ! 0) (bw_sin e ! c ! 1) (bw_sout e ! c ! 0) (bw_sout e ! c ! 1) x"
  define e' where "e' = e\<lparr>bw_sin := (bw_sin e)[c := [x, bw_sin e ! c ! 0]], bw_sout := (bw_sout e)[c := [y, bw_sout e ! c ! 0]]\<rparr>"
  have body: "bw_body c e x = Inr (e', y)"
    using g c two_cells[OF g(3)] two_cells[OF g(4)]
    by (simp add: bw_body_def write_cell_def Let_def e'_def y_def bw_out_def)
  have step: "bw_step e (bw_state e c) x = (([x, bw_sin e ! c ! 0], [y, bw_sout e ! c ! 0]), y)"
    by (simp add: bw_step_def bw_state_def y_def Let_def)
  have "bw_good n e'"
    unfolding bw_good_def
  proof (intro conjI allI impI)
    fix i assume "i < n"
    then show "length (bw_sin e' ! i) = 2" "length (bw_sout e' ! i) = 2"
      using good g(1,2) c by (cases "i = c"; simp add: bw_good_def e'_def)+
  qed (use g in \<open>simp_all add: e'_def\<close>)
  moreover have "bw_step e' = bw_step e" by (simp add: bw_step_def e'_def)
  moreover have "\<forall>i < n. bw_state e' i = (if i = c then fst (bw_step e (bw_state e c) x) else bw_state e i)"
    using g c by (auto simp: step[unfolded bw_state_def] bw_state_def e'_def)
  ultimately show ?thesis using body step by simp
qed

interpretation biquad: channel_effect bw_body bw_good bw_state bw_step
  by unfold_locales (rule bw_body_ok)

subsection \<open>The coefficients\<close>

text \<open>What the coefficients have to be.\<close>

definition bw_coefficients :: "'s::floor_ceiling math \<Rightarrow> bw_kind \<Rightarrow> 's \<Rightarrow> 's \<Rightarrow> 's \<Rightarrow> 's list \<times> 's list" where
  "bw_coefficients M kind srate p1 p2 =
     (case kind of
        Bandpass \<Rightarrow>
          (let C = 1 / m_tan M (m_pi M * p2 / srate); D = 2 * m_cos M (2 * m_pi M * p1 / srate); g = 1 / (1 + C)
           in ([g, 0, - g], [- C * D * g, (C - 1) * g]))
      | Bandreject \<Rightarrow>
          (let C = m_tan M (m_pi M * p2 / srate); D = 2 * m_cos M (2 * m_pi M * p1 / srate); g = 1 / (1 + C)
           in ([g, - D * g, g], [- D * g, (1 - C) * g]))
      | Highpass \<Rightarrow>
          (let C = m_tan M (m_pi M * p1 / srate); g = 1 / (1 + m_sqrt M 2 * C + C * C)
           in ([g, - 2 * g, g], [2 * (C * C - 1) * g, (1 - m_sqrt M 2 * C + C * C) * g]))
      | Lowpass \<Rightarrow>
          (let C = 1 / m_tan M (m_pi M * p1 / srate); g = 1 / (1 + m_sqrt M 2 * C + C * C)
           in ([g, 2 * g, g], [2 * (1 - C * C) * g, (1 - m_sqrt M 2 * C + C * C) * g])))"

text \<open>The auxiliary values of the class, which the next change of a parameter reuses.\<close>

definition bw_matches :: "'s::floor_ceiling math \<Rightarrow> 's biquad \<Rightarrow> bool" where
  "bw_matches M e \<longleftrightarrow>
     (bw_a e, bw_b e) = bw_coefficients M (bw_kind e) (of_int (fb_srate e)) (bw_center e) (bw_width e) \<and>
     (bw_kind e = Bandpass \<longrightarrow> bw_C e = 1 / m_tan M (m_pi M * bw_width e / of_int (fb_srate e))) \<and>
     (bw_kind e = Bandreject \<longrightarrow> bw_D e = 2 * m_cos M (2 * m_pi M * bw_center e / of_int (fb_srate e)))"

lemma bw_set_parameter_kept [simp]:
  "bw_kind (bw_set_parameter M n v e) = bw_kind e" "fb_srate (bw_set_parameter M n v e) = fb_srate e"
  "bw_sin (bw_set_parameter M n v e) = bw_sin e" "bw_sout (bw_set_parameter M n v e) = bw_sout e"
  by (cases "bw_kind e"; simp add: bw_set_parameter_def bandpass_set_parameter_def bandreject_set_parameter_def
      highpass_set_parameter_def lowpass_set_parameter_def lowpass_set_cutoff_def Let_def)+

lemma bw_set_matches: "bw_matches M e \<Longrightarrow> bw_matches M (bw_set_parameter M n v e)"
  by (cases "bw_kind e") (auto simp: bw_matches_def bw_coefficients_def bw_set_parameter_def bandpass_set_parameter_def
      bandreject_set_parameter_def highpass_set_parameter_def lowpass_set_parameter_def lowpass_set_cutoff_def Let_def)

text \<open>Setting all parameters repairs any coefficients.\<close>

definition bw_set_all :: "'s::floor_ceiling math \<Rightarrow> 's \<Rightarrow> 's \<Rightarrow> 's biquad \<Rightarrow> 's biquad" where
  "bw_set_all M p1 p2 e =
     (if bw_params (bw_kind e) = 2 then bw_set_parameter M 2 p2 (bw_set_parameter M 1 p1 e) else bw_set_parameter M 1 p1 e)"

lemma bw_set_all_matches:
  assumes "length (bw_a e) = 3" "length (bw_b e) = 2"
  shows "bw_matches M (bw_set_all M p1 p2 e)"
  by (cases "bw_kind e") (simp_all add: bw_matches_def bw_set_all_def bw_params_def bw_coefficients_def bw_set_parameter_def
      bandpass_set_parameter_def bandreject_set_parameter_def highpass_set_parameter_def lowpass_set_parameter_def
      lowpass_set_cutoff_def Let_def)

lemma bw_matches_shape: "bw_matches M e \<Longrightarrow> length (bw_a e) = 3 \<and> length (bw_b e) = 2"
  by (auto simp: bw_matches_def bw_coefficients_def Let_def split: bw_kind.splits)

lemma upto_params: "[1..bw_params kind] = (if bw_params kind = 2 then [1, 2] else [1])"
  by (simp add: bw_params_def upto.simps)



lemma bw_set_srate_matches:
  assumes "bw_matches M e"
  shows "bw_matches M (effect_base_set_srate (bw_params (bw_kind e)) bw_get_parameter (bw_set_parameter M) r e)"
proof (cases "fb_srate e = r")
  case False
  let ?e = "e\<lparr>fb_srate := r\<rparr>"
  have "effect_base_set_srate (bw_params (bw_kind e)) bw_get_parameter (bw_set_parameter M) r e =
      bw_set_all M (bw_get_parameter 1 e) (bw_get_parameter 2 e) ?e"
    using False by (simp add: effect_base_set_srate_def upto_params bw_set_all_def)
  then show ?thesis using bw_set_all_matches[of ?e] bw_matches_shape[OF assms] by simp
qed (use assms in \<open>simp add: effect_base_set_srate_def\<close>)

datatype 's filter_event = Set_param int 's | Set_rate int | Start "'s sample_buffer"

fun bw_event :: "'s::floor_ceiling math \<Rightarrow> 's filter_event \<Rightarrow> 's biquad \<Rightarrow> 's biquad" where
  "bw_event M (Set_param n v) e = bw_set_parameter M n v e"
| "bw_event M (Set_rate r) e = op_set_srate (bw_class M (bw_kind e)) r e"
| "bw_event M (Start slot) e = bw_init slot e"

lemma bw_init_matches: "bw_matches M e \<Longrightarrow> bw_matches M (bw_init slot e)"
  by (simp add: bw_matches_def bw_init_def effect_base_init_def Let_def)

lemma bw_event_kind: "bw_kind (bw_event M v e) = bw_kind e"
proof (cases v)
  case (Set_rate r)
  have "bw_kind (fold (\<lambda>n. bw_set_parameter M n (f n)) ns e') = bw_kind e'"
    for ns :: "int list" and e' :: "'a biquad" and f by (induction ns arbitrary: e') simp_all
  then show ?thesis using Set_rate
    by (simp add: bw_class_def channelwise_class_def effect_base_set_srate_def upto_params)
qed (simp_all add: bw_init_def effect_base_init_def Let_def)

subsection \<open>The recurrence\<close>

lemma bw_refresh:
  "refresh_op (bw_class M kind) e =
     (let e1 = bw_set_parameter M 1 (bw_get_parameter 1 e) e
      in if bw_params kind = 2 then bw_set_parameter M 2 (bw_get_parameter 2 e1) e1 else e1)"
  by (simp add: refresh_op_def bw_class_def channelwise_class_def bw_params_def upt_rec Let_def)

lemma bw_refresh_kept:
  "bw_sin (refresh_op (bw_class M kind) e) = bw_sin e" "bw_sout (refresh_op (bw_class M kind) e) = bw_sout e"
  "bw_kind (refresh_op (bw_class M kind) e) = bw_kind e" "fb_srate (refresh_op (bw_class M kind) e) = fb_srate e"
  by (simp_all add: bw_refresh Let_def)

lemma bw_init_zero:
  assumes "\<forall>r \<in> set (bw_sin e). length r = 2" "\<forall>r \<in> set (bw_sout e). length r = 2"
  shows "bw_sin (bw_init slot e) = replicate (sb_channel_count slot) [0, 0]"
    "bw_sout (bw_init slot e) = replicate (sb_channel_count slot) [0, 0]"
proof -
  have two: "map (\<lambda>_. 0) r = [0, 0]" if "length r = 2" for r :: "'a list"
    using that by (auto simp: length_Suc_conv numeral_2_eq_2)
  have "map (map (\<lambda>_. 0)) (resize n [0, 0] rows) = replicate n [0, 0]" if "\<forall>r \<in> set rows. length r = 2" for n and rows :: "'a list list"
    by (rule nth_equalityI) (use that two in \<open>auto simp: resize_def nth_append dest!: bspec nth_mem\<close>)
  then show "bw_sin (bw_init slot e) = replicate (sb_channel_count slot) [0, 0]"
      "bw_sout (bw_init slot e) = replicate (sb_channel_count slot) [0, 0]"
    using assms by (simp_all add: bw_init_def effect_base_init_def Let_def)
qed

lemma bw_refresh_matches: "bw_matches M e \<Longrightarrow> bw_matches M (refresh_op (bw_class M kind) e)"
  by (simp add: bw_refresh Let_def bw_set_matches)

definition bw_rows :: "'s biquad \<Rightarrow> bool" where
  "bw_rows e \<longleftrightarrow> (\<forall>r \<in> set (bw_sin e) \<union> set (bw_sout e). length r = 2)"

lemma bw_event_rows:
  assumes "bw_rows e"
  shows "bw_rows (bw_event M v e)"
proof (cases v)
  case (Set_rate r)
  have "bw_rows (fold (\<lambda>n. bw_set_parameter M n (f n)) ns e') = bw_rows e'" for ns :: "int list" and e' :: "'a biquad" and f
    by (induction ns arbitrary: e') (simp_all add: bw_rows_def)
  then show ?thesis using Set_rate assms
    by (simp add: bw_class_def channelwise_class_def effect_base_set_srate_def bw_rows_def)
next
  case (Start slot)
  then show ?thesis using bw_init_zero[of e slot] assms by (auto simp: bw_rows_def)
qed (use assms in \<open>simp add: bw_rows_def\<close>)

lemma bw_run:
  assumes "e = fold (bw_event M) events (bw_create M kind p1 p2)"
  shows "bw_matches M e" "bw_rows e" "bw_kind e = kind" "length (bw_a e) = 3" "length (bw_b e) = 2"
proof -
  have "bw_matches M (bw_create M kind p1 p2)"
    using bw_set_all_matches[of
        "\<lparr>fb_srate = 384000, fb_channels = 0, bw_kind = kind, bw_a = [0, 0, 0], bw_b = [0, 0], bw_sin = [], bw_sout = [],
          bw_center = 1, bw_width = 1, bw_C = 1, bw_D = 0\<rparr>" M p1 p2]
    by (simp add: bw_create_def bw_set_all_def Let_def)
  moreover have "bw_rows (bw_create M kind p1 p2)" "bw_kind (bw_create M kind p1 p2) = kind"
    by (simp_all add: bw_create_def bw_rows_def Let_def)
  moreover have "bw_matches M (fold (bw_event M) events e) \<and> bw_rows (fold (bw_event M) events e) \<and>
      bw_kind (fold (bw_event M) events e) = bw_kind e"
    if "bw_matches M e" "bw_rows e" for e :: "'a biquad"
    using that
  proof (induction events arbitrary: e)
    case (Cons v events)
    have "bw_matches M (bw_event M v e)"
      using Cons.prems(1) bw_set_srate_matches[OF Cons.prems(1)]
      by (cases v) (simp_all add: bw_set_matches bw_init_matches bw_class_def channelwise_class_def)
    from Cons.IH[OF this bw_event_rows[OF Cons.prems(2)]] show ?case by (simp add: bw_event_kind)
  qed simp
  ultimately show m: "bw_matches M e" and "bw_rows e" "bw_kind e = kind" using assms by simp_all
  show "length (bw_a e) = 3" "length (bw_b e) = 2" using bw_matches_shape[OF m] by simp_all
qed

text \<open>
  C15. Whatever the sequence of parameters, of sample rates and of initialisations since the filter was made,
  its coefficients are those of its current parameters at the current sample rate.
\<close>

theorem bw_coefficients_match:
  fixes e :: "'s::floor_ceiling biquad"
  assumes "e = fold (bw_event M) events (bw_create M kind p1 p2)"
  shows "(bw_a e, bw_b e) = bw_coefficients M kind (of_int (fb_srate e)) (bw_center e) (bw_width e)"
  using bw_run(1,3)[OF assms] by (simp add: bw_matches_def)

text \<open>The state after a history of inputs and outputs.\<close>

definition bw_after :: "('s::zero \<times> 's) list \<Rightarrow> 's list \<times> 's list \<Rightarrow> bool" where
  "bw_after W m \<longleftrightarrow> m = ([past 1 (map fst W), past 2 (map fst W)], [past 1 (map snd W), past 2 (map snd W)])"

definition bw_history_out :: "'s::floor_ceiling biquad \<Rightarrow> ('s \<times> 's) list \<Rightarrow> 's \<Rightarrow> 's" where
  "bw_history_out e W x =
     bw_out (bw_a e) (bw_b e) (past 1 (map fst W)) (past 2 (map fst W)) (past 1 (map snd W)) (past 2 (map snd W)) x"

lemma bw_step_after:
  "bw_after W m \<Longrightarrow> bw_after (W @ [(x, bw_history_out e W x)]) (fst (bw_step e m x)) \<and> snd (bw_step e m x) = bw_history_out e W x"
  by (simp add: bw_after_def bw_step_def bw_history_out_def Let_def)

text \<open>
  C16. A biquad filter that has been made, configured and started in any way, from a chain's initialisation on
  and however the stream is cut into buffers: every channel of the output satisfies the recurrence of the
  filter with the coefficients of its parameters and its sample rate, starting from silence.
\<close>

theorem biquads_follow_recurrence:
  fixes e :: "'s::floor_ceiling biquad" and slot :: "'s sample_buffer"
  assumes "e = fold (bw_event M) events (bw_create M kind p1 p2)" "e1 = refresh_op (bw_class M kind) (bw_init slot e)"
    and "blocks_ok (sb_channel_count slot) bufs"
  shows "\<exists>e' bufs'. process_blocks (\<lambda>e b. bw_process b e) e1 bufs = Inr (e', bufs') \<and>
    map sb_buffersize bufs' = map sb_buffersize bufs \<and>
    (\<forall>c < sb_channel_count slot. \<forall>t < length (signal c bufs).
       (let (a, b) = bw_coefficients M kind (of_int (fb_srate e)) (bw_center e1) (bw_width e1);
            x = signal c bufs; y = signal c bufs'
        in y ! t = flush_to_zero (a ! 0 * x ! t + a ! 1 * delayed 1 x t + a ! 2 * delayed 2 x t -
             b ! 0 * delayed 1 y t - b ! 1 * delayed 2 y t)))"
proof -
  define n where "n = sb_channel_count slot"
  note r = bw_run[OF assms(1)]
  have z: "bw_sin e1 = replicate n [0, 0]" "bw_sout e1 = replicate n [0, 0]"
    using bw_init_zero[of e slot] r(2) by (simp_all add: assms(2) bw_refresh_kept n_def bw_rows_def)
  have k: "bw_kind e1 = kind" "fb_srate e1 = fb_srate e"
    using r(3) by (simp_all add: assms(2) bw_refresh_kept bw_init_def effect_base_init_def Let_def)
  have good: "bw_good n e1" using z by (simp add: bw_good_def)
  have start: "bw_after [] (bw_state e1 c)" if "c < n" for c
    using that z by (simp add: bw_after_def bw_state_def)
  have co: "(bw_a e1, bw_b e1) = bw_coefficients M kind (of_int (fb_srate e)) (bw_center e1) (bw_width e1)"
    using bw_refresh_matches[OF bw_init_matches[OF r(1)], of kind slot, folded assms(2)] k by (simp add: bw_matches_def)
  obtain e' bufs' where 1: "process_blocks (\<lambda>e b. bw_process b e) e1 bufs = Inr (e', bufs')" "blocks_ok n bufs'"
      "map sb_buffersize bufs' = map sb_buffersize bufs"
      "\<And>c t. c < n \<Longrightarrow> t < length (signal c bufs) \<Longrightarrow> signal c bufs' ! t =
          bw_history_out e1 (map2 Pair (take t (signal c bufs)) (take t (signal c bufs'))) (signal c bufs ! t)"
    using biquad.log_stream[where R = bw_after and kept = Pair and process = "\<lambda>e b. bw_process b e" and n = n and bufs = bufs
        and e = e1 and out = "bw_history_out e1", OF _ assms(3)[folded n_def] good start bw_step_after]
    by (auto simp: bw_process_def)
  show ?thesis
    unfolding n_def[symmetric]
  proof (intro exI conjI allI impI)
    fix c t assume c: "c < n" and t: "t < length (signal c bufs)"
    have len: "length (signal c bufs') = length (signal c bufs)"
      using length_signal[OF assms(3)[folded n_def] c] length_signal[OF 1(2) c] 1(3) by simp
    show "let (a, b) = bw_coefficients M kind (of_int (fb_srate e)) (bw_center e1) (bw_width e1);
            x = signal c bufs; y = signal c bufs'
        in y ! t = flush_to_zero (a ! 0 * x ! t + a ! 1 * delayed 1 x t + a ! 2 * delayed 2 x t -
             b ! 0 * delayed 1 y t - b ! 1 * delayed 2 y t)"
      using 1(4)[OF c t] t len
      by (simp add: bw_history_out_def bw_out_def map_fst_zip_take past_take flip: co)
  qed (use 1 in simp_all)
qed

subsection \<open>Constant signals\<close>

lemma bw_dc:
  "a ! 0 * v + a ! 1 * v + a ! 2 * v - b ! 0 * v - b ! 1 * v = (a ! 0 + a ! 1 + a ! 2 - b ! 0 - b ! 1) * (v :: 's::linordered_field)"
  by (simp add: algebra_simps)

lemma lowpass_sum:
  fixes C r :: "'s::linordered_field"
  assumes "1 + r * C + C * C \<noteq> 0"
  defines "g \<equiv> 1 / (1 + r * C + C * C)"
  shows "g + 2 * g + g - 2 * (1 - C * C) * g - (1 - r * C + C * C) * g = 1"
proof -
  have "g * (1 + r * C + C * C) = 1" using assms(1) by (simp add: g_def)
  moreover have "g + 2 * g + g - 2 * (1 - C * C) * g - (1 - r * C + C * C) * g = g * (1 + r * C + C * C)" by algebra
  ultimately show ?thesis by simp
qed

lemma bandreject_sum:
  fixes C D :: "'s::linordered_field"
  assumes "1 + C \<noteq> 0"
  defines "g \<equiv> 1 / (1 + C)"
  shows "g + - D * g + g - - D * g - (1 - C) * g = 1"
proof -
  have "g * (1 + C) = 1" using assms(1) by (simp add: g_def)
  moreover have "g + - D * g + g - - D * g - (1 - C) * g = g * (1 + C)" by algebra
  ultimately show ?thesis by simp
qed

text \<open>The denominators that the coefficients divide by.\<close>

definition bw_regular :: "'s::floor_ceiling math \<Rightarrow> bw_kind \<Rightarrow> 's \<Rightarrow> 's \<Rightarrow> 's \<Rightarrow> bool" where
  "bw_regular M kind srate p1 p2 \<longleftrightarrow>
     (case kind of
        Lowpass \<Rightarrow> (let C = 1 / m_tan M (m_pi M * p1 / srate) in 1 + m_sqrt M 2 * C + C * C \<noteq> 0)
      | Bandreject \<Rightarrow> 1 + m_tan M (m_pi M * p2 / srate) \<noteq> 0
      | _ \<Rightarrow> True)"

text \<open>
  A filter that has settled on a constant signal: lowpass and bandreject filters let it through
  unchanged, highpass and bandpass filters remove it, whatever their parameters. Of the filter it is
  only used that its coefficients match its parameters, which every run keeps (\<open>bw_run\<close>).
\<close>

theorem filters_on_constant_signals:
  fixes e :: "'s::floor_ceiling biquad"
  assumes "bw_matches M e" "bw_kind e = kind"
    and "bw_regular M kind (of_int (fb_srate e)) (bw_center e) (bw_width e)"
    and "c < length (bw_sin e)" "c < length (bw_sout e)" "flush_to_zero v = v"
    and "w = (if kind = Lowpass \<or> kind = Bandreject then v else 0)"
    and "bw_sin e ! c = [v, v]" "bw_sout e ! c = [w, w]"
  shows "bw_body c e v = Inr (e, w)"
proof -
  have ab: "(bw_a e, bw_b e) = bw_coefficients M kind (of_int (fb_srate e)) (bw_center e) (bw_width e)"
    using assms(1,2) by (simp add: bw_matches_def)
  have "bw_a e ! 0 * v + bw_a e ! 1 * v + bw_a e ! 2 * v - bw_b e ! 0 * w - bw_b e ! 1 * w = w"
  proof (cases kind)
    case Lowpass
    define C where "C = 1 / m_tan M (m_pi M * bw_center e / of_int (fb_srate e))"
    define g where "g = 1 / (1 + m_sqrt M 2 * C + C * C)"
    have "1 + m_sqrt M 2 * C + C * C \<noteq> 0" using assms(3) Lowpass by (simp add: bw_regular_def Let_def flip: C_def)
    moreover have "bw_a e = [g, 2 * g, g]" "bw_b e = [2 * (1 - C * C) * g, (1 - m_sqrt M 2 * C + C * C) * g]"
      using ab unfolding Lowpass bw_coefficients_def Let_def bw_kind.case C_def[symmetric] g_def[symmetric] by simp_all
    ultimately have "bw_a e ! 0 + bw_a e ! 1 + bw_a e ! 2 - bw_b e ! 0 - bw_b e ! 1 = 1"
      using lowpass_sum[of "m_sqrt M 2" C] by (simp flip: g_def)
    then show ?thesis using assms(7) Lowpass by (simp only: bw_dc simp_thms if_True mult_1)
  next
    case Bandreject
    define C D where "C = m_tan M (m_pi M * bw_width e / of_int (fb_srate e))"
      and "D = 2 * m_cos M (2 * m_pi M * bw_center e / of_int (fb_srate e))"
    define g where "g = 1 / (1 + C)"
    have "1 + C \<noteq> 0" using assms(3) Bandreject by (simp add: bw_regular_def flip: C_def)
    moreover have "bw_a e = [g, - D * g, g]" "bw_b e = [- D * g, (1 - C) * g]"
      using ab unfolding Bandreject bw_coefficients_def Let_def bw_kind.case C_def[symmetric] D_def[symmetric] g_def[symmetric]
      by simp_all
    ultimately have "bw_a e ! 0 + bw_a e ! 1 + bw_a e ! 2 - bw_b e ! 0 - bw_b e ! 1 = 1"
      using bandreject_sum[of C D] by (simp flip: g_def)
    then show ?thesis using assms(7) Bandreject by (simp only: bw_dc simp_thms if_True mult_1)
  qed (use ab assms(7) in \<open>simp_all add: bw_coefficients_def Let_def\<close>)
  moreover have "flush_to_zero w = w" using assms(6,7) by simp
  ultimately show ?thesis
    using assms(4,5,8,9) by (simp add: bw_body_def write_cell_def Let_def list_update_same_conv)
qed

subsection \<open>Filters with a queue\<close>

text \<open>A delay in samples, as the comparison with the length of a queue rounds it.\<close>

definition delay_count :: "'s::floor_ceiling \<Rightarrow> nat" where
  "delay_count C = nat \<lceil>C\<rceil>"

lemma delay_count_le: "C \<le> of_nat k \<longleftrightarrow> delay_count C \<le> k"
  by (simp add: delay_count_def ceiling_le_iff nat_le_iff)

lemma delay_count_pos: "0 < delay_count C \<longleftrightarrow> 0 < C"
  by (simp add: delay_count_def)

definition comb_good :: "nat \<Rightarrow> 's::floor_ceiling comb \<Rightarrow> bool" where
  "comb_good n e \<longleftrightarrow> length (cb_buffer e) = n \<and> 0 < cb_C e"

definition comb_step :: "'s::floor_ceiling math \<Rightarrow> 's comb \<Rightarrow> 's list \<Rightarrow> 's \<Rightarrow> 's list \<times> 's" where
  "comb_step M e q x =
     (if delay_count (cb_C e) \<le> length q
      then let y = x + m_pow M (cb_D e) (cb_C e) * hd q in (tl (q @ [y]), y)
      else (q @ [x], x))"

lemma comb_body_ok:
  assumes good: "comb_good n e" and c: "c < n"
  shows "\<exists>e'. comb_body M c e x = Inr (e', snd (comb_step M e (cb_buffer e ! c) x)) \<and> comb_good n e' \<and>
    comb_step M e' = comb_step M e \<and>
    (\<forall>i < n. cb_buffer e' ! i = (if i = c then fst (comb_step M e (cb_buffer e ! c) x) else cb_buffer e ! i))"
proof -
  define e' where "e' = e\<lparr>cb_buffer := (cb_buffer e)[c := fst (comb_step M e (cb_buffer e ! c) x)]\<rparr>"
  have g: "c < length (cb_buffer e)" "0 < delay_count (cb_C e)" using good c by (simp_all add: comb_good_def delay_count_pos)
  have "comb_body M c e x = Inr (e', snd (comb_step M e (cb_buffer e ! c) x))"
    using g by (auto simp: comb_body_def comb_step_def e'_def delay_count_le front_of_def Let_def)
  moreover have "comb_step M e' = comb_step M e" by (simp add: comb_step_def e'_def fun_eq_iff)
  ultimately show ?thesis using good c by (intro exI[of _ e']) (simp add: comb_good_def e'_def)
qed

interpretation comb: channel_effect "comb_body M" comb_good "\<lambda>e c. cb_buffer e ! c" "comb_step M" for M
  by unfold_locales (rule comb_body_ok)

definition inv_comb_good :: "nat \<Rightarrow> 's::floor_ceiling inv_comb \<Rightarrow> bool" where
  "inv_comb_good n e \<longleftrightarrow> length (ic_buffer e) = n \<and> length (ic_laskuri e) = n"

definition inv_comb_state :: "'s inv_comb \<Rightarrow> nat \<Rightarrow> 's list \<times> 's" where
  "inv_comb_state e c = (ic_buffer e ! c, ic_laskuri e ! c)"

definition inv_comb_step :: "'s::floor_ceiling math \<Rightarrow> 's inv_comb \<Rightarrow> 's list \<times> 's \<Rightarrow> 's \<Rightarrow> ('s list \<times> 's) \<times> 's" where
  "inv_comb_step M e = (\<lambda>(q, k) x.
     if ic_C e \<le> k then ((tl (q @ [x]), k), x - m_pow M (ic_D e) (ic_C e) * hd (q @ [x])) else ((q @ [x], k + 1), x))"

lemma inv_comb_body_ok:
  assumes good: "inv_comb_good n e" and c: "c < n"
  shows "\<exists>e'. inv_comb_body M c e x = Inr (e', snd (inv_comb_step M e (inv_comb_state e c) x)) \<and> inv_comb_good n e' \<and>
    inv_comb_step M e' = inv_comb_step M e \<and>
    (\<forall>i < n. inv_comb_state e' i = (if i = c then fst (inv_comb_step M e (inv_comb_state e c) x) else inv_comb_state e i))"
proof -
  obtain q k where m: "fst (inv_comb_step M e (inv_comb_state e c) x) = (q, k)" by fastforce
  define e' where "e' = e\<lparr>ic_buffer := (ic_buffer e)[c := q], ic_laskuri := (ic_laskuri e)[c := k]\<rparr>"
  have g: "c < length (ic_buffer e)" "c < length (ic_laskuri e)" using good c by (simp_all add: inv_comb_good_def)
  have "inv_comb_body M c e x = Inr (e', snd (inv_comb_step M e (inv_comb_state e c) x))"
    using g m by (auto simp: inv_comb_body_def inv_comb_step_def inv_comb_state_def e'_def front_of_def split: if_splits)
  moreover have "inv_comb_step M e' = inv_comb_step M e" by (simp add: inv_comb_step_def e'_def fun_eq_iff)
  ultimately show ?thesis using good c m by (intro exI[of _ e']) (auto simp: inv_comb_good_def inv_comb_state_def e'_def)
qed

interpretation inv_comb: channel_effect "inv_comb_body M" inv_comb_good inv_comb_state "inv_comb_step M" for M
  by unfold_locales (rule inv_comb_body_ok)

lemma hd_recent_delayed: "0 < n \<Longrightarrow> n \<le> length H \<Longrightarrow> hd (recent n H) = past n H"
  using hd_recent[of n H] by (simp add: past_def delayed_def)

lemma comb_step_after:
  fixes e :: "'s::floor_ceiling comb"
  assumes "0 < cb_C e"
  shows "comb_step M e (recent (delay_count (cb_C e)) Y) x =
    (recent (delay_count (cb_C e)) (Y @ [x + m_pow M (cb_D e) (cb_C e) * past (delay_count (cb_C e)) Y]),
     x + m_pow M (cb_D e) (cb_C e) * past (delay_count (cb_C e)) Y)"
proof -
  define N where "N = delay_count (cb_C e)"
  have N: "0 < N" using assms by (simp add: N_def delay_count_pos)
  show ?thesis
  proof (cases "N \<le> length Y")
    case True
    then have "recent N Y \<noteq> []" using hd_recent[OF N True] by simp
    then show ?thesis unfolding N_def[symmetric]
      using True N hd_recent_delayed[OF N True] by (simp add: comb_step_def Let_def recent_snoc flip: N_def)
  next
    case False
    then have "past N Y = 0" by (simp add: past_def delayed_def)
    then show ?thesis unfolding N_def[symmetric] using False N by (simp add: comb_step_def Let_def recent_snoc flip: N_def)
  qed
qed

definition inv_comb_after :: "nat \<Rightarrow> 's::floor_ceiling list \<Rightarrow> 's list \<times> 's \<Rightarrow> bool" where
  "inv_comb_after N H m \<longleftrightarrow> m = (recent N H, of_nat (min N (length H)))"

lemma inv_comb_step_after:
  fixes e :: "'s::floor_ceiling inv_comb"
  assumes "0 < ic_C e" "inv_comb_after (delay_count (ic_C e)) H m"
  shows "inv_comb_after (delay_count (ic_C e)) (H @ [x]) (fst (inv_comb_step M e m x)) \<and>
    snd (inv_comb_step M e m x) = x - m_pow M (ic_D e) (ic_C e) * past (delay_count (ic_C e)) H"
proof -
  define N where "N = delay_count (ic_C e)"
  have N: "0 < N" using assms(1) by (simp add: N_def delay_count_pos)
  have m: "m = (recent N H, of_nat (min N (length H)))" using assms(2) by (simp add: inv_comb_after_def N_def)
  have test: "ic_C e \<le> of_nat (min N (length H)) \<longleftrightarrow> N \<le> length H" by (simp add: delay_count_le flip: N_def)
  show ?thesis
  proof (cases "N \<le> length H")
    case True
    then have "recent N H \<noteq> []" using hd_recent[OF N True] by simp
    then show ?thesis unfolding N_def[symmetric]
      using True N test hd_recent_delayed[OF N True] by (simp add: inv_comb_step_def m inv_comb_after_def recent_snoc)
  next
    case False
    then have "past N H = 0" by (simp add: past_def delayed_def)
    then show ?thesis unfolding N_def[symmetric] using False N test by (simp add: inv_comb_step_def m inv_comb_after_def recent_snoc)
  qed
qed

lemma comb_start:
  "refresh_op (comb_class M) (comb_init slot e) =
     (effect_base_init slot e)\<lparr>cb_buffer := replicate (sb_channel_count slot) []\<rparr>"
  by (rule comb.equality) (simp_all add: refresh_op_def upt_rec comb_class_def channelwise_class_def comb_set_parameter_def
      comb_get_parameter_def comb_init_def effect_base_init_def map_replicate_const cut_queue_def)

lemma inv_comb_start:
  "refresh_op (inv_comb_class M) (inv_comb_init slot e) =
     (effect_base_init slot e)\<lparr>ic_buffer := replicate (sb_channel_count slot) [], ic_laskuri := replicate (sb_channel_count slot) 0\<rparr>"
  by (rule inv_comb.equality) (simp_all add: refresh_op_def upt_rec inv_comb_class_def channelwise_class_def inv_comb_set_parameter_def
      inv_comb_get_parameter_def inv_comb_init_def effect_base_init_def map_replicate_const)

lemma comb_stream:
  fixes e :: "'s::floor_ceiling comb" and slot :: "'s sample_buffer"
  assumes "0 < cb_C e" "blocks_ok (sb_channel_count slot) bufs"
  shows "\<exists>e' bufs'. process_blocks (\<lambda>e b. comb_process M b e) (refresh_op (comb_class M) (comb_init slot e)) bufs = Inr (e', bufs') \<and>
    blocks_ok (sb_channel_count slot) bufs' \<and> map sb_buffersize bufs' = map sb_buffersize bufs \<and>
    (\<forall>c < sb_channel_count slot. \<forall>t < length (signal c bufs).
       signal c bufs' ! t = signal c bufs ! t + m_pow M (cb_D e) (cb_C e) * delayed (delay_count (cb_C e)) (signal c bufs') t)"
proof -
  define e1 n N where "e1 = refresh_op (comb_class M) (comb_init slot e)" and "n = sb_channel_count slot" and "N = delay_count (cb_C e)"
  have f: "cb_buffer e1 = replicate n []" "cb_C e1 = cb_C e" "cb_D e1 = cb_D e"
    unfolding e1_def comb_start by (simp_all add: n_def effect_base_init_def)
  have N: "0 < N" using assms(1) by (simp add: N_def delay_count_pos)
  have good: "comb_good n e1" using f assms(1) by (simp add: comb_good_def)
  have start: "c < n \<Longrightarrow> cb_buffer e1 ! c = recent N []" for c by (simp add: f)
  have step: "comb_step M e1 (recent N Y) x = (recent N (Y @ [x + m_pow M (cb_D e) (cb_C e) * past N Y]),
      x + m_pow M (cb_D e) (cb_C e) * past N Y)" for Y x
    using comb_step_after[of e1 M Y x] assms(1) by (simp add: f N_def)
  obtain e' bufs' where 1: "process_blocks (\<lambda>e b. comb_process M b e) e1 bufs = Inr (e', bufs')" "blocks_ok n bufs'"
      "map sb_buffersize bufs' = map sb_buffersize bufs"
      "\<And>c t. c < n \<Longrightarrow> t < length (signal c bufs) \<Longrightarrow>
         signal c bufs' ! t = signal c bufs ! t + m_pow M (cb_D e) (cb_C e) * past N (take t (signal c bufs'))"
    using comb.feedback_stream[where process = "\<lambda>e b. comb_process M b e" and M = M and n = n and bufs = bufs and e = e1
        and st = "recent N" and out = "\<lambda>Y x. x + m_pow M (cb_D e) (cb_C e) * past N Y", OF _ assms(2)[folded n_def] good start step]
    by (auto simp: comb_process_def)
  have "past N (take t (signal c bufs')) = delayed N (signal c bufs') t" if "c < n" "t < length (signal c bufs)" for c t
    using that past_take[of t "signal c bufs'" N] N length_signal[OF assms(2)[folded n_def]] length_signal[OF 1(2)] 1(3) by simp
  then show ?thesis unfolding e1_def[symmetric] n_def[symmetric] N_def[symmetric] using 1 by auto
qed

lemma inv_comb_stream:
  fixes e :: "'s::floor_ceiling inv_comb" and slot :: "'s sample_buffer"
  assumes "0 < ic_C e" "blocks_ok (sb_channel_count slot) bufs"
  shows "\<exists>e' bufs'. process_blocks (\<lambda>e b. inv_comb_process M b e) (refresh_op (inv_comb_class M) (inv_comb_init slot e)) bufs = Inr (e', bufs') \<and>
    blocks_ok (sb_channel_count slot) bufs' \<and> map sb_buffersize bufs' = map sb_buffersize bufs \<and>
    (\<forall>c < sb_channel_count slot. \<forall>t < length (signal c bufs).
       signal c bufs' ! t = signal c bufs ! t - m_pow M (ic_D e) (ic_C e) * delayed (delay_count (ic_C e)) (signal c bufs) t)"
proof -
  define e1 n N where "e1 = refresh_op (inv_comb_class M) (inv_comb_init slot e)" and "n = sb_channel_count slot" and "N = delay_count (ic_C e)"
  have f: "ic_buffer e1 = replicate n []" "ic_laskuri e1 = replicate n 0" "ic_C e1 = ic_C e" "ic_D e1 = ic_D e"
    unfolding e1_def inv_comb_start by (simp_all add: n_def effect_base_init_def)
  have N: "0 < N" using assms(1) by (simp add: N_def delay_count_pos)
  have good: "inv_comb_good n e1" using f by (simp add: inv_comb_good_def)
  have start: "c < n \<Longrightarrow> inv_comb_after N [] (inv_comb_state e1 c)" for c by (simp add: f inv_comb_after_def inv_comb_state_def)
  have step: "inv_comb_after N H m \<Longrightarrow> inv_comb_after N (H @ [x]) (fst (inv_comb_step M e1 m x)) \<and>
      snd (inv_comb_step M e1 m x) = x - m_pow M (ic_D e) (ic_C e) * past N H" for H m x
    using inv_comb_step_after[of e1 H m x M] assms(1) by (simp add: f N_def)
  obtain e' bufs' where 1: "process_blocks (\<lambda>e b. inv_comb_process M b e) e1 bufs = Inr (e', bufs')" "blocks_ok n bufs'"
      "map sb_buffersize bufs' = map sb_buffersize bufs"
      "\<And>c t. c < n \<Longrightarrow> t < length (signal c bufs) \<Longrightarrow>
         signal c bufs' ! t = signal c bufs ! t - m_pow M (ic_D e) (ic_C e) * past N (take t (signal c bufs))"
    using inv_comb.history_stream[where process = "\<lambda>e b. inv_comb_process M b e" and M = M and n = n and bufs = bufs and e = e1
        and R = "inv_comb_after N" and out = "\<lambda>H x. x - m_pow M (ic_D e) (ic_C e) * past N H", OF _ assms(2)[folded n_def] good start step]
    by (auto simp: inv_comb_process_def)
  have "past N (take t (signal c bufs)) = delayed N (signal c bufs) t" if "c < n" "t < length (signal c bufs)" for c t
    using that past_take[of t "signal c bufs" N] N by simp
  then show ?thesis unfolding e1_def[symmetric] n_def[symmetric] N_def[symmetric] using 1 by auto
qed

text \<open>
  C25. An inverse comb filter after a comb filter with the same delay and radius gives back every sample of
  the stream that went in, however it is cut into buffers.
\<close>

theorem inverse_comb_undoes_comb:
  fixes e :: "'s::floor_ceiling comb" and f :: "'s inv_comb" and slot :: "'s sample_buffer"
  assumes "0 < cb_C e" "ic_C f = cb_C e" "ic_D f = cb_D e" "blocks_ok (sb_channel_count slot) bufs"
  shows "\<exists>e' f' bufs1 bufs2.
    process_blocks (\<lambda>e b. comb_process M b e) (refresh_op (comb_class M) (comb_init slot e)) bufs = Inr (e', bufs1) \<and>
    process_blocks (\<lambda>f b. inv_comb_process M b f) (refresh_op (inv_comb_class M) (inv_comb_init slot f)) bufs1 = Inr (f', bufs2) \<and>
    map sb_buffersize bufs2 = map sb_buffersize bufs \<and>
    (\<forall>c < sb_channel_count slot. signal c bufs2 = signal c bufs)"
proof -
  obtain e' bufs1 where 1: "process_blocks (\<lambda>e b. comb_process M b e) (refresh_op (comb_class M) (comb_init slot e)) bufs = Inr (e', bufs1)"
      "blocks_ok (sb_channel_count slot) bufs1" "map sb_buffersize bufs1 = map sb_buffersize bufs"
      "\<And>c t. c < sb_channel_count slot \<Longrightarrow> t < length (signal c bufs) \<Longrightarrow>
         signal c bufs1 ! t = signal c bufs ! t + m_pow M (cb_D e) (cb_C e) * delayed (delay_count (cb_C e)) (signal c bufs1) t"
    using comb_stream[OF assms(1,4), of M] by blast
  have C: "0 < ic_C f" using assms(1,2) by simp
  obtain f' bufs2 where 2: "process_blocks (\<lambda>f b. inv_comb_process M b f) (refresh_op (inv_comb_class M) (inv_comb_init slot f)) bufs1 = Inr (f', bufs2)"
      "blocks_ok (sb_channel_count slot) bufs2" "map sb_buffersize bufs2 = map sb_buffersize bufs1"
      "\<And>c t. c < sb_channel_count slot \<Longrightarrow> t < length (signal c bufs1) \<Longrightarrow>
         signal c bufs2 ! t = signal c bufs1 ! t - m_pow M (cb_D e) (cb_C e) * delayed (delay_count (cb_C e)) (signal c bufs1) t"
    using inv_comb_stream[OF C 1(2), of M] assms(2,3) by auto
  have "signal c bufs2 = signal c bufs" if c: "c < sb_channel_count slot" for c
  proof (rule nth_equalityI)
    have len: "length (signal c bufs2) = length (signal c bufs)" "length (signal c bufs1) = length (signal c bufs)"
      using length_signal[OF assms(4) c] length_signal[OF 1(2) c] length_signal[OF 2(2) c] 1(3) 2(3) by simp_all
    then show "length (signal c bufs2) = length (signal c bufs)" by simp
    fix t assume "t < length (signal c bufs2)"
    then show "signal c bufs2 ! t = signal c bufs ! t" using 1(4)[OF c, of t] 2(4)[OF c, of t] len by simp
  qed
  then show ?thesis using 1(1,3) 2(1,3) by auto
qed

text \<open>
  A comb filter whose delay is zero takes the front of an empty queue: undefined behaviour with the
  first sample. Zero is within what the parameter accepts.
\<close>

theorem comb_without_delay_faults:
  fixes e :: "'s::floor_ceiling comb" and slot :: "'s sample_buffer"
  assumes "cb_C e \<le> 0" "sb_wf slot" "0 < sb_channel_count slot" "0 < sb_buffersize slot"
  shows "comb_process M slot (refresh_op (comb_class M) (comb_init slot e)) = Inl Undefined_behaviour"
proof -
  define e1 where "e1 = refresh_op (comb_class M) (comb_init slot e)"
  have f: "cb_buffer e1 = replicate (sb_channel_count slot) []" "cb_C e1 \<le> 0"
    using assms(1) unfolding e1_def comb_start by (simp_all add: effect_base_init_def)
  have body: "comb_body M 0 e1 x = Inl Undefined_behaviour" for x
    using assms(3) f by (simp add: comb_body_def front_of_def)
  note w = sb_wfD[OF assms(2)]
  have "sb_arrays slot \<noteq> []" "0 < length (sb_arrays slot ! 0)" using w(1,2) w(3)[of "0 :: nat"] assms(3,4) by fastforce+
  then have "at_cell (comb_body M) 0 0 (e1, sb_arrays slot) = Inl Undefined_behaviour"
    by (simp add: at_cell_def body)
  then show ?thesis
    using assms(3,4) by (simp add: comb_process_def each_sample_def with_arrays_def upt_rec[of 0] flip: e1_def)
qed

subsection \<open>The allpass filter\<close>

definition allpass_good :: "nat \<Rightarrow> 's allpass \<Rightarrow> bool" where
  "allpass_good n e \<longleftrightarrow> length (ap_inbuf e) = n"

definition allpass_step :: "'s::floor_ceiling allpass \<Rightarrow> 's list \<Rightarrow> 's \<Rightarrow> 's list \<times> 's" where
  "allpass_step e q x =
     (let g = ap_feedback_gain e
      in if delay_count (ap_D e) \<le> length q
         then (tl (q @ [x]), flush_to_zero (- g * x + (g * hd (q @ [x]) + x) * (1 - g * g)))
         else (q @ [x], flush_to_zero (x * (1 - g))))"

lemma allpass_body_ok:
  assumes good: "allpass_good n e" and c: "c < n"
  shows "\<exists>e'. allpass_body c e x = Inr (e', snd (allpass_step e (ap_inbuf e ! c) x)) \<and> allpass_good n e' \<and>
    allpass_step e' = allpass_step e \<and>
    (\<forall>i < n. ap_inbuf e' ! i = (if i = c then fst (allpass_step e (ap_inbuf e ! c) x) else ap_inbuf e ! i))"
proof -
  define e' where "e' = e\<lparr>ap_inbuf := (ap_inbuf e)[c := fst (allpass_step e (ap_inbuf e ! c) x)]\<rparr>"
  have "c < length (ap_inbuf e)" using good c by (simp add: allpass_good_def)
  then have "allpass_body c e x = Inr (e', snd (allpass_step e (ap_inbuf e ! c) x))"
    by (auto simp: allpass_body_def allpass_step_def e'_def delay_count_le front_of_def Let_def)
  moreover have "allpass_step e' = allpass_step e" by (simp add: allpass_step_def e'_def fun_eq_iff)
  ultimately show ?thesis using good c by (intro exI[of _ e']) (simp add: allpass_good_def e'_def)
qed

interpretation allpass: channel_effect allpass_body allpass_good "\<lambda>e c. ap_inbuf e ! c" allpass_step
  by unfold_locales (rule allpass_body_ok)

lemma allpass_step_after:
  fixes e :: "'s::floor_ceiling allpass"
  defines "N \<equiv> delay_count (ap_D e)" and "g \<equiv> ap_feedback_gain e"
  shows "q = recent N H \<Longrightarrow> fst (allpass_step e q x) = recent N (H @ [x]) \<and>
    snd (allpass_step e q x) =
      (if N \<le> length H then flush_to_zero (- g * x + (g * (if N = 0 then x else past N H) + x) * (1 - g * g))
       else flush_to_zero (x * (1 - g)))"
proof -
  assume q: "q = recent N H"
  consider "N = 0" | "0 < N" "N \<le> length H" | "0 < N" "length H < N" by linarith
  then show ?thesis
  proof cases
    case 1
    then show ?thesis unfolding q by (simp add: allpass_step_def recent_def Let_def flip: N_def g_def)
  next
    case 2
    then have "recent N H \<noteq> []" using hd_recent[OF 2] by simp
    then show ?thesis unfolding q using 2 hd_recent_delayed[OF 2]
      by (simp add: allpass_step_def recent_snoc Let_def flip: N_def g_def)
  next
    case 3
    then show ?thesis unfolding q by (simp add: allpass_step_def recent_snoc Let_def flip: N_def g_def)
  qed
qed

lemma allpass_start:
  "refresh_op allpass_class (allpass_init slot e) =
     (effect_base_init slot e)\<lparr>ap_inbuf := replicate (sb_channel_count slot) []\<rparr>"
  by (rule allpass.equality) (simp_all add: refresh_op_def upt_rec allpass_class_def channelwise_class_def allpass_set_parameter_def
      allpass_get_parameter_def allpass_init_def effect_base_init_def map_replicate_const cut_queue_def)

text \<open>
  The allpass filter is not recursive, and does not let all frequencies through alike: from a chain's
  initialisation on, its output only depends on the input now and one delay ago, and a constant signal
  \<open>v\<close> settles at \<open>v * (1 - g\<^sup>2 - g\<^sup>3)\<close> for the feedback gain \<open>g\<close>.
\<close>

theorem allpass_is_not_allpass:
  fixes e :: "'s::floor_ceiling allpass" and slot :: "'s sample_buffer"
  assumes "0 < ap_D e" "blocks_ok (sb_channel_count slot) bufs"
  shows "\<exists>e' bufs'. process_blocks (\<lambda>e b. allpass_process b e) (refresh_op allpass_class (allpass_init slot e)) bufs = Inr (e', bufs') \<and>
    map sb_buffersize bufs' = map sb_buffersize bufs \<and>
    (\<forall>c < sb_channel_count slot. \<forall>t < length (signal c bufs).
       let g = ap_feedback_gain e; N = delay_count (ap_D e); x = signal c bufs
       in signal c bufs' ! t =
            (if N \<le> t then flush_to_zero (- g * x ! t + (g * x ! (t - N) + x ! t) * (1 - g * g))
             else flush_to_zero (x ! t * (1 - g))) \<and>
          (\<forall>v. N \<le> t \<longrightarrow> x ! t = v \<longrightarrow> x ! (t - N) = v \<longrightarrow>
             signal c bufs' ! t = flush_to_zero (v * (1 - g ^ 2 - g ^ 3))))"
proof -
  define e1 n N g where "e1 = refresh_op allpass_class (allpass_init slot e)" and "n = sb_channel_count slot"
    and "N = delay_count (ap_D e)" and "g = ap_feedback_gain e"
  have f: "ap_inbuf e1 = replicate n []" "ap_D e1 = ap_D e" "ap_feedback_gain e1 = g"
    unfolding e1_def allpass_start by (simp_all add: n_def effect_base_init_def g_def)
  have N: "0 < N" using assms(1) by (simp add: N_def delay_count_pos)
  have good: "allpass_good n e1" using f by (simp add: allpass_good_def)
  have start: "c < n \<Longrightarrow> ap_inbuf e1 ! c = recent N []" for c by (simp add: f)
  define out where "out = (\<lambda>H x. if N \<le> length H then flush_to_zero (- g * x + (g * past N H + x) * (1 - g * g)) else flush_to_zero (x * (1 - g)))"
  have step: "q = recent N H \<Longrightarrow> fst (allpass_step e1 q x) = recent N (H @ [x]) \<and> snd (allpass_step e1 q x) = out H x" for q H x
    using allpass_step_after[of q e1 H x] N by (simp add: f out_def flip: N_def)
  obtain e' bufs' where 1: "process_blocks (\<lambda>e b. allpass_process b e) e1 bufs = Inr (e', bufs')"
      "map sb_buffersize bufs' = map sb_buffersize bufs"
      "\<And>c t. c < n \<Longrightarrow> t < length (signal c bufs) \<Longrightarrow> signal c bufs' ! t = out (take t (signal c bufs)) (signal c bufs ! t)"
    using allpass.history_stream[where process = "\<lambda>e b. allpass_process b e" and n = n and bufs = bufs and e = e1
        and R = "\<lambda>H q. q = recent N H" and out = out, OF _ assms(2)[folded n_def] good start step]
    by (auto simp: allpass_process_def)
  have o: "out (take t x) (x ! t) = (if N \<le> t then flush_to_zero (- g * x ! t + (g * x ! (t - N) + x ! t) * (1 - g * g))
             else flush_to_zero (x ! t * (1 - g)))" if "t < length x" for x t
    using that past_take[of t x N] N by (simp add: out_def delayed_def)
  have gain: "- g * v + (g * v + v) * (1 - g * g) = v * (1 - g ^ 2 - g ^ 3)" for v
    by (simp add: algebra_simps power2_eq_square power3_eq_cube)
  show ?thesis
    unfolding e1_def[symmetric] n_def[symmetric] N_def[symmetric] g_def[symmetric] Let_def
  proof (intro exI conjI allI impI)
    fix c t assume c: "c < n" and t: "t < length (signal c bufs)"
    show s: "signal c bufs' ! t = (if N \<le> t then flush_to_zero (- g * signal c bufs ! t + (g * signal c bufs ! (t - N) + signal c bufs ! t) * (1 - g * g))
             else flush_to_zero (signal c bufs ! t * (1 - g)))"
      using 1(3)[OF c t] o[OF t] by simp
    fix v assume "N \<le> t" "signal c bufs ! t = v" "signal c bufs ! (t - N) = v"
    then show "signal c bufs' ! t = flush_to_zero (v * (1 - g ^ 2 - g ^ 3))" using s gain[of v] by simp
  qed (use 1 in simp_all)
qed

subsection \<open>The other filters\<close>

definition simple_lp_good :: "nat \<Rightarrow> 's simple_lp \<Rightarrow> bool" where
  "simple_lp_good n e \<longleftrightarrow> length (sl_outhist e) = n \<and> length (sl_tempin e) = n \<and> length (sl_temphist e) = n"

definition simple_lp_step :: "'s::floor_ceiling simple_lp \<Rightarrow> 's \<Rightarrow> 's \<Rightarrow> 's \<times> 's" where
  "simple_lp_step e h x = (x, flush_to_zero (x * (sl_A e * (1 / 2)) + h * (sl_B e * (1 / 2))))"

interpretation simple_lp: channel_effect simple_lp_body simple_lp_good "\<lambda>e c. sl_outhist e ! c" simple_lp_step
  by unfold_locales (auto simp: simple_lp_good_def simple_lp_body_def simple_lp_step_def fun_eq_iff Let_def)

definition res_bp_good :: "nat \<Rightarrow> 's res_bp \<Rightarrow> bool" where
  "res_bp_good n e \<longleftrightarrow> length (rb_outhist1 e) = n \<and> length (rb_outhist2 e) = n"

definition res_bp_step :: "'s::floor_ceiling res_bp \<Rightarrow> 's \<times> 's \<Rightarrow> 's \<Rightarrow> ('s \<times> 's) \<times> 's" where
  "res_bp_step e = (\<lambda>(h1, h2) x. let y = flush_to_zero (rb_a e * x + rb_b e * h1 - rb_c e * h2) in ((y, h1), y))"

interpretation res_bp: channel_effect res_bp_body res_bp_good "\<lambda>e c. (rb_outhist1 e ! c, rb_outhist2 e ! c)" res_bp_step
  by unfold_locales (auto simp: res_bp_good_def res_bp_body_def res_bp_step_def fun_eq_iff Let_def)

definition resonator_good :: "nat \<Rightarrow> 's resonator \<Rightarrow> bool" where
  "resonator_good n e \<longleftrightarrow> length (rs_saout0 e) = n \<and> length (rs_saout1 e) = n"

definition resonator_step :: "'s::floor_ceiling resonator \<Rightarrow> 's \<times> 's \<Rightarrow> 's \<Rightarrow> ('s \<times> 's) \<times> 's" where
  "resonator_step e = (\<lambda>(h0, h1) x.
     let y = rs_cona e ! 0 * x - rs_conb e ! 0 * h0 - rs_conb e ! 1 * h1 in ((flush_to_zero y, h0), y))"

interpretation resonator: channel_effect resonator_body resonator_good "\<lambda>e c. (rs_saout0 e ! c, rs_saout1 e ! c)" resonator_step
  by unfold_locales (auto simp: resonator_good_def resonator_body_def resonator_step_def fun_eq_iff Let_def)

definition res_lp_good :: "nat \<Rightarrow> 's res_lp \<Rightarrow> bool" where
  "res_lp_good n e \<longleftrightarrow> (\<forall>k. length (rl_outhist e k) = n \<and> length (rl_newhist e k) = n)"

definition section_step :: "'s filter_coefs \<Rightarrow> 's \<times> 's \<Rightarrow> 's::floor_ceiling \<Rightarrow> ('s \<times> 's) \<times> 's" where
  "section_step k = (\<lambda>(h0, h1) x.
     let nh = flush_to_zero (x - h0 * fc_A k - h1 * fc_B k) in ((nh, h0), nh + h0 * fc_C k + h1 * fc_D k))"

text \<open>Two sections in series.\<close>

definition res_lp_step :: "'s::floor_ceiling res_lp \<Rightarrow> ('s \<times> 's) \<times> ('s \<times> 's) \<Rightarrow> 's \<Rightarrow> (('s \<times> 's) \<times> ('s \<times> 's)) \<times> 's" where
  "res_lp_step e = (\<lambda>(m0, m1) x.
     let (m0', y) = section_step (rl_coef e 0) m0 (x * rl_gain e); (m1', z) = section_step (rl_coef e 1) m1 y in ((m0', m1'), z))"

interpretation res_lp: channel_effect res_lp_body res_lp_good
  "\<lambda>e c. ((rl_outhist e 0 ! c, rl_outhist e 1 ! c), (rl_outhist e 2 ! c, rl_outhist e 3 ! c))" res_lp_step
  by unfold_locales (auto simp: res_lp_good_def res_lp_body_def res_lp_section_def res_lp_step_def section_step_def fun_eq_iff Let_def)

text \<open>The denominator of a section of the resonant lowpass filter, in terms of the parameters.\<close>

definition rl_denominator :: "'s::floor_ceiling math \<Rightarrow> 's res_lp \<Rightarrow> nat \<Rightarrow> 's" where
  "rl_denominator M e k =
     (let s = of_int (fb_srate e); wp = 2 * s * m_tan M (rl_pi e * rl_cutoff e / s)
      in 4 * (1 / (wp * wp)) * s * s + 2 * (rl_damping k / rl_Q e / wp) * s + 1)"

definition rl_unity :: "'s::floor_ceiling res_lp \<Rightarrow> bool" where
  "rl_unity e \<longleftrightarrow> (\<forall>k. tc_a0 (rl_proto e k) = 1 \<and> tc_b0 (rl_proto e k) = 1)"

lemma rl_unity_create: "rl_unity (res_lp_create M co res g)"
  by (simp add: rl_unity_def res_lp_create_def szxform_def Let_def)

lemma rl_unity_set_parameter: "rl_unity e \<Longrightarrow> rl_unity (res_lp_set_parameter M param v e)"
  by (simp add: rl_unity_def res_lp_set_parameter_def refresh_values_def szxform_def Let_def)

lemma rl_refresh:
  fixes e0 :: "'s::floor_ceiling res_lp"
  assumes "rl_unity e0" "e = res_lp_set_parameter M param v e0" "k < 2"
  shows "fc_C (rl_coef e k) = 2" "fc_D (rl_coef e k) = 1"
    "rl_denominator M e k \<noteq> 0 \<Longrightarrow> 1 + fc_A (rl_coef e k) + fc_B (rl_coef e k) = 4 / rl_denominator M e k"
    "rl_gain e = rl_gain_orig e * (1 / rl_denominator M e 0) * (1 / rl_denominator M e 1)"
proof -
  have k: "k = 0 \<or> k = 1" using assms(3) by auto
  show "fc_C (rl_coef e k) = 2" "fc_D (rl_coef e k) = 1"
    using k assms(1) by (auto simp: assms(2) rl_unity_def res_lp_set_parameter_def refresh_values_def szxform_def Let_def)
  show "rl_gain e = rl_gain_orig e * (1 / rl_denominator M e 0) * (1 / rl_denominator M e 1)"
    using assms(1) by (simp add: assms(2) rl_unity_def res_lp_set_parameter_def refresh_values_def szxform_def rl_denominator_def Let_def)
  define B1 B2 s :: 's where "B1 = tc_b1 (rl_proto e k)" and "B2 = tc_b2 (rl_proto e k)" and "s = of_int (fb_srate e)"
  have d: "rl_denominator M e k = 4 * B2 * s * s + 2 * B1 * s + 1"
      and ab: "fc_A (rl_coef e k) = (2 - 8 * B2 * s * s) / (4 * B2 * s * s + 2 * B1 * s + 1)"
        "fc_B (rl_coef e k) = (4 * B2 * s * s - 2 * B1 * s + 1) / (4 * B2 * s * s + 2 * B1 * s + 1)"
    using k assms(1) by (auto simp: assms(2) rl_unity_def res_lp_set_parameter_def refresh_values_def szxform_def rl_denominator_def Let_def
        B1_def B2_def s_def)
  assume "rl_denominator M e k \<noteq> 0"
  define b where "b = rl_denominator M e k"
  have b: "b \<noteq> 0" "b = 4 * B2 * s * s + 2 * B1 * s + 1" using \<open>rl_denominator M e k \<noteq> 0\<close> d by (simp_all add: b_def)
  have "1 + fc_A (rl_coef e k) + fc_B (rl_coef e k) = (b + (2 - 8 * B2 * s * s) + (4 * B2 * s * s - 2 * B1 * s + 1)) / b"
    unfolding ab b(2)[symmetric] add_divide_distrib[of "b + (2 - 8 * B2 * s * s)"] add_divide_distrib[of b]
    by (simp only: divide_self[OF b(1)])
  also have "b + (2 - 8 * B2 * s * s) + (4 * B2 * s * s - 2 * B1 * s + 1) = 4" unfolding b(2) by simp
  finally show "1 + fc_A (rl_coef e k) + fc_B (rl_coef e k) = 4 / rl_denominator M e k" by (simp add: b_def)
qed

lemma section_fixed:
  fixes u :: "'s::floor_ceiling"
  assumes "fc_C k = 2" "fc_D k = 1" "u * (1 + fc_A k + fc_B k) = x" "flush_to_zero u = u"
  shows "section_step k (u, u) x = ((u, u), 4 * u)"
proof -
  have "x - u * fc_A k - u * fc_B k = u" using assms(3) by (simp add: algebra_simps)
  then show ?thesis using assms(1,2,4) by (simp add: section_step_def Let_def)
qed

text \<open>
  The resonant lowpass filter, after any change of a parameter: a constant signal is a fixed point of
  both sections and comes out multiplied by the gain parameter, whatever the cutoff, the resonance and
  the sample rate.
\<close>

theorem resonant_lowpass_gain:
  fixes e0 :: "'s::floor_ceiling res_lp"
  assumes "rl_unity e0" "e = res_lp_set_parameter M param p e0"
    and "rl_denominator M e 0 \<noteq> 0" "rl_denominator M e 1 \<noteq> 0"
    and "u0 = v * rl_gain_orig e / (4 * rl_denominator M e 1)" "u1 = v * rl_gain_orig e / 4"
    and "flush_to_zero u0 = u0" "flush_to_zero u1 = u1"
    and "res_lp_good n e" "c < n"
    and "rl_outhist e 0 ! c = u0" "rl_outhist e 1 ! c = u0" "rl_outhist e 2 ! c = u1" "rl_outhist e 3 ! c = u1"
  shows "\<exists>e'. res_lp_body c e v = Inr (e', v * rl_gain_orig e) \<and>
    (\<forall>k < 4. rl_outhist e' k ! c = rl_outhist e k ! c) \<and> rl_coef e' = rl_coef e \<and> rl_gain e' = rl_gain e"
proof -
  define d0 d1 where "d0 = rl_denominator M e 0" and "d1 = rl_denominator M e 1"
  have d: "d0 \<noteq> 0" "d1 \<noteq> 0" using assms(3,4) by (simp_all add: d0_def d1_def)
  have u0: "u0 = v * rl_gain_orig e / (4 * d1)" using assms(5) by (simp add: d1_def)
  note r0 = rl_refresh[OF assms(1,2), of 0, folded d0_def d1_def] and r1 = rl_refresh[OF assms(1,2), of 1, folded d1_def]
  have s0: "section_step (rl_coef e 0) (u0, u0) (v * rl_gain e) = ((u0, u0), 4 * u0)"
  proof (rule section_fixed)
    show "u0 * (1 + fc_A (rl_coef e 0) + fc_B (rl_coef e 0)) = v * rl_gain e"
      using d r0(3,4) by (simp add: u0)
  qed (use r0(1,2) assms(7) in simp_all)
  have s1: "section_step (rl_coef e 1) (u1, u1) (4 * u0) = ((u1, u1), 4 * u1)"
  proof (rule section_fixed)
    show "u1 * (1 + fc_A (rl_coef e 1) + fc_B (rl_coef e 1)) = 4 * u0"
      using d r1(3) by (simp add: u0 assms(6))
  qed (use r1(1,2) assms(8) in simp_all)
  have step: "res_lp_step e ((rl_outhist e 0 ! c, rl_outhist e 1 ! c), (rl_outhist e 2 ! c, rl_outhist e 3 ! c)) v =
      (((u0, u0), (u1, u1)), v * rl_gain_orig e)"
    unfolding res_lp_step_def assms(11-14) split_conv Let_def s0 s1 using assms(6) by simp
  obtain e' where "res_lp_body c e v = Inr (e', v * rl_gain_orig e)"
      "rl_outhist e' 0 ! c = u0" "rl_outhist e' 1 ! c = u0" "rl_outhist e' 2 ! c = u1" "rl_outhist e' 3 ! c = u1"
    using res_lp.body_step[OF assms(9,10), of v] step assms(10) by auto
  moreover have "rl_coef e' = rl_coef e \<and> rl_gain e' = rl_gain e" if "res_lp_body c e v = Inr (e', y)" for e' y
    using that assms(9,10) by (auto simp: res_lp_body_def res_lp_section_def res_lp_good_def Let_def)
  ultimately show ?thesis using assms(11-14) by (intro exI[of _ e']) (auto simp: less_Suc_eq numeral_eq_Suc)
qed

subsection \<open>Examples\<close>

definition example_biquad :: "bw_kind \<Rightarrow> rat biquad" where
  "example_biquad kind =
     fold (bw_event no_math) [Set_rate 48000, Set_param 1 2000, Start stereo_buffer] (bw_create no_math kind 1000 1000)"

lemma bw_coefficients_match_witness:
  "(bw_a (example_biquad Bandpass), bw_b (example_biquad Bandpass)) =
     bw_coefficients no_math Bandpass (of_int (fb_srate (example_biquad Bandpass)))
       (bw_center (example_biquad Bandpass)) (bw_width (example_biquad Bandpass))"
  by (rule bw_coefficients_match[OF example_biquad_def])

lemma biquads_follow_recurrence_witness:
  "\<exists>e' bufs'. process_blocks (\<lambda>e b. bw_process b e)
      (refresh_op (bw_class no_math Lowpass) (bw_init stereo_buffer (example_biquad Lowpass))) [stereo_buffer, stereo_buffer] =
    Inr (e', bufs') \<and> map sb_buffersize bufs' = [2, 2]"
proof -
  have b: "blocks_ok (sb_channel_count stereo_buffer) [stereo_buffer, stereo_buffer]" using stereo_buffer_wf by (simp add: stereo_buffer_def)
  have "map sb_buffersize [stereo_buffer, stereo_buffer] = [2, 2]" by (simp add: stereo_buffer_def)
  then show ?thesis using biquads_follow_recurrence[OF example_biquad_def[of Lowpass] refl b] by auto
qed

lemma filters_on_constant_signals_witness:
  defines "e \<equiv> (bw_create no_math Highpass 1000 1000)\<lparr>bw_sin := [[5, 5]], bw_sout := [[0, 0]]\<rparr>"
  shows "bw_body 0 e 5 = Inr (e, 0)"
proof -
  have "bw_matches no_math (bw_create no_math Highpass 1000 1000)" by (rule bw_run(1)[of _ no_math "[]"]) simp
  then have m: "bw_matches no_math e" "bw_kind e = Highpass"
    by (simp_all add: e_def bw_matches_def bw_create_def Let_def)
  have h: "bw_regular no_math Highpass (of_int (fb_srate e)) (bw_center e) (bw_width e)" "0 < length (bw_sin e)" "0 < length (bw_sout e)"
      "flush_to_zero (5 :: rat) = 5" "(0 :: rat) = (if Highpass = Lowpass \<or> Highpass = Bandreject then 5 else 0)"
      "bw_sin e ! 0 = [5, 5]" "bw_sout e ! 0 = [0, 0]"
    by (simp_all add: e_def bw_regular_def flush_to_zero_def)
  show ?thesis by (rule filters_on_constant_signals[OF m h])
qed

lemma inverse_comb_undoes_comb_witness:
  "\<exists>e' f' bufs1 bufs2.
    process_blocks (\<lambda>e b. comb_process no_math b e) (refresh_op (comb_class no_math) (comb_init stereo_buffer (comb_create 1 (1 / 2))))
      [stereo_buffer, stereo_buffer] = Inr (e', bufs1) \<and>
    process_blocks (\<lambda>f b. inv_comb_process no_math b f)
      (refresh_op (inv_comb_class no_math) (inv_comb_init stereo_buffer (inv_comb_create 1 (1 / 2)))) bufs1 = Inr (f', bufs2) \<and>
    signal 0 bufs2 = signal 0 [stereo_buffer, stereo_buffer]"
proof -
  have b: "blocks_ok (sb_channel_count stereo_buffer) [stereo_buffer, stereo_buffer]" "0 < sb_channel_count stereo_buffer"
    using stereo_buffer_wf by (simp_all add: stereo_buffer_def)
  have e: "0 < cb_C (comb_create 1 (1 / 2 :: rat))" "ic_C (inv_comb_create 1 (1 / 2 :: rat)) = cb_C (comb_create 1 (1 / 2 :: rat))"
      "ic_D (inv_comb_create 1 (1 / 2 :: rat)) = cb_D (comb_create 1 (1 / 2 :: rat))"
    by (simp_all add: comb_create_def comb_set_parameter_def inv_comb_create_def inv_comb_set_parameter_def)
  from inverse_comb_undoes_comb[OF e b(1), where M = no_math] b(2) show ?thesis by blast
qed

lemma comb_without_delay_faults_witness:
  "comb_process no_math stereo_buffer (refresh_op (comb_class no_math) (comb_init stereo_buffer (comb_create 0 1))) =
   Inl Undefined_behaviour"
proof -
  have "0 < sb_channel_count stereo_buffer" "0 < sb_buffersize stereo_buffer" "cb_C (comb_create 0 (1 :: rat)) \<le> 0"
    by (simp_all add: stereo_buffer_def comb_create_def comb_set_parameter_def)
  from comb_without_delay_faults[OF this(3) stereo_buffer_wf this(1,2)] show ?thesis .
qed

lemma allpass_is_not_allpass_witness:
  "\<exists>e' bufs'. process_blocks (\<lambda>e b. allpass_process b e)
      (refresh_op allpass_class (allpass_init stereo_buffer (allpass_set_parameter 1 1 allpass_create))) [stereo_buffer, stereo_buffer] =
    Inr (e', bufs') \<and> map sb_buffersize bufs' = [2, 2]"
proof -
  have b: "blocks_ok (sb_channel_count stereo_buffer) [stereo_buffer, stereo_buffer]" using stereo_buffer_wf by (simp add: stereo_buffer_def)
  have e: "0 < ap_D (allpass_set_parameter 1 1 (allpass_create :: rat allpass))" by (simp add: allpass_set_parameter_def)
  have "map sb_buffersize [stereo_buffer, stereo_buffer] = [2, 2]" by (simp add: stereo_buffer_def)
  then show ?thesis using allpass_is_not_allpass[OF e b] by auto
qed

definition example_res_lp :: "rat res_lp" where
  "example_res_lp = (res_lp_create no_math 1000 1 1)\<lparr>rl_outhist := (\<lambda>_. [1 / 4]), rl_newhist := (\<lambda>_. [1 / 4])\<rparr>"

lemma resonant_lowpass_gain_witness:
  "\<exists>e'. res_lp_body 0 (res_lp_set_parameter no_math 1 2000 example_res_lp) 1 = Inr (e', 1)"
proof -
  define e where "e = res_lp_set_parameter no_math 1 2000 example_res_lp"
  have u: "rl_unity example_res_lp" using rl_unity_create[of no_math 1000 1 1] by (simp add: example_res_lp_def rl_unity_def)
  have q: "rl_gain_orig e = 1" "rl_denominator no_math e k = 1" "rl_outhist e k = [1 / 4]" "rl_newhist e k = [1 / 4]" for k
    by (simp_all add: e_def res_lp_set_parameter_def refresh_values_def szxform_def example_res_lp_def res_lp_create_def
        rl_denominator_def no_math_def Let_def)
  have f: "flush_to_zero (1 / 4 :: rat) = 1 / 4" by (simp add: flush_to_zero_def)
  have h: "rl_denominator no_math e 0 \<noteq> 0" "rl_denominator no_math e 1 \<noteq> 0"
      "1 / 4 = 1 * rl_gain_orig e / (4 * rl_denominator no_math e 1)" "1 / 4 = 1 * rl_gain_orig e / 4"
      "flush_to_zero (1 / 4 :: rat) = 1 / 4" "flush_to_zero (1 / 4 :: rat) = 1 / 4" "res_lp_good 1 e" "(0 :: nat) < 1"
      "rl_outhist e 0 ! 0 = 1 / 4" "rl_outhist e 1 ! 0 = 1 / 4" "rl_outhist e 2 ! 0 = 1 / 4" "rl_outhist e 3 ! 0 = 1 / 4"
    by (simp_all add: q f res_lp_good_def)
  from resonant_lowpass_gain[OF u e_def h] show ?thesis by (auto simp: q simp flip: e_def)
qed

end
