(* ===== verification/Gates.thy ===== *)
theory Gates
  imports Oscillators
begin

text \<open>
  The gates of \<open>audiogate.cpp\<close>, which let whole buffers through or empty them, the pulse gate and the
  tremolo of \<open>audiofx_envelope_modulation.cpp\<close>, and the level of a buffer (\<open>samplebuffer_functions.h\<close>).
  \<open>SAMPLE_SPECS::max_amplitude\<close> is 1.
\<close>

subsection \<open>The level of a buffer\<close>

definition sum_cells :: "('s \<Rightarrow> 's) \<Rightarrow> 's::linordered_field sample_buffer \<Rightarrow> 's result" where
  "sum_cells f sb =
     fold_result (\<lambda>n. fold_result (\<lambda>m s. bind_result (read_cell (sb_arrays sb) n m) (\<lambda>x. Inr (s + f x))) [0..<sb_buffersize sb])
       [0..<sb_channel_count sb] 0"

text \<open>The division by the number of samples gives no number when there are none: \<open>None\<close>.\<close>

definition mean_level :: "'s::linordered_field sample_buffer \<Rightarrow> 's \<Rightarrow> 's option" where
  "mean_level sb acc =
     (if sb_channel_count sb = 0 \<or> sb_buffersize sb = 0 then None
      else Some (acc / of_nat (sb_channel_count sb) / of_nat (sb_buffersize sb)))"

definition average_amplitude :: "'s::linordered_field sample_buffer \<Rightarrow> 's option result" where
  "average_amplitude sb = bind_result (sum_cells (\<lambda>x. \<bar>x\<bar>) sb) (\<lambda>acc. Inr (mean_level sb acc))"

definition RMS_volume :: "'s::linordered_field math \<Rightarrow> 's sample_buffer \<Rightarrow> 's option result" where
  "RMS_volume M sb = bind_result (sum_cells (\<lambda>x. x * x) sb) (\<lambda>acc. Inr (map_option (m_sqrt M) (mean_level sb acc)))"

text \<open>Comparisons with what is not a number are false.\<close>

definition level_above :: "'s::linorder option \<Rightarrow> 's \<Rightarrow> bool" where
  "level_above v limit = (case v of None \<Rightarrow> False | Some x \<Rightarrow> x > limit)"

definition level_below :: "'s::linorder option \<Rightarrow> 's \<Rightarrow> bool" where
  "level_below v limit = (case v of None \<Rightarrow> False | Some x \<Rightarrow> x < limit)"

subsection \<open>Gates\<close>

record gate_base =
  gate_open :: bool

definition open_gate :: "'x gate_base_scheme \<Rightarrow> 'x gate_base_scheme" where
  "open_gate e = e\<lparr>gate_open := True\<rparr>"

definition close_gate :: "'x gate_base_scheme \<Rightarrow> 'x gate_base_scheme" where
  "close_gate e = e\<lparr>gate_open := False\<rparr>"

definition gate_init :: "'s sample_buffer \<Rightarrow> 'x gate_base_scheme \<Rightarrow> 'x gate_base_scheme" where
  "gate_init slot e = e\<lparr>gate_open := False\<rparr>"

text \<open>No memory is allocated to shorten a buffer.\<close>

definition gate_process ::
  "('s sample_buffer \<Rightarrow> 'x gate_base_scheme \<Rightarrow> 'x gate_base_scheme result) \<Rightarrow> 's::zero sample_buffer \<Rightarrow> 'x gate_base_scheme \<Rightarrow>
     ('x gate_base_scheme \<times> 's sample_buffer) result" where
  "gate_process analyze slot e =
     bind_result (analyze slot e) (\<lambda>e1.
       if gate_open e1 then Inr (e1, slot)
       else bind_result (length_in_samples (\<lambda>_ _. 0) 0 slot) (\<lambda>slot'. Inr (e1, slot')))"

subsection \<open>The time crop gate\<close>

record 's time_crop = gate_base +
  tc_position :: int
  tc_begtime :: 's
  tc_durtime :: 's
  tc_srate :: int

definition time_crop_analyze :: "'s::floor_ceiling sample_buffer \<Rightarrow> 's time_crop \<Rightarrow> 's time_crop result" where
  "time_crop_analyze slot e =
     (let etime = tc_begtime e + tc_durtime e;
          curtime = of_int (tc_position e) / of_int (tc_srate e);
          e1 = (if curtime \<ge> tc_begtime e then
                  if tc_begtime e = etime then open_gate e
                  else if curtime < etime then open_gate e
                  else close_gate e
                else close_gate e)
      in Inr (e1\<lparr>tc_position := tc_position e1 + int (sb_buffersize slot)\<rparr>))"

definition time_crop_get_parameter :: "int \<Rightarrow> 's::floor_ceiling time_crop \<Rightarrow> 's" where
  "time_crop_get_parameter param e = (if param = 1 then tc_begtime e else if param = 2 then tc_durtime e else 0)"

definition time_crop_set_parameter :: "int \<Rightarrow> 's::floor_ceiling \<Rightarrow> 's time_crop \<Rightarrow> 's time_crop" where
  "time_crop_set_parameter param v e =
     (if param = 1 then e\<lparr>tc_begtime := v, tc_position := 0\<rparr> else if param = 2 then e\<lparr>tc_durtime := v\<rparr> else e)"

definition time_crop_set_srate :: "int \<Rightarrow> 's::floor_ceiling time_crop \<Rightarrow> 's time_crop" where
  "time_crop_set_srate r e =
     (let ratio = (of_int r / of_int (tc_srate e) :: 's)
      in e\<lparr>tc_position := truncated (of_int (tc_position e) * ratio), tc_srate := r\<rparr>)"

definition time_crop_create :: "'s::floor_ceiling \<Rightarrow> 's \<Rightarrow> 's time_crop" where
  "time_crop_create open_at duration =
     \<lparr>gate_open = False, tc_position = 0, tc_begtime = open_at, tc_durtime = duration, tc_srate = 384000\<rparr>"

definition time_crop_process :: "'s::floor_ceiling sample_buffer \<Rightarrow> 's time_crop \<Rightarrow> ('s time_crop \<times> 's sample_buffer) result" where
  "time_crop_process = gate_process time_crop_analyze"

definition time_crop_class :: "('s::floor_ceiling time_crop, 's, 's) op_class" where
  "time_crop_class =
     \<lparr>op_number_of_params = (\<lambda>_. 2), op_get_parameter = time_crop_get_parameter, op_set_parameter = time_crop_set_parameter,
      op_output_channels = (\<lambda>n _. n), op_init = gate_init, op_process = time_crop_process, op_release = (\<lambda>e. e),
      op_set_srate = time_crop_set_srate\<rparr>"

subsection \<open>The threshold gate\<close>

record 's threshold = gate_base +
  th_openlevel :: 's
  th_closelevel :: 's
  th_reopen_count_param :: int
  th_reopens_left :: int
  th_rms :: bool
  th_is_opened :: bool
  th_is_closed :: bool

definition threshold_init :: "'s::floor_ceiling sample_buffer \<Rightarrow> 's threshold \<Rightarrow> 's threshold" where
  "threshold_init slot e =
     gate_init slot (e\<lparr>th_reopens_left := th_reopen_count_param e, th_is_opened := False, th_is_closed := False\<rparr>)"

text \<open>\<open>analyze\<close>, once the level \<open>v\<close> is known.\<close>

definition threshold_decide :: "'s::floor_ceiling option \<Rightarrow> 's threshold \<Rightarrow> 's threshold" where
  "threshold_decide v e =
     (if \<not> th_is_opened e then
        if level_above v (th_openlevel e)
        then (open_gate e)\<lparr>th_is_opened := True, th_is_closed := False\<rparr>
        else e
      else if \<not> th_is_closed e then
        if level_below v (th_closelevel e)
        then let e1 = (close_gate e)\<lparr>th_is_closed := True\<rparr>
             in if th_reopens_left e1 \<noteq> 0
                then e1\<lparr>th_is_opened := False,
                        th_reopens_left := (if th_reopens_left e1 > 0 then th_reopens_left e1 - 1 else th_reopens_left e1)\<rparr>
                else e1
        else e
      else e)"

definition threshold_analyze :: "'s::floor_ceiling math \<Rightarrow> 's sample_buffer \<Rightarrow> 's threshold \<Rightarrow> 's threshold result" where
  "threshold_analyze M slot e =
     bind_result (if th_rms e then RMS_volume M slot else average_amplitude slot) (\<lambda>v. Inr (threshold_decide v e))"

definition threshold_get_parameter :: "int \<Rightarrow> 's::floor_ceiling threshold \<Rightarrow> 's" where
  "threshold_get_parameter param e =
     (if param = 1 then th_openlevel e * 100 else if param = 2 then th_closelevel e * 100
      else if param = 3 then (if th_rms e then 1 else 0) else if param = 4 then of_int (th_reopen_count_param e) else 0)"

definition threshold_set_parameter :: "int \<Rightarrow> 's::floor_ceiling \<Rightarrow> 's threshold \<Rightarrow> 's threshold" where
  "threshold_set_parameter param v e =
     (if param = 1 then e\<lparr>th_openlevel := v / 100\<rparr> else if param = 2 then e\<lparr>th_closelevel := v / 100\<rparr>
      else if param = 3 then e\<lparr>th_rms := (v \<noteq> 0)\<rparr> else if param = 4 then e\<lparr>th_reopen_count_param := truncated v\<rparr> else e)"

definition threshold_create :: "'s::floor_ceiling \<Rightarrow> 's \<Rightarrow> bool \<Rightarrow> 's threshold" where
  "threshold_create openlevel closelevel use_rms =
     \<lparr>gate_open = False, th_openlevel = openlevel / 100, th_closelevel = closelevel / 100, th_reopen_count_param = 0,
      th_reopens_left = 0, th_rms = use_rms, th_is_opened = False, th_is_closed = False\<rparr>"

definition threshold_process ::
  "'s::floor_ceiling math \<Rightarrow> 's sample_buffer \<Rightarrow> 's threshold \<Rightarrow> ('s threshold \<times> 's sample_buffer) result" where
  "threshold_process M = gate_process (threshold_analyze M)"

definition threshold_class :: "'s::floor_ceiling math \<Rightarrow> ('s threshold, 's, 's) op_class" where
  "threshold_class M =
     \<lparr>op_number_of_params = (\<lambda>_. 4), op_get_parameter = threshold_get_parameter, op_set_parameter = threshold_set_parameter,
      op_output_channels = (\<lambda>n _. n), op_init = threshold_init, op_process = threshold_process M, op_release = (\<lambda>e. e),
      op_set_srate = (\<lambda>_ e. e)\<rparr>"

subsection \<open>The manual gate\<close>

record manual_gate = gate_base +
  mg_open :: bool

definition manual_analyze :: "'s sample_buffer \<Rightarrow> manual_gate \<Rightarrow> manual_gate result" where
  "manual_analyze slot e =
     Inr (if gate_open e \<and> \<not> mg_open e then close_gate e
          else if \<not> gate_open e \<and> mg_open e then open_gate e
          else e)"

definition manual_get_parameter :: "int \<Rightarrow> manual_gate \<Rightarrow> 's::floor_ceiling" where
  "manual_get_parameter param e = (if param = 1 then (if mg_open e then 1 else 0) else 0)"

definition manual_set_parameter :: "int \<Rightarrow> 's::floor_ceiling \<Rightarrow> manual_gate \<Rightarrow> manual_gate" where
  "manual_set_parameter param v e = (if param = 1 then e\<lparr>mg_open := (v > 0)\<rparr> else e)"

definition manual_create :: manual_gate where
  "manual_create = \<lparr>gate_open = False, mg_open = True\<rparr>"

definition manual_process :: "'s::floor_ceiling sample_buffer \<Rightarrow> manual_gate \<Rightarrow> (manual_gate \<times> 's sample_buffer) result" where
  "manual_process = gate_process manual_analyze"

definition manual_class :: "(manual_gate, 's::floor_ceiling, 's) op_class" where
  "manual_class =
     \<lparr>op_number_of_params = (\<lambda>_. 1), op_get_parameter = manual_get_parameter, op_set_parameter = manual_set_parameter,
      op_output_channels = (\<lambda>n _. n), op_init = gate_init, op_process = manual_process, op_release = (\<lambda>e. e),
      op_set_srate = (\<lambda>_ e. e)\<rparr>"

subsection \<open>Loops over whole frames\<close>

text \<open>
  In each frame the effect moves on, and then changes the sample of each of the first \<open>k\<close> channels,
  or leaves all of them alone (\<open>None\<close>).
\<close>

definition at_frame ::
  "nat \<Rightarrow> ('e \<Rightarrow> 'e) \<Rightarrow> ('e \<Rightarrow> ('s \<Rightarrow> 's) option) \<Rightarrow> nat \<Rightarrow> 'e \<times> 's list list \<Rightarrow> ('e \<times> 's list list) result" where
  "at_frame k tick change t = (\<lambda>(e, bufs).
     let e1 = tick e in
     case change e1 of
       None \<Rightarrow> Inr (e1, bufs)
     | Some f \<Rightarrow>
         bind_result (fold_result (\<lambda>n bufs. bind_result (read_cell bufs n t) (\<lambda>x. write_cell n t (f x) bufs)) [0..<k] bufs)
           (\<lambda>bufs'. Inr (e1, bufs')))"

definition each_whole_frame ::
  "nat \<Rightarrow> ('e \<Rightarrow> 'e) \<Rightarrow> ('e \<Rightarrow> ('s \<Rightarrow> 's) option) \<Rightarrow> 'e \<Rightarrow> 's sample_buffer \<Rightarrow> ('e \<times> 's sample_buffer) result" where
  "each_whole_frame k tick change e slot = with_arrays (fold_result (at_frame k tick change) [0..<sb_buffersize slot]) e slot"

subsection \<open>The pulse gate\<close>

record 's pulse_gate = fx_base +
  pg_freq :: 's
  pg_on_time :: 's
  pg_period :: int
  pg_on_from :: int
  pg_current :: int

definition pulse_set_parameter :: "int \<Rightarrow> 's::floor_ceiling \<Rightarrow> 's pulse_gate \<Rightarrow> 's pulse_gate" where
  "pulse_set_parameter param v e =
     (if param = 1 then
        if v > 0 then e\<lparr>pg_freq := v, pg_period := truncated (1 / v * of_int (fb_srate e) + 1 / 2)\<rparr> else e
      else if param = 2 then
        if v > 0 \<and> v < 100 then e\<lparr>pg_on_time := v, pg_on_from := truncated (v / 100 * of_int (pg_period e) + 1 / 2)\<rparr> else e
      else e)"

definition pulse_get_parameter :: "int \<Rightarrow> 's::floor_ceiling pulse_gate \<Rightarrow> 's" where
  "pulse_get_parameter param e = (if param = 1 then pg_freq e else if param = 2 then pg_on_time e else 0)"

text \<open>The constructor sets the parameters and then overwrites what they were set to.\<close>

definition pulse_create :: "'s::floor_ceiling \<Rightarrow> 's \<Rightarrow> 's pulse_gate" where
  "pulse_create freq_Hz onTime_percent =
     (pulse_set_parameter 2 onTime_percent (pulse_set_parameter 1 freq_Hz
       \<lparr>fb_srate = 384000, fb_channels = 0, pg_freq = 0, pg_on_time = 0, pg_period = 0, pg_on_from = 0, pg_current = 0\<rparr>))
     \<lparr>pg_freq := 1, pg_on_time := 0, pg_current := 0, pg_period := 0, pg_on_from := 0\<rparr>"

definition pulse_tick :: "'s pulse_gate \<Rightarrow> 's pulse_gate" where
  "pulse_tick e = (let c = pg_current e + 1 in e\<lparr>pg_current := (if c \<ge> pg_period e then 0 else c)\<rparr>)"

definition pulse_change :: "'s::zero pulse_gate \<Rightarrow> ('s \<Rightarrow> 's) option" where
  "pulse_change e = (if pg_current e > pg_on_from e then Some (\<lambda>_. 0) else None)"

definition pulse_process :: "'s::floor_ceiling sample_buffer \<Rightarrow> 's pulse_gate \<Rightarrow> ('s pulse_gate \<times> 's sample_buffer) result" where
  "pulse_process slot e = each_whole_frame (fb_channels e) pulse_tick pulse_change e slot"

definition pulse_class :: "('s::floor_ceiling pulse_gate, 's, 's) op_class" where
  "pulse_class =
     \<lparr>op_number_of_params = (\<lambda>_. 2), op_get_parameter = pulse_get_parameter, op_set_parameter = pulse_set_parameter,
      op_output_channels = (\<lambda>n _. n), op_init = effect_base_init, op_process = pulse_process, op_release = (\<lambda>e. e),
      op_set_srate = effect_base_set_srate 2 pulse_get_parameter pulse_set_parameter\<rparr>"

text \<open>The pulse gate in beats per minute.\<close>

record 's pulse_bpm = fx_base +
  pb_gate :: "'s pulse_gate"

definition pulse_bpm_set_parameter :: "int \<Rightarrow> 's::floor_ceiling \<Rightarrow> 's pulse_bpm \<Rightarrow> 's pulse_bpm" where
  "pulse_bpm_set_parameter param v e =
     (if param = 1 then e\<lparr>pb_gate := pulse_set_parameter 1 (v / 60) (pb_gate e)\<rparr>
      else if param = 2 then e\<lparr>pb_gate := pulse_set_parameter 2 v (pb_gate e)\<rparr> else e)"

definition pulse_bpm_get_parameter :: "int \<Rightarrow> 's::floor_ceiling pulse_bpm \<Rightarrow> 's" where
  "pulse_bpm_get_parameter param e =
     (if param = 1 then pulse_get_parameter 1 (pb_gate e) * 60 else if param = 2 then pulse_get_parameter 2 (pb_gate e) else 0)"

definition pulse_bpm_create :: "'s::floor_ceiling \<Rightarrow> 's \<Rightarrow> 's pulse_bpm" where
  "pulse_bpm_create bpm ontime_percent =
     pulse_bpm_set_parameter 2 ontime_percent (pulse_bpm_set_parameter 1 bpm
       \<lparr>fb_srate = 384000, fb_channels = 0, pb_gate = pulse_create 1 50\<rparr>)"

definition pulse_bpm_init :: "'s::floor_ceiling sample_buffer \<Rightarrow> 's pulse_bpm \<Rightarrow> 's pulse_bpm" where
  "pulse_bpm_init slot e = effect_base_init slot (e\<lparr>pb_gate := effect_base_init slot (pb_gate e)\<rparr>)"

definition pulse_bpm_process :: "'s::floor_ceiling sample_buffer \<Rightarrow> 's pulse_bpm \<Rightarrow> ('s pulse_bpm \<times> 's sample_buffer) result" where
  "pulse_bpm_process slot e = bind_result (pulse_process slot (pb_gate e)) (\<lambda>(g, slot'). Inr (e\<lparr>pb_gate := g\<rparr>, slot'))"

definition pulse_bpm_set_srate :: "int \<Rightarrow> 's::floor_ceiling pulse_bpm \<Rightarrow> 's pulse_bpm" where
  "pulse_bpm_set_srate r e =
     effect_base_set_srate 2 pulse_bpm_get_parameter pulse_bpm_set_parameter r
       (e\<lparr>pb_gate := effect_base_set_srate 2 pulse_get_parameter pulse_set_parameter r (pb_gate e)\<rparr>)"

definition pulse_bpm_class :: "('s::floor_ceiling pulse_bpm, 's, 's) op_class" where
  "pulse_bpm_class =
     \<lparr>op_number_of_params = (\<lambda>_. 2), op_get_parameter = pulse_bpm_get_parameter, op_set_parameter = pulse_bpm_set_parameter,
      op_output_channels = (\<lambda>n _. n), op_init = pulse_bpm_init, op_process = pulse_bpm_process, op_release = (\<lambda>e. e),
      op_set_srate = pulse_bpm_set_srate\<rparr>"

subsection \<open>The tremolo\<close>

record 's tremolo = fx_base +
  tr_freq :: 's
  tr_depth :: 's
  tr_currentTime :: 's
  tr_incrTime :: 's

definition tremolo_set_parameter :: "int \<Rightarrow> 's::floor_ceiling \<Rightarrow> 's tremolo \<Rightarrow> 's tremolo" where
  "tremolo_set_parameter param v e =
     (if param = 1 then if v > 0 then e\<lparr>tr_freq := v / (2 * 60)\<rparr> else e
      else if param = 2 then e\<lparr>tr_depth := v / 100\<rparr> else e)"

definition tremolo_get_parameter :: "int \<Rightarrow> 's::floor_ceiling tremolo \<Rightarrow> 's" where
  "tremolo_get_parameter param e = (if param = 1 then tr_freq e * 120 else if param = 2 then tr_depth e * 100 else 0)"

text \<open>\<open>freq\<close> has no initial value when the tempo given is not positive.\<close>

definition tremolo_create :: "'s::floor_ceiling \<Rightarrow> 's \<Rightarrow> 's \<Rightarrow> 's tremolo" where
  "tremolo_create freq0 freq_bpm depth_percent =
     (tremolo_set_parameter 2 depth_percent (tremolo_set_parameter 1 freq_bpm
       \<lparr>fb_srate = 384000, fb_channels = 0, tr_freq = freq0, tr_depth = 0, tr_currentTime = 0, tr_incrTime = 0\<rparr>))\<lparr>tr_currentTime := 0\<rparr>"

definition tremolo_init :: "'s::floor_ceiling sample_buffer \<Rightarrow> 's tremolo \<Rightarrow> 's tremolo" where
  "tremolo_init slot e = (effect_base_init slot e)\<lparr>tr_incrTime := 1 / of_int (fb_srate e)\<rparr>"

definition tremolo_tick :: "'s::floor_ceiling tremolo \<Rightarrow> 's tremolo" where
  "tremolo_tick e = e\<lparr>tr_currentTime := tr_currentTime e + tr_incrTime e\<rparr>"

definition tremolo_envelope :: "'s::floor_ceiling math \<Rightarrow> 's tremolo \<Rightarrow> 's" where
  "tremolo_envelope M e =
     (let envelope = (1 - tr_depth e) + tr_depth e * \<bar>m_sin M (2 * (31416 / 10000) * tr_currentTime e * tr_freq e)\<bar>
      in if envelope < 0 then 0 else envelope)"

definition tremolo_process ::
  "'s::floor_ceiling math \<Rightarrow> 's sample_buffer \<Rightarrow> 's tremolo \<Rightarrow> ('s tremolo \<times> 's sample_buffer) result" where
  "tremolo_process M slot e =
     each_whole_frame (fb_channels e) tremolo_tick (\<lambda>e. Some (\<lambda>x. x * tremolo_envelope M e)) e slot"

definition tremolo_class :: "'s::floor_ceiling math \<Rightarrow> ('s tremolo, 's, 's) op_class" where
  "tremolo_class M =
     \<lparr>op_number_of_params = (\<lambda>_. 2), op_get_parameter = tremolo_get_parameter, op_set_parameter = tremolo_set_parameter,
      op_output_channels = (\<lambda>n _. n), op_init = tremolo_init, op_process = tremolo_process M, op_release = (\<lambda>e. e),
      op_set_srate = effect_base_set_srate 2 tremolo_get_parameter tremolo_set_parameter\<rparr>"

end
