(* ===== verification/Gates_Facts.thy ===== *)
theory Gates_Facts
  imports Gates
begin

text \<open>
  When the gates let a stream through: the time crop gate within its window, the threshold gate at most
  as many times as it may reopen, the pulse gate periodically; the tremolo never amplifies.
\<close>

subsection \<open>Levels and gates\<close>

lemma sum_cells_ok:
  assumes "sb_wf sb"
  shows "sum_cells f sb = Inr (\<Sum>n < sb_channel_count sb. \<Sum>m < sb_buffersize sb. f (snd (sb_audio sb) ! n ! m))"
proof -
  note w = sb_wfD[OF assms]
  define len where "len = sb_buffersize sb"
  have cell: "read_cell (sb_arrays sb) n m = Inr (snd (sb_audio sb) ! n ! m)" if "n < sb_channel_count sb" "m < len" for n m
    using that w(1,2) w(3)[of n] sb_audio_channel[OF assms, of n] by (simp add: len_def)
  have row: "fold_result (\<lambda>m s. bind_result (read_cell (sb_arrays sb) n m) (\<lambda>x. Inr (s + f x))) [0..<len] s =
      Inr (s + (\<Sum>m<len. f (snd (sb_audio sb) ! n ! m)))" if "n < sb_channel_count sb" for n s
    by (rule fold_result_sum) (use that cell in simp)
  have "sum_cells f sb = Inr (0 + (\<Sum>n < sb_channel_count sb. \<Sum>m<len. f (snd (sb_audio sb) ! n ! m)))"
    unfolding sum_cells_def len_def[symmetric] by (rule fold_result_sum) (rule row)
  then show ?thesis by (simp add: len_def)
qed

lemma gate_process_eq:
  "analyze slot e = Inr e1 \<Longrightarrow>
   gate_process analyze slot e = Inr (e1, if gate_open e1 then slot else slot\<lparr>sb_buffersize := 0\<rparr>)"
  by (simp add: gate_process_def length_in_samples_def)

lemma open_close_gate [simp]: "gate_open (open_gate e)" "\<not> gate_open (close_gate e)"
  by (simp_all add: open_gate_def close_gate_def)

subsection \<open>The time crop gate\<close>

definition in_window :: "'s::linordered_field \<Rightarrow> 's \<Rightarrow> 's \<Rightarrow> bool" where
  "in_window begtime durtime t \<longleftrightarrow> begtime \<le> t \<and> (durtime = 0 \<or> t < begtime + durtime)"

lemma time_crop_step:
  "\<exists>e'. time_crop_process slot e = Inr (e',
       if in_window (tc_begtime e) (tc_durtime e) (of_int (tc_position e) / of_int (tc_srate e)) then slot else slot\<lparr>sb_buffersize := 0\<rparr>) \<and>
     tc_begtime e' = tc_begtime e \<and> tc_durtime e' = tc_durtime e \<and> tc_srate e' = tc_srate e \<and>
     tc_position e' = tc_position e + int (sb_buffersize slot)"
  by (simp add: time_crop_process_def time_crop_analyze_def gate_process_eq in_window_def Let_def)
    (auto simp: open_gate_def close_gate_def)

lemma time_crop_blocks:
  "\<exists>e' bufs'. process_blocks (\<lambda>e b. time_crop_process b e) e bufs = Inr (e', bufs') \<and> length bufs' = length bufs \<and>
     (\<forall>i < length bufs. bufs' ! i =
        (if in_window (tc_begtime e) (tc_durtime e)
              (of_int (tc_position e + int (sum_list (map sb_buffersize (take i bufs)))) / of_int (tc_srate e))
         then bufs ! i else (bufs ! i)\<lparr>sb_buffersize := 0\<rparr>))"
proof (induction bufs arbitrary: e)
  case (Cons b bufs)
  obtain e1 where 1: "time_crop_process b e = Inr (e1,
       if in_window (tc_begtime e) (tc_durtime e) (of_int (tc_position e) / of_int (tc_srate e)) then b else b\<lparr>sb_buffersize := 0\<rparr>)"
      "tc_begtime e1 = tc_begtime e" "tc_durtime e1 = tc_durtime e" "tc_srate e1 = tc_srate e"
      "tc_position e1 = tc_position e + int (sb_buffersize b)"
    using time_crop_step by blast
  from Cons.IH[of e1] obtain e' bufs' where 2: "process_blocks (\<lambda>e b. time_crop_process b e) e1 bufs = Inr (e', bufs')"
      "length bufs' = length bufs"
      "\<forall>i < length bufs. bufs' ! i =
        (if in_window (tc_begtime e) (tc_durtime e)
              (of_int (tc_position e + int (sb_buffersize b) + int (sum_list (map sb_buffersize (take i bufs)))) / of_int (tc_srate e))
         then bufs ! i else (bufs ! i)\<lparr>sb_buffersize := 0\<rparr>)"
    unfolding 1(2-5) by blast
  show ?case using 1(1) 2 by (simp add: nth_Cons' take_Cons' add.assoc)
qed simp

lemma time_crop_start:
  "refresh_op time_crop_class (gate_init slot e) = e\<lparr>gate_open := False, tc_position := 0\<rparr>"
  by (simp add: refresh_op_def upt_rec time_crop_class_def gate_init_def time_crop_get_parameter_def time_crop_set_parameter_def)

text \<open>
  The time crop gate, from a chain's initialisation on: a buffer passes unchanged when the stream's time at
  its start is within the window, and is emptied otherwise; a duration of zero means no end.
\<close>

theorem time_crop_gate_window:
  fixes e :: "'s::floor_ceiling time_crop" and slot :: "'s sample_buffer"
  shows "\<exists>e' bufs'. process_blocks (\<lambda>e b. time_crop_process b e) (refresh_op time_crop_class (gate_init slot e)) bufs = Inr (e', bufs') \<and>
    length bufs' = length bufs \<and>
    (\<forall>i < length bufs.
       let t = of_nat (sum_list (map sb_buffersize (take i bufs))) / of_int (tc_srate e)
       in bufs' ! i =
         (if tc_begtime e \<le> t \<and> (tc_durtime e = 0 \<or> t < tc_begtime e + tc_durtime e) then bufs ! i
          else (bufs ! i)\<lparr>sb_buffersize := 0\<rparr>))"
  using time_crop_blocks[of "e\<lparr>gate_open := False, tc_position := 0\<rparr>" bufs]
  by (simp add: time_crop_start in_window_def Let_def)

subsection \<open>The threshold gate\<close>

text \<open>How often a list of states turns from false to true.\<close>

fun rising :: "bool \<Rightarrow> bool list \<Rightarrow> nat" where
  "rising prev [] = 0"
| "rising prev (x # xs) = (if \<not> prev \<and> x then 1 else 0) + rising x xs"

definition openings_left :: "'s threshold \<Rightarrow> nat" where
  "openings_left e =
     (if \<not> th_is_opened e then nat (th_reopens_left e) + 1 else if th_is_closed e then 0 else nat (th_reopens_left e))"

definition threshold_inv :: "'s threshold \<Rightarrow> bool" where
  "threshold_inv e \<longleftrightarrow> (gate_open e \<longleftrightarrow> th_is_opened e \<and> \<not> th_is_closed e) \<and> 0 \<le> th_reopens_left e"

lemma threshold_decide_step:
  assumes "threshold_inv e"
  shows "threshold_inv (threshold_decide v e)"
    and "(if \<not> gate_open e \<and> gate_open (threshold_decide v e) then 1 else 0) + openings_left (threshold_decide v e) \<le> openings_left e"
  using assms by (auto simp: threshold_inv_def threshold_decide_def openings_left_def open_gate_def close_gate_def Let_def)

lemma threshold_step:
  assumes "sb_wf slot"
  shows "\<exists>v. threshold_process M slot e = Inr (threshold_decide v e,
    if gate_open (threshold_decide v e) then slot else slot\<lparr>sb_buffersize := 0\<rparr>)"
proof -
  obtain v where "threshold_analyze M slot e = Inr (threshold_decide v e)"
    using sum_cells_ok[OF assms] by (cases "th_rms e") (auto simp: threshold_analyze_def RMS_volume_def average_amplitude_def)
  then show ?thesis by (auto simp: threshold_process_def gate_process_eq)
qed

lemma threshold_blocks:
  assumes "threshold_inv e" "blocks_ok n bufs" "\<forall>b \<in> set bufs. 0 < sb_buffersize b"
  shows "\<exists>e' bufs'. process_blocks (\<lambda>e b. threshold_process M b e) e bufs = Inr (e', bufs') \<and> length bufs' = length bufs \<and>
    rising (gate_open e) (map (\<lambda>b. 0 < sb_buffersize b) bufs') \<le> openings_left e \<and>
    (\<forall>i < length bufs. bufs' ! i = bufs ! i \<or> bufs' ! i = (bufs ! i)\<lparr>sb_buffersize := 0\<rparr>)"
  using assms
proof (induction bufs arbitrary: e)
  case (Cons b bufs)
  obtain v where 1: "threshold_process M b e = Inr (threshold_decide v e,
      if gate_open (threshold_decide v e) then b else b\<lparr>sb_buffersize := 0\<rparr>)"
    using threshold_step Cons.prems(2) by fastforce
  define e1 where "e1 = threshold_decide v e"
  note s = threshold_decide_step[OF Cons.prems(1), of v, folded e1_def]
  obtain e' bufs' where 2: "process_blocks (\<lambda>e b. threshold_process M b e) e1 bufs = Inr (e', bufs')" "length bufs' = length bufs"
      "rising (gate_open e1) (map (\<lambda>b. 0 < sb_buffersize b) bufs') \<le> openings_left e1"
      "\<forall>i < length bufs. bufs' ! i = bufs ! i \<or> bufs' ! i = (bufs ! i)\<lparr>sb_buffersize := 0\<rparr>"
    using Cons.IH[OF s(1)] Cons.prems by auto
  have b: "0 < sb_buffersize b" using Cons.prems(3) by simp
  show ?case using 1 2 s(2) b by (cases "gate_open e1") (auto simp: nth_Cons' simp flip: e1_def)
qed simp

text \<open>
  C18. The threshold gate: whatever the stream, it opens at most once more than it may reopen, and each buffer
  either passes unchanged or is emptied.
\<close>

theorem threshold_gate_openings:
  fixes e :: "'s::floor_ceiling threshold" and slot :: "'s sample_buffer"
  assumes "0 \<le> th_reopen_count_param e" "blocks_ok n bufs" "\<forall>b \<in> set bufs. 0 < sb_buffersize b"
  shows "\<exists>e' bufs'. process_blocks (\<lambda>e b. threshold_process M b e) (refresh_op (threshold_class M) (threshold_init slot e)) bufs = Inr (e', bufs') \<and>
    length bufs' = length bufs \<and>
    rising False (map (\<lambda>b. 0 < sb_buffersize b) bufs') \<le> nat (th_reopen_count_param e) + 1 \<and>
    (\<forall>i < length bufs. bufs' ! i = bufs ! i \<or> bufs' ! i = (bufs ! i)\<lparr>sb_buffersize := 0\<rparr>)"
proof -
  define e1 where "e1 = refresh_op (threshold_class M) (threshold_init slot e)"
  have e1: "gate_open e1 = False" "th_is_opened e1 = False" "th_is_closed e1 = False" "th_reopens_left e1 = th_reopen_count_param e"
    by (simp_all add: e1_def refresh_op_def upt_rec threshold_class_def threshold_init_def gate_init_def threshold_get_parameter_def
        threshold_set_parameter_def)
  have "threshold_inv e1" "openings_left e1 = nat (th_reopen_count_param e) + 1"
    using assms(1) by (simp_all add: threshold_inv_def openings_left_def e1)
  then show ?thesis using threshold_blocks[OF _ assms(2,3), of e1 M] by (simp add: e1(1) flip: e1_def)
qed

subsection \<open>Loops over whole frames\<close>

definition apply_change :: "('s \<Rightarrow> 's) option \<Rightarrow> 's \<Rightarrow> 's" where
  "apply_change f x = (case f of None \<Rightarrow> x | Some g \<Rightarrow> g x)"

lemma change_cells:
  assumes "k \<le> length bufs" "\<And>c. c < k \<Longrightarrow> t < length (bufs ! c)"
  shows "fold_result (\<lambda>n bufs. bind_result (read_cell bufs n t) (\<lambda>x. write_cell n t (f x) bufs)) [0..<k] bufs =
    Inr (map (\<lambda>c. if c < k then (bufs ! c)[t := f (bufs ! c ! t)] else bufs ! c) [0..<length bufs])"
  using assms
proof (induction k)
  case 0
  then show ?case by (simp add: map_nth)
next
  case (Suc k)
  define mid where "mid = map (\<lambda>c. if c < k then (bufs ! c)[t := f (bufs ! c ! t)] else bufs ! c) [0..<length bufs]"
  have "mid[k := (bufs ! k)[t := f (bufs ! k ! t)]] =
      map (\<lambda>c. if c < Suc k then (bufs ! c)[t := f (bufs ! c ! t)] else bufs ! c) [0..<length bufs]"
    by (rule nth_equalityI) (auto simp: mid_def nth_list_update less_Suc_eq)
  moreover have "k < length mid" "mid ! k = bufs ! k" using Suc.prems(1) by (simp_all add: mid_def)
  ultimately show ?case using Suc by (simp add: fold_result_append write_cell_def less_SucI flip: mid_def)
qed

text \<open>After \<open>m\<close> frames.\<close>

definition frames_done :: "nat \<Rightarrow> ('e \<Rightarrow> 'e) \<Rightarrow> ('e \<Rightarrow> ('s \<Rightarrow> 's) option) \<Rightarrow> 'e \<Rightarrow> nat \<Rightarrow> 's list list \<Rightarrow> 's list list" where
  "frames_done k tick change e m bufs =
     map (\<lambda>c. if c < k then map (\<lambda>t. if t < m then apply_change (change ((tick ^^ Suc t) e)) (bufs ! c ! t) else bufs ! c ! t)
                [0..<length (bufs ! c)] else bufs ! c) [0..<length bufs]"

lemma frames_done_ok:
  assumes "k \<le> length bufs" "\<And>c. c < k \<Longrightarrow> m \<le> length (bufs ! c)"
  shows "fold_result (at_frame k tick change) [0..<m] (e, bufs) = Inr ((tick ^^ m) e, frames_done k tick change e m bufs)"
  using assms(2)
proof (induction m)
  case 0
  have "frames_done k tick change e 0 bufs = bufs" by (rule nth_equalityI) (auto simp: frames_done_def map_nth)
  then show ?case by simp
next
  case (Suc m)
  define mid where "mid = frames_done k tick change e m bufs"
  have len: "length mid = length bufs" "\<And>c. c < length bufs \<Longrightarrow> length (mid ! c) = length (bufs ! c)"
    by (simp_all add: mid_def frames_done_def)
  have cell: "c < k \<Longrightarrow> t < length (bufs ! c) \<Longrightarrow> mid ! c ! t =
      (if t < m then apply_change (change ((tick ^^ Suc t) e)) (bufs ! c ! t) else bufs ! c ! t)" for c t
    using assms(1) by (simp add: mid_def frames_done_def)
  have rest: "c < length bufs \<Longrightarrow> \<not> c < k \<Longrightarrow> mid ! c = bufs ! c" for c by (simp add: mid_def frames_done_def)
  have "c < k \<Longrightarrow> m < length (mid ! c)" for c using Suc.prems[of c] len assms(1) by simp
  then have ch: "fold_result (\<lambda>n bufs. bind_result (read_cell bufs n m) (\<lambda>x. write_cell n m (f x) bufs)) [0..<k] mid =
      Inr (map (\<lambda>c. if c < k then (mid ! c)[m := f (mid ! c ! m)] else mid ! c) [0..<length mid])" for f
    by (intro change_cells) (use assms(1) len in auto)
  have final: "frames_done k tick change e (Suc m) bufs =
      map (\<lambda>c. if c < k then (mid ! c)[m := apply_change (change ((tick ^^ Suc m) e)) (mid ! c ! m)] else mid ! c) [0..<length mid]"
  proof (rule nth_equalityI)
    show "length (frames_done k tick change e (Suc m) bufs) =
        length (map (\<lambda>c. if c < k then (mid ! c)[m := apply_change (change ((tick ^^ Suc m) e)) (mid ! c ! m)] else mid ! c) [0..<length mid])"
      by (simp add: frames_done_def len)
    fix c assume "c < length (frames_done k tick change e (Suc m) bufs)"
    then have c: "c < length bufs" by (simp add: frames_done_def)
    show "frames_done k tick change e (Suc m) bufs ! c =
        map (\<lambda>c. if c < k then (mid ! c)[m := apply_change (change ((tick ^^ Suc m) e)) (mid ! c ! m)] else mid ! c) [0..<length mid] ! c"
    proof (cases "c < k")
      case True
      have "m < length (bufs ! c)" using Suc.prems[OF True] by simp
      then show ?thesis using c True len cell[OF True]
        by (auto simp: frames_done_def nth_list_update less_Suc_eq intro!: nth_equalityI)
    qed (use c len rest in \<open>simp add: frames_done_def\<close>)
  qed
  have "at_frame k tick change m ((tick ^^ m) e, mid) = Inr ((tick ^^ Suc m) e, frames_done k tick change e (Suc m) bufs)"
  proof (cases "change ((tick ^^ Suc m) e)")
    case None
    have "map (\<lambda>c. if c < k then (mid ! c)[m := apply_change None (mid ! c ! m)] else mid ! c) [0..<length mid] = mid"
      by (rule nth_equalityI) (auto simp: apply_change_def)
    then show ?thesis unfolding final None using None by (simp add: at_frame_def Let_def)
  next
    case (Some f)
    then show ?thesis unfolding final Some using Some ch[of f] by (simp add: at_frame_def Let_def apply_change_def)
  qed
  moreover have "fold_result (at_frame k tick change) [0..<m] (e, bufs) = Inr ((tick ^^ m) e, mid)"
    unfolding mid_def by (rule Suc.IH) (use Suc.prems Suc_leD in blast)
  ultimately show ?case by (simp add: fold_result_append)
qed

lemma each_whole_frame_ok:
  assumes "sb_wf slot" "k \<le> sb_channel_count slot"
  shows "\<exists>slot'. each_whole_frame k tick change e slot = Inr ((tick ^^ sb_buffersize slot) e, slot') \<and> sb_wf slot' \<and>
    sb_buffersize slot' = sb_buffersize slot \<and> sb_channel_count slot' = sb_channel_count slot \<and>
    (\<forall>c < k. \<forall>t < sb_buffersize slot. snd (sb_audio slot') ! c ! t = apply_change (change ((tick ^^ Suc t) e)) (snd (sb_audio slot) ! c ! t))"
proof -
  note w = sb_wfD[OF assms(1)]
  define arr where "arr = frames_done k tick change e (sb_buffersize slot) (sb_arrays slot)"
  have k: "k \<le> length (sb_arrays slot)" "\<And>c. c < k \<Longrightarrow> sb_buffersize slot \<le> length (sb_arrays slot ! c)"
    using assms(2) w(1,2) w(3) by simp_all
  have "map length arr = map length (sb_arrays slot)" by (rule nth_equalityI) (auto simp: arr_def frames_done_def)
  note wf = wf_new_arrays[OF assms(1) this]
  have "snd (sb_audio (slot\<lparr>sb_arrays := arr\<rparr>)) ! c ! t = apply_change (change ((tick ^^ Suc t) e)) (snd (sb_audio slot) ! c ! t)"
    if c: "c < k" and t: "t < sb_buffersize slot" for c t
    using c t k(2)[OF c] assms(2) k(1) sb_audio_channel[OF assms(1), of c] sb_audio_channel[OF wf(1), of c]
    by (simp add: arr_def frames_done_def)
  then show ?thesis
    using frames_done_ok[OF k, where tick = tick and change = change and e = e] wf(1)
    by (auto simp: each_whole_frame_def with_arrays_def simp flip: arr_def)
qed

lemma whole_frame_stream:
  assumes "blocks_ok n bufs"
    and "\<And>e b. good e \<Longrightarrow> sb_channel_count b = n \<Longrightarrow> process e b = each_whole_frame n tick change e b" "\<And>e. good e \<Longrightarrow> good (tick e)" "good e"
  shows "\<exists>e' bufs'. process_blocks process e bufs = Inr (e', bufs') \<and> blocks_ok n bufs' \<and>
    map sb_buffersize bufs' = map sb_buffersize bufs \<and>
    (\<forall>c < n. \<forall>t < length (signal c bufs). signal c bufs' ! t = apply_change (change ((tick ^^ Suc t) e)) (signal c bufs ! t))"
  using assms(1,4)
proof (induction bufs arbitrary: e)
  case (Cons b bufs)
  have b: "sb_wf b" "sb_channel_count b = n" using Cons.prems(1) by simp_all
  define e1 where "e1 = (tick ^^ sb_buffersize b) e"
  obtain b' where 1: "process e b = Inr (e1, b')" "sb_wf b'" "sb_buffersize b' = sb_buffersize b" "sb_channel_count b' = n"
      "\<And>c t. c < n \<Longrightarrow> t < sb_buffersize b \<Longrightarrow> snd (sb_audio b') ! c ! t = apply_change (change ((tick ^^ Suc t) e)) (snd (sb_audio b) ! c ! t)"
    using each_whole_frame_ok[OF b(1), of n tick change e] assms(2)[OF Cons.prems(2) b(2)] b(2) by (auto simp: e1_def)
  have "good ((tick ^^ m) e)" for m by (induction m) (simp_all add: assms(3) Cons.prems(2))
  then have g: "good e1" by (simp add: e1_def)
  obtain e' bufs' where 2: "process_blocks process e1 bufs = Inr (e', bufs')" "blocks_ok n bufs'"
      "map sb_buffersize bufs' = map sb_buffersize bufs"
      "\<And>c t. c < n \<Longrightarrow> t < length (signal c bufs) \<Longrightarrow> signal c bufs' ! t = apply_change (change ((tick ^^ Suc t) e1)) (signal c bufs ! t)"
    using Cons.IH[OF _ g] Cons.prems(1) by auto
  have "signal c (b' # bufs') ! t = apply_change (change ((tick ^^ Suc t) e)) (signal c (b # bufs) ! t)"
    if c: "c < n" and t: "t < length (signal c (b # bufs))" for c t
  proof -
    have len: "length (snd (sb_audio b) ! c) = sb_buffersize b" "length (snd (sb_audio b') ! c) = sb_buffersize b"
      using length_audio_channel[OF b(1), of c] length_audio_channel[OF 1(2), of c] b(2) 1(3,4) c by simp_all
    have pow: "(tick ^^ Suc (t - sb_buffersize b)) e1 = (tick ^^ Suc t) e" if "\<not> t < sb_buffersize b"
    proof -
      have "(tick ^^ Suc (t - sb_buffersize b)) e1 = (tick ^^ (Suc (t - sb_buffersize b) + sb_buffersize b)) e"
        by (simp only: funpow_add o_apply e1_def)
      also have "Suc (t - sb_buffersize b) + sb_buffersize b = Suc t" using that by simp
      finally show ?thesis .
    qed
    show ?thesis
      using 1(5)[OF c, of t] 2(4)[OF c, of "t - sb_buffersize b"] pow t len by (cases "t < sb_buffersize b") (simp_all add: nth_append del: funpow.simps)
  qed
  then show ?case using 1 2 by (intro exI[of _ e'] exI[of _ "b' # bufs'"]) simp
qed simp

subsection \<open>The pulse gate\<close>

lemma pulse_tick_simps:
  "pg_period (pulse_tick e) = pg_period e" "pg_on_from (pulse_tick e) = pg_on_from e" "fb_channels (pulse_tick e) = fb_channels e"
  "pg_current (pulse_tick e) = (if pg_period e \<le> pg_current e + 1 then 0 else pg_current e + 1)"
  by (simp_all add: pulse_tick_def Let_def)

lemma pulse_current:
  assumes "pg_current e = 0" "1 \<le> pg_period e"
  shows "pg_current ((pulse_tick ^^ t) e) = int t mod pg_period e"
    and "pg_period ((pulse_tick ^^ t) e) = pg_period e" "pg_on_from ((pulse_tick ^^ t) e) = pg_on_from e"
    and "fb_channels ((pulse_tick ^^ t) e) = fb_channels e"
proof (induction t)
  case (Suc t)
  show "pg_period ((pulse_tick ^^ Suc t) e) = pg_period e" "pg_on_from ((pulse_tick ^^ Suc t) e) = pg_on_from e"
      "fb_channels ((pulse_tick ^^ Suc t) e) = fb_channels e"
    using Suc by (simp_all add: pulse_tick_simps)
  define a where "a = int t mod pg_period e"
  have a: "0 \<le> a" "a < pg_period e" using assms(2) by (simp_all add: a_def)
  have "(1 + int t) mod pg_period e = (1 + a) mod pg_period e" by (simp add: a_def mod_add_right_eq)
  moreover have "(1 + a) mod pg_period e = (if pg_period e \<le> 1 + a then 0 else 1 + a)"
    using a by (auto simp: not_le intro: mod_pos_pos_trivial dest: antisym)
  ultimately show "pg_current ((pulse_tick ^^ Suc t) e) = int (Suc t) mod pg_period e"
    using Suc by (simp add: pulse_tick_simps add.commute flip: a_def)
qed (use assms in simp_all)

lemma pulse_stream:
  assumes "pg_current e = 0" "1 \<le> pg_period e" "fb_channels e = n" "blocks_ok n bufs"
  shows "\<exists>e' bufs'. process_blocks (\<lambda>e b. pulse_process b e) e bufs = Inr (e', bufs') \<and>
    map sb_buffersize bufs' = map sb_buffersize bufs \<and>
    (\<forall>c < n. \<forall>t < length (signal c bufs).
       signal c bufs' ! t = (if int (Suc t) mod pg_period e \<le> pg_on_from e then signal c bufs ! t else 0))"
proof -
  obtain e' bufs' where 1: "process_blocks (\<lambda>e b. pulse_process b e) e bufs = Inr (e', bufs')"
      "map sb_buffersize bufs' = map sb_buffersize bufs"
      "\<forall>c < n. \<forall>t < length (signal c bufs). signal c bufs' ! t = apply_change (pulse_change ((pulse_tick ^^ Suc t) e)) (signal c bufs ! t)"
    using whole_frame_stream[OF assms(4), where process = "\<lambda>e b. pulse_process b e" and good = "\<lambda>e. fb_channels e = n"
        and tick = pulse_tick and change = pulse_change and e = e] assms(3) by (auto simp: pulse_process_def pulse_tick_def Let_def)
  have "apply_change (pulse_change ((pulse_tick ^^ Suc t) e)) x = (if int (Suc t) mod pg_period e \<le> pg_on_from e then x else 0)" for t x
    unfolding pulse_change_def pulse_current[OF assms(1,2)] by (simp add: apply_change_def not_le)
  then show ?thesis using 1 by (intro exI[of _ e'] exI[of _ bufs']) simp
qed

lemma pulse_start:
  fixes e :: "'s::floor_ceiling pulse_gate"
  assumes "0 < pg_freq e" "0 < pg_on_time e" "pg_on_time e < 100"
  defines "P \<equiv> truncated (1 / pg_freq e * of_int (fb_srate e) + 1 / 2)"
  shows "refresh_op pulse_class (effect_base_init slot e) =
    e\<lparr>fb_channels := sb_channel_count slot, pg_period := P, pg_on_from := truncated (pg_on_time e / 100 * of_int P + 1 / 2)\<rparr>"
  using assms(1-3) unfolding P_def
  by (simp add: refresh_op_def upt_rec pulse_class_def effect_base_init_def pulse_get_parameter_def pulse_set_parameter_def)

text \<open>
  The pulse gate, from a chain's initialisation on and however the stream is cut into buffers: with a
  period of \<open>P\<close> samples of which \<open>D\<close> belong to the on-time, it lets through the samples whose number,
  counted from one, is at most \<open>D\<close> modulo \<open>P\<close>, that is \<open>D + 1\<close> of every \<open>P\<close>, and silences the others.
\<close>

theorem pulse_gate_pattern:
  fixes e :: "'s::floor_ceiling pulse_gate" and slot :: "'s sample_buffer"
  assumes "0 < pg_freq e" "0 < pg_on_time e" "pg_on_time e < 100" "pg_current e = 0"
    and "P = truncated (1 / pg_freq e * of_int (fb_srate e) + 1 / 2)" "1 \<le> P"
    and "D = truncated (pg_on_time e / 100 * of_int P + 1 / 2)"
    and "blocks_ok (sb_channel_count slot) bufs"
  shows "\<exists>e' bufs'. process_blocks (\<lambda>e b. pulse_process b e) (refresh_op pulse_class (effect_base_init slot e)) bufs = Inr (e', bufs') \<and>
    map sb_buffersize bufs' = map sb_buffersize bufs \<and>
    (\<forall>c < sb_channel_count slot. \<forall>t < length (signal c bufs).
       signal c bufs' ! t = (if int (Suc t) mod P \<le> D then signal c bufs ! t else 0))"
proof -
  define e1 where "e1 = refresh_op pulse_class (effect_base_init slot e)"
  have "pg_current e1 = 0" "pg_period e1 = P" "fb_channels e1 = sb_channel_count slot" "pg_on_from e1 = D"
    using assms(4,5,7) unfolding e1_def pulse_start[OF assms(1-3)] by simp_all
  then show ?thesis using pulse_stream[of e1 "sb_channel_count slot" bufs] assms(6,8) by (simp flip: e1_def)
qed

text \<open>
  A change of the frequency alone, as a controller makes it, keeps the number of samples that are on: once
  it is not below the new period, nothing is silenced any more.
\<close>

lemma pulse_frequency_change:
  assumes "pg_current e = 0" "1 \<le> pg_period (pulse_set_parameter 1 v e)" "fb_channels e = n" "blocks_ok n bufs"
    and "pg_period (pulse_set_parameter 1 v e) \<le> pg_on_from e + 1"
  shows "\<exists>e' bufs'. process_blocks (\<lambda>e b. pulse_process b e) (pulse_set_parameter 1 v e) bufs = Inr (e', bufs') \<and>
    (\<forall>c < n. \<forall>t < length (signal c bufs). signal c bufs' ! t = signal c bufs ! t)"
proof -
  define e1 where "e1 = pulse_set_parameter 1 v e"
  have e1: "pg_current e1 = 0" "fb_channels e1 = n" "pg_on_from e1 = pg_on_from e"
    using assms(1,3) by (simp_all add: e1_def pulse_set_parameter_def)
  have "int (Suc t) mod pg_period e1 \<le> pg_on_from e1" for t
    using assms(2,5) pos_mod_bound[of "pg_period e1" "int (Suc t)"] e1(3) unfolding e1_def[symmetric] by linarith
  then show ?thesis using pulse_stream[OF e1(1) _ e1(2) assms(4)] assms(2) unfolding e1_def[symmetric] by fastforce
qed

text \<open>A gate that is used as it was constructed, without setting its parameters again, has the period zero.\<close>

lemma pulse_create_lost: "pg_period (pulse_create f on) = 0" "pulse_get_parameter 1 (pulse_create f on) = 1"
    "pulse_get_parameter 2 (pulse_create f on) = 0"
  by (simp_all add: pulse_create_def pulse_get_parameter_def)

subsection \<open>The tremolo\<close>

lemma tremolo_envelope_range:
  assumes "math_ok M" "0 \<le> tr_depth e" "tr_depth e \<le> 1"
  shows "1 - tr_depth e \<le> tremolo_envelope M e \<and> tremolo_envelope M e \<le> 1"
proof -
  define s where "s = \<bar>m_sin M (2 * (31416 / 10000) * tr_currentTime e * tr_freq e)\<bar>"
  have "- 1 \<le> m_sin M x" "m_sin M x \<le> 1" for x using assms(1) by (simp_all add: math_ok_def)
  then have s: "0 \<le> s" "s \<le> 1" by (simp_all add: s_def abs_le_iff minus_le_iff)
  have "0 \<le> tr_depth e * s" "tr_depth e * s \<le> tr_depth e" using s assms(2) by (simp_all add: mult_left_le)
  then show ?thesis using assms(3) unfolding tremolo_envelope_def Let_def s_def[symmetric] by auto
qed

lemma tremolo_tick_kept: "tr_depth ((tremolo_tick ^^ t) e) = tr_depth e" "fb_channels ((tremolo_tick ^^ t) e) = fb_channels e"
  by (induction t) (simp_all add: tremolo_tick_def)

text \<open>
  The tremolo, from a chain's initialisation on: every sample is multiplied by a factor that is the same
  for all channels of a frame, at most one and at least one minus the depth.
\<close>

theorem tremolo_never_amplifies:
  fixes e :: "'s::floor_ceiling tremolo" and slot :: "'s sample_buffer"
  assumes "math_ok M" "0 < tr_freq e" "0 \<le> tr_depth e" "tr_depth e \<le> 1" "blocks_ok (sb_channel_count slot) bufs"
  shows "\<exists>e' bufs' factor. process_blocks (\<lambda>e b. tremolo_process M b e) (refresh_op (tremolo_class M) (tremolo_init slot e)) bufs = Inr (e', bufs') \<and>
    map sb_buffersize bufs' = map sb_buffersize bufs \<and>
    (\<forall>c < sb_channel_count slot. \<forall>t < length (signal c bufs).
       signal c bufs' ! t = signal c bufs ! t * factor t \<and> 1 - tr_depth e \<le> factor t \<and> factor t \<le> 1)"
proof -
  define e1 n where "e1 = refresh_op (tremolo_class M) (tremolo_init slot e)" and "n = sb_channel_count slot"
  have e1: "fb_channels e1 = n" "tr_depth e1 = tr_depth e"
    by (simp_all add: e1_def n_def refresh_op_def upt_rec tremolo_class_def tremolo_init_def effect_base_init_def tremolo_get_parameter_def
        tremolo_set_parameter_def)
  obtain e' bufs' where 1: "process_blocks (\<lambda>e b. tremolo_process M b e) e1 bufs = Inr (e', bufs')"
      "map sb_buffersize bufs' = map sb_buffersize bufs"
      "\<forall>c < n. \<forall>t < length (signal c bufs). signal c bufs' ! t =
         apply_change (Some (\<lambda>x. x * tremolo_envelope M ((tremolo_tick ^^ Suc t) e1))) (signal c bufs ! t)"
    using whole_frame_stream[OF assms(5)[folded n_def], where process = "\<lambda>e b. tremolo_process M b e" and good = "\<lambda>e. fb_channels e = n"
        and tick = tremolo_tick and change = "\<lambda>e. Some (\<lambda>x. x * tremolo_envelope M e)" and e = e1] e1(1)
    by (auto simp: tremolo_process_def tremolo_tick_def)
  define factor where "factor = (\<lambda>t. tremolo_envelope M ((tremolo_tick ^^ Suc t) e1))"
  have "1 - tr_depth e \<le> factor t \<and> factor t \<le> 1" for t
    using tremolo_envelope_range[OF assms(1), of "(tremolo_tick ^^ Suc t) e1"] assms(3,4)
    unfolding factor_def tremolo_tick_kept e1(2) by simp
  moreover have "signal c bufs' ! t = signal c bufs ! t * factor t" if "c < n" "t < length (signal c bufs)" for c t
    using 1(3) that unfolding factor_def by (simp add: apply_change_def)
  ultimately show ?thesis
    unfolding e1_def[symmetric] n_def[symmetric] using 1(1,2) by (intro exI[of _ e'] exI[of _ bufs'] exI[of _ factor]) simp
qed

subsection \<open>Examples\<close>

lemma time_crop_gate_window_witness:
  "\<exists>e' bufs'. process_blocks (\<lambda>e b. time_crop_process b e)
      (refresh_op time_crop_class (gate_init stereo_buffer ((time_crop_create 1 1 :: rat time_crop)\<lparr>tc_srate := 2\<rparr>))) [stereo_buffer, stereo_buffer] =
    Inr (e', bufs') \<and> bufs' ! 0 = stereo_buffer\<lparr>sb_buffersize := 0\<rparr> \<and> bufs' ! 1 = stereo_buffer"
  using time_crop_gate_window[of stereo_buffer "(time_crop_create 1 1 :: rat time_crop)\<lparr>tc_srate := 2\<rparr>" "[stereo_buffer, stereo_buffer]"]
  by (auto simp: less_Suc_eq all_conj_distrib time_crop_create_def stereo_buffer_def Let_def)

lemma threshold_gate_openings_witness:
  "\<exists>e' bufs'. process_blocks (\<lambda>e b. threshold_process no_math b e)
      (refresh_op (threshold_class no_math) (threshold_init stereo_buffer (threshold_create 10 5 False))) [stereo_buffer, stereo_buffer] =
    Inr (e', bufs') \<and> rising False (map (\<lambda>b. 0 < sb_buffersize b) bufs') \<le> 1"
proof -
  have b: "blocks_ok 2 [stereo_buffer, stereo_buffer]" "\<forall>b \<in> set [stereo_buffer, stereo_buffer]. 0 < sb_buffersize b"
    using stereo_buffer_wf by (simp_all add: stereo_buffer_def)
  have e: "0 \<le> th_reopen_count_param (threshold_create 10 5 False :: rat threshold)" by (simp add: threshold_create_def)
  show ?thesis using threshold_gate_openings[OF e b, of no_math stereo_buffer] by (auto simp: threshold_create_def)
qed

lemma pulse_gate_pattern_witness:
  defines "e \<equiv> (pulse_create 1 50 :: rat pulse_gate)\<lparr>fb_srate := 4, pg_on_time := 50\<rparr>"
  shows "\<exists>e' bufs'. process_blocks (\<lambda>e b. pulse_process b e) (refresh_op pulse_class (effect_base_init stereo_buffer e))
      [stereo_buffer, stereo_buffer] = Inr (e', bufs') \<and> signal 0 bufs' ! 2 = 0"
proof -
  have b: "blocks_ok (sb_channel_count stereo_buffer) [stereo_buffer, stereo_buffer]" using stereo_buffer_wf by (simp add: stereo_buffer_def)
  have h: "0 < pg_freq e" "0 < pg_on_time e" "pg_on_time e < 100" "pg_current e = 0"
      "4 = truncated (1 / pg_freq e * of_int (fb_srate e) + 1 / 2)" "(1 :: int) \<le> 4" "2 = truncated (pg_on_time e / 100 * of_int 4 + 1 / 2)"
    by (simp_all add: e_def pulse_create_def truncated_def floor_eq_iff)
  have s: "2 < length (signal 0 [stereo_buffer, stereo_buffer])" "0 < sb_channel_count stereo_buffer"
    by (simp_all add: stereo_buffer_def sb_audio_def)
  show ?thesis using pulse_gate_pattern[OF h b] s by fastforce
qed

lemma tremolo_never_amplifies_witness:
  "\<exists>e' bufs'. process_blocks (\<lambda>e b. tremolo_process no_math b e)
      (refresh_op (tremolo_class no_math) (tremolo_init stereo_buffer (tremolo_create 0 60 50))) [stereo_buffer] = Inr (e', bufs') \<and>
    map sb_buffersize bufs' = [2]"
proof -
  have b: "blocks_ok (sb_channel_count stereo_buffer) [stereo_buffer]" using stereo_buffer_wf by (simp add: stereo_buffer_def)
  have h: "0 < tr_freq (tremolo_create 0 60 (50 :: rat))" "0 \<le> tr_depth (tremolo_create 0 60 (50 :: rat))"
      "tr_depth (tremolo_create 0 60 (50 :: rat)) \<le> 1"
    by (simp_all add: tremolo_create_def tremolo_set_parameter_def)
  have "map sb_buffersize [stereo_buffer] = [2]" by (simp add: stereo_buffer_def)
  then show ?thesis using tremolo_never_amplifies[OF no_math_ok h b] by auto
qed

end
