(* ===== verification/Session.thy ===== *)
theory Session
  imports Enable_Facts Kvu_Args
begin

text \<open>
  A session (\<open>libecasound/eca-session.cpp\<close>): the chainsetups that are loaded, the one that is selected
  and the one that is connected to the engine, and the command-line options of a session. Chainsetups
  live at addresses of a heap; addresses are not used again, so that a pointer to a deleted chainsetup
  is one that the heap does not have.
  Parsing a chainsetup file or an option string and writing a file are given by the environment
  \<open>session_env\<close>, as are the classes of the objects. The defaults that are set from the resource files
  and the log levels have no state here, apart from the flag that they were set.
\<close>

subsection \<open>State\<close>

record ('io, 'o, 'c) named_setup =
  st_name :: string
  st_filename :: string
  st_cs :: "('io, 'o, 'c, rat) chainsetup"

record ('io, 'o, 'c) session =
  se_heap :: "nat \<Rightarrow> ('io, 'o, 'c) named_setup option"
  se_fresh :: nat
  se_setups :: "nat list"
  se_connected :: "nat option"
  se_selected :: "nat option"
  se_defaults_set :: bool

text \<open>
  What constructing a chainsetup from a file gives: an exception (the file cannot be read), parsing
  errors, or a chainsetup.
\<close>

datatype 'a loading = Load_throws string | Load_errors string | Loaded 'a

text \<open>
  \<open>ve_new\<close> is the chainsetup of the constructor without arguments, which depends on the resource files;
  \<open>ve_proxy\<close> and \<open>ve_addresses\<close> are the double-buffering clients that enabling makes and their addresses,
  and \<open>ve_buffersize\<close> is the buffer size that the devices demand, or \<open>-1\<close>.
\<close>

record ('io, 'o, 'c, 's) session_env =
  ve_io :: "('io, 's) io_class"
  ve_open :: "'io open_class"
  ve_ops :: "('o, rat, 's) op_class"
  ve_sources :: "('c, rat) source_class"
  ve_proxy :: "nat \<Rightarrow> 'io"
  ve_addresses :: "nat \<Rightarrow> nat"
  ve_buffersize :: int
  ve_new :: "('io, 'o, 'c, rat) chainsetup"
  ve_load :: "string \<Rightarrow> ('io, 'o, 'c) named_setup loading"
  ve_save :: "string \<Rightarrow> ('io, 'o, 'c) named_setup \<Rightarrow> string option"

definition session_create :: "('io, 'o, 'c) session" where
  "session_create =
     \<lparr>se_heap = Map.empty, se_fresh = 0, se_setups = [], se_connected = None, se_selected = None, se_defaults_set = False\<rparr>"

text \<open>Following a pointer to a chainsetup.\<close>

definition deref :: "nat option \<Rightarrow> ('io, 'o, 'c) session \<Rightarrow> ('io, 'o, 'c) named_setup result" where
  "deref p se = (case p of None \<Rightarrow> Inl Undefined_behaviour
     | Some a \<Rightarrow> (case se_heap se a of None \<Rightarrow> Inl Undefined_behaviour | Some st \<Rightarrow> Inr st))"

definition put_setup :: "nat option \<Rightarrow> ('io, 'o, 'c) named_setup \<Rightarrow> ('io, 'o, 'c) session \<Rightarrow> ('io, 'o, 'c) session" where
  "put_setup p st se = (case p of None \<Rightarrow> se | Some a \<Rightarrow> se\<lparr>se_heap := (se_heap se)(a := Some st)\<rparr>)"

definition delete_setup :: "nat \<Rightarrow> ('io, 'o, 'c) session \<Rightarrow> ('io, 'o, 'c) session" where
  "delete_setup a se = se\<lparr>se_heap := (se_heap se)(a := None)\<rparr>"

definition new_setup :: "('io, 'o, 'c) named_setup \<Rightarrow> ('io, 'o, 'c) session \<Rightarrow> nat \<times> ('io, 'o, 'c) session" where
  "new_setup st se = (se_fresh se, se\<lparr>se_heap := (se_heap se)(se_fresh se := Some st), se_fresh := Suc (se_fresh se)\<rparr>)"

definition set_cs_param_defaults :: "('io, 'o, 'c) session \<Rightarrow> ('io, 'o, 'c) session" where
  "set_cs_param_defaults se = se\<lparr>se_defaults_set := True\<rparr>"

subsection \<open>Chainsetups\<close>

text \<open>The first chainsetup of the vector with a name.\<close>

fun setup_named :: "string \<Rightarrow> nat list \<Rightarrow> ('io, 'o, 'c) session \<Rightarrow> nat option result" where
  "setup_named name [] se = Inr None"
| "setup_named name (a # as) se =
     bind_result (deref (Some a) se) (\<lambda>st. if st_name st = name then Inr (Some a) else setup_named name as se)"

definition add_chainsetup_ptr :: "nat \<Rightarrow> ('io, 'o, 'c) session \<Rightarrow> ('io, 'o, 'c) session result" where
  "add_chainsetup_ptr a se =
     (let se1 = set_cs_param_defaults (se\<lparr>se_selected := Some a\<rparr>) in
      bind_result (deref (Some a) se1) (\<lambda>st.
      bind_result (setup_named (st_name st) (se_setups se1) se1) (\<lambda>r.
        case r of
          Some _ \<Rightarrow> Inr (se1\<lparr>se_selected := None\<rparr>)
        | None \<Rightarrow> Inr (se1\<lparr>se_setups := se_setups se1 @ [a]\<rparr>))))"

definition add_and_delete :: "('io, 'o, 'c) named_setup \<Rightarrow> ('io, 'o, 'c) session \<Rightarrow> ('io, 'o, 'c) session result" where
  "add_and_delete st se =
     (case new_setup st se of (a, se1) \<Rightarrow>
      bind_result (add_chainsetup_ptr a se1) (\<lambda>se2.
        Inr (if se_selected se2 = None then delete_setup a se2 else se2)))"

definition session_add_chainsetup :: "('io, 'o, 'c, 's) session_env \<Rightarrow> string \<Rightarrow> ('io, 'o, 'c) session \<Rightarrow> ('io, 'o, 'c) session result" where
  "session_add_chainsetup V name se =
     add_and_delete \<lparr>st_name = name, st_filename = '''', st_cs = ve_new V\<rparr> (set_cs_param_defaults se)"

definition session_remove_chainsetup :: "('io, 'o, 'c) session \<Rightarrow> ('io, 'o, 'c) session" where
  "session_remove_chainsetup se =
     (case se_selected se of
        None \<Rightarrow> se
      | Some a \<Rightarrow>
          if a \<in> set (se_setups se)
          then (delete_setup a (se\<lparr>se_selected := None\<rparr>))\<lparr>se_setups := remove1 a (se_setups se)\<rparr>
          else se)"

definition session_select_chainsetup :: "string \<Rightarrow> ('io, 'o, 'c) session \<Rightarrow> ('io, 'o, 'c) session result" where
  "session_select_chainsetup name se =
     bind_result (setup_named name (se_setups se) se) (\<lambda>r. Inr (se\<lparr>se_selected := r\<rparr>))"

text \<open>\<open>save_to_file\<close> and \<open>save\<close> of a chainsetup; \<open>ve_save\<close> gives the message if the file cannot be written.\<close>

definition cs_save_to_file ::
  "('io, 'o, 'c, 's) session_env \<Rightarrow> string \<Rightarrow> ('io, 'o, 'c) named_setup \<Rightarrow> ('io, 'o, 'c) named_setup \<times> string option" where
  "cs_save_to_file V filename st =
     (let st1 = st\<lparr>st_cs := select_active_buffering_mode (ve_io V) (st_cs st)\<rparr> in
      case ve_save V filename st1 of
        Some msg \<Rightarrow> (st1, Some msg)
      | None \<Rightarrow> (st1\<lparr>st_filename := filename\<rparr>, None))"

definition cs_save :: "('io, 'o, 'c, 's) session_env \<Rightarrow> ('io, 'o, 'c) named_setup \<Rightarrow> ('io, 'o, 'c) named_setup \<times> string option" where
  "cs_save V st =
     (let st1 = (if st_filename st = '''' then st\<lparr>st_filename := st_name st @ ''.ecs''\<rparr> else st)
      in cs_save_to_file V (st_filename st1) st1)"

definition session_save_chainsetup :: "('io, 'o, 'c, 's) session_env \<Rightarrow> ('io, 'o, 'c) session \<Rightarrow> ('io, 'o, 'c) session throwing" where
  "session_save_chainsetup V se =
     bind_result (deref (se_selected se) se) (\<lambda>st.
       case cs_save V st of (st1, e) \<Rightarrow> Inr (put_setup (se_selected se) st1 se, e))"

definition session_save_chainsetup_as ::
  "('io, 'o, 'c, 's) session_env \<Rightarrow> string \<Rightarrow> ('io, 'o, 'c) session \<Rightarrow> ('io, 'o, 'c) session throwing" where
  "session_save_chainsetup_as V filename se =
     bind_result (deref (se_selected se) se) (\<lambda>st.
       case cs_save_to_file V filename st of (st1, e) \<Rightarrow> Inr (put_setup (se_selected se) st1 se, e))"

definition session_load_chainsetup ::
  "('io, 'o, 'c, 's) session_env \<Rightarrow> string \<Rightarrow> ('io, 'o, 'c) session \<Rightarrow> ('io, 'o, 'c) session throwing" where
  "session_load_chainsetup V filename se =
     (let se1 = set_cs_param_defaults se in
      case ve_load V filename of
        Load_throws msg \<Rightarrow> Inr (se1, Some msg)
      | Load_errors _ \<Rightarrow> Inr (se1\<lparr>se_selected := None\<rparr>, None)
      | Loaded st \<Rightarrow> no_throw (add_and_delete st se1))"

subsection \<open>Connecting\<close>

definition session_disconnect_chainsetup :: "('io, 'o, 'c, 's) session_env \<Rightarrow> ('io, 'o, 'c) session \<Rightarrow> ('io, 'o, 'c) session result" where
  "session_disconnect_chainsetup V se =
     bind_result (deref (se_connected se) se) (\<lambda>st.
     bind_result (cs_disable (ve_io V) (ve_open V) (st_cs st)) (\<lambda>cs.
       Inr ((put_setup (se_connected se) (st\<lparr>st_cs := cs\<rparr>) se)\<lparr>se_connected := None\<rparr>)))"

definition session_connect_chainsetup :: "('io, 'o, 'c, 's) session_env \<Rightarrow> ('io, 'o, 'c) session \<Rightarrow> ('io, 'o, 'c) session throwing" where
  "session_connect_chainsetup V se =
     (if se_selected se = se_connected se then Inr (se, None)
      else
        bind_result (if se_connected se \<noteq> None then session_disconnect_chainsetup V se else Inr se) (\<lambda>se1.
        bind_result (deref (se_selected se1) se1) (\<lambda>st.
        bind_result (cs_enable (ve_io V) (ve_open V) (ve_ops V) (ve_proxy V) (ve_addresses V) (ve_buffersize V) (st_cs st)) (\<lambda>(cs, e).
          let se2 = put_setup (se_selected se1) (st\<lparr>st_cs := cs\<rparr>) se1 in
          Inr (if e = None then se2\<lparr>se_connected := se_selected se2\<rparr> else se2, e)))))"

definition session_chainsetup_names :: "('io, 'o, 'c) session \<Rightarrow> string list result" where
  "session_chainsetup_names se =
     fold_result (\<lambda>a names. bind_result (deref (Some a) se) (\<lambda>st. Inr (names @ [st_name st]))) (se_setups se) []"

subsection \<open>Options\<close>

definition is_session_option :: "string \<Rightarrow> bool" where
  "is_session_option arg =
     (if length arg < 2 \<or> arg ! 0 \<noteq> CHR ''-'' then False
      else if arg ! 1 \<in> {CHR ''R'', CHR ''d'', CHR ''q''} then True
      else arg ! 1 = CHR ''s'' \<and> length arg > 2 \<and> arg ! 2 = CHR '':'')"

text \<open>
  \<open>find\<close> gives \<open>npos\<close>, the largest \<open>size_t\<close>, when there is no match, and the sum with 4 wraps around.
\<close>

definition ends_with_ecs :: "string \<Rightarrow> bool" where
  "ends_with_ecs p \<longleftrightarrow>
     (case find_first ''.ecs'' p of None \<Rightarrow> (-1 :: 64 word) | Some i \<Rightarrow> of_nat i) + 4 = of_nat (length p)"

definition preprocess_option :: "string \<Rightarrow> string" where
  "preprocess_option p =
     (if length p > 0 \<and> p ! 0 \<noteq> CHR ''-'' \<and> ends_with_ecs p then ''-s:'' @ p else p)"

definition session_preprocess_options :: "string list \<Rightarrow> string list" where
  "session_preprocess_options opts = map preprocess_option opts"

text \<open>The option \<open>-R\<close> makes the defaults be read again; the other general options set log levels.\<close>

definition interpret_general_option :: "string \<Rightarrow> ('io, 'o, 'c) session \<Rightarrow> ('io, 'o, 'c) session" where
  "interpret_general_option argu se =
     (if length argu < 2 then se
      else if argu ! 0 \<noteq> CHR ''-'' then se
      else if argu ! 1 = CHR ''R'' \<and> length argu > 2 \<and> argu ! 2 = CHR '':'' then se\<lparr>se_defaults_set := False\<rparr>
      else se)"

text \<open>An exception while loading leaves the loop, and with it the constructor of the session.\<close>

definition interpret_chainsetup_option ::
  "('io, 'o, 'c, 's) session_env \<Rightarrow> string \<Rightarrow> nat \<times> ('io, 'o, 'c) session \<Rightarrow> (nat \<times> ('io, 'o, 'c) session) throwing" where
  "interpret_chainsetup_option V argu = (\<lambda>(errors, se).
     if length argu = 0 then Inr ((errors, se), None)
     else bind_result (kvu_get_argument_number 1 argu) (\<lambda>tname.
       if length argu < 2 then Inr ((errors, se), None)
       else if argu ! 1 = CHR ''s'' \<and> length argu > 2 \<and> argu ! 2 = CHR '':''
       then then_do (bind_result (session_load_chainsetup V tname se) (\<lambda>(se1, e). Inr ((errors, se1), e)))
              (\<lambda>(errors, se1).
                 if se_selected se1 = None then Inr ((errors + 1, se1), None)
                 else bind_result (deref (se_selected se1) se1) (\<lambda>st.
                   Inr ((if is_valid_for_connection (st_cs st) then errors else errors + 1, se1), None)))
       else Inr ((errors, se), None)))"

definition interpret_general_options ::
  "('io, 'o, 'c, 's) session_env \<Rightarrow> string list \<Rightarrow> ('io, 'o, 'c) session \<Rightarrow> (nat \<times> ('io, 'o, 'c) session \<times> string list) throwing" where
  "interpret_general_options V inopts se =
     (let is_option = (\<lambda>p. length p > 0 \<and> p ! 0 = CHR ''-'');
          se1 = fold (\<lambda>p se. if is_option p then interpret_general_option p se else se) inopts se
      in bind_result
           (fold_throw (\<lambda>p s. if is_option p then interpret_chainsetup_option V p s else Inr (s, None)) inopts (0, se1))
           (\<lambda>((errors, se2), e). Inr ((errors, se2, filter (\<lambda>p. \<not> is_session_option p) inopts), e)))"

end
