(* ===== verification/Control_Base.thy ===== *)
theory Control_Base
  imports Session Engine
begin

text \<open>
  The control interface: its state and the part of \<open>libecasound/eca-control-base.cpp\<close> that starts and
  stops the engine. The engine runs in a thread of its own; of it, the interface sees its status and
  puts commands into its queue. What that thread does to the chainsetup while the interface waits for
  it to exit is the argument \<open>ce_exit\<close>, and \<open>pthread_join\<close> is taken to return. The batch mode of \<open>run\<close>
  is not modelled.
\<close>

subsection \<open>State\<close>

text \<open>A command in the queue of the engine; an edit that adds an object carries its option string.\<close>

datatype sent = Sent "rat engine_command" | Sent_add int string

record engine_handle =
  eh_setup :: nat
  eh_status :: engine_status
  eh_sent :: "sent list"

datatype retval =
    Ret_none | Ret_error string | Ret_string string | Ret_strings "string list"
  | Ret_float rat | Ret_int int | Ret_long int

text \<open>
  A pointer to an audio object is the address of the chainsetup with the address of the object in it.
  \<open>ct_pid\<close> says whether \<open>engine_pid_rep\<close> is non-negative.
\<close>

type_synonym aio_ptr = "(nat \<times> nat) option"

record ('io, 'o, 'c) control =
  ct_session :: "('io, 'o, 'c) session"
  ct_selected :: "nat option"
  ct_engine :: "engine_handle option"
  ct_pid :: bool
  ct_exited :: bool
  ct_ret :: retval
  ct_args :: "string list"
  ct_argf :: "rat option"
  ct_ok :: bool
  ct_reconnect :: bool
  ct_restart :: bool
  ct_input :: aio_ptr
  ct_output :: aio_ptr
  ct_object :: aio_ptr

definition control_create :: "('io, 'o, 'c) session \<Rightarrow> ('io, 'o, 'c) control" where
  "control_create se =
     \<lparr>ct_session = se, ct_selected = se_selected se, ct_engine = None, ct_pid = False, ct_exited = False, ct_ret = Ret_none,
      ct_args = [], ct_argf = None, ct_ok = False, ct_reconnect = False, ct_restart = False,
      ct_input = None, ct_output = None, ct_object = None\<rparr>"

text \<open>
  The environment: that of the session, the interpreters of option strings (with the error they
  report), names of operators and controllers (for a
  controller, by its source), whether a thread can be created and the status of a new
  engine, the text of the commands that only describe the state, and what the commands return that look
  up the maps of known objects, the version or the log. \<open>ce_channels\<close> are the uninitialised
  channel counts of a new chain.
\<close>

record ('io, 'o, 'c, 's) control_env =
  ce_session :: "('io, 'o, 'c, 's) session_env"
  ce_options :: "string list \<Rightarrow> ('io, 'o, 'c) named_setup \<Rightarrow> ('io, 'o, 'c) named_setup \<times> string option"
  ce_global_option :: "string \<Rightarrow> ('io, 'o, 'c) named_setup \<Rightarrow> ('io, 'o, 'c) named_setup \<times> string option"
  ce_object_option :: "string \<Rightarrow> ('io, 'o, 'c) named_setup \<Rightarrow> ('io, 'o, 'c) named_setup \<times> string option"
  ce_is_operator :: "string \<Rightarrow> bool"
  ce_is_controller :: "string \<Rightarrow> bool"
  ce_op_name :: "'o \<Rightarrow> string"
  ce_op_param_name :: "int \<Rightarrow> 'o \<Rightarrow> string"
  ce_ctrl_name :: "'c \<Rightarrow> string"
  ce_ctrl_param_name :: "int \<Rightarrow> 'c \<Rightarrow> string"
  ce_ctrl_params :: "'c \<Rightarrow> int"
  ce_default_output :: string
  ce_channels :: "nat \<times> nat"
  ce_thread_ok :: bool
  ce_status :: engine_status
  ce_exit :: "('io, 'o, 'c, rat) chainsetup \<Rightarrow> ('io, 'o, 'c, rat) chainsetup"
  ce_text :: "string \<Rightarrow> ('io, 'o, 'c) control \<Rightarrow> string"
  ce_info :: "string \<Rightarrow> retval"

subsection \<open>Return values\<close>

definition set_error :: "string \<Rightarrow> ('io, 'o, 'c) control \<Rightarrow> ('io, 'o, 'c) control" where
  "set_error s ct = ct\<lparr>ct_ret := Ret_error s\<rparr>"

definition set_ret :: "retval \<Rightarrow> ('io, 'o, 'c) control \<Rightarrow> ('io, 'o, 'c) control" where
  "set_ret r ct = ct\<lparr>ct_ret := r\<rparr>"

definition last_error :: "('io, 'o, 'c) control \<Rightarrow> string" where
  "last_error ct = (case ct_ret ct of Ret_error s \<Rightarrow> s | _ \<Rightarrow> '''')"

subsection \<open>The selected and the connected chainsetup\<close>

definition sel_setup :: "('io, 'o, 'c) control \<Rightarrow> ('io, 'o, 'c) named_setup result" where
  "sel_setup ct = deref (ct_selected ct) (ct_session ct)"

definition con_setup :: "('io, 'o, 'c) control \<Rightarrow> ('io, 'o, 'c) named_setup result" where
  "con_setup ct = deref (se_connected (ct_session ct)) (ct_session ct)"

definition put_selected :: "('io, 'o, 'c) named_setup \<Rightarrow> ('io, 'o, 'c) control \<Rightarrow> ('io, 'o, 'c) control" where
  "put_selected st ct = ct\<lparr>ct_session := put_setup (ct_selected ct) st (ct_session ct)\<rparr>"

definition on_selected_cs ::
  "(('io, 'o, 'c, rat) chainsetup \<Rightarrow> ('io, 'o, 'c, rat) chainsetup result) \<Rightarrow> ('io, 'o, 'c) control \<Rightarrow> ('io, 'o, 'c) control result" where
  "on_selected_cs f ct =
     bind_result (sel_setup ct) (\<lambda>st. bind_result (f (st_cs st)) (\<lambda>cs. Inr (put_selected (st\<lparr>st_cs := cs\<rparr>) ct)))"

definition selected_chainsetup :: "('io, 'o, 'c) control \<Rightarrow> string result" where
  "selected_chainsetup ct =
     (if ct_selected ct \<noteq> None then bind_result (sel_setup ct) (\<lambda>st. Inr (st_name st)) else Inr '''')"

definition connected_chainsetup :: "('io, 'o, 'c) control \<Rightarrow> string result" where
  "connected_chainsetup ct =
     (if se_connected (ct_session ct) \<noteq> None then bind_result (con_setup ct) (\<lambda>st. Inr (st_name st)) else Inr '''')"

definition is_selected :: "('io, 'o, 'c) control \<Rightarrow> bool" where
  "is_selected ct \<longleftrightarrow> ct_selected ct \<noteq> None"

definition ctl_is_valid :: "('io, 'o, 'c) control \<Rightarrow> bool result" where
  "ctl_is_valid ct = bind_result (sel_setup ct) (\<lambda>st. Inr (is_valid_for_connection (st_cs st)))"

definition is_connected :: "('io, 'o, 'c) control \<Rightarrow> bool result" where
  "is_connected ct =
     (if se_connected (ct_session ct) = None then Inr False
      else bind_result (con_setup ct) (\<lambda>st. Inr (is_valid_for_connection (st_cs st) \<and> cs_enabled (st_cs st))))"

subsection \<open>The engine\<close>

definition is_engine_created :: "('io, 'o, 'c) control \<Rightarrow> bool" where
  "is_engine_created ct \<longleftrightarrow> ct_engine ct \<noteq> None"

definition ctl_status :: "('io, 'o, 'c) control \<Rightarrow> engine_status option" where
  "ctl_status ct = map_option eh_status (ct_engine ct)"

definition is_running :: "('io, 'o, 'c) control \<Rightarrow> bool" where
  "is_running ct \<longleftrightarrow> ctl_status ct = Some Status_running"

definition is_finished :: "('io, 'o, 'c) control \<Rightarrow> bool" where
  "is_finished ct \<longleftrightarrow> ctl_status ct = Some Status_finished \<or> ctl_status ct = Some Status_error"

definition is_engine_ready_for_commands :: "('io, 'o, 'c) control \<Rightarrow> bool" where
  "is_engine_ready_for_commands ct \<longleftrightarrow> is_engine_created ct \<and> ct_pid ct \<and> ctl_status ct \<noteq> Some Status_notready"

definition engine_status_text :: "('io, 'o, 'c) control \<Rightarrow> string" where
  "engine_status_text ct =
     (case ctl_status ct of
        None \<Rightarrow> ''not started''
      | Some Status_running \<Rightarrow> ''running''
      | Some Status_stopped \<Rightarrow> ''stopped''
      | Some Status_finished \<Rightarrow> ''finished''
      | Some Status_error \<Rightarrow> ''error''
      | Some Status_notready \<Rightarrow> ''not ready'')"

text \<open>Putting a command into the queue of the engine; without an engine this follows a null pointer.\<close>

definition send :: "sent \<Rightarrow> ('io, 'o, 'c) control \<Rightarrow> ('io, 'o, 'c) control result" where
  "send c ct =
     (case ct_engine ct of
        None \<Rightarrow> Inl Undefined_behaviour
      | Some h \<Rightarrow> Inr (ct\<lparr>ct_engine := Some (h\<lparr>eh_sent := eh_sent h @ [c]\<rparr>)\<rparr>))"

text \<open>
  \<open>close_engine\<close>, as called by the only thread that joins the engine's: the thread ends, so that the
  engine is deleted.
\<close>

definition close_engine :: "('io, 'o, 'c, 's) control_env \<Rightarrow> ('io, 'o, 'c) control \<Rightarrow> ('io, 'o, 'c) control result" where
  "close_engine E ct =
     (case ct_engine ct of
        None \<Rightarrow> Inr ct
      | Some h \<Rightarrow>
          bind_result (deref (Some (eh_setup h)) (ct_session ct)) (\<lambda>st.
            Inr (ct\<lparr>ct_engine := None, ct_pid := False, ct_exited := False,
                    ct_session := put_setup (Some (eh_setup h)) (st\<lparr>st_cs := ce_exit E (st_cs st)\<rparr>) (ct_session ct)\<rparr>)))"

text \<open>
  \<open>start_engine_sub\<close>; the index of the selected chain that it stores in the chainsetup is never read and is
  left out. The thread sets \<open>engine_pid_rep\<close> later.
\<close>

definition start_engine_sub :: "('io, 'o, 'c, 's) control_env \<Rightarrow> ('io, 'o, 'c) control \<Rightarrow> ('io, 'o, 'c) control result" where
  "start_engine_sub E ct =
     bind_result (con_setup ct) (\<lambda>st.
     bind_result (if is_engine_created ct then close_engine E ct else Inr ct) (\<lambda>ct1.
       Inr (if ce_thread_ok E
            then ct1\<lparr>ct_engine := Some \<lparr>eh_setup = the (se_connected (ct_session ct1)), eh_status = ce_status E, eh_sent = []\<rparr>\<rparr>
            else ct1)))"

definition ctl_start :: "('io, 'o, 'c, 's) control_env \<Rightarrow> ('io, 'o, 'c) control \<Rightarrow> (bool \<times> ('io, 'o, 'c) control) result" where
  "ctl_start E ct =
     bind_result (if \<not> is_engine_created ct then start_engine_sub E ct else Inr ct) (\<lambda>ct1.
       if \<not> is_engine_created ct1 then Inr (False, ct1)
       else bind_result (send (Sent Ep_start) ct1) (\<lambda>ct2. Inr (True, ct2)))"

definition ctl_stop :: "('io, 'o, 'c) control \<Rightarrow> ('io, 'o, 'c) control result" where
  "ctl_stop ct = send (Sent Ep_stop) ct"

text \<open>\<open>stop_on_condition\<close> also waits until the engine has stopped, for 5 seconds at most.\<close>

definition stop_on_condition :: "('io, 'o, 'c) control \<Rightarrow> ('io, 'o, 'c) control result" where
  "stop_on_condition ct = send (Sent Ep_stop) ct"

definition quit_async :: "('io, 'o, 'c) control \<Rightarrow> ('io, 'o, 'c) control result" where
  "quit_async ct = (if is_engine_ready_for_commands ct then send (Sent Ep_exit) ct else Inr ct)"

subsection \<open>Length and position\<close>

definition ctl_length_in_samples :: "('io, 'o, 'c) control \<Rightarrow> int result" where
  "ctl_length_in_samples ct =
     bind_result (sel_setup ct) (\<lambda>st. let p = cs_position (st_cs st) in
       Inr (if cp_max_length_set p then cp_max_length p else if ap_length_set (cp_pos p) then ap_length (cp_pos p) else 0))"

definition ctl_length_in_seconds_exact :: "('io, 'o, 'c) control \<Rightarrow> rat result" where
  "ctl_length_in_seconds_exact ct =
     bind_result (sel_setup ct) (\<lambda>st. let p = cs_position (st_cs st) in
     bind_result (if ap_length_set (cp_pos p) then length_in_seconds_exact (cp_pos p) else Inr 0) (\<lambda>l.
       if cp_max_length_set p then seconds_exact (cp_max_length p) (cp_pos p) else Inr l))"

definition ctl_position_in_samples :: "('io, 'o, 'c) control \<Rightarrow> int result" where
  "ctl_position_in_samples ct = bind_result (sel_setup ct) (\<lambda>st. Inr (ap_position (cp_pos (cs_position (st_cs st)))))"

definition ctl_position_in_seconds_exact :: "('io, 'o, 'c) control \<Rightarrow> rat result" where
  "ctl_position_in_seconds_exact ct =
     bind_result (sel_setup ct) (\<lambda>st. position_in_seconds_exact (cp_pos (cs_position (st_cs st))))"

end
