(* ===== verification/Control_Objects.thy ===== *)
theory Control_Objects
  imports Control_Base
begin

text \<open>
  The operations of \<open>libecasound/eca-control-objects.cpp\<close> on chainsetups, chains, audio objects, chain
  operators and controllers. Each works on the selected chainsetup; nothing guards the pointer to it.
  Left out are \<open>edit_chainsetup\<close> and \<open>wave_edit_audio_object\<close>, which run an external program, and the
  default audio format.
\<close>

subsection \<open>Messages\<close>

definition quoted :: "string \<Rightarrow> string" where
  "quoted s = [CHR 34] @ s @ [CHR 34]"

definition msg_add_chainsetup :: "string \<Rightarrow> string" where
  "msg_add_chainsetup name = ''Unable to add chainsetup with name '' @ quoted name @ ''.''"

definition msg_no_chainsetup :: "string \<Rightarrow> string" where
  "msg_no_chainsetup name = ''Chainsetup '' @ quoted name @ [CHR '' ''] @ ''doesn'' @ [CHR 39] @ ''t exist!''"

definition msg_exception :: "string \<Rightarrow> string" where
  "msg_exception msg = ''ECA_CHAINSETUP: '' @ quoted msg"

definition msg_connecting :: "string option \<Rightarrow> string" where
  "msg_connecting e = '' Connecting chainsetup failed: '' @ quoted (case e of None \<Rightarrow> '''' | Some msg \<Rightarrow> msg)"

subsection \<open>Chainsetups\<close>

definition ctl_select_chainsetup :: "string \<Rightarrow> ('io, 'o, 'c) control \<Rightarrow> ('io, 'o, 'c) control result" where
  "ctl_select_chainsetup name ct =
     bind_result (session_select_chainsetup name (ct_session ct)) (\<lambda>se.
       let ct1 = ct\<lparr>ct_session := se, ct_selected := se_selected se\<rparr>
       in Inr (if ct_selected ct1 = None then set_error (msg_no_chainsetup name) ct1 else ct1))"

definition ctl_select_chainsetup_by_index :: "int \<Rightarrow> ('io, 'o, 'c) control \<Rightarrow> ('io, 'o, 'c) control result" where
  "ctl_select_chainsetup_by_index n ct =
     (if 1 \<le> n \<and> n \<le> int (length (se_setups (ct_session ct)))
      then bind_result (deref (Some (se_setups (ct_session ct) ! nat (n - 1))) (ct_session ct)) (\<lambda>st. ctl_select_chainsetup (st_name st) ct)
      else Inr ct)"

definition ctl_add_chainsetup :: "('io, 'o, 'c, 's) control_env \<Rightarrow> string \<Rightarrow> ('io, 'o, 'c) control \<Rightarrow> ('io, 'o, 'c) control result" where
  "ctl_add_chainsetup E name ct =
     bind_result (session_add_chainsetup (ce_session E) name (ct_session ct)) (\<lambda>se.
       let ct1 = ct\<lparr>ct_session := se\<rparr>
       in if length (se_setups se) > length (se_setups (ct_session ct)) then ctl_select_chainsetup name ct1
          else Inr (set_error (msg_add_chainsetup name) ct1))"

definition ctl_remove_chainsetup :: "('io, 'o, 'c) control \<Rightarrow> ('io, 'o, 'c) control" where
  "ctl_remove_chainsetup ct = ct\<lparr>ct_session := session_remove_chainsetup (ct_session ct), ct_selected := None\<rparr>"

definition ctl_load_chainsetup :: "('io, 'o, 'c, 's) control_env \<Rightarrow> string \<Rightarrow> ('io, 'o, 'c) control \<Rightarrow> ('io, 'o, 'c) control result" where
  "ctl_load_chainsetup E filename ct =
     bind_result (session_load_chainsetup (ce_session E) filename (ct_session ct)) (\<lambda>(se, e).
       let ct1 = ct\<lparr>ct_session := se\<rparr>
       in Inr (case e of None \<Rightarrow> ct1\<lparr>ct_selected := se_selected se\<rparr> | Some msg \<Rightarrow> set_error (msg_exception msg) ct1))"

definition ctl_save_chainsetup :: "('io, 'o, 'c, 's) control_env \<Rightarrow> string \<Rightarrow> ('io, 'o, 'c) control \<Rightarrow> ('io, 'o, 'c) control result" where
  "ctl_save_chainsetup E filename ct =
     bind_result (if filename = '''' then session_save_chainsetup (ce_session E) (ct_session ct)
                  else session_save_chainsetup_as (ce_session E) filename (ct_session ct)) (\<lambda>(se, e).
       let ct1 = ct\<lparr>ct_session := se\<rparr>
       in Inr (case e of None \<Rightarrow> ct1 | Some msg \<Rightarrow> set_error (msg_exception msg) ct1))"

definition on_position ::
  "(chainsetup_position \<Rightarrow> chainsetup_position) \<Rightarrow> ('io, 'o, 'c) control \<Rightarrow> ('io, 'o, 'c) control result" where
  "on_position f = on_selected_cs (\<lambda>cs. Inr (cs\<lparr>cs_position := f (cs_position cs)\<rparr>))"

definition set_chainsetup_processing_length_in_seconds :: "rat \<Rightarrow> ('io, 'o, 'c) control \<Rightarrow> ('io, 'o, 'c) control result" where
  "set_chainsetup_processing_length_in_seconds v = on_position (set_max_length_in_seconds v)"

definition set_chainsetup_processing_length_in_samples :: "int \<Rightarrow> ('io, 'o, 'c) control \<Rightarrow> ('io, 'o, 'c) control result" where
  "set_chainsetup_processing_length_in_samples v = on_position (set_max_length_in_samples v)"

definition toggle_chainsetup_looping :: "('io, 'o, 'c) control \<Rightarrow> ('io, 'o, 'c) control result" where
  "toggle_chainsetup_looping = on_position (\<lambda>p. p\<lparr>cp_looping := \<not> cp_looping p\<rparr>)"

definition set_chainsetup_buffersize :: "int \<Rightarrow> ('io, 'o, 'c) control \<Rightarrow> ('io, 'o, 'c) control result" where
  "set_chainsetup_buffersize n = on_selected_cs (\<lambda>cs. Inr (cs\<lparr>cs_buffersize := nat n\<rparr>))"

text \<open>Options of the chainsetup; only the second interpreter's error counts.\<close>

definition set_chainsetup_parameter :: "('io, 'o, 'c, 's) control_env \<Rightarrow> string \<Rightarrow> ('io, 'o, 'c) control \<Rightarrow> ('io, 'o, 'c) control result" where
  "set_chainsetup_parameter E name ct =
     bind_result (sel_setup ct) (\<lambda>st.
       case ce_global_option E name st of
         (st1, None) \<Rightarrow> Inr (put_selected st1 ct)
       | (st1, Some _) \<Rightarrow> Inr (put_selected (fst (ce_object_option E name st1)) ct))"

text \<open>An object option; the error of the interpreter becomes the error of the command.\<close>

definition object_option :: "('io, 'o, 'c, 's) control_env \<Rightarrow> string \<Rightarrow> ('io, 'o, 'c) control \<Rightarrow> (bool \<times> ('io, 'o, 'c) control) result" where
  "object_option E opt ct =
     bind_result (sel_setup ct) (\<lambda>st.
       case ce_object_option E opt st of
         (st1, None) \<Rightarrow> Inr (True, put_selected st1 ct)
       | (st1, Some msg) \<Rightarrow> Inr (False, set_error msg (put_selected st1 ct)))"

definition set_chainsetup_sample_format :: "('io, 'o, 'c, 's) control_env \<Rightarrow> string \<Rightarrow> ('io, 'o, 'c) control \<Rightarrow> ('io, 'o, 'c) control result" where
  "set_chainsetup_sample_format E name ct = bind_result (object_option E (''-f:'' @ name) ct) (\<lambda>(_, ct1). Inr ct1)"

definition set_options :: "('io, 'o, 'c, 's) control_env \<Rightarrow> string list \<Rightarrow> ('io, 'o, 'c) control \<Rightarrow> ('io, 'o, 'c) control result" where
  "set_options E opts ct =
     bind_result (sel_setup ct) (\<lambda>st.
       case ce_options E opts st of
         (st1, None) \<Rightarrow> Inr (put_selected st1 ct)
       | (st1, Some msg) \<Rightarrow> Inr (set_error msg (put_selected st1 ct)))"

subsection \<open>Connecting\<close>

definition ctl_disconnect_chainsetup :: "('io, 'o, 'c, 's) control_env \<Rightarrow> ('io, 'o, 'c) control \<Rightarrow> ('io, 'o, 'c) control result" where
  "ctl_disconnect_chainsetup E ct =
     bind_result (if is_engine_ready_for_commands ct then stop_on_condition ct else Inr ct) (\<lambda>ct1.
     bind_result (if is_engine_created ct1 then close_engine E ct1 else Inr ct1) (\<lambda>ct2.
     bind_result (session_disconnect_chainsetup (ce_session E) (ct_session ct2)) (\<lambda>se.
       Inr (ct2\<lparr>ct_session := se\<rparr>))))"

definition ctl_connect_chainsetup :: "('io, 'o, 'c, 's) control_env \<Rightarrow> ('io, 'o, 'c) control \<Rightarrow> ('io, 'o, 'c) control result" where
  "ctl_connect_chainsetup E ct =
     bind_result (is_connected ct) (\<lambda>c.
     bind_result (if c then ctl_disconnect_chainsetup E ct else Inr ct) (\<lambda>ct1.
     bind_result (session_connect_chainsetup (ce_session E) (ct_session ct1)) (\<lambda>(se, e).
       let ct2 = ct1\<lparr>ct_session := se\<rparr>
       in bind_result (is_connected ct2) (\<lambda>c2. Inr (if c2 then ct2 else set_error (msg_connecting e) ct2)))))"

subsection \<open>Position\<close>

text \<open>
  A position command goes to the engine when the names of the selected and of the connected chainsetup
  agree and the engine is there; otherwise the selected chainsetup is moved at once.
\<close>

definition position_command ::
  "('io, 'o, 'c, 's) control_env \<Rightarrow> rat engine_command \<Rightarrow> (audio_position \<Rightarrow> int result) \<Rightarrow> ('io, 'o, 'c) control \<Rightarrow> ('io, 'o, 'c) control result" where
  "position_command E cmd target ct =
     bind_result (connected_chainsetup ct) (\<lambda>cn.
     bind_result (selected_chainsetup ct) (\<lambda>sn.
       if cn = sn \<and> is_engine_ready_for_commands ct then send (Sent cmd) ct
       else on_selected_cs (\<lambda>cs. bind_result (target (cp_pos (cs_position cs))) (\<lambda>pos.
              cs_seek_position_in_samples (ve_io (ce_session E)) pos cs)) ct))"

definition change_chainsetup_position :: "('io, 'o, 'c, 's) control_env \<Rightarrow> rat \<Rightarrow> ('io, 'o, 'c) control \<Rightarrow> ('io, 'o, 'c) control result" where
  "change_chainsetup_position E seconds =
     position_command E (if seconds < 0 then Ep_rewind (- seconds) else Ep_forward seconds)
       (\<lambda>p. bind_result (position_in_seconds p) (\<lambda>s. Inr (seconds_to_samples (of_int s + seconds) p)))"

definition set_chainsetup_position :: "('io, 'o, 'c, 's) control_env \<Rightarrow> rat \<Rightarrow> ('io, 'o, 'c) control \<Rightarrow> ('io, 'o, 'c) control result" where
  "set_chainsetup_position E seconds = position_command E (Ep_setpos seconds) (\<lambda>p. Inr (seconds_to_samples seconds p))"

definition set_chainsetup_position_samples :: "('io, 'o, 'c, 's) control_env \<Rightarrow> int \<Rightarrow> ('io, 'o, 'c) control \<Rightarrow> ('io, 'o, 'c) control result" where
  "set_chainsetup_position_samples E samples ct =
     bind_result (connected_chainsetup ct) (\<lambda>cn.
     bind_result (selected_chainsetup ct) (\<lambda>sn.
       if cn = sn \<and> is_engine_ready_for_commands ct
       then bind_result (sel_setup ct) (\<lambda>st.
            bind_result (seconds_exact samples (cp_pos (cs_position (st_cs st)))) (\<lambda>s. set_chainsetup_position E s ct))
       else on_selected_cs (cs_seek_position_in_samples (ve_io (ce_session E)) samples) ct))"


subsection \<open>Chains\<close>

definition add_chains :: "('io, 'o, 'c, 's) control_env \<Rightarrow> string list \<Rightarrow> ('io, 'o, 'c) control \<Rightarrow> ('io, 'o, 'c) control result" where
  "add_chains E names =
     on_selected_cs (\<lambda>cs. Inr ((add_new_chains (ve_ops (ce_session E)) (fst (ce_channels E)) (snd (ce_channels E)) names cs)\<lparr>cs_selected := names\<rparr>))"

definition ctl_remove_chains :: "('io, 'o, 'c) control \<Rightarrow> ('io, 'o, 'c) control result" where
  "ctl_remove_chains = on_selected_cs (\<lambda>cs. Inr (remove_chains cs))"

definition select_chains :: "string list \<Rightarrow> ('io, 'o, 'c) control \<Rightarrow> ('io, 'o, 'c) control result" where
  "select_chains names = on_selected_cs (\<lambda>cs. Inr (cs\<lparr>cs_selected := names\<rparr>))"

definition select_chains_by_index :: "int list \<Rightarrow> ('io, 'o, 'c) control \<Rightarrow> ('io, 'o, 'c) control result" where
  "select_chains_by_index ns =
     on_selected_cs (\<lambda>cs. Inr (cs\<lparr>cs_selected :=
       map (\<lambda>p. ch_name (cs_chains cs ! p)) (filter (\<lambda>p. int p + 1 \<in> set ns) [0..<length (cs_chains cs)])\<rparr>))"

definition deselect_chains :: "string list \<Rightarrow> ('io, 'o, 'c) control \<Rightarrow> ('io, 'o, 'c) control result" where
  "deselect_chains names = on_selected_cs (\<lambda>cs. Inr (cs\<lparr>cs_selected := filter (\<lambda>a. a \<notin> set names) (cs_selected cs)\<rparr>))"

definition ctl_select_all_chains :: "('io, 'o, 'c) control \<Rightarrow> ('io, 'o, 'c) control result" where
  "ctl_select_all_chains = on_selected_cs (\<lambda>cs. Inr (select_all_chains cs))"

definition selected_chains :: "('io, 'o, 'c) control \<Rightarrow> string list result" where
  "selected_chains ct = bind_result (sel_setup ct) (\<lambda>st. Inr (cs_selected (st_cs st)))"

definition ctl_chain_names :: "('io, 'o, 'c) control \<Rightarrow> string list result" where
  "ctl_chain_names ct = bind_result (sel_setup ct) (\<lambda>st. Inr (chain_names (st_cs st)))"

definition ctl_clear_chains :: "('io, 'o, 'c) control \<Rightarrow> ('io, 'o, 'c) control result" where
  "ctl_clear_chains = on_selected_cs (\<lambda>cs. Inr (clear_chains cs))"

definition ctl_rename_chain :: "string \<Rightarrow> ('io, 'o, 'c) control \<Rightarrow> ('io, 'o, 'c) control result" where
  "ctl_rename_chain name = on_selected_cs (\<lambda>cs. Inr (rename_chain name cs))"

text \<open>
  The chain that \<open>get_chain_priv\<close> and \<open>first_selected_chain\<close> look for: the first chain of the first
  selected name that some chain has.
\<close>

definition the_chain :: "('io, 'o, 'c, rat) chainsetup \<Rightarrow> ('o, 'c, rat) chain option" where
  "the_chain cs = (let p = first_selected_chain cs in if p < length (cs_chains cs) then Some (cs_chains cs ! p) else None)"

definition get_chain_priv :: "('io, 'o, 'c) control \<Rightarrow> ('o, 'c, rat) chain option result" where
  "get_chain_priv ct = bind_result (sel_setup ct) (\<lambda>st. Inr (the_chain (st_cs st)))"

text \<open>An operation on that chain; when there is none, nothing is done.\<close>

definition on_chain_of ::
  "(('o, 'c, rat) chain \<Rightarrow> ('o, 'c, rat) chain result) \<Rightarrow> ('io, 'o, 'c, rat) chainsetup \<Rightarrow> ('io, 'o, 'c, rat) chainsetup result" where
  "on_chain_of f cs =
     (let p = first_selected_chain cs in
      if p < length (cs_chains cs)
      then bind_result (f (cs_chains cs ! p)) (\<lambda>ch. Inr (cs\<lparr>cs_chains := (cs_chains cs)[p := ch]\<rparr>))
      else Inr cs)"

definition on_the_chain ::
  "(('o, 'c, rat) chain \<Rightarrow> ('o, 'c, rat) chain result) \<Rightarrow> ('io, 'o, 'c) control \<Rightarrow> ('io, 'o, 'c) control result" where
  "on_the_chain f = on_selected_cs (on_chain_of f)"

definition of_the_chain :: "'a \<Rightarrow> (('o, 'c, rat) chain \<Rightarrow> 'a result) \<Rightarrow> ('io, 'o, 'c) control \<Rightarrow> 'a result" where
  "of_the_chain d f ct = bind_result (get_chain_priv ct) (\<lambda>c. case c of None \<Rightarrow> Inr d | Some ch \<Rightarrow> f ch)"

subsection \<open>Edits\<close>

text \<open>\<open>execute_edit_on_connected\<close> and \<open>execute_edit_on_selected\<close> of \<open>libecasound/eca-control.cpp\<close>.\<close>

definition execute_sent :: "('io, 'o, 'c, 's) control_env \<Rightarrow> sent \<Rightarrow> ('io, 'o, 'c) named_setup \<Rightarrow> ('io, 'o, 'c) named_setup" where
  "execute_sent E c st =
     (case c of
        Sent (Ep_exec_edit ed reinit) \<Rightarrow>
          st\<lparr>st_cs := snd (execute_edit (ve_ops (ce_session E)) (ve_sources (ce_session E)) ed (st_cs st))\<rparr>
      | Sent _ \<Rightarrow> st
      | Sent_add n params \<Rightarrow>
          if n < 1 \<or> n > int (length (cs_chains (st_cs st))) then st
          else let opt = (if length params > 0 \<and> params ! 0 = CHR ''-'' then params else ''-'' @ params);
                   st1 = fst (ce_object_option E opt (st\<lparr>st_cs := (st_cs st)\<lparr>cs_locked := False\<rparr>\<rparr>))
               in st1\<lparr>st_cs := (st_cs st1)\<lparr>cs_locked := cs_locked (st_cs st)\<rparr>\<rparr>)"

definition execute_edit_on_connected :: "('io, 'o, 'c, 's) control_env \<Rightarrow> sent \<Rightarrow> ('io, 'o, 'c) control \<Rightarrow> ('io, 'o, 'c) control result" where
  "execute_edit_on_connected E c ct =
     (if is_engine_ready_for_commands ct then send c ct
      else bind_result (con_setup ct) (\<lambda>st.
             Inr (ct\<lparr>ct_session := put_setup (se_connected (ct_session ct)) (execute_sent E c st) (ct_session ct)\<rparr>)))"

definition execute_edit_on_selected :: "('io, 'o, 'c, 's) control_env \<Rightarrow> sent \<Rightarrow> ('io, 'o, 'c) control \<Rightarrow> ('io, 'o, 'c) control result" where
  "execute_edit_on_selected E c ct =
     (if ct_selected ct = None then Inr ct
      else bind_result (sel_setup ct) (\<lambda>st.
        if cs_enabled (st_cs st) \<and> is_engine_ready_for_commands ct then execute_edit_on_connected E c ct
        else Inr (put_selected (execute_sent E c st) ct)))"

text \<open>An edit of the first selected chain: \<open>f\<close> makes it from the number of the chain and the chain.\<close>

definition edit_the_chain ::
  "('io, 'o, 'c, 's) control_env \<Rightarrow> (int \<Rightarrow> ('o, 'c, rat) chain \<Rightarrow> sent) \<Rightarrow> ('io, 'o, 'c) control \<Rightarrow> ('io, 'o, 'c) control result" where
  "edit_the_chain E f ct =
     bind_result (sel_setup ct) (\<lambda>st.
       let p = first_selected_chain (st_cs st) in
       if p < length (cs_chains (st_cs st)) then execute_edit_on_selected E (f (int p + 1) (cs_chains (st_cs st) ! p)) ct
       else Inr ct)"

definition onofftoggle_to_int :: "string \<Rightarrow> int" where
  "onofftoggle_to_int s = (if s = ''on'' then 1 else if s = ''off'' then 0 else -1)"

definition set_chain_muting :: "('io, 'o, 'c, 's) control_env \<Rightarrow> string \<Rightarrow> ('io, 'o, 'c) control \<Rightarrow> ('io, 'o, 'c) control result" where
  "set_chain_muting E arg = edit_the_chain E (\<lambda>n _. Sent (Ep_exec_edit (Edit_c_muting n (onofftoggle_to_int arg)) False))"

definition set_chain_bypass :: "('io, 'o, 'c, 's) control_env \<Rightarrow> string \<Rightarrow> ('io, 'o, 'c) control \<Rightarrow> ('io, 'o, 'c) control result" where
  "set_chain_bypass E arg = edit_the_chain E (\<lambda>n _. Sent (Ep_exec_edit (Edit_c_bypass n (onofftoggle_to_int arg)) False))"

definition chain_is_muted :: "('io, 'o, 'c) control \<Rightarrow> bool result" where
  "chain_is_muted = of_the_chain False (\<lambda>ch. Inr (ch_muted ch))"

definition chain_is_bypassed :: "('io, 'o, 'c) control \<Rightarrow> bool result" where
  "chain_is_bypassed = of_the_chain False (\<lambda>ch. Inr (ch_bypass ch))"

subsection \<open>Chain operators\<close>

definition ctl_add_chain_operator :: "('io, 'o, 'c, 's) control_env \<Rightarrow> string \<Rightarrow> ('io, 'o, 'c) control \<Rightarrow> ('io, 'o, 'c) control result" where
  "ctl_add_chain_operator E params = edit_the_chain E (\<lambda>n _. Sent_add n params)"

definition ctl_remove_chain_operator :: "('io, 'o, 'c) control \<Rightarrow> ('io, 'o, 'c) control result" where
  "ctl_remove_chain_operator = on_the_chain (remove_chain_operator (-1))"

definition ctl_select_chain_operator :: "int \<Rightarrow> ('io, 'o, 'c) control \<Rightarrow> ('io, 'o, 'c) control result" where
  "ctl_select_chain_operator i =
     on_the_chain (\<lambda>ch. if i < int (length (ch_ops ch)) + 1 then select_chain_operator i ch else Inr ch)"

definition ctl_select_chain_operator_parameter :: "int \<Rightarrow> ('io, 'o, 'c) control \<Rightarrow> ('io, 'o, 'c) control result" where
  "ctl_select_chain_operator_parameter i = on_the_chain (\<lambda>ch. Inr (select_chain_operator_parameter i ch))"

definition set_chain_operator_parameter :: "('io, 'o, 'c, 's) control_env \<Rightarrow> rat \<Rightarrow> ('io, 'o, 'c) control \<Rightarrow> ('io, 'o, 'c) control result" where
  "set_chain_operator_parameter E v =
     edit_the_chain E (\<lambda>n ch. Sent (Ep_exec_edit (Edit_cop_set_param n (ch_sel_op ch) (ch_sel_op_param ch) v) False))"

definition bypass_chain_operator :: "('io, 'o, 'c, 's) control_env \<Rightarrow> string \<Rightarrow> ('io, 'o, 'c) control \<Rightarrow> ('io, 'o, 'c) control result" where
  "bypass_chain_operator E arg =
     edit_the_chain E (\<lambda>n ch. Sent (Ep_exec_edit (Edit_cop_bypass n (ch_sel_op ch) (onofftoggle_to_int arg)) False))"

definition get_chain_operator_parameter :: "('io, 'o, 'c, 's) control_env \<Rightarrow> ('io, 'o, 'c) control \<Rightarrow> rat result" where
  "get_chain_operator_parameter E =
     of_the_chain 0 (\<lambda>ch. Inr (if ch_sel_op ch > 0 \<and> ch_sel_op_param ch > 0 then chain_get_parameter (ve_ops (ce_session E)) ch else 0))"

definition selected_chain_operator :: "('io, 'o, 'c) control \<Rightarrow> int result" where
  "selected_chain_operator = of_the_chain (-1) (\<lambda>ch. Inr (ch_sel_op ch))"

definition selected_chain_operator_parameter :: "('io, 'o, 'c) control \<Rightarrow> int result" where
  "selected_chain_operator_parameter = of_the_chain 0 (\<lambda>ch. Inr (ch_sel_op_param ch))"

definition chain_operator_is_bypassed :: "('io, 'o, 'c) control \<Rightarrow> bool result" where
  "chain_operator_is_bypassed = of_the_chain False (\<lambda>ch. Inr (is_operator_bypassed (ch_sel_op ch) ch))"

text \<open>
  Listing the operators selects each of them in turn and then the one that was selected before. A chain
  has to be put back, so the lists come with the chain they leave.
\<close>

definition chain_operator_names_of :: "('o \<Rightarrow> string) \<Rightarrow> ('o, 'c, rat) chain \<Rightarrow> (string list \<times> ('o, 'c, rat) chain) result" where
  "chain_operator_names_of name ch =
     bind_result (fold_result (\<lambda>n (names, ch).
         bind_result (select_chain_operator (int n + 1) ch) (\<lambda>ch1.
         bind_result (chain_operator_name name ch1) (\<lambda>s. Inr (names @ [s], ch1)))) [0..<length (ch_ops ch)] ([], ch))
       (\<lambda>(names, ch1). bind_result (select_chain_operator (ch_sel_op ch) ch1) (\<lambda>ch2. Inr (names, ch2)))"

definition chain_operator_parameter_names_of ::
  "('o, rat, 's) op_class \<Rightarrow> (int \<Rightarrow> 'o \<Rightarrow> string) \<Rightarrow> ('o, 'c, rat) chain \<Rightarrow> (string list \<times> ('o, 'c, rat) chain) result" where
  "chain_operator_parameter_names_of cls name ch =
     (if ch_sel_op ch > 0
      then bind_result (number_of_chain_operator_parameters cls ch) (\<lambda>k.
           bind_result (fold_result (\<lambda>n (names, ch).
             let ch1 = select_chain_operator_parameter (int n + 1) ch in
             bind_result (selected_op ch1) (\<lambda>c. Inr (names @ [name (ch_sel_op_param ch1) (cop_obj c)], ch1))) [0..<nat k] ([], ch))
           (\<lambda>(names, ch1). Inr (names, select_chain_operator_parameter (ch_sel_op_param ch) ch1)))
      else Inr ([], ch))"

text \<open>A list with the chainsetup it leaves.\<close>

definition list_of_chain ::
  "(('o, 'c, rat) chain \<Rightarrow> (string list \<times> ('o, 'c, rat) chain) result) \<Rightarrow> ('io, 'o, 'c) control \<Rightarrow> ('io, 'o, 'c) control result" where
  "list_of_chain f ct =
     bind_result (sel_setup ct) (\<lambda>st.
       let cs = st_cs st; p = first_selected_chain cs in
       if p < length (cs_chains cs)
       then bind_result (f (cs_chains cs ! p)) (\<lambda>(names, ch).
              Inr (set_ret (Ret_strings names) (put_selected (st\<lparr>st_cs := cs\<lparr>cs_chains := (cs_chains cs)[p := ch]\<rparr>\<rparr>) ct)))
       else Inr (set_ret (Ret_strings []) ct))"

definition chain_operator_names :: "('io, 'o, 'c, 's) control_env \<Rightarrow> ('io, 'o, 'c) control \<Rightarrow> ('io, 'o, 'c) control result" where
  "chain_operator_names E = list_of_chain (chain_operator_names_of (ce_op_name E))"

definition chain_operator_parameter_names :: "('io, 'o, 'c, 's) control_env \<Rightarrow> ('io, 'o, 'c) control \<Rightarrow> ('io, 'o, 'c) control result" where
  "chain_operator_parameter_names E = list_of_chain (chain_operator_parameter_names_of (ve_ops (ce_session E)) (ce_op_param_name E))"

subsection \<open>Controllers\<close>

text \<open>The controller behind the pointer of the chain.\<close>

definition selected_ctrl :: "('o, 'c, rat) chain \<Rightarrow> ('c, rat) generic_controller result" where
  "selected_ctrl ch =
     (case ch_sel_ctrl_ptr ch of
        None \<Rightarrow> Inl Undefined_behaviour
      | Some a \<Rightarrow> (case find_addr gc_addr a (ch_ctrls ch) of None \<Rightarrow> Inl Undefined_behaviour | Some n \<Rightarrow> Inr (ch_ctrls ch ! n)))"

definition ctl_add_controller :: "('io, 'o, 'c, 's) control_env \<Rightarrow> string \<Rightarrow> ('io, 'o, 'c) control \<Rightarrow> ('io, 'o, 'c) control result" where
  "ctl_add_controller E params = edit_the_chain E (\<lambda>n _. Sent_add n params)"

definition ctl_select_controller :: "int \<Rightarrow> ('io, 'o, 'c) control \<Rightarrow> ('io, 'o, 'c) control result" where
  "ctl_select_controller i =
     on_the_chain (\<lambda>ch. Inr (if i < int (length (ch_ctrls ch)) + 1 then select_controller i ch else ch))"

definition ctl_remove_controller :: "('io, 'o, 'c) control \<Rightarrow> ('io, 'o, 'c) control result" where
  "ctl_remove_controller = on_the_chain (\<lambda>ch. Inr (remove_controller ch))"

definition controller_names_of :: "('c \<Rightarrow> string) \<Rightarrow> ('o, 'c, rat) chain \<Rightarrow> (string list \<times> ('o, 'c, rat) chain) result" where
  "controller_names_of name ch =
     bind_result (fold_result (\<lambda>n (names, ch).
         let ch1 = select_controller (int n + 1) ch in
         bind_result (selected_ctrl ch1) (\<lambda>q. Inr (names @ [name (gc_source q)], ch1))) [0..<length (ch_ctrls ch)] ([], ch))
       (\<lambda>(names, ch1). Inr (names, select_controller (ch_sel_ctrl ch) ch1))"

definition controller_names :: "('io, 'o, 'c, 's) control_env \<Rightarrow> ('io, 'o, 'c) control \<Rightarrow> ('io, 'o, 'c) control result" where
  "controller_names E = list_of_chain (controller_names_of (ce_ctrl_name E))"

definition controller_parameter_names_of ::
  "('c \<Rightarrow> int) \<Rightarrow> (int \<Rightarrow> 'c \<Rightarrow> string) \<Rightarrow> ('o, 'c, rat) chain \<Rightarrow> (string list \<times> ('o, 'c, rat) chain) result" where
  "controller_parameter_names_of params name ch =
     bind_result (selected_ctrl ch) (\<lambda>q.
     bind_result (fold_result (\<lambda>n (names, ch).
         let ch1 = select_controller_parameter (int n + 1) ch in
         bind_result (selected_ctrl ch1) (\<lambda>q. Inr (names @ [name (ch_sel_ctrl_param ch1) (gc_source q)], ch1)))
         [0..<nat (params (gc_source q))] ([], ch))
       (\<lambda>(names, ch1). Inr (names, select_controller_parameter (ch_sel_ctrl_param ch) ch1)))"

definition controller_parameter_names :: "('io, 'o, 'c, 's) control_env \<Rightarrow> ('io, 'o, 'c) control \<Rightarrow> ('io, 'o, 'c) control result" where
  "controller_parameter_names E = list_of_chain (controller_parameter_names_of (ce_ctrl_params E) (ce_ctrl_param_name E))"

definition ctl_select_controller_parameter :: "int \<Rightarrow> ('io, 'o, 'c) control \<Rightarrow> ('io, 'o, 'c) control result" where
  "ctl_select_controller_parameter i = on_the_chain (\<lambda>ch. Inr (select_controller_parameter i ch))"

definition ctl_set_controller_parameter :: "('io, 'o, 'c, 's) control_env \<Rightarrow> rat \<Rightarrow> ('io, 'o, 'c) control \<Rightarrow> ('io, 'o, 'c) control result" where
  "ctl_set_controller_parameter E v =
     edit_the_chain E (\<lambda>n ch. Sent (Ep_exec_edit (Edit_ctrl_set_param n (ch_sel_ctrl ch) (ch_sel_ctrl_param ch) v) False))"

definition get_controller_parameter :: "('io, 'o, 'c, 's) control_env \<Rightarrow> ('io, 'o, 'c) control \<Rightarrow> rat result" where
  "get_controller_parameter E =
     of_the_chain 0 (\<lambda>ch. if ch_sel_ctrl ch > 0 \<and> ch_sel_ctrl_param ch > 0
       then bind_result (selected_ctrl ch) (\<lambda>q. Inr (ctrl_get_parameter (ve_sources (ce_session E)) (ch_sel_ctrl_param ch) q))
       else Inr 0)"

definition ctl_selected_controller :: "('io, 'o, 'c) control \<Rightarrow> int result" where
  "ctl_selected_controller = of_the_chain 0 (\<lambda>ch. Inr (ch_sel_ctrl ch))"

definition selected_controller_parameter :: "('io, 'o, 'c) control \<Rightarrow> int result" where
  "selected_controller_parameter = of_the_chain 0 (\<lambda>ch. Inr (ch_sel_ctrl_param ch))"

definition selected_controller_target :: "('io, 'o, 'c) control \<Rightarrow> int result" where
  "selected_controller_target =
     of_the_chain 0 (\<lambda>ch. bind_result (selected_ctrl ch) (\<lambda>q.
       Inr (case gc_target q of None \<Rightarrow> 0
          | Some t \<Rightarrow> (case find_addr cop_addr t (ch_ops ch) of None \<Rightarrow> 0 | Some n \<Rightarrow> int n + 1))))"


subsection \<open>Audio objects\<close>

text \<open>A pointer is valid when it is one of the inputs or outputs of the selected chainsetup.\<close>

definition ok_audio_object :: "aio_ptr \<Rightarrow> ('io, 'o, 'c) control \<Rightarrow> bool result" where
  "ok_audio_object ptr ct =
     bind_result (sel_setup ct) (\<lambda>st. Inr (case ptr of None \<Rightarrow> False
       | Some (s, a) \<Rightarrow> ct_selected ct = Some s \<and> a \<in> set (cs_inputs (st_cs st)) \<union> set (cs_outputs (st_cs st))))"

text \<open>The pointer to the selected input or output of the control interface.\<close>

definition aio_of :: "audio_dir \<Rightarrow> ('io, 'o, 'c) control \<Rightarrow> aio_ptr" where
  "aio_of d ct = (case d of Dir_input \<Rightarrow> ct_input ct | Dir_output \<Rightarrow> ct_output ct)"

definition set_aio :: "audio_dir \<Rightarrow> aio_ptr \<Rightarrow> ('io, 'o, 'c) control \<Rightarrow> ('io, 'o, 'c) control" where
  "set_aio d ptr ct = (case d of Dir_input \<Rightarrow> ct\<lparr>ct_input := ptr\<rparr> | Dir_output \<Rightarrow> ct\<lparr>ct_output := ptr\<rparr>)"

definition objects_of :: "audio_dir \<Rightarrow> ('io, 'o, 'c, rat) chainsetup \<Rightarrow> nat list" where
  "objects_of d cs = (case d of Dir_input \<Rightarrow> cs_inputs cs | Dir_output \<Rightarrow> cs_outputs cs)"

text \<open>\<open>get_audio_input\<close> and \<open>get_audio_output\<close> forget a pointer that is not valid any more.\<close>

definition get_audio_object :: "audio_dir \<Rightarrow> ('io, 'o, 'c) control \<Rightarrow> (aio_ptr \<times> ('io, 'o, 'c) control) result" where
  "get_audio_object d ct =
     bind_result (ok_audio_object (aio_of d ct) ct) (\<lambda>b.
       let ct1 = (if b then ct else set_aio d None ct) in Inr (aio_of d ct1, ct1))"

definition audio_object_as_selected :: "audio_dir \<Rightarrow> ('io, 'o, 'c) control \<Rightarrow> ('io, 'o, 'c) control result" where
  "audio_object_as_selected d ct = bind_result (get_audio_object d ct) (\<lambda>(ptr, ct1). Inr (ct1\<lparr>ct_object := ptr\<rparr>))"

text \<open>The object at a pointer.\<close>

definition deref_aio :: "aio_ptr \<Rightarrow> ('io, 'o, 'c) control \<Rightarrow> 'io result" where
  "deref_aio ptr ct =
     (case ptr of None \<Rightarrow> Inl Undefined_behaviour
      | Some (s, a) \<Rightarrow> bind_result (deref (Some s) (ct_session ct)) (\<lambda>st. get_obj a (st_cs st)))"

definition put_aio :: "aio_ptr \<Rightarrow> 'io \<Rightarrow> ('io, 'o, 'c) control \<Rightarrow> ('io, 'o, 'c) control result" where
  "put_aio ptr x ct =
     (case ptr of None \<Rightarrow> Inl Undefined_behaviour
      | Some (s, a) \<Rightarrow> bind_result (deref (Some s) (ct_session ct)) (\<lambda>st.
          Inr (ct\<lparr>ct_session := put_setup (Some s) (st\<lparr>st_cs := put_obj a x (st_cs st)\<rparr>) (ct_session ct)\<rparr>)))"

text \<open>
  \<open>priv_select_audio_object\<close>: the first object whose label is the name, or the name without its quotes;
  a name that does not begin with a quote leaves the stripped name empty.
\<close>

definition label_matches :: "string \<Rightarrow> string \<Rightarrow> bool" where
  "label_matches name label \<longleftrightarrow>
     (let stripped = (if length name > 0 \<and> name ! 0 = CHR 34 then kvu_string_strip_outer_quotes name (CHR 34) else '''')
      in label = name \<or> label = stripped)"

fun first_labelled :: "'io open_class \<Rightarrow> string \<Rightarrow> nat list \<Rightarrow> ('io, 'o, 'c, rat) chainsetup \<Rightarrow> nat option result" where
  "first_labelled K name [] cs = Inr None"
| "first_labelled K name (a # as) cs =
     bind_result (get_obj a cs) (\<lambda>x. if label_matches name (oc_label K x) then Inr (Some a) else first_labelled K name as cs)"

definition select_audio_object :: "('io, 'o, 'c, 's) control_env \<Rightarrow> audio_dir \<Rightarrow> string \<Rightarrow> ('io, 'o, 'c) control \<Rightarrow> ('io, 'o, 'c) control result" where
  "select_audio_object E d name ct =
     bind_result (sel_setup ct) (\<lambda>st.
     bind_result (first_labelled (ve_open (ce_session E)) name (objects_of d (st_cs st)) (st_cs st)) (\<lambda>r.
       Inr (set_aio d (map_option (Pair (the (ct_selected ct))) r) ct)))"

text \<open>An index below 1 reads before the vector.\<close>

definition select_audio_object_by_index :: "audio_dir \<Rightarrow> int \<Rightarrow> ('io, 'o, 'c) control \<Rightarrow> ('io, 'o, 'c) control result" where
  "select_audio_object_by_index d n ct =
     bind_result (sel_setup ct) (\<lambda>st.
       if n \<le> int (length (objects_of d (st_cs st)))
       then bind_result (at_index (objects_of d (st_cs st)) (n - 1)) (\<lambda>a. Inr (set_aio d (Some (the (ct_selected ct), a)) ct))
       else Inr (set_aio d None ct))"

definition add_audio_object :: "('io, 'o, 'c, 's) control_env \<Rightarrow> audio_dir \<Rightarrow> string \<Rightarrow> ('io, 'o, 'c) control \<Rightarrow> ('io, 'o, 'c) control result" where
  "add_audio_object E d filename ct =
     bind_result (object_option E ((case d of Dir_input \<Rightarrow> ''-i:'' | Dir_output \<Rightarrow> ''-o:'') @ filename) (set_aio d None ct)) (\<lambda>(ok, ct1).
       if ok then bind_result (kvu_get_argument_number 1 filename) (\<lambda>name. select_audio_object E d name ct1) else Inr ct1)"

definition add_default_output :: "('io, 'o, 'c, 's) control_env \<Rightarrow> ('io, 'o, 'c) control \<Rightarrow> ('io, 'o, 'c) control result" where
  "add_default_output E = add_audio_object E Dir_output (ce_default_output E)"

definition audio_object_names :: "('io, 'o, 'c, 's) control_env \<Rightarrow> audio_dir \<Rightarrow> ('io, 'o, 'c) control \<Rightarrow> string list result" where
  "audio_object_names E d ct =
     bind_result (sel_setup ct) (\<lambda>st.
       fold_result (\<lambda>a names. bind_result (get_obj a (st_cs st)) (\<lambda>x. Inr (names @ [oc_label (ve_open (ce_session E)) x])))
         (objects_of d (st_cs st)) [])"

text \<open>
  The address of the object in the selected chainsetup; a pointer into another chainsetup is one that
  the vectors of this one do not have.
\<close>

definition local_address :: "aio_ptr \<Rightarrow> ('io, 'o, 'c) control \<Rightarrow> ('io, 'o, 'c, rat) chainsetup \<Rightarrow> nat" where
  "local_address ptr ct cs =
     (case ptr of
        Some (s, a) \<Rightarrow> if ct_selected ct = Some s then a
          else Suc (fold max (cs_inputs cs @ cs_inputs_direct cs @ cs_outputs cs @ cs_outputs_direct cs) 0)
      | None \<Rightarrow> Suc (fold max (cs_inputs cs @ cs_inputs_direct cs @ cs_outputs cs @ cs_outputs_direct cs) 0))"

text \<open>The label of the object is read for the log, so that its pointer has to be valid.\<close>

definition remove_audio_object :: "('io, 'o, 'c, 's) control_env \<Rightarrow> audio_dir \<Rightarrow> ('io, 'o, 'c) control \<Rightarrow> ('io, 'o, 'c) control result" where
  "remove_audio_object E d ct =
     bind_result (deref_aio (aio_of d ct) ct) (\<lambda>_.
     bind_result (on_selected_cs (\<lambda>cs. Inr (remove_audio_object_impl (ve_io (ce_session E)) (local_address (aio_of d ct) ct cs) d cs)) ct) (\<lambda>ct1.
       Inr (set_aio d None ct1)))"

definition attach_audio_object :: "audio_dir \<Rightarrow> ('io, 'o, 'c) control \<Rightarrow> ('io, 'o, 'c) control result" where
  "attach_audio_object d ct =
     bind_result (deref_aio (aio_of d ct) ct) (\<lambda>_.
       on_selected_cs (\<lambda>cs. Inr (case d of
           Dir_input \<Rightarrow> attach_input_to_selected_chains (local_address (aio_of d ct) ct cs) cs
         | Dir_output \<Rightarrow> attach_output_to_selected_chains (local_address (aio_of d ct) ct cs) cs)) ct)"

text \<open>Position and length of an audio object, as far as its class gives them.\<close>

definition aio_position :: "('io, 'o, 'c, 's) control_env \<Rightarrow> 'io \<Rightarrow> audio_position" where
  "aio_position E x =
     \<lparr>ap_position = oc_position (ve_open (ce_session E)) x, ap_length = io_length (ve_io (ce_session E)) x,
      ap_length_set = True, ap_srate = oc_srate (ve_open (ce_session E)) x\<rparr>"

definition seek_audio_object :: "('io, 'o, 'c, 's) control_env \<Rightarrow> (audio_position \<Rightarrow> int result) \<Rightarrow> ('io, 'o, 'c) control \<Rightarrow> ('io, 'o, 'c) control result" where
  "seek_audio_object E target ct =
     bind_result (deref_aio (ct_object ct) ct) (\<lambda>x.
     bind_result (target (aio_position E x)) (\<lambda>pos.
       put_aio (ct_object ct) (io_seek (ve_io (ce_session E)) pos x) ct))"

definition forward_audio_object :: "('io, 'o, 'c, 's) control_env \<Rightarrow> rat \<Rightarrow> ('io, 'o, 'c) control \<Rightarrow> ('io, 'o, 'c) control result" where
  "forward_audio_object E s =
     seek_audio_object E (\<lambda>p. bind_result (position_in_seconds_exact p) (\<lambda>cur. Inr (seconds_to_samples (cur + s) p)))"

definition rewind_audio_object :: "('io, 'o, 'c, 's) control_env \<Rightarrow> rat \<Rightarrow> ('io, 'o, 'c) control \<Rightarrow> ('io, 'o, 'c) control result" where
  "rewind_audio_object E s =
     seek_audio_object E (\<lambda>p. bind_result (position_in_seconds_exact p) (\<lambda>cur. Inr (seconds_to_samples (cur - s) p)))"

definition set_audio_object_position :: "('io, 'o, 'c, 's) control_env \<Rightarrow> rat \<Rightarrow> ('io, 'o, 'c) control \<Rightarrow> ('io, 'o, 'c) control result" where
  "set_audio_object_position E s = seek_audio_object E (\<lambda>p. Inr (seconds_to_samples s p))"

definition set_audio_object_position_samples :: "('io, 'o, 'c, 's) control_env \<Rightarrow> int \<Rightarrow> ('io, 'o, 'c) control \<Rightarrow> ('io, 'o, 'c) control result" where
  "set_audio_object_position_samples E n = seek_audio_object E (\<lambda>p. Inr n)"

text \<open>
  \<open>aio_status\<close> compares each input and output with those that the chains are connected to; a chain that
  is not connected makes it read \<open>inputs[-1]\<close>. The text is not modelled.
\<close>

definition aio_status :: "('io, 'o, 'c, 's) control_env \<Rightarrow> ('io, 'o, 'c) control \<Rightarrow> string result" where
  "aio_status E ct =
     bind_result (sel_setup ct) (\<lambda>st.
     bind_result (fold_result (\<lambda>a _. bind_result (number_of_attached_chains_to_input a (st_cs st)) (\<lambda>_. Inr ())) (cs_inputs (st_cs st)) ()) (\<lambda>_.
     bind_result (fold_result (\<lambda>a _. bind_result (number_of_attached_chains_to_output a (st_cs st)) (\<lambda>_. Inr ())) (cs_outputs (st_cs st)) ()) (\<lambda>_.
       Inr (ce_text E ''aio-status'' ct))))"

end
