(* ===== verification/Control_Actions.thy ===== *)
theory Control_Actions
  imports Control_Objects
begin

text \<open>
  The actions of the interactive mode: the tables of \<open>libecasound/eca-iamode-parser.cpp\<close> (what an action
  requires, and which command names it) in the order of the source. Actions on inputs and on outputs
  are one type, with the direction. Left out are \<open>run\<close>, \<open>cs-edit\<close> and the wave editor; the commands of JACK
  are among those that are known by their name only.
\<close>

subsection \<open>Actions\<close>

text \<open>\<open>Gen_info\<close> are the commands that read nothing of the state of the control interface.\<close>

datatype general_action =
    Gen_exit | Gen_start | Gen_stop | Gen_stop_sync | Gen_debug | Gen_resource_file
  | Gen_engine_launch | Gen_engine_halt | Gen_engine_status | Gen_set_precision | Gen_info string | Gen_unknown

datatype cs_action =
    Cs_add | Cs_remove | Cs_list | Cs_select | Cs_selected | Cs_index_select | Cs_load | Cs_save | Cs_save_as
  | Cs_is_valid | Cs_connect | Cs_connected | Cs_disconnect | Cs_set_param | Cs_set_audio_format | Cs_status
  | Cs_rewind | Cs_forward | Cs_set_position | Cs_set_position_samples | Cs_get_position | Cs_get_position_samples
  | Cs_get_length | Cs_get_length_samples | Cs_set_length | Cs_set_length_samples | Cs_toggle_loop | Cs_option

datatype c_action =
    C_add | C_remove | C_list | C_select | C_selected | C_index_select | C_deselect | C_select_add | C_select_all
  | C_clear | C_rename | C_muting | C_bypass | C_status | C_is_bypassed | C_is_muted

datatype aio_action =
    Aio_add | Aio_add_default | Aio_describe | Aio_remove | Aio_list | Aio_select | Aio_selected | Aio_index_select
  | Aio_attach | Aio_status | Aio_forward | Aio_rewind | Aio_set_position | Aio_set_position_samples
  | Aio_get_position | Aio_get_position_samples | Aio_get_length | Aio_get_length_samples | Aio_get_format

datatype cop_action =
    Cop_add | Cop_bypass | Cop_describe | Cop_remove | Cop_list | Cop_is_bypassed | Cop_select | Cop_selected
  | Cop_set | Cop_get | Cop_status | Copp_list | Copp_select | Copp_selected | Copp_set | Copp_get

datatype ctrl_action =
    Ctrl_add | Ctrl_describe | Ctrl_remove | Ctrl_list | Ctrl_select | Ctrl_selected | Ctrl_status | Ctrl_get_target
  | Ctrlp_list | Ctrlp_select | Ctrlp_selected | Ctrlp_get | Ctrlp_set

datatype dump_action =
    Dump_target | Dump_status | Dump_position | Dump_length | Dump_cs_status | Dump_c_selected
  | Dump_aio_selected audio_dir | Dump_aio_position audio_dir | Dump_aio_length audio_dir | Dump_aio_open_state audio_dir
  | Dump_cop_value

datatype action =
    General general_action | Cs cs_action | C c_action | Aio audio_dir aio_action | Cop cop_action | Ctrl ctrl_action
  | Dump dump_action

subsection \<open>What an action requires\<close>

fun action_requires_params :: "action \<Rightarrow> bool" where
  "action_requires_params (General g) = (g = Gen_debug \<or> g = Gen_set_precision)"
| "action_requires_params (Cs a) =
     (a \<in> {Cs_add, Cs_select, Cs_index_select, Cs_load, Cs_save_as, Cs_set_param, Cs_set_audio_format, Cs_set_length,
            Cs_set_length_samples, Cs_rewind, Cs_forward, Cs_set_position, Cs_option})"
| "action_requires_params (C a) = (a \<in> {C_add, C_select, C_index_select, C_deselect, C_select_add, C_rename})"
| "action_requires_params (Aio d a) =
     (a \<in> {Aio_add, Aio_select, Aio_index_select, Aio_forward, Aio_rewind, Aio_set_position, Aio_set_position_samples})"
| "action_requires_params (Cop a) = (a \<in> {Cop_add, Cop_select, Cop_set, Cop_get, Copp_select, Copp_set})"
| "action_requires_params (Ctrl a) = (a \<in> {Ctrl_add, Ctrl_select})"
| "action_requires_params (Dump a) = (a \<in> {Dump_target, Dump_cop_value})"

fun action_requires_connected :: "action \<Rightarrow> bool" where
  "action_requires_connected (General g) = (g \<in> {Gen_engine_launch, Gen_engine_halt, Gen_start})"
| "action_requires_connected (Cs a) = (a \<in> {Cs_disconnect, Cs_set_position, Cs_set_position_samples})"
| "action_requires_connected _ = False"

fun action_requires_selected :: "action \<Rightarrow> bool" where
  "action_requires_selected (Cs a) =
     (a \<in> {Cs_remove, Cs_is_valid, Cs_save, Cs_save_as, Cs_connect, Cs_set_param, Cs_rewind, Cs_forward, Cs_set_position,
            Cs_set_position_samples, Cs_get_position, Cs_get_position_samples, Cs_get_length, Cs_get_length_samples,
            Cs_set_length, Cs_set_length_samples, Cs_toggle_loop, Cs_option})"
| "action_requires_selected (C a) =
     (a \<in> {C_remove, C_clear, C_rename, C_muting, C_bypass, C_status, C_list, C_select, C_selected})"
| "action_requires_selected (Aio d a) = (a \<notin> {Aio_describe, Aio_list})"
| "action_requires_selected (Cop a) =
     (a \<in> {Cop_add, Cop_bypass, Cop_is_bypassed, Cop_list, Cop_select, Cop_selected, Cop_set, Cop_get, Cop_status,
            Copp_list, Copp_select, Copp_selected, Copp_set})"
| "action_requires_selected (Ctrl a) = (a \<in> {Ctrl_add, Ctrl_select, Ctrl_selected, Ctrl_status})"
| "action_requires_selected _ = False"

fun action_requires_selected_not_connected :: "action \<Rightarrow> bool" where
  "action_requires_selected_not_connected (Cs a) =
     (a \<in> {Cs_remove, Cs_set_length, Cs_set_length_samples, Cs_toggle_loop, Cs_set_param, Cs_option})"
| "action_requires_selected_not_connected (C a) = (a \<in> {C_add, C_remove, C_rename, C_clear})"
| "action_requires_selected_not_connected (Cop a) = (a = Cop_remove)"
| "action_requires_selected_not_connected (Ctrl a) = (a = Ctrl_remove)"
| "action_requires_selected_not_connected (Aio d a) =
     (a \<in> {Aio_add, Aio_add_default, Aio_remove, Aio_attach, Aio_forward, Aio_rewind, Aio_set_position, Aio_set_position_samples})"
| "action_requires_selected_not_connected _ = False"

text \<open>\<open>action_requires_selected_audio_input\<close> and \<open>action_requires_selected_audio_output\<close>.\<close>

fun action_requires_selected_aio :: "audio_dir \<Rightarrow> action \<Rightarrow> bool" where
  "action_requires_selected_aio d (Aio d' a) =
     (d' = d \<and> a \<in> {Aio_describe, Aio_remove, Aio_attach, Aio_forward, Aio_rewind, Aio_set_position, Aio_set_position_samples,
                     Aio_get_position, Aio_get_position_samples, Aio_selected, Aio_get_length, Aio_get_length_samples,
                     Aio_get_format})"
| "action_requires_selected_aio d _ = False"

subsection \<open>Command names\<close>

definition commands_general :: "(string \<times> action) list" where
  "commands_general = map (map_prod id General)
    [(''quit'', Gen_exit), (''q'', Gen_exit), (''start'', Gen_start), (''t'', Gen_start), (''stop'', Gen_stop), (''s'', Gen_stop),
     (''stop-sync'', Gen_stop_sync), (''debug'', Gen_debug), (''resource-file'', Gen_resource_file),
     (''engine-launch'', Gen_engine_launch), (''engine-halt'', Gen_engine_halt), (''engine-status'', Gen_engine_status),
     (''int-set-float-to-string-precision'', Gen_set_precision)]"

definition info_commands :: "string list" where
  "info_commands =
     [''help'', ''?'', ''h'', ''int-cmd-list'', ''int-log-history'', ''int-output-mode-wellformed'',
      ''int-set-log-history-length'', ''int-version-string'', ''int-version-lib-current'', ''int-version-lib-revision'',
      ''int-version-lib-age'', ''preset-register'', ''ladspa-register'', ''lv2-register'', ''map-cop-list'', ''map-preset-list'',
      ''map-ladspa-list'', ''map-ladspa-id-list'', ''map-lv2-list'', ''map-ctrl-list'', ''aio-register'', ''cop-register'',
      ''ctrl-register'', ''jack-connect'', ''jack-disconnect'', ''jack-list-connections'']"

definition commands_cs :: "(string \<times> action) list" where
  "commands_cs = map (map_prod id Cs)
    [(''cs-add'', Cs_add), (''cs-remove'', Cs_remove), (''cs-list'', Cs_list), (''cs-select'', Cs_select),
     (''cs-selected'', Cs_selected), (''cs-index-select'', Cs_index_select), (''cs-iselect'', Cs_index_select),
     (''cs-load'', Cs_load), (''cs-save'', Cs_save), (''cs-save-as'', Cs_save_as), (''cs-is-valid'', Cs_is_valid),
     (''cs-connect'', Cs_connect), (''cs-connected'', Cs_connected), (''cs-disconnect'', Cs_disconnect),
     (''cs-set-param'', Cs_set_param), (''cs-set-audio-format'', Cs_set_audio_format), (''cs-status'', Cs_status),
     (''status'', Cs_status), (''st'', Cs_status), (''cs-rewind'', Cs_rewind), (''rewind'', Cs_rewind), (''rw'', Cs_rewind),
     (''cs-forward'', Cs_forward), (''forward'', Cs_forward), (''fw'', Cs_forward), (''cs-setpos'', Cs_set_position),
     (''cs-set-position'', Cs_set_position), (''cs-set-position-samples'', Cs_set_position_samples),
     (''setpos'', Cs_set_position), (''set-position'', Cs_set_position), (''cs-getpos'', Cs_get_position),
     (''cs-get-position'', Cs_get_position), (''cs-get-position-samples'', Cs_get_position_samples),
     (''getpos'', Cs_get_position), (''get-position'', Cs_get_position), (''cs-get-length'', Cs_get_length),
     (''cs-get-length-samples'', Cs_get_length_samples), (''get-length'', Cs_get_length), (''cs-set-length'', Cs_set_length),
     (''cs-set-length-samples'', Cs_set_length_samples), (''cs-toggle-loop'', Cs_toggle_loop), (''cs-option'', Cs_option)]"

definition commands_c :: "(string \<times> action) list" where
  "commands_c = map (map_prod id C)
    [(''c-add'', C_add), (''c-remove'', C_remove), (''c-list'', C_list), (''c-select'', C_select), (''c-selected'', C_selected),
     (''c-index-select'', C_index_select), (''c-iselect'', C_index_select), (''c-deselect'', C_deselect),
     (''c-select-all'', C_select_all), (''c-select-add'', C_select_add), (''c-clear'', C_clear), (''c-rename'', C_rename),
     (''c-muting'', C_muting), (''c-mute'', C_muting), (''c-bypass'', C_bypass), (''c-status'', C_status), (''cs'', C_status),
     (''c-is-muted'', C_is_muted), (''c-is-bypassed'', C_is_bypassed)]"

text \<open>\<open>ai-add\<close> and \<open>ao-add\<close>, and so on; \<open>ao-add-default\<close> has no counterpart, and the status is that of all objects.\<close>

definition commands_aio :: "audio_dir \<Rightarrow> (string \<times> action) list" where
  "commands_aio d = map (map_prod (\<lambda>s. (case d of Dir_input \<Rightarrow> ''ai-'' | Dir_output \<Rightarrow> ''ao-'') @ s) (Aio d))
    ([(''add'', Aio_add), (''describe'', Aio_describe), (''remove'', Aio_remove), (''list'', Aio_list), (''select'', Aio_select),
      (''index-select'', Aio_index_select), (''iselect'', Aio_index_select), (''selected'', Aio_selected), (''attach'', Aio_attach),
      (''status'', Aio_status), (''forward'', Aio_forward), (''rewind'', Aio_rewind), (''setpos'', Aio_set_position),
      (''set-position'', Aio_set_position), (''set-position-samples'', Aio_set_position_samples), (''getpos'', Aio_get_position),
      (''get-position'', Aio_get_position), (''get-position-samples'', Aio_get_position_samples), (''get-length'', Aio_get_length),
      (''get-length-samples'', Aio_get_length_samples), (''get-format'', Aio_get_format)]
     @ (if d = Dir_output then [(''add-default'', Aio_add_default)] else []))"

definition commands_cop :: "(string \<times> action) list" where
  "commands_cop = map (map_prod id Cop)
    [(''cop-add'', Cop_add), (''cop-bypass'', Cop_bypass), (''cop-describe'', Cop_describe), (''cop-remove'', Cop_remove),
     (''cop-list'', Cop_list), (''cop-select'', Cop_select), (''cop-index-select'', Cop_select), (''cop-iselect'', Cop_select),
     (''cop-is-bypassed'', Cop_is_bypassed), (''cop-selected'', Cop_selected), (''cop-set'', Cop_set), (''cop-get'', Cop_get),
     (''cop-status'', Cop_status), (''es'', Cop_status), (''copp-list'', Copp_list), (''copp-select'', Copp_select),
     (''copp-index-select'', Copp_select), (''copp-iselect'', Copp_select), (''copp-selected'', Copp_selected),
     (''copp-set'', Copp_set), (''copp-get'', Copp_get)]"

definition commands_ctrl :: "(string \<times> action) list" where
  "commands_ctrl = map (map_prod id Ctrl)
    [(''ctrl-add'', Ctrl_add), (''ctrl-describe'', Ctrl_describe), (''ctrl-remove'', Ctrl_remove), (''ctrl-list'', Ctrl_list),
     (''ctrl-select'', Ctrl_select), (''ctrl-index-select'', Ctrl_select), (''ctrl-iselect'', Ctrl_select),
     (''ctrl-selected'', Ctrl_selected), (''ctrl-status'', Ctrl_status), (''ctrl-get-target'', Ctrl_get_target),
     (''ctrlp-list'', Ctrlp_list), (''ctrlp-select'', Ctrlp_select), (''ctrlp-selected'', Ctrlp_selected),
     (''ctrlp-get'', Ctrlp_get), (''ctrlp-set'', Ctrlp_set)]"

definition commands_dump :: "(string \<times> action) list" where
  "commands_dump = map (map_prod id Dump)
    [(''dump-target'', Dump_target), (''dump-status'', Dump_status), (''dump-position'', Dump_position),
     (''dump-length'', Dump_length), (''dump-cs-status'', Dump_cs_status), (''dump-c-selected'', Dump_c_selected),
     (''dump-ai-selected'', Dump_aio_selected Dir_input), (''dump-ai-position'', Dump_aio_position Dir_input),
     (''dump-ai-length'', Dump_aio_length Dir_input), (''dump-ai-open-state'', Dump_aio_open_state Dir_input),
     (''dump-ao-selected'', Dump_aio_selected Dir_output), (''dump-ao-position'', Dump_aio_position Dir_output),
     (''dump-ao-length'', Dump_aio_length Dir_output), (''dump-ao-open-state'', Dump_aio_open_state Dir_output),
     (''dump-cop-value'', Dump_cop_value)]"

definition registered_commands :: "(string \<times> action) list" where
  "registered_commands =
     commands_general @ map (\<lambda>s. (s, General (Gen_info s))) info_commands @ commands_cs @ commands_c @
     [(''aio-status'', Aio Dir_input Aio_status), (''fs'', Aio Dir_input Aio_status)] @
     commands_aio Dir_input @ commands_aio Dir_output @ commands_cop @ commands_ctrl @ commands_dump"

definition command_to_action_id :: "string \<Rightarrow> action option" where
  "command_to_action_id = map_of registered_commands"

end
