(* ===== verification/Control.thy ===== *)
theory Control
  imports Control_Actions
begin

text \<open>
  Commands of the interactive mode (\<open>libecasound/eca-control.cpp\<close>): their arguments, the preconditions,
  which connect, select or disconnect a chainsetup when an action needs it, the actions, and the
  reconnection afterwards; and what \<open>libecasound/eca-control-dump.cpp\<close> reads.
\<close>

subsection \<open>Arguments\<close>

definition first_arg :: "('io, 'o, 'c) control \<Rightarrow> string" where
  "first_arg ct = (case ct_args ct of [] \<Rightarrow> '''' | s # _ \<Rightarrow> s)"

definition first_arg_as_float :: "('io, 'o, 'c) control \<Rightarrow> rat" where
  "first_arg_as_float ct = (case ct_argf ct of Some v \<Rightarrow> v | None \<Rightarrow> if ct_args ct = [] then 0 else atof (first_arg ct))"

definition first_arg_as_int :: "('io, 'o, 'c) control \<Rightarrow> int" where
  "first_arg_as_int ct = (if ct_args ct = [] then 0 else atoi (first_arg ct))"

definition set_action_argument :: "string list \<Rightarrow> ('io, 'o, 'c) control \<Rightarrow> ('io, 'o, 'c) control" where
  "set_action_argument args ct = ct\<lparr>ct_args := args, ct_argf := None\<rparr>"

definition clear_action_arguments :: "('io, 'o, 'c) control \<Rightarrow> ('io, 'o, 'c) control" where
  "clear_action_arguments ct = ct\<lparr>ct_args := [], ct_argf := None\<rparr>"

subsection \<open>Preconditions\<close>

datatype refusal = No_argument | No_input | No_output | None_selected | None_connected | Not_connectable

fun refusal_text :: "refusal \<Rightarrow> string" where
  "refusal_text No_argument = ''Can'' @ [CHR 39] @ ''t perform requested action; argument omitted.''"
| "refusal_text No_input = ''Can'' @ [CHR 39] @ ''t perform requested action; no audio input selected.''"
| "refusal_text No_output = ''Can'' @ [CHR 39] @ ''t perform requested action; no audio output selected.''"
| "refusal_text None_selected = ''Can'' @ [CHR 39] @ ''t perform requested action; no chainsetup selected.''"
| "refusal_text None_connected = ''Can'' @ [CHR 39] @ ''t perform requested action; no chainsetup connected.''"
| "refusal_text Not_connectable =
     '' Selected chainsetup cannot be connected. Can'' @ [CHR 39] @ ''t perform requested action. ''"

declare refusal_text.simps [simp del]

definition refuse :: "refusal \<Rightarrow> ('io, 'o, 'c) control \<Rightarrow> ('io, 'o, 'c) control" where
  "refuse r ct = (set_error ((if r = Not_connectable then last_error ct else '''') @ refusal_text r) ct)\<lparr>ct_ok := False\<rparr>"

text \<open>Cases 4, 5 and 6 of \<open>check_action_preconditions\<close>.\<close>

definition select_connected :: "('io, 'o, 'c) control \<Rightarrow> ('io, 'o, 'c) control result" where
  "select_connected ct =
     bind_result (is_connected ct) (\<lambda>c.
       if \<not> c then Inr (refuse None_selected ct)
       else bind_result (connected_chainsetup ct) (\<lambda>name. ctl_select_chainsetup name ct))"

definition connect_selected :: "('io, 'o, 'c, 's) control_env \<Rightarrow> ('io, 'o, 'c) control \<Rightarrow> ('io, 'o, 'c) control result" where
  "connect_selected E ct =
     (if \<not> is_selected ct then Inr (refuse None_connected ct)
      else bind_result (ctl_is_valid ct) (\<lambda>v.
           bind_result (if v then ctl_connect_chainsetup E ct else Inr ct) (\<lambda>ct1.
           bind_result (is_connected ct1) (\<lambda>c. Inr (if c then ct1 else refuse Not_connectable ct1)))))"

definition disconnect_selected :: "('io, 'o, 'c, 's) control_env \<Rightarrow> action \<Rightarrow> ('io, 'o, 'c) control \<Rightarrow> ('io, 'o, 'c) control result" where
  "disconnect_selected E a ct =
     bind_result (selected_chainsetup ct) (\<lambda>sn.
     bind_result (connected_chainsetup ct) (\<lambda>cn.
       if sn = cn \<and> action_requires_selected_not_connected a
       then bind_result (ctl_disconnect_chainsetup E (ct\<lparr>ct_restart := is_running ct\<rparr>)) (\<lambda>ct1.
              Inr (ct1\<lparr>ct_reconnect := True\<rparr>))
       else Inr ct))"

definition check_chainsetups :: "('io, 'o, 'c, 's) control_env \<Rightarrow> action \<Rightarrow> ('io, 'o, 'c) control \<Rightarrow> ('io, 'o, 'c) control result" where
  "check_chainsetups E a ct =
     (if \<not> is_selected ct \<and> action_requires_selected a then select_connected ct
      else bind_result (is_connected ct) (\<lambda>c.
             if \<not> c \<and> action_requires_connected a then connect_selected E ct else disconnect_selected E a ct))"

definition check_action_preconditions :: "('io, 'o, 'c, 's) control_env \<Rightarrow> action \<Rightarrow> ('io, 'o, 'c) control \<Rightarrow> ('io, 'o, 'c) control result" where
  "check_action_preconditions E a ct0 =
     (let ct = ct0\<lparr>ct_ok := True, ct_reconnect := False, ct_restart := False\<rparr>;
          look = (\<lambda>d ct. if is_selected ct then get_audio_object d ct else Inr (None, ct))
      in if ct_argf ct = None \<and> first_arg ct = '''' \<and> action_requires_params a then Inr (refuse No_argument ct)
         else bind_result (look Dir_input ct) (\<lambda>(i, ct1).
              if is_selected ct1 \<and> i = None \<and> action_requires_selected_aio Dir_input a then Inr (refuse No_input ct1)
              else bind_result (look Dir_output ct1) (\<lambda>(out, ct2).
                   if is_selected ct2 \<and> out = None \<and> action_requires_selected_aio Dir_output a then Inr (refuse No_output ct2)
                   else check_chainsetups E a ct2)))"

subsection \<open>Actions\<close>

text \<open>Returning a value.\<close>

definition returning :: "('a \<Rightarrow> retval) \<Rightarrow> 'a result \<Rightarrow> ('io, 'o, 'c) control \<Rightarrow> ('io, 'o, 'c) control result" where
  "returning f r ct = bind_result r (\<lambda>v. Inr (set_ret (f v) ct))"

definition ret_bool :: "bool \<Rightarrow> retval" where
  "ret_bool b = Ret_int (if b then 1 else 0)"

definition msg_unknown :: string where
  "msg_unknown = ''Unknown command!''"

definition msg_start :: string where
  "msg_start = ''Error, unable to start processing''"

definition msg_running :: string where
  "msg_running = ''Engine already running, use '' @ [CHR 39] @ ''engine-halt'' @ [CHR 39] @ '' first.''"

definition msg_not_running :: string where
  "msg_not_running = ''Engine not running, use '' @ [CHR 39] @ ''engine-launch'' @ [CHR 39] @ '' first.''"

definition msg_debug :: "int \<Rightarrow> string" where
  "msg_debug level = ''Debug level set to '' @ kvu_numtostr_int level @ ''.''"

fun perform_general :: "('io, 'o, 'c, 's) control_env \<Rightarrow> general_action \<Rightarrow> ('io, 'o, 'c) control \<Rightarrow> ('io, 'o, 'c) control result" where
  "perform_general E Gen_exit ct = close_engine E ct"
| "perform_general E Gen_start ct =
     (if is_running ct then Inr ct
      else bind_result (ctl_start E ct) (\<lambda>(ok, ct1). Inr (if ok then ct1 else set_error msg_start ct1)))"
| "perform_general E Gen_stop ct = (if is_engine_created ct then ctl_stop ct else Inr ct)"
| "perform_general E Gen_stop_sync ct = (if is_engine_created ct then stop_on_condition ct else Inr ct)"
| "perform_general E Gen_debug ct = Inr (set_ret (Ret_string (msg_debug (first_arg_as_int ct))) ct)"
| "perform_general E Gen_resource_file ct =
     Inr (ct\<lparr>ct_session := interpret_general_option (''-R:'' @ first_arg ct) (ct_session ct)\<rparr>)"
| "perform_general E Gen_engine_launch ct =
     (if \<not> is_engine_ready_for_commands ct then start_engine_sub E ct else Inr (set_error msg_running ct))"
| "perform_general E Gen_engine_halt ct =
     (if is_engine_ready_for_commands ct then close_engine E ct else Inr (set_error msg_not_running ct))"
| "perform_general E Gen_engine_status ct = Inr (set_ret (Ret_string (engine_status_text ct)) ct)"
| "perform_general E Gen_set_precision ct = Inr ct"
| "perform_general E (Gen_info s) ct = Inr (set_ret (ce_info E s) ct)"
| "perform_general E Gen_unknown ct = Inr (set_error msg_unknown ct)"

definition msg_invalid :: string where
  "msg_invalid = ''Can'' @ [CHR 39] @ ''t connect; chainsetup not valid!''"

fun perform_cs :: "('io, 'o, 'c, 's) control_env \<Rightarrow> cs_action \<Rightarrow> ('io, 'o, 'c) control \<Rightarrow> ('io, 'o, 'c) control result" where
  "perform_cs E Cs_add ct = ctl_add_chainsetup E (first_arg ct) ct"
| "perform_cs E Cs_remove ct = Inr (ctl_remove_chainsetup ct)"
| "perform_cs E Cs_list ct = returning Ret_strings (session_chainsetup_names (ct_session ct)) ct"
| "perform_cs E Cs_select ct = ctl_select_chainsetup (first_arg ct) ct"
| "perform_cs E Cs_selected ct = returning Ret_string (selected_chainsetup ct) ct"
| "perform_cs E Cs_index_select ct =
     (if length (first_arg ct) > 0 then ctl_select_chainsetup_by_index (first_arg_as_int ct) ct else Inr ct)"
| "perform_cs E Cs_load ct = ctl_load_chainsetup E (first_arg ct) ct"
| "perform_cs E Cs_save ct = ctl_save_chainsetup E '''' ct"
| "perform_cs E Cs_save_as ct = ctl_save_chainsetup E (first_arg ct) ct"
| "perform_cs E Cs_is_valid ct = returning ret_bool (ctl_is_valid ct) ct"
| "perform_cs E Cs_connect ct =
     bind_result (ctl_is_valid ct) (\<lambda>v. if v then ctl_connect_chainsetup E ct else Inr (set_error msg_invalid ct))"
| "perform_cs E Cs_connected ct = returning Ret_string (connected_chainsetup ct) ct"
| "perform_cs E Cs_disconnect ct = ctl_disconnect_chainsetup E ct"
| "perform_cs E Cs_set_param ct = set_chainsetup_parameter E (first_arg ct) ct"
| "perform_cs E Cs_set_audio_format ct = set_chainsetup_sample_format E (first_arg ct) ct"
| "perform_cs E Cs_status ct = Inr (set_ret (Ret_string (ce_text E ''cs-status'' ct)) ct)"
| "perform_cs E Cs_rewind ct = change_chainsetup_position E (- first_arg_as_float ct) ct"
| "perform_cs E Cs_forward ct = change_chainsetup_position E (first_arg_as_float ct) ct"
| "perform_cs E Cs_set_position ct = set_chainsetup_position E (first_arg_as_float ct) ct"
| "perform_cs E Cs_set_position_samples ct = set_chainsetup_position_samples E (first_arg_as_int ct) ct"
| "perform_cs E Cs_get_position ct = returning Ret_float (ctl_position_in_seconds_exact ct) ct"
| "perform_cs E Cs_get_position_samples ct = returning Ret_long (ctl_position_in_samples ct) ct"
| "perform_cs E Cs_get_length ct = returning Ret_float (ctl_length_in_seconds_exact ct) ct"
| "perform_cs E Cs_get_length_samples ct = returning Ret_long (ctl_length_in_samples ct) ct"
| "perform_cs E Cs_set_length ct = set_chainsetup_processing_length_in_seconds (first_arg_as_float ct) ct"
| "perform_cs E Cs_set_length_samples ct = set_chainsetup_processing_length_in_samples (first_arg_as_int ct) ct"
| "perform_cs E Cs_toggle_loop ct = toggle_chainsetup_looping ct"
| "perform_cs E Cs_option ct = set_options E (ct_args ct) ct"

definition msg_rename :: string where
  "msg_rename = ''When renaming chains, only one chain canbe selected.''"

definition comma_list :: "string \<Rightarrow> string list" where
  "comma_list s = kvu_string_to_vector s (CHR '','')"

fun perform_c :: "('io, 'o, 'c, 's) control_env \<Rightarrow> c_action \<Rightarrow> ('io, 'o, 'c) control \<Rightarrow> ('io, 'o, 'c) control result" where
  "perform_c E C_add ct = add_chains E (comma_list (first_arg ct)) ct"
| "perform_c E C_remove ct = ctl_remove_chains ct"
| "perform_c E C_list ct = returning Ret_strings (ctl_chain_names ct) ct"
| "perform_c E C_select ct = select_chains (comma_list (first_arg ct)) ct"
| "perform_c E C_selected ct = returning Ret_strings (selected_chains ct) ct"
| "perform_c E C_index_select ct = select_chains_by_index (kvu_string_to_int_vector (first_arg ct) (CHR '','')) ct"
| "perform_c E C_deselect ct = deselect_chains (comma_list (first_arg ct)) ct"
| "perform_c E C_select_add ct =
     bind_result (selected_chains ct) (\<lambda>names.
       select_chains (comma_list (first_arg ct @ '','' @ kvu_vector_to_string names '','')) ct)"
| "perform_c E C_select_all ct = ctl_select_all_chains ct"
| "perform_c E C_clear ct = ctl_clear_chains ct"
| "perform_c E C_rename ct =
     bind_result (selected_chains ct) (\<lambda>names.
       if length names \<noteq> 1 then Inr (set_error msg_rename ct) else ctl_rename_chain (first_arg ct) ct)"
| "perform_c E C_muting ct = set_chain_muting E (first_arg ct) ct"
| "perform_c E C_bypass ct = set_chain_bypass E (first_arg ct) ct"
| "perform_c E C_status ct = bind_result (sel_setup ct) (\<lambda>_. Inr (set_ret (Ret_string (ce_text E ''c-status'' ct)) ct))"
| "perform_c E C_is_bypassed ct = returning ret_bool (chain_is_bypassed ct) ct"
| "perform_c E C_is_muted ct = returning ret_bool (chain_is_muted ct) ct"

text \<open>A value of the selected input or output, whose pointer is looked up first.\<close>

definition of_audio_object :: "('io \<Rightarrow> retval result) \<Rightarrow> audio_dir \<Rightarrow> ('io, 'o, 'c) control \<Rightarrow> ('io, 'o, 'c) control result" where
  "of_audio_object f d ct =
     bind_result (get_audio_object d ct) (\<lambda>(ptr, ct1). bind_result (deref_aio ptr ct1) (\<lambda>x. returning id (f x) ct1))"

definition moving :: "(('io, 'o, 'c) control \<Rightarrow> ('io, 'o, 'c) control result) \<Rightarrow> audio_dir \<Rightarrow> ('io, 'o, 'c) control \<Rightarrow> ('io, 'o, 'c) control result" where
  "moving f d ct = bind_result (audio_object_as_selected d ct) f"

fun perform_aio :: "('io, 'o, 'c, 's) control_env \<Rightarrow> audio_dir \<Rightarrow> aio_action \<Rightarrow> ('io, 'o, 'c) control \<Rightarrow> ('io, 'o, 'c) control result" where
  "perform_aio E d Aio_add ct =
     (if d = Dir_output \<and> first_arg ct = '''' then add_default_output E ct else add_audio_object E d (first_arg ct) ct)"
| "perform_aio E d Aio_add_default ct = add_default_output E ct"
| "perform_aio E d Aio_describe ct =
     bind_result (deref_aio (aio_of d ct) ct) (\<lambda>_. Inr (set_ret (Ret_string (ce_text E ''describe'' ct)) ct))"
| "perform_aio E d Aio_remove ct = remove_audio_object E d ct"
| "perform_aio E d Aio_list ct = returning Ret_strings (audio_object_names E d ct) ct"
| "perform_aio E d Aio_select ct = select_audio_object E d (first_arg ct) ct"
| "perform_aio E d Aio_selected ct = of_audio_object (\<lambda>x. Inr (Ret_string (oc_label (ve_open (ce_session E)) x))) d ct"
| "perform_aio E d Aio_index_select ct =
     (if d = Dir_output \<or> length (first_arg ct) > 0 then select_audio_object_by_index d (first_arg_as_int ct) ct else Inr ct)"
| "perform_aio E d Aio_attach ct = attach_audio_object d ct"
| "perform_aio E d Aio_status ct = returning Ret_string (aio_status E ct) ct"
| "perform_aio E d Aio_forward ct = moving (forward_audio_object E (first_arg_as_float ct)) d ct"
| "perform_aio E d Aio_rewind ct = moving (rewind_audio_object E (first_arg_as_float ct)) d ct"
| "perform_aio E d Aio_set_position ct = moving (set_audio_object_position E (first_arg_as_float ct)) d ct"
| "perform_aio E d Aio_set_position_samples ct = moving (set_audio_object_position_samples E (first_arg_as_int ct)) d ct"
| "perform_aio E d Aio_get_position ct =
     of_audio_object (\<lambda>x. bind_result (position_in_seconds_exact (aio_position E x)) (\<lambda>s. Inr (Ret_float s))) d ct"
| "perform_aio E d Aio_get_position_samples ct = of_audio_object (\<lambda>x. Inr (Ret_long (ap_position (aio_position E x)))) d ct"
| "perform_aio E d Aio_get_length ct =
     of_audio_object (\<lambda>x. bind_result (length_in_seconds_exact (aio_position E x)) (\<lambda>s. Inr (Ret_float s))) d ct"
| "perform_aio E d Aio_get_length_samples ct = of_audio_object (\<lambda>x. Inr (Ret_long (ap_length (aio_position E x)))) d ct"
| "perform_aio E d Aio_get_format ct = of_audio_object (\<lambda>x. Inr (Ret_string (ce_text E ''get-format'' ct))) d ct"


text \<open>The arguments of \<open>cop-set\<close> and \<open>cop-get\<close>: the chain is looked up by the one name that is selected.\<close>

datatype cop_refusal = Cop_no_chain | Cop_many_chains | Cop_bad_id | Cop_bad_param | Cop_few_arguments

fun cop_refusal_text :: "cop_refusal \<Rightarrow> string" where
  "cop_refusal_text Cop_no_chain = ''No chain selected, unable to identify chainop''"
| "cop_refusal_text Cop_many_chains = ''More than one chain selected, unable to identify chainop''"
| "cop_refusal_text Cop_bad_id = ''Invalid chainop-id, unable to identify chainop''"
| "cop_refusal_text Cop_bad_param = ''Invalid copp-id, indexing starts from 1.''"
| "cop_refusal_text Cop_few_arguments = ''Not enough parameters!''"

declare cop_refusal_text.simps [simp del]

definition get_chain_with_name :: "string \<Rightarrow> ('io, 'o, 'c, rat) chainsetup \<Rightarrow> ('o, 'c, rat) chain option" where
  "get_chain_with_name name cs = find (\<lambda>q. ch_name q = name) (cs_chains cs)"

definition check_cop_op_args :: "int \<Rightarrow> int \<Rightarrow> ('io, 'o, 'c) control \<Rightarrow> cop_refusal option result" where
  "check_cop_op_args copid coppid ct =
     bind_result (sel_setup ct) (\<lambda>st.
       case cs_selected (st_cs st) of
         [] \<Rightarrow> Inr (Some Cop_no_chain)
       | [name] \<Rightarrow>
           if copid < 1 then Inr (Some Cop_bad_id)
           else (case get_chain_with_name name (st_cs st) of
                   None \<Rightarrow> Inl Undefined_behaviour
                 | Some ch \<Rightarrow>
                     Inr (if copid > int (length (ch_ops ch)) then Some Cop_bad_id
                          else if coppid < 1 then Some Cop_bad_param else None))
       | _ \<Rightarrow> Inr (Some Cop_many_chains))"

text \<open>Selecting the operator and the parameter that the first two arguments name, and then \<open>f\<close> with all of them.\<close>

definition with_cop_args ::
  "nat \<Rightarrow> (string list \<Rightarrow> ('io, 'o, 'c) control \<Rightarrow> ('io, 'o, 'c) control result) \<Rightarrow> ('io, 'o, 'c) control \<Rightarrow> ('io, 'o, 'c) control result" where
  "with_cop_args n f ct =
     (let a = comma_list (first_arg ct) in
      if length a < n then Inr (set_error (cop_refusal_text Cop_few_arguments) ct)
      else let id1 = atoi (a ! 0); id2 = atoi (a ! 1) in
        bind_result (check_cop_op_args id1 id2 ct) (\<lambda>r.
          case r of
            Some why \<Rightarrow> Inr (set_error (cop_refusal_text why) ct)
          | None \<Rightarrow>
              bind_result (ctl_select_chain_operator id1 ct) (\<lambda>ct1.
              bind_result (ctl_select_chain_operator_parameter id2 ct1) (f a))))"

fun perform_cop :: "('io, 'o, 'c, 's) control_env \<Rightarrow> cop_action \<Rightarrow> ('io, 'o, 'c) control \<Rightarrow> ('io, 'o, 'c) control result" where
  "perform_cop E Cop_add ct = ctl_add_chain_operator E (first_arg ct) ct"
| "perform_cop E Cop_bypass ct = bypass_chain_operator E (first_arg ct) ct"
| "perform_cop E Cop_describe ct =
     (if is_selected ct then bind_result (get_chain_priv ct) (\<lambda>_. Inr (set_ret (Ret_string (ce_text E ''cop-describe'' ct)) ct))
      else Inr (set_ret (Ret_string '''') ct))"
| "perform_cop E Cop_remove ct = ctl_remove_chain_operator ct"
| "perform_cop E Cop_list ct = chain_operator_names E ct"
| "perform_cop E Cop_is_bypassed ct = returning ret_bool (chain_operator_is_bypassed ct) ct"
| "perform_cop E Cop_select ct = ctl_select_chain_operator (first_arg_as_int ct) ct"
| "perform_cop E Cop_selected ct = returning Ret_int (selected_chain_operator ct) ct"
| "perform_cop E Cop_set ct = with_cop_args 3 (\<lambda>a. set_chain_operator_parameter E (atof (a ! 2))) ct"
| "perform_cop E Cop_get ct = with_cop_args 2 (\<lambda>a ct. returning Ret_float (get_chain_operator_parameter E ct) ct) ct"
| "perform_cop E Cop_status ct = bind_result (sel_setup ct) (\<lambda>_. Inr (set_ret (Ret_string (ce_text E ''cop-status'' ct)) ct))"
| "perform_cop E Copp_list ct = chain_operator_parameter_names E ct"
| "perform_cop E Copp_select ct = ctl_select_chain_operator_parameter (first_arg_as_int ct) ct"
| "perform_cop E Copp_selected ct = returning Ret_int (selected_chain_operator_parameter ct) ct"
| "perform_cop E Copp_set ct = set_chain_operator_parameter E (first_arg_as_float ct) ct"
| "perform_cop E Copp_get ct = returning Ret_float (get_chain_operator_parameter E ct) ct"

fun perform_ctrl :: "('io, 'o, 'c, 's) control_env \<Rightarrow> ctrl_action \<Rightarrow> ('io, 'o, 'c) control \<Rightarrow> ('io, 'o, 'c) control result" where
  "perform_ctrl E Ctrl_add ct = ctl_add_controller E (first_arg ct) ct"
| "perform_ctrl E Ctrl_describe ct =
     bind_result (of_the_chain '''' (\<lambda>ch. if ch_sel_ctrl_ptr ch = None then Inr ''''
         else bind_result (selected_ctrl ch) (\<lambda>_. Inr (ce_text E ''ctrl-describe'' ct))) ct)
       (\<lambda>s. Inr (set_ret (Ret_string s) ct))"
| "perform_ctrl E Ctrl_remove ct = ctl_remove_controller ct"
| "perform_ctrl E Ctrl_list ct = controller_names E ct"
| "perform_ctrl E Ctrl_select ct = ctl_select_controller (first_arg_as_int ct) ct"
| "perform_ctrl E Ctrl_selected ct = returning Ret_int (ctl_selected_controller ct) ct"
| "perform_ctrl E Ctrl_status ct = bind_result (sel_setup ct) (\<lambda>_. Inr (set_ret (Ret_string (ce_text E ''ctrl-status'' ct)) ct))"
| "perform_ctrl E Ctrl_get_target ct = returning Ret_int (selected_controller_target ct) ct"
| "perform_ctrl E Ctrlp_list ct = controller_parameter_names E ct"
| "perform_ctrl E Ctrlp_select ct = ctl_select_controller_parameter (first_arg_as_int ct) ct"
| "perform_ctrl E Ctrlp_selected ct = returning Ret_int (selected_controller_parameter ct) ct"
| "perform_ctrl E Ctrlp_get ct = returning Ret_float (get_controller_parameter E ct) ct"
| "perform_ctrl E Ctrlp_set ct = ctl_set_controller_parameter E (first_arg_as_float ct) ct"

text \<open>
  The dump commands write to a stream, which is not modelled; they keep the state, but for a pointer to
  an audio object that is not valid any more, and they select the operator whose value they write.
\<close>

definition dumping :: "'a result \<Rightarrow> ('io, 'o, 'c) control \<Rightarrow> ('io, 'o, 'c) control result" where
  "dumping r ct = bind_result r (\<lambda>_. Inr ct)"

definition dump_audio_object :: "('io \<Rightarrow> 'a result) \<Rightarrow> audio_dir \<Rightarrow> ('io, 'o, 'c) control \<Rightarrow> ('io, 'o, 'c) control result" where
  "dump_audio_object f d ct =
     bind_result (get_audio_object d ct) (\<lambda>(ptr, ct1).
       if ptr = None then Inr ct1 else bind_result (deref_aio ptr ct1) (\<lambda>x. dumping (f x) ct1))"

fun perform_dump :: "('io, 'o, 'c, 's) control_env \<Rightarrow> dump_action \<Rightarrow> ('io, 'o, 'c) control \<Rightarrow> ('io, 'o, 'c) control result" where
  "perform_dump E Dump_target ct = Inr ct"
| "perform_dump E Dump_status ct = Inr ct"
| "perform_dump E Dump_position ct = dumping (ctl_position_in_seconds_exact ct) ct"
| "perform_dump E Dump_length ct = dumping (ctl_length_in_seconds_exact ct) ct"
| "perform_dump E Dump_cs_status ct = dumping (is_connected ct) ct"
| "perform_dump E Dump_c_selected ct = dumping (selected_chains ct) ct"
| "perform_dump E (Dump_aio_selected d) ct = dump_audio_object (\<lambda>x. Inr ()) d ct"
| "perform_dump E (Dump_aio_position d) ct = dump_audio_object (\<lambda>x. position_in_seconds_exact (aio_position E x)) d ct"
| "perform_dump E (Dump_aio_length d) ct = dump_audio_object (\<lambda>x. length_in_seconds_exact (aio_position E x)) d ct"
| "perform_dump E (Dump_aio_open_state d) ct = dump_audio_object (\<lambda>x. Inr ()) d ct"
| "perform_dump E Dump_cop_value ct =
     (let temp = comma_list (first_arg ct) in
      if length temp > 1
      then bind_result (ctl_select_chain_operator (atoi (temp ! 0)) ct) (\<lambda>ct1. dumping (get_chain_priv ct1) ct1)
      else Inr ct)"

fun perform :: "('io, 'o, 'c, 's) control_env \<Rightarrow> action \<Rightarrow> ('io, 'o, 'c) control \<Rightarrow> ('io, 'o, 'c) control result" where
  "perform E (General a) = perform_general E a"
| "perform E (Cs a) = perform_cs E a"
| "perform E (C a) = perform_c E a"
| "perform E (Aio d a) = perform_aio E d a"
| "perform E (Cop a) = perform_cop E a"
| "perform E (Ctrl a) = perform_ctrl E a"
| "perform E (Dump a) = perform_dump E a"

definition msg_reconnect :: string where
  "msg_reconnect = ''Can'' @ [CHR 39] @ ''t reconnect chainsetup.''"

definition reconnect_chainsetup :: "('io, 'o, 'c, 's) control_env \<Rightarrow> ('io, 'o, 'c) control \<Rightarrow> ('io, 'o, 'c) control result" where
  "reconnect_chainsetup E ct =
     bind_result (if is_selected ct then ctl_is_valid ct else Inr False) (\<lambda>v.
       if \<not> v then Inr (set_error msg_reconnect ct)
       else bind_result (ctl_connect_chainsetup E ct) (\<lambda>ct1.
            bind_result (selected_chainsetup ct1) (\<lambda>sn.
            bind_result (connected_chainsetup ct1) (\<lambda>cn.
              if sn \<noteq> cn then Inr (set_error msg_reconnect ct1)
              else if ct_restart ct1 then bind_result (ctl_start E ct1) (\<lambda>(_, ct2). Inr ct2)
              else Inr ct1))))"

definition ctl_action :: "('io, 'o, 'c, 's) control_env \<Rightarrow> action \<Rightarrow> ('io, 'o, 'c) control \<Rightarrow> ('io, 'o, 'c) control result" where
  "ctl_action E a ct =
     bind_result (check_action_preconditions E a (ct\<lparr>ct_ret := Ret_none\<rparr>)) (\<lambda>ct1.
       if \<not> ct_ok ct1 then Inr ct1
       else bind_result (perform E a ct1) (\<lambda>ct2.
            if ct_reconnect ct2 then reconnect_chainsetup E ct2 else Inr ct2))"

subsection \<open>Commands\<close>

definition msg_one_chain :: "string \<Rightarrow> string" where
  "msg_one_chain what = ''When adding '' @ what @ '', only one chain can be selected.''"

text \<open>
  An option string. Whether it names an operator or a controller decides what it does; the selected
  chains are read without a test that a chainsetup is selected.
\<close>

definition chainsetup_option :: "('io, 'o, 'c, 's) control_env \<Rightarrow> string \<Rightarrow> ('io, 'o, 'c) control \<Rightarrow> ('io, 'o, 'c) control result" where
  "chainsetup_option E cmd ct =
     bind_result (kvu_get_argument_prefix cmd) (\<lambda>prefix.
       if prefix = ''el'' \<or> prefix = ''pn'' \<or> ce_is_operator E prefix
       then bind_result (selected_chains ct) (\<lambda>names.
              if length names = 1 then ctl_add_chain_operator E cmd ct
              else Inr (set_error (msg_one_chain ''chain operators'') ct))
       else if ce_is_controller E prefix
       then bind_result (selected_chains ct) (\<lambda>names.
              if length names = 1 then ctl_add_controller E cmd ct
              else Inr (set_error (msg_one_chain ''controllers'') ct))
       else ctl_action E (Cs Cs_option) (set_action_argument [cmd] ct))"

definition ctl_command :: "('io, 'o, 'c, 's) control_env \<Rightarrow> string \<Rightarrow> ('io, 'o, 'c) control \<Rightarrow> ('io, 'o, 'c) control result" where
  "ctl_command E cmd_and_args ct0 =
     (let ct = clear_action_arguments (ct0\<lparr>ct_ret := Ret_none\<rparr>) in
      case kvu_string_to_tokens_quoted cmd_and_args of
        [] \<Rightarrow> Inr ct
      | cmd # args \<Rightarrow>
          (case command_to_action_id cmd of
             None \<Rightarrow>
               if length cmd > 0 \<and> cmd ! 0 = CHR ''-''
               then if cmd = ''-i'' \<or> cmd = ''-o'' then Inr ct else chainsetup_option E cmd_and_args ct
               else Inr (set_error msg_unknown ct)
           | Some a \<Rightarrow> ctl_action E a (if args = [] then ct else set_action_argument args ct)))"

definition command_float_arg :: "('io, 'o, 'c, 's) control_env \<Rightarrow> string \<Rightarrow> rat \<Rightarrow> ('io, 'o, 'c) control \<Rightarrow> ('io, 'o, 'c) control result" where
  "command_float_arg E cmd arg ct =
     (let ct1 = (clear_action_arguments ct)\<lparr>ct_argf := Some arg\<rparr> in
      ctl_action E (case command_to_action_id cmd of None \<Rightarrow> General Gen_unknown | Some a \<Rightarrow> a) ct1)"

end
