(* ===== verification/Session_Facts.thy ===== *)
theory Session_Facts
  imports Session
begin

text \<open>
  The invariant of a session: the vector and the pointers name chainsetups that exist, names are
  distinct and not empty, and the connected chainsetup is the only one that is enabled.
\<close>

definition name_of :: "('io, 'o, 'c) session \<Rightarrow> nat \<Rightarrow> string" where
  "name_of se a = (case se_heap se a of None \<Rightarrow> '''' | Some st \<Rightarrow> st_name st)"

definition session_ok :: "('io, 'o, 'c) session \<Rightarrow> bool" where
  "session_ok se \<longleftrightarrow>
     distinct (se_setups se) \<and> dom (se_heap se) = set (se_setups se) \<and> (\<forall>a \<in> set (se_setups se). a < se_fresh se) \<and>
     set_option (se_connected se) \<subseteq> set (se_setups se) \<and> set_option (se_selected se) \<subseteq> set (se_setups se) \<and>
     inj_on (name_of se) (set (se_setups se)) \<and> (\<forall>a \<in> set (se_setups se). name_of se a \<noteq> '''') \<and>
     (\<forall>a st. se_heap se a = Some st \<longrightarrow> (cs_enabled (st_cs st) \<longleftrightarrow> se_connected se = Some a)) \<and>
     (\<forall>a st. se_heap se a = Some st \<longrightarrow> se_connected se = Some a \<longrightarrow> is_valid_for_connection (st_cs st))"

text \<open>What the code relies on of a chainsetup that was constructed: it is not enabled, and one that was loaded has a name.\<close>

definition session_env_ok :: "('io, 'o, 'c, 's) session_env \<Rightarrow> bool" where
  "session_env_ok V \<longleftrightarrow>
     \<not> cs_enabled (ve_new V) \<and>
     (\<forall>f st. ve_load V f = Loaded st \<longrightarrow> \<not> cs_enabled (st_cs st) \<and> st_name st \<noteq> '''')"

lemma session_create_ok [simp]: "session_ok session_create"
  by (simp add: session_ok_def session_create_def)

lemma deref_Inr: "deref p se = Inr st \<longleftrightarrow> (\<exists>a. p = Some a \<and> se_heap se a = Some st)"
  by (auto simp: deref_def split: option.splits)

lemma deref_Some [simp]: "deref (Some a) se = (case se_heap se a of None \<Rightarrow> Inl Undefined_behaviour | Some st \<Rightarrow> Inr st)"
  by (simp add: deref_def)

lemma deref_None [simp]: "deref None se = Inl Undefined_behaviour"
  by (simp add: deref_def)

lemma setup_named_None: "setup_named name as se = Inr None \<Longrightarrow> a \<in> set as \<Longrightarrow> name_of se a \<noteq> name"
  by (induction as) (auto simp: bind_result_Inr_iff name_of_def split: if_splits option.splits)

lemma setup_named_Some:
  "setup_named name as se = Inr (Some a) \<Longrightarrow> a \<in> set as \<and> name_of se a = name \<and> (\<exists>st. se_heap se a = Some st)"
  by (induction as) (auto simp: bind_result_Inr_iff name_of_def split: if_splits option.splits)

lemma setup_named_total:
  "\<forall>a \<in> set as. se_heap se a \<noteq> None \<Longrightarrow> \<exists>r. setup_named name as se = Inr r"
  by (induction as) (auto split: if_splits)

lemma session_okD:
  assumes "session_ok se"
  shows "distinct (se_setups se)" "dom (se_heap se) = set (se_setups se)" "a \<in> set (se_setups se) \<Longrightarrow> a < se_fresh se"
    "se_connected se = Some a \<Longrightarrow> a \<in> set (se_setups se)" "se_selected se = Some a \<Longrightarrow> a \<in> set (se_setups se)"
    "a \<in> set (se_setups se) \<Longrightarrow> \<exists>st. se_heap se a = Some st" "se_heap se a = Some st \<Longrightarrow> a \<in> set (se_setups se)"
    "se_heap se a = Some st \<Longrightarrow> cs_enabled (st_cs st) = (se_connected se = Some a)"
    "se_heap se a = Some st \<Longrightarrow> st_name st \<noteq> ''''" "se_heap se a = Some st \<Longrightarrow> se_connected se = Some a \<Longrightarrow> is_valid_for_connection (st_cs st)"
    "se_heap se a = Some st \<Longrightarrow> se_heap se b = Some st' \<Longrightarrow> st_name st = st_name st' \<Longrightarrow> a = b"
proof -
  show 1: "se_heap se a = Some st \<Longrightarrow> a \<in> set (se_setups se)" for a st using assms by (auto simp: session_ok_def)
  show "a \<in> set (se_setups se) \<Longrightarrow> \<exists>st. se_heap se a = Some st" using assms by (auto simp: session_ok_def)
  show "se_heap se a = Some st \<Longrightarrow> st_name st \<noteq> ''''"
    using assms 1[of a st] by (force simp: session_ok_def name_of_def)
  show "se_heap se a = Some st \<Longrightarrow> se_heap se b = Some st' \<Longrightarrow> st_name st = st_name st' \<Longrightarrow> a = b"
    using assms 1[of a st] 1[of b st'] by (force simp: session_ok_def name_of_def inj_on_def)
qed (use assms in \<open>auto simp: session_ok_def\<close>)

subsection \<open>Changing a chainsetup\<close>

text \<open>A change of a chainsetup that the session does not notice.\<close>

definition unnoticed :: "bool \<Rightarrow> ('io, 'o, 'c) named_setup \<Rightarrow> ('io, 'o, 'c) named_setup \<Rightarrow> bool" where
  "unnoticed con st st' \<longleftrightarrow>
     st_name st' = st_name st \<and> cs_enabled (st_cs st') = cs_enabled (st_cs st) \<and>
     (con \<longrightarrow> is_valid_for_connection (st_cs st) \<longrightarrow> is_valid_for_connection (st_cs st'))"

lemma put_setup_simps [simp]:
  "se_setups (put_setup p st se) = se_setups se" "se_connected (put_setup p st se) = se_connected se"
  "se_selected (put_setup p st se) = se_selected se" "se_fresh (put_setup p st se) = se_fresh se"
  "se_heap (put_setup (Some a) st se) = (se_heap se)(a := Some st)" "put_setup None st se = se"
  by (auto simp: put_setup_def split: option.splits)

lemma put_setup_ok:
  assumes "session_ok se" "deref p se = Inr st" "unnoticed (se_connected se = p) st st'"
  shows "session_ok (put_setup p st' se)"
proof -
  obtain a where a: "p = Some a" "se_heap se a = Some st" using assms(2) by (auto simp: deref_Inr)
  have n: "name_of (put_setup p st' se) = name_of se"
    using a assms(3) by (auto simp: name_of_def unnoticed_def fun_eq_iff)
  show ?thesis using assms(1,3) a session_okD(8,10)[OF assms(1) a(2)] unfolding session_ok_def n
    by (auto simp: unnoticed_def)
qed

subsection \<open>The operations keep the invariant\<close>

lemma select_ok: "session_ok se \<Longrightarrow> session_select_chainsetup name se = Inr se' \<Longrightarrow>
    session_ok se' \<and> se_heap se' = se_heap se \<and> se_connected se' = se_connected se \<and> se_setups se' = se_setups se"
proof -
  assume ok: "session_ok se" and "session_select_chainsetup name se = Inr se'"
  then obtain r where r: "setup_named name (se_setups se) se = Inr r" "se' = se\<lparr>se_selected := r\<rparr>"
    by (auto simp: session_select_chainsetup_def bind_result_Inr_iff)
  have "set_option r \<subseteq> set (se_setups se)" using r(1) by (cases r) (auto dest: setup_named_Some)
  then show ?thesis using ok unfolding session_ok_def by (simp add: r(2) name_of_def[abs_def])
qed

lemma defaults_ok [simp]: "session_ok (set_cs_param_defaults se) = session_ok se" "session_ok (se\<lparr>se_defaults_set := b\<rparr>) = session_ok se"
  by (simp_all add: session_ok_def set_cs_param_defaults_def name_of_def[abs_def])

lemma unselect_ok: "session_ok se \<Longrightarrow> session_ok (se\<lparr>se_selected := None\<rparr>)"
  by (simp add: session_ok_def name_of_def[abs_def])

lemma add_and_delete_ok:
  assumes "session_ok se" "\<not> cs_enabled (st_cs st)" "st_name st \<noteq> ''''"
  shows "\<exists>se'. add_and_delete st se = Inr se' \<and> session_ok se' \<and> se_connected se' = se_connected se \<and>
    (if st_name st \<in> name_of se ` set (se_setups se)
     then se_selected se' = None \<and> se_setups se' = se_setups se \<and> se_heap se' = se_heap se
     else se_selected se' = Some (se_fresh se) \<and> se_setups se' = se_setups se @ [se_fresh se] \<and>
          se_heap se' = (se_heap se)(se_fresh se := Some st))"
proof -
  define n where "n = se_fresh se"
  define se1 where "se1 = set_cs_param_defaults (snd (new_setup st se)\<lparr>se_selected := Some n\<rparr>)"
  have h: "se_heap se1 = (se_heap se)(n := Some st)" "se_setups se1 = se_setups se" "se_connected se1 = se_connected se"
    "se_fresh se1 = Suc n" "se_selected se1 = Some n"
    by (simp_all add: se1_def set_cs_param_defaults_def new_setup_def n_def)
  have new: "n \<notin> set (se_setups se)" "se_heap se n = None"
    using session_okD(2,3)[OF assms(1)] by (auto simp: n_def)
  have "\<forall>a \<in> set (se_setups se1). se_heap se1 a \<noteq> None" using session_okD(2)[OF assms(1)] h by auto
  then obtain r where r: "setup_named (st_name st) (se_setups se1) se1 = Inr r" using setup_named_total by blast
  have e: "add_chainsetup_ptr n (snd (new_setup st se)) =
      (case r of Some _ \<Rightarrow> Inr (se1\<lparr>se_selected := None\<rparr>) | None \<Rightarrow> Inr (se1\<lparr>se_setups := se_setups se1 @ [n]\<rparr>))"
    unfolding add_chainsetup_ptr_def Let_def se1_def[symmetric] using r h by (simp split: option.split)
  have ad: "add_and_delete st se = bind_result (add_chainsetup_ptr n (snd (new_setup st se)))
      (\<lambda>se2. Inr (if se_selected se2 = None then delete_setup n se2 else se2))"
    unfolding add_and_delete_def new_setup_def n_def by simp
  have nm: "name_of se1 a = (if a = n then st_name st else name_of se a)" for a by (simp add: name_of_def h)
  show ?thesis
  proof (cases r)
    case None
    define se2 where "se2 = se1\<lparr>se_setups := se_setups se1 @ [n]\<rparr>"
    have f: "\<forall>a \<in> set (se_setups se). name_of se a \<noteq> st_name st"
    proof
      fix a assume "a \<in> set (se_setups se)"
      then show "name_of se a \<noteq> st_name st"
        using setup_named_None[OF r[unfolded None], of a] new(1) by (auto simp: h nm split: if_splits)
    qed
    have n2: "name_of se2 a = (if a = n then st_name st else name_of se a)" for a using nm[of a] by (simp add: name_of_def se2_def)
    have "session_ok se2"
    proof -
      have "inj_on (name_of se) (set (se_setups se))" using assms(1) by (simp add: session_ok_def)
      moreover have s2: "set (se_setups se2) = insert n (set (se_setups se))" by (simp add: se2_def h)
      ultimately have "inj_on (name_of se2) (set (se_setups se2))" using f new(1) by (auto simp: inj_on_def n2)
      moreover have "\<forall>a \<in> set (se_setups se2). name_of se2 a \<noteq> []" using assms(1,3) by (auto simp: session_ok_def n2 s2)
      moreover have "distinct (se_setups se2)" "dom (se_heap se2) = set (se_setups se2)"
        using assms(1) new by (auto simp: session_ok_def se2_def h)
      ultimately show ?thesis using assms(1,2) new session_okD(3,4)[OF assms(1)] unfolding session_ok_def s2
        by (auto simp: se2_def h less_Suc_eq n_def)
    qed
    moreover have "add_and_delete st se = Inr se2" by (simp add: ad e None se2_def h)
    moreover have "st_name st \<notin> name_of se ` set (se_setups se)" using f by auto
    ultimately show ?thesis by (intro exI[of _ se2]) (simp add: se2_def h n_def)
  next
    case (Some b)
    define se2 where "se2 = delete_setup n (se1\<lparr>se_selected := None\<rparr>)"
    have h2: "se_heap se2 = se_heap se" using new(2) by (simp add: se2_def delete_setup_def h fun_upd_idem_iff)
    then have "name_of se2 = name_of se" by (simp add: name_of_def[abs_def])
    then have "session_ok se2" using assms(1) unfolding session_ok_def h2
      by (auto simp: se2_def delete_setup_def h less_Suc_eq n_def)
    moreover have "add_and_delete st se = Inr se2" by (simp add: ad e Some se2_def)
    moreover have "b \<in> set (se_setups se) \<and> name_of se b = st_name st"
      using setup_named_Some[OF r[unfolded Some]] new(1) by (auto simp: h nm split: if_splits)
    then have "st_name st \<in> name_of se ` set (se_setups se)" by (metis imageI)
    ultimately show ?thesis using h2 by (intro exI[of _ se2]) (simp add: se2_def h delete_setup_def)
  qed
qed


lemma session_add_ok:
  assumes "session_ok se" "session_env_ok V" "name \<noteq> ''''"
  shows "\<exists>se'. session_add_chainsetup V name se = Inr se' \<and> session_ok se' \<and> se_connected se' = se_connected se \<and>
    (if name \<in> name_of se ` set (se_setups se)
     then se_selected se' = None \<and> se_setups se' = se_setups se \<and> se_heap se' = se_heap se
     else se_selected se' = Some (se_fresh se) \<and> se_setups se' = se_setups se @ [se_fresh se] \<and>
          se_heap se' = (se_heap se)(se_fresh se := Some \<lparr>st_name = name, st_filename = '''', st_cs = ve_new V\<rparr>))"
proof -
  have nm: "name_of (set_cs_param_defaults se) = name_of se" by (simp add: name_of_def[abs_def] set_cs_param_defaults_def)
  have sel: "se_setups (set_cs_param_defaults se) = se_setups se" "se_connected (set_cs_param_defaults se) = se_connected se"
    "se_fresh (set_cs_param_defaults se) = se_fresh se" "se_heap (set_cs_param_defaults se) = se_heap se"
    by (simp_all add: set_cs_param_defaults_def)
  show ?thesis
    using add_and_delete_ok[of "set_cs_param_defaults se" "\<lparr>st_name = name, st_filename = '''', st_cs = ve_new V\<rparr>"] assms
    by (simp add: session_add_chainsetup_def nm sel session_env_ok_def cong: if_cong)
qed

lemma session_load_ok:
  assumes "session_ok se" "session_env_ok V" "session_load_chainsetup V f se = Inr (se', e)"
  shows "session_ok se' \<and> se_connected se' = se_connected se \<and> (e \<noteq> None \<longrightarrow> se_selected se' = se_selected se)"
proof (cases "ve_load V f")
  case (Loaded st)
  then have st: "\<not> cs_enabled (st_cs st)" "st_name st \<noteq> ''''" using assms(2) by (auto simp: session_env_ok_def)
  have ok: "session_ok (set_cs_param_defaults se)" using assms(1) by simp
  have r: "bind_result (add_and_delete st (set_cs_param_defaults se)) (\<lambda>s. Inr (s, None)) = Inr (se', e)"
    using assms(3) Loaded by (simp add: session_load_chainsetup_def no_throw_def)
  show ?thesis using add_and_delete_ok[OF ok st] r by (auto simp: set_cs_param_defaults_def)
next
  case (Load_errors msg)
  then have "se' = (set_cs_param_defaults se)\<lparr>se_selected := None\<rparr>" "e = None"
    using assms(3) by (simp_all add: session_load_chainsetup_def)
  moreover have "session_ok (set_cs_param_defaults se)" using assms(1) by simp
  ultimately show ?thesis by (simp add: unselect_ok) (simp add: set_cs_param_defaults_def)
next
  case (Load_throws msg)
  then have "se' = set_cs_param_defaults se" using assms(3) by (simp add: session_load_chainsetup_def)
  then show ?thesis using assms(1) by simp (simp add: set_cs_param_defaults_def)
qed

lemma session_remove_ok:
  assumes "session_ok se" "se_selected se \<noteq> se_connected se \<or> se_selected se = None"
  shows "session_ok (session_remove_chainsetup se)" "se_connected (session_remove_chainsetup se) = se_connected se"
    "se_selected (session_remove_chainsetup se) = None"
proof -
  have "session_ok (session_remove_chainsetup se) \<and> se_connected (session_remove_chainsetup se) = se_connected se \<and>
      se_selected (session_remove_chainsetup se) = None"
  proof (cases "se_selected se")
    case (Some a)
    then have a: "a \<in> set (se_setups se)" "se_connected se \<noteq> Some a" using assms session_okD(5)[OF assms(1)] by auto
    define se' where "se' = (delete_setup a (se\<lparr>se_selected := None\<rparr>))\<lparr>se_setups := remove1 a (se_setups se)\<rparr>"
    have h: "se_heap se' = (se_heap se)(a := None)" by (simp add: se'_def delete_setup_def)
    have nm: "name_of se' b = (if b = a then '''' else name_of se b)" for b by (simp add: name_of_def h)
    have s: "set (se_setups se') = set (se_setups se) - {a}" using assms(1) by (simp add: se'_def session_ok_def)
    have "inj_on (name_of se') (set (se_setups se'))" using assms(1) by (auto simp: session_ok_def inj_on_def nm s)
    then have "session_ok se'" using assms(1) a unfolding session_ok_def nm s h
      by (auto simp: se'_def delete_setup_def)
    then show ?thesis using Some a by (simp add: session_remove_chainsetup_def se'_def delete_setup_def)
  qed (use assms(1) in \<open>simp add: session_remove_chainsetup_def\<close>)
  then show "session_ok (session_remove_chainsetup se)" "se_connected (session_remove_chainsetup se) = se_connected se"
    "se_selected (session_remove_chainsetup se) = None" by simp_all
qed

subsection \<open>Connecting and disconnecting\<close>

lemma disable_links:
  assumes "cs_disable iocls K cs = Inr cs'"
  shows "links cs' = links cs \<and> \<not> cs_enabled cs'"
proof -
  obtain cs1 where 1: "calculate_processing_length iocls cs = Inr cs1" using assms by (auto simp: cs_disable_def bind_result_Inr_iff)
  have k: "rest_kept cs cs1" using processing_length_kept[OF 1] by simp
  have step: "rest_kept c c'" if "close_object K a c = Inr c'" for a c c'
    using that by (auto simp: close_object_def update_obj_def bind_result_Inr_iff)
  show ?thesis
  proof (cases "cs_enabled cs1")
    case True
    then obtain cs2 cs3 where s: "fold_result (close_object K) (cs_inputs cs1) cs1 = Inr cs2"
        "fold_result (close_object K) (cs_outputs cs2) cs2 = Inr cs3" "cs' = cs3\<lparr>cs_enabled := False\<rparr>"
      using assms 1 by (auto simp: cs_disable_def bind_result_Inr_iff)
    have "rest_kept cs1 cs2" "rest_kept cs2 cs3"
      by (rule fold_result_rel[OF rest_kept_order _ s(1)], erule step) (rule fold_result_rel[OF rest_kept_order _ s(2)], erule step)
    then show ?thesis using k s(3) by (simp add: rest_kept_def)
  next
    case False
    then show ?thesis using assms 1 k by (auto simp: cs_disable_def rest_kept_def)
  qed
qed

lemma session_disconnect_ok:
  assumes "session_ok se" "session_disconnect_chainsetup V se = Inr se'"
  shows "session_ok se' \<and> se_connected se' = None \<and> se_selected se' = se_selected se \<and> se_connected se \<noteq> None \<and>
    se_setups se' = se_setups se \<and> (\<forall>a. name_of se' a = name_of se a) \<and>
    (\<forall>a st. se_heap se a = Some st \<longrightarrow> (\<exists>st'. se_heap se' a = Some st' \<and> links (st_cs st') = links (st_cs st)))"
proof -
  obtain a st cs where 1: "se_connected se = Some a" "se_heap se a = Some st"
      "cs_disable (ve_io V) (ve_open V) (st_cs st) = Inr cs" "se' = (put_setup (Some a) (st\<lparr>st_cs := cs\<rparr>) se)\<lparr>se_connected := None\<rparr>"
    using assms(2) by (auto simp: session_disconnect_chainsetup_def bind_result_Inr_iff deref_Inr)
  have h: "se_heap se' = (se_heap se)(a \<mapsto> st\<lparr>st_cs := cs\<rparr>)" by (simp add: 1(4))
  have nm: "name_of se' b = name_of se b" for b using 1(2) by (simp add: name_of_def h)
  have d: "\<not> cs_enabled cs" "links cs = links (st_cs st)" using disable_links[OF 1(3)] by simp_all
  have "name_of se' = name_of se" using nm by auto
  then have "session_ok se'" using assms(1) session_okD(8)[OF assms(1)] 1 d(1) unfolding session_ok_def h
    by auto
  moreover have "se_connected se' = None \<and> se_selected se' = se_selected se \<and> se_setups se' = se_setups se" by (simp add: 1(4))
  ultimately show ?thesis using 1(1,2) d(2) nm by (simp add: h)
qed

lemma session_connect_ok:
  assumes "session_ok se" "session_connect_chainsetup V se = Inr (se', e)"
    and "\<forall>a st. se_selected se = Some a \<longrightarrow> se_heap se a = Some st \<longrightarrow> is_valid_for_connection (st_cs st)"
  shows "session_ok se' \<and> se_selected se' = se_selected se \<and> se_setups se' = se_setups se \<and> (\<forall>a. name_of se' a = name_of se a) \<and>
    (se_selected se = se_connected se \<and> se' = se \<or>
     se_connected se' = (if e = None then se_selected se else None))"
proof (cases "se_selected se = se_connected se")
  case True
  then show ?thesis using assms by (simp add: session_connect_chainsetup_def)
next
  case False
  then obtain se1 where se1: "(if se_connected se \<noteq> None then session_disconnect_chainsetup V se else Inr se) = Inr se1"
    and r: "bind_result (deref (se_selected se1) se1) (\<lambda>st.
        bind_result (cs_enable (ve_io V) (ve_open V) (ve_ops V) (ve_proxy V) (ve_addresses V) (ve_buffersize V) (st_cs st)) (\<lambda>(cs, e).
          let se2 = put_setup (se_selected se1) (st\<lparr>st_cs := cs\<rparr>) se1 in
          Inr (if e = None then se2\<lparr>se_connected := se_selected se2\<rparr> else se2, e))) = Inr (se', e)"
    using assms(2) by (auto simp: session_connect_chainsetup_def bind_result_Inr_iff)
  have k: "session_ok se1" "se_connected se1 = None" "se_selected se1 = se_selected se" "se_setups se1 = se_setups se"
      "name_of se1 b = name_of se b"
      "se_heap se b = Some st \<Longrightarrow> \<exists>st'. se_heap se1 b = Some st' \<and> links (st_cs st') = links (st_cs st)" for b st
    using se1 session_disconnect_ok[OF assms(1), of V se1] assms(1) by (auto split: if_splits)
  obtain a st cs where 2: "se_selected se = Some a" "se_heap se1 a = Some st"
      "cs_enable (ve_io V) (ve_open V) (ve_ops V) (ve_proxy V) (ve_addresses V) (ve_buffersize V) (st_cs st) = Inr (cs, e)"
      "se' = (if e = None then (put_setup (Some a) (st\<lparr>st_cs := cs\<rparr>) se1)\<lparr>se_connected := Some a\<rparr> else put_setup (Some a) (st\<lparr>st_cs := cs\<rparr>) se1)"
    using r by (auto simp: bind_result_Inr_iff deref_Inr k(3) Let_def)
  have en: "links cs = links (st_cs st)" "cs_enabled cs \<longleftrightarrow> e = None" using enable_links[OF 2(3)] by simp_all
  have h: "se_heap se' = (se_heap se1)(a \<mapsto> st\<lparr>st_cs := cs\<rparr>)" by (simp add: 2(4))
  have nm: "name_of se' b = name_of se1 b" for b using 2(2) by (simp add: name_of_def h)
  have "a \<in> set (se_setups se)" using session_okD(5)[OF assms(1) 2(1)] .
  then obtain st0 where st0: "se_heap se a = Some st0" using session_okD(6)[OF assms(1)] by blast
  then have "is_valid_for_connection (st_cs st)"
    using assms(3) 2(1,2) k(6)[OF st0] links_valid[of "st_cs st" "st_cs st0"] by auto
  then have v: "is_valid_for_connection cs" using links_valid[OF en(1)] by simp
  have "name_of se' = name_of se1" using nm by auto
  then have "session_ok se'" using k(1) session_okD(7,8)[OF k(1)] en(2) v 2(2) unfolding session_ok_def h
    by (auto simp: 2(4) k(2) split: if_splits)
  then show ?thesis using 2 k(2-5) nm by auto
qed

end
