(* ===== verification/Control_Facts.thy ===== *)
theory Control_Facts
  imports Control Session_Facts
begin

text \<open>
  The invariant of the control interface, and that the actions keep it. It says which chainsetups the
  pointers of the interface and of its session may name, and that an engine runs the connected
  chainsetup only.
\<close>

subsection \<open>The invariant\<close>

definition control_ok :: "('io, 'o, 'c) control \<Rightarrow> bool" where
  "control_ok ct \<longleftrightarrow>
     session_ok (ct_session ct) \<and> set_option (ct_selected ct) \<subseteq> set (se_setups (ct_session ct)) \<and>
     (se_selected (ct_session ct) = None \<or> se_selected (ct_session ct) = ct_selected ct) \<and>
     map_option eh_setup (ct_engine ct) \<in> {None, se_connected (ct_session ct)}"

text \<open>
  What is assumed of the parts that are not modelled: the engine's thread and the interpreters of options
  neither enable nor disable a chainsetup, the engine keeps its connections, and no option renames it.
\<close>

definition interprets :: "(('io, 'o, 'c) named_setup \<Rightarrow> ('io, 'o, 'c) named_setup \<times> string option) \<Rightarrow> bool" where
  "interprets f \<longleftrightarrow>
     (\<forall>st. st_name (fst (f st)) = st_name st \<and> cs_enabled (st_cs (fst (f st))) = cs_enabled (st_cs st))"

definition control_env_ok :: "('io, 'o, 'c, 's) control_env \<Rightarrow> bool" where
  "control_env_ok E \<longleftrightarrow>
     session_env_ok (ce_session E) \<and>
     (\<forall>opts. interprets (ce_options E opts)) \<and> (\<forall>opt. interprets (ce_global_option E opt)) \<and>
     (\<forall>opt. interprets (ce_object_option E opt)) \<and>
     (\<forall>cs. cs_enabled (ce_exit E cs) = cs_enabled cs \<and> (is_valid_for_connection cs \<longrightarrow> is_valid_for_connection (ce_exit E cs)))"

lemma control_envD:
  assumes "control_env_ok E"
  shows "session_env_ok (ce_session E)"
    "st_name (fst (ce_options E opts st)) = st_name st" "cs_enabled (st_cs (fst (ce_options E opts st))) = cs_enabled (st_cs st)"
    "st_name (fst (ce_global_option E opt st)) = st_name st" "cs_enabled (st_cs (fst (ce_global_option E opt st))) = cs_enabled (st_cs st)"
    "st_name (fst (ce_object_option E opt st)) = st_name st" "cs_enabled (st_cs (fst (ce_object_option E opt st))) = cs_enabled (st_cs st)"
    "cs_enabled (ce_exit E cs) = cs_enabled cs" "is_valid_for_connection cs \<Longrightarrow> is_valid_for_connection (ce_exit E cs)"
  using assms by (auto simp: control_env_ok_def interprets_def)

text \<open>The invariant looks at the session, the selection and the engine.\<close>

definition core :: "('io, 'o, 'c) control \<Rightarrow> ('io, 'o, 'c) session \<times> nat option \<times> nat option" where
  "core ct = (ct_session ct, ct_selected ct, map_option eh_setup (ct_engine ct))"

lemma control_ok_core: "core ct = core ct' \<Longrightarrow> control_ok ct = control_ok ct'"
  by (simp add: control_ok_def core_def)

lemma control_ok_updates [simp]:
  "control_ok (ct\<lparr>ct_ret := r\<rparr>) = control_ok ct" "control_ok (set_error s ct) = control_ok ct" "control_ok (set_ret r ct) = control_ok ct"
  "control_ok (ct\<lparr>ct_ok := b\<rparr>) = control_ok ct" "control_ok (ct\<lparr>ct_reconnect := b\<rparr>) = control_ok ct"
  "control_ok (ct\<lparr>ct_restart := b\<rparr>) = control_ok ct" "control_ok (set_aio d p ct) = control_ok ct"
  "control_ok (ct\<lparr>ct_object := p\<rparr>) = control_ok ct" "control_ok (refuse why ct) = control_ok ct"
  "control_ok (ct\<lparr>ct_ok := b, ct_reconnect := b', ct_restart := b''\<rparr>) = control_ok ct"
  "control_ok (set_action_argument args ct) = control_ok ct" "control_ok (clear_action_arguments ct) = control_ok ct"
  by (rule control_ok_core; simp add: core_def set_error_def set_ret_def set_aio_def refuse_def set_action_argument_def
      clear_action_arguments_def split: audio_dir.split)+

lemma control_okD:
  assumes "control_ok ct"
  shows "session_ok (ct_session ct)" "ct_selected ct = Some a \<Longrightarrow> a \<in> set (se_setups (ct_session ct))"
    "se_selected (ct_session ct) = None \<or> se_selected (ct_session ct) = ct_selected ct"
    "ct_engine ct = Some h \<Longrightarrow> se_connected (ct_session ct) = Some (eh_setup h)"
    "ct_selected ct \<noteq> None \<Longrightarrow> \<exists>st. sel_setup ct = Inr st"
proof -
  show "ct_selected ct \<noteq> None \<Longrightarrow> \<exists>st. sel_setup ct = Inr st"
    using assms session_okD(6)[of "ct_session ct" "the (ct_selected ct)"] by (fastforce simp: control_ok_def sel_setup_def deref_Inr)
qed (use assms in \<open>auto simp: control_ok_def\<close>)

subsection \<open>Changing the selected chainsetup\<close>

lemma put_selected_ok:
  assumes "control_ok ct" "sel_setup ct = Inr st" "unnoticed (se_connected (ct_session ct) = ct_selected ct) st st'"
  shows "control_ok (put_selected st' ct)"
proof -
  have "session_ok (put_setup (ct_selected ct) st' (ct_session ct))"
    using put_setup_ok[of "ct_session ct" "ct_selected ct" st st'] assms by (simp add: control_ok_def sel_setup_def)
  then show ?thesis using assms(1) by (simp add: control_ok_def put_selected_def)
qed

text \<open>
  A step on a chainsetup is \<open>quiet\<close> when it changes neither whether it is enabled nor, if the
  chainsetup may be connected, whether it is valid.
\<close>

definition quiet :: "bool \<Rightarrow> (('io, 'o, 'c, rat) chainsetup \<Rightarrow> ('io, 'o, 'c, rat) chainsetup result) \<Rightarrow> bool" where
  "quiet con f \<longleftrightarrow> (\<forall>cs cs'. f cs = Inr cs' \<longrightarrow> cs_enabled cs' = cs_enabled cs \<and>
     (con \<longrightarrow> is_valid_for_connection cs \<longrightarrow> is_valid_for_connection cs'))"

lemma on_selected_ok:
  assumes "control_ok ct" "on_selected_cs f ct = Inr ct'" "quiet con f" "con \<or> se_connected (ct_session ct) \<noteq> ct_selected ct"
  shows "control_ok ct'"
proof -
  obtain st cs where 1: "sel_setup ct = Inr st" "f (st_cs st) = Inr cs" "ct' = put_selected (st\<lparr>st_cs := cs\<rparr>) ct"
    using assms(2) by (auto simp: on_selected_cs_def bind_result_Inr_iff)
  have "unnoticed (se_connected (ct_session ct) = ct_selected ct) st (st\<lparr>st_cs := cs\<rparr>)"
    using assms(3,4) 1(2) by (auto simp: unnoticed_def quiet_def)
  then show ?thesis using put_selected_ok[OF assms(1) 1(1)] 1(3) by simp
qed

text \<open>What the operations of the chainsetup leave alone.\<close>

lemma valid_by_links: "links cs' = links cs \<Longrightarrow> is_valid_for_connection cs \<Longrightarrow> is_valid_for_connection cs'"
  using links_valid[of cs' cs] by simp

lemma quiet_links: "(\<And>cs cs'. f cs = Inr cs' \<Longrightarrow> cs_enabled cs' = cs_enabled cs \<and> is_valid_for_connection cs' = is_valid_for_connection cs) \<Longrightarrow> quiet con f"
  by (auto simp: quiet_def)

lemma valid_put_obj [simp]: "is_valid_for_connection (put_obj a x cs) = is_valid_for_connection cs"
  by (simp add: is_valid_for_connection_def put_obj_def)

lemma enabled_put_obj [simp]: "cs_enabled (put_obj a x cs) = cs_enabled cs"
  by (simp add: put_obj_def)

lemma valid_chain_update:
  "p < length (cs_chains cs) \<Longrightarrow> chain_is_valid ch = chain_is_valid (cs_chains cs ! p) \<Longrightarrow>
     is_valid_for_connection (cs\<lparr>cs_chains := (cs_chains cs)[p := ch]\<rparr>) = is_valid_for_connection cs"
  by (auto simp: is_valid_for_connection_def list_all_length nth_list_update)

lemma quiet_on_chain:
  assumes "\<And>ch ch'. f ch = Inr ch' \<Longrightarrow> chain_is_valid ch' = chain_is_valid ch"
  shows "quiet con (on_chain_of f)"
  by (rule quiet_links) (auto simp: on_chain_of_def Let_def bind_result_Inr_iff valid_chain_update assms split: if_splits)

lemma seek_objects_kept: "seek_objects iocls pos objs cs = Inr cs' \<Longrightarrow> cs_enabled cs' = cs_enabled cs \<and> links cs' = links cs"
proof -
  assume r: "seek_objects iocls pos objs cs = Inr cs'"
  have "(\<lambda>c c'. cs_enabled c' = cs_enabled c \<and> links c' = links c) cs cs'"
    by (rule fold_result_rel[OF _ _ _ r[unfolded seek_objects_def]])
      (auto simp: reflp_def transp_def bind_result_Inr_iff split: if_splits)
  then show ?thesis by simp
qed

lemma quiet_seek: "quiet con (cs_seek_position_in_samples iocls pos)"
proof (rule quiet_links)
  fix cs cs' assume "cs_seek_position_in_samples iocls pos cs = Inr cs'"
  then obtain cs1 cs2 where s: "seek_objects iocls pos (cs_inputs cs) cs = Inr cs1" "seek_objects iocls pos (cs_outputs cs1) cs1 = Inr cs2"
    and e: "cs' = cs2\<lparr>cs_chains := map (\<lambda>q. q\<lparr>ch_position := seek_position_in_samples (\<lambda>p. p) pos (ch_position q)\<rparr>) (cs_chains cs2),
              cs_position := (cs_position cs2)\<lparr>cp_pos := set_position_in_samples pos (cp_pos (cs_position cs2))\<rparr>\<rparr>"
    by (auto simp: cs_seek_position_in_samples_def bind_result_Inr_iff)
  have "links cs' = links cs2" by (simp add: e links_def comp_def)
  then have "is_valid_for_connection cs' = is_valid_for_connection cs"
    using seek_objects_kept[OF s(1)] seek_objects_kept[OF s(2)] by (intro links_valid) simp
  moreover have "cs_enabled cs' = cs_enabled cs"
    using seek_objects_kept[OF s(1)] seek_objects_kept[OF s(2)] by (simp add: e)
  ultimately show "cs_enabled cs' = cs_enabled cs \<and> is_valid_for_connection cs' = is_valid_for_connection cs" by simp
qed

lemma enabled_add_new_chains [simp]: "cs_enabled (add_new_chains cls ic oc names cs) = cs_enabled cs"
proof -
  have "cs_enabled (fold (\<lambda>p cs. if p \<in> set (chain_names cs) then cs else add_chain_helper cls ic oc p cs) names cs) = cs_enabled cs"
    by (induction names arbitrary: cs) (auto simp: add_chain_helper_def)
  then show ?thesis by (simp add: add_new_chains_def)
qed

lemma enabled_remove_in_dir: "cs_enabled (fst (remove_in_dir iocls a d cs)) = cs_enabled cs"
  by (auto simp: remove_in_dir_def Let_def delete_obj_def split: option.splits audio_dir.splits)

lemma enabled_remove_impl [simp]: "cs_enabled (remove_audio_object_impl iocls a d cs) = cs_enabled cs"
proof (cases "remove_in_dir iocls a d cs")
  case (Pair cs1 r)
  then have "cs_enabled cs1 = cs_enabled cs" using enabled_remove_in_dir[of iocls a d cs] by simp
  then show ?thesis
    using enabled_remove_in_dir[of iocls a "case d of Dir_input \<Rightarrow> Dir_output | Dir_output \<Rightarrow> Dir_input" cs1]
    by (simp add: remove_audio_object_impl_def Pair delete_obj_def Let_def split: option.split)
qed

lemma enabled_attach [simp]:
  "cs_enabled (attach_input_to_selected_chains a cs) = cs_enabled cs" "cs_enabled (attach_output_to_selected_chains a cs) = cs_enabled cs"
  by (simp_all add: attach_input_to_selected_chains_def attach_output_to_selected_chains_def)

lemma enabled_chains [simp]:
  "cs_enabled (remove_chains cs) = cs_enabled cs" "cs_enabled (clear_chains cs) = cs_enabled cs"
  "cs_enabled (rename_chain name cs) = cs_enabled cs" "cs_enabled (select_all_chains cs) = cs_enabled cs"
  "is_valid_for_connection (select_all_chains cs) = is_valid_for_connection cs"
  by (simp_all add: remove_chains_def clear_chains_def on_selected_def rename_chain_def select_all_chains_def Let_def
      is_valid_for_connection_def)


subsection \<open>The operations keep the invariant\<close>

named_theorems keeps

lemma select_chainsetup_ok [keeps]:
  assumes "control_ok ct" "ctl_select_chainsetup name ct = Inr ct'"
  shows "control_ok ct'"
proof -
  obtain se where se: "session_select_chainsetup name (ct_session ct) = Inr se"
      "ct' = (if se_selected se = None then set_error (msg_no_chainsetup name) (ct\<lparr>ct_session := se, ct_selected := se_selected se\<rparr>)
              else ct\<lparr>ct_session := se, ct_selected := se_selected se\<rparr>)"
    using assms(2) by (auto simp: ctl_select_chainsetup_def bind_result_Inr_iff Let_def)
  have "control_ok (ct\<lparr>ct_session := se, ct_selected := se_selected se\<rparr>)"
    using select_ok[OF control_okD(1)[OF assms(1)] se(1)] assms(1) session_okD(5)[of se] by (auto simp: control_ok_def)
  then show ?thesis by (cases "se_selected se") (simp_all add: se(2))
qed

lemma select_by_index_ok [keeps]: "control_ok ct \<Longrightarrow> ctl_select_chainsetup_by_index n ct = Inr ct' \<Longrightarrow> control_ok ct'"
  by (auto simp: ctl_select_chainsetup_by_index_def bind_result_Inr_iff keeps split: if_splits)

lemma add_chainsetup_ok [keeps]:
  assumes "control_ok ct" "control_env_ok E" "name \<noteq> ''''" "ctl_add_chainsetup E name ct = Inr ct'"
  shows "control_ok ct'"
proof -
  let ?se = "ct_session ct"
  obtain se where se: "session_add_chainsetup (ce_session E) name ?se = Inr se" "session_ok se" "se_connected se = se_connected ?se"
    "if name \<in> name_of ?se ` set (se_setups ?se) then se_selected se = None \<and> se_setups se = se_setups ?se \<and> se_heap se = se_heap ?se
     else se_selected se = Some (se_fresh ?se) \<and> se_setups se = se_setups ?se @ [se_fresh ?se] \<and>
          se_heap se = (se_heap ?se)(se_fresh ?se := Some \<lparr>st_name = name, st_filename = '''', st_cs = ve_new (ce_session E)\<rparr>)"
    using session_add_ok[OF control_okD(1)[OF assms(1)] control_envD(1)[OF assms(2)] assms(3)] by blast
  show ?thesis
  proof (cases "name \<in> name_of ?se ` set (se_setups ?se)")
    case True
    then have "ct' = set_error (msg_add_chainsetup name) (ct\<lparr>ct_session := se\<rparr>)"
      using assms(4) se by (simp add: ctl_add_chainsetup_def)
    moreover have "control_ok (ct\<lparr>ct_session := se\<rparr>)" using assms(1) se True by (simp add: control_ok_def)
    ultimately show ?thesis by simp
  next
    case False
    obtain se2 where se2: "session_select_chainsetup name se = Inr se2"
        "ct' = (if se_selected se2 = None then set_error (msg_no_chainsetup name) (ct\<lparr>ct_session := se2, ct_selected := se_selected se2\<rparr>)
              else ct\<lparr>ct_session := se2, ct_selected := se_selected se2\<rparr>)"
      using assms(4) se False by (auto simp: ctl_add_chainsetup_def ctl_select_chainsetup_def bind_result_Inr_iff Let_def)
    have "control_ok (ct\<lparr>ct_session := se2, ct_selected := se_selected se2\<rparr>)"
      using select_ok[OF se(2) se2(1)] assms(1) se(3) session_okD(5)[of se2] by (auto simp: control_ok_def)
    then show ?thesis by (cases "se_selected se2") (simp_all add: se2(2))
  qed
qed

lemma remove_chainsetup_ok [keeps]:
  assumes "control_ok ct" "se_connected (ct_session ct) \<noteq> ct_selected ct"
  shows "control_ok (ctl_remove_chainsetup ct)"
proof -
  have "se_selected (ct_session ct) \<noteq> se_connected (ct_session ct) \<or> se_selected (ct_session ct) = None"
    using control_okD(3)[OF assms(1)] assms(2) by auto
  from session_remove_ok[OF control_okD(1)[OF assms(1)] this] show ?thesis
    using assms(1) by (simp add: control_ok_def ctl_remove_chainsetup_def)
qed

lemma load_chainsetup_ok [keeps]:
  assumes "control_ok ct" "control_env_ok E" "ctl_load_chainsetup E f ct = Inr ct'"
  shows "control_ok ct'"
proof -
  obtain se e where r: "session_load_chainsetup (ce_session E) f (ct_session ct) = Inr (se, e)"
    and ct': "ct' = (case e of None \<Rightarrow> ct\<lparr>ct_session := se, ct_selected := se_selected se\<rparr>
        | Some msg \<Rightarrow> set_error (msg_exception msg) (ct\<lparr>ct_session := se\<rparr>))"
    using assms(3) by (auto simp: ctl_load_chainsetup_def bind_result_Inr_iff Let_def split: option.splits)
  have k: "session_ok se" "se_connected se = se_connected (ct_session ct)" "e \<noteq> None \<Longrightarrow> se_selected se = se_selected (ct_session ct)"
    using session_load_ok[OF control_okD(1)[OF assms(1)] control_envD(1)[OF assms(2)] r] by simp_all
  have e: "e = None \<or> se = set_cs_param_defaults (ct_session ct)"
    using r by (auto simp: session_load_chainsetup_def Let_def no_throw_def bind_result_Inr_iff split: loading.splits)
  show ?thesis
  proof (cases e)
    case None
    then show ?thesis using assms(1) k(1,2) session_okD(5)[OF k(1)] by (auto simp: ct' control_ok_def)
  next
    case (Some msg)
    then have "se = set_cs_param_defaults (ct_session ct)" using e by simp
    then have "control_ok (ct\<lparr>ct_session := se\<rparr>)"
      using assms(1) k(1) by (auto simp: control_ok_def) (auto simp: set_cs_param_defaults_def)
    then show ?thesis by (simp add: ct' Some)
  qed
qed

lemma bmode_valid [simp]: "is_valid_for_connection (select_active_buffering_mode iocls cs) = is_valid_for_connection cs"
  by (rule links_valid) simp

lemma save_unnoticed: "unnoticed con st (fst (cs_save_to_file V f st))" "unnoticed con st (fst (cs_save V st))"
  by (auto simp: cs_save_def cs_save_to_file_def unnoticed_def Let_def split: option.splits)

lemma save_chainsetup_ok [keeps]:
  assumes "control_ok ct" "ctl_save_chainsetup E f ct = Inr ct'"
  shows "control_ok ct'"
proof -
  obtain se e where r: "(if f = '''' then session_save_chainsetup (ce_session E) (ct_session ct)
        else session_save_chainsetup_as (ce_session E) f (ct_session ct)) = Inr (se, e)"
    and ct': "ct' = (case e of None \<Rightarrow> ct\<lparr>ct_session := se\<rparr> | Some msg \<Rightarrow> set_error (msg_exception msg) (ct\<lparr>ct_session := se\<rparr>))"
    using assms(2) by (auto simp: ctl_save_chainsetup_def bind_result_Inr_iff Let_def)
  have "\<exists>a st st'. se_selected (ct_session ct) = Some a \<and> deref (Some a) (ct_session ct) = Inr st \<and>
      se = put_setup (Some a) st' (ct_session ct) \<and> (st' = fst (cs_save (ce_session E) st) \<or> st' = fst (cs_save_to_file (ce_session E) f st))"
    using r by (auto simp: session_save_chainsetup_def session_save_chainsetup_as_def bind_result_Inr_iff case_prod_beta deref_Inr split: if_splits)
  then obtain a st st' where k: "se_selected (ct_session ct) = Some a" "deref (Some a) (ct_session ct) = Inr st"
      "se = put_setup (Some a) st' (ct_session ct)" "unnoticed (se_connected (ct_session ct) = Some a) st st'"
    using save_unnoticed by blast
  have "session_ok se" unfolding k(3) by (rule put_setup_ok[OF control_okD(1)[OF assms(1)] k(2,4)])
  then have "control_ok (ct\<lparr>ct_session := se\<rparr>)" using assms(1) by (simp add: control_ok_def k(3))
  then show ?thesis by (simp add: ct' split: option.split)
qed


subsection \<open>The engine and the connections\<close>

lemma send_ok [keeps]: "control_ok ct \<Longrightarrow> send c ct = Inr ct' \<Longrightarrow> control_ok ct'"
  by (auto simp: send_def control_ok_def split: option.splits)

lemma send_kept:
  "send c ct = Inr ct' \<Longrightarrow> ct_session ct' = ct_session ct \<and> ct_selected ct' = ct_selected ct \<and> (ct_engine ct' = None) = (ct_engine ct = None)"
  by (auto simp: send_def split: option.splits)

text \<open>Names and validity are kept.\<close>

definition valid_kept :: "('io, 'o, 'c) session \<Rightarrow> ('io, 'o, 'c) session \<Rightarrow> bool" where
  "valid_kept se se' \<longleftrightarrow>
     (\<forall>a st. se_heap se a = Some st \<longrightarrow>
       (\<exists>st'. se_heap se' a = Some st' \<and> st_name st' = st_name st \<and>
              (is_valid_for_connection (st_cs st) \<longrightarrow> is_valid_for_connection (st_cs st'))))"

lemma valid_kept_refl [simp]: "valid_kept se se"
  by (simp add: valid_kept_def)

lemma valid_kept_trans:
  assumes "valid_kept se se1" "valid_kept se1 se2"
  shows "valid_kept se se2"
  unfolding valid_kept_def
proof (intro allI impI)
  fix a st assume "se_heap se a = Some st"
  then obtain st1 where 1: "se_heap se1 a = Some st1" "st_name st1 = st_name st"
      "is_valid_for_connection (st_cs st) \<longrightarrow> is_valid_for_connection (st_cs st1)"
    using assms(1) unfolding valid_kept_def by blast
  then obtain st2 where "se_heap se2 a = Some st2" "st_name st2 = st_name st1"
      "is_valid_for_connection (st_cs st1) \<longrightarrow> is_valid_for_connection (st_cs st2)"
    using assms(2) unfolding valid_kept_def by blast
  then show "\<exists>st'. se_heap se2 a = Some st' \<and> st_name st' = st_name st \<and>
      (is_valid_for_connection (st_cs st) \<longrightarrow> is_valid_for_connection (st_cs st'))" using 1 by auto
qed

lemma valid_kept_valid:
  "valid_kept (ct_session ct) (ct_session ct') \<Longrightarrow> ct_selected ct' = ct_selected ct \<Longrightarrow> ctl_is_valid ct = Inr True \<Longrightarrow> ctl_is_valid ct' = Inr True"
  by (fastforce simp: ctl_is_valid_def sel_setup_def bind_result_Inr_iff deref_Inr valid_kept_def)

text \<open>Closing the engine changes the chainsetup that it ran, as far as the engine's thread does.\<close>

lemma close_engine_ok:
  assumes "control_ok ct" "control_env_ok E" "close_engine E ct = Inr ct'"
  shows "control_ok ct' \<and> ct_engine ct' = None \<and> se_connected (ct_session ct') = se_connected (ct_session ct) \<and>
    ct_selected ct' = ct_selected ct \<and> se_selected (ct_session ct') = se_selected (ct_session ct) \<and>
    ct_restart ct' = ct_restart ct \<and> ct_ok ct' = ct_ok ct \<and> ct_reconnect ct' = ct_reconnect ct \<and>
    valid_kept (ct_session ct) (ct_session ct')"
proof (cases "ct_engine ct")
  case None
  then show ?thesis using assms by (simp add: close_engine_def)
next
  case (Some h)
  obtain st where st: "deref (Some (eh_setup h)) (ct_session ct) = Inr st"
      "ct' = ct\<lparr>ct_engine := None, ct_pid := False, ct_exited := False,
         ct_session := put_setup (Some (eh_setup h)) (st\<lparr>st_cs := ce_exit E (st_cs st)\<rparr>) (ct_session ct)\<rparr>"
    using assms(3) Some by (auto simp: close_engine_def bind_result_Inr_iff simp del: deref_Some)
  have "session_ok (put_setup (Some (eh_setup h)) (st\<lparr>st_cs := ce_exit E (st_cs st)\<rparr>) (ct_session ct))"
    by (rule put_setup_ok[OF control_okD(1)[OF assms(1)] st(1)]) (simp add: unnoticed_def control_envD[OF assms(2)])
  moreover have "valid_kept (ct_session ct) (ct_session ct')"
    using st by (auto simp: valid_kept_def deref_Inr control_envD[OF assms(2)])
  ultimately show ?thesis using assms(1) by (simp add: st(2) control_ok_def)
qed

lemma start_engine_ok:
  assumes "control_ok ct" "control_env_ok E" "start_engine_sub E ct = Inr ct'"
  shows "control_ok ct' \<and> ct_selected ct' = ct_selected ct \<and> se_connected (ct_session ct') = se_connected (ct_session ct)"
proof -
  obtain ct1 where 1: "(if is_engine_created ct then close_engine E ct else Inr ct) = Inr ct1" "se_connected (ct_session ct) \<noteq> None"
      "ct' = (if ce_thread_ok E then ct1\<lparr>ct_engine := Some \<lparr>eh_setup = the (se_connected (ct_session ct1)), eh_status = ce_status E, eh_sent = []\<rparr>\<rparr> else ct1)"
    using assms(3) by (auto simp: start_engine_sub_def bind_result_Inr_iff con_setup_def deref_Inr)
  have k: "control_ok ct1" "se_connected (ct_session ct1) = se_connected (ct_session ct)" "ct_selected ct1 = ct_selected ct"
    using 1(1) close_engine_ok[OF assms(1,2)] assms(1) by (auto split: if_splits)
  show ?thesis using k 1(2) by (auto simp: 1(3) control_ok_def)
qed

lemma ctl_start_ok:
  assumes "control_ok ct" "control_env_ok E" "ctl_start E ct = Inr (ok, ct')"
  shows "control_ok ct' \<and> ct_selected ct' = ct_selected ct \<and> se_connected (ct_session ct') = se_connected (ct_session ct)"
proof -
  obtain ct1 where 1: "(if \<not> is_engine_created ct then start_engine_sub E ct else Inr ct) = Inr ct1"
      "(if \<not> is_engine_created ct1 then Inr (False, ct1) else bind_result (send (Sent Ep_start) ct1) (\<lambda>ct2. Inr (True, ct2))) = Inr (ok, ct')"
    using assms(3) by (auto simp: ctl_start_def bind_result_Inr_iff)
  have k: "control_ok ct1" "ct_selected ct1 = ct_selected ct" "se_connected (ct_session ct1) = se_connected (ct_session ct)"
    using 1(1) start_engine_ok[OF assms(1,2)] assms(1) by (auto split: if_splits)
  show ?thesis using 1(2) k send_ok[OF k(1)] send_kept by (force simp: bind_result_Inr_iff split: if_splits)
qed

lemma disconnect_ok:
  assumes "control_ok ct" "control_env_ok E" "ctl_disconnect_chainsetup E ct = Inr ct'"
  shows "control_ok ct' \<and> ct_engine ct' = None \<and> se_connected (ct_session ct') = None \<and> se_connected (ct_session ct) \<noteq> None \<and>
    ct_selected ct' = ct_selected ct \<and> ct_restart ct' = ct_restart ct \<and> ct_ok ct' = ct_ok ct \<and>
    valid_kept (ct_session ct) (ct_session ct')"
proof -
  obtain ct1 ct2 se where 1: "(if is_engine_ready_for_commands ct then stop_on_condition ct else Inr ct) = Inr ct1"
      "(if is_engine_created ct1 then close_engine E ct1 else Inr ct1) = Inr ct2"
      "session_disconnect_chainsetup (ce_session E) (ct_session ct2) = Inr se" "ct' = ct2\<lparr>ct_session := se\<rparr>"
    using assms(3) by (auto simp: ctl_disconnect_chainsetup_def bind_result_Inr_iff)
  have k1: "control_ok ct1" "ct_selected ct1 = ct_selected ct" "ct_session ct1 = ct_session ct" "ct_restart ct1 = ct_restart ct" "ct_ok ct1 = ct_ok ct"
    using 1(1) assms(1) send_ok[OF assms(1)] by (auto simp: stop_on_condition_def send_def split: if_splits option.splits)
  have k2: "control_ok ct2" "ct_engine ct2 = None" "ct_selected ct2 = ct_selected ct" "se_connected (ct_session ct2) = se_connected (ct_session ct)"
      "ct_restart ct2 = ct_restart ct" "ct_ok ct2 = ct_ok ct" "valid_kept (ct_session ct) (ct_session ct2)"
    using 1(2) close_engine_ok[OF k1(1) assms(2)] k1 by (auto simp: is_engine_created_def split: if_splits)
  have s: "session_ok se" "se_connected se = None" "se_selected se = se_selected (ct_session ct2)" "se_setups se = se_setups (ct_session ct2)"
      "se_connected (ct_session ct2) \<noteq> None" "\<forall>a. name_of se a = name_of (ct_session ct2) a"
      "\<forall>a st. se_heap (ct_session ct2) a = Some st \<longrightarrow> (\<exists>st'. se_heap se a = Some st' \<and> links (st_cs st') = links (st_cs st))"
    using session_disconnect_ok[OF control_okD(1)[OF k2(1)] 1(3)] by simp_all
  have "valid_kept (ct_session ct2) se" unfolding valid_kept_def
  proof (intro allI impI)
    fix a st assume a: "se_heap (ct_session ct2) a = Some st"
    then obtain st' where st': "se_heap se a = Some st'" "links (st_cs st') = links (st_cs st)" using s(7) by blast
    then show "\<exists>st'. se_heap se a = Some st' \<and> st_name st' = st_name st \<and>
        (is_valid_for_connection (st_cs st) \<longrightarrow> is_valid_for_connection (st_cs st'))"
      using s(6) a links_valid[OF st'(2)] by (auto simp: name_of_def dest: spec[of _ a])
  qed
  then have "valid_kept (ct_session ct) se" using k2(7) valid_kept_trans by blast
  then show ?thesis using k2 s(1-5) by (simp add: 1(4) control_ok_def)
qed

lemma connected_iff:
  assumes "control_ok ct"
  shows "is_connected ct = Inr (se_connected (ct_session ct) \<noteq> None)"
proof (cases "se_connected (ct_session ct)")
  case (Some a)
  note ok = session_okD[OF control_okD(1)[OF assms]]
  obtain st where "se_heap (ct_session ct) a = Some st" using ok(4,6) Some by blast
  then show ?thesis using ok(8,10) Some by (simp add: is_connected_def con_setup_def)
qed (simp add: is_connected_def)

lemma connect_ok:
  assumes "control_ok ct" "control_env_ok E" "ctl_connect_chainsetup E ct = Inr ct'" "ctl_is_valid ct = Inr True"
  shows "control_ok ct' \<and> ct_selected ct' = ct_selected ct \<and> ct_restart ct' = ct_restart ct \<and> ct_engine ct' = None \<and>
    se_connected (ct_session ct') \<in> {None, ct_selected ct}"
proof -
  obtain ct1 se e where 1: "(if se_connected (ct_session ct) \<noteq> None then ctl_disconnect_chainsetup E ct else Inr ct) = Inr ct1"
      "session_connect_chainsetup (ce_session E) (ct_session ct1) = Inr (se, e)"
      "\<exists>c. ct' = (if c then ct1\<lparr>ct_session := se\<rparr> else set_error (msg_connecting e) (ct1\<lparr>ct_session := se\<rparr>))"
    using assms(3) by (auto simp: ctl_connect_chainsetup_def connected_iff[OF assms(1)] bind_result_Inr_iff Let_def)
  have k: "control_ok ct1" "ct_selected ct1 = ct_selected ct" "ct_engine ct1 = None" "se_connected (ct_session ct1) = None"
      "ct_restart ct1 = ct_restart ct" "valid_kept (ct_session ct) (ct_session ct1)"
    using 1(1) disconnect_ok[OF assms(1,2)] assms(1) by (auto simp: control_ok_def split: if_splits)
  have "ctl_is_valid ct1 = Inr True" by (rule valid_kept_valid[OF k(6,2) assms(4)])
  then have v: "is_valid_for_connection (st_cs st)" if "se_selected (ct_session ct1) = Some a" "se_heap (ct_session ct1) a = Some st" for a st
    using that control_okD(3)[OF k(1)] by (auto simp: ctl_is_valid_def sel_setup_def bind_result_Inr_iff deref_Inr)
  have s: "session_ok se" "se_selected se = se_selected (ct_session ct1)" "se_setups se = se_setups (ct_session ct1)"
      "se_connected se \<in> {None, se_selected (ct_session ct1)}"
    using session_connect_ok[OF control_okD(1)[OF k(1)] 1(2)] v k(4) by (auto split: if_splits)
  have "control_ok (ct1\<lparr>ct_session := se\<rparr>)" using k(1,3) s(1-3) by (simp add: control_ok_def)
  moreover have "se_connected se \<in> {None, ct_selected ct}" using s(4) control_okD(3)[OF k(1)] k(2) by auto
  ultimately show ?thesis using k(2,3,5) 1(3) by (auto simp: set_error_def split: if_splits)
qed

end
