(* ===== verification/Control_Steps.thy ===== *)
theory Control_Steps
  imports Control_Facts
begin

text \<open>
  The operations of \<open>libecasound/eca-control-objects.cpp\<close> keep the invariant of the control interface. Those
  that may make a chainsetup invalid need that the selected chainsetup is not the connected one.
\<close>

subsection \<open>Steps on the selected chainsetup\<close>

lemma quiet_ok: "control_ok ct \<Longrightarrow> on_selected_cs f ct = Inr ct' \<Longrightarrow> quiet True f \<Longrightarrow> control_ok ct'"
  by (rule on_selected_ok[where con = True]) auto

lemma apart_ok: "control_ok ct \<Longrightarrow> on_selected_cs f ct = Inr ct' \<Longrightarrow> quiet False f \<Longrightarrow> se_connected (ct_session ct) \<noteq> ct_selected ct \<Longrightarrow> control_ok ct'"
  by (rule on_selected_ok[where con = False]) auto

lemma quiet_Inr:
  "(\<And>cs. cs_enabled (f cs) = cs_enabled cs) \<Longrightarrow> (\<And>cs. con \<Longrightarrow> is_valid_for_connection (f cs) = is_valid_for_connection cs) \<Longrightarrow>
     quiet con (\<lambda>cs. Inr (f cs))"
  by (auto simp: quiet_def)

lemma quiet_settings:
  "quiet True (\<lambda>cs. Inr (cs\<lparr>cs_selected := f1 cs\<rparr>))" "quiet True (\<lambda>cs. Inr (cs\<lparr>cs_position := f2 cs\<rparr>))"
  "quiet True (\<lambda>cs. Inr (cs\<lparr>cs_buffersize := n\<rparr>))" "quiet True (\<lambda>cs. Inr (select_all_chains cs))"
  by (rule quiet_Inr; simp add: is_valid_for_connection_def select_all_chains_def)+

lemma on_position_ok [keeps]: "control_ok ct \<Longrightarrow> on_position f ct = Inr ct' \<Longrightarrow> control_ok ct'"
  unfolding on_position_def by (rule quiet_ok[OF _ _ quiet_settings(2)])

lemma set_length_seconds_ok [keeps]: "control_ok ct \<Longrightarrow> set_chainsetup_processing_length_in_seconds v ct = Inr ct' \<Longrightarrow> control_ok ct'"
  unfolding set_chainsetup_processing_length_in_seconds_def by (rule on_position_ok)

lemma set_length_samples_ok [keeps]: "control_ok ct \<Longrightarrow> set_chainsetup_processing_length_in_samples n ct = Inr ct' \<Longrightarrow> control_ok ct'"
  unfolding set_chainsetup_processing_length_in_samples_def by (rule on_position_ok)

lemma toggle_looping_ok [keeps]: "control_ok ct \<Longrightarrow> toggle_chainsetup_looping ct = Inr ct' \<Longrightarrow> control_ok ct'"
  unfolding toggle_chainsetup_looping_def by (rule on_position_ok)

lemma quiet_bind: "(\<And>x. quiet con (g x)) \<Longrightarrow> quiet con (\<lambda>cs. bind_result (f cs) (\<lambda>x. g x cs))"
  by (auto simp: quiet_def bind_result_Inr_iff)

lemma position_command_ok [keeps]:
  assumes "control_ok ct" "position_command E cmd target ct = Inr ct'"
  shows "control_ok ct'"
proof -
  have q: "quiet True (\<lambda>cs. bind_result (target (cp_pos (cs_position cs))) (\<lambda>pos. cs_seek_position_in_samples (ve_io (ce_session E)) pos cs))"
    by (rule quiet_bind) (rule quiet_seek)
  have "(\<exists>c. send c ct = Inr ct') \<or>
      on_selected_cs (\<lambda>cs. bind_result (target (cp_pos (cs_position cs))) (\<lambda>pos. cs_seek_position_in_samples (ve_io (ce_session E)) pos cs)) ct = Inr ct'"
    using assms(2) by (auto simp: position_command_def bind_result_Inr_iff split: if_splits)
  then show ?thesis using send_ok[OF assms(1)] quiet_ok[OF assms(1) _ q] by blast
qed

lemma change_position_ok [keeps]: "control_ok ct \<Longrightarrow> change_chainsetup_position E s ct = Inr ct' \<Longrightarrow> control_ok ct'"
  unfolding change_chainsetup_position_def by (rule position_command_ok)

lemma set_position_ok [keeps]: "control_ok ct \<Longrightarrow> set_chainsetup_position E s ct = Inr ct' \<Longrightarrow> control_ok ct'"
  unfolding set_chainsetup_position_def by (rule position_command_ok)

lemma set_position_samples_ok [keeps]:
  assumes "control_ok ct" "set_chainsetup_position_samples E n ct = Inr ct'"
  shows "control_ok ct'"
proof -
  consider s where "set_chainsetup_position E s ct = Inr ct'" | "on_selected_cs (cs_seek_position_in_samples (ve_io (ce_session E)) n) ct = Inr ct'"
    using assms(2) by (auto simp: set_chainsetup_position_samples_def bind_result_Inr_iff split: if_splits)
  then show ?thesis using set_position_ok[OF assms(1)] quiet_ok[OF assms(1) _ quiet_seek] by cases auto
qed

text \<open>Options. They may connect and disconnect chains, so that the chainsetup has to be apart from the connected one.\<close>

lemma put_apart_ok:
  assumes "control_ok ct" "sel_setup ct = Inr st" "se_connected (ct_session ct) \<noteq> ct_selected ct"
    "st_name st' = st_name st" "cs_enabled (st_cs st') = cs_enabled (st_cs st)"
  shows "control_ok (put_selected st' ct)"
  by (rule put_selected_ok[OF assms(1,2)]) (use assms(3-5) in \<open>simp add: unnoticed_def\<close>)

lemma set_options_ok [keeps]:
  assumes "control_ok ct" "control_env_ok E" "se_connected (ct_session ct) \<noteq> ct_selected ct" "set_options E opts ct = Inr ct'"
  shows "control_ok ct'"
proof -
  obtain st where st: "sel_setup ct = Inr st" using assms(4) by (auto simp: set_options_def bind_result_Inr_iff)
  obtain st1 e where p: "ce_options E opts st = (st1, e)" by fastforce
  have "control_ok (put_selected st1 ct)"
    by (rule put_apart_ok[OF assms(1) st assms(3)]) (use control_envD(2,3)[OF assms(2), of opts st] in \<open>simp_all add: p\<close>)
  then show ?thesis using assms(4) by (auto simp: set_options_def st p split: option.splits)
qed

lemma set_parameter_ok [keeps]:
  assumes "control_ok ct" "control_env_ok E" "se_connected (ct_session ct) \<noteq> ct_selected ct" "set_chainsetup_parameter E opt ct = Inr ct'"
  shows "control_ok ct'"
proof -
  obtain st where st: "sel_setup ct = Inr st" using assms(4) by (auto simp: set_chainsetup_parameter_def bind_result_Inr_iff)
  obtain st1 e where p: "ce_global_option E opt st = (st1, e)" by fastforce
  note k = control_envD(4,5)[OF assms(2), of opt st] control_envD(6,7)[OF assms(2), of opt st1]
  have "control_ok (put_selected st1 ct)" "control_ok (put_selected (fst (ce_object_option E opt st1)) ct)"
    by (rule put_apart_ok[OF assms(1) st assms(3)]; use k in \<open>simp add: p\<close>)+
  then show ?thesis using assms(4) by (auto simp: set_chainsetup_parameter_def st p split: option.splits)
qed

text \<open>An option is \<open>harmless\<close> when it keeps a valid chainsetup valid.\<close>

definition harmless :: "('io, 'o, 'c, 's) control_env \<Rightarrow> string \<Rightarrow> bool" where
  "harmless E opt \<longleftrightarrow>
     (\<forall>st. is_valid_for_connection (st_cs st) \<longrightarrow> is_valid_for_connection (st_cs (fst (ce_object_option E opt st))))"

lemma object_option_ok:
  assumes "control_ok ct" "control_env_ok E" "harmless E opt \<or> se_connected (ct_session ct) \<noteq> ct_selected ct"
    "object_option E opt ct = Inr (ok, ct')"
  shows "control_ok ct' \<and> ct_selected ct' = ct_selected ct \<and> se_connected (ct_session ct') = se_connected (ct_session ct)"
proof -
  obtain st where st: "sel_setup ct = Inr st" using assms(4) by (auto simp: object_option_def bind_result_Inr_iff)
  obtain st1 e where p: "ce_object_option E opt st = (st1, e)" by fastforce
  have "is_valid_for_connection (st_cs st) \<Longrightarrow> is_valid_for_connection (st_cs st1)" if "harmless E opt"
    using that p unfolding harmless_def by (metis fst_conv)
  then have "control_ok (put_selected st1 ct)"
    by (intro put_selected_ok[OF assms(1) st])
      (use assms(3) control_envD(6,7)[OF assms(2), of opt st] in \<open>auto simp: unnoticed_def p\<close>)
  moreover have "ct' = put_selected st1 ct \<or> (\<exists>msg. ct' = set_error msg (put_selected st1 ct))"
    using assms(4) by (auto simp: object_option_def st p split: option.splits)
  ultimately show ?thesis by (auto simp: put_selected_def) (auto simp: set_error_def)
qed

subsection \<open>Chains\<close>

lemma select_chains_ok [keeps]: "control_ok ct \<Longrightarrow> select_chains names ct = Inr ct' \<Longrightarrow> control_ok ct'"
  unfolding select_chains_def by (rule quiet_ok[OF _ _ quiet_settings(1)])

lemma select_chains_by_index_ok [keeps]: "control_ok ct \<Longrightarrow> select_chains_by_index ns ct = Inr ct' \<Longrightarrow> control_ok ct'"
  unfolding select_chains_by_index_def by (rule quiet_ok[OF _ _ quiet_settings(1)])

lemma deselect_chains_ok [keeps]: "control_ok ct \<Longrightarrow> deselect_chains names ct = Inr ct' \<Longrightarrow> control_ok ct'"
  unfolding deselect_chains_def by (rule quiet_ok[OF _ _ quiet_settings(1)])

lemma select_all_chains_ok [keeps]: "control_ok ct \<Longrightarrow> ctl_select_all_chains ct = Inr ct' \<Longrightarrow> control_ok ct'"
  unfolding ctl_select_all_chains_def by (rule quiet_ok[OF _ _ quiet_settings(4)])

lemma edit_chains_ok [keeps]:
  assumes "control_ok ct" "se_connected (ct_session ct) \<noteq> ct_selected ct"
  shows "add_chains E names ct = Inr ct' \<Longrightarrow> control_ok ct'"
    and "ctl_remove_chains ct = Inr ct' \<Longrightarrow> control_ok ct'"
    and "ctl_clear_chains ct = Inr ct' \<Longrightarrow> control_ok ct'"
    and "ctl_rename_chain name ct = Inr ct' \<Longrightarrow> control_ok ct'"
  by (auto simp: add_chains_def ctl_remove_chains_def ctl_clear_chains_def ctl_rename_chain_def
      intro: apart_ok[OF assms(1) _ quiet_Inr assms(2)])


subsection \<open>Operators and controllers\<close>

text \<open>The steps of a chain keep its connections.\<close>

definition ends :: "('o, 'c, 'v) chain \<Rightarrow> int \<times> int" where
  "ends ch = (ch_input ch, ch_output ch)"

lemma valid_by_ends: "ends ch' = ends ch \<Longrightarrow> chain_is_valid ch' = chain_is_valid ch"
  by (simp add: ends_def chain_is_valid_def)

named_theorems ends_kept

lemma ends_updates [simp]:
  "ends (delete_op p ch) = ends ch" "ends (ch\<lparr>ch_sel_op := i\<rparr>) = ends ch" "ends (ch\<lparr>ch_initialized := b\<rparr>) = ends ch"
  "ends (ch\<lparr>ch_sel_dynobj := d\<rparr>) = ends ch"
  by (simp_all add: delete_op_def ends_def Let_def)

lemma ends_remove_op_loop: "remove_op_loop target i p ch = Inr ch' \<Longrightarrow> ends ch' = ends ch"
proof (induction target i p ch rule: remove_op_loop.induct)
  case (1 target i p ch)
  show ?case
    using 1(3) 1(1)[OF _ _ _ refl] 1(2) by (subst (asm) remove_op_loop.simps) (auto simp: Let_def split: if_splits)
qed

lemma ends_remove_chain_operator [ends_kept]: "remove_chain_operator i ch = Inr ch' \<Longrightarrow> ends ch' = ends ch"
  by (auto simp: remove_chain_operator_def Let_def bind_result_Inr_iff split: if_splits dest: ends_remove_op_loop)

lemma ends_select_chain_operator [ends_kept]: "select_chain_operator i ch = Inr ch' \<Longrightarrow> ends ch' = ends ch"
  by (auto simp: select_chain_operator_def selected_chain_operator_as_target_def bind_result_Inr_iff split: if_splits)

lemma ends_simps [simp]:
  "ends (select_chain_operator_parameter i ch) = ends ch" "ends (select_controller i ch) = ends ch"
  "ends (select_controller_parameter i ch) = ends ch" "ends (remove_controller ch) = ends ch"
  "ends (set_mute i ch) = ends ch" "ends (set_bypass i ch) = ends ch" "ends (bypass_operator i j ch) = ends ch"
  "ends (chain_set_parameter cls i p v ch) = ends ch" "ends (set_controller_parameter src i p v ch) = ends ch"
  by (simp_all add: ends_def select_chain_operator_parameter_def select_controller_def select_controller_parameter_def
      remove_controller_def set_mute_def set_bypass_def bypass_operator_def chain_set_parameter_def update_op_def
      set_controller_parameter_def Let_def)

lemma on_the_chain_ok:
  assumes "control_ok ct" "on_the_chain f ct = Inr ct'" "\<And>ch ch'. f ch = Inr ch' \<Longrightarrow> ends ch' = ends ch"
  shows "control_ok ct'"
  by (rule quiet_ok[OF assms(1) assms(2)[unfolded on_the_chain_def] quiet_on_chain]) (rule valid_by_ends[OF assms(3)])

lemma chain_steps_ok [keeps]:
  assumes "control_ok ct"
  shows "ctl_remove_chain_operator ct = Inr ct' \<Longrightarrow> control_ok ct'"
    and "ctl_select_chain_operator i ct = Inr ct' \<Longrightarrow> control_ok ct'"
    and "ctl_select_chain_operator_parameter i ct = Inr ct' \<Longrightarrow> control_ok ct'"
    and "ctl_select_controller i ct = Inr ct' \<Longrightarrow> control_ok ct'"
    and "ctl_select_controller_parameter i ct = Inr ct' \<Longrightarrow> control_ok ct'"
    and "ctl_remove_controller ct = Inr ct' \<Longrightarrow> control_ok ct'"
  by (auto simp: ctl_remove_chain_operator_def ctl_select_chain_operator_def ctl_select_chain_operator_parameter_def
      ctl_select_controller_def ctl_select_controller_parameter_def ctl_remove_controller_def ends_kept
      intro: on_the_chain_ok[OF assms] split: if_splits)

text \<open>The lists.\<close>

lemma fold_names_ends:
  assumes "fold_result f ns (s, ch) = Inr (names, ch')" "\<And>n s q s' q'. f n (s, q) = Inr (s', q') \<Longrightarrow> ends q' = ends q"
  shows "ends ch' = ends ch"
  using assms(1)
proof (induction ns arbitrary: s ch)
  case (Cons n ns)
  then show ?case using assms(2) by (fastforce simp: bind_result_Inr_iff)
qed simp

lemma ends_chain_operator_names [ends_kept]:
  assumes "chain_operator_names_of nm ch = Inr (names, ch')"
  shows "ends ch' = ends ch"
proof -
  obtain q where q: "fold_result (\<lambda>n (names, ch). bind_result (select_chain_operator (int n + 1) ch) (\<lambda>ch1.
         bind_result (chain_operator_name nm ch1) (\<lambda>s. Inr (names @ [s], ch1)))) [0..<length (ch_ops ch)] ([], ch) = Inr (names, q)"
      "select_chain_operator (ch_sel_op ch) q = Inr ch'"
    using assms by (auto simp: chain_operator_names_of_def bind_result_Inr_iff)
  have "ends q = ends ch" by (rule fold_names_ends[OF q(1)]) (auto simp: bind_result_Inr_iff ends_kept)
  then show ?thesis using q(2) by (simp add: ends_kept)
qed

lemma ends_chain_operator_parameter_names [ends_kept]:
  assumes "chain_operator_parameter_names_of cls nm ch = Inr (names, ch')"
  shows "ends ch' = ends ch"
proof (cases "ch_sel_op ch > 0")
  case True
  then obtain k q where q: "fold_result (\<lambda>n (names, ch). let ch1 = select_chain_operator_parameter (int n + 1) ch in
         bind_result (selected_op ch1) (\<lambda>c. Inr (names @ [nm (ch_sel_op_param ch1) (cop_obj c)], ch1))) [0..<nat k] ([], ch) = Inr (names, q)"
      "ch' = select_chain_operator_parameter (ch_sel_op_param ch) q"
    using assms by (auto simp: chain_operator_parameter_names_of_def bind_result_Inr_iff)
  have "ends q = ends ch" by (rule fold_names_ends[OF q(1)]) (auto simp: bind_result_Inr_iff Let_def)
  then show ?thesis by (simp add: q(2))
qed (use assms in \<open>simp add: chain_operator_parameter_names_of_def\<close>)

lemma ends_controller_names [ends_kept]:
  assumes "controller_names_of nm ch = Inr (names, ch')"
  shows "ends ch' = ends ch"
proof -
  obtain q where q: "fold_result (\<lambda>n (names, ch). let ch1 = select_controller (int n + 1) ch in
         bind_result (selected_ctrl ch1) (\<lambda>q. Inr (names @ [nm (gc_source q)], ch1))) [0..<length (ch_ctrls ch)] ([], ch) = Inr (names, q)"
      "ch' = select_controller (ch_sel_ctrl ch) q"
    using assms by (auto simp: controller_names_of_def bind_result_Inr_iff)
  have "ends q = ends ch" by (rule fold_names_ends[OF q(1)]) (auto simp: bind_result_Inr_iff Let_def)
  then show ?thesis by (simp add: q(2))
qed

lemma ends_controller_parameter_names [ends_kept]:
  assumes "controller_parameter_names_of ps nm ch = Inr (names, ch')"
  shows "ends ch' = ends ch"
proof -
  obtain k q where q: "fold_result (\<lambda>n (names, ch). let ch1 = select_controller_parameter (int n + 1) ch in
         bind_result (selected_ctrl ch1) (\<lambda>q. Inr (names @ [nm (ch_sel_ctrl_param ch1) (gc_source q)], ch1))) [0..<k] ([], ch) = Inr (names, q)"
      "ch' = select_controller_parameter (ch_sel_ctrl_param ch) q"
    using assms by (auto simp: controller_parameter_names_of_def bind_result_Inr_iff)
  have "ends q = ends ch" by (rule fold_names_ends[OF q(1)]) (auto simp: bind_result_Inr_iff Let_def)
  then show ?thesis by (simp add: q(2))
qed

lemma list_of_chain_ok [keeps]:
  assumes "control_ok ct" "list_of_chain f ct = Inr ct'" "\<And>ch names ch'. f ch = Inr (names, ch') \<Longrightarrow> ends ch' = ends ch"
  shows "control_ok ct'"
proof -
  obtain st where st: "sel_setup ct = Inr st" using assms(2) by (auto simp: list_of_chain_def bind_result_Inr_iff)
  define p where "p = first_selected_chain (st_cs st)"
  show ?thesis
  proof (cases "p < length (cs_chains (st_cs st))")
    case True
    then obtain names ch where r: "f (cs_chains (st_cs st) ! p) = Inr (names, ch)"
        "ct' = set_ret (Ret_strings names) (put_selected (st\<lparr>st_cs := (st_cs st)\<lparr>cs_chains := (cs_chains (st_cs st))[p := ch]\<rparr>\<rparr>) ct)"
      using assms(2) st by (auto simp: list_of_chain_def bind_result_Inr_iff Let_def p_def)
    have "is_valid_for_connection ((st_cs st)\<lparr>cs_chains := (cs_chains (st_cs st))[p := ch]\<rparr>) = is_valid_for_connection (st_cs st)"
      by (rule valid_chain_update[OF True valid_by_ends[OF assms(3)[OF r(1)]]])
    then have "unnoticed (se_connected (ct_session ct) = ct_selected ct) st (st\<lparr>st_cs := (st_cs st)\<lparr>cs_chains := (cs_chains (st_cs st))[p := ch]\<rparr>\<rparr>)"
      by (simp add: unnoticed_def)
    then show ?thesis using put_selected_ok[OF assms(1) st] r(2) by simp
  next
    case False
    then show ?thesis using assms(1,2) st by (auto simp: list_of_chain_def p_def)
  qed
qed

text \<open>Edits.\<close>

lemma edit_keeps:
  "cs_enabled (snd (execute_edit cls src ed cs)) = cs_enabled cs"
  "is_valid_for_connection (snd (execute_edit cls src ed cs)) = is_valid_for_connection cs"
proof -
  have e: "cs_enabled (snd (edit_chain n f cs)) = cs_enabled cs" for n f cs by (simp add: edit_chain_def)
  have v: "is_valid_for_connection (snd (edit_chain n f cs)) = is_valid_for_connection cs"
    if "\<And>ch. ends (f ch) = ends ch" for n f and cs :: "('a, 'b, 'c, 'd) chainsetup"
    using that by (auto simp: edit_chain_def intro!: valid_chain_update valid_by_ends)
  show "cs_enabled (snd (execute_edit cls src ed cs)) = cs_enabled cs" by (cases ed) (simp_all add: e)
  show "is_valid_for_connection (snd (execute_edit cls src ed cs)) = is_valid_for_connection cs" by (cases ed) (simp_all add: v)
qed

text \<open>The option string of an edit that adds an object.\<close>

definition option_of :: "string \<Rightarrow> string" where
  "option_of params = (if length params > 0 \<and> params ! 0 = CHR ''-'' then params else ''-'' @ params)"

fun tame :: "('io, 'o, 'c, 's) control_env \<Rightarrow> sent \<Rightarrow> bool" where
  "tame E (Sent_add n params) = harmless E (option_of params)"
| "tame E (Sent c) = True"

lemma locked_valid [simp]: "is_valid_for_connection (cs\<lparr>cs_locked := b\<rparr>) = is_valid_for_connection cs"
  by (simp add: is_valid_for_connection_def)

lemma execute_sent_unnoticed:
  assumes "control_env_ok E" "tame E c \<or> \<not> con"
  shows "unnoticed con st (execute_sent E c st)"
proof (cases c)
  case (Sent cmd)
  then show ?thesis by (cases cmd) (simp_all add: execute_sent_def unnoticed_def edit_keeps)
next
  case (Sent_add n params)
  let ?st = "st\<lparr>st_cs := (st_cs st)\<lparr>cs_locked := False\<rparr>\<rparr>"
  have "is_valid_for_connection (st_cs (fst (ce_object_option E (option_of params) ?st)))"
    if con "is_valid_for_connection (st_cs st)"
    using that assms(2) by (auto simp: Sent_add harmless_def)
  then show ?thesis
    by (simp add: execute_sent_def Sent_add unnoticed_def Let_def option_of_def control_envD[OF assms(1)])
qed

lemma on_connected_ok:
  assumes "control_ok ct" "control_env_ok E" "tame E c" "execute_edit_on_connected E c ct = Inr ct'"
  shows "control_ok ct'"
proof (cases "is_engine_ready_for_commands ct")
  case True
  then show ?thesis using assms send_ok by (simp add: execute_edit_on_connected_def)
next
  case False
  then obtain st where st: "con_setup ct = Inr st"
      "ct' = ct\<lparr>ct_session := put_setup (se_connected (ct_session ct)) (execute_sent E c st) (ct_session ct)\<rparr>"
    using assms(4) by (auto simp: execute_edit_on_connected_def bind_result_Inr_iff)
  have "session_ok (put_setup (se_connected (ct_session ct)) (execute_sent E c st) (ct_session ct))"
    by (rule put_setup_ok[OF control_okD(1)[OF assms(1)] st(1)[unfolded con_setup_def]])
      (use execute_sent_unnoticed[OF assms(2)] assms(3) in simp)
  then show ?thesis using assms(1) by (simp add: st(2) control_ok_def)
qed

lemma edit_the_chain_ok:
  assumes "control_ok ct" "control_env_ok E" "edit_the_chain E f ct = Inr ct'" "\<And>n ch. tame E (f n ch)"
  shows "control_ok ct'"
proof -
  obtain st where st: "sel_setup ct = Inr st" using assms(3) by (auto simp: edit_the_chain_def bind_result_Inr_iff)
  then have sel: "ct_selected ct \<noteq> None" by (auto simp: sel_setup_def deref_Inr)
  have "ct' = ct \<or> (\<exists>n ch. execute_edit_on_connected E (f n ch) ct = Inr ct') \<or> (\<exists>n ch. ct' = put_selected (execute_sent E (f n ch) st) ct)"
    using assms(3) st sel by (auto simp: edit_the_chain_def execute_edit_on_selected_def Let_def split: if_splits)
  moreover have "control_ok (put_selected (execute_sent E (f n ch) st) ct)" for n ch
    by (rule put_selected_ok[OF assms(1) st]) (use execute_sent_unnoticed[OF assms(2)] assms(4) in simp)
  ultimately show ?thesis using on_connected_ok[OF assms(1,2) assms(4)] assms(1) by blast
qed


subsection \<open>Audio objects\<close>

lemma set_aio_kept [simp]: "ct_session (set_aio d p ct) = ct_session ct" "ct_selected (set_aio d p ct) = ct_selected ct"
  "ct_engine (set_aio d p ct) = ct_engine ct" "ct_ok (set_aio d p ct) = ct_ok ct" "ct_reconnect (set_aio d p ct) = ct_reconnect ct"
  "ct_args (set_aio d p ct) = ct_args ct" "ct_argf (set_aio d p ct) = ct_argf ct" "ct_restart (set_aio d p ct) = ct_restart ct"
  by (simp_all add: set_aio_def split: audio_dir.split)

lemma get_audio_object_kept:
  "get_audio_object d ct = Inr (ptr, ct') \<Longrightarrow> ct' = ct \<or> ct' = set_aio d None ct"
  by (auto simp: get_audio_object_def bind_result_Inr_iff Let_def)

lemma get_audio_object_ok [keeps]: "control_ok ct \<Longrightarrow> get_audio_object d ct = Inr (ptr, ct') \<Longrightarrow> control_ok ct'"
  by (auto dest: get_audio_object_kept)

lemma put_aio_ok:
  assumes "control_ok ct" "put_aio ptr x ct = Inr ct'"
  shows "control_ok ct'"
proof -
  obtain s a where ptr: "ptr = Some (s, a)" using assms(2) by (auto simp: put_aio_def split: option.splits)
  obtain st where st: "deref (Some s) (ct_session ct) = Inr st"
      "ct' = ct\<lparr>ct_session := put_setup (Some s) (st\<lparr>st_cs := put_obj a x (st_cs st)\<rparr>) (ct_session ct)\<rparr>"
    using assms(2) ptr by (auto simp: put_aio_def bind_result_Inr_iff simp del: deref_Some)
  have "is_valid_for_connection (put_obj a x (st_cs st)) = is_valid_for_connection (st_cs st)"
    by (simp add: is_valid_for_connection_def put_obj_def)
  then have "session_ok (put_setup (Some s) (st\<lparr>st_cs := put_obj a x (st_cs st)\<rparr>) (ct_session ct))"
    by (intro put_setup_ok[OF control_okD(1)[OF assms(1)] st(1)]) (simp add: unnoticed_def)
  then show ?thesis using assms(1) by (simp add: st(2) control_ok_def)
qed

lemma seek_audio_object_ok: "control_ok ct \<Longrightarrow> seek_audio_object E target ct = Inr ct' \<Longrightarrow> control_ok ct'"
  by (auto simp: seek_audio_object_def bind_result_Inr_iff dest: put_aio_ok)

lemma moving_ok:
  assumes "control_ok ct" "moving f d ct = Inr ct'" "\<And>ct ct'. control_ok ct \<Longrightarrow> f ct = Inr ct' \<Longrightarrow> control_ok ct'"
  shows "control_ok ct'"
proof -
  obtain ptr ct1 where "get_audio_object d ct = Inr (ptr, ct1)" "f (ct1\<lparr>ct_object := ptr\<rparr>) = Inr ct'"
    using assms(2) by (auto simp: moving_def audio_object_as_selected_def bind_result_Inr_iff)
  then show ?thesis using assms(3)[of "ct1\<lparr>ct_object := ptr\<rparr>"] get_audio_object_ok[OF assms(1)] by simp
qed

lemma select_audio_object_ok [keeps]: "control_ok ct \<Longrightarrow> select_audio_object E d name ct = Inr ct' \<Longrightarrow> control_ok ct'"
  by (auto simp: select_audio_object_def bind_result_Inr_iff)

lemma select_audio_object_by_index_ok [keeps]: "control_ok ct \<Longrightarrow> select_audio_object_by_index d n ct = Inr ct' \<Longrightarrow> control_ok ct'"
  by (auto simp: select_audio_object_by_index_def bind_result_Inr_iff split: if_splits)

lemma add_audio_object_ok [keeps]:
  assumes "control_ok ct" "control_env_ok E" "se_connected (ct_session ct) \<noteq> ct_selected ct" "add_audio_object E d f ct = Inr ct'"
  shows "control_ok ct'"
proof -
  have ok: "control_ok (set_aio d None ct)" using assms(1) by simp
  have ap: "harmless E opt \<or> se_connected (ct_session (set_aio d None ct)) \<noteq> ct_selected (set_aio d None ct)" for opt
    using assms(3) by simp
  obtain b ct1 where 1: "object_option E ((case d of Dir_input \<Rightarrow> ''-i:'' | Dir_output \<Rightarrow> ''-o:'') @ f) (set_aio d None ct) = Inr (b, ct1)"
      "ct' = ct1 \<or> (\<exists>name. select_audio_object E d name ct1 = Inr ct')"
    using assms(4) by (auto simp: add_audio_object_def bind_result_Inr_iff split: if_splits)
  have "control_ok ct1" using object_option_ok[OF ok assms(2) ap 1(1)] by simp
  then show ?thesis using 1(2) select_audio_object_ok by auto
qed

lemma remove_audio_object_ok [keeps]:
  assumes "control_ok ct" "se_connected (ct_session ct) \<noteq> ct_selected ct" "remove_audio_object E d ct = Inr ct'"
  shows "control_ok ct'"
proof -
  obtain ct1 where 1: "on_selected_cs (\<lambda>cs. Inr (remove_audio_object_impl (ve_io (ce_session E)) (local_address (aio_of d ct) ct cs) d cs)) ct = Inr ct1"
      "ct' = set_aio d None ct1"
    using assms(3) by (auto simp: remove_audio_object_def bind_result_Inr_iff)
  have "control_ok ct1" by (rule apart_ok[OF assms(1) 1(1) _ assms(2)]) (simp add: quiet_def)
  then show ?thesis by (simp add: 1(2))
qed

lemma attach_audio_object_ok [keeps]:
  assumes "control_ok ct" "se_connected (ct_session ct) \<noteq> ct_selected ct" "attach_audio_object d ct = Inr ct'"
  shows "control_ok ct'"
proof -
  have "on_selected_cs (\<lambda>cs. Inr (case d of
           Dir_input \<Rightarrow> attach_input_to_selected_chains (local_address (aio_of d ct) ct cs) cs
         | Dir_output \<Rightarrow> attach_output_to_selected_chains (local_address (aio_of d ct) ct cs) cs)) ct = Inr ct'"
    using assms(3) by (auto simp: attach_audio_object_def bind_result_Inr_iff)
  then show ?thesis by (rule apart_ok[OF assms(1) _ _ assms(2)]) (simp add: quiet_def split: audio_dir.split)
qed

end

