(* ===== verification/Control_Invariant.thy ===== *)
theory Control_Invariant
  imports Control_Steps
begin

text \<open>
  Every action of the interactive mode keeps the invariant of the control interface: the actions, the
  preconditions that select, connect or disconnect a chainsetup first, and the reconnection afterwards.
\<close>

subsection \<open>The actions\<close>

text \<open>
  A state is detached when the selected chainsetup is not the connected one. Where an action works on
  the selected chainsetup, there is one.
\<close>

definition detached :: "('io, 'o, 'c) control \<Rightarrow> bool" where
  "detached ct \<longleftrightarrow>
     se_connected (ct_session ct) = None \<or> ct_selected ct \<noteq> None \<and> se_connected (ct_session ct) \<noteq> ct_selected ct"

lemma detached_cases:
  assumes "detached ct"
  obtains (apart) "se_connected (ct_session ct) \<noteq> ct_selected ct" | (nothing) "ct_selected ct = None" "se_connected (ct_session ct) = None" "sel_setup ct = Inl Undefined_behaviour"
  using assms by (cases "ct_selected ct") (auto simp: detached_def sel_setup_def)

text \<open>The option string that an action hands to the chainsetup without disconnecting it.\<close>

fun edit_option :: "action \<Rightarrow> ('io, 'o, 'c) control \<Rightarrow> string option" where
  "edit_option (Cop Cop_add) ct = Some (option_of (first_arg ct))"
| "edit_option (Ctrl Ctrl_add) ct = Some (option_of (first_arg ct))"
| "edit_option (Cs Cs_set_audio_format) ct = Some (''-f:'' @ first_arg ct)"
| "edit_option _ ct = None"

lemma returning_ok: "control_ok ct \<Longrightarrow> returning f r ct = Inr ct' \<Longrightarrow> control_ok ct'"
  by (auto simp: returning_def bind_result_Inr_iff)

lemma general_option_ok: "control_ok ct \<Longrightarrow> control_ok (ct\<lparr>ct_session := interpret_general_option s (ct_session ct)\<rparr>)"
  by (simp add: control_ok_def interpret_general_option_def)

lemma perform_general_ok:
  assumes "control_ok ct" "control_env_ok E" "perform_general E g ct = Inr ct'"
  shows "control_ok ct'"
proof (cases g)
  case Gen_start
  then consider "ct' = ct" | ok ct1 where "ctl_start E ct = Inr (ok, ct1)" "ct' = ct1 \<or> ct' = set_error msg_start ct1"
    using assms(3) by (auto simp: bind_result_Inr_iff split: if_splits)
  then show ?thesis using ctl_start_ok[OF assms(1,2)] assms(1) by cases auto
next
  case Gen_resource_file
  then show ?thesis using assms(1,3) general_option_ok by auto
qed (use assms close_engine_ok[OF assms(1,2)] start_engine_ok[OF assms(1,2)] send_ok[OF assms(1)]
      in \<open>auto simp: ctl_stop_def stop_on_condition_def split: if_splits\<close>)

lemma perform_cs_ok:
  assumes "control_ok ct" "control_env_ok E" "perform_cs E a ct = Inr ct'"
    "action_requires_selected_not_connected (Cs a) \<Longrightarrow> detached ct" "a = Cs_add \<Longrightarrow> first_arg ct \<noteq> ''''"
    "\<And>opt. edit_option (Cs a) ct = Some opt \<Longrightarrow> harmless E opt"
  shows "control_ok ct'"
proof (cases a)
  case Cs_remove
  then have "detached ct" using assms(4) by simp
  then show ?thesis
  proof (cases rule: detached_cases)
    case apart
    then show ?thesis using assms(3) remove_chainsetup_ok[OF assms(1)] by (auto simp: Cs_remove)
  next
    case nothing
    note n = this
    have "session_remove_chainsetup (ct_session ct) = ct_session ct"
      using n control_okD(3)[OF assms(1)] by (auto simp: session_remove_chainsetup_def)
    moreover have "ct' = ct\<lparr>ct_session := session_remove_chainsetup (ct_session ct), ct_selected := None\<rparr>"
      using assms(3) by (simp add: Cs_remove ctl_remove_chainsetup_def)
    ultimately show ?thesis using assms(1) n(1) by (simp add: control_ok_def)
  qed
next
  case Cs_connect
  then show ?thesis using assms(1,3) connect_ok[OF assms(1,2)] by (auto simp: bind_result_Inr_iff split: if_splits)
next
  case Cs_disconnect
  then show ?thesis using assms(3) disconnect_ok[OF assms(1,2)] by auto
next
  case Cs_set_param
  then have dt: "detached ct" and r: "set_chainsetup_parameter E (first_arg ct) ct = Inr ct'" using assms(3,4) by simp_all
  from dt show ?thesis
  proof (cases rule: detached_cases)
    case apart
    then show ?thesis using set_parameter_ok[OF assms(1,2) _ r] by simp
  next
    case nothing
    then show ?thesis using r by (simp add: set_chainsetup_parameter_def)
  qed
next
  case Cs_set_audio_format
  then obtain b where r: "object_option E (''-f:'' @ first_arg ct) ct = Inr (b, ct')"
    using assms(3) by (auto simp: set_chainsetup_sample_format_def bind_result_Inr_iff)
  have "harmless E (''-f:'' @ first_arg ct)" by (rule assms(6)) (simp add: Cs_set_audio_format)
  then show ?thesis using object_option_ok[OF assms(1,2) disjI1 r] by simp
next
  case Cs_option
  then have dt: "detached ct" and r: "set_options E (ct_args ct) ct = Inr ct'" using assms(3,4) by simp_all
  from dt show ?thesis
  proof (cases rule: detached_cases)
    case apart
    then show ?thesis using set_options_ok[OF assms(1,2) _ r] by simp
  next
    case nothing
    then show ?thesis using r by (simp add: set_options_def)
  qed
qed (use assms(1-3,5) add_chainsetup_ok[OF assms(1,2)] in \<open>auto dest: select_chainsetup_ok[OF assms(1)] select_by_index_ok[OF assms(1)]
       load_chainsetup_ok[OF assms(1,2)] save_chainsetup_ok[OF assms(1)] change_position_ok[OF assms(1)] set_position_ok[OF assms(1)]
       set_position_samples_ok[OF assms(1)] set_length_seconds_ok[OF assms(1)] set_length_samples_ok[OF assms(1)]
       toggle_looping_ok[OF assms(1)] returning_ok[OF assms(1)] split: if_splits\<close>)


lemma perform_c_ok:
  assumes "control_ok ct" "perform_c E a ct = Inr ct'" "control_env_ok E" "action_requires_selected_not_connected (C a) \<Longrightarrow> detached ct"
  shows "control_ok ct'"
proof -
  have edits: "control_ok ct1" if "detached ct" "add_chains E names ct = Inr ct1 \<or> ctl_remove_chains ct = Inr ct1 \<or> ctl_clear_chains ct = Inr ct1 \<or> ctl_rename_chain name ct = Inr ct1" for names name ct1
    using that(1)
  proof (cases rule: detached_cases)
    case apart
    then show ?thesis using that(2) edit_chains_ok[OF assms(1)] by blast
  next
    case nothing
    note n = this
    then show ?thesis using that(2) n
      by (auto simp: add_chains_def ctl_remove_chains_def ctl_clear_chains_def ctl_rename_chain_def on_selected_cs_def)
  qed
  have mute: "control_ok ct1" if "edit_the_chain E (\<lambda>n _. Sent (f n)) ct = Inr ct1" for f ct1
    by (rule edit_the_chain_ok[OF assms(1,3) that]) simp
  have rename: "control_ok ct1" if "detached ct" "ctl_rename_chain name ct = Inr ct1" for name ct1
    using edits[OF that(1)] that(2) by blast
  show ?thesis
  proof (cases a)
    case C_add
    then show ?thesis using assms(2,4) edits by simp blast
  next
    case C_remove
    then show ?thesis using assms(2,4) edits by simp
  next
    case C_clear
    then show ?thesis using assms(2,4) edits by simp
  next
    case C_rename
    then show ?thesis using assms(1,2,4) rename by (auto simp: bind_result_Inr_iff split: if_splits)
  next
    case C_select_add
    then show ?thesis using assms(1,2) select_chains_ok[OF assms(1)] by (auto simp: bind_result_Inr_iff)
  qed (use assms(1,2) mute in \<open>auto simp: set_chain_muting_def set_chain_bypass_def bind_result_Inr_iff dest: select_chains_ok[OF assms(1)]
       select_chains_by_index_ok[OF assms(1)] deselect_chains_ok[OF assms(1)] select_all_chains_ok[OF assms(1)] returning_ok[OF assms(1)]\<close>)
qed

lemma of_audio_object_ok: "control_ok ct \<Longrightarrow> of_audio_object f d ct = Inr ct' \<Longrightarrow> control_ok ct'"
  by (auto simp: of_audio_object_def bind_result_Inr_iff dest: get_audio_object_ok returning_ok)

lemma perform_aio_ok:
  assumes "control_ok ct" "perform_aio E d a ct = Inr ct'" "control_env_ok E" "action_requires_selected_not_connected (Aio d a) \<Longrightarrow> detached ct"
  shows "control_ok ct'"
proof -
  have edits: "control_ok ct1" if "detached ct" "add_audio_object E d1 f ct = Inr ct1 \<or> remove_audio_object E d1 ct = Inr ct1 \<or> attach_audio_object d1 ct = Inr ct1" for f d1 ct1
    using that(1)
  proof (cases rule: detached_cases)
    case apart
    then show ?thesis
      using that(2) add_audio_object_ok[OF assms(1,3)] remove_audio_object_ok[OF assms(1)] attach_audio_object_ok[OF assms(1)] by blast
  next
    case nothing
    note n = this
    have "sel_setup (set_aio d1 None ct) = Inl Undefined_behaviour" using n by (simp add: sel_setup_def)
    then show ?thesis using that(2) n
      by (auto simp: add_audio_object_def object_option_def remove_audio_object_def attach_audio_object_def on_selected_cs_def bind_result_Inr_iff)
  qed
  have seek: "control_ok ct1" if "moving (seek_audio_object E t) d ct = Inr ct1" for t ct1
    by (rule moving_ok[OF assms(1) that seek_audio_object_ok])
  have add: "control_ok ct1" if "detached ct" "add_audio_object E d1 f ct = Inr ct1" for d1 f ct1
    using edits[OF that(1)] that(2) by blast
  show ?thesis
  proof (cases a)
    case Aio_add
    then show ?thesis using assms(2,4) add by (auto simp: add_default_output_def split: if_splits)
  next
    case Aio_add_default
    then show ?thesis using assms(2,4) add by (auto simp: add_default_output_def)
  next
    case Aio_remove
    then show ?thesis using assms(2,4) edits by simp blast
  next
    case Aio_attach
    then show ?thesis using assms(2,4) edits by simp blast
  qed (use assms(1,2) seek in \<open>auto simp: forward_audio_object_def rewind_audio_object_def set_audio_object_position_def
        set_audio_object_position_samples_def bind_result_Inr_iff
        dest: returning_ok[OF assms(1)] of_audio_object_ok[OF assms(1)] select_audio_object_ok[OF assms(1)]
          select_audio_object_by_index_ok[OF assms(1)] split: if_splits\<close>)
qed


lemma edits_ok:
  assumes "control_ok ct" "control_env_ok E"
  shows "edit_the_chain E (\<lambda>n ch. Sent (f n ch)) ct = Inr ct' \<Longrightarrow> control_ok ct'"
    and "harmless E (option_of s) \<Longrightarrow> edit_the_chain E (\<lambda>n _. Sent_add n s) ct = Inr ct' \<Longrightarrow> control_ok ct'"
  using edit_the_chain_ok[OF assms] by simp_all

lemma set_copp_ok: "control_ok ct \<Longrightarrow> control_env_ok E \<Longrightarrow> set_chain_operator_parameter E v ct = Inr ct' \<Longrightarrow> control_ok ct'"
  unfolding set_chain_operator_parameter_def by (rule edits_ok(1))

lemma with_cop_args_ok:
  assumes "control_ok ct" "with_cop_args n f ct = Inr ct'" "\<And>a ct ct'. control_ok ct \<Longrightarrow> f a ct = Inr ct' \<Longrightarrow> control_ok ct'"
  shows "control_ok ct'"
proof -
  let ?a = "comma_list (first_arg ct)"
  have "(\<exists>s. ct' = set_error s ct) \<or> (\<exists>ct1 ct2. ctl_select_chain_operator (atoi (?a ! 0)) ct = Inr ct1 \<and>
      ctl_select_chain_operator_parameter (atoi (?a ! 1)) ct1 = Inr ct2 \<and> f ?a ct2 = Inr ct')"
    using assms(2) by (auto simp: with_cop_args_def Let_def bind_result_Inr_iff split: if_splits option.splits)
  then consider s where "ct' = set_error s ct"
    | ct1 ct2 where "ctl_select_chain_operator (atoi (?a ! 0)) ct = Inr ct1" "ctl_select_chain_operator_parameter (atoi (?a ! 1)) ct1 = Inr ct2" "f ?a ct2 = Inr ct'"
    by blast
  then show ?thesis
  proof cases
    case (2 ct1 ct2)
    show ?thesis by (rule assms(3)[OF chain_steps_ok(3)[OF chain_steps_ok(2)[OF assms(1) 2(1)] 2(2)] 2(3)])
  qed (use assms(1) in simp)
qed

lemma perform_cop_ok:
  assumes "control_ok ct" "control_env_ok E" "perform_cop E a ct = Inr ct'" "a = Cop_add \<Longrightarrow> harmless E (option_of (first_arg ct))"
  shows "control_ok ct'"
proof (cases a)
  case Cop_add
  then show ?thesis using assms(3,4) edits_ok(2)[OF assms(1,2)] by (simp add: ctl_add_chain_operator_def)
next
  case Cop_bypass
  then show ?thesis using assms(3) edits_ok(1)[OF assms(1,2)] by (simp add: bypass_chain_operator_def)
next
  case Cop_set
  then have "with_cop_args 3 (\<lambda>a. set_chain_operator_parameter E (atof (a ! 2))) ct = Inr ct'" using assms(3) by simp
  then show ?thesis by (rule with_cop_args_ok[OF assms(1)]) (rule set_copp_ok[OF _ assms(2)])
next
  case Cop_get
  then have "with_cop_args 2 (\<lambda>a ct. returning Ret_float (get_chain_operator_parameter E ct) ct) ct = Inr ct'" using assms(3) by simp
  then show ?thesis by (rule with_cop_args_ok[OF assms(1)]) (rule returning_ok)
next
  case Cop_list
  then show ?thesis using assms(3) list_of_chain_ok[OF assms(1) _ ends_chain_operator_names] by (simp add: chain_operator_names_def)
next
  case Copp_list
  then show ?thesis using assms(3) list_of_chain_ok[OF assms(1) _ ends_chain_operator_parameter_names]
    by (simp add: chain_operator_parameter_names_def)
next
  case Copp_set
  then show ?thesis using assms(3) set_copp_ok[OF assms(1,2)] by simp
qed (use assms(1,3) in \<open>auto simp: bind_result_Inr_iff dest: returning_ok[OF assms(1)] chain_steps_ok(1,2,3)[OF assms(1)] split: if_splits\<close>)

lemma perform_ctrl_ok:
  assumes "control_ok ct" "control_env_ok E" "perform_ctrl E a ct = Inr ct'" "a = Ctrl_add \<Longrightarrow> harmless E (option_of (first_arg ct))"
  shows "control_ok ct'"
proof (cases a)
  case Ctrl_add
  then show ?thesis using assms(3,4) edits_ok(2)[OF assms(1,2)] by (simp add: ctl_add_controller_def)
next
  case Ctrl_list
  then show ?thesis using assms(3) list_of_chain_ok[OF assms(1) _ ends_controller_names] by (simp add: controller_names_def)
next
  case Ctrlp_list
  then show ?thesis using assms(3) list_of_chain_ok[OF assms(1) _ ends_controller_parameter_names]
    by (simp add: controller_parameter_names_def)
next
  case Ctrlp_set
  then show ?thesis using assms(3) edits_ok(1)[OF assms(1,2)] by (simp add: ctl_set_controller_parameter_def)
qed (use assms(1,3) in \<open>auto simp: bind_result_Inr_iff dest: returning_ok[OF assms(1)] chain_steps_ok(4,5,6)[OF assms(1)]\<close>)

lemma dump_audio_object_ok: "control_ok ct \<Longrightarrow> dump_audio_object f d ct = Inr ct' \<Longrightarrow> control_ok ct'"
  by (auto simp: dump_audio_object_def dumping_def bind_result_Inr_iff dest: get_audio_object_ok split: if_splits)

lemma perform_dump_ok: "control_ok ct \<Longrightarrow> perform_dump E a ct = Inr ct' \<Longrightarrow> control_ok ct'"
  by (cases a) (auto simp: dumping_def bind_result_Inr_iff Let_def dest: dump_audio_object_ok chain_steps_ok(2) split: if_splits)

lemma perform_ok:
  assumes "control_ok ct" "control_env_ok E" "perform E a ct = Inr ct'"
    "action_requires_selected_not_connected a \<Longrightarrow> detached ct" "a = Cs Cs_add \<Longrightarrow> first_arg ct \<noteq> ''''"
    "\<And>opt. edit_option a ct = Some opt \<Longrightarrow> harmless E opt"
  shows "control_ok ct'"
proof (cases a)
  case (General g)
  then show ?thesis using assms(3) perform_general_ok[OF assms(1,2)] by simp
next
  case (Cs c)
  then show ?thesis using assms(3-6) perform_cs_ok[OF assms(1,2), of c] by simp
next
  case (C c)
  then show ?thesis using assms(3,4) perform_c_ok[OF assms(1) _ assms(2), of c] by simp
next
  case (Aio d c)
  then show ?thesis using assms(3,4) perform_aio_ok[OF assms(1) _ assms(2), of d c] by simp
next
  case (Cop c)
  then show ?thesis using assms(3,6) perform_cop_ok[OF assms(1,2), of c] by simp
next
  case (Ctrl c)
  then show ?thesis using assms(3,6) perform_ctrl_ok[OF assms(1,2), of c] by simp
next
  case (Dump c)
  then show ?thesis using assms(3) perform_dump_ok[OF assms(1)] by simp
qed

subsection \<open>Preconditions and reconnection\<close>

lemma connected_Inr: "control_ok ct \<Longrightarrow> is_connected ct = Inr c \<Longrightarrow> c = (se_connected (ct_session ct) \<noteq> None)"
  using connected_iff by fastforce

text \<open>Names are distinct and not empty, so equal names of the selected and the connected chainsetup mean equal pointers.\<close>

lemma same_name:
  assumes "control_ok ct" "selected_chainsetup ct = Inr n" "connected_chainsetup ct = Inr n"
  shows "se_connected (ct_session ct) = ct_selected ct"
proof (cases "ct_selected ct")
  case None
  then have "n = ''''" using assms(2) by (simp add: selected_chainsetup_def)
  then show ?thesis using assms(3) None session_okD(9)[OF control_okD(1)[OF assms(1)]]
    by (cases "se_connected (ct_session ct)") (auto simp: connected_chainsetup_def con_setup_def bind_result_Inr_iff deref_Inr simp del: deref_Some)
next
  case (Some a)
  then obtain st where st: "se_heap (ct_session ct) a = Some st" "n = st_name st"
    using assms(2) by (auto simp: selected_chainsetup_def sel_setup_def bind_result_Inr_iff deref_Inr simp del: deref_Some)
  then have "n \<noteq> ''''" using session_okD(9)[OF control_okD(1)[OF assms(1)]] by simp
  then obtain b st' where b: "se_connected (ct_session ct) = Some b" "se_heap (ct_session ct) b = Some st'" "n = st_name st'"
    using assms(3) by (auto simp: connected_chainsetup_def con_setup_def bind_result_Inr_iff deref_Inr simp del: deref_Some split: if_splits)
  then show ?thesis using session_okD(11)[OF control_okD(1)[OF assms(1)] st(1) b(2)] st(2) Some by simp
qed

text \<open>The arguments of the action stay what they are.\<close>

definition args_of :: "('io, 'o, 'c) control \<Rightarrow> string list \<times> rat option" where
  "args_of ct = (ct_args ct, ct_argf ct)"

lemma args_updates [simp]:
  "args_of (set_error s ct) = args_of ct" "args_of (set_aio d p ct) = args_of ct" "args_of (refuse r ct) = args_of ct"
  "args_of (ct\<lparr>ct_ret := v\<rparr>) = args_of ct" "args_of (ct\<lparr>ct_ok := b\<rparr>) = args_of ct" "args_of (ct\<lparr>ct_reconnect := b\<rparr>) = args_of ct"
  "args_of (ct\<lparr>ct_restart := b\<rparr>) = args_of ct" "args_of (ct\<lparr>ct_session := se\<rparr>) = args_of ct"
  "args_of (ct\<lparr>ct_session := se, ct_selected := x\<rparr>) = args_of ct" "args_of (ct\<lparr>ct_engine := e\<rparr>) = args_of ct"
  "args_of (ct\<lparr>ct_ok := b, ct_reconnect := b', ct_restart := b''\<rparr>) = args_of ct"
  by (simp_all add: args_of_def set_error_def set_aio_def refuse_def split: audio_dir.split)

lemma args_first: "args_of ct' = args_of ct \<Longrightarrow> first_arg ct' = first_arg ct"
  by (simp add: args_of_def first_arg_def)

lemma args_edit_option:
  assumes "args_of ct' = args_of ct"
  shows "edit_option a ct' = edit_option a ct"
  by (cases "(a, ct)" rule: edit_option.cases) (simp_all add: args_first[OF assms])

lemma args_close: "close_engine E ct = Inr ct' \<Longrightarrow> args_of ct' = args_of ct"
  by (auto simp: close_engine_def args_of_def bind_result_Inr_iff split: option.splits)

lemma args_send: "send c ct = Inr ct' \<Longrightarrow> args_of ct' = args_of ct"
  by (auto simp: send_def args_of_def split: option.splits)

lemma args_disconnect: "ctl_disconnect_chainsetup E ct = Inr ct' \<Longrightarrow> args_of ct' = args_of ct"
  by (auto simp: ctl_disconnect_chainsetup_def stop_on_condition_def bind_result_Inr_iff dest!: args_close args_send split: if_splits)

lemma args_connect: "ctl_connect_chainsetup E ct = Inr ct' \<Longrightarrow> args_of ct' = args_of ct"
  by (auto simp: ctl_connect_chainsetup_def bind_result_Inr_iff Let_def dest: args_disconnect split: if_splits)

lemma args_select: "ctl_select_chainsetup n ct = Inr ct' \<Longrightarrow> args_of ct' = args_of ct"
  by (auto simp: ctl_select_chainsetup_def bind_result_Inr_iff Let_def)

text \<open>What holds when the preconditions have been checked.\<close>

definition prepared :: "action \<Rightarrow> ('io, 'o, 'c) control \<Rightarrow> ('io, 'o, 'c) control \<Rightarrow> bool" where
  "prepared a ct ct' \<longleftrightarrow>
     control_ok ct' \<and> args_of ct' = args_of ct \<and> (ct_ok ct' \<longrightarrow> action_requires_selected_not_connected a \<longrightarrow> detached ct')"

lemma select_connected_ok:
  assumes "control_ok ct" "select_connected ct = Inr ct'"
  shows "control_ok ct' \<and> args_of ct' = args_of ct \<and> (se_connected (ct_session ct) = None \<longrightarrow> \<not> ct_ok ct')"
proof (cases "se_connected (ct_session ct)")
  case None
  then show ?thesis using assms by (auto simp: select_connected_def is_connected_def refuse_def[symmetric]) (auto simp: refuse_def)
next
  case (Some c)
  then have "\<exists>n. ctl_select_chainsetup n ct = Inr ct'"
    using assms connected_iff[OF assms(1)] by (auto simp: select_connected_def bind_result_Inr_iff)
  then show ?thesis using select_chainsetup_ok[OF assms(1)] args_select Some by auto
qed

lemma connect_selected_ok:
  assumes "control_ok ct" "control_env_ok E" "connect_selected E ct = Inr ct'"
  shows "control_ok ct' \<and> args_of ct' = args_of ct"
proof -
  consider "ct' = refuse None_connected ct" | v ct1 where "ctl_is_valid ct = Inr v" "(if v then ctl_connect_chainsetup E ct else Inr ct) = Inr ct1"
      "ct' = ct1 \<or> ct' = refuse Not_connectable ct1"
    using assms(3) by (auto simp: connect_selected_def bind_result_Inr_iff split: if_splits)
  then show ?thesis
    using connect_ok[OF assms(1,2)] args_connect assms(1) by cases (auto split: if_splits)
qed

lemma disconnect_selected_ok:
  assumes "control_ok ct" "control_env_ok E" "disconnect_selected E a ct = Inr ct'"
    "action_requires_selected_not_connected a \<Longrightarrow> ct_selected ct \<noteq> None \<or> se_connected (ct_session ct) = None"
  shows "prepared a ct ct'"
proof -
  obtain sn cn where n: "selected_chainsetup ct = Inr sn" "connected_chainsetup ct = Inr cn"
    using assms(3) by (auto simp: disconnect_selected_def bind_result_Inr_iff)
  show ?thesis
  proof (cases "sn = cn \<and> action_requires_selected_not_connected a")
    case True
    then obtain ct1 where 1: "ctl_disconnect_chainsetup E (ct\<lparr>ct_restart := is_running ct\<rparr>) = Inr ct1" "ct' = ct1\<lparr>ct_reconnect := True\<rparr>"
      using assms(3) n by (auto simp: disconnect_selected_def bind_result_Inr_iff)
    then show ?thesis using disconnect_ok[OF _ assms(2) 1(1)] assms(1) args_disconnect[OF 1(1)] by (simp add: prepared_def detached_def)
  next
    case False
    then have "ct' = ct" using assms(3) n by (auto simp: disconnect_selected_def bind_result_Inr_iff)
    moreover have "detached ct" if "action_requires_selected_not_connected a"
    proof -
      have "sn \<noteq> cn" using False that by simp
      then have "se_connected (ct_session ct) \<noteq> ct_selected ct"
        using n by (auto simp: selected_chainsetup_def connected_chainsetup_def sel_setup_def con_setup_def split: if_splits)
      then show ?thesis using assms(4)[OF that] by (auto simp: detached_def)
    qed
    ultimately show ?thesis using assms(1) by (simp add: prepared_def)
  qed
qed


lemma connected_not_disconnected: "action_requires_connected a \<Longrightarrow> \<not> action_requires_selected_not_connected a"
  by (cases a rule: action_requires_connected.cases) auto

lemma check_chainsetups_ok:
  assumes "control_ok ct" "control_env_ok E" "check_chainsetups E a ct = Inr ct'"
    "action_requires_selected_not_connected a \<Longrightarrow> ct_selected ct \<noteq> None \<or> se_connected (ct_session ct) = None"
  shows "prepared a ct ct'"
proof -
  consider "\<not> is_selected ct" "select_connected ct = Inr ct'" | "action_requires_connected a" "connect_selected E ct = Inr ct'"
    | "disconnect_selected E a ct = Inr ct'"
    using assms(3) connected_iff[OF assms(1)] by (auto simp: check_chainsetups_def split: if_splits)
  then show ?thesis
  proof cases
    case 1
    then show ?thesis using select_connected_ok[OF assms(1) 1(2)] assms(4) by (auto simp: prepared_def is_selected_def)
  next
    case 2
    then show ?thesis using connect_selected_ok[OF assms(1,2) 2(2)] connected_not_disconnected by (auto simp: prepared_def)
  next
    case 3
    then show ?thesis by (rule disconnect_selected_ok[OF assms(1,2) _ assms(4)])
  qed
qed

text \<open>Looking up the selected input and output only forgets pointers.\<close>

lemma check_preconditions_ok:
  assumes "control_ok ct" "control_env_ok E" "check_action_preconditions E a ct = Inr ct'"
    "action_requires_selected_not_connected a \<Longrightarrow> ct_selected ct \<noteq> None \<or> se_connected (ct_session ct) = None"
  shows "prepared a ct ct'" "ct_ok ct' \<Longrightarrow> ct_argf ct = None \<Longrightarrow> action_requires_params a \<Longrightarrow> first_arg ct \<noteq> ''''"
proof -
  let ?ct = "ct\<lparr>ct_ok := True, ct_reconnect := False, ct_restart := False\<rparr>"
  have same: "control_ok ct2 \<and> args_of ct2 = args_of ct \<and> ct_session ct2 = ct_session ct \<and> ct_selected ct2 = ct_selected ct"
    if "control_ok ct1" "args_of ct1 = args_of ct" "ct_session ct1 = ct_session ct" "ct_selected ct1 = ct_selected ct"
      "(if is_selected ct1 then get_audio_object d ct1 else Inr (None, ct1)) = Inr (p, ct2)" for d p and ct1 ct2 :: "('a, 'b, 'c) control"
    using that get_audio_object_kept[of d ct1 p ct2] by (auto split: if_splits)
  have refused: "prepared a ct (refuse why ct1)" if "control_ok ct1" "args_of ct1 = args_of ct" for why ct1
    using that by (simp add: prepared_def) (simp add: refuse_def)
  show "ct_ok ct' \<Longrightarrow> ct_argf ct = None \<Longrightarrow> action_requires_params a \<Longrightarrow> first_arg ct \<noteq> ''''"
    using assms(3) by (auto simp: check_action_preconditions_def Let_def first_arg_def refuse_def)
  show "prepared a ct ct'"
  proof (cases "ct_argf ct = None \<and> first_arg ct = '''' \<and> action_requires_params a")
    case True
    then have "ct' = refuse No_argument ?ct" using assms(3) by (simp add: check_action_preconditions_def Let_def first_arg_def)
    then show ?thesis using refused[of ?ct] assms(1) by simp
  next
    case False
    then obtain i ct1 where 1: "(if is_selected ?ct then get_audio_object Dir_input ?ct else Inr (None, ?ct)) = Inr (i, ct1)"
      and c1: "(if is_selected ct1 \<and> i = None \<and> action_requires_selected_aio Dir_input a then Inr (refuse No_input ct1)
         else bind_result (if is_selected ct1 then get_audio_object Dir_output ct1 else Inr (None, ct1)) (\<lambda>(out, ct2).
           if is_selected ct2 \<and> out = None \<and> action_requires_selected_aio Dir_output a then Inr (refuse No_output ct2)
           else check_chainsetups E a ct2)) = (Inr ct' :: ('a, 'b, 'c) control result)"
      using assms(3) by (auto simp: check_action_preconditions_def Let_def first_arg_def bind_result_Inr_iff simp del: if_split_asm)
    have k1: "control_ok ct1 \<and> args_of ct1 = args_of ct \<and> ct_session ct1 = ct_session ct \<and> ct_selected ct1 = ct_selected ct"
      by (rule same[OF _ _ _ _ 1]) (use assms(1) in simp_all)
    show ?thesis
    proof (cases "ct' = refuse No_input ct1")
      case False
      then obtain out ct2 where 2: "(if is_selected ct1 then get_audio_object Dir_output ct1 else Inr (None, ct1)) = Inr (out, ct2)"
        and c2: "ct' = refuse No_output ct2 \<or> check_chainsetups E a ct2 = Inr ct'"
        using c1 by (auto simp: bind_result_Inr_iff split: if_splits)
      have k2: "control_ok ct2 \<and> args_of ct2 = args_of ct \<and> ct_session ct2 = ct_session ct \<and> ct_selected ct2 = ct_selected ct"
        using same[OF _ _ _ _ 2] k1 by simp
      show ?thesis
        using c2
      proof
        assume c: "check_chainsetups E a ct2 = Inr ct'"
        have "prepared a ct2 ct'" by (rule check_chainsetups_ok[OF _ assms(2) c]) (use k2 assms(4) in auto)
        then show ?thesis using k2 by (simp add: prepared_def)
      qed (use refused[of ct2] k2 in simp)
    qed (use refused[of ct1] k1 in simp)
  qed
qed

lemma reconnect_ok:
  assumes "control_ok ct" "control_env_ok E" "reconnect_chainsetup E ct = Inr ct'"
  shows "control_ok ct'"
proof -
  consider "ct' = set_error msg_reconnect ct"
    | ct1 where "ctl_is_valid ct = Inr True" "ctl_connect_chainsetup E ct = Inr ct1"
        "ct' = ct1 \<or> ct' = set_error msg_reconnect ct1 \<or> (\<exists>ok. ctl_start E ct1 = Inr (ok, ct'))"
    using assms(3) by (auto simp: reconnect_chainsetup_def bind_result_Inr_iff split: if_splits)
  then show ?thesis
  proof cases
    case (2 ct1)
    then have "control_ok ct1" using connect_ok[OF assms(1,2) 2(2,1)] by simp
    then show ?thesis using 2(3) ctl_start_ok[OF _ assms(2)] by auto
  qed (use assms(1) in simp)
qed

lemma action_ok:
  assumes "control_ok ct" "control_env_ok E" "ctl_action E a ct = Inr ct'" "ct_argf ct = None"
    "action_requires_selected_not_connected a \<Longrightarrow> ct_selected ct \<noteq> None \<or> se_connected (ct_session ct) = None"
    "\<And>opt. edit_option a ct = Some opt \<Longrightarrow> harmless E opt"
  shows "control_ok ct'"
proof -
  let ?ct = "ct\<lparr>ct_ret := Ret_none\<rparr>"
  have ok: "control_ok ?ct" using assms(1) by simp
  obtain ct1 where 1: "check_action_preconditions E a ?ct = Inr ct1"
    using assms(3) by (auto simp: ctl_action_def bind_result_Inr_iff)
  note c = check_preconditions_ok[OF ok assms(2) 1]
  have p: "control_ok ct1" "args_of ct1 = args_of ct" "ct_ok ct1 \<Longrightarrow> action_requires_selected_not_connected a \<Longrightarrow> detached ct1"
    using c(1) assms(5) by (auto simp: prepared_def)
  show ?thesis
  proof (cases "ct_ok ct1")
    case False
    then show ?thesis using assms(3) 1 p(1) by (simp add: ctl_action_def)
  next
    case True
    then obtain ct2 where 2: "perform E a ct1 = Inr ct2" "ct' = ct2 \<or> reconnect_chainsetup E ct2 = Inr ct'"
      using assms(3) 1 by (auto simp: ctl_action_def bind_result_Inr_iff split: if_splits)
    have "control_ok ct2"
    proof (rule perform_ok[OF p(1) assms(2) 2(1) p(3)[OF True]])
      show "first_arg ct1 \<noteq> ''''" if "a = Cs Cs_add"
        using c(2) that True assms(4,5) args_first[OF p(2)] by (simp add: first_arg_def)
      show "harmless E opt" if "edit_option a ct1 = Some opt" for opt
        using assms(6) that args_edit_option[OF p(2)] by simp
    qed
    then show ?thesis using 2(2) reconnect_ok[OF _ assms(2)] by auto
  qed
qed


subsection \<open>Commands\<close>

lemma option_command_ok:
  assumes "control_ok ct" "control_env_ok E" "chainsetup_option E s ct = Inr ct'" "harmless E (option_of s)"
    "ct_selected ct \<noteq> None \<or> se_connected (ct_session ct) = None"
  shows "control_ok ct'"
proof -
  consider "\<exists>msg. ct' = set_error msg ct" | "ctl_add_chain_operator E s ct = Inr ct' \<or> ctl_add_controller E s ct = Inr ct'"
    | "ctl_action E (Cs Cs_option) (set_action_argument [s] ct) = Inr ct'"
    using assms(3) by (auto simp: chainsetup_option_def bind_result_Inr_iff split: if_splits)
  then show ?thesis
  proof cases
    case 2
    then show ?thesis using edits_ok(2)[OF assms(1,2,4)] by (auto simp: ctl_add_chain_operator_def ctl_add_controller_def)
  next
    case 3
    have "control_ok (set_action_argument [s] ct)" using assms(1) by simp
    then show ?thesis by (rule action_ok[OF _ assms(2) 3]) (use assms(5) in \<open>auto simp: set_action_argument_def\<close>)
  qed (use assms(1) in auto)
qed

text \<open>
  A command is in place when, if it needs a disconnected chainsetup, one is selected or none is connected,
  and when an object it adds without disconnecting keeps the chainsetup valid. The commands that are not
  modelled are not in place.
\<close>

definition left_out :: "string list" where
  "left_out = [''run'', ''cs-edit'', ''ai-wave-edit'', ''ao-wave-edit'']"

definition in_place :: "('io, 'o, 'c, 's) control_env \<Rightarrow> string \<Rightarrow> ('io, 'o, 'c) control \<Rightarrow> bool" where
  "in_place E s ct \<longleftrightarrow>
     (case kvu_string_to_tokens_quoted s of
        [] \<Rightarrow> True
      | cmd # args \<Rightarrow>
          (case command_to_action_id cmd of
             None \<Rightarrow> cmd \<notin> set left_out \<and> (length cmd > 0 \<longrightarrow> cmd ! 0 = CHR ''-'' \<longrightarrow>
               harmless E (option_of s) \<and> (ct_selected ct \<noteq> None \<or> se_connected (ct_session ct) = None))
           | Some a \<Rightarrow>
               (action_requires_selected_not_connected a \<longrightarrow> ct_selected ct \<noteq> None \<or> se_connected (ct_session ct) = None) \<and>
               (\<forall>opt. edit_option a (set_action_argument args ct) = Some opt \<longrightarrow> harmless E opt)))"

lemma command_ok:
  assumes "control_ok ct" "control_env_ok E" "ctl_command E s ct = Inr ct'" "in_place E s ct"
  shows "control_ok ct'"
proof (cases "kvu_string_to_tokens_quoted s")
  case Nil
  then show ?thesis using assms(1,3) by (auto simp: ctl_command_def)
next
  case (Cons cmd args)
  let ?ct = "clear_action_arguments (ct\<lparr>ct_ret := Ret_none\<rparr>)"
  have k: "control_ok ?ct" using assms(1) by simp
  have s: "ct_selected ?ct = ct_selected ct" "ct_session ?ct = ct_session ct" by (simp_all add: clear_action_arguments_def)
  show ?thesis
  proof (cases "command_to_action_id cmd")
    case None
    then have "ct' = ?ct \<or> ct' = set_error msg_unknown ?ct \<or> (length cmd > 0 \<and> cmd ! 0 = CHR ''-'' \<and> chainsetup_option E s ?ct = Inr ct')"
      using assms(3) Cons by (auto simp: ctl_command_def Let_def split: if_splits)
    then show ?thesis
      using k s option_command_ok[OF k assms(2)] assms(4) None Cons by (auto simp: in_place_def)
  next
    case (Some a)
    let ?ct1 = "if args = [] then ?ct else set_action_argument args ?ct"
    have "ctl_action E a ?ct1 = Inr ct'" using assms(3) Cons Some by (simp add: ctl_command_def Let_def)
    moreover have "control_ok ?ct1" using k by simp
    moreover have "ct_argf ?ct1 = None" "ct_selected ?ct1 = ct_selected ct" "ct_session ?ct1 = ct_session ct"
      by (simp_all add: set_action_argument_def clear_action_arguments_def)
    moreover have "edit_option a ?ct1 = edit_option a (set_action_argument args ct)"
      by (rule args_edit_option) (simp add: args_of_def set_action_argument_def clear_action_arguments_def)
    ultimately show ?thesis using action_ok[OF _ assms(2), of ?ct1 a ct'] assms(4) Cons Some by (simp add: in_place_def)
  qed
qed

text \<open>
  The states that a session reaches from the empty one, by commands and by what the engine's thread does
  meanwhile: it changes its status, empties its queue and works on the chainsetup it runs, without
  renaming, disabling or disconnecting it.
\<close>

inductive ctl_reach :: "('io, 'o, 'c, 's) control_env \<Rightarrow> ('io, 'o, 'c) control \<Rightarrow> bool" for E where
  init: "ctl_reach E (control_create session_create)"
| command: "ctl_reach E ct \<Longrightarrow> in_place E s ct \<Longrightarrow> ctl_command E s ct = Inr ct' \<Longrightarrow> ctl_reach E ct'"
| engine: "ctl_reach E ct \<Longrightarrow> ct_engine ct = Some h \<Longrightarrow> deref (Some (eh_setup h)) (ct_session ct) = Inr st \<Longrightarrow> unnoticed True st st' \<Longrightarrow>
    ctl_reach E (ct\<lparr>ct_session := put_setup (Some (eh_setup h)) st' (ct_session ct),
      ct_engine := Some (h\<lparr>eh_status := status, eh_sent := queue\<rparr>), ct_pid := pid\<rparr>)"

lemma control_create_ok: "control_ok (control_create session_create)"
  by (simp add: control_ok_def control_create_def) (simp add: session_create_def)

lemma engine_step_ok:
  assumes "control_ok ct" "ct_engine ct = Some h" "deref (Some (eh_setup h)) (ct_session ct) = Inr st" "unnoticed True st st'"
  shows "control_ok (ct\<lparr>ct_session := put_setup (Some (eh_setup h)) st' (ct_session ct),
      ct_engine := Some (h\<lparr>eh_status := status, eh_sent := queue\<rparr>), ct_pid := pid\<rparr>)"
proof -
  have "unnoticed (se_connected (ct_session ct) = Some (eh_setup h)) st st'" using assms(4) by (simp add: unnoticed_def)
  then have "session_ok (put_setup (Some (eh_setup h)) st' (ct_session ct))"
    by (rule put_setup_ok[OF control_okD(1)[OF assms(1)] assms(3)])
  then show ?thesis using assms(1,2) by (simp add: control_ok_def)
qed

lemma reach_ok: "ctl_reach E ct \<Longrightarrow> control_env_ok E \<Longrightarrow> control_ok ct"
  by (induction rule: ctl_reach.induct) (auto simp: control_create_ok intro: command_ok engine_step_ok simp del: deref_Some)

end
