(* ===== verification/Control_Errors.thy ===== *)
theory Control_Errors
  imports Control_Invariant Effects_Facts
begin

text \<open>
  What the commands of the interactive mode achieve, and when they go wrong: an example session with two
  raw files, the invariant of all the states it reaches, actions without a selected chainsetup, dangling
  pointers, and the temporary disconnection.
\<close>

subsection \<open>An example\<close>

text \<open>A chainsetup with a raw file as input and one as output of the chain \<open>c\<close>; operators and controllers do nothing.\<close>

definition quiet_operators :: "(unit, rat, rat) op_class" where
  "quiet_operators = \<lparr>op_number_of_params = (\<lambda>_. 0), op_get_parameter = (\<lambda>_ _. 0), op_set_parameter = (\<lambda>_ _ _. ()),
     op_output_channels = (\<lambda>n _. n), op_init = (\<lambda>_ _. ()), op_process = (\<lambda>b _. Inr ((), b)), op_release = (\<lambda>_. ()),
     op_set_srate = (\<lambda>_ _. ())\<rparr>"

definition empty_setup :: "(raw_file \<times> file_system, unit, unit, rat) chainsetup" where
  "empty_setup =
     \<lparr>cs_objects = Map.empty, cs_inputs = [], cs_inputs_direct = [], cs_outputs = [], cs_outputs_direct = [],
      cs_loop_map = Map.empty, cs_chains = [], cs_selected = [],
      cs_position = chainsetup_position_create 44100 0, cs_buffersize = 4, cs_mix_avg = False, cs_locked = False, cs_enabled = False,
      cs_db_clients = 0, cs_double_buffering = False, cs_max_buffers = False, cs_raised_priority = False, cs_rtcaps = False,
      cs_multitrack = False, cs_multitrack_override = False, cs_multitrack_offset = 0, cs_bmode = Bmode_nonrt,
      cs_bmode_active = Bmode_nonrt\<rparr>"

definition tape_setup :: "(raw_file \<times> file_system, unit, unit, rat) chainsetup" where
  "tape_setup = empty_setup
     \<lparr>cs_objects := [0 \<mapsto> (example_raw\<lparr>rf_io_mode := Io_read\<rparr>, two_files), 1 \<mapsto> (example_raw\<lparr>rf_io_mode := Io_write, rf_label := ''out.raw''\<rparr>, two_files)],
      cs_inputs := [0], cs_inputs_direct := [0], cs_outputs := [1], cs_outputs_direct := [1],
      cs_chains := [(chain_create 0 0 44100)\<lparr>ch_name := ''c'', ch_input := 0, ch_output := 0\<rparr>], cs_selected := [''c'']\<rparr>"

definition demo_session_env :: "(raw_file \<times> file_system, unit, unit, rat) session_env" where
  "demo_session_env =
     \<lparr>ve_io = stream_io (raw_stream little_env (\<lambda>_ _. 0) (\<lambda>_. 0)), ve_open = stream_open (raw_stream little_env (\<lambda>_ _. 0) (\<lambda>_. 0)),
      ve_ops = quiet_operators, ve_sources = still_source, ve_proxy = (\<lambda>_. (example_raw, two_files)), ve_addresses = (\<lambda>n. n + 10), ve_buffersize = -1,
      ve_new = empty_setup, ve_load = (\<lambda>f. Loaded \<lparr>st_name = ''tape'', st_filename = f, st_cs = tape_setup\<rparr>), ve_save = (\<lambda>_ _. None)\<rparr>"


definition demo_env :: "(raw_file \<times> file_system, unit, unit, rat) control_env" where
  "demo_env =
     \<lparr>ce_session = demo_session_env, ce_options = (\<lambda>_ st. (st, None)), ce_global_option = (\<lambda>_ st. (st, None)),
      ce_object_option = (\<lambda>_ st. (st, None)), ce_is_operator = (\<lambda>_. False), ce_is_controller = (\<lambda>_. False),
      ce_op_name = (\<lambda>_. ''''), ce_op_param_name = (\<lambda>_ _. ''''), ce_ctrl_name = (\<lambda>_. ''''), ce_ctrl_param_name = (\<lambda>_ _. ''''),
      ce_ctrl_params = (\<lambda>_. 0), ce_default_output = ''out.raw'', ce_channels = (0, 0), ce_thread_ok = True, ce_status = Status_notready,
      ce_exit = (\<lambda>cs. cs), ce_text = (\<lambda>_ _. ''''), ce_info = (\<lambda>_. Ret_none)\<rparr>"

lemma demo_env_ok [simp]: "control_env_ok demo_env"
  by (simp add: control_env_ok_def interprets_def session_env_ok_def demo_env_def demo_session_env_def tape_setup_def empty_setup_def)

lemma demo_harmless [simp]: "harmless demo_env opt"
  by (simp add: harmless_def demo_env_def)

definition demo_commands :: "string list \<Rightarrow> (raw_file \<times> file_system, unit, unit) control result" where
  "demo_commands cmds = fold_result (ctl_command demo_env) cmds (control_create session_create)"

text \<open>What the tests below look at: the pointers, whether a connected chainsetup can be asked for, and the value returned.\<close>

fun outcome_of :: "('io, 'o, 'c) control result \<Rightarrow> (nat option \<times> nat option \<times> bool option \<times> retval) option" where
  "outcome_of (Inl f) = None"
| "outcome_of (Inr ct) = Some (ct_selected ct, se_connected (ct_session ct),
     (case is_connected ct of Inl f \<Rightarrow> None | Inr b \<Rightarrow> Some b), ct_ret ct)"

lemma demo_connected: "outcome_of (demo_commands [''cs-load tape.ecs'', ''cs-connect'']) = Some (Some 0, Some 0, Some True, Ret_none)"
  by code_simp


subsection \<open>The pointers are valid in every state of a session\<close>

lemma selected_name_total:
  assumes "control_ok ct"
  shows "\<exists>n. selected_chainsetup ct = Inr n"
proof (cases "ct_selected ct = None")
  case False
  then obtain st where "sel_setup ct = Inr st" using control_okD(5)[OF assms] by blast
  then show ?thesis by (simp add: selected_chainsetup_def)
qed (simp add: selected_chainsetup_def)

lemma connected_name_total:
  assumes "control_ok ct"
  shows "\<exists>n. connected_chainsetup ct = Inr n"
proof (cases "se_connected (ct_session ct)")
  case (Some a)
  note ok = session_okD[OF control_okD(1)[OF assms]]
  obtain st where "se_heap (ct_session ct) a = Some st" using ok(4,6) Some by blast
  then show ?thesis by (simp add: connected_chainsetup_def con_setup_def Some)
qed (simp add: connected_chainsetup_def)


lemma load_in_place: "in_place E ''cs-load tape.ecs'' ct" "in_place E ''cs-connect'' ct"
proof -
  have t: "kvu_string_to_tokens_quoted ''cs-load tape.ecs'' = [''cs-load'', ''tape.ecs'']" "kvu_string_to_tokens_quoted ''cs-connect'' = [''cs-connect'']"
    "command_to_action_id ''cs-load'' = Some (Cs Cs_load)" "command_to_action_id ''cs-connect'' = Some (Cs Cs_connect)"
    by code_simp+
  show "in_place E ''cs-load tape.ecs'' ct" "in_place E ''cs-connect'' ct" by (simp_all add: in_place_def t)
qed

lemma outcome_of_Some: "outcome_of r = Some (s, c, b, v) \<Longrightarrow> \<exists>ct. r = Inr ct \<and> ct_selected ct = s \<and> se_connected (ct_session ct) = c \<and> ct_ret ct = v"
  by (cases r) auto

lemma demo_reach: "\<exists>ct. ctl_reach demo_env ct \<and> ct_selected ct = Some 0 \<and> se_connected (ct_session ct) = Some 0"
proof -
  obtain ct where ct: "demo_commands [''cs-load tape.ecs'', ''cs-connect''] = Inr ct" "ct_selected ct = Some 0" "se_connected (ct_session ct) = Some 0"
    using outcome_of_Some[OF demo_connected] by blast
  then obtain ct1 where "ctl_command demo_env ''cs-load tape.ecs'' (control_create session_create) = Inr ct1" "ctl_command demo_env ''cs-connect'' ct1 = Inr ct"
    by (auto simp: demo_commands_def bind_result_Inr_iff)
  then have "ctl_reach demo_env ct"
    by (rule ctl_reach.command[OF ctl_reach.command[OF ctl_reach.init load_in_place(1)] load_in_place(2)])
  then show ?thesis using ct by blast
qed


subsection \<open>Actions without a selected chainsetup\<close>

text \<open>
  The actions that use the selected chainsetup although the tables of requirements do not say so. The last
  one does so only with two numbers in its argument.
\<close>

fun unguarded :: "string \<Rightarrow> action \<Rightarrow> bool" where
  "unguarded arg (General g) = False"
| "unguarded arg (Cs a) = (a = Cs_set_audio_format)"
| "unguarded arg (C a) = (a \<in> {C_add, C_index_select, C_deselect, C_select_add, C_select_all, C_is_bypassed, C_is_muted})"
| "unguarded arg (Aio d a) = (a \<in> {Aio_describe, Aio_list})"
| "unguarded arg (Cop a) = (a \<in> {Cop_remove, Copp_get})"
| "unguarded arg (Ctrl a) = (a \<notin> {Ctrl_add, Ctrl_select, Ctrl_selected, Ctrl_status})"
| "unguarded arg (Dump a) =
     (a \<notin> {Dump_target, Dump_status, Dump_cs_status, Dump_cop_value} \<or> a = Dump_cop_value \<and> length (comma_list arg) > 1)"

text \<open>A state in which nothing is selected or connected.\<close>

definition idle :: "('io, 'o, 'c) control \<Rightarrow> bool" where
  "idle ct \<longleftrightarrow> control_ok ct \<and> ct_selected ct = None \<and> se_connected (ct_session ct) = None \<and> ct_input ct = None \<and> ct_output ct = None"

lemma idle_facts:
  assumes "idle ct"
  shows "sel_setup ct = Inl Undefined_behaviour" "ct_engine ct = None" "is_connected ct = Inr False" "\<not> is_selected ct"
    "selected_chainsetup ct = Inr ''''" "connected_chainsetup ct = Inr ''''" "ctl_disconnect_chainsetup E ct = Inl Undefined_behaviour"
    "aio_of d ct = None" "get_audio_object d ct = Inl Undefined_behaviour"
proof -
  show s: "sel_setup ct = Inl Undefined_behaviour" and e: "ct_engine ct = None"
    using assms by (auto simp: idle_def sel_setup_def control_ok_def)
  show "is_connected ct = Inr False" "\<not> is_selected ct" "selected_chainsetup ct = Inr ''''" "connected_chainsetup ct = Inr ''''" "aio_of d ct = None"
    using assms by (simp_all add: idle_def is_connected_def is_selected_def selected_chainsetup_def connected_chainsetup_def aio_of_def split: audio_dir.split)
  show "ctl_disconnect_chainsetup E ct = Inl Undefined_behaviour"
    using assms e by (simp add: ctl_disconnect_chainsetup_def is_engine_ready_for_commands_def is_engine_created_def session_disconnect_chainsetup_def idle_def)
  show "get_audio_object d ct = Inl Undefined_behaviour"
    by (simp add: get_audio_object_def ok_audio_object_def s)
qed

lemma idle_update [simp]: "idle (ct\<lparr>ct_ret := v\<rparr>) = idle ct" "idle (ct\<lparr>ct_ok := b, ct_reconnect := b', ct_restart := b''\<rparr>) = idle ct"
  by (simp_all add: idle_def)

text \<open>The preconditions in such a state.\<close>

lemma idle_action:
  assumes "idle ct" "first_arg ct \<noteq> ''''"
  defines "ct0 \<equiv> ct\<lparr>ct_ret := Ret_none, ct_ok := True, ct_reconnect := False, ct_restart := False\<rparr>"
  shows "action_requires_selected a \<or> action_requires_connected a \<Longrightarrow> \<exists>ct'. ctl_action E a ct = Inr ct'"
    and "\<not> (action_requires_selected a \<or> action_requires_connected a) \<Longrightarrow> action_requires_selected_not_connected a \<Longrightarrow>
      ctl_action E a ct = Inl Undefined_behaviour"
    and "\<not> (action_requires_selected a \<or> action_requires_connected a \<or> action_requires_selected_not_connected a) \<Longrightarrow>
      ctl_action E a ct = bind_result (perform E a ct0) (\<lambda>ct2. if ct_reconnect ct2 then reconnect_chainsetup E ct2 else Inr ct2)"
    and "idle ct0"
proof -
  have "control_ok ct0 = control_ok ct" by (rule control_ok_core) (simp add: core_def ct0_def)
  then show i: "idle ct0" using assms(1) by (simp add: idle_def) (simp add: ct0_def)
  note f = idle_facts[OF i]
  have a: "first_arg ct0 \<noteq> ''''" using assms(2) by (simp add: ct0_def first_arg_def)
  have c: "check_action_preconditions E a (ct\<lparr>ct_ret := Ret_none\<rparr>) = check_chainsetups E a ct0"
    using f a by (simp add: check_action_preconditions_def ct0_def Let_def)
  have r: "check_chainsetups E a ct0 =
      (if action_requires_selected a then Inr (refuse None_selected ct0) else if action_requires_connected a then Inr (refuse None_connected ct0)
       else if action_requires_selected_not_connected a then Inl Undefined_behaviour else Inr ct0)"
    using f idle_facts(7)[of "ct0\<lparr>ct_restart := is_running ct0\<rparr>" E] i
    by (simp add: check_chainsetups_def select_connected_def connect_selected_def disconnect_selected_def idle_def)
  have ok: "\<not> ct_ok (refuse why ct0)" "ct_ok ct0" for why by (simp_all add: refuse_def ct0_def)
  show "action_requires_selected a \<or> action_requires_connected a \<Longrightarrow> \<exists>ct'. ctl_action E a ct = Inr ct'"
    using ok by (auto simp: ctl_action_def c r)
  show "\<not> (action_requires_selected a \<or> action_requires_connected a) \<Longrightarrow> action_requires_selected_not_connected a \<Longrightarrow>
      ctl_action E a ct = Inl Undefined_behaviour"
    by (simp add: ctl_action_def c r)
  show "\<not> (action_requires_selected a \<or> action_requires_connected a \<or> action_requires_selected_not_connected a) \<Longrightarrow>
      ctl_action E a ct = bind_result (perform E a ct0) (\<lambda>ct2. if ct_reconnect ct2 then reconnect_chainsetup E ct2 else Inr ct2)"
    using ok by (simp add: ctl_action_def c r)
qed


text \<open>The unguarded actions, on the state without a chainsetup.\<close>

lemma nothing_selected:
  assumes "sel_setup ct = Inl Undefined_behaviour"
  shows "on_selected_cs f ct = Inl Undefined_behaviour" "of_the_chain v h ct = Inl Undefined_behaviour" "list_of_chain q ct = Inl Undefined_behaviour"
    "edit_the_chain E w ct = Inl Undefined_behaviour" "selected_chains ct = Inl Undefined_behaviour" "object_option E opt ct = Inl Undefined_behaviour"
    "ctl_position_in_seconds_exact ct = Inl Undefined_behaviour" "ctl_length_in_seconds_exact ct = Inl Undefined_behaviour"
    "audio_object_names E d ct = Inl Undefined_behaviour"
  by (simp_all add: on_selected_cs_def of_the_chain_def get_chain_priv_def list_of_chain_def edit_the_chain_def selected_chains_def
      object_option_def ctl_position_in_seconds_exact_def ctl_length_in_seconds_exact_def audio_object_names_def assms)

lemma unguarded_faults:
  assumes "idle ct" "unguarded (first_arg ct) a" "\<not> action_requires_selected_not_connected a"
  shows "perform E a ct = Inl Undefined_behaviour"
proof -
  note n = nothing_selected[OF idle_facts(1)[OF assms(1)]] idle_facts(8,9)[OF assms(1)]
  show ?thesis
  proof (cases a)
    case (Cs c)
    then show ?thesis using assms(2) by (simp add: set_chainsetup_sample_format_def n)
  next
    case (C c)
    then show ?thesis using assms(2,3)
      by (auto simp: n select_chains_by_index_def deselect_chains_def ctl_select_all_chains_def chain_is_bypassed_def chain_is_muted_def returning_def)
  next
    case (Aio d c)
    then show ?thesis using assms(2) by (auto simp: n deref_aio_def returning_def)
  next
    case (Cop c)
    then show ?thesis using assms(2,3) by (auto simp: n get_chain_operator_parameter_def returning_def)
  next
    case (Ctrl c)
    then show ?thesis using assms(2,3)
      by (cases c) (auto simp: n controller_names_def selected_controller_target_def controller_parameter_names_def returning_def
          ctl_select_controller_parameter_def on_the_chain_def selected_controller_parameter_def get_controller_parameter_def ctl_set_controller_parameter_def)
  next
    case (Dump c)
    then show ?thesis using assms(2)
      by (cases c) (auto simp: n dumping_def dump_audio_object_def ctl_select_chain_operator_def on_the_chain_def Let_def)
  qed (use assms(2) in simp)
qed

lemma unguarded_requires: "unguarded arg a \<Longrightarrow> \<not> (action_requires_selected a \<or> action_requires_connected a)"
  by (cases a rule: action_requires_selected.cases) auto

lemma disconnecting_unguarded:
  "action_requires_selected_not_connected a \<Longrightarrow> \<not> (action_requires_selected a \<or> action_requires_connected a) \<Longrightarrow> unguarded arg a"
  by (cases a rule: action_requires_selected.cases) auto

text \<open>The other ones return, and do not ask for a reconnection.\<close>

lemma names_total:
  assumes "session_ok se"
  shows "\<exists>names. session_chainsetup_names se = Inr names"
proof -
  have "\<exists>names. fold_result (\<lambda>a names. bind_result (deref (Some a) se) (\<lambda>st. Inr (names @ [st_name st]))) as acc = Inr names"
    if "set as \<subseteq> set (se_setups se)" for as acc
    using that
  proof (induction as arbitrary: acc)
    case (Cons a as)
    then obtain st where "se_heap se a = Some st" using session_okD(6)[OF assms, of a] by auto
    then show ?case using Cons by simp
  qed simp
  then show ?thesis by (simp add: session_chainsetup_names_def)
qed

lemma select_total:
  assumes "control_ok ct"
  shows "\<exists>ct'. ctl_select_chainsetup name ct = Inr ct' \<and> ct_reconnect ct' = ct_reconnect ct"
proof -
  have "\<forall>a \<in> set (se_setups (ct_session ct)). se_heap (ct_session ct) a \<noteq> None"
    using session_okD(6)[OF control_okD(1)[OF assms]] by blast
  then obtain r where "setup_named name (se_setups (ct_session ct)) (ct_session ct) = Inr r" using setup_named_total by blast
  then show ?thesis by (simp add: ctl_select_chainsetup_def session_select_chainsetup_def Let_def set_error_def)
qed

lemma select_by_index_total:
  assumes "control_ok ct"
  shows "\<exists>ct'. ctl_select_chainsetup_by_index n ct = Inr ct' \<and> ct_reconnect ct' = ct_reconnect ct"
proof (cases "1 \<le> n \<and> n \<le> int (length (se_setups (ct_session ct)))")
  case True
  then have "se_setups (ct_session ct) ! nat (n - 1) \<in> set (se_setups (ct_session ct))" by (intro nth_mem) linarith
  then obtain st where "se_heap (ct_session ct) (se_setups (ct_session ct) ! nat (n - 1)) = Some st"
    using session_okD(6)[OF control_okD(1)[OF assms]] by blast
  then show ?thesis using select_total[OF assms] True by (simp add: ctl_select_chainsetup_by_index_def)
qed (auto simp: ctl_select_chainsetup_by_index_def)

lemma add_total:
  assumes "control_ok ct" "control_env_ok E" "name \<noteq> ''''"
  shows "\<exists>ct'. ctl_add_chainsetup E name ct = Inr ct' \<and> ct_reconnect ct' = ct_reconnect ct"
proof -
  obtain se where se: "session_add_chainsetup (ce_session E) name (ct_session ct) = Inr se" "session_ok se"
    using session_add_ok[OF control_okD(1)[OF assms(1)] control_envD(1)[OF assms(2)] assms(3)] by blast
  have "\<forall>a \<in> set (se_setups se). se_heap se a \<noteq> None" using session_okD(6)[OF se(2)] by blast
  then obtain r where "setup_named name (se_setups se) se = Inr r" using setup_named_total by blast
  then show ?thesis
    by (simp add: ctl_add_chainsetup_def se(1) ctl_select_chainsetup_def session_select_chainsetup_def Let_def set_error_def)
qed

lemma load_total:
  assumes "control_ok ct" "control_env_ok E"
  shows "\<exists>ct'. ctl_load_chainsetup E f ct = Inr ct' \<and> ct_reconnect ct' = ct_reconnect ct"
proof (cases "ve_load (ce_session E) f")
  case (Loaded st)
  have ok: "session_ok (set_cs_param_defaults (ct_session ct))" using control_okD(1)[OF assms(1)] by simp
  have "\<not> cs_enabled (st_cs st)" "st_name st \<noteq> ''''"
    using control_envD(1)[OF assms(2)] Loaded by (auto simp: session_env_ok_def)
  then obtain se where "add_and_delete st (set_cs_param_defaults (ct_session ct)) = Inr se" using add_and_delete_ok[OF ok] by blast
  then show ?thesis by (simp add: ctl_load_chainsetup_def session_load_chainsetup_def Loaded no_throw_def Let_def)
qed (simp_all add: ctl_load_chainsetup_def session_load_chainsetup_def Let_def set_error_def)

lemma guarded_returns:
  assumes "idle ct" "control_env_ok E" "first_arg ct \<noteq> ''''" "\<not> unguarded (first_arg ct) a"
    "\<not> (action_requires_selected a \<or> action_requires_connected a)" "\<not> ct_reconnect ct"
  shows "\<exists>ct'. perform E a ct = Inr ct' \<and> \<not> ct_reconnect ct'"
proof -
  note f = idle_facts[OF assms(1)]
  have ok: "control_ok ct" using assms(1) by (simp add: idle_def)
  show ?thesis
  proof (cases a)
    case (General g)
    then show ?thesis using assms(5,6) f(2)
      by (cases g) (auto simp: close_engine_def is_engine_created_def set_ret_def set_error_def)
  next
    case (Cs c)
    then show ?thesis
      using assms(3-6) f names_total[OF control_okD(1)[OF ok]] select_total[OF ok] select_by_index_total[OF ok] add_total[OF ok assms(2,3)] load_total[OF ok assms(2)]
      by (cases c) (auto simp: returning_def set_ret_def)
  next
    case (C c)
    then show ?thesis using assms(4,5) by (cases c) auto
  next
    case (Aio d c)
    then show ?thesis using assms(4,5) by simp
  next
    case (Cop c)
    then show ?thesis using assms(4-6) f(4) by (cases c) (auto simp: set_ret_def)
  next
    case (Ctrl c)
    then show ?thesis using assms(4,5) by simp
  next
    case (Dump c)
    then show ?thesis using assms(4-6) f(3) by (cases c) (auto simp: dumping_def Let_def)
  qed
qed




subsection \<open>Removing the connected chainsetup\<close>

lemma select_by_name:
  assumes "session_ok se" "se_heap se a = Some st"
  shows "setup_named (st_name st) (se_setups se) se = Inr (Some a)"
proof -
  have "\<forall>b \<in> set (se_setups se). se_heap se b \<noteq> None" using session_okD(6)[OF assms(1)] by blast
  then obtain r where r: "setup_named (st_name st) (se_setups se) se = Inr r" using setup_named_total by blast
  have n: "name_of se a = st_name st" by (simp add: name_of_def assms(2))
  show ?thesis
  proof (cases r)
    case None
    then show ?thesis using setup_named_None[OF r[unfolded None], of a] session_okD(7)[OF assms] n by simp
  next
    case (Some b)
    then obtain st' where "se_heap se b = Some st'" "st_name st' = st_name st"
      using setup_named_Some[OF r[unfolded Some]] by (auto simp: name_of_def)
    then show ?thesis using session_okD(11)[OF assms(1)] assms(2) r Some by fastforce
  qed
qed

text \<open>
  C35. When no chainsetup is selected but one is connected, \<open>cs-remove\<close> first selects the connected one and
  then deletes it, without disconnecting: the session keeps a pointer to the deleted chainsetup, and the
  next command that asks whether one is connected follows it.
\<close>

theorem removing_the_connected_chainsetup:
  assumes "control_ok ct" "ct_selected ct = None" "se_connected (ct_session ct) = Some a"
  shows "\<exists>ct'. ctl_action E (Cs Cs_remove) ct = Inr ct' \<and> se_connected (ct_session ct') = Some a \<and>
    se_heap (ct_session ct') a = None \<and> is_connected ct' = Inl Undefined_behaviour"
proof -
  let ?ct = "ct\<lparr>ct_ret := Ret_none, ct_ok := True, ct_reconnect := False, ct_restart := False\<rparr>"
  let ?se = "ct_session ct"
  note ok = session_okD[OF control_okD(1)[OF assms(1)]]
  obtain st where st: "se_heap ?se a = Some st" using ok(4,6) assms(3) by blast
  have c: "is_connected ?ct = Inr True" using connected_iff[OF assms(1)] assms(3) by (simp add: is_connected_def con_setup_def)
  have nm: "connected_chainsetup ?ct = Inr (st_name st)" by (simp add: connected_chainsetup_def con_setup_def assms(3) st)
  have sel: "session_select_chainsetup (st_name st) ?se = Inr (?se\<lparr>se_selected := Some a\<rparr>)"
    by (simp add: session_select_chainsetup_def select_by_name[OF control_okD(1)[OF assms(1)] st])
  have p: "check_action_preconditions E (Cs Cs_remove) (ct\<lparr>ct_ret := Ret_none\<rparr>) = Inr (?ct\<lparr>ct_session := ?se\<lparr>se_selected := Some a\<rparr>, ct_selected := Some a\<rparr>)"
    using assms(2) c nm sel
    by (simp add: check_action_preconditions_def check_chainsetups_def select_connected_def is_selected_def ctl_select_chainsetup_def Let_def)
  have "a \<in> set (se_setups ?se)" using ok(4) assms(3) by simp
  then have "ctl_action E (Cs Cs_remove) ct = Inr (ctl_remove_chainsetup (?ct\<lparr>ct_session := ?se\<lparr>se_selected := Some a\<rparr>, ct_selected := Some a\<rparr>))"
    by (simp add: ctl_action_def p ctl_remove_chainsetup_def)
  then show ?thesis
    using assms(3) \<open>a \<in> set (se_setups ?se)\<close>
    by (simp add: ctl_remove_chainsetup_def session_remove_chainsetup_def delete_setup_def is_connected_def con_setup_def)
qed

lemma demo_unselected:
  "outcome_of (demo_commands [''cs-load tape.ecs'', ''cs-connect'', ''cs-select other'']) = Some (None, Some 0, Some True, Ret_error (msg_no_chainsetup ''other''))"
  by code_simp

lemma select_in_place: "in_place E ''cs-select other'' ct"
proof -
  have t: "kvu_string_to_tokens_quoted ''cs-select other'' = [''cs-select'', ''other'']" "command_to_action_id ''cs-select'' = Some (Cs Cs_select)"
    by code_simp+
  show ?thesis by (simp add: in_place_def t)
qed

lemma demo_run:
  assumes "demo_commands cmds = Inr ct" "\<And>s ct. s \<in> set cmds \<Longrightarrow> in_place demo_env s ct"
  shows "ctl_reach demo_env ct"
proof -
  have "fold_result (ctl_command demo_env) cmds ct0 = Inr ct \<Longrightarrow> ctl_reach demo_env ct0 \<Longrightarrow> ctl_reach demo_env ct" for ct0
    using assms(2)
  proof (induction cmds arbitrary: ct0)
    case (Cons s cmds)
    then obtain ct1 where 1: "ctl_command demo_env s ct0 = Inr ct1" "fold_result (ctl_command demo_env) cmds ct1 = Inr ct"
      by (auto simp: bind_result_Inr_iff)
    have "in_place demo_env s ct0" using Cons.prems(3) by simp
    then have "ctl_reach demo_env ct1" by (rule ctl_reach.command[OF Cons.prems(2) _ 1(1)])
    then show ?case using Cons.IH[OF 1(2)] Cons.prems(3) by simp
  qed simp
  then show ?thesis using assms(1) by (simp add: demo_commands_def ctl_reach.init)
qed

lemma removing_the_connected_chainsetup_witness:
  "\<exists>ct ct'. ctl_reach demo_env ct \<and> ctl_action demo_env (Cs Cs_remove) ct = Inr ct' \<and> is_connected ct' = Inl Undefined_behaviour"
proof -
  obtain ct where ct: "demo_commands [''cs-load tape.ecs'', ''cs-connect'', ''cs-select other''] = Inr ct"
      "ct_selected ct = None" "se_connected (ct_session ct) = Some 0"
    using outcome_of_Some[OF demo_unselected] by blast
  have "ctl_reach demo_env ct" by (rule demo_run[OF ct(1)]) (auto simp: load_in_place select_in_place)
  then show ?thesis
    using removing_the_connected_chainsetup[of ct 0 demo_env, OF reach_ok[OF _ demo_env_ok] ct(2,3)] by blast
qed


subsection \<open>A chainsetup that could not be added\<close>

lemma look_total:
  assumes "control_ok ct"
  shows "\<exists>p ct'. (if is_selected ct then get_audio_object d ct else Inr (None, ct)) = Inr (p, ct') \<and> (ct' = ct \<or> ct' = set_aio d None ct)"
proof (cases "ct_selected ct = None")
  case False
  then obtain st where "sel_setup ct = Inr st" using control_okD(5)[OF assms] by blast
  then obtain p ct' where "get_audio_object d ct = Inr (p, ct')" by (auto simp: get_audio_object_def ok_audio_object_def Let_def)
  then show ?thesis using False get_audio_object_kept by (auto simp: is_selected_def)
qed (simp add: is_selected_def)

text \<open>What the preconditions do when no selected object is needed: they come to the tests of the chainsetups.\<close>

lemma checks_reach_chainsetups:
  assumes "control_ok ct" "first_arg ct \<noteq> '''' \<or> \<not> action_requires_params a" "\<And>d. \<not> action_requires_selected_aio d a"
  shows "\<exists>ct1. check_action_preconditions E a ct = check_chainsetups E a ct1 \<and> control_ok ct1 \<and> ct_ok ct1 \<and> \<not> ct_reconnect ct1 \<and>
    \<not> ct_restart ct1 \<and> args_of ct1 = args_of ct \<and> ct_session ct1 = ct_session ct \<and> ct_selected ct1 = ct_selected ct \<and> ct_engine ct1 = ct_engine ct"
proof -
  let ?ct = "ct\<lparr>ct_ok := True, ct_reconnect := False, ct_restart := False\<rparr>"
  have ok: "control_ok ?ct" using assms(1) by simp
  obtain p ct1 where 1: "(if is_selected ?ct then get_audio_object Dir_input ?ct else Inr (None, ?ct)) = Inr (p, ct1)"
      "ct1 = ?ct \<or> ct1 = set_aio Dir_input None ?ct"
    using look_total[OF ok] by blast
  have ok1: "control_ok ct1" using 1(2) ok by auto
  obtain q ct2 where 2: "(if is_selected ct1 then get_audio_object Dir_output ct1 else Inr (None, ct1)) = Inr (q, ct2)"
      "ct2 = ct1 \<or> ct2 = set_aio Dir_output None ct1"
    using look_total[OF ok1] by blast
  have a: "\<not> (ct_argf ct = None \<and> first_arg ?ct = '''' \<and> action_requires_params a)" using assms(2) by (auto simp: first_arg_def)
  have "check_action_preconditions E a ct = check_chainsetups E a ct2"
    using a assms(3) 1(1) 2(1) by (auto simp: check_action_preconditions_def Let_def)
  moreover have "control_ok ct2" using 2(2) ok1 by auto
  moreover have "ct_ok ct2 \<and> \<not> ct_reconnect ct2 \<and> \<not> ct_restart ct2 \<and> args_of ct2 = args_of ct \<and> ct_session ct2 = ct_session ct \<and>
      ct_selected ct2 = ct_selected ct \<and> ct_engine ct2 = ct_engine ct"
    using 1(2) 2(2) by auto
  ultimately show ?thesis by blast
qed

text \<open>
  C36. A \<open>cs-add\<close> with a name that is taken leaves the selection of the control interface as it is, but the
  session forgets its own: \<open>cs-save\<close>, for which a chainsetup counts as selected, then dereferences a null
  pointer.
\<close>

theorem failed_add_then_save:
  assumes "control_ok ct" "control_env_ok E" "ct_selected ct = Some a" "first_arg ct \<noteq> ''''"
    "first_arg ct \<in> name_of (ct_session ct) ` set (se_setups (ct_session ct))"
  shows "\<exists>ct1. ctl_action E (Cs Cs_add) ct = Inr ct1 \<and> ct_ret ct1 = Ret_error (msg_add_chainsetup (first_arg ct)) \<and>
    ct_selected ct1 = Some a \<and> ctl_action E (Cs Cs_save) ct1 = Inl Undefined_behaviour"
proof -
  let ?ct = "ct\<lparr>ct_ret := Ret_none\<rparr>"
  have ok: "control_ok ?ct" "first_arg ?ct \<noteq> ''''" using assms(1,4) by (simp_all add: first_arg_def)
  obtain c1 where c1: "check_action_preconditions E (Cs Cs_add) ?ct = check_chainsetups E (Cs Cs_add) c1" "control_ok c1" "ct_ok c1"
      "\<not> ct_reconnect c1" "args_of c1 = args_of ?ct" "ct_session c1 = ct_session ct" "ct_selected c1 = ct_selected ct"
    using checks_reach_chainsetups[OF ok(1), of "Cs Cs_add" E] ok(2) by auto
  have arg: "first_arg c1 = first_arg ct" using args_first[OF c1(5)] by (simp add: first_arg_def)
  obtain sn cn where n: "selected_chainsetup c1 = Inr sn" "connected_chainsetup c1 = Inr cn"
    using selected_name_total[OF c1(2)] connected_name_total[OF c1(2)] by blast
  have p: "check_chainsetups E (Cs Cs_add) c1 = Inr c1"
    using connected_iff[OF c1(2)] n by (simp add: check_chainsetups_def disconnect_selected_def)
  obtain se where se: "session_add_chainsetup (ce_session E) (first_arg ct) (ct_session ct) = Inr se" "session_ok se"
      "se_selected se = None" "se_setups se = se_setups (ct_session ct)" "se_connected se = se_connected (ct_session ct)"
      "se_heap se = se_heap (ct_session ct)"
    using session_add_ok[OF control_okD(1)[OF assms(1)] control_envD(1)[OF assms(2)] assms(4)] assms(5) by auto
  define ct1 where "ct1 = set_error (msg_add_chainsetup (first_arg ct)) (c1\<lparr>ct_session := se\<rparr>)"
  have 1: "ctl_action E (Cs Cs_add) ct = Inr ct1"
    using c1(1,3,4,6) p se by (simp add: ctl_action_def ctl_add_chainsetup_def arg ct1_def set_error_def)
  have k: "ct_selected ct1 = Some a" "ct_session ct1 = se" using c1(7) assms(3) by (simp_all add: ct1_def set_error_def)
  have "control_ok (c1\<lparr>ct_session := se\<rparr>)" using c1(2,6) se by (simp add: control_ok_def)
  then have ok1: "control_ok (ct1\<lparr>ct_ret := Ret_none\<rparr>)" by (simp add: ct1_def)
  obtain c2 where c2: "check_action_preconditions E (Cs Cs_save) (ct1\<lparr>ct_ret := Ret_none\<rparr>) = check_chainsetups E (Cs Cs_save) c2" "control_ok c2" "ct_ok c2"
      "ct_session c2 = se" "ct_selected c2 = Some a"
    using checks_reach_chainsetups[OF ok1, of "Cs Cs_save" E] k by auto
  obtain sn cn where n2: "selected_chainsetup c2 = Inr sn" "connected_chainsetup c2 = Inr cn"
    using selected_name_total[OF c2(2)] connected_name_total[OF c2(2)] by blast
  have "check_chainsetups E (Cs Cs_save) c2 = Inr c2"
    using connected_iff[OF c2(2)] n2 c2(5) by (simp add: check_chainsetups_def disconnect_selected_def is_selected_def)
  then have "ctl_action E (Cs Cs_save) ct1 = Inl Undefined_behaviour"
    using c2 se(3) by (simp add: ctl_action_def ctl_save_chainsetup_def session_save_chainsetup_def)
  then show ?thesis using 1 k(1) by (intro exI[of _ ct1]) (simp add: ct1_def set_error_def)
qed


lemma demo_loaded: "outcome_of (demo_commands [''cs-load tape.ecs'']) = Some (Some 0, None, Some False, Ret_none)"
  by code_simp

lemma demo_name: "(case demo_commands [''cs-load tape.ecs''] of Inl f \<Rightarrow> None | Inr ct \<Rightarrow> Some (se_setups (ct_session ct), name_of (ct_session ct) 0)) = Some ([0], ''tape'')"
  by code_simp

lemma failed_add_then_save_witness:
  "\<exists>ct ct1. ct_selected ct = Some 0 \<and> ctl_action demo_env (Cs Cs_add) ct = Inr ct1 \<and> ctl_action demo_env (Cs Cs_save) ct1 = Inl Undefined_behaviour"
proof -
  obtain ct where ct: "demo_commands [''cs-load tape.ecs''] = Inr ct" "ct_selected ct = Some 0"
    using outcome_of_Some[OF demo_loaded] by blast
  have "ctl_reach demo_env ct" by (rule demo_run[OF ct(1)]) (auto simp: load_in_place)
  then have ok: "control_ok (set_action_argument [''tape''] ct)" using reach_ok[OF _ demo_env_ok] by simp
  have "se_setups (ct_session ct) = [0]" "name_of (ct_session ct) 0 = ''tape''" using demo_name by (simp_all add: ct(1))
  then have n: "first_arg (set_action_argument [''tape''] ct) \<in> name_of (ct_session (set_action_argument [''tape''] ct)) ` set (se_setups (ct_session (set_action_argument [''tape''] ct)))"
    by (simp add: first_arg_def set_action_argument_def)
  have s: "ct_selected (set_action_argument [''tape''] ct) = Some 0" "first_arg (set_action_argument [''tape''] ct) \<noteq> ''''"
    using ct(2) by (simp_all add: first_arg_def set_action_argument_def)
  show ?thesis using failed_add_then_save[OF ok demo_env_ok s n] s(1) by blast
qed

subsection \<open>The temporary disconnection\<close>

lemma passed_checks:
  assumes "control_ok ct" "check_action_preconditions E a ct = Inr ct'" "ct_ok ct'"
  shows "\<exists>ct2. check_chainsetups E a ct2 = Inr ct' \<and> control_ok ct2 \<and> ct_session ct2 = ct_session ct \<and> ct_selected ct2 = ct_selected ct \<and>
    ct_engine ct2 = ct_engine ct"
proof -
  let ?ct = "ct\<lparr>ct_ok := True, ct_reconnect := False, ct_restart := False\<rparr>"
  have ok: "control_ok ?ct" using assms(1) by simp
  obtain p ct1 where 1: "(if is_selected ?ct then get_audio_object Dir_input ?ct else Inr (None, ?ct)) = Inr (p, ct1)"
      "ct1 = ?ct \<or> ct1 = set_aio Dir_input None ?ct"
    using look_total[OF ok] by blast
  have ok1: "control_ok ct1" using 1(2) ok by auto
  obtain q ct2 where 2: "(if is_selected ct1 then get_audio_object Dir_output ct1 else Inr (None, ct1)) = Inr (q, ct2)"
      "ct2 = ct1 \<or> ct2 = set_aio Dir_output None ct1"
    using look_total[OF ok1] by blast
  have r: "\<not> ct_ok (refuse why c)" for why and c :: "('a, 'b, 'c) control" by (simp add: refuse_def)
  have "check_chainsetups E a ct2 = Inr ct'"
    using assms(2,3) 1(1) 2(1) r by (auto simp: check_action_preconditions_def Let_def split: if_splits)
  moreover have "control_ok ct2" using 2(2) ok1 by auto
  moreover have "ct_session ct2 = ct_session ct \<and> ct_selected ct2 = ct_selected ct \<and> ct_engine ct2 = ct_engine ct"
    using 1(2) 2(2) by auto
  ultimately show ?thesis by blast
qed

text \<open>
  C7. An action that needs a disconnected chainsetup, on a selected chainsetup that is connected, finds it
  disconnected and disabled and the engine gone; whether the engine was running is remembered, for the
  reconnection.
\<close>

theorem edits_find_it_disconnected:
  assumes "control_ok ct" "control_env_ok E" "action_requires_selected_not_connected a" "ct_selected ct = Some s"
    "se_connected (ct_session ct) = Some s" "check_action_preconditions E a ct = Inr ct1" "ct_ok ct1"
  shows "ct_selected ct1 = Some s \<and> se_connected (ct_session ct1) = None \<and> ct_engine ct1 = None \<and> ct_reconnect ct1 \<and>
    ct_restart ct1 = is_running ct \<and> (\<exists>st. se_heap (ct_session ct1) s = Some st \<and> \<not> cs_enabled (st_cs st))"
proof -
  obtain c where c: "check_chainsetups E a c = Inr ct1" "control_ok c" "ct_session c = ct_session ct" "ct_selected c = Some s" "ct_engine c = ct_engine ct"
    using passed_checks[OF assms(1,6,7)] assms(4) by auto
  obtain n where n: "selected_chainsetup c = Inr n" "connected_chainsetup c = Inr n"
    using selected_name_total[OF c(2)] assms(5) c(3,4)
    by (auto simp: selected_chainsetup_def connected_chainsetup_def sel_setup_def con_setup_def)
  have "is_connected c = Inr True" using connected_iff[OF c(2)] assms(5) c(3) by simp
  then obtain c1 where c1: "ctl_disconnect_chainsetup E (c\<lparr>ct_restart := is_running c\<rparr>) = Inr c1" "ct1 = c1\<lparr>ct_reconnect := True\<rparr>"
    using c(1,4) n assms(3) by (auto simp: check_chainsetups_def disconnect_selected_def is_selected_def bind_result_Inr_iff)
  have ok: "control_ok (c\<lparr>ct_restart := is_running c\<rparr>)" using c(2) by simp
  note d = disconnect_ok[OF ok assms(2) c1(1)]
  have r: "is_running c = is_running ct" using c(5) by (simp add: is_running_def ctl_status_def)
  have "s \<in> set (se_setups (ct_session c1))" using d control_okD(2)[of c1 s] c(4) by simp
  then obtain st where "se_heap (ct_session c1) s = Some st" using d session_okD(6)[OF control_okD(1)] by blast
  moreover have "\<not> cs_enabled (st_cs st)" if "se_heap (ct_session c1) s = Some st" for st
    using session_okD(8)[OF control_okD(1) that] d by simp
  ultimately show ?thesis using d c(4) r by (simp add: c1(2))
qed



lemma edits_find_it_disconnected_witness:
  "\<exists>ct ct1. ctl_reach demo_env ct \<and> se_connected (ct_session ct) = Some 0 \<and>
     check_action_preconditions demo_env (Cs Cs_toggle_loop) ct = Inr ct1 \<and> se_connected (ct_session ct1) = None \<and> ct_reconnect ct1"
proof -
  let ?c = "[''cs-load tape.ecs'', ''cs-connect'']"
  have "(case demo_commands ?c of Inl f \<Rightarrow> False | Inr ct \<Rightarrow>
      (case check_action_preconditions demo_env (Cs Cs_toggle_loop) ct of Inl f \<Rightarrow> False | Inr ct1 \<Rightarrow> ct_ok ct1))"
    by code_simp
  then obtain ct ct1 where ct: "demo_commands ?c = Inr ct" "check_action_preconditions demo_env (Cs Cs_toggle_loop) ct = Inr ct1" "ct_ok ct1"
    by (auto split: sum.splits)
  have sel: "ct_selected ct = Some 0" "se_connected (ct_session ct) = Some 0"
    using outcome_of_Some[OF demo_connected] ct(1) by auto
  have r: "ctl_reach demo_env ct" by (rule demo_run[OF ct(1)]) (auto simp: load_in_place)
  have "action_requires_selected_not_connected (Cs Cs_toggle_loop)" by simp
  from edits_find_it_disconnected[OF reach_ok[OF r demo_env_ok] demo_env_ok this sel ct(2,3)]
  show ?thesis using r sel ct(2) by blast
qed

fun enables :: "('io, 'o, 'c, rat) chainsetup throwing \<Rightarrow> bool" where
  "enables (Inr (cs, None)) = True"
| "enables r = False"

lemma enables_Inr: "enables r \<Longrightarrow> \<exists>cs. r = Inr (cs, None)"
  by (cases r rule: enables.cases) auto


subsection \<open>Selecting a chain that is not there\<close>

text \<open>
  \<open>c-select\<close> takes any name. With one name selected that no chain has, \<open>cop-set\<close> and \<open>cop-get\<close> with a
  number of an operator dereference a null pointer: only the number of selected names is tested.
\<close>

theorem operator_of_unknown_chain:
  assumes "sel_setup ct = Inr st" "cs_selected (st_cs st) = [name]" "name \<notin> set (chain_names (st_cs st))"
    "3 \<le> length (comma_list (first_arg ct))" "1 \<le> atoi (comma_list (first_arg ct) ! 0)"
  shows "perform E (Cop Cop_set) ct = Inl Undefined_behaviour \<and> perform E (Cop Cop_get) ct = Inl Undefined_behaviour"
proof -
  have "get_chain_with_name name (st_cs st) = None"
    using assms(3) by (auto simp: get_chain_with_name_def chain_names_def find_None_iff)
  then have "check_cop_op_args (atoi (comma_list (first_arg ct) ! 0)) p ct = Inl Undefined_behaviour" for p
    using assms(1,2,5) by (simp add: check_cop_op_args_def)
  then show ?thesis using assms(4) by (simp add: with_cop_args_def Let_def)
qed

lemma operator_of_unknown_chain_witness:
  "\<exists>ct. (\<exists>ct0. demo_commands [''cs-load tape.ecs'', ''c-select x''] = Inr ct0 \<and> ct = set_action_argument [''1,1,0.5''] ct0) \<and>
     perform demo_env (Cop Cop_set) ct = Inl Undefined_behaviour"
proof -
  let ?c = "[''cs-load tape.ecs'', ''c-select x'']"
  have "(case demo_commands ?c of Inl f \<Rightarrow> False | Inr ct \<Rightarrow>
      (case sel_setup ct of Inl f \<Rightarrow> False | Inr st \<Rightarrow> cs_selected (st_cs st) = [''x''] \<and> chain_names (st_cs st) = [''c'']))"
    by code_simp
  then obtain ct st where ct: "demo_commands ?c = Inr ct" "sel_setup ct = Inr st" "cs_selected (st_cs st) = [''x'']" "chain_names (st_cs st) = [''c'']"
    by (auto split: sum.splits)
  let ?ct = "set_action_argument [''1,1,0.5''] ct"
  have a: "comma_list (first_arg ?ct) = [''1'', ''1'', ''0.5'']"
  proof -
    have "comma_list ''1,1,0.5'' = [''1'', ''1'', ''0.5'']" by code_simp
    then show ?thesis by (simp add: first_arg_def set_action_argument_def)
  qed
  have i: "atoi ''1'' = 1" by code_simp
  have s: "sel_setup ?ct = Inr st" using ct(2) by (simp add: sel_setup_def set_action_argument_def)
  have n: "''x'' \<notin> set (chain_names (st_cs st))" "3 \<le> length (comma_list (first_arg ?ct))" "1 \<le> atoi (comma_list (first_arg ?ct) ! 0)"
    using ct(4) by (simp_all add: a i)
  have "perform demo_env (Cop Cop_set) ?ct = Inl Undefined_behaviour"
    using operator_of_unknown_chain[OF s ct(3) n, of demo_env] by blast
  then show ?thesis using ct(1) by blast
qed

subsection \<open>Names of setup files\<close>

text \<open>
  An argument of the command line that does not begin with a dash counts as a setup file when the first
  \<open>.ecs\<close> in it ends it, and also when it has three characters: then there is no \<open>.ecs\<close>, and the position
  \<open>npos\<close> wraps around to 3.
\<close>

theorem setup_file_arguments:
  assumes "length p < 2 ^ 64"
  shows "preprocess_option p =
    (if p \<noteq> '''' \<and> hd p \<noteq> CHR ''-'' \<and> (case find_first ''.ecs'' p of None \<Rightarrow> length p = 3 | Some i \<Rightarrow> i + 4 = length p)
     then ''-s:'' @ p else p)"
proof -
  have w: "(of_nat m :: 64 word) = of_nat (length p) \<longleftrightarrow> m = length p" if "m \<le> length p" for m
    using that assms by (simp add: word_of_nat_eq_iff take_bit_nat_eq_self)
  have "ends_with_ecs p = (case find_first ''.ecs'' p of None \<Rightarrow> length p = 3 | Some i \<Rightarrow> i + 4 = length p)"
  proof (cases "find_first ''.ecs'' p")
    case None
    have "(-1 :: 64 word) + 4 = of_nat (length p) \<longleftrightarrow> length p = 3"
    proof -
      have "(-1 :: 64 word) + 4 = of_nat 3" by simp
      also have "of_nat 3 = (of_nat (length p) :: 64 word) \<longleftrightarrow> 3 = length p"
        using assms by (simp only: word_of_nat_eq_iff) (simp add: take_bit_nat_eq_self)
      finally show ?thesis by auto
    qed
    then show ?thesis by (simp add: ends_with_ecs_def None)
  next
    case (Some i)
    then have "i + 4 \<le> length p" using find_first_spec[OF Some] by simp
    then show ?thesis using w[of "i + 4"] by (simp add: ends_with_ecs_def Some)
  qed
  then show ?thesis by (cases p) (simp_all add: preprocess_option_def)
qed

lemma setup_file_arguments_witness:
  "preprocess_option ''wav'' = ''-s:wav'' \<and> preprocess_option ''a.wav'' = ''a.wav'' \<and> preprocess_option ''a.ecs'' = ''-s:a.ecs'' \<and>
   preprocess_option ''a.ecs.ecs'' = ''a.ecs.ecs''"
  using setup_file_arguments[of "''wav''"] setup_file_arguments[of "''a.wav''"] setup_file_arguments[of "''a.ecs''"]
    setup_file_arguments[of "''a.ecs.ecs''"] by simp


subsection \<open>Relative seeking\<close>

text \<open>
  C37. \<open>cs-forward\<close> and \<open>cs-rewind\<close> on a chainsetup that no engine runs start from the position rounded up to
  whole seconds, not from the position.
\<close>

theorem relative_seek_rounds_up:
  assumes "control_ok ct" "\<not> is_engine_ready_for_commands ct" "sel_setup ct = Inr st" "p = cp_pos (cs_position (st_cs st))"
    "change_chainsetup_position E s ct = Inr ct'"
  shows "\<exists>st'. sel_setup ct' = Inr st' \<and>
    ap_position (cp_pos (cs_position (st_cs st'))) = max 0 (seconds_to_samples (of_int \<lceil>of_int (ap_position p) / of_int (ap_srate p) :: rat\<rceil> + s) p)"
proof -
  obtain sn cn where n: "selected_chainsetup ct = Inr sn" "connected_chainsetup ct = Inr cn"
    using selected_name_total[OF assms(1)] connected_name_total[OF assms(1)] by blast
  have sel: "ct_selected ct \<noteq> None" using assms(3) by (auto simp: sel_setup_def deref_Inr)
  have "on_selected_cs (\<lambda>cs. bind_result (bind_result (position_in_seconds (cp_pos (cs_position cs)))
         (\<lambda>t. Inr (seconds_to_samples (of_int t + s) (cp_pos (cs_position cs))))) (\<lambda>pos. cs_seek_position_in_samples (ve_io (ce_session E)) pos cs)) ct = Inr ct'"
    using assms(2,5) n by (simp add: change_chainsetup_position_def position_command_def)
  then obtain t cs where r: "position_in_seconds p = Inr t" "cs_seek_position_in_samples (ve_io (ce_session E)) (seconds_to_samples (of_int t + s) p) (st_cs st) = Inr cs"
      "ct' = put_selected (st\<lparr>st_cs := cs\<rparr>) ct"
    using assms(3,4) by (auto simp: on_selected_cs_def bind_result_Inr_iff)
  have "t = \<lceil>of_int (ap_position p) / of_int (ap_srate p) :: rat\<rceil>"
    using r(1) by (auto simp: position_in_seconds_def position_in_seconds_exact_def seconds_exact_def bind_result_Inr_iff split: if_splits)
  moreover have "ap_position (cp_pos (cs_position cs)) = max 0 (seconds_to_samples (of_int t + s) p)"
    using r(2) by (auto simp: cs_seek_position_in_samples_def bind_result_Inr_iff set_position_in_samples_def)
  moreover have "sel_setup ct' = Inr (st\<lparr>st_cs := cs\<rparr>)"
    using sel by (auto simp: r(3) sel_setup_def put_selected_def put_setup_def)
  ultimately show ?thesis by simp
qed


lemma relative_seek_rounds_up_witness:
  "\<exists>ct st ct' st'. ctl_reach demo_env ct \<and> sel_setup ct = Inr st \<and> ap_position (cp_pos (cs_position (st_cs st))) = 3 \<and>
     change_chainsetup_position demo_env 0 ct = Inr ct' \<and> sel_setup ct' = Inr st' \<and> ap_position (cp_pos (cs_position (st_cs st'))) = 44100"
proof -
  let ?c = "[''cs-load tape.ecs'', ''cs-connect'', ''cs-set-position-samples 3'']"
  have "(case demo_commands ?c of Inl f \<Rightarrow> False | Inr ct \<Rightarrow> \<not> is_engine_ready_for_commands ct \<and>
      (case sel_setup ct of Inl f \<Rightarrow> False | Inr st \<Rightarrow> ap_position (cp_pos (cs_position (st_cs st))) = 3 \<and> ap_srate (cp_pos (cs_position (st_cs st))) = 44100) \<and>
      (case change_chainsetup_position demo_env 0 ct of Inl f \<Rightarrow> False | Inr ct' \<Rightarrow> True))"
    by code_simp
  then obtain ct st ct' where ct: "demo_commands ?c = Inr ct" "\<not> is_engine_ready_for_commands ct" "sel_setup ct = Inr st"
      "ap_position (cp_pos (cs_position (st_cs st))) = 3" "ap_srate (cp_pos (cs_position (st_cs st))) = 44100"
      "change_chainsetup_position demo_env 0 ct = Inr ct'"
    by (auto split: sum.splits)
  have t: "kvu_string_to_tokens_quoted ''cs-set-position-samples 3'' = [''cs-set-position-samples'', ''3'']"
    "command_to_action_id ''cs-set-position-samples'' = Some (Cs Cs_set_position_samples)"
    by code_simp+
  have i: "in_place demo_env ''cs-set-position-samples 3'' c" for c by (simp add: in_place_def t)
  have r: "ctl_reach demo_env ct" by (rule demo_run[OF ct(1)]) (auto simp: load_in_place i)
  have "\<lceil>3 / 44100 :: rat\<rceil> = 1" by (simp add: ceiling_eq_iff)
  then have "max 0 (seconds_to_samples (of_int \<lceil>of_int (ap_position (cp_pos (cs_position (st_cs st)))) / of_int (ap_srate (cp_pos (cs_position (st_cs st)))) :: rat\<rceil> + 0)
      (cp_pos (cs_position (st_cs st)))) = 44100"
    by (simp add: ct(4,5) seconds_to_samples_def truncate_rat_def)
  then obtain st' where "sel_setup ct' = Inr st'" "ap_position (cp_pos (cs_position (st_cs st'))) = 44100"
    using relative_seek_rounds_up[OF reach_ok[OF r demo_env_ok] ct(2,3) refl ct(6)] by auto
  then show ?thesis using r ct(3,4,6) by blast
qed

end
