(* ===== verification/Spec2Isabelle.thy ===== *)
theory Spec2Isabelle
  imports Kvu_Args Sample_Buffer_Ops Kvu_Queues Audio_Position Db_Client Effects_Facts Loop_Device Enable_Facts Engine_Setup Reverse Sequencer_Facts Multitap_Facts Modulated_Facts Filters_Facts Gates_Facts Control_Errors
begin

text \<open>
  A verification development of the core of Ecasound, a multitrack audio processor in C++.

  \<^bold>\<open>The program.\<close> An engine (\<open>eca-engine.cpp\<close>) runs a chainsetup (\<open>eca-chainsetup.cpp\<close>): in each iteration
  it reads a buffer of samples from every input object into the chains connected to it, processes each
  chain (\<open>eca-chain.cpp\<close>), which is a list of chain operators (effects) with controllers that move
  their parameters, and mixes the chains to the output objects. Other threads send it commands through
  a queue, and a disk thread (\<open>audioio-db-server.cpp\<close>) fills rings of buffers for slow objects. Audio
  objects are files, devices, loop devices and objects that wrap other objects.

  \<^bold>\<open>Conventions.\<close> An operation that may go wrong returns \<open>fault + 'a\<close> (theory \<open>Prelude\<close>): undefined
  behaviour of C++, a failing assertion and an exception are distinct faults. Records model classes, with
  a function per method that returns the updated record; virtual functions are the fields of a class
  record (\<open>op_class\<close>, \<open>source_class\<close>, \<open>io_class\<close>, \<open>stream_class\<close>) that the callers take as an argument.
  Fresh memory has arbitrary content, an argument (\<open>g\<close>, \<open>gb\<close>) of the operations that allocate. The DBC
  macros only log and have no effect. Samples are a type variable with the operations the code uses;
  where arithmetic laws matter they are exact numbers of an ordered field, so the rounding of doubles is
  not modelled. The functions of \<open>cmath\<close> are the fields of a record \<open>math\<close> that the effects take as an
  argument; \<open>math_ok\<close> names the laws the proofs use of them.
  Sizes and positions are \<open>nat\<close> or \<open>int\<close>, kept as words where the code relies on their width.

  \<^bold>\<open>Theories and sources.\<close>
  \<^item> \<open>Prelude\<close>, \<open>Heap_Loops\<close>: results, faults, and loops over C arrays in closed form.
  \<^item> \<open>Kvu_Strings\<close>, \<open>Kvu_Args\<close>: \<open>kvutils/kvu_utils.cpp\<close>, \<open>kvu_numtostr.cpp\<close>. String helpers and the argument
    syntax, with round trips and the cases in which a loop does not end.
  \<^item> \<open>Kvu_Queues\<close>, \<open>Kvu_Timestamp\<close>: the thread queues as an interpretation of the locale \<open>fifo_queue\<close>.
  \<^item> \<open>Sample_Buffer\<close>, \<open>Sample_Buffer_Facts\<close>, \<open>Sample_Buffer_Ops\<close>, \<open>Audio_Mixing\<close>: \<open>samplebuffer.cpp\<close>. Each operation
    refines one on the audio alone, as long as the memory of the buffer is well formed.
  \<^item> \<open>Audio_Format\<close>, \<open>Sample_Bytes\<close>, \<open>Sample_Bytes_Facts\<close>: \<open>eca-audio-format.cpp\<close>, \<open>eca-sample-conversion.h\<close> and the
    import and export of \<open>samplebuffer.cpp\<close>. Every audio format is one of a sample format; conversion
    round trips with an error bound per format.
  \<^item> \<open>Audio_Position\<close>: \<open>eca-audio-position.cpp\<close>, \<open>eca-chainsetup-position.cpp\<close>, \<open>eca-audio-time.cpp\<close>.
  \<^item> \<open>Child_Stream\<close>, \<open>Raw_File\<close>, \<open>Raw_File_Facts\<close>: \<open>eca-fileio-stream.cpp\<close>, \<open>audioio-buffered.cpp\<close>, \<open>audioio-raw.cpp\<close>.
    What is recorded to a file is played back; the raw file interprets the locale \<open>child_stream\<close>, the
    contract of a finite, seekable audio object.
  \<^item> \<open>Db_Buffer\<close>, \<open>Db_Server\<close>, \<open>Db_Client\<close>: \<open>audioio-db-buffer.cpp\<close>, \<open>-server.cpp\<close>, \<open>-client.cpp\<close>. The ring between the
    disk thread and the engine under every interleaving of their steps.
  \<^item> \<open>Chain\<close>, \<open>Chain_Facts\<close>, \<open>Chain_Safety\<close>: \<open>eca-chain.cpp\<close>, \<open>generic-controller.cpp\<close>. Editing and processing a
    chain; the locales \<open>operator_contract\<close> and \<open>controlled_operators\<close> say what a chain needs of its operators.
  \<^item> \<open>Proxy\<close>, \<open>Reverse\<close>, \<open>Sequencer\<close>, \<open>Sequencer_Facts\<close>: \<open>audioio-proxy.cpp\<close>, \<open>audioio-reverse.cpp\<close>,
    \<open>audioio-seqbase.cpp\<close>, \<open>audioio-acseq.cpp\<close>. Objects that wrap a child object: for every child that keeps
    the laws of \<open>child_stream\<close>, what reversing, looping and shifting it plays.
  \<^item> \<open>Effects\<close>, \<open>Effects_Facts\<close>: \<open>audiofx_amplitude.cpp\<close>, \<open>audiofx_mixing.cpp\<close>, \<open>samplebuffer_iterators.cpp\<close>.
  \<^item> \<open>Signal_Loops\<close>, \<open>Effect_Base\<close>: \<open>samplebuffer_iterators.cpp\<close>, \<open>audiofx.cpp\<close>. The loops of the effects with a
    memory, as transducers of signals (\<open>mealy\<close>). The locales \<open>channel_effect\<close> (each channel on its own) and
    \<open>pair_effect\<close> (left and right in step) say what the body of such a loop has to do; they give the
    output of an effect on a stream however it is cut into buffers, and the contract of the chain.
  \<^item> \<open>Time_Effects\<close>, \<open>Time_Effects_Facts\<close>, \<open>Multitap_Facts\<close>, \<open>Modulated_Delays\<close>, \<open>Modulated_Facts\<close>:
    \<open>audiofx_timebased.cpp\<close>. Each delay interprets one of the two locales; its output as a function of
    the input signal, and the settings after which it faults. \<open>Oscillators\<close>: \<open>oscillator.h\<close>, \<open>osc-sine.cpp\<close>.
  \<^item> \<open>Filters\<close>, \<open>Filters_Facts\<close>: \<open>audiofx_filter.cpp\<close>. The recurrences the filters compute, their coefficients, and
    their response to constant signals.
  \<^item> \<open>Gates\<close>, \<open>Gates_Facts\<close>: \<open>audiogate.cpp\<close>, \<open>samplebuffer_functions.h\<close>, \<open>audiofx_envelope_modulation.cpp\<close>.
  \<^item> \<open>Loop_Device\<close>: \<open>audioio-loop.cpp\<close>.
  \<^item> \<open>Chainsetup\<close>, \<open>Chainsetup_Facts\<close>: \<open>eca-chainsetup.cpp\<close>. After any sequence of edits the connections point at
    existing objects; what adding and removing objects does to the others.
  \<^item> \<open>Chainsetup_Enable\<close>, \<open>Enable_Facts\<close>: \<open>enable\<close> and \<open>disable\<close> of a chainsetup, with the exceptions that leave them half done;
    the locale \<open>openable\<close> is what they need of the objects, and raw files interpret it.
  \<^item> \<open>Session\<close>, \<open>Session_Facts\<close>: \<open>eca-session.cpp\<close>. The chainsetups of a session as a store of addresses, with the pointers
    to the selected and to the connected one; \<open>session_ok\<close> is its invariant.
  \<^item> \<open>Control_Base\<close>, \<open>Control_Objects\<close>, \<open>Control_Actions\<close>, \<open>Control\<close>: \<open>eca-control-base.cpp\<close>,
    \<open>eca-control-objects.cpp\<close>, \<open>eca-iamode-parser.cpp\<close>, \<open>eca-control.cpp\<close>, \<open>eca-control-dump.cpp\<close>. The interactive commands:
    what an action requires, how a chainsetup is selected, connected or disconnected for it, and what it does.
    \<open>Control_Facts\<close>, \<open>Control_Steps\<close>, \<open>Control_Invariant\<close>: the invariant \<open>control_ok\<close> of the pointers and that every
    operation and every action keeps it. \<open>Control_Errors\<close>: the states of a session, and the commands after which
    the code follows a null or a dangling pointer.
  \<^item> \<open>Engine\<close>, \<open>Engine_Routing\<close>, \<open>Engine_Driver\<close>: \<open>eca-engine.cpp\<close>. Transport, position, signal path, command queue
    and driver loop. \<open>Engine_Mixing\<close>: the audio that outputs and chains get. \<open>Engine_Frames\<close>: what each operation
    leaves alone. \<open>Engine_Safety\<close>, \<open>Engine_Setup\<close>: the invariant of the engine; on a chainsetup of the modelled
    operators and loop devices it never faults, whatever commands arrive.

  \<^bold>\<open>Bounds.\<close> Loops whose length the code bounds are recursions over that bound. Loops that need not end
  are \<open>partial_function (option)\<close> (the search and replace of \<open>Kvu_Strings\<close>); the driver loop of the engine
  runs over the finite list of the turns that the other threads take, so that its results hold for
  every prefix of a run.

  \<^bold>\<open>Not modelled.\<close> Devices and codecs that are libraries (ALSA, JACK, OSS, mp3, Ogg, FLAC, libsndfile, LADSPA, LV2,
  VST), resampling, MIDI devices, the interpreters of option strings, the commands \<open>run\<close>, \<open>cs-edit\<close> and the wave editor, the texts that describe the state, user
  interfaces, and the rounding of floating-point arithmetic. \<open>io_write_buffer\<close> of an engine's object does not change the buffer it
  is given, although exporting to a file with more channels than the buffer adds silent channels to it.
\<close>

end
